(* ===== verification/Prelude.thy ===== *)
theory Prelude
  imports Main "HOL-Library.Multiset"
begin

text \<open>
  Shared vocabulary of the development: outcomes of Rust functions that can fail, panic or
  fail to return, the machine integers of the sources as bounded numbers, strings as lists of
  Unicode scalar values, and the \<open>Vec\<close> operations the components use (search for a position,
  removal and insertion at an index, checked indexing), with the lemmas on them that every
  component theory relies on.
\<close>

named_theorems shell_simps \<open>unfolding rules for the operations of the application shell\<close>
named_theorems rt_simps \<open>unfolding rules for the operations of the pane runtime\<close>

section \<open>Outcomes\<close>

text \<open>
  \<open>Ok\<close> and \<open>Err\<close> are the two values of a Rust \<open>Result\<close>. \<open>Panic\<close> stands for a failed
  \<open>expect\<close>, \<open>unwrap\<close> or slice index, \<open>Diverge\<close> for a loop that does not return.
\<close>

datatype ('a, 'e) outcome = Ok 'a | Err 'e | Panic | Diverge

fun bind_outcome :: "('a, 'e) outcome \<Rightarrow> ('a \<Rightarrow> ('b, 'e) outcome) \<Rightarrow> ('b, 'e) outcome" where
  "bind_outcome (Ok a) f = f a"
| "bind_outcome (Err e) f = Err e"
| "bind_outcome Panic f = Panic"
| "bind_outcome Diverge f = Diverge"

fun map_ok :: "('a \<Rightarrow> 'b) \<Rightarrow> ('a, 'e) outcome \<Rightarrow> ('b, 'e) outcome" where
  "map_ok f (Ok a) = Ok (f a)"
| "map_ok f (Err e) = Err e"
| "map_ok f Panic = Panic"
| "map_ok f Diverge = Diverge"

fun is_ok :: "('a, 'e) outcome \<Rightarrow> bool" where
  "is_ok (Ok a) = True"
| "is_ok _ = False"

fun returns :: "('a, 'e) outcome \<Rightarrow> bool" where
  "returns (Ok a) = True"
| "returns (Err e) = True"
| "returns Panic = False"
| "returns Diverge = False"

text \<open>
  A stateful operation returns its result and the state it leaves, on every path;
  \<open>bind_st\<close> is the \<open>?\<close> that goes on with the state of a successful operation.
\<close>

fun fail_as :: "('a, 'e) outcome \<Rightarrow> ('b, 'e) outcome" where
  "fail_as (Ok a) = Panic"
| "fail_as (Err e) = Err e"
| "fail_as Panic = Panic"
| "fail_as Diverge = Diverge"

definition bind_st ::
    "('a, 'e) outcome \<times> 's \<Rightarrow> ('a \<Rightarrow> 's \<Rightarrow> ('b, 'e) outcome \<times> 's) \<Rightarrow> ('b, 'e) outcome \<times> 's" where
  "bind_st m f = (case m of (r, s) \<Rightarrow> (case r of Ok a \<Rightarrow> f a s | _ \<Rightarrow> (fail_as r, s)))"

text \<open>\<open>iter().map(f).collect::<Result<Vec<_>, _>>()\<close>: stops at the first failure.\<close>

fun collect :: "('a \<Rightarrow> ('b, 'e) outcome) \<Rightarrow> 'a list \<Rightarrow> ('b list, 'e) outcome" where
  "collect f [] = Ok []"
| "collect f (x # xs) = bind_outcome (f x) (\<lambda>y. map_ok (\<lambda>ys. y # ys) (collect f xs))"

lemma returns_iff: "returns r \<longleftrightarrow> r \<noteq> Panic \<and> r \<noteq> Diverge"
  by (cases r) auto

lemma bind_outcome_Ok_iff: "bind_outcome r f = Ok b \<longleftrightarrow> (\<exists>a. r = Ok a \<and> f a = Ok b)"
  by (cases r) auto

lemma map_ok_Ok_iff: "map_ok f r = Ok b \<longleftrightarrow> (\<exists>a. r = Ok a \<and> b = f a)"
  by (cases r) auto

lemma returns_bind: "returns r \<Longrightarrow> (\<And>a. r = Ok a \<Longrightarrow> returns (f a)) \<Longrightarrow> returns (bind_outcome r f)"
  by (cases r) auto

lemma bind_st_simps [simp]:
  "bind_st (Ok a, s) f = f a s" "bind_st (Err e, s) f = (Err e, s)" "bind_st (Panic, s) f = (Panic, s)"
  "bind_st (Diverge, s) f = (Diverge, s)"
  by (simp_all add: bind_st_def)

lemma returns_map_ok [simp]: "returns (map_ok f r) = returns r"
  by (cases r) auto

lemma collect_Ok:
  "(\<And>x. x \<in> set xs \<Longrightarrow> f x = Ok (g x)) \<Longrightarrow> collect f xs = Ok (map g xs)"
  by (induction xs) auto

lemma collect_returns: "(\<And>x. x \<in> set xs \<Longrightarrow> returns (f x)) \<Longrightarrow> returns (collect f xs)"
proof (induction xs)
  case (Cons x xs)
  then have "returns (f x)" and "returns (collect f xs)" by auto
  then show ?case by (auto intro: returns_bind)
qed simp

lemma collect_OkD: "collect f xs = Ok ys \<Longrightarrow> length ys = length xs \<and> (\<forall>i < length xs. f (xs ! i) = Ok (ys ! i))"
proof (induction xs arbitrary: ys)
  case (Cons x xs)
  then obtain y ys' where y: "f x = Ok y" and ys': "collect f xs = Ok ys'" and ys: "ys = y # ys'"
    by (auto simp: bind_outcome_Ok_iff map_ok_Ok_iff)
  with Cons.IH [OF ys'] show ?case by (auto simp: nth_Cons split: nat.splits)
qed simp

section \<open>Machine integers\<close>

text \<open>
  Unsigned integers are natural numbers below their bound, signed ones integers between
  their bounds; saturating and checked operations write the bound out. \<open>usize\<close> and
  \<open>isize\<close> are 64 bits wide.
\<close>

type_synonym u8 = nat
type_synonym u16 = nat
type_synonym u32 = nat
type_synonym u64 = nat
type_synonym usize = nat
type_synonym i16 = int
type_synonym i32 = int
type_synonym isize = int

definition u64_max :: nat where "u64_max = 2 ^ 64 - 1"
definition usize_max :: nat where "usize_max = 2 ^ 64 - 1"
definition u32_max :: nat where "u32_max = 2 ^ 32 - 1"
definition i16_max :: int where "i16_max = 2 ^ 15 - 1"
definition i16_min :: int where "i16_min = - (2 ^ 15)"
definition i32_max :: int where "i32_max = 2 ^ 31 - 1"
definition i32_min :: int where "i32_min = - (2 ^ 31)"

definition sat_add_u64 :: "u64 \<Rightarrow> u64 \<Rightarrow> u64" where
  "sat_add_u64 a b = min (a + b) u64_max"

definition sat_add_usize :: "usize \<Rightarrow> usize \<Rightarrow> usize" where
  "sat_add_usize a b = min (a + b) usize_max"

definition checked_add_u64 :: "u64 \<Rightarrow> u64 \<Rightarrow> u64 option" where
  "checked_add_u64 a b = (if a + b \<le> u64_max then Some (a + b) else None)"

definition checked_add_usize :: "usize \<Rightarrow> usize \<Rightarrow> usize option" where
  "checked_add_usize a b = (if a + b \<le> usize_max then Some (a + b) else None)"

definition sat_add_i16 :: "i16 \<Rightarrow> i16 \<Rightarrow> i16" where
  "sat_add_i16 a b = max i16_min (min i16_max (a + b))"

definition sat_sub_i32 :: "i32 \<Rightarrow> i32 \<Rightarrow> i32" where
  "sat_sub_i32 a b = max i32_min (min i32_max (a - b))"

text \<open>Division of signed integers truncates towards zero.\<close>

definition tdiv :: "int \<Rightarrow> int \<Rightarrow> int" where
  "tdiv a b = sgn a * sgn b * (\<bar>a\<bar> div \<bar>b\<bar>)"

definition fits_i16 :: "int \<Rightarrow> bool" where
  "fits_i16 x \<longleftrightarrow> i16_min \<le> x \<and> x \<le> i16_max"

definition fits_i32 :: "int \<Rightarrow> bool" where
  "fits_i32 x \<longleftrightarrow> i32_min \<le> x \<and> x \<le> i32_max"

definition clamp :: "int \<Rightarrow> int \<Rightarrow> int \<Rightarrow> int" where
  "clamp lo hi x = (if x < lo then lo else if hi < x then hi else x)"

lemmas int_bounds = u64_max_def usize_max_def u32_max_def i16_max_def i16_min_def
  i32_max_def i32_min_def

lemma sat_add_u64_ge: "a \<le> u64_max \<Longrightarrow> a \<le> sat_add_u64 a b"
  by (simp add: sat_add_u64_def)

lemma sat_add_u64_le [simp]: "sat_add_u64 a b \<le> u64_max"
  by (simp add: sat_add_u64_def)

lemma sat_add_u64_exact: "sat_add_u64 a b < u64_max \<Longrightarrow> sat_add_u64 a b = a + b"
  by (simp add: sat_add_u64_def min_def split: if_splits)

lemma sat_add_u64_noflow: "a + b \<le> u64_max \<Longrightarrow> sat_add_u64 a b = a + b"
  by (simp add: sat_add_u64_def)

lemma sat_add_i16_fits [simp]: "fits_i16 (sat_add_i16 a b)"
  by (simp add: fits_i16_def sat_add_i16_def i16_min_def i16_max_def)

lemma sat_sub_i32_exact: "fits_i32 (a - b) \<Longrightarrow> sat_sub_i32 a b = a - b"
  by (simp add: sat_sub_i32_def fits_i32_def)

lemma tdiv_nonneg: "0 \<le> a \<Longrightarrow> 0 < b \<Longrightarrow> tdiv a b = a div b"
  by (cases "a = 0") (auto simp: tdiv_def)

section \<open>Strings\<close>

text \<open>
  A Rust \<open>String\<close> or \<open>str\<close> is the list of its Unicode scalar values. The byte order
  of UTF-8, which \<open>Ord for str\<close> uses, is the lexicographic order of the scalar values.
  \<open>trim\<close> removes the characters with the Unicode property \<open>White_Space\<close>.
\<close>

type_synonym str = "nat list"

definition str_of :: "string \<Rightarrow> str" where
  "str_of s = map of_char s"

definition is_whitespace :: "nat \<Rightarrow> bool" where
  "is_whitespace c \<longleftrightarrow>
     9 \<le> c \<and> c \<le> 13 \<or> c = 32 \<or> c = 0x85 \<or> c = 0xA0 \<or> c = 0x1680 \<or>
     0x2000 \<le> c \<and> c \<le> 0x200A \<or> c = 0x2028 \<or> c = 0x2029 \<or> c = 0x202F \<or>
     c = 0x205F \<or> c = 0x3000"

definition is_ascii_digit :: "nat \<Rightarrow> bool" where
  "is_ascii_digit b \<longleftrightarrow> 0x30 \<le> b \<and> b \<le> 0x39"

text \<open>\<open>str::split\<close> by a character: one part more than there are separators.\<close>

fun split_on :: "nat \<Rightarrow> str \<Rightarrow> str list" where
  "split_on d [] = [[]]"
| "split_on d (c # cs) = (if c = d then [] # split_on d cs
     else case split_on d cs of [] \<Rightarrow> [[c]] | p # ps \<Rightarrow> (c # p) # ps)"

lemma split_on_nonempty [simp]: "split_on d cs \<noteq> []"
  by (induction cs) (auto split: list.splits)

lemma split_on_plain: "d \<notin> set s \<Longrightarrow> split_on d (s @ d # cs) = s # split_on d cs"
  by (induction s) auto

lemma split_on_single: "d \<notin> set s \<Longrightarrow> split_on d s = [s]"
  by (induction s) auto

text \<open>\<open>to_string\<close> of an unsigned number.\<close>

fun decimal :: "nat \<Rightarrow> str" where
  "decimal n = (if n < 10 then [0x30 + n] else decimal (n div 10) @ [0x30 + n mod 10])"

declare decimal.simps [simp del]

lemma digit_ok: "d < 10 \<Longrightarrow> is_ascii_digit (48 + d)"
  by (simp add: is_ascii_digit_def)

lemma decimal_digits: "list_all is_ascii_digit (decimal n)"
proof (induction n rule: decimal.induct)
  case (1 n)
  then show ?case by (subst decimal.simps) (simp add: digit_ok)
qed

lemma decimal_nonempty: "decimal n \<noteq> []"
  by (subst decimal.simps) simp

lemma decimal_value: "foldl (\<lambda>v d. v * 10 + (d - 0x30)) 0 (decimal n) = n"
proof (induction n rule: decimal.induct)
  case (1 n)
  then show ?case by (subst decimal.simps) simp
qed

definition trim :: "str \<Rightarrow> str" where
  "trim s = rev (dropWhile is_whitespace (rev (dropWhile is_whitespace s)))"

lemma trim_idem: "trim (trim s) = trim s"
proof -
  let ?u = "dropWhile is_whitespace s"
  let ?v = "dropWhile is_whitespace (rev ?u)"
  have v: "dropWhile is_whitespace ?v = ?v"
    by simp
  have "dropWhile is_whitespace (rev ?v) = rev ?v"
  proof (cases "rev ?v")
    case (Cons c cs)
    obtain w where w: "rev ?u = w @ ?v"
      by (metis takeWhile_dropWhile_id)
    then have "?u = rev ?v @ rev w"
      by (metis rev_append rev_rev_ident)
    with Cons have "\<not> is_whitespace c"
      by (metis append_Cons hd_dropWhile list.distinct(1) list.sel(1))
    with Cons show ?thesis by simp
  next
    case Nil
    then show ?thesis by (simp only: dropWhile.simps)
  qed
  with v show ?thesis by (simp add: trim_def)
qed

section \<open>Vectors\<close>

text \<open>\<open>iter().position(p)\<close>: the index of the first element that satisfies \<open>p\<close>.\<close>

fun position :: "('a \<Rightarrow> bool) \<Rightarrow> 'a list \<Rightarrow> nat option" where
  "position P [] = None"
| "position P (x # xs) = (if P x then Some 0 else map_option Suc (position P xs))"

text \<open>\<open>get(i)\<close>: checked indexing; \<open>v[i]\<close> panics where it is \<open>None\<close>.\<close>

definition nth_opt :: "'a list \<Rightarrow> nat \<Rightarrow> 'a option" where
  "nth_opt xs i = (if i < length xs then Some (xs ! i) else None)"

definition remove_nth :: "nat \<Rightarrow> 'a list \<Rightarrow> 'a list" where
  "remove_nth i xs = take i xs @ drop (Suc i) xs"

definition insert_nth :: "nat \<Rightarrow> 'a \<Rightarrow> 'a list \<Rightarrow> 'a list" where
  "insert_nth i x xs = take i xs @ x # drop i xs"

lemma position_Some_iff:
  "position P xs = Some i \<longleftrightarrow> i < length xs \<and> P (xs ! i) \<and> (\<forall>j < i. \<not> P (xs ! j))"
proof (induction xs arbitrary: i)
  case (Cons x xs)
  show ?case
    by (cases i) (auto simp: Cons.IH All_less_Suc2)
qed simp

lemma position_None_iff: "position P xs = None \<longleftrightarrow> (\<forall>x \<in> set xs. \<not> P x)"
  by (induction xs) auto

lemma position_SomeD: "position P xs = Some i \<Longrightarrow> i < length xs \<and> P (xs ! i)"
  by (simp add: position_Some_iff)

lemma position_ex: "x \<in> set xs \<Longrightarrow> P x \<Longrightarrow> \<exists>i. position P xs = Some i"
  by (metis option.exhaust position_None_iff)

lemma position_distinct:
  assumes "distinct (map f xs)" and "i < length xs"
  shows "position (\<lambda>x. f x = f (xs ! i)) xs = Some i"
  using assms by (force simp: position_Some_iff distinct_conv_nth)

lemma nth_opt_Some_iff [simp]: "nth_opt xs i = Some x \<longleftrightarrow> i < length xs \<and> xs ! i = x"
  by (auto simp: nth_opt_def)

lemma nth_opt_None_iff [simp]: "nth_opt xs i = None \<longleftrightarrow> length xs \<le> i"
  by (auto simp: nth_opt_def)

lemma nth_opt_less: "i < length xs \<Longrightarrow> nth_opt xs i = Some (xs ! i)"
  by simp

lemma length_remove_nth [simp]: "i < length xs \<Longrightarrow> length (remove_nth i xs) = length xs - 1"
  by (simp add: remove_nth_def)

lemma length_insert_nth [simp]: "i \<le> length xs \<Longrightarrow> length (insert_nth i x xs) = Suc (length xs)"
  by (simp add: insert_nth_def)

lemma mset_remove_nth: "i < length xs \<Longrightarrow> mset xs = add_mset (xs ! i) (mset (remove_nth i xs))"
proof -
  assume i: "i < length xs"
  have "mset xs = mset (take i xs @ xs ! i # drop (Suc i) xs)"
    using i by (simp add: id_take_nth_drop [symmetric])
  then show ?thesis by (simp add: remove_nth_def)
qed

lemma mset_insert_nth [simp]: "mset (insert_nth i x xs) = add_mset x (mset xs)"
  by (simp add: insert_nth_def) (metis append_take_drop_id mset_append)

lemma set_insert_nth [simp]: "set (insert_nth i x xs) = insert x (set xs)"
  by (metis mset_insert_nth set_mset_add_mset_insert set_mset_mset)

lemma set_remove_nth: "i < length xs \<Longrightarrow> set xs = insert (xs ! i) (set (remove_nth i xs))"
  by (metis mset_remove_nth set_mset_add_mset_insert set_mset_mset)

lemma set_remove_nth_subset: "set (remove_nth i xs) \<subseteq> set xs"
  by (auto simp: remove_nth_def dest: in_set_takeD in_set_dropD)

lemma map_remove_nth: "map f (remove_nth i xs) = remove_nth i (map f xs)"
  by (simp add: remove_nth_def take_map drop_map)

lemma map_insert_nth: "map f (insert_nth i x xs) = insert_nth i (f x) (map f xs)"
  by (simp add: insert_nth_def take_map drop_map)

lemma remove_nth_distinct:
  "distinct xs \<Longrightarrow> i < length xs \<Longrightarrow> distinct (remove_nth i xs) \<and> xs ! i \<notin> set (remove_nth i xs)"
  by (metis distinct_count_atmost_1 mset_remove_nth set_mset_mset
      add_mset_remove_trivial_If distinct.simps(2) mset.simps(2) mset_eq_imp_distinct_iff)

lemma distinct_insert_nth: "distinct (insert_nth i x xs) \<longleftrightarrow> x \<notin> set xs \<and> distinct xs"
  by (metis distinct.simps(2) mset.simps(2) mset_eq_imp_distinct_iff mset_insert_nth)

lemma insert_remove_nth: "i < length xs \<Longrightarrow> insert_nth i (xs ! i) (remove_nth i xs) = xs"
  by (simp add: insert_nth_def remove_nth_def id_take_nth_drop [symmetric])

lemma remove_insert_nth: "i \<le> length xs \<Longrightarrow> remove_nth i (insert_nth i x xs) = xs"
  by (simp add: insert_nth_def remove_nth_def)

lemma set_list_update_memI: "i < length xs \<Longrightarrow> P x \<Longrightarrow> \<forall>y \<in> set xs. P y \<Longrightarrow> \<forall>y \<in> set (xs[i := x]). P y"
  using set_update_subset_insert by fastforce

lemma last_filter_keep: "xs \<noteq> [] \<Longrightarrow> P (last xs) \<Longrightarrow> filter P xs \<noteq> [] \<and> last (filter P xs) = last xs"
  by (induction xs rule: rev_induct) auto

lemma map_commute: "(\<And>x. f (g x) = h (f x)) \<Longrightarrow> map f (map g xs) = map h (map f xs)"
  by simp

lemma map_update_same: "i < length xs \<Longrightarrow> f x = f (xs ! i) \<Longrightarrow> map f (xs[i := x]) = map f xs"
  by (metis list_update_id map_update)

end
