(* ===== verification/Launch.thy ===== *)
theory Launch
  imports Prelude
begin

text \<open>
  How a pane is launched (\<open>rssh-domain/src/app_shell.rs\<close>, \<open>PaneLaunch\<close> and its parts):
  the local program or the SSH target a pane connects to, the builder operations on it, and
  what a tab, split or window opened from a pane inherits.
\<close>

section \<open>Data\<close>

datatype ssh_target_kind = Direct | OpenSsh

datatype ssh_auth_description = Agent | PasswordPrompt | PrivateKey str

datatype ssh_known_hosts_policy = RejectUnknown | Prompt | TrustOnFirstUse | AcceptUnknown

record ssh_pane_launch =
  ssh_target :: str
  ssh_target_kind :: ssh_target_kind
  ssh_username :: "str option"
  ssh_port :: "u16 option"
  ssh_auth :: ssh_auth_description
  ssh_known_hosts_policy :: ssh_known_hosts_policy
  ssh_remote_command :: "str list"

datatype pane_launch_domain = Local | Ssh ssh_pane_launch

record pane_launch =
  l_domain :: pane_launch_domain
  l_program :: str
  l_args :: "str list"
  l_cwd :: "str option"
  l_environment :: "str \<rightharpoonup> str"

section \<open>Operations\<close>

definition ssh_pane_launch_new ::
    "str \<Rightarrow> ssh_auth_description \<Rightarrow> ssh_known_hosts_policy \<Rightarrow> ssh_pane_launch" where
  "ssh_pane_launch_new target auth policy =
     \<lparr>ssh_target = target, ssh_target_kind = Direct, ssh_username = None, ssh_port = None,
      ssh_auth = auth, ssh_known_hosts_policy = policy, ssh_remote_command = []\<rparr>"

definition ssh_pane_launch_openssh ::
    "str \<Rightarrow> ssh_auth_description \<Rightarrow> ssh_known_hosts_policy \<Rightarrow> ssh_pane_launch" where
  "ssh_pane_launch_openssh target auth policy =
     \<lparr>ssh_target = target, ssh_target_kind = OpenSsh, ssh_username = None, ssh_port = None,
      ssh_auth = auth, ssh_known_hosts_policy = policy, ssh_remote_command = []\<rparr>"

definition with_remote_command :: "ssh_pane_launch \<Rightarrow> str list \<Rightarrow> ssh_pane_launch" where
  "with_remote_command s command = s\<lparr>ssh_remote_command := command\<rparr>"

definition with_target_overrides ::
    "ssh_pane_launch \<Rightarrow> str option \<Rightarrow> u16 option \<Rightarrow> ssh_pane_launch" where
  "with_target_overrides s username port = s\<lparr>ssh_username := username, ssh_port := port\<rparr>"

definition pane_launch_local :: "str \<Rightarrow> pane_launch" where
  "pane_launch_local program =
     \<lparr>l_domain = Local, l_program = program, l_args = [], l_cwd = None,
      l_environment = Map.empty\<rparr>"

definition pane_launch_ssh :: "ssh_pane_launch \<Rightarrow> pane_launch" where
  "pane_launch_ssh launch =
     \<lparr>l_domain = Ssh launch, l_program = [], l_args = [], l_cwd = None,
      l_environment = Map.empty\<rparr>"

definition for_child_pane :: "pane_launch \<Rightarrow> pane_launch" where
  "for_child_pane l =
     (case l_domain l of
        Local \<Rightarrow> l
      | Ssh ssh \<Rightarrow> pane_launch_ssh
          \<lparr>ssh_target = ssh_target ssh, ssh_target_kind = ssh_target_kind ssh,
           ssh_username = ssh_username ssh, ssh_port = ssh_port ssh, ssh_auth = ssh_auth ssh,
           ssh_known_hosts_policy = ssh_known_hosts_policy ssh, ssh_remote_command = []\<rparr>)"

definition with_args :: "pane_launch \<Rightarrow> str list \<Rightarrow> pane_launch" where
  "with_args l args = l\<lparr>l_args := l_args l @ args\<rparr>"

definition with_cwd :: "pane_launch \<Rightarrow> str \<Rightarrow> pane_launch" where
  "with_cwd l cwd = l\<lparr>l_cwd := Some cwd\<rparr>"

definition with_environment :: "pane_launch \<Rightarrow> (str \<times> str) list \<Rightarrow> pane_launch" where
  "with_environment l env =
     l\<lparr>l_environment := fold (\<lambda>(k, v) m. m(k \<mapsto> v)) env (l_environment l)\<rparr>"

definition set_cwd :: "pane_launch \<Rightarrow> str option \<Rightarrow> pane_launch" where
  "set_cwd l cwd = l\<lparr>l_cwd := cwd\<rparr>"

section \<open>Inheritance\<close>

lemma for_child_pane_local: "l_domain l = Local \<Longrightarrow> for_child_pane l = l"
  by (simp add: for_child_pane_def)

lemma for_child_pane_idem: "for_child_pane (for_child_pane l) = for_child_pane l"
  by (simp add: for_child_pane_def pane_launch_ssh_def split: pane_launch_domain.split)

lemma for_child_pane_ssh:
  "l_domain l = Ssh ssh \<Longrightarrow>
   for_child_pane l = pane_launch_ssh (with_remote_command ssh [])"
  by (cases ssh) (simp add: for_child_pane_def with_remote_command_def)

lemma with_environment_lookup:
  "l_environment (with_environment l env) k =
     (case map_of (rev env) k of Some v \<Rightarrow> Some v | None \<Rightarrow> l_environment l k)"
proof -
  have "fold (\<lambda>(k, v) m. m(k \<mapsto> v)) env m k =
      (case map_of (rev env) k of Some v \<Rightarrow> Some v | None \<Rightarrow> m k)" for m :: "str \<rightharpoonup> str"
    by (induction env arbitrary: m) (auto simp: map_add_def split: option.splits)
  then show ?thesis by (simp add: with_environment_def)
qed

end
