(* ===== verification/Panes.thy ===== *)
theory Panes
  imports Launch
begin

text \<open>
  Identities, errors and the pane model of the application shell
  (\<open>rssh-domain/src/app_shell.rs\<close>, \<open>rssh-domain/src/lib.rs\<close>): a pane carries its launch,
  the metadata projected from its runtime, and the split that created it.
\<close>

section \<open>Identities and errors\<close>

type_synonym pane_id = u64
type_synonym tab_id = u64
type_synonym workspace_id = u64
type_synonym window_id = u64

datatype app_shell_error =
    InvalidWorkspace workspace_id
  | InvalidTab tab_id
  | InvalidTabIndex usize
  | InvalidPane pane_id
  | CannotCloseLastTab
  | CannotCloseLastPane
  | CannotCloseLastWorkspace
  | UnsupportedAction

type_synonym 'a app_result = "('a, app_shell_error) outcome"

section \<open>Panes and splits\<close>

datatype split_direction = SplitLeft | SplitRight | SplitUp | SplitDown

datatype resize_direction = ResizeLeft | ResizeRight | ResizeUp | ResizeDown

datatype pane_direction = DirLeft | DirRight | DirUp | DirDown | DirNext | DirPrevious

datatype pane_rotation_direction = Clockwise | CounterClockwise

record pane_split =
  sp_source_pane :: pane_id
  sp_direction :: split_direction
  sp_source_size_delta :: i16

datatype pane_progress =
  NoProgress | Percentage u8 | ErrorProgress u8 | Indeterminate

record pane =
  p_id :: pane_id
  p_launch :: pane_launch
  p_user_vars :: "str \<rightharpoonup> str"
  p_badge_format :: "str option"
  p_progress :: pane_progress
  p_has_unseen_output :: bool
  p_split :: "pane_split option"

definition pane_new :: "pane_id \<Rightarrow> pane_launch \<Rightarrow> pane" where
  "pane_new i launch =
     \<lparr>p_id = i, p_launch = launch, p_user_vars = Map.empty, p_badge_format = None,
      p_progress = NoProgress, p_has_unseen_output = False, p_split = None\<rparr>"

definition with_split :: "pane \<Rightarrow> pane_split option \<Rightarrow> pane" where
  "with_split p split = p\<lparr>p_split := split\<rparr>"

definition set_user_var :: "pane \<Rightarrow> str \<Rightarrow> str \<Rightarrow> pane" where
  "set_user_var p name value = p\<lparr>p_user_vars := (p_user_vars p)(name \<mapsto> value)\<rparr>"

definition set_badge_format :: "pane \<Rightarrow> str option \<Rightarrow> pane" where
  "set_badge_format p badge_format = p\<lparr>p_badge_format := badge_format\<rparr>"

definition set_progress :: "pane \<Rightarrow> pane_progress \<Rightarrow> pane" where
  "set_progress p progress = p\<lparr>p_progress := progress\<rparr>"

definition set_has_unseen_output :: "pane \<Rightarrow> bool \<Rightarrow> pane" where
  "set_has_unseen_output p b = p\<lparr>p_has_unseen_output := b\<rparr>"

definition reset_runtime_projection :: "pane \<Rightarrow> pane" where
  "reset_runtime_projection p =
     p\<lparr>p_user_vars := Map.empty, p_badge_format := None, p_progress := NoProgress,
       p_has_unseen_output := False\<rparr>"

lemmas pane_op_defs = pane_new_def with_split_def set_user_var_def set_badge_format_def
  set_progress_def set_has_unseen_output_def reset_runtime_projection_def

lemma pane_op_id [simp]:
  "p_id (pane_new i l) = i" "p_id (with_split p sp) = p_id p"
  "p_id (set_user_var p n v) = p_id p" "p_id (set_badge_format p b) = p_id p"
  "p_id (set_progress p g) = p_id p" "p_id (set_has_unseen_output p u) = p_id p"
  "p_id (reset_runtime_projection p) = p_id p"
  by (simp_all add: pane_op_defs)

lemma pane_op_split [simp]:
  "p_split (pane_new i l) = None" "p_split (with_split p sp) = sp"
  "p_split (set_user_var p n v) = p_split p" "p_split (set_badge_format p b) = p_split p"
  "p_split (set_progress p g) = p_split p" "p_split (set_has_unseen_output p u) = p_split p"
  "p_split (reset_runtime_projection p) = p_split p"
  by (simp_all add: pane_op_defs)

lemma pane_op_launch [simp]:
  "p_launch (pane_new i l) = l" "p_launch (with_split p sp) = p_launch p"
  "p_launch (set_user_var p n v) = p_launch p" "p_launch (set_badge_format p b) = p_launch p"
  "p_launch (set_progress p g) = p_launch p" "p_launch (set_has_unseen_output p u) = p_launch p"
  "p_launch (reset_runtime_projection p) = p_launch p"
  by (simp_all add: pane_op_defs)

lemma pane_update_id [simp]:
  "p_id (p\<lparr>p_launch := l\<rparr>) = p_id p" "p_id (p\<lparr>p_split := sp\<rparr>) = p_id p"
  by simp_all

end
