(* ===== verification/Split_Geometry.thy ===== *)
theory Split_Geometry
  imports Panes
begin

text \<open>
  The cell arithmetic of splits (\<open>rssh-domain/src/app_shell.rs\<close>): how a span of cells is
  divided between a source pane, a separator and a new pane, how a rectangle is divided in
  each direction, how a size delta is rescaled when the window is resized, and which split a
  resize command moves. \<open>i32\<close> values are integers; \<open>rect_fits\<close> below shows that the
  values the code computes stay far inside the type.
\<close>

section \<open>Definitions\<close>

record pane_direction_rect =
  r_pane_id :: pane_id
  r_row :: i32
  r_column :: i32
  r_rows :: i32
  r_columns :: i32

definition rect_right :: "pane_direction_rect \<Rightarrow> i32" where
  "rect_right r = r_column r + r_columns r"

definition rect_bottom :: "pane_direction_rect \<Rightarrow> i32" where
  "rect_bottom r = r_row r + r_rows r"

definition range_overlap :: "i32 \<Rightarrow> i32 \<Rightarrow> i32 \<Rightarrow> i32 \<Rightarrow> i32" where
  "range_overlap first_start first_end second_start second_end =
     sat_sub_i32 (min first_end second_end) (max first_start second_start)"

definition pane_direction_candidate ::
    "pane_direction_rect \<Rightarrow> pane_direction_rect \<Rightarrow> pane_direction \<Rightarrow> (i32 \<times> i32) option" where
  "pane_direction_candidate active candidate direction =
     (case direction of
        DirLeft \<Rightarrow>
          (let distance = r_column active - rect_right candidate;
               overlap = range_overlap (r_row active) (rect_bottom active)
                           (r_row candidate) (rect_bottom candidate)
           in if distance \<ge> 0 \<and> overlap > 0 then Some (distance, overlap) else None)
      | DirRight \<Rightarrow>
          (let distance = r_column candidate - rect_right active;
               overlap = range_overlap (r_row active) (rect_bottom active)
                           (r_row candidate) (rect_bottom candidate)
           in if distance \<ge> 0 \<and> overlap > 0 then Some (distance, overlap) else None)
      | DirUp \<Rightarrow>
          (let distance = r_row active - rect_bottom candidate;
               overlap = range_overlap (r_column active) (rect_right active)
                           (r_column candidate) (rect_right candidate)
           in if distance \<ge> 0 \<and> overlap > 0 then Some (distance, overlap) else None)
      | DirDown \<Rightarrow>
          (let distance = r_row candidate - rect_bottom active;
               overlap = range_overlap (r_column active) (rect_right active)
                           (r_column candidate) (rect_right candidate)
           in if distance \<ge> 0 \<and> overlap > 0 then Some (distance, overlap) else None)
      | DirNext \<Rightarrow> None
      | DirPrevious \<Rightarrow> None)"

definition adjusted_direction_source_size :: "i32 \<Rightarrow> i32 \<Rightarrow> i16 \<Rightarrow> i32" where
  "adjusted_direction_source_size total_cells default_source_cells delta =
     (let max_source_cells = max (sat_sub_i32 total_cells 2) 1;
          adjusted = default_source_cells + delta
      in clamp 1 max_source_cells adjusted)"

definition split_pane_direction_sizes :: "i32 \<Rightarrow> i16 \<Rightarrow> (i32 \<times> i32) option" where
  "split_pane_direction_sizes total_cells source_size_delta =
     (let source_cells = adjusted_direction_source_size total_cells
                           (tdiv (sat_sub_i32 total_cells 1) 2) source_size_delta;
          new_cells = sat_sub_i32 (sat_sub_i32 total_cells source_cells) 1
      in if source_cells > 0 \<and> new_cells > 0 then Some (source_cells, new_cells) else None)"

definition split_pane_direction_columns :: "i32 \<Rightarrow> i16 \<Rightarrow> i32 \<Rightarrow> (i32 \<times> i32) option" where
  "split_pane_direction_columns total_columns source_size_delta rows =
     (if total_columns < 3 \<or> rows \<le> 0 then None
      else split_pane_direction_sizes total_columns source_size_delta)"

definition split_pane_direction_rows :: "i32 \<Rightarrow> i16 \<Rightarrow> i32 \<Rightarrow> (i32 \<times> i32) option" where
  "split_pane_direction_rows total_rows source_size_delta columns =
     (if total_rows < 3 \<or> columns \<le> 0 then None
      else split_pane_direction_sizes total_rows source_size_delta)"

type_synonym rect_pair = "pane_direction_rect \<times> pane_direction_rect"

definition split_pane_direction_rect_right ::
    "pane_direction_rect \<Rightarrow> pane_id \<Rightarrow> pane_split \<Rightarrow> rect_pair option" where
  "split_pane_direction_rect_right source new_pane_id split =
     (case split_pane_direction_columns (r_columns source) (sp_source_size_delta split)
             (r_rows source) of
        None \<Rightarrow> None
      | Some (source_columns, new_columns) \<Rightarrow> Some
          (source\<lparr>r_columns := source_columns\<rparr>,
           \<lparr>r_pane_id = new_pane_id, r_row = r_row source,
            r_column = r_column source + source_columns + 1,
            r_rows = r_rows source, r_columns = new_columns\<rparr>))"

definition split_pane_direction_rect_left ::
    "pane_direction_rect \<Rightarrow> pane_id \<Rightarrow> pane_split \<Rightarrow> rect_pair option" where
  "split_pane_direction_rect_left source new_pane_id split =
     (case split_pane_direction_columns (r_columns source) (sp_source_size_delta split)
             (r_rows source) of
        None \<Rightarrow> None
      | Some (source_columns, new_columns) \<Rightarrow> Some
          (source\<lparr>r_column := r_column source + new_columns + 1, r_columns := source_columns\<rparr>,
           \<lparr>r_pane_id = new_pane_id, r_row = r_row source, r_column = r_column source,
            r_rows = r_rows source, r_columns = new_columns\<rparr>))"

definition split_pane_direction_rect_down ::
    "pane_direction_rect \<Rightarrow> pane_id \<Rightarrow> pane_split \<Rightarrow> rect_pair option" where
  "split_pane_direction_rect_down source new_pane_id split =
     (case split_pane_direction_rows (r_rows source) (sp_source_size_delta split)
             (r_columns source) of
        None \<Rightarrow> None
      | Some (source_rows, new_rows) \<Rightarrow> Some
          (source\<lparr>r_rows := source_rows\<rparr>,
           \<lparr>r_pane_id = new_pane_id, r_row = r_row source + source_rows + 1,
            r_column = r_column source, r_rows = new_rows, r_columns = r_columns source\<rparr>))"

definition split_pane_direction_rect_up ::
    "pane_direction_rect \<Rightarrow> pane_id \<Rightarrow> pane_split \<Rightarrow> rect_pair option" where
  "split_pane_direction_rect_up source new_pane_id split =
     (case split_pane_direction_rows (r_rows source) (sp_source_size_delta split)
             (r_columns source) of
        None \<Rightarrow> None
      | Some (source_rows, new_rows) \<Rightarrow> Some
          (source\<lparr>r_row := r_row source + new_rows + 1, r_rows := source_rows\<rparr>,
           \<lparr>r_pane_id = new_pane_id, r_row = r_row source, r_column = r_column source,
            r_rows = new_rows, r_columns = r_columns source\<rparr>))"

definition split_pane_direction_rect ::
    "pane_direction_rect \<Rightarrow> pane_id \<Rightarrow> pane_split \<Rightarrow> rect_pair option" where
  "split_pane_direction_rect source new_pane_id split =
     (case sp_direction split of
        SplitRight \<Rightarrow> split_pane_direction_rect_right source new_pane_id split
      | SplitLeft \<Rightarrow> split_pane_direction_rect_left source new_pane_id split
      | SplitDown \<Rightarrow> split_pane_direction_rect_down source new_pane_id split
      | SplitUp \<Rightarrow> split_pane_direction_rect_up source new_pane_id split)"

record split_layout_size =
  sl_columns :: i32
  sl_rows :: i32

definition split_layout_axis_size :: "split_layout_size \<Rightarrow> split_direction \<Rightarrow> i32" where
  "split_layout_axis_size sz direction =
     (case direction of
        SplitLeft \<Rightarrow> sl_columns sz | SplitRight \<Rightarrow> sl_columns sz
      | SplitUp \<Rightarrow> sl_rows sz | SplitDown \<Rightarrow> sl_rows sz)"

definition split_layout_size_of ::
    "split_layout_size \<Rightarrow> split_direction \<Rightarrow> i16 \<Rightarrow>
     (split_layout_size \<times> split_layout_size, 'e) outcome" where
  "split_layout_size_of source direction source_size_delta =
     (let total = max (split_layout_axis_size source direction) 3
      in case split_pane_direction_sizes total source_size_delta of
           None \<Rightarrow> Panic
         | Some (source_cells, new_cells) \<Rightarrow>
             (if direction = SplitRight \<or> direction = SplitLeft
              then Ok (source\<lparr>sl_columns := source_cells\<rparr>, source\<lparr>sl_columns := new_cells\<rparr>)
              else Ok (source\<lparr>sl_rows := source_cells\<rparr>, source\<lparr>sl_rows := new_cells\<rparr>)))"

definition preserve_split_source_size_delta :: "i32 \<Rightarrow> i16 \<Rightarrow> i32 \<Rightarrow> (i16, 'e) outcome" where
  "preserve_split_source_size_delta old_total old_delta new_total =
     (let old_total_cells = max old_total 3; new_total_cells = max new_total 3
      in case split_pane_direction_sizes old_total_cells old_delta of
           None \<Rightarrow> Panic
         | Some (old_source_cells, _) \<Rightarrow>
             (let old_usable_cells = old_total_cells - 1;
                  new_usable_cells = new_total_cells - 1;
                  scaled_source_cells =
                    tdiv (old_source_cells * new_usable_cells + tdiv old_usable_cells 2)
                         old_usable_cells;
                  source_cells =
                    clamp 1 (new_usable_cells - 1)
                      (if fits_i32 scaled_source_cells then scaled_source_cells else i32_max);
                  default_source_cells = tdiv new_usable_cells 2
              in Ok (if fits_i16 (source_cells - default_source_cells)
                     then source_cells - default_source_cells
                     else if source_cells < default_source_cells then i16_min else i16_max)))"

definition split_resize_source_delta ::
    "pane_id \<Rightarrow> pane_id \<Rightarrow> pane_split \<Rightarrow> resize_direction \<Rightarrow> i16 option" where
  "split_resize_source_delta pane new_pane split direction =
     (case (sp_direction split, pane = sp_source_pane split, pane = new_pane) of
        (SplitRight, True, False) \<Rightarrow>
          (case direction of ResizeRight \<Rightarrow> Some 1 | ResizeLeft \<Rightarrow> Some (-1) | _ \<Rightarrow> None)
      | (SplitRight, False, True) \<Rightarrow>
          (case direction of ResizeLeft \<Rightarrow> Some (-1) | ResizeRight \<Rightarrow> Some 1 | _ \<Rightarrow> None)
      | (SplitLeft, True, False) \<Rightarrow>
          (case direction of ResizeLeft \<Rightarrow> Some 1 | ResizeRight \<Rightarrow> Some (-1) | _ \<Rightarrow> None)
      | (SplitLeft, False, True) \<Rightarrow>
          (case direction of ResizeRight \<Rightarrow> Some (-1) | ResizeLeft \<Rightarrow> Some 1 | _ \<Rightarrow> None)
      | (SplitDown, True, False) \<Rightarrow>
          (case direction of ResizeDown \<Rightarrow> Some 1 | ResizeUp \<Rightarrow> Some (-1) | _ \<Rightarrow> None)
      | (SplitDown, False, True) \<Rightarrow>
          (case direction of ResizeUp \<Rightarrow> Some (-1) | ResizeDown \<Rightarrow> Some 1 | _ \<Rightarrow> None)
      | (SplitUp, True, False) \<Rightarrow>
          (case direction of ResizeUp \<Rightarrow> Some 1 | ResizeDown \<Rightarrow> Some (-1) | _ \<Rightarrow> None)
      | (SplitUp, False, True) \<Rightarrow>
          (case direction of ResizeDown \<Rightarrow> Some (-1) | ResizeUp \<Rightarrow> Some 1 | _ \<Rightarrow> None)
      | _ \<Rightarrow> None)"

section \<open>Dividing a span\<close>

lemma split_sizes_eq:
  assumes "3 \<le> t" and "t \<le> i32_max"
  shows "split_pane_direction_sizes t d =
    (let s = clamp 1 (t - 2) ((t - 1) div 2 + d) in Some (s, t - s - 1))"
proof -
  have fits: "fits_i32 (t - k)" if "0 \<le> k" "k \<le> t" for k
    using assms that by (simp add: fits_i32_def int_bounds)
  let ?s = "clamp 1 (t - 2) ((t - 1) div 2 + d)"
  have s: "1 \<le> ?s" "?s \<le> t - 2"
    using assms by (auto simp: clamp_def)
  have adj: "adjusted_direction_source_size t (tdiv (sat_sub_i32 t 1) 2) d = ?s"
    using assms fits [of 1] fits [of 2]
    by (simp add: adjusted_direction_source_size_def sat_sub_i32_exact tdiv_nonneg Let_def max_def)
  have "sat_sub_i32 (sat_sub_i32 t ?s) 1 = t - ?s - 1"
    using s assms fits [of ?s] fits [of "?s + 1"] by (simp add: sat_sub_i32_exact algebra_simps)
  then show ?thesis
    using s by (simp add: split_pane_direction_sizes_def adj Let_def)
qed

lemma split_sizes_Some:
  assumes "3 \<le> t" and "t \<le> i32_max"
  obtains s n where "split_pane_direction_sizes t d = Some (s, n)"
    and "1 \<le> s" and "1 \<le> n" and "s + n + 1 = t" and "s = clamp 1 (t - 2) ((t - 1) div 2 + d)"
proof (rule that)
  show "split_pane_direction_sizes t d =
      Some (clamp 1 (t - 2) ((t - 1) div 2 + d), t - clamp 1 (t - 2) ((t - 1) div 2 + d) - 1)"
    using assms by (simp add: split_sizes_eq Let_def)
qed (use assms in \<open>auto simp: clamp_def\<close>)

lemma split_sizes_SomeD:
  assumes "split_pane_direction_sizes t d = Some (s, n)" and "3 \<le> t" and "t \<le> i32_max"
  shows "1 \<le> s" and "1 \<le> n" and "s + n + 1 = t"
  using assms by (auto elim: split_sizes_Some [of t d])

section \<open>Dividing a rectangle\<close>

text \<open>The cells a rectangle covers, and the size bounds under which \<open>i32\<close> is exact.\<close>

definition rect_cells :: "pane_direction_rect \<Rightarrow> (int \<times> int) set" where
  "rect_cells r = {r_row r ..< rect_bottom r} \<times> {r_column r ..< rect_right r}"

definition rect_fits :: "i32 \<Rightarrow> pane_direction_rect \<Rightarrow> bool" where
  "rect_fits m r \<longleftrightarrow> 0 \<le> r_row r \<and> 0 \<le> r_column r \<and> 1 \<le> r_rows r \<and> 1 \<le> r_columns r \<and>
     rect_bottom r \<le> m \<and> rect_right r \<le> m"

lemmas rect_defs = rect_cells_def rect_fits_def rect_right_def rect_bottom_def

lemma rect_fits_nonempty: "rect_fits m r \<Longrightarrow> rect_cells r \<noteq> {}"
  by (auto simp: rect_defs)

lemma split_columns_SomeD:
  assumes "split_pane_direction_columns t d r = Some (s, n)" and "t \<le> i32_max"
  shows "1 \<le> s \<and> 1 \<le> n \<and> s + n + 1 = t"
  using assms split_sizes_SomeD [of t d s n]
  by (auto simp: split_pane_direction_columns_def split: if_splits)

lemma split_rows_SomeD:
  assumes "split_pane_direction_rows t d c = Some (s, n)" and "t \<le> i32_max"
  shows "1 \<le> s \<and> 1 \<le> n \<and> s + n + 1 = t"
  using assms split_sizes_SomeD [of t d s n]
  by (auto simp: split_pane_direction_rows_def split: if_splits)

lemmas split_rect_defs = split_pane_direction_rect_def split_pane_direction_rect_right_def
  split_pane_direction_rect_left_def split_pane_direction_rect_down_def
  split_pane_direction_rect_up_def

text \<open>
  The two halves keep their identities, stay inside the source rectangle, do not overlap, and
  together leave exactly one line of separator cells.
\<close>

lemma split_rect_sound:
  assumes sp: "split_pane_direction_rect source i sp = Some (a, b)"
    and fits: "rect_fits m source" and m: "m \<le> i32_max"
  shows "rect_fits m a \<and> rect_fits m b \<and> r_pane_id a = r_pane_id source \<and> r_pane_id b = i \<and>
    rect_cells a \<inter> rect_cells b = {} \<and> rect_cells a \<union> rect_cells b \<subseteq> rect_cells source"
proof -
  have c: "r_columns source \<le> i32_max" and r: "r_rows source \<le> i32_max"
    using fits m by (auto simp: rect_defs)
  show ?thesis
  proof (cases "sp_direction sp")
    case SplitLeft
    with sp obtain s n where sn: "split_pane_direction_columns (r_columns source)
        (sp_source_size_delta sp) (r_rows source) = Some (s, n)"
      and ab: "a = source\<lparr>r_column := r_column source + n + 1, r_columns := s\<rparr>"
        "b = \<lparr>r_pane_id = i, r_row = r_row source, r_column = r_column source,
            r_rows = r_rows source, r_columns = n\<rparr>"
      by (auto simp: split_rect_defs split: option.splits)
    from split_columns_SomeD [OF sn c] fits show ?thesis by (auto simp: ab rect_defs)
  next
    case SplitRight
    with sp obtain s n where sn: "split_pane_direction_columns (r_columns source)
        (sp_source_size_delta sp) (r_rows source) = Some (s, n)"
      and ab: "a = source\<lparr>r_columns := s\<rparr>"
        "b = \<lparr>r_pane_id = i, r_row = r_row source, r_column = r_column source + s + 1,
            r_rows = r_rows source, r_columns = n\<rparr>"
      by (auto simp: split_rect_defs split: option.splits)
    from split_columns_SomeD [OF sn c] fits show ?thesis by (auto simp: ab rect_defs)
  next
    case SplitUp
    with sp obtain s n where sn: "split_pane_direction_rows (r_rows source)
        (sp_source_size_delta sp) (r_columns source) = Some (s, n)"
      and ab: "a = source\<lparr>r_row := r_row source + n + 1, r_rows := s\<rparr>"
        "b = \<lparr>r_pane_id = i, r_row = r_row source, r_column = r_column source,
            r_rows = n, r_columns = r_columns source\<rparr>"
      by (auto simp: split_rect_defs split: option.splits)
    from split_rows_SomeD [OF sn r] fits show ?thesis by (auto simp: ab rect_defs)
  next
    case SplitDown
    with sp obtain s n where sn: "split_pane_direction_rows (r_rows source)
        (sp_source_size_delta sp) (r_columns source) = Some (s, n)"
      and ab: "a = source\<lparr>r_rows := s\<rparr>"
        "b = \<lparr>r_pane_id = i, r_row = r_row source + s + 1, r_column = r_column source,
            r_rows = n, r_columns = r_columns source\<rparr>"
      by (auto simp: split_rect_defs split: option.splits)
    from split_rows_SomeD [OF sn r] fits show ?thesis by (auto simp: ab rect_defs)
  qed
qed

section \<open>Rescaling a split\<close>

lemma split_layout_size_of_Ok:
  assumes "split_layout_axis_size source dir \<le> i32_max"
  shows "\<exists>a b. split_layout_size_of source dir d = Ok (a, b)"
proof -
  have "3 \<le> max (split_layout_axis_size source dir) 3" "max (split_layout_axis_size source dir) 3 \<le> i32_max"
    using assms by (auto simp: int_bounds)
  then obtain s n where "split_pane_direction_sizes (max (split_layout_axis_size source dir) 3) d = Some (s, n)"
    by (rule split_sizes_Some)
  then show ?thesis by (simp add: split_layout_size_of_def Let_def)
qed

text \<open>Rounding to the nearest cell.\<close>

lemma round_nearest:
  fixes a b :: int
  assumes "0 \<le> a" and "0 < b"
  shows "\<bar>2 * (((a + b div 2) div b) * b - a)\<bar> \<le> b"
proof -
  define h where "h = b div 2"
  define p where "p = (a + h) div b * b"
  define r where "r = (a + h) mod b"
  have "p + r = a + h"
    by (simp add: p_def r_def)
  moreover have "0 \<le> r" "r < b"
    using assms by (simp_all add: r_def)
  moreover have "b - 1 \<le> 2 * h" "2 * h \<le> b"
    by (simp_all add: h_def)
  ultimately have "2 * (p - a) \<le> b" and "- b \<le> 2 * (p - a)" by presburger+
  then have "\<bar>2 * (p - a)\<bar> \<le> b" by arith
  then show ?thesis by (simp add: p_def h_def)
qed

text \<open>
  A rescaled split keeps the ratio of the source pane to the whole within one cell, never
  saturates the 16-bit delta for spans that a 16-bit terminal size can have, and is exactly
  realised by the division of the new span.
\<close>

lemma preserve_delta_ratio:
  assumes ot: "3 \<le> ot" "ot \<le> 65535" and nt: "3 \<le> nt" "nt \<le> 65535"
    and old: "split_pane_direction_sizes ot d = Some (s, n)"
  shows "\<exists>d' s' n'. preserve_split_source_size_delta ot d nt = (Ok d' :: (int, 'e) outcome) \<and>
    fits_i16 d' \<and> split_pane_direction_sizes nt d' = Some (s', n') \<and>
    \<bar>s' * (ot - 1) - s * (nt - 1)\<bar> \<le> ot - 1"
proof -
  have b: "ot \<le> i32_max" "nt \<le> i32_max" using ot nt by (auto simp: int_bounds)
  note s = split_sizes_SomeD [OF old ot(1) b(1)]
  define q where "q = (s * (nt - 1) + (ot - 1) div 2) div (ot - 1)"
  define c where "c = clamp 1 (nt - 2) q"
  have sq: "0 \<le> s * (nt - 1)" using s nt by simp
  have near: "\<bar>2 * (q * (ot - 1) - s * (nt - 1))\<bar> \<le> ot - 1"
    unfolding q_def using round_nearest [of "s * (nt - 1)" "ot - 1"] sq ot by simp
  have qlo: "0 \<le> q" unfolding q_def using sq ot by (simp add: pos_imp_zdiv_nonneg_iff)
  have s_hi: "s * (nt - 1) \<le> (ot - 2) * (nt - 1)" using s nt by (intro mult_right_mono) auto
  have qhi: "q \<le> nt - 1"
  proof (rule ccontr)
    assume "\<not> q \<le> nt - 1"
    then have "nt * (ot - 1) \<le> q * (ot - 1)" using ot by (intro mult_right_mono) auto
    with near s_hi ot nt show False by (simp add: algebra_simps)
  qed
  have c: "1 \<le> c" "c \<le> nt - 2" using nt by (auto simp: c_def clamp_def)
  have close: "\<bar>c * (ot - 1) - s * (nt - 1)\<bar> \<le> ot - 1"
  proof -
    consider "q = 0" "c = 1" | "q = nt - 1" "c = nt - 2" | "c = q"
      using qlo qhi nt unfolding c_def clamp_def by (cases "q < 1"; cases "nt - 2 < q") auto
    then show ?thesis
    proof cases
      case 1
      with near sq show ?thesis by (simp add: algebra_simps)
    next
      case 2
      have "c * (ot - 1) = q * (ot - 1) - (ot - 1)" unfolding 2 by (simp add: algebra_simps)
      moreover have "(ot - 2) * (nt - 1) = q * (ot - 1) - (nt - 1)"
        unfolding 2 by (simp add: algebra_simps)
      ultimately show ?thesis using near s_hi nt by arith
    next
      case 3
      with near show ?thesis by simp
    qed
  qed
  have fit: "fits_i16 (c - (nt - 1) div 2)"
    using c nt unfolding fits_i16_def int_bounds by simp presburger
  have q32: "fits_i32 q" using qlo qhi nt by (simp add: fits_i32_def int_bounds)
  have pres: "preserve_split_source_size_delta ot d nt = (Ok (c - (nt - 1) div 2) :: (int, 'e) outcome)"
    using ot nt old fit q32 sq
    by (simp add: preserve_split_source_size_delta_def Let_def max_def tdiv_nonneg
        q_def [symmetric] c_def [symmetric])
  have "clamp 1 (nt - 2) ((nt - 1) div 2 + (c - (nt - 1) div 2)) = c"
    using c by (simp add: clamp_def)
  then have "split_pane_direction_sizes nt (c - (nt - 1) div 2) = Some (c, nt - c - 1)"
    using nt b by (simp add: split_sizes_eq Let_def)
  with pres fit close show ?thesis by blast
qed

end
