(* ===== verification/Tabs.thy ===== *)
theory Tabs
  imports Split_Geometry "HOL-Library.Product_Lexorder"
begin

text \<open>
  Tabs (\<open>rssh-domain/src/app_shell.rs\<close>, \<open>Tab\<close>): an ordered list of panes with the active
  pane, the order in which panes were activated, the zoomed pane and an explicit title, and
  every operation on them: focus, swap, rotation, split, resize, zoom, removal and the search
  for the neighbouring pane in a direction. \<open>tab_ok\<close> is the invariant every operation keeps;
  \<open>splits_ok\<close> says that every split refers to a pane that precedes it.
\<close>

section \<open>Data\<close>

record tab =
  t_id :: tab_id
  t_panes :: "pane list"
  t_active_pane_id :: pane_id
  t_pane_activation_order :: "pane_id list"
  t_zoomed_pane_id :: "pane_id option"
  t_title :: "str option"

abbreviation tab_pane_ids :: "tab \<Rightarrow> pane_id list" where
  "tab_pane_ids t \<equiv> map p_id (t_panes t)"

section \<open>Construction, lookup and focus\<close>

definition tab_new :: "tab_id \<Rightarrow> pane list \<Rightarrow> (tab, 'e) outcome" where
  "tab_new i panes =
     (case panes of
        [] \<Rightarrow> Panic
      | first # _ \<Rightarrow> Ok \<lparr>t_id = i, t_panes = panes, t_active_pane_id = p_id first,
          t_pane_activation_order = [p_id first], t_zoomed_pane_id = None, t_title = None\<rparr>)"

definition tab_set_title :: "tab \<Rightarrow> str \<Rightarrow> tab" where
  "tab_set_title t title =
     (let title = trim title
      in t\<lparr>t_title := (if title \<noteq> [] then Some title else None)\<rparr>)"

definition pane_position :: "tab \<Rightarrow> pane_id \<Rightarrow> nat option" where
  "pane_position t i = position (\<lambda>p. p_id p = i) (t_panes t)"

definition tab_active_pane :: "tab \<Rightarrow> (pane, 'e) outcome" where
  "tab_active_pane t =
     (case pane_position t (t_active_pane_id t) of
        None \<Rightarrow> Panic
      | Some index \<Rightarrow> Ok (t_panes t ! index))"

definition record_pane_activation :: "tab \<Rightarrow> pane_id \<Rightarrow> tab" where
  "record_pane_activation t i =
     t\<lparr>t_pane_activation_order := filter (\<lambda>c. c \<noteq> i) (t_pane_activation_order t) @ [i]\<rparr>"

definition set_active_pane :: "tab \<Rightarrow> pane_id \<Rightarrow> tab" where
  "set_active_pane t i =
     (let switching_panes = t_active_pane_id t \<noteq> i;
          t1 = t\<lparr>t_active_pane_id := i\<rparr>;
          t2 = (case pane_position t1 i of
                  None \<Rightarrow> t1
                | Some index \<Rightarrow> t1\<lparr>t_panes := (t_panes t1)
                    [index := set_has_unseen_output (t_panes t1 ! index) False]\<rparr>);
          t3 = record_pane_activation t2 i
      in if switching_panes then t3\<lparr>t_zoomed_pane_id := None\<rparr> else t3)"

definition focus_pane :: "tab \<Rightarrow> pane_id \<Rightarrow> unit app_result \<times> tab" where
  "focus_pane t i =
     (if pane_position t i = None then (Err (InvalidPane i), t)
      else (Ok (), set_active_pane t i))"

definition focus_pane_by_index :: "tab \<Rightarrow> usize \<Rightarrow> tab" where
  "focus_pane_by_index t index =
     (case nth_opt (t_panes t) index of
        None \<Rightarrow> t
      | Some p \<Rightarrow> set_active_pane t (p_id p))"

definition focus_next_pane :: "tab \<Rightarrow> tab" where
  "focus_next_pane t =
     (if length (t_panes t) \<le> 1 then t
      else let index = (case pane_position t (t_active_pane_id t) of Some i \<Rightarrow> i | None \<Rightarrow> 0);
               next = (index + 1) mod length (t_panes t)
           in set_active_pane t (p_id (t_panes t ! next)))"

definition focus_previous_pane :: "tab \<Rightarrow> tab" where
  "focus_previous_pane t =
     (if length (t_panes t) \<le> 1 then t
      else let index = (case pane_position t (t_active_pane_id t) of Some i \<Rightarrow> i | None \<Rightarrow> 0);
               previous = (index + length (t_panes t) - 1) mod length (t_panes t)
           in set_active_pane t (p_id (t_panes t ! previous)))"

section \<open>Swap and rotation\<close>

definition swap_source :: "pane_id \<Rightarrow> pane_id \<Rightarrow> pane \<Rightarrow> pane" where
  "swap_source active selected p =
     (case p_split p of
        None \<Rightarrow> p
      | Some split \<Rightarrow>
          (if sp_source_pane split = active
           then p\<lparr>p_split := Some (split\<lparr>sp_source_pane := selected\<rparr>)\<rparr>
           else if sp_source_pane split = selected
           then p\<lparr>p_split := Some (split\<lparr>sp_source_pane := active\<rparr>)\<rparr>
           else p))"

definition swap_panes :: "tab \<Rightarrow> pane_id \<Rightarrow> pane_id \<Rightarrow> bool \<Rightarrow> unit app_result \<times> tab" where
  "swap_panes t active selected keep_focus =
     (case pane_position t active of
        None \<Rightarrow> (Err (InvalidPane active), t)
      | Some active_index \<Rightarrow>
          (case pane_position t selected of
             None \<Rightarrow> (Err (InvalidPane selected), t)
           | Some selected_index \<Rightarrow>
               (let panes = t_panes t;
                    active_launch = p_launch (panes ! active_index);
                    panes1 = panes[active_index := (panes ! active_index)
                      \<lparr>p_id := selected, p_launch := p_launch (panes ! selected_index)\<rparr>];
                    panes2 = panes1[selected_index := (panes1 ! selected_index)
                      \<lparr>p_id := active, p_launch := active_launch\<rparr>];
                    t1 = (if active \<noteq> selected
                          then t\<lparr>t_panes := map (swap_source active selected) panes2\<rparr> else t)
                in (Ok (), set_active_pane t1 (if keep_focus then active else selected)))))"

definition rotate_right1 :: "'a list \<Rightarrow> 'a list" where
  "rotate_right1 xs = (if xs = [] then [] else last xs # butlast xs)"

definition rotate_once :: "pane_rotation_direction \<Rightarrow> 'a list \<Rightarrow> 'a list" where
  "rotate_once direction xs =
     (case direction of Clockwise \<Rightarrow> rotate_right1 xs | CounterClockwise \<Rightarrow> rotate1 xs)"

definition retarget_split :: "pane_id list \<Rightarrow> pane_id list \<Rightarrow> pane \<Rightarrow> pane" where
  "retarget_split old_ids rotated_ids p =
     (case p_split p of
        None \<Rightarrow> p
      | Some split \<Rightarrow>
          (case position (\<lambda>i. i = sp_source_pane split) old_ids of
             None \<Rightarrow> p
           | Some k \<Rightarrow> p\<lparr>p_split := Some (split\<lparr>sp_source_pane := rotated_ids ! k\<rparr>)\<rparr>))"

definition rotate_panes :: "tab \<Rightarrow> pane_rotation_direction \<Rightarrow> tab" where
  "rotate_panes t direction =
     (if length (t_panes t) \<le> 1 then t
      else let old_ids = map p_id (t_panes t);
               rotated_identity = rotate_once direction (map (\<lambda>p. (p_id p, p_launch p)) (t_panes t));
               rotated_ids = map fst rotated_identity;
               panes1 = map2 (\<lambda>p (i, launch). p\<lparr>p_id := i, p_launch := launch\<rparr>)
                          (t_panes t) rotated_identity
           in t\<lparr>t_panes := map (retarget_split old_ids rotated_ids) panes1\<rparr>)"

section \<open>Resizing\<close>

fun resize_loop :: "pane_id \<Rightarrow> resize_direction \<Rightarrow> i16 \<Rightarrow> nat \<Rightarrow> pane list \<Rightarrow> pane list" where
  "resize_loop i direction amount 0 panes = panes"
| "resize_loop i direction amount (Suc index) panes =
     (case p_split (panes ! index) of
        None \<Rightarrow> resize_loop i direction amount index panes
      | Some split \<Rightarrow>
          (case split_resize_source_delta i (p_id (panes ! index)) split direction of
             None \<Rightarrow> resize_loop i direction amount index panes
           | Some delta \<Rightarrow> panes[index := (panes ! index)\<lparr>p_split := Some (split
               \<lparr>sp_source_size_delta := sat_add_i16 (sp_source_size_delta split) (delta * amount)\<rparr>)\<rparr>]))"

definition resize_pane :: "tab \<Rightarrow> pane_id \<Rightarrow> resize_direction \<Rightarrow> u16 \<Rightarrow> unit app_result \<times> tab" where
  "resize_pane t i direction amount =
     (if pane_position t i = None then (Err (InvalidPane i), t)
      else if amount = 0 then (Ok (), t)
      else let amount = (if fits_i16 (int amount) then int amount else i16_max)
           in (Ok (), t\<lparr>t_panes := resize_loop i direction amount (length (t_panes t)) (t_panes t)\<rparr>))"

fun preserve_splits ::
    "(pane_id \<rightharpoonup> split_layout_size) \<Rightarrow> (pane_id \<rightharpoonup> split_layout_size) \<Rightarrow> pane list \<Rightarrow>
     (pane list, 'e) outcome" where
  "preserve_splits old_sizes new_sizes [] = Ok []"
| "preserve_splits old_sizes new_sizes (p # ps) =
     (case p_split p of
        None \<Rightarrow> map_ok (Cons p) (preserve_splits old_sizes new_sizes ps)
      | Some old_split \<Rightarrow>
          (let source = sp_source_pane old_split; direction = sp_direction old_split
           in case old_sizes source of
                None \<Rightarrow> map_ok (Cons p) (preserve_splits old_sizes new_sizes ps)
              | Some old_source \<Rightarrow>
                  (let old_sizes = old_sizes(source := None)
                   in case new_sizes source of
                        None \<Rightarrow> map_ok (Cons p) (preserve_splits old_sizes new_sizes ps)
                      | Some new_source \<Rightarrow>
                          (let new_sizes = new_sizes(source := None)
                           in bind_outcome
                                (split_layout_size_of old_source direction (sp_source_size_delta old_split))
                                (\<lambda>(old_source_next, old_new_pane).
                              bind_outcome
                                (let old_total = split_layout_axis_size old_source direction;
                                     new_total = split_layout_axis_size new_source direction
                                 in if old_total = new_total then Ok (sp_source_size_delta old_split)
                                    else preserve_split_source_size_delta old_total
                                           (sp_source_size_delta old_split) new_total)
                                (\<lambda>delta.
                              bind_outcome (split_layout_size_of new_source direction delta)
                                (\<lambda>(new_source_next, new_new_pane).
                              map_ok (Cons (p\<lparr>p_split := Some (old_split\<lparr>sp_source_size_delta := delta\<rparr>)\<rparr>))
                                (preserve_splits
                                  (old_sizes(source \<mapsto> old_source_next, p_id p \<mapsto> old_new_pane))
                                  (new_sizes(source \<mapsto> new_source_next, p_id p \<mapsto> new_new_pane))
                                  ps))))))))"

definition tab_preserve_split_layout ::
    "tab \<Rightarrow> u16 \<Rightarrow> u16 \<Rightarrow> u16 \<Rightarrow> u16 \<Rightarrow> (tab, 'e) outcome" where
  "tab_preserve_split_layout t old_columns old_rows new_columns new_rows =
     (case t_panes t of
        [] \<Rightarrow> Ok t
      | first # rest \<Rightarrow>
          map_ok (\<lambda>rest'. t\<lparr>t_panes := first # rest'\<rparr>)
            (preserve_splits
              [p_id first \<mapsto> \<lparr>sl_columns = int old_columns, sl_rows = int old_rows\<rparr>]
              [p_id first \<mapsto> \<lparr>sl_columns = int new_columns, sl_rows = int new_rows\<rparr>]
              rest))"

section \<open>Zoom and runtime metadata\<close>

definition toggle_pane_zoom :: "tab \<Rightarrow> pane_id \<Rightarrow> unit app_result \<times> tab" where
  "toggle_pane_zoom t i =
     (if pane_position t i = None then (Err (InvalidPane i), t)
      else let was_zoomed = (t_zoomed_pane_id t = Some i)
           in (Ok (), (set_active_pane t i)
                \<lparr>t_zoomed_pane_id := (if \<not> was_zoomed then Some i else None)\<rparr>))"

definition set_pane_zoom_state :: "tab \<Rightarrow> pane_id \<Rightarrow> bool \<Rightarrow> unit app_result \<times> tab" where
  "set_pane_zoom_state t i zoomed =
     (if pane_position t i = None then (Err (InvalidPane i), t)
      else (Ok (), (set_active_pane t i)\<lparr>t_zoomed_pane_id := (if zoomed then Some i else None)\<rparr>))"

text \<open>The five setters of a pane's metadata differ only in the field they write.\<close>

definition update_pane :: "tab \<Rightarrow> pane_id \<Rightarrow> (pane \<Rightarrow> pane) \<Rightarrow> unit app_result \<times> tab" where
  "update_pane t i f =
     (case pane_position t i of
        None \<Rightarrow> (Err (InvalidPane i), t)
      | Some index \<Rightarrow> (Ok (), t\<lparr>t_panes := (t_panes t)[index := f (t_panes t ! index)]\<rparr>))"

definition set_pane_current_working_dir :: "tab \<Rightarrow> pane_id \<Rightarrow> str option \<Rightarrow> unit app_result \<times> tab" where
  "set_pane_current_working_dir t i cwd =
     update_pane t i (\<lambda>p. p\<lparr>p_launch := set_cwd (p_launch p) cwd\<rparr>)"

definition set_pane_user_var :: "tab \<Rightarrow> pane_id \<Rightarrow> str \<Rightarrow> str \<Rightarrow> unit app_result \<times> tab" where
  "set_pane_user_var t i name value = update_pane t i (\<lambda>p. set_user_var p name value)"

definition set_pane_badge_format :: "tab \<Rightarrow> pane_id \<Rightarrow> str option \<Rightarrow> unit app_result \<times> tab" where
  "set_pane_badge_format t i badge_format = update_pane t i (\<lambda>p. set_badge_format p badge_format)"

definition set_pane_progress :: "tab \<Rightarrow> pane_id \<Rightarrow> pane_progress \<Rightarrow> unit app_result \<times> tab" where
  "set_pane_progress t i progress = update_pane t i (\<lambda>p. set_progress p progress)"

definition set_pane_has_unseen_output :: "tab \<Rightarrow> pane_id \<Rightarrow> bool \<Rightarrow> unit app_result \<times> tab" where
  "set_pane_has_unseen_output t i b = update_pane t i (\<lambda>p. set_has_unseen_output p b)"

section \<open>Splitting and removal\<close>

definition split_pane ::
    "tab \<Rightarrow> pane_id \<Rightarrow> pane_id \<Rightarrow> split_direction \<Rightarrow> pane_launch \<Rightarrow> i16 \<Rightarrow> unit app_result \<times> tab" where
  "split_pane t source new_pane_id direction launch delta =
     (if pane_position t source = None then (Err (InvalidPane source), t)
      else (Ok (), set_active_pane
        (t\<lparr>t_panes := t_panes t @ [with_split (pane_new new_pane_id launch)
            (Some \<lparr>sp_source_pane = source, sp_direction = direction,
                   sp_source_size_delta = delta\<rparr>)]\<rparr>)
        new_pane_id))"

definition split_top_level_pane ::
    "tab \<Rightarrow> pane_id \<Rightarrow> split_direction \<Rightarrow> pane_launch \<Rightarrow> i16 \<Rightarrow> unit app_result \<times> tab" where
  "split_top_level_pane t new_pane_id direction launch delta =
     (case t_panes t of
        [] \<Rightarrow> (Err CannotCloseLastPane, t)
      | first # _ \<Rightarrow> (Ok (), set_active_pane
          (t\<lparr>t_panes := insert_nth 1 (with_split (pane_new new_pane_id launch)
              (Some \<lparr>sp_source_pane = p_id first, sp_direction = direction,
                     sp_source_size_delta = delta\<rparr>)) (t_panes t)\<rparr>)
          new_pane_id))"

text \<open>The removal that \<open>close_pane\<close> and \<open>take_pane_for_new_tab\<close> share.\<close>

definition remove_pane_at :: "tab \<Rightarrow> pane_id \<Rightarrow> nat \<Rightarrow> unit app_result \<times> tab" where
  "remove_pane_at t i index =
     (let t1 = t\<lparr>t_panes := remove_nth index (t_panes t),
                 t_pane_activation_order := filter (\<lambda>c. c \<noteq> i) (t_pane_activation_order t),
                 t_zoomed_pane_id := (if t_zoomed_pane_id t = Some i then None else t_zoomed_pane_id t)\<rparr>
      in if t_active_pane_id t1 = i
         then (case nth_opt (t_panes t1) (min (index - 1) (length (t_panes t1) - 1)) of
                 None \<Rightarrow> (Panic, t1)
               | Some p \<Rightarrow> (Ok (), set_active_pane t1 (p_id p)))
         else (Ok (), t1))"

definition close_pane :: "tab \<Rightarrow> pane_id \<Rightarrow> unit app_result \<times> tab" where
  "close_pane t i =
     (case pane_position t i of
        None \<Rightarrow> (Err (InvalidPane i), t)
      | Some index \<Rightarrow>
          (if length (t_panes t) \<le> 1 then (Err CannotCloseLastPane, t)
           else remove_pane_at t i index))"

fun normalize_rest :: "pane_id list \<Rightarrow> pane list \<Rightarrow> pane list" where
  "normalize_rest valid_sources [] = []"
| "normalize_rest valid_sources (p # ps) =
     (case p_split p of
        None \<Rightarrow> p
      | Some split \<Rightarrow>
          (if sp_source_pane split \<notin> set valid_sources
           then p\<lparr>p_split := Some (split\<lparr>sp_source_pane := hd valid_sources\<rparr>)\<rparr> else p))
     # normalize_rest (valid_sources @ [p_id p]) ps"

definition normalize_splits_after_pane_removal :: "tab \<Rightarrow> tab" where
  "normalize_splits_after_pane_removal t =
     (case t_panes t of
        [] \<Rightarrow> t
      | first # rest \<Rightarrow>
          t\<lparr>t_panes := first\<lparr>p_split := None\<rparr> # normalize_rest [p_id first] rest\<rparr>)"

definition take_pane_for_new_tab :: "tab \<Rightarrow> pane_id \<Rightarrow> pane app_result \<times> tab" where
  "take_pane_for_new_tab t i =
     (case pane_position t i of
        None \<Rightarrow> (Err (InvalidPane i), t)
      | Some index \<Rightarrow>
          (if length (t_panes t) \<le> 1 then (Err CannotCloseLastPane, t)
           else (case remove_pane_at t i index of
                   (r, t1) \<Rightarrow> (bind_outcome r (\<lambda>_. Ok (t_panes t ! index)),
                               normalize_splits_after_pane_removal t1))))"

section \<open>Directional focus\<close>

definition pane_direction_layout_columns :: i32 where "pane_direction_layout_columns = 10000"
definition pane_direction_layout_rows :: i32 where "pane_direction_layout_rows = 10000"

definition layout_step ::
    "(pane_id \<times> pane_direction_rect) list \<Rightarrow> pane \<Rightarrow> (pane_id \<times> pane_direction_rect) list" where
  "layout_step rects p =
     (case p_split p of
        None \<Rightarrow> rects
      | Some split \<Rightarrow>
          (case position (\<lambda>(i, _). i = sp_source_pane split) rects of
             None \<Rightarrow> rects
           | Some source_index \<Rightarrow>
               (case split_pane_direction_rect (snd (rects ! source_index)) (p_id p) split of
                  None \<Rightarrow> rects
                | Some (next_source, new_rect) \<Rightarrow>
                    rects[source_index := (fst (rects ! source_index), next_source)]
                    @ [(p_id p, new_rect)])))"

definition layout_assoc :: "pane list \<Rightarrow> (pane_id \<times> pane_direction_rect) list" where
  "layout_assoc panes =
     (case panes of
        [] \<Rightarrow> []
      | first # rest \<Rightarrow>
          foldl layout_step
            [(p_id first, \<lparr>r_pane_id = p_id first, r_row = 0, r_column = 0,
               r_rows = pane_direction_layout_rows, r_columns = pane_direction_layout_columns\<rparr>)]
            rest)"

definition pane_direction_layout_rects :: "tab \<Rightarrow> pane_direction_rect list" where
  "pane_direction_layout_rects t =
     List.map_filter (\<lambda>p. map_option snd (find (\<lambda>(i, _). i = p_id p) (layout_assoc (t_panes t))))
       (t_panes t)"

definition pane_activation_recency :: "tab \<Rightarrow> pane_id \<Rightarrow> usize" where
  "pane_activation_recency t i =
     (case position (\<lambda>c. c = i) (t_pane_activation_order t) of None \<Rightarrow> 0 | Some k \<Rightarrow> k + 1)"

record pane_direction_candidate_rec =
  c_pane_id :: pane_id
  c_distance :: i32
  c_overlap :: i32
  c_recency :: usize
  c_index :: usize

text \<open>
  The comparison of \<open>sort_unstable_by\<close>: nearest first, then most recently activated, then
  largest overlap, then position. Positions are unique, so every sort gives the same list.
\<close>

definition candidate_key :: "pane_direction_candidate_rec \<Rightarrow> int \<times> int \<times> int \<times> nat" where
  "candidate_key c = (c_distance c, - int (c_recency c), - c_overlap c, c_index c)"

definition direction_candidates :: "tab \<Rightarrow> pane_direction_rect \<Rightarrow> pane_direction \<Rightarrow>
    pane_direction_rect list \<Rightarrow> pane_direction_candidate_rec list" where
  "direction_candidates t active direction rects =
     List.map_filter
       (\<lambda>(index, rect).
          if r_pane_id rect = r_pane_id active then None
          else map_option (\<lambda>(distance, overlap).
                 \<lparr>c_pane_id = r_pane_id rect, c_distance = distance, c_overlap = overlap,
                  c_recency = pane_activation_recency t (r_pane_id rect), c_index = index\<rparr>)
               (pane_direction_candidate active rect direction))
       (enumerate 0 rects)"

definition pane_id_in_direction :: "tab \<Rightarrow> pane_direction \<Rightarrow> pane_id option" where
  "pane_id_in_direction t direction =
     (let rects = pane_direction_layout_rects t
      in case find (\<lambda>rect. r_pane_id rect = t_active_pane_id t) rects of
           None \<Rightarrow> None
         | Some active \<Rightarrow>
             (case sort_key candidate_key (direction_candidates t active direction rects) of
                [] \<Rightarrow> None
              | c # _ \<Rightarrow> Some (c_pane_id c)))"

definition activate_pane_direction :: "tab \<Rightarrow> pane_direction \<Rightarrow> tab" where
  "activate_pane_direction t direction =
     (case direction of
        DirNext \<Rightarrow> focus_next_pane t
      | DirPrevious \<Rightarrow> focus_previous_pane t
      | _ \<Rightarrow> (case pane_id_in_direction t direction of
               None \<Rightarrow> t
             | Some i \<Rightarrow> set_active_pane t i))"

section \<open>Invariants\<close>

definition tab_ok :: "tab \<Rightarrow> bool" where
  "tab_ok t \<longleftrightarrow>
     t_active_pane_id t \<in> set (tab_pane_ids t) \<and>
     set (t_pane_activation_order t) \<subseteq> set (tab_pane_ids t) \<and>
     distinct (t_pane_activation_order t) \<and>
     t_pane_activation_order t \<noteq> [] \<and> last (t_pane_activation_order t) = t_active_pane_id t \<and>
     (t_zoomed_pane_id t = None \<or> t_zoomed_pane_id t = Some (t_active_pane_id t))"

definition split_source :: "pane \<Rightarrow> pane_id option" where
  "split_source p = map_option sp_source_pane (p_split p)"

definition refs_ok :: "pane_id list \<Rightarrow> pane_id option list \<Rightarrow> bool" where
  "refs_ok ids srcs \<longleftrightarrow>
     (\<forall>i < length srcs. case srcs ! i of None \<Rightarrow> True | Some s \<Rightarrow> s \<in> set (take i ids))"

definition splits_ok :: "pane list \<Rightarrow> bool" where
  "splits_ok panes \<longleftrightarrow> refs_ok (map p_id panes) (map split_source panes)"

end
