(* ===== verification/Tab_Laws.thy ===== *)
theory Tab_Laws
  imports Tabs
begin

text \<open>
  The laws of the tab operations: what each does to the pane identities and the split
  references, and that each keeps \<open>tab_ok\<close> and never panics on a well-formed tab.
\<close>

section \<open>Lookup\<close>

lemma pane_position_None: "pane_position t i = None \<longleftrightarrow> i \<notin> set (tab_pane_ids t)"
  by (auto simp: pane_position_def position_None_iff)

lemma pane_position_SomeD:
  "pane_position t i = Some k \<Longrightarrow> k < length (t_panes t) \<and> p_id (t_panes t ! k) = i"
  by (auto simp: pane_position_def dest: position_SomeD)

lemma pane_position_mem: "pane_position t i = Some k \<Longrightarrow> i \<in> set (tab_pane_ids t)"
  by (metis option.distinct(1) pane_position_None)

lemma pane_position_ex: "i \<in> set (tab_pane_ids t) \<Longrightarrow> \<exists>k. pane_position t i = Some k"
  by (metis not_None_eq pane_position_None)

lemma tab_okD:
  assumes "tab_ok t"
  shows "t_active_pane_id t \<in> set (tab_pane_ids t)" and "t_panes t \<noteq> []"
    and "set (t_pane_activation_order t) \<subseteq> set (tab_pane_ids t)"
    and "distinct (t_pane_activation_order t)"
    and "t_zoomed_pane_id t = None \<or> t_zoomed_pane_id t = Some (t_active_pane_id t)"
  using assms by (auto simp: tab_ok_def)

lemma tab_ok_cong:
  assumes "set (tab_pane_ids t) = set (tab_pane_ids t')" "t_active_pane_id t = t_active_pane_id t'"
    "t_pane_activation_order t = t_pane_activation_order t'" "t_zoomed_pane_id t = t_zoomed_pane_id t'"
  shows "tab_ok t \<longleftrightarrow> tab_ok t'"
  using assms by (simp add: tab_ok_def)

lemma tab_ok_panes_update:
  "set (map p_id ps) = set (tab_pane_ids t) \<Longrightarrow> tab_ok (t\<lparr>t_panes := ps\<rparr>) = tab_ok t"
  by (rule tab_ok_cong) simp_all

lemma tab_active_pane_Ok:
  assumes "tab_ok t"
  obtains p where "tab_active_pane t = Ok p" and "p \<in> set (t_panes t)" and "p_id p = t_active_pane_id t"
proof -
  from pane_position_ex [OF tab_okD(1) [OF assms]] obtain k
    where k: "pane_position t (t_active_pane_id t) = Some k" by blast
  with pane_position_SomeD [OF k] show thesis
    by (intro that [of "t_panes t ! k"]) (auto simp: tab_active_pane_def)
qed

lemma tab_new_Cons:
  "tab_new i (p # ps) = Ok \<lparr>t_id = i, t_panes = p # ps, t_active_pane_id = p_id p,
     t_pane_activation_order = [p_id p], t_zoomed_pane_id = None, t_title = None\<rparr>"
  by (simp add: tab_new_def)

lemma tab_new_ok: "tab_new i ps = Ok t \<Longrightarrow> tab_ok t \<and> t_id t = i \<and> t_panes t = ps"
  by (auto simp: tab_new_def tab_ok_def split: list.splits)

section \<open>Focus\<close>

lemma set_active_pane_simps [simp]:
  "t_id (set_active_pane t i) = t_id t"
  "t_title (set_active_pane t i) = t_title t"
  "t_active_pane_id (set_active_pane t i) = i"
  "t_pane_activation_order (set_active_pane t i) = filter (\<lambda>c. c \<noteq> i) (t_pane_activation_order t) @ [i]"
  "t_zoomed_pane_id (set_active_pane t i) =
     (if t_active_pane_id t \<noteq> i then None else t_zoomed_pane_id t)"
  by (simp_all add: set_active_pane_def record_pane_activation_def Let_def split: option.split)

lemma set_active_pane_panes:
  "t_panes (set_active_pane t i) =
     (case pane_position t i of
        None \<Rightarrow> t_panes t
      | Some k \<Rightarrow> (t_panes t)[k := set_has_unseen_output (t_panes t ! k) False])"
proof (cases "pane_position t i")
  case None
  then have "pane_position (t\<lparr>t_active_pane_id := i\<rparr>) i = None" by (simp add: pane_position_def)
  then show ?thesis using None
    by (simp add: set_active_pane_def record_pane_activation_def Let_def)
next
  case (Some k)
  then have "pane_position (t\<lparr>t_active_pane_id := i\<rparr>) i = Some k" by (simp add: pane_position_def)
  then show ?thesis using Some by (simp add: set_active_pane_def record_pane_activation_def Let_def)
qed

lemma set_active_pane_map:
  assumes "\<And>p. f (set_has_unseen_output p False) = f p"
  shows "map f (t_panes (set_active_pane t i)) = map f (t_panes t)"
  using assms by (auto simp: set_active_pane_panes map_update_same dest: pane_position_SomeD
      split: option.split)

lemma set_active_pane_ids [simp]: "tab_pane_ids (set_active_pane t i) = tab_pane_ids t"
  by (rule set_active_pane_map) simp

lemma set_active_pane_sources [simp]:
  "map split_source (t_panes (set_active_pane t i)) = map split_source (t_panes t)"
  by (rule set_active_pane_map) (simp add: split_source_def)

lemma set_active_pane_splits_ok [simp]: "splits_ok (t_panes (set_active_pane t i)) = splits_ok (t_panes t)"
  by (simp add: splits_ok_def)

lemma set_active_pane_ok:
  assumes "i \<in> set (tab_pane_ids t)" and "set (t_pane_activation_order t) \<subseteq> set (tab_pane_ids t)"
    and "distinct (t_pane_activation_order t)"
    and "t_zoomed_pane_id t = None \<or> t_zoomed_pane_id t = Some (t_active_pane_id t)"
  shows "tab_ok (set_active_pane t i)"
  using assms unfolding tab_ok_def set_active_pane_ids by auto

lemma tab_ok_set_active: "tab_ok t \<Longrightarrow> i \<in> set (tab_pane_ids t) \<Longrightarrow> tab_ok (set_active_pane t i)"
  using tab_okD [of t] by (intro set_active_pane_ok) auto

lemma focus_pane_by_index_cases:
  "focus_pane_by_index t k = t \<or>
   (\<exists>i \<in> set (tab_pane_ids t). focus_pane_by_index t k = set_active_pane t i)"
  by (auto simp: focus_pane_by_index_def split: option.split)

lemma focus_next_pane_cases:
  "focus_next_pane t = t \<or> (\<exists>i \<in> set (tab_pane_ids t). focus_next_pane t = set_active_pane t i)"
proof (cases "length (t_panes t) \<le> 1")
  case False
  define nx where "nx = (((case pane_position t (t_active_pane_id t) of Some i \<Rightarrow> i | None \<Rightarrow> 0) + 1)
    mod length (t_panes t))"
  have "nx < length (t_panes t)" unfolding nx_def by (rule mod_less_divisor) (use False in linarith)
  moreover have "focus_next_pane t = set_active_pane t (p_id (t_panes t ! nx))"
    using False by (simp add: focus_next_pane_def Let_def nx_def)
  ultimately show ?thesis by auto
qed (simp add: focus_next_pane_def)

lemma focus_previous_pane_cases:
  "focus_previous_pane t = t \<or>
   (\<exists>i \<in> set (tab_pane_ids t). focus_previous_pane t = set_active_pane t i)"
proof (cases "length (t_panes t) \<le> 1")
  case False
  define prev where "prev = (((case pane_position t (t_active_pane_id t) of Some i \<Rightarrow> i | None \<Rightarrow> 0)
    + length (t_panes t) - 1) mod length (t_panes t))"
  have "prev < length (t_panes t)" unfolding prev_def by (rule mod_less_divisor) (use False in linarith)
  moreover have "focus_previous_pane t = set_active_pane t (p_id (t_panes t ! prev))"
    using False by (simp add: focus_previous_pane_def Let_def prev_def)
  ultimately show ?thesis by auto
qed (simp add: focus_previous_pane_def)

text \<open>The cyclic order of focus: next and previous are inverse to each other.\<close>

lemma focus_next_active:
  assumes d: "distinct (tab_pane_ids t)" and k: "k < length (t_panes t)"
    and act: "t_active_pane_id t = p_id (t_panes t ! k)"
  shows "t_active_pane_id (focus_next_pane t) = p_id (t_panes t ! ((k + 1) mod length (t_panes t)))"
proof -
  have "pane_position t (t_active_pane_id t) = Some k"
    unfolding pane_position_def act by (rule position_distinct [OF d k])
  moreover have "length (t_panes t) = 1 \<and> k = 0" if "length (t_panes t) \<le> 1"
    using k that by linarith
  ultimately show ?thesis using act by (auto simp: focus_next_pane_def Let_def)
qed

lemma focus_previous_active:
  assumes d: "distinct (tab_pane_ids t)" and k: "k < length (t_panes t)"
    and act: "t_active_pane_id t = p_id (t_panes t ! k)"
  shows "t_active_pane_id (focus_previous_pane t) =
    p_id (t_panes t ! ((k + length (t_panes t) - 1) mod length (t_panes t)))"
proof -
  have "pane_position t (t_active_pane_id t) = Some k"
    unfolding pane_position_def act by (rule position_distinct [OF d k])
  moreover have "length (t_panes t) = 1 \<and> k = 0" if "length (t_panes t) \<le> 1"
    using k that by linarith
  ultimately show ?thesis using act by (auto simp: focus_previous_pane_def Let_def)
qed

section \<open>Swap and rotation\<close>

lemma swap_source_simps [simp]: "p_id (swap_source a b p) = p_id p" "p_launch (swap_source a b p) = p_launch p"
  by (simp_all add: swap_source_def split: option.split)

lemma split_source_swap_source:
  "split_source (swap_source a b p) =
     map_option (\<lambda>s. if s = a then b else if s = b then a else s) (split_source p)"
  by (simp add: swap_source_def split_source_def split: option.split)

lemma swap_panes_Ok:
  assumes "pane_position t a = Some ka" and "pane_position t b = Some kb"
  obtains t1 where "swap_panes t a b keep = (Ok (), set_active_pane t1 (if keep then a else b))"
    and "tab_pane_ids t1 = (tab_pane_ids t)[ka := b, kb := a]"
    and "map split_source (t_panes t1) =
      map (map_option (\<lambda>s. if s = a then b else if s = b then a else s)) (map split_source (t_panes t))"
    and "t_id t1 = t_id t" "t_title t1 = t_title t" "t_active_pane_id t1 = t_active_pane_id t"
    and "t_pane_activation_order t1 = t_pane_activation_order t"
    and "t_zoomed_pane_id t1 = t_zoomed_pane_id t"
proof -
  note ka = pane_position_SomeD [OF assms(1)] and kb = pane_position_SomeD [OF assms(2)]
  define ps1 where "ps1 = (t_panes t)[ka := (t_panes t ! ka)\<lparr>p_id := b, p_launch := p_launch (t_panes t ! kb)\<rparr>]"
  define ps2 where "ps2 = ps1[kb := (ps1 ! kb)\<lparr>p_id := a, p_launch := p_launch (t_panes t ! ka)\<rparr>]"
  have src1: "map split_source ps1 = map split_source (t_panes t)"
    unfolding ps1_def using ka by (intro map_update_same) (auto simp: split_source_def)
  have src2: "map split_source ps2 = map split_source ps1"
    unfolding ps2_def using kb by (intro map_update_same) (auto simp: split_source_def ps1_def)
  have ids2: "map p_id ps2 = (tab_pane_ids t)[ka := b, kb := a]"
    by (simp add: ps2_def ps1_def map_update)
  show thesis
  proof (cases "a = b")
    case True
    then have "ka = kb" using assms by simp
    moreover have "map_option (\<lambda>s. if s = a then b else if s = b then a else s) = id"
      using True by (auto simp: fun_eq_iff map_option_case split: option.split)
    moreover have "(tab_pane_ids t)[ka := a] = tab_pane_ids t"
      using ka by (metis list_update_id nth_map)
    ultimately show thesis using True assms
      by (intro that [of t]) (auto simp: swap_panes_def Let_def)
  next
    case False
    have "map split_source (map (swap_source a b) ps2) =
      map (map_option (\<lambda>s. if s = a then b else if s = b then a else s)) (map split_source (t_panes t))"
      unfolding src1 [symmetric] src2 [symmetric] by (rule map_commute) (rule split_source_swap_source)
    with False assms ids2 show thesis
      by (intro that [of "t\<lparr>t_panes := map (swap_source a b) ps2\<rparr>"])
        (auto simp: swap_panes_def Let_def ps1_def ps2_def comp_def)
  qed
qed

lemma mset_swap_ids:
  assumes "ka < length xs" "kb < length xs" "xs ! ka = a" "xs ! kb = b"
  shows "mset (xs[ka := b, kb := a]) = mset xs"
  using assms mset_swap [of kb xs ka] by auto

lemma rotate_right1_mset [simp]: "mset (rotate_right1 xs) = mset xs"
  by (simp add: rotate_right1_def) (metis append_butlast_last_id mset.simps(2) mset_append union_commute
      add_mset_add_single mset_single_iff_right)

lemma rotate_right1_Nil [simp]: "rotate_right1 [] = []"
  by (simp add: rotate_right1_def)

lemma length_rotate_right1 [simp]: "length (rotate_right1 xs) = length xs"
  by (cases xs) (simp_all add: rotate_right1_def)

lemma map_rotate_right1: "map f (rotate_right1 xs) = rotate_right1 (map f xs)"
  by (simp add: rotate_right1_def map_butlast last_map)

lemma length_rotate_once [simp]: "length (rotate_once d xs) = length xs"
  by (simp add: rotate_once_def split: pane_rotation_direction.split)

lemma mset_rotate_once [simp]: "mset (rotate_once d xs) = mset xs"
  by (cases xs) (simp_all add: rotate_once_def split: pane_rotation_direction.split)

lemma map_rotate_once: "map f (rotate_once d xs) = rotate_once d (map f xs)"
  by (simp add: rotate_once_def map_rotate_right1 rotate1_map split: pane_rotation_direction.split)

lemma map_map2_snd: "length xs = length ys \<Longrightarrow> (\<And>x y. f (g x y) = h y) \<Longrightarrow> map f (map2 g xs ys) = map h ys"
  by (induction xs ys rule: list_induct2) auto

lemma map_map2_fst: "length xs = length ys \<Longrightarrow> (\<And>x y. f (g x y) = h x) \<Longrightarrow> map f (map2 g xs ys) = map h xs"
  by (induction xs ys rule: list_induct2) auto

lemma retarget_split_id [simp]: "p_id (retarget_split old new p) = p_id p"
  by (simp add: retarget_split_def split: option.split)

lemma split_source_retarget:
  "split_source (retarget_split old new p) =
     map_option (\<lambda>s. case position (\<lambda>i. i = s) old of None \<Rightarrow> s | Some k \<Rightarrow> new ! k) (split_source p)"
  by (simp add: retarget_split_def split_source_def split: option.split)

lemma rotate_panes_facts:
  assumes "1 < length (t_panes t)"
  shows "tab_pane_ids (rotate_panes t d) = rotate_once d (tab_pane_ids t)"
    and "map split_source (t_panes (rotate_panes t d)) =
      map (map_option (\<lambda>s. case position (\<lambda>i. i = s) (tab_pane_ids t) of
             None \<Rightarrow> s | Some k \<Rightarrow> rotate_once d (tab_pane_ids t) ! k)) (map split_source (t_panes t))"
proof -
  let ?id = "map (\<lambda>p. (p_id p, p_launch p)) (t_panes t)"
  let ?ps = "map2 (\<lambda>p (i, launch). p\<lparr>p_id := i, p_launch := launch\<rparr>) (t_panes t) (rotate_once d ?id)"
  have panes: "t_panes (rotate_panes t d) =
      map (retarget_split (tab_pane_ids t) (map fst (rotate_once d ?id))) ?ps"
    using assms by (simp add: rotate_panes_def Let_def)
  have fst: "map fst (rotate_once d ?id) = rotate_once d (tab_pane_ids t)"
    by (simp add: map_rotate_once comp_def)
  have "map p_id ?ps = map fst (rotate_once d ?id)"
    by (rule map_map2_snd) (auto split: prod.split)
  then show "tab_pane_ids (rotate_panes t d) = rotate_once d (tab_pane_ids t)"
    by (simp only: panes fst map_map comp_def retarget_split_id)
  have "map split_source ?ps = map split_source (t_panes t)"
    by (rule map_map2_fst) (auto simp: split_source_def split: prod.split)
  then have src: "map split_source (t_panes t) = map split_source ?ps" by (rule sym)
  show "map split_source (t_panes (rotate_panes t d)) =
      map (map_option (\<lambda>s. case position (\<lambda>i. i = s) (tab_pane_ids t) of
             None \<Rightarrow> s | Some k \<Rightarrow> rotate_once d (tab_pane_ids t) ! k)) (map split_source (t_panes t))"
    unfolding panes fst src by (rule map_commute) (rule split_source_retarget)
qed

lemma rotate_panes_simps [simp]:
  "t_id (rotate_panes t d) = t_id t" "t_active_pane_id (rotate_panes t d) = t_active_pane_id t"
  "t_pane_activation_order (rotate_panes t d) = t_pane_activation_order t"
  "t_zoomed_pane_id (rotate_panes t d) = t_zoomed_pane_id t" "t_title (rotate_panes t d) = t_title t"
  by (simp_all add: rotate_panes_def Let_def)

lemma rotate_panes_mset: "mset (tab_pane_ids (rotate_panes t d)) = mset (tab_pane_ids t)"
proof (cases "1 < length (t_panes t)")
  case True
  show ?thesis unfolding rotate_panes_facts(1) [OF True] by (rule mset_rotate_once)
qed (simp add: rotate_panes_def)

section \<open>Split references\<close>

lemma refs_okD: "refs_ok ids srcs \<Longrightarrow> i < length srcs \<Longrightarrow> srcs ! i = Some s \<Longrightarrow> s \<in> set (take i ids)"
  unfolding refs_ok_def by (metis option.simps(5))

lemma refs_okI:
  "(\<And>i s. i < length srcs \<Longrightarrow> srcs ! i = Some s \<Longrightarrow> s \<in> set (take i ids)) \<Longrightarrow> refs_ok ids srcs"
  by (auto simp: refs_ok_def split: option.split)

lemma refs_ok_rename:
  assumes "refs_ok ids srcs"
    and "\<And>i s. i < length srcs \<Longrightarrow> s \<in> set (take i ids) \<Longrightarrow> f s \<in> set (take i ids')"
  shows "refs_ok ids' (map (map_option f) srcs)"
  using assms by (intro refs_okI) (auto dest: refs_okD)

lemma in_set_take_conv: "x \<in> set (take i xs) \<longleftrightarrow> (\<exists>j < i. j < length xs \<and> xs ! j = x)"
  by (auto simp: in_set_conv_nth)

lemma swap_refs_ok:
  assumes d: "distinct ids" and ka: "ka < length ids" "ids ! ka = a" and kb: "kb < length ids" "ids ! kb = b"
    and ok: "refs_ok ids srcs"
  shows "refs_ok (ids[ka := b, kb := a])
    (map (map_option (\<lambda>s. if s = a then b else if s = b then a else s)) srcs)"
proof (rule refs_ok_rename [OF ok])
  fix i s assume "s \<in> set (take i ids)"
  then obtain j where j: "j < i" "j < length ids" "ids ! j = s" by (auto simp: in_set_take_conv)
  have "j = ka \<longleftrightarrow> s = a" "j = kb \<longleftrightarrow> s = b"
    using d j ka kb by (auto simp: nth_eq_iff_index_eq)
  then have "ids[ka := b, kb := a] ! j = (if s = a then b else if s = b then a else s)"
    using j ka kb by (auto simp: nth_list_update)
  with j show "(if s = a then b else if s = b then a else s) \<in> set (take i (ids[ka := b, kb := a]))"
    by (auto simp: in_set_take_conv simp del: if_image_distrib intro!: exI [of _ j])
qed

lemma rotate_refs_ok:
  assumes ok: "refs_ok ids srcs" and len: "length ids' = length ids"
  shows "refs_ok ids' (map (map_option (\<lambda>s. case position (\<lambda>i. i = s) ids of
           None \<Rightarrow> s | Some k \<Rightarrow> ids' ! k)) srcs)"
proof (rule refs_ok_rename [OF ok])
  fix i s assume "s \<in> set (take i ids)"
  then obtain j where j: "j < i" "j < length ids" "ids ! j = s" by (auto simp: in_set_take_conv)
  then obtain k where k: "position (\<lambda>i. i = s) ids = Some k"
    using position_ex [of s ids "\<lambda>i. i = s"] by auto
  then have "k < length ids" and "k \<le> j"
    using j by (auto simp: position_Some_iff not_less [symmetric])
  with j k len show "(case position (\<lambda>i. i = s) ids of None \<Rightarrow> s | Some k \<Rightarrow> ids' ! k) \<in> set (take i ids')"
    by (auto simp: in_set_take_conv intro!: exI [of _ k])
qed

lemma swap_panes_Err:
  assumes "a \<notin> set (tab_pane_ids t) \<or> b \<notin> set (tab_pane_ids t)"
  shows "\<exists>e. swap_panes t a b keep = (Err e, t)"
proof (cases "pane_position t a")
  case (Some k)
  with assms have "pane_position t b = None" using pane_position_mem [OF Some] by (simp add: pane_position_None)
  with Some show ?thesis by (simp add: swap_panes_def)
qed (simp add: swap_panes_def)

lemma swap_panes_splits_ok:
  assumes "splits_ok (t_panes t)" and "distinct (tab_pane_ids t)"
  shows "splits_ok (t_panes (snd (swap_panes t a b keep)))"
proof (cases "a \<in> set (tab_pane_ids t) \<and> b \<in> set (tab_pane_ids t)")
  case True
  then obtain ka kb where k: "pane_position t a = Some ka" "pane_position t b = Some kb"
    using pane_position_ex by blast
  from k obtain t1 where t1: "swap_panes t a b keep = (Ok (), set_active_pane t1 (if keep then a else b))"
    "tab_pane_ids t1 = (tab_pane_ids t)[ka := b, kb := a]"
    "map split_source (t_panes t1) =
      map (map_option (\<lambda>s. if s = a then b else if s = b then a else s)) (map split_source (t_panes t))"
    by (rule swap_panes_Ok)
  have "splits_ok (t_panes t1)"
    unfolding splits_ok_def t1(2,3)
    using assms pane_position_SomeD [OF k(1)] pane_position_SomeD [OF k(2)]
    by (intro swap_refs_ok) (auto simp: splits_ok_def)
  then show ?thesis by (simp add: t1(1))
next
  case False
  then have "\<exists>e. swap_panes t a b keep = (Err e, t)" by (intro swap_panes_Err) blast
  then show ?thesis using assms by auto
qed

lemma rotate_panes_splits_ok: "splits_ok (t_panes t) \<Longrightarrow> splits_ok (t_panes (rotate_panes t d))"
proof (cases "1 < length (t_panes t)")
  case True
  assume "splits_ok (t_panes t)"
  then show ?thesis
    unfolding splits_ok_def rotate_panes_facts [OF True] by (rule rotate_refs_ok) simp
qed (simp add: rotate_panes_def)

lemma refs_ok_snoc:
  "refs_ok ids srcs \<Longrightarrow> length srcs = length ids \<Longrightarrow> s \<in> set ids \<Longrightarrow> refs_ok (ids @ [i]) (srcs @ [Some s])"
  by (intro refs_okI) (auto simp: nth_append dest: refs_okD split: if_splits)

lemma refs_ok_insert1:
  assumes "refs_ok (i # ids) (s0 # srcs)" and "length srcs = length ids"
  shows "refs_ok (i # j # ids) (s0 # Some i # srcs)"
proof (rule refs_okI)
  fix k s assume k: "k < length (s0 # Some i # srcs)" "(s0 # Some i # srcs) ! k = Some s"
  show "s \<in> set (take k (i # j # ids))"
  proof (cases k)
    case 0
    with k refs_okD [OF assms(1), of 0 s] show ?thesis by simp
  next
    case (Suc m)
    show ?thesis
    proof (cases m)
      case 0
      with Suc k show ?thesis by simp
    next
      case (Suc m')
      with \<open>k = Suc m\<close> k refs_okD [OF assms(1), of "Suc m'" s] show ?thesis by auto
    qed
  qed
qed

section \<open>Resizing\<close>

lemma resize_loop_facts:
  "n \<le> length panes \<Longrightarrow>
   map p_id (resize_loop i d a n panes) = map p_id panes \<and>
   map split_source (resize_loop i d a n panes) = map split_source panes"
proof (induction n)
  case (Suc n)
  then show ?case
    by (auto simp: map_update_same split_source_def split: option.split)
qed simp

lemma split_layout_bound:
  assumes "split_layout_size_of src dir d = Ok (a, b)"
    and "sl_columns src \<le> B" "sl_rows src \<le> B" "3 \<le> B" "B \<le> i32_max"
  shows "sl_columns a \<le> B \<and> sl_rows a \<le> B \<and> sl_columns b \<le> B \<and> sl_rows b \<le> B"
proof -
  let ?t = "max (split_layout_axis_size src dir) 3"
  have t: "3 \<le> ?t" "?t \<le> B" using assms by (auto simp: split_layout_axis_size_def split: split_direction.split)
  then have tm: "?t \<le> i32_max" using assms by simp
  obtain s n where sn: "split_pane_direction_sizes ?t d = Some (s, n)" and "1 \<le> s" "1 \<le> n" "s + n + 1 = ?t"
    by (rule split_sizes_Some [OF t(1) tm, of d])
  with t assms show ?thesis by (auto simp: split_layout_size_of_def Let_def split: if_splits)
qed

definition sizes_bounded :: "int \<Rightarrow> (pane_id \<rightharpoonup> split_layout_size) \<Rightarrow> bool" where
  "sizes_bounded B m \<longleftrightarrow> (\<forall>i sz. m i = Some sz \<longrightarrow> sl_columns sz \<le> B \<and> sl_rows sz \<le> B)"

lemma sizes_bounded_upd:
  "sizes_bounded B m \<Longrightarrow> sl_columns sz \<le> B \<Longrightarrow> sl_rows sz \<le> B \<Longrightarrow> sizes_bounded B (m(i \<mapsto> sz))"
  "sizes_bounded B m \<Longrightarrow> sizes_bounded B (m(i := None))"
  by (auto simp: sizes_bounded_def)

lemma preserve_delta_Ok: "ot \<le> i32_max \<Longrightarrow> \<exists>d'. preserve_split_source_size_delta ot d nt = Ok d'"
proof -
  assume "ot \<le> i32_max"
  then have "3 \<le> max ot 3" "max ot 3 \<le> i32_max" by (auto simp: int_bounds)
  then obtain s n where "split_pane_direction_sizes (max ot 3) d = Some (s, n)" by (rule split_sizes_Some)
  then show ?thesis by (simp add: preserve_split_source_size_delta_def Let_def)
qed

lemma axis_le: "sl_columns sz \<le> B \<Longrightarrow> sl_rows sz \<le> B \<Longrightarrow> split_layout_axis_size sz d \<le> B"
  by (simp add: split_layout_axis_size_def split: split_direction.split)

lemma preserve_splits_Ok:
  assumes B: "3 \<le> B" "B \<le> i32_max"
  shows "sizes_bounded B old \<Longrightarrow> sizes_bounded B new \<Longrightarrow>
    \<exists>ps'. preserve_splits old new ps = (Ok ps' :: (_, 'e) outcome) \<and> map p_id ps' = map p_id ps \<and>
      map split_source ps' = map split_source ps"
proof (induction ps arbitrary: old new)
  case (Cons p ps)
  have skip: "\<exists>ps'. map_ok (Cons p) (preserve_splits old' new' ps) = (Ok ps' :: (_, 'e) outcome) \<and>
      map p_id ps' = map p_id (p # ps) \<and> map split_source ps' = map split_source (p # ps)"
    if "sizes_bounded B old'" "sizes_bounded B new'" for old' new'
    using Cons.IH [OF that] by auto
  show ?case
  proof (cases "p_split p")
    case None
    with skip [OF Cons.prems] show ?thesis by simp
  next
    case (Some sp)
    let ?s = "sp_source_pane sp" and ?d = "sp_direction sp"
    show ?thesis
    proof (cases "old ?s"; cases "new ?s")
      fix os ns assume os: "old ?s = Some os" and ns: "new ?s = Some ns"
      have bo: "sl_columns os \<le> B" "sl_rows os \<le> B" and bn: "sl_columns ns \<le> B" "sl_rows ns \<le> B"
        using Cons.prems os ns by (auto simp: sizes_bounded_def)
      have ax: "split_layout_axis_size os ?d \<le> i32_max" "split_layout_axis_size ns ?d \<le> i32_max"
        using axis_le [OF bo, of ?d] axis_le [OF bn, of ?d] B by linarith+
      from split_layout_size_of_Ok [OF ax(1)] obtain a b
        where ab: "split_layout_size_of os ?d (sp_source_size_delta sp) = (Ok (a, b) :: (_, 'e) outcome)" by blast
      obtain dl where dl: "(if split_layout_axis_size os ?d = split_layout_axis_size ns ?d
          then Ok (sp_source_size_delta sp)
          else preserve_split_source_size_delta (split_layout_axis_size os ?d) (sp_source_size_delta sp)
                 (split_layout_axis_size ns ?d)) = (Ok dl :: (_, 'e) outcome)"
        using preserve_delta_Ok [OF ax(1)] by (metis (full_types))
      from split_layout_size_of_Ok [OF ax(2)] obtain c e
        where ce: "split_layout_size_of ns ?d dl = (Ok (c, e) :: (_, 'e) outcome)" by blast
      have "sizes_bounded B (old(?s := None, ?s \<mapsto> a, p_id p \<mapsto> b))"
        "sizes_bounded B (new(?s := None, ?s \<mapsto> c, p_id p \<mapsto> e))"
        using Cons.prems split_layout_bound [OF ab bo B] split_layout_bound [OF ce bn B]
        by (auto intro!: sizes_bounded_upd)
      from Cons.IH [OF this] obtain ps' where ps':
        "preserve_splits (old(?s := None, ?s \<mapsto> a, p_id p \<mapsto> b)) (new(?s := None, ?s \<mapsto> c, p_id p \<mapsto> e)) ps
           = (Ok ps' :: (_, 'e) outcome)"
        and same: "map p_id ps' = map p_id ps" "map split_source ps' = map split_source ps" by blast
      have "preserve_splits old new (p # ps) =
          (Ok (p\<lparr>p_split := Some (sp\<lparr>sp_source_size_delta := dl\<rparr>)\<rparr> # ps') :: (_, 'e) outcome)"
        using Some os ns ab dl ce ps' by (simp add: Let_def)
      moreover have "split_source (p\<lparr>p_split := Some (sp\<lparr>sp_source_size_delta := dl\<rparr>)\<rparr>) = split_source p"
        using Some by (simp add: split_source_def)
      ultimately show ?thesis using same by (intro exI conjI) (assumption, simp_all)
    qed (use Some skip Cons.prems sizes_bounded_upd(2) in \<open>auto simp: Let_def simp del: map_ok.simps list.map\<close>)
  qed
qed simp

lemma tab_preserve_split_layout_Ok:
  assumes "oc \<le> 65535" "orr \<le> 65535" "nc \<le> 65535" "nr \<le> 65535"
  obtains t' where "tab_preserve_split_layout t oc orr nc nr = (Ok t' :: (_, 'e) outcome)"
    and "tab_pane_ids t' = tab_pane_ids t" and "map split_source (t_panes t') = map split_source (t_panes t)"
    and "t_id t' = t_id t" and "tab_ok t' = tab_ok t"
proof (cases "t_panes t")
  case Nil
  then show thesis by (intro that [of t]) (auto simp: tab_preserve_split_layout_def)
next
  case (Cons p ps)
  have B: "3 \<le> (65535 :: int)" "65535 \<le> i32_max" by (auto simp: int_bounds)
  have "\<exists>ps'. preserve_splits [p_id p \<mapsto> \<lparr>sl_columns = int oc, sl_rows = int orr\<rparr>]
      [p_id p \<mapsto> \<lparr>sl_columns = int nc, sl_rows = int nr\<rparr>] ps = (Ok ps' :: (_, 'e) outcome) \<and>
      map p_id ps' = map p_id ps \<and> map split_source ps' = map split_source ps"
    by (rule preserve_splits_Ok [OF B]) (use assms in \<open>auto simp: sizes_bounded_def\<close>)
  then obtain ps' where ps': "preserve_splits [p_id p \<mapsto> \<lparr>sl_columns = int oc, sl_rows = int orr\<rparr>]
      [p_id p \<mapsto> \<lparr>sl_columns = int nc, sl_rows = int nr\<rparr>] ps = (Ok ps' :: (_, 'e) outcome)"
      "map p_id ps' = map p_id ps" "map split_source ps' = map split_source ps" by blast
  have ids: "map p_id (p # ps') = tab_pane_ids t" using Cons ps' by simp
  show thesis
  proof (rule that [of "t\<lparr>t_panes := p # ps'\<rparr>"])
    show "tab_ok (t\<lparr>t_panes := p # ps'\<rparr>) = tab_ok t"
      by (rule tab_ok_panes_update) (simp only: ids)
  qed (use Cons ps' in \<open>auto simp: tab_preserve_split_layout_def\<close>)
qed

section \<open>Removal\<close>

lemma remove_pane_at_facts:
  assumes ok: "tab_ok t" and k: "pane_position t i = Some k" and len: "1 < length (t_panes t)"
  obtains t' where "remove_pane_at t i k = (Ok (), t')"
    and "tab_pane_ids t' = remove_nth k (tab_pane_ids t)"
    and "map split_source (t_panes t') = remove_nth k (map split_source (t_panes t))"
    and "t_id t' = t_id t" and "t_title t' = t_title t"
    and "t_active_pane_id t \<noteq> i \<Longrightarrow> t_active_pane_id t' = t_active_pane_id t"
    and "tab_ok t'"
proof -
  note pos = pane_position_SomeD [OF k]
  let ?ids = "remove_nth k (tab_pane_ids t)"
  let ?t1 = "t\<lparr>t_panes := remove_nth k (t_panes t),
       t_pane_activation_order := filter (\<lambda>c. c \<noteq> i) (t_pane_activation_order t),
       t_zoomed_pane_id := (if t_zoomed_pane_id t = Some i then None else t_zoomed_pane_id t)\<rparr>"
  have ids1: "tab_pane_ids ?t1 = ?ids" by (simp add: map_remove_nth)
  have src1: "map split_source (t_panes ?t1) = remove_nth k (map split_source (t_panes t))"
    by (simp add: map_remove_nth)
  have set_ids: "set (tab_pane_ids t) = insert i (set ?ids)"
    using set_remove_nth [of k "tab_pane_ids t"] pos by simp
  have order: "set (t_pane_activation_order ?t1) \<subseteq> set ?ids" "distinct (t_pane_activation_order ?t1)"
    using tab_okD [OF ok] set_ids by auto
  show thesis
  proof (cases "t_active_pane_id t = i")
    case True
    let ?n = "min (k - 1) (length (t_panes ?t1) - 1)"
    have n: "?n < length (t_panes ?t1)" using pos len by simp
    let ?j = "p_id (t_panes ?t1 ! ?n)"
    have "?j \<in> set (tab_pane_ids ?t1)" using n nth_mem [of ?n "tab_pane_ids ?t1"] by simp
    then have "tab_ok (set_active_pane ?t1 ?j)"
      using order tab_okD(5) [OF ok] True unfolding ids1 [symmetric] by (intro set_active_pane_ok) auto
    moreover have "remove_pane_at t i k = (Ok (), set_active_pane ?t1 ?j)"
      using True n by (simp add: remove_pane_at_def Let_def nth_opt_def)
    ultimately show thesis
      using True ids1 src1 by (intro that [of "set_active_pane ?t1 ?j"]) auto
  next
    case False
    have "t_pane_activation_order ?t1 \<noteq> [] \<and> last (t_pane_activation_order ?t1) = t_active_pane_id t"
      using ok False last_filter_keep [of "t_pane_activation_order t" "\<lambda>c. c \<noteq> i"]
      by (auto simp: tab_ok_def)
    then have "tab_ok ?t1"
      unfolding tab_ok_def ids1 using False set_ids order tab_okD(1,5) [OF ok] by auto
    with False ids1 src1 show thesis
      by (intro that [of ?t1]) (auto simp: remove_pane_at_def Let_def)
  qed
qed

lemma normalize_rest_ids [simp]: "map p_id (normalize_rest v ps) = map p_id ps"
  by (induction ps arbitrary: v) (auto split: option.split)

lemma length_normalize_rest [simp]: "length (normalize_rest v ps) = length ps"
  by (induction ps arbitrary: v) auto

lemma normalize_rest_refs:
  "v \<noteq> [] \<Longrightarrow> k < length ps \<Longrightarrow> split_source (normalize_rest v ps ! k) = Some s \<Longrightarrow>
   s \<in> set (v @ take k (map p_id ps))"
proof (induction ps arbitrary: v k)
  case (Cons p ps)
  show ?case
  proof (cases k)
    case 0
    with Cons.prems show ?thesis by (auto simp: split_source_def split: option.splits if_splits)
  next
    case (Suc m)
    with Cons.prems Cons.IH [of "v @ [p_id p]" m] show ?thesis by auto
  qed
qed simp

lemma normalize_splits_ids [simp]:
  "tab_pane_ids (normalize_splits_after_pane_removal t) = tab_pane_ids t"
  by (simp add: normalize_splits_after_pane_removal_def split: list.split)

lemma normalize_splits_simps [simp]:
  "t_id (normalize_splits_after_pane_removal t) = t_id t"
  "t_active_pane_id (normalize_splits_after_pane_removal t) = t_active_pane_id t"
  "t_pane_activation_order (normalize_splits_after_pane_removal t) = t_pane_activation_order t"
  "t_zoomed_pane_id (normalize_splits_after_pane_removal t) = t_zoomed_pane_id t"
  "t_title (normalize_splits_after_pane_removal t) = t_title t"
  by (simp_all add: normalize_splits_after_pane_removal_def split: list.split)

lemma normalize_splits_tab_ok [simp]: "tab_ok (normalize_splits_after_pane_removal t) = tab_ok t"
  unfolding tab_ok_def normalize_splits_ids by simp

text \<open>Normalisation repairs every split reference, whatever the panes were before.\<close>

lemma normalize_splits_ok: "splits_ok (t_panes (normalize_splits_after_pane_removal t))"
proof (cases "t_panes t")
  case Nil
  then show ?thesis by (simp add: normalize_splits_after_pane_removal_def splits_ok_def refs_ok_def)
next
  case (Cons p ps)
  have panes: "t_panes (normalize_splits_after_pane_removal t) =
      p\<lparr>p_split := None\<rparr> # normalize_rest [p_id p] ps"
    using Cons by (simp add: normalize_splits_after_pane_removal_def)
  show ?thesis
    unfolding splits_ok_def panes
  proof (rule refs_okI)
    fix k s
    assume k: "k < length (map split_source (p\<lparr>p_split := None\<rparr> # normalize_rest [p_id p] ps))"
      "map split_source (p\<lparr>p_split := None\<rparr> # normalize_rest [p_id p] ps) ! k = Some s"
    then obtain m where m: "k = Suc m" by (cases k) (auto simp: split_source_def)
    with k normalize_rest_refs [of "[p_id p]" m ps s]
    show "s \<in> set (take k (map p_id (p\<lparr>p_split := None\<rparr> # normalize_rest [p_id p] ps)))" by auto
  qed
qed

lemma take_pane_Ok:
  assumes ok: "tab_ok t" and k: "pane_position t i = Some k" and len: "1 < length (t_panes t)"
  obtains t' where "take_pane_for_new_tab t i = (Ok (t_panes t ! k), t')"
    and "tab_pane_ids t' = remove_nth k (tab_pane_ids t)" and "t_id t' = t_id t"
    and "tab_ok t'" and "splits_ok (t_panes t')"
proof -
  from remove_pane_at_facts [OF assms] obtain t1 where t1: "remove_pane_at t i k = (Ok (), t1)"
    "tab_pane_ids t1 = remove_nth k (tab_pane_ids t)" "t_id t1 = t_id t" "tab_ok t1" by blast
  have "take_pane_for_new_tab t i = (Ok (t_panes t ! k), normalize_splits_after_pane_removal t1)"
    using k len by (simp add: take_pane_for_new_tab_def t1(1))
  then show thesis
    using t1 by (intro that [of "normalize_splits_after_pane_removal t1"])
      (auto simp: normalize_splits_ok simp del: list.map)
qed

lemma take_pane_Err:
  assumes "\<And>p t'. take_pane_for_new_tab t i \<noteq> (Ok p, t')" and "tab_ok t"
  shows "take_pane_for_new_tab t i = (Err (InvalidPane i), t) \<or>
    take_pane_for_new_tab t i = (Err CannotCloseLastPane, t)"
proof (cases "pane_position t i")
  case (Some k)
  show ?thesis
  proof (cases "1 < length (t_panes t)")
    case True
    then show ?thesis using take_pane_Ok [OF assms(2) Some True] assms(1) by metis
  qed (use Some in \<open>simp add: take_pane_for_new_tab_def\<close>)
qed (simp add: take_pane_for_new_tab_def)

section \<open>Directional focus\<close>

definition layout_inv :: "(pane_id \<times> pane_direction_rect) list \<Rightarrow> bool" where
  "layout_inv rects \<longleftrightarrow>
     (\<forall>(i, r) \<in> set rects. r_pane_id r = i \<and> rect_fits 10000 r) \<and>
     (\<forall>i < length rects. \<forall>j < length rects. i \<noteq> j \<longrightarrow>
        rect_cells (snd (rects ! i)) \<inter> rect_cells (snd (rects ! j)) = {})"

lemma layout_step_inv:
  assumes inv: "layout_inv rects"
  shows "layout_inv (layout_step rects p) \<and>
    set (map fst (layout_step rects p)) \<subseteq> insert (p_id p) (set (map fst rects))"
proof (cases "layout_step rects p = rects")
  case True
  with inv show ?thesis by auto
next
  case False
  then obtain sp k a b where sp: "p_split p = Some sp"
    and k: "position (\<lambda>(i, _). i = sp_source_pane sp) rects = Some k"
    and ab: "split_pane_direction_rect (snd (rects ! k)) (p_id p) sp = Some (a, b)"
    by (auto simp: layout_step_def split: option.splits)
  then have step: "layout_step rects p = rects[k := (fst (rects ! k), a)] @ [(p_id p, b)]"
    by (simp add: layout_step_def)
  have kl: "k < length rects" using position_SomeD [OF k] by simp
  then have rk: "r_pane_id (snd (rects ! k)) = fst (rects ! k)" "rect_fits 10000 (snd (rects ! k))"
    using inv nth_mem [OF kl] by (auto simp: layout_inv_def case_prod_beta)
  note sound = split_rect_sound [OF ab rk(2)]
  have S: "rect_fits 10000 a" "rect_fits 10000 b" "r_pane_id a = fst (rects ! k)" "r_pane_id b = p_id p"
    "rect_cells a \<inter> rect_cells b = {}" "rect_cells a \<subseteq> rect_cells (snd (rects ! k))"
    "rect_cells b \<subseteq> rect_cells (snd (rects ! k))"
    using sound rk(1) by (auto simp: int_bounds)
  have disj: "rect_cells (snd (rects ! i)) \<inter> rect_cells (snd (rects ! j)) = {}"
    if "i < length rects" "j < length rects" "i \<noteq> j" for i j
    using inv that unfolding layout_inv_def by blast
  have "layout_inv (rects[k := (fst (rects ! k), a)] @ [(p_id p, b)])"
    unfolding layout_inv_def
  proof (intro conjI allI impI)
    show "\<forall>(i, r) \<in> set (rects[k := (fst (rects ! k), a)] @ [(p_id p, b)]). r_pane_id r = i \<and> rect_fits 10000 r"
      using inv S set_update_subset_insert [of rects k "(fst (rects ! k), a)"]
      by (fastforce simp: layout_inv_def)
  next
    fix i j
    let ?r = "rects[k := (fst (rects ! k), a)] @ [(p_id p, b)]"
    assume ij: "i < length ?r" "j < length ?r" "i \<noteq> j"
    show "rect_cells (snd (?r ! i)) \<inter> rect_cells (snd (?r ! j)) = {}"
      using ij kl S disj [of i j] disj [of k j] disj [of i k]
      by (auto simp: nth_append nth_list_update less_Suc_eq split: if_splits) blast+
  qed
  moreover have "set (map fst (rects[k := (fst (rects ! k), a)] @ [(p_id p, b)])) \<subseteq> insert (p_id p) (set (map fst rects))"
    using kl set_update_subset_insert [of rects k "(fst (rects ! k), a)"] by force
  ultimately show ?thesis by (simp add: step)
qed

lemma layout_assoc_inv: "layout_inv (layout_assoc panes) \<and> set (map fst (layout_assoc panes)) \<subseteq> set (map p_id panes)"
proof (cases panes)
  case Nil
  then show ?thesis by (simp add: layout_assoc_def layout_inv_def)
next
  case (Cons p ps)
  have fold: "layout_inv rects \<Longrightarrow> layout_inv (foldl layout_step rects ps) \<and>
      set (map fst (foldl layout_step rects ps)) \<subseteq> set (map fst rects) \<union> set (map p_id ps)" for rects
  proof (induction ps arbitrary: rects)
    case (Cons q qs)
    from Cons.IH [of "layout_step rects q"] layout_step_inv [OF Cons.prems, of q]
    show ?case by (simp only: foldl_Cons list.map set_simps) blast
  qed simp
  let ?r = "\<lparr>r_pane_id = p_id p, r_row = 0, r_column = 0, r_rows = pane_direction_layout_rows,
     r_columns = pane_direction_layout_columns\<rparr>"
  have "layout_inv [(p_id p, ?r)]"
    by (simp add: layout_inv_def rect_fits_def rect_bottom_def rect_right_def
        pane_direction_layout_rows_def pane_direction_layout_columns_def)
  from fold [OF this] Cons show ?thesis by (simp add: layout_assoc_def)
qed

lemma find_nthD: "find P xs = Some x \<Longrightarrow> \<exists>i < length xs. xs ! i = x \<and> P x"
  by (auto simp: find_Some_iff)

lemma find_SomeD: "find P xs = Some x \<Longrightarrow> x \<in> set xs \<and> P x"
  by (auto simp: find_Some_iff)

lemma set_map_filter: "set (List.map_filter f xs) = {y. \<exists>x \<in> set xs. f x = Some y}"
  by (induction xs) (auto simp: map_filter_simps split: option.splits)

lemma layout_rectsD:
  assumes "r \<in> set (pane_direction_layout_rects t)"
  shows "find (\<lambda>(i, _). i = r_pane_id r) (layout_assoc (t_panes t)) = Some (r_pane_id r, r)"
    and "r_pane_id r \<in> set (tab_pane_ids t)" and "rect_fits 10000 r"
proof -
  from assms obtain p kr where p: "p \<in> set (t_panes t)"
    and f: "find (\<lambda>(i, _). i = p_id p) (layout_assoc (t_panes t)) = Some kr" and r: "r = snd kr"
    by (auto simp: pane_direction_layout_rects_def set_map_filter)
  have kr: "kr \<in> set (layout_assoc (t_panes t))" "fst kr = p_id p"
    using find_SomeD [OF f] by (simp_all add: case_prod_beta)
  with layout_assoc_inv [of "t_panes t"] have "r_pane_id r = fst kr" "rect_fits 10000 r"
    by (auto simp: layout_inv_def r case_prod_beta)
  with f kr p r show "find (\<lambda>(i, _). i = r_pane_id r) (layout_assoc (t_panes t)) = Some (r_pane_id r, r)"
    "r_pane_id r \<in> set (tab_pane_ids t)" "rect_fits 10000 r"
    by (auto simp: prod_eq_iff)
qed

lemma layout_rects_disjoint:
  assumes "r1 \<in> set (pane_direction_layout_rects t)" and "r2 \<in> set (pane_direction_layout_rects t)"
    and "r1 \<noteq> r2"
  shows "rect_cells r1 \<inter> rect_cells r2 = {}"
proof -
  note f1 = layout_rectsD(1) [OF assms(1)] and f2 = layout_rectsD(1) [OF assms(2)]
  from find_nthD [OF f1] obtain i where i: "i < length (layout_assoc (t_panes t))"
    "layout_assoc (t_panes t) ! i = (r_pane_id r1, r1)" by blast
  from find_nthD [OF f2] obtain j where j: "j < length (layout_assoc (t_panes t))"
    "layout_assoc (t_panes t) ! j = (r_pane_id r2, r2)" by blast
  have "i \<noteq> j" using assms(3) i j by auto
  with i j layout_assoc_inv [of "t_panes t"] show ?thesis
    unfolding layout_inv_def by (metis snd_conv)
qed

lemma direction_candidatesD:
  assumes "c \<in> set (direction_candidates t active dir rects)"
  shows "\<exists>r \<in> set rects. r_pane_id r = c_pane_id c \<and> c_pane_id c \<noteq> r_pane_id active \<and>
    c_recency c = pane_activation_recency t (r_pane_id r) \<and>
    pane_direction_candidate active r dir = Some (c_distance c, c_overlap c)"
  using assms unfolding direction_candidates_def set_map_filter
  by (fastforce simp: in_set_enumerate_eq split: if_splits)

lemma direction_candidatesI:
  assumes "r \<in> set rects" and "r_pane_id r \<noteq> r_pane_id active"
    and "pane_direction_candidate active r dir = Some (d, ov)"
  shows "\<exists>c \<in> set (direction_candidates t active dir rects). c_pane_id c = r_pane_id r \<and> c_distance c = d \<and>
    c_recency c = pane_activation_recency t (r_pane_id r)"
proof -
  from assms(1) obtain k where "k < length rects" "rects ! k = r" by (auto simp: in_set_conv_nth)
  then have "(k, r) \<in> set (enumerate 0 rects)" by (auto simp: in_set_enumerate_eq)
  with assms(2,3) show ?thesis unfolding direction_candidates_def set_map_filter by force
qed

lemma sort_key_Cons_min: "sort_key f xs = y # ys \<Longrightarrow> y \<in> set xs \<and> (\<forall>x \<in> set xs. f y \<le> f x)"
  by (metis list.set_intros(1) set_sort sorted_sort_key list.simps(9) sorted_simps(2) set_ConsD
      image_set imageI order_refl)

text \<open>
  The pane chosen in a direction lies in that direction, overlaps the active pane across it,
  no other candidate is nearer, and none that is as near was activated more recently.
\<close>

lemma pane_id_in_direction_Some:
  assumes "pane_id_in_direction t dir = Some i"
  shows "\<exists>active r d ov. active \<in> set (pane_direction_layout_rects t) \<and> r_pane_id active = t_active_pane_id t \<and>
    r \<in> set (pane_direction_layout_rects t) \<and> r_pane_id r = i \<and> i \<noteq> t_active_pane_id t \<and>
    i \<in> set (tab_pane_ids t) \<and> pane_direction_candidate active r dir = Some (d, ov) \<and>
    (\<forall>r' d' ov'. r' \<in> set (pane_direction_layout_rects t) \<longrightarrow> r_pane_id r' \<noteq> t_active_pane_id t \<longrightarrow>
       pane_direction_candidate active r' dir = Some (d', ov') \<longrightarrow>
       d < d' \<or> d = d' \<and> pane_activation_recency t (r_pane_id r') \<le> pane_activation_recency t i)"
proof -
  let ?rects = "pane_direction_layout_rects t"
  from assms obtain active c cs where act: "find (\<lambda>rect. r_pane_id rect = t_active_pane_id t) ?rects = Some active"
    and srt: "sort_key candidate_key (direction_candidates t active dir ?rects) = c # cs" and i: "i = c_pane_id c"
    by (auto simp: pane_id_in_direction_def Let_def split: option.splits list.splits)
  from find_nthD [OF act] have a: "active \<in> set ?rects" "r_pane_id active = t_active_pane_id t" by auto
  note c = sort_key_Cons_min [OF srt]
  from direction_candidatesD [OF conjunct1 [OF c]] obtain r where r: "r \<in> set ?rects"
    "r_pane_id r = c_pane_id c" "c_pane_id c \<noteq> r_pane_id active" "c_recency c = pane_activation_recency t (r_pane_id r)"
    "pane_direction_candidate active r dir = Some (c_distance c, c_overlap c)" by blast
  have "c_distance c < d' \<or> c_distance c = d' \<and> pane_activation_recency t (r_pane_id r') \<le> pane_activation_recency t i"
    if "r' \<in> set ?rects" "r_pane_id r' \<noteq> t_active_pane_id t"
    "pane_direction_candidate active r' dir = Some (d', ov')" for r' d' ov'
  proof -
    from that a have "r_pane_id r' \<noteq> r_pane_id active" by simp
    from direction_candidatesI [OF that(1) this that(3), of t] obtain c'
      where c': "c' \<in> set (direction_candidates t active dir ?rects)" "c_distance c' = d'"
        "c_recency c' = pane_activation_recency t (r_pane_id r')" by blast
    with c have "candidate_key c \<le> candidate_key c'" by blast
    with c' r i show ?thesis by (auto simp: candidate_key_def)
  qed
  then show ?thesis using a r i layout_rectsD(2) [OF r(1)]
    by (intro exI [of _ active] exI [of _ r] exI [of _ "c_distance c"] exI [of _ "c_overlap c"] conjI) auto
qed

lemma pane_id_in_direction_mem: "pane_id_in_direction t dir = Some i \<Longrightarrow> i \<in> set (tab_pane_ids t)"
  using pane_id_in_direction_Some by blast

lemma activate_pane_direction_cases:
  "activate_pane_direction t d = t \<or>
   (\<exists>i \<in> set (tab_pane_ids t). activate_pane_direction t d = set_active_pane t i)"
  using focus_next_pane_cases [of t] focus_previous_pane_cases [of t]
  by (auto simp: activate_pane_direction_def simp del: set_map dest: pane_id_in_direction_mem
      split: pane_direction.split option.split)

end
