(* ===== verification/Tab_Ops.thy ===== *)
theory Tab_Ops
  imports Tab_Laws
begin

text \<open>
  The contract of an operation on a tab, as locales: it keeps the tab invariant, returns,
  and leaves the identity of the tab alone; operations that only rearrange panes also keep
  the multiset of pane identities, and operations on a sound split tree leave it sound.
  Every operation of \<open>Tab\<close> is interpreted here, so that the workspace and shell layers can
  be verified against the contract instead of against each operation.
\<close>

section \<open>Contracts\<close>

locale tab_operation =
  fixes op :: "tab \<Rightarrow> 'r app_result \<times> tab" and fresh :: "pane_id list"
  assumes op_ok: "tab_ok t \<Longrightarrow> tab_ok (snd (op t))"
    and op_returns: "tab_ok t \<Longrightarrow> returns (fst (op t))"
    and op_id: "t_id (snd (op t)) = t_id t"
    and op_panes: "tab_ok t \<Longrightarrow> mset (tab_pane_ids (snd (op t))) \<subseteq># mset (tab_pane_ids t) + mset fresh"

locale layout_tab_operation = tab_operation +
  assumes op_splits: "tab_ok t \<Longrightarrow> distinct (tab_pane_ids t) \<Longrightarrow> splits_ok (t_panes t) \<Longrightarrow>
    splits_ok (t_panes (snd (op t)))"

locale pane_preserving_operation =
  fixes op :: "tab \<Rightarrow> 'r app_result \<times> tab"
  assumes keeps_ok: "tab_ok t \<Longrightarrow> tab_ok (snd (op t))"
    and keeps_returns: "tab_ok t \<Longrightarrow> returns (fst (op t))"
    and keeps_id: "t_id (snd (op t)) = t_id t"
    and keeps_splits: "distinct (tab_pane_ids t) \<Longrightarrow> splits_ok (t_panes t) \<Longrightarrow> splits_ok (t_panes (snd (op t)))"
    and keeps_mset: "mset (tab_pane_ids (snd (op t))) = mset (tab_pane_ids t)"

sublocale pane_preserving_operation \<subseteq> layout_tab_operation op "[]"
  by unfold_locales (simp_all add: keeps_ok keeps_returns keeps_id keeps_splits keeps_mset del: mset_map)

context pane_preserving_operation begin

lemma keeps_distinct: "distinct (tab_pane_ids (snd (op t))) = distinct (tab_pane_ids t)"
  using keeps_mset [of t] by (rule mset_eq_imp_distinct_iff)

lemma keeps_pane: "(pane_position (snd (op t)) i = None) = (pane_position t i = None)"
  using mset_eq_setD [OF keeps_mset [of t]] by (simp only: pane_position_None)

end

section \<open>Focus and zoom\<close>

lemma focus_pane_by_index_fields:
  "t_id (focus_pane_by_index t k) = t_id t" "tab_pane_ids (focus_pane_by_index t k) = tab_pane_ids t"
  "splits_ok (t_panes (focus_pane_by_index t k)) = splits_ok (t_panes t)"
  using focus_pane_by_index_cases [of t k] by auto

text \<open>An operation that leaves the tab alone or activates one of its panes.\<close>

lemma activation_contract:
  assumes "\<And>t. f t = t \<or> (\<exists>i \<in> set (tab_pane_ids t). f t = set_active_pane t i)"
  shows "tab_ok t \<Longrightarrow> tab_ok (f t)" and "t_id (f t) = t_id t"
    and "splits_ok (t_panes t) \<Longrightarrow> splits_ok (t_panes (f t))"
    and "mset (tab_pane_ids (f t)) = mset (tab_pane_ids t)"
  using assms [of t] by (auto simp: tab_ok_set_active simp del: mset_map set_map)

interpretation focus_pane_by_index: pane_preserving_operation "\<lambda>t. (Ok (), focus_pane_by_index t k)" for k
  using activation_contract [of "\<lambda>t. focus_pane_by_index t k", OF focus_pane_by_index_cases]
  by unfold_locales (simp_all del: mset_map)

interpretation focus_next_pane: pane_preserving_operation "\<lambda>t. (Ok (), focus_next_pane t)"
  using activation_contract [of focus_next_pane, OF focus_next_pane_cases]
  by unfold_locales (simp_all del: mset_map)

interpretation focus_previous_pane: pane_preserving_operation "\<lambda>t. (Ok (), focus_previous_pane t)"
  using activation_contract [of focus_previous_pane, OF focus_previous_pane_cases]
  by unfold_locales (simp_all del: mset_map)

interpretation activate_pane_direction: pane_preserving_operation "\<lambda>t. (Ok (), activate_pane_direction t d)" for d
  using activation_contract [of "\<lambda>t. activate_pane_direction t d", OF activate_pane_direction_cases]
  by unfold_locales (simp_all del: mset_map)

lemma focus_pane_unfold:
  "focus_pane t i = (if i \<in> set (tab_pane_ids t) then (Ok (), set_active_pane t i) else (Err (InvalidPane i), t))"
  by (simp add: focus_pane_def pane_position_None del: set_map)

interpretation focus_pane: pane_preserving_operation "\<lambda>t. focus_pane t i" for i
  by unfold_locales (auto simp: focus_pane_unfold tab_ok_set_active simp del: set_map mset_map)

lemma zoom_ok:
  "tab_ok t \<Longrightarrow> z = None \<or> z = Some (t_active_pane_id t) \<Longrightarrow> tab_ok (t\<lparr>t_zoomed_pane_id := z\<rparr>)"
  by (auto simp: tab_ok_def)

lemma toggle_pane_zoom_unfold:
  "toggle_pane_zoom t i = (if i \<in> set (tab_pane_ids t)
     then (Ok (), (set_active_pane t i)\<lparr>t_zoomed_pane_id := (if t_zoomed_pane_id t = Some i then None else Some i)\<rparr>)
     else (Err (InvalidPane i), t))"
  by (auto simp: toggle_pane_zoom_def pane_position_None Let_def simp del: set_map)

lemma set_pane_zoom_state_unfold:
  "set_pane_zoom_state t i z = (if i \<in> set (tab_pane_ids t)
     then (Ok (), (set_active_pane t i)\<lparr>t_zoomed_pane_id := (if z then Some i else None)\<rparr>)
     else (Err (InvalidPane i), t))"
  by (simp add: set_pane_zoom_state_def pane_position_None del: set_map)

interpretation toggle_pane_zoom: pane_preserving_operation "\<lambda>t. toggle_pane_zoom t i" for i
  by unfold_locales
    (auto simp: toggle_pane_zoom_unfold intro!: zoom_ok tab_ok_set_active simp del: set_map mset_map)

interpretation set_pane_zoom_state: pane_preserving_operation "\<lambda>t. set_pane_zoom_state t i z" for i z
  by unfold_locales
    (auto simp: set_pane_zoom_state_unfold intro!: zoom_ok tab_ok_set_active simp del: set_map mset_map)

section \<open>Metadata\<close>

lemma update_pane_Some:
  assumes "pane_position t i = Some k" and "\<And>p. p_id (f p) = p_id p"
  shows "tab_pane_ids (snd (update_pane t i f)) = tab_pane_ids t"
  using assms pane_position_SomeD [OF assms(1)] by (simp add: update_pane_def map_update_same)

lemma update_pane_ids:
  "(\<And>p. p_id (f p) = p_id p) \<Longrightarrow> tab_pane_ids (snd (update_pane t i f)) = tab_pane_ids t"
  by (cases "pane_position t i") (simp add: update_pane_def, rule update_pane_Some)

lemma update_pane_sources:
  "(\<And>p. split_source (f p) = split_source p) \<Longrightarrow>
   map split_source (t_panes (snd (update_pane t i f))) = map split_source (t_panes t)"
  by (auto simp: update_pane_def map_update_same dest: pane_position_SomeD split: option.split)

lemma update_pane_fields:
  "t_id (snd (update_pane t i f)) = t_id t" "t_active_pane_id (snd (update_pane t i f)) = t_active_pane_id t"
  "t_pane_activation_order (snd (update_pane t i f)) = t_pane_activation_order t"
  "t_zoomed_pane_id (snd (update_pane t i f)) = t_zoomed_pane_id t"
  "returns (fst (update_pane t i f))"
  by (simp_all add: update_pane_def split: option.split)

lemma update_pane_contract:
  assumes "\<And>p. p_id (f p) = p_id p" and "\<And>p. p_split (f p) = p_split p"
  shows "pane_preserving_operation (\<lambda>t. update_pane t i f)"
proof
  have ids: "tab_pane_ids (snd (update_pane t i f)) = tab_pane_ids t" for t
    by (rule update_pane_ids) (rule assms)
  have src: "map split_source (t_panes (snd (update_pane t i f))) = map split_source (t_panes t)" for t
    by (rule update_pane_sources) (simp add: split_source_def assms)
  fix t
  show "tab_ok t \<Longrightarrow> tab_ok (snd (update_pane t i f))"
    by (simp add: tab_ok_def ids update_pane_fields del: set_map)
  show "mset (tab_pane_ids (snd (update_pane t i f))) = mset (tab_pane_ids t)" by (simp only: ids)
  show "splits_ok (t_panes t) \<Longrightarrow> splits_ok (t_panes (snd (update_pane t i f)))"
    by (simp only: splits_ok_def ids src)
qed (simp_all add: update_pane_fields)

interpretation set_pane_current_working_dir: pane_preserving_operation
  "\<lambda>t. set_pane_current_working_dir t i cwd" for i cwd
  unfolding set_pane_current_working_dir_def by (rule update_pane_contract) simp_all

interpretation set_pane_user_var: pane_preserving_operation "\<lambda>t. set_pane_user_var t i n v" for i n v
  unfolding set_pane_user_var_def by (rule update_pane_contract) simp_all

interpretation set_pane_badge_format: pane_preserving_operation "\<lambda>t. set_pane_badge_format t i b" for i b
  unfolding set_pane_badge_format_def by (rule update_pane_contract) simp_all

interpretation set_pane_progress: pane_preserving_operation "\<lambda>t. set_pane_progress t i p" for i p
  unfolding set_pane_progress_def by (rule update_pane_contract) simp_all

interpretation set_pane_has_unseen_output: pane_preserving_operation
  "\<lambda>t. set_pane_has_unseen_output t i b" for i b
  unfolding set_pane_has_unseen_output_def by (rule update_pane_contract) simp_all

section \<open>Swap, rotation and resizing\<close>

lemma swap_panes_mem:
  assumes "a \<in> set (tab_pane_ids t)" and "b \<in> set (tab_pane_ids t)"
  obtains t1 where "swap_panes t a b keep = (Ok (), set_active_pane t1 (if keep then a else b))"
    and "mset (tab_pane_ids t1) = mset (tab_pane_ids t)" and "t_id t1 = t_id t"
    and "tab_ok t1 = tab_ok t"
proof -
  from pane_position_ex [OF assms(1)] pane_position_ex [OF assms(2)] obtain ka kb
    where k: "pane_position t a = Some ka" "pane_position t b = Some kb" by blast
  show thesis
  proof (rule swap_panes_Ok [OF k, of keep])
    fix t1
    assume t1: "swap_panes t a b keep = (Ok (), set_active_pane t1 (if keep then a else b))"
      "tab_pane_ids t1 = (tab_pane_ids t)[ka := b, kb := a]" "t_id t1 = t_id t"
      and fields: "t_active_pane_id t1 = t_active_pane_id t"
      "t_pane_activation_order t1 = t_pane_activation_order t" "t_zoomed_pane_id t1 = t_zoomed_pane_id t"
    have m: "mset (tab_pane_ids t1) = mset (tab_pane_ids t)"
      unfolding t1(2) using pane_position_SomeD [OF k(1)] pane_position_SomeD [OF k(2)]
      by (intro mset_swap_ids) auto
    from mset_eq_setD [OF m] fields have "tab_ok t1 = tab_ok t" by (rule tab_ok_cong)
    with t1 m show thesis using that by blast
  qed
qed

lemma swap_panes_contract:
  "(tab_ok t \<longrightarrow> tab_ok (snd (swap_panes t a b keep))) \<and> returns (fst (swap_panes t a b keep)) \<and>
   t_id (snd (swap_panes t a b keep)) = t_id t \<and>
   mset (tab_pane_ids (snd (swap_panes t a b keep))) = mset (tab_pane_ids t)"
proof (cases "a \<in> set (tab_pane_ids t) \<and> b \<in> set (tab_pane_ids t)")
  case True
  then obtain t1 where t1: "swap_panes t a b keep = (Ok (), set_active_pane t1 (if keep then a else b))"
    "mset (tab_pane_ids t1) = mset (tab_pane_ids t)" "t_id t1 = t_id t" "tab_ok t1 = tab_ok t"
    by (metis swap_panes_mem)
  with True mset_eq_setD [OF t1(2)] show ?thesis
    by (simp add: tab_ok_set_active del: set_map mset_map)
next
  case False
  with swap_panes_Err [of a t b keep] show ?thesis by (auto simp del: set_map mset_map)
qed

interpretation swap_panes: pane_preserving_operation "\<lambda>t. swap_panes t a b keep" for a b keep
  by unfold_locales (simp_all add: swap_panes_contract swap_panes_splits_ok del: mset_map)

lemma rotate_panes_tab_ok: "tab_ok (rotate_panes t d) = tab_ok t"
  using mset_eq_setD [OF rotate_panes_mset [of t d]] by (intro tab_ok_cong) simp_all

interpretation rotate_panes: pane_preserving_operation "\<lambda>t. (Ok (), rotate_panes t d)" for d
  by unfold_locales (simp_all add: rotate_panes_tab_ok rotate_panes_mset rotate_panes_splits_ok del: mset_map)

lemma resize_pane_cases:
  "(\<exists>e. resize_pane t i d n = (Err e, t)) \<or> resize_pane t i d n = (Ok (), t) \<or>
   (\<exists>a. resize_pane t i d n = (Ok (), t\<lparr>t_panes := resize_loop i d a (length (t_panes t)) (t_panes t)\<rparr>))"
  by (auto simp: resize_pane_def Let_def)

interpretation resize_pane: pane_preserving_operation "\<lambda>t. resize_pane t i d n" for i d n
proof
  fix t
  have f: "map p_id (resize_loop i d a (length (t_panes t)) (t_panes t)) = tab_pane_ids t"
    "map split_source (resize_loop i d a (length (t_panes t)) (t_panes t)) = map split_source (t_panes t)" for a
    using resize_loop_facts [of "length (t_panes t)" "t_panes t" i d a] by simp_all
  note cases = resize_pane_cases [of t i d n]
  show "tab_ok t \<Longrightarrow> tab_ok (snd (resize_pane t i d n))"
    using cases by (auto simp: tab_ok_def f simp del: set_map)
  show "tab_ok t \<Longrightarrow> returns (fst (resize_pane t i d n))" using cases by auto
  show "t_id (snd (resize_pane t i d n)) = t_id t" using cases by auto
  show "splits_ok (t_panes t) \<Longrightarrow> splits_ok (t_panes (snd (resize_pane t i d n)))"
    using cases by (auto simp: splits_ok_def f)
  show "mset (tab_pane_ids (snd (resize_pane t i d n))) = mset (tab_pane_ids t)"
    using cases by (auto simp: f simp del: mset_map)
qed

section \<open>Splitting\<close>

lemma split_pane_ids:
  "tab_pane_ids (snd (split_pane t src new d l n)) =
     (if src \<in> set (tab_pane_ids t) then tab_pane_ids t @ [new] else tab_pane_ids t)"
  by (simp add: split_pane_def pane_position_None del: set_map)

interpretation split_pane: layout_tab_operation "\<lambda>t. split_pane t src new d l n" "[new]" for src new d l n
proof
  fix t
  show "tab_ok t \<Longrightarrow> tab_ok (snd (split_pane t src new d l n))"
    using tab_okD [of t] by (auto simp: split_pane_def intro!: set_active_pane_ok)
  show "tab_ok t \<Longrightarrow> returns (fst (split_pane t src new d l n))" by (simp add: split_pane_def)
  show "t_id (snd (split_pane t src new d l n)) = t_id t" by (simp add: split_pane_def)
  show "mset (tab_pane_ids (snd (split_pane t src new d l n))) \<subseteq># mset (tab_pane_ids t) + mset [new]"
    unfolding split_pane_ids by simp
  show "splits_ok (t_panes t) \<Longrightarrow> splits_ok (t_panes (snd (split_pane t src new d l n)))"
    using refs_ok_snoc [of "tab_pane_ids t" "map split_source (t_panes t)" src new]
    by (simp add: split_pane_def pane_position_None splits_ok_def split_source_def del: set_map)
qed

lemma split_top_level_ids:
  "mset (tab_pane_ids (snd (split_top_level_pane t new d l n))) =
     (if t_panes t = [] then {#} else add_mset new (mset (tab_pane_ids t)))"
  by (cases "t_panes t") (simp_all add: split_top_level_pane_def map_insert_nth del: mset_map)

interpretation split_top_level_pane: layout_tab_operation "\<lambda>t. split_top_level_pane t new d l n" "[new]" for new d l n
proof
  fix t
  show "tab_ok t \<Longrightarrow> tab_ok (snd (split_top_level_pane t new d l n))"
    using tab_okD [of t] by (auto simp: split_top_level_pane_def intro!: set_active_pane_ok split: list.split)
  show "tab_ok t \<Longrightarrow> returns (fst (split_top_level_pane t new d l n))"
    by (simp add: split_top_level_pane_def split: list.split)
  show "t_id (snd (split_top_level_pane t new d l n)) = t_id t"
    by (simp add: split_top_level_pane_def split: list.split)
  show "mset (tab_pane_ids (snd (split_top_level_pane t new d l n))) \<subseteq># mset (tab_pane_ids t) + mset [new]"
    by (simp add: split_top_level_ids del: mset_map)
  show "splits_ok (t_panes t) \<Longrightarrow> splits_ok (t_panes (snd (split_top_level_pane t new d l n)))"
  proof (cases "t_panes t")
    case (Cons p ps)
    assume "splits_ok (t_panes t)"
    with Cons have "refs_ok (p_id p # map p_id ps) (split_source p # map split_source ps)"
      by (simp add: splits_ok_def)
    from refs_ok_insert1 [OF this, of new] Cons show ?thesis
      by (simp add: split_top_level_pane_def splits_ok_def split_source_def insert_nth_def)
  qed (simp add: split_top_level_pane_def)
qed

section \<open>Removal\<close>

lemma mset_remove_nth_subset: "mset (remove_nth k xs) \<subseteq># mset xs"
  by (cases "k < length xs") (simp_all add: mset_remove_nth [of k xs], simp add: remove_nth_def)

lemma close_pane_Ok:
  assumes ok: "tab_ok t" and k: "pane_position t i = Some k" and len: "1 < length (t_panes t)"
  shows "\<exists>t'. close_pane t i = (Ok (), t') \<and> tab_ok t' \<and> t_id t' = t_id t \<and> tab_pane_ids t' = remove_nth k (tab_pane_ids t)"
proof (rule remove_pane_at_facts [OF assms])
  fix t' assume "remove_pane_at t i k = (Ok (), t')" "tab_ok t'" "t_id t' = t_id t"
    "tab_pane_ids t' = remove_nth k (tab_pane_ids t)"
  with k len show ?thesis by (simp add: close_pane_def)
qed

lemma close_pane_cases:
  assumes "tab_ok t"
  shows "(\<exists>e. close_pane t i = (Err e, t)) \<or>
    (\<exists>k t'. pane_position t i = Some k \<and> 1 < length (t_panes t) \<and> close_pane t i = (Ok (), t') \<and> tab_ok t' \<and>
      t_id t' = t_id t \<and> tab_pane_ids t' = remove_nth k (tab_pane_ids t))"
proof (cases "\<exists>k. pane_position t i = Some k \<and> 1 < length (t_panes t)")
  case True
  then show ?thesis using close_pane_Ok [OF assms] by metis
next
  case False
  then show ?thesis by (cases "pane_position t i") (simp_all add: close_pane_def)
qed

lemma remove_pane_at_id: "t_id (snd (remove_pane_at t i k)) = t_id t"
  by (simp add: remove_pane_at_def Let_def split: option.split)

interpretation close_pane: tab_operation "\<lambda>t. close_pane t i" "[]" for i
proof
  fix t
  show "tab_ok t \<Longrightarrow> tab_ok (snd (close_pane t i))" using close_pane_cases [of t i] by auto
  show "tab_ok t \<Longrightarrow> returns (fst (close_pane t i))" using close_pane_cases [of t i] by auto
  show "tab_ok t \<Longrightarrow> mset (tab_pane_ids (snd (close_pane t i))) \<subseteq># mset (tab_pane_ids t) + mset []"
    using close_pane_cases [of t i] by (auto simp: mset_remove_nth_subset simp del: mset_map)
  show "t_id (snd (close_pane t i)) = t_id t"
    by (simp add: close_pane_def remove_pane_at_id split: option.split)
qed

lemma take_pane_cases:
  assumes "tab_ok t"
  shows "(\<exists>e. take_pane_for_new_tab t i = (Err e, t)) \<or>
    (\<exists>k t'. pane_position t i = Some k \<and> 1 < length (t_panes t) \<and>
      take_pane_for_new_tab t i = (Ok (t_panes t ! k), t') \<and> tab_ok t' \<and> t_id t' = t_id t \<and>
      splits_ok (t_panes t') \<and> tab_pane_ids t' = remove_nth k (tab_pane_ids t))"
proof (cases "pane_position t i")
  case (Some k)
  show ?thesis
  proof (cases "1 < length (t_panes t)")
    case True
    from take_pane_Ok [OF assms Some True] obtain t' where
      "take_pane_for_new_tab t i = (Ok (t_panes t ! k), t')" "tab_ok t'" "t_id t' = t_id t"
      "splits_ok (t_panes t')" "tab_pane_ids t' = remove_nth k (tab_pane_ids t)" by metis
    with Some True show ?thesis by simp
  qed (use Some in \<open>simp add: take_pane_for_new_tab_def\<close>)
qed (simp add: take_pane_for_new_tab_def)

interpretation take_pane_for_new_tab: layout_tab_operation "\<lambda>t. take_pane_for_new_tab t i" "[]" for i
proof
  fix t
  show "tab_ok t \<Longrightarrow> tab_ok (snd (take_pane_for_new_tab t i))"
    and "tab_ok t \<Longrightarrow> returns (fst (take_pane_for_new_tab t i))"
    and "tab_ok t \<Longrightarrow> splits_ok (t_panes t) \<Longrightarrow> splits_ok (t_panes (snd (take_pane_for_new_tab t i)))"
    using take_pane_cases [of t i] by auto
  show "tab_ok t \<Longrightarrow> mset (tab_pane_ids (snd (take_pane_for_new_tab t i))) \<subseteq># mset (tab_pane_ids t) + mset []"
    using take_pane_cases [of t i] by (auto simp: mset_remove_nth_subset simp del: mset_map)
  show "t_id (snd (take_pane_for_new_tab t i)) = t_id t"
    by (simp add: take_pane_for_new_tab_def remove_pane_at_id case_prod_beta split: option.split)
qed

end
