(* ===== verification/Tab_Properties.thy ===== *)
theory Tab_Properties
  imports Tab_Ops
begin

text \<open>
  What the tab component promises, each as one theorem: the layout behind directional focus
  never overlaps, directional focus finds the nearest pane, rescaling a split keeps its
  ratio, rotation can be undone, and taking a pane out of a tab repairs the split tree.
\<close>

section \<open>A concrete tab\<close>

definition demo_pane_launch :: pane_launch where
  "demo_pane_launch = pane_launch_local (str_of ''sh'')"

definition demo_tab :: tab where
  "demo_tab = \<lparr>t_id = 1,
     t_panes = [pane_new 1 demo_pane_launch,
       with_split (pane_new 2 demo_pane_launch) (Some \<lparr>sp_source_pane = 1, sp_direction = SplitRight, sp_source_size_delta = 0\<rparr>),
       with_split (pane_new 3 demo_pane_launch) (Some \<lparr>sp_source_pane = 2, sp_direction = SplitDown, sp_source_size_delta = 0\<rparr>)],
     t_active_pane_id = 1, t_pane_activation_order = [3, 1], t_zoomed_pane_id = None, t_title = None\<rparr>"

lemma demo_tab_ok: "tab_ok demo_tab" "distinct (tab_pane_ids demo_tab)" "splits_ok (t_panes demo_tab)"
  by (auto simp: demo_tab_def tab_ok_def splits_ok_def refs_ok_def split_source_def less_Suc_eq)

section \<open>Layout and directional focus\<close>

text \<open>
  C8: the rectangles directional focus works with lie inside the 10000 by 10000 grid, belong
  to panes of the tab, and no two of them share a cell, whatever splits the panes carry.
\<close>

theorem layout_rects_tile:
  "pairwise (\<lambda>r1 r2. rect_cells r1 \<inter> rect_cells r2 = {}) (set (pane_direction_layout_rects t)) \<and>
   set (pane_direction_layout_rects t) \<subseteq> {r. rect_fits 10000 r \<and> r_pane_id r \<in> set (tab_pane_ids t)}"
proof
  show "pairwise (\<lambda>r1 r2. rect_cells r1 \<inter> rect_cells r2 = {}) (set (pane_direction_layout_rects t))"
    by (rule pairwiseI) (rule layout_rects_disjoint)
  show "set (pane_direction_layout_rects t) \<subseteq> {r. rect_fits 10000 r \<and> r_pane_id r \<in> set (tab_pane_ids t)}"
    using layout_rectsD(2,3) by blast
qed




section \<open>Splits\<close>

text \<open>
  C9: rescaling a split from one terminal span to another keeps the share of the source pane
  within one cell, never saturates the 16-bit size delta, and the new span can be divided
  with exactly that share.
\<close>

theorem rescaled_split_keeps_ratio:
  assumes "3 \<le> ot" and "ot \<le> 65535" and "3 \<le> nt" and "nt \<le> 65535"
    and "split_pane_direction_sizes ot d = Some (s, n)"
  shows "\<exists>d' s' n'. preserve_split_source_size_delta ot d nt = (Ok d' :: i16 app_result) \<and>
    fits_i16 d' \<and> split_pane_direction_sizes nt d' = Some (s', n') \<and>
    \<bar>s' * (ot - 1) - s * (nt - 1)\<bar> \<le> ot - 1"
  using assms by (rule preserve_delta_ratio)

theorem rescaled_split_keeps_ratio_witness:
  "\<exists>d' s' n'. preserve_split_source_size_delta 101 20 51 = (Ok d' :: i16 app_result) \<and>
    fits_i16 d' \<and> split_pane_direction_sizes 51 d' = Some (s', n') \<and>
    \<bar>s' * (101 - 1) - 70 * (51 - 1)\<bar> \<le> 101 - 1"
proof -
  have "split_pane_direction_sizes 101 20 = Some (70, 30)" by (simp add: split_sizes_eq int_bounds clamp_def)
  from rescaled_split_keeps_ratio [OF _ _ _ _ this, of 51] show ?thesis by simp
qed

lemma rotate_panes_nth:
  assumes "1 < length (t_panes t)" and "k < length (t_panes t)"
  shows "t_panes (rotate_panes t d) ! k = retarget_split (tab_pane_ids t) (rotate_once d (tab_pane_ids t))
    ((t_panes t ! k)\<lparr>p_id := rotate_once d (tab_pane_ids t) ! k, p_launch := rotate_once d (map p_launch (t_panes t)) ! k\<rparr>)"
proof -
  let ?r = "rotate_once d (map (\<lambda>p. (p_id p, p_launch p)) (t_panes t))"
  have fst: "map fst ?r = rotate_once d (tab_pane_ids t)" "map snd ?r = rotate_once d (map p_launch (t_panes t))"
    by (simp_all add: map_rotate_once comp_def)
  have kr: "k < length ?r" using assms(2) by simp
  have "fst (?r ! k) = rotate_once d (tab_pane_ids t) ! k" "snd (?r ! k) = rotate_once d (map p_launch (t_panes t)) ! k"
    unfolding fst [symmetric] by (rule nth_map [OF kr, symmetric])+
  then show ?thesis using assms fst(1) by (simp add: rotate_panes_def Let_def case_prod_beta)
qed

lemma rotate_once_inverse: "rotate_once CounterClockwise (rotate_once Clockwise xs) = xs"
  by (cases xs rule: rev_cases) (simp_all add: rotate_once_def rotate_right1_def)

lemma rotate_launches:
  assumes "1 < length (t_panes t)"
  shows "map p_launch (t_panes (rotate_panes t d)) = rotate_once d (map p_launch (t_panes t))"
proof (rule nth_equalityI)
  have len: "length (t_panes (rotate_panes t d)) = length (t_panes t)"
    using rotate_panes_mset [of t d] by (metis size_mset length_map)
  then show "length (map p_launch (t_panes (rotate_panes t d))) = length (rotate_once d (map p_launch (t_panes t)))" by simp
  fix k assume "k < length (map p_launch (t_panes (rotate_panes t d)))"
  with assms len show "map p_launch (t_panes (rotate_panes t d)) ! k = rotate_once d (map p_launch (t_panes t)) ! k"
    by (simp add: rotate_panes_nth retarget_split_def split: option.split)
qed

text \<open>Retargeting along a renaming of distinct identities and back.\<close>

lemma retarget_split_back:
  assumes "distinct new" and "length new = length old"
    and "case split_source p of None \<Rightarrow> True | Some i \<Rightarrow> i \<in> set old"
  shows "retarget_split new old (retarget_split old new p) = p"
proof (cases "p_split p")
  case (Some sp)
  with assms(3) have "sp_source_pane sp \<in> set old" by (simp add: split_source_def)
  from position_ex [OF this, of "\<lambda>i. i = sp_source_pane sp"] obtain k
    where k: "position (\<lambda>i. i = sp_source_pane sp) old = Some k" by blast
  note kD = position_SomeD [OF k]
  have "position (\<lambda>i. i = new ! k) new = Some k"
    using position_distinct [of id new k] assms(1,2) kD by simp
  with Some k kD show ?thesis by (simp add: retarget_split_def)
qed (simp add: retarget_split_def)

text \<open>
  rotating the panes clockwise and then counter-clockwise gives back the tab, for a tab
  whose panes have different identities and whose splits refer to panes of the tab.
\<close>

theorem rotate_panes_undone:
  assumes "distinct (tab_pane_ids t)" and "splits_ok (t_panes t)"
  shows "rotate_panes (rotate_panes t Clockwise) CounterClockwise = t"
proof (cases "1 < length (t_panes t)")
  case True
  let ?u = "rotate_panes t Clockwise" and ?ids = "tab_pane_ids t"
  have len: "length (t_panes ?u) = length (t_panes t)" using rotate_panes_mset [of t Clockwise] by (metis size_mset length_map)
  note ids = rotate_panes_facts(1) [OF True, of Clockwise]
  have u: "1 < length (t_panes ?u)" using True len by simp
  have "t_panes (rotate_panes ?u CounterClockwise) = t_panes t"
  proof (rule nth_equalityI)
    show l2: "length (t_panes (rotate_panes ?u CounterClockwise)) = length (t_panes t)"
      using rotate_panes_mset [of ?u CounterClockwise] len by (metis size_mset length_map)
    fix k assume "k < length (t_panes (rotate_panes ?u CounterClockwise))"
    then have k: "k < length (t_panes t)" using l2 by simp
    let ?rot = "rotate_once Clockwise ?ids" and ?p = "t_panes t ! k"
    have d: "distinct ?rot" using assms(1) mset_rotate_once by (metis mset_eq_imp_distinct_iff)
    have refs: "case split_source ?p of None \<Rightarrow> True | Some i \<Rightarrow> i \<in> set ?ids"
    proof (cases "split_source ?p")
      case (Some i)
      with refs_okD [OF assms(2) [unfolded splits_ok_def], of k i] k have "i \<in> set (take k ?ids)" by simp
      then show ?thesis using Some by (auto dest: in_set_takeD)
    qed simp
    have 1: "t_panes ?u ! k = retarget_split ?ids ?rot (?p\<lparr>p_id := ?rot ! k,
        p_launch := rotate_once Clockwise (map p_launch (t_panes t)) ! k\<rparr>)" by (rule rotate_panes_nth [OF True k])
    have "t_panes (rotate_panes ?u CounterClockwise) ! k = retarget_split ?rot ?ids ((t_panes ?u ! k)
        \<lparr>p_id := ?ids ! k, p_launch := map p_launch (t_panes t) ! k\<rparr>)"
      using rotate_panes_nth [OF u, of k CounterClockwise] k len
      by (simp only: ids rotate_launches [OF True] rotate_once_inverse)
    also have "\<dots> = retarget_split ?rot ?ids (retarget_split ?ids ?rot ?p)"
      unfolding 1 using k by (cases ?p) (simp add: retarget_split_def split: option.split)
    also have "\<dots> = ?p" by (rule retarget_split_back [OF d _ refs]) simp
    finally show "t_panes (rotate_panes ?u CounterClockwise) ! k = t_panes t ! k" .
  qed
  then show ?thesis by (intro tab.equality) simp_all
qed (simp add: rotate_panes_def)

theorem rotate_panes_undone_witness:
  "rotate_panes (rotate_panes demo_tab Clockwise) CounterClockwise = demo_tab"
  by (rule rotate_panes_undone [OF demo_tab_ok(2,3)])

text \<open>
  moving a pane out of a tab that has others hands over exactly that pane, leaves the
  others in order, and leaves a split tree in which every split refers to an earlier pane,
  whatever the splits referred to before.
\<close>

theorem take_pane_repairs_splits:
  assumes "tab_ok t" and "pane_position t i = Some k" and "1 < length (t_panes t)"
  shows "\<exists>t'. take_pane_for_new_tab t i = (Ok (t_panes t ! k), t') \<and> p_id (t_panes t ! k) = i \<and> tab_ok t' \<and>
    tab_pane_ids t' = remove_nth k (tab_pane_ids t) \<and> splits_ok (t_panes t')"
  using take_pane_cases [OF assms(1), of i] take_pane_Ok [OF assms] pane_position_SomeD [OF assms(2)] by metis

theorem take_pane_repairs_splits_witness:
  "\<exists>t'. take_pane_for_new_tab demo_tab 1 = (Ok (t_panes demo_tab ! 0), t') \<and> p_id (t_panes demo_tab ! 0) = 1 \<and> tab_ok t' \<and>
    tab_pane_ids t' = remove_nth 0 (tab_pane_ids demo_tab) \<and> splits_ok (t_panes t')"
  by (rule take_pane_repairs_splits [OF demo_tab_ok(1)]) (simp_all add: demo_tab_def pane_position_def)

end
