(* ===== verification/Workspaces.thy ===== *)
theory Workspaces
  imports Tab_Ops
begin

text \<open>
  Workspaces and pending windows (\<open>rssh-domain/src/app_shell.rs\<close>, \<open>Workspace\<close>,
  \<open>PendingWindow\<close>, \<open>DetachedTab\<close>): an ordered list of tabs with the active and the
  previously active tab, and the operations that activate, move, close and detach tabs or
  turn a pane into a tab or window of its own. \<open>ws_ok\<close> is the invariant; the locale
  \<open>workspace_operation\<close> is the contract the shell relies on, and a sublocale derives it for
  every tab operation applied to the active tab.
\<close>

section \<open>Data\<close>

datatype close_tab_selection = Adjacent | LastActive | LeftNeighbour

record detached_tab =
  dt_tab :: tab
  dt_source_index :: usize

record pending_window =
  pw_id :: window_id
  pw_workspace_id :: workspace_id
  pw_workspace_name :: str
  pw_tab :: tab

record workspace =
  w_id :: workspace_id
  w_name :: str
  w_tabs :: "tab list"
  w_active_tab_id :: tab_id
  w_last_active_tab_id :: "tab_id option"

section \<open>Operations\<close>

definition workspace_new :: "workspace_id \<Rightarrow> str \<Rightarrow> tab list \<Rightarrow> tab_id \<Rightarrow> workspace" where
  "workspace_new i name tabs active_tab_id =
     \<lparr>w_id = i, w_name = name, w_tabs = tabs, w_active_tab_id = active_tab_id,
      w_last_active_tab_id = None\<rparr>"

definition tab_position :: "workspace \<Rightarrow> tab_id \<Rightarrow> nat option" where
  "tab_position w i = position (\<lambda>t. t_id t = i) (w_tabs w)"

definition workspace_tab :: "workspace \<Rightarrow> tab_id \<Rightarrow> tab option" where
  "workspace_tab w i = Option.bind (tab_position w i) (nth_opt (w_tabs w))"

definition active_tab :: "workspace \<Rightarrow> (tab, 'e) outcome" where
  "active_tab w =
     (case Option.bind (tab_position w (w_active_tab_id w)) (nth_opt (w_tabs w)) of
        None \<Rightarrow> Panic
      | Some t \<Rightarrow> Ok t)"

text \<open>\<open>active_tab_mut()?\<close> followed by an operation on the tab it returns.\<close>

definition on_active_tab :: "(tab \<Rightarrow> 'r app_result \<times> tab) \<Rightarrow> workspace \<Rightarrow> 'r app_result \<times> workspace" where
  "on_active_tab op w =
     (case tab_position w (w_active_tab_id w) of
        None \<Rightarrow> (Err (InvalidTab (w_active_tab_id w)), w)
      | Some index \<Rightarrow>
          (case op (w_tabs w ! index) of
             (r, t) \<Rightarrow> (r, w\<lparr>w_tabs := (w_tabs w)[index := t]\<rparr>)))"

definition activate_existing_tab :: "workspace \<Rightarrow> tab_id \<Rightarrow> workspace" where
  "activate_existing_tab w i =
     (if w_active_tab_id w = i then w
      else w\<lparr>w_last_active_tab_id := Some (w_active_tab_id w), w_active_tab_id := i\<rparr>)"

definition add_tab :: "workspace \<Rightarrow> tab \<Rightarrow> workspace" where
  "add_tab w t = activate_existing_tab (w\<lparr>w_tabs := w_tabs w @ [t]\<rparr>) (t_id t)"

definition insert_tab :: "workspace \<Rightarrow> tab \<Rightarrow> usize \<Rightarrow> workspace" where
  "insert_tab w t index =
     activate_existing_tab
       (w\<lparr>w_tabs := insert_nth (min index (length (w_tabs w))) t (w_tabs w)\<rparr>) (t_id t)"

definition detach_tab :: "workspace \<Rightarrow> tab_id \<Rightarrow> detached_tab app_result \<times> workspace" where
  "detach_tab w i =
     (case tab_position w i of
        None \<Rightarrow> (Err (InvalidTab i), w)
      | Some index \<Rightarrow>
          (if length (w_tabs w) \<le> 1 then (Err CannotCloseLastTab, w)
           else let t = w_tabs w ! index;
                    w1 = w\<lparr>w_tabs := remove_nth index (w_tabs w),
                           w_last_active_tab_id := (if w_last_active_tab_id w = Some i then None
                                                    else w_last_active_tab_id w)\<rparr>;
                    detached = \<lparr>dt_tab = t, dt_source_index = index\<rparr>
                in if w_active_tab_id w1 = i
                   then (case nth_opt (w_tabs w1) (min index (length (w_tabs w1) - 1)) of
                           None \<Rightarrow> (Panic, w1)
                         | Some next \<Rightarrow> (Ok detached, w1\<lparr>w_active_tab_id := t_id next\<rparr>))
                   else (Ok detached, w1)))"

definition move_pane_to_new_tab :: "workspace \<Rightarrow> pane_id \<Rightarrow> tab_id \<Rightarrow> unit app_result \<times> workspace" where
  "move_pane_to_new_tab w pane_id new_tab_id =
     (case on_active_tab (\<lambda>t. take_pane_for_new_tab t pane_id) w of
        (r, w1) \<Rightarrow>
          (case bind_outcome r (\<lambda>pane. tab_new new_tab_id [with_split pane None]) of
             Ok t \<Rightarrow> (Ok (), add_tab w1 t)
           | Err e \<Rightarrow> (Err e, w1)
           | Panic \<Rightarrow> (Panic, w1)
           | Diverge \<Rightarrow> (Diverge, w1)))"

definition move_pane_to_new_window ::
    "workspace \<Rightarrow> pane_id \<Rightarrow> window_id \<Rightarrow> tab_id \<Rightarrow> pending_window app_result \<times> workspace" where
  "move_pane_to_new_window w pane_id new_window_id new_tab_id =
     (case on_active_tab (\<lambda>t. take_pane_for_new_tab t pane_id) w of
        (r, w1) \<Rightarrow>
          (bind_outcome r (\<lambda>pane.
             map_ok (\<lambda>t. \<lparr>pw_id = new_window_id, pw_workspace_id = w_id w1,
                          pw_workspace_name = w_name w1, pw_tab = t\<rparr>)
               (tab_new new_tab_id [with_split pane None])), w1))"

definition activate_tab :: "workspace \<Rightarrow> tab_id \<Rightarrow> unit app_result \<times> workspace" where
  "activate_tab w i =
     (if tab_position w i = None then (Err (InvalidTab i), w)
      else (Ok (), activate_existing_tab w i))"

text \<open>Activation of the tab at a computed position: the indexing that may panic.\<close>

definition activate_tab_at :: "workspace \<Rightarrow> int \<Rightarrow> unit app_result \<times> workspace" where
  "activate_tab_at w target =
     (case nth_opt (w_tabs w) (nat target) of
        None \<Rightarrow> (Panic, w)
      | Some t \<Rightarrow> (Ok (), activate_existing_tab w (t_id t)))"

definition activate_tab_index :: "workspace \<Rightarrow> isize \<Rightarrow> unit app_result \<times> workspace" where
  "activate_tab_index w index =
     (if w_tabs w = [] then (Ok (), w)
      else let len = int (length (w_tabs w));
               target = (if index < 0 then max (len + index) 0 else index)
           in if target \<ge> len then (Ok (), w) else activate_tab_at w target)"

definition activate_tab_relative :: "workspace \<Rightarrow> isize \<Rightarrow> unit app_result \<times> workspace" where
  "activate_tab_relative w offset =
     (if offset = 0 \<or> w_tabs w = [] then (Ok (), w)
      else (case tab_position w (w_active_tab_id w) of
              None \<Rightarrow> (Err (InvalidTab (w_active_tab_id w)), w)
            | Some active_position \<Rightarrow>
                activate_tab_at w ((int active_position + offset) mod int (length (w_tabs w)))))"

definition activate_tab_relative_no_wrap :: "workspace \<Rightarrow> isize \<Rightarrow> unit app_result \<times> workspace" where
  "activate_tab_relative_no_wrap w offset =
     (if offset = 0 \<or> w_tabs w = [] then (Ok (), w)
      else (case tab_position w (w_active_tab_id w) of
              None \<Rightarrow> (Err (InvalidTab (w_active_tab_id w)), w)
            | Some active_position \<Rightarrow>
                activate_tab_at w (clamp 0 (int (length (w_tabs w) - 1)) (int active_position + offset))))"

definition activate_last_tab :: "workspace \<Rightarrow> workspace" where
  "activate_last_tab w =
     (case w_last_active_tab_id w of
        None \<Rightarrow> w
      | Some i \<Rightarrow>
          (if tab_position w i = None then w\<lparr>w_last_active_tab_id := None\<rparr>
           else activate_existing_tab w i))"

definition set_tab_title :: "workspace \<Rightarrow> tab_id \<Rightarrow> str \<Rightarrow> unit app_result \<times> workspace" where
  "set_tab_title w i title =
     (case tab_position w i of
        None \<Rightarrow> (Err (InvalidTab i), w)
      | Some index \<Rightarrow>
          (Ok (), w\<lparr>w_tabs := (w_tabs w)[index := tab_set_title (w_tabs w ! index) title]\<rparr>))"

text \<open>\<open>tabs.remove(from)\<close> followed by \<open>tabs.insert(to, tab)\<close>.\<close>

definition relocate :: "nat \<Rightarrow> nat \<Rightarrow> 'a list \<Rightarrow> 'a list" where
  "relocate source target xs = insert_nth target (xs ! source) (remove_nth source xs)"

definition move_tab :: "workspace \<Rightarrow> usize \<Rightarrow> unit app_result \<times> workspace" where
  "move_tab w index =
     (if index \<ge> length (w_tabs w) then (Err (InvalidTabIndex index), w)
      else if length (w_tabs w) \<le> 1 then (Ok (), w)
      else (case tab_position w (w_active_tab_id w) of
              None \<Rightarrow> (Err (InvalidTab (w_active_tab_id w)), w)
            | Some active_position \<Rightarrow>
                (if active_position = index then (Ok (), w)
                 else (Ok (), w\<lparr>w_tabs := relocate active_position index (w_tabs w)\<rparr>))))"

definition move_tab_relative :: "workspace \<Rightarrow> isize \<Rightarrow> unit app_result \<times> workspace" where
  "move_tab_relative w offset =
     (if offset = 0 \<or> length (w_tabs w) \<le> 1 then (Ok (), w)
      else (case tab_position w (w_active_tab_id w) of
              None \<Rightarrow> (Err (InvalidTab (w_active_tab_id w)), w)
            | Some active_position \<Rightarrow>
                (let last_position = length (w_tabs w) - 1;
                     target_position = nat (clamp 0 (int last_position) (int active_position + offset))
                 in if target_position = active_position then (Ok (), w)
                    else (Ok (), w\<lparr>w_tabs := relocate active_position target_position (w_tabs w)\<rparr>))))"

definition close_tab :: "workspace \<Rightarrow> tab_id \<Rightarrow> close_tab_selection \<Rightarrow> unit app_result \<times> workspace" where
  "close_tab w i selection =
     (case tab_position w i of
        None \<Rightarrow> (Err (InvalidTab i), w)
      | Some index \<Rightarrow>
          (if length (w_tabs w) \<le> 1 then (Err CannotCloseLastTab, w)
           else let next_active_tab =
                      (if w_active_tab_id w = i
                       then (case selection of
                               Adjacent \<Rightarrow> map_option t_id (nth_opt (w_tabs w) (index + 1))
                             | LastActive \<Rightarrow>
                                 (case w_last_active_tab_id w of
                                    None \<Rightarrow> None
                                  | Some l \<Rightarrow> (if l \<noteq> i \<and> tab_position w l \<noteq> None then Some l else None))
                             | LeftNeighbour \<Rightarrow> None)
                       else None);
                    w1 = w\<lparr>w_tabs := remove_nth index (w_tabs w),
                           w_last_active_tab_id := (if w_last_active_tab_id w = Some i then None
                                                    else w_last_active_tab_id w)\<rparr>
                in if w_active_tab_id w1 = i
                   then (case next_active_tab of
                           Some next \<Rightarrow> (Ok (), w1\<lparr>w_active_tab_id := next\<rparr>)
                         | None \<Rightarrow>
                             (case nth_opt (w_tabs w1) (min (index - 1) (length (w_tabs w1) - 1)) of
                                None \<Rightarrow> (Panic, w1)
                              | Some t \<Rightarrow> (Ok (), w1\<lparr>w_active_tab_id := t_id t\<rparr>)))
                   else (Ok (), w1)))"

text \<open>
  Closing a pane (\<open>apply_close_pane\<close> on the active workspace): the last pane of a tab takes
  the tab with it.
\<close>

definition workspace_close_pane :: "workspace \<Rightarrow> pane_id \<Rightarrow> unit app_result \<times> workspace" where
  "workspace_close_pane w i =
     (case position (\<lambda>t. pane_position t i \<noteq> None) (w_tabs w) of
        None \<Rightarrow> (Err (InvalidPane i), w)
      | Some tab_index \<Rightarrow>
          (if length (t_panes (w_tabs w ! tab_index)) \<le> 1
           then close_tab w (t_id (w_tabs w ! tab_index)) LeftNeighbour
           else (case close_pane (w_tabs w ! tab_index) i of
                   (r, t) \<Rightarrow> (r, w\<lparr>w_tabs := (w_tabs w)[tab_index := t]\<rparr>))))"

section \<open>Invariant\<close>

abbreviation ws_tab_ids :: "workspace \<Rightarrow> tab_id list" where
  "ws_tab_ids w \<equiv> map t_id (w_tabs w)"

definition ws_pane_ids :: "workspace \<Rightarrow> pane_id list" where
  "ws_pane_ids w = concat (map tab_pane_ids (w_tabs w))"

definition ws_ok :: "workspace \<Rightarrow> bool" where
  "ws_ok w \<longleftrightarrow>
     w_active_tab_id w \<in> set (ws_tab_ids w) \<and>
     (case w_last_active_tab_id w of None \<Rightarrow> True | Some l \<Rightarrow> l \<in> set (ws_tab_ids w)) \<and>
     (\<forall>t \<in> set (w_tabs w). tab_ok t)"

definition ws_splits_ok :: "workspace \<Rightarrow> bool" where
  "ws_splits_ok w \<longleftrightarrow> (\<forall>t \<in> set (w_tabs w). splits_ok (t_panes t))"

end
