(* ===== verification/Workspace_Laws.thy ===== *)
theory Workspace_Laws
  imports Workspaces
begin

text \<open>
  The contract of an operation on a workspace and its interpretations: every operation of
  \<open>Workspace\<close> keeps \<open>ws_ok\<close>, returns, keeps the identity of the workspace and adds no pane
  or tab identity other than the fresh ones it was given.
\<close>

section \<open>Positions and updates\<close>

lemma tab_position_None: "tab_position w i = None \<longleftrightarrow> i \<notin> set (ws_tab_ids w)"
  by (auto simp: tab_position_def position_None_iff)

lemma tab_position_SomeD: "tab_position w i = Some k \<Longrightarrow> k < length (w_tabs w) \<and> t_id (w_tabs w ! k) = i"
  by (auto simp: tab_position_def dest: position_SomeD)

lemma tab_position_ex: "i \<in> set (ws_tab_ids w) \<Longrightarrow> \<exists>k. tab_position w i = Some k"
  by (metis not_None_eq tab_position_None)

lemma ws_okD:
  assumes "ws_ok w"
  shows "w_active_tab_id w \<in> set (ws_tab_ids w)" and "w_tabs w \<noteq> []" and "0 < length (w_tabs w)"
    and "\<And>t. t \<in> set (w_tabs w) \<Longrightarrow> tab_ok t"
    and "\<And>l. w_last_active_tab_id w = Some l \<Longrightarrow> l \<in> set (ws_tab_ids w)"
  using assms by (auto simp: ws_ok_def)

lemma ws_ok_active_position:
  assumes "ws_ok w"
  obtains k where "tab_position w (w_active_tab_id w) = Some k" and "k < length (w_tabs w)"
    and "t_id (w_tabs w ! k) = w_active_tab_id w" and "tab_ok (w_tabs w ! k)"
  using tab_position_ex [OF ws_okD(1) [OF assms]] tab_position_SomeD ws_okD(4) [OF assms] nth_mem by metis

lemma active_tab_Ok:
  assumes "ws_ok w"
  obtains t where "active_tab w = Ok t" and "t \<in> set (w_tabs w)" and "t_id t = w_active_tab_id w" and "tab_ok t"
proof -
  from ws_ok_active_position [OF assms] obtain k where "tab_position w (w_active_tab_id w) = Some k"
    "k < length (w_tabs w)" "t_id (w_tabs w ! k) = w_active_tab_id w" "tab_ok (w_tabs w ! k)" .
  then show thesis by (intro that [of "w_tabs w ! k"]) (simp_all add: active_tab_def nth_opt_less)
qed

lemma mset_concat_update:
  "k < length xss \<Longrightarrow> mset (concat (xss[k := ys])) + mset (xss ! k) = mset (concat xss) + mset ys"
proof (induction xss arbitrary: k)
  case (Cons xs xss)
  then show ?case by (cases k) (auto simp: ac_simps)
qed simp

lemma mset_concat_remove:
  "k < length xss \<Longrightarrow> mset (concat (remove_nth k xss)) + mset (xss ! k) = mset (concat xss)"
proof (induction xss arbitrary: k)
  case (Cons xs xss)
  then show ?case by (cases k) (auto simp: remove_nth_def ac_simps)
qed simp

lemma mset_concat_insert: "mset (concat (insert_nth k xs xss)) = mset xs + mset (concat xss)"
proof -
  have "concat (insert_nth k xs xss) = concat (take k xss) @ xs @ concat (drop k xss)"
    by (simp add: insert_nth_def)
  moreover have "mset (concat xss) = mset (concat (take k xss)) + mset (concat (drop k xss))"
    by (metis append_take_drop_id concat_append mset_append)
  ultimately show ?thesis by (simp add: ac_simps)
qed

lemma ws_pane_ids_update:
  assumes "k < length (w_tabs w)" and "mset (tab_pane_ids t) \<subseteq># mset (tab_pane_ids (w_tabs w ! k)) + M"
  shows "mset (ws_pane_ids (w\<lparr>w_tabs := (w_tabs w)[k := t]\<rparr>)) \<subseteq># mset (ws_pane_ids w) + M"
proof -
  have "mset (ws_pane_ids (w\<lparr>w_tabs := (w_tabs w)[k := t]\<rparr>)) + mset (tab_pane_ids (w_tabs w ! k)) =
      mset (ws_pane_ids w) + mset (tab_pane_ids t)"
    using mset_concat_update [of k "map tab_pane_ids (w_tabs w)" "tab_pane_ids t"] assms(1)
    by (simp add: ws_pane_ids_def map_update del: mset_concat)
  also have "\<dots> \<subseteq># mset (ws_pane_ids w) + (mset (tab_pane_ids (w_tabs w ! k)) + M)"
    using assms(2) by (rule subset_mset.add_left_mono)
  finally show ?thesis by (simp add: ac_simps del: mset_map)
qed

lemma ws_tab_ids_update:
  "k < length (w_tabs w) \<Longrightarrow> t_id t = t_id (w_tabs w ! k) \<Longrightarrow>
   ws_tab_ids (w\<lparr>w_tabs := (w_tabs w)[k := t]\<rparr>) = ws_tab_ids w"
  by (simp add: map_update_same)

lemma ws_ok_update:
  assumes "ws_ok w" and "k < length (w_tabs w)" and "t_id t = t_id (w_tabs w ! k)" and "tab_ok t"
  shows "ws_ok (w\<lparr>w_tabs := (w_tabs w)[k := t]\<rparr>)"
proof -
  have "\<forall>t \<in> set ((w_tabs w)[k := t]). tab_ok t"
    using assms by (intro set_list_update_memI) (auto simp: ws_ok_def)
  with assms(1) ws_tab_ids_update [OF assms(2,3)] show ?thesis
    by (simp add: ws_ok_def del: set_map split: option.splits)
qed

lemma ws_splits_update:
  "ws_splits_ok w \<Longrightarrow> k < length (w_tabs w) \<Longrightarrow> splits_ok (t_panes t) \<Longrightarrow>
   ws_splits_ok (w\<lparr>w_tabs := (w_tabs w)[k := t]\<rparr>)"
  unfolding ws_splits_ok_def by (simp del: ball_simps) (rule set_list_update_memI)

lemma ws_pane_distinct_tab:
  "distinct (ws_pane_ids w) \<Longrightarrow> t \<in> set (w_tabs w) \<Longrightarrow> distinct (tab_pane_ids t)"
  by (auto simp: ws_pane_ids_def distinct_concat_iff)

section \<open>Contract\<close>

locale workspace_operation =
  fixes wop :: "workspace \<Rightarrow> 'r app_result \<times> workspace"
    and fresh_panes :: "pane_id list" and fresh_tabs :: "tab_id list"
  assumes wop_ok: "ws_ok w \<Longrightarrow> ws_ok (snd (wop w))"
    and wop_returns: "ws_ok w \<Longrightarrow> returns (fst (wop w))"
    and wop_id: "ws_ok w \<Longrightarrow> w_id (snd (wop w)) = w_id w"
    and wop_panes: "ws_ok w \<Longrightarrow> mset (ws_pane_ids (snd (wop w))) \<subseteq># mset (ws_pane_ids w) + mset fresh_panes"
    and wop_tabs: "ws_ok w \<Longrightarrow> mset (ws_tab_ids (snd (wop w))) \<subseteq># mset (ws_tab_ids w) + mset fresh_tabs"

locale layout_workspace_operation = workspace_operation +
  assumes wop_splits: "ws_ok w \<Longrightarrow> distinct (ws_pane_ids w) \<Longrightarrow> ws_splits_ok w \<Longrightarrow> ws_splits_ok (snd (wop w))"

text \<open>An operation on the active tab is an operation on the workspace.\<close>

context tab_operation begin

lemma on_active_tab_unfold:
  assumes "ws_ok w"
  obtains k where "k < length (w_tabs w)" and "tab_ok (w_tabs w ! k)"
    and "on_active_tab op w = (fst (op (w_tabs w ! k)), w\<lparr>w_tabs := (w_tabs w)[k := snd (op (w_tabs w ! k))]\<rparr>)"
proof -
  from ws_ok_active_position [OF assms] obtain k where "tab_position w (w_active_tab_id w) = Some k"
    "k < length (w_tabs w)" "tab_ok (w_tabs w ! k)" by metis
  then show thesis by (intro that [of k]) (simp_all add: on_active_tab_def case_prod_beta)
qed

end

sublocale tab_operation \<subseteq> on_active: workspace_operation "on_active_tab op" fresh "[]"
proof
  fix w :: workspace assume w: "ws_ok w"
  from on_active_tab_unfold [OF w] obtain k where k: "k < length (w_tabs w)" "tab_ok (w_tabs w ! k)"
    and u: "on_active_tab op w = (fst (op (w_tabs w ! k)), w\<lparr>w_tabs := (w_tabs w)[k := snd (op (w_tabs w ! k))]\<rparr>)" .
  show "ws_ok (snd (on_active_tab op w))" using ws_ok_update [OF w k(1) op_id op_ok [OF k(2)]] by (simp add: u)
  show "returns (fst (on_active_tab op w))" using op_returns [OF k(2)] by (simp add: u)
  show "w_id (snd (on_active_tab op w)) = w_id w" by (simp add: u)
  show "mset (ws_pane_ids (snd (on_active_tab op w))) \<subseteq># mset (ws_pane_ids w) + mset fresh"
    using ws_pane_ids_update [OF k(1) op_panes [OF k(2)]] by (simp add: u)
  show "mset (ws_tab_ids (snd (on_active_tab op w))) \<subseteq># mset (ws_tab_ids w) + mset []"
    using ws_tab_ids_update [OF k(1) op_id] by (simp add: u del: mset_map)
qed

sublocale layout_tab_operation \<subseteq> on_active: layout_workspace_operation "on_active_tab op" fresh "[]"
proof
  fix w :: workspace assume w: "ws_ok w" and d: "distinct (ws_pane_ids w)" and s: "ws_splits_ok w"
  from on_active_tab_unfold [OF w] obtain k where k: "k < length (w_tabs w)" "tab_ok (w_tabs w ! k)"
    and u: "on_active_tab op w = (fst (op (w_tabs w ! k)), w\<lparr>w_tabs := (w_tabs w)[k := snd (op (w_tabs w ! k))]\<rparr>)" .
  have "splits_ok (t_panes (snd (op (w_tabs w ! k))))"
    using s nth_mem [OF k(1)] by (intro op_splits k ws_pane_distinct_tab [OF d]) (auto simp: ws_splits_ok_def)
  from ws_splits_update [OF s k(1) this] show "ws_splits_ok (snd (on_active_tab op w))" by (simp add: u)
qed

section \<open>Activation\<close>

lemma activate_existing_tab_fields [simp]:
  "w_tabs (activate_existing_tab w i) = w_tabs w" "w_id (activate_existing_tab w i) = w_id w"
  "w_name (activate_existing_tab w i) = w_name w" "w_active_tab_id (activate_existing_tab w i) = i"
  "ws_pane_ids (activate_existing_tab w i) = ws_pane_ids w"
  "ws_splits_ok (activate_existing_tab w i) = ws_splits_ok w"
  by (auto simp: activate_existing_tab_def ws_pane_ids_def ws_splits_ok_def)

lemma activate_existing_tab_ok:
  "i \<in> set (ws_tab_ids w) \<Longrightarrow> ws_ok w \<Longrightarrow> ws_ok (activate_existing_tab w i)"
  by (auto simp: activate_existing_tab_def ws_ok_def)

text \<open>An operation that changes nothing or activates an existing tab.\<close>

lemma activation_workspace_contract:
  assumes "\<And>w. ws_ok w \<Longrightarrow> returns (fst (f w)) \<and>
    (snd (f w) = w \<or> (\<exists>i \<in> set (ws_tab_ids w). snd (f w) = activate_existing_tab w i))"
  shows "layout_workspace_operation f [] []"
proof
  fix w :: workspace assume w: "ws_ok w"
  note f = assms [OF w]
  show "ws_ok (snd (f w))" using f w activate_existing_tab_ok by (auto simp del: set_map)
  show "returns (fst (f w))" "w_id (snd (f w)) = w_id w" using f by auto
  show "mset (ws_pane_ids (snd (f w))) \<subseteq># mset (ws_pane_ids w) + mset []"
    "mset (ws_tab_ids (snd (f w))) \<subseteq># mset (ws_tab_ids w) + mset []"
    using f by (auto simp del: mset_map)
  show "ws_splits_ok w \<Longrightarrow> ws_splits_ok (snd (f w))" using f by auto
qed

interpretation activate_tab: layout_workspace_operation "\<lambda>w. activate_tab w i" "[]" "[]" for i
  by (rule activation_workspace_contract) (auto simp: activate_tab_def tab_position_None simp del: set_map)

lemma activate_tab_at_in_range:
  assumes "ws_ok w" and "0 \<le> k" and "k < int (length (w_tabs w))"
  shows "returns (fst (activate_tab_at w k)) \<and>
    (\<exists>i \<in> set (ws_tab_ids w). snd (activate_tab_at w k) = activate_existing_tab w i)"
proof -
  have "nat k < length (w_tabs w)" using assms by simp
  then show ?thesis by (auto simp: activate_tab_at_def nth_opt_less)
qed

interpretation activate_tab_index: layout_workspace_operation "\<lambda>w. activate_tab_index w i" "[]" "[]" for i
proof (rule activation_workspace_contract)
  fix w assume w: "ws_ok w"
  show "returns (fst (activate_tab_index w i)) \<and> (snd (activate_tab_index w i) = w \<or>
     (\<exists>j \<in> set (ws_tab_ids w). snd (activate_tab_index w i) = activate_existing_tab w j))"
    using activate_tab_at_in_range [OF w] by (simp add: activate_tab_index_def Let_def del: set_map)
qed

interpretation activate_tab_relative: layout_workspace_operation "\<lambda>w. activate_tab_relative w i" "[]" "[]" for i
proof (rule activation_workspace_contract)
  fix w assume w: "ws_ok w"
  note len = ws_okD(3) [OF w]
  from ws_ok_active_position [OF w] obtain k where "tab_position w (w_active_tab_id w) = Some k" by metis
  then show "returns (fst (activate_tab_relative w i)) \<and> (snd (activate_tab_relative w i) = w \<or>
     (\<exists>j \<in> set (ws_tab_ids w). snd (activate_tab_relative w i) = activate_existing_tab w j))"
    using activate_tab_at_in_range [OF w, of "(int k + i) mod int (length (w_tabs w))"] len
    by (simp add: activate_tab_relative_def del: set_map)
qed

lemma clamp_bounds: "0 \<le> hi \<Longrightarrow> 0 \<le> clamp 0 hi x \<and> clamp 0 hi x \<le> hi"
  by (simp add: clamp_def)

interpretation activate_tab_relative_no_wrap:
  layout_workspace_operation "\<lambda>w. activate_tab_relative_no_wrap w i" "[]" "[]" for i
proof (rule activation_workspace_contract)
  fix w assume w: "ws_ok w"
  note len = ws_okD(3) [OF w]
  from ws_ok_active_position [OF w] obtain k where "tab_position w (w_active_tab_id w) = Some k" by metis
  then show "returns (fst (activate_tab_relative_no_wrap w i)) \<and> (snd (activate_tab_relative_no_wrap w i) = w \<or>
     (\<exists>j \<in> set (ws_tab_ids w). snd (activate_tab_relative_no_wrap w i) = activate_existing_tab w j))"
    using activate_tab_at_in_range [OF w, of "clamp 0 (int (length (w_tabs w) - 1)) (int k + i)"]
      clamp_bounds [of "int (length (w_tabs w) - 1)" "int k + i"] len
    by (simp add: activate_tab_relative_no_wrap_def del: set_map)
qed

interpretation activate_last_tab: layout_workspace_operation "\<lambda>w. (Ok (), activate_last_tab w)" "[]" "[]"
proof (rule activation_workspace_contract)
  fix w assume w: "ws_ok w"
  show "returns (fst (Ok () :: unit app_result, activate_last_tab w)) \<and> (snd (Ok () :: unit app_result, activate_last_tab w) = w \<or>
     (\<exists>j \<in> set (ws_tab_ids w). snd (Ok () :: unit app_result, activate_last_tab w) = activate_existing_tab w j))"
    using ws_okD(5) [OF w] by (auto simp: activate_last_tab_def tab_position_None simp del: set_map split: option.split)
qed

section \<open>Titles and order\<close>

lemma tab_set_title_fields [simp]:
  "t_id (tab_set_title t s) = t_id t" "t_panes (tab_set_title t s) = t_panes t"
  "tab_ok (tab_set_title t s) = tab_ok t"
  by (simp_all add: tab_set_title_def Let_def tab_ok_def)

interpretation set_tab_title: layout_workspace_operation "\<lambda>w. set_tab_title w i s" "[]" "[]" for i s
proof
  fix w :: workspace assume w: "ws_ok w"
  show "ws_ok (snd (set_tab_title w i s))"
    using w ws_okD(4) [OF w] by (auto simp: set_tab_title_def dest: tab_position_SomeD intro!: ws_ok_update split: option.split)
  show "returns (fst (set_tab_title w i s))" "w_id (snd (set_tab_title w i s)) = w_id w"
    by (simp_all add: set_tab_title_def split: option.split)
  show "mset (ws_pane_ids (snd (set_tab_title w i s))) \<subseteq># mset (ws_pane_ids w) + mset []"
    by (auto simp: set_tab_title_def dest: tab_position_SomeD
        intro!: ws_pane_ids_update [where M = "{#}", simplified] split: option.split)
  show "mset (ws_tab_ids (snd (set_tab_title w i s))) \<subseteq># mset (ws_tab_ids w) + mset []"
    by (auto simp: set_tab_title_def map_update_same dest: tab_position_SomeD simp del: mset_map split: option.split)
  show "ws_splits_ok w \<Longrightarrow> ws_splits_ok (snd (set_tab_title w i s))"
    by (auto simp: set_tab_title_def dest: tab_position_SomeD intro!: ws_splits_update split: option.split)
      (auto simp: ws_splits_ok_def dest: tab_position_SomeD)
qed

lemma mset_relocate: "k < length xs \<Longrightarrow> mset (relocate k j xs) = mset xs"
  by (simp add: relocate_def mset_remove_nth [symmetric])

lemma mset_concat_cong: "mset xs = mset ys \<Longrightarrow> mset (concat (map f xs)) = mset (concat (map f ys))"
  unfolding mset_concat by (metis list.map_comp mset_map sum_mset_sum_list)

text \<open>Reordering the tabs changes nothing the contract speaks of.\<close>

lemma reorder_workspace_contract:
  assumes "\<And>w. ws_ok w \<Longrightarrow> returns (fst (f w)) \<and>
    mset (w_tabs (snd (f w))) = mset (w_tabs w) \<and> snd (f w) = w\<lparr>w_tabs := w_tabs (snd (f w))\<rparr>"
  shows "layout_workspace_operation f [] []"
proof
  fix w :: workspace assume w: "ws_ok w"
  from assms [OF w] obtain ts where ts: "mset ts = mset (w_tabs w)" "snd (f w) = w\<lparr>w_tabs := ts\<rparr>" by blast
  have set: "set ts = set (w_tabs w)" using ts(1) by (rule mset_eq_setD)
  show "ws_ok (snd (f w))" using w by (simp add: ts(2) ws_ok_def set split: option.splits)
  show "returns (fst (f w))" "w_id (snd (f w)) = w_id w" using assms [OF w] ts by auto
  show "mset (ws_pane_ids (snd (f w))) \<subseteq># mset (ws_pane_ids w) + mset []"
    using mset_concat_cong [OF ts(1), of tab_pane_ids] by (simp add: ts(2) ws_pane_ids_def del: mset_concat)
  show "mset (ws_tab_ids (snd (f w))) \<subseteq># mset (ws_tab_ids w) + mset []" by (simp add: ts)
  show "ws_splits_ok w \<Longrightarrow> ws_splits_ok (snd (f w))" by (simp add: ts(2) ws_splits_ok_def set)
qed

interpretation move_tab: layout_workspace_operation "\<lambda>w. move_tab w i" "[]" "[]" for i
proof (rule reorder_workspace_contract)
  fix w assume w: "ws_ok w"
  from ws_ok_active_position [OF w] obtain k where k: "tab_position w (w_active_tab_id w) = Some k"
    "k < length (w_tabs w)" by metis
  then show "returns (fst (move_tab w i)) \<and> mset (w_tabs (snd (move_tab w i))) = mset (w_tabs w) \<and>
      snd (move_tab w i) = w\<lparr>w_tabs := w_tabs (snd (move_tab w i))\<rparr>"
    by (simp add: move_tab_def mset_relocate)
qed

interpretation move_tab_relative: layout_workspace_operation "\<lambda>w. move_tab_relative w i" "[]" "[]" for i
proof (rule reorder_workspace_contract)
  fix w assume w: "ws_ok w"
  from ws_ok_active_position [OF w] obtain k where k: "tab_position w (w_active_tab_id w) = Some k"
    "k < length (w_tabs w)" by metis
  then show "returns (fst (move_tab_relative w i)) \<and>
      mset (w_tabs (snd (move_tab_relative w i))) = mset (w_tabs w) \<and>
      snd (move_tab_relative w i) = w\<lparr>w_tabs := w_tabs (snd (move_tab_relative w i))\<rparr>"
    by (simp add: move_tab_relative_def Let_def mset_relocate)
qed

section \<open>Adding and removing tabs\<close>

lemma ws_pane_ids_remove:
  "k < length (w_tabs w) \<Longrightarrow>
   mset (concat (map tab_pane_ids (remove_nth k (w_tabs w)))) + mset (tab_pane_ids (w_tabs w ! k)) = mset (ws_pane_ids w)"
  using mset_concat_remove [of k "map tab_pane_ids (w_tabs w)"]
  by (simp add: ws_pane_ids_def map_remove_nth del: mset_concat)

text \<open>
  What removing the tab at position \<open>k\<close> may do: the remaining tabs stay in order, the
  active tab and the previously active one are among them.
\<close>

definition tab_removed :: "nat \<Rightarrow> workspace \<Rightarrow> workspace \<Rightarrow> bool" where
  "tab_removed k w w' \<longleftrightarrow> k < length (w_tabs w) \<and> w_tabs w' = remove_nth k (w_tabs w) \<and> w_id w' = w_id w \<and>
     w_name w' = w_name w \<and> w_active_tab_id w' \<in> set (ws_tab_ids w') \<and>
     (case w_last_active_tab_id w' of None \<Rightarrow> True | Some l \<Rightarrow> l \<in> set (ws_tab_ids w'))"

lemma tab_removed_contract:
  assumes "tab_removed k w w'" and "ws_ok w"
  shows "ws_ok w'" and "w_id w' = w_id w"
    and "mset (ws_pane_ids w') \<subseteq># mset (ws_pane_ids w)" and "mset (ws_tab_ids w') \<subseteq># mset (ws_tab_ids w)"
    and "ws_splits_ok w \<Longrightarrow> ws_splits_ok w'"
proof -
  have k: "k < length (w_tabs w)" "w_tabs w' = remove_nth k (w_tabs w)" using assms(1) by (auto simp: tab_removed_def)
  have sub: "set (w_tabs w') \<subseteq> set (w_tabs w)" unfolding k(2) by (rule set_remove_nth_subset)
  show "ws_ok w'" using assms sub by (auto simp: ws_ok_def tab_removed_def)
  show "w_id w' = w_id w" using assms(1) by (simp add: tab_removed_def)
  have "mset (ws_pane_ids w') + mset (tab_pane_ids (w_tabs w ! k)) = mset (ws_pane_ids w)"
    using ws_pane_ids_remove [OF k(1)] by (simp add: ws_pane_ids_def k(2) del: mset_concat)
  then show "mset (ws_pane_ids w') \<subseteq># mset (ws_pane_ids w)" by (metis mset_subset_eq_add_left)
  show "mset (ws_tab_ids w') \<subseteq># mset (ws_tab_ids w)"
    unfolding k(2) map_remove_nth by (rule mset_remove_nth_subset)
  show "ws_splits_ok w \<Longrightarrow> ws_splits_ok w'" using sub by (auto simp: ws_splits_ok_def)
qed

lemma removal_workspace_contract:
  assumes "\<And>w. ws_ok w \<Longrightarrow> returns (fst (f w)) \<and> (snd (f w) = w \<or> (\<exists>k. tab_removed k w (snd (f w))))"
  shows "layout_workspace_operation f [] []"
proof
  fix w :: workspace assume w: "ws_ok w"
  show "ws_ok (snd (f w))" "returns (fst (f w))" "w_id (snd (f w)) = w_id w"
    "mset (ws_pane_ids (snd (f w))) \<subseteq># mset (ws_pane_ids w) + mset []"
    "mset (ws_tab_ids (snd (f w))) \<subseteq># mset (ws_tab_ids w) + mset []"
    "ws_splits_ok w \<Longrightarrow> ws_splits_ok (snd (f w))"
    using assms [OF w] w tab_removed_contract [of _ w "snd (f w)"] by (auto simp del: mset_map)
qed

lemma remaining_id:
  "k < length (w_tabs w) \<Longrightarrow> i \<in> set (ws_tab_ids w) \<Longrightarrow> i \<noteq> t_id (w_tabs w ! k) \<Longrightarrow>
   i \<in> set (map t_id (remove_nth k (w_tabs w)))"
  using set_remove_nth [of k "w_tabs w"] by auto

lemma nth_remove_nth_mem:
  "k < length xs \<Longrightarrow> 1 < length xs \<Longrightarrow> min j (length xs - 2) < length (remove_nth k xs)"
  by simp

text \<open>
  The rest of the bookkeeping after the removal: the previously active tab is forgotten if
  it was the removed one, and a new active tab is chosen only if the active one is gone.
\<close>

lemma tab_removedI:
  assumes "ws_ok w" and k: "tab_position w i = Some k" and "1 < length (w_tabs w)"
    and act: "w_active_tab_id w = i \<Longrightarrow> a \<in> set (map t_id (remove_nth k (w_tabs w)))"
    and keep: "w_active_tab_id w \<noteq> i \<Longrightarrow> a = w_active_tab_id w"
  shows "tab_removed k w (w\<lparr>w_tabs := remove_nth k (w_tabs w),
    w_last_active_tab_id := (if w_last_active_tab_id w = Some i then None else w_last_active_tab_id w),
    w_active_tab_id := a\<rparr>)"
proof -
  note pos = tab_position_SomeD [OF k]
  have "a \<in> set (map t_id (remove_nth k (w_tabs w)))"
    using act keep remaining_id [of k w a] pos ws_okD(1) [OF assms(1)] by (cases "w_active_tab_id w = i") auto
  moreover have "l \<in> set (map t_id (remove_nth k (w_tabs w)))" if "w_last_active_tab_id w = Some l" "l \<noteq> i" for l
    using remaining_id [of k w l] pos ws_okD(5) [OF assms(1) that(1)] that(2) by simp
  ultimately show ?thesis using pos by (simp add: tab_removed_def del: set_map split: option.split)
qed

lemma w_update_active_same: "w_active_tab_id w = a \<Longrightarrow> w\<lparr>w_active_tab_id := a\<rparr> = w"
  by (cases w) simp

lemma detach_tab_cases:
  assumes w: "ws_ok w"
  shows "(\<exists>e. detach_tab w i = (Err e, w)) \<or>
    (\<exists>k w'. tab_position w i = Some k \<and> tab_removed k w w' \<and>
      detach_tab w i = (Ok \<lparr>dt_tab = w_tabs w ! k, dt_source_index = k\<rparr>, w'))"
proof (cases "tab_position w i")
  case (Some k)
  show ?thesis
  proof (cases "length (w_tabs w) \<le> 1")
    case False
    note pos = tab_position_SomeD [OF Some]
    let ?ts = "remove_nth k (w_tabs w)"
    have len: "min k (length ?ts - 1) < length ?ts" using pos False by simp
    define a where "a = (if w_active_tab_id w = i then t_id (?ts ! min k (length ?ts - 1)) else w_active_tab_id w)"
    have "w_active_tab_id w = i \<Longrightarrow> a \<in> set (map t_id ?ts)" using nth_mem [OF len] by (simp add: a_def)
    with tab_removedI [OF w Some, of a] False
    have "tab_removed k w (w\<lparr>w_tabs := ?ts,
        w_last_active_tab_id := (if w_last_active_tab_id w = Some i then None else w_last_active_tab_id w),
        w_active_tab_id := a\<rparr>)" by (simp add: a_def)
    moreover have "detach_tab w i = (Ok \<lparr>dt_tab = w_tabs w ! k, dt_source_index = k\<rparr>, w\<lparr>w_tabs := ?ts,
        w_last_active_tab_id := (if w_last_active_tab_id w = Some i then None else w_last_active_tab_id w),
        w_active_tab_id := a\<rparr>)"
      using False Some len by (auto simp: detach_tab_def Let_def nth_opt_less a_def w_update_active_same)
    ultimately show ?thesis using Some by blast
  qed (simp add: detach_tab_def Some)
qed (simp add: detach_tab_def)

interpretation detach_tab: layout_workspace_operation "\<lambda>w. detach_tab w i" "[]" "[]" for i
proof (rule removal_workspace_contract)
  fix w assume "ws_ok w"
  from detach_tab_cases [OF this, of i]
  show "returns (fst (detach_tab w i)) \<and> (snd (detach_tab w i) = w \<or> (\<exists>k. tab_removed k w (snd (detach_tab w i))))"
    by auto
qed

text \<open>The tab \<open>close_tab\<close> activates: by selection, or the left neighbour of the closed one.\<close>

definition next_active :: "workspace \<Rightarrow> nat \<Rightarrow> close_tab_selection \<Rightarrow> tab_id" where
  "next_active w k selection =
     (let left = t_id (remove_nth k (w_tabs w) ! min (k - 1) (length (w_tabs w) - 2))
      in case selection of
           Adjacent \<Rightarrow> (if Suc k < length (w_tabs w) then t_id (w_tabs w ! Suc k) else left)
         | LastActive \<Rightarrow> (case w_last_active_tab_id w of
             None \<Rightarrow> left | Some l \<Rightarrow> (if l \<noteq> t_id (w_tabs w ! k) then l else left))
         | LeftNeighbour \<Rightarrow> left)"

lemma nth_remove_nth: "remove_nth k xs ! j = (if j < k then xs ! j else xs ! Suc j)" if "k < length xs" "j < length xs - 1"
  using that by (auto simp: remove_nth_def nth_append min_def)

lemma next_active_mem:
  assumes w: "ws_ok w" and k: "k < length (w_tabs w)" and len: "1 < length (w_tabs w)"
  shows "next_active w k selection \<in> set (map t_id (remove_nth k (w_tabs w)))"
proof -
  let ?ts = "remove_nth k (w_tabs w)"
  have left: "t_id (?ts ! min (k - 1) (length (w_tabs w) - 2)) \<in> set (map t_id ?ts)" (is "?l \<in> _")
    using len k by (auto intro!: imageI nth_mem)
  have adj: "t_id (w_tabs w ! Suc k) \<in> set (map t_id ?ts)" if "Suc k < length (w_tabs w)"
    using that len k nth_mem [of k ?ts] nth_remove_nth [OF k, of k] by (auto intro!: image_eqI)
  have last: "l \<in> set (map t_id ?ts)" if "w_last_active_tab_id w = Some l" "l \<noteq> t_id (w_tabs w ! k)" for l
    using remaining_id [OF k ws_okD(5) [OF w that(1)] that(2)] .
  show ?thesis using left adj last
    by (auto simp: next_active_def Let_def simp del: set_map split: close_tab_selection.split option.split)
qed

lemma close_tab_unfold:
  assumes w: "ws_ok w" and k: "tab_position w i = Some k" and len: "1 < length (w_tabs w)"
  shows "close_tab w i sel = (Ok (), w\<lparr>w_tabs := remove_nth k (w_tabs w),
    w_last_active_tab_id := (if w_last_active_tab_id w = Some i then None else w_last_active_tab_id w),
    w_active_tab_id := (if w_active_tab_id w = i then next_active w k sel else w_active_tab_id w)\<rparr>)"
proof (cases "w_active_tab_id w = i")
  case False
  with k len show ?thesis by (simp add: close_tab_def Let_def)
next
  case True
  note pos = tab_position_SomeD [OF k]
  have left: "min (k - Suc 0) (length (w_tabs w) - Suc (Suc 0)) < length (w_tabs w) - Suc 0"
    using pos len by auto
  note simps = close_tab_def Let_def next_active_def nth_opt_def numeral_2_eq_2
  show ?thesis
  proof (cases sel)
    case Adjacent
    with True k len left pos show ?thesis by (simp add: simps) linarith
  next
    case LastActive
    have "tab_position w l \<noteq> None" if "w_last_active_tab_id w = Some l" for l
      using ws_okD(5) [OF w that] by (simp add: tab_position_None)
    with LastActive True k len left pos show ?thesis
      by (cases "w_last_active_tab_id w") (simp_all add: simps)
  next
    case LeftNeighbour
    with True k len left pos show ?thesis by (simp add: simps)
  qed
qed

lemma close_tab_cases:
  assumes w: "ws_ok w"
  shows "(tab_position w i = None \<and> close_tab w i sel = (Err (InvalidTab i), w)) \<or>
    (length (w_tabs w) \<le> 1 \<and> close_tab w i sel = (Err CannotCloseLastTab, w)) \<or>
    (\<exists>k w'. tab_position w i = Some k \<and> 1 < length (w_tabs w) \<and> tab_removed k w w' \<and> close_tab w i sel = (Ok (), w') \<and>
      w_active_tab_id w' = (if w_active_tab_id w = i then next_active w k sel else w_active_tab_id w))"
proof (cases "tab_position w i")
  case (Some k)
  show ?thesis
  proof (cases "length (w_tabs w) \<le> 1")
    case False
    note pos = tab_position_SomeD [OF Some]
    let ?ts = "remove_nth k (w_tabs w)"
    define a where "a = (if w_active_tab_id w = i then next_active w k sel else w_active_tab_id w)"
    have "w_active_tab_id w = i \<Longrightarrow> a \<in> set (map t_id ?ts)"
      using next_active_mem [OF w conjunct1 [OF pos], of sel] False by (simp add: a_def)
    with tab_removedI [OF w Some, of a] False
    have "tab_removed k w (w\<lparr>w_tabs := ?ts,
        w_last_active_tab_id := (if w_last_active_tab_id w = Some i then None else w_last_active_tab_id w),
        w_active_tab_id := a\<rparr>)" by (simp add: a_def)
    moreover have "close_tab w i sel = (Ok (), w\<lparr>w_tabs := ?ts,
        w_last_active_tab_id := (if w_last_active_tab_id w = Some i then None else w_last_active_tab_id w),
        w_active_tab_id := a\<rparr>)"
      using close_tab_unfold [OF w Some, of sel] False unfolding a_def by simp
    ultimately show ?thesis using Some False by (intro disjI2) (force simp: a_def)
  qed (simp add: close_tab_def Some)
qed (simp add: close_tab_def)

interpretation close_tab: layout_workspace_operation "\<lambda>w. close_tab w i sel" "[]" "[]" for i sel
proof (rule removal_workspace_contract)
  fix w assume "ws_ok w"
  from close_tab_cases [OF this, of i sel]
  show "returns (fst (close_tab w i sel)) \<and> (snd (close_tab w i sel) = w \<or> (\<exists>k. tab_removed k w (snd (close_tab w i sel))))"
    by auto
qed

section \<open>New tabs\<close>

lemma add_tab_fields [simp]:
  "w_tabs (add_tab w t) = w_tabs w @ [t]" "w_id (add_tab w t) = w_id w" "w_name (add_tab w t) = w_name w"
  "w_active_tab_id (add_tab w t) = t_id t" "ws_pane_ids (add_tab w t) = ws_pane_ids w @ tab_pane_ids t"
  "ws_splits_ok (add_tab w t) \<longleftrightarrow> ws_splits_ok w \<and> splits_ok (t_panes t)"
  by (auto simp: add_tab_def ws_pane_ids_def ws_splits_ok_def)

lemma insert_tab_fields [simp]:
  "set (w_tabs (insert_tab w t k)) = insert t (set (w_tabs w))" "w_id (insert_tab w t k) = w_id w"
  "w_active_tab_id (insert_tab w t k) = t_id t"
  "mset (ws_tab_ids (insert_tab w t k)) = add_mset (t_id t) (mset (ws_tab_ids w))"
  "mset (ws_pane_ids (insert_tab w t k)) = mset (ws_pane_ids w) + mset (tab_pane_ids t)"
  "ws_splits_ok (insert_tab w t k) \<longleftrightarrow> ws_splits_ok w \<and> splits_ok (t_panes t)"
  using mset_concat_insert [of _ "tab_pane_ids t" "map tab_pane_ids (w_tabs w)"]
  by (auto simp: insert_tab_def ws_splits_ok_def ws_pane_ids_def map_insert_nth simp del: mset_concat mset_map)

lemma insert_tabs_ok: "ws_ok w \<Longrightarrow> tab_ok t \<Longrightarrow> set ts = insert t (set (w_tabs w)) \<Longrightarrow> ws_ok (w\<lparr>w_tabs := ts\<rparr>)"
  by (simp add: ws_ok_def split: option.splits)

lemma add_tab_ok: "ws_ok w \<Longrightarrow> tab_ok t \<Longrightarrow> ws_ok (add_tab w t)"
  unfolding add_tab_def by (rule activate_existing_tab_ok) (auto intro!: insert_tabs_ok)

lemma insert_tab_ok: "ws_ok w \<Longrightarrow> tab_ok t \<Longrightarrow> ws_ok (insert_tab w t k)"
  unfolding insert_tab_def by (rule activate_existing_tab_ok) (auto intro!: insert_tabs_ok)

lemma add_tab_contract: "tab_ok t \<Longrightarrow> workspace_operation (\<lambda>w. (Ok (), add_tab w t)) (tab_pane_ids t) [t_id t]"
  by unfold_locales (simp_all add: add_tab_ok)

lemma insert_tab_contract:
  "tab_ok t \<Longrightarrow> workspace_operation (\<lambda>w. (Ok x, insert_tab w t k)) (tab_pane_ids t) [t_id t]"
  by unfold_locales (simp_all add: insert_tab_ok del: mset_map)

section \<open>Moving and closing panes\<close>

text \<open>Taking a pane out of the active tab: nothing happens, or exactly that pane leaves.\<close>

lemma take_active_cases:
  fixes i :: pane_id
  assumes w: "ws_ok w"
  defines "res \<equiv> on_active_tab (\<lambda>t. take_pane_for_new_tab t i) w"
  shows "(\<exists>e. res = (Err e, w)) \<or>
    (\<exists>p w1. res = (Ok p, w1) \<and> p_id p = i \<and> ws_ok w1 \<and> w_id w1 = w_id w \<and> ws_tab_ids w1 = ws_tab_ids w \<and>
      mset (ws_pane_ids w) = add_mset i (mset (ws_pane_ids w1)) \<and> (ws_splits_ok w \<longrightarrow> ws_splits_ok w1))"
proof -
  let ?f = "\<lambda>t. take_pane_for_new_tab t i"
  from take_pane_for_new_tab.on_active_tab_unfold [OF w] obtain k where k: "k < length (w_tabs w)"
    "tab_ok (w_tabs w ! k)"
    and u: "on_active_tab ?f w = (fst (?f (w_tabs w ! k)), w\<lparr>w_tabs := (w_tabs w)[k := snd (?f (w_tabs w ! k))]\<rparr>)"
    by blast
  from take_pane_cases [OF k(2), of i] show ?thesis
  proof (elim disjE exE conjE)
    fix e assume "?f (w_tabs w ! k) = (Err e, w_tabs w ! k)"
    then show ?thesis by (simp add: res_def u)
  next
    fix j t' assume j: "pane_position (w_tabs w ! k) i = Some j" and t': "?f (w_tabs w ! k) = (Ok (t_panes (w_tabs w ! k) ! j), t')"
      and ok: "tab_ok t'" "t_id t' = t_id (w_tabs w ! k)" "splits_ok (t_panes t')"
      and ids: "tab_pane_ids t' = remove_nth j (tab_pane_ids (w_tabs w ! k))"
    note pos = pane_position_SomeD [OF j]
    let ?w1 = "w\<lparr>w_tabs := (w_tabs w)[k := t']\<rparr>"
    have "mset (tab_pane_ids (w_tabs w ! k)) = add_mset i (mset (tab_pane_ids t'))"
      using mset_remove_nth [of j "tab_pane_ids (w_tabs w ! k)"] pos by (simp add: ids del: mset_map)
    then have "mset (ws_pane_ids w) = add_mset i (mset (ws_pane_ids ?w1))"
      using mset_concat_update [of k "map tab_pane_ids (w_tabs w)" "tab_pane_ids t'"] k(1)
      by (simp add: ws_pane_ids_def map_update del: mset_concat mset_map)
    with pos show ?thesis
      using ws_ok_update [OF w k(1) ok(2,1)] ws_tab_ids_update [OF k(1) ok(2)] ws_splits_update [OF _ k(1) ok(3)]
      by (simp add: res_def u t')
  qed
qed

lemma single_pane_tab:
  obtains t where "tab_new n [with_split p None] = (Ok t :: tab app_result)" and "tab_ok t" and "t_id t = n"
    and "tab_pane_ids t = [p_id p]" and "splits_ok (t_panes t)"
  by (rule that, rule tab_new_Cons) (simp_all add: tab_ok_def splits_ok_def refs_ok_def split_source_def)

lemma move_pane_to_new_tab_cases:
  assumes w: "ws_ok w"
  shows "(\<exists>e. move_pane_to_new_tab w i n = (Err e, w)) \<or>
    (\<exists>w1 t. move_pane_to_new_tab w i n = (Ok (), add_tab w1 t) \<and> ws_ok w1 \<and> w_id w1 = w_id w \<and>
      ws_tab_ids w1 = ws_tab_ids w \<and> mset (ws_pane_ids w) = add_mset i (mset (ws_pane_ids w1)) \<and>
      (ws_splits_ok w \<longrightarrow> ws_splits_ok w1) \<and> tab_ok t \<and> t_id t = n \<and> tab_pane_ids t = [i] \<and> splits_ok (t_panes t))"
  using take_active_cases [OF w, of i]
proof (elim disjE exE conjE)
  fix p w1 assume p: "on_active_tab (\<lambda>t. take_pane_for_new_tab t i) w = (Ok p, w1)" "p_id p = i"
    and w1: "ws_ok w1" "w_id w1 = w_id w" "ws_tab_ids w1 = ws_tab_ids w"
      "mset (ws_pane_ids w) = add_mset i (mset (ws_pane_ids w1))" "ws_splits_ok w \<longrightarrow> ws_splits_ok w1"
  obtain t where t: "tab_new n [with_split p None] = (Ok t :: tab app_result)" "tab_ok t" "t_id t = n"
    "tab_pane_ids t = [p_id p]" "splits_ok (t_panes t)" by (rule single_pane_tab)
  then have "move_pane_to_new_tab w i n = (Ok (), add_tab w1 t)" by (simp add: move_pane_to_new_tab_def p)
  with p(2) t w1 show ?thesis by (intro disjI2 exI conjI) auto
qed (simp add: move_pane_to_new_tab_def)

interpretation move_pane_to_new_tab: layout_workspace_operation "\<lambda>w. move_pane_to_new_tab w i n" "[]" "[n]" for i n
proof
  fix w :: workspace assume w: "ws_ok w"
  note c = move_pane_to_new_tab_cases [OF w, of i n]
  show "ws_ok (snd (move_pane_to_new_tab w i n))" using c w by (auto simp: add_tab_ok)
  show "returns (fst (move_pane_to_new_tab w i n))" "w_id (snd (move_pane_to_new_tab w i n)) = w_id w" using c by auto
  show "mset (ws_pane_ids (snd (move_pane_to_new_tab w i n))) \<subseteq># mset (ws_pane_ids w) + mset []"
    "mset (ws_tab_ids (snd (move_pane_to_new_tab w i n))) \<subseteq># mset (ws_tab_ids w) + mset [n]"
    using c by (auto simp del: mset_map)
  show "ws_splits_ok w \<Longrightarrow> ws_splits_ok (snd (move_pane_to_new_tab w i n))" using c by auto
qed

lemma move_pane_to_new_window_cases:
  assumes w: "ws_ok w"
  shows "(\<exists>e. move_pane_to_new_window w i m n = (Err e, w)) \<or>
    (\<exists>w1 pw. move_pane_to_new_window w i m n = (Ok pw, w1) \<and> ws_ok w1 \<and> w_id w1 = w_id w \<and>
      ws_tab_ids w1 = ws_tab_ids w \<and> mset (ws_pane_ids w) = add_mset i (mset (ws_pane_ids w1)) \<and>
      (ws_splits_ok w \<longrightarrow> ws_splits_ok w1) \<and> tab_ok (pw_tab pw) \<and> t_id (pw_tab pw) = n \<and>
      tab_pane_ids (pw_tab pw) = [i] \<and> splits_ok (t_panes (pw_tab pw)))"
  using take_active_cases [OF w, of i]
proof (elim disjE exE conjE)
  fix p w1 assume p: "on_active_tab (\<lambda>t. take_pane_for_new_tab t i) w = (Ok p, w1)" "p_id p = i"
    and w1: "ws_ok w1" "w_id w1 = w_id w" "ws_tab_ids w1 = ws_tab_ids w"
      "mset (ws_pane_ids w) = add_mset i (mset (ws_pane_ids w1))" "ws_splits_ok w \<longrightarrow> ws_splits_ok w1"
  obtain t where t: "tab_new n [with_split p None] = (Ok t :: tab app_result)" "tab_ok t" "t_id t = n"
    "tab_pane_ids t = [p_id p]" "splits_ok (t_panes t)" by (rule single_pane_tab)
  then have "move_pane_to_new_window w i m n = (Ok \<lparr>pw_id = m, pw_workspace_id = w_id w1, pw_workspace_name = w_name w1, pw_tab = t\<rparr>, w1)" by (simp add: move_pane_to_new_window_def p)
  with p(2) t w1 show ?thesis by (intro disjI2 exI conjI) auto
qed (simp add: move_pane_to_new_window_def)

interpretation move_pane_to_new_window:
  layout_workspace_operation "\<lambda>w. move_pane_to_new_window w i m n" "[]" "[]" for i m n
proof
  fix w :: workspace assume w: "ws_ok w"
  note c = move_pane_to_new_window_cases [OF w, of i m n]
  show "ws_ok (snd (move_pane_to_new_window w i m n))" "returns (fst (move_pane_to_new_window w i m n))"
    "w_id (snd (move_pane_to_new_window w i m n)) = w_id w"
    "mset (ws_pane_ids (snd (move_pane_to_new_window w i m n))) \<subseteq># mset (ws_pane_ids w) + mset []"
    "mset (ws_tab_ids (snd (move_pane_to_new_window w i m n))) \<subseteq># mset (ws_tab_ids w) + mset []"
    "ws_splits_ok w \<Longrightarrow> ws_splits_ok (snd (move_pane_to_new_window w i m n))"
    using c w by (auto simp del: mset_map)
qed

lemma workspace_close_pane_cases:
  assumes w: "ws_ok w"
  shows "(\<exists>e. workspace_close_pane w i = (Err e, w)) \<or>
    (\<exists>k. workspace_close_pane w i = close_tab w (t_id (w_tabs w ! k)) LeftNeighbour) \<or>
    (\<exists>k t. k < length (w_tabs w) \<and> workspace_close_pane w i = (Ok (), w\<lparr>w_tabs := (w_tabs w)[k := t]\<rparr>) \<and>
      tab_ok t \<and> t_id t = t_id (w_tabs w ! k) \<and> mset (tab_pane_ids t) \<subseteq># mset (tab_pane_ids (w_tabs w ! k)))"
proof (cases "position (\<lambda>t. pane_position t i \<noteq> None) (w_tabs w)")
  case (Some k)
  note pos = position_SomeD [OF Some]
  then have t: "tab_ok (w_tabs w ! k)" using ws_okD(4) [OF w] by simp
  show ?thesis
  proof (cases "length (t_panes (w_tabs w ! k)) \<le> 1")
    case False
    with pos obtain t' j where "close_pane (w_tabs w ! k) i = (Ok (), t')" "tab_ok t'"
      "t_id t' = t_id (w_tabs w ! k)" "tab_pane_ids t' = remove_nth j (tab_pane_ids (w_tabs w ! k))"
      using close_pane_Ok [OF t, of i] by (metis not_None_eq not_le)
    with Some False pos mset_remove_nth_subset [of j "tab_pane_ids (w_tabs w ! k)"] show ?thesis
      by (intro disjI2 exI [of _ k] exI [of _ t']) (simp add: workspace_close_pane_def del: mset_map)
  next
    case True
    then show ?thesis using Some by (auto simp: workspace_close_pane_def)
  qed
qed (simp add: workspace_close_pane_def)

interpretation workspace_close_pane: workspace_operation "\<lambda>w. workspace_close_pane w i" "[]" "[]" for i
proof
  fix w :: workspace assume w: "ws_ok w"
  note c = workspace_close_pane_cases [OF w, of i]
  show "ws_ok (snd (workspace_close_pane w i))"
    using c w by (auto simp: close_tab.wop_ok intro: ws_ok_update)
  show "returns (fst (workspace_close_pane w i))" using c w by (auto simp: close_tab.wop_returns)
  show "w_id (snd (workspace_close_pane w i)) = w_id w" using c w by (auto simp: close_tab.wop_id)
  show "mset (ws_pane_ids (snd (workspace_close_pane w i))) \<subseteq># mset (ws_pane_ids w) + mset []"
    using c w close_tab.wop_panes [OF w] ws_pane_ids_update [where w = w and M = "{#}"] by (auto simp del: mset_map)
  show "mset (ws_tab_ids (snd (workspace_close_pane w i))) \<subseteq># mset (ws_tab_ids w) + mset []"
    using c w close_tab.wop_tabs [OF w] by (auto simp: map_update_same simp del: mset_map)
qed

end
