(* ===== verification/App_Shell.thy ===== *)
theory App_Shell
  imports Workspace_Laws "HOL-Library.Word"
begin

text \<open>
  The application shell (\<open>rssh-domain/src/app_shell.rs\<close>, \<open>AppShell\<close>): the workspaces of a
  window, the windows waiting to be opened, the identity counters, and \<open>apply_action\<close>, the
  single entry through which every user action changes this state. An operation returns its
  result together with the shell it leaves, because identities drawn by an operation that
  then fails stay drawn.
\<close>

section \<open>Data\<close>

record app_shell =
  s_workspaces :: "workspace list"
  s_active_workspace_id :: workspace_id
  s_pending_windows :: "pending_window list"
  s_next_window_id :: u64
  s_next_workspace_id :: u64
  s_next_tab_id :: u64
  s_next_pane_id :: u64
  s_default_launch :: pane_launch

text \<open>
  What the shell reads from outside: the clock (a reading for each place in a tree of
  actions), the process id, and the order \<open>sort_unstable_by_key\<close> gives to workspaces.
\<close>

record shell_env =
  env_now :: "nat list \<Rightarrow> 128 word"
  env_process_id :: "32 word"
  env_sort_by_name :: "workspace list \<Rightarrow> workspace list"

datatype (plugins only: code size) app_action =
    Nop
  | Multiple "app_action list"
  | NewTab "pane_launch option"
  | SpawnWindow "pane_launch option"
  | CloseTab tab_id bool
  | CloseTabWithSelection tab_id close_tab_selection
  | ActivateTab tab_id
  | ActivateTabIndex isize
  | ActivateTabRelative isize
  | ActivateTabRelativeNoWrap isize
  | ActivateLastTab
  | SetTabTitle tab_id str
  | MoveTab usize
  | MoveTabRelative isize
  | MoveTabToNewWindow tab_id
  | RotatePanes pane_rotation_direction
  | SplitPane pane_id split_direction "pane_launch option"
  | SplitPaneWithSize pane_id split_direction "pane_launch option" i16
  | SplitTopLevelPane split_direction "pane_launch option"
  | SplitTopLevelPaneWithSize split_direction "pane_launch option" i16
  | ClosePane pane_id
  | ActivatePane pane_id
  | ActivatePaneByIndex usize
  | ActivatePaneDirection pane_direction
  | SwapPanes pane_id pane_id bool
  | MovePaneToNewTab pane_id
  | MovePaneToNewWindow pane_id
  | ResizePane pane_id resize_direction u16
  | SetPaneZoomState pane_id bool
  | TogglePaneZoom pane_id
  | SetPaneCurrentWorkingDir pane_id "str option"
  | SetPaneUserVar pane_id str str
  | SetPaneBadgeFormat pane_id "str option"
  | SetPaneHasUnseenOutput pane_id bool
  | SetPaneProgress pane_id pane_progress
  | FocusNextPane
  | FocusPreviousPane
  | SwitchWorkspace workspace_id
  | SwitchWorkspaceRelative isize
  | SwitchToWorkspace "str option" "pane_launch option"
  | CloseWorkspace workspace_id
  | RenameWorkspace workspace_id str
  | NewWorkspace str "pane_launch option"

section \<open>Construction\<close>

definition app_shell_new_with_workspace_name :: "pane_launch \<Rightarrow> str \<Rightarrow> (app_shell, 'e) outcome" where
  "app_shell_new_with_workspace_name default_launch workspace_name =
     map_ok (\<lambda>t. \<lparr>s_workspaces = [workspace_new 1 workspace_name [t] 1], s_active_workspace_id = 1,
                  s_pending_windows = [], s_next_window_id = 2, s_next_workspace_id = 2,
                  s_next_tab_id = 2, s_next_pane_id = 2, s_default_launch = default_launch\<rparr>)
       (tab_new 1 [pane_new 1 default_launch])"

definition app_shell_new :: "pane_launch \<Rightarrow> (app_shell, 'e) outcome" where
  "app_shell_new default_launch = app_shell_new_with_workspace_name default_launch (str_of ''default'')"

definition from_pending_window :: "pending_window \<Rightarrow> app_shell" where
  "from_pending_window pw =
     (let t = pw_tab pw;
          default_launch = (case t_panes t of [] \<Rightarrow> pane_launch_local [] | p # _ \<Rightarrow> p_launch p);
          next_pane = sat_add_u64 (if t_panes t = [] then 0 else Max (set (map p_id (t_panes t)))) 1
      in \<lparr>s_workspaces = [workspace_new (pw_workspace_id pw) (pw_workspace_name pw) [t] (t_id t)],
          s_active_workspace_id = pw_workspace_id pw, s_pending_windows = [],
          s_next_window_id = sat_add_u64 (pw_id pw) 1,
          s_next_workspace_id = sat_add_u64 (pw_workspace_id pw) 1,
          s_next_tab_id = sat_add_u64 (t_id t) 1, s_next_pane_id = next_pane,
          s_default_launch = default_launch\<rparr>)"

definition take_next_pending_window :: "app_shell \<Rightarrow> pending_window option \<times> app_shell" where
  "take_next_pending_window s =
     (case s_pending_windows s of
        [] \<Rightarrow> (None, s)
      | pw # rest \<Rightarrow> (Some pw, s\<lparr>s_pending_windows := rest\<rparr>))"

section \<open>Lookup and identity counters\<close>

definition workspace_position :: "app_shell \<Rightarrow> workspace_id \<Rightarrow> nat option" where
  "workspace_position s i = position (\<lambda>w. w_id w = i) (s_workspaces s)"

definition active_workspace :: "app_shell \<Rightarrow> (workspace, 'e) outcome" where
  "active_workspace s =
     (case Option.bind (workspace_position s (s_active_workspace_id s)) (nth_opt (s_workspaces s)) of
        None \<Rightarrow> Panic
      | Some w \<Rightarrow> Ok w)"

definition active_pane_id :: "app_shell \<Rightarrow> (pane_id, 'e) outcome" where
  "active_pane_id s = bind_outcome (active_workspace s) (\<lambda>w. map_ok t_active_pane_id (active_tab w))"

definition active_pane :: "app_shell \<Rightarrow> (pane, 'e) outcome" where
  "active_pane s = bind_outcome (active_workspace s) (\<lambda>w. bind_outcome (active_tab w) tab_active_pane)"

definition pane_ids :: "app_shell \<Rightarrow> pane_id list" where
  "pane_ids s = concat (map ws_pane_ids (s_workspaces s)) @
                concat (map (\<lambda>pw. tab_pane_ids (pw_tab pw)) (s_pending_windows s))"

definition next_workspace_id :: "app_shell \<Rightarrow> workspace_id \<times> app_shell" where
  "next_workspace_id s =
     (s_next_workspace_id s, s\<lparr>s_next_workspace_id := sat_add_u64 (s_next_workspace_id s) 1\<rparr>)"

definition next_tab_id :: "app_shell \<Rightarrow> tab_id \<times> app_shell" where
  "next_tab_id s = (s_next_tab_id s, s\<lparr>s_next_tab_id := sat_add_u64 (s_next_tab_id s) 1\<rparr>)"

definition next_pane_id :: "app_shell \<Rightarrow> pane_id \<times> app_shell" where
  "next_pane_id s = (s_next_pane_id s, s\<lparr>s_next_pane_id := sat_add_u64 (s_next_pane_id s) 1\<rparr>)"

definition next_window_id :: "app_shell \<Rightarrow> window_id \<times> app_shell" where
  "next_window_id s = (s_next_window_id s, s\<lparr>s_next_window_id := sat_add_u64 (s_next_window_id s) 1\<rparr>)"

text \<open>
  \<open>active_workspace_mut().expect(\<dots>)\<close> followed by an operation on that workspace, and the
  scan over all workspaces and tabs for the first tab that holds a pane.
\<close>

definition on_active_workspace ::
    "(workspace \<Rightarrow> 'r app_result \<times> workspace) \<Rightarrow> app_shell \<Rightarrow> 'r app_result \<times> app_shell" where
  "on_active_workspace op s =
     (case workspace_position s (s_active_workspace_id s) of
        None \<Rightarrow> (Panic, s)
      | Some index \<Rightarrow>
          (case op (s_workspaces s ! index) of
             (r, w) \<Rightarrow> (r, s\<lparr>s_workspaces := (s_workspaces s)[index := w]\<rparr>)))"

definition tab_with_pane :: "pane_id \<Rightarrow> workspace \<Rightarrow> nat option" where
  "tab_with_pane i w = position (\<lambda>t. pane_position t i \<noteq> None) (w_tabs w)"

definition on_owner_tab ::
    "pane_id \<Rightarrow> (tab \<Rightarrow> 'r app_result \<times> tab) \<Rightarrow> app_shell \<Rightarrow> 'r app_result \<times> app_shell" where
  "on_owner_tab i op s =
     (case position (\<lambda>w. tab_with_pane i w \<noteq> None) (s_workspaces s) of
        None \<Rightarrow> (Err (InvalidPane i), s)
      | Some k \<Rightarrow>
          (case tab_with_pane i (s_workspaces s ! k) of
             None \<Rightarrow> (Err (InvalidPane i), s)
           | Some j \<Rightarrow>
               (case op (w_tabs (s_workspaces s ! k) ! j) of
                  (r, t) \<Rightarrow> (r, s\<lparr>s_workspaces := (s_workspaces s)[k :=
                    (s_workspaces s ! k)\<lparr>w_tabs := (w_tabs (s_workspaces s ! k))[j := t]\<rparr>]\<rparr>))))"

text \<open>\<open>launch.unwrap_or_else(|| \<dots>.launch.for_child_pane())\<close>.\<close>

definition resolve_launch :: "pane_launch option \<Rightarrow> (pane, 'e) outcome \<Rightarrow> (pane_launch, 'e) outcome" where
  "resolve_launch launch active =
     (case launch of Some l \<Rightarrow> Ok l | None \<Rightarrow> map_ok (\<lambda>p. for_child_pane (p_launch p)) active)"

section \<open>Tabs and windows\<close>

definition apply_new_tab :: "pane_launch option \<Rightarrow> app_shell \<Rightarrow> unit app_result \<times> app_shell" where
  "apply_new_tab launch s =
     bind_st (resolve_launch launch (active_pane s), s) (\<lambda>launch s.
       let (tab_id, s) = next_tab_id s;
           (pane_id, s) = next_pane_id s
       in bind_st (tab_new tab_id [pane_new pane_id launch], s) (\<lambda>t s.
            on_active_workspace (\<lambda>w. (Ok (), add_tab w t)) s))"

definition apply_spawn_window :: "pane_launch option \<Rightarrow> app_shell \<Rightarrow> unit app_result \<times> app_shell" where
  "apply_spawn_window launch s =
     bind_st (resolve_launch launch (active_pane s), s) (\<lambda>launch s.
       let (window_id, s) = next_window_id s;
           (tab_id, s) = next_tab_id s;
           (pane_id, s) = next_pane_id s
       in bind_st (active_workspace s, s) (\<lambda>w s.
          bind_st (tab_new tab_id [pane_new pane_id launch], s) (\<lambda>t s.
            (Ok (), s\<lparr>s_pending_windows := s_pending_windows s @
               [\<lparr>pw_id = window_id, pw_workspace_id = w_id w, pw_workspace_name = w_name w, pw_tab = t\<rparr>]\<rparr>))))"

definition apply_close_tab :: "tab_id \<Rightarrow> bool \<Rightarrow> app_shell \<Rightarrow> unit app_result \<times> app_shell" where
  "apply_close_tab tab switch_to_last_active =
     on_active_workspace (\<lambda>w. close_tab w tab (if switch_to_last_active then LastActive else LeftNeighbour))"

definition apply_close_tab_with_selection ::
    "tab_id \<Rightarrow> close_tab_selection \<Rightarrow> app_shell \<Rightarrow> unit app_result \<times> app_shell" where
  "apply_close_tab_with_selection tab selection = on_active_workspace (\<lambda>w. close_tab w tab selection)"

definition apply_activate_tab :: "tab_id \<Rightarrow> app_shell \<Rightarrow> unit app_result \<times> app_shell" where
  "apply_activate_tab tab = on_active_workspace (\<lambda>w. activate_tab w tab)"

definition apply_activate_tab_index :: "isize \<Rightarrow> app_shell \<Rightarrow> unit app_result \<times> app_shell" where
  "apply_activate_tab_index index = on_active_workspace (\<lambda>w. activate_tab_index w index)"

definition apply_activate_tab_relative :: "isize \<Rightarrow> app_shell \<Rightarrow> unit app_result \<times> app_shell" where
  "apply_activate_tab_relative offset = on_active_workspace (\<lambda>w. activate_tab_relative w offset)"

definition apply_activate_tab_relative_no_wrap :: "isize \<Rightarrow> app_shell \<Rightarrow> unit app_result \<times> app_shell" where
  "apply_activate_tab_relative_no_wrap offset = on_active_workspace (\<lambda>w. activate_tab_relative_no_wrap w offset)"

definition apply_activate_last_tab :: "app_shell \<Rightarrow> unit app_result \<times> app_shell" where
  "apply_activate_last_tab = on_active_workspace (\<lambda>w. (Ok (), activate_last_tab w))"

definition apply_set_tab_title :: "tab_id \<Rightarrow> str \<Rightarrow> app_shell \<Rightarrow> unit app_result \<times> app_shell" where
  "apply_set_tab_title tab title = on_active_workspace (\<lambda>w. set_tab_title w tab title)"

definition apply_move_tab :: "usize \<Rightarrow> app_shell \<Rightarrow> unit app_result \<times> app_shell" where
  "apply_move_tab index = on_active_workspace (\<lambda>w. move_tab w index)"

definition apply_move_tab_relative :: "isize \<Rightarrow> app_shell \<Rightarrow> unit app_result \<times> app_shell" where
  "apply_move_tab_relative offset = on_active_workspace (\<lambda>w. move_tab_relative w offset)"

text \<open>
  The source of \<open>move_tab_to_new_window\<close>: the final tab of a workspace is copied, any other
  one is detached.
\<close>

definition release_tab :: "tab_id \<Rightarrow> workspace \<Rightarrow> tab app_result \<times> workspace" where
  "release_tab tab w =
     (if length (w_tabs w) = 1
      then (case workspace_tab w tab of None \<Rightarrow> (Err (InvalidTab tab), w) | Some t \<Rightarrow> (Ok t, w))
      else (case detach_tab w tab of (r, w1) \<Rightarrow> (map_ok dt_tab r, w1)))"

definition apply_move_tab_to_new_window :: "tab_id \<Rightarrow> app_shell \<Rightarrow> unit app_result \<times> app_shell" where
  "apply_move_tab_to_new_window tab s =
     (let (window_id, s) = next_window_id s
      in bind_st (active_workspace s, s) (\<lambda>w s.
         bind_st (on_active_workspace (release_tab tab) s) (\<lambda>t s.
           (Ok (), s\<lparr>s_pending_windows := s_pending_windows s @
              [\<lparr>pw_id = window_id, pw_workspace_id = w_id w, pw_workspace_name = w_name w, pw_tab = t\<rparr>]\<rparr>))))"

section \<open>Panes\<close>

abbreviation on_active_pane_tab ::
    "(tab \<Rightarrow> 'r app_result \<times> tab) \<Rightarrow> app_shell \<Rightarrow> 'r app_result \<times> app_shell" where
  "on_active_pane_tab op \<equiv> on_active_workspace (on_active_tab op)"

definition apply_rotate_panes :: "pane_rotation_direction \<Rightarrow> app_shell \<Rightarrow> unit app_result \<times> app_shell" where
  "apply_rotate_panes direction = on_active_pane_tab (\<lambda>t. (Ok (), rotate_panes t direction))"

definition split_resolved ::
    "pane_id \<Rightarrow> pane_id \<Rightarrow> split_direction \<Rightarrow> pane_launch option \<Rightarrow> i16 \<Rightarrow> tab \<Rightarrow> unit app_result \<times> tab" where
  "split_resolved pane new_pane_id direction launch delta t =
     bind_st (resolve_launch launch (tab_active_pane t), t)
       (\<lambda>launch t. split_pane t pane new_pane_id direction launch delta)"

definition split_top_level_resolved ::
    "pane_id \<Rightarrow> split_direction \<Rightarrow> pane_launch option \<Rightarrow> i16 \<Rightarrow> tab \<Rightarrow> unit app_result \<times> tab" where
  "split_top_level_resolved new_pane_id direction launch delta t =
     bind_st (resolve_launch launch (tab_active_pane t), t)
       (\<lambda>launch t. split_top_level_pane t new_pane_id direction launch delta)"

definition apply_split_pane_with_size ::
    "pane_id \<Rightarrow> split_direction \<Rightarrow> pane_launch option \<Rightarrow> i16 \<Rightarrow> app_shell \<Rightarrow> unit app_result \<times> app_shell" where
  "apply_split_pane_with_size pane direction launch delta s =
     (let (new_pane_id, s) = next_pane_id s
      in on_active_pane_tab (split_resolved pane new_pane_id direction launch delta) s)"

definition apply_split_pane ::
    "pane_id \<Rightarrow> split_direction \<Rightarrow> pane_launch option \<Rightarrow> app_shell \<Rightarrow> unit app_result \<times> app_shell" where
  "apply_split_pane pane direction launch = apply_split_pane_with_size pane direction launch 0"

definition apply_split_top_level_pane_with_size ::
    "split_direction \<Rightarrow> pane_launch option \<Rightarrow> i16 \<Rightarrow> app_shell \<Rightarrow> unit app_result \<times> app_shell" where
  "apply_split_top_level_pane_with_size direction launch delta s =
     (let (new_pane_id, s) = next_pane_id s
      in on_active_pane_tab (split_top_level_resolved new_pane_id direction launch delta) s)"

definition apply_close_pane :: "pane_id \<Rightarrow> app_shell \<Rightarrow> unit app_result \<times> app_shell" where
  "apply_close_pane pane = on_active_workspace (\<lambda>w. workspace_close_pane w pane)"

definition apply_activate_pane :: "pane_id \<Rightarrow> app_shell \<Rightarrow> unit app_result \<times> app_shell" where
  "apply_activate_pane pane = on_active_pane_tab (\<lambda>t. focus_pane t pane)"

definition apply_activate_pane_by_index :: "usize \<Rightarrow> app_shell \<Rightarrow> unit app_result \<times> app_shell" where
  "apply_activate_pane_by_index index = on_active_pane_tab (\<lambda>t. (Ok (), focus_pane_by_index t index))"

definition apply_activate_pane_direction :: "pane_direction \<Rightarrow> app_shell \<Rightarrow> unit app_result \<times> app_shell" where
  "apply_activate_pane_direction direction = on_active_pane_tab (\<lambda>t. (Ok (), activate_pane_direction t direction))"

definition apply_swap_panes :: "pane_id \<Rightarrow> pane_id \<Rightarrow> bool \<Rightarrow> app_shell \<Rightarrow> unit app_result \<times> app_shell" where
  "apply_swap_panes active selected keep_focus = on_active_pane_tab (\<lambda>t. swap_panes t active selected keep_focus)"

definition apply_move_pane_to_new_tab :: "pane_id \<Rightarrow> app_shell \<Rightarrow> unit app_result \<times> app_shell" where
  "apply_move_pane_to_new_tab pane s =
     (let (tab_id, s) = next_tab_id s
      in on_active_workspace (\<lambda>w. move_pane_to_new_tab w pane tab_id) s)"

definition apply_move_pane_to_new_window :: "pane_id \<Rightarrow> app_shell \<Rightarrow> unit app_result \<times> app_shell" where
  "apply_move_pane_to_new_window pane s =
     (let (window_id, s) = next_window_id s;
          (tab_id, s) = next_tab_id s
      in bind_st (on_active_workspace (\<lambda>w. move_pane_to_new_window w pane window_id tab_id) s) (\<lambda>pw s.
           (Ok (), s\<lparr>s_pending_windows := s_pending_windows s @ [pw]\<rparr>)))"

definition apply_resize_pane ::
    "pane_id \<Rightarrow> resize_direction \<Rightarrow> u16 \<Rightarrow> app_shell \<Rightarrow> unit app_result \<times> app_shell" where
  "apply_resize_pane pane direction amount = on_active_pane_tab (\<lambda>t. resize_pane t pane direction amount)"

definition apply_toggle_pane_zoom :: "pane_id \<Rightarrow> app_shell \<Rightarrow> unit app_result \<times> app_shell" where
  "apply_toggle_pane_zoom pane = on_active_pane_tab (\<lambda>t. toggle_pane_zoom t pane)"

definition apply_set_pane_zoom_state :: "pane_id \<Rightarrow> bool \<Rightarrow> app_shell \<Rightarrow> unit app_result \<times> app_shell" where
  "apply_set_pane_zoom_state pane zoomed = on_active_pane_tab (\<lambda>t. set_pane_zoom_state t pane zoomed)"

definition apply_set_pane_current_working_dir ::
    "pane_id \<Rightarrow> str option \<Rightarrow> app_shell \<Rightarrow> unit app_result \<times> app_shell" where
  "apply_set_pane_current_working_dir pane cwd = on_owner_tab pane (\<lambda>t. set_pane_current_working_dir t pane cwd)"

definition apply_set_pane_user_var :: "pane_id \<Rightarrow> str \<Rightarrow> str \<Rightarrow> app_shell \<Rightarrow> unit app_result \<times> app_shell" where
  "apply_set_pane_user_var pane name value = on_owner_tab pane (\<lambda>t. set_pane_user_var t pane name value)"

definition apply_set_pane_badge_format ::
    "pane_id \<Rightarrow> str option \<Rightarrow> app_shell \<Rightarrow> unit app_result \<times> app_shell" where
  "apply_set_pane_badge_format pane badge_format = on_owner_tab pane (\<lambda>t. set_pane_badge_format t pane badge_format)"

definition apply_set_pane_progress :: "pane_id \<Rightarrow> pane_progress \<Rightarrow> app_shell \<Rightarrow> unit app_result \<times> app_shell" where
  "apply_set_pane_progress pane progress = on_owner_tab pane (\<lambda>t. set_pane_progress t pane progress)"

definition apply_set_pane_has_unseen_output :: "pane_id \<Rightarrow> bool \<Rightarrow> app_shell \<Rightarrow> unit app_result \<times> app_shell" where
  "apply_set_pane_has_unseen_output pane b = on_owner_tab pane (\<lambda>t. set_pane_has_unseen_output t pane b)"

definition reset_pane_runtime_projection :: "pane_id \<Rightarrow> app_shell \<Rightarrow> unit app_result \<times> app_shell" where
  "reset_pane_runtime_projection pane = on_owner_tab pane (\<lambda>t. update_pane t pane reset_runtime_projection)"

definition apply_focus_next_pane :: "app_shell \<Rightarrow> unit app_result \<times> app_shell" where
  "apply_focus_next_pane = on_active_pane_tab (\<lambda>t. (Ok (), focus_next_pane t))"

definition apply_focus_previous_pane :: "app_shell \<Rightarrow> unit app_result \<times> app_shell" where
  "apply_focus_previous_pane = on_active_pane_tab (\<lambda>t. (Ok (), focus_previous_pane t))"

section \<open>Switching and creating workspaces\<close>

definition apply_switch_workspace :: "workspace_id \<Rightarrow> app_shell \<Rightarrow> unit app_result \<times> app_shell" where
  "apply_switch_workspace workspace s =
     (if workspace_position s workspace \<noteq> None
      then (Ok (), s\<lparr>s_active_workspace_id := workspace\<rparr>)
      else (Err (InvalidWorkspace workspace), s))"

definition ordered_workspace_ids :: "shell_env \<Rightarrow> app_shell \<Rightarrow> workspace_id list" where
  "ordered_workspace_ids env s = map w_id (env_sort_by_name env (s_workspaces s))"

definition apply_switch_workspace_relative ::
    "shell_env \<Rightarrow> isize \<Rightarrow> app_shell \<Rightarrow> unit app_result \<times> app_shell" where
  "apply_switch_workspace_relative env offset s =
     (if offset = 0 \<or> length (s_workspaces s) \<le> 1 then (Ok (), s)
      else let workspace_order = ordered_workspace_ids env s
           in case position (\<lambda>w. w = s_active_workspace_id s) workspace_order of
                None \<Rightarrow> (Err (InvalidWorkspace (s_active_workspace_id s)), s)
              | Some current_pos \<Rightarrow>
                  (let next_pos = nat ((int current_pos + offset) mod int (length workspace_order))
                   in case nth_opt workspace_order next_pos of
                        None \<Rightarrow> (Panic, s)
                      | Some w \<Rightarrow> (Ok (), s\<lparr>s_active_workspace_id := w\<rparr>)))"

text \<open>\<open>format!("random-{seed:032x}")\<close> and the search for an unused name.\<close>

definition hex_digit :: "nat \<Rightarrow> nat" where
  "hex_digit d = (if d < 10 then 48 + d else 87 + d)"

fun hex_fixed :: "nat \<Rightarrow> nat \<Rightarrow> str" where
  "hex_fixed 0 n = []"
| "hex_fixed (Suc k) n = hex_fixed k (n div 16) @ [hex_digit (n mod 16)]"

definition random_name :: "128 word \<Rightarrow> str" where
  "random_name seed = str_of ''random-'' @ hex_fixed 32 (unat seed)"

fun random_name_loop :: "nat \<Rightarrow> 128 word \<Rightarrow> str list \<Rightarrow> (str, 'e) outcome" where
  "random_name_loop 0 seed names = Diverge"
| "random_name_loop (Suc fuel) seed names =
     (if random_name seed \<notin> set names then Ok (random_name seed)
      else random_name_loop fuel (seed + 0x9e3779b97f4a7c15) names)"

definition random_workspace_name :: "shell_env \<Rightarrow> app_shell \<Rightarrow> (str, 'e) outcome" where
  "random_workspace_name env s =
     (let timestamp = env_now env [];
          process = ucast (env_process_id env) :: 128 word;
          seed = xor (xor timestamp (push_bit 64 process)) (word_of_nat (s_next_workspace_id s))
      in random_name_loop (Suc (length (s_workspaces s))) seed (map w_name (s_workspaces s)))"

definition apply_new_workspace :: "str \<Rightarrow> pane_launch option \<Rightarrow> app_shell \<Rightarrow> unit app_result \<times> app_shell" where
  "apply_new_workspace name launch s =
     (let launch = (case launch of Some l \<Rightarrow> l | None \<Rightarrow> s_default_launch s);
          (workspace_id, s) = next_workspace_id s;
          (tab_id, s) = next_tab_id s;
          (pane_id, s) = next_pane_id s
      in bind_st (tab_new tab_id [pane_new pane_id launch], s) (\<lambda>t s.
           (Ok (), s\<lparr>s_workspaces := s_workspaces s @ [workspace_new workspace_id name [t] tab_id],
                     s_active_workspace_id := workspace_id\<rparr>)))"

definition apply_switch_to_workspace ::
    "shell_env \<Rightarrow> str option \<Rightarrow> pane_launch option \<Rightarrow> app_shell \<Rightarrow> unit app_result \<times> app_shell" where
  "apply_switch_to_workspace env name launch s =
     bind_st (case name of Some n \<Rightarrow> Ok n | None \<Rightarrow> random_workspace_name env s, s) (\<lambda>name s.
       case find (\<lambda>w. w_name w = name) (s_workspaces s) of
         Some w \<Rightarrow> (Ok (), s\<lparr>s_active_workspace_id := w_id w\<rparr>)
       | None \<Rightarrow> apply_new_workspace name launch s)"

definition apply_close_workspace :: "workspace_id \<Rightarrow> app_shell \<Rightarrow> unit app_result \<times> app_shell" where
  "apply_close_workspace workspace s =
     (case workspace_position s workspace of
        None \<Rightarrow> (Err (InvalidWorkspace workspace), s)
      | Some index \<Rightarrow>
          (if length (s_workspaces s) \<le> 1 then (Err CannotCloseLastWorkspace, s)
           else let s1 = s\<lparr>s_workspaces := remove_nth index (s_workspaces s)\<rparr>
                in if s_active_workspace_id s1 = workspace
                   then (case nth_opt (s_workspaces s1) (if index = 0 then 0 else index - 1) of
                           None \<Rightarrow> (Panic, s1)
                         | Some w \<Rightarrow> (Ok (), s1\<lparr>s_active_workspace_id := w_id w\<rparr>))
                   else (Ok (), s1)))"

definition apply_rename_workspace :: "workspace_id \<Rightarrow> str \<Rightarrow> app_shell \<Rightarrow> unit app_result \<times> app_shell" where
  "apply_rename_workspace workspace name s =
     (case workspace_position s workspace of
        None \<Rightarrow> (Err (InvalidWorkspace workspace), s)
      | Some index \<Rightarrow>
          (Ok (), s\<lparr>s_workspaces := (s_workspaces s)[index := (s_workspaces s ! index)\<lparr>w_name := name\<rparr>]\<rparr>))"

section \<open>Dispatch\<close>

definition clear_active_pane_unseen_output :: "app_shell \<Rightarrow> unit app_result \<times> app_shell" where
  "clear_active_pane_unseen_output s =
     bind_st (active_pane_id s, s) (\<lambda>pane s.
       case on_owner_tab pane (\<lambda>t. set_pane_has_unseen_output t pane False) s of (_, s') \<Rightarrow> (Ok (), s'))"

fun clears_active_pane_unseen_output :: "app_action \<Rightarrow> bool" where
  "clears_active_pane_unseen_output Nop = False"
| "clears_active_pane_unseen_output (SetPaneHasUnseenOutput _ _) = False"
| "clears_active_pane_unseen_output _ = True"

text \<open>Every action but \<open>Multiple\<close>, which \<open>apply_action\<close> below handles.\<close>

fun apply_simple_action :: "shell_env \<Rightarrow> app_action \<Rightarrow> app_shell \<Rightarrow> unit app_result \<times> app_shell" where
  "apply_simple_action env Nop s = (Ok (), s)"
| "apply_simple_action env (Multiple actions) s = (Panic, s)"
| "apply_simple_action env (NewTab launch) s = apply_new_tab launch s"
| "apply_simple_action env (SpawnWindow launch) s = apply_spawn_window launch s"
| "apply_simple_action env (CloseTab tab b) s = apply_close_tab tab b s"
| "apply_simple_action env (CloseTabWithSelection tab sel) s = apply_close_tab_with_selection tab sel s"
| "apply_simple_action env (ActivateTab tab) s = apply_activate_tab tab s"
| "apply_simple_action env (ActivateTabIndex index) s = apply_activate_tab_index index s"
| "apply_simple_action env (ActivateTabRelative offset) s = apply_activate_tab_relative offset s"
| "apply_simple_action env (ActivateTabRelativeNoWrap offset) s = apply_activate_tab_relative_no_wrap offset s"
| "apply_simple_action env ActivateLastTab s = apply_activate_last_tab s"
| "apply_simple_action env (SetTabTitle tab title) s = apply_set_tab_title tab title s"
| "apply_simple_action env (MoveTab index) s = apply_move_tab index s"
| "apply_simple_action env (MoveTabRelative offset) s = apply_move_tab_relative offset s"
| "apply_simple_action env (MoveTabToNewWindow tab) s = apply_move_tab_to_new_window tab s"
| "apply_simple_action env (RotatePanes direction) s = apply_rotate_panes direction s"
| "apply_simple_action env (SplitPane pane direction launch) s = apply_split_pane pane direction launch s"
| "apply_simple_action env (SplitPaneWithSize pane direction launch delta) s =
     apply_split_pane_with_size pane direction launch delta s"
| "apply_simple_action env (SplitTopLevelPane direction launch) s =
     apply_split_top_level_pane_with_size direction launch 0 s"
| "apply_simple_action env (SplitTopLevelPaneWithSize direction launch delta) s =
     apply_split_top_level_pane_with_size direction launch delta s"
| "apply_simple_action env (ClosePane pane) s = apply_close_pane pane s"
| "apply_simple_action env (ActivatePane pane) s = apply_activate_pane pane s"
| "apply_simple_action env (ActivatePaneByIndex index) s = apply_activate_pane_by_index index s"
| "apply_simple_action env (ActivatePaneDirection direction) s = apply_activate_pane_direction direction s"
| "apply_simple_action env (SwapPanes active selected keep) s = apply_swap_panes active selected keep s"
| "apply_simple_action env (MovePaneToNewTab pane) s = apply_move_pane_to_new_tab pane s"
| "apply_simple_action env (MovePaneToNewWindow pane) s = apply_move_pane_to_new_window pane s"
| "apply_simple_action env (ResizePane pane direction amount) s = apply_resize_pane pane direction amount s"
| "apply_simple_action env (SetPaneZoomState pane zoomed) s = apply_set_pane_zoom_state pane zoomed s"
| "apply_simple_action env (TogglePaneZoom pane) s = apply_toggle_pane_zoom pane s"
| "apply_simple_action env (SetPaneCurrentWorkingDir pane cwd) s = apply_set_pane_current_working_dir pane cwd s"
| "apply_simple_action env (SetPaneUserVar pane name value) s = apply_set_pane_user_var pane name value s"
| "apply_simple_action env (SetPaneBadgeFormat pane b) s = apply_set_pane_badge_format pane b s"
| "apply_simple_action env (SetPaneHasUnseenOutput pane b) s = apply_set_pane_has_unseen_output pane b s"
| "apply_simple_action env (SetPaneProgress pane progress) s = apply_set_pane_progress pane progress s"
| "apply_simple_action env FocusNextPane s = apply_focus_next_pane s"
| "apply_simple_action env FocusPreviousPane s = apply_focus_previous_pane s"
| "apply_simple_action env (SwitchWorkspace w) s = apply_switch_workspace w s"
| "apply_simple_action env (SwitchWorkspaceRelative offset) s = apply_switch_workspace_relative env offset s"
| "apply_simple_action env (SwitchToWorkspace name launch) s = apply_switch_to_workspace env name launch s"
| "apply_simple_action env (CloseWorkspace w) s = apply_close_workspace w s"
| "apply_simple_action env (RenameWorkspace w name) s = apply_rename_workspace w name s"
| "apply_simple_action env (NewWorkspace name launch) s = apply_new_workspace name launch s"

text \<open>The clock readings below the \<open>i\<close>-th action of a \<open>Multiple\<close>.\<close>

definition env_at :: "nat \<Rightarrow> shell_env \<Rightarrow> shell_env" where
  "env_at i env = env\<lparr>env_now := \<lambda>path. env_now env (i # path)\<rparr>"

definition finish_action :: "app_action \<Rightarrow> unit app_result \<times> app_shell \<Rightarrow> unit app_result \<times> app_shell" where
  "finish_action action m =
     (case m of (result, s) \<Rightarrow>
        (if is_ok result \<and> clears_active_pane_unseen_output action
         then bind_st (clear_active_pane_unseen_output s) (\<lambda>_ s. (result, s))
         else (result, s)))"

function apply_action :: "shell_env \<Rightarrow> app_action \<Rightarrow> app_shell \<Rightarrow> unit app_result \<times> app_shell"
  and apply_multiple :: "shell_env \<Rightarrow> nat \<Rightarrow> app_action list \<Rightarrow> app_shell \<Rightarrow> unit app_result \<times> app_shell" where
  "apply_action env action s = finish_action action
     (case action of
        Multiple actions \<Rightarrow> apply_multiple env 0 actions s
      | _ \<Rightarrow> apply_simple_action env action s)"
| "apply_multiple env i [] s = (Ok (), s)"
| "apply_multiple env i (action # actions) s =
     bind_st (apply_action (env_at i env) action s) (\<lambda>_ s. apply_multiple env (Suc i) actions s)"
  by pat_completeness auto

termination
  by (relation "measure (case_sum (\<lambda>(_, a, _). size a) (\<lambda>(_, _, as, _). size_list size as))") auto

end
