(* ===== verification/Shell_Laws.thy ===== *)
theory Shell_Laws
  imports App_Shell
begin

text \<open>
  The invariant of the application shell and the contract every shell operation satisfies:
  it keeps the invariant, returns, creates at most one workspace, and every identity in the
  state it leaves was there before or was drawn from the counters in between (\<open>id_growth\<close>).
  As long as the counters do not saturate, identities therefore stay unique (\<open>ids_fresh\<close>).
\<close>

section \<open>Invariants\<close>

definition shell_ok :: "app_shell \<Rightarrow> bool" where
  "shell_ok s \<longleftrightarrow>
     s_active_workspace_id s \<in> set (map w_id (s_workspaces s)) \<and>
     (\<forall>w \<in> set (s_workspaces s). ws_ok w) \<and>
     (\<forall>pw \<in> set (s_pending_windows s). tab_ok (pw_tab pw)) \<and>
     s_next_pane_id s \<le> u64_max \<and> s_next_tab_id s \<le> u64_max \<and> s_next_workspace_id s \<le> u64_max"

definition owned_pane_ids :: "app_shell \<Rightarrow> pane_id list" where
  "owned_pane_ids s = concat (map ws_pane_ids (s_workspaces s))"

definition pending_pane_ids :: "app_shell \<Rightarrow> pane_id list" where
  "pending_pane_ids s = concat (map (\<lambda>pw. tab_pane_ids (pw_tab pw)) (s_pending_windows s))"

definition owned_tab_ids :: "app_shell \<Rightarrow> tab_id list" where
  "owned_tab_ids s = concat (map ws_tab_ids (s_workspaces s))"

definition pending_tab_ids :: "app_shell \<Rightarrow> tab_id list" where
  "pending_tab_ids s = map (\<lambda>pw. t_id (pw_tab pw)) (s_pending_windows s)"

abbreviation shell_workspace_ids :: "app_shell \<Rightarrow> workspace_id list" where
  "shell_workspace_ids s \<equiv> map w_id (s_workspaces s)"

definition ids_fresh :: "app_shell \<Rightarrow> bool" where
  "ids_fresh s \<longleftrightarrow>
     distinct (owned_pane_ids s) \<and> (\<forall>i \<in> set (pane_ids s). i < s_next_pane_id s) \<and>
     distinct (owned_tab_ids s) \<and> (\<forall>i \<in> set (owned_tab_ids s) \<union> set (pending_tab_ids s). i < s_next_tab_id s) \<and>
     distinct (shell_workspace_ids s) \<and> (\<forall>i \<in> set (shell_workspace_ids s). i < s_next_workspace_id s)"

definition shell_splits_ok :: "app_shell \<Rightarrow> bool" where
  "shell_splits_ok s \<longleftrightarrow> (\<forall>w \<in> set (s_workspaces s). ws_splits_ok w) \<and>
     (\<forall>pw \<in> set (s_pending_windows s). splits_ok (t_panes (pw_tab pw)))"

text \<open>
  Identities in \<open>own'\<close> come from \<open>own\<close> or from the part of the counter drawn in between,
  none twice; identities in \<open>pend'\<close> are old or drawn in between.
\<close>

definition grows :: "nat list \<Rightarrow> nat list \<Rightarrow> nat \<Rightarrow> nat list \<Rightarrow> nat list \<Rightarrow> nat \<Rightarrow> bool" where
  "grows own pend n own' pend' n' \<longleftrightarrow> n \<le> n' \<and>
     (n' < u64_max \<longrightarrow> mset own' \<subseteq># mset own + mset [n..<n'] \<and>
        set pend' \<subseteq> set own \<union> set pend \<union> {n..<n'})"

definition id_growth :: "app_shell \<Rightarrow> app_shell \<Rightarrow> bool" where
  "id_growth s s' \<longleftrightarrow>
     grows (owned_pane_ids s) (pending_pane_ids s) (s_next_pane_id s)
           (owned_pane_ids s') (pending_pane_ids s') (s_next_pane_id s') \<and>
     grows (owned_tab_ids s) (pending_tab_ids s) (s_next_tab_id s)
           (owned_tab_ids s') (pending_tab_ids s') (s_next_tab_id s') \<and>
     grows (shell_workspace_ids s) [] (s_next_workspace_id s) (shell_workspace_ids s') [] (s_next_workspace_id s')"

section \<open>Growth\<close>

lemma grows_refl [simp]: "grows own pend n own pend n"
  by (auto simp: grows_def)

lemma grows_trans:
  assumes g1: "grows own pend n own1 pend1 n1" and g2: "grows own1 pend1 n1 own2 pend2 n2"
  shows "grows own pend n own2 pend2 n2"
proof -
  have le: "n \<le> n1" "n1 \<le> n2" using assms by (auto simp: grows_def)
  have "mset own2 \<subseteq># mset own + mset [n..<n2] \<and> set pend2 \<subseteq> set own \<union> set pend \<union> {n..<n2}" if "n2 < u64_max"
  proof -
    have 1: "mset own1 \<subseteq># mset own + mset [n..<n1]" "set pend1 \<subseteq> set own \<union> set pend \<union> {n..<n1}"
      and 2: "mset own2 \<subseteq># mset own1 + mset [n1..<n2]" "set pend2 \<subseteq> set own1 \<union> set pend1 \<union> {n1..<n2}"
      using assms that le by (auto simp: grows_def)
    have upt: "[n..<n2] = [n..<n1] @ [n1..<n2]"
      using le by (metis le_add_diff_inverse upt_add_eq_append)
    have "mset own1 + mset [n1..<n2] \<subseteq># (mset own + mset [n..<n1]) + mset [n1..<n2]"
      using 1(1) by (rule subset_mset.add_right_mono)
    with 2(1) have "mset own2 \<subseteq># mset own + mset [n..<n2]"
      unfolding upt mset_append add.assoc [symmetric] by (rule subset_mset.order_trans)
    moreover have "set own1 \<subseteq> set own \<union> {n..<n1}" using set_mset_mono [OF 1(1)] by simp
    ultimately show ?thesis using 1(2) 2(2) le by (auto 0 3)
  qed
  with le show ?thesis by (auto simp: grows_def)
qed

lemma grows_step:
  assumes "n \<le> u64_max" and "M = {#n#} \<and> n' = sat_add_u64 n 1 \<or> M = {#} \<and> n' = n"
    and "mset own' \<subseteq># mset own + M" and "set pend' \<subseteq> set own \<union> set pend \<union> set_mset M"
  shows "grows own pend n own' pend' n'"
proof (cases "M = {#}")
  case True
  with assms show ?thesis by (auto simp: grows_def)
next
  case False
  then have n': "n' = sat_add_u64 n 1" and M: "M = {#n#}" using assms(2) by auto
  have "n' = n + 1 \<and> [n..<n'] = [n] \<and> {n..<n'} = {n}" if "n' < u64_max"
    using sat_add_u64_exact [of n 1] that n' by auto
  with assms(3,4) n' M sat_add_u64_ge [OF assms(1)] show ?thesis by (auto simp: grows_def)
qed

lemma grows_shrink: "mset own' \<subseteq># mset own \<Longrightarrow> set pend' \<subseteq> set own \<union> set pend \<Longrightarrow> grows own pend n own' pend' n"
  by (auto simp: grows_def)

lemma distinct_submset:
  assumes "distinct ys" and "mset xs \<subseteq># mset ys"
  shows "distinct xs"
  unfolding distinct_count_atmost_1
proof
  fix a
  have "count (mset xs) a \<le> count (mset ys) a" using assms(2) by (rule mset_subset_eq_count)
  also have "\<dots> \<le> 1" using assms(1) by (simp add: distinct_count_atmost_1)
  finally have "count (mset xs) a \<le> 1" .
  moreover have "a \<in> set xs \<Longrightarrow> count (mset xs) a \<noteq> 0" by (simp add: count_eq_zero_iff)
  ultimately show "count (mset xs) a = (if a \<in> set xs then 1 else 0)"
    by (auto simp: le_Suc_eq)
qed

lemma grows_fresh:
  assumes "grows own pend n own' pend' n'" and "n' < u64_max" and "distinct own"
    and "\<forall>i \<in> set own \<union> set pend. i < n"
  shows "distinct own'" and "\<forall>i \<in> set own' \<union> set pend'. i < n'"
proof -
  from assms have sub: "mset own' \<subseteq># mset (own @ [n..<n'])" "set pend' \<subseteq> set own \<union> set pend \<union> {n..<n'}" "n \<le> n'"
    by (auto simp: grows_def)
  have "i \<notin> set own" if "n \<le> i" for i using assms(4) that by (meson UnI1 leD)
  then have "distinct (own @ [n..<n'])" using assms(3) by auto
  then show "distinct own'" using sub(1) by (rule distinct_submset)
  have "set own' \<subseteq> set own \<union> {n..<n'}" using set_mset_mono [OF sub(1)] by simp
  moreover have "i < n'" if "i \<in> set own \<union> set pend" for i using assms(4) that sub(3) by (meson less_le_trans)
  ultimately show "\<forall>i \<in> set own' \<union> set pend'. i < n'" using sub(2) by (auto 4 3)
qed

lemma id_growth_refl [simp]: "id_growth s s"
  by (simp add: id_growth_def)

lemma id_growth_trans: "id_growth s s1 \<Longrightarrow> id_growth s1 s2 \<Longrightarrow> id_growth s s2"
  unfolding id_growth_def by (blast intro: grows_trans)

lemma pane_ids_split: "pane_ids s = owned_pane_ids s @ pending_pane_ids s"
  by (simp add: pane_ids_def owned_pane_ids_def pending_pane_ids_def)

text \<open>Unsaturated counters keep identities unique.\<close>

lemma ids_fresh_growth:
  assumes "id_growth s s'" and "ids_fresh s" and "s_next_pane_id s' < u64_max" and "s_next_tab_id s' < u64_max"
    and "s_next_workspace_id s' < u64_max"
  shows "ids_fresh s'"
proof -
  have g: "grows (owned_pane_ids s) (pending_pane_ids s) (s_next_pane_id s)
      (owned_pane_ids s') (pending_pane_ids s') (s_next_pane_id s')"
    "grows (owned_tab_ids s) (pending_tab_ids s) (s_next_tab_id s)
      (owned_tab_ids s') (pending_tab_ids s') (s_next_tab_id s')"
    "grows (shell_workspace_ids s) [] (s_next_workspace_id s) (shell_workspace_ids s') [] (s_next_workspace_id s')"
    using assms(1) by (simp_all add: id_growth_def)
  have "distinct (owned_pane_ids s')" "\<forall>i \<in> set (owned_pane_ids s') \<union> set (pending_pane_ids s'). i < s_next_pane_id s'"
    using grows_fresh [OF g(1) assms(3)] assms(2) by (simp_all add: ids_fresh_def pane_ids_split)
  moreover have "distinct (owned_tab_ids s')" "\<forall>i \<in> set (owned_tab_ids s') \<union> set (pending_tab_ids s'). i < s_next_tab_id s'"
    using grows_fresh [OF g(2) assms(4)] assms(2) by (simp_all add: ids_fresh_def)
  moreover have "distinct (shell_workspace_ids s')" "\<forall>i \<in> set (shell_workspace_ids s'). i < s_next_workspace_id s'"
    using grows_fresh [OF g(3) assms(5)] assms(2) by (simp_all add: ids_fresh_def)
  ultimately show ?thesis by (simp add: ids_fresh_def pane_ids_split)
qed

section \<open>Contract\<close>

locale shell_operation =
  fixes sop :: "app_shell \<Rightarrow> 'r app_result \<times> app_shell"
  assumes sop_ok: "shell_ok s \<Longrightarrow> shell_ok (snd (sop s))"
    and sop_returns: "shell_ok s \<Longrightarrow> length (s_workspaces s) < 2 ^ 128 \<Longrightarrow> returns (fst (sop s))"
    and sop_growth: "shell_ok s \<Longrightarrow> id_growth s (snd (sop s))"
    and sop_count: "shell_ok s \<Longrightarrow> length (s_workspaces (snd (sop s))) \<le> Suc (length (s_workspaces s))"
begin

lemma sop_fresh:
  assumes "shell_ok s" and "ids_fresh s" and "s_next_pane_id (snd (sop s)) < u64_max"
    and "s_next_tab_id (snd (sop s)) < u64_max" and "s_next_workspace_id (snd (sop s)) < u64_max"
  shows "ids_fresh (snd (sop s))"
  by (rule ids_fresh_growth [OF sop_growth [OF assms(1)] assms(2-5)])

end

locale layout_shell_operation = shell_operation +
  assumes sop_splits: "shell_ok s \<Longrightarrow> distinct (owned_pane_ids s) \<Longrightarrow> shell_splits_ok s \<Longrightarrow>
    shell_splits_ok (snd (sop s))"

section \<open>Operations on the active workspace\<close>

lemma workspace_position_ex: "i \<in> set (shell_workspace_ids s) \<Longrightarrow> \<exists>k. workspace_position s i = Some k"
  by (auto simp: workspace_position_def intro: position_ex)

lemma workspace_position_None: "workspace_position s i = None \<longleftrightarrow> i \<notin> set (shell_workspace_ids s)"
  by (auto simp: workspace_position_def position_None_iff)

lemma workspace_position_SomeD:
  "workspace_position s i = Some k \<Longrightarrow> k < length (s_workspaces s) \<and> w_id (s_workspaces s ! k) = i"
  by (auto simp: workspace_position_def dest: position_SomeD)

lemma shell_okD:
  assumes "shell_ok s"
  shows "\<And>w. w \<in> set (s_workspaces s) \<Longrightarrow> ws_ok w"
    and "\<And>pw. pw \<in> set (s_pending_windows s) \<Longrightarrow> tab_ok (pw_tab pw)"
    and "s_active_workspace_id s \<in> set (shell_workspace_ids s)"
    and "s_next_pane_id s \<le> u64_max" and "s_next_tab_id s \<le> u64_max" and "s_next_workspace_id s \<le> u64_max"
  using assms by (auto simp: shell_ok_def)

lemma shell_ok_active:
  assumes "shell_ok s"
  obtains k where "workspace_position s (s_active_workspace_id s) = Some k" and "k < length (s_workspaces s)"
    and "ws_ok (s_workspaces s ! k)"
  using workspace_position_ex [OF shell_okD(3) [OF assms]] workspace_position_SomeD shell_okD(1) [OF assms] nth_mem
  by metis

lemma mset_concat_map_update:
  assumes "k < length xs" and "mset (f y) \<subseteq># mset (f (xs ! k)) + M"
  shows "mset (concat (map f (xs[k := y]))) \<subseteq># mset (concat (map f xs)) + M"
proof -
  have "mset (concat (map f (xs[k := y]))) + mset (f (xs ! k)) = mset (concat (map f xs)) + mset (f y)"
    using mset_concat_update [of k "map f xs" "f y"] assms(1) by (simp add: map_update del: mset_concat)
  also have "\<dots> \<subseteq># mset (concat (map f xs)) + (mset (f (xs ! k)) + M)"
    using assms(2) by (rule subset_mset.add_left_mono)
  finally show ?thesis by (simp add: ac_simps del: mset_concat)
qed

text \<open>
  A step that leaves the window list and the workspace identities alone and adds at most the
  given pane and tab identities.
\<close>

definition local_effect :: "pane_id list \<Rightarrow> tab_id list \<Rightarrow> app_shell \<Rightarrow> app_shell \<Rightarrow> bool" where
  "local_effect ps ts s s' \<longleftrightarrow>
     shell_workspace_ids s' = shell_workspace_ids s \<and> s_active_workspace_id s' = s_active_workspace_id s \<and>
     s_pending_windows s' = s_pending_windows s \<and>
     s_next_pane_id s' = s_next_pane_id s \<and> s_next_tab_id s' = s_next_tab_id s \<and>
     s_next_workspace_id s' = s_next_workspace_id s \<and>
     mset (owned_pane_ids s') \<subseteq># mset (owned_pane_ids s) + mset ps \<and>
     mset (owned_tab_ids s') \<subseteq># mset (owned_tab_ids s) + mset ts"

text \<open>The counters have been advanced for at most one pane and one tab.\<close>

definition draws :: "pane_id list \<Rightarrow> tab_id list \<Rightarrow> app_shell \<Rightarrow> app_shell \<Rightarrow> bool" where
  "draws ps ts s s1 \<longleftrightarrow>
     s_workspaces s1 = s_workspaces s \<and> s_active_workspace_id s1 = s_active_workspace_id s \<and>
     s_pending_windows s1 = s_pending_windows s \<and> s_next_workspace_id s1 = s_next_workspace_id s \<and>
     (ps = [] \<and> s_next_pane_id s1 = s_next_pane_id s \<or>
      ps = [s_next_pane_id s] \<and> s_next_pane_id s1 = sat_add_u64 (s_next_pane_id s) 1) \<and>
     (ts = [] \<and> s_next_tab_id s1 = s_next_tab_id s \<or>
      ts = [s_next_tab_id s] \<and> s_next_tab_id s1 = sat_add_u64 (s_next_tab_id s) 1)"

lemma draws_ok: "draws ps ts s s1 \<Longrightarrow> shell_ok s \<Longrightarrow> shell_ok s1"
  by (auto simp: draws_def shell_ok_def)

lemma draws_nothing: "draws [] [] s s"
  by (simp add: draws_def)

lemma draws_local_growth:
  assumes "shell_ok s" and d: "draws ps ts s s1" and e: "local_effect ps ts s1 s'"
  shows "id_growth s s'"
  unfolding id_growth_def
proof (intro conjI)
  have own: "owned_pane_ids s1 = owned_pane_ids s" "owned_tab_ids s1 = owned_tab_ids s"
    "pending_pane_ids s' = pending_pane_ids s" "pending_tab_ids s' = pending_tab_ids s"
    using d e by (simp_all add: draws_def local_effect_def owned_pane_ids_def owned_tab_ids_def
        pending_pane_ids_def pending_tab_ids_def)
  show "grows (owned_pane_ids s) (pending_pane_ids s) (s_next_pane_id s)
     (owned_pane_ids s') (pending_pane_ids s') (s_next_pane_id s')"
    using d e shell_okD(4) [OF assms(1)] by (intro grows_step [of _ "mset ps"]) (auto simp: draws_def local_effect_def own)
  show "grows (owned_tab_ids s) (pending_tab_ids s) (s_next_tab_id s)
     (owned_tab_ids s') (pending_tab_ids s') (s_next_tab_id s')"
    using d e shell_okD(5) [OF assms(1)] by (intro grows_step [of _ "mset ts"]) (auto simp: draws_def local_effect_def own)
  show "grows (shell_workspace_ids s) [] (s_next_workspace_id s) (shell_workspace_ids s') [] (s_next_workspace_id s')"
    using d e by (simp add: draws_def local_effect_def)
qed

lemma update_workspace_effect:
  assumes "shell_ok s" and k: "k < length (s_workspaces s)" and "ws_ok w" and id: "w_id w = w_id (s_workspaces s ! k)"
    and "mset (ws_pane_ids w) \<subseteq># mset (ws_pane_ids (s_workspaces s ! k)) + mset ps"
    and "mset (ws_tab_ids w) \<subseteq># mset (ws_tab_ids (s_workspaces s ! k)) + mset ts"
  shows "shell_ok (s\<lparr>s_workspaces := (s_workspaces s)[k := w]\<rparr>)"
    and "local_effect ps ts s (s\<lparr>s_workspaces := (s_workspaces s)[k := w]\<rparr>)"
proof -
  have ids: "map w_id ((s_workspaces s)[k := w]) = shell_workspace_ids s" using k id by (simp add: map_update_same)
  have "\<forall>w \<in> set ((s_workspaces s)[k := w]). ws_ok w"
    using assms by (intro set_list_update_memI) (auto simp: shell_ok_def)
  with assms(1) ids show "shell_ok (s\<lparr>s_workspaces := (s_workspaces s)[k := w]\<rparr>)"
    by (simp add: shell_ok_def del: set_map)
  show "local_effect ps ts s (s\<lparr>s_workspaces := (s_workspaces s)[k := w]\<rparr>)"
    using ids mset_concat_map_update [OF k assms(5)] mset_concat_map_update [of k "s_workspaces s" ws_tab_ids, OF k assms(6)]
    by (simp add: local_effect_def owned_pane_ids_def owned_tab_ids_def del: mset_concat mset_map)
qed

context workspace_operation begin

lemma on_active_workspace_unfold:
  assumes "shell_ok s"
  obtains k where "k < length (s_workspaces s)" and "ws_ok (s_workspaces s ! k)"
    and "on_active_workspace wop s =
      (fst (wop (s_workspaces s ! k)), s\<lparr>s_workspaces := (s_workspaces s)[k := snd (wop (s_workspaces s ! k))]\<rparr>)"
proof -
  from shell_ok_active [OF assms] obtain k where "workspace_position s (s_active_workspace_id s) = Some k"
    "k < length (s_workspaces s)" "ws_ok (s_workspaces s ! k)" .
  then show thesis by (intro that [of k]) (simp_all add: on_active_workspace_def case_prod_beta)
qed

lemma on_active_workspace_effect:
  assumes "shell_ok s"
  shows "shell_ok (snd (on_active_workspace wop s))" and "returns (fst (on_active_workspace wop s))"
    and "local_effect fresh_panes fresh_tabs s (snd (on_active_workspace wop s))"
    and "length (s_workspaces (snd (on_active_workspace wop s))) = length (s_workspaces s)"
proof -
  from on_active_workspace_unfold [OF assms] obtain k where k: "k < length (s_workspaces s)" "ws_ok (s_workspaces s ! k)"
    and u: "on_active_workspace wop s =
      (fst (wop (s_workspaces s ! k)), s\<lparr>s_workspaces := (s_workspaces s)[k := snd (wop (s_workspaces s ! k))]\<rparr>)" .
  note e = update_workspace_effect [OF assms k(1) wop_ok [OF k(2)] wop_id [OF k(2)] wop_panes [OF k(2)] wop_tabs [OF k(2)]]
  show "shell_ok (snd (on_active_workspace wop s))" "local_effect fresh_panes fresh_tabs s (snd (on_active_workspace wop s))"
    using e by (simp_all add: u)
  show "returns (fst (on_active_workspace wop s))" using wop_returns [OF k(2)] by (simp add: u)
  show "length (s_workspaces (snd (on_active_workspace wop s))) = length (s_workspaces s)" by (simp add: u)
qed

text \<open>The contract of the operation after identities were drawn for it.\<close>

lemma after_draws:
  assumes "shell_ok s" and "draws fresh_panes fresh_tabs s s1"
  shows "shell_ok (snd (on_active_workspace wop s1)) \<and> returns (fst (on_active_workspace wop s1)) \<and>
    id_growth s (snd (on_active_workspace wop s1)) \<and>
    length (s_workspaces (snd (on_active_workspace wop s1))) \<le> Suc (length (s_workspaces s))"
  using on_active_workspace_effect [OF draws_ok [OF assms(2,1)]] draws_local_growth [OF assms] assms(2)
  by (simp add: draws_def)

lemma lift_operation:
  assumes "fresh_panes = []" and "fresh_tabs = []"
  shows "shell_operation (on_active_workspace wop)"
  using after_draws [unfolded assms, OF _ draws_nothing] by unfold_locales simp_all

end

lemma owned_distinct_workspace:
  "distinct (owned_pane_ids s) \<Longrightarrow> w \<in> set (s_workspaces s) \<Longrightarrow> distinct (ws_pane_ids w)"
  by (auto simp: owned_pane_ids_def distinct_concat_iff)

context layout_workspace_operation begin

lemma on_active_workspace_splits:
  assumes "shell_ok s" and "distinct (owned_pane_ids s)" and "shell_splits_ok s"
  shows "shell_splits_ok (snd (on_active_workspace wop s))"
proof -
  from on_active_workspace_unfold [OF assms(1)] obtain k where k: "k < length (s_workspaces s)" "ws_ok (s_workspaces s ! k)"
    and u: "on_active_workspace wop s =
      (fst (wop (s_workspaces s ! k)), s\<lparr>s_workspaces := (s_workspaces s)[k := snd (wop (s_workspaces s ! k))]\<rparr>)" .
  have "ws_splits_ok (snd (wop (s_workspaces s ! k)))"
    using assms(3) nth_mem [OF k(1)]
    by (intro wop_splits k owned_distinct_workspace [OF assms(2)]) (auto simp: shell_splits_ok_def)
  then have "\<forall>w \<in> set ((s_workspaces s)[k := snd (wop (s_workspaces s ! k))]). ws_splits_ok w"
    using assms(3) k(1) by (intro set_list_update_memI) (auto simp: shell_splits_ok_def)
  with assms(3) show ?thesis by (simp add: u shell_splits_ok_def)
qed

lemma lift_layout_operation:
  assumes "fresh_panes = []" and "fresh_tabs = []"
  shows "layout_shell_operation (on_active_workspace wop)"
  using lift_operation [OF assms] on_active_workspace_splits
  by (simp add: layout_shell_operation_def layout_shell_operation_axioms_def)

end

interpretation apply_close_tab: layout_shell_operation "apply_close_tab tab b" for tab b
  unfolding apply_close_tab_def by (rule close_tab.lift_layout_operation [OF refl refl])

interpretation apply_close_tab_with_selection: layout_shell_operation "apply_close_tab_with_selection tab sel" for tab sel
  unfolding apply_close_tab_with_selection_def by (rule close_tab.lift_layout_operation [OF refl refl])

interpretation apply_activate_tab: layout_shell_operation "apply_activate_tab tab" for tab
  unfolding apply_activate_tab_def by (rule activate_tab.lift_layout_operation [OF refl refl])

interpretation apply_activate_tab_index: layout_shell_operation "apply_activate_tab_index i" for i
  unfolding apply_activate_tab_index_def by (rule activate_tab_index.lift_layout_operation [OF refl refl])

interpretation apply_activate_tab_relative: layout_shell_operation "apply_activate_tab_relative i" for i
  unfolding apply_activate_tab_relative_def by (rule activate_tab_relative.lift_layout_operation [OF refl refl])

interpretation apply_activate_tab_relative_no_wrap: layout_shell_operation "apply_activate_tab_relative_no_wrap i" for i
  unfolding apply_activate_tab_relative_no_wrap_def
  by (rule activate_tab_relative_no_wrap.lift_layout_operation [OF refl refl])

interpretation apply_activate_last_tab: layout_shell_operation apply_activate_last_tab
  unfolding apply_activate_last_tab_def by (rule activate_last_tab.lift_layout_operation [OF refl refl])

interpretation apply_set_tab_title: layout_shell_operation "apply_set_tab_title tab s" for tab s
  unfolding apply_set_tab_title_def by (rule set_tab_title.lift_layout_operation [OF refl refl])

interpretation apply_move_tab: layout_shell_operation "apply_move_tab i" for i
  unfolding apply_move_tab_def by (rule move_tab.lift_layout_operation [OF refl refl])

interpretation apply_move_tab_relative: layout_shell_operation "apply_move_tab_relative i" for i
  unfolding apply_move_tab_relative_def by (rule move_tab_relative.lift_layout_operation [OF refl refl])

interpretation apply_rotate_panes: layout_shell_operation "apply_rotate_panes d" for d
  unfolding apply_rotate_panes_def by (rule rotate_panes.on_active.lift_layout_operation [OF refl refl])

interpretation apply_close_pane: shell_operation "apply_close_pane i" for i
  unfolding apply_close_pane_def by (rule workspace_close_pane.lift_operation [OF refl refl])

interpretation apply_activate_pane: layout_shell_operation "apply_activate_pane i" for i
  unfolding apply_activate_pane_def by (rule focus_pane.on_active.lift_layout_operation [OF refl refl])

interpretation apply_activate_pane_by_index: layout_shell_operation "apply_activate_pane_by_index i" for i
  unfolding apply_activate_pane_by_index_def
  by (rule focus_pane_by_index.on_active.lift_layout_operation [OF refl refl])

interpretation apply_activate_pane_direction: layout_shell_operation "apply_activate_pane_direction d" for d
  unfolding apply_activate_pane_direction_def
  by (rule activate_pane_direction.on_active.lift_layout_operation [OF refl refl])

interpretation apply_swap_panes: layout_shell_operation "apply_swap_panes a b keep" for a b keep
  unfolding apply_swap_panes_def by (rule swap_panes.on_active.lift_layout_operation [OF refl refl])

interpretation apply_resize_pane: layout_shell_operation "apply_resize_pane i d n" for i d n
  unfolding apply_resize_pane_def by (rule resize_pane.on_active.lift_layout_operation [OF refl refl])

interpretation apply_toggle_pane_zoom: layout_shell_operation "apply_toggle_pane_zoom i" for i
  unfolding apply_toggle_pane_zoom_def by (rule toggle_pane_zoom.on_active.lift_layout_operation [OF refl refl])

interpretation apply_set_pane_zoom_state: layout_shell_operation "apply_set_pane_zoom_state i z" for i z
  unfolding apply_set_pane_zoom_state_def
  by (rule set_pane_zoom_state.on_active.lift_layout_operation [OF refl refl])

interpretation apply_focus_next_pane: layout_shell_operation apply_focus_next_pane
  unfolding apply_focus_next_pane_def by (rule focus_next_pane.on_active.lift_layout_operation [OF refl refl])

interpretation apply_focus_previous_pane: layout_shell_operation apply_focus_previous_pane
  unfolding apply_focus_previous_pane_def by (rule focus_previous_pane.on_active.lift_layout_operation [OF refl refl])

end
