(* ===== verification/Shell_Actions.thy ===== *)
theory Shell_Actions
  imports Shell_Laws
begin

text \<open>
  The remaining operations of the shell (metadata on the tab that owns a pane, operations
  that draw identities, windows and workspaces) satisfy the contract, and so does
  \<open>apply_action\<close> on every action, nested \<open>Multiple\<close> included.
\<close>

section \<open>Operations on the tab that owns a pane\<close>

context pane_preserving_operation begin

lemma on_owner_tab_cases:
  assumes s: "shell_ok s"
  shows "(on_owner_tab i op s = (Err (InvalidPane i), s) \<and> i \<notin> set (owned_pane_ids s)) \<or>
    (\<exists>k j. k < length (s_workspaces s) \<and> j < length (w_tabs (s_workspaces s ! k)) \<and>
      i \<in> set (tab_pane_ids (w_tabs (s_workspaces s ! k) ! j)) \<and>
      on_owner_tab i op s = (fst (op (w_tabs (s_workspaces s ! k) ! j)),
        s\<lparr>s_workspaces := (s_workspaces s)[k := (s_workspaces s ! k)
          \<lparr>w_tabs := (w_tabs (s_workspaces s ! k))[j := snd (op (w_tabs (s_workspaces s ! k) ! j))]\<rparr>]\<rparr>))"
proof (cases "position (\<lambda>w. tab_with_pane i w \<noteq> None) (s_workspaces s)")
  case None
  then have "i \<notin> set (owned_pane_ids s)"
    by (auto simp: position_None_iff owned_pane_ids_def ws_pane_ids_def tab_with_pane_def pane_position_def)
  then show ?thesis using None by (simp add: on_owner_tab_def)
next
  case (Some k)
  note k = position_SomeD [OF Some]
  then obtain j where j: "tab_with_pane i (s_workspaces s ! k) = Some j" by blast
  note jD = position_SomeD [OF j [unfolded tab_with_pane_def]]
  then have "i \<in> set (tab_pane_ids (w_tabs (s_workspaces s ! k) ! j))"
    by (metis pane_position_None)
  with Some j k jD show ?thesis
    by (intro disjI2 exI [of _ k] exI [of _ j]) (simp add: on_owner_tab_def case_prod_beta)
qed

lemma on_owner_tab_update:
  assumes s: "shell_ok s" and k: "k < length (s_workspaces s)" and j: "j < length (w_tabs (s_workspaces s ! k))"
  defines "w \<equiv> (s_workspaces s ! k)
    \<lparr>w_tabs := (w_tabs (s_workspaces s ! k))[j := snd (op (w_tabs (s_workspaces s ! k) ! j))]\<rparr>"
  shows "shell_ok (s\<lparr>s_workspaces := (s_workspaces s)[k := w]\<rparr>)"
    and "local_effect [] [] s (s\<lparr>s_workspaces := (s_workspaces s)[k := w]\<rparr>)"
    and "distinct (owned_pane_ids s) \<Longrightarrow> shell_splits_ok s \<Longrightarrow>
      shell_splits_ok (s\<lparr>s_workspaces := (s_workspaces s)[k := w]\<rparr>)"
proof -
  let ?w = "s_workspaces s ! k" and ?t = "w_tabs (s_workspaces s ! k) ! j"
  have mem: "?w \<in> set (s_workspaces s)" "?t \<in> set (w_tabs ?w)" using k j by simp_all
  have ok: "ws_ok ?w" "tab_ok ?t" using shell_okD(1) [OF s mem(1)] ws_okD(4) mem(2) by auto
  have w: "ws_ok w" unfolding w_def by (rule ws_ok_update [OF ok(1) j keeps_id keeps_ok [OF ok(2)]])
  have panes: "mset (ws_pane_ids w) \<subseteq># mset (ws_pane_ids ?w) + mset []"
    unfolding w_def by (rule ws_pane_ids_update [OF j]) (simp only: keeps_mset, simp)
  have tabs: "mset (ws_tab_ids w) \<subseteq># mset (ws_tab_ids ?w) + mset []"
    unfolding w_def ws_tab_ids_update [OF j keeps_id] by simp
  have id: "w_id w = w_id ?w" by (simp add: w_def)
  show "shell_ok (s\<lparr>s_workspaces := (s_workspaces s)[k := w]\<rparr>)"
    and "local_effect [] [] s (s\<lparr>s_workspaces := (s_workspaces s)[k := w]\<rparr>)"
    by (rule update_workspace_effect [OF s k w id panes tabs])+
  assume d: "distinct (owned_pane_ids s)" and sp: "shell_splits_ok s"
  have "splits_ok (t_panes (snd (op ?t)))"
    using sp mem ws_pane_distinct_tab [OF owned_distinct_workspace [OF d mem(1)] mem(2)]
    by (intro keeps_splits) (auto simp: shell_splits_ok_def ws_splits_ok_def)
  then have "ws_splits_ok w" unfolding w_def
    using sp mem(1) by (intro ws_splits_update [OF _ j]) (auto simp: shell_splits_ok_def)
  then have "\<forall>w \<in> set ((s_workspaces s)[k := w]). ws_splits_ok w"
    using sp k by (intro set_list_update_memI) (auto simp: shell_splits_ok_def)
  with sp show "shell_splits_ok (s\<lparr>s_workspaces := (s_workspaces s)[k := w]\<rparr>)" by (simp add: shell_splits_ok_def)
qed

end

sublocale pane_preserving_operation \<subseteq> on_owner: layout_shell_operation "on_owner_tab i op" for i
proof
  fix s assume s: "shell_ok s"
  note c = on_owner_tab_cases [OF s, of i] and u = on_owner_tab_update [OF s]
  show "shell_ok (snd (on_owner_tab i op s))" using c u(1) s by auto
  show "id_growth s (snd (on_owner_tab i op s))"
    using c draws_local_growth [OF s draws_nothing u(2)] by auto
  show "length (s_workspaces (snd (on_owner_tab i op s))) \<le> Suc (length (s_workspaces s))" using c by auto
  show "returns (fst (on_owner_tab i op s))"
    using c
  proof (elim disjE conjE exE)
    fix k j assume "k < length (s_workspaces s)" "j < length (w_tabs (s_workspaces s ! k))"
      and e: "on_owner_tab i op s = (fst (op (w_tabs (s_workspaces s ! k) ! j)),
        s\<lparr>s_workspaces := (s_workspaces s)[k := (s_workspaces s ! k)
          \<lparr>w_tabs := (w_tabs (s_workspaces s ! k))[j := snd (op (w_tabs (s_workspaces s ! k) ! j))]\<rparr>]\<rparr>)"
    then have "tab_ok (w_tabs (s_workspaces s ! k) ! j)" by (meson nth_mem shell_okD(1) [OF s] ws_okD(4))
    then show ?thesis by (simp add: e keeps_returns)
  qed simp
  show "distinct (owned_pane_ids s) \<Longrightarrow> shell_splits_ok s \<Longrightarrow> shell_splits_ok (snd (on_owner_tab i op s))"
    using c u(3) by auto
qed

interpretation apply_set_pane_current_working_dir: layout_shell_operation "apply_set_pane_current_working_dir i c" for i c
  unfolding apply_set_pane_current_working_dir_def
  by (rule set_pane_current_working_dir.on_owner.layout_shell_operation_axioms)

interpretation apply_set_pane_user_var: layout_shell_operation "apply_set_pane_user_var i n v" for i n v
  unfolding apply_set_pane_user_var_def by (rule set_pane_user_var.on_owner.layout_shell_operation_axioms)

interpretation apply_set_pane_badge_format: layout_shell_operation "apply_set_pane_badge_format i b" for i b
  unfolding apply_set_pane_badge_format_def by (rule set_pane_badge_format.on_owner.layout_shell_operation_axioms)

interpretation apply_set_pane_progress: layout_shell_operation "apply_set_pane_progress i p" for i p
  unfolding apply_set_pane_progress_def by (rule set_pane_progress.on_owner.layout_shell_operation_axioms)

interpretation apply_set_pane_has_unseen_output: layout_shell_operation "apply_set_pane_has_unseen_output i b" for i b
  unfolding apply_set_pane_has_unseen_output_def
  by (rule set_pane_has_unseen_output.on_owner.layout_shell_operation_axioms)

interpretation reset_projection: pane_preserving_operation "\<lambda>t. update_pane t i reset_runtime_projection" for i
  by (rule update_pane_contract) simp_all

interpretation reset_pane_runtime_projection: layout_shell_operation "reset_pane_runtime_projection i" for i
  unfolding reset_pane_runtime_projection_def by (rule reset_projection.on_owner.layout_shell_operation_axioms)

section \<open>New tabs and splits\<close>

lemma active_workspace_Ok:
  assumes "shell_ok s"
  obtains w where "active_workspace s = Ok w" and "w \<in> set (s_workspaces s)" and "ws_ok w"
    and "w_id w = s_active_workspace_id s"
proof -
  from shell_ok_active [OF assms] obtain k where k: "workspace_position s (s_active_workspace_id s) = Some k"
    "k < length (s_workspaces s)" "ws_ok (s_workspaces s ! k)" .
  with workspace_position_SomeD [OF k(1)] show thesis
    by (intro that [of "s_workspaces s ! k"]) (simp_all add: active_workspace_def nth_opt_less)
qed

lemma active_pane_id_Ok:
  assumes "shell_ok s"
  obtains i where "active_pane_id s = Ok i" and "i \<in> set (owned_pane_ids s)"
proof -
  obtain w where w: "active_workspace s = (Ok w :: (_, 'a) outcome)" "w \<in> set (s_workspaces s)" "ws_ok w"
    using active_workspace_Ok [OF assms] .
  obtain t where t: "active_tab w = (Ok t :: (_, 'a) outcome)" "t \<in> set (w_tabs w)" "tab_ok t"
    using active_tab_Ok [OF w(3)] .
  have "t_active_pane_id t \<in> set (owned_pane_ids s)"
    using w(2) t(2) tab_okD(1) [OF t(3)] by (auto simp: owned_pane_ids_def ws_pane_ids_def)
  then show thesis by (intro that [of "t_active_pane_id t"]) (simp_all add: active_pane_id_def w(1) t(1))
qed

lemma active_pane_Ok:
  assumes "shell_ok s"
  obtains p where "active_pane s = Ok p"
proof -
  obtain w where w: "active_workspace s = (Ok w :: (_, 'a) outcome)" "ws_ok w" using active_workspace_Ok [OF assms] .
  obtain t where t: "active_tab w = (Ok t :: (_, 'a) outcome)" "tab_ok t" using active_tab_Ok [OF w(2)] .
  obtain p where "tab_active_pane t = (Ok p :: (_, 'a) outcome)" using tab_active_pane_Ok [OF t(2)] .
  with w t show thesis by (intro that [of p]) (simp add: active_pane_def)
qed

lemma resolve_launch_Ok: "active = Ok p \<Longrightarrow> \<exists>l. resolve_launch launch active = Ok l"
  by (cases launch) (simp_all add: resolve_launch_def)

lemma new_pane_tab:
  obtains t where "tab_new n [pane_new i l] = Ok t" and "tab_ok t" and "t_id t = n" and "tab_pane_ids t = [i]"
    and "splits_ok (t_panes t)"
  by (rule that, rule tab_new_Cons) (simp_all add: tab_ok_def splits_ok_def refs_ok_def split_source_def)

lemma apply_new_tab_unfold:
  assumes "shell_ok s"
  obtains t s1 where "apply_new_tab launch s = on_active_workspace (\<lambda>w. (Ok (), add_tab w t)) s1"
    and "tab_ok t" and "splits_ok (t_panes t)" and "draws (tab_pane_ids t) [t_id t] s s1"
proof -
  obtain p where "active_pane s = (Ok p :: pane app_result)" using active_pane_Ok [OF assms] .
  from resolve_launch_Ok [OF this] obtain l where l: "resolve_launch launch (active_pane s) = (Ok l :: pane_launch app_result)" ..
  obtain t where t: "tab_new (s_next_tab_id s) [pane_new (s_next_pane_id s) l] = (Ok t :: tab app_result)" "tab_ok t"
    "t_id t = s_next_tab_id s" "tab_pane_ids t = [s_next_pane_id s]" "splits_ok (t_panes t)" using new_pane_tab .
  let ?s1 = "s\<lparr>s_next_tab_id := sat_add_u64 (s_next_tab_id s) 1, s_next_pane_id := sat_add_u64 (s_next_pane_id s) 1\<rparr>"
  have "apply_new_tab launch s = on_active_workspace (\<lambda>w. (Ok (), add_tab w t)) ?s1"
    using l t(1) by (simp add: apply_new_tab_def next_tab_id_def next_pane_id_def)
  moreover have "draws (tab_pane_ids t) [t_id t] s ?s1" by (simp add: draws_def t)
  ultimately show thesis using that t by blast
qed

lemma add_tab_layout_contract:
  "tab_ok t \<Longrightarrow> splits_ok (t_panes t) \<Longrightarrow>
   layout_workspace_operation (\<lambda>w. (Ok (), add_tab w t)) (tab_pane_ids t) [t_id t]"
  using add_tab_contract by (simp add: layout_workspace_operation_def layout_workspace_operation_axioms_def)

text \<open>An operation that draws identities and then works on the active workspace.\<close>

lemma drawing_operation:
  assumes "\<And>s. shell_ok s \<Longrightarrow> \<exists>wop ps ts s1. sop s = on_active_workspace wop s1 \<and>
    layout_workspace_operation wop ps ts \<and> draws ps ts s s1"
  shows "layout_shell_operation sop"
proof
  fix s assume s: "shell_ok s"
  from assms [OF s] obtain wop ps ts s1 where w: "sop s = on_active_workspace wop s1"
    "layout_workspace_operation wop ps ts" "draws ps ts s s1" by blast
  have wo: "workspace_operation wop ps ts" using w(2) by (simp add: layout_workspace_operation_def)
  note c = workspace_operation.after_draws [OF wo s w(3)]
  show "shell_ok (snd (sop s))" "returns (fst (sop s))" "id_growth s (snd (sop s))"
    "length (s_workspaces (snd (sop s))) \<le> Suc (length (s_workspaces s))" using c by (simp_all add: w(1))
  assume "distinct (owned_pane_ids s)" "shell_splits_ok s"
  moreover have "owned_pane_ids s1 = owned_pane_ids s" "shell_splits_ok s1 = shell_splits_ok s"
    using w(3) by (simp_all add: draws_def owned_pane_ids_def shell_splits_ok_def)
  ultimately show "shell_splits_ok (snd (sop s))"
    using layout_workspace_operation.on_active_workspace_splits [OF w(2) draws_ok [OF w(3) s]] by (simp add: w(1))
qed

interpretation apply_new_tab: layout_shell_operation "apply_new_tab launch" for launch
proof (rule drawing_operation)
  fix s assume "shell_ok s"
  then obtain t s1 where "apply_new_tab launch s = on_active_workspace (\<lambda>w. (Ok (), add_tab w t)) s1"
    "tab_ok t" "splits_ok (t_panes t)" "draws (tab_pane_ids t) [t_id t] s s1" by (rule apply_new_tab_unfold)
  then show "\<exists>wop ps ts s1. apply_new_tab launch s = on_active_workspace wop s1 \<and>
      layout_workspace_operation wop ps ts \<and> draws ps ts s s1"
    using add_tab_layout_contract by blast
qed

interpretation apply_move_pane_to_new_tab: layout_shell_operation "apply_move_pane_to_new_tab i" for i
proof (rule drawing_operation)
  fix s assume "shell_ok s"
  have "apply_move_pane_to_new_tab i s = on_active_workspace (\<lambda>w. move_pane_to_new_tab w i (s_next_tab_id s))
      (s\<lparr>s_next_tab_id := sat_add_u64 (s_next_tab_id s) 1\<rparr>)"
    by (simp add: apply_move_pane_to_new_tab_def next_tab_id_def)
  moreover have "draws [] [s_next_tab_id s] s (s\<lparr>s_next_tab_id := sat_add_u64 (s_next_tab_id s) 1\<rparr>)"
    by (simp add: draws_def)
  ultimately show "\<exists>wop ps ts s1. apply_move_pane_to_new_tab i s = on_active_workspace wop s1 \<and>
      layout_workspace_operation wop ps ts \<and> draws ps ts s s1"
    using move_pane_to_new_tab.layout_workspace_operation_axioms by blast
qed

lemma split_resolved_unfold:
  assumes "tab_ok t"
  obtains l where "split_resolved src new d launch n t = split_pane t src new d l n"
    and "split_top_level_resolved new d launch n t = split_top_level_pane t new d l n"
proof -
  obtain p where "tab_active_pane t = (Ok p :: pane app_result)" using tab_active_pane_Ok [OF assms] .
  from resolve_launch_Ok [OF this] obtain l where "resolve_launch launch (tab_active_pane t) = (Ok l :: pane_launch app_result)" ..
  then show thesis by (intro that [of l]) (simp_all add: split_resolved_def split_top_level_resolved_def)
qed

lemma bind_st_keeps: "(\<And>a s. P s \<Longrightarrow> P (snd (f a s))) \<Longrightarrow> P (snd m) \<Longrightarrow> P (snd (bind_st m f))"
  by (cases m; cases "fst m") (auto simp: bind_st_def)

interpretation split_resolved: layout_tab_operation "split_resolved src new d launch n" "[new]" for src new d launch n
proof
  fix t
  have u: "\<exists>l. split_resolved src new d launch n t = split_pane t src new d l n" if "tab_ok t"
    using split_resolved_unfold [OF that] by metis
  show "tab_ok t \<Longrightarrow> tab_ok (snd (split_resolved src new d launch n t))" using u split_pane.op_ok [of t] by auto
  show "tab_ok t \<Longrightarrow> returns (fst (split_resolved src new d launch n t))" using u split_pane.op_returns [of t] by auto
  show "tab_ok t \<Longrightarrow> mset (tab_pane_ids (snd (split_resolved src new d launch n t))) \<subseteq># mset (tab_pane_ids t) + mset [new]"
    using u split_pane.op_panes [of t] by (auto simp del: mset_map)
  show "tab_ok t \<Longrightarrow> distinct (tab_pane_ids t) \<Longrightarrow> splits_ok (t_panes t) \<Longrightarrow>
      splits_ok (t_panes (snd (split_resolved src new d launch n t)))" using u split_pane.op_splits [of t] by auto
  show "t_id (snd (split_resolved src new d launch n t)) = t_id t"
    unfolding split_resolved_def by (rule bind_st_keeps) (simp_all add: split_pane.op_id)
qed

interpretation split_top_level_resolved: layout_tab_operation "split_top_level_resolved new d launch n" "[new]"
  for new d launch n
proof
  fix t
  have u: "\<exists>l. split_top_level_resolved new d launch n t = split_top_level_pane t new d l n" if "tab_ok t"
    using split_resolved_unfold [OF that] by metis
  show "tab_ok t \<Longrightarrow> tab_ok (snd (split_top_level_resolved new d launch n t))"
    using u split_top_level_pane.op_ok [of t] by auto
  show "tab_ok t \<Longrightarrow> returns (fst (split_top_level_resolved new d launch n t))"
    using u split_top_level_pane.op_returns [of t] by auto
  show "tab_ok t \<Longrightarrow> mset (tab_pane_ids (snd (split_top_level_resolved new d launch n t))) \<subseteq># mset (tab_pane_ids t) + mset [new]"
    using u split_top_level_pane.op_panes [of t] by (auto simp del: mset_map)
  show "tab_ok t \<Longrightarrow> distinct (tab_pane_ids t) \<Longrightarrow> splits_ok (t_panes t) \<Longrightarrow>
      splits_ok (t_panes (snd (split_top_level_resolved new d launch n t)))"
    using u split_top_level_pane.op_splits [of t] by auto
  show "t_id (snd (split_top_level_resolved new d launch n t)) = t_id t"
    unfolding split_top_level_resolved_def by (rule bind_st_keeps) (simp_all add: split_top_level_pane.op_id)
qed

lemma draws_pane: "draws [s_next_pane_id s] [] s (s\<lparr>s_next_pane_id := sat_add_u64 (s_next_pane_id s) 1\<rparr>)"
  by (simp add: draws_def)

interpretation apply_split_pane_with_size: layout_shell_operation "apply_split_pane_with_size i d launch n" for i d launch n
proof (rule drawing_operation)
  fix s assume "shell_ok s"
  have "apply_split_pane_with_size i d launch n s = on_active_workspace
      (on_active_tab (split_resolved i (s_next_pane_id s) d launch n)) (s\<lparr>s_next_pane_id := sat_add_u64 (s_next_pane_id s) 1\<rparr>)"
    by (simp add: apply_split_pane_with_size_def next_pane_id_def)
  with draws_pane show "\<exists>wop ps ts s1. apply_split_pane_with_size i d launch n s = on_active_workspace wop s1 \<and>
      layout_workspace_operation wop ps ts \<and> draws ps ts s s1"
    using split_resolved.on_active.layout_workspace_operation_axioms by blast
qed

interpretation apply_split_pane: layout_shell_operation "apply_split_pane i d launch" for i d launch
  unfolding apply_split_pane_def by (rule apply_split_pane_with_size.layout_shell_operation_axioms)

interpretation apply_split_top_level_pane_with_size:
  layout_shell_operation "apply_split_top_level_pane_with_size d launch n" for d launch n
proof (rule drawing_operation)
  fix s assume "shell_ok s"
  have "apply_split_top_level_pane_with_size d launch n s = on_active_workspace
      (on_active_tab (split_top_level_resolved (s_next_pane_id s) d launch n))
      (s\<lparr>s_next_pane_id := sat_add_u64 (s_next_pane_id s) 1\<rparr>)"
    by (simp add: apply_split_top_level_pane_with_size_def next_pane_id_def)
  with draws_pane show "\<exists>wop ps ts s1. apply_split_top_level_pane_with_size d launch n s = on_active_workspace wop s1 \<and>
      layout_workspace_operation wop ps ts \<and> draws ps ts s s1"
    using split_top_level_resolved.on_active.layout_workspace_operation_axioms by blast
qed

section \<open>New windows\<close>

definition push_window :: "pending_window \<Rightarrow> app_shell \<Rightarrow> app_shell" where
  "push_window pw s = s\<lparr>s_pending_windows := s_pending_windows s @ [pw]\<rparr>"

lemma push_window_growth:
  assumes "shell_ok s" and d: "draws ps ts s s1" and e: "local_effect [] [] s1 s2"
    and "set (tab_pane_ids (pw_tab pw)) \<subseteq> set (owned_pane_ids s) \<union> set ps"
    and "t_id (pw_tab pw) \<in> set (owned_tab_ids s) \<union> set ts"
  shows "id_growth s (push_window pw s2)"
  unfolding id_growth_def
proof (intro conjI)
  let ?s = "push_window pw s2"
  have own: "owned_pane_ids ?s = owned_pane_ids s2" "owned_tab_ids ?s = owned_tab_ids s2"
    "owned_pane_ids s1 = owned_pane_ids s" "owned_tab_ids s1 = owned_tab_ids s"
    "pending_pane_ids ?s = pending_pane_ids s @ tab_pane_ids (pw_tab pw)"
    "pending_tab_ids ?s = pending_tab_ids s @ [t_id (pw_tab pw)]"
    using d e by (simp_all add: draws_def local_effect_def owned_pane_ids_def owned_tab_ids_def
        pending_pane_ids_def pending_tab_ids_def push_window_def)
  have sub: "mset (owned_pane_ids s2) \<subseteq># mset (owned_pane_ids s) + mset ps"
    "mset (owned_tab_ids s2) \<subseteq># mset (owned_tab_ids s) + mset ts"
    using e own by (auto simp: local_effect_def intro: subset_mset.order_trans)
  show "grows (owned_pane_ids s) (pending_pane_ids s) (s_next_pane_id s)
     (owned_pane_ids ?s) (pending_pane_ids ?s) (s_next_pane_id ?s)"
    using d e sub(1) assms(4) shell_okD(4) [OF assms(1)] unfolding own
    by (intro grows_step [of _ "mset ps"]) (auto simp: draws_def local_effect_def push_window_def)
  show "grows (owned_tab_ids s) (pending_tab_ids s) (s_next_tab_id s)
     (owned_tab_ids ?s) (pending_tab_ids ?s) (s_next_tab_id ?s)"
    using d e sub(2) assms(5) shell_okD(5) [OF assms(1)] unfolding own
    by (intro grows_step [of _ "mset ts"]) (auto simp: draws_def local_effect_def push_window_def)
  show "grows (shell_workspace_ids s) [] (s_next_workspace_id s) (shell_workspace_ids ?s) [] (s_next_workspace_id ?s)"
    using d e by (simp add: draws_def local_effect_def push_window_def)
qed

lemma push_window_ok: "shell_ok s \<Longrightarrow> tab_ok (pw_tab pw) \<Longrightarrow> shell_ok (push_window pw s)"
  by (auto simp: shell_ok_def push_window_def)

lemma push_window_fields [simp]:
  "s_workspaces (push_window pw s) = s_workspaces s"
  "shell_splits_ok (push_window pw s) \<longleftrightarrow> shell_splits_ok s \<and> splits_ok (t_panes (pw_tab pw))"
  by (auto simp: push_window_def shell_splits_ok_def)

lemma draws_effect_growth:
  assumes "shell_ok s" and d: "draws ps ts s s1" and e: "local_effect [] [] s1 s2"
  shows "id_growth s s2"
proof (rule draws_local_growth [OF assms(1,2)])
  show "local_effect ps ts s1 s2" using e by (auto simp: local_effect_def intro: subset_mset.order_trans)
qed

text \<open>
  The outcome of an operation that draws identities, works on the active workspace and then
  either fails or pushes a window built from what it took or drew.
\<close>

definition window_base :: "pane_id list \<Rightarrow> tab_id list \<Rightarrow> app_shell \<Rightarrow> app_shell \<Rightarrow> bool" where
  "window_base ps ts s s2 \<longleftrightarrow>
     (\<exists>s1. draws ps ts s s1 \<and> local_effect [] [] s1 s2) \<and> shell_ok s2 \<and>
     length (s_workspaces s2) = length (s_workspaces s) \<and>
     (distinct (owned_pane_ids s) \<longrightarrow> shell_splits_ok s \<longrightarrow> shell_splits_ok s2)"

definition window_source :: "pane_id list \<Rightarrow> tab_id list \<Rightarrow> app_shell \<Rightarrow> tab \<Rightarrow> bool" where
  "window_source ps ts s t \<longleftrightarrow> tab_ok t \<and> (shell_splits_ok s \<longrightarrow> splits_ok (t_panes t)) \<and>
     set (tab_pane_ids t) \<subseteq> set (owned_pane_ids s) \<union> set ps \<and> t_id t \<in> set (owned_tab_ids s) \<union> set ts"

definition window_outcome :: "app_shell \<Rightarrow> unit app_result \<times> app_shell \<Rightarrow> bool" where
  "window_outcome s m \<longleftrightarrow> (\<exists>ps ts s2. window_base ps ts s s2 \<and>
     ((\<exists>e. m = (Err e, s2)) \<or> (\<exists>pw. m = (Ok (), push_window pw s2) \<and> window_source ps ts s (pw_tab pw))))"

lemma window_outcomeI:
  "window_base ps ts s s2 \<Longrightarrow> window_outcome s (Err e, s2)"
  "window_base ps ts s s2 \<Longrightarrow> window_source ps ts s (pw_tab pw) \<Longrightarrow> window_outcome s (Ok (), push_window pw s2)"
  by (auto simp: window_outcome_def)

lemma window_operation:
  assumes "\<And>s. shell_ok s \<Longrightarrow> window_outcome s (sop s)"
  shows "layout_shell_operation sop"
proof
  fix s assume s: "shell_ok s"
  from assms [OF s] obtain ps ts s1 s2 where d: "draws ps ts s s1" "local_effect [] [] s1 s2" "shell_ok s2"
      "length (s_workspaces s2) = length (s_workspaces s)"
      "distinct (owned_pane_ids s) \<longrightarrow> shell_splits_ok s \<longrightarrow> shell_splits_ok s2"
    and c: "(\<exists>e. sop s = (Err e, s2)) \<or> (\<exists>pw. sop s = (Ok (), push_window pw s2) \<and> window_source ps ts s (pw_tab pw))"
    unfolding window_outcome_def window_base_def by blast
  show "shell_ok (snd (sop s))" using c d(3) push_window_ok by (auto simp: window_source_def)
  show "returns (fst (sop s))" using c by auto
  show "length (s_workspaces (snd (sop s))) \<le> Suc (length (s_workspaces s))" using c d(4) by auto
  show "id_growth s (snd (sop s))"
    using c draws_effect_growth [OF s d(1,2)] push_window_growth [OF s d(1,2)]
    by (auto simp: window_source_def simp del: set_map)
  show "distinct (owned_pane_ids s) \<Longrightarrow> shell_splits_ok s \<Longrightarrow> shell_splits_ok (snd (sop s))"
    using c d(5) by (auto simp: window_source_def)
qed

lemma window_base_draws: "shell_ok s \<Longrightarrow> draws ps ts s s1 \<Longrightarrow> window_base ps ts s s1"
  using draws_ok [of ps ts s s1]
  by (auto simp: window_base_def draws_def local_effect_def shell_splits_ok_def intro: exI [of _ s1])

interpretation apply_spawn_window: layout_shell_operation "apply_spawn_window launch" for launch
proof (rule window_operation)
  fix s assume s: "shell_ok s"
  obtain p where "active_pane s = (Ok p :: pane app_result)" using active_pane_Ok [OF s] .
  from resolve_launch_Ok [OF this] obtain l where l: "resolve_launch launch (active_pane s) = (Ok l :: pane_launch app_result)" ..
  obtain t where t: "tab_new (s_next_tab_id s) [pane_new (s_next_pane_id s) l] = (Ok t :: tab app_result)" "tab_ok t"
    "t_id t = s_next_tab_id s" "tab_pane_ids t = [s_next_pane_id s]" "splits_ok (t_panes t)" using new_pane_tab .
  define s1 where "s1 = s\<lparr>s_next_window_id := sat_add_u64 (s_next_window_id s) 1,
    s_next_tab_id := sat_add_u64 (s_next_tab_id s) 1, s_next_pane_id := sat_add_u64 (s_next_pane_id s) 1\<rparr>"
  have d: "draws [s_next_pane_id s] [s_next_tab_id s] s s1" by (simp add: draws_def s1_def)
  obtain w where w: "active_workspace s1 = (Ok w :: workspace app_result)"
    using active_workspace_Ok [OF draws_ok [OF d s]] .
  let ?pw = "\<lparr>pw_id = s_next_window_id s, pw_workspace_id = w_id w, pw_workspace_name = w_name w, pw_tab = t\<rparr>"
  have "apply_spawn_window launch s = (Ok (), push_window ?pw s1)"
    using l t(1) w by (simp add: apply_spawn_window_def next_window_id_def next_tab_id_def next_pane_id_def s1_def push_window_def)
  moreover have "window_source [s_next_pane_id s] [s_next_tab_id s] s (pw_tab ?pw)"
    using t by (simp add: window_source_def del: set_map)
  ultimately show "window_outcome s (apply_spawn_window launch s)"
    using window_outcomeI(2) [OF window_base_draws [OF s d]] by simp
qed

lemma window_base_on_active:
  assumes "layout_workspace_operation wop [] []" and "shell_ok s" and d: "draws ps ts s s1"
  shows "window_base ps ts s (snd (on_active_workspace wop s1))"
proof -
  have wo: "workspace_operation wop [] []" using assms(1) by (simp add: layout_workspace_operation_def)
  note s1 = draws_ok [OF d assms(2)]
  have "owned_pane_ids s1 = owned_pane_ids s" "shell_splits_ok s1 = shell_splits_ok s"
    "length (s_workspaces s1) = length (s_workspaces s)"
    using d by (simp_all add: draws_def owned_pane_ids_def shell_splits_ok_def)
  then show ?thesis
    using workspace_operation.on_active_workspace_effect [OF wo s1] d
      layout_workspace_operation.on_active_workspace_splits [OF assms(1) s1]
    by (auto simp: window_base_def)
qed

lemma release_tab_cases:
  assumes w: "ws_ok w"
  shows "(\<exists>e. release_tab i w = (Err e, w)) \<or> (\<exists>t \<in> set (w_tabs w). release_tab i w = (Ok t, w)) \<or>
    (\<exists>k w'. tab_removed k w w' \<and> release_tab i w = (Ok (w_tabs w ! k), w'))"
proof (cases "length (w_tabs w) = 1")
  case True
  then show ?thesis
    by (auto simp: release_tab_def workspace_tab_def bind_eq_Some_conv dest: tab_position_SomeD split: option.split)
next
  case False
  with detach_tab_cases [OF w, of i] show ?thesis by (fastforce simp: release_tab_def)
qed

interpretation release_tab: layout_workspace_operation "release_tab i" "[]" "[]" for i
proof (rule removal_workspace_contract)
  fix w assume "ws_ok w"
  from release_tab_cases [OF this, of i]
  show "returns (fst (release_tab i w)) \<and> (snd (release_tab i w) = w \<or> (\<exists>k. tab_removed k w (snd (release_tab i w))))"
    by auto
qed

lemma release_tab_result:
  assumes "ws_ok w"
  shows "(\<exists>e. fst (release_tab i w) = Err e) \<or> (\<exists>t \<in> set (w_tabs w). fst (release_tab i w) = Ok t)"
  using release_tab_cases [OF assms, of i] by (auto simp: tab_removed_def)

lemma owned_tab:
  assumes "w \<in> set (s_workspaces s)" and "t \<in> set (w_tabs w)"
  shows "set (tab_pane_ids t) \<subseteq> set (owned_pane_ids s)" and "t_id t \<in> set (owned_tab_ids s)"
  using assms by (auto simp: owned_pane_ids_def owned_tab_ids_def ws_pane_ids_def)

interpretation apply_move_tab_to_new_window: layout_shell_operation "apply_move_tab_to_new_window i" for i
proof (rule window_operation)
  fix s assume s: "shell_ok s"
  define s1 where "s1 = s\<lparr>s_next_window_id := sat_add_u64 (s_next_window_id s) 1\<rparr>"
  have d: "draws [] [] s s1" by (simp add: draws_def s1_def)
  note s1 = draws_ok [OF d s]
  obtain w where w: "active_workspace s1 = (Ok w :: workspace app_result)" using active_workspace_Ok [OF s1] .
  from release_tab.on_active_workspace_unfold [OF s1, of i] obtain k where
    k: "k < length (s_workspaces s1)" "ws_ok (s_workspaces s1 ! k)"
    and r: "fst (on_active_workspace (release_tab i) s1) = fst (release_tab i (s_workspaces s1 ! k))" by (metis fst_conv)
  obtain r s2 where rs: "on_active_workspace (release_tab i) s1 = (r, s2)" by fastforce
  have base: "window_base [] [] s s2"
    using window_base_on_active [OF release_tab.layout_workspace_operation_axioms s d, of i] rs by simp
  have mem: "s_workspaces s1 ! k \<in> set (s_workspaces s)" using k(1) by (simp add: s1_def)
  from release_tab_result [OF k(2), of i] r rs consider e where "r = Err e"
    | t where "t \<in> set (w_tabs (s_workspaces s1 ! k))" "r = Ok t" by fastforce
  then show "window_outcome s (apply_move_tab_to_new_window i s)"
  proof cases
    case 1
    then have "apply_move_tab_to_new_window i s = (Err e, s2)"
      using w rs by (simp add: apply_move_tab_to_new_window_def next_window_id_def s1_def)
    with window_outcomeI(1) [OF base] show ?thesis by simp
  next
    case 2
    let ?pw = "\<lparr>pw_id = s_next_window_id s, pw_workspace_id = w_id w, pw_workspace_name = w_name w, pw_tab = t\<rparr>"
    have "apply_move_tab_to_new_window i s = (Ok (), push_window ?pw s2)"
      using w rs 2(2) by (simp add: apply_move_tab_to_new_window_def next_window_id_def s1_def push_window_def)
    moreover have "window_source [] [] s (pw_tab ?pw)"
      using owned_tab [OF mem 2(1)] ws_okD(4) [OF k(2) 2(1)] 2(1) mem
      by (auto simp: window_source_def shell_splits_ok_def ws_splits_ok_def simp del: set_map)
    ultimately show ?thesis using window_outcomeI(2) [OF base] by simp
  qed
qed

interpretation apply_move_pane_to_new_window: layout_shell_operation "apply_move_pane_to_new_window i" for i
proof (rule window_operation)
  fix s assume s: "shell_ok s"
  define s1 where "s1 = s\<lparr>s_next_window_id := sat_add_u64 (s_next_window_id s) 1,
    s_next_tab_id := sat_add_u64 (s_next_tab_id s) 1\<rparr>"
  have d: "draws [] [s_next_tab_id s] s s1" by (simp add: draws_def s1_def)
  note s1 = draws_ok [OF d s]
  let ?f = "\<lambda>w. move_pane_to_new_window w i (s_next_window_id s) (s_next_tab_id s)"
  from move_pane_to_new_window.on_active_workspace_unfold [OF s1] obtain k where
    k: "k < length (s_workspaces s1)" "ws_ok (s_workspaces s1 ! k)"
    and r: "fst (on_active_workspace ?f s1) = fst (?f (s_workspaces s1 ! k))" by (metis fst_conv)
  obtain r s2 where rs: "on_active_workspace ?f s1 = (r, s2)" by fastforce
  have base: "window_base [] [s_next_tab_id s] s s2"
    using window_base_on_active [OF move_pane_to_new_window.layout_workspace_operation_axioms s d] rs
    by (metis snd_conv)
  have mem: "s_workspaces s1 ! k \<in> set (s_workspaces s)" using k(1) by (simp add: s1_def)
  have u: "apply_move_pane_to_new_window i s = bind_st (r, s2) (\<lambda>pw s. (Ok (), push_window pw s))"
    using rs by (simp add: apply_move_pane_to_new_window_def next_window_id_def next_tab_id_def s1_def push_window_def)
  from move_pane_to_new_window_cases [OF k(2), of i "s_next_window_id s" "s_next_tab_id s"]
  show "window_outcome s (apply_move_pane_to_new_window i s)"
  proof (elim disjE exE conjE)
    fix e assume "?f (s_workspaces s1 ! k) = (Err e, s_workspaces s1 ! k)"
    with r rs window_outcomeI(1) [OF base] show ?thesis by (simp add: u)
  next
    fix w1 pw assume f: "?f (s_workspaces s1 ! k) = (Ok pw, w1)" and t: "tab_ok (pw_tab pw)" "t_id (pw_tab pw) = s_next_tab_id s"
      "tab_pane_ids (pw_tab pw) = [i]" "splits_ok (t_panes (pw_tab pw))"
      and m: "mset (ws_pane_ids (s_workspaces s1 ! k)) = add_mset i (mset (ws_pane_ids w1))"
    have "i \<in> set (ws_pane_ids (s_workspaces s1 ! k))" by (metis m set_mset_mset union_single_eq_member)
    then have "i \<in> set (owned_pane_ids s)" using mem by (auto simp: owned_pane_ids_def)
    with t have "window_source [] [s_next_tab_id s] s (pw_tab pw)" by (simp add: window_source_def del: set_map)
    with f r rs window_outcomeI(2) [OF base] show ?thesis by (simp add: u)
  qed
qed

end
