(* ===== verification/Shell_Workspaces.thy ===== *)
theory Shell_Workspaces
  imports Shell_Actions "HOL-Library.List_Lexorder"
begin

text \<open>
  Switching, creating, renaming and closing workspaces. The search for an unused random
  workspace name terminates: the step of the search is odd, so the seeds it visits are
  pairwise different modulo $2^{128}$, their 32 hexadecimal digits are different strings,
  and one more seed than there are workspaces is enough to find an unused name.
\<close>

section \<open>Random names\<close>

lemma hex_digit_inj: "a < 16 \<Longrightarrow> b < 16 \<Longrightarrow> hex_digit a = hex_digit b \<Longrightarrow> a = b"
  by (auto simp: hex_digit_def split: if_splits)

lemma hex_fixed_inj: "m < 16 ^ k \<Longrightarrow> n < 16 ^ k \<Longrightarrow> hex_fixed k m = hex_fixed k n \<Longrightarrow> m = n"
proof (induction k arbitrary: m n)
  case (Suc k)
  have "m div 16 < 16 ^ k" "n div 16 < 16 ^ k" using Suc.prems by auto
  moreover have "hex_fixed k (m div 16) = hex_fixed k (n div 16)" "hex_digit (m mod 16) = hex_digit (n mod 16)"
    using Suc.prems(3) by simp_all
  ultimately have "m div 16 = n div 16" "m mod 16 = n mod 16"
    using Suc.IH hex_digit_inj [of "m mod 16" "n mod 16"] by simp_all
  then show ?case by (metis div_mult_mod_eq)
qed simp

lemma random_name_inj: "random_name a = random_name b \<Longrightarrow> a = b"
proof -
  assume "random_name a = random_name b"
  then have "hex_fixed 32 (unat a) = hex_fixed 32 (unat b)" by (simp add: random_name_def)
  moreover have "unat x < 16 ^ 32" for x :: "128 word" using unsigned_less [of x] by simp
  ultimately have "unat a = unat b" using hex_fixed_inj by blast
  then show "a = b" by (rule unsigned_word_eqI)
qed

text \<open>The step of the search is invertible modulo $2^{128}$.\<close>

lemma step_inverse: "(0x9e3779b97f4a7c15 :: 128 word) * 0xed9de798e8ae70a5f1de83e19937733d = 1"
  by simp

lemma seeds_inj:
  assumes "(word_of_nat i :: 128 word) * 0x9e3779b97f4a7c15 = word_of_nat j * 0x9e3779b97f4a7c15"
    and "i < 2 ^ 128" and "j < 2 ^ 128"
  shows "i = j"
proof -
  have "(word_of_nat i :: 128 word) * (0x9e3779b97f4a7c15 * 0xed9de798e8ae70a5f1de83e19937733d) =
      word_of_nat j * (0x9e3779b97f4a7c15 * 0xed9de798e8ae70a5f1de83e19937733d)"
    using arg_cong [OF assms(1), of "\<lambda>x. x * 0xed9de798e8ae70a5f1de83e19937733d"] by (simp only: mult.assoc)
  then have "(word_of_nat i :: 128 word) = word_of_nat j" unfolding step_inverse by simp
  then have "unat (word_of_nat i :: 128 word) = unat (word_of_nat j :: 128 word)" by simp
  then show ?thesis using assms(2,3) by (simp add: unat_of_nat)
qed

lemma random_name_loop_cases:
  "(\<exists>name. random_name_loop fuel seed names = Ok name \<and> name \<notin> set names) \<or>
   (random_name_loop fuel seed names = Diverge \<and>
    (\<forall>i < fuel. random_name (seed + word_of_nat i * 0x9e3779b97f4a7c15) \<in> set names))"
proof (induction fuel arbitrary: seed)
  case (Suc fuel)
  show ?case
  proof (cases "random_name seed \<in> set names")
    case True
    have "random_name (seed + word_of_nat i * 0x9e3779b97f4a7c15) \<in> set names"
      if "\<forall>i < fuel. random_name (seed + 0x9e3779b97f4a7c15 + word_of_nat i * 0x9e3779b97f4a7c15) \<in> set names"
        and "i < Suc fuel" for i
      using that True by (cases i) (auto simp: algebra_simps)
    with Suc.IH [of "seed + 0x9e3779b97f4a7c15"] True show ?thesis by (auto simp del: random_name_loop.simps(1))
  qed simp
qed simp

lemma random_name_loop_returns:
  assumes "length names < fuel" and "fuel \<le> 2 ^ 128"
  shows "\<exists>name. random_name_loop fuel seed names = Ok name \<and> name \<notin> set names"
proof (rule ccontr)
  assume "\<nexists>name. random_name_loop fuel seed names = Ok name \<and> name \<notin> set names"
  with random_name_loop_cases [of fuel seed names]
  have "(\<lambda>i. random_name (seed + word_of_nat i * 0x9e3779b97f4a7c15)) ` {..<fuel} \<subseteq> set names" by auto
  moreover have "inj_on (\<lambda>i. random_name (seed + word_of_nat i * 0x9e3779b97f4a7c15)) {..<fuel}"
  proof (rule inj_onI)
    fix i j assume ij: "i \<in> {..<fuel}" "j \<in> {..<fuel}"
      and "random_name (seed + word_of_nat i * 0x9e3779b97f4a7c15) = random_name (seed + word_of_nat j * 0x9e3779b97f4a7c15)"
    then have "word_of_nat i * (0x9e3779b97f4a7c15 :: 128 word) = word_of_nat j * 0x9e3779b97f4a7c15"
      using random_name_inj by (metis add_left_cancel)
    with ij assms(2) show "i = j" by (intro seeds_inj) auto
  qed
  ultimately have "card {..<fuel} \<le> card (set names)" by (intro card_inj_on_le) auto
  with card_length [of names] assms(1) show False by simp
qed

lemma random_workspace_name_Ok:
  assumes "length (s_workspaces s) < 2 ^ 128"
  shows "\<exists>name. random_workspace_name env s = Ok name \<and> name \<notin> set (map w_name (s_workspaces s))"
proof -
  have "length (map w_name (s_workspaces s)) < Suc (length (s_workspaces s))" by simp
  moreover have "Suc (length (s_workspaces s)) \<le> 2 ^ 128" using assms by (rule Suc_leI)
  ultimately show ?thesis unfolding random_workspace_name_def Let_def by (rule random_name_loop_returns)
qed

section \<open>Switching\<close>

text \<open>What \<open>sort_unstable_by_key\<close> promises: a permutation, sorted by name.\<close>

locale workspace_sort =
  fixes srt :: "workspace list \<Rightarrow> workspace list"
  assumes sort_perm: "mset (srt ws) = mset ws"
    and sort_sorted: "sorted (map w_name (srt ws))"
begin

lemma sort_ids: "set (map w_id (srt ws)) = set (map w_id ws)"
  using mset_eq_setD [OF sort_perm [of ws]] by simp

lemma sort_length: "length (srt ws) = length ws"
  using sort_perm [of ws] by (rule mset_eq_length)

end

interpretation name_sort: workspace_sort "sort_key w_name"
  by unfold_locales simp_all

lemma growth_same_content:
  "s_workspaces s' = s_workspaces s \<Longrightarrow> s_pending_windows s' = s_pending_windows s \<Longrightarrow>
   s_next_pane_id s' = s_next_pane_id s \<Longrightarrow> s_next_tab_id s' = s_next_tab_id s \<Longrightarrow>
   s_next_workspace_id s' = s_next_workspace_id s \<Longrightarrow> id_growth s s'"
  by (simp add: id_growth_def owned_pane_ids_def owned_tab_ids_def pending_pane_ids_def pending_tab_ids_def)

text \<open>An operation that changes nothing or switches to an existing workspace.\<close>

lemma switching_operation:
  assumes "\<And>s. shell_ok s \<Longrightarrow> returns (fst (sop s)) \<and>
    (snd (sop s) = s \<or> (\<exists>i \<in> set (shell_workspace_ids s). snd (sop s) = s\<lparr>s_active_workspace_id := i\<rparr>))"
  shows "layout_shell_operation sop"
proof
  fix s assume s: "shell_ok s"
  note c = assms [OF s]
  show "returns (fst (sop s))" using c by simp
  show "shell_ok (snd (sop s))" using c s by (auto simp: shell_ok_def)
  show "id_growth s (snd (sop s))" using c by (auto intro: growth_same_content)
  show "length (s_workspaces (snd (sop s))) \<le> Suc (length (s_workspaces s))" using c by auto
  show "shell_splits_ok s \<Longrightarrow> shell_splits_ok (snd (sop s))" using c by (auto simp: shell_splits_ok_def)
qed

interpretation apply_switch_workspace: layout_shell_operation "apply_switch_workspace i" for i
  by (rule switching_operation) (auto simp: apply_switch_workspace_def workspace_position_None simp del: set_map)

lemma apply_switch_workspace_relative_contract:
  assumes "workspace_sort (env_sort_by_name env)"
  shows "layout_shell_operation (apply_switch_workspace_relative env i)"
proof (rule switching_operation)
  fix s assume s: "shell_ok s"
  let ?ids = "ordered_workspace_ids env s"
  have ids: "set ?ids = set (shell_workspace_ids s)" "length ?ids = length (s_workspaces s)"
    using workspace_sort.sort_ids [OF assms] workspace_sort.sort_length [OF assms]
    by (simp_all only: ordered_workspace_ids_def length_map)
  then obtain k where k: "position (\<lambda>w. w = s_active_workspace_id s) ?ids = Some k" "?ids \<noteq> []"
    using position_ex [of "s_active_workspace_id s" ?ids "\<lambda>w. w = s_active_workspace_id s"] shell_okD(3) [OF s]
    by fastforce
  let ?next = "nat ((int k + i) mod int (length ?ids))"
  have lt: "?next < length ?ids" using k(2) by (simp add: nat_less_iff)
  then have "?ids ! ?next \<in> set (shell_workspace_ids s)" unfolding ids(1) [symmetric] by (rule nth_mem)
  then show "returns (fst (apply_switch_workspace_relative env i s)) \<and> (snd (apply_switch_workspace_relative env i s) = s \<or>
      (\<exists>j \<in> set (shell_workspace_ids s). snd (apply_switch_workspace_relative env i s) = s\<lparr>s_active_workspace_id := j\<rparr>))"
    using k(1) lt by (auto simp: apply_switch_workspace_relative_def nth_opt_less Let_def simp del: set_map)
qed

section \<open>Creating, closing and renaming\<close>

lemma apply_new_workspace_unfold:
  obtains t l where "apply_new_workspace name launch s =
    (Ok (), s\<lparr>s_workspaces := s_workspaces s @ [workspace_new (s_next_workspace_id s) name [t] (s_next_tab_id s)],
      s_active_workspace_id := s_next_workspace_id s, s_next_workspace_id := sat_add_u64 (s_next_workspace_id s) 1,
      s_next_tab_id := sat_add_u64 (s_next_tab_id s) 1, s_next_pane_id := sat_add_u64 (s_next_pane_id s) 1\<rparr>)"
    and "tab_ok t" and "t_id t = s_next_tab_id s" and "tab_pane_ids t = [s_next_pane_id s]" and "splits_ok (t_panes t)"
proof -
  obtain l where l: "l = (case launch of Some l \<Rightarrow> l | None \<Rightarrow> s_default_launch s)" by blast
  obtain t where t: "tab_new (s_next_tab_id s) [pane_new (s_next_pane_id s) l] = (Ok t :: tab app_result)" "tab_ok t"
    "t_id t = s_next_tab_id s" "tab_pane_ids t = [s_next_pane_id s]" "splits_ok (t_panes t)" using new_pane_tab .
  show thesis
    by (rule that [OF _ t(2-5)])
      (use t(1) l in \<open>simp add: apply_new_workspace_def next_workspace_id_def next_tab_id_def next_pane_id_def\<close>)
qed

interpretation apply_new_workspace: layout_shell_operation "apply_new_workspace name launch" for name launch
proof
  fix s assume s: "shell_ok s"
  obtain t where u: "apply_new_workspace name launch s =
    (Ok (), s\<lparr>s_workspaces := s_workspaces s @ [workspace_new (s_next_workspace_id s) name [t] (s_next_tab_id s)],
      s_active_workspace_id := s_next_workspace_id s, s_next_workspace_id := sat_add_u64 (s_next_workspace_id s) 1,
      s_next_tab_id := sat_add_u64 (s_next_tab_id s) 1, s_next_pane_id := sat_add_u64 (s_next_pane_id s) 1\<rparr>)"
    and t: "tab_ok t" "t_id t = s_next_tab_id s" "tab_pane_ids t = [s_next_pane_id s]" "splits_ok (t_panes t)"
    by (rule apply_new_workspace_unfold)
  show "returns (fst (apply_new_workspace name launch s))" by (simp add: u)
  show "shell_ok (snd (apply_new_workspace name launch s))"
    using s t by (simp add: u shell_ok_def ws_ok_def workspace_new_def)
  show "length (s_workspaces (snd (apply_new_workspace name launch s))) \<le> Suc (length (s_workspaces s))" by (simp add: u)
  show "shell_splits_ok s \<Longrightarrow> shell_splits_ok (snd (apply_new_workspace name launch s))"
    using t(4) by (simp add: u shell_splits_ok_def ws_splits_ok_def workspace_new_def)
  let ?s = "snd (apply_new_workspace name launch s)"
  have ids: "owned_pane_ids ?s = owned_pane_ids s @ [s_next_pane_id s]" "pending_pane_ids ?s = pending_pane_ids s"
    "owned_tab_ids ?s = owned_tab_ids s @ [s_next_tab_id s]" "pending_tab_ids ?s = pending_tab_ids s"
    "shell_workspace_ids ?s = shell_workspace_ids s @ [s_next_workspace_id s]"
    using t(2,3) by (simp_all add: u owned_pane_ids_def pending_pane_ids_def owned_tab_ids_def pending_tab_ids_def
        ws_pane_ids_def workspace_new_def)
  show "id_growth s ?s" unfolding id_growth_def ids
  proof (intro conjI)
    show "grows (owned_pane_ids s) (pending_pane_ids s) (s_next_pane_id s)
        (owned_pane_ids s @ [s_next_pane_id s]) (pending_pane_ids s) (s_next_pane_id ?s)"
      using shell_okD(4) [OF s] by (intro grows_step [of _ "{#s_next_pane_id s#}"]) (auto simp: u)
    show "grows (owned_tab_ids s) (pending_tab_ids s) (s_next_tab_id s)
        (owned_tab_ids s @ [s_next_tab_id s]) (pending_tab_ids s) (s_next_tab_id ?s)"
      using shell_okD(5) [OF s] by (intro grows_step [of _ "{#s_next_tab_id s#}"]) (auto simp: u)
    show "grows (shell_workspace_ids s) [] (s_next_workspace_id s)
        (shell_workspace_ids s @ [s_next_workspace_id s]) [] (s_next_workspace_id ?s)"
      using shell_okD(6) [OF s] by (intro grows_step [of _ "{#s_next_workspace_id s#}"]) (auto simp: u)
  qed
qed

lemma apply_switch_to_workspace_cases:
  "(\<exists>w \<in> set (s_workspaces s). apply_switch_to_workspace env name launch s = (Ok (), s\<lparr>s_active_workspace_id := w_id w\<rparr>)) \<or>
   (\<exists>n. apply_switch_to_workspace env name launch s = apply_new_workspace n launch s) \<or>
   (\<not> length (s_workspaces s) < 2 ^ 128 \<and> apply_switch_to_workspace env name launch s = (Diverge, s))"
proof -
  define g where "g n = (case find (\<lambda>w. w_name w = n) (s_workspaces s) of
    Some w \<Rightarrow> (Ok (), s\<lparr>s_active_workspace_id := w_id w\<rparr>) | None \<Rightarrow> apply_new_workspace n launch s)" for n
  have found: "(\<exists>w \<in> set (s_workspaces s). g n = (Ok (), s\<lparr>s_active_workspace_id := w_id w\<rparr>)) \<or>
      g n = apply_new_workspace n launch s" for n
    by (auto simp: g_def dest: find_SomeD split: option.split)
  have "(\<exists>n. apply_switch_to_workspace env name launch s = g n) \<or>
     (\<not> length (s_workspaces s) < 2 ^ 128 \<and> apply_switch_to_workspace env name launch s = (Diverge, s))"
  proof (cases name)
    case (Some n)
    then show ?thesis by (auto simp: apply_switch_to_workspace_def g_def)
  next
    case None
    have "(\<exists>n. random_workspace_name env s = (Ok n :: str app_result)) \<or>
        (\<not> length (s_workspaces s) < 2 ^ 128 \<and> random_workspace_name env s = (Diverge :: str app_result))"
      using random_workspace_name_Ok [of s env]
        random_name_loop_cases [of "Suc (length (s_workspaces s))" _ "map w_name (s_workspaces s)"]
      by (auto simp: random_workspace_name_def Let_def simp del: random_name_loop.simps)
    then show ?thesis using None by (elim disjE exE) (auto simp: apply_switch_to_workspace_def g_def)
  qed
  with found show ?thesis by metis
qed

interpretation apply_switch_to_workspace: layout_shell_operation "apply_switch_to_workspace env name launch"
  for env name launch
proof
  fix s assume s: "shell_ok s"
  note c = apply_switch_to_workspace_cases [of s env name launch]
  show "shell_ok (snd (apply_switch_to_workspace env name launch s))"
    using c s apply_new_workspace.sop_ok [OF s, of _ launch] by (auto simp: shell_ok_def)
  show "length (s_workspaces s) < 2 ^ 128 \<Longrightarrow> returns (fst (apply_switch_to_workspace env name launch s))"
    using c apply_new_workspace.sop_returns [OF s, of _ launch] by auto
  show "id_growth s (snd (apply_switch_to_workspace env name launch s))"
    using c apply_new_workspace.sop_growth [OF s, of _ launch] by (auto intro: growth_same_content)
  show "length (s_workspaces (snd (apply_switch_to_workspace env name launch s))) \<le> Suc (length (s_workspaces s))"
    using c apply_new_workspace.sop_count [OF s, of _ launch] by auto
  assume "distinct (owned_pane_ids s)" "shell_splits_ok s"
  then show "shell_splits_ok (snd (apply_switch_to_workspace env name launch s))"
    using c apply_new_workspace.sop_splits [OF s, of _ launch] by (auto simp: shell_splits_ok_def)
qed

lemma in_set_remove_nthD: "x \<in> set (remove_nth k xs) \<Longrightarrow> x \<in> set xs"
  using set_remove_nth_subset by (rule subsetD)

lemma apply_close_workspace_cases:
  assumes s: "shell_ok s"
  shows "(\<exists>e. apply_close_workspace i s = (Err e, s)) \<or>
    (\<exists>k a. k < length (s_workspaces s) \<and> a \<in> set (map w_id (remove_nth k (s_workspaces s))) \<and>
      apply_close_workspace i s = (Ok (), s\<lparr>s_workspaces := remove_nth k (s_workspaces s), s_active_workspace_id := a\<rparr>))"
proof (cases "workspace_position s i")
  case (Some k)
  note pos = workspace_position_SomeD [OF Some]
  let ?ws = "remove_nth k (s_workspaces s)"
  show ?thesis
  proof (cases "length (s_workspaces s) \<le> 1")
    case False
    define j where "j = (if k = 0 then 0 else k - 1)"
    have j: "j < length ?ws" using pos False by (auto simp: j_def)
    define a where "a = (if s_active_workspace_id s = i then w_id (?ws ! j) else s_active_workspace_id s)"
    have "a \<in> set (map w_id ?ws)"
      using j set_remove_nth [of k "s_workspaces s"] pos shell_okD(3) [OF s] by (auto simp: a_def)
    moreover have "apply_close_workspace i s = (Ok (), s\<lparr>s_workspaces := ?ws, s_active_workspace_id := a\<rparr>)"
      using Some False j by (cases s) (auto simp: apply_close_workspace_def a_def j_def [symmetric] nth_opt_less)
    ultimately show ?thesis using pos by blast
  qed (simp add: apply_close_workspace_def Some)
qed (simp add: apply_close_workspace_def)

interpretation apply_close_workspace: layout_shell_operation "apply_close_workspace i" for i
proof
  fix s assume s: "shell_ok s"
  note c = apply_close_workspace_cases [OF s, of i]
  have sub: "mset (concat (map f (remove_nth k (s_workspaces s)))) \<subseteq># mset (concat (map f (s_workspaces s)))"
    if "k < length (s_workspaces s)" for k and f :: "workspace \<Rightarrow> nat list"
    using mset_concat_remove [of k "map f (s_workspaces s)"] that
    by (metis length_map map_remove_nth mset_subset_eq_add_left)
  show "returns (fst (apply_close_workspace i s))" using c by auto
  have "\<forall>w \<in> set (remove_nth k (s_workspaces s)). ws_ok w" for k
    using shell_okD(1) [OF s] by (auto dest: in_set_remove_nthD)
  then have "shell_ok (s\<lparr>s_workspaces := remove_nth k (s_workspaces s), s_active_workspace_id := a\<rparr>)"
    if "a \<in> set (map w_id (remove_nth k (s_workspaces s)))" for k a
    using s that by (simp add: shell_ok_def)
  then show "shell_ok (snd (apply_close_workspace i s))" using c s by (auto simp del: set_map)
  show "length (s_workspaces (snd (apply_close_workspace i s))) \<le> Suc (length (s_workspaces s))" using c by auto
  show "shell_splits_ok s \<Longrightarrow> shell_splits_ok (snd (apply_close_workspace i s))"
    using c by (auto simp: shell_splits_ok_def dest!: in_set_remove_nthD)
  show "id_growth s (snd (apply_close_workspace i s))"
    using c
  proof (elim disjE exE conjE)
    fix k a assume k: "k < length (s_workspaces s)"
      and u: "apply_close_workspace i s = (Ok (), s\<lparr>s_workspaces := remove_nth k (s_workspaces s), s_active_workspace_id := a\<rparr>)"
    show ?thesis
      using sub [OF k, of ws_pane_ids] sub [OF k, of ws_tab_ids] mset_remove_nth_subset [of k "shell_workspace_ids s"]
      by (simp add: u id_growth_def owned_pane_ids_def owned_tab_ids_def pending_pane_ids_def pending_tab_ids_def
          grows_shrink map_remove_nth del: mset_concat mset_map set_concat set_map)
  qed simp
qed

interpretation apply_rename_workspace: layout_shell_operation "apply_rename_workspace i n" for i n
proof
  fix s assume s: "shell_ok s"
  have u: "(\<exists>e. apply_rename_workspace i n s = (Err e, s)) \<or> (\<exists>k. k < length (s_workspaces s) \<and>
     apply_rename_workspace i n s = (Ok (), s\<lparr>s_workspaces := (s_workspaces s)[k := (s_workspaces s ! k)\<lparr>w_name := n\<rparr>]\<rparr>))"
    by (auto simp: apply_rename_workspace_def dest: workspace_position_SomeD split: option.split)
  have e: "shell_ok (s\<lparr>s_workspaces := (s_workspaces s)[k := (s_workspaces s ! k)\<lparr>w_name := n\<rparr>]\<rparr>)"
    "local_effect [] [] s (s\<lparr>s_workspaces := (s_workspaces s)[k := (s_workspaces s ! k)\<lparr>w_name := n\<rparr>]\<rparr>)"
    if k: "k < length (s_workspaces s)" for k
    using shell_okD(1) [OF s nth_mem [OF k]]
    by (intro update_workspace_effect [OF s k]; simp add: ws_ok_def ws_pane_ids_def split: option.splits)+
  show "returns (fst (apply_rename_workspace i n s))" using u by auto
  show "shell_ok (snd (apply_rename_workspace i n s))" using u e(1) s by auto
  show "id_growth s (snd (apply_rename_workspace i n s))" using u draws_local_growth [OF s draws_nothing e(2)] by auto
  show "length (s_workspaces (snd (apply_rename_workspace i n s))) \<le> Suc (length (s_workspaces s))" using u by auto
  assume "shell_splits_ok s"
  then have "\<forall>w \<in> set ((s_workspaces s)[k := (s_workspaces s ! k)\<lparr>w_name := n\<rparr>]). ws_splits_ok w"
    if "k < length (s_workspaces s)" for k
    using that by (intro set_list_update_memI) (auto simp: shell_splits_ok_def ws_splits_ok_def)
  with u \<open>shell_splits_ok s\<close> show "shell_splits_ok (snd (apply_rename_workspace i n s))"
    by (auto simp: shell_splits_ok_def)
qed

end
