(* ===== verification/Shell_Dispatch.thy ===== *)
theory Shell_Dispatch
  imports Shell_Workspaces
begin

text \<open>
  \<open>apply_action\<close> as a whole: what holds of every operation holds of every action and of
  every tree of actions built with \<open>Multiple\<close>.
\<close>

section \<open>Measures of an action\<close>

fun action_count :: "app_action \<Rightarrow> nat" where
  "action_count (Multiple actions) = sum_list (map action_count actions)"
| "action_count _ = 1"

fun closes_pane :: "app_action \<Rightarrow> bool" where
  "closes_pane (Multiple actions) = list_ex closes_pane actions"
| "closes_pane (ClosePane pane) = True"
| "closes_pane _ = False"

fun is_multiple :: "app_action \<Rightarrow> bool" where
  "is_multiple (Multiple _) = True"
| "is_multiple _ = False"

definition unsaturated :: "app_shell \<Rightarrow> bool" where
  "unsaturated s \<longleftrightarrow> s_next_pane_id s < u64_max \<and> s_next_tab_id s < u64_max \<and> s_next_workspace_id s < u64_max"

section \<open>Simple actions\<close>

interpretation clear_active_pane_unseen_output: layout_shell_operation clear_active_pane_unseen_output
proof
  fix s assume s: "shell_ok s"
  obtain i where "active_pane_id s = (Ok i :: pane_id app_result)" using active_pane_id_Ok [OF s] .
  then have u: "clear_active_pane_unseen_output s =
      (Ok (), snd (on_owner_tab i (\<lambda>t. set_pane_has_unseen_output t i False) s))"
    by (simp add: clear_active_pane_unseen_output_def case_prod_beta)
  note c = set_pane_has_unseen_output.on_owner.sop_ok [OF s] set_pane_has_unseen_output.on_owner.sop_growth [OF s]
    set_pane_has_unseen_output.on_owner.sop_count [OF s] set_pane_has_unseen_output.on_owner.sop_splits [OF s]
  show "shell_ok (snd (clear_active_pane_unseen_output s))" "returns (fst (clear_active_pane_unseen_output s))"
    "id_growth s (snd (clear_active_pane_unseen_output s))"
    "length (s_workspaces (snd (clear_active_pane_unseen_output s))) \<le> Suc (length (s_workspaces s))"
    "distinct (owned_pane_ids s) \<Longrightarrow> shell_splits_ok s \<Longrightarrow> shell_splits_ok (snd (clear_active_pane_unseen_output s))"
    using c by (simp_all add: u)
qed

lemma clear_active_pane_keeps_workspaces:
  assumes "shell_ok s"
  shows "length (s_workspaces (snd (clear_active_pane_unseen_output s))) = length (s_workspaces s)"
    and "\<exists>s'. clear_active_pane_unseen_output s = (Ok (), s')"
proof -
  obtain i where i: "active_pane_id s = (Ok i :: pane_id app_result)" using active_pane_id_Ok [OF assms] .
  show "length (s_workspaces (snd (clear_active_pane_unseen_output s))) = length (s_workspaces s)"
    using set_pane_has_unseen_output.on_owner_tab_cases [OF assms, of i i False] i
    by (auto simp: clear_active_pane_unseen_output_def)
  show "\<exists>s'. clear_active_pane_unseen_output s = (Ok (), s')"
    using i by (simp add: clear_active_pane_unseen_output_def case_prod_beta)
qed

lemma nop_operation: "layout_shell_operation (\<lambda>s. (Ok (), s))"
  by unfold_locales simp_all

lemmas layout_axioms =
  nop_operation apply_new_tab.layout_shell_operation_axioms apply_spawn_window.layout_shell_operation_axioms
  apply_close_tab.layout_shell_operation_axioms apply_close_tab_with_selection.layout_shell_operation_axioms
  apply_activate_tab.layout_shell_operation_axioms apply_activate_tab_index.layout_shell_operation_axioms
  apply_activate_tab_relative.layout_shell_operation_axioms
  apply_activate_tab_relative_no_wrap.layout_shell_operation_axioms
  apply_activate_last_tab.layout_shell_operation_axioms apply_set_tab_title.layout_shell_operation_axioms
  apply_move_tab.layout_shell_operation_axioms apply_move_tab_relative.layout_shell_operation_axioms
  apply_move_tab_to_new_window.layout_shell_operation_axioms apply_rotate_panes.layout_shell_operation_axioms
  apply_split_pane.layout_shell_operation_axioms apply_split_pane_with_size.layout_shell_operation_axioms
  apply_split_top_level_pane_with_size.layout_shell_operation_axioms
  apply_activate_pane.layout_shell_operation_axioms apply_activate_pane_by_index.layout_shell_operation_axioms
  apply_activate_pane_direction.layout_shell_operation_axioms apply_swap_panes.layout_shell_operation_axioms
  apply_move_pane_to_new_tab.layout_shell_operation_axioms
  apply_move_pane_to_new_window.layout_shell_operation_axioms apply_resize_pane.layout_shell_operation_axioms
  apply_set_pane_zoom_state.layout_shell_operation_axioms apply_toggle_pane_zoom.layout_shell_operation_axioms
  apply_set_pane_current_working_dir.layout_shell_operation_axioms
  apply_set_pane_user_var.layout_shell_operation_axioms apply_set_pane_badge_format.layout_shell_operation_axioms
  apply_set_pane_has_unseen_output.layout_shell_operation_axioms
  apply_set_pane_progress.layout_shell_operation_axioms apply_focus_next_pane.layout_shell_operation_axioms
  apply_focus_previous_pane.layout_shell_operation_axioms apply_switch_workspace.layout_shell_operation_axioms
  apply_switch_workspace_relative_contract apply_switch_to_workspace.layout_shell_operation_axioms
  apply_close_workspace.layout_shell_operation_axioms apply_rename_workspace.layout_shell_operation_axioms
  apply_new_workspace.layout_shell_operation_axioms

lemma simple_action_layout:
  assumes "workspace_sort (env_sort_by_name env)" and "\<not> is_multiple a" and "\<not> closes_pane a"
    and "\<forall>s. f s = apply_simple_action env a s"
  shows "layout_shell_operation f"
  using assms by (cases a; simp flip: fun_eq_iff; intro layout_axioms assms)

lemma simple_action_contract:
  assumes "workspace_sort (env_sort_by_name env)" and "\<not> is_multiple a"
  shows "shell_operation (apply_simple_action env a)"
proof (cases "closes_pane a")
  case False
  with simple_action_layout [OF assms, of "apply_simple_action env a"] show ?thesis
    by (simp add: layout_shell_operation_def)
next
  case True
  with assms(2) obtain i where "a = ClosePane i" by (cases a) auto
  then have "apply_simple_action env a = apply_close_pane i" by (simp add: fun_eq_iff)
  then show ?thesis using apply_close_pane.shell_operation_axioms [of i] by simp
qed

section \<open>All actions\<close>

text \<open>What \<open>n\<close> elementary actions may do to the shell.\<close>

definition good_step :: "nat \<Rightarrow> app_shell \<Rightarrow> 'r app_result \<times> app_shell \<Rightarrow> bool" where
  "good_step n s m \<longleftrightarrow> shell_ok (snd m) \<and> id_growth s (snd m) \<and>
     length (s_workspaces (snd m)) \<le> length (s_workspaces s) + n \<and> returns (fst m)"

lemma good_step_bind:
  assumes "good_step n s m" and "\<And>a s1. m = (Ok a, s1) \<Longrightarrow> shell_ok s1 \<Longrightarrow>
      length (s_workspaces s1) \<le> length (s_workspaces s) + n \<Longrightarrow> good_step k s1 (f a s1)"
  shows "good_step (n + k) s (bind_st m f)"
proof -
  obtain r s1 where m: "m = (r, s1)" by (cases m)
  show ?thesis
  proof (cases r)
    case (Ok a)
    have "shell_ok s1" "length (s_workspaces s1) \<le> length (s_workspaces s) + n" "id_growth s s1"
      using assms(1) by (simp_all add: m good_step_def)
    with assms(2) [of a s1] show ?thesis by (auto simp: m Ok good_step_def intro: id_growth_trans)
  qed (use assms(1) in \<open>auto simp: m good_step_def\<close>)
qed

lemma good_step_finish:
  assumes "good_step n s m"
  shows "good_step n s (finish_action a m)"
proof -
  obtain r s1 where m: "m = (r, s1)" by (cases m)
  have s1: "shell_ok s1" "id_growth s s1" using assms by (simp_all add: m good_step_def)
  obtain s2 where c: "clear_active_pane_unseen_output s1 = (Ok (), s2)" using clear_active_pane_keeps_workspaces(2) [OF s1(1)] ..
  have "shell_ok s2" "id_growth s1 s2" "length (s_workspaces s2) = length (s_workspaces s1)"
    using clear_active_pane_unseen_output.sop_ok [OF s1(1)] clear_active_pane_unseen_output.sop_growth [OF s1(1)]
      clear_active_pane_keeps_workspaces(1) [OF s1(1)] by (simp_all add: c)
  with assms s1 show ?thesis by (auto simp: m finish_action_def c good_step_def intro: id_growth_trans)
qed

declare apply_action.simps [simp del]

lemma env_at_sort [simp]: "env_sort_by_name (env_at i env) = env_sort_by_name env"
  by (simp add: env_at_def)

lemma dispatch_simple: "\<not> is_multiple a \<Longrightarrow> (case a of Multiple as \<Rightarrow> f as | _ \<Rightarrow> x) = x"
  by (cases a) simp_all

lemma action_count_simple: "\<not> is_multiple a \<Longrightarrow> action_count a = 1"
  by (cases a) simp_all

lemma apply_good:
  shows apply_action_good: "workspace_sort (env_sort_by_name env) \<Longrightarrow> shell_ok s \<Longrightarrow>
      length (s_workspaces s) + action_count a \<le> 2 ^ 128 \<Longrightarrow> good_step (action_count a) s (apply_action env a s)"
    and apply_multiple_good: "workspace_sort (env_sort_by_name env) \<Longrightarrow> shell_ok s \<Longrightarrow>
      length (s_workspaces s) + sum_list (map action_count as) \<le> 2 ^ 128 \<Longrightarrow>
      good_step (sum_list (map action_count as)) s (apply_multiple env i as s)"
proof (induction env a s and env i as s rule: apply_action_apply_multiple.induct)
  case (1 env a s)
  show ?case
  proof (cases "is_multiple a")
    case True
    then obtain as where a: "a = Multiple as" by (cases a) auto
    with 1 show ?thesis by (simp add: apply_action.simps good_step_finish)
  next
    case False
    note op = simple_action_contract [OF 1(2) False]
    note n = action_count_simple [OF False]
    then have "length (s_workspaces s) < 2 ^ 128" using 1(4) by linarith
    then have "good_step 1 s (apply_simple_action env a s)"
      using shell_operation.sop_ok [OF op 1(3)] shell_operation.sop_returns [OF op 1(3)]
        shell_operation.sop_growth [OF op 1(3)] shell_operation.sop_count [OF op 1(3)]
      by (simp add: good_step_def)
    then show ?thesis by (simp add: apply_action.simps dispatch_simple [OF False] n good_step_finish)
  qed
next
  case (2 env i s)
  then show ?case by (simp add: good_step_def)
next
  case (3 env i a as s)
  have a: "good_step (action_count a) s (apply_action (env_at i env) a s)"
    by (rule 3(1)) (use 3(3-5) in simp_all)
  show ?case unfolding apply_multiple.simps list.map sum_list.Cons
  proof (rule good_step_bind [OF a])
    fix u s1 assume m: "apply_action (env_at i env) a s = (Ok u, s1)" and s1: "shell_ok s1"
      and len: "length (s_workspaces s1) \<le> length (s_workspaces s) + action_count a"
    have "length (s_workspaces s1) + sum_list (map action_count as) \<le> 2 ^ 128" using len 3(5) by simp
    then show "good_step (sum_list (map action_count as)) s1 (apply_multiple env (Suc i) as s1)"
      by (intro 3(2) 3(3) s1)
  qed
qed

section \<open>Unique identities and sound split trees\<close>

lemma unsaturated_before: "id_growth s s' \<Longrightarrow> unsaturated s' \<Longrightarrow> unsaturated s"
  by (auto simp: id_growth_def grows_def unsaturated_def)

lemma ids_fresh_step: "id_growth s s' \<Longrightarrow> ids_fresh s \<Longrightarrow> unsaturated s' \<Longrightarrow> ids_fresh s'"
  by (auto simp: unsaturated_def intro: ids_fresh_growth)

lemma ids_fresh_distinct: "ids_fresh s \<Longrightarrow> distinct (owned_pane_ids s)"
  by (simp add: ids_fresh_def)

lemma finish_action_splits:
  assumes m: "m = (r, s1)" and s1: "shell_ok s1" "ids_fresh s1" "shell_splits_ok s1"
  shows "shell_splits_ok (snd (finish_action a m))"
proof -
  obtain s2 where c: "clear_active_pane_unseen_output s1 = (Ok (), s2)" using clear_active_pane_keeps_workspaces(2) [OF s1(1)] ..
  with clear_active_pane_unseen_output.sop_splits [OF s1(1) ids_fresh_distinct [OF s1(2)] s1(3)] s1
  show ?thesis by (simp add: m finish_action_def)
qed

lemma finish_action_growth:
  assumes m: "m = (r, s1)" and s1: "shell_ok s1"
  shows "id_growth s1 (snd (finish_action a m))"
proof -
  obtain s2 where c: "clear_active_pane_unseen_output s1 = (Ok (), s2)" using clear_active_pane_keeps_workspaces(2) [OF s1] ..
  with clear_active_pane_unseen_output.sop_growth [OF s1] show ?thesis by (simp add: m finish_action_def)
qed

lemma apply_splits:
  shows apply_action_splits: "workspace_sort (env_sort_by_name env) \<Longrightarrow> shell_ok s \<Longrightarrow>
      length (s_workspaces s) + action_count a \<le> 2 ^ 128 \<Longrightarrow> ids_fresh s \<Longrightarrow> shell_splits_ok s \<Longrightarrow> \<not> closes_pane a \<Longrightarrow>
      unsaturated (snd (apply_action env a s)) \<Longrightarrow> shell_splits_ok (snd (apply_action env a s))"
    and apply_multiple_splits: "workspace_sort (env_sort_by_name env) \<Longrightarrow> shell_ok s \<Longrightarrow>
      length (s_workspaces s) + sum_list (map action_count as) \<le> 2 ^ 128 \<Longrightarrow> ids_fresh s \<Longrightarrow> shell_splits_ok s \<Longrightarrow>
      \<not> list_ex closes_pane as \<Longrightarrow>
      unsaturated (snd (apply_multiple env i as s)) \<Longrightarrow> shell_splits_ok (snd (apply_multiple env i as s))"
proof (induction env a s and env i as s rule: apply_action_apply_multiple.induct)
  case (1 env a s)
  define m where "m = (case a of Multiple as \<Rightarrow> apply_multiple env 0 as s | _ \<Rightarrow> apply_simple_action env a s)"
  obtain r s1 where rs: "m = (r, s1)" by (cases m)
  have fin: "apply_action env a s = finish_action a m" by (simp add: apply_action.simps m_def)
  have s1: "shell_ok s1" "id_growth s s1" "unsaturated s1 \<longrightarrow> shell_splits_ok s1"
  proof (atomize (full), cases "is_multiple a")
    case True
    then obtain as where a: "a = Multiple as" by (cases a) auto
    then show "shell_ok s1 \<and> id_growth s s1 \<and> (unsaturated s1 \<longrightarrow> shell_splits_ok s1)"
      using 1(1) [OF a 1(2,3)] 1(4-7) apply_multiple_good [OF 1(2,3), of as 0] rs
      by (auto simp: m_def good_step_def)
  next
    case False
    have m: "m = apply_simple_action env a s" unfolding m_def by (rule dispatch_simple [OF False])
    note op = simple_action_contract [OF 1(2) False]
    have "shell_splits_ok (snd (apply_simple_action env a s))"
      using layout_shell_operation.sop_splits [OF simple_action_layout [OF 1(2) False 1(7)] 1(3) ids_fresh_distinct [OF 1(5)] 1(6)]
      by blast
    then show "shell_ok s1 \<and> id_growth s s1 \<and> (unsaturated s1 \<longrightarrow> shell_splits_ok s1)"
      using shell_operation.sop_ok [OF op 1(3)] shell_operation.sop_growth [OF op 1(3)] rs m by simp
  qed
  have "unsaturated s1" using unsaturated_before [OF finish_action_growth [OF rs s1(1)]] 1(8) fin by simp
  with s1 ids_fresh_step [OF s1(2) 1(5)] show ?case unfolding fin by (intro finish_action_splits [OF rs]) simp_all
next
  case (3 env i a as s)
  obtain r s1 where rs: "apply_action (env_at i env) a s = (r, s1)" by fastforce
  have bound: "length (s_workspaces s) + action_count a \<le> 2 ^ 128" using 3(5) by simp
  have g: "good_step (action_count a) s (r, s1)"
    using apply_action_good [of "env_at i env" s a] 3(3,4) bound by (simp add: rs)
  then have s1: "shell_ok s1" "id_growth s s1" "length (s_workspaces s1) \<le> length (s_workspaces s) + action_count a"
    by (simp_all add: good_step_def)
  have b2: "length (s_workspaces s1) + sum_list (map action_count as) \<le> 2 ^ 128" using s1(3) 3(5) by simp
  have sp: "unsaturated s1 \<longrightarrow> shell_splits_ok s1" using 3(1) 3(3-8) bound rs by simp
  show ?case
  proof (cases "is_ok r")
    case True
    then obtain u where r: "r = Ok u" by (cases r) auto
    have u: "apply_multiple env i (a # as) s = apply_multiple env (Suc i) as s1" by (simp add: rs r)
    have "unsaturated s1"
      using apply_multiple_good [OF 3(3) s1(1) b2, of "Suc i"] 3(9) unfolding u good_step_def
      by (blast intro: unsaturated_before)
    then show ?thesis using 3(8,9) sp ids_fresh_step [OF s1(2) 3(6)] unfolding u by (intro 3(2) 3(3) s1(1) b2) simp_all
  next
    case False
    then have "apply_multiple env i (a # as) s = (r, s1)" by (cases r) (simp_all add: rs)
    then show ?thesis using 3(9) sp by simp
  qed
qed simp_all

end
