(* ===== verification/Shell_Windows.thy ===== *)
theory Shell_Windows
  imports Shell_Dispatch
begin

text \<open>
  Identities of the windows that wait to be opened. Moving the final tab of a workspace to a new window copies it, so its
  identities are in the workspace and in the window until the host closes the source. No other action makes two of one:
  the panes and the tabs of workspaces and waiting windows together are those of before and those drawn from the counters.
\<close>

section \<open>Growth of all identities\<close>

definition all_tab_ids :: "app_shell \<Rightarrow> tab_id list" where
  "all_tab_ids s = owned_tab_ids s @ pending_tab_ids s"

definition window_growth :: "app_shell \<Rightarrow> app_shell \<Rightarrow> bool" where
  "window_growth s s' \<longleftrightarrow>
     grows (pane_ids s) [] (s_next_pane_id s) (pane_ids s') [] (s_next_pane_id s') \<and>
     grows (all_tab_ids s) [] (s_next_tab_id s) (all_tab_ids s') [] (s_next_tab_id s')"

lemma window_growth_refl [simp]: "window_growth s s"
  by (simp add: window_growth_def)

lemma window_growth_trans: "window_growth s s1 \<Longrightarrow> window_growth s1 s2 \<Longrightarrow> window_growth s s2"
  unfolding window_growth_def by (blast intro: grows_trans)

lemma grows_append:
  assumes "grows own pend n own' pend n'"
  shows "grows (own @ pend) [] n (own' @ pend) [] n'"
  using assms by (auto simp: grows_def intro: subset_mset.add_right_mono [of _ _ "mset pend", THEN subset_mset.order_trans]
      simp: add.assoc add.left_commute [of _ "mset pend"] add.commute [of _ "mset pend"])

text \<open>A step that leaves the waiting windows alone.\<close>

lemma kept_window_growth:
  assumes "id_growth s s'" and "s_pending_windows s' = s_pending_windows s"
  shows "window_growth s s'"
proof -
  have "pending_pane_ids s' = pending_pane_ids s" "pending_tab_ids s' = pending_tab_ids s"
    using assms(2) by (simp_all add: pending_pane_ids_def pending_tab_ids_def)
  then show ?thesis using assms(1) grows_append
    by (simp add: id_growth_def window_growth_def pane_ids_split all_tab_ids_def)
qed

section \<open>Operations that leave the windows alone\<close>

lemma bind_st_windows:
  assumes "s_pending_windows (snd m) = ws" and "\<And>a s. s_pending_windows s = ws \<Longrightarrow> s_pending_windows (snd (f a s)) = ws"
  shows "s_pending_windows (snd (bind_st m f)) = ws"
proof -
  obtain r s where m: "m = (r, s)" by (cases m)
  with assms show ?thesis by (cases r) simp_all
qed

lemma on_active_windows [simp]: "s_pending_windows (snd (on_active_workspace f s)) = s_pending_windows s"
  by (simp add: on_active_workspace_def split: option.split prod.split)

lemma on_owner_windows [simp]: "s_pending_windows (snd (on_owner_tab i f s)) = s_pending_windows s"
  by (simp add: on_owner_tab_def split: option.split prod.split)

lemma new_workspace_windows [simp]: "s_pending_windows (snd (apply_new_workspace name launch s)) = s_pending_windows s"
  unfolding apply_new_workspace_def next_workspace_id_def next_tab_id_def next_pane_id_def Let_def prod.case
  by (rule bind_st_windows) simp_all

lemma new_tab_windows [simp]: "s_pending_windows (snd (apply_new_tab launch s)) = s_pending_windows s"
  unfolding apply_new_tab_def next_tab_id_def next_pane_id_def Let_def prod.case
  by (intro bind_st_windows) simp_all

lemma switch_windows [simp]:
  "s_pending_windows (snd (apply_switch_to_workspace env name launch s)) = s_pending_windows s"
  "s_pending_windows (snd (apply_switch_workspace_relative env k s)) = s_pending_windows s"
  "s_pending_windows (snd (apply_close_workspace i s)) = s_pending_windows s"
proof -
  show "s_pending_windows (snd (apply_switch_to_workspace env name launch s)) = s_pending_windows s"
    unfolding apply_switch_to_workspace_def by (rule bind_st_windows) (simp_all split: option.split)
qed (simp_all add: apply_switch_workspace_relative_def apply_close_workspace_def Let_def split: option.split)

lemma clear_windows [simp]: "s_pending_windows (snd (clear_active_pane_unseen_output s)) = s_pending_windows s"
  unfolding clear_active_pane_unseen_output_def by (rule bind_st_windows) (simp_all add: case_prod_beta)

lemma finish_windows [simp]: "s_pending_windows (snd (finish_action a m)) = s_pending_windows (snd m)"
proof -
  obtain r s where m: "m = (r, s)" by (cases m)
  show ?thesis by (auto simp: m finish_action_def intro: bind_st_windows)
qed

fun opens_window :: "app_action \<Rightarrow> bool" where
  "opens_window (SpawnWindow launch) = True"
| "opens_window (MoveTabToNewWindow tab) = True"
| "opens_window (MovePaneToNewWindow pane) = True"
| "opens_window _ = False"

lemma simple_action_windows:
  "\<not> opens_window a \<Longrightarrow> s_pending_windows (snd (apply_simple_action env a s)) = s_pending_windows s"
  by (cases a) (simp_all add: apply_close_tab_def apply_close_tab_with_selection_def apply_activate_tab_def apply_activate_tab_index_def
    apply_activate_tab_relative_def apply_activate_tab_relative_no_wrap_def apply_activate_last_tab_def apply_set_tab_title_def
    apply_move_tab_def apply_move_tab_relative_def apply_rotate_panes_def apply_split_pane_def apply_split_pane_with_size_def
    apply_split_top_level_pane_with_size_def apply_close_pane_def apply_activate_pane_def apply_activate_pane_by_index_def
    apply_activate_pane_direction_def apply_swap_panes_def apply_move_pane_to_new_tab_def apply_resize_pane_def
    apply_set_pane_zoom_state_def apply_toggle_pane_zoom_def apply_set_pane_current_working_dir_def apply_set_pane_user_var_def
    apply_set_pane_badge_format_def apply_set_pane_has_unseen_output_def apply_set_pane_progress_def apply_focus_next_pane_def
    apply_focus_previous_pane_def apply_switch_workspace_def apply_rename_workspace_def next_pane_id_def next_tab_id_def Let_def
    split: option.split)

section \<open>Operations that open a window\<close>

text \<open>A new window of what was drawn and what the workspaces gave up.\<close>

lemma push_window_whole:
  assumes s: "shell_ok s" and d: "draws ps ts s s1" and windows: "s_pending_windows s2 = s_pending_windows s"
    and counters: "s_next_pane_id s2 = s_next_pane_id s1" "s_next_tab_id s2 = s_next_tab_id s1"
    and panes: "mset (owned_pane_ids s2) + mset (tab_pane_ids (pw_tab pw)) \<subseteq># mset (owned_pane_ids s) + mset ps"
    and tabs: "add_mset (t_id (pw_tab pw)) (mset (owned_tab_ids s2)) \<subseteq># mset (owned_tab_ids s) + mset ts"
  shows "window_growth s (push_window pw s2)"
proof -
  let ?s = "push_window pw s2"
  have own: "mset (pane_ids ?s) = mset (owned_pane_ids s2) + mset (tab_pane_ids (pw_tab pw)) + mset (pending_pane_ids s)"
    "mset (all_tab_ids ?s) = add_mset (t_id (pw_tab pw)) (mset (owned_tab_ids s2)) + mset (pending_tab_ids s)"
    using windows by (simp_all add: pane_ids_split all_tab_ids_def owned_pane_ids_def owned_tab_ids_def pending_pane_ids_def
        pending_tab_ids_def push_window_def)
  have "mset (pane_ids ?s) \<subseteq># mset (pane_ids s) + mset ps" "mset (all_tab_ids ?s) \<subseteq># mset (all_tab_ids s) + mset ts"
    using subset_mset.add_right_mono [OF panes, of "mset (pending_pane_ids s)"] subset_mset.add_right_mono [OF tabs, of "mset (pending_tab_ids s)"]
    unfolding own by (simp_all add: pane_ids_split all_tab_ids_def ac_simps)
  then show ?thesis using d counters shell_okD(4,5) [OF s] unfolding window_growth_def
    by (intro conjI grows_step [of _ "mset ps"] grows_step [of _ "mset ts"]) (auto simp: draws_def push_window_def)
qed

lemma spawn_window_whole:
  assumes s: "shell_ok s"
  shows "window_growth s (snd (apply_spawn_window launch s))"
proof -
  obtain p where "active_pane s = (Ok p :: pane app_result)" using active_pane_Ok [OF s] .
  from resolve_launch_Ok [OF this] obtain l where l: "resolve_launch launch (active_pane s) = (Ok l :: pane_launch app_result)" ..
  obtain t where t: "tab_new (s_next_tab_id s) [pane_new (s_next_pane_id s) l] = (Ok t :: tab app_result)" "tab_ok t"
    "t_id t = s_next_tab_id s" "tab_pane_ids t = [s_next_pane_id s]" "splits_ok (t_panes t)" using new_pane_tab .
  define s1 where "s1 = s\<lparr>s_next_window_id := sat_add_u64 (s_next_window_id s) 1,
    s_next_tab_id := sat_add_u64 (s_next_tab_id s) 1, s_next_pane_id := sat_add_u64 (s_next_pane_id s) 1\<rparr>"
  have d: "draws [s_next_pane_id s] [s_next_tab_id s] s s1" by (simp add: draws_def s1_def)
  obtain w where w: "active_workspace s1 = (Ok w :: workspace app_result)" using active_workspace_Ok [OF draws_ok [OF d s]] .
  let ?pw = "\<lparr>pw_id = s_next_window_id s, pw_workspace_id = w_id w, pw_workspace_name = w_name w, pw_tab = t\<rparr>"
  have "apply_spawn_window launch s = (Ok (), push_window ?pw s1)"
    using l t(1) w by (simp add: apply_spawn_window_def next_window_id_def next_tab_id_def next_pane_id_def s1_def push_window_def)
  moreover have "owned_pane_ids s1 = owned_pane_ids s" "owned_tab_ids s1 = owned_tab_ids s" "s_pending_windows s1 = s_pending_windows s"
    by (simp_all add: s1_def owned_pane_ids_def owned_tab_ids_def)
  ultimately show ?thesis using push_window_whole [OF s d, of s1 ?pw] t(3,4) by (simp del: mset_map)
qed

text \<open>What the active workspace gives up is what it has less.\<close>

lemma given_up:
  assumes "k < length ws" and "mset (f (ws ! k)) = M + mset (f w)"
  shows "mset (concat (map f (ws[k := w]))) + M = mset (concat (map f ws))"
  using mset_concat_update [of k "map f ws" "f w"] assms by (simp add: map_update ac_simps del: mset_concat)

lemma move_pane_whole:
  assumes s: "shell_ok s"
  shows "window_growth s (snd (apply_move_pane_to_new_window i s))"
proof -
  define s1 where "s1 = s\<lparr>s_next_window_id := sat_add_u64 (s_next_window_id s) 1, s_next_tab_id := sat_add_u64 (s_next_tab_id s) 1\<rparr>"
  have d: "draws [] [s_next_tab_id s] s s1" by (simp add: draws_def s1_def)
  let ?f = "\<lambda>w. move_pane_to_new_window w i (s_next_window_id s) (s_next_tab_id s)"
  obtain k where k: "k < length (s_workspaces s1)" "ws_ok (s_workspaces s1 ! k)"
    and r: "on_active_workspace ?f s1 =
      (fst (?f (s_workspaces s1 ! k)), s1\<lparr>s_workspaces := (s_workspaces s1)[k := snd (?f (s_workspaces s1 ! k))]\<rparr>)"
    using move_pane_to_new_window.on_active_workspace_unfold [OF draws_ok [OF d s]] by metis
  have u: "apply_move_pane_to_new_window i s = bind_st (on_active_workspace ?f s1) (\<lambda>pw s. (Ok (), push_window pw s))"
    by (simp add: apply_move_pane_to_new_window_def next_window_id_def next_tab_id_def s1_def push_window_def)
  from move_pane_to_new_window_cases [OF k(2), of i "s_next_window_id s" "s_next_tab_id s"] show ?thesis
  proof (elim disjE exE conjE)
    fix e assume "?f (s_workspaces s1 ! k) = (Err e, s_workspaces s1 ! k)"
    then have "snd (apply_move_pane_to_new_window i s) = s1" by (simp add: u r)
    moreover have "id_growth s s1" by (rule draws_local_growth [OF s d]) (simp add: local_effect_def)
    ultimately show ?thesis by (simp add: kept_window_growth s1_def)
  next
    fix w1 pw assume f: "?f (s_workspaces s1 ! k) = (Ok pw, w1)" and t: "t_id (pw_tab pw) = s_next_tab_id s" "tab_pane_ids (pw_tab pw) = [i]"
      and w1: "ws_tab_ids w1 = ws_tab_ids (s_workspaces s1 ! k)" "mset (ws_pane_ids (s_workspaces s1 ! k)) = add_mset i (mset (ws_pane_ids w1))"
    let ?s2 = "s1\<lparr>s_workspaces := (s_workspaces s1)[k := w1]\<rparr>"
    have "mset (owned_pane_ids ?s2) + {#i#} = mset (owned_pane_ids s)" "mset (owned_tab_ids ?s2) + {#} = mset (owned_tab_ids s)"
      using given_up [OF k(1), of ws_pane_ids "{#i#}" w1] given_up [OF k(1), of ws_tab_ids "{#}" w1] w1
      by (simp_all add: owned_pane_ids_def owned_tab_ids_def s1_def del: mset_concat mset_map)
    then have "window_growth s (push_window pw ?s2)"
      using t by (intro push_window_whole [OF s d]) (simp_all add: s1_def del: mset_map)
    moreover have "snd (apply_move_pane_to_new_window i s) = push_window pw ?s2" by (simp add: u r f)
    ultimately show ?thesis by simp
  qed
qed

text \<open>A tab that is not the last one leaves its workspace.\<close>

lemma released_tab:
  assumes "ws_ok w" and "length (w_tabs w) \<noteq> 1"
  shows "(\<exists>e. release_tab i w = (Err e, w)) \<or>
    (\<exists>t w'. release_tab i w = (Ok t, w') \<and> mset (ws_pane_ids w) = mset (tab_pane_ids t) + mset (ws_pane_ids w') \<and>
       mset (ws_tab_ids w) = {#t_id t#} + mset (ws_tab_ids w'))"
proof -
  have gone: "mset (ws_pane_ids w) = mset (tab_pane_ids (w_tabs w ! k)) + mset (ws_pane_ids w') \<and>
      mset (ws_tab_ids w) = {#t_id (w_tabs w ! k)#} + mset (ws_tab_ids w')" if "tab_removed k w w'" for k w'
  proof -
    have k: "k < length (w_tabs w)" "w_tabs w' = remove_nth k (w_tabs w)" using that by (auto simp: tab_removed_def)
    show ?thesis using ws_pane_ids_remove [OF k(1)] mset_remove_nth [of k "ws_tab_ids w"] k(1)
      by (simp add: ws_pane_ids_def k(2) map_remove_nth add.commute del: mset_concat mset_map)
  qed
  from detach_tab_cases [OF assms(1), of i] assms(2) gone show ?thesis by (fastforce simp: release_tab_def)
qed

lemma move_tab_whole:
  assumes s: "shell_ok s" and w: "active_workspace s = (Ok w :: workspace app_result)" and "length (w_tabs w) \<noteq> 1"
  shows "window_growth s (snd (apply_move_tab_to_new_window i s))"
proof -
  define s1 where "s1 = s\<lparr>s_next_window_id := sat_add_u64 (s_next_window_id s) 1\<rparr>"
  have d: "draws [] [] s s1" by (simp add: draws_def s1_def)
  have w1: "active_workspace s1 = (Ok w :: workspace app_result)" using w by (simp add: active_workspace_def s1_def workspace_position_def)
  then obtain k where k: "workspace_position s1 (s_active_workspace_id s1) = Some k" "k < length (s_workspaces s1)" "w = s_workspaces s1 ! k"
    by (auto simp: active_workspace_def nth_opt_def bind_eq_Some_conv split: option.splits if_splits)
  have wok: "ws_ok w" using shell_okD(1) [OF s, of w] k(2,3) by (simp add: s1_def)
  let ?pw = "\<lambda>t. \<lparr>pw_id = s_next_window_id s, pw_workspace_id = w_id w, pw_workspace_name = w_name w, pw_tab = t\<rparr>"
  have u: "apply_move_tab_to_new_window i s = bind_st (on_active_workspace (release_tab i) s1) (\<lambda>t s. (Ok (), push_window (?pw t) s))"
    using w1 by (simp add: apply_move_tab_to_new_window_def next_window_id_def s1_def push_window_def)
  from released_tab [OF wok assms(3), of i] show ?thesis
  proof (elim disjE exE conjE)
    fix e assume "release_tab i w = (Err e, w)"
    then have "snd (apply_move_tab_to_new_window i s) = s1" using k by (simp add: u on_active_workspace_def)
    moreover have "id_growth s s1" by (rule draws_local_growth [OF s d]) (simp add: local_effect_def)
    ultimately show ?thesis by (simp add: kept_window_growth s1_def)
  next
    fix t w' assume f: "release_tab i w = (Ok t, w')" and t: "mset (ws_pane_ids w) = mset (tab_pane_ids t) + mset (ws_pane_ids w')"
      "mset (ws_tab_ids w) = {#t_id t#} + mset (ws_tab_ids w')"
    let ?s2 = "s1\<lparr>s_workspaces := (s_workspaces s1)[k := w']\<rparr>"
    have "mset (owned_pane_ids ?s2) + mset (tab_pane_ids t) = mset (owned_pane_ids s)" "mset (owned_tab_ids ?s2) + {#t_id t#} = mset (owned_tab_ids s)"
      using given_up [OF k(2), of ws_pane_ids _ w'] given_up [OF k(2), of ws_tab_ids _ w'] t k(3)
      by (simp_all add: owned_pane_ids_def owned_tab_ids_def s1_def del: mset_concat mset_map)
    then have "window_growth s (push_window (?pw t) ?s2)"
      by (intro push_window_whole [OF s d]) (simp_all add: s1_def del: mset_map)
    moreover have "snd (apply_move_tab_to_new_window i s) = push_window (?pw t) ?s2"
      using k f by (simp add: u on_active_workspace_def)
    ultimately show ?thesis by simp
  qed
qed

section \<open>All actions\<close>

text \<open>Whether an action, where it is run, moves the final tab of the active workspace to a new window.\<close>

function copies_tab :: "shell_env \<Rightarrow> app_action \<Rightarrow> app_shell \<Rightarrow> bool"
  and copies_among :: "shell_env \<Rightarrow> nat \<Rightarrow> app_action list \<Rightarrow> app_shell \<Rightarrow> bool" where
  "copies_tab env action s =
     (case action of
        Multiple actions \<Rightarrow> copies_among env 0 actions s
      | MoveTabToNewWindow tab \<Rightarrow> (case active_workspace s :: workspace app_result of Ok w \<Rightarrow> length (w_tabs w) = 1 | _ \<Rightarrow> False)
      | _ \<Rightarrow> False)"
| "copies_among env i [] s = False"
| "copies_among env i (action # actions) s \<longleftrightarrow> copies_tab (env_at i env) action s \<or>
     (case apply_action (env_at i env) action s of (Ok u, s1) \<Rightarrow> copies_among env (Suc i) actions s1 | _ \<Rightarrow> False)"
  by pat_completeness auto

termination
  by (relation "measure (case_sum (\<lambda>(_, a, _). size a) (\<lambda>(_, _, as, _). size_list size as))") auto

declare copies_tab.simps [simp del]

lemma simple_action_whole:
  assumes "workspace_sort (env_sort_by_name env)" and "shell_ok s" and "\<not> is_multiple a" and "\<not> copies_tab env a s"
  shows "window_growth s (snd (apply_simple_action env a s))"
proof (cases "opens_window a")
  case False
  show ?thesis
    by (rule kept_window_growth [OF shell_operation.sop_growth [OF simple_action_contract [OF assms(1,3)] assms(2)] simple_action_windows [OF False]])
next
  case True
  obtain w where w: "active_workspace s = (Ok w :: workspace app_result)" using active_workspace_Ok [OF assms(2)] .
  show ?thesis using True
  proof (cases a)
    case (MoveTabToNewWindow i)
    then have "length (w_tabs w) \<noteq> 1" using assms(4) w by (simp add: copies_tab.simps)
    then show ?thesis using move_tab_whole [OF assms(2) w] MoveTabToNewWindow by simp
  qed (simp_all add: spawn_window_whole [OF assms(2)] move_pane_whole [OF assms(2)])
qed

lemma finish_whole:
  assumes "shell_ok (snd m)" and "window_growth s (snd m)"
  shows "window_growth s (snd (finish_action a m))"
proof -
  obtain r s1 where m: "m = (r, s1)" by (cases m)
  have "id_growth s1 (snd (finish_action a m))" by (rule finish_action_growth [OF m]) (use assms m in simp)
  then have "window_growth s1 (snd (finish_action a m))" by (rule kept_window_growth) (simp add: m)
  with assms(2) show ?thesis by (auto simp: m intro: window_growth_trans)
qed

lemma apply_whole:
  shows apply_action_whole: "workspace_sort (env_sort_by_name env) \<Longrightarrow> shell_ok s \<Longrightarrow>
      length (s_workspaces s) + action_count a \<le> 2 ^ 128 \<Longrightarrow> \<not> copies_tab env a s \<Longrightarrow> window_growth s (snd (apply_action env a s))"
    and apply_multiple_whole: "workspace_sort (env_sort_by_name env) \<Longrightarrow> shell_ok s \<Longrightarrow>
      length (s_workspaces s) + sum_list (map action_count as) \<le> 2 ^ 128 \<Longrightarrow> \<not> copies_among env i as s \<Longrightarrow>
      window_growth s (snd (apply_multiple env i as s))"
proof (induction env a s and env i as s rule: apply_action_apply_multiple.induct)
  case (1 env a s)
  show ?case
  proof (cases "is_multiple a")
    case True
    then obtain as where a: "a = Multiple as" by (cases a) auto
    have "good_step (sum_list (map action_count as)) s (apply_multiple env 0 as s)"
      by (rule apply_multiple_good [OF 1(2,3)]) (use 1(4) a in simp)
    then have "shell_ok (snd (apply_multiple env 0 as s))" by (simp add: good_step_def)
    moreover have "window_growth s (snd (apply_multiple env 0 as s))" using 1(1) [OF a 1(2,3)] 1(4,5) a by (simp add: copies_tab.simps)
    ultimately show ?thesis using finish_whole by (simp add: apply_action.simps a)
  next
    case False
    have "shell_ok (snd (apply_simple_action env a s))"
      by (rule shell_operation.sop_ok [OF simple_action_contract [OF 1(2) False] 1(3)])
    with simple_action_whole [OF 1(2,3) False 1(5)] show ?thesis
      by (simp add: apply_action.simps dispatch_simple [OF False] finish_whole)
  qed
next
  case (3 env i a as s)
  obtain r s1 where rs: "apply_action (env_at i env) a s = (r, s1)" by fastforce
  have bound: "length (s_workspaces s) + action_count a \<le> 2 ^ 128" using 3(5) by simp
  have "good_step (action_count a) s (r, s1)"
    using apply_action_good [of "env_at i env" s a] 3(3,4) bound by (simp add: rs)
  then have s1: "shell_ok s1" "length (s_workspaces s1) + sum_list (map action_count as) \<le> 2 ^ 128"
    using 3(5) by (simp_all add: good_step_def)
  have g: "window_growth s s1" using 3(1) 3(3,4,6) bound rs by simp
  show ?case
  proof (cases r)
    case (Ok u)
    then have "window_growth s1 (snd (apply_multiple env (Suc i) as s1))" using 3(2) [OF 3(3) s1] 3(6) rs by simp
    with g show ?thesis by (simp add: rs Ok) (blast intro: window_growth_trans)
  qed (use g in \<open>simp_all add: rs\<close>)
qed simp_all

lemma whole_distinct:
  assumes "window_growth s s'" and "unsaturated s'" and "ids_fresh s" and "distinct (pane_ids s)" and "distinct (all_tab_ids s)"
  shows "distinct (pane_ids s')" "distinct (all_tab_ids s')"
proof -
  have g: "grows (pane_ids s) [] (s_next_pane_id s) (pane_ids s') [] (s_next_pane_id s')"
    "grows (all_tab_ids s) [] (s_next_tab_id s) (all_tab_ids s') [] (s_next_tab_id s')" using assms(1) by (simp_all add: window_growth_def)
  show "distinct (pane_ids s')" by (rule grows_fresh(1) [OF g(1)]) (use assms(2-4) in \<open>simp_all add: ids_fresh_def unsaturated_def\<close>)
  show "distinct (all_tab_ids s')"
    by (rule grows_fresh(1) [OF g(2)]) (use assms(2,3,5) in \<open>auto simp: ids_fresh_def unsaturated_def all_tab_ids_def\<close>)
qed

end
