(* ===== verification/Reconnect.thy ===== *)
theory Reconnect
  imports Shell_Dispatch
begin

text \<open>
  Duplicating, detaching, importing and reopening tabs
  (\<open>rssh-domain/src/app_shell.rs\<close>, \<open>TabReconnectSnapshot\<close>, \<open>DetachedTab\<close>, \<open>ClosedTabHistory\<close>):
  a snapshot keeps launches and layout by position, so that a tab can be rebuilt with fresh
  identities; a detached tab is renamed into another shell.
\<close>

section \<open>Snapshots\<close>

record pane_reconnect_split =
  rs_source_pane_index :: usize
  rs_direction :: split_direction
  rs_source_size_delta :: i16

record pane_reconnect_snapshot =
  rp_launch :: pane_launch
  rp_split :: "pane_reconnect_split option"

record tab_reconnect_snapshot =
  ts_title :: "str option"
  ts_panes :: "pane_reconnect_snapshot list"
  ts_active_pane_index :: usize
  ts_pane_activation_order :: "usize list"
  ts_zoomed_pane_index :: "usize option"

text \<open>The position of an identity; a later pane with the same identity wins, as in the \<open>HashMap\<close>.\<close>

definition pane_index :: "tab \<Rightarrow> pane_id \<Rightarrow> (usize, 'e) outcome" where
  "pane_index t i =
     (case map_of (rev (zip (tab_pane_ids t) [0..<length (t_panes t)])) i of
        None \<Rightarrow> Panic
      | Some k \<Rightarrow> Ok k)"

definition snapshot_pane :: "tab \<Rightarrow> pane \<Rightarrow> (pane_reconnect_snapshot, 'e) outcome" where
  "snapshot_pane t p =
     (case p_split p of
        None \<Rightarrow> Ok \<lparr>rp_launch = p_launch p, rp_split = None\<rparr>
      | Some split \<Rightarrow>
          map_ok (\<lambda>k. \<lparr>rp_launch = p_launch p,
                       rp_split = Some \<lparr>rs_source_pane_index = k, rs_direction = sp_direction split,
                                        rs_source_size_delta = sp_source_size_delta split\<rparr>\<rparr>)
            (pane_index t (sp_source_pane split)))"

text \<open>\<open>Option::map(f)\<close> followed by \<open>transpose\<close>.\<close>

definition transpose_map :: "('a \<Rightarrow> ('b, 'e) outcome) \<Rightarrow> 'a option \<Rightarrow> ('b option, 'e) outcome" where
  "transpose_map f x = (case x of None \<Rightarrow> Ok None | Some a \<Rightarrow> map_ok Some (f a))"

definition from_tab :: "tab \<Rightarrow> (tab_reconnect_snapshot, 'e) outcome" where
  "from_tab t =
     bind_outcome (collect (snapshot_pane t) (t_panes t)) (\<lambda>panes.
     bind_outcome (pane_index t (t_active_pane_id t)) (\<lambda>active.
     bind_outcome (collect (pane_index t) (t_pane_activation_order t)) (\<lambda>order.
     map_ok (\<lambda>zoomed. \<lparr>ts_title = t_title t, ts_panes = panes, ts_active_pane_index = active,
                       ts_pane_activation_order = order, ts_zoomed_pane_index = zoomed\<rparr>)
       (transpose_map (pane_index t) (t_zoomed_pane_id t)))))"

definition restore_pane ::
    "tab_id \<Rightarrow> pane_id list \<Rightarrow> usize \<times> pane_reconnect_snapshot \<Rightarrow> pane app_result" where
  "restore_pane i new_ids = (\<lambda>(index, p).
     bind_outcome (transpose_map (\<lambda>split.
         case nth_opt new_ids (rs_source_pane_index split) of
           None \<Rightarrow> Err (InvalidTab i)
         | Some source \<Rightarrow> Ok \<lparr>sp_source_pane = source, sp_direction = rs_direction split,
                             sp_source_size_delta = rs_source_size_delta split\<rparr>) (rp_split p)) (\<lambda>split.
       case nth_opt new_ids index of
         None \<Rightarrow> Panic
       | Some pane_id \<Rightarrow> Ok (with_split (pane_new pane_id (rp_launch p)) split)))"

definition nth_panic :: "'a list \<Rightarrow> nat \<Rightarrow> ('a, 'e) outcome" where
  "nth_panic xs k = (case nth_opt xs k of None \<Rightarrow> Panic | Some x \<Rightarrow> Ok x)"

definition from_reconnect_snapshot :: "tab_id \<Rightarrow> tab_reconnect_snapshot \<Rightarrow> pane_id list \<Rightarrow> tab app_result" where
  "from_reconnect_snapshot i snapshot new_ids =
     (if ts_panes snapshot = [] \<or> length (ts_panes snapshot) \<noteq> length new_ids \<or>
         ts_active_pane_index snapshot \<ge> length new_ids \<or>
         list_ex (\<lambda>index. index \<ge> length new_ids) (ts_pane_activation_order snapshot) \<or>
         (case ts_zoomed_pane_index snapshot of None \<Rightarrow> False | Some index \<Rightarrow> index \<ge> length new_ids)
      then Err (InvalidTab i)
      else bind_outcome (collect (restore_pane i new_ids) (enumerate 0 (ts_panes snapshot))) (\<lambda>panes.
           bind_outcome (nth_panic new_ids (ts_active_pane_index snapshot)) (\<lambda>active.
           bind_outcome (collect (nth_panic new_ids) (ts_pane_activation_order snapshot)) (\<lambda>order.
           map_ok (\<lambda>zoomed. \<lparr>t_id = i, t_panes = panes, t_active_pane_id = active,
                             t_pane_activation_order = order, t_zoomed_pane_id = zoomed,
                             t_title = ts_title snapshot\<rparr>)
             (transpose_map (nth_panic new_ids) (ts_zoomed_pane_index snapshot))))))"

section \<open>Renaming\<close>

text \<open>
  \<open>remap_ids\<close>; the caller drops the tab when it fails, so only the renamed tab is returned.
\<close>

definition remap :: "(pane_id \<rightharpoonup> pane_id) \<Rightarrow> pane_id \<Rightarrow> pane_id app_result" where
  "remap pane_id_map i = (case pane_id_map i of None \<Rightarrow> Err (InvalidPane i) | Some j \<Rightarrow> Ok j)"

definition remap_pane :: "(pane_id \<rightharpoonup> pane_id) \<Rightarrow> pane \<Rightarrow> pane app_result" where
  "remap_pane pane_id_map p =
     bind_outcome (remap pane_id_map (p_id p)) (\<lambda>new_id.
       case p_split p of
         None \<Rightarrow> Ok (p\<lparr>p_id := new_id\<rparr>)
       | Some split \<Rightarrow> map_ok (\<lambda>source. p\<lparr>p_id := new_id, p_split := Some (split\<lparr>sp_source_pane := source\<rparr>)\<rparr>)
                         (remap pane_id_map (sp_source_pane split)))"

definition remap_ids :: "tab \<Rightarrow> tab_id \<Rightarrow> (pane_id \<rightharpoonup> pane_id) \<Rightarrow> tab app_result" where
  "remap_ids t new_tab_id pane_id_map =
     bind_outcome (remap pane_id_map (t_active_pane_id t)) (\<lambda>active.
     bind_outcome (collect (remap pane_id_map) (t_pane_activation_order t)) (\<lambda>order.
     bind_outcome (transpose_map (remap pane_id_map) (t_zoomed_pane_id t)) (\<lambda>zoomed.
     map_ok (\<lambda>panes. t\<lparr>t_panes := panes, t_id := new_tab_id, t_active_pane_id := active,
                       t_pane_activation_order := order, t_zoomed_pane_id := zoomed\<rparr>)
       (collect (remap_pane pane_id_map) (t_panes t)))))"

section \<open>Shell operations\<close>

record imported_tab =
  it_tab_id :: tab_id
  it_pane_id_map :: "pane_id \<rightharpoonup> pane_id"

fun draw_pane_ids :: "nat \<Rightarrow> app_shell \<Rightarrow> pane_id list \<times> app_shell" where
  "draw_pane_ids 0 s = ([], s)"
| "draw_pane_ids (Suc n) s =
     (let (i, s) = next_pane_id s; (is, s) = draw_pane_ids n s in (i # is, s))"

definition shell_tab_reconnect_snapshot :: "tab_id \<Rightarrow> app_shell \<Rightarrow> tab_reconnect_snapshot app_result" where
  "shell_tab_reconnect_snapshot tab s =
     bind_outcome (active_workspace s) (\<lambda>w.
       case workspace_tab w tab of None \<Rightarrow> Err (InvalidTab tab) | Some t \<Rightarrow> from_tab t)"

definition restore_tab_snapshot ::
    "tab_reconnect_snapshot \<Rightarrow> usize \<Rightarrow> app_shell \<Rightarrow> tab_id app_result \<times> app_shell" where
  "restore_tab_snapshot snapshot index s =
     (let (tab_id, s) = next_tab_id s;
          (new_ids, s) = draw_pane_ids (length (ts_panes snapshot)) s
      in bind_st (from_reconnect_snapshot tab_id snapshot new_ids, s) (\<lambda>t s.
           on_active_workspace (\<lambda>w. (Ok tab_id, insert_tab w t index)) s))"

definition duplicate_tab :: "tab_id \<Rightarrow> app_shell \<Rightarrow> tab_id app_result \<times> app_shell" where
  "duplicate_tab tab s =
     bind_st (bind_outcome (active_workspace s) (\<lambda>w.
       case tab_position w tab of None \<Rightarrow> Err (InvalidTab tab) | Some index \<Rightarrow> Ok index), s) (\<lambda>index s.
     bind_st (shell_tab_reconnect_snapshot tab s, s) (\<lambda>snapshot s.
       restore_tab_snapshot snapshot (sat_add_usize index 1) s))"

definition shell_detach_tab :: "tab_id \<Rightarrow> app_shell \<Rightarrow> detached_tab app_result \<times> app_shell" where
  "shell_detach_tab tab = on_active_workspace (\<lambda>w. detach_tab w tab)"

definition clone_tab_for_transfer :: "tab_id \<Rightarrow> app_shell \<Rightarrow> detached_tab app_result" where
  "clone_tab_for_transfer tab s =
     bind_outcome (active_workspace s) (\<lambda>w.
       case tab_position w tab of
         None \<Rightarrow> Err (InvalidTab tab)
       | Some index \<Rightarrow> map_ok (\<lambda>t. \<lparr>dt_tab = t, dt_source_index = index\<rparr>) (nth_panic (w_tabs w) index))"

definition import_detached_tab ::
    "detached_tab \<Rightarrow> usize \<Rightarrow> app_shell \<Rightarrow> imported_tab app_result \<times> app_shell" where
  "import_detached_tab detached index s =
     (let (tab_id, s) = next_tab_id s;
          (new_ids, s) = draw_pane_ids (length (t_panes (dt_tab detached))) s;
          pane_id_map = map_of (rev (zip (tab_pane_ids (dt_tab detached)) new_ids))
      in bind_st (remap_ids (dt_tab detached) tab_id pane_id_map, s) (\<lambda>t s.
           on_active_workspace (\<lambda>w. (Ok \<lparr>it_tab_id = tab_id, it_pane_id_map = pane_id_map\<rparr>, insert_tab w t index)) s))"

definition insert_detached_tab :: "detached_tab \<Rightarrow> usize \<Rightarrow> app_shell \<Rightarrow> tab_id app_result \<times> app_shell" where
  "insert_detached_tab detached index s =
     (case import_detached_tab detached index s of (r, s1) \<Rightarrow> (map_ok it_tab_id r, s1))"

definition preserve_tabs :: "u16 \<Rightarrow> u16 \<Rightarrow> u16 \<Rightarrow> u16 \<Rightarrow> tab list \<Rightarrow> (tab list, 'e) outcome" where
  "preserve_tabs oc orows nc nrows tabs = collect (\<lambda>t. tab_preserve_split_layout t oc orows nc nrows) tabs"

definition preserve_split_layout_for_resize ::
    "u16 \<Rightarrow> u16 \<Rightarrow> u16 \<Rightarrow> u16 \<Rightarrow> app_shell \<Rightarrow> (app_shell, 'e) outcome" where
  "preserve_split_layout_for_resize old_columns old_rows new_columns new_rows s =
     (if old_columns = new_columns \<and> old_rows = new_rows then Ok s
      else map_ok (\<lambda>ws. s\<lparr>s_workspaces := ws\<rparr>)
        (collect (\<lambda>w. map_ok (\<lambda>tabs. w\<lparr>w_tabs := tabs\<rparr>)
                       (preserve_tabs old_columns old_rows new_columns new_rows (w_tabs w)))
          (s_workspaces s)))"

section \<open>Recently closed tabs\<close>

record closed_tab_entry =
  ce_snapshot :: tab_reconnect_snapshot
  ce_origin_window_id :: window_id
  ce_origin_workspace_id :: workspace_id
  ce_origin_index :: usize

record closed_tab_history =
  h_capacity :: usize
  h_entries :: "closed_tab_entry list"

definition history_new :: "usize \<Rightarrow> closed_tab_history" where
  "history_new capacity = \<lparr>h_capacity = capacity, h_entries = []\<rparr>"

definition history_set_capacity :: "closed_tab_history \<Rightarrow> usize \<Rightarrow> closed_tab_history" where
  "history_set_capacity h capacity =
     (let excess = length (h_entries h) - capacity
      in h\<lparr>h_capacity := capacity, h_entries := drop excess (h_entries h)\<rparr>)"

definition history_push :: "closed_tab_history \<Rightarrow> closed_tab_entry \<Rightarrow> closed_tab_history" where
  "history_push h entry =
     (if h_capacity h = 0 then h
      else let excess = sat_add_usize (length (h_entries h)) 1 - h_capacity h
           in h\<lparr>h_entries := drop excess (h_entries h) @ [entry]\<rparr>)"

definition history_pop :: "closed_tab_history \<Rightarrow> closed_tab_entry option \<times> closed_tab_history" where
  "history_pop h =
     (if h_entries h = [] then (None, h)
      else (Some (last (h_entries h)), h\<lparr>h_entries := butlast (h_entries h)\<rparr>))"

end
