(* ===== verification/Reconnect_Laws.thy ===== *)
theory Reconnect_Laws
  imports Reconnect
begin

text \<open>
  Snapshots and renaming: when a snapshot can be taken, that restoring it with fresh
  identities gives a tab with the same snapshot, and that renaming a detached tab keeps its
  layout and metadata.
\<close>

section \<open>Specification\<close>

definition split_refs_in :: "tab \<Rightarrow> bool" where
  "split_refs_in t \<longleftrightarrow> (\<forall>p \<in> set (t_panes t). case split_source p of None \<Rightarrow> True | Some i \<Rightarrow> i \<in> set (tab_pane_ids t))"

definition idx :: "tab \<Rightarrow> pane_id \<Rightarrow> nat" where
  "idx t i = the (pane_position t i)"

definition snap_of :: "tab \<Rightarrow> tab_reconnect_snapshot" where
  "snap_of t = \<lparr>ts_title = t_title t,
     ts_panes = map (\<lambda>p. \<lparr>rp_launch = p_launch p, rp_split = map_option (\<lambda>sp. \<lparr>rs_source_pane_index = idx t (sp_source_pane sp),
        rs_direction = sp_direction sp, rs_source_size_delta = sp_source_size_delta sp\<rparr>) (p_split p)\<rparr>) (t_panes t),
     ts_active_pane_index = idx t (t_active_pane_id t), ts_pane_activation_order = map (idx t) (t_pane_activation_order t),
     ts_zoomed_pane_index = map_option (idx t) (t_zoomed_pane_id t)\<rparr>"

text \<open>A snapshot that some tab satisfying the invariant could have produced.\<close>

definition snap_ok :: "tab_reconnect_snapshot \<Rightarrow> bool" where
  "snap_ok snap \<longleftrightarrow> (let n = length (ts_panes snap); order = ts_pane_activation_order snap in
     ts_active_pane_index snap < n \<and> (\<forall>k \<in> set order. k < n) \<and> distinct order \<and> order \<noteq> [] \<and>
     last order = ts_active_pane_index snap \<and>
     (ts_zoomed_pane_index snap = None \<or> ts_zoomed_pane_index snap = Some (ts_active_pane_index snap)) \<and>
     (\<forall>p \<in> set (ts_panes snap). case rp_split p of None \<Rightarrow> True | Some sp \<Rightarrow> rs_source_pane_index sp < n))"

definition tab_of :: "tab_id \<Rightarrow> tab_reconnect_snapshot \<Rightarrow> pane_id list \<Rightarrow> tab" where
  "tab_of i snap new = \<lparr>t_id = i,
     t_panes = map (\<lambda>(k, p). with_split (pane_new (new ! k) (rp_launch p))
        (map_option (\<lambda>sp. \<lparr>sp_source_pane = new ! rs_source_pane_index sp, sp_direction = rs_direction sp,
           sp_source_size_delta = rs_source_size_delta sp\<rparr>) (rp_split p))) (enumerate 0 (ts_panes snap)),
     t_active_pane_id = new ! ts_active_pane_index snap,
     t_pane_activation_order = map (nth new) (ts_pane_activation_order snap),
     t_zoomed_pane_id = map_option (nth new) (ts_zoomed_pane_index snap), t_title = ts_title snap\<rparr>"

section \<open>Taking a snapshot\<close>

lemma pane_index_distinct:
  assumes "distinct (tab_pane_ids t)" and "k < length (t_panes t)" and "p_id (t_panes t ! k) = i"
  shows "pane_index t i = Ok k"
proof -
  let ?z = "zip (tab_pane_ids t) [0..<length (t_panes t)]"
  have "(i, k) \<in> set ?z" using assms(2,3) by (force simp: in_set_zip)
  moreover have "distinct (map fst (rev ?z))" using assms(1) by (simp add: rev_map [symmetric])
  ultimately have "map_of (rev ?z) i = Some k" by (intro map_of_is_SomeI) simp_all
  then show ?thesis by (simp add: pane_index_def)
qed

lemma pane_index_notin: "i \<notin> set (tab_pane_ids t) \<Longrightarrow> pane_index t i = Panic"
proof -
  let ?z = "zip (tab_pane_ids t) [0..<length (t_panes t)]"
  assume "i \<notin> set (tab_pane_ids t)"
  then have "i \<notin> fst ` set (rev ?z)" by (auto dest: set_zip_leftD)
  then have "map_of (rev ?z) i = None" unfolding map_of_eq_None_iff .
  then show ?thesis by (simp add: pane_index_def)
qed

lemma idx_bound: "i \<in> set (tab_pane_ids t) \<Longrightarrow> idx t i < length (t_panes t) \<and> p_id (t_panes t ! idx t i) = i"
  using pane_position_ex [of i t] pane_position_SomeD [of t i] by (auto simp: idx_def)

lemma pane_index_idx: "distinct (tab_pane_ids t) \<Longrightarrow> i \<in> set (tab_pane_ids t) \<Longrightarrow> pane_index t i = Ok (idx t i)"
  using idx_bound [of i t] by (intro pane_index_distinct) auto

lemma idx_inj: "i \<in> set (tab_pane_ids t) \<Longrightarrow> j \<in> set (tab_pane_ids t) \<Longrightarrow> idx t i = idx t j \<Longrightarrow> i = j"
  by (metis idx_bound)

lemma transpose_map_Ok: "(\<And>a. x = Some a \<Longrightarrow> f a = Ok (g a)) \<Longrightarrow> transpose_map f x = Ok (map_option g x)"
  by (cases x) (simp_all add: transpose_map_def)

lemma split_refs_inD:
  "split_refs_in t \<Longrightarrow> p \<in> set (t_panes t) \<Longrightarrow> p_split p = Some sp \<Longrightarrow> sp_source_pane sp \<in> set (tab_pane_ids t)"
  unfolding split_refs_in_def split_source_def by fastforce

lemma from_tab_Ok:
  assumes "tab_ok t" and d: "distinct (tab_pane_ids t)" and r: "split_refs_in t"
  shows "from_tab t = (Ok (snap_of t) :: (_, 'a) outcome)"
proof -
  note pi = pane_index_idx [OF d]
  have panes: "collect (snapshot_pane t) (t_panes t) = (Ok (ts_panes (snap_of t)) :: (_, 'a) outcome)"
    unfolding snap_of_def tab_reconnect_snapshot.select_convs
  proof (rule collect_Ok)
    fix p assume p: "p \<in> set (t_panes t)"
    show "snapshot_pane t p = Ok \<lparr>rp_launch = p_launch p, rp_split = map_option (\<lambda>sp. \<lparr>rs_source_pane_index =
        idx t (sp_source_pane sp), rs_direction = sp_direction sp, rs_source_size_delta = sp_source_size_delta sp\<rparr>) (p_split p)\<rparr>"
      by (cases "p_split p") (simp_all add: snapshot_pane_def pi [OF split_refs_inD [OF r p]])
  qed
  have active: "pane_index t (t_active_pane_id t) = Ok (idx t (t_active_pane_id t))" by (rule pi [OF tab_okD(1) [OF assms(1)]])
  have order: "collect (pane_index t) (t_pane_activation_order t) = Ok (map (idx t) (t_pane_activation_order t))"
    using tab_okD(3) [OF assms(1)] by (intro collect_Ok pi) blast
  have zoom: "transpose_map (pane_index t) (t_zoomed_pane_id t) = Ok (map_option (idx t) (t_zoomed_pane_id t))"
    using tab_okD(1,5) [OF assms(1)] by (intro transpose_map_Ok pi) auto
  show "from_tab t = (Ok (snap_of t) :: (_, 'a) outcome)"
    by (simp add: from_tab_def panes active order zoom) (simp add: snap_of_def)
qed

lemma collect_Panic: "x \<in> set xs \<Longrightarrow> f x = Panic \<Longrightarrow> (\<And>y. y \<in> set xs \<Longrightarrow> \<exists>z. f y = Ok z \<or> f y = Panic) \<Longrightarrow> collect f xs = Panic"
proof (induction xs)
  case (Cons y ys)
  have "\<exists>z. f y = Ok z \<or> f y = Panic" using Cons.prems(3) by simp
  then obtain z where "f y = Ok z \<or> f y = Panic" ..
  then show ?case
  proof
    assume "f y = Ok z"
    with Cons show ?thesis by auto
  qed simp
qed simp

text \<open>A split that refers to a pane that is gone makes the snapshot panic.\<close>

lemma from_tab_Panic:
  assumes "\<not> split_refs_in t"
  shows "from_tab t = (Panic :: (_, 'e) outcome)"
proof -
  from assms obtain p sp where p: "p \<in> set (t_panes t)" "p_split p = Some sp" "sp_source_pane sp \<notin> set (tab_pane_ids t)"
    by (auto simp: split_refs_in_def split_source_def split: option.splits)
  have "collect (snapshot_pane t) (t_panes t) = (Panic :: (_, 'e) outcome)"
  proof (rule collect_Panic [OF p(1)])
    show "snapshot_pane t p = Panic" by (simp add: snapshot_pane_def p(2) pane_index_notin [OF p(3)])
    show "\<exists>z. snapshot_pane t q = Ok z \<or> snapshot_pane t q = Panic" for q
      by (auto simp: snapshot_pane_def pane_index_def split: option.split)
  qed
  then show ?thesis by (simp add: from_tab_def)
qed

lemma snap_of_ok:
  assumes t: "tab_ok t" and r: "split_refs_in t"
  shows "snap_ok (snap_of t)"
proof -
  have b: "idx t i < length (t_panes t)" if "i \<in> set (tab_pane_ids t)" for i using idx_bound [OF that] by simp
  have sub: "set (t_pane_activation_order t) \<subseteq> set (tab_pane_ids t)" by (rule tab_okD(3) [OF t])
  have "inj_on (idx t) (set (t_pane_activation_order t))" using sub idx_inj by (meson inj_onI subsetD)
  then have "distinct (map (idx t) (t_pane_activation_order t))" using tab_okD(4) [OF t] by (simp add: distinct_map)
  moreover have "last (map (idx t) (t_pane_activation_order t)) = idx t (t_active_pane_id t)"
    using t by (simp add: tab_ok_def last_map)
  moreover have "\<forall>p \<in> set (ts_panes (snap_of t)). case rp_split p of None \<Rightarrow> True | Some sp \<Rightarrow> rs_source_pane_index sp < length (t_panes t)"
    using b split_refs_inD [OF r] by (auto simp: snap_of_def split: option.split)
  moreover have "\<forall>k \<in> set (map (idx t) (t_pane_activation_order t)). k < length (t_panes t)" using b sub by auto
  ultimately show ?thesis using b [OF tab_okD(1) [OF t]] t
    by (auto simp: snap_ok_def Let_def snap_of_def tab_ok_def)
qed

section \<open>Restoring\<close>

lemma collect_map: "collect f (map h xs) = collect (\<lambda>x. f (h x)) xs"
  by (induction xs) simp_all

lemma map_snd_enumerate: "map snd (enumerate n xs) = xs"
  by (simp add: enumerate_eq_zip)

lemma in_enumerate: "kp \<in> set (enumerate 0 xs) \<Longrightarrow> \<exists>k p. kp = (k, p) \<and> k < length xs \<and> p \<in> set xs"
  by (rule exI [of _ "fst kp"], rule exI [of _ "snd kp"]) (use nth_mem [of "fst kp" xs] in \<open>simp add: in_set_enumerate_eq\<close>)

lemma restore_Ok:
  assumes s: "snap_ok snap" and len: "length new = length (ts_panes snap)"
  shows "from_reconnect_snapshot i snap new = Ok (tab_of i snap new)"
proof -
  have ok: "ts_active_pane_index snap < length new" "\<forall>k \<in> set (ts_pane_activation_order snap). k < length new"
    "\<And>z. ts_zoomed_pane_index snap = Some z \<Longrightarrow> z < length new"
    "\<And>p sp. p \<in> set (ts_panes snap) \<Longrightarrow> rp_split p = Some sp \<Longrightarrow> rs_source_pane_index sp < length new"
    using s len by (fastforce simp: snap_ok_def Let_def)+
  have panes: "collect (restore_pane i new) (enumerate 0 (ts_panes snap)) = Ok (t_panes (tab_of i snap new))"
    unfolding tab_of_def tab.select_convs
  proof (rule collect_Ok)
    fix kp assume "kp \<in> set (enumerate 0 (ts_panes snap))"
    then obtain k p where kp: "kp = (k, p)" "k < length new" "p \<in> set (ts_panes snap)"
      by (metis in_enumerate len)
    show "restore_pane i new kp = Ok (case kp of (k, p) \<Rightarrow> with_split (pane_new (new ! k) (rp_launch p))
        (map_option (\<lambda>sp. \<lparr>sp_source_pane = new ! rs_source_pane_index sp, sp_direction = rs_direction sp,
           sp_source_size_delta = rs_source_size_delta sp\<rparr>) (rp_split p)))"
      using kp(2) ok(4) [OF kp(3)] by (cases "rp_split p") (simp_all add: kp(1) restore_pane_def transpose_map_def nth_opt_def)
  qed
  have order: "collect (nth_panic new) (ts_pane_activation_order snap) = (Ok (map (nth new) (ts_pane_activation_order snap)) :: pane_id list app_result)"
    using ok(2) by (intro collect_Ok) (simp add: nth_panic_def nth_opt_def)
  have active: "nth_panic new (ts_active_pane_index snap) = (Ok (new ! ts_active_pane_index snap) :: pane_id app_result)"
    using ok(1) by (simp add: nth_panic_def nth_opt_def)
  have zoom: "transpose_map (nth_panic new) (ts_zoomed_pane_index snap) = (Ok (map_option (nth new) (ts_zoomed_pane_index snap)) :: pane_id option app_result)"
    using ok(3) by (intro transpose_map_Ok) (simp add: nth_panic_def nth_opt_def)
  have "ts_panes snap \<noteq> []" using ok(1) len by auto
  moreover have "\<not> list_ex (\<lambda>index. length new \<le> index) (ts_pane_activation_order snap)"
    using ok(2) by (auto simp: list_ex_iff)
  moreover have "\<not> (case ts_zoomed_pane_index snap of None \<Rightarrow> False | Some index \<Rightarrow> length new \<le> index)"
    using ok(3) by (simp add: not_le split: option.split)
  ultimately show ?thesis
    using ok(1) len by (simp add: from_reconnect_snapshot_def panes order active zoom) (simp add: tab_of_def)
qed

lemma tab_of_fields:
  "t_panes (tab_of i snap new) = map (\<lambda>(k, p). with_split (pane_new (new ! k) (rp_launch p))
     (map_option (\<lambda>sp. \<lparr>sp_source_pane = new ! rs_source_pane_index sp, sp_direction = rs_direction sp,
        sp_source_size_delta = rs_source_size_delta sp\<rparr>) (rp_split p))) (enumerate 0 (ts_panes snap))"
  "t_pane_activation_order (tab_of i snap new) = map (nth new) (ts_pane_activation_order snap)"
  by (simp_all add: tab_of_def)

lemma tab_of_ids: "length new = length (ts_panes snap) \<Longrightarrow> tab_pane_ids (tab_of i snap new) = new"
  by (rule nth_equalityI) (simp_all add: tab_of_def case_prod_beta nth_enumerate_eq)

lemma tab_of_ok:
  assumes s: "snap_ok snap" and len: "length new = length (ts_panes snap)" and d: "distinct new"
  shows "tab_ok (tab_of i snap new)"
proof -
  have "inj_on (nth new) {..<length new}" using d by (auto intro: inj_on_nth)
  moreover have "set (ts_pane_activation_order snap) \<subseteq> {..<length new}" using s len by (auto simp: snap_ok_def Let_def)
  ultimately have "distinct (map (nth new) (ts_pane_activation_order snap))"
    using s by (auto simp: distinct_map snap_ok_def Let_def intro: inj_on_subset)
  then show ?thesis unfolding tab_ok_def tab_of_ids [OF len]
    using s len by (auto simp: tab_of_def snap_ok_def Let_def last_map)
qed

text \<open>Restoring a snapshot with fresh identities gives a tab with the same snapshot.\<close>

lemma snapshot_roundtrip:
  assumes s: "snap_ok snap" and len: "length new = length (ts_panes snap)" and d: "distinct new"
  shows "from_tab (tab_of i snap new) = (Ok snap :: (_, 'e) outcome)"
proof -
  let ?t = "tab_of i snap new"
  have pi: "pane_index ?t (new ! k) = (Ok k :: (_, 'e) outcome)" if "k < length new" for k
  proof (rule pane_index_distinct)
    show "distinct (tab_pane_ids ?t)" by (simp only: tab_of_ids [OF len] d)
    show "k < length (t_panes ?t)" using that tab_of_ids [OF len, of i] by (metis length_map)
    then show "p_id (t_panes ?t ! k) = new ! k" using tab_of_ids [OF len, of i] by (metis nth_map)
  qed
  have ok: "ts_active_pane_index snap < length new" "\<forall>k \<in> set (ts_pane_activation_order snap). k < length new"
    "\<And>z. ts_zoomed_pane_index snap = Some z \<Longrightarrow> z < length new"
    "\<And>p sp. p \<in> set (ts_panes snap) \<Longrightarrow> rp_split p = Some sp \<Longrightarrow> rs_source_pane_index sp < length new"
    using s len by (fastforce simp: snap_ok_def Let_def)+
  have "collect (snapshot_pane ?t) (t_panes ?t) = (Ok (map snd (enumerate 0 (ts_panes snap))) :: (_, 'e) outcome)"
    unfolding tab_of_fields collect_map
  proof (rule collect_Ok)
    fix kp assume "kp \<in> set (enumerate 0 (ts_panes snap))"
    then obtain k p where kp: "kp = (k, p)" "p \<in> set (ts_panes snap)" by (metis in_enumerate)
    show "snapshot_pane ?t (case kp of (k, p) \<Rightarrow> with_split (pane_new (new ! k) (rp_launch p))
        (map_option (\<lambda>sp. \<lparr>sp_source_pane = new ! rs_source_pane_index sp, sp_direction = rs_direction sp,
           sp_source_size_delta = rs_source_size_delta sp\<rparr>) (rp_split p))) = (Ok (snd kp) :: (_, 'e) outcome)"
      using pi [OF ok(4) [OF kp(2)]] by (cases "rp_split p") (simp_all add: kp(1) snapshot_pane_def)
  qed
  then have panes: "collect (snapshot_pane ?t) (t_panes ?t) = (Ok (ts_panes snap) :: (_, 'e) outcome)"
    by (simp only: map_snd_enumerate)
  have order: "collect (pane_index ?t) (t_pane_activation_order ?t) = (Ok (map id (ts_pane_activation_order snap)) :: (_, 'e) outcome)"
    unfolding tab_of_fields collect_map using ok(2) pi by (intro collect_Ok) simp
  have zoom: "transpose_map (pane_index ?t) (t_zoomed_pane_id ?t) = (Ok (ts_zoomed_pane_index snap) :: (_, 'e) outcome)"
    using pi ok(3) by (cases "ts_zoomed_pane_index snap") (simp_all add: transpose_map_def tab_of_def)
  have "t_active_pane_id ?t = new ! ts_active_pane_index snap" "t_title ?t = ts_title snap" by (simp_all add: tab_of_def)
  then show ?thesis by (simp add: from_tab_def panes order zoom pi [OF ok(1)])
qed

section \<open>Renaming\<close>

definition rename_tab :: "(pane_id \<Rightarrow> pane_id) \<Rightarrow> tab_id \<Rightarrow> tab \<Rightarrow> tab" where
  "rename_tab f i t = t\<lparr>t_panes := map (\<lambda>p. p\<lparr>p_id := f (p_id p),
       p_split := map_option (\<lambda>sp. sp\<lparr>sp_source_pane := f (sp_source_pane sp)\<rparr>) (p_split p)\<rparr>) (t_panes t),
     t_id := i, t_active_pane_id := f (t_active_pane_id t),
     t_pane_activation_order := map f (t_pane_activation_order t), t_zoomed_pane_id := map_option f (t_zoomed_pane_id t)\<rparr>"

lemma remap_ids_Ok:
  assumes t: "tab_ok t" and r: "split_refs_in t" and m: "\<And>i. i \<in> set (tab_pane_ids t) \<Longrightarrow> m i = Some (f i)"
  shows "remap_ids t n m = Ok (rename_tab f n t)"
proof -
  have rm: "remap m i = Ok (f i)" if "i \<in> set (tab_pane_ids t)" for i
    using m [OF that] by (simp add: remap_def)
  have order: "collect (remap m) (t_pane_activation_order t) = Ok (map f (t_pane_activation_order t))"
    using tab_okD(3) [OF t] by (intro collect_Ok rm) blast
  have zoom: "transpose_map (remap m) (t_zoomed_pane_id t) = Ok (map_option f (t_zoomed_pane_id t))"
    using tab_okD(1,5) [OF t] by (intro transpose_map_Ok rm) auto
  have panes: "collect (remap_pane m) (t_panes t) = Ok (t_panes (rename_tab f n t))"
    unfolding rename_tab_def
  proof (simp, rule collect_Ok)
    fix p assume p: "p \<in> set (t_panes t)"
    then have "p_id p \<in> set (tab_pane_ids t)" by simp
    note rm_p = rm [OF this]
    show "remap_pane m p = Ok (p\<lparr>p_id := f (p_id p),
        p_split := map_option (\<lambda>sp. sp\<lparr>sp_source_pane := f (sp_source_pane sp)\<rparr>) (p_split p)\<rparr>)"
      by (cases "p_split p") (simp_all add: remap_pane_def rm_p rm [OF split_refs_inD [OF r p]])
  qed
  show ?thesis
    by (simp add: remap_ids_def rm [OF tab_okD(1) [OF t]] order zoom panes) (simp add: rename_tab_def)
qed

lemma rename_tab_ids: "tab_pane_ids (rename_tab f i t) = map f (tab_pane_ids t)"
  by (simp add: rename_tab_def)

lemma rename_tab_ok:
  assumes t: "tab_ok t" and inj: "inj_on f (set (tab_pane_ids t))"
  shows "tab_ok (rename_tab f i t)"
proof -
  have "distinct (map f (t_pane_activation_order t))"
    using tab_okD(3,4) [OF t] inj by (auto simp: distinct_map intro: inj_on_subset)
  then show ?thesis unfolding tab_ok_def rename_tab_ids
    using t by (auto simp: rename_tab_def tab_ok_def last_map)
qed

lemma rename_tab_splits:
  assumes "splits_ok (t_panes t)"
  shows "splits_ok (t_panes (rename_tab f i t))"
proof -
  have "map split_source (t_panes (rename_tab f i t)) = map (map_option f) (map split_source (t_panes t))"
    by (simp add: rename_tab_def split_source_def option.map_comp comp_def)
  then show ?thesis using assms unfolding splits_ok_def rename_tab_ids
    by (simp only:) (rule refs_ok_rename, assumption, auto simp: take_map)
qed

lemma splits_refs_in: "splits_ok (t_panes t) \<Longrightarrow> split_refs_in t"
  unfolding split_refs_in_def
proof
  fix p assume s: "splits_ok (t_panes t)" and "p \<in> set (t_panes t)"
  then obtain k where k: "k < length (t_panes t)" "t_panes t ! k = p" by (auto simp: in_set_conv_nth)
  show "case split_source p of None \<Rightarrow> True | Some i \<Rightarrow> i \<in> set (tab_pane_ids t)"
  proof (cases "split_source p")
    case (Some i)
    with refs_okD [OF s [unfolded splits_ok_def], of k i] k have "i \<in> set (take k (tab_pane_ids t))" by simp
    then show ?thesis using Some by (auto dest: in_set_takeD)
  qed simp
qed

section \<open>Drawing many identities\<close>

lemma draw_pane_ids_fields:
  assumes "draw_pane_ids n s = (is, s')"
  shows "length is = n" "s' = s\<lparr>s_next_pane_id := s_next_pane_id s'\<rparr>"
    and "s_next_pane_id s \<le> u64_max \<Longrightarrow> s_next_pane_id s \<le> s_next_pane_id s' \<and> s_next_pane_id s' \<le> u64_max"
    and "s_next_pane_id s' < u64_max \<Longrightarrow> s_next_pane_id s \<le> u64_max \<Longrightarrow> is = [s_next_pane_id s..<s_next_pane_id s']"
  using assms
proof (atomize (full), induction n arbitrary: s "is" s')
  case (Suc n)
  let ?s1 = "s\<lparr>s_next_pane_id := sat_add_u64 (s_next_pane_id s) 1\<rparr>"
  obtain js where d: "draw_pane_ids n ?s1 = (js, s')" and i: "is = s_next_pane_id s # js"
    using Suc.prems by (auto simp: next_pane_id_def split: prod.splits)
  note IH = Suc.IH [OF d]
  have mono: "s_next_pane_id s \<le> u64_max \<Longrightarrow> s_next_pane_id s \<le> sat_add_u64 (s_next_pane_id s) 1"
    by (rule sat_add_u64_ge)
  have "is = [s_next_pane_id s..<s_next_pane_id s']" if b: "s_next_pane_id s' < u64_max" "s_next_pane_id s \<le> u64_max"
  proof -
    have le: "sat_add_u64 (s_next_pane_id s) 1 \<le> s_next_pane_id s'" using IH by simp
    then have "sat_add_u64 (s_next_pane_id s) 1 = s_next_pane_id s + 1" using b(1) by (intro sat_add_u64_exact) simp
    moreover have "js = [sat_add_u64 (s_next_pane_id s) 1..<s_next_pane_id s']" using IH b by simp
    ultimately show ?thesis using le i by (simp add: upt_conv_Cons)
  qed
  moreover have "length is = Suc n" using IH i by simp
  moreover have "s' = s\<lparr>s_next_pane_id := s_next_pane_id s'\<rparr>" using IH by simp
  moreover have "s_next_pane_id s \<le> u64_max \<longrightarrow> s_next_pane_id s \<le> s_next_pane_id s' \<and> s_next_pane_id s' \<le> u64_max"
    using IH mono by (auto intro: order_trans)
  ultimately show ?case by blast
qed simp

lemma insert_drawn_tab:
  fixes x :: 'r and k :: nat
  assumes s: "shell_ok s" and dr: "draw_pane_ids n (snd (next_tab_id s)) = (is, s1)"
    and t: "tab_ok t" "t_id t = s_next_tab_id s" "tab_pane_ids t = is"
  defines "m \<equiv> on_active_workspace (\<lambda>w. (Ok x, insert_tab w t k)) s1"
  shows "shell_ok s1" and "shell_ok (snd m)" and "fst m = Ok x" and "id_growth s (snd m)"
    and "s_next_pane_id (snd m) = s_next_pane_id s1"
    and "shell_splits_ok s \<Longrightarrow> splits_ok (t_panes t) \<Longrightarrow> shell_splits_ok (snd m)"
proof -
  let ?s0 = "snd (next_tab_id s)"
  note f = draw_pane_ids_fields [OF dr]
  have s1: "s1 = s\<lparr>s_next_tab_id := sat_add_u64 (s_next_tab_id s) 1, s_next_pane_id := s_next_pane_id s1\<rparr>"
    using f(2) by (simp add: next_tab_id_def)
  have next_p: "s_next_pane_id s \<le> s_next_pane_id s1" "s_next_pane_id s1 \<le> u64_max"
    "s_next_pane_id s1 < u64_max \<Longrightarrow> is = [s_next_pane_id s..<s_next_pane_id s1]"
    using f(3,4) shell_okD(4) [OF s] by (auto simp: next_tab_id_def)
  show ok1: "shell_ok s1" using s next_p(2) by (subst s1) (simp add: shell_ok_def)
  note op = insert_tab_contract [OF t(1), of x k]
  note e = workspace_operation.on_active_workspace_effect [OF op ok1, folded m_def]
  from shell_ok_active [OF ok1] obtain j where j: "workspace_position s1 (s_active_workspace_id s1) = Some j"
    "j < length (s_workspaces s1)" .
  show "shell_ok (snd m)" using e by simp
  show "fst m = Ok x" using j by (simp add: m_def on_active_workspace_def)
  show nx: "s_next_pane_id (snd m) = s_next_pane_id s1" using e(3) by (simp add: local_effect_def)
  have ws: "s_workspaces s1 = s_workspaces s" "s_pending_windows s1 = s_pending_windows s"
    "s_next_tab_id s1 = sat_add_u64 (s_next_tab_id s) 1" "s_next_workspace_id s1 = s_next_workspace_id s" by (subst s1, simp)+
  have own: "owned_pane_ids s1 = owned_pane_ids s" "owned_tab_ids s1 = owned_tab_ids s"
    "pending_pane_ids (snd m) = pending_pane_ids s" "pending_tab_ids (snd m) = pending_tab_ids s"
    "s_next_tab_id (snd m) = sat_add_u64 (s_next_tab_id s) 1"
    "s_next_workspace_id (snd m) = s_next_workspace_id s" "shell_workspace_ids (snd m) = shell_workspace_ids s"
    using e(3) by (simp_all add: local_effect_def owned_pane_ids_def owned_tab_ids_def pending_pane_ids_def pending_tab_ids_def ws)
  show "id_growth s (snd m)" unfolding id_growth_def
  proof (intro conjI)
    show "grows (owned_pane_ids s) (pending_pane_ids s) (s_next_pane_id s)
        (owned_pane_ids (snd m)) (pending_pane_ids (snd m)) (s_next_pane_id (snd m))"
      using e(3) next_p t(3) by (auto simp: grows_def own nx local_effect_def)
    show "grows (owned_tab_ids s) (pending_tab_ids s) (s_next_tab_id s)
        (owned_tab_ids (snd m)) (pending_tab_ids (snd m)) (s_next_tab_id (snd m))"
      using e(3) shell_okD(5) [OF s] t(2) by (intro grows_step [of _ "{#s_next_tab_id s#}"]) (auto simp: own local_effect_def)
    show "grows (shell_workspace_ids s) [] (s_next_workspace_id s) (shell_workspace_ids (snd m)) [] (s_next_workspace_id (snd m))"
      by (simp add: own)
  qed
  assume sp: "shell_splits_ok s" "splits_ok (t_panes t)"
  have "ws_splits_ok (insert_tab (s_workspaces s1 ! j) t k)" using sp ws j(2) by (simp add: shell_splits_ok_def)
  then have "\<forall>w \<in> set ((s_workspaces s1)[j := insert_tab (s_workspaces s1 ! j) t k]). ws_splits_ok w"
    using sp(1) ws j(2) by (intro set_list_update_memI) (auto simp: shell_splits_ok_def)
  then show "shell_splits_ok (snd m)" using sp(1) ws by (simp add: m_def on_active_workspace_def j(1) shell_splits_ok_def)
qed

lemma draw_pane_ids_room:
  "draw_pane_ids n s = (is, s') \<Longrightarrow> s_next_pane_id s + n \<le> u64_max \<Longrightarrow> s_next_pane_id s' = s_next_pane_id s + n"
proof (induction n arbitrary: s "is" s')
  case (Suc n)
  let ?s1 = "s\<lparr>s_next_pane_id := sat_add_u64 (s_next_pane_id s) 1\<rparr>"
  obtain js where d: "draw_pane_ids n ?s1 = (js, s')" using Suc.prems(1) by (auto simp: next_pane_id_def split: prod.splits)
  have "sat_add_u64 (s_next_pane_id s) 1 = s_next_pane_id s + 1" using Suc.prems(2) by (intro sat_add_u64_noflow) simp
  with Suc.IH [OF d] Suc.prems(2) show ?case by simp
qed simp

lemma drawn_ids:
  assumes "shell_ok s" and "s_next_pane_id s + n < u64_max"
  obtains s1 where "draw_pane_ids n (snd (next_tab_id s)) = ([s_next_pane_id s..<s_next_pane_id s + n], s1)"
    and "s_workspaces s1 = s_workspaces s" and "s_active_workspace_id s1 = s_active_workspace_id s"
proof -
  obtain "is" s1 where d: "draw_pane_ids n (snd (next_tab_id s)) = (is, s1)" by fastforce
  have "s_next_pane_id s1 = s_next_pane_id s + n"
    using draw_pane_ids_room [OF d] assms(2) by (simp add: next_tab_id_def)
  then have "is = [s_next_pane_id s..<s_next_pane_id s + n]"
    using draw_pane_ids_fields(4) [OF d] assms by (simp add: next_tab_id_def)
  moreover have "s_workspaces s1 = s_workspaces s" "s_active_workspace_id s1 = s_active_workspace_id s"
    by (subst draw_pane_ids_fields(2) [OF d], simp add: next_tab_id_def)+
  ultimately show thesis using that d by blast
qed

section \<open>Inserting a rebuilt tab\<close>

lemma position_map: "position P (map f xs) = position (\<lambda>x. P (f x)) xs"
  by (induction xs) simp_all

lemma active_workspace_update:
  assumes "active_workspace s = (Ok w :: workspace app_result)" and "\<And>w. w_id (f w) = w_id w"
  shows "active_workspace (snd (on_active_workspace (\<lambda>w. (r, f w)) s)) = (Ok (f w) :: workspace app_result)"
proof -
  from assms(1) obtain k where k: "workspace_position s (s_active_workspace_id s) = Some k" "k < length (s_workspaces s)"
    and w: "s_workspaces s ! k = w"
    by (auto simp: active_workspace_def bind_eq_Some_conv split: option.splits)
  let ?ws = "(s_workspaces s)[k := f (s_workspaces s ! k)]"
  have "map w_id ?ws = shell_workspace_ids s" using k(2) assms(2) by (simp add: map_update_same)
  then have "position (\<lambda>w. w_id w = s_active_workspace_id s) ?ws = Some k"
    using k(1) by (simp only: workspace_position_def position_map [of "\<lambda>x. x = s_active_workspace_id s" w_id, symmetric])
  then show ?thesis using k w by (simp add: on_active_workspace_def active_workspace_def workspace_position_def nth_opt_def)
qed

lemma insert_tab_id: "w_id (insert_tab w t k) = w_id w"
  by simp

lemma insert_tab_tabs: "w_tabs (insert_tab w t k) = insert_nth (min k (length (w_tabs w))) t (w_tabs w)"
  by (simp add: insert_tab_def)

lemma duplicate_tab_Ok:
  assumes s: "shell_ok s" "ids_fresh s" "shell_splits_ok s" and w: "active_workspace s = (Ok w :: workspace app_result)"
    and k: "tab_position w tab = Some k" and len: "length (w_tabs w) \<le> usize_max"
    and room: "s_next_pane_id s + length (t_panes (w_tabs w ! k)) < u64_max"
  obtains s' w' t' where "duplicate_tab tab s = (Ok (s_next_tab_id s), s')" and "shell_ok s'" and "id_growth s s'"
    and "active_workspace s' = (Ok w' :: workspace app_result)" and "w_active_tab_id w' = s_next_tab_id s"
    and "w_tabs w' = insert_nth (k + 1) t' (w_tabs w)" and "t_id t' = s_next_tab_id s"
    and "from_tab t' = (from_tab (w_tabs w ! k) :: tab_reconnect_snapshot app_result)"
    and "tab_pane_ids t' = [s_next_pane_id s..<s_next_pane_id s + length (t_panes (w_tabs w ! k))]"
proof -
  let ?t = "w_tabs w ! k" and ?n = "length (t_panes (w_tabs w ! k))"
  have wmem: "w \<in> set (s_workspaces s)"
    using w by (auto simp: active_workspace_def bind_eq_Some_conv split: option.splits)
  note pos = tab_position_SomeD [OF k]
  then have tmem: "?t \<in> set (w_tabs w)" by simp
  have t: "tab_ok ?t" "distinct (tab_pane_ids ?t)" "splits_ok (t_panes ?t)"
    using ws_okD(4) [OF shell_okD(1) [OF s(1) wmem] tmem]
      ws_pane_distinct_tab [OF owned_distinct_workspace [OF ids_fresh_distinct [OF s(2)] wmem] tmem]
      s(3) wmem tmem by (auto simp: shell_splits_ok_def ws_splits_ok_def)
  note refs = splits_refs_in [OF t(3)]
  note snap = from_tab_Ok [OF t(1,2) refs] and sok = snap_of_ok [OF t(1) refs]
  have sl: "length (ts_panes (snap_of ?t)) = ?n" by (simp add: snap_of_def)
  obtain s1 where d: "draw_pane_ids ?n (snd (next_tab_id s)) = ([s_next_pane_id s..<s_next_pane_id s + ?n], s1)"
    and s1: "s_workspaces s1 = s_workspaces s" "s_active_workspace_id s1 = s_active_workspace_id s"
    using drawn_ids [OF s(1) room] .
  let ?new = "[s_next_pane_id s..<s_next_pane_id s + ?n]" and ?i = "s_next_tab_id s"
  let ?t' = "tab_of ?i (snap_of ?t) ?new"
  have nl: "length ?new = length (ts_panes (snap_of ?t))" by (simp add: sl)
  note t' = tab_of_ok [OF sok nl distinct_upt, of ?i] tab_of_ids [OF nl, of ?i]
  have tid: "t_id ?t' = ?i" by (simp add: tab_of_def)
  have w1: "active_workspace s1 = (Ok w :: workspace app_result)"
    using w s1 by (simp add: active_workspace_def workspace_position_def)
  have idx: "sat_add_usize k (Suc 0) = Suc k" using pos len by (simp add: sat_add_usize_def)
  let ?m = "on_active_workspace (\<lambda>w. (Ok ?i, insert_tab w ?t' (k + 1))) s1"
  note ins = insert_drawn_tab(2-5) [OF s(1) d t'(1) tid t'(2), where x = ?i and k = "k + 1"]
  have "duplicate_tab tab s = ?m"
    using w k pos d restore_Ok [OF sok nl, of ?i]
    by (simp add: duplicate_tab_def snap shell_tab_reconnect_snapshot_def workspace_tab_def nth_opt_less restore_tab_snapshot_def
        sl idx next_tab_id_def)
  moreover have "fst ?m = Ok ?i" by (rule ins(2))
  ultimately have dup: "duplicate_tab tab s = (Ok ?i, snd ?m)" by (metis prod.collapse)
  show thesis
  proof (rule that [OF dup ins(1) ins(3) active_workspace_update [OF w1 insert_tab_id]])
    show "w_active_tab_id (insert_tab w ?t' (k + 1)) = ?i" using tid by simp
    show "w_tabs (insert_tab w ?t' (k + 1)) = insert_nth (k + 1) ?t' (w_tabs w)" using pos by (simp add: insert_tab_tabs)
    show "t_id ?t' = ?i" by (rule tid)
    show "from_tab ?t' = (from_tab ?t :: tab_reconnect_snapshot app_result)"
      by (simp only: snapshot_roundtrip [OF sok nl distinct_upt] snap)
    show "tab_pane_ids ?t' = ?new" by (rule t'(2))
  qed
qed

text \<open>The identity map of an import: the \<open>k\<close>-th pane gets the \<open>k\<close>-th drawn identity.\<close>

definition fresh_map :: "pane_id list \<Rightarrow> pane_id list \<Rightarrow> pane_id \<rightharpoonup> pane_id" where
  "fresh_map old new = map_of (rev (zip old new))"

lemma fresh_map_nth:
  assumes "distinct old" and "length new = length old" and "k < length old"
  shows "fresh_map old new (old ! k) = Some (new ! k)"
proof -
  have "(old ! k, new ! k) \<in> set (zip old new)" using assms(2,3) by (auto simp: in_set_zip)
  moreover have "distinct (map fst (rev (zip old new)))" using assms by (simp add: rev_map [symmetric])
  ultimately show ?thesis unfolding fresh_map_def by (intro map_of_is_SomeI) simp_all
qed

lemma import_detached_tab_Ok:
  assumes s: "shell_ok s" and w: "active_workspace s = (Ok w :: workspace app_result)"
    and t: "tab_ok t" "distinct (tab_pane_ids t)" "split_refs_in t" and room: "s_next_pane_id s + length (t_panes t) < u64_max"
  defines "m \<equiv> fresh_map (tab_pane_ids t) [s_next_pane_id s..<s_next_pane_id s + length (t_panes t)]"
  obtains s' where "import_detached_tab \<lparr>dt_tab = t, dt_source_index = j\<rparr> k s =
      (Ok \<lparr>it_tab_id = s_next_tab_id s, it_pane_id_map = m\<rparr>, s')" and "shell_ok s'" and "id_growth s s'"
    and "active_workspace s' = (Ok (insert_tab w (rename_tab (\<lambda>i. the (m i)) (s_next_tab_id s) t) k) :: workspace app_result)"
    and "shell_splits_ok s \<Longrightarrow> splits_ok (t_panes t) \<Longrightarrow> shell_splits_ok s'"
proof -
  let ?n = "length (t_panes t)"
  let ?new = "[s_next_pane_id s..<s_next_pane_id s + ?n]" and ?f = "\<lambda>i. the (m i)" and ?i = "s_next_tab_id s"
  obtain s1 where d: "draw_pane_ids ?n (snd (next_tab_id s)) = (?new, s1)"
    and s1: "s_workspaces s1 = s_workspaces s" "s_active_workspace_id s1 = s_active_workspace_id s"
    using drawn_ids [OF s room] .
  have nth: "m (tab_pane_ids t ! k) = Some (?new ! k)" if "k < ?n" for k
    unfolding m_def using that by (intro fresh_map_nth [OF t(2)]) simp_all
  have ids: "map ?f (tab_pane_ids t) = ?new"
    by (rule nth_equalityI) (use nth in auto)
  have some: "m i = Some (?f i)" if "i \<in> set (tab_pane_ids t)" for i
    using that nth by (metis in_set_conv_nth length_map option.sel)
  have inj: "inj_on ?f (set (tab_pane_ids t))"
    using ids t(2) by (metis distinct_map distinct_upt)
  let ?t = "rename_tab ?f ?i t"
  have t': "tab_ok ?t" "t_id ?t = ?i" "tab_pane_ids ?t = ?new"
    using rename_tab_ok [OF t(1) inj] ids by (simp_all only: rename_tab_ids) (simp add: rename_tab_def)
  have w1: "active_workspace s1 = (Ok w :: workspace app_result)"
    using w s1 by (simp add: active_workspace_def workspace_position_def)
  let ?r = "\<lparr>it_tab_id = ?i, it_pane_id_map = m\<rparr>"
  let ?m = "on_active_workspace (\<lambda>w. (Ok ?r, insert_tab w ?t k)) s1"
  note ins = insert_drawn_tab(2-6) [OF s d t', where x = ?r and k = k]
  have "import_detached_tab \<lparr>dt_tab = t, dt_source_index = j\<rparr> k s = ?m"
    using d remap_ids_Ok [OF t(1,3) some, where n = ?i]
    by (simp add: import_detached_tab_def next_tab_id_def fresh_map_def [symmetric] m_def [symmetric])
  then have imp: "import_detached_tab \<lparr>dt_tab = t, dt_source_index = j\<rparr> k s = (Ok ?r, snd ?m)"
    using ins(2) by (metis prod.collapse)
  show thesis
    by (rule that [OF imp ins(1) ins(3) active_workspace_update [OF w1 insert_tab_id]])
      (use ins(5) rename_tab_splits in blast)
qed

section \<open>Resizing the window\<close>

lemma preserve_tabs_Ok:
  assumes "oc \<le> 65535" "orr \<le> 65535" "nc \<le> 65535" "nr \<le> 65535"
  shows "\<exists>ts'. preserve_tabs oc orr nc nr ts = (Ok ts' :: (_, 'e) outcome) \<and> map t_id ts' = map t_id ts \<and>
    map tab_pane_ids ts' = map tab_pane_ids ts \<and>
    map (\<lambda>t. map split_source (t_panes t)) ts' = map (\<lambda>t. map split_source (t_panes t)) ts \<and>
    map tab_ok ts' = map tab_ok ts"
proof (induction ts)
  case (Cons t ts)
  obtain t' where "tab_preserve_split_layout t oc orr nc nr = (Ok t' :: (_, 'e) outcome)" "tab_pane_ids t' = tab_pane_ids t"
    "map split_source (t_panes t') = map split_source (t_panes t)" "t_id t' = t_id t" "tab_ok t' = tab_ok t"
    using tab_preserve_split_layout_Ok [OF assms] .
  with Cons.IH show ?case by (auto simp: preserve_tabs_def)
qed (simp add: preserve_tabs_def)

lemma map_tab_ok: "map tab_ok ts' = map tab_ok ts \<Longrightarrow> (\<forall>t \<in> set ts. tab_ok t) \<Longrightarrow> \<forall>t \<in> set ts'. tab_ok t"
  by (metis (mono_tags, lifting) in_set_conv_nth length_map nth_map nth_mem)

section \<open>Recently closed tabs\<close>

text \<open>The history holds the last \<open>capacity\<close> entries pushed, in order.\<close>

definition last_n :: "nat \<Rightarrow> 'a list \<Rightarrow> 'a list" where
  "last_n n xs = drop (length xs - n) xs"

definition history_ok :: "closed_tab_history \<Rightarrow> bool" where
  "history_ok h \<longleftrightarrow> length (h_entries h) \<le> h_capacity h \<and> h_capacity h < usize_max"

lemma history_push_entries:
  assumes "history_ok h"
  shows "h_entries (history_push h e) = last_n (h_capacity h) (h_entries h @ [e])"
proof (cases "h_capacity h = 0")
  case True
  with assms show ?thesis by (simp add: history_push_def history_ok_def last_n_def)
next
  case False
  have "sat_add_usize (length (h_entries h)) 1 - h_capacity h = Suc (length (h_entries h)) - h_capacity h"
    using assms by (simp add: history_ok_def sat_add_usize_def)
  with False show ?thesis by (simp add: history_push_def last_n_def)
qed

lemma last_n_append: "last_n n (last_n n xs @ ys) = last_n n (xs @ ys)"
  by (cases "n \<le> length xs") (simp_all add: last_n_def add.commute)

lemma history_push_ok: "history_ok h \<Longrightarrow> history_ok (history_push h e) \<and> h_capacity (history_push h e) = h_capacity h"
proof -
  assume h: "history_ok h"
  have "h_capacity (history_push h e) = h_capacity h" by (simp add: history_push_def Let_def)
  with h history_push_entries [OF h, of e] show ?thesis by (simp add: history_ok_def last_n_def)
qed

end
