(* ===== verification/Mailbox.thy ===== *)
theory Mailbox
  imports Prelude
begin

text \<open>
  The byte-budgeted bounded mailbox of \<open>rssh-runtime/src/mailbox.rs\<close>. The state behind the mutex
  is a record and every critical section is a function on it, which also lists the condition
  variables that are notified once the lock is released. A blocking operation is split at its
  \<open>wait\<close>: the function that runs under the lock either returns or says that the thread waits.
  The retained size of an item is the parameter \<open>retained\<close>, the implementation of the trait
  \<open>MailboxItem\<close>. Instants and durations are nanoseconds.
\<close>

section \<open>Time\<close>

text \<open>
  A \<open>Duration\<close> holds at most \<open>u64::MAX\<close> seconds and 999999999 nanoseconds; an \<open>Instant\<close> holds
  seconds up to \<open>i64::MAX\<close>.
\<close>

type_synonym instant = nat
type_synonym duration = nat

definition duration_max :: duration where
  "duration_max = u64_max * 1000000000 + 999999999"

definition instant_max :: instant where
  "instant_max = (2 ^ 63 - 1) * 1000000000 + 999999999"

definition sat_add_duration :: "duration \<Rightarrow> duration \<Rightarrow> duration" where
  "sat_add_duration a b = min (a + b) duration_max"

definition checked_add_instant :: "instant \<Rightarrow> duration \<Rightarrow> instant option" where
  "checked_add_instant t d = (if t + d \<le> instant_max then Some (t + d) else None)"

text \<open>\<open>saturating_duration_since\<close> and \<open>elapsed\<close>: zero when the clock went backwards.\<close>

definition duration_since :: "instant \<Rightarrow> instant \<Rightarrow> duration" where
  "duration_since now earlier = now - earlier"

section \<open>Data\<close>

record mailbox_limits =
  max_items :: usize
  max_bytes :: usize

datatype mailbox_limits_error = ZeroItems | ZeroBytes

datatype 'a try_send_error =
    TrySend_Closed 'a
  | TrySend_Oversize 'a usize usize
  | TrySend_Full 'a usize

datatype 'a send_error = Send_Closed 'a | Send_Oversize 'a usize usize

datatype try_recv_error = TryRecv_Empty | TryRecv_Closed

datatype recv_error = Recv_Closed

datatype recv_timeout_error = RecvTimeout_Timeout | RecvTimeout_Closed

record 'a entry =
  entry_value :: 'a
  reserved_bytes :: usize

record mailbox_counters =
  high_water_items :: usize
  high_water_bytes :: usize
  enqueued_items :: u64
  enqueued_bytes :: u64
  dequeued_items :: u64
  dequeued_bytes :: u64
  discarded_items :: u64
  discarded_bytes :: u64
  full_rejections :: u64
  oversize_rejections :: u64
  closed_rejections :: u64
  blocked_sends :: u64
  send_blocked_duration :: duration

record 'a mailbox =
  queue :: "'a entry list"
  queued_bytes :: usize
  accepting :: bool
  sender_count :: usize
  consumer_alive :: bool
  waiting_producers :: usize
  consumer_waiting :: bool
  counters :: mailbox_counters

text \<open>The snapshot \<open>MailboxMetrics\<close>; its copies of the thirteen counters are one field.\<close>

record mailbox_metrics =
  metrics_limits :: mailbox_limits
  metrics_queued_items :: usize
  metrics_queued_bytes :: usize
  metrics_counters :: mailbox_counters
  metrics_waiting_producers :: usize
  metrics_consumer_waiting :: bool

text \<open>What a thread does after it has released the lock, and whether it returned.\<close>

datatype notification = Notify_not_empty_one | Notify_not_empty_all | Notify_space_all

datatype ('r, 'w) progress = Returned 'r | Waits 'w

section \<open>Operations\<close>

definition limits_try_new :: "usize \<Rightarrow> usize \<Rightarrow> (mailbox_limits, mailbox_limits_error) outcome" where
  "limits_try_new items bytes =
     (if items = 0 then Err ZeroItems
      else if bytes = 0 then Err ZeroBytes
      else Ok \<lparr>max_items = items, max_bytes = bytes\<rparr>)"

definition usize_to_u64 :: "usize \<Rightarrow> u64" where
  "usize_to_u64 v = (if v \<le> u64_max then v else u64_max)"

definition counters_default :: mailbox_counters where
  "counters_default = \<lparr>high_water_items = 0, high_water_bytes = 0, enqueued_items = 0,
     enqueued_bytes = 0, dequeued_items = 0, dequeued_bytes = 0, discarded_items = 0,
     discarded_bytes = 0, full_rejections = 0, oversize_rejections = 0, closed_rejections = 0,
     blocked_sends = 0, send_blocked_duration = 0\<rparr>"

definition bounded_mailbox :: "'a mailbox" where
  "bounded_mailbox = \<lparr>queue = [], queued_bytes = 0, accepting = True, sender_count = 1,
     consumer_alive = True, waiting_producers = 0, consumer_waiting = False,
     counters = counters_default\<rparr>"

definition upd_counters :: "(mailbox_counters \<Rightarrow> mailbox_counters) \<Rightarrow> 'a mailbox \<Rightarrow> 'a mailbox" where
  "upd_counters f s = s\<lparr>counters := f (counters s)\<rparr>"

definition admission_bytes :: "'a mailbox \<Rightarrow> mailbox_limits \<Rightarrow> usize \<Rightarrow> usize option" where
  "admission_bytes s lim bytes =
     (if max_items lim \<le> length (queue s) then None
      else case checked_add_usize (queued_bytes s) bytes of
        None \<Rightarrow> None
      | Some next_bytes \<Rightarrow> if next_bytes \<le> max_bytes lim then Some next_bytes else None)"

definition enqueue :: "'a mailbox \<Rightarrow> 'a \<Rightarrow> usize \<Rightarrow> usize \<Rightarrow> 'a mailbox" where
  "enqueue s item bytes next_bytes =
     (let q = queue s @ [\<lparr>entry_value = item, reserved_bytes = bytes\<rparr>]
      in upd_counters
           (\<lambda>c. c\<lparr>high_water_items := max (high_water_items c) (length q),
                 high_water_bytes := max (high_water_bytes c) next_bytes,
                 enqueued_items := sat_add_u64 (enqueued_items c) 1,
                 enqueued_bytes := sat_add_u64 (enqueued_bytes c) (usize_to_u64 bytes)\<rparr>)
           (s\<lparr>queue := q, queued_bytes := next_bytes\<rparr>))"

fun dequeue_entry :: "'a entry list \<Rightarrow> 'a mailbox \<Rightarrow> 'a entry option \<times> 'a mailbox" where
  "dequeue_entry [] s = (None, s)"
| "dequeue_entry (e # q) s =
     (Some e,
      upd_counters
        (\<lambda>c. c\<lparr>dequeued_items := sat_add_u64 (dequeued_items c) 1,
              dequeued_bytes := sat_add_u64 (dequeued_bytes c) (usize_to_u64 (reserved_bytes e))\<rparr>)
        (s\<lparr>queue := q, queued_bytes := queued_bytes s - reserved_bytes e\<rparr>))"

definition dequeue :: "'a mailbox \<Rightarrow> 'a entry option \<times> 'a mailbox" where
  "dequeue s = dequeue_entry (queue s) s"

definition finish_blocked_send :: "instant \<Rightarrow> instant option \<Rightarrow> 'a mailbox \<Rightarrow> 'a mailbox" where
  "finish_blocked_send now since s =
     (case since of
        None \<Rightarrow> s
      | Some t \<Rightarrow> upd_counters
          (\<lambda>c. c\<lparr>send_blocked_duration :=
                  sat_add_duration (send_blocked_duration c) (duration_since now t)\<rparr>)
          (s\<lparr>waiting_producers := waiting_producers s - 1\<rparr>))"

definition count_closed :: "'a mailbox \<Rightarrow> 'a mailbox" where
  "count_closed = upd_counters (\<lambda>c. c\<lparr>closed_rejections := sat_add_u64 (closed_rejections c) 1\<rparr>)"

definition count_oversize :: "'a mailbox \<Rightarrow> 'a mailbox" where
  "count_oversize = upd_counters (\<lambda>c. c\<lparr>oversize_rejections := sat_add_u64 (oversize_rejections c) 1\<rparr>)"

definition count_full :: "'a mailbox \<Rightarrow> 'a mailbox" where
  "count_full = upd_counters (\<lambda>c. c\<lparr>full_rejections := sat_add_u64 (full_rejections c) 1\<rparr>)"

definition mailbox_close :: "'a mailbox \<Rightarrow> bool \<times> 'a mailbox \<times> notification list" where
  "mailbox_close s =
     (accepting s, s\<lparr>accepting := False\<rparr>,
      if accepting s then [Notify_not_empty_all, Notify_space_all] else [])"

definition mailbox_is_closed :: "'a mailbox \<Rightarrow> bool" where
  "mailbox_is_closed s \<longleftrightarrow> \<not> accepting s"

definition mailbox_metrics_of :: "mailbox_limits \<Rightarrow> 'a mailbox \<Rightarrow> mailbox_metrics" where
  "mailbox_metrics_of lim s = \<lparr>metrics_limits = lim, metrics_queued_items = length (queue s),
     metrics_queued_bytes = queued_bytes s, metrics_counters = counters s,
     metrics_waiting_producers = waiting_producers s, metrics_consumer_waiting = consumer_waiting s\<rparr>"

definition clone_sender :: "'a mailbox \<Rightarrow> 'a mailbox" where
  "clone_sender s = s\<lparr>sender_count := sat_add_usize (sender_count s) 1\<rparr>"

definition drop_sender :: "'a mailbox \<Rightarrow> 'a mailbox \<times> notification list" where
  "drop_sender s =
     (let s' = s\<lparr>sender_count := sender_count s - 1\<rparr>
      in if sender_count s' = 0 \<and> accepting s'
         then (s'\<lparr>accepting := False\<rparr>, [Notify_not_empty_all, Notify_space_all])
         else (s', []))"

definition try_send :: "('a \<Rightarrow> usize) \<Rightarrow> mailbox_limits \<Rightarrow> 'a \<Rightarrow> 'a mailbox
    \<Rightarrow> (unit, 'a try_send_error) outcome \<times> 'a mailbox \<times> notification list" where
  "try_send retained lim item s =
     (let bytes = retained item
      in if \<not> accepting s \<or> \<not> consumer_alive s then (Err (TrySend_Closed item), count_closed s, [])
         else if max_bytes lim < bytes
         then (Err (TrySend_Oversize item bytes (max_bytes lim)), count_oversize s, [])
         else case admission_bytes s lim bytes of
           None \<Rightarrow> (Err (TrySend_Full item bytes), count_full s, [])
         | Some next_bytes \<Rightarrow> (Ok (), enqueue s item bytes next_bytes, [Notify_not_empty_one]))"

text \<open>
  One turn of the loop in \<open>send\<close>, from the acquisition of the lock to its release:
  \<open>Waits t\<close> means that the thread waits on \<open>space_available\<close> with \<open>blocked_since = Some t\<close>.
\<close>

definition send_turn :: "mailbox_limits \<Rightarrow> instant \<Rightarrow> 'a \<Rightarrow> usize \<Rightarrow> instant option \<Rightarrow> 'a mailbox
    \<Rightarrow> ((unit, 'a send_error) outcome, instant) progress \<times> 'a mailbox \<times> notification list" where
  "send_turn lim now item bytes since s =
     (if \<not> accepting s \<or> \<not> consumer_alive s
      then (Returned (Err (Send_Closed item)), count_closed (finish_blocked_send now since s), [])
      else case admission_bytes s lim bytes of
        Some next_bytes \<Rightarrow>
          (Returned (Ok ()), enqueue (finish_blocked_send now since s) item bytes next_bytes,
           [Notify_not_empty_one])
      | None \<Rightarrow> (case since of
          Some t \<Rightarrow> (Waits t, s, [])
        | None \<Rightarrow>
            (Waits now,
             upd_counters (\<lambda>c. c\<lparr>blocked_sends := sat_add_u64 (blocked_sends c) 1\<rparr>)
               (s\<lparr>waiting_producers := sat_add_usize (waiting_producers s) 1\<rparr>), [])))"

definition mailbox_send :: "('a \<Rightarrow> usize) \<Rightarrow> mailbox_limits \<Rightarrow> instant \<Rightarrow> 'a \<Rightarrow> 'a mailbox
    \<Rightarrow> ((unit, 'a send_error) outcome, instant) progress \<times> 'a mailbox \<times> notification list" where
  "mailbox_send retained lim now item s =
     (let bytes = retained item
      in if \<not> accepting s \<or> \<not> consumer_alive s
         then (Returned (Err (Send_Closed item)), count_closed s, [])
         else if max_bytes lim < bytes
         then (Returned (Err (Send_Oversize item bytes (max_bytes lim))), count_oversize s, [])
         else send_turn lim now item bytes None s)"

definition try_recv :: "'a mailbox \<Rightarrow> ('a, try_recv_error) outcome \<times> 'a mailbox \<times> notification list" where
  "try_recv s =
     (case dequeue s of
        (Some e, s') \<Rightarrow> (Ok (entry_value e), s', [Notify_space_all])
      | (None, s') \<Rightarrow> (Err (if accepting s' then TryRecv_Empty else TryRecv_Closed), s', []))"

definition recv :: "'a mailbox
    \<Rightarrow> (('a, recv_error) outcome, unit) progress \<times> 'a mailbox \<times> notification list" where
  "recv s =
     (if queue s = [] \<and> accepting s then (Waits (), s\<lparr>consumer_waiting := True\<rparr>, [])
      else case dequeue (s\<lparr>consumer_waiting := False\<rparr>) of
        (Some e, s') \<Rightarrow> (Returned (Ok (entry_value e)), s', [Notify_space_all])
      | (None, s') \<Rightarrow> (Returned (Err Recv_Closed), s', []))"

text \<open>One turn of the loop in \<open>recv_timeout\<close>, after the deadline has been computed.\<close>

definition recv_timeout_turn :: "instant \<Rightarrow> instant \<Rightarrow> 'a mailbox
    \<Rightarrow> (('a, recv_timeout_error) outcome, instant) progress \<times> 'a mailbox \<times> notification list" where
  "recv_timeout_turn deadline now s =
     (case dequeue s of
        (Some e, s') \<Rightarrow>
          (Returned (Ok (entry_value e)), s'\<lparr>consumer_waiting := False\<rparr>, [Notify_space_all])
      | (None, s') \<Rightarrow>
          if \<not> accepting s'
          then (Returned (Err RecvTimeout_Closed), s'\<lparr>consumer_waiting := False\<rparr>, [])
          else if deadline \<le> now
          then (Returned (Err RecvTimeout_Timeout), s'\<lparr>consumer_waiting := False\<rparr>, [])
          else (Waits deadline, s'\<lparr>consumer_waiting := True\<rparr>, []))"

text \<open>\<open>wait_timeout\<close> has returned: the rest of the loop body, then the next turn.\<close>

definition recv_timeout_resume :: "bool \<Rightarrow> instant \<Rightarrow> instant \<Rightarrow> 'a mailbox
    \<Rightarrow> (('a, recv_timeout_error) outcome, instant) progress \<times> 'a mailbox \<times> notification list" where
  "recv_timeout_resume timed_out deadline now s =
     (if timed_out \<and> queue s = [] \<and> accepting s
      then (Returned (Err RecvTimeout_Timeout), s\<lparr>consumer_waiting := False\<rparr>, [])
      else recv_timeout_turn deadline now s)"

text \<open>Without a representable deadline \<open>recv_timeout\<close> is \<open>recv\<close>: it waits for ever (\<open>None\<close>).\<close>

definition recv_as_timeout ::
    "(('a, recv_error) outcome, unit) progress \<Rightarrow> (('a, recv_timeout_error) outcome, instant option) progress" where
  "recv_as_timeout p =
     (case p of
        Waits _ \<Rightarrow> Waits None
      | Returned r \<Rightarrow> Returned (case r of
            Ok a \<Rightarrow> Ok a | Err Recv_Closed \<Rightarrow> Err RecvTimeout_Closed | Panic \<Rightarrow> Panic | Diverge \<Rightarrow> Diverge))"

fun with_deadline :: "('r, instant) progress \<Rightarrow> ('r, instant option) progress" where
  "with_deadline (Returned r) = Returned r"
| "with_deadline (Waits t) = Waits (Some t)"

definition recv_timeout :: "duration \<Rightarrow> instant \<Rightarrow> 'a mailbox
    \<Rightarrow> (('a, recv_timeout_error) outcome, instant option) progress \<times> 'a mailbox \<times> notification list" where
  "recv_timeout timeout now s =
     (case checked_add_instant now timeout of
        None \<Rightarrow> (case recv s of (p, rest) \<Rightarrow> (recv_as_timeout p, rest))
      | Some deadline \<Rightarrow> (case recv_timeout_turn deadline now s of (p, rest) \<Rightarrow> (with_deadline p, rest)))"

definition drop_receiver :: "'a mailbox \<Rightarrow> 'a entry list \<times> 'a mailbox \<times> notification list" where
  "drop_receiver s =
     (queue s,
      upd_counters
        (\<lambda>c. c\<lparr>discarded_items := sat_add_u64 (discarded_items c) (usize_to_u64 (length (queue s))),
              discarded_bytes := sat_add_u64 (discarded_bytes c) (usize_to_u64 (queued_bytes s))\<rparr>)
        (s\<lparr>consumer_alive := False, accepting := False, consumer_waiting := False,
           queued_bytes := 0, queue := []\<rparr>),
      [Notify_not_empty_all, Notify_space_all])"

end
