(* ===== verification/Mailbox_Laws.thy ===== *)
theory Mailbox_Laws
  imports Mailbox
begin

text \<open>
  The invariant of a mailbox (budgets, byte accounting, high-water marks, counters that balance)
  and the contract every critical section of the mailbox fulfils; the queue contract that
  \<open>try_send\<close> and \<open>try_recv\<close> provide; what each operation returns on each branch.
\<close>

section \<open>Invariant\<close>

definition entry_bytes :: "'a entry list \<Rightarrow> usize" where
  "entry_bytes q = sum_list (map reserved_bytes q)"

definition mailbox_bounded :: "mailbox_limits \<Rightarrow> 'a mailbox \<Rightarrow> bool" where
  "mailbox_bounded lim s \<longleftrightarrow>
     queued_bytes s = entry_bytes (queue s) \<and>
     length (queue s) \<le> high_water_items (counters s) \<and> high_water_items (counters s) \<le> max_items lim \<and>
     queued_bytes s \<le> high_water_bytes (counters s) \<and> high_water_bytes (counters s) \<le> max_bytes lim"

definition mailbox_lifecycle :: "'a mailbox \<Rightarrow> bool" where
  "mailbox_lifecycle s \<longleftrightarrow> (consumer_alive s \<or> queue s = [] \<and> \<not> accepting s)"

text \<open>The cumulative counters are exact until \<open>enqueued\<close> saturates.\<close>

definition mailbox_balanced :: "'a mailbox \<Rightarrow> bool" where
  "mailbox_balanced s \<longleftrightarrow>
     (enqueued_items (counters s) < u64_max \<longrightarrow>
        enqueued_items (counters s) =
          dequeued_items (counters s) + length (queue s) + discarded_items (counters s)) \<and>
     (enqueued_bytes (counters s) < u64_max \<longrightarrow>
        enqueued_bytes (counters s) =
          dequeued_bytes (counters s) + entry_bytes (queue s) + discarded_bytes (counters s))"

definition mailbox_inv :: "mailbox_limits \<Rightarrow> 'a mailbox \<Rightarrow> bool" where
  "mailbox_inv lim s \<longleftrightarrow> mailbox_bounded lim s \<and> mailbox_lifecycle s \<and> mailbox_balanced s"

lemmas mailbox_inv_defs =
  mailbox_inv_def mailbox_bounded_def mailbox_lifecycle_def mailbox_balanced_def

lemma entry_bytes_simps [simp]:
  "entry_bytes [] = 0" "entry_bytes (e # q) = reserved_bytes e + entry_bytes q"
  "entry_bytes (q @ r) = entry_bytes q + entry_bytes r"
  by (simp_all add: entry_bytes_def)

lemma upd_counters_simps [simp]:
  "queue (upd_counters f s) = queue s" "queued_bytes (upd_counters f s) = queued_bytes s"
  "accepting (upd_counters f s) = accepting s" "sender_count (upd_counters f s) = sender_count s"
  "consumer_alive (upd_counters f s) = consumer_alive s"
  "waiting_producers (upd_counters f s) = waiting_producers s"
  "consumer_waiting (upd_counters f s) = consumer_waiting s"
  "counters (upd_counters f s) = f (counters s)"
  by (simp_all add: upd_counters_def)

lemma sat_add_u64_lessD: "sat_add_u64 a b < u64_max \<Longrightarrow> a < u64_max \<and> b < u64_max \<and> sat_add_u64 a b = a + b"
  by (auto simp: sat_add_u64_def)

lemma usize_to_u64_lessD: "usize_to_u64 b < u64_max \<Longrightarrow> usize_to_u64 b = b"
  by (simp add: usize_to_u64_def split: if_splits)

lemma sat_add_usize_to_u64_lessD:
  "sat_add_u64 a (usize_to_u64 b) < u64_max \<Longrightarrow> a < u64_max \<and> sat_add_u64 a (usize_to_u64 b) = a + b"
  using sat_add_u64_lessD [of a "usize_to_u64 b"] usize_to_u64_lessD [of b] by auto

lemma sat_add_usize_to_u64_le: "a + b \<le> u64_max \<Longrightarrow> sat_add_u64 a (usize_to_u64 b) = a + b"
  by (simp add: sat_add_u64_def usize_to_u64_def)

lemma admission_Some_iff:
  "admission_bytes s lim b = Some t \<longleftrightarrow>
     length (queue s) < max_items lim \<and> t = queued_bytes s + b \<and> t \<le> max_bytes lim \<and> t \<le> usize_max"
  by (auto simp: admission_bytes_def checked_add_usize_def split: if_splits)

lemma admission_None_iff:
  assumes "max_bytes lim \<le> usize_max"
  shows "admission_bytes s lim b = None \<longleftrightarrow>
    max_items lim \<le> length (queue s) \<or> max_bytes lim < queued_bytes s + b"
  using assms by (auto simp: admission_bytes_def checked_add_usize_def)

lemma dequeue_cases:
  obtains (empty) "queue s = []" "dequeue s = (None, s)"
  | (entry) e q where "queue s = e # q" "dequeue s = dequeue_entry (e # q) s"
  by (cases "queue s") (auto simp: dequeue_def)

section \<open>The contract of a critical section\<close>

locale mailbox_operation =
  fixes lim :: mailbox_limits and f :: "'a mailbox \<Rightarrow> 'a mailbox"
  assumes keeps: "mailbox_inv lim s \<Longrightarrow> mailbox_inv lim (f s)"
begin

lemma within_items: "mailbox_inv lim s \<Longrightarrow> length (queue (f s)) \<le> max_items lim"
  using keeps [of s] by (auto simp: mailbox_inv_defs)

lemma within_bytes: "mailbox_inv lim s \<Longrightarrow> entry_bytes (queue (f s)) \<le> max_bytes lim"
  using keeps [of s] by (auto simp: mailbox_inv_defs)

lemma iterated: "mailbox_inv lim s \<Longrightarrow> mailbox_inv lim ((f ^^ n) s)"
  by (induction n) (auto intro: keeps)

end

text \<open>A change of the fields that the invariant does not mention.\<close>

lemma mailbox_inv_cong:
  assumes "mailbox_inv lim s" and "queue s' = queue s" and "queued_bytes s' = queued_bytes s"
    and "consumer_alive s' = consumer_alive s" and "accepting s' \<longrightarrow> accepting s"
    and "high_water_items (counters s') = high_water_items (counters s)"
    and "high_water_bytes (counters s') = high_water_bytes (counters s)"
    and "enqueued_items (counters s') = enqueued_items (counters s)"
    and "enqueued_bytes (counters s') = enqueued_bytes (counters s)"
    and "dequeued_items (counters s') = dequeued_items (counters s)"
    and "dequeued_bytes (counters s') = dequeued_bytes (counters s)"
    and "discarded_items (counters s') = discarded_items (counters s)"
    and "discarded_bytes (counters s') = discarded_bytes (counters s)"
  shows "mailbox_inv lim s'"
  using assms by (auto simp: mailbox_inv_defs)

lemma inv_bounded_mailbox: "mailbox_inv lim bounded_mailbox"
  by (simp add: mailbox_inv_defs bounded_mailbox_def counters_default_def)

lemma inv_count:
  assumes "mailbox_inv lim s"
  shows "mailbox_inv lim (count_closed s)" "mailbox_inv lim (count_oversize s)" "mailbox_inv lim (count_full s)"
  by (rule mailbox_inv_cong [OF assms]; simp add: count_closed_def count_oversize_def count_full_def)+

lemma inv_finish_blocked: "mailbox_inv lim s \<Longrightarrow> mailbox_inv lim (finish_blocked_send now since s)"
  by (cases since) (auto simp: finish_blocked_send_def elim!: mailbox_inv_cong)

lemma inv_consumer_waiting: "mailbox_inv lim s \<Longrightarrow> mailbox_inv lim (s\<lparr>consumer_waiting := b\<rparr>)"
  by (erule mailbox_inv_cong) simp_all

lemma inv_enqueue:
  assumes inv: "mailbox_inv lim s" and adm: "admission_bytes s lim b = Some t" and alive: "consumer_alive s"
  shows "mailbox_inv lim (enqueue s x b t)"
proof -
  from adm have t: "t = queued_bytes s + b" "t \<le> max_bytes lim" "length (queue s) < max_items lim"
    by (auto simp: admission_Some_iff)
  have "mailbox_bounded lim (enqueue s x b t)"
    using inv t by (auto simp: mailbox_inv_defs enqueue_def)
  moreover have "mailbox_balanced (enqueue s x b t)"
    using inv by (auto simp: mailbox_inv_defs enqueue_def dest: sat_add_u64_lessD sat_add_usize_to_u64_lessD)
  ultimately show ?thesis
    using alive by (simp add: mailbox_inv_def mailbox_lifecycle_def enqueue_def)
qed

lemma inv_dequeue:
  assumes inv: "mailbox_inv lim s"
  shows "mailbox_inv lim (snd (dequeue s))"
proof (cases rule: dequeue_cases [of s])
  case empty
  with inv show ?thesis by simp
next
  case (entry e q)
  have "mailbox_bounded lim (snd (dequeue s))" "mailbox_lifecycle (snd (dequeue s))"
    using inv entry by (auto simp: mailbox_inv_defs)
  moreover have "mailbox_balanced (snd (dequeue s))"
    using inv entry
    by (auto simp: mailbox_inv_defs sat_add_u64_noflow sat_add_usize_to_u64_le)
  ultimately show ?thesis by (simp add: mailbox_inv_def)
qed

abbreviation after :: "'r \<times> 'a mailbox \<times> notification list \<Rightarrow> 'a mailbox" where
  "after p \<equiv> fst (snd p)"

interpretation try_send_op: mailbox_operation lim "\<lambda>s. after (try_send retained lim item s)" for lim retained item
  by unfold_locales
    (auto simp: try_send_def Let_def inv_count intro: inv_enqueue split: option.splits)

lemma admission_finish_blocked [simp]:
  "admission_bytes (finish_blocked_send now since s) lim b = admission_bytes s lim b"
  "consumer_alive (finish_blocked_send now since s) = consumer_alive s"
  by (simp_all add: admission_bytes_def finish_blocked_send_def split: option.splits)

interpretation send_turn_op: mailbox_operation lim "\<lambda>s. after (send_turn lim now item bytes since s)"
  for lim now item bytes since
proof
  fix s :: "'a mailbox"
  assume inv: "mailbox_inv lim s"
  have "mailbox_inv lim (upd_counters (\<lambda>c. c\<lparr>blocked_sends := sat_add_u64 (blocked_sends c) 1\<rparr>)
      (s\<lparr>waiting_producers := sat_add_usize (waiting_producers s) 1\<rparr>))"
    by (rule mailbox_inv_cong [OF inv]) simp_all
  with inv show "mailbox_inv lim (after (send_turn lim now item bytes since s))"
    by (auto simp: send_turn_def inv_count inv_finish_blocked intro: inv_enqueue split: option.splits)
qed

interpretation send_op: mailbox_operation lim "\<lambda>s. after (mailbox_send retained lim now item s)"
  for lim retained now item
  by unfold_locales (simp add: mailbox_send_def Let_def inv_count send_turn_op.keeps)

interpretation try_recv_op: mailbox_operation lim "\<lambda>s. after (try_recv s)" for lim
proof
  fix s :: "'a mailbox"
  assume "mailbox_inv lim s"
  then have "mailbox_inv lim (snd (dequeue s))" by (rule inv_dequeue)
  then show "mailbox_inv lim (after (try_recv s))"
    by (auto simp: try_recv_def split: prod.splits option.splits)
qed

interpretation recv_op: mailbox_operation lim "\<lambda>s. after (recv s)" for lim
proof
  fix s :: "'a mailbox"
  assume "mailbox_inv lim s"
  then have "mailbox_inv lim (snd (dequeue (s\<lparr>consumer_waiting := False\<rparr>)))"
    and "mailbox_inv lim (s\<lparr>consumer_waiting := True\<rparr>)"
    by (auto intro!: inv_dequeue inv_consumer_waiting)
  then show "mailbox_inv lim (after (recv s))"
    by (auto simp: recv_def split: prod.splits option.splits)
qed

interpretation recv_timeout_turn_op: mailbox_operation lim "\<lambda>s. after (recv_timeout_turn deadline now s)"
  for lim deadline now
proof
  fix s :: "'a mailbox"
  assume "mailbox_inv lim s"
  then have "mailbox_inv lim ((snd (dequeue s))\<lparr>consumer_waiting := b\<rparr>)" for b
    by (intro inv_consumer_waiting inv_dequeue)
  then show "mailbox_inv lim (after (recv_timeout_turn deadline now s))"
    by (auto simp: recv_timeout_turn_def split: prod.splits option.splits)
qed

interpretation recv_timeout_resume_op:
  mailbox_operation lim "\<lambda>s. after (recv_timeout_resume timed_out deadline now s)" for lim timed_out deadline now
  by unfold_locales
    (simp add: recv_timeout_resume_def inv_consumer_waiting recv_timeout_turn_op.keeps)

interpretation recv_timeout_op: mailbox_operation lim "\<lambda>s. after (recv_timeout timeout now s)" for lim timeout now
  by unfold_locales
    (simp add: recv_timeout_def recv_op.keeps recv_timeout_turn_op.keeps split: option.splits prod.splits,
     metis fst_conv recv_op.keeps recv_timeout_turn_op.keeps snd_conv)

interpretation close_op: mailbox_operation lim "\<lambda>s. after (mailbox_close s)" for lim
  by unfold_locales (erule mailbox_inv_cong; simp add: mailbox_close_def)

interpretation clone_sender_op: mailbox_operation lim clone_sender for lim
  by unfold_locales (erule mailbox_inv_cong; simp add: clone_sender_def)

interpretation drop_sender_op: mailbox_operation lim "\<lambda>s. fst (drop_sender s)" for lim
  by unfold_locales (erule mailbox_inv_cong; simp add: drop_sender_def Let_def)

interpretation drop_receiver_op: mailbox_operation lim "\<lambda>s. after (drop_receiver s)" for lim
proof
  fix s :: "'a mailbox"
  assume inv: "mailbox_inv lim s"
  then have "mailbox_balanced (after (drop_receiver s))"
    by (auto simp: drop_receiver_def mailbox_inv_defs sat_add_usize_to_u64_le)
  with inv show "mailbox_inv lim (after (drop_receiver s))"
    by (auto simp: drop_receiver_def mailbox_inv_defs)
qed

section \<open>The queue contract\<close>

text \<open>
  A bounded queue may refuse an item; it delivers what it accepted in order. \<open>run_queue\<close>
  executes a sequence of sends (\<open>Inl\<close>) and receives (\<open>Inr\<close>) and logs both.
\<close>

fun run_queue :: "('a \<Rightarrow> 's \<Rightarrow> bool \<times> 's) \<Rightarrow> ('s \<Rightarrow> 'a option \<times> 's) \<Rightarrow> ('a + unit) list \<Rightarrow> 's
    \<Rightarrow> 'a list \<times> 'a list \<times> 's" where
  "run_queue push pop [] s = ([], [], s)"
| "run_queue push pop (Inl x # os) s =
     (case push x s of (ok, s1) \<Rightarrow>
        case run_queue push pop os s1 of (accepted, delivered, s2) \<Rightarrow>
          (if ok then x # accepted else accepted, delivered, s2))"
| "run_queue push pop (Inr _ # os) s =
     (case pop s of (r, s1) \<Rightarrow>
        case run_queue push pop os s1 of (accepted, delivered, s2) \<Rightarrow>
          (accepted, (case r of None \<Rightarrow> delivered | Some x \<Rightarrow> x # delivered), s2))"

locale fifo_queue =
  fixes contents :: "'s \<Rightarrow> 'a list"
    and push :: "'a \<Rightarrow> 's \<Rightarrow> bool \<times> 's"
    and pop :: "'s \<Rightarrow> 'a option \<times> 's"
  assumes push_contents: "contents (snd (push x s)) = (if fst (push x s) then contents s @ [x] else contents s)"
    and pop_contents: "fst (pop s) = (case contents s of [] \<Rightarrow> None | x # xs \<Rightarrow> Some x)"
    and pop_rest: "contents (snd (pop s)) = tl (contents s)"
begin

lemma run_in_order:
  "run_queue push pop os s = (accepted, delivered, s') \<Longrightarrow>
     contents s @ accepted = delivered @ contents s'"
proof (induction os arbitrary: s accepted delivered s')
  case (Cons x os)
  show ?case
  proof (cases x)
    case (Inl a)
    obtain ok s1 where p: "push a s = (ok, s1)" by fastforce
    with Cons Inl push_contents [of a s] show ?thesis
      by (fastforce split: prod.splits if_splits)
  next
    case (Inr u)
    obtain r s1 where p: "pop s = (r, s1)" by fastforce
    have r: "r = (case contents s of [] \<Rightarrow> None | x # xs \<Rightarrow> Some x)" "contents s1 = tl (contents s)"
      using pop_contents [of s] pop_rest [of s] p by auto
    obtain acc del s2 where q: "run_queue push pop os s1 = (acc, del, s2)" by (cases "run_queue push pop os s1") auto
    from Cons.IH [OF q] have "contents s1 @ acc = del @ contents s2" .
    with Cons.prems Inr p q r show ?thesis
      by (auto split: list.splits)
  qed
qed simp

text \<open>Nothing is delivered that was neither queued nor accepted, and nothing twice.\<close>

lemma run_conserves:
  "run_queue push pop os s = (accepted, delivered, s') \<Longrightarrow>
     mset (contents s) + mset accepted = mset delivered + mset (contents s')"
  using run_in_order [of os s accepted delivered s'] by (metis mset_append)

end

definition mailbox_contents :: "'a mailbox \<Rightarrow> 'a list" where
  "mailbox_contents s = map entry_value (queue s)"

definition mailbox_push :: "('a \<Rightarrow> usize) \<Rightarrow> mailbox_limits \<Rightarrow> 'a \<Rightarrow> 'a mailbox \<Rightarrow> bool \<times> 'a mailbox" where
  "mailbox_push retained lim x s =
     (fst (try_send retained lim x s) = Ok (), after (try_send retained lim x s))"

definition mailbox_pop :: "'a mailbox \<Rightarrow> 'a option \<times> 'a mailbox" where
  "mailbox_pop s = (case fst (try_recv s) of Ok x \<Rightarrow> Some x | _ \<Rightarrow> None, after (try_recv s))"

lemma queue_simps [simp]:
  "queue (count_closed s) = queue s" "queue (count_oversize s) = queue s" "queue (count_full s) = queue s"
  "queue (finish_blocked_send now since s) = queue s"
  "queue (enqueue s x b t) = queue s @ [\<lparr>entry_value = x, reserved_bytes = b\<rparr>]"
  by (simp_all add: count_closed_def count_oversize_def count_full_def finish_blocked_send_def
      enqueue_def split: option.splits)

lemma fst_dequeue [simp]: "fst (dequeue s) = (case queue s of [] \<Rightarrow> None | e # q \<Rightarrow> Some e)"
  by (cases rule: dequeue_cases [of s]) auto

lemma queue_dequeue [simp]: "queue (snd (dequeue s)) = tl (queue s)"
  by (cases rule: dequeue_cases [of s]) auto

lemma try_recv_simps:
  "queue s = [] \<Longrightarrow> try_recv s = (Err (if accepting s then TryRecv_Empty else TryRecv_Closed), s, [])"
  "queue s = e # q \<Longrightarrow> try_recv s = (Ok (entry_value e), snd (dequeue s), [Notify_space_all])"
  by (simp_all add: try_recv_def dequeue_def)

interpretation mailbox_queue: fifo_queue mailbox_contents "mailbox_push retained lim" mailbox_pop for retained lim
proof
  fix s :: "'a mailbox" and x
  show "mailbox_contents (snd (mailbox_push retained lim x s)) =
      (if fst (mailbox_push retained lim x s) then mailbox_contents s @ [x] else mailbox_contents s)"
    by (auto simp: mailbox_push_def mailbox_contents_def try_send_def Let_def split: option.splits)
  show "fst (mailbox_pop s) = (case mailbox_contents s of [] \<Rightarrow> None | x # xs \<Rightarrow> Some x)"
    and "mailbox_contents (snd (mailbox_pop s)) = tl (mailbox_contents s)"
    by (cases "queue s"; simp add: mailbox_pop_def mailbox_contents_def try_recv_simps)+
qed

section \<open>What an operation adds to the queue or takes from it\<close>

lemma contents_enqueue [simp]:
  "mailbox_contents (enqueue s x b t) = mailbox_contents s @ [x]"
  "mailbox_contents (count_closed s) = mailbox_contents s" "mailbox_contents (count_oversize s) = mailbox_contents s"
  "mailbox_contents (count_full s) = mailbox_contents s"
  "mailbox_contents (finish_blocked_send now since s) = mailbox_contents s"
  "mailbox_contents (upd_counters f s) = mailbox_contents s"
  "mailbox_contents (s\<lparr>waiting_producers := w\<rparr>) = mailbox_contents s"
  "mailbox_contents (s\<lparr>consumer_waiting := c\<rparr>) = mailbox_contents s"
  "mailbox_contents (s\<lparr>accepting := c\<rparr>) = mailbox_contents s"
  by (simp_all add: mailbox_contents_def)

lemma contents_try_send:
  "try_send retained lim x s = (r, s', ns) \<Longrightarrow>
     mailbox_contents s' = mailbox_contents s @ (if r = Ok () then [x] else [])"
  by (auto simp: try_send_def Let_def split: if_splits option.splits)

lemma contents_send_turn:
  "send_turn lim now x b since s = (p, s', ns) \<Longrightarrow>
     mailbox_contents s' = mailbox_contents s @ (if p = Returned (Ok ()) then [x] else [])"
  by (auto simp: send_turn_def split: if_splits option.splits)

lemma contents_send:
  "mailbox_send retained lim now x s = (p, s', ns) \<Longrightarrow>
     mailbox_contents s' = mailbox_contents s @ (if p = Returned (Ok ()) then [x] else [])"
  by (auto simp: mailbox_send_def Let_def split: if_splits dest: contents_send_turn)

lemma try_recv_contents:
  assumes "try_recv s = (r, s', ns)"
  shows "mailbox_contents s = (case r of Ok x \<Rightarrow> [x] | _ \<Rightarrow> []) @ mailbox_contents s'"
  using assms by (cases "queue s") (auto simp: try_recv_simps mailbox_contents_def)

end
