(* ===== verification/Mailbox_Machine.thy ===== *)
theory Mailbox_Machine
  imports Mailbox_Laws
begin

text \<open>
  The threads around a mailbox as a step relation. Each critical section of \<open>Mailbox\<close> is one
  step, since it runs under the mutex; a notification is a step of its own, since it is sent
  after the lock has been released and any other thread may run in between. A waiting thread
  may wake up without a notification, and a timed wait at any time. The machine keeps the items
  accepted, delivered and discarded so far as ghost state.
\<close>

section \<open>Threads\<close>

text \<open>
  A producer is outside of the mailbox, waits on \<open>space_available\<close>, or has been woken up and
  competes for the lock. The consumer waits on \<open>not_empty\<close>, with a deadline or without.
\<close>

datatype 'a producer = Outside | Parked 'a instant | Resuming 'a instant

datatype consumer = C_running | C_parked "instant option" | C_resuming "instant option" bool | C_dropped

record 'a machine =
  cell :: "'a mailbox"
  producers :: "'a producer list"
  consumer :: consumer
  pending_not_empty :: nat
  pending_space :: nat
  accepted :: "'a list"
  delivered :: "'a list"
  discarded :: "'a list"

fun in_wait :: "'a producer \<Rightarrow> bool" where
  "in_wait Outside = False"
| "in_wait (Parked x t) = True"
| "in_wait (Resuming x t) = True"

fun consumer_in_wait :: "consumer \<Rightarrow> bool" where
  "consumer_in_wait (C_parked d) = True"
| "consumer_in_wait (C_resuming d b) = True"
| "consumer_in_wait C_running = False"
| "consumer_in_wait C_dropped = False"

fun wake_producer :: "'a producer \<Rightarrow> 'a producer" where
  "wake_producer (Parked x t) = Resuming x t"
| "wake_producer p = p"

fun wake_consumer :: "bool \<Rightarrow> consumer \<Rightarrow> consumer" where
  "wake_consumer timed_out (C_parked d) = C_resuming d timed_out"
| "wake_consumer timed_out c = c"

text \<open>One consumer waits on \<open>not_empty\<close>, so that \<open>notify_one\<close> and \<open>notify_all\<close> agree on it.\<close>

definition notify :: "notification list \<Rightarrow> 'a machine \<Rightarrow> 'a machine" where
  "notify ns m = m\<lparr>
     pending_not_empty := pending_not_empty m + length (filter (\<lambda>n. n \<noteq> Notify_space_all) ns),
     pending_space := pending_space m + length (filter (\<lambda>n. n = Notify_space_all) ns)\<rparr>"

definition settle_send :: "nat \<Rightarrow> 'a \<Rightarrow> ((unit, 'a send_error) outcome, instant) progress \<Rightarrow> 'a machine \<Rightarrow> 'a machine" where
  "settle_send i x p m =
     (case p of
        Waits t \<Rightarrow> m\<lparr>producers := (producers m)[i := Parked x t]\<rparr>
      | Returned r \<Rightarrow> m\<lparr>producers := (producers m)[i := Outside],
                       accepted := accepted m @ (if r = Ok () then [x] else [])\<rparr>)"

definition settle_recv :: "(('a, 'e) outcome, instant option) progress \<Rightarrow> 'a machine \<Rightarrow> 'a machine" where
  "settle_recv p m =
     (case p of
        Waits d \<Rightarrow> m\<lparr>consumer := C_parked d\<rparr>
      | Returned r \<Rightarrow> m\<lparr>consumer := C_running,
                       delivered := delivered m @ (case r of Ok x \<Rightarrow> [x] | _ \<Rightarrow> [])\<rparr>)"

definition init_machine :: "nat \<Rightarrow> 'a machine" where
  "init_machine n = \<lparr>cell = bounded_mailbox, producers = replicate n Outside, consumer = C_running,
     pending_not_empty = 0, pending_space = 0, accepted = [], delivered = [], discarded = []\<rparr>"

inductive mailbox_step :: "('a \<Rightarrow> usize) \<Rightarrow> mailbox_limits \<Rightarrow> 'a machine \<Rightarrow> 'a machine \<Rightarrow> bool"
  for retained lim where
  Try_send: "i < length (producers m) \<Longrightarrow> producers m ! i = Outside \<Longrightarrow>
    try_send retained lim x (cell m) = (r, s, ns) \<Longrightarrow>
    mailbox_step retained lim m
      (notify ns (m\<lparr>cell := s, accepted := accepted m @ (if r = Ok () then [x] else [])\<rparr>))"
| Send: "i < length (producers m) \<Longrightarrow> producers m ! i = Outside \<Longrightarrow>
    mailbox_send retained lim now x (cell m) = (p, s, ns) \<Longrightarrow>
    mailbox_step retained lim m (settle_send i x p (notify ns (m\<lparr>cell := s\<rparr>)))"
| Resume_send: "i < length (producers m) \<Longrightarrow> producers m ! i = Resuming x t \<Longrightarrow>
    send_turn lim now x (retained x) (Some t) (cell m) = (p, s, ns) \<Longrightarrow>
    mailbox_step retained lim m (settle_send i x p (notify ns (m\<lparr>cell := s\<rparr>)))"
| Spurious_send: "i < length (producers m) \<Longrightarrow>
    mailbox_step retained lim m (m\<lparr>producers := (producers m)[i := wake_producer (producers m ! i)]\<rparr>)"
| Try_recv: "consumer m = C_running \<Longrightarrow> try_recv (cell m) = (r, s, ns) \<Longrightarrow>
    mailbox_step retained lim m (settle_recv (Returned r) (notify ns (m\<lparr>cell := s\<rparr>)))"
| Recv: "consumer m = C_running \<or> consumer m = C_resuming None b \<Longrightarrow> recv (cell m) = (p, s, ns) \<Longrightarrow>
    mailbox_step retained lim m (settle_recv (recv_as_timeout p) (notify ns (m\<lparr>cell := s\<rparr>)))"
| Recv_timeout: "consumer m = C_running \<Longrightarrow> recv_timeout timeout now (cell m) = (p, s, ns) \<Longrightarrow>
    mailbox_step retained lim m (settle_recv p (notify ns (m\<lparr>cell := s\<rparr>)))"
| Resume_timeout: "consumer m = C_resuming (Some d) timed_out \<Longrightarrow>
    recv_timeout_resume timed_out d now (cell m) = (p, s, ns) \<Longrightarrow>
    mailbox_step retained lim m (settle_recv (with_deadline p) (notify ns (m\<lparr>cell := s\<rparr>)))"
| Wake_consumer: "timed_out \<longrightarrow> (\<exists>d. consumer m = C_parked (Some d)) \<Longrightarrow>
    mailbox_step retained lim m (m\<lparr>consumer := wake_consumer timed_out (consumer m)\<rparr>)"
| Deliver_not_empty: "0 < pending_not_empty m \<Longrightarrow>
    mailbox_step retained lim m
      (m\<lparr>pending_not_empty := pending_not_empty m - 1, consumer := wake_consumer False (consumer m)\<rparr>)"
| Deliver_space: "0 < pending_space m \<Longrightarrow>
    mailbox_step retained lim m
      (m\<lparr>pending_space := pending_space m - 1, producers := map wake_producer (producers m)\<rparr>)"
| Close: "mailbox_close (cell m) = (b, s, ns) \<Longrightarrow>
    mailbox_step retained lim m (notify ns (m\<lparr>cell := s\<rparr>))"
| Clone: "mailbox_step retained lim m (m\<lparr>cell := clone_sender (cell m)\<rparr>)"
| Drop_sender: "drop_sender (cell m) = (s, ns) \<Longrightarrow>
    mailbox_step retained lim m (notify ns (m\<lparr>cell := s\<rparr>))"
| Drop_receiver: "consumer m = C_running \<Longrightarrow> drop_receiver (cell m) = (q, s, ns) \<Longrightarrow>
    mailbox_step retained lim m
      (notify ns (m\<lparr>cell := s, consumer := C_dropped, discarded := discarded m @ map entry_value q\<rparr>))"

inductive mailbox_reachable :: "('a \<Rightarrow> usize) \<Rightarrow> mailbox_limits \<Rightarrow> nat \<Rightarrow> 'a machine \<Rightarrow> bool"
  for retained lim n where
  Start: "mailbox_reachable retained lim n (init_machine n)"
| Step: "mailbox_reachable retained lim n m \<Longrightarrow> mailbox_step retained lim m m' \<Longrightarrow>
    mailbox_reachable retained lim n m'"

lemma notify_simps [simp]:
  "cell (notify ns m) = cell m" "producers (notify ns m) = producers m" "consumer (notify ns m) = consumer m"
  "accepted (notify ns m) = accepted m" "delivered (notify ns m) = delivered m"
  "discarded (notify ns m) = discarded m"
  by (simp_all add: notify_def)

lemma settle_send_simps [simp]:
  "cell (settle_send i x p m) = cell m" "consumer (settle_send i x p m) = consumer m"
  "delivered (settle_send i x p m) = delivered m" "discarded (settle_send i x p m) = discarded m"
  "pending_space (settle_send i x p m) = pending_space m"
  "pending_not_empty (settle_send i x p m) = pending_not_empty m"
  "producers (settle_send i x p m) =
     (producers m)[i := (case p of Waits t \<Rightarrow> Parked x t | Returned r \<Rightarrow> Outside)]"
  "accepted (settle_send i x p m) = accepted m @ (if p = Returned (Ok ()) then [x] else [])"
  by (simp_all add: settle_send_def split: progress.splits)

lemma settle_recv_simps [simp]:
  "cell (settle_recv p m) = cell m" "producers (settle_recv p m) = producers m"
  "accepted (settle_recv p m) = accepted m" "discarded (settle_recv p m) = discarded m"
  "pending_space (settle_recv p m) = pending_space m"
  "pending_not_empty (settle_recv p m) = pending_not_empty m"
  "consumer (settle_recv p m) = (case p of Waits d \<Rightarrow> C_parked d | Returned r \<Rightarrow> C_running)"
  "delivered (settle_recv p m) = delivered m @ (case p of Returned (Ok x) \<Rightarrow> [x] | _ \<Rightarrow> [])"
  by (simp_all add: settle_recv_def split: progress.splits outcome.splits)

section \<open>Signalling\<close>

text \<open>When a producer has to wait for room, and when the consumer has to wait for an item.\<close>

definition blocked_on :: "mailbox_limits \<Rightarrow> usize \<Rightarrow> 'a mailbox \<Rightarrow> bool" where
  "blocked_on lim b s \<longleftrightarrow> accepting s \<and> consumer_alive s \<and> admission_bytes s lim b = None"

definition awaits_item :: "'a mailbox \<Rightarrow> bool" where
  "awaits_item s \<longleftrightarrow> queue s = [] \<and> accepting s"

text \<open>
  The contract of a critical section towards the waiting threads: it leaves the reason to wait
  as it was, or it notifies them.
\<close>

locale critical_section = mailbox_operation lim "\<lambda>s. after (section s)"
  for lim :: mailbox_limits and "section" :: "'a mailbox \<Rightarrow> 'r \<times> 'a mailbox \<times> notification list" +
  assumes signals_space: "Notify_space_all \<notin> set (snd (snd (section s))) \<Longrightarrow>
      blocked_on lim b s \<Longrightarrow> blocked_on lim b (after (section s))"
    and signals_items: "set (snd (snd (section s))) \<subseteq> {Notify_space_all} \<Longrightarrow>
      awaits_item s \<Longrightarrow> awaits_item (after (section s))"
begin

lemma space_signalled:
  assumes "section (cell m) = (r, s, ns)" and "0 < pending_space m \<or> blocked_on lim b (cell m)"
    and "pending_space m' = pending_space m"
  shows "0 < pending_space (notify ns m') \<or> blocked_on lim b s"
proof (cases "Notify_space_all \<in> set ns")
  case True
  then have "filter (\<lambda>n. n = Notify_space_all) ns \<noteq> []" by (auto simp: filter_empty_conv)
  then show ?thesis by (simp add: notify_def)
next
  case False
  with assms signals_space [of "cell m" b] show ?thesis by (auto simp: notify_def)
qed

lemma items_signalled:
  assumes "section (cell m) = (r, s, ns)" and "0 < pending_not_empty m \<or> awaits_item (cell m)"
    and "pending_not_empty m' = pending_not_empty m"
  shows "0 < pending_not_empty (notify ns m') \<or> awaits_item s"
proof (cases "set ns \<subseteq> {Notify_space_all}")
  case False
  then have "filter (\<lambda>n. n \<noteq> Notify_space_all) ns \<noteq> []" by (auto simp: filter_empty_conv)
  then show ?thesis by (simp add: notify_def)
next
  case True
  with assms signals_items [of "cell m"] show ?thesis by (auto simp: notify_def)
qed

lemma inv_kept: "section s = (r, s', ns) \<Longrightarrow> mailbox_inv lim s \<Longrightarrow> mailbox_inv lim s'"
  using keeps [of s] by simp

end

lemma blocked_on_cong:
  "queue s' = queue s \<Longrightarrow> queued_bytes s' = queued_bytes s \<Longrightarrow> accepting s' = accepting s \<Longrightarrow>
   consumer_alive s' = consumer_alive s \<Longrightarrow> blocked_on lim b s' = blocked_on lim b s"
  by (simp add: blocked_on_def admission_bytes_def)

lemma count_simps [simp]:
  "queued_bytes (count_closed s) = queued_bytes s" "queued_bytes (count_oversize s) = queued_bytes s"
  "queued_bytes (count_full s) = queued_bytes s"
  "accepting (count_closed s) = accepting s" "accepting (count_oversize s) = accepting s"
  "accepting (count_full s) = accepting s"
  "consumer_alive (count_closed s) = consumer_alive s" "consumer_alive (count_oversize s) = consumer_alive s"
  "consumer_alive (count_full s) = consumer_alive s"
  "waiting_producers (count_closed s) = waiting_producers s"
  "waiting_producers (count_oversize s) = waiting_producers s"
  "waiting_producers (count_full s) = waiting_producers s"
  "consumer_waiting (count_closed s) = consumer_waiting s"
  "consumer_waiting (count_oversize s) = consumer_waiting s"
  "consumer_waiting (count_full s) = consumer_waiting s"
  by (simp_all add: count_closed_def count_oversize_def count_full_def)

lemma finish_blocked_simps [simp]:
  "queued_bytes (finish_blocked_send now since s) = queued_bytes s"
  "accepting (finish_blocked_send now since s) = accepting s"
  "consumer_waiting (finish_blocked_send now since s) = consumer_waiting s"
  "waiting_producers (finish_blocked_send now (Some t) s) = waiting_producers s - 1"
  "finish_blocked_send now None s = s"
  by (simp_all add: finish_blocked_send_def split: option.splits)

lemma enqueue_simps [simp]:
  "queued_bytes (enqueue s x b t) = t" "accepting (enqueue s x b t) = accepting s"
  "consumer_alive (enqueue s x b t) = consumer_alive s"
  "waiting_producers (enqueue s x b t) = waiting_producers s"
  "consumer_waiting (enqueue s x b t) = consumer_waiting s"
  by (simp_all add: enqueue_def Let_def)

lemma dequeue_simps [simp]:
  "accepting (snd (dequeue s)) = accepting s" "consumer_alive (snd (dequeue s)) = consumer_alive s"
  "waiting_producers (snd (dequeue s)) = waiting_producers s"
  "consumer_waiting (snd (dequeue s)) = consumer_waiting s"
  by (cases rule: dequeue_cases [of s]; simp)+

lemma blocked_on_enqueue:
  "admission_bytes s lim c = Some t \<Longrightarrow> blocked_on lim b s \<Longrightarrow> blocked_on lim b (enqueue s x c t)"
  by (auto simp: blocked_on_def admission_bytes_def checked_add_usize_def split: if_splits)

lemma blocked_on_finish [simp]:
  "blocked_on lim b (finish_blocked_send now since s) = blocked_on lim b s"
  by (rule blocked_on_cong) simp_all

lemma blocked_on_count [simp]:
  "blocked_on lim b (count_closed s) = blocked_on lim b s"
  "blocked_on lim b (count_oversize s) = blocked_on lim b s"
  "blocked_on lim b (count_full s) = blocked_on lim b s"
  by (rule blocked_on_cong; simp)+

lemma awaits_item_count [simp]:
  "awaits_item (count_closed s) = awaits_item s" "awaits_item (count_oversize s) = awaits_item s"
  by (simp_all add: awaits_item_def)

interpretation try_send_cs: critical_section lim "try_send retained lim item" for lim retained item
  by unfold_locales
    (auto simp: try_send_def Let_def awaits_item_def intro: blocked_on_enqueue split: option.splits if_splits)

interpretation send_turn_cs: critical_section lim "send_turn lim now item bytes since" for lim now item bytes since
proof
  fix s :: "'a mailbox" and b
  have upd: "blocked_on lim b (upd_counters f (s\<lparr>waiting_producers := n\<rparr>)) = blocked_on lim b s" for f n
    by (rule blocked_on_cong) simp_all
  show "blocked_on lim b (after (send_turn lim now item bytes since s))" if "blocked_on lim b s"
    using that by (auto simp: send_turn_def upd intro!: blocked_on_enqueue split: option.splits)
  show "awaits_item (after (send_turn lim now item bytes since s))"
    if "awaits_item s" and "set (snd (snd (send_turn lim now item bytes since s))) \<subseteq> {Notify_space_all}"
    using that by (auto simp: send_turn_def awaits_item_def split: option.splits if_splits)
qed

interpretation send_cs: critical_section lim "mailbox_send retained lim now item" for lim retained now item
  by unfold_locales
    (auto simp: mailbox_send_def Let_def
      intro: send_turn_cs.signals_space send_turn_cs.signals_items split: if_splits)

lemma awaits_item_dequeue: "queue s \<noteq> [] \<Longrightarrow> \<not> awaits_item s"
  by (simp add: awaits_item_def)

lemma dequeue_empty: "queue s = [] \<Longrightarrow> dequeue s = (None, s)"
  by (simp add: dequeue_def)

lemma blocked_on_consumer_waiting [simp]: "blocked_on lim b (s\<lparr>consumer_waiting := w\<rparr>) = blocked_on lim b s"
  by (rule blocked_on_cong) simp_all

lemma awaits_item_consumer_waiting [simp]: "awaits_item (s\<lparr>consumer_waiting := w\<rparr>) = awaits_item s"
  by (simp add: awaits_item_def)

lemma dequeue_nonempty: "queue s = e # q \<Longrightarrow> dequeue s = (Some e, snd (dequeue s))"
  by (simp add: dequeue_def)

interpretation try_recv_cs: critical_section lim try_recv for lim
  by unfold_locales (case_tac "queue s"; simp add: try_recv_simps awaits_item_def)+

lemma recv_simps:
  "queue s = [] \<Longrightarrow> accepting s \<Longrightarrow> recv s = (Waits (), s\<lparr>consumer_waiting := True\<rparr>, [])"
  "queue s = [] \<Longrightarrow> \<not> accepting s \<Longrightarrow> recv s = (Returned (Err Recv_Closed), s\<lparr>consumer_waiting := False\<rparr>, [])"
  "queue s = e # q \<Longrightarrow> recv s =
     (Returned (Ok (entry_value e)), snd (dequeue (s\<lparr>consumer_waiting := False\<rparr>)), [Notify_space_all])"
  by (simp_all add: recv_def dequeue_def)

interpretation recv_cs: critical_section lim recv for lim
proof
  fix s :: "'a mailbox" and b
  show "blocked_on lim b (after (recv s))"
    if "Notify_space_all \<notin> set (snd (snd (recv s)))" and "blocked_on lim b s"
    using that by (cases "queue s"; cases "accepting s"; simp add: recv_simps)
  show "awaits_item (after (recv s))" if "awaits_item s"
    using that by (simp add: awaits_item_def recv_simps)
qed

lemma recv_timeout_turn_simps:
  "queue s = e # q \<Longrightarrow> recv_timeout_turn d now s =
     (Returned (Ok (entry_value e)), (snd (dequeue s))\<lparr>consumer_waiting := False\<rparr>, [Notify_space_all])"
  "queue s = [] \<Longrightarrow> recv_timeout_turn d now s =
     (if \<not> accepting s then (Returned (Err RecvTimeout_Closed), s\<lparr>consumer_waiting := False\<rparr>, [])
      else if d \<le> now then (Returned (Err RecvTimeout_Timeout), s\<lparr>consumer_waiting := False\<rparr>, [])
      else (Waits d, s\<lparr>consumer_waiting := True\<rparr>, []))"
  by (simp_all add: recv_timeout_turn_def dequeue_def)

interpretation recv_timeout_turn_cs: critical_section lim "recv_timeout_turn d now" for lim d now
proof
  fix s :: "'a mailbox" and b
  show "blocked_on lim b (after (recv_timeout_turn d now s))"
    if "Notify_space_all \<notin> set (snd (snd (recv_timeout_turn d now s)))" and "blocked_on lim b s"
    using that by (cases "queue s"; simp add: recv_timeout_turn_simps)
  show "awaits_item (after (recv_timeout_turn d now s))" if "awaits_item s"
    using that by (simp add: awaits_item_def recv_timeout_turn_simps)
qed

interpretation recv_timeout_resume_cs: critical_section lim "recv_timeout_resume timed_out d now" for lim timed_out d now
  by unfold_locales
    (auto simp: recv_timeout_resume_def
      intro: recv_timeout_turn_cs.signals_space recv_timeout_turn_cs.signals_items split: if_splits)

lemma recv_timeout_rest:
  "snd (recv_timeout timeout now s) =
     (case checked_add_instant now timeout of
        None \<Rightarrow> snd (recv s) | Some d \<Rightarrow> snd (recv_timeout_turn d now s))"
  by (auto simp: recv_timeout_def split: option.splits prod.splits)

interpretation recv_timeout_cs: critical_section lim "recv_timeout timeout now" for lim timeout now
  by unfold_locales
    (auto simp: recv_timeout_rest
      intro: recv_timeout_turn_cs.signals_space recv_timeout_turn_cs.signals_items
        recv_cs.signals_space recv_cs.signals_items split: option.splits)

interpretation close_cs: critical_section lim mailbox_close for lim
  by unfold_locales (auto simp: mailbox_close_def blocked_on_def awaits_item_def split: if_splits)

interpretation drop_sender_cs: critical_section lim "\<lambda>s. ((), drop_sender s)" for lim
proof
  fix s :: "'a mailbox" and b
  show "mailbox_inv lim s \<Longrightarrow> mailbox_inv lim (after ((), drop_sender s))"
    using drop_sender_op.keeps by simp
  have "blocked_on lim b (s\<lparr>sender_count := n\<rparr>) = blocked_on lim b s" for n
    by (rule blocked_on_cong) simp_all
  then show "blocked_on lim b (after ((), drop_sender s))"
    if "Notify_space_all \<notin> set (snd (snd ((), drop_sender s)))" and "blocked_on lim b s"
    using that by (auto simp: drop_sender_def Let_def split: if_splits)
  show "awaits_item (after ((), drop_sender s))"
    if "set (snd (snd ((), drop_sender s))) \<subseteq> {Notify_space_all}" and "awaits_item s"
    using that by (auto simp: drop_sender_def Let_def awaits_item_def split: if_splits)
qed

interpretation drop_receiver_cs: critical_section lim drop_receiver for lim
  by unfold_locales (simp_all add: drop_receiver_def)

interpretation clone_cs: critical_section lim "\<lambda>s. ((), clone_sender s, [])" for lim
proof
  fix s :: "'a mailbox" and b
  show "mailbox_inv lim s \<Longrightarrow> mailbox_inv lim (after ((), clone_sender s, []))"
    using clone_sender_op.keeps by simp
  show "blocked_on lim b (after ((), clone_sender s, []))" if "blocked_on lim b s"
    using that by (auto simp: clone_sender_def blocked_on_def admission_bytes_def)
  show "awaits_item (after ((), clone_sender s, []))" if "awaits_item s"
    using that by (simp add: clone_sender_def awaits_item_def)
qed

section \<open>Invariants of the machine\<close>

definition producers_counted :: "'a machine \<Rightarrow> bool" where
  "producers_counted m \<longleftrightarrow>
     length (producers m) \<le> usize_max \<and>
     waiting_producers (cell m) = length (filter in_wait (producers m))"

fun producer_ok :: "('a \<Rightarrow> usize) \<Rightarrow> mailbox_limits \<Rightarrow> bool \<Rightarrow> 'a mailbox \<Rightarrow> 'a producer \<Rightarrow> bool" where
  "producer_ok retained lim signalled s Outside = True"
| "producer_ok retained lim signalled s (Parked x t) =
     (retained x \<le> max_bytes lim \<and> (signalled \<or> blocked_on lim (retained x) s))"
| "producer_ok retained lim signalled s (Resuming x t) = (retained x \<le> max_bytes lim)"

definition producers_waiting_ok :: "('a \<Rightarrow> usize) \<Rightarrow> mailbox_limits \<Rightarrow> 'a machine \<Rightarrow> bool" where
  "producers_waiting_ok retained lim m \<longleftrightarrow>
     (\<forall>p \<in> set (producers m). producer_ok retained lim (0 < pending_space m) (cell m) p)"

definition consumer_waiting_ok :: "'a machine \<Rightarrow> bool" where
  "consumer_waiting_ok m \<longleftrightarrow>
     ((\<exists>d. consumer m = C_parked d) \<longrightarrow> 0 < pending_not_empty m \<or> awaits_item (cell m)) \<and>
     consumer_waiting (cell m) = consumer_in_wait (consumer m) \<and>
     consumer_alive (cell m) = (consumer m \<noteq> C_dropped)"

definition logs_ok :: "'a machine \<Rightarrow> bool" where
  "logs_ok m \<longleftrightarrow>
     accepted m = delivered m @ discarded m @ mailbox_contents (cell m) \<and>
     (consumer_alive (cell m) \<longrightarrow> discarded m = [])"

lemma reachable_induct_step:
  assumes "mailbox_reachable retained lim n m" and "P (init_machine n)"
    and "\<And>m m'. mailbox_reachable retained lim n m \<Longrightarrow> mailbox_step retained lim m m' \<Longrightarrow> P m \<Longrightarrow> P m'"
  shows "P m"
  using assms(1) by induction (use assms(2,3) in blast)+

subsection \<open>Budgets and counters\<close>

lemma step_inv: "mailbox_step retained lim m m' \<Longrightarrow> mailbox_inv lim (cell m) \<Longrightarrow> mailbox_inv lim (cell m')"
proof (induction rule: mailbox_step.induct)
  case (Drop_sender m s ns)
  then show ?case using drop_sender_op.keeps [of lim "cell m"] by simp
qed (auto intro: try_send_cs.inv_kept send_cs.inv_kept send_turn_cs.inv_kept try_recv_cs.inv_kept
  recv_cs.inv_kept recv_timeout_cs.inv_kept recv_timeout_resume_cs.inv_kept close_cs.inv_kept
  drop_receiver_cs.inv_kept clone_sender_op.keeps)

lemma reachable_inv: "mailbox_reachable retained lim n m \<Longrightarrow> mailbox_inv lim (cell m)"
  by (erule reachable_induct_step) (auto simp: init_machine_def inv_bounded_mailbox intro: step_inv)

subsection \<open>Who waits\<close>

lemma filter_update_length:
  assumes "i < length xs"
  shows "length (filter P (xs[i := y])) + (if P (xs ! i) then 1 else 0) =
    length (filter P xs) + (if P y then 1 else 0)"
  using assms
proof (induction xs arbitrary: i)
  case (Cons x xs)
  then show ?case by (cases i) auto
qed simp

lemma in_wait_wake [simp]: "in_wait (wake_producer p) = in_wait p"
  by (cases p) auto

lemma in_wait_comp_wake [simp]: "in_wait \<circ> wake_producer = in_wait"
  by (simp add: fun_eq_iff)

lemma waiting_try_send: "try_send retained lim x s = (r, s', ns) \<Longrightarrow> waiting_producers s' = waiting_producers s"
  by (auto simp: try_send_def Let_def split: if_splits option.splits)

lemma waiting_send_turn:
  "send_turn lim now x b since s = (p, s', ns) \<Longrightarrow> waiting_producers s' =
     (case (p, since) of
        (Waits t, None) \<Rightarrow> sat_add_usize (waiting_producers s) 1
      | (Returned r, Some t) \<Rightarrow> waiting_producers s - 1
      | _ \<Rightarrow> waiting_producers s)"
  by (auto simp: send_turn_def split: if_splits option.splits)

lemma waiting_send:
  "mailbox_send retained lim now x s = (p, s', ns) \<Longrightarrow> waiting_producers s' =
     (case p of Waits t \<Rightarrow> sat_add_usize (waiting_producers s) 1 | Returned r \<Rightarrow> waiting_producers s)"
  by (auto simp: mailbox_send_def Let_def dest!: waiting_send_turn split: if_splits progress.splits)

lemma waiting_dequeue: "dequeue s = (e, s') \<Longrightarrow> waiting_producers s' = waiting_producers s"
  using dequeue_simps(3) [of s] by simp

lemma waiting_recv:
  "try_recv s = (r, s', ns) \<Longrightarrow> waiting_producers s' = waiting_producers s"
  "recv s = (p, s', ns) \<Longrightarrow> waiting_producers s' = waiting_producers s"
  "recv_timeout_turn d now s = (q, s', ns) \<Longrightarrow> waiting_producers s' = waiting_producers s"
  by (auto simp: try_recv_def recv_def recv_timeout_turn_def dest: waiting_dequeue
      split: prod.splits option.splits if_splits)

lemma waiting_recv_timeout:
  "recv_timeout_resume b d now s = (q, s', ns) \<Longrightarrow> waiting_producers s' = waiting_producers s"
  "recv_timeout timeout now s = (r, s', ns) \<Longrightarrow> waiting_producers s' = waiting_producers s"
  by (auto simp: recv_timeout_resume_def recv_timeout_def dest: waiting_recv
      split: prod.splits option.splits if_splits)

lemma step_counted:
  "mailbox_step retained lim m m' \<Longrightarrow> producers_counted m \<Longrightarrow> producers_counted m'"
proof (induction rule: mailbox_step.induct)
  case (Send i m now x p s ns)
  then have "length (filter in_wait (producers m)) < usize_max"
    using length_filter_less [of "producers m ! i" "producers m" in_wait] nth_mem [of i "producers m"]
    by (auto simp: producers_counted_def)
  with Send filter_update_length [of i "producers m" in_wait "case p of Waits t \<Rightarrow> Parked x t | Returned r \<Rightarrow> Outside"]
  show ?case
    by (auto simp: producers_counted_def sat_add_usize_def dest!: waiting_send split: progress.splits)
next
  case (Resume_send i m x t now p s ns)
  with filter_update_length [of i "producers m" in_wait "case p of Waits t \<Rightarrow> Parked x t | Returned r \<Rightarrow> Outside"]
  show ?case
    by (auto simp: producers_counted_def dest!: waiting_send_turn split: progress.splits)
next
  case (Spurious_send i m)
  with filter_update_length [of i "producers m" in_wait "wake_producer (producers m ! i)"]
  show ?case by (auto simp: producers_counted_def)
qed (auto simp: producers_counted_def mailbox_close_def clone_sender_def drop_sender_def drop_receiver_def Let_def
  dest: waiting_try_send waiting_recv waiting_recv_timeout split: if_splits)

lemma reachable_counted: "n \<le> usize_max \<Longrightarrow> mailbox_reachable retained lim n m \<Longrightarrow> producers_counted m"
  by (erule reachable_induct_step, simp add: producers_counted_def init_machine_def bounded_mailbox_def)
    (rule step_counted)

subsection \<open>No notification is lost\<close>

lemma producer_ok_mono:
  "producer_ok retained lim signalled s p \<Longrightarrow>
   (\<And>b. signalled \<or> blocked_on lim b s \<Longrightarrow> signalled' \<or> blocked_on lim b s') \<Longrightarrow>
   producer_ok retained lim signalled' s' p"
  by (cases p) auto

lemma producer_ok_wake: "producer_ok retained lim signalled s p \<Longrightarrow> producer_ok retained lim b s (wake_producer p)"
  by (cases p) auto

lemma notify_pending:
  "pending_space (notify ns (m\<lparr>cell := s\<rparr>)) = pending_space (notify ns m)"
  "pending_not_empty (notify ns (m\<lparr>cell := s\<rparr>)) = pending_not_empty (notify ns m)"
  by (simp_all add: notify_def)

lemma waiting_settle:
  assumes ok: "producers_waiting_ok retained lim m" and i: "i < length (producers m)"
    and q: "producer_ok retained lim False (cell m) (case p of Waits t \<Rightarrow> Parked x t | Returned r \<Rightarrow> Outside)"
  shows "producers_waiting_ok retained lim (settle_send i x p m)"
proof -
  have "producer_ok retained lim (0 < pending_space m) (cell m) (case p of Waits t \<Rightarrow> Parked x t | Returned r \<Rightarrow> Outside)"
    by (rule producer_ok_mono [OF q]) simp
  from set_list_update_memI [OF i, where P = "producer_ok retained lim (0 < pending_space m) (cell m)", OF this] ok
  show ?thesis by (simp add: producers_waiting_ok_def)
qed

context critical_section
begin

lemma keeps_waiting:
  assumes sec: "section (cell m) = (r, s, ns)" and ok: "producers_waiting_ok retained lim m"
    and m': "cell m' = s" "producers m' = producers m" "pending_space m' = pending_space (notify ns m)"
  shows "producers_waiting_ok retained lim m'"
proof -
  have "0 < pending_space m' \<or> blocked_on lim b (cell m')"
    if "0 < pending_space m \<or> blocked_on lim b (cell m)" for b
    using space_signalled [OF sec that refl] m' by simp
  with ok m'(2) show ?thesis
    unfolding producers_waiting_ok_def by (auto intro: producer_ok_mono)
qed

end

lemma send_turn_Waits: "send_turn lim now x b since s = (Waits t, s', ns) \<Longrightarrow> blocked_on lim b s'"
  by (auto simp: send_turn_def blocked_on_def admission_bytes_def split: if_splits option.splits)

lemma send_turn_settled:
  "send_turn lim now x (retained x) since s = (p, s', ns) \<Longrightarrow> retained x \<le> max_bytes lim \<Longrightarrow>
     producer_ok retained lim False s' (case p of Waits t \<Rightarrow> Parked x t | Returned r \<Rightarrow> Outside)"
  by (auto dest: send_turn_Waits split: progress.splits)

lemma send_settled:
  "mailbox_send retained lim now x s = (p, s', ns) \<Longrightarrow>
     producer_ok retained lim False s' (case p of Waits t \<Rightarrow> Parked x t | Returned r \<Rightarrow> Outside)"
  by (auto simp: mailbox_send_def Let_def simp del: producer_ok.simps
      intro: send_turn_settled split: if_splits) simp_all

lemma step_waiting:
  "mailbox_step retained lim m m' \<Longrightarrow> producers_waiting_ok retained lim m \<Longrightarrow> producers_waiting_ok retained lim m'"
proof (induction rule: mailbox_step.induct)
  case (Try_send i m x r s ns)
  show ?case by (rule try_send_cs.keeps_waiting [OF Try_send(3,4)]) (simp_all add: notify_def)
next
  case (Send i m now x p s ns)
  have "producers_waiting_ok retained lim (notify ns (m\<lparr>cell := s\<rparr>))"
    by (rule send_cs.keeps_waiting [OF Send(3,4)]) (simp_all add: notify_def)
  then show ?case by (rule waiting_settle) (use Send send_settled in auto)
next
  case (Resume_send i m x t now p s ns)
  then have "producer_ok retained lim (0 < pending_space m) (cell m) (Resuming x t)"
    unfolding producers_waiting_ok_def by (metis nth_mem)
  moreover have "producers_waiting_ok retained lim (notify ns (m\<lparr>cell := s\<rparr>))"
    by (rule send_turn_cs.keeps_waiting [OF Resume_send(3,4)]) (simp_all add: notify_def)
  ultimately show ?case
    by (intro waiting_settle) (use Resume_send send_turn_settled in auto)
next
  case (Spurious_send i m)
  then have "producer_ok retained lim (0 < pending_space m) (cell m) (producers m ! i)"
    unfolding producers_waiting_ok_def by simp
  then have "producer_ok retained lim (0 < pending_space m) (cell m) (wake_producer (producers m ! i))"
    by (rule producer_ok_wake)
  from set_list_update_memI [OF Spurious_send(1), where P = "producer_ok retained lim (0 < pending_space m) (cell m)", OF this]
    Spurious_send(2)
  show ?case by (simp add: producers_waiting_ok_def)
next
  case (Try_recv m r s ns)
  show ?case by (rule try_recv_cs.keeps_waiting [OF Try_recv(2,3)]) (simp_all add: notify_def)
next
  case (Recv m b p s ns)
  show ?case by (rule recv_cs.keeps_waiting [OF Recv(2,3)]) (simp_all add: notify_def)
next
  case (Recv_timeout m timeout now p s ns)
  show ?case by (rule recv_timeout_cs.keeps_waiting [OF Recv_timeout(2,3)]) (simp_all add: notify_def)
next
  case (Resume_timeout m d timed_out now p s ns)
  show ?case by (rule recv_timeout_resume_cs.keeps_waiting [OF Resume_timeout(2,3)]) (simp_all add: notify_def)
next
  case (Deliver_space m)
  then show ?case by (auto simp: producers_waiting_ok_def intro: producer_ok_wake)
next
  case (Close m b s ns)
  show ?case by (rule close_cs.keeps_waiting [OF Close(1,2)]) (simp_all add: notify_def)
next
  case (Clone m)
  show ?case by (rule clone_cs.keeps_waiting [OF refl Clone]) (simp_all add: notify_def)
next
  case (Drop_sender m s ns)
  show ?case
    by (rule drop_sender_cs.keeps_waiting [of m "()" s ns, OF _ Drop_sender(2)])
      (simp_all add: notify_def Drop_sender(1))
next
  case (Drop_receiver m q s ns)
  show ?case by (rule drop_receiver_cs.keeps_waiting [OF Drop_receiver(2,3)]) (simp_all add: notify_def)
qed (auto simp: producers_waiting_ok_def)

lemma reachable_waiting: "mailbox_reachable retained lim n m \<Longrightarrow> producers_waiting_ok retained lim m"
  by (erule reachable_induct_step, simp add: producers_waiting_ok_def init_machine_def) (rule step_waiting)

subsection \<open>The consumer\<close>

lemma recv_status:
  assumes "recv s = (p, s', ns)"
  shows "consumer_alive s' = consumer_alive s" and "consumer_waiting s' = (case p of Waits _ \<Rightarrow> True | Returned _ \<Rightarrow> False)"
    and "p = Waits () \<Longrightarrow> awaits_item s'"
  using assms by (cases "queue s"; cases "accepting s"; auto simp: recv_simps awaits_item_def)+

lemma recv_timeout_turn_status:
  assumes "recv_timeout_turn d now s = (p, s', ns)"
  shows "consumer_alive s' = consumer_alive s" and "consumer_waiting s' = (case p of Waits _ \<Rightarrow> True | Returned _ \<Rightarrow> False)"
    and "p = Waits e \<Longrightarrow> awaits_item s'"
  using assms by (cases "queue s"; auto simp: recv_timeout_turn_simps awaits_item_def split: if_splits)+

text \<open>How a receive leaves the consumer: the flag of the mailbox, and why it waits.\<close>

definition recv_left :: "(('a, 'e) outcome, instant option) progress \<Rightarrow> 'a mailbox \<Rightarrow> 'a mailbox \<Rightarrow> bool" where
  "recv_left p s s' \<longleftrightarrow>
     consumer_alive s' = consumer_alive s \<and>
     consumer_waiting s' = (case p of Waits _ \<Rightarrow> True | Returned _ \<Rightarrow> False) \<and>
     (case p of Waits _ \<Rightarrow> awaits_item s' | Returned _ \<Rightarrow> True)"

lemma recv_left_recv: "recv s = (p, s', ns) \<Longrightarrow> recv_left (recv_as_timeout p) s s'"
  using recv_status [of s p s' ns]
  by (auto simp: recv_left_def recv_as_timeout_def split: progress.splits outcome.splits recv_error.splits)

lemma recv_left_turn: "recv_timeout_turn d now s = (p, s', ns) \<Longrightarrow> recv_left (with_deadline p) s s'"
  using recv_timeout_turn_status [of d now s p s' ns]
  by (cases p) (auto simp: recv_left_def)

lemma recv_left_resume: "recv_timeout_resume b d now s = (p, s', ns) \<Longrightarrow> recv_left (with_deadline p) s s'"
  by (auto simp: recv_timeout_resume_def recv_left_def split: if_splits dest!: recv_left_turn)

lemma recv_left_timeout: "recv_timeout timeout now s = (p, s', ns) \<Longrightarrow> recv_left p s s'"
  by (auto simp: recv_timeout_def split: option.splits prod.splits dest: recv_left_recv recv_left_turn)

lemma consumer_ok_settle:
  assumes "recv_left p (cell m) s" and "consumer_waiting_ok m" and "consumer m \<noteq> C_dropped"
  shows "consumer_waiting_ok (settle_recv p (notify ns (m\<lparr>cell := s\<rparr>)))"
  using assms by (auto simp: consumer_waiting_ok_def recv_left_def split: progress.splits)

lemma consumer_ok_section:
  assumes "consumer_waiting_ok m" and "consumer m' = consumer m"
    and "0 < pending_not_empty m \<or> awaits_item (cell m) \<Longrightarrow> 0 < pending_not_empty m' \<or> awaits_item (cell m')"
    and "consumer_waiting (cell m') = consumer_waiting (cell m)"
    and "consumer_alive (cell m') = consumer_alive (cell m)"
  shows "consumer_waiting_ok m'"
  using assms by (auto simp: consumer_waiting_ok_def)

lemma send_turn_flags:
  "send_turn lim now x b since s = (p, s', ns) \<Longrightarrow>
     consumer_waiting s' = consumer_waiting s \<and> consumer_alive s' = consumer_alive s"
  by (auto simp: send_turn_def split: if_splits option.splits)

lemma send_flags:
  "mailbox_send retained lim now x s = (p, s', ns) \<Longrightarrow>
     consumer_waiting s' = consumer_waiting s \<and> consumer_alive s' = consumer_alive s"
  by (auto simp: mailbox_send_def Let_def split: if_splits dest: send_turn_flags)

lemma try_send_flags:
  "try_send retained lim x s = (r, s', ns) \<Longrightarrow>
     consumer_waiting s' = consumer_waiting s \<and> consumer_alive s' = consumer_alive s"
  by (auto simp: try_send_def Let_def split: if_splits option.splits)

lemma wake_consumer_simps [simp]:
  "consumer_in_wait (wake_consumer b c) = consumer_in_wait c" "wake_consumer b c \<noteq> C_parked d"
  "wake_consumer b c = C_dropped \<longleftrightarrow> c = C_dropped"
  by (cases c; simp)+

lemma step_consumer:
  "mailbox_step retained lim m m' \<Longrightarrow> consumer_waiting_ok m \<Longrightarrow> consumer_waiting_ok m'"
proof (induction rule: mailbox_step.induct)
  case (Try_send i m x r s ns)
  show ?case
    by (rule consumer_ok_section [OF Try_send(4)])
      (use try_send_flags [OF Try_send(3)] try_send_cs.items_signalled [OF Try_send(3) _ refl]
        in \<open>auto simp: notify_def\<close>)
next
  case (Send i m now x p s ns)
  show ?case
    by (rule consumer_ok_section [OF Send(4)])
      (use send_flags [OF Send(3)] send_cs.items_signalled [OF Send(3) _ refl] in \<open>auto simp: notify_def\<close>)
next
  case (Resume_send i m x t now p s ns)
  show ?case
    by (rule consumer_ok_section [OF Resume_send(4)])
      (use send_turn_flags [OF Resume_send(3)] send_turn_cs.items_signalled [OF Resume_send(3) _ refl]
        in \<open>auto simp: notify_def\<close>)
next
  case (Try_recv m r s ns)
  then show ?case
    by (cases "queue (cell m)") (auto simp: consumer_waiting_ok_def try_recv_simps)
next
  case (Close m b s ns)
  show ?case
    by (rule consumer_ok_section [OF Close(2)])
      (use Close(1) close_cs.items_signalled [OF Close(1) _ refl] in \<open>auto simp: notify_def mailbox_close_def\<close>)
next
  case (Clone m)
  then show ?case by (simp add: consumer_waiting_ok_def clone_sender_def awaits_item_def)
next
  case (Drop_sender m s ns)
  then have "consumer_waiting s = consumer_waiting (cell m)" "consumer_alive s = consumer_alive (cell m)"
    by (auto simp: drop_sender_def Let_def split: if_splits)
  then show ?case
    using drop_sender_cs.items_signalled [of m "()" s ns m] Drop_sender(1)
    by (intro consumer_ok_section [OF Drop_sender(2)]) (auto simp: notify_def)
next
  case (Drop_receiver m q s ns)
  then show ?case by (auto simp: consumer_waiting_ok_def drop_receiver_def)
next
  case (Recv m b p s ns)
  then show ?case by (intro consumer_ok_settle recv_left_recv) auto
next
  case (Recv_timeout m timeout now p s ns)
  then show ?case by (intro consumer_ok_settle recv_left_timeout) auto
next
  case (Resume_timeout m d timed_out now p s ns)
  then show ?case by (intro consumer_ok_settle recv_left_resume) auto
qed (auto simp: consumer_waiting_ok_def)

lemma reachable_consumer: "mailbox_reachable retained lim n m \<Longrightarrow> consumer_waiting_ok m"
  by (erule reachable_induct_step, simp add: consumer_waiting_ok_def init_machine_def bounded_mailbox_def)
    (rule step_consumer)

subsection \<open>Items are neither lost, duplicated nor reordered\<close>

text \<open>A receive takes the items that it returns from the front.\<close>

definition recv_took :: "(('a, 'e) outcome, 'w) progress \<Rightarrow> 'a mailbox \<Rightarrow> 'a mailbox \<Rightarrow> bool" where
  "recv_took p s s' \<longleftrightarrow>
     mailbox_contents s = (case p of Returned (Ok x) \<Rightarrow> [x] | _ \<Rightarrow> []) @ mailbox_contents s' \<and>
     consumer_alive s' = consumer_alive s"

lemma took_try_recv: "try_recv s = (r, s', ns) \<Longrightarrow> recv_took (Returned r) s s'"
  by (cases "queue s") (auto simp: recv_took_def try_recv_simps mailbox_contents_def)

lemma took_recv: "recv s = (p, s', ns) \<Longrightarrow> recv_took (recv_as_timeout p) s s'"
  by (cases "queue s"; cases "accepting s")
    (auto simp: recv_took_def recv_simps recv_as_timeout_def mailbox_contents_def)

lemma took_turn: "recv_timeout_turn d now s = (p, s', ns) \<Longrightarrow> recv_took (with_deadline p) s s'"
  by (cases "queue s") (auto simp: recv_took_def recv_timeout_turn_simps mailbox_contents_def split: if_splits)

lemma took_resume: "recv_timeout_resume b d now s = (p, s', ns) \<Longrightarrow> recv_took (with_deadline p) s s'"
  by (auto simp: recv_timeout_resume_def recv_took_def split: if_splits dest!: took_turn)

lemma took_timeout: "recv_timeout timeout now s = (p, s', ns) \<Longrightarrow> recv_took p s s'"
  by (auto simp: recv_timeout_def split: option.splits prod.splits dest: took_recv took_turn)

lemma logs_settle:
  assumes took: "recv_took p (cell m) s" and ok: "logs_ok m" and alive: "consumer_alive (cell m)"
  shows "logs_ok (settle_recv p (notify ns (m\<lparr>cell := s\<rparr>)))"
  using took ok alive by (auto simp: recv_took_def logs_ok_def)

lemma step_logs:
  "mailbox_step retained lim m m' \<Longrightarrow> consumer_waiting_ok m \<Longrightarrow> logs_ok m \<Longrightarrow> logs_ok m'"
proof (induction rule: mailbox_step.induct)
  case (Try_send i m x r s ns)
  then show ?case
    by (auto simp: logs_ok_def dest: contents_try_send try_send_flags)
next
  case (Send i m now x p s ns)
  then show ?case by (auto simp: logs_ok_def dest: contents_send send_flags)
next
  case (Resume_send i m x t now p s ns)
  then show ?case by (auto simp: logs_ok_def dest: contents_send_turn send_turn_flags)
next
  case (Close m b s ns)
  then show ?case by (auto simp: logs_ok_def mailbox_close_def mailbox_contents_def)
next
  case (Clone m)
  then show ?case by (auto simp: logs_ok_def clone_sender_def mailbox_contents_def)
next
  case (Drop_sender m s ns)
  then show ?case by (auto simp: logs_ok_def drop_sender_def Let_def mailbox_contents_def split: if_splits)
next
  case (Drop_receiver m q s ns)
  then show ?case
    by (auto simp: logs_ok_def drop_receiver_def mailbox_contents_def consumer_waiting_ok_def)
next
  case (Try_recv m r s ns)
  then show ?case by (intro logs_settle took_try_recv) (auto simp: consumer_waiting_ok_def)
next
  case (Recv m b p s ns)
  then show ?case by (intro logs_settle took_recv) (auto simp: consumer_waiting_ok_def)
next
  case (Recv_timeout m timeout now p s ns)
  then show ?case by (intro logs_settle took_timeout) (auto simp: consumer_waiting_ok_def)
next
  case (Resume_timeout m d timed_out now p s ns)
  then show ?case by (intro logs_settle took_resume) (auto simp: consumer_waiting_ok_def)
qed (auto simp: logs_ok_def)

lemma reachable_logs: "mailbox_reachable retained lim n m \<Longrightarrow> logs_ok m"
  by (erule reachable_induct_step, simp add: logs_ok_def init_machine_def bounded_mailbox_def mailbox_contents_def)
    (blast intro: step_logs reachable_consumer)

end
