(* ===== verification/Mailbox_Properties.thy ===== *)
theory Mailbox_Properties
  imports Mailbox_Machine
begin

text \<open>
  What the mailbox promises to its producers and its consumer, in every state that any
  interleaving of their critical sections and notifications can reach.
\<close>

section \<open>A sender is unblocked by receiving\<close>

text \<open>
  The steps by which a waiting sender gets on: the consumer receives, or goes on receiving after its wait, a notification that was sent
  is delivered, and a sender that was notified retries. There is no wake-up without a notification among
  them, and neither a new send nor a close.
\<close>

inductive prompted_step :: "('a \<Rightarrow> usize) \<Rightarrow> mailbox_limits \<Rightarrow> 'a machine \<Rightarrow> 'a machine \<Rightarrow> bool"
  for retained lim where
  Receive: "consumer m = C_running \<Longrightarrow> try_recv (cell m) = (r, s, ns) \<Longrightarrow>
    prompted_step retained lim m (settle_recv (Returned r) (notify ns (m\<lparr>cell := s\<rparr>)))"
| Receive_on: "consumer m = C_resuming None b \<Longrightarrow> recv (cell m) = (p, s, ns) \<Longrightarrow>
    prompted_step retained lim m (settle_recv (recv_as_timeout p) (notify ns (m\<lparr>cell := s\<rparr>)))"
| Receive_on_timed: "consumer m = C_resuming (Some d) timed_out \<Longrightarrow>
    recv_timeout_resume timed_out d now (cell m) = (p, s, ns) \<Longrightarrow>
    prompted_step retained lim m (settle_recv (with_deadline p) (notify ns (m\<lparr>cell := s\<rparr>)))"
| Item_signal: "0 < pending_not_empty m \<Longrightarrow>
    prompted_step retained lim m
      (m\<lparr>pending_not_empty := pending_not_empty m - 1, consumer := wake_consumer False (consumer m)\<rparr>)"
| Space_signal: "0 < pending_space m \<Longrightarrow>
    prompted_step retained lim m
      (m\<lparr>pending_space := pending_space m - 1, producers := map wake_producer (producers m)\<rparr>)"
| Retry: "i < length (producers m) \<Longrightarrow> producers m ! i = Resuming x t \<Longrightarrow>
    send_turn lim now x (retained x) (Some t) (cell m) = (p, s, ns) \<Longrightarrow>
    prompted_step retained lim m (settle_send i x p (notify ns (m\<lparr>cell := s\<rparr>)))"

abbreviation prompted_steps :: "('a \<Rightarrow> usize) \<Rightarrow> mailbox_limits \<Rightarrow> 'a machine \<Rightarrow> 'a machine \<Rightarrow> bool" where
  "prompted_steps retained lim \<equiv> (prompted_step retained lim)\<^sup>*\<^sup>*"

lemma prompted_step_is_step: "prompted_step retained lim m m' \<Longrightarrow> mailbox_step retained lim m m'"
  by (induction rule: prompted_step.induct) (auto intro: mailbox_step.intros simp del: One_nat_def)

lemma steps_reachable:
  "prompted_steps retained lim m m' \<Longrightarrow> mailbox_reachable retained lim n m \<Longrightarrow> mailbox_reachable retained lim n m'"
  by (induction rule: rtranclp_induct) (auto intro: mailbox_reachable.Step prompted_step_is_step)

text \<open>What one received item leaves.\<close>

definition took_first :: "'a machine \<Rightarrow> 'a machine \<Rightarrow> bool" where
  "took_first m m' \<longleftrightarrow> queue (cell m') = tl (queue (cell m)) \<and> consumer m' = C_running \<and> producers m' = producers m \<and>
     accepting (cell m') = accepting (cell m) \<and> accepted m' = accepted m \<and> 0 < pending_space m'"

lemma receive_takes:
  assumes "consumer m = C_running" and "queue (cell m) = e # q"
  shows "\<exists>m'. prompted_step retained lim m m' \<and> took_first m m'"
  using prompted_step.Receive [OF assms(1) try_recv_simps(2) [OF assms(2)], of retained lim] assms(2)
  by (intro exI conjI) (auto simp: took_first_def notify_def dequeue_def)

lemma receive_on_takes:
  assumes "consumer m = C_resuming d b" and "queue (cell m) = e # q"
  shows "\<exists>m'. prompted_step retained lim m m' \<and> took_first m m'"
proof (cases d)
  case None
  then show ?thesis
    using prompted_step.Receive_on [OF _ recv_simps(3) [OF assms(2)], of b retained lim] assms
    by (intro exI conjI) (auto simp: took_first_def notify_def dequeue_def recv_as_timeout_def)
next
  case (Some u)
  have "recv_timeout_resume b u now (cell m) =
      (Returned (Ok (entry_value e)), (snd (dequeue (cell m)))\<lparr>consumer_waiting := False\<rparr>, [Notify_space_all])" for now
    by (simp add: recv_timeout_resume_def recv_timeout_turn_simps(1) [OF assms(2)] assms(2))
  from prompted_step.Receive_on_timed [OF _ this, of retained lim] show ?thesis using assms Some
    by (intro exI conjI) (auto simp: took_first_def notify_def dequeue_def)
qed

lemma first_taken:
  assumes ok: "consumer_waiting_ok m" "consumer m \<noteq> C_dropped" and q: "queue (cell m) = e # q"
  shows "\<exists>m'. prompted_steps retained lim m m' \<and> took_first m m'"
proof (cases "consumer m")
  case C_running
  then show ?thesis using receive_takes [OF _ q, of retained lim] by blast
next
  case (C_resuming d b)
  then show ?thesis using receive_on_takes [OF _ q, of d b retained lim] by blast
next
  case (C_parked d)
  let ?m = "m\<lparr>pending_not_empty := pending_not_empty m - 1, consumer := wake_consumer False (consumer m)\<rparr>"
  have "0 < pending_not_empty m" using ok C_parked q by (auto simp: consumer_waiting_ok_def awaits_item_def)
  then have "prompted_step retained lim m ?m" by (rule prompted_step.Item_signal)
  moreover obtain m' where "prompted_step retained lim ?m m'" "took_first ?m m'"
    using receive_on_takes [of ?m d False e q retained lim] C_parked q by auto
  moreover from this(2) have "took_first m m'" by (simp add: took_first_def)
  ultimately show ?thesis by (meson converse_rtranclp_into_rtranclp r_into_rtranclp)
qed (use ok in simp)

definition drained :: "'a machine \<Rightarrow> 'a machine \<Rightarrow> bool" where
  "drained m m' \<longleftrightarrow> queue (cell m') = [] \<and> consumer m' \<noteq> C_dropped \<and> producers m' = producers m \<and>
     accepting (cell m') = accepting (cell m) \<and> accepted m' = accepted m \<and>
     (0 < pending_space m \<or> queue (cell m) \<noteq> [] \<longrightarrow> 0 < pending_space m')"

lemma drain_steps:
  assumes "mailbox_reachable retained lim n m" and "consumer m \<noteq> C_dropped"
  shows "\<exists>m'. prompted_steps retained lim m m' \<and> drained m m'"
  using assms
proof (induction "length (queue (cell m))" arbitrary: m)
  case 0
  then show ?case by (intro exI [of _ m]) (simp add: drained_def)
next
  case (Suc k)
  then obtain e q where q: "queue (cell m) = e # q" by (metis length_Suc_conv)
  then obtain m1 where m1: "prompted_steps retained lim m m1" "took_first m m1"
    using first_taken [OF reachable_consumer [OF Suc.prems(1)] Suc.prems(2)] by blast
  then have "k = length (queue (cell m1))" "consumer m1 \<noteq> C_dropped" using Suc.hyps(2) q by (auto simp: took_first_def)
  then obtain m' where "prompted_steps retained lim m1 m'" "drained m1 m'"
    using Suc.hyps(1) [OF _ steps_reachable [OF m1(1) Suc.prems(1)]] by blast
  moreover from this(2) m1(2) have "drained m m'" by (auto simp: drained_def took_first_def)
  ultimately show ?case using m1(1) by (meson rtranclp_trans)
qed

definition deliver_space :: "'a machine \<Rightarrow> 'a machine" where
  "deliver_space m = m\<lparr>pending_space := pending_space m - 1, producers := map wake_producer (producers m)\<rparr>"

lemma admission_empty:
  assumes "mailbox_inv lim s" "queue s = []" "0 < max_items lim" "b \<le> max_bytes lim" "max_bytes lim \<le> usize_max"
  shows "admission_bytes s lim b = Some b"
  using assms by (auto simp: admission_Some_iff mailbox_inv_defs)

text \<open>A sender that was notified returns when the queue is empty, or when the receiver is gone.\<close>

lemma retry_returns:
  assumes inv: "mailbox_inv lim (cell m)" and empty: "queue (cell m) = [] \<or> \<not> consumer_alive (cell m)"
    and lim: "0 < max_items lim" "max_bytes lim \<le> usize_max" and b: "retained x \<le> max_bytes lim"
    and i: "i < length (producers m)" "producers m ! i = Resuming x t"
  obtains m' where "prompted_step retained lim m m'" "producers m' ! i = Outside"
    "accepted m' = accepted m @ (if accepting (cell m) \<and> consumer_alive (cell m) then [x] else [])"
proof -
  obtain p s ns where p: "send_turn lim t x (retained x) (Some t) (cell m) = (p, s, ns)"
    using prod_cases3 by blast
  have "p = (if accepting (cell m) \<and> consumer_alive (cell m) then Returned (Ok ()) else Returned (Err (Send_Closed x)))"
    using p empty admission_empty [OF inv _ lim(1) b lim(2)] by (auto simp: send_turn_def split: if_splits)
  with prompted_step.Retry [where retained = retained, OF i p] i show ?thesis
    by (intro that [of "settle_send i x p (notify ns (m\<lparr>cell := s\<rparr>))"]) auto
qed

lemma notified_returns:
  assumes m: "mailbox_reachable retained lim n m" and empty: "queue (cell m) = [] \<or> \<not> consumer_alive (cell m)"
    and lim: "0 < max_items lim" "max_bytes lim \<le> usize_max"
    and i: "i < length (producers m)" "producers m ! i = Parked x t \<and> 0 < pending_space m \<or> producers m ! i = Resuming x t"
  shows "\<exists>m'. prompted_steps retained lim m m' \<and> producers m' ! i = Outside \<and>
    (accepting (cell m) \<and> consumer_alive (cell m) \<longrightarrow> accepted m' = accepted m @ [x])"
proof -
  let ?m = "if producers m ! i = Resuming x t then m else deliver_space m"
  have "prompted_steps retained lim m ?m"
    using i prompted_step.Space_signal [of m retained lim] by (auto simp: deliver_space_def)
  moreover note r = steps_reachable [OF this m]
  have "producer_ok retained lim (0 < pending_space m) (cell m) (producers m ! i)"
    using reachable_waiting [OF m] i(1) by (simp add: producers_waiting_ok_def)
  then have b: "retained x \<le> max_bytes lim" using i(2) by auto
  obtain m' where "prompted_step retained lim ?m m'" "producers m' ! i = Outside"
      "accepted m' = accepted ?m @ (if accepting (cell ?m) \<and> consumer_alive (cell ?m) then [x] else [])"
    by (rule retry_returns [where retained = retained and x = x and t = t and i = i, OF reachable_inv [OF r] _ lim b])
      (use empty i in \<open>auto simp: deliver_space_def\<close>)
  moreover have "cell ?m = cell m" "accepted ?m = accepted m" by (simp_all add: deliver_space_def)
  ultimately show ?thesis by (auto intro: rtranclp.rtrancl_into_rtrancl)
qed

section \<open>Promises\<close>

text \<open>C13: In every reachable state a mailbox holds at most \<open>max_items\<close> items and at most
  \<open>max_bytes\<close> retained bytes, its byte counter is the sum over the queue, and, until the counter
  of accepted items saturates, accepted items are delivered, queued or discarded ones.\<close>

theorem mailbox_within_budget:
  assumes "mailbox_reachable retained lim n m"
  shows "length (queue (cell m)) \<le> max_items lim \<and> queued_bytes (cell m) = entry_bytes (queue (cell m)) \<and>
    queued_bytes (cell m) \<le> max_bytes lim \<and>
    (enqueued_items (counters (cell m)) < u64_max \<longrightarrow>
       enqueued_items (counters (cell m)) =
         dequeued_items (counters (cell m)) + length (queue (cell m)) + discarded_items (counters (cell m)))"
  using reachable_inv [OF assms] by (auto simp: mailbox_inv_defs)

text \<open>C11: No item is lost, duplicated or reordered: the accepted items are, in order, those
  delivered, those discarded with the receiver and those still queued; nothing is discarded while
  the receiver lives.\<close>

theorem mailbox_delivers_in_order:
  assumes "mailbox_reachable retained lim n m"
  shows "accepted m = delivered m @ discarded m @ mailbox_contents (cell m) \<and>
    (consumer_alive (cell m) \<longrightarrow> discarded m = [])"
  using reachable_logs [OF assms] by (auto simp: logs_ok_def)

text \<open>C10: No wake-up is lost: a sender that waits for space has a notification under way or
  still cannot be admitted, and a consumer that waits for an item has a notification under way or
  the open mailbox is empty.\<close>

theorem mailbox_no_lost_wakeup:
  assumes "mailbox_reachable retained lim n m"
  shows "(Parked x t \<in> set (producers m) \<longrightarrow>
      0 < pending_space m \<or>
      accepting (cell m) \<and> consumer_alive (cell m) \<and> admission_bytes (cell m) lim (retained x) = None) \<and>
    (consumer m = C_parked d \<longrightarrow>
      0 < pending_not_empty m \<or> queue (cell m) = [] \<and> accepting (cell m))"
  using reachable_waiting [OF assms] reachable_consumer [OF assms]
  by (auto simp: producers_waiting_ok_def consumer_waiting_ok_def blocked_on_def awaits_item_def)

text \<open>Producers and consumer never wait for each other: when a sender waits for space
  and the consumer waits for an item, a notification is under way.\<close>

theorem mailbox_deadlock_free:
  assumes m: "mailbox_reachable retained lim n m"
    and lim: "0 < max_items lim" "max_bytes lim \<le> usize_max"
    and wait: "Parked x t \<in> set (producers m)" "consumer m = C_parked d"
  shows "0 < pending_space m \<or> 0 < pending_not_empty m"
proof (rule ccontr)
  assume none: "\<not> (0 < pending_space m \<or> 0 < pending_not_empty m)"
  with reachable_waiting [OF m] wait(1)
  have x: "blocked_on lim (retained x) (cell m)" "retained x \<le> max_bytes lim"
    by (auto simp: producers_waiting_ok_def)
  from none reachable_consumer [OF m] wait(2) have "queue (cell m) = []"
    by (auto simp: consumer_waiting_ok_def awaits_item_def)
  with x admission_empty [OF reachable_inv [OF m] _ lim(1) x(2) lim(2)] show False
    by (simp add: blocked_on_def)
qed

text \<open>C12: A sender is not blocked for ever: from every reachable state in which it waits, whatever
  the consumer does, receiving and the notifications that are sent thereby lead to a state in which its send
  has returned, with the item accepted if the mailbox was open; no wake-up without a notification is needed.\<close>

theorem mailbox_send_unblocked:
  assumes m: "mailbox_reachable retained lim n m"
    and lim: "0 < max_items lim" "max_bytes lim \<le> usize_max"
    and i: "i < length (producers m)" "producers m ! i = Parked x t \<or> producers m ! i = Resuming x t"
  shows "\<exists>m'. prompted_steps retained lim m m' \<and> producers m' ! i = Outside \<and>
    (accepting (cell m) \<and> consumer_alive (cell m) \<longrightarrow> accepted m' = accepted m @ [x])"
proof -
  have ok: "producer_ok retained lim (0 < pending_space m) (cell m) (producers m ! i)"
    using reachable_waiting [OF m] i(1) by (simp add: producers_waiting_ok_def)
  show ?thesis
  proof (cases "consumer m = C_dropped")
    case True
    then have dead: "\<not> consumer_alive (cell m)" using reachable_consumer [OF m] by (simp add: consumer_waiting_ok_def)
    then show ?thesis using notified_returns [OF m _ lim i(1), of x t] ok i(2) by (auto simp: blocked_on_def)
  next
    case False
    then obtain m1 where m1: "prompted_steps retained lim m m1" "drained m m1" using drain_steps [OF m] by blast
    note r = steps_reachable [OF m1(1) m]
    have "0 < pending_space m \<or> queue (cell m) \<noteq> []" if "producers m ! i = Parked x t"
      using ok that admission_empty [OF reachable_inv [OF m] _ lim(1) _ lim(2), of "retained x"] by (auto simp: blocked_on_def)
    then have "producers m1 ! i = Parked x t \<and> 0 < pending_space m1 \<or> producers m1 ! i = Resuming x t"
      using m1(2) i(2) by (auto simp: drained_def)
    then obtain m' where "prompted_steps retained lim m1 m'" "producers m' ! i = Outside"
        "accepting (cell m1) \<and> consumer_alive (cell m1) \<longrightarrow> accepted m' = accepted m1 @ [x]"
      using notified_returns [OF r _ lim, of i x t] m1(2) i(1) by (auto simp: drained_def)
    moreover have "consumer_alive (cell m1)"
      using reachable_consumer [OF r] m1(2) by (simp add: consumer_waiting_ok_def drained_def)
    ultimately show ?thesis using m1 by (auto simp: drained_def intro: rtranclp_trans)
  qed
qed

text \<open>The gauges of the metrics are exact: \<open>waiting_producers\<close> is the number of senders
  inside their wait, and \<open>consumer_waiting\<close> says whether the consumer is inside its own.\<close>

theorem mailbox_waiting_gauges:
  assumes "mailbox_reachable retained lim n m" and "n \<le> usize_max"
  shows "metrics_waiting_producers (mailbox_metrics_of lim (cell m)) = length (filter in_wait (producers m)) \<and>
    metrics_consumer_waiting (mailbox_metrics_of lim (cell m)) = consumer_in_wait (consumer m)"
  using reachable_counted [OF assms(2,1)] reachable_consumer [OF assms(1)]
  by (simp add: mailbox_metrics_of_def producers_counted_def consumer_waiting_ok_def)

section \<open>A run\<close>

text \<open>
  One slot and ten bytes, two producers; an item is its own size. The consumer waits, the first
  producer sends 3, the second one waits for space with 4 before the consumer has been notified;
  later the consumer wakes up and takes the first item.
\<close>

definition demo_limits :: mailbox_limits where
  "demo_limits = \<lparr>max_items = 1, max_bytes = 10\<rparr>"

definition demo_wait :: "nat machine" where
  "demo_wait = (case recv (cell (init_machine 2 :: nat machine)) of (p, s, ns) \<Rightarrow>
     settle_recv (recv_as_timeout p) (notify ns ((init_machine 2)\<lparr>cell := s\<rparr>)))"

definition demo_sent :: "nat machine" where
  "demo_sent = (case try_send id demo_limits 3 (cell demo_wait) of (r, s, ns) \<Rightarrow>
     notify ns (demo_wait\<lparr>cell := s, accepted := accepted demo_wait @ (if r = Ok () then [3] else [])\<rparr>))"

definition demo_parked :: "nat machine" where
  "demo_parked = (case mailbox_send id demo_limits 50 4 (cell demo_sent) of (p, s, ns) \<Rightarrow>
     settle_send 1 4 p (notify ns (demo_sent\<lparr>cell := s\<rparr>)))"

definition demo_woken :: "nat machine" where
  "demo_woken = demo_parked\<lparr>pending_not_empty := pending_not_empty demo_parked - 1,
     consumer := wake_consumer False (consumer demo_parked)\<rparr>"

definition demo_taken :: "nat machine" where
  "demo_taken = (case recv (cell demo_woken) of (p, s, ns) \<Rightarrow>
     settle_recv (recv_as_timeout p) (notify ns (demo_woken\<lparr>cell := s\<rparr>)))"

lemmas demo_ops = notify_def settle_recv_def settle_send_def recv_as_timeout_def recv_def dequeue_def
  upd_counters_def try_send_def mailbox_send_def send_turn_def admission_bytes_def enqueue_def Let_def
  checked_add_usize_def usize_to_u64_def sat_add_usize_def sat_add_u64_def int_bounds
  init_machine_def bounded_mailbox_def counters_default_def demo_limits_def

lemma demo_wait_eq:
  "cell demo_wait = (bounded_mailbox :: nat mailbox)\<lparr>consumer_waiting := True\<rparr>" "producers demo_wait = [Outside, Outside]"
  "consumer demo_wait = C_parked None" "pending_not_empty demo_wait = 0" "pending_space demo_wait = 0"
  "accepted demo_wait = []" "delivered demo_wait = []" "discarded demo_wait = []"
  by (simp_all add: demo_wait_def demo_ops numeral_2_eq_2)

lemma demo_sent_eq:
  "queue (cell demo_sent) = [\<lparr>entry_value = 3, reserved_bytes = 3\<rparr>]" "queued_bytes (cell demo_sent) = 3"
  "accepting (cell demo_sent)" "consumer_alive (cell demo_sent)" "waiting_producers (cell demo_sent) = 0"
  "producers demo_sent = [Outside, Outside]" "consumer demo_sent = C_parked None"
  "pending_not_empty demo_sent = 1" "pending_space demo_sent = 0" "accepted demo_sent = [3]"
  "delivered demo_sent = []" "discarded demo_sent = []"
  by (simp_all add: demo_sent_def demo_wait_eq demo_ops)

lemma demo_parked_eq:
  "queue (cell demo_parked) = [\<lparr>entry_value = 3, reserved_bytes = 3\<rparr>]" "queued_bytes (cell demo_parked) = 3"
  "accepting (cell demo_parked)" "consumer_alive (cell demo_parked)" "waiting_producers (cell demo_parked) = 1"
  "producers demo_parked = [Outside, Parked 4 50]" "consumer demo_parked = C_parked None"
  "pending_not_empty demo_parked = 1" "pending_space demo_parked = 0" "accepted demo_parked = [3]"
  "delivered demo_parked = []" "discarded demo_parked = []"
  using demo_sent_eq by (simp_all add: demo_parked_def demo_ops)

lemma demo_taken_eq:
  "queue (cell demo_taken) = []" "accepting (cell demo_taken)" "producers demo_taken = [Outside, Parked 4 50]"
  "consumer demo_taken = C_running" "accepted demo_taken = [3]" "delivered demo_taken = [3]"
  using demo_parked_eq by (simp_all add: demo_taken_def demo_woken_def demo_ops)

lemma init_consumer: "consumer (init_machine n) = C_running"
  by (simp add: init_machine_def)

lemma demo_sent_reachable: "mailbox_reachable id demo_limits 2 demo_sent"
proof -
  have "mailbox_step id demo_limits (init_machine 2) demo_wait"
    unfolding demo_wait_def by (auto intro!: mailbox_step.Recv simp: init_consumer split: prod.splits)
  then have "mailbox_reachable id demo_limits 2 demo_wait"
    using mailbox_reachable.Start by (rule mailbox_reachable.Step [rotated])
  moreover have "mailbox_step id demo_limits demo_wait demo_sent"
    unfolding demo_sent_def
    by (simp only: split: prod.splits) (intro allI impI mailbox_step.Try_send [of 0]; simp add: demo_wait_eq(2))
  ultimately show ?thesis by (rule mailbox_reachable.Step)
qed

lemma demo_parked_reachable: "mailbox_reachable id demo_limits 2 demo_parked"
proof -
  have "mailbox_step id demo_limits demo_sent demo_parked"
    unfolding demo_parked_def
    by (auto simp: demo_sent_eq intro!: mailbox_step.Send [of "Suc 0"] split: prod.splits)
  with demo_sent_reachable show ?thesis by (rule mailbox_reachable.Step)
qed

lemma demo_taken_reachable: "mailbox_reachable id demo_limits 2 demo_taken"
proof -
  have "mailbox_step id demo_limits demo_parked demo_woken"
    unfolding demo_woken_def by (rule mailbox_step.Deliver_not_empty) (simp add: demo_parked_eq)
  with demo_parked_reachable have "mailbox_reachable id demo_limits 2 demo_woken"
    by (rule mailbox_reachable.Step)
  moreover have "mailbox_step id demo_limits demo_woken demo_taken"
    unfolding demo_taken_def
    by (auto simp: demo_woken_def demo_parked_eq intro!: mailbox_step.Recv split: prod.splits)
  ultimately show ?thesis by (rule mailbox_reachable.Step)
qed

lemma mailbox_within_budget_witness:
  "length (queue (cell demo_parked)) = 1 \<and> queued_bytes (cell demo_parked) \<le> max_bytes demo_limits"
  using mailbox_within_budget [OF demo_parked_reachable] by (simp add: demo_parked_eq)

lemma mailbox_delivers_in_order_witness: "accepted demo_taken = delivered demo_taken"
  using mailbox_delivers_in_order [OF demo_taken_reachable] by (simp add: demo_taken_eq mailbox_contents_def)

lemma mailbox_no_lost_wakeup_witness: "admission_bytes (cell demo_parked) demo_limits 4 = None"
  using mailbox_no_lost_wakeup [OF demo_parked_reachable, of 4 50 None] by (simp add: demo_parked_eq)

lemma mailbox_deadlock_free_witness: "0 < pending_space demo_parked \<or> 0 < pending_not_empty demo_parked"
  by (rule mailbox_deadlock_free [OF demo_parked_reachable, of 4 50 None])
    (simp_all add: demo_parked_eq demo_limits_def int_bounds)

lemma mailbox_send_unblocked_witness:
  "\<exists>m'. prompted_steps id demo_limits demo_parked m' \<and> producers m' ! 1 = Outside \<and> accepted m' = [3, 4]"
  using mailbox_send_unblocked [OF demo_parked_reachable, of 1 4 50]
  by (auto simp: demo_parked_eq demo_limits_def int_bounds)

lemma mailbox_waiting_gauges_witness:
  "metrics_waiting_producers (mailbox_metrics_of demo_limits (cell demo_parked)) = 1"
  using mailbox_waiting_gauges [OF demo_parked_reachable] by (simp add: demo_parked_eq int_bounds)

end
