(* ===== verification/Runtime_Api.thy ===== *)
theory Runtime_Api
  imports Mailbox
begin

text \<open>
  The vocabulary of the pane runtime in \<open>rssh-runtime/src/api.rs\<close>: pane generations and the
  process-wide counter that issues them, revisions, effect sequences and the cursor that checks
  them, metadata changes and effects. A \<open>NonZeroU64\<close> is a number between 1 and \<open>u64_max\<close>. The
  payloads keep the bytes and texts of the sources; where the code asks for the capacity of a
  buffer, it is a field beside the contents.
\<close>

section \<open>Sequences\<close>

datatype sequence_kind = Kind_PaneGeneration | Kind_RuntimeRevision | Kind_EffectSequence

datatype sequence_exhausted = SequenceExhausted sequence_kind

type_synonym pane_generation = u64
type_synonym runtime_revision = u64
type_synonym effect_sequence = u64

definition sequence_first :: u64 where
  "sequence_first = 1"

text \<open>The closure of \<open>fetch_update\<close>, then the result of the whole call and the counter it leaves.\<close>

definition next_generation :: "u64 \<Rightarrow> u64 option" where
  "next_generation current =
     (if current = 0 then None
      else Some (case checked_add_u64 current 1 of None \<Rightarrow> 0 | Some n \<Rightarrow> n))"

definition issue_pane_generation :: "u64 \<Rightarrow> (pane_generation, sequence_exhausted) outcome \<times> u64" where
  "issue_pane_generation counter =
     (case next_generation counter of
        None \<Rightarrow> (Err (SequenceExhausted Kind_PaneGeneration), counter)
      | Some next_value \<Rightarrow>
          (if counter = 0 then Err (SequenceExhausted Kind_PaneGeneration) else Ok counter, next_value))"

record pane_token =
  token_pane :: nat
  token_generation :: pane_generation

definition issue_token :: "nat \<Rightarrow> u64 \<Rightarrow> (pane_token, sequence_exhausted) outcome \<times> u64" where
  "issue_token pane counter =
     (case issue_pane_generation counter of (r, counter') \<Rightarrow>
        (map_ok (\<lambda>g. \<lparr>token_pane = pane, token_generation = g\<rparr>) r, counter'))"

definition revision_next :: "runtime_revision \<Rightarrow> (runtime_revision, sequence_exhausted) outcome" where
  "revision_next r =
     (case checked_add_u64 r 1 of
        None \<Rightarrow> Err (SequenceExhausted Kind_RuntimeRevision)
      | Some n \<Rightarrow> if n = 0 then Err (SequenceExhausted Kind_RuntimeRevision) else Ok n)"

definition effect_next :: "effect_sequence \<Rightarrow> (effect_sequence, sequence_exhausted) outcome" where
  "effect_next e =
     (case checked_add_u64 e 1 of
        None \<Rightarrow> Err (SequenceExhausted Kind_EffectSequence)
      | Some n \<Rightarrow> if n = 0 then Err (SequenceExhausted Kind_EffectSequence) else Ok n)"

fun ok_option :: "('a, 'e) outcome \<Rightarrow> 'a option" where
  "ok_option (Ok a) = Some a"
| "ok_option _ = None"

section \<open>Metadata and effects\<close>

datatype 'a metadata_change = Set_to 'a | Clear

datatype runtime_progress = Progress_None | Progress_Percentage u8 | Progress_Error u8 | Progress_Indeterminate

record user_var_delta =
  uv_name :: str
  uv_value :: "str metadata_change"

record pane_metadata_delta =
  md_title :: "str metadata_change option"
  md_working_directory :: "str metadata_change option"
  md_badge_format :: "str metadata_change option"
  md_progress :: "runtime_progress metadata_change option"
  md_user_vars :: "user_var_delta list"

record buffer =
  buf_bytes :: "u8 list"
  buf_capacity :: usize

record text_buffer =
  txt_chars :: str
  txt_capacity :: usize

datatype mouse_protocol_mode = Mouse_X10 | Mouse_Utf8 | Mouse_Sgr | Mouse_Urxvt | Mouse_SgrPixels

datatype mouse_reporting_mode = Reporting_None | Reporting_Normal | Reporting_ButtonEvent | Reporting_AnyEvent

record mouse_input_mode =
  reporting :: mouse_reporting_mode
  protocol :: mouse_protocol_mode

datatype terminal_mode_change =
    ApplicationCursorKeys bool
  | ApplicationKeypad bool
  | BracketedPaste bool
  | Mouse mouse_input_mode
  | Focus bool
  | SynchronizedOutput bool
  | KittyKeyboardFlags u16
  | ModifyOtherKeys u8
  | Win32InputMode bool

datatype runtime_effect_kind =
    TransportWrite buffer
  | HostStream buffer
  | VisibleOutput buffer
  | ModeChange terminal_mode_change
  | Bell u64
  | ClipboardWrite "text_buffer option" text_buffer
  | ClipboardRead text_buffer
  | Notification "text_buffer option" text_buffer
  | Diagnostic text_buffer

record runtime_effect =
  effect_sequence_of :: effect_sequence
  effect_kind :: runtime_effect_kind

record runtime_batch_metrics =
  transport_bytes :: usize
  coalesced_reads :: u32
  parse_duration :: duration
  snapshot_duration :: duration

definition batch_metrics_default :: runtime_batch_metrics where
  "batch_metrics_default =
     \<lparr>transport_bytes = 0, coalesced_reads = 0, parse_duration = 0, snapshot_duration = 0\<rparr>"

section \<open>The sequence cursor\<close>

datatype effect_sequence_error =
    Seq_Gap effect_sequence effect_sequence
  | Seq_DuplicateOrOutOfOrder effect_sequence effect_sequence
  | Seq_Exhausted effect_sequence

record effect_sequence_cursor =
  cursor_expected :: "effect_sequence option"

definition cursor_new :: "effect_sequence \<Rightarrow> effect_sequence_cursor" where
  "cursor_new e = \<lparr>cursor_expected = Some e\<rparr>"

text \<open>The loop over the effects of a batch, with the candidate for the next expectation.\<close>

fun validate_effects :: "effect_sequence option \<Rightarrow> runtime_effect list
    \<Rightarrow> (effect_sequence option, effect_sequence_error) outcome" where
  "validate_effects candidate [] = Ok candidate"
| "validate_effects candidate (effect # effects) =
     (case candidate of
        None \<Rightarrow> Err (Seq_Exhausted (effect_sequence_of effect))
      | Some expected \<Rightarrow>
          if effect_sequence_of effect > expected then Err (Seq_Gap expected (effect_sequence_of effect))
          else if effect_sequence_of effect < expected
          then Err (Seq_DuplicateOrOutOfOrder expected (effect_sequence_of effect))
          else validate_effects (ok_option (effect_next expected)) effects)"

definition validate_batch :: "runtime_effect list \<Rightarrow> effect_sequence_cursor
    \<Rightarrow> (unit, effect_sequence_error) outcome \<times> effect_sequence_cursor" where
  "validate_batch effects c =
     (case validate_effects (cursor_expected c) effects of
        Ok candidate \<Rightarrow> (Ok (), c\<lparr>cursor_expected := candidate\<rparr>)
      | r \<Rightarrow> (fail_as r, c))"

section \<open>Laws\<close>

lemma issue_generation_simps:
  "issue_pane_generation 0 = (Err (SequenceExhausted Kind_PaneGeneration), 0)"
  "0 < c \<Longrightarrow> c < u64_max \<Longrightarrow> issue_pane_generation c = (Ok c, c + 1)"
  "issue_pane_generation u64_max = (Ok u64_max, 0)"
  by (simp_all add: issue_pane_generation_def next_generation_def checked_add_u64_def int_bounds)

text \<open>Issuing \<open>n\<close> generations in a row, as the allocator handles of the process do.\<close>

fun issue_many :: "nat \<Rightarrow> u64 \<Rightarrow> (pane_generation, sequence_exhausted) outcome list \<times> u64" where
  "issue_many 0 c = ([], c)"
| "issue_many (Suc n) c =
     (case issue_pane_generation c of (r, c1) \<Rightarrow>
        case issue_many n c1 of (rs, c2) \<Rightarrow> (r # rs, c2))"

lemma issue_many_Suc:
  "fst (issue_many (Suc n) c) =
     fst (issue_pane_generation c) # fst (issue_many n (snd (issue_pane_generation c)))"
  by (simp split: prod.splits)

declare issue_many.simps(2) [simp del]

lemma issue_many_zero: "fst (issue_many n 0) = replicate n (Err (SequenceExhausted Kind_PaneGeneration))"
  by (induction n) (auto simp: issue_many_Suc issue_generation_simps)

lemma issue_many_nth:
  assumes "0 < c" and "c \<le> u64_max" and "i < n"
  shows "fst (issue_many n c) ! i =
    (if c + i \<le> u64_max then Ok (c + i) else Err (SequenceExhausted Kind_PaneGeneration))"
  using assms
proof (induction n arbitrary: c i)
  case (Suc n)
  show ?case
  proof (cases "c < u64_max")
    case True
    with Suc.prems Suc.IH [of "c + 1" "i - 1"] show ?thesis
      by (cases i) (simp_all add: issue_many_Suc issue_generation_simps)
  next
    case False
    with Suc.prems have c: "c = u64_max" by simp
    have "fst (issue_many n 0) ! j = Err (SequenceExhausted Kind_PaneGeneration)" if "j < n" for j
      using that by (simp add: issue_many_zero)
    with Suc.prems c show ?thesis
      by (cases i) (auto simp: issue_many_Suc issue_generation_simps)
  qed
qed simp

lemma effect_next_Ok: "e < u64_max \<Longrightarrow> effect_next e = Ok (e + 1)"
  by (simp add: effect_next_def checked_add_u64_def)

lemma effect_next_max: "u64_max \<le> e \<Longrightarrow> effect_next e = Err (SequenceExhausted Kind_EffectSequence)"
  by (simp add: effect_next_def checked_add_u64_def)

text \<open>The expectation after \<open>n\<close> accepted effects, starting from sequence \<open>e\<close>.\<close>

definition expected_after :: "effect_sequence \<Rightarrow> nat \<Rightarrow> effect_sequence option" where
  "expected_after e n = (if e + n \<le> u64_max then Some (e + n) else None)"

lemma validate_None: "validate_effects None es = Ok c \<longleftrightarrow> es = [] \<and> c = None"
  by (cases es) auto

lemma validate_effects_Ok:
  assumes "0 < e" and "e \<le> u64_max"
  shows "validate_effects (Some e) es = Ok c \<longleftrightarrow>
    map effect_sequence_of es = [e ..< e + length es] \<and> e + length es \<le> u64_max + 1 \<and>
    c = expected_after e (length es)"
  using assms
proof (induction es arbitrary: e)
  case Nil
  then show ?case by (auto simp: expected_after_def)
next
  case (Cons x es)
  have upt: "[e ..< e + length (x # es)] = e # [e + 1 ..< e + 1 + length es]"
    by (subst upt_conv_Cons) (simp_all del: upt_Suc)
  show ?case
  proof (cases "e < u64_max")
    case True
    with Cons.IH [of "e + 1"] Cons.prems show ?thesis
      unfolding upt by (auto simp: effect_next_Ok expected_after_def)
  next
    case False
    with Cons.prems have e: "e = u64_max" by simp
    have "validate_effects (Some e) (x # es) = Ok c \<longleftrightarrow> effect_sequence_of x = e \<and> es = [] \<and> c = None"
      using e by (auto simp: effect_next_max validate_None)
    then show ?thesis
      unfolding upt using e by (cases es) (auto simp: expected_after_def)
  qed
qed

end
