(* ===== verification/Latest_Slot.thy ===== *)
theory Latest_Slot
  imports Runtime_Api
begin

text \<open>
  The one-slot latest-value publication of \<open>rssh-runtime/src/latest.rs\<close> with its wake token. The
  parameter \<open>coalesce\<close> is the trait method \<open>coalesce_replaced\<close>: the new value and the one it
  replaces give the value that is stored.
\<close>

datatype publish_action = Wake | Coalesced

datatype drain_completion = Idle | Continue

record latest_slot_metrics =
  publications :: u64
  replaced_frames :: u64
  wakes :: u64
  continuations :: u64

record 'a latest_slot =
  latest :: "'a option"
  wake_pending :: bool
  continuation_scheduled :: bool
  slot_metrics :: latest_slot_metrics

definition slot_new :: "'a latest_slot" where
  "slot_new = \<lparr>latest = None, wake_pending = False, continuation_scheduled = False,
     slot_metrics = \<lparr>publications = 0, replaced_frames = 0, wakes = 0, continuations = 0\<rparr>\<rparr>"

definition slot_take :: "'a latest_slot \<Rightarrow> 'a option \<times> 'a latest_slot" where
  "slot_take s = (latest s, s\<lparr>latest := None\<rparr>)"

definition has_value :: "'a latest_slot \<Rightarrow> bool" where
  "has_value s \<longleftrightarrow> latest s \<noteq> None"

definition signal_work :: "'a latest_slot \<Rightarrow> publish_action \<times> 'a latest_slot" where
  "signal_work s =
     (if wake_pending s then (Coalesced, s)
      else (Wake, s\<lparr>wake_pending := True, continuation_scheduled := False,
                   slot_metrics := (slot_metrics s)\<lparr>wakes := sat_add_u64 (wakes (slot_metrics s)) 1\<rparr>\<rparr>))"

definition complete_wake :: "bool \<Rightarrow> 'a latest_slot \<Rightarrow> drain_completion \<times> 'a latest_slot" where
  "complete_wake lossless_work_remains s =
     (if latest s \<noteq> None \<or> lossless_work_remains
      then (Continue,
        if continuation_scheduled s then s\<lparr>wake_pending := True\<rparr>
        else s\<lparr>wake_pending := True, continuation_scheduled := True,
               slot_metrics := (slot_metrics s)\<lparr>continuations :=
                 sat_add_u64 (continuations (slot_metrics s)) 1\<rparr>\<rparr>)
      else (Idle, s\<lparr>wake_pending := False, continuation_scheduled := False\<rparr>))"

definition slot_publish :: "('a \<Rightarrow> 'a \<Rightarrow> 'a) \<Rightarrow> 'a \<Rightarrow> 'a latest_slot \<Rightarrow> publish_action \<times> 'a latest_slot" where
  "slot_publish coalesce v s =
     (let s1 = s\<lparr>slot_metrics := (slot_metrics s)\<lparr>publications := sat_add_u64 (publications (slot_metrics s)) 1\<rparr>\<rparr>;
          s2 = (case latest s1 of
             None \<Rightarrow> s1\<lparr>latest := Some v\<rparr>
           | Some replaced \<Rightarrow> s1\<lparr>latest := Some (coalesce v replaced),
               slot_metrics := (slot_metrics s1)\<lparr>replaced_frames := sat_add_u64 (replaced_frames (slot_metrics s1)) 1\<rparr>\<rparr>)
      in signal_work s2)"

section \<open>Laws\<close>

definition slot_ok :: "'a latest_slot \<Rightarrow> bool" where
  "slot_ok s \<longleftrightarrow>
     (latest s \<noteq> None \<longrightarrow> wake_pending s) \<and> (continuation_scheduled s \<longrightarrow> wake_pending s)"

lemma slot_publish_simps [simp]:
  "latest (snd (slot_publish coalesce v s)) =
     Some (case latest s of None \<Rightarrow> v | Some old \<Rightarrow> coalesce v old)"
  "fst (slot_publish coalesce v s) = (if wake_pending s then Coalesced else Wake)"
  "wake_pending (snd (slot_publish coalesce v s))"
  by (simp_all add: slot_publish_def signal_work_def Let_def split: option.splits)

lemma signal_work_simps [simp]:
  "latest (snd (signal_work s)) = latest s" "fst (signal_work s) = (if wake_pending s then Coalesced else Wake)"
  "wake_pending (snd (signal_work s))"
  by (simp_all add: signal_work_def)

lemma slot_take_simps [simp]:
  "fst (slot_take s) = latest s" "latest (snd (slot_take s)) = None"
  "wake_pending (snd (slot_take s)) = wake_pending s"
  by (simp_all add: slot_take_def)

lemma complete_wake_simps [simp]:
  "latest (snd (complete_wake remains s)) = latest s"
  "fst (complete_wake remains s) = (if latest s \<noteq> None \<or> remains then Continue else Idle)"
  "wake_pending (snd (complete_wake remains s)) \<longleftrightarrow> latest s \<noteq> None \<or> remains"
  by (simp_all add: complete_wake_def)

lemma slot_ok_new: "slot_ok slot_new"
  by (simp add: slot_ok_def slot_new_def)

lemma slot_ok_ops:
  assumes "slot_ok s"
  shows "slot_ok (snd (slot_publish coalesce v s))" and "slot_ok (snd (slot_take s))"
    and "slot_ok (snd (signal_work s))" and "slot_ok (snd (complete_wake remains s))"
  using assms
  by (auto simp: slot_ok_def slot_publish_def slot_take_def signal_work_def complete_wake_def Let_def
      split: option.splits)

lemma slot_publishD:
  assumes "slot_publish coalesce v s = (a, s')"
  shows "a = (if wake_pending s then Coalesced else Wake)" and "wake_pending s'"
    and "latest s' = Some (case latest s of None \<Rightarrow> v | Some old \<Rightarrow> coalesce v old)"
    and "slot_ok s \<Longrightarrow> slot_ok s'"
  by (metis assms fst_conv snd_conv slot_publish_simps slot_ok_ops(1))+

lemma signal_workD:
  assumes "signal_work s = (a, s')"
  shows "a = (if wake_pending s then Coalesced else Wake)" and "wake_pending s'" and "latest s' = latest s"
    and "slot_ok s \<Longrightarrow> slot_ok s'"
  by (metis assms fst_conv snd_conv signal_work_simps slot_ok_ops(3))+

lemma complete_wakeD:
  assumes "complete_wake remains s = (c, s')"
  shows "c = (if latest s \<noteq> None \<or> remains then Continue else Idle)"
    and "wake_pending s' = (latest s \<noteq> None \<or> remains)" and "latest s' = latest s" and "slot_ok s'"
  by (metis assms fst_conv complete_wake_simps(2), metis assms snd_conv complete_wake_simps(3),
      metis assms snd_conv complete_wake_simps(1))
    (use assms in \<open>auto simp: complete_wake_def slot_ok_def split: if_splits\<close>)

text \<open>The value a host takes after several publications: the newest one, having absorbed the others.\<close>

fun publish_all :: "('a \<Rightarrow> 'a \<Rightarrow> 'a) \<Rightarrow> 'a list \<Rightarrow> 'a latest_slot \<Rightarrow> 'a latest_slot" where
  "publish_all coalesce [] s = s"
| "publish_all coalesce (v # vs) s = publish_all coalesce vs (snd (slot_publish coalesce v s))"

lemma latest_publish_all:
  "latest (publish_all coalesce vs s) =
     (case vs of [] \<Rightarrow> latest s
      | v # vs' \<Rightarrow> Some (foldl (\<lambda>old new. coalesce new old)
          (case latest s of None \<Rightarrow> v | Some old \<Rightarrow> coalesce v old) vs'))"
  by (induction vs arbitrary: s) (auto split: list.splits)

end
