(* ===== verification/Term_Types.thy ===== *)
theory Term_Types
  imports Prelude
begin

text \<open>
  The geometry shared by terminal and runtime, \<open>rterm-types/src/lib.rs\<close>: sizes in cells, damaged
  regions and their merging, and the 16-bit arithmetic of coordinates.
\<close>

definition u16_max :: nat where "u16_max = 65535"

definition sat_add_u16 :: "u16 \<Rightarrow> u16 \<Rightarrow> u16" where
  "sat_add_u16 a b = min u16_max (a + b)"

record terminal_size =
  size_columns :: u16
  size_rows :: u16

definition size_cells :: "terminal_size \<Rightarrow> usize" where
  "size_cells s = size_columns s * size_rows s"

record damage_region =
  damage_x :: u16
  damage_y :: u16
  damage_width :: u16
  damage_height :: u16

definition damage_is_empty :: "damage_region \<Rightarrow> bool" where
  "damage_is_empty d \<longleftrightarrow> damage_width d = 0 \<or> damage_height d = 0"

definition damage_right :: "damage_region \<Rightarrow> u16" where
  "damage_right d = sat_add_u16 (damage_x d) (damage_width d)"

lemma sat_add_u16_exact: "a + b \<le> u16_max \<Longrightarrow> sat_add_u16 a b = a + b"
  by (simp add: sat_add_u16_def)

lemma sat_add_u16_bounds [simp]: "sat_add_u16 a b \<le> u16_max" "sat_add_u16 a b \<le> a + b"
  by (simp_all add: sat_add_u16_def)

lemma sat_add_u16_ge: "a \<le> u16_max \<Longrightarrow> a \<le> sat_add_u16 a b"
  by (simp add: sat_add_u16_def)

lemma min_sat_add: "n \<le> u16_max \<Longrightarrow> min (sat_add_u16 a b) n = min (a + b) n"
  by (simp add: sat_add_u16_def)

end
