(* ===== verification/Publication.thy ===== *)
theory Publication
  imports Latest_Slot Mailbox_Laws Term_Types
begin

text \<open>
  Batching and publication of a pane, \<open>rssh-runtime/src/batch.rs\<close>: the accounting window of a
  parse batch, the presentation frame and how a newer frame absorbs an older one, and the
  publication that couples the replaceable frame with the bounded queue of lossless effects.
  \<open>publish\<close> and \<open>drain\<close> run on different threads and take the locks of the slot and of the
  effect mailbox one after the other; each is split into the steps between which the other
  thread can run. The terminal snapshot of a frame is of any type.
\<close>

section \<open>Batch windows\<close>

record batch_policy =
  policy_bytes :: usize
  policy_items :: usize
  policy_latency :: duration

datatype batch_policy_error = Policy_ZeroBytes | Policy_ZeroItems | Policy_ZeroLatency

definition policy_try_new :: "usize \<Rightarrow> usize \<Rightarrow> duration \<Rightarrow> (batch_policy, batch_policy_error) outcome" where
  "policy_try_new bytes items latency =
     (if bytes = 0 then Err Policy_ZeroBytes
      else if items = 0 then Err Policy_ZeroItems
      else if latency = 0 then Err Policy_ZeroLatency
      else Ok \<lparr>policy_bytes = bytes, policy_items = items, policy_latency = latency\<rparr>)"

definition policy_default :: "(batch_policy, batch_policy_error) outcome" where
  "policy_default =
     (case policy_try_new (128 * 1024) 16 3000000 of Ok p \<Rightarrow> Ok p | _ \<Rightarrow> Panic)"

datatype batch_admission = Batch_Accepted | Batch_AcceptedAndFull | Batch_Rejected

record batch_window =
  window_policy :: batch_policy
  started_at :: "instant option"
  window_bytes :: usize
  window_items :: usize

definition window_new :: "batch_policy \<Rightarrow> batch_window" where
  "window_new p = \<lparr>window_policy = p, started_at = None, window_bytes = 0, window_items = 0\<rparr>"

definition admitted :: "batch_window \<Rightarrow> batch_admission \<times> batch_window" where
  "admitted w =
     (if policy_bytes (window_policy w) \<le> window_bytes w \<or> policy_items (window_policy w) \<le> window_items w
      then Batch_AcceptedAndFull else Batch_Accepted, w)"

definition window_try_push :: "instant \<Rightarrow> usize \<Rightarrow> batch_window \<Rightarrow> batch_admission \<times> batch_window" where
  "window_try_push now item_bytes w =
     (case started_at w of
        Some t \<Rightarrow>
          (if policy_latency (window_policy w) \<le> duration_since now t then (Batch_Rejected, w)
           else case checked_add_usize (window_bytes w) item_bytes of
             None \<Rightarrow> (Batch_Rejected, w)
           | Some next_bytes \<Rightarrow>
               if policy_bytes (window_policy w) < next_bytes \<or> policy_items (window_policy w) \<le> window_items w
               then (Batch_Rejected, w)
               else admitted (w\<lparr>window_bytes := next_bytes, window_items := window_items w + 1\<rparr>))
      | None \<Rightarrow> admitted (w\<lparr>started_at := Some now, window_bytes := item_bytes, window_items := 1\<rparr>))"

definition window_reset :: "batch_window \<Rightarrow> batch_window" where
  "window_reset w = w\<lparr>started_at := None, window_bytes := 0, window_items := 0\<rparr>"

section \<open>Frames and effects\<close>

record terminal_state_summary =
  summary_size :: "u16 \<times> u16"
  summary_cursor :: "u16 \<times> u16"
  summary_scrollback_rows :: usize
  summary_sequence :: u64
  summary_visible_digest :: u64

record 't presentation_frame =
  frame_pane :: pane_token
  frame_revision :: runtime_revision
  frame_snapshot :: 't
  frame_state :: terminal_state_summary
  snapshot_changed :: bool
  full_repaint :: bool
  frame_damage :: "damage_region list"
  frame_metadata :: pane_metadata_delta
  frame_metrics :: runtime_batch_metrics

definition merge_metadata :: "pane_metadata_delta \<Rightarrow> pane_metadata_delta \<Rightarrow> pane_metadata_delta" where
  "merge_metadata current replaced =
     \<lparr>md_title = (if md_title current = None then md_title replaced else md_title current),
      md_working_directory =
        (if md_working_directory current = None then md_working_directory replaced else md_working_directory current),
      md_badge_format =
        (if md_badge_format current = None then md_badge_format replaced else md_badge_format current),
      md_progress = (if md_progress current = None then md_progress replaced else md_progress current),
      md_user_vars =
        filter (\<lambda>change. uv_name change \<notin> set (map uv_name (md_user_vars current))) (md_user_vars replaced)
        @ md_user_vars current\<rparr>"

definition coalesce_replaced :: "'t presentation_frame \<Rightarrow> 't presentation_frame \<Rightarrow> 't presentation_frame" where
  "coalesce_replaced frame replaced = frame\<lparr>
     snapshot_changed := snapshot_changed frame \<or> snapshot_changed replaced,
     full_repaint := True, frame_damage := [],
     frame_metadata := merge_metadata (frame_metadata frame) (frame_metadata replaced)\<rparr>"

record published_effect =
  pe_pane :: pane_token
  pe_revision :: runtime_revision
  pe_effect :: runtime_effect

text \<open>
  The capacity of a string or a vector is at most \<open>isize::MAX\<close>, so the sum of two of them is below \<open>2 ^ 64\<close> and the code's addition
  does not overflow (\<open>effect_retained_bytes_exact\<close>).
\<close>

fun effect_retained_bytes :: "runtime_effect_kind \<Rightarrow> usize" where
  "effect_retained_bytes (TransportWrite b) = buf_capacity b"
| "effect_retained_bytes (HostStream b) = buf_capacity b"
| "effect_retained_bytes (VisibleOutput b) = buf_capacity b"
| "effect_retained_bytes (ModeChange c) = 0"
| "effect_retained_bytes (Bell n) = 0"
| "effect_retained_bytes (ClipboardWrite selection contents) =
     (case selection of None \<Rightarrow> 0 | Some t \<Rightarrow> txt_capacity t) + txt_capacity contents"
| "effect_retained_bytes (ClipboardRead selection) = txt_capacity selection"
| "effect_retained_bytes (Notification title body) =
     (case title of None \<Rightarrow> 0 | Some t \<Rightarrow> txt_capacity t) + txt_capacity body"
| "effect_retained_bytes (Diagnostic msg) = txt_capacity msg"

fun effect_capacities :: "runtime_effect_kind \<Rightarrow> nat list" where
  "effect_capacities (TransportWrite b) = [buf_capacity b]"
| "effect_capacities (HostStream b) = [buf_capacity b]"
| "effect_capacities (VisibleOutput b) = [buf_capacity b]"
| "effect_capacities (ClipboardWrite selection contents) = map txt_capacity (case selection of None \<Rightarrow> [contents] | Some t \<Rightarrow> [t, contents])"
| "effect_capacities (ClipboardRead selection) = [txt_capacity selection]"
| "effect_capacities (Notification title body) = map txt_capacity (case title of None \<Rightarrow> [body] | Some t \<Rightarrow> [t, body])"
| "effect_capacities (Diagnostic msg) = [txt_capacity msg]"
| "effect_capacities _ = []"

lemma effect_retained_bytes_exact:
  assumes "\<forall>c \<in> set (effect_capacities k). c \<le> 2 ^ 63 - 1"
  shows "effect_retained_bytes k = sum_list (effect_capacities k) \<and> effect_retained_bytes k < 2 ^ 64"
  using assms by (cases k rule: effect_capacities.cases) (auto split: option.splits)

definition retained_bytes :: "published_effect \<Rightarrow> usize" where
  "retained_bytes e = effect_retained_bytes (effect_kind (pe_effect e))"

record 't pane_drain =
  drain_frame :: "'t presentation_frame option"
  drain_effects :: "published_effect list"
  drain_continuation :: bool

record publication_counters =
  pc_batches :: u64
  pc_source_bytes :: u64
  pc_source_items :: u64
  pc_max_batch_bytes :: usize
  pc_max_batch_items :: usize
  pc_parse_duration :: duration

record 't publication =
  pub_latest :: "'t presentation_frame latest_slot"
  pub_limits :: mailbox_limits
  pub_effects :: "published_effect mailbox"
  pub_counters :: publication_counters

record publication_metrics =
  pm_counters :: publication_counters
  pm_latest :: latest_slot_metrics
  pm_effects :: mailbox_metrics

definition publication_new :: "mailbox_limits \<Rightarrow> 't publication" where
  "publication_new lim = \<lparr>pub_latest = slot_new, pub_limits = lim, pub_effects = bounded_mailbox,
     pub_counters = \<lparr>pc_batches = 0, pc_source_bytes = 0, pc_source_items = 0, pc_max_batch_bytes = 0,
       pc_max_batch_items = 0, pc_parse_duration = 0\<rparr>\<rparr>"

definition has_work :: "'t publication \<Rightarrow> bool" where
  "has_work p \<longleftrightarrow> has_value (pub_latest p) \<or> 0 < metrics_queued_items (mailbox_metrics_of (pub_limits p) (pub_effects p))"

definition publication_metrics_of :: "'t publication \<Rightarrow> publication_metrics" where
  "publication_metrics_of p = \<lparr>pm_counters = pub_counters p, pm_latest = slot_metrics (pub_latest p),
     pm_effects = mailbox_metrics_of (pub_limits p) (pub_effects p)\<rparr>"

section \<open>Publishing\<close>

text \<open>Where a thread inside \<open>publish\<close> is, with the effects that remain to be sent.\<close>

datatype 't publisher =
    Pub_next "'t presentation_frame option" "published_effect list"
  | Pub_frame "'t presentation_frame" "published_effect option" "published_effect list"
  | Pub_wake "published_effect option" "published_effect list"
  | Pub_send published_effect "instant option" "published_effect list"
  | Pub_signal "published_effect list"
  | Pub_returned bool

definition publish_start :: "'t presentation_frame \<Rightarrow> published_effect list \<Rightarrow> 't publisher" where
  "publish_start frame effects = Pub_next (Some frame) effects"

text \<open>After \<open>publish_frame\<close>: the effect that did not fit is sent, or the loop goes on.\<close>

definition pub_resume :: "published_effect option \<Rightarrow> published_effect list \<Rightarrow> 't publisher" where
  "pub_resume refused effects =
     (case refused of Some e \<Rightarrow> Pub_send e None effects | None \<Rightarrow> Pub_next None effects)"

text \<open>\<open>wake_if_needed\<close>, as far as it does not call \<open>wake\<close>.\<close>

definition wake_if_needed :: "publish_action \<Rightarrow> published_effect option \<Rightarrow> published_effect list \<Rightarrow> 't publisher" where
  "wake_if_needed action refused effects =
     (if action = Wake then Pub_wake refused effects else pub_resume refused effects)"

definition count_frame :: "runtime_batch_metrics \<Rightarrow> publication_counters \<Rightarrow> publication_counters" where
  "count_frame b c = \<lparr>pc_batches = sat_add_u64 (pc_batches c) 1,
     pc_source_bytes = sat_add_u64 (pc_source_bytes c) (transport_bytes b),
     pc_source_items = sat_add_u64 (pc_source_items c) (coalesced_reads b),
     pc_max_batch_bytes = max (pc_max_batch_bytes c) (transport_bytes b),
     pc_max_batch_items = max (pc_max_batch_items c) (coalesced_reads b),
     pc_parse_duration = sat_add_duration (pc_parse_duration c) (parse_duration b)\<rparr>"

definition publish_frame :: "'t presentation_frame \<Rightarrow> 't publication \<Rightarrow> publish_action \<times> 't publication" where
  "publish_frame frame p =
     (case slot_publish coalesce_replaced frame (pub_latest p) of (action, s) \<Rightarrow>
        (action, p\<lparr>pub_counters := count_frame (frame_metrics frame) (pub_counters p), pub_latest := s\<rparr>))"

definition send_effect :: "instant \<Rightarrow> published_effect \<Rightarrow> instant option \<Rightarrow> 't publication
    \<Rightarrow> ((unit, published_effect send_error) outcome, instant) progress \<times> 't publication" where
  "send_effect now e since p =
     (case (case since of
              None \<Rightarrow> mailbox_send retained_bytes (pub_limits p) now e (pub_effects p)
            | Some t \<Rightarrow> send_turn (pub_limits p) now e (retained_bytes e) (Some t) (pub_effects p)) of
        (r, s, ns) \<Rightarrow> (r, p\<lparr>pub_effects := s\<rparr>))"

text \<open>
  One step of \<open>publish\<close>. \<open>wake_ok\<close> is what the callback \<open>wake\<close> returns, should it be called;
  the last component of the result says that it was called and succeeded.
\<close>

fun publish_step :: "instant \<Rightarrow> bool \<Rightarrow> 't publisher \<Rightarrow> 't publication \<Rightarrow> 't publisher \<times> 't publication \<times> bool" where
  "publish_step now wake_ok (Pub_next frame []) p =
     (case frame of Some f \<Rightarrow> Pub_frame f None [] | None \<Rightarrow> Pub_returned True, p, False)"
| "publish_step now wake_ok (Pub_next frame (e # es)) p =
     (case try_send retained_bytes (pub_limits p) e (pub_effects p) of (r, s, ns) \<Rightarrow>
        (case r of
           Ok _ \<Rightarrow> if frame = None then Pub_signal es else Pub_next frame es
         | Err (TrySend_Full item _) \<Rightarrow>
             (case frame of Some f \<Rightarrow> Pub_frame f (Some item) es | None \<Rightarrow> Pub_send item None es)
         | _ \<Rightarrow> Pub_returned False,
         p\<lparr>pub_effects := s\<rparr>, False))"
| "publish_step now wake_ok (Pub_frame f refused es) p =
     (case publish_frame f p of (action, p') \<Rightarrow> (wake_if_needed action refused es, p', False))"
| "publish_step now wake_ok (Pub_wake refused es) p =
     (if wake_ok then (pub_resume refused es, p, True)
      else (Pub_returned False, p\<lparr>pub_effects := fst (snd (mailbox_close (pub_effects p)))\<rparr>, False))"
| "publish_step now wake_ok (Pub_send e since es) p =
     (case send_effect now e since p of (r, p') \<Rightarrow>
        (case r of
           Returned (Ok _) \<Rightarrow> Pub_signal es
         | Returned _ \<Rightarrow> Pub_returned False
         | Waits t \<Rightarrow> Pub_send e (Some t) es,
         p', False))"
| "publish_step now wake_ok (Pub_signal es) p =
     (case signal_work (pub_latest p) of (action, s) \<Rightarrow>
        (wake_if_needed action None es, p\<lparr>pub_latest := s\<rparr>, False))"
| "publish_step now wake_ok (Pub_returned b) p = (Pub_returned b, p, False)"

section \<open>Draining\<close>

text \<open>The loop over \<open>try_recv\<close>, for at most \<open>n\<close> more effects.\<close>

fun receive_effects :: "nat \<Rightarrow> published_effect mailbox \<Rightarrow> published_effect list \<times> published_effect mailbox" where
  "receive_effects 0 s = ([], s)"
| "receive_effects (Suc n) s =
     (case try_recv s of
        (Ok e, s1, ns) \<Rightarrow> (case receive_effects n s1 of (es, s2) \<Rightarrow> (e # es, s2))
      | (_, s1, ns) \<Rightarrow> ([], s1))"

definition drain_finish :: "published_effect list \<Rightarrow> bool \<Rightarrow> 't presentation_frame option \<Rightarrow> 't publication
    \<Rightarrow> 't pane_drain \<times> 't publication" where
  "drain_finish effects remains frame p =
     (case complete_wake remains (pub_latest p) of (completion, s) \<Rightarrow>
        (\<lparr>drain_frame = frame, drain_effects = effects, drain_continuation = (completion = Continue)\<rparr>,
         p\<lparr>pub_latest := s\<rparr>))"

definition drain_take :: "bool \<Rightarrow> 't publication \<Rightarrow> 't presentation_frame option \<times> 't publication" where
  "drain_take remains p =
     (if remains then (None, p)
      else case slot_take (pub_latest p) of (frame, s) \<Rightarrow> (frame, p\<lparr>pub_latest := s\<rparr>))"

definition queued_items_of :: "'t publication \<Rightarrow> usize" where
  "queued_items_of p = metrics_queued_items (mailbox_metrics_of (pub_limits p) (pub_effects p))"

text \<open>\<open>drain\<close>, when no publisher runs in between.\<close>

definition drain :: "nat \<Rightarrow> 't publication \<Rightarrow> 't pane_drain \<times> 't publication" where
  "drain max_effects p =
     (case receive_effects max_effects (pub_effects p) of (effects, s) \<Rightarrow>
        let p1 = p\<lparr>pub_effects := s\<rparr>; remains = 0 < queued_items_of p1
        in case drain_take remains p1 of (frame, p2) \<Rightarrow> drain_finish effects remains frame p2)"

text \<open>The steps of \<open>drain\<close> between which the publisher can run.\<close>

datatype 't host =
    Host_idle
  | Host_recv nat "published_effect list"
  | Host_count "published_effect list"
  | Host_take bool "published_effect list"
  | Host_complete bool "'t presentation_frame option" "published_effect list"

fun drain_step :: "'t host \<Rightarrow> 't publication \<Rightarrow> 't host \<times> 't publication \<times> 't pane_drain option" where
  "drain_step Host_idle p = (Host_idle, p, None)"
| "drain_step (Host_recv 0 es) p = (Host_count es, p, None)"
| "drain_step (Host_recv (Suc n) es) p =
     (case try_recv (pub_effects p) of
        (Ok e, s, ns) \<Rightarrow> (Host_recv n (es @ [e]), p\<lparr>pub_effects := s\<rparr>, None)
      | (_, s, ns) \<Rightarrow> (Host_count es, p\<lparr>pub_effects := s\<rparr>, None))"
| "drain_step (Host_count es) p = (Host_take (0 < queued_items_of p) es, p, None)"
| "drain_step (Host_take remains es) p =
     (case drain_take remains p of (frame, p') \<Rightarrow> (Host_complete remains frame es, p', None))"
| "drain_step (Host_complete remains frame es) p =
     (case drain_finish es remains frame p of (d, p') \<Rightarrow> (Host_idle, p', Some d))"

end
