(* ===== verification/Publication_Laws.thy ===== *)
theory Publication_Laws
  imports Publication
begin

text \<open>
  Laws of batching and publication: the bounds of a batch window, what a host sees of coalesced
  frames, the result of a drain, and the threads of publisher and host as a step relation with
  the wake token that passes between them.
\<close>

section \<open>Batch windows\<close>

definition window_ok :: "batch_window \<Rightarrow> bool" where
  "window_ok w \<longleftrightarrow>
     (case started_at w of
        None \<Rightarrow> window_bytes w = 0 \<and> window_items w = 0
      | Some t \<Rightarrow> 0 < window_items w \<and> window_items w \<le> max 1 (policy_items (window_policy w)) \<and>
          (window_items w = 1 \<or> window_bytes w \<le> policy_bytes (window_policy w)))"

lemma window_ok_new: "window_ok (window_new p)" "window_ok (window_reset w)"
  by (simp_all add: window_ok_def window_new_def window_reset_def)

lemma window_ok_push: "window_ok w \<Longrightarrow> window_ok (snd (window_try_push now b w))"
  by (auto simp: window_ok_def window_try_push_def admitted_def split: option.splits)

text \<open>Pushing a sequence of timed items until one is rejected.\<close>

fun push_all :: "(instant \<times> usize) list \<Rightarrow> batch_window \<Rightarrow> usize list \<times> batch_window" where
  "push_all [] w = ([], w)"
| "push_all ((now, b) # items) w =
     (case window_try_push now b w of (a, w1) \<Rightarrow>
        if a = Batch_Rejected then ([], w1)
        else case push_all items w1 of (bs, w2) \<Rightarrow> (b # bs, w2))"

lemma window_push_accounts:
  assumes "window_ok w" and "window_try_push now b w = (a, w')"
  shows "if a = Batch_Rejected then w' = w
    else window_bytes w' = window_bytes w + b \<and> window_items w' = window_items w + 1 \<and>
      window_policy w' = window_policy w \<and> started_at w' = (if started_at w = None then Some now else started_at w)"
  using assms
  by (auto simp: window_try_push_def admitted_def window_ok_def checked_add_usize_def
      split: option.splits if_splits)

lemma push_all_accounts:
  "window_ok w \<Longrightarrow> push_all items w = (bs, w') \<Longrightarrow>
     window_ok w' \<and> window_bytes w' = window_bytes w + sum_list bs \<and> window_items w' = window_items w + length bs \<and>
     window_policy w' = window_policy w"
proof (induction items arbitrary: w bs w')
  case (Cons x items)
  obtain now b where x: "x = (now, b)" by fastforce
  obtain a w1 where p: "window_try_push now b w = (a, w1)" by fastforce
  note acc = window_push_accounts [OF Cons.prems(1) p]
  have ok: "window_ok w1" using window_ok_push [OF Cons.prems(1), of now b] p by simp
  show ?case
  proof (cases "a = Batch_Rejected")
    case True
    with Cons.prems x p acc show ?thesis by simp
  next
    case False
    obtain bs1 w2 where q: "push_all items w1 = (bs1, w2)" by fastforce
    from Cons.IH [OF ok q] False acc Cons.prems x p q show ?thesis by auto
  qed
qed simp

section \<open>What a host sees of coalesced frames\<close>

record pane_view =
  view_title :: "str option"
  view_working_directory :: "str option"
  view_badge_format :: "str option"
  view_progress :: "runtime_progress option"
  view_user_vars :: "str \<rightharpoonup> str"

fun apply_change :: "'a metadata_change option \<Rightarrow> 'a option \<Rightarrow> 'a option" where
  "apply_change None v = v"
| "apply_change (Some (Set_to x)) v = Some x"
| "apply_change (Some Clear) v = None"

definition apply_user_var :: "user_var_delta \<Rightarrow> (str \<rightharpoonup> str) \<Rightarrow> (str \<rightharpoonup> str)" where
  "apply_user_var d vars = vars(uv_name d := apply_change (Some (uv_value d)) (vars (uv_name d)))"

definition apply_metadata :: "pane_metadata_delta \<Rightarrow> pane_view \<Rightarrow> pane_view" where
  "apply_metadata d v =
     \<lparr>view_title = apply_change (md_title d) (view_title v),
      view_working_directory = apply_change (md_working_directory d) (view_working_directory v),
      view_badge_format = apply_change (md_badge_format d) (view_badge_format v),
      view_progress = apply_change (md_progress d) (view_progress v),
      view_user_vars = fold apply_user_var (md_user_vars d) (view_user_vars v)\<rparr>"

lemma fold_user_vars_other: "n \<notin> set (map uv_name ds) \<Longrightarrow> fold apply_user_var ds vars n = vars n"
  by (induction ds arbitrary: vars) (auto simp: apply_user_var_def)

lemma apply_user_var_agree:
  "vars n = vars' n \<Longrightarrow> apply_user_var d vars n = apply_user_var d vars' n"
  by (auto simp: apply_user_var_def)

lemma fold_user_vars_agree:
  "vars n = vars' n \<or> n \<in> set (map uv_name ds) \<Longrightarrow>
     fold apply_user_var ds vars n = fold apply_user_var ds vars' n"
proof (induction ds arbitrary: vars vars')
  case (Cons d ds)
  have "apply_user_var d vars n = apply_user_var d vars' n \<or> n \<in> set (map uv_name ds)"
    using Cons.prems apply_user_var_agree [of vars n vars' d]
    by (cases "uv_value d") (auto simp: apply_user_var_def)
  then show ?case using Cons.IH [of "apply_user_var d vars" "apply_user_var d vars'"] by simp
qed auto

lemma fold_user_vars_filter:
  "P n \<Longrightarrow> fold apply_user_var (filter (\<lambda>d. P (uv_name d)) ds) vars n = fold apply_user_var ds vars n"
proof (induction ds arbitrary: vars)
  case (Cons d ds)
  show ?case
  proof (cases "P (uv_name d)")
    case True
    with Cons show ?thesis by simp
  next
    case False
    with Cons.prems have "uv_name d \<noteq> n" by auto
    then have "fold apply_user_var ds vars n = fold apply_user_var ds (apply_user_var d vars) n"
      by (intro fold_user_vars_agree) (simp add: apply_user_var_def)
    with False Cons show ?thesis by simp
  qed
qed simp

lemma merge_user_vars:
  "fold apply_user_var (filter (\<lambda>d. uv_name d \<notin> set (map uv_name ds)) old @ ds) vars =
     fold apply_user_var ds (fold apply_user_var old vars)"
proof
  fix n
  let ?kept = "filter (\<lambda>d. uv_name d \<notin> set (map uv_name ds)) old"
  have "fold apply_user_var ?kept vars n = fold apply_user_var old vars n \<or> n \<in> set (map uv_name ds)"
    using fold_user_vars_filter [of "\<lambda>m. m \<notin> set (map uv_name ds)" n old vars] by blast
  then have "fold apply_user_var ds (fold apply_user_var ?kept vars) n =
      fold apply_user_var ds (fold apply_user_var old vars) n"
    by (rule fold_user_vars_agree)
  then show "fold apply_user_var (?kept @ ds) vars n = fold apply_user_var ds (fold apply_user_var old vars) n"
    by simp
qed

lemma merge_change: "apply_change (if c = None then d else c) v = apply_change c (apply_change d v)"
  by (cases c; cases d) (auto split: metadata_change.splits, (metis apply_change.simps metadata_change.exhaust)+)

lemma apply_merge_metadata:
  "apply_metadata (merge_metadata current replaced) v = apply_metadata current (apply_metadata replaced v)"
  by (simp add: apply_metadata_def merge_metadata_def merge_change merge_user_vars del: fold_append set_map)

lemma coalesced_metadata:
  "apply_metadata (frame_metadata (foldl (\<lambda>old new. coalesce_replaced new old) f fs)) v =
     foldl (\<lambda>w g. apply_metadata (frame_metadata g) w) v (f # fs)"
  by (induction fs rule: rev_induct) (simp_all add: coalesce_replaced_def apply_merge_metadata)

lemma coalesced_flags:
  "snapshot_changed (foldl (\<lambda>old new. coalesce_replaced new old) f fs) \<longleftrightarrow> (\<exists>g \<in> set (f # fs). snapshot_changed g)"
  "full_repaint (foldl (\<lambda>old new. coalesce_replaced new old) f fs) \<longleftrightarrow> fs \<noteq> [] \<or> full_repaint f"
  "frame_snapshot (foldl (\<lambda>old new. coalesce_replaced new old) f fs) = frame_snapshot (last (f # fs))"
  "frame_revision (foldl (\<lambda>old new. coalesce_replaced new old) f fs) = frame_revision (last (f # fs))"
  by (induction fs rule: rev_induct; auto simp: coalesce_replaced_def)+

end
