(* ===== verification/Publication_Machine.thy ===== *)
theory Publication_Machine
  imports Publication_Laws
begin

text \<open>
  The worker that publishes and the host that drains, interleaved at every lock. A wake that
  the callback accepted and a continuation that a drain asked for are tokens, each of which
  entitles the host to one drain. The host may also drain of its own accord, as \<open>drain_ready_fair\<close>, \<open>drain_pane\<close> and
  the wake that stands for a deferred close do; \<open>unprompted\<close> records that it did. The parameter \<open>atomic\<close> selects whether a drain runs in one step
  or in the steps of \<open>drain_step\<close>, as the code runs it.
\<close>

record 't pub_machine =
  pub :: "'t publication"
  publisher :: "'t publisher"
  host :: "'t host"
  tokens :: nat
  wake_failed :: bool
  unprompted :: bool
  sent :: "published_effect list"
  drains :: "'t pane_drain list"

definition effects_of :: "'t pub_machine \<Rightarrow> published_effect list" where
  "effects_of m = mailbox_contents (pub_effects (pub m))"

fun is_waking :: "'t publisher \<Rightarrow> bool" where
  "is_waking (Pub_wake refused es) = True"
| "is_waking _ = False"

definition continued :: "'t pane_drain option \<Rightarrow> nat" where
  "continued d = (case d of Some x \<Rightarrow> if drain_continuation x then 1 else 0 | None \<Rightarrow> 0)"

definition pub_init :: "mailbox_limits \<Rightarrow> 't pub_machine" where
  "pub_init lim = \<lparr>pub = publication_new lim, publisher = Pub_returned True, host = Host_idle, tokens = 0,
     wake_failed = False, unprompted = False, sent = [], drains = []\<rparr>"

inductive pub_step :: "bool \<Rightarrow> 't pub_machine \<Rightarrow> 't pub_machine \<Rightarrow> bool" for atomic where
  Begin: "publisher m = Pub_returned b \<Longrightarrow> pub_step atomic m (m\<lparr>publisher := publish_start f es\<rparr>)"
| Publish: "publish_step now wake_ok (publisher m) (pub m) = (q, p, woke) \<Longrightarrow>
    pub_step atomic m (m\<lparr>pub := p, publisher := q, tokens := tokens m + (if woke then 1 else 0),
      wake_failed := wake_failed m \<or> (is_waking (publisher m) \<and> \<not> wake_ok),
      sent := sent m @ drop (length (effects_of m)) (mailbox_contents (pub_effects p))\<rparr>)"
| Turn: "\<not> atomic \<Longrightarrow> host m = Host_idle \<Longrightarrow> 0 < tokens m \<Longrightarrow>
    pub_step atomic m (m\<lparr>tokens := tokens m - 1, host := Host_recv max_effects []\<rparr>)"
| Turn_unprompted: "\<not> atomic \<Longrightarrow> host m = Host_idle \<Longrightarrow>
    pub_step atomic m (m\<lparr>unprompted := True, host := Host_recv max_effects []\<rparr>)"
| Drain: "\<not> atomic \<Longrightarrow> host m \<noteq> Host_idle \<Longrightarrow> drain_step (host m) (pub m) = (h, p, d) \<Longrightarrow>
    pub_step atomic m (m\<lparr>pub := p, host := h, tokens := tokens m + continued d,
      drains := drains m @ (case d of Some x \<Rightarrow> [x] | None \<Rightarrow> [])\<rparr>)"
| Drain_atomic: "atomic \<Longrightarrow> 0 < tokens m \<Longrightarrow> drain max_effects (pub m) = (d, p) \<Longrightarrow>
    pub_step atomic m (m\<lparr>pub := p, tokens := tokens m - 1 + continued (Some d), drains := drains m @ [d]\<rparr>)"
| Drain_atomic_unprompted: "atomic \<Longrightarrow> drain max_effects (pub m) = (d, p) \<Longrightarrow>
    pub_step atomic m (m\<lparr>pub := p, unprompted := True, tokens := tokens m + continued (Some d), drains := drains m @ [d]\<rparr>)"

inductive pub_reachable :: "bool \<Rightarrow> mailbox_limits \<Rightarrow> 't pub_machine \<Rightarrow> bool" for atomic lim where
  Start: "pub_reachable atomic lim (pub_init lim)"
| Step: "pub_reachable atomic lim m \<Longrightarrow> pub_step atomic m m' \<Longrightarrow> pub_reachable atomic lim m'"

lemma pub_reachable_induct:
  assumes "pub_reachable atomic lim m" and "P (pub_init lim)"
    and "\<And>m m'. pub_reachable atomic lim m \<Longrightarrow> pub_step atomic m m' \<Longrightarrow> P m \<Longrightarrow> P m'"
  shows "P m"
  using assms(1) by induction (use assms(2,3) in blast)+

section \<open>The wake token\<close>

text \<open>Wakes under way: those that wait for the host, its turn and a call of \<open>wake\<close> that has not returned.\<close>

definition outstanding :: "'t pub_machine \<Rightarrow> nat" where
  "outstanding m = tokens m + (if host m = Host_idle then 0 else 1) + (if is_waking (publisher m) then 1 else 0)"

definition token_count :: "'t pub_machine \<Rightarrow> nat" where
  "token_count m = outstanding m + (if wake_failed m then 1 else 0)"

definition token_inv :: "'t pub_machine \<Rightarrow> bool" where
  "token_inv m \<longleftrightarrow>
     (wake_pending (pub_latest (pub m)) \<longrightarrow> 0 < token_count m) \<and>
     (\<not> unprompted m \<longrightarrow> token_count m = (if wake_pending (pub_latest (pub m)) then 1 else 0)) \<and>
     slot_ok (pub_latest (pub m))"

lemmas token_defs = token_inv_def token_count_def outstanding_def

lemma is_waking_resume [simp]: "\<not> is_waking (pub_resume refused es)"
  by (simp add: pub_resume_def split: option.splits)

lemma is_waking_if_needed [simp]: "is_waking (wake_if_needed action refused es) \<longleftrightarrow> action = Wake"
  by (simp add: wake_if_needed_def)

lemma publish_frame_simps:
  assumes "publish_frame f p = (action, p')"
  shows "action = (if wake_pending (pub_latest p) then Coalesced else Wake)"
    and "wake_pending (pub_latest p')" and "pub_effects p' = pub_effects p"
    and "slot_ok (pub_latest p) \<Longrightarrow> slot_ok (pub_latest p')" and "pub_limits p' = pub_limits p"
    and "latest (pub_latest p') \<noteq> None"
  using assms by (auto simp: publish_frame_def dest: slot_publishD split: prod.splits)

text \<open>Steps of the publisher that leave the slot alone.\<close>

lemma send_effect_latest:
  "send_effect now e since p = (r, p') \<Longrightarrow> pub_latest p' = pub_latest p \<and> pub_limits p' = pub_limits p"
  by (auto simp: send_effect_def split: prod.splits)

definition publish_token :: "'t publisher \<Rightarrow> bool \<Rightarrow> 't publication \<Rightarrow> 't publisher \<Rightarrow> 't publication \<Rightarrow> bool \<Rightarrow> bool" where
  "publish_token q wake_ok p q' p' woke \<longleftrightarrow>
     (slot_ok (pub_latest p) \<longrightarrow> slot_ok (pub_latest p')) \<and>
     (if is_waking q then \<not> is_waking q' \<and> woke = wake_ok \<and> pub_latest p' = pub_latest p
      else \<not> woke \<and> wake_pending (pub_latest p') = (wake_pending (pub_latest p) \<or> is_waking q') \<and>
        (is_waking q' \<longrightarrow> \<not> wake_pending (pub_latest p)))"

lemma publish_step_token:
  assumes "publish_step now wake_ok q p = (q', p', woke)"
  shows "publish_token q wake_ok p q' p' woke"
proof (cases q)
  case (Pub_next frame es)
  with assms show ?thesis
    by (cases es) (auto simp: publish_token_def split: option.splits prod.splits outcome.splits try_send_error.splits if_splits)
next
  case (Pub_frame f refused es)
  with assms show ?thesis
    by (auto simp: publish_token_def dest: publish_frame_simps split: prod.splits if_splits)
next
  case (Pub_wake refused es)
  with assms show ?thesis by (auto simp: publish_token_def split: if_splits)
next
  case (Pub_send e since es)
  with assms show ?thesis
    by (auto simp: publish_token_def dest: send_effect_latest split: prod.splits progress.splits outcome.splits)
next
  case (Pub_signal es)
  with assms show ?thesis
    by (auto simp: publish_token_def dest: signal_workD split: prod.splits if_splits)
next
  case (Pub_returned b)
  with assms show ?thesis by (auto simp: publish_token_def)
qed

lemma drain_take_latest:
  assumes "drain_take remains p = (frame, p')"
  shows "wake_pending (pub_latest p') = wake_pending (pub_latest p)" and "pub_effects p' = pub_effects p"
    and "slot_ok (pub_latest p) \<Longrightarrow> slot_ok (pub_latest p')"
    and "\<not> remains \<Longrightarrow> latest (pub_latest p') = None" and "remains \<Longrightarrow> pub_latest p' = pub_latest p"
  using assms by (auto simp: drain_take_def slot_take_def slot_ok_def split: if_splits)

lemma drain_finish_latest:
  assumes "drain_finish es remains frame p = (d, p')"
  shows "drain_continuation d \<longleftrightarrow> latest (pub_latest p) \<noteq> None \<or> remains"
    and "wake_pending (pub_latest p') \<longleftrightarrow> latest (pub_latest p) \<noteq> None \<or> remains"
    and "slot_ok (pub_latest p')" and "pub_effects p' = pub_effects p" and "drain_effects d = es"
    and "drain_frame d = frame"
  using assms by (auto simp: drain_finish_def dest: complete_wakeD split: prod.splits if_splits)

lemma drain_finish_effects:
  "drain_finish es remains frame p = (d, p') \<Longrightarrow> pub_effects p' = pub_effects p \<and> drain_effects d = es"
  using drain_finish_latest(4,5) by blast

text \<open>A step of the host: it stays in its turn, or the turn ends and \<open>wake_pending\<close> says whether it continues.\<close>

lemma drain_step_token:
  assumes "drain_step h p = (h', p', d)" and "h \<noteq> Host_idle" and "slot_ok (pub_latest p)"
  shows "slot_ok (pub_latest p')"
    and "(case d of
        None \<Rightarrow> h' \<noteq> Host_idle \<and> wake_pending (pub_latest p') = wake_pending (pub_latest p)
      | Some x \<Rightarrow> h' = Host_idle \<and> wake_pending (pub_latest p') = drain_continuation x)"
  using assms
  by (induction h p rule: drain_step.induct;
      auto dest: drain_take_latest drain_finish_latest split: prod.splits outcome.splits)+

lemma drain_latest:
  assumes "drain n p = (d, p')" and "slot_ok (pub_latest p)"
  shows "slot_ok (pub_latest p')" and "wake_pending (pub_latest p') = drain_continuation d"
  using assms by (auto simp: drain_def Let_def dest: drain_take_latest drain_finish_latest split: prod.splits)

lemma step_token: "pub_step atomic m m' \<Longrightarrow> token_inv m \<Longrightarrow> host m = Host_idle \<or> \<not> atomic \<Longrightarrow> token_inv m'"
proof (induction rule: pub_step.induct)
  case (Begin m b f es)
  then show ?case by (simp add: token_defs publish_start_def)
next
  case (Publish now wake_ok m q p woke)
  from publish_step_token [OF Publish(1)] Publish(2) show ?case
    by (auto simp: token_defs publish_token_def split: if_splits)
next
  case (Drain m h p d)
  then have "slot_ok (pub_latest (pub m))" by (simp add: token_inv_def)
  from drain_step_token [OF Drain(3,2) this] Drain show ?case
    by (auto simp: token_defs continued_def split: option.splits if_splits)
next
  case (Drain_atomic m max_effects d p)
  then have "slot_ok (pub_latest (pub m))" by (simp add: token_inv_def)
  from drain_latest [OF Drain_atomic(3) this] Drain_atomic show ?case
    by (auto simp: token_defs continued_def split: if_splits)
next
  case (Drain_atomic_unprompted max_effects m d p)
  then have "slot_ok (pub_latest (pub m))" by (simp add: token_inv_def)
  from drain_latest [OF Drain_atomic_unprompted(2) this] Drain_atomic_unprompted show ?case
    by (auto simp: token_defs continued_def split: if_splits)
qed (auto simp: token_defs)

lemma step_host_atomic: "pub_step atomic m m' \<Longrightarrow> host m = Host_idle \<or> \<not> atomic \<Longrightarrow> host m' = Host_idle \<or> \<not> atomic"
  by (induction rule: pub_step.induct) auto

lemma reachable_token:
  "pub_reachable atomic lim m \<Longrightarrow> token_inv m \<and> (host m = Host_idle \<or> \<not> atomic)"
proof (erule pub_reachable_induct)
  show "token_inv (pub_init lim) \<and> (host (pub_init lim) = Host_idle \<or> \<not> atomic)"
    by (simp add: token_defs pub_init_def publication_new_def slot_ok_new)
      (simp add: slot_new_def)
qed (metis step_token step_host_atomic)

section \<open>Effects arrive in order\<close>

fun host_effects :: "'t host \<Rightarrow> published_effect list" where
  "host_effects Host_idle = []"
| "host_effects (Host_recv n es) = es"
| "host_effects (Host_count es) = es"
| "host_effects (Host_take remains es) = es"
| "host_effects (Host_complete remains frame es) = es"

definition order_inv :: "'t pub_machine \<Rightarrow> bool" where
  "order_inv m \<longleftrightarrow> sent m = concat (map drain_effects (drains m)) @ host_effects (host m) @ effects_of m"

text \<open>The effects that a step of the publisher queues.\<close>

lemma send_effect_appends:
  assumes "send_effect now e since p = (r, p')"
  shows "mailbox_contents (pub_effects p') =
    mailbox_contents (pub_effects p) @ (if r = Returned (Ok ()) then [e] else [])"
  using assms
  by (auto simp: send_effect_def dest: contents_send contents_send_turn split: prod.splits option.splits)

lemma publish_step_appends:
  assumes "publish_step now wake_ok q p = (q', p', woke)"
  obtains xs where "mailbox_contents (pub_effects p') = mailbox_contents (pub_effects p) @ xs"
proof (cases q)
  case (Pub_next frame es)
  with assms that show ?thesis
    by (cases es) (auto dest!: contents_try_send split: prod.splits)
next
  case (Pub_send e since es)
  with assms that show ?thesis by (auto dest!: send_effect_appends split: prod.splits)
qed (use assms that in \<open>auto simp: mailbox_close_def publish_frame_simps split: prod.splits if_splits\<close>)

lemma receive_effects_contents:
  "receive_effects n s = (es, s') \<Longrightarrow> mailbox_contents s = es @ mailbox_contents s'"
proof (induction n arbitrary: s es)
  case (Suc n)
  obtain r s1 ns where t: "try_recv s = (r, s1, ns)" by (cases "try_recv s") auto
  note c = try_recv_contents [OF t]
  show ?case
  proof (cases r)
    case (Ok e)
    obtain es1 s2 where q: "receive_effects n s1 = (es1, s2)" by fastforce
    with Suc t c Ok show ?thesis by auto
  qed (use Suc.prems t c in auto)
qed simp

lemma receive_effects_rest:
  "receive_effects n s = (es, s') \<Longrightarrow> es = take n (mailbox_contents s) \<and> mailbox_contents s' = drop n (mailbox_contents s)"
proof (induction n arbitrary: s es)
  case (Suc n)
  obtain r s1 ns where t: "try_recv s = (r, s1, ns)" by (cases "try_recv s") auto
  show ?case
  proof (cases "queue s")
    case Nil
    with Suc.prems show ?thesis by (auto simp: try_recv_simps mailbox_contents_def)
  next
    case (Cons e q)
    then have "r = Ok (entry_value e)" "mailbox_contents s = entry_value e # mailbox_contents s1"
      using t try_recv_contents [OF t] by (auto simp: try_recv_simps)
    with Suc t show ?thesis by (auto split: prod.splits)
  qed
qed simp

lemma drain_effects_contents:
  assumes "drain n p = (d, p')"
  shows "drain_effects d = take n (mailbox_contents (pub_effects p))"
    and "mailbox_contents (pub_effects p') = drop n (mailbox_contents (pub_effects p))"
  using assms
  by (auto simp: drain_def Let_def dest!: receive_effects_rest drain_take_latest(2) drain_finish_effects
      split: prod.splits)

lemma drain_step_contents:
  assumes "drain_step h p = (h', p', d)"
  shows "host_effects h @ mailbox_contents (pub_effects p) =
    (case d of None \<Rightarrow> [] | Some x \<Rightarrow> drain_effects x) @ host_effects h' @ mailbox_contents (pub_effects p')"
  using assms
  by (induction h p rule: drain_step.induct)
    (auto dest: try_recv_contents drain_take_latest(2) drain_finish_effects
      split: prod.splits outcome.splits)

lemma step_order: "pub_step atomic m m' \<Longrightarrow> order_inv m \<Longrightarrow> host m = Host_idle \<or> \<not> atomic \<Longrightarrow> order_inv m'"
proof (induction rule: pub_step.induct)
  case (Publish now wake_ok m q p woke)
  obtain xs where "mailbox_contents (pub_effects p) = effects_of m @ xs"
    using publish_step_appends [OF Publish(1)] by (auto simp: effects_of_def)
  with Publish(2) show ?case by (simp add: order_inv_def effects_of_def)
next
  case (Drain m h p d)
  with drain_step_contents [OF Drain(3)] show ?case
    by (auto simp: order_inv_def effects_of_def split: option.splits)
next
  case (Drain_atomic m max_effects d p)
  with drain_effects_contents [OF Drain_atomic(3)] show ?case
    by (auto simp: order_inv_def effects_of_def)
next
  case (Drain_atomic_unprompted max_effects m d p)
  with drain_effects_contents [OF Drain_atomic_unprompted(2)] show ?case
    by (auto simp: order_inv_def effects_of_def)
qed (auto simp: order_inv_def effects_of_def)

lemma reachable_order: "pub_reachable atomic lim m \<Longrightarrow> order_inv m"
proof (erule pub_reachable_induct)
  show "order_inv (pub_init lim)"
    by (simp add: order_inv_def effects_of_def pub_init_def publication_new_def bounded_mailbox_def mailbox_contents_def)
qed (blast intro: step_order dest: reachable_token)

section \<open>No effect is stranded by an atomic drain\<close>

text \<open>The publisher will still publish its frame, signal the host or has given up.\<close>

fun owes_signal :: "'t publisher \<Rightarrow> bool" where
  "owes_signal (Pub_next frame es) = (frame \<noteq> None)"
| "owes_signal (Pub_frame f refused es) = True"
| "owes_signal (Pub_signal es) = True"
| "owes_signal (Pub_returned ok) = (\<not> ok)"
| "owes_signal (Pub_wake refused es) = False"
| "owes_signal (Pub_send e since es) = False"

definition signalled_inv :: "'t pub_machine \<Rightarrow> bool" where
  "signalled_inv m \<longleftrightarrow>
     (effects_of m \<noteq> [] \<longrightarrow> wake_pending (pub_latest (pub m)) \<or> owes_signal (publisher m))"

lemma send_effect_keeps:
  "send_effect now e since p = (Waits t, p') \<Longrightarrow> mailbox_contents (pub_effects p') = mailbox_contents (pub_effects p)"
  by (drule send_effect_appends) simp

lemma publish_step_signalled:
  assumes step: "publish_step now wake_ok q p = (q', p', woke)"
    and old: "mailbox_contents (pub_effects p) \<noteq> [] \<longrightarrow> wake_pending (pub_latest p) \<or> owes_signal q"
  shows "mailbox_contents (pub_effects p') \<noteq> [] \<longrightarrow> wake_pending (pub_latest p') \<or> owes_signal q'"
proof (cases q)
  case (Pub_next frame es)
  with step old show ?thesis
    by (cases es; cases frame)
      (auto dest!: contents_try_send split: prod.splits outcome.splits try_send_error.splits)
next
  case (Pub_frame f refused es)
  with step show ?thesis by (auto dest: publish_frame_simps(2) split: prod.splits)
next
  case (Pub_wake refused es)
  with step old show ?thesis by (auto split: if_splits)
next
  case (Pub_send e since es)
  with step old show ?thesis
    by (auto dest: send_effect_latest send_effect_keeps split: prod.splits progress.splits outcome.splits)
next
  case (Pub_signal es)
  with step show ?thesis by (auto dest: signal_workD(2) split: prod.splits)
next
  case (Pub_returned b)
  with step old show ?thesis by auto
qed

lemma drain_remains:
  assumes "drain n p = (d, p')"
  shows "drain_continuation d \<longleftrightarrow> drop n (mailbox_contents (pub_effects p)) \<noteq> []"
    and "drain_frame d = (if drop n (mailbox_contents (pub_effects p)) = [] then latest (pub_latest p) else None)"
proof -
  obtain es s where r: "receive_effects n (pub_effects p) = (es, s)" by fastforce
  let ?p1 = "p\<lparr>pub_effects := s\<rparr>"
  have q: "queued_items_of ?p1 = length (drop n (mailbox_contents (pub_effects p)))"
    using receive_effects_rest [OF r]
    by (simp add: queued_items_of_def mailbox_metrics_of_def mailbox_contents_def) (metis length_drop length_map)
  obtain frame p2 where t: "drain_take (0 < queued_items_of ?p1) ?p1 = (frame, p2)" by fastforce
  have f: "drain_finish es (0 < queued_items_of ?p1) frame p2 = (d, p')"
    using assms r t by (simp add: drain_def Let_def)
  show "drain_continuation d \<longleftrightarrow> drop n (mailbox_contents (pub_effects p)) \<noteq> []"
    using drain_finish_latest(1) [OF f] drain_take_latest(4,5) [OF t] q by (cases "0 < queued_items_of ?p1") auto
  show "drain_frame d = (if drop n (mailbox_contents (pub_effects p)) = [] then latest (pub_latest p) else None)"
    using drain_finish_latest(6) [OF f] t q by (auto simp: drain_take_def slot_take_def split: if_splits)
qed

lemma step_signalled:
  "pub_step atomic m m' \<Longrightarrow> atomic \<Longrightarrow> token_inv m \<Longrightarrow> signalled_inv m \<Longrightarrow> signalled_inv m'"
proof (induction rule: pub_step.induct)
  case (Begin m b f es)
  then show ?case by (simp add: signalled_inv_def publish_start_def)
next
  case (Publish now wake_ok m q p woke)
  from publish_step_signalled [OF Publish(1)] Publish(4) show ?case
    by (simp add: signalled_inv_def effects_of_def)
next
  case (Drain_atomic m max_effects d p)
  then have ok: "slot_ok (pub_latest (pub m))" by (simp add: token_inv_def)
  show ?case
    using drain_latest(2) [OF Drain_atomic(3) ok] drain_remains(1) [OF Drain_atomic(3)]
      drain_effects_contents(2) [OF Drain_atomic(3)]
    by (simp add: signalled_inv_def effects_of_def)
next
  case (Drain_atomic_unprompted max_effects m d p)
  then have ok: "slot_ok (pub_latest (pub m))" by (simp add: token_inv_def)
  show ?case
    using drain_latest(2) [OF Drain_atomic_unprompted(2) ok] drain_remains(1) [OF Drain_atomic_unprompted(2)]
      drain_effects_contents(2) [OF Drain_atomic_unprompted(2)]
    by (simp add: signalled_inv_def effects_of_def)
qed (simp_all add: signalled_inv_def effects_of_def)

lemma reachable_signalled: "pub_reachable True lim m \<Longrightarrow> signalled_inv m"
proof (erule pub_reachable_induct)
  show "signalled_inv (pub_init lim)"
    by (simp add: signalled_inv_def effects_of_def pub_init_def publication_new_def bounded_mailbox_def mailbox_contents_def)
qed (blast intro: step_signalled dest: reachable_token)

end
