(* ===== verification/Publication_Properties.thy ===== *)
theory Publication_Properties
  imports Publication_Machine
begin

text \<open>
  What the publication promises to worker and host, what it does not promise when a drain is
  interleaved with a publication, and the sequence numbers that let a host check its stream.
\<close>

section \<open>Schedules\<close>

text \<open>A run of the machine along a list of choices; a choice that is not enabled changes nothing.\<close>

datatype 't choice = C_begin "'t presentation_frame" "published_effect list" | C_publish instant bool | C_turn nat | C_unprompted nat | C_drain

fun run_choice :: "'t choice \<Rightarrow> 't pub_machine \<Rightarrow> 't pub_machine" where
  "run_choice (C_begin f es) m =
     (case publisher m of Pub_returned b \<Rightarrow> m\<lparr>publisher := publish_start f es\<rparr> | _ \<Rightarrow> m)"
| "run_choice (C_publish now wake_ok) m =
     (case publish_step now wake_ok (publisher m) (pub m) of (q, p, woke) \<Rightarrow>
        m\<lparr>pub := p, publisher := q, tokens := tokens m + (if woke then 1 else 0),
          wake_failed := wake_failed m \<or> (is_waking (publisher m) \<and> \<not> wake_ok),
          sent := sent m @ drop (length (effects_of m)) (mailbox_contents (pub_effects p))\<rparr>)"
| "run_choice (C_turn n) m =
     (if host m = Host_idle \<and> 0 < tokens m then m\<lparr>tokens := tokens m - 1, host := Host_recv n []\<rparr> else m)"
| "run_choice (C_unprompted n) m =
     (if host m = Host_idle then m\<lparr>unprompted := True, host := Host_recv n []\<rparr> else m)"
| "run_choice C_drain m =
     (if host m = Host_idle then m
      else case drain_step (host m) (pub m) of (h, p, d) \<Rightarrow>
        m\<lparr>pub := p, host := h, tokens := tokens m + continued d,
          drains := drains m @ (case d of Some x \<Rightarrow> [x] | None \<Rightarrow> [])\<rparr>)"

lemma run_choice_reachable:
  assumes "pub_reachable False lim m"
  shows "pub_reachable False lim (run_choice c m)"
proof (cases c)
  case (C_begin f es)
  with assms show ?thesis
    by (auto intro: pub_reachable.Step pub_step.Begin split: publisher.splits)
next
  case (C_publish now wake_ok)
  obtain q p woke where "publish_step now wake_ok (publisher m) (pub m) = (q, p, woke)"
    by (cases "publish_step now wake_ok (publisher m) (pub m)") auto
  from pub_step.Publish [OF this, of False] this C_publish show ?thesis
    by (intro pub_reachable.Step [OF assms]) simp
next
  case (C_turn n)
  with pub_step.Turn [of False m n] assms show ?thesis by (auto intro: pub_reachable.Step)
next
  case (C_unprompted n)
  with pub_step.Turn_unprompted [of False m n] assms show ?thesis by (auto intro: pub_reachable.Step)
next
  case C_drain
  with assms show ?thesis
    by (auto intro!: pub_reachable.Step [OF assms] pub_step.Drain split: prod.splits)
qed

lemma schedule_reachable: "pub_reachable False lim (fold run_choice cs (pub_init lim))"
proof -
  have "pub_reachable False lim m \<Longrightarrow> pub_reachable False lim (fold run_choice cs m)" for m :: "'a pub_machine"
    by (induction cs arbitrary: m) (auto intro: run_choice_reachable)
  then show ?thesis using pub_reachable.Start by blast
qed

definition demo_token :: pane_token where
  "demo_token = \<lparr>token_pane = 1, token_generation = 1\<rparr>"

definition demo_effect :: "nat \<Rightarrow> published_effect" where
  "demo_effect n = \<lparr>pe_pane = demo_token, pe_revision = 1,
     pe_effect = \<lparr>effect_sequence_of = n, effect_kind = Bell 1\<rparr>\<rparr>"

definition demo_frame :: "unit presentation_frame" where
  "demo_frame = \<lparr>frame_pane = demo_token, frame_revision = 1, frame_snapshot = (),
     frame_state = \<lparr>summary_size = (80, 24), summary_cursor = (0, 0), summary_scrollback_rows = 0,
       summary_sequence = 1, summary_visible_digest = 0\<rparr>,
     snapshot_changed = True, full_repaint = False, frame_damage = [],
     frame_metadata = \<lparr>md_title = None, md_working_directory = None, md_badge_format = None,
       md_progress = None, md_user_vars = []\<rparr>,
     frame_metrics = batch_metrics_default\<rparr>"

definition one_slot :: mailbox_limits where
  "one_slot = \<lparr>max_items = 1, max_bytes = 10\<rparr>"

text \<open>
  The worker publishes a frame with two effects through a mailbox of one slot. The second
  effect does not fit, so the frame is published first and the host woken. The host takes the
  first effect and sees an empty mailbox; then the worker queues the second effect and finds the
  wake still pending; then the host completes its turn.
\<close>

definition stranding_schedule :: "unit choice list" where
  "stranding_schedule =
     [C_begin demo_frame [demo_effect 1, demo_effect 2],
      C_publish 0 True, C_publish 0 True, C_publish 0 True, C_publish 0 True,
      C_turn (Suc (Suc 0)), C_drain, C_drain, C_drain,
      C_publish 0 True, C_publish 0 True, C_publish 0 True,
      C_drain, C_drain]"

definition stranded :: "unit pub_machine" where
  "stranded = fold run_choice stranding_schedule (pub_init one_slot)"

lemmas run_defs = publish_start_def effects_of_def mailbox_contents_def try_send_def Let_def one_slot_def
  admission_bytes_def checked_add_usize_def enqueue_def upd_counters_def retained_bytes_def demo_effect_def
  count_full_def publish_frame_def slot_publish_def signal_work_def wake_if_needed_def pub_resume_def
  send_effect_def mailbox_send_def send_turn_def try_recv_def dequeue_def queued_items_of_def
  mailbox_metrics_of_def drain_take_def slot_take_def drain_finish_def complete_wake_def continued_def
  pub_init_def publication_new_def bounded_mailbox_def counters_default_def slot_new_def
  sat_add_u64_def sat_add_usize_def usize_to_u64_def finish_blocked_send_def int_bounds

lemma stranded_eq:
  "effects_of stranded = [demo_effect 2]" "tokens stranded = 0" "host stranded = Host_idle"
  "publisher stranded = Pub_returned True" "wake_failed stranded = False"
  "wake_pending (pub_latest (pub stranded)) = False" "accepting (pub_effects (pub stranded))"
  unfolding stranded_def stranding_schedule_def by (simp_all add: run_defs)

section \<open>Promises\<close>

text \<open>C26: No wake is lost and none is doubled: under every interleaving of publisher and host, drains of the host's
  own accord included, a frame that waits or a set \<open>wake_pending\<close> has a wake under way unless a call of \<open>wake\<close> has
  failed; and as long as the host drains only when it was woken, at most one wake is under way, and none
  when \<open>wake_pending\<close> is clear.\<close>

theorem publication_single_wake:
  assumes "pub_reachable atomic lim m"
  shows "(has_value (pub_latest (pub m)) \<longrightarrow> wake_pending (pub_latest (pub m))) \<and>
    (wake_pending (pub_latest (pub m)) \<longrightarrow> 0 < outstanding m \<or> wake_failed m) \<and>
    (\<not> unprompted m \<longrightarrow> outstanding m + (if wake_failed m then 1 else 0) = (if wake_pending (pub_latest (pub m)) then 1 else 0))"
  using reachable_token [OF assms] by (auto simp: token_inv_def token_count_def slot_ok_def has_value_def)

text \<open>C27: Effects reach the host in the order in which they were queued, each exactly once:
  what was queued is what completed drains returned, what the current drain holds and what waits.\<close>

theorem publication_effects_in_order:
  assumes "pub_reachable atomic lim m"
  shows "sent m = concat (map drain_effects (drains m)) @ host_effects (host m) @
    mailbox_contents (pub_effects (pub m))"
  using reachable_order [OF assms] by (simp add: order_inv_def effects_of_def)

text \<open>When drains are not interleaved with publications, no effect is stranded: once
  \<open>publish\<close> has returned without error, queued effects have a wake under way, unless a call of \<open>wake\<close> has failed.\<close>

theorem publication_atomic_drain_signals:
  assumes "pub_reachable True lim m" and "publisher m = Pub_returned True" and "effects_of m \<noteq> []"
  shows "0 < outstanding m \<or> wake_failed m"
  using reachable_signalled [OF assms(1)] reachable_token [OF assms(1)] assms(2,3)
  by (auto simp: signalled_inv_def token_inv_def token_count_def)

text \<open>C29: Interleaved as the code runs them, a publication and a drain can strand an effect:
  a schedule ends with \<open>publish\<close> returned, the host idle, an effect queued and no wake outstanding.\<close>

theorem publication_strands_effect:
  "\<exists>m :: unit pub_machine. pub_reachable False one_slot m \<and> publisher m = Pub_returned True \<and>
     host m = Host_idle \<and> effects_of m \<noteq> [] \<and> token_count m = 0"
proof -
  have "pub_reachable False one_slot stranded"
    unfolding stranded_def by (rule schedule_reachable)
  moreover have "token_count stranded = 0"
    by (simp add: token_count_def outstanding_def stranded_eq)
  ultimately show ?thesis using stranded_eq by (metis list.distinct(1))
qed

text \<open>A drain returns the oldest effects up to its limit and the frame only when no
  effect remains; it asks for a continuation exactly when effects remain, which is when it leaves
  the wake token set.\<close>

theorem drain_spec:
  assumes "drain n p = (d, p')" and "slot_ok (pub_latest p)"
  shows "drain_effects d = take n (mailbox_contents (pub_effects p)) \<and>
    mailbox_contents (pub_effects p') = drop n (mailbox_contents (pub_effects p)) \<and>
    drain_frame d = (if drop n (mailbox_contents (pub_effects p)) = [] then latest (pub_latest p) else None) \<and>
    drain_continuation d = (drop n (mailbox_contents (pub_effects p)) \<noteq> []) \<and>
    wake_pending (pub_latest p') = drain_continuation d"
  using drain_effects_contents [OF assms(1)] drain_remains [OF assms(1)] drain_latest [OF assms]
  by simp

text \<open>C28: A host that takes one coalesced frame ends with the same metadata as a host that
  takes every frame in turn; the frame carries the newest snapshot and revision, reports a change
  if any frame did, and asks for a full repaint when it absorbed another one.\<close>

theorem coalesced_frame_equivalent:
  assumes "latest (publish_all coalesce_replaced (f # fs) slot_new) = Some g"
  shows "apply_metadata (frame_metadata g) v = foldl (\<lambda>w h. apply_metadata (frame_metadata h) w) v (f # fs) \<and>
    frame_snapshot g = frame_snapshot (last (f # fs)) \<and> frame_revision g = frame_revision (last (f # fs)) \<and>
    (snapshot_changed g \<longleftrightarrow> (\<exists>h \<in> set (f # fs). snapshot_changed h)) \<and>
    (full_repaint g \<longleftrightarrow> fs \<noteq> [] \<or> full_repaint f)"
proof -
  have "g = foldl (\<lambda>old new. coalesce_replaced new old) f fs"
    using assms by (simp add: latest_publish_all slot_new_def del: publish_all.simps)
  then show ?thesis by (simp add: coalesced_metadata coalesced_flags del: foldl_Cons)
qed

text \<open>A batch stays within its policy: the window counts exactly the admitted items and
  their bytes, at most the allowed number of items, and exceeds the byte limit only by a single
  first item.\<close>

theorem batch_window_bounded:
  assumes "push_all items (window_new p) = (admitted_bytes, w)" and "0 < policy_items p"
  shows "window_bytes w = sum_list admitted_bytes \<and> window_items w = length admitted_bytes \<and>
    length admitted_bytes \<le> policy_items p \<and>
    (length admitted_bytes \<le> 1 \<or> sum_list admitted_bytes \<le> policy_bytes p)"
  using push_all_accounts [OF window_ok_new(1) assms(1)] assms(2)
  by (auto simp: window_ok_def window_new_def split: option.splits)

text \<open>The cursor accepts a batch exactly when its effects carry the next sequence
  numbers without gap or repetition, and then expects the following one; on any error it is
  unchanged.\<close>

theorem cursor_accepts_consecutive:
  assumes "cursor_expected c = Some e" and "0 < e" and "e \<le> u64_max"
  shows "validate_batch es c =
    (if map effect_sequence_of es = [e ..< e + length es] \<and> e + length es \<le> u64_max + 1
     then (Ok (), c\<lparr>cursor_expected := (if e + length es \<le> u64_max then Some (e + length es) else None)\<rparr>)
     else (fst (validate_batch es c), c)) \<and>
    (is_ok (fst (validate_batch es c)) \<longleftrightarrow>
       map effect_sequence_of es = [e ..< e + length es] \<and> e + length es \<le> u64_max + 1)"
proof -
  have v: "validate_effects (Some e) es = Ok r \<longleftrightarrow>
      map effect_sequence_of es = [e ..< e + length es] \<and> e + length es \<le> u64_max + 1 \<and>
      r = expected_after e (length es)" for r
    by (rule validate_effects_Ok [OF assms(2,3)])
  show ?thesis
  proof (cases "validate_effects (Some e) es")
    case (Ok r)
    with v [of r] assms(1) show ?thesis by (auto simp: validate_batch_def expected_after_def)
  qed (use v assms(1) in \<open>auto simp: validate_batch_def\<close>)
qed

text \<open>Pane generations are never reused: the counter issues 1, 2, ... up to its maximum,
  each once, and refuses every later request.\<close>

theorem pane_generations_unique:
  assumes "i < n"
  shows "fst (issue_many n sequence_first) ! i =
    (if i + 1 \<le> u64_max then Ok (i + 1) else Err (SequenceExhausted Kind_PaneGeneration))"
  using issue_many_nth [of sequence_first i n] assms by (simp add: sequence_first_def int_bounds)

section \<open>Witnesses\<close>

text \<open>The schedule above, stopped before the host begins its turn, and its atomic counterpart.\<close>

definition woken :: "unit pub_machine" where
  "woken = fold run_choice (take 5 stranding_schedule) (pub_init one_slot)"

lemma woken_eq:
  "woken = run_choice (C_publish 0 True) (run_choice (C_publish 0 True) (run_choice (C_publish 0 True)
     (run_choice (C_publish 0 True) (run_choice (C_begin demo_frame [demo_effect 1, demo_effect 2]) (pub_init one_slot)))))"
  by (simp add: woken_def stranding_schedule_def del: run_choice.simps)

lemma woken_reachable: "pub_reachable False one_slot woken"
  unfolding woken_def by (rule schedule_reachable)

lemma publication_single_wake_witness: "tokens woken = 1 \<and> outstanding woken = 1"
  using publication_single_wake [OF woken_reachable] by (simp add: woken_eq run_defs has_value_def outstanding_def)

lemma publication_effects_in_order_witness: "sent woken = [demo_effect 1]"
  using publication_effects_in_order [OF woken_reachable]
  unfolding woken_eq by (simp add: run_defs)

definition quiet_schedule :: "unit choice list" where
  "quiet_schedule = [C_begin demo_frame [demo_effect 1], C_publish 0 True, C_publish 0 True, C_publish 0 True,
     C_publish 0 True, C_publish 0 True]"

lemma publish_choice_reachable:
  assumes "pub_reachable atomic lim m" and "\<forall>c \<in> set cs. \<exists>f es now ok. c = C_begin f es \<or> c = C_publish now ok"
  shows "pub_reachable atomic lim (fold run_choice cs m)"
  using assms
proof (induction cs arbitrary: m)
  case (Cons c cs)
  have "pub_reachable atomic lim (run_choice c m)"
  proof (cases c)
    case (C_begin f es)
    with Cons.prems(1) show ?thesis
      by (auto intro: pub_reachable.Step pub_step.Begin split: publisher.splits)
  next
    case (C_publish now wake_ok)
    obtain q p woke where "publish_step now wake_ok (publisher m) (pub m) = (q, p, woke)"
      by (cases "publish_step now wake_ok (publisher m) (pub m)") auto
    from pub_step.Publish [OF this, of atomic] this C_publish show ?thesis
      by (intro pub_reachable.Step [OF Cons.prems(1)]) simp
  qed (use Cons.prems(2) in auto)
  with Cons show ?case by simp
qed simp

definition quiet :: "unit pub_machine" where
  "quiet = fold run_choice quiet_schedule (pub_init one_slot)"

lemma quiet_reachable: "pub_reachable True one_slot quiet"
  unfolding quiet_def
  by (rule publish_choice_reachable [OF pub_reachable.Start]) (auto simp: quiet_schedule_def)

lemma quiet_eq: "publisher quiet = Pub_returned True" "effects_of quiet = [demo_effect 1]"
  unfolding quiet_def quiet_schedule_def by (simp_all add: run_defs)

lemma publication_atomic_drain_signals_witness: "0 < outstanding quiet \<or> wake_failed quiet"
  by (rule publication_atomic_drain_signals [OF quiet_reachable]) (simp_all add: quiet_eq)

lemma drain_spec_witness: "drain_effects (fst (drain 8 (pub quiet))) = [demo_effect 1]"
proof -
  have "slot_ok (pub_latest (pub quiet))"
    using reachable_token [OF quiet_reachable] by (simp add: token_inv_def)
  from drain_spec [OF _ this, of 8 "fst (drain 8 (pub quiet))" "snd (drain 8 (pub quiet))"] quiet_eq
  show ?thesis by (simp add: effects_of_def)
qed

definition titled_frame :: "nat \<Rightarrow> unit presentation_frame" where
  "titled_frame n = demo_frame\<lparr>frame_revision := n,
     frame_metadata := (frame_metadata demo_frame)\<lparr>md_title := Some (Set_to [n])\<rparr>\<rparr>"

lemma coalesced_frame_equivalent_witness:
  "\<exists>g. latest (publish_all coalesce_replaced [titled_frame 7, titled_frame 8] slot_new) = Some g \<and>
     frame_revision g = 8 \<and> full_repaint g"
proof -
  obtain g where g: "latest (publish_all coalesce_replaced [titled_frame 7, titled_frame 8] slot_new) = Some g"
    by (simp add: latest_publish_all slot_new_def del: publish_all.simps)
  with coalesced_frame_equivalent [OF g] show ?thesis by (simp add: titled_frame_def)
qed

lemma batch_window_bounded_witness:
  "window_bytes (snd (push_all [(0, 6), (1, 3), (2, 5)] (window_new \<lparr>policy_bytes = 10, policy_items = 4, policy_latency = 9\<rparr>))) = 9"
  using batch_window_bounded [of "[(0, 6), (1, 3), (2, 5)]" "\<lparr>policy_bytes = 10, policy_items = 4, policy_latency = 9\<rparr>" "[6, 3]"]
  by (simp add: window_new_def window_try_push_def admitted_def checked_add_usize_def duration_since_def int_bounds)

lemma cursor_accepts_consecutive_witness:
  "is_ok (fst (validate_batch [pe_effect (demo_effect 1), pe_effect (demo_effect 2)] (cursor_new sequence_first)))"
  using cursor_accepts_consecutive [of "cursor_new sequence_first" 1 "[pe_effect (demo_effect 1), pe_effect (demo_effect 2)]"]
  by (simp add: cursor_new_def sequence_first_def int_bounds demo_effect_def upt_rec)

lemma pane_generations_unique_witness: "fst (issue_many 3 sequence_first) ! 2 = Ok 3"
  using pane_generations_unique [of 2 3] by (simp add: int_bounds)

end
