(* ===== verification/Utf8.thy ===== *)
theory Utf8
  imports Prelude
begin

text \<open>
  The UTF-8 of Rust strings: \<open>str::as_bytes\<close> of the scalar values of a string, and
  \<open>std::str::from_utf8\<close>, which refuses overlong forms, surrogates and values beyond
  \<open>10FFFF\<close> by the ranges of its second bytes.
\<close>

definition is_scalar :: "nat \<Rightarrow> bool" where
  "is_scalar c \<longleftrightarrow> c < 0xD800 \<or> 0xE000 \<le> c \<and> c < 0x110000"

definition valid_str :: "str \<Rightarrow> bool" where
  "valid_str s \<longleftrightarrow> (\<forall>c \<in> set s. is_scalar c)"

definition encode_char :: "nat \<Rightarrow> u8 list" where
  "encode_char c =
     (if c < 0x80 then [c]
      else if c < 0x800 then [0xC0 + c div 64, 0x80 + c mod 64]
      else if c < 0x10000 then [0xE0 + c div 4096, 0x80 + c div 64 mod 64, 0x80 + c mod 64]
      else [0xF0 + c div 262144, 0x80 + c div 4096 mod 64, 0x80 + c div 64 mod 64, 0x80 + c mod 64])"

definition as_bytes :: "str \<Rightarrow> u8 list" where
  "as_bytes s = concat (map encode_char s)"

definition continuation :: "u8 \<Rightarrow> bool" where
  "continuation b \<longleftrightarrow> 0x80 \<le> b \<and> b < 0xC0"

definition second_byte_ok :: "u8 \<Rightarrow> u8 \<Rightarrow> bool" where
  "second_byte_ok b b1 \<longleftrightarrow>
     continuation b1 \<and> (b = 0xE0 \<longrightarrow> 0xA0 \<le> b1) \<and> (b = 0xED \<longrightarrow> b1 < 0xA0) \<and>
     (b = 0xF0 \<longrightarrow> 0x90 \<le> b1) \<and> (b = 0xF4 \<longrightarrow> b1 < 0x90)"

fun from_utf8 :: "u8 list \<Rightarrow> str option" where
  "from_utf8 [] = Some []"
| "from_utf8 (b # bs) =
     (if b < 0x80 then map_option (\<lambda>s. b # s) (from_utf8 bs)
      else if 0xC2 \<le> b \<and> b < 0xE0 then
        (case bs of
           b1 # r \<Rightarrow> if continuation b1
             then map_option (\<lambda>s. ((b - 0xC0) * 64 + (b1 - 0x80)) # s) (from_utf8 r) else None
         | _ \<Rightarrow> None)
      else if 0xE0 \<le> b \<and> b < 0xF0 then
        (case bs of
           b1 # b2 # r \<Rightarrow> if second_byte_ok b b1 \<and> continuation b2
             then map_option (\<lambda>s. ((b - 0xE0) * 4096 + (b1 - 0x80) * 64 + (b2 - 0x80)) # s) (from_utf8 r) else None
         | _ \<Rightarrow> None)
      else if 0xF0 \<le> b \<and> b < 0xF5 then
        (case bs of
           b1 # b2 # b3 # r \<Rightarrow> if second_byte_ok b b1 \<and> continuation b2 \<and> continuation b3
             then map_option (\<lambda>s. ((b - 0xF0) * 262144 + (b1 - 0x80) * 4096 + (b2 - 0x80) * 64 + (b3 - 0x80)) # s)
               (from_utf8 r) else None
         | _ \<Rightarrow> None)
      else None)"

lemma as_bytes_simps [simp]:
  "as_bytes [] = []" "as_bytes (c # s) = encode_char c @ as_bytes s" "as_bytes (s @ t) = as_bytes s @ as_bytes t"
  by (simp_all add: as_bytes_def)

lemma split_4096: "c div 4096 * 4096 + c div 64 mod 64 * 64 + c mod 64 = (c :: nat)"
proof -
  have "c div 4096 = c div 64 div 64" by (simp add: div_mult2_eq [symmetric])
  moreover have "c div 64 * 64 + c mod 64 = c" by simp
  moreover have "c div 64 div 64 * 64 + c div 64 mod 64 = c div 64" by simp
  ultimately show ?thesis by linarith
qed

lemma split_262144:
  "c div 262144 * 262144 + c div 4096 mod 64 * 4096 + c div 64 mod 64 * 64 + c mod 64 = (c :: nat)"
proof -
  have "c div 262144 = c div 4096 div 64" by (simp add: div_mult2_eq [symmetric])
  moreover have "c div 4096 * 4096 + c div 64 mod 64 * 64 + c mod 64 = c" by (rule split_4096)
  moreover have "c div 4096 div 64 * 64 + c div 4096 mod 64 = c div 4096" by simp
  ultimately show ?thesis by linarith
qed

lemma cont_mod [simp]: "continuation (128 + n mod 64)"
  by (simp add: continuation_def)

lemma second_3:
  assumes "0x800 \<le> c" "c < 0x10000" "is_scalar c"
  shows "second_byte_ok (224 + c div 4096) (128 + c div 64 mod 64)"
proof -
  have m: "c div 64 mod 64 = c div 64 - c div 4096 * 64"
    using split_4096 [of c] div_mult_mod_eq [of c 64] by linarith
  have "224 + c div 4096 = 0xE0 \<longrightarrow> 0xA0 \<le> 128 + c div 64 mod 64"
    using assms(1) m by auto
  moreover have "c div 4096 = 13 \<longrightarrow> c < 0xD800"
    using assms(3) by (auto simp: is_scalar_def)
  then have "224 + c div 4096 = 0xED \<longrightarrow> 128 + c div 64 mod 64 < 0xA0"
    using m by auto
  moreover have "c div 4096 < 16" using assms(2) by simp
  ultimately show ?thesis by (auto simp: second_byte_ok_def)
qed

lemma second_4:
  assumes "0x10000 \<le> c" "c < 0x110000"
  shows "second_byte_ok (240 + c div 262144) (128 + c div 4096 mod 64)"
proof -
  have m: "c div 4096 mod 64 = c div 4096 - c div 262144 * 64"
    using split_262144 [of c] split_4096 [of c] by linarith
  have "240 + c div 262144 = 0xF0 \<longrightarrow> 0x90 \<le> 128 + c div 4096 mod 64"
    using assms(1) m by auto
  moreover have "240 + c div 262144 = 0xF4 \<longrightarrow> 128 + c div 4096 mod 64 < 0x90"
    using assms(2) m by auto
  ultimately show ?thesis by (auto simp: second_byte_ok_def)
qed

lemma from_utf8_encode_char:
  assumes "is_scalar c"
  shows "from_utf8 (encode_char c @ bs) = map_option (\<lambda>s. c # s) (from_utf8 bs)"
proof -
  consider "c < 0x80" | "0x80 \<le> c" "c < 0x800" | "0x800 \<le> c" "c < 0x10000" | "0x10000 \<le> c" "c < 0x110000"
    using assms unfolding is_scalar_def by linarith
  then show ?thesis
  proof cases
    case 1
    then show ?thesis by (simp add: encode_char_def)
  next
    case 2
    then have "2 \<le> c div 64" "c div 64 < 32" by auto
    with 2 show ?thesis by (simp add: encode_char_def)
  next
    case 3
    then have "c div 4096 < 16" by auto
    with 3 second_3 [OF 3 assms] split_4096 [of c] show ?thesis by (simp add: encode_char_def)
  next
    case 4
    then have "c div 262144 < 5" by auto
    with 4 second_4 [OF 4] split_262144 [of c] show ?thesis by (simp add: encode_char_def)
  qed
qed

lemma from_utf8_append: "valid_str s \<Longrightarrow> from_utf8 (as_bytes s @ bs) = map_option (\<lambda>t. s @ t) (from_utf8 bs)"
proof (induction s)
  case Nil
  have "(\<lambda>t. [] @ t) = (id :: str \<Rightarrow> str)" by (simp add: fun_eq_iff)
  then show ?case by (simp add: option.map_id)
next
  case (Cons a s)
  have "(\<lambda>t. a # s @ t) = (\<lambda>t. (a # s) @ t)" by (simp add: fun_eq_iff)
  with Cons show ?case
    by (simp add: valid_str_def from_utf8_encode_char option.map_comp comp_def del: from_utf8.simps(2))
qed

lemma from_utf8_as_bytes: "valid_str s \<Longrightarrow> from_utf8 (as_bytes s) = Some s"
  using from_utf8_append [of s "[]"] by simp

end
