(* ===== verification/Delta.thy ===== *)
theory Delta
  imports Utf8 Publication
begin

text \<open>
  The reusable arenas that a feed of the terminal fills and the delta read from them,
  \<open>rssh-runtime/src/delta.rs\<close>: payloads are appended to a byte or text arena and effects refer to
  them by ranges. Reading an effect back slices the arena, which panics when a range is out of
  bounds or its text is not UTF-8. Capacities of the arenas belong to the allocator: what
  \<open>capacities\<close> reports is the parameter \<open>capacity\<close>.
\<close>

section \<open>Arenas\<close>

record byte_range =
  range_start :: usize
  range_len :: usize

definition range_resolve :: "byte_range \<Rightarrow> u8 list \<Rightarrow> (u8 list, 'e) outcome" where
  "range_resolve r bytes =
     (if range_start r + range_len r \<le> length bytes then Ok (take (range_len r) (drop (range_start r) bytes)) else Panic)"

definition range_resolve_str :: "byte_range \<Rightarrow> u8 list \<Rightarrow> (str, 'e) outcome" where
  "range_resolve_str r bytes =
     bind_outcome (range_resolve r bytes) (\<lambda>b. case from_utf8 b of Some s \<Rightarrow> Ok s | None \<Rightarrow> Panic)"

datatype effect_descriptor =
    Desc_ConsoleWrite byte_range
  | Desc_TransportWrite byte_range
  | Desc_ModeChange terminal_mode_change
  | Desc_Bell u64
  | Desc_ClipboardWrite "byte_range option" byte_range
  | Desc_ClipboardRead byte_range
  | Desc_Notification "byte_range option" byte_range
  | Desc_Diagnostic byte_range

datatype metadata_descriptor = Desc_Set byte_range | Desc_Clear

record user_var_descriptor =
  uvd_name :: byte_range
  uvd_value :: metadata_descriptor

record runtime_buffer_capacities =
  cap_byte_arena :: usize
  cap_visible :: usize
  cap_text_arena :: usize
  cap_responses :: usize
  cap_effects :: usize
  cap_damage :: usize
  cap_user_vars :: usize

record runtime_buffers =
  rb_bytes :: "u8 list"
  rb_visible :: "u8 list"
  rb_text :: "u8 list"
  rb_responses :: "byte_range list"
  rb_effects :: "effect_descriptor list"
  rb_damage :: "damage_region list"
  rb_title :: "metadata_descriptor option"
  rb_working_directory :: "metadata_descriptor option"
  rb_badge_format :: "metadata_descriptor option"
  rb_progress :: "runtime_progress option"
  rb_user_vars :: "user_var_descriptor list"
  rb_relocations :: u64
  rb_response_payload_copies :: u64
  rb_owned_response_materializations :: u64
  rb_response_commits :: u64

definition buffers_default :: runtime_buffers where
  "buffers_default = \<lparr>rb_bytes = [], rb_visible = [], rb_text = [], rb_responses = [], rb_effects = [],
     rb_damage = [], rb_title = None, rb_working_directory = None, rb_badge_format = None, rb_progress = None,
     rb_user_vars = [], rb_relocations = 0, rb_response_payload_copies = 0,
     rb_owned_response_materializations = 0, rb_response_commits = 0\<rparr>"

definition begin_feed :: "(runtime_buffers \<Rightarrow> runtime_buffer_capacities) \<Rightarrow> runtime_buffers
    \<Rightarrow> runtime_buffer_capacities \<times> runtime_buffers" where
  "begin_feed capacity b = (capacity b, b\<lparr>rb_bytes := [], rb_visible := [], rb_text := [], rb_responses := [],
     rb_effects := [], rb_damage := [], rb_title := None, rb_working_directory := None, rb_badge_format := None,
     rb_progress := None, rb_user_vars := [], rb_response_payload_copies := 0,
     rb_owned_response_materializations := 0, rb_response_commits := 0\<rparr>)"

definition finish_feed :: "(runtime_buffers \<Rightarrow> runtime_buffer_capacities) \<Rightarrow> runtime_buffer_capacities
    \<Rightarrow> runtime_buffers \<Rightarrow> runtime_buffers" where
  "finish_feed capacity before b =
     b\<lparr>rb_relocations := sat_add_u64 (rb_relocations b) (if before \<noteq> capacity b then 1 else 0)\<rparr>"

definition push_bytes :: "u8 list \<Rightarrow> runtime_buffers \<Rightarrow> byte_range \<times> runtime_buffers" where
  "push_bytes bytes b =
     (\<lparr>range_start = length (rb_bytes b), range_len = length bytes\<rparr>, b\<lparr>rb_bytes := rb_bytes b @ bytes\<rparr>)"

definition push_text :: "str \<Rightarrow> runtime_buffers \<Rightarrow> byte_range \<times> runtime_buffers" where
  "push_text s b =
     (\<lparr>range_start = length (rb_text b), range_len = length (as_bytes s)\<rparr>, b\<lparr>rb_text := rb_text b @ as_bytes s\<rparr>)"

definition push_effect :: "effect_descriptor \<Rightarrow> runtime_buffers \<Rightarrow> runtime_buffers" where
  "push_effect e b = b\<lparr>rb_effects := rb_effects b @ [e]\<rparr>"

definition commit_transport_write :: "byte_range \<Rightarrow> runtime_buffers \<Rightarrow> runtime_buffers" where
  "commit_transport_write r b =
     b\<lparr>rb_responses := rb_responses b @ [r], rb_effects := rb_effects b @ [Desc_TransportWrite r],
       rb_response_commits := sat_add_u64 (rb_response_commits b) 1\<rparr>"

definition push_transport_write :: "u8 list \<Rightarrow> runtime_buffers \<Rightarrow> runtime_buffers" where
  "push_transport_write response b =
     (case push_bytes response (b\<lparr>
             rb_response_payload_copies := sat_add_u64 (rb_response_payload_copies b) 1,
             rb_owned_response_materializations := sat_add_u64 (rb_owned_response_materializations b) 1\<rparr>) of
        (r, b1) \<Rightarrow> commit_transport_write r b1)"

definition push_console_write :: "u8 list \<Rightarrow> runtime_buffers \<Rightarrow> runtime_buffers" where
  "push_console_write bytes b =
     (if bytes = [] then b
      else case push_bytes bytes b of (r, b1) \<Rightarrow> push_effect (Desc_ConsoleWrite r) b1)"

definition push_mode_change :: "terminal_mode_change \<Rightarrow> runtime_buffers \<Rightarrow> runtime_buffers" where
  "push_mode_change change = push_effect (Desc_ModeChange change)"

text \<open>The callback appends to the byte arena and may fail half way.\<close>

definition try_push_transport_write_with :: "(u8 list \<Rightarrow> (unit, 'e) outcome \<times> u8 list) \<Rightarrow> runtime_buffers
    \<Rightarrow> (unit, 'e) outcome \<times> runtime_buffers" where
  "try_push_transport_write_with write b =
     (let start = length (rb_bytes b) in
      case write (rb_bytes b) of
        (Ok _, bytes) \<Rightarrow> (Ok (), commit_transport_write
            \<lparr>range_start = start, range_len = length bytes - start\<rparr> (b\<lparr>rb_bytes := bytes\<rparr>))
      | (Err e, bytes) \<Rightarrow> (Err e, b\<lparr>rb_bytes := take start bytes\<rparr>)
      | (r, bytes) \<Rightarrow> (r, b\<lparr>rb_bytes := bytes\<rparr>))"

definition push_bell :: "u64 \<Rightarrow> runtime_buffers \<Rightarrow> runtime_buffers" where
  "push_bell n b = (if n \<noteq> 0 then push_effect (Desc_Bell n) b else b)"

definition push_opt_text :: "str option \<Rightarrow> runtime_buffers \<Rightarrow> byte_range option \<times> runtime_buffers" where
  "push_opt_text s b =
     (case s of None \<Rightarrow> (None, b) | Some t \<Rightarrow> (case push_text t b of (r, b1) \<Rightarrow> (Some r, b1)))"

definition push_clipboard_write :: "str option \<Rightarrow> str \<Rightarrow> runtime_buffers \<Rightarrow> runtime_buffers" where
  "push_clipboard_write selection contents b =
     (case push_opt_text selection b of (sel, b1) \<Rightarrow>
        case push_text contents b1 of (r, b2) \<Rightarrow> push_effect (Desc_ClipboardWrite sel r) b2)"

definition push_clipboard_read :: "str \<Rightarrow> runtime_buffers \<Rightarrow> runtime_buffers" where
  "push_clipboard_read selection b =
     (case push_text selection b of (r, b1) \<Rightarrow> push_effect (Desc_ClipboardRead r) b1)"

definition push_notification :: "str option \<Rightarrow> str \<Rightarrow> runtime_buffers \<Rightarrow> runtime_buffers" where
  "push_notification title body b =
     (case push_opt_text title b of (t, b1) \<Rightarrow>
        case push_text body b1 of (r, b2) \<Rightarrow> push_effect (Desc_Notification t r) b2)"

definition push_diagnostic :: "str \<Rightarrow> runtime_buffers \<Rightarrow> runtime_buffers" where
  "push_diagnostic message b =
     (case push_text message b of (r, b1) \<Rightarrow> push_effect (Desc_Diagnostic r) b1)"

definition metadata_text :: "str option \<Rightarrow> runtime_buffers \<Rightarrow> metadata_descriptor \<times> runtime_buffers" where
  "metadata_text v b =
     (case v of None \<Rightarrow> (Desc_Clear, b) | Some s \<Rightarrow> (case push_text s b of (r, b1) \<Rightarrow> (Desc_Set r, b1)))"

definition buffers_set_title :: "str option \<Rightarrow> runtime_buffers \<Rightarrow> runtime_buffers" where
  "buffers_set_title v b = (case metadata_text v b of (d, b1) \<Rightarrow> b1\<lparr>rb_title := Some d\<rparr>)"

definition buffers_set_working_directory :: "str option \<Rightarrow> runtime_buffers \<Rightarrow> runtime_buffers" where
  "buffers_set_working_directory v b = (case metadata_text v b of (d, b1) \<Rightarrow> b1\<lparr>rb_working_directory := Some d\<rparr>)"

definition buffers_set_badge_format :: "str option \<Rightarrow> runtime_buffers \<Rightarrow> runtime_buffers" where
  "buffers_set_badge_format v b = (case metadata_text v b of (d, b1) \<Rightarrow> b1\<lparr>rb_badge_format := Some d\<rparr>)"

definition buffers_set_progress :: "runtime_progress \<Rightarrow> runtime_buffers \<Rightarrow> runtime_buffers" where
  "buffers_set_progress p b = b\<lparr>rb_progress := Some p\<rparr>"

definition push_user_var :: "str \<Rightarrow> str option \<Rightarrow> runtime_buffers \<Rightarrow> runtime_buffers" where
  "push_user_var name v b =
     (case push_text name b of (n, b1) \<Rightarrow>
        case metadata_text v b1 of (d, b2) \<Rightarrow>
          b2\<lparr>rb_user_vars := rb_user_vars b2 @ [\<lparr>uvd_name = n, uvd_value = d\<rparr>]\<rparr>)"

section \<open>The delta\<close>

datatype runtime_effect_ref =
    Ref_ConsoleWrite "u8 list"
  | Ref_TransportWrite "u8 list"
  | Ref_ModeChange terminal_mode_change
  | Ref_Bell u64
  | Ref_ClipboardWrite "str option" str
  | Ref_ClipboardRead str
  | Ref_Notification "str option" str
  | Ref_Diagnostic str

record runtime_delta =
  delta_buffers :: runtime_buffers
  delta_bell_count :: u64
  delta_snapshot_changed :: bool
  delta_screen_identity_changed :: bool

fun resolve_opt :: "byte_range option \<Rightarrow> u8 list \<Rightarrow> (str option, 'e) outcome" where
  "resolve_opt None text = Ok None"
| "resolve_opt (Some r) text = map_ok Some (range_resolve_str r text)"

fun resolve_effect :: "runtime_buffers \<Rightarrow> effect_descriptor \<Rightarrow> (runtime_effect_ref, 'e) outcome" where
  "resolve_effect b (Desc_ConsoleWrite r) = map_ok Ref_ConsoleWrite (range_resolve r (rb_bytes b))"
| "resolve_effect b (Desc_TransportWrite r) = map_ok Ref_TransportWrite (range_resolve r (rb_bytes b))"
| "resolve_effect b (Desc_ModeChange c) = Ok (Ref_ModeChange c)"
| "resolve_effect b (Desc_Bell n) = Ok (Ref_Bell n)"
| "resolve_effect b (Desc_ClipboardWrite sel r) =
     bind_outcome (resolve_opt sel (rb_text b)) (\<lambda>s. map_ok (Ref_ClipboardWrite s) (range_resolve_str r (rb_text b)))"
| "resolve_effect b (Desc_ClipboardRead r) = map_ok Ref_ClipboardRead (range_resolve_str r (rb_text b))"
| "resolve_effect b (Desc_Notification t r) =
     bind_outcome (resolve_opt t (rb_text b)) (\<lambda>s. map_ok (Ref_Notification s) (range_resolve_str r (rb_text b)))"
| "resolve_effect b (Desc_Diagnostic r) = map_ok Ref_Diagnostic (range_resolve_str r (rb_text b))"

definition delta_effects :: "runtime_buffers \<Rightarrow> (runtime_effect_ref list, 'e) outcome" where
  "delta_effects b = collect (resolve_effect b) (rb_effects b)"

definition delta_responses :: "runtime_buffers \<Rightarrow> (u8 list list, 'e) outcome" where
  "delta_responses b = collect (\<lambda>r. range_resolve r (rb_bytes b)) (rb_responses b)"

fun resolve_metadata :: "u8 list \<Rightarrow> metadata_descriptor \<Rightarrow> (str metadata_change, 'e) outcome" where
  "resolve_metadata text (Desc_Set r) = map_ok Set_to (range_resolve_str r text)"
| "resolve_metadata text Desc_Clear = Ok Clear"

fun resolve_change :: "u8 list \<Rightarrow> metadata_descriptor option \<Rightarrow> (str metadata_change option, 'e) outcome" where
  "resolve_change text None = Ok None"
| "resolve_change text (Some d) = map_ok Some (resolve_metadata text d)"

definition delta_user_vars :: "runtime_buffers \<Rightarrow> ((str \<times> str metadata_change) list, 'e) outcome" where
  "delta_user_vars b =
     collect (\<lambda>d. bind_outcome (range_resolve_str (uvd_name d) (rb_text b)) (\<lambda>n.
       map_ok (\<lambda>v. (n, v)) (resolve_metadata (rb_text b) (uvd_value d)))) (rb_user_vars b)"

definition delta_metadata_is_empty :: "runtime_buffers \<Rightarrow> bool" where
  "delta_metadata_is_empty b \<longleftrightarrow> rb_title b = None \<and> rb_working_directory b = None \<and> rb_badge_format b = None \<and>
     rb_progress b = None \<and> rb_user_vars b = []"

end
