(* ===== verification/Pane_Worker.thy ===== *)
theory Pane_Worker
  imports Delta
begin

text \<open>
  The threads of a pane, \<open>rssh-runtime/src/pane.rs\<close>: the handle through which the host submits
  input, the reader that turns transport reads into messages, the collection of an output batch
  from the inbox, the numbering of effects and the frame that is published for a delta. The
  transport (its reads, writes and exit status) is given by arguments: the list of what the
  reads return, and functions that say whether a write or a notice succeeds.
\<close>

section \<open>Data\<close>

record pane_worker_config =
  cfg_size :: terminal_size
  inbox_limits :: mailbox_limits
  effect_limits :: mailbox_limits
  cfg_batch_policy :: batch_policy
  capture_host_stream :: bool
  capture_visible_output :: bool

record session_exit_signal =
  signal_name :: text_buffer
  core_dumped :: bool
  signal_error_message :: text_buffer
  signal_lang_tag :: text_buffer

record session_exit =
  exit_status :: "u32 option"
  exit_signal :: "session_exit_signal option"

datatype pane_notice =
    Notice_Ready pane_token
  | Notice_Wake pane_token
  | Notice_InputWriteCompleted pane_token usize duration
  | Notice_FirstPtyByte pane_token instant
  | Notice_Closed pane_token "session_exit option"

fun notice_pane :: "pane_notice \<Rightarrow> pane_token" where
  "notice_pane (Notice_Ready t) = t"
| "notice_pane (Notice_Wake t) = t"
| "notice_pane (Notice_InputWriteCompleted t n d) = t"
| "notice_pane (Notice_FirstPtyByte t i) = t"
| "notice_pane (Notice_Closed t e) = t"

fun notice_retained_bytes :: "pane_notice \<Rightarrow> usize" where
  "notice_retained_bytes (Notice_Closed t e) =
     (case e of None \<Rightarrow> 0 | Some x \<Rightarrow>
        (case exit_signal x of None \<Rightarrow> 0 | Some s \<Rightarrow>
           sat_add_usize (sat_add_usize (txt_capacity (signal_name s)) (txt_capacity (signal_error_message s)))
             (txt_capacity (signal_lang_tag s))))"
| "notice_retained_bytes _ = 0"

datatype pane_message =
    Msg_Input buffer
  | Msg_Resize terminal_size
  | Msg_Output buffer
  | Msg_ReaderEof
  | Msg_ReaderError
  | Msg_Close

fun message_retained_bytes :: "pane_message \<Rightarrow> usize" where
  "message_retained_bytes (Msg_Input b) = buf_capacity b"
| "message_retained_bytes (Msg_Output b) = buf_capacity b"
| "message_retained_bytes _ = 0"

datatype submit_result = Submit_Accepted | Submit_Backpressured duration | Submit_Closed

section \<open>The handle\<close>

definition backpressure_retry :: duration where
  "backpressure_retry = 1000000"

record pane_handle =
  handle_token :: pane_token
  handle_limits :: mailbox_limits
  handle_accepting :: bool
  handle_inbox :: "pane_message mailbox"

definition submit :: "pane_message \<Rightarrow> pane_handle \<Rightarrow> submit_result \<times> pane_handle" where
  "submit msg h =
     (if \<not> handle_accepting h then (Submit_Closed, h)
      else case try_send message_retained_bytes (handle_limits h) msg (handle_inbox h) of (r, s, ns) \<Rightarrow>
        (case r of
           Ok _ \<Rightarrow> Submit_Accepted
         | Err (TrySend_Closed _) \<Rightarrow> Submit_Closed
         | _ \<Rightarrow> Submit_Backpressured backpressure_retry,
         h\<lparr>handle_inbox := s\<rparr>))"

definition submit_input :: "buffer \<Rightarrow> pane_handle \<Rightarrow> submit_result \<times> pane_handle" where
  "submit_input bytes = submit (Msg_Input bytes)"

definition handle_resize :: "terminal_size \<Rightarrow> pane_handle \<Rightarrow> submit_result \<times> pane_handle" where
  "handle_resize new_size = submit (Msg_Resize new_size)"

definition stop_accepting :: "pane_handle \<Rightarrow> pane_handle" where
  "stop_accepting h = h\<lparr>handle_accepting := False\<rparr>"

definition request_close :: "pane_handle \<Rightarrow> pane_handle" where
  "request_close h =
     (let h1 = stop_accepting h
      in h1\<lparr>handle_inbox :=
           fst (snd (try_send message_retained_bytes (handle_limits h1) Msg_Close (handle_inbox h1)))\<rparr>)"

section \<open>The reader\<close>

text \<open>
  \<open>run_reader\<close> over the results of its reads (\<open>None\<close> is an error): the notices and the messages it
  sends; \<open>notice_ok\<close> and \<open>send_ok\<close> say whether the first notice and the \<open>k\<close>-th message were
  accepted. A read of no bytes is the end of the stream. With the reads exhausted the reader is
  blocked in \<open>read\<close>.
\<close>

definition buffer_of :: "u8 list \<Rightarrow> buffer" where
  "buffer_of bytes = \<lparr>buf_bytes = bytes, buf_capacity = length bytes\<rparr>"

fun read_message :: "u8 list option \<Rightarrow> pane_message" where
  "read_message (Some bytes) = (if bytes = [] then Msg_ReaderEof else Msg_Output (buffer_of bytes))"
| "read_message None = Msg_ReaderError"

fun is_terminal :: "pane_message \<Rightarrow> bool" where
  "is_terminal Msg_ReaderEof = True"
| "is_terminal Msg_ReaderError = True"
| "is_terminal _ = False"

fun run_reader :: "pane_token \<Rightarrow> instant \<Rightarrow> bool \<Rightarrow> (nat \<Rightarrow> bool) \<Rightarrow> bool \<Rightarrow> nat \<Rightarrow> u8 list option list
    \<Rightarrow> pane_notice list \<times> pane_message list" where
  "run_reader token now notice_ok send_ok observed k [] = ([], [])"
| "run_reader token now notice_ok send_ok observed k (r # rs) =
     (let msg = read_message r;
          first = (\<not> observed \<and> \<not> is_terminal msg);
          notices = (if first then [Notice_FirstPtyByte token now] else [])
      in if first \<and> \<not> notice_ok then ([], [])
         else if \<not> send_ok k then (notices, [])
         else if is_terminal msg then (notices, [msg])
         else case run_reader token now notice_ok send_ok (observed \<or> first) (Suc k) rs of
           (ns, ms) \<Rightarrow> (notices @ ns, msg # ms))"

section \<open>Collecting a batch\<close>

text \<open>
  The loop of \<open>collect_output_batch\<close>: \<open>clock k\<close> is the \<open>k\<close>-th reading of the clock. The result is
  the bytes of the batch, its window, the message that did not belong to it and the inbox.
\<close>

function collect_loop :: "(nat \<Rightarrow> instant) \<Rightarrow> nat \<Rightarrow> batch_admission \<Rightarrow> batch_window \<Rightarrow> u8 list \<Rightarrow> pane_message mailbox
    \<Rightarrow> u8 list \<times> batch_window \<times> pane_message option \<times> pane_message mailbox" where
  "collect_loop clock k a w bytes s =
     (if a = Batch_AcceptedAndFull then (bytes, w, None, s)
      else case try_recv s of
        (Ok (Msg_Output b), s1, ns) \<Rightarrow>
          (case window_try_push (clock k) (length (buf_bytes b)) w of (a1, w1) \<Rightarrow>
             if a1 = Batch_Rejected then (bytes, w1, Some (Msg_Output b), s1)
             else collect_loop clock (Suc k) a1 w1 (bytes @ buf_bytes b) s1)
      | (Ok msg, s1, ns) \<Rightarrow> (bytes, w, Some msg, s1)
      | (_, s1, ns) \<Rightarrow> (bytes, w, None, s1))"
  by pat_completeness auto

termination
proof (relation "measure (\<lambda>(clock, k, a, w, bytes, s). length (queue s))", goal_cases)
  case (2 clock k a w bytes s r p r' msg b s1 ns)
  then show ?case by (cases "queue s") (auto simp: try_recv_simps)
qed simp

definition collect_output_batch :: "(nat \<Rightarrow> instant) \<Rightarrow> u8 list \<Rightarrow> batch_policy \<Rightarrow> pane_message mailbox
    \<Rightarrow> u8 list \<times> runtime_batch_metrics \<times> pane_message option \<times> pane_message mailbox" where
  "collect_output_batch clock first policy s =
     (case window_try_push (clock 0) (length first) (window_new policy) of (a, w) \<Rightarrow>
        case collect_loop clock 1 a w first s of (bytes, w1, pending, s1) \<Rightarrow>
          (bytes,
           \<lparr>transport_bytes = window_bytes w1,
            coalesced_reads = (if window_items w1 \<le> u32_max then window_items w1 else u32_max),
            parse_duration = 0, snapshot_duration = 0\<rparr>,
           pending, s1))"

section \<open>Publishing a delta\<close>

datatype io_error = Io_BrokenPipe | Io_SequenceExhausted | Io_RevisionExhausted | Io_Transport

definition next_revision :: "runtime_revision \<Rightarrow> (runtime_revision, io_error) outcome" where
  "next_revision r = (case revision_next r of Ok n \<Rightarrow> Ok n | _ \<Rightarrow> Err Io_RevisionExhausted)"

definition text_of :: "str \<Rightarrow> text_buffer" where
  "text_of s = \<lparr>txt_chars = s, txt_capacity = length (as_bytes s)\<rparr>"

fun owned_kind :: "runtime_effect_ref \<Rightarrow> runtime_effect_kind option" where
  "owned_kind (Ref_TransportWrite b) = None"
| "owned_kind (Ref_ModeChange c) = Some (ModeChange c)"
| "owned_kind (Ref_ConsoleWrite b) = Some (HostStream (buffer_of b))"
| "owned_kind (Ref_Bell n) = (if n = 0 then None else Some (Bell n))"
| "owned_kind (Ref_ClipboardWrite sel c) = Some (ClipboardWrite (map_option text_of sel) (text_of c))"
| "owned_kind (Ref_ClipboardRead sel) = Some (ClipboardRead (text_of sel))"
| "owned_kind (Ref_Notification t b) = Some (Notification (map_option text_of t) (text_of b))"
| "owned_kind (Ref_Diagnostic m) = Some (Diagnostic (text_of m))"

fun number_effects :: "pane_token \<Rightarrow> runtime_revision \<Rightarrow> effect_sequence option \<Rightarrow> runtime_effect_kind list
    \<Rightarrow> (published_effect list, io_error) outcome \<times> effect_sequence option" where
  "number_effects pane revision next [] = (Ok [], next)"
| "number_effects pane revision None (k # ks) = (Err Io_SequenceExhausted, None)"
| "number_effects pane revision (Some q) (k # ks) =
     (case number_effects pane revision (ok_option (effect_next q)) ks of (r, next) \<Rightarrow>
        (map_ok (\<lambda>es. \<lparr>pe_pane = pane, pe_revision = revision,
            pe_effect = \<lparr>effect_sequence_of = q, effect_kind = k\<rparr>\<rparr> # es) r, next))"

definition owned_host_effects :: "pane_token \<Rightarrow> runtime_revision \<Rightarrow> u8 list \<Rightarrow> runtime_effect_ref list
    \<Rightarrow> effect_sequence option \<Rightarrow> bool \<Rightarrow> (published_effect list, io_error) outcome \<times> effect_sequence option" where
  "owned_host_effects pane revision visible refs next capture =
     number_effects pane revision next
       ((if capture \<and> visible \<noteq> [] then [VisibleOutput (buffer_of visible)] else []) @ List.map_filter owned_kind refs)"

definition owned_metadata :: "runtime_buffers \<Rightarrow> (pane_metadata_delta, 'e) outcome" where
  "owned_metadata b =
     bind_outcome (resolve_change (rb_text b) (rb_title b)) (\<lambda>title.
     bind_outcome (resolve_change (rb_text b) (rb_working_directory b)) (\<lambda>cwd.
     bind_outcome (resolve_change (rb_text b) (rb_badge_format b)) (\<lambda>badge.
     map_ok (\<lambda>vars. \<lparr>md_title = title, md_working_directory = cwd, md_badge_format = badge,
         md_progress = map_option Set_to (rb_progress b),
         md_user_vars = map (\<lambda>(n, v). \<lparr>uv_name = n, uv_value = v\<rparr>) vars\<rparr>)
       (delta_user_vars b))))"

text \<open>Transport writes stop at the first one that fails; the list is what was attempted.\<close>

fun write_transport_effects :: "(u8 list \<Rightarrow> (unit, io_error) outcome) \<Rightarrow> runtime_effect_ref list
    \<Rightarrow> (unit, io_error) outcome \<times> u8 list list" where
  "write_transport_effects write [] = (Ok (), [])"
| "write_transport_effects write (Ref_TransportWrite b # rs) =
     (case write b of
        Ok _ \<Rightarrow> (case write_transport_effects write rs of (r, ws) \<Rightarrow> (r, b # ws))
      | r \<Rightarrow> (r, [b]))"
| "write_transport_effects write (_ # rs) = write_transport_effects write rs"

definition metadata_default :: pane_metadata_delta where
  "metadata_default = \<lparr>md_title = None, md_working_directory = None, md_badge_format = None, md_progress = None,
     md_user_vars = []\<rparr>"

text \<open>
  \<open>DeltaPublisher::publish\<close> up to the call of the publication: the result if it returns early, or
  the frame and the effects that are published, with the result of the transport writes.
\<close>

datatype 't publish_plan =
    Plan_return "(unit, io_error) outcome"
  | Plan_publish "(unit, io_error) outcome" "'t presentation_frame" "published_effect list"

definition delta_publish :: "pane_token \<Rightarrow> runtime_revision \<Rightarrow> runtime_delta \<Rightarrow> 't \<Rightarrow> terminal_state_summary
    \<Rightarrow> runtime_batch_metrics \<Rightarrow> bool \<Rightarrow> bool \<Rightarrow> (u8 list \<Rightarrow> (unit, io_error) outcome) \<Rightarrow> effect_sequence option
    \<Rightarrow> 't publish_plan \<times> effect_sequence option" where
  "delta_publish token revision delta snapshot state metrics always_publish capture write next =
     (case delta_effects (delta_buffers delta) of
        Ok refs \<Rightarrow>
          (let transport_result = fst (write_transport_effects write refs); b = delta_buffers delta in
           case owned_metadata b of
             Ok metadata \<Rightarrow>
               (case owned_host_effects token revision (rb_visible b) refs next capture of
                  (Ok effects, next1) \<Rightarrow>
                    (if \<not> (always_publish \<or> delta_snapshot_changed delta \<or> rb_damage b \<noteq> [] \<or>
                          metadata \<noteq> metadata_default \<or> effects \<noteq> [])
                     then (Plan_return transport_result, next1)
                     else (Plan_publish transport_result
                         \<lparr>frame_pane = token, frame_revision = revision, frame_snapshot = snapshot,
                          frame_state = state, snapshot_changed = delta_snapshot_changed delta,
                          full_repaint = False, frame_damage = rb_damage b, frame_metadata = metadata,
                          frame_metrics = metrics\<rparr> effects, next1))
                | (r, next1) \<Rightarrow> (Plan_return (fail_as r), next1))
           | r \<Rightarrow> (Plan_return (fail_as r), next))
      | r \<Rightarrow> (Plan_return (fail_as r), next))"

end
