(* ===== verification/Delta_Laws.thy ===== *)
theory Delta_Laws
  imports Delta
begin

text \<open>
  The arenas give back what was put into them: an interface for operations that append effects
  (\<open>effect_sink\<close>), its interpretations for every push of the buffers, and the property that the
  delta of a feed is the sequence of what the feed pushed.
\<close>

section \<open>Ranges stay valid when an arena grows\<close>

lemma resolve_grow:
  "range_resolve r xs = (Ok v :: (u8 list, 'e) outcome) \<Longrightarrow> range_resolve r (xs @ ys) = (Ok v :: (u8 list, 'e) outcome)"
  by (auto simp: range_resolve_def split: if_splits)

lemma resolve_str_grow:
  assumes "range_resolve_str r xs = (Ok v :: (str, 'e) outcome)"
  shows "range_resolve_str r (xs @ ys) = (Ok v :: (str, 'e) outcome)"
proof -
  obtain b where b: "range_resolve r xs = (Ok b :: (u8 list, 'e) outcome)"
    and v: "(case from_utf8 b of Some s \<Rightarrow> Ok s | None \<Rightarrow> Panic) = (Ok v :: (str, 'e) outcome)"
    using assms by (auto simp: range_resolve_str_def bind_outcome_Ok_iff)
  from resolve_grow [OF b] v show ?thesis by (simp add: range_resolve_str_def)
qed

lemma resolve_opt_grow:
  "resolve_opt r xs = (Ok v :: (str option, 'e) outcome) \<Longrightarrow> resolve_opt r (xs @ ys) = (Ok v :: (str option, 'e) outcome)"
  by (cases r) (auto simp: map_ok_Ok_iff dest: resolve_str_grow)

lemma resolve_fresh: "range_resolve \<lparr>range_start = length xs, range_len = length ys\<rparr> (xs @ ys) = Ok ys"
  by (simp add: range_resolve_def)

lemma resolve_str_fresh:
  "valid_str s \<Longrightarrow> range_resolve_str \<lparr>range_start = length xs, range_len = length (as_bytes s)\<rparr> (xs @ as_bytes s) = Ok s"
  by (simp add: range_resolve_str_def resolve_fresh from_utf8_as_bytes)

lemma resolve_metadata_grow:
  "resolve_metadata xs d = (Ok v :: (str metadata_change, 'e) outcome) \<Longrightarrow> resolve_metadata (xs @ ys) d = (Ok v :: (str metadata_change, 'e) outcome)"
  by (cases d) (auto simp: map_ok_Ok_iff dest: resolve_str_grow)

lemma resolve_change_grow:
  "resolve_change xs d = (Ok v :: (str metadata_change option, 'e) outcome) \<Longrightarrow> resolve_change (xs @ ys) d = (Ok v :: (str metadata_change option, 'e) outcome)"
  by (cases d) (auto simp: map_ok_Ok_iff dest: resolve_metadata_grow)

lemma collect_append:
  "collect f (xs @ ys) = bind_outcome (collect f xs) (\<lambda>us. map_ok (\<lambda>vs. us @ vs) (collect f ys))"
proof (induction xs)
  case Nil
  show ?case by (cases "collect f ys") auto
next
  case (Cons x xs)
  show ?case
    by (cases "f x"; cases "collect f xs"; cases "collect f ys") (simp_all add: Cons.IH)
qed

lemma collect_mono:
  "collect f xs = Ok ys \<Longrightarrow> (\<And>x y. f x = Ok y \<Longrightarrow> g x = Ok y) \<Longrightarrow> collect g xs = Ok ys"
proof (induction xs arbitrary: ys)
  case (Cons x xs)
  from Cons.prems(1) obtain y zs where "f x = Ok y" "collect f xs = Ok zs" "ys = y # zs"
    by (auto simp: bind_outcome_Ok_iff map_ok_Ok_iff)
  with Cons.IH Cons.prems(2) show ?case by simp
qed simp

text \<open>Buffers whose arenas extend those of others.\<close>

definition extends :: "runtime_buffers \<Rightarrow> runtime_buffers \<Rightarrow> bool" where
  "extends b b' \<longleftrightarrow> (\<exists>xs. rb_bytes b' = rb_bytes b @ xs) \<and> (\<exists>ys. rb_text b' = rb_text b @ ys)"

lemma extendsE:
  assumes "extends b b'"
  obtains xs ys where "rb_bytes b' = rb_bytes b @ xs" "rb_text b' = rb_text b @ ys"
  using assms by (auto simp: extends_def)

lemma resolve_effect_extends:
  assumes "extends b b'" and "resolve_effect b d = (Ok v :: (runtime_effect_ref, 'e) outcome)"
  shows "resolve_effect b' d = (Ok v :: (runtime_effect_ref, 'e) outcome)"
  using assms(1)
proof (rule extendsE)
  fix xs ys
  assume "rb_bytes b' = rb_bytes b @ xs" "rb_text b' = rb_text b @ ys"
  with assms(2) show ?thesis
    by (cases d) (auto simp: map_ok_Ok_iff bind_outcome_Ok_iff dest: resolve_grow resolve_str_grow resolve_opt_grow)
qed

lemma delta_effects_push:
  assumes "delta_effects b = (Ok es :: (runtime_effect_ref list, 'e) outcome)" and "extends b b'" and "rb_effects b' = rb_effects b @ ds"
    and "collect (resolve_effect b') ds = (Ok vs :: (runtime_effect_ref list, 'e) outcome)"
  shows "delta_effects b' = (Ok (es @ vs) :: (runtime_effect_ref list, 'e) outcome)"
proof -
  have "collect (resolve_effect b') (rb_effects b) = (Ok es :: (runtime_effect_ref list, 'e) outcome)"
    using assms(1) unfolding delta_effects_def by (rule collect_mono) (rule resolve_effect_extends [OF assms(2)])
  with assms(3,4) show ?thesis by (simp add: delta_effects_def collect_append)
qed

lemma delta_effects_push1:
  assumes "delta_effects b = (Ok es :: (runtime_effect_ref list, 'e) outcome)" and "extends b b'"
    and "rb_effects b' = rb_effects b @ [d]" and "resolve_effect b' d = (Ok v :: (runtime_effect_ref, 'e) outcome)"
  shows "delta_effects b' = (Ok (es @ [v]) :: (runtime_effect_ref list, 'e) outcome)"
  using delta_effects_push [OF assms(1-3), of "[v]"] assms(4) by simp

section \<open>Operations that append effects\<close>

locale effect_sink =
  fixes push :: "'x \<Rightarrow> runtime_buffers \<Rightarrow> runtime_buffers" and valid :: "'x \<Rightarrow> bool"
    and emits :: "'x \<Rightarrow> runtime_effect_ref list"
  assumes push_emits: "valid x \<Longrightarrow> delta_effects b = (Ok es :: (runtime_effect_ref list, unit) outcome) \<Longrightarrow>
      delta_effects (push x b) = (Ok (es @ emits x) :: (runtime_effect_ref list, unit) outcome)"
begin

lemma fold_emits:
  "\<forall>x \<in> set xs. valid x \<Longrightarrow> delta_effects b = (Ok es :: (runtime_effect_ref list, unit) outcome) \<Longrightarrow>
     delta_effects (fold push xs b) = (Ok (es @ concat (map emits xs)) :: (runtime_effect_ref list, unit) outcome)"
proof (induction xs arbitrary: b es)
  case (Cons x xs)
  then have "delta_effects (push x b) = (Ok (es @ emits x) :: (runtime_effect_ref list, unit) outcome)"
    using push_emits [of x b es] by simp
  from Cons.IH [OF _ this] Cons.prems show ?case by simp
qed simp

end

lemma push_text_eq:
  "push_text s b = (\<lparr>range_start = length (rb_text b), range_len = length (as_bytes s)\<rparr>, b\<lparr>rb_text := rb_text b @ as_bytes s\<rparr>)"
  by (simp add: push_text_def)

lemmas push_defs = push_bytes_def push_text_eq push_effect_def commit_transport_write_def push_opt_text_def

lemma fresh_bytes:
  assumes "delta_effects b = (Ok es :: (runtime_effect_ref list, 'e) outcome)"
    and "rb_bytes b' = rb_bytes b @ x" and "rb_text b' = rb_text b"
    and "rb_effects b' = rb_effects b @ [mk \<lparr>range_start = length (rb_bytes b), range_len = length x\<rparr>]"
    and "\<And>r. resolve_effect b' (mk r) = (map_ok c (range_resolve r (rb_bytes b')) :: (runtime_effect_ref, 'e) outcome)"
  shows "delta_effects b' = (Ok (es @ [c x]) :: (runtime_effect_ref list, 'e) outcome)"
  by (rule delta_effects_push1 [OF assms(1) _ assms(4)]) (simp_all add: extends_def assms resolve_fresh)

lemma fresh_text:
  assumes "delta_effects b = (Ok es :: (runtime_effect_ref list, 'e) outcome)" and "valid_str x"
    and "rb_text b' = rb_text b @ as_bytes x" and "rb_bytes b' = rb_bytes b"
    and "rb_effects b' = rb_effects b @ [mk \<lparr>range_start = length (rb_text b), range_len = length (as_bytes x)\<rparr>]"
    and "\<And>r. resolve_effect b' (mk r) = (map_ok c (range_resolve_str r (rb_text b')) :: (runtime_effect_ref, 'e) outcome)"
  shows "delta_effects b' = (Ok (es @ [c x]) :: (runtime_effect_ref list, 'e) outcome)"
  by (rule delta_effects_push1 [OF assms(1) _ assms(5)]) (simp_all add: extends_def assms resolve_str_fresh)

interpretation transport_sink: effect_sink push_transport_write "\<lambda>_. True" "\<lambda>x. [Ref_TransportWrite x]"
  by unfold_locales
    (erule fresh_bytes [where mk = Desc_TransportWrite]; simp add: push_transport_write_def push_defs)

interpretation console_sink: effect_sink push_console_write "\<lambda>_. True" "\<lambda>x. if x = [] then [] else [Ref_ConsoleWrite x]"
proof
  fix x b and es :: "runtime_effect_ref list"
  assume b: "delta_effects b = (Ok es :: (runtime_effect_ref list, unit) outcome)"
  show "delta_effects (push_console_write x b) =
      (Ok (es @ (if x = [] then [] else [Ref_ConsoleWrite x])) :: (runtime_effect_ref list, unit) outcome)"
  proof (cases "x = []")
    case True
    with b show ?thesis by (simp add: push_console_write_def)
  next
    case False
    then have "delta_effects (push_console_write x b) = (Ok (es @ [Ref_ConsoleWrite x]) :: (runtime_effect_ref list, unit) outcome)"
      by (intro fresh_bytes [OF b, where mk = Desc_ConsoleWrite]) (simp_all add: push_console_write_def push_defs)
    with False show ?thesis by simp
  qed
qed

interpretation mode_sink: effect_sink push_mode_change "\<lambda>_. True" "\<lambda>x. [Ref_ModeChange x]"
  by unfold_locales
    (erule delta_effects_push1 [where d = "Desc_ModeChange _"]; simp add: push_mode_change_def push_effect_def extends_def)

interpretation bell_sink: effect_sink push_bell "\<lambda>_. True" "\<lambda>n. if n = 0 then [] else [Ref_Bell n]"
proof
  fix x b and es :: "runtime_effect_ref list"
  assume b: "delta_effects b = (Ok es :: (runtime_effect_ref list, unit) outcome)"
  have "delta_effects (push_effect (Desc_Bell x) b) = (Ok (es @ [Ref_Bell x]) :: (runtime_effect_ref list, unit) outcome)"
    by (rule delta_effects_push1 [OF b, where d = "Desc_Bell x"]) (simp_all add: push_effect_def extends_def)
  with b show "delta_effects (push_bell x b) =
      (Ok (es @ (if x = 0 then [] else [Ref_Bell x])) :: (runtime_effect_ref list, unit) outcome)"
    by (simp add: push_bell_def)
qed

definition valid_opt :: "str option \<Rightarrow> bool" where
  "valid_opt s \<longleftrightarrow> (case s of None \<Rightarrow> True | Some t \<Rightarrow> valid_str t)"

lemma push_opt_text_resolves:
  assumes "push_opt_text s b = (r, b1)" and "valid_opt s"
  shows "resolve_opt r (rb_text b1 @ ys) = Ok s" and "extends b b1" and "rb_effects b1 = rb_effects b"
proof -
  have "resolve_opt r (rb_text b1) = Ok s"
    using assms by (auto simp: push_opt_text_def push_text_eq valid_opt_def resolve_str_fresh split: option.splits)
  then show "resolve_opt r (rb_text b1 @ ys) = Ok s" by (rule resolve_opt_grow)
  show "extends b b1" "rb_effects b1 = rb_effects b"
    using assms by (auto simp: push_opt_text_def push_text_eq extends_def split: option.splits)
qed

text \<open>The two effects with an optional text before the text.\<close>

lemma push_two_texts:
  assumes "valid_opt s" and "valid_str t" and "delta_effects b = (Ok es :: (runtime_effect_ref list, unit) outcome)"
    and "push_opt_text s b = (r, b1)" and "push_text t b1 = (q, b2)"
    and "\<And>u v. resolve_opt r (rb_text b2) = (Ok u :: (str option, unit) outcome) \<Longrightarrow>
      range_resolve_str q (rb_text b2) = (Ok v :: (str, unit) outcome) \<Longrightarrow>
      resolve_effect b2 d = (Ok (c u v) :: (runtime_effect_ref, unit) outcome)"
  shows "delta_effects (push_effect d b2) = (Ok (es @ [c s t]) :: (runtime_effect_ref list, unit) outcome)"
proof (rule delta_effects_push [OF assms(3)])
  note res = push_opt_text_resolves [OF assms(4,1)]
  have b2: "rb_text b2 = rb_text b1 @ as_bytes t" "rb_bytes b2 = rb_bytes b1" "rb_effects b2 = rb_effects b1"
    "q = \<lparr>range_start = length (rb_text b1), range_len = length (as_bytes t)\<rparr>"
    using assms(5) by (auto simp: push_text_eq)
  show "extends b (push_effect d b2)"
    using res(2) b2 by (auto simp: extends_def push_effect_def)
  show "rb_effects (push_effect d b2) = rb_effects b @ [d]"
    using res(3) b2 by (simp add: push_effect_def)
  have "resolve_effect b2 d = (Ok (c s t) :: (runtime_effect_ref, unit) outcome)"
    by (rule assms(6)) (use res(1) b2 resolve_str_fresh [OF assms(2)] in simp_all)
  moreover have "extends b2 (push_effect d b2)" by (simp add: extends_def push_effect_def)
  ultimately show "collect (resolve_effect (push_effect d b2)) [d] =
      (Ok [c s t] :: (runtime_effect_ref list, unit) outcome)"
    using resolve_effect_extends by (simp add: resolve_effect_extends)
qed

interpretation clipboard_write_sink: effect_sink "push_clipboard_write sel"
  "\<lambda>c. valid_opt sel \<and> valid_str c" "\<lambda>c. [Ref_ClipboardWrite sel c]" for sel
  by unfold_locales
    (auto simp: push_clipboard_write_def split: prod.splits intro: push_two_texts)

interpretation notification_sink: effect_sink "push_notification title"
  "\<lambda>c. valid_opt title \<and> valid_str c" "\<lambda>c. [Ref_Notification title c]" for title
  by unfold_locales
    (auto simp: push_notification_def split: prod.splits intro: push_two_texts)

interpretation clipboard_read_sink: effect_sink push_clipboard_read valid_str "\<lambda>x. [Ref_ClipboardRead x]"
  by unfold_locales
    (erule fresh_text [where mk = Desc_ClipboardRead]; simp add: push_clipboard_read_def push_defs)

interpretation diagnostic_sink: effect_sink push_diagnostic valid_str "\<lambda>x. [Ref_Diagnostic x]"
  by unfold_locales
    (erule fresh_text [where mk = Desc_Diagnostic]; simp add: push_diagnostic_def push_defs)

section \<open>A whole feed\<close>

datatype runtime_push =
    Push_console "u8 list" | Push_transport "u8 list" | Push_mode terminal_mode_change | Push_bell u64
  | Push_clipboard_write "str option" str | Push_clipboard_read str | Push_notification "str option" str
  | Push_diagnostic str | Push_title "str option" | Push_working_directory "str option"
  | Push_badge_format "str option" | Push_progress runtime_progress | Push_user_var str "str option"
  | Push_write_with "u8 list" bool | Set_visible "u8 list" | Set_damage "damage_region list"

text \<open>The callbacks of \<open>try_push_transport_write_with\<close> append their bytes to the arena, and succeed or fail after that.\<close>

definition appending :: "u8 list \<Rightarrow> bool \<Rightarrow> u8 list \<Rightarrow> (unit, unit) outcome \<times> u8 list" where
  "appending bytes succeeds arena = (if succeeds then Ok () else Err (), arena @ bytes)"

fun apply_push :: "runtime_push \<Rightarrow> runtime_buffers \<Rightarrow> runtime_buffers" where
  "apply_push (Push_console x) = push_console_write x"
| "apply_push (Push_transport x) = push_transport_write x"
| "apply_push (Push_mode c) = push_mode_change c"
| "apply_push (Push_bell n) = push_bell n"
| "apply_push (Push_clipboard_write sel c) = push_clipboard_write sel c"
| "apply_push (Push_clipboard_read sel) = push_clipboard_read sel"
| "apply_push (Push_notification t c) = push_notification t c"
| "apply_push (Push_diagnostic c) = push_diagnostic c"
| "apply_push (Push_title v) = buffers_set_title v"
| "apply_push (Push_working_directory v) = buffers_set_working_directory v"
| "apply_push (Push_badge_format v) = buffers_set_badge_format v"
| "apply_push (Push_progress p) = buffers_set_progress p"
| "apply_push (Push_user_var n v) = push_user_var n v"
| "apply_push (Push_write_with x succeeds) = (\<lambda>b. snd (try_push_transport_write_with (appending x succeeds) b))"
| "apply_push (Set_visible x) = (\<lambda>b. b\<lparr>rb_visible := x\<rparr>)"
| "apply_push (Set_damage d) = (\<lambda>b. b\<lparr>rb_damage := d\<rparr>)"

fun push_valid :: "runtime_push \<Rightarrow> bool" where
  "push_valid (Push_clipboard_write sel c) = (valid_opt sel \<and> valid_str c)"
| "push_valid (Push_clipboard_read sel) = valid_str sel"
| "push_valid (Push_notification t c) = (valid_opt t \<and> valid_str c)"
| "push_valid (Push_diagnostic c) = valid_str c"
| "push_valid (Push_title v) = valid_opt v"
| "push_valid (Push_working_directory v) = valid_opt v"
| "push_valid (Push_badge_format v) = valid_opt v"
| "push_valid (Push_user_var n v) = (valid_str n \<and> valid_opt v)"
| "push_valid _ = True"

fun pushed_effects :: "runtime_push \<Rightarrow> runtime_effect_ref list" where
  "pushed_effects (Push_console x) = (if x = [] then [] else [Ref_ConsoleWrite x])"
| "pushed_effects (Push_transport x) = [Ref_TransportWrite x]"
| "pushed_effects (Push_mode c) = [Ref_ModeChange c]"
| "pushed_effects (Push_bell n) = (if n = 0 then [] else [Ref_Bell n])"
| "pushed_effects (Push_clipboard_write sel c) = [Ref_ClipboardWrite sel c]"
| "pushed_effects (Push_clipboard_read sel) = [Ref_ClipboardRead sel]"
| "pushed_effects (Push_notification t c) = [Ref_Notification t c]"
| "pushed_effects (Push_diagnostic c) = [Ref_Diagnostic c]"
| "pushed_effects (Push_write_with x succeeds) = (if succeeds then [Ref_TransportWrite x] else [])"
| "pushed_effects _ = []"

interpretation write_with_sink: effect_sink "\<lambda>x b. snd (try_push_transport_write_with (appending x succeeds) b)" "\<lambda>_. True"
  "\<lambda>x. if succeeds then [Ref_TransportWrite x] else []" for succeeds
proof
  fix x b and es :: "runtime_effect_ref list"
  assume b: "delta_effects b = (Ok es :: (runtime_effect_ref list, unit) outcome)"
  show "delta_effects (snd (try_push_transport_write_with (appending x succeeds) b)) =
      (Ok (es @ (if succeeds then [Ref_TransportWrite x] else [])) :: (runtime_effect_ref list, unit) outcome)"
  proof (cases succeeds)
    case True
    then have "delta_effects (snd (try_push_transport_write_with (appending x succeeds) b)) =
        (Ok (es @ [Ref_TransportWrite x]) :: (runtime_effect_ref list, unit) outcome)"
      by (intro fresh_bytes [OF b, where mk = Desc_TransportWrite])
        (simp_all add: try_push_transport_write_with_def appending_def commit_transport_write_def Let_def)
    with True show ?thesis by simp
  next
    case False
    then have "snd (try_push_transport_write_with (appending x succeeds) b) = b"
      by (simp add: try_push_transport_write_with_def appending_def Let_def)
    with False b show ?thesis by simp
  qed
qed

lemma metadata_text_keeps:
  assumes "metadata_text v b = (d, b1)"
  shows "extends b b1" and "rb_effects b1 = rb_effects b"
  using assms by (auto simp: metadata_text_def push_text_eq extends_def split: option.splits)

lemma delta_effects_same:
  assumes "delta_effects b = (Ok es :: (runtime_effect_ref list, unit) outcome)" and "extends b b'"
    and "rb_effects b' = rb_effects b"
  shows "delta_effects b' = (Ok es :: (runtime_effect_ref list, unit) outcome)"
  using delta_effects_push [OF assms(1,2), of "[]"] assms(3) by simp

lemma extends_trans: "extends b c \<Longrightarrow> extends c d \<Longrightarrow> extends b d"
  by (auto simp: extends_def)

interpretation feed_sink: effect_sink apply_push push_valid pushed_effects
proof
  fix x b and es :: "runtime_effect_ref list"
  assume v: "push_valid x" and b: "delta_effects b = (Ok es :: (runtime_effect_ref list, unit) outcome)"
  show "delta_effects (apply_push x b) = (Ok (es @ pushed_effects x) :: (runtime_effect_ref list, unit) outcome)"
  proof (cases x)
    case (Push_user_var n w)
    obtain r b1 where p: "push_text n b = (r, b1)" by fastforce
    obtain d b2 where q: "metadata_text w b1 = (d, b2)" by fastforce
    have "extends b b1" "rb_effects b1 = rb_effects b" using p by (auto simp: push_text_eq extends_def)
    with metadata_text_keeps [OF q] have "extends b b2" "rb_effects b2 = rb_effects b"
      using extends_trans by auto
    then show ?thesis
      using Push_user_var p q by (auto simp: push_user_var_def extends_def intro!: delta_effects_same [OF b])
  next
    case (Push_title w)
    with delta_effects_same [OF b] metadata_text_keeps [of w b] show ?thesis
      by (auto simp: buffers_set_title_def extends_def split: prod.splits intro!: delta_effects_same [OF b])
  next
    case (Push_working_directory w)
    with metadata_text_keeps [of w b] show ?thesis
      by (auto simp: buffers_set_working_directory_def extends_def split: prod.splits intro!: delta_effects_same [OF b])
  next
    case (Push_badge_format w)
    with metadata_text_keeps [of w b] show ?thesis
      by (auto simp: buffers_set_badge_format_def extends_def split: prod.splits intro!: delta_effects_same [OF b])
  next
    case (Push_progress w)
    then show ?thesis by (auto simp: buffers_set_progress_def extends_def intro!: delta_effects_same [OF b])
  next
    case (Push_write_with w succeeds)
    then show ?thesis using write_with_sink.push_emits [OF _ b, of w succeeds] by simp
  next
    case (Set_visible w)
    then show ?thesis by (auto simp: extends_def intro!: delta_effects_same [OF b])
  next
    case (Set_damage w)
    then show ?thesis by (auto simp: extends_def intro!: delta_effects_same [OF b])
  next
    case (Push_console w)
    then show ?thesis using console_sink.push_emits [OF _ b, of w] by simp
  next
    case (Push_bell n)
    then show ?thesis using bell_sink.push_emits [OF _ b, of n] by simp
  qed (use v in \<open>auto intro: transport_sink.push_emits [OF _ b] mode_sink.push_emits [OF _ b]
      clipboard_write_sink.push_emits [OF _ b] clipboard_read_sink.push_emits [OF _ b]
      notification_sink.push_emits [OF _ b] diagnostic_sink.push_emits [OF _ b]\<close>)
qed

text \<open>C30: The delta of a feed is what the feed pushed: after any sequence of pushes onto
  cleared buffers, reading the effects does not panic and yields them in order, empty console
  writes, zero bells and responses whose writer failed left out.\<close>

theorem delta_effects_replay:
  assumes "\<forall>x \<in> set xs. push_valid x"
  shows "delta_effects (fold apply_push xs (snd (begin_feed capacity b))) =
    (Ok (concat (map pushed_effects xs)) :: (runtime_effect_ref list, unit) outcome)"
  using feed_sink.fold_emits [OF assms, of "snd (begin_feed capacity b)" "[]"]
  by (simp add: delta_effects_def begin_feed_def)

lemma delta_effects_replay_witness:
  "delta_effects (fold apply_push [Push_transport [27, 91], Push_bell 0, Push_write_with [27] False, Push_write_with [48] True, Push_diagnostic [228, 8364]]
     (snd (begin_feed (\<lambda>_. undefined) buffers_default))) =
   (Ok [Ref_TransportWrite [27, 91], Ref_TransportWrite [48], Ref_Diagnostic [228, 8364]] :: (runtime_effect_ref list, unit) outcome)"
  by (subst delta_effects_replay) (simp_all add: valid_str_def is_scalar_def)

end
