(* ===== verification/Worker_Properties.thy ===== *)
theory Worker_Properties
  imports Pane_Worker Delta_Laws Publication_Properties
begin

text \<open>
  What the threads of a pane promise: a batch neither loses nor reorders the messages it
  collects, effect numbers are those the host's cursor expects, the reader forwards exactly what
  it read, and a refused submission changes nothing.
\<close>

section \<open>Collecting a batch\<close>

fun output_bytes :: "pane_message \<Rightarrow> u8 list" where
  "output_bytes (Msg_Output b) = buf_bytes b"
| "output_bytes _ = []"

fun is_output :: "pane_message \<Rightarrow> bool" where
  "is_output (Msg_Output b) = True"
| "is_output _ = False"

definition pending_list :: "pane_message option \<Rightarrow> pane_message list" where
  "pending_list p = (case p of Some m \<Rightarrow> [m] | None \<Rightarrow> [])"

declare collect_loop.simps [simp del]

text \<open>The loop takes output messages from the front of the inbox, then possibly one more message.\<close>

definition loop_took :: "u8 list \<Rightarrow> pane_message mailbox \<Rightarrow> u8 list \<Rightarrow> pane_message option \<Rightarrow> pane_message mailbox \<Rightarrow> bool" where
  "loop_took bytes s bytes' pending s' \<longleftrightarrow>
     (\<exists>taken. (\<forall>m \<in> set taken. is_output m) \<and> bytes' = bytes @ concat (map output_bytes taken) \<and>
        mailbox_contents s = taken @ pending_list pending @ mailbox_contents s')"

lemma collect_loop_full: "collect_loop clock k Batch_AcceptedAndFull w bytes s = (bytes, w, None, s)"
  by (simp add: collect_loop.simps)

lemma collect_loop_took:
  "collect_loop clock k a w bytes s = (bytes', w', pending, s') \<Longrightarrow> loop_took bytes s bytes' pending s'"
proof (induction clock k a w bytes s arbitrary: bytes' w' pending s' rule: collect_loop.induct)
  case (1 clock k a w bytes s)
  obtain r s1 ns where t: "try_recv s = (r, s1, ns)" by (cases "try_recv s") auto
  note c = try_recv_contents [OF t]
  show ?case
  proof (cases "a = Batch_AcceptedAndFull")
    case True
    with "1.prems" show ?thesis
      by (auto simp: collect_loop_full loop_took_def pending_list_def intro!: exI [of _ "[]"])
  next
    case a: False
    show ?thesis
    proof (cases "\<exists>b. r = Ok (Msg_Output b)")
      case True
      then obtain b where r: "r = Ok (Msg_Output b)" by blast
      obtain a1 w1 where p: "window_try_push (clock k) (length (buf_bytes b)) w = (a1, w1)" by fastforce
      show ?thesis
      proof (cases "a1 = Batch_Rejected")
        case True
        with "1.prems" a t r p c show ?thesis
          by (auto simp: collect_loop.simps [of clock k a] loop_took_def pending_list_def intro!: exI [of _ "[]"])
      next
        case False
        then have "loop_took (bytes @ buf_bytes b) s1 bytes' pending s'"
          using "1.IH" [OF a t [symmetric] r refl refl p [symmetric]] "1.prems" a t r p
          by (simp add: collect_loop.simps [of clock k a])
        then obtain taken where tk: "\<forall>m \<in> set taken. is_output m" "bytes' = (bytes @ buf_bytes b) @ concat (map output_bytes taken)"
          "mailbox_contents s1 = taken @ pending_list pending @ mailbox_contents s'"
          by (auto simp: loop_took_def)
        with c r show ?thesis
          by (auto simp: loop_took_def intro!: exI [of _ "Msg_Output b # taken"])
      qed
    next
      case False
      with "1.prems" a t c show ?thesis
        by (auto simp: collect_loop.simps [of clock k a] loop_took_def pending_list_def intro!: exI [of _ "[]"]
            split: outcome.splits pane_message.splits)
    qed
  qed
qed

text \<open>Collecting a batch loses and reorders nothing: the batch is the first chunk followed
  by the output messages taken from the front of the inbox, and the message set aside and the
  remaining inbox are exactly what came after them.\<close>

theorem collect_batch_lossless:
  assumes "collect_output_batch clock first policy s = (bytes, metrics, pending, s')"
  shows "\<exists>taken. (\<forall>m \<in> set taken. is_output m) \<and> bytes = first @ concat (map output_bytes taken) \<and>
    mailbox_contents s = taken @ pending_list pending @ mailbox_contents s'"
  using assms by (auto simp: collect_output_batch_def loop_took_def dest!: collect_loop_took split: prod.splits)

section \<open>Numbering effects\<close>

lemma number_None: "number_effects pane rv None ks = (Ok es, next) \<longleftrightarrow> ks = [] \<and> es = [] \<and> next = None"
  by (cases ks) auto

lemma number_effects_Ok:
  assumes "number_effects pane rv (Some e) ks = (Ok es, next)" and "0 < e" and "e \<le> u64_max"
  shows "map (effect_sequence_of \<circ> pe_effect) es = [e ..< e + length ks] \<and> e + length ks \<le> u64_max + 1 \<and>
    next = expected_after e (length ks) \<and> length es = length ks \<and> map (effect_kind \<circ> pe_effect) es = ks"
  using assms
proof (induction ks arbitrary: e es)
  case Nil
  then show ?case by (auto simp: expected_after_def)
next
  case (Cons k ks)
  obtain r n where q: "number_effects pane rv (ok_option (effect_next e)) ks = (r, n)" by fastforce
  from Cons.prems(1) q obtain es1 where r: "r = Ok es1" and n: "n = next"
    and es: "es = \<lparr>pe_pane = pane, pe_revision = rv, pe_effect = \<lparr>effect_sequence_of = e, effect_kind = k\<rparr>\<rparr> # es1"
    by (auto simp: map_ok_Ok_iff)
  have upt: "[e ..< e + length (k # ks)] = e # [e + 1 ..< e + 1 + length ks]"
    by (subst upt_conv_Cons) (simp_all del: upt_Suc)
  show ?case
  proof (cases "e < u64_max")
    case True
    with Cons.IH [of "e + 1" es1] q r n Cons.prems es show ?thesis
      unfolding upt by (auto simp: effect_next_Ok expected_after_def)
  next
    case False
    with Cons.prems have e: "e = u64_max" by simp
    with q r have "ks = [] \<and> es1 = [] \<and> n = None" by (simp add: effect_next_max number_None)
    with es n e show ?thesis by (simp add: expected_after_def)
  qed
qed

text \<open>
  The batches a worker publishes one after the other: the numbering continues where the last
  batch ended, and a batch that cannot be numbered ends the run.
\<close>

fun publish_batches :: "pane_token \<Rightarrow> effect_sequence option \<Rightarrow> (runtime_revision \<times> runtime_effect_kind list) list
    \<Rightarrow> published_effect list list" where
  "publish_batches pane next [] = []"
| "publish_batches pane next ((rv, ks) # bs) =
     (case number_effects pane rv next ks of
        (Ok es, next1) \<Rightarrow> es # publish_batches pane next1 bs
      | _ \<Rightarrow> [])"

fun validate_batches :: "published_effect list list \<Rightarrow> effect_sequence_cursor \<Rightarrow> bool" where
  "validate_batches [] c = True"
| "validate_batches (es # bs) c =
     (case validate_batch (map pe_effect es) c of (r, c1) \<Rightarrow> r = Ok () \<and> validate_batches bs c1)"

lemma validate_numbered:
  assumes "number_effects pane rv next ks = (Ok es, next1)" and "cursor_expected c = next"
    and "\<forall>e. next = Some e \<longrightarrow> 0 < e \<and> e \<le> u64_max"
  shows "validate_batch (map pe_effect es) c = (Ok (), c\<lparr>cursor_expected := next1\<rparr>)"
    and "\<forall>e. next1 = Some e \<longrightarrow> 0 < e \<and> e \<le> u64_max"
proof -
  have "validate_effects next (map pe_effect es) = Ok next1 \<and> (\<forall>e. next1 = Some e \<longrightarrow> 0 < e \<and> e \<le> u64_max)"
  proof (cases "next")
    case None
    with assms(1) show ?thesis by (simp add: number_None)
  next
    case (Some e)
    with assms have e: "0 < e" "e \<le> u64_max" and n: "number_effects pane rv (Some e) ks = (Ok es, next1)" by auto
    note num = number_effects_Ok [OF n e]
    then have "validate_effects (Some e) (map pe_effect es) = Ok next1"
      by (simp add: validate_effects_Ok [OF e])
    with num e Some show ?thesis by (auto simp: expected_after_def split: if_splits)
  qed
  with assms(2) show "validate_batch (map pe_effect es) c = (Ok (), c\<lparr>cursor_expected := next1\<rparr>)"
    and "\<forall>e. next1 = Some e \<longrightarrow> 0 < e \<and> e \<le> u64_max"
    by (simp_all add: validate_batch_def)
qed

lemma validate_published:
  "cursor_expected c = next \<Longrightarrow> \<forall>e. next = Some e \<longrightarrow> 0 < e \<and> e \<le> u64_max \<Longrightarrow>
     validate_batches (publish_batches pane next bs) c"
proof (induction bs arbitrary: "next" c)
  case (Cons b bs)
  obtain rv ks where b: "b = (rv, ks)" by fastforce
  obtain r n where q: "number_effects pane rv next ks = (r, n)" by fastforce
  show ?case
  proof (cases r)
    case (Ok es)
    with validate_numbered [of pane rv "next" ks es n c] q Cons.prems
    have "validate_batch (map pe_effect es) c = (Ok (), c\<lparr>cursor_expected := n\<rparr>)" "\<forall>e. n = Some e \<longrightarrow> 0 < e \<and> e \<le> u64_max"
      by auto
    with Cons.IH [of "c\<lparr>cursor_expected := n\<rparr>" n] b q Ok show ?thesis by simp
  qed (use b q in auto)
qed simp

text \<open>Worker and host agree on the effect stream: whatever effects the batches of a
  worker carry, a cursor that starts at the first sequence number accepts every batch.\<close>

theorem worker_effects_validated:
  "validate_batches (publish_batches pane (Some sequence_first) bs) (cursor_new sequence_first)"
  by (rule validate_published) (simp_all add: cursor_new_def sequence_first_def int_bounds)

section \<open>The reader\<close>

definition reader_outputs :: "u8 list option list \<Rightarrow> u8 list" where
  "reader_outputs rs = concat (map (\<lambda>r. case r of Some b \<Rightarrow> b | None \<Rightarrow> []) rs)"

lemma run_reader_spec:
  assumes "run_reader token now True (\<lambda>_. True) observed k rs = (ns, ms)"
  shows "map read_message (takeWhile (\<lambda>r. \<not> is_terminal (read_message r)) rs) @
      map read_message (take 1 (dropWhile (\<lambda>r. \<not> is_terminal (read_message r)) rs)) = ms"
    and "ns = (if \<not> observed \<and> (\<exists>m \<in> set ms. is_output m) then [Notice_FirstPtyByte token now] else [])"
proof -
  have "map read_message (takeWhile (\<lambda>r. \<not> is_terminal (read_message r)) rs) @
      map read_message (take 1 (dropWhile (\<lambda>r. \<not> is_terminal (read_message r)) rs)) = ms \<and>
    ns = (if \<not> observed \<and> (\<exists>m \<in> set ms. is_output m) then [Notice_FirstPtyByte token now] else [])"
    using assms
  proof (induction rs arbitrary: observed k ns ms)
    case (Cons r rs)
    have out: "is_output (read_message r) = (\<not> is_terminal (read_message r))"
      by (cases r) auto
    show ?case
    proof (cases "is_terminal (read_message r)")
      case True
      with Cons.prems out show ?thesis by (auto simp: Let_def)
    next
      case False
      obtain ns1 ms1 where q: "run_reader token now True (\<lambda>_. True) True (Suc k) rs = (ns1, ms1)" by fastforce
      from Cons.IH [OF q] False Cons.prems q out show ?thesis by (auto simp: Let_def)
    qed
  qed simp
  then show "map read_message (takeWhile (\<lambda>r. \<not> is_terminal (read_message r)) rs) @
      map read_message (take 1 (dropWhile (\<lambda>r. \<not> is_terminal (read_message r)) rs)) = ms"
    and "ns = (if \<not> observed \<and> (\<exists>m \<in> set ms. is_output m) then [Notice_FirstPtyByte token now] else [])"
    by blast+
qed

text \<open>As long as its messages are accepted, the reader forwards exactly what it read: one
  output message per non-empty read in order, then one message for the end of the stream or the
  error that ended it; it announces the first bytes once.\<close>

theorem reader_forwards_stream:
  assumes "run_reader token now True (\<lambda>_. True) False 0 (map Some chunks @ [end_of_stream]) = (ns, ms)"
    and "[] \<notin> set chunks" and "end_of_stream = Some [] \<or> end_of_stream = None"
  shows "ms = map (Msg_Output \<circ> buffer_of) chunks @ [read_message end_of_stream] \<and>
    concat (map output_bytes ms) = concat chunks \<and>
    ns = (if chunks = [] then [] else [Notice_FirstPtyByte token now])"
proof -
  let ?rs = "map Some chunks @ [end_of_stream]" and ?P = "\<lambda>r. \<not> is_terminal (read_message r)"
  have P: "\<forall>r \<in> set (map Some chunks). ?P r" using assms(2) by auto
  have e: "\<not> ?P end_of_stream" using assms(3) by auto
  have "takeWhile ?P ?rs = map Some chunks" "dropWhile ?P ?rs = [end_of_stream]"
    using takeWhile_append2 [of "map Some chunks" ?P "[end_of_stream]"]
      dropWhile_append2 [of "map Some chunks" ?P "[end_of_stream]"] P e by auto
  with run_reader_spec [OF assms(1)]
  have ms: "ms = map read_message (map Some chunks) @ [read_message end_of_stream]"
    and ns: "ns = (if \<exists>m \<in> set ms. is_output m then [Notice_FirstPtyByte token now] else [])" by auto
  have c: "map read_message (map Some chunks) = map (Msg_Output \<circ> buffer_of) chunks"
    using assms(2) by auto
  have o: "is_output (read_message end_of_stream) = False" "output_bytes (read_message end_of_stream) = []"
    using assms(3) by auto
  have "concat (map output_bytes (map (Msg_Output \<circ> buffer_of) chunks)) = concat chunks"
    by (simp add: comp_def buffer_of_def)
  moreover have "(\<exists>m \<in> set (map (Msg_Output \<circ> buffer_of) chunks). is_output m) \<longleftrightarrow> chunks \<noteq> []"
    by (cases chunks) auto
  ultimately show ?thesis unfolding ms ns c by (simp add: o del: map_map)
qed

section \<open>Submitting\<close>

text \<open>Input is never silently dropped: a submission is queued at the end of the inbox
  exactly when it is reported as accepted; otherwise the inbox keeps its contents, and it is reported
  as closed exactly when the pane accepts nothing any more.\<close>

theorem submit_reports_truth:
  assumes "submit msg h = (r, h')"
  shows "mailbox_contents (handle_inbox h') =
      mailbox_contents (handle_inbox h) @ (if r = Submit_Accepted then [msg] else []) \<and>
    (r = Submit_Closed \<longleftrightarrow> \<not> handle_accepting h \<or> \<not> accepting (handle_inbox h) \<or> \<not> consumer_alive (handle_inbox h))"
proof (cases "handle_accepting h")
  case True
  obtain q s ns where t: "try_send message_retained_bytes (handle_limits h) msg (handle_inbox h) = (q, s, ns)"
    by (cases "try_send message_retained_bytes (handle_limits h) msg (handle_inbox h)") auto
  have closed: "(\<exists>x. q = Err (TrySend_Closed x)) \<longleftrightarrow> \<not> accepting (handle_inbox h) \<or> \<not> consumer_alive (handle_inbox h)"
    using t by (auto simp: try_send_def Let_def split: if_splits option.splits)
  from assms True t closed contents_try_send [OF t] show ?thesis
    by (auto simp: submit_def split: outcome.splits try_send_error.splits)
qed (use assms in \<open>auto simp: submit_def\<close>)

section \<open>Witnesses\<close>

definition demo_inbox :: "pane_message mailbox" where
  "demo_inbox = bounded_mailbox\<lparr>queue := [\<lparr>entry_value = Msg_Output (buffer_of [2, 3]), reserved_bytes = 2\<rparr>,
     \<lparr>entry_value = Msg_Close, reserved_bytes = 0\<rparr>], queued_bytes := 2\<rparr>"

definition demo_policy :: batch_policy where
  "demo_policy = \<lparr>policy_bytes = 10, policy_items = 4, policy_latency = 9\<rparr>"

lemma collect_batch_lossless_witness:
  "\<exists>taken. (\<forall>m \<in> set taken. is_output m) \<and>
     fst (collect_output_batch (\<lambda>_. 0) [1] demo_policy demo_inbox) = [1] @ concat (map output_bytes taken)"
proof -
  obtain bytes metrics pending s' where
    c: "collect_output_batch (\<lambda>_. 0) [1] demo_policy demo_inbox = (bytes, metrics, pending, s')"
    by (cases "collect_output_batch (\<lambda>_. 0) [1] demo_policy demo_inbox") auto
  from collect_batch_lossless [OF c] c show ?thesis by auto
qed

lemma reader_forwards_stream_witness:
  "snd (run_reader demo_token 5 True (\<lambda>_. True) False 0 (map Some [[104], [105]] @ [None])) =
     [Msg_Output (buffer_of [104]), Msg_Output (buffer_of [105]), Msg_ReaderError]"
proof -
  obtain ns ms where r: "run_reader demo_token 5 True (\<lambda>_. True) False 0 (map Some [[104], [105]] @ [None]) = (ns, ms)"
    by fastforce
  from reader_forwards_stream [OF r] have "ms = map (Msg_Output \<circ> buffer_of) [[104], [105]] @ [read_message None]" by simp
  with r show ?thesis by simp
qed

definition demo_handle :: pane_handle where
  "demo_handle = \<lparr>handle_token = demo_token, handle_limits = one_slot, handle_accepting = True,
     handle_inbox = bounded_mailbox\<rparr>"

lemma submit_reports_truth_witness:
  "mailbox_contents (handle_inbox (snd (submit Msg_Close demo_handle))) = [Msg_Close]"
proof -
  have "fst (submit Msg_Close demo_handle) = Submit_Accepted"
    by (simp add: submit_def demo_handle_def try_send_def Let_def one_slot_def bounded_mailbox_def
        admission_bytes_def checked_add_usize_def int_bounds)
  with submit_reports_truth [of Msg_Close demo_handle "fst (submit Msg_Close demo_handle)" "snd (submit Msg_Close demo_handle)"]
  show ?thesis by (simp add: demo_handle_def bounded_mailbox_def mailbox_contents_def)
qed

end
