(* ===== verification/Hub.thy ===== *)
theory Hub
  imports Pane_Worker
begin

text \<open>
  The owner of the live panes, \<open>rssh-runtime/src/hub.rs\<close>. A slot holds what the hub shares with
  the threads of a pane: its handle with the inbox, its publication, and whether its worker can
  still be joined. \<open>stopped\<close>, \<open>interrupts\<close> and \<open>reaper\<close> record the calls of \<open>stop_accepting\<close> and of
  the interrupt handle of slots that leave the map, and the joins handed over (\<open>shutdown.rs\<close>). The order in which a \<open>HashMap\<close> is iterated, the clock, whether
  the threads could be spawned and which workers have finished are arguments. The hub keeps one
  sender of its notice mailbox for its whole life; the clones given to the threads are not counted.
\<close>

type_synonym pane_key = nat

record 't pane_slot =
  slot_token :: pane_token
  slot_handle :: pane_handle
  slot_publication :: "'t publication"
  slot_join :: bool
  close_deadline :: "instant option"

record 't hub =
  hub_counter :: u64
  hub_panes :: "pane_key \<rightharpoonup> 't pane_slot"
  pane_order :: "pane_key list"
  fair_drain_cursor :: usize
  hub_notices :: "pane_notice mailbox"
  reaper :: "pane_token list"
  completed_metrics :: "pane_token \<rightharpoonup> publication_metrics"
  pending_closed :: "pane_token \<rightharpoonup> pane_notice"
  interrupts :: "pane_token list"
  stopped :: "pane_token list"

datatype open_pane_error = AlreadyOpen pane_key | GenerationExhausted sequence_exhausted | Spawn

definition notice_limits :: "(mailbox_limits, mailbox_limits_error) outcome" where
  "notice_limits = (case limits_try_new 1024 (4 * 1024 * 1024) of Ok l \<Rightarrow> Ok l | _ \<Rightarrow> Panic)"

definition hub_new :: "u64 \<Rightarrow> 't hub" where
  "hub_new counter = \<lparr>hub_counter = counter, hub_panes = Map.empty, pane_order = [], fair_drain_cursor = 0,
     hub_notices = bounded_mailbox, reaper = [], completed_metrics = Map.empty, pending_closed = Map.empty,
     interrupts = [], stopped = []\<rparr>"

section \<open>Order of the panes\<close>

definition remove_pane_order :: "pane_key \<Rightarrow> 't hub \<Rightarrow> 't hub" where
  "remove_pane_order pane h =
     (case position (\<lambda>p. p = pane) (pane_order h) of
        None \<Rightarrow> h
      | Some i \<Rightarrow>
          (let order = remove_nth i (pane_order h); cursor = fair_drain_cursor h
           in h\<lparr>pane_order := order,
               fair_drain_cursor :=
                 (if order = [] then 0 else (if i < cursor then cursor - 1 else cursor) mod length order)\<rparr>))"

definition reposition_pane :: "pane_key \<Rightarrow> usize \<Rightarrow> 't hub \<Rightarrow> 't hub" where
  "reposition_pane pane i h =
     (let h1 = remove_pane_order pane h;
          order = insert_nth (min i (length (pane_order h1))) pane (pane_order h1)
      in h1\<lparr>pane_order := order, fair_drain_cursor := min (fair_drain_cursor h1) (length order - 1)\<rparr>)"

section \<open>Opening and closing\<close>

definition open_pane :: "pane_key \<Rightarrow> pane_worker_config \<Rightarrow> bool \<Rightarrow> 't hub
    \<Rightarrow> (pane_handle, open_pane_error) outcome \<times> 't hub" where
  "open_pane pane config spawned h =
     (if hub_panes h pane \<noteq> None then (Err (AlreadyOpen pane), h)
      else case issue_token pane (hub_counter h) of
        (Ok token, counter) \<Rightarrow>
          (if \<not> spawned then (Err Spawn, h\<lparr>hub_counter := counter\<rparr>)
           else let handle = \<lparr>handle_token = token, handle_limits = inbox_limits config,
                              handle_accepting = True, handle_inbox = bounded_mailbox\<rparr>
                in (Ok handle,
                    h\<lparr>hub_counter := counter,
                      hub_panes := (hub_panes h)(pane \<mapsto>
                        \<lparr>slot_token = token, slot_handle = handle,
                         slot_publication = publication_new (effect_limits config),
                         slot_join = True, close_deadline = None\<rparr>),
                      pane_order := (if pane \<in> set (pane_order h) then pane_order h else pane_order h @ [pane])\<rparr>))
      | (Err e, counter) \<Rightarrow> (Err (GenerationExhausted e), h\<lparr>hub_counter := counter\<rparr>)
      | (_, counter) \<Rightarrow> (Panic, h\<lparr>hub_counter := counter\<rparr>))"

definition begin_close :: "pane_token \<Rightarrow> duration \<Rightarrow> instant \<Rightarrow> 't hub \<Rightarrow> bool \<times> 't hub" where
  "begin_close token grace now h =
     (case hub_panes h (token_pane token) of
        None \<Rightarrow> (False, h)
      | Some slot \<Rightarrow>
          (if slot_token slot \<noteq> token then (False, h)
           else (True, h\<lparr>hub_panes := (hub_panes h)(token_pane token \<mapsto>
               slot\<lparr>slot_handle := request_close (slot_handle slot),
                    close_deadline := Some (case checked_add_instant now grace of Some t \<Rightarrow> t | None \<Rightarrow> now)\<rparr>)\<rparr>)))"

text \<open>What \<open>reap_expired\<close> does with one expired pane.\<close>

definition reap_pane :: "pane_key \<Rightarrow> 't hub \<Rightarrow> 't hub" where
  "reap_pane pane h =
     (case hub_panes h pane of
        None \<Rightarrow> h
      | Some slot \<Rightarrow> remove_pane_order pane
          (h\<lparr>hub_panes := (hub_panes h)(pane := None), stopped := stopped h @ [slot_token slot],
             interrupts := interrupts h @ [slot_token slot],
             completed_metrics := (completed_metrics h)(slot_token slot \<mapsto>
               publication_metrics_of (slot_publication slot)),
             reaper := reaper h @ (if slot_join slot then [slot_token slot] else [])\<rparr>))"

definition reap_finished :: "(pane_token \<Rightarrow> bool) \<Rightarrow> 't hub \<Rightarrow> 't hub" where
  "reap_finished finished h = h\<lparr>reaper := filter (\<lambda>t. \<not> finished t) (reaper h)\<rparr>"

definition expired_pane :: "instant \<Rightarrow> 't hub \<Rightarrow> pane_key \<Rightarrow> bool" where
  "expired_pane now h pane =
     (case hub_panes h pane of
        None \<Rightarrow> False
      | Some slot \<Rightarrow> (case close_deadline slot of None \<Rightarrow> False | Some d \<Rightarrow> d \<le> now))"

definition reap_expired :: "(pane_key set \<Rightarrow> pane_key list) \<Rightarrow> (pane_token \<Rightarrow> bool) \<Rightarrow> instant \<Rightarrow> 't hub \<Rightarrow> usize \<times> 't hub" where
  "reap_expired iter finished now h =
     (let expired = filter (expired_pane now h) (iter (dom (hub_panes h)))
      in (length expired, reap_finished finished (fold reap_pane expired h)))"

definition restart_pane :: "(pane_key set \<Rightarrow> pane_key list) \<Rightarrow> (pane_token \<Rightarrow> bool) \<Rightarrow> instant \<Rightarrow> instant
    \<Rightarrow> pane_key \<Rightarrow> pane_worker_config \<Rightarrow> bool \<Rightarrow> 't hub \<Rightarrow> (pane_handle, open_pane_error) outcome \<times> 't hub" where
  "restart_pane iter finished close_now reap_now pane config spawned h =
     (let order_position = position (\<lambda>p. p = pane) (pane_order h);
          h1 = (case hub_panes h pane of
                  None \<Rightarrow> h
                | Some slot \<Rightarrow> snd (reap_expired iter finished reap_now
                    (snd (begin_close (slot_token slot) 0 close_now h))))
      in case open_pane pane config spawned h1 of
           (Ok handle, h2) \<Rightarrow>
             (Ok handle, case order_position of None \<Rightarrow> h2 | Some i \<Rightarrow> reposition_pane pane i h2)
         | (r, h2) \<Rightarrow> (r, h2))"

section \<open>Notices\<close>

definition is_current :: "'t hub \<Rightarrow> pane_token \<Rightarrow> bool" where
  "is_current h token = (case hub_panes h (token_pane token) of None \<Rightarrow> False | Some slot \<Rightarrow> slot_token slot = token)"

fun is_closed_notice :: "pane_notice \<Rightarrow> bool" where
  "is_closed_notice (Notice_Closed t e) = True"
| "is_closed_notice _ = False"

definition finish_closed_slot :: "(pane_token \<Rightarrow> bool) \<Rightarrow> pane_notice \<Rightarrow> 't hub \<Rightarrow> 't hub" where
  "finish_closed_slot finished notice h =
     (if \<not> is_closed_notice notice then h
      else let pane = token_pane (notice_pane notice) in
        case hub_panes h pane of
          None \<Rightarrow> h
        | Some slot \<Rightarrow> reap_finished finished (remove_pane_order pane
            (h\<lparr>hub_panes := (hub_panes h)(pane := None),
               completed_metrics := (completed_metrics h)(slot_token slot \<mapsto>
                 publication_metrics_of (slot_publication slot)),
               reaper := reaper h @ (if slot_join slot then [slot_token slot] else [])\<rparr>)))"

definition notice_has_work :: "'t hub \<Rightarrow> pane_notice \<Rightarrow> bool" where
  "notice_has_work h notice =
     (case hub_panes h (token_pane (notice_pane notice)) of
        None \<Rightarrow> False
      | Some slot \<Rightarrow> slot_token slot = notice_pane notice \<and> has_work (slot_publication slot))"

definition drained_token :: "'t hub \<Rightarrow> pane_token \<Rightarrow> bool" where
  "drained_token h token =
     (case hub_panes h (token_pane token) of
        None \<Rightarrow> True
      | Some slot \<Rightarrow> slot_token slot = token \<longrightarrow> \<not> has_work (slot_publication slot))"

definition take_drained_close :: "(pane_token set \<Rightarrow> pane_token list) \<Rightarrow> (pane_token \<Rightarrow> bool) \<Rightarrow> 't hub
    \<Rightarrow> pane_notice option \<times> 't hub" where
  "take_drained_close iter finished h =
     (case List.find (drained_token h) (iter (dom (pending_closed h))) of
        None \<Rightarrow> (None, h)
      | Some token \<Rightarrow>
          (case pending_closed h token of
             None \<Rightarrow> (None, h)
           | Some notice \<Rightarrow>
               (Some notice, finish_closed_slot finished notice
                  (h\<lparr>pending_closed := (pending_closed h)(token := None)\<rparr>))))"

text \<open>The loop that discards notices of other generations; \<open>recv_notice\<close> differs in that it waits
  where this one returns \<open>TryRecv_Empty\<close>.\<close>

function recv_loop :: "(pane_token \<Rightarrow> bool) \<Rightarrow> 't hub \<Rightarrow> (pane_notice, try_recv_error) outcome \<times> 't hub" where
  "recv_loop finished h =
     (case try_recv (hub_notices h) of
        (Ok notice, s, ns) \<Rightarrow>
          (let h1 = h\<lparr>hub_notices := s\<rparr> in
           if is_current h1 (notice_pane notice)
           then if is_closed_notice notice \<and> notice_has_work h1 notice
                then (Ok (Notice_Wake (notice_pane notice)),
                      h1\<lparr>pending_closed := (pending_closed h1)(notice_pane notice \<mapsto> notice)\<rparr>)
                else (Ok notice, finish_closed_slot finished notice h1)
           else recv_loop finished h1)
      | (r, s, ns) \<Rightarrow> (fail_as r, h\<lparr>hub_notices := s\<rparr>))"
  by pat_completeness auto

termination
proof (relation "measure (\<lambda>(finished, h). length (queue (hub_notices h)))", goal_cases)
  case (2 finished h r p notice s ns h1)
  then show ?case by (cases "queue (hub_notices h)") (auto simp: try_recv_simps)
qed simp

definition try_recv_notice :: "(pane_token set \<Rightarrow> pane_token list) \<Rightarrow> (pane_token \<Rightarrow> bool) \<Rightarrow> 't hub
    \<Rightarrow> (pane_notice, try_recv_error) outcome \<times> 't hub" where
  "try_recv_notice iter finished h =
     (case take_drained_close iter finished h of
        (Some notice, h1) \<Rightarrow> (Ok notice, h1)
      | (None, h1) \<Rightarrow> recv_loop finished h1)"

section \<open>Draining\<close>

definition put_publication :: "pane_key \<Rightarrow> 't pane_slot \<Rightarrow> 't publication \<Rightarrow> 't hub \<Rightarrow> 't hub" where
  "put_publication pane slot p h = h\<lparr>hub_panes := (hub_panes h)(pane \<mapsto> slot\<lparr>slot_publication := p\<rparr>)\<rparr>"

definition drain_pane :: "pane_token \<Rightarrow> nat \<Rightarrow> 't hub \<Rightarrow> 't pane_drain option \<times> 't hub" where
  "drain_pane token max_effects h =
     (case hub_panes h (token_pane token) of
        None \<Rightarrow> (None, h)
      | Some slot \<Rightarrow>
          (if slot_token slot \<noteq> token then (None, h)
           else case drain max_effects (slot_publication slot) of (d, p) \<Rightarrow>
             (Some d, put_publication (token_pane token) slot p h)))"

text \<open>The loop of \<open>drain_ready_fair\<close> over the offsets that remain, with \<open>room\<close> panes still to drain.\<close>

fun fair_loop :: "nat \<Rightarrow> usize \<Rightarrow> usize \<Rightarrow> nat \<Rightarrow> nat list \<Rightarrow> 't hub
    \<Rightarrow> (pane_token \<times> 't pane_drain) list \<times> 't hub" where
  "fair_loop max_effects start n room [] h = ([], h)"
| "fair_loop max_effects start n room (offset # offsets) h =
     (if room = 0 then ([], h)
      else let index = (start + offset) mod n; pane = pane_order h ! index in
        case hub_panes h pane of
          None \<Rightarrow> fair_loop max_effects start n room offsets h
        | Some slot \<Rightarrow>
            (if \<not> has_work (slot_publication slot) then fair_loop max_effects start n room offsets h
             else case drain max_effects (slot_publication slot) of (d, p) \<Rightarrow>
               case fair_loop max_effects start n (room - 1) offsets
                      ((put_publication pane slot p h)\<lparr>fair_drain_cursor := (index + 1) mod n\<rparr>) of
                 (ds, h1) \<Rightarrow> ((slot_token slot, d) # ds, h1)))"

definition drain_ready_fair :: "nat \<Rightarrow> nat \<Rightarrow> 't hub \<Rightarrow> (pane_token \<times> 't pane_drain) list \<times> 't hub" where
  "drain_ready_fair max_panes max_effects h =
     (if max_panes = 0 \<or> pane_order h = [] then ([], h)
      else let n = length (pane_order h)
           in fair_loop max_effects (fair_drain_cursor h mod n) n max_panes [0 ..< n] h)"

definition hub_publication_metrics :: "'t hub \<Rightarrow> pane_token \<Rightarrow> publication_metrics option" where
  "hub_publication_metrics h token =
     (case hub_panes h (token_pane token) of
        Some slot \<Rightarrow>
          (if slot_token slot = token then Some (publication_metrics_of (slot_publication slot))
           else completed_metrics h token)
      | None \<Rightarrow> completed_metrics h token)"

definition live_tokens :: "(pane_key set \<Rightarrow> pane_key list) \<Rightarrow> 't hub \<Rightarrow> pane_token list" where
  "live_tokens iter h = map (\<lambda>p. slot_token (the (hub_panes h p))) (iter (dom (hub_panes h)))"

definition hub_shutdown :: "(pane_key set \<Rightarrow> pane_key list) \<Rightarrow> 't hub \<Rightarrow> 't hub" where
  "hub_shutdown iter h =
     h\<lparr>hub_notices := fst (snd (mailbox_close (hub_notices h))),
       stopped := stopped h @ live_tokens iter h, interrupts := interrupts h @ live_tokens iter h,
       hub_panes := Map.empty, reaper := []\<rparr>"

end
