(* ===== verification/Hub_Laws.thy ===== *)
theory Hub_Laws
  imports Hub "HOL-Library.Countable"
begin

text \<open>
  The invariant of the hub, the contract of its operations and their interpretations, the exact
  result of a fair drain, and what the notice loop returns.
\<close>

section \<open>Invariant\<close>

definition cursor_ok :: "'t hub \<Rightarrow> bool" where
  "cursor_ok h \<longleftrightarrow>
     (if pane_order h = [] then fair_drain_cursor h = 0 else fair_drain_cursor h < length (pane_order h))"

definition slots_ok :: "'t hub \<Rightarrow> bool" where
  "slots_ok h \<longleftrightarrow>
     (\<forall>p slot. hub_panes h p = Some slot \<longrightarrow>
        p \<in> set (pane_order h) \<and> token_pane (slot_token slot) = p \<and> 0 < token_generation (slot_token slot) \<and>
        (hub_counter h = 0 \<or> token_generation (slot_token slot) < hub_counter h))"

text \<open>A close that waits for its pane to be drained is kept under the token it announces.\<close>

definition pending_ok :: "'t hub \<Rightarrow> bool" where
  "pending_ok h \<longleftrightarrow>
     (\<forall>t n. pending_closed h t = Some n \<longrightarrow> notice_pane n = t \<and> is_closed_notice n)"

definition hub_ok :: "'t hub \<Rightarrow> bool" where
  "hub_ok h \<longleftrightarrow>
     distinct (pane_order h) \<and> cursor_ok h \<and> slots_ok h \<and> pending_ok h \<and> hub_counter h \<le> u64_max"

lemmas hub_ok_defs = hub_ok_def cursor_ok_def slots_ok_def pending_ok_def

text \<open>How the generations of two states of the hub relate: the counter only moves forward until it is
  exhausted, and a token that has become current was issued in between.\<close>

definition generations_advance :: "'t hub \<Rightarrow> 't hub \<Rightarrow> bool" where
  "generations_advance h h' \<longleftrightarrow>
     (hub_counter h' = 0 \<or> hub_counter h \<noteq> 0 \<and> hub_counter h \<le> hub_counter h') \<and>
     (\<forall>t. is_current h' t \<longrightarrow> is_current h t \<or> hub_counter h \<noteq> 0 \<and> hub_counter h \<le> token_generation t)"

definition hub_evolves :: "'t hub \<Rightarrow> 't hub \<Rightarrow> bool" where
  "hub_evolves h h' \<longleftrightarrow> (hub_ok h \<longrightarrow> hub_ok h' \<and> generations_advance h h')"

lemma generations_refl [simp]: "generations_advance h h"
  by (auto simp: generations_advance_def)

lemma generations_trans:
  "generations_advance h h1 \<Longrightarrow> generations_advance h1 h2 \<Longrightarrow> generations_advance h h2"
  unfolding generations_advance_def by (metis le_trans not_gr_zero le_zero_eq)

lemma evolves_refl [simp]: "hub_evolves h h"
  by (simp add: hub_evolves_def)

lemma evolves_trans [trans]: "hub_evolves h h1 \<Longrightarrow> hub_evolves h1 h2 \<Longrightarrow> hub_evolves h h2"
  unfolding hub_evolves_def by (blast intro: generations_trans)

text \<open>A generation that has been issued and is not current any more.\<close>

definition retired :: "pane_token \<Rightarrow> 't hub \<Rightarrow> bool" where
  "retired t h \<longleftrightarrow> \<not> is_current h t \<and> (hub_counter h = 0 \<or> token_generation t < hub_counter h)"

lemma retired_advance: "generations_advance h h' \<Longrightarrow> retired t h \<Longrightarrow> retired t h'"
  unfolding generations_advance_def retired_def by force

lemma current_issued:
  "hub_ok h \<Longrightarrow> is_current h t \<Longrightarrow> hub_counter h = 0 \<or> token_generation t < hub_counter h"
  by (auto simp: hub_ok_def slots_ok_def is_current_def split: option.splits)

locale hub_operation =
  fixes f :: "'t hub \<Rightarrow> 't hub"
  assumes evolves: "hub_evolves h (f h)"
begin

lemma keeps: "hub_ok h \<Longrightarrow> hub_ok (f h)"
  using evolves by (simp add: hub_evolves_def)

lemma retires: "hub_ok h \<Longrightarrow> is_current h t \<or> retired t h \<Longrightarrow> is_current (f h) t \<or> retired t (f h)"
  using evolves [of h] current_issued [of h t] current_issued [of "f h" t]
  unfolding hub_evolves_def generations_advance_def retired_def by force

end

text \<open>\<open>HashMap::keys\<close>: every key once, in an order that is not specified.\<close>

locale key_order =
  fixes iter :: "'k set \<Rightarrow> 'k list"
  assumes iter_keys: "finite K \<Longrightarrow> set (iter K) = K \<and> distinct (iter K)"

interpretation sorted_keys: key_order "sorted_list_of_set :: 'a::linorder set \<Rightarrow> 'a list"
  by unfold_locales simp

text \<open>An order of the tokens: by pane and generation, coded as one number.\<close>

definition token_code :: "pane_token \<Rightarrow> nat" where
  "token_code t = prod_encode (token_pane t, token_generation t)"

definition token_of_code :: "nat \<Rightarrow> pane_token" where
  "token_of_code c = (case prod_decode c of (p, g) \<Rightarrow> \<lparr>token_pane = p, token_generation = g\<rparr>)"

lemma token_of_code [simp]: "token_of_code (token_code t) = t"
  by (simp add: token_of_code_def token_code_def)

definition token_keys :: "pane_token set \<Rightarrow> pane_token list" where
  "token_keys K = map token_of_code (sorted_list_of_set (token_code ` K))"

interpretation token_keys: key_order token_keys
proof
  fix K :: "pane_token set"
  assume "finite K"
  moreover have "inj_on token_of_code (token_code ` K)" by (auto intro!: inj_onI)
  ultimately show "set (token_keys K) = K \<and> distinct (token_keys K)"
    by (simp add: token_keys_def image_image distinct_map)
qed

lemma hub_ok_new: "c \<le> u64_max \<Longrightarrow> hub_ok (hub_new c)"
  by (simp add: hub_ok_defs hub_new_def)

lemma hub_ok_finite: "hub_ok h \<Longrightarrow> finite (dom (hub_panes h))"
  by (rule finite_subset [of _ "set (pane_order h)"]) (auto simp: hub_ok_defs)

text \<open>Changes that leave the order and the counter alone and give no slot another token.\<close>

definition slot_tokens :: "'t hub \<Rightarrow> pane_key \<Rightarrow> pane_token option" where
  "slot_tokens h p = map_option slot_token (hub_panes h p)"

lemma slot_tokens_current: "is_current h t \<longleftrightarrow> slot_tokens h (token_pane t) = Some t"
  by (auto simp: slot_tokens_def is_current_def split: option.splits)

lemma evolves_cong:
  assumes "pane_order h' = pane_order h" and "fair_drain_cursor h' = fair_drain_cursor h"
    and "hub_counter h' = hub_counter h" and le: "slot_tokens h' \<subseteq>\<^sub>m slot_tokens h"
    and p: "pending_closed h' \<subseteq>\<^sub>m pending_closed h"
  shows "hub_evolves h h'"
proof -
  have t: "slot_tokens h q = Some t" if "slot_tokens h' q = Some t" for q t
    using le that by (metis domI map_le_def)
  have "slots_ok h'" if "slots_ok h"
    unfolding slots_ok_def
  proof (intro allI impI)
    fix q slot
    assume "hub_panes h' q = Some slot"
    then have "slot_tokens h q = Some (slot_token slot)" using t by (simp add: slot_tokens_def)
    then obtain slot0 where "hub_panes h q = Some slot0" "slot_token slot0 = slot_token slot"
      by (auto simp: slot_tokens_def)
    then show "q \<in> set (pane_order h') \<and> token_pane (slot_token slot) = q \<and> 0 < token_generation (slot_token slot) \<and>
        (hub_counter h' = 0 \<or> token_generation (slot_token slot) < hub_counter h')"
      using that assms(1,3) unfolding slots_ok_def by metis
  qed
  moreover have "pending_ok h'" if "pending_ok h"
    using that p unfolding pending_ok_def map_le_def by (metis domI)
  ultimately show ?thesis
    using assms t by (auto simp: hub_evolves_def hub_ok_def cursor_ok_def generations_advance_def slot_tokens_current)
qed

section \<open>Order of the panes\<close>

lemma remove_order_simps [simp]:
  "hub_panes (remove_pane_order p h) = hub_panes h" "hub_counter (remove_pane_order p h) = hub_counter h"
  "hub_notices (remove_pane_order p h) = hub_notices h" "pending_closed (remove_pane_order p h) = pending_closed h"
  by (simp_all add: remove_pane_order_def Let_def split: option.splits)

lemma remove_order_eq: "distinct (pane_order h) \<Longrightarrow> pane_order (remove_pane_order p h) = remove1 p (pane_order h)"
proof (cases "position (\<lambda>q. q = p) (pane_order h)")
  case None
  then have "p \<notin> set (pane_order h)" by (auto simp: position_None_iff)
  then show ?thesis using None by (simp add: remove_pane_order_def remove1_idem)
next
  case (Some i)
  have "remove_nth j xs = remove1 (xs ! j) xs" if "distinct xs" "j < length xs" for j and xs :: "nat list"
    using that
  proof (induction xs arbitrary: j)
    case (Cons x xs)
    then show ?case by (cases j) (auto simp: remove_nth_def)
  qed simp
  moreover assume "distinct (pane_order h)"
  ultimately show ?thesis
    using Some position_SomeD [OF Some] by (auto simp: remove_pane_order_def Let_def)
qed

lemma remove_order_cursor: "cursor_ok h \<Longrightarrow> cursor_ok (remove_pane_order p h)"
  by (auto simp: cursor_ok_def remove_pane_order_def Let_def split: option.splits)

lemma remove_order_ok:
  assumes "hub_ok h" and "hub_panes h p = None"
  shows "hub_ok (remove_pane_order p h)"
proof -
  have d: "distinct (pane_order h)" using assms(1) by (simp add: hub_ok_def)
  have "slots_ok (remove_pane_order p h)"
    using assms by (auto simp: hub_ok_def slots_ok_def remove_order_eq [OF d] intro: in_set_remove1 [THEN iffD2])
  moreover have "cursor_ok (remove_pane_order p h)"
    using assms(1) by (simp add: hub_ok_def remove_order_cursor)
  ultimately show ?thesis using assms(1) d by (simp add: hub_ok_def pending_ok_def remove_order_eq)
qed

lemma generations_same:
  "hub_panes h' = hub_panes h \<Longrightarrow> hub_counter h' = hub_counter h \<Longrightarrow> generations_advance h h'"
  by (auto simp: generations_advance_def is_current_def)

lemma evolves_remove: "hub_panes h p = None \<Longrightarrow> hub_evolves h (remove_pane_order p h)"
  by (simp add: hub_evolves_def remove_order_ok generations_same)

lemma reposition_order:
  "distinct (pane_order h) \<Longrightarrow> pane_order (reposition_pane p i h) =
     insert_nth (min i (length (remove1 p (pane_order h)))) p (remove1 p (pane_order h))"
  by (simp add: reposition_pane_def Let_def remove_order_eq)

lemma reposition_simps [simp]:
  "hub_panes (reposition_pane p i h) = hub_panes h" "hub_counter (reposition_pane p i h) = hub_counter h"
  "hub_notices (reposition_pane p i h) = hub_notices h" "pending_closed (reposition_pane p i h) = pending_closed h"
  by (simp_all add: reposition_pane_def Let_def)

lemma reposition_ok:
  assumes "hub_ok h"
  shows "hub_ok (reposition_pane p i h)"
proof -
  let ?xs = "remove1 p (pane_order h)" and ?g = "reposition_pane p i h"
  have d: "distinct (pane_order h)" using assms by (simp add: hub_ok_def)
  have o: "pane_order ?g = insert_nth (min i (length ?xs)) p ?xs" by (rule reposition_order [OF d])
  have "set (pane_order h) \<subseteq> set (pane_order ?g)" unfolding o using d by auto
  then have "slots_ok ?g" using assms by (auto simp: hub_ok_def slots_ok_def)
  moreover have "pane_order ?g \<noteq> []" unfolding o by (simp add: insert_nth_def)
  then have "cursor_ok ?g"
    by (auto simp: cursor_ok_def reposition_pane_def Let_def min_def)
  moreover have "distinct (pane_order ?g)" unfolding o using d by (simp add: distinct_insert_nth)
  ultimately show ?thesis using assms by (simp add: hub_ok_def pending_ok_def)
qed

lemma evolves_reposition: "hub_evolves h (reposition_pane p i h)"
  by (simp add: hub_evolves_def reposition_ok generations_same)

section \<open>Operations keep the invariant\<close>

lemma issue_token_cases:
  assumes "issue_token pane c = (r, c')" and "c \<le> u64_max"
  shows "(\<exists>token. r = Ok token \<and> token_pane token = pane \<and> token_generation token = c \<and> 0 < c \<and>
      (c' = 0 \<or> c < c') \<and> c' \<le> u64_max) \<or> (\<exists>e. r = Err e \<and> c' = 0 \<and> c = 0)"
  using assms
  by (auto simp: issue_token_def issue_pane_generation_def next_generation_def checked_add_u64_def
      split: if_splits option.splits prod.splits)

text \<open>A counter that has advanced, or is exhausted, keeps the generations of the slots apart from
  the ones still to be issued.\<close>

lemma hub_ok_counter:
  assumes "hub_ok h" and "c = 0 \<or> hub_counter h < c" and "hub_counter h \<noteq> 0 \<or> c = 0" and "c \<le> u64_max"
  shows "hub_ok (h\<lparr>hub_counter := c\<rparr>)"
  using assms by (fastforce simp: hub_ok_defs)

lemma hub_ok_insert:
  assumes "hub_ok h" and "hub_panes h' = (hub_panes h)(p \<mapsto> slot)"
    and "pane_order h' = (if p \<in> set (pane_order h) then pane_order h else pane_order h @ [p])"
    and "fair_drain_cursor h' = fair_drain_cursor h" and "hub_counter h' = hub_counter h"
    and "pending_closed h' = pending_closed h" and "token_pane (slot_token slot) = p" and "0 < token_generation (slot_token slot)"
    and "hub_counter h = 0 \<or> token_generation (slot_token slot) < hub_counter h"
  shows "hub_ok h'"
  using assms by (auto simp: hub_ok_defs less_Suc_eq split: if_splits)

lemma generations_counter:
  "c = 0 \<or> hub_counter h \<noteq> 0 \<and> hub_counter h \<le> c \<Longrightarrow> generations_advance h (h\<lparr>hub_counter := c\<rparr>)"
  by (simp add: generations_advance_def is_current_def)

interpretation open_op: hub_operation "\<lambda>h. snd (open_pane pane config spawned h)" for pane config spawned
proof (unfold_locales, unfold hub_evolves_def, intro impI conjI)
  fix h :: "'t hub"
  assume ok: "hub_ok h"
  obtain r c where t: "issue_token pane (hub_counter h) = (r, c)" by fastforce
  have "hub_counter h \<le> u64_max" using ok by (simp add: hub_ok_def)
  note cases = issue_token_cases [OF t this]
  have c: "c = 0 \<or> hub_counter h \<noteq> 0 \<and> hub_counter h < c" "c \<le> u64_max" using cases by auto
  then have ok1: "hub_ok (h\<lparr>hub_counter := c\<rparr>)" using ok by (intro hub_ok_counter) auto
  show "hub_ok (snd (open_pane pane config spawned h))"
  proof (cases "hub_panes h pane = None \<and> spawned \<and> (\<exists>token. r = Ok token)")
    case True
    with cases obtain token where tok: "r = Ok token" "token_pane token = pane"
      "token_generation token = hub_counter h" "0 < hub_counter h" "c = 0 \<or> hub_counter h < c" by auto
    show ?thesis
      by (rule hub_ok_insert [OF ok1, where p = pane]) (use tok True in \<open>simp add: open_pane_def t Let_def\<close>)+
  qed (use ok ok1 t cases in \<open>auto simp: open_pane_def\<close>)
  show "generations_advance h (snd (open_pane pane config spawned h))"
  proof (cases "hub_panes h pane = None")
    case True
    then show ?thesis
      using cases c t
      by (elim disjE exE; cases spawned)
        (auto simp: open_pane_def Let_def generations_advance_def is_current_def fun_upd_def split: if_splits)
  qed (auto simp: open_pane_def)
qed

interpretation begin_close_op: hub_operation "\<lambda>h. snd (begin_close token grace now h)" for token grace now
  by unfold_locales
    (auto simp: begin_close_def slot_tokens_def map_le_def intro!: evolves_cong split: option.splits)

lemma evolves_take_slot:
  assumes "pane_order h' = pane_order h" and "fair_drain_cursor h' = fair_drain_cursor h"
    and "hub_counter h' = hub_counter h" and "hub_panes h' = (hub_panes h)(p := None)"
    and "pending_closed h' \<subseteq>\<^sub>m pending_closed h"
  shows "hub_evolves h (remove_pane_order p h')"
proof -
  have "hub_evolves h h'" using assms by (intro evolves_cong) (auto simp: slot_tokens_def map_le_def)
  also have "hub_evolves h' (remove_pane_order p h')" using assms(4) by (intro evolves_remove) simp
  finally show ?thesis .
qed

interpretation reap_pane_op: hub_operation "reap_pane pane" for pane
  by unfold_locales (auto simp: reap_pane_def intro!: evolves_take_slot split: option.splits)

interpretation reap_finished_op: hub_operation "reap_finished finished" for finished
  by unfold_locales (auto simp: reap_finished_def slot_tokens_def map_le_def intro!: evolves_cong)

lemma fold_reap_evolves: "hub_evolves h (fold reap_pane ps h)"
  by (induction ps arbitrary: h) (auto intro: evolves_trans reap_pane_op.evolves)

interpretation reap_expired_op: hub_operation "\<lambda>h. snd (reap_expired iter finished now h)" for iter finished now
  by unfold_locales
    (auto simp: reap_expired_def Let_def intro: evolves_trans fold_reap_evolves reap_finished_op.evolves)

interpretation restart_op: hub_operation "\<lambda>h. snd (restart_pane iter finished close_now reap_now pane config spawned h)"
  for iter finished close_now reap_now pane config spawned
proof
  fix h :: "'t hub"
  define h1 where "h1 = (case hub_panes h pane of None \<Rightarrow> h
    | Some slot \<Rightarrow> snd (reap_expired iter finished reap_now (snd (begin_close (slot_token slot) 0 close_now h))))"
  have "hub_evolves h h1"
    by (auto simp: h1_def intro: evolves_trans begin_close_op.evolves reap_expired_op.evolves split: option.splits)
  also have "hub_evolves h1 (snd (open_pane pane config spawned h1))" by (rule open_op.evolves)
  finally have o: "hub_evolves h (snd (open_pane pane config spawned h1))" .
  show "hub_evolves h (snd (restart_pane iter finished close_now reap_now pane config spawned h))"
    unfolding restart_pane_def h1_def [symmetric] Let_def using o
    by (auto intro: evolves_trans evolves_reposition split: prod.splits outcome.splits option.splits)
qed

interpretation finish_closed_op: hub_operation "finish_closed_slot finished notice" for finished notice
  by unfold_locales
    (auto simp: finish_closed_slot_def Let_def
      intro!: evolves_trans [OF evolves_take_slot reap_finished_op.evolves] split: option.splits)

interpretation take_drained_op: hub_operation "\<lambda>h. snd (take_drained_close iter finished h)" for iter finished
  by unfold_locales
    (auto simp: take_drained_close_def slot_tokens_def map_le_def
      intro!: evolves_trans [OF evolves_cong finish_closed_op.evolves] split: option.splits)

declare recv_loop.simps [simp del]

lemma evolves_notices: "hub_evolves h (h\<lparr>hub_notices := s\<rparr>)"
  by (rule evolves_cong) (simp_all add: slot_tokens_def map_le_def)

lemma evolves_pending:
  "is_closed_notice n \<Longrightarrow> hub_evolves h (h\<lparr>pending_closed := (pending_closed h)(notice_pane n \<mapsto> n)\<rparr>)"
  by (auto simp: hub_evolves_def hub_ok_defs generations_same)

interpretation recv_loop_op: hub_operation "\<lambda>h. snd (recv_loop finished h)" for finished
proof
  fix h :: "'t hub"
  show "hub_evolves h (snd (recv_loop finished h))"
  proof (induction finished h rule: recv_loop.induct)
    case (1 finished h)
    obtain r s ns where t: "try_recv (hub_notices h) = (r, s, ns)" by (cases "try_recv (hub_notices h)") auto
    let ?h1 = "h\<lparr>hub_notices := s\<rparr>"
    have e: "hub_evolves h ?h1" by (rule evolves_notices)
    show ?case
    proof (cases r)
      case (Ok notice)
      then show ?thesis
        using "1.IH" [OF t [symmetric] Ok refl refl] e t evolves_pending [of notice ?h1]
        by (subst recv_loop.simps) (auto simp: Let_def intro: evolves_trans finish_closed_op.evolves)
    qed (use e t in \<open>subst recv_loop.simps, simp\<close>)+
  qed
qed

interpretation try_recv_notice_op: hub_operation "\<lambda>h. snd (try_recv_notice iter finished h)" for iter finished
proof
  fix h :: "'t hub"
  have e: "hub_evolves h (snd (take_drained_close iter finished h))" by (rule take_drained_op.evolves)
  then show "hub_evolves h (snd (try_recv_notice iter finished h))"
    by (auto simp: try_recv_notice_def intro: evolves_trans recv_loop_op.evolves split: prod.splits option.splits)
qed

lemma evolves_publication: "hub_panes h p = Some slot \<Longrightarrow> hub_evolves h (put_publication p slot q h)"
  by (rule evolves_cong) (auto simp: put_publication_def slot_tokens_def map_le_def)

interpretation drain_pane_op: hub_operation "\<lambda>h. snd (drain_pane token n h)" for token n
  by unfold_locales (auto simp: drain_pane_def intro: evolves_publication split: option.splits prod.splits)

interpretation shutdown_op: hub_operation "hub_shutdown iter" for iter
  by unfold_locales (rule evolves_cong; simp add: hub_shutdown_def slot_tokens_def map_le_def dom_def)

end
