(* ===== verification/Hub_Drain.thy ===== *)
theory Hub_Drain
  imports Hub_Laws
begin

text \<open>
  The fair drain of the hub: its exact result in terms of the panes that have work, the contract of
  a turn that serves a ring of clients from a cursor, and the bound on the turns a pane waits.
\<close>

section \<open>Cyclic distance\<close>

text \<open>How many places the client at index \<open>i\<close> of a ring of \<open>n\<close> stands after the cursor.\<close>

definition ring_distance :: "nat \<Rightarrow> nat \<Rightarrow> nat \<Rightarrow> nat" where
  "ring_distance n cursor i = (i + n - cursor) mod n"

lemma ring_distance_less: "0 < n \<Longrightarrow> ring_distance n c i < n"
  by (simp add: ring_distance_def)

lemma ring_distance_index:
  assumes "c < n" and "i < n"
  shows "(c + ring_distance n c i) mod n = i"
proof -
  have "(c + (i + n - c) mod n) mod n = (c + (i + n - c)) mod n" by (rule mod_add_right_eq)
  also have "c + (i + n - c) = i + n" using assms by simp
  finally show ?thesis using assms by (simp add: ring_distance_def)
qed

lemma ring_distance_unique:
  assumes "c < n" and "i < n" and "d < n" and "(c + d) mod n = i"
  shows "ring_distance n c i = d"
proof (cases "c + d < n")
  case True
  then show ?thesis using assms by (auto simp: ring_distance_def)
next
  case False
  then have "i = c + d - n" using assms by (auto simp: mod_if split: if_splits)
  then show ?thesis using assms False by (simp add: ring_distance_def)
qed

text \<open>A cursor that moves past the place at offset \<open>k\<close> brings every later client closer.\<close>

lemma ring_distance_advance:
  assumes "c < n" and "i < n" and "k < ring_distance n c i"
  shows "ring_distance n (Suc ((c + k) mod n) mod n) i = ring_distance n c i - Suc k"
proof (rule ring_distance_unique)
  let ?d = "ring_distance n c i"
  have d: "?d < n" using assms by (simp add: ring_distance_less)
  then show "?d - Suc k < n" by simp
  have "(Suc ((c + k) mod n) mod n + (?d - Suc k)) mod n = (Suc (c + k) + (?d - Suc k)) mod n"
    by (metis mod_Suc_eq mod_add_left_eq)
  also have "Suc (c + k) + (?d - Suc k) = c + ?d" using assms(3) by simp
  finally show "(Suc ((c + k) mod n) mod n + (?d - Suc k)) mod n = i"
    using ring_distance_index [OF assms(1,2)] by simp
qed (use assms in auto)

section \<open>Round robin\<close>

lemma strict_sorted_length:
  fixes xs :: "nat list"
  shows "sorted_wrt (<) xs \<Longrightarrow> xs \<noteq> [] \<Longrightarrow> length xs \<le> Suc (last xs)"
proof (induction xs rule: rev_induct)
  case (snoc x xs)
  show ?case
  proof (cases "xs = []")
    case False
    with snoc have "length xs \<le> Suc (last xs)" and "last xs < x" by (simp_all add: sorted_wrt_append)
    then show ?thesis by simp
  qed simp
qed simp

text \<open>
  A server over a ring: in one turn the clients that are ready are served in the order of their
  distance from the cursor, at most \<open>room\<close> of them, and the cursor stops after the last one. The
  state is left abstract; \<open>places\<close> is the number of clients.
\<close>

definition turn_offsets :: "nat \<Rightarrow> nat \<Rightarrow> nat \<Rightarrow> (nat \<Rightarrow> bool) \<Rightarrow> nat list" where
  "turn_offsets n cursor room ready = take room (filter (\<lambda>k. ready ((cursor + k) mod n)) [0 ..< n])"

locale round_robin =
  fixes ok :: "'h \<Rightarrow> bool" and places cursor :: "'h \<Rightarrow> nat" and ready :: "'h \<Rightarrow> nat \<Rightarrow> bool"
    and served :: "nat \<Rightarrow> 'h \<Rightarrow> nat \<Rightarrow> bool" and turn :: "nat \<Rightarrow> 'h \<Rightarrow> 'h"
  assumes ok_turn: "ok h \<Longrightarrow> ok (turn room h)"
    and places_turn: "ok h \<Longrightarrow> places (turn room h) = places h"
    and cursor_less: "ok h \<Longrightarrow> 0 < places h \<Longrightarrow> cursor h < places h"
    and served_iff: "ok h \<Longrightarrow> i < places h \<Longrightarrow> served room h i \<longleftrightarrow>
      (\<exists>k \<in> set (turn_offsets (places h) (cursor h) room (ready h)). (cursor h + k) mod places h = i)"
    and cursor_turn: "ok h \<Longrightarrow> cursor (turn room h) =
      (let ks = turn_offsets (places h) (cursor h) room (ready h)
       in if ks = [] then cursor h else Suc ((cursor h + last ks) mod places h) mod places h)"
begin

lemma served_ready: "ok h \<Longrightarrow> i < places h \<Longrightarrow> served room h i \<Longrightarrow> ready h i"
  by (auto simp: served_iff turn_offsets_def dest: in_set_takeD)

text \<open>A ready client that is not served moves up by at least \<open>room\<close> places.\<close>

lemma moves_up:
  assumes "ok h" and i: "i < places h" "ready h i" "\<not> served room h i" and room: "0 < room"
  shows "ring_distance (places h) (cursor (turn room h)) i + room \<le> ring_distance (places h) (cursor h) i"
proof -
  let ?n = "places h" and ?c = "cursor h"
  let ?d = "ring_distance ?n ?c i" and ?fs = "filter (\<lambda>k. ready h ((?c + k) mod ?n)) [0 ..< ?n]"
  let ?ks = "take room ?fs"
  have c: "?c < ?n" using cursor_less assms(1) i(1) by simp
  have idx: "(?c + ?d) mod ?n = i" using c i(1) by (rule ring_distance_index)
  have "?d < ?n" using i(1) by (simp add: ring_distance_less)
  then have mem: "?d \<in> set ?fs" using i(2) idx by simp
  have out: "?d \<notin> set ?ks" using assms(1) i idx by (auto simp: served_iff turn_offsets_def)
  then have lks: "length ?ks = room" using mem by (metis length_take linorder_not_le min.absorb4 take_all)
  have sorted: "sorted_wrt (<) ?fs" by (simp add: sorted_wrt_filter strict_sorted_iff)
  have ne: "?ks \<noteq> []" using lks room by auto
  have "?d \<in> set (drop room ?fs)" using mem out by (metis Un_iff append_take_drop_id set_append)
  then have last: "last ?ks < ?d"
    using sorted ne by (metis append_take_drop_id last_in_set sorted_wrt_append)
  moreover have "room \<le> Suc (last ?ks)"
    using strict_sorted_length [OF sorted_wrt_take [OF sorted] ne] lks by simp
  moreover have "ring_distance ?n (cursor (turn room h)) i = ?d - Suc (last ?ks)"
    using ring_distance_advance [OF c i(1) last] ne assms(1) by (simp add: cursor_turn turn_offsets_def)
  ultimately show ?thesis by simp
qed

text \<open>No client that stays ready waits longer than a round, whatever happens between the turns.\<close>

lemma served_within:
  assumes ok: "\<And>k. ok (run k)" and ring: "\<And>k. places (run (Suc k)) = places (run k)"
    and cur: "\<And>k. cursor (run (Suc k)) = cursor (turn room (run k))"
    and i: "i < places (run 0)" and ready: "\<And>k. k < places (run 0) \<Longrightarrow> ready (run k) i" and room: "0 < room"
  shows "\<exists>k. k * room \<le> ring_distance (places (run 0)) (cursor (run 0)) i \<and> served room (run k) i"
proof (rule ccontr)
  let ?n = "places (run 0)"
  let ?d = "\<lambda>k. ring_distance ?n (cursor (run k)) i"
  assume none: "\<nexists>k. k * room \<le> ?d 0 \<and> served room (run k) i"
  have n: "places (run k) = ?n" for k using ring by (induction k) auto
  have "?d k + k * room \<le> ?d 0" for k
  proof (induction k)
    case (Suc k)
    then have "k * room \<le> ?d 0" by simp
    moreover from this have "k \<le> ?d 0" using room by (cases room) simp_all
    then have "k < ?n" using i ring_distance_less [of ?n "cursor (run 0)" i] by linarith
    ultimately have "\<not> served room (run k) i" and "ready (run k) i" using none ready by blast+
    then have "?d (Suc k) + room \<le> ?d k"
      using moves_up [OF ok [of k], of i room] i room by (simp add: n [of k] cur)
    then show ?case using Suc by simp
  qed simp
  from this [of "Suc (?d 0)"] show False using room by (cases room) auto
qed

end

section \<open>Result of the loop\<close>

definition ready_pane :: "'t hub \<Rightarrow> pane_key \<Rightarrow> bool" where
  "ready_pane h p = (case hub_panes h p of None \<Rightarrow> False | Some slot \<Rightarrow> has_work (slot_publication slot))"

definition drain_of :: "nat \<Rightarrow> 't hub \<Rightarrow> pane_key \<Rightarrow> pane_token \<times> 't pane_drain" where
  "drain_of max_effects h p =
     (slot_token (the (hub_panes h p)), fst (drain max_effects (slot_publication (the (hub_panes h p)))))"

definition drained_slot :: "nat \<Rightarrow> 't pane_slot \<Rightarrow> 't pane_slot" where
  "drained_slot max_effects slot = slot\<lparr>slot_publication := snd (drain max_effects (slot_publication slot))\<rparr>"

definition drained_panes :: "nat \<Rightarrow> 't hub \<Rightarrow> pane_key set \<Rightarrow> pane_key \<Rightarrow> 't pane_slot option" where
  "drained_panes max_effects h P = (\<lambda>p. if p \<in> P then map_option (drained_slot max_effects) (hub_panes h p) else hub_panes h p)"

text \<open>The offsets the loop serves and the pane at an offset.\<close>

definition served_offsets :: "nat \<Rightarrow> nat \<Rightarrow> nat list \<Rightarrow> 't hub \<Rightarrow> nat list" where
  "served_offsets start room offsets h =
     take room (filter (\<lambda>k. ready_pane h (pane_order h ! ((start + k) mod length (pane_order h)))) offsets)"

definition pane_at :: "nat \<Rightarrow> 't hub \<Rightarrow> nat \<Rightarrow> pane_key" where
  "pane_at start h k = pane_order h ! ((start + k) mod length (pane_order h))"

lemma ready_other: "q \<noteq> p \<Longrightarrow> ready_pane (put_publication p slot x h\<lparr>fair_drain_cursor := c\<rparr>) q = ready_pane h q"
  by (simp add: ready_pane_def put_publication_def)

lemma drain_of_other:
  "q \<noteq> p \<Longrightarrow> drain_of m (put_publication p slot x h\<lparr>fair_drain_cursor := c\<rparr>) q = drain_of m h q"
  by (simp add: drain_of_def put_publication_def)

lemma served_offsets_Cons:
  "served_offsets start room (k # ks) h =
     (if room = 0 then [] else if ready_pane h (pane_at start h k)
      then k # served_offsets start (room - 1) ks h else served_offsets start room ks h)"
  by (cases room) (simp_all add: served_offsets_def pane_at_def)

lemma fair_loop_spec:
  assumes "distinct (map (pane_at start h) ks)"
  shows "fair_loop m start (length (pane_order h)) room ks h =
    (map (drain_of m h) (map (pane_at start h) (served_offsets start room ks h)),
     h\<lparr>hub_panes := drained_panes m h (pane_at start h ` set (served_offsets start room ks h)),
       fair_drain_cursor :=
         (if served_offsets start room ks h = [] then fair_drain_cursor h
          else Suc ((start + last (served_offsets start room ks h)) mod length (pane_order h)) mod length (pane_order h))\<rparr>)"
  using assms
proof (induction ks arbitrary: room h)
  case Nil
  then show ?case by (simp add: served_offsets_def drained_panes_def)
next
  case (Cons k ks)
  let ?n = "length (pane_order h)" and ?p = "pane_at start h k"
  show ?case
  proof (cases "room = 0 \<or> \<not> ready_pane h ?p")
    case True
    then show ?thesis
      using Cons.IH [of h room] Cons.prems
      by (auto simp: served_offsets_Cons ready_pane_def pane_at_def Let_def drained_panes_def split: option.splits)
  next
    case False
    then obtain slot where slot: "hub_panes h ?p = Some slot" "has_work (slot_publication slot)"
      by (auto simp: ready_pane_def split: option.splits)
    obtain d x where dx: "drain m (slot_publication slot) = (d, x)" by fastforce
    define g where "g = put_publication ?p slot x h\<lparr>fair_drain_cursor := Suc ((start + k) mod ?n) mod ?n\<rparr>"
    have o: "pane_order g = pane_order h" by (simp add: g_def put_publication_def)
    have at: "pane_at start g = pane_at start h" by (simp add: fun_eq_iff pane_at_def o)
    have notin: "?p \<notin> pane_at start h ` set ks" using Cons.prems by simp
    have ready: "ready_pane g (pane_at start h j) = ready_pane h (pane_at start h j)" if "j \<in> set ks" for j
      unfolding g_def using notin that by (intro ready_other) (metis imageI)
    then have so: "served_offsets start r ks g = served_offsets start r ks h" for r
      by (auto simp: served_offsets_def o pane_at_def [symmetric] intro!: arg_cong [where f = "take r"] filter_cong)
    have sub: "set (served_offsets start r ks h) \<subseteq> set ks" for r
      by (auto simp: served_offsets_def dest: in_set_takeD)
    have dr: "map (drain_of m g) (map (pane_at start h) (served_offsets start r ks h)) =
        map (drain_of m h) (map (pane_at start h) (served_offsets start r ks h))" for r
      unfolding g_def map_map comp_def
    proof (intro map_cong refl drain_of_other)
      fix j
      assume "j \<in> set (served_offsets start r ks h)"
      then show "pane_at start h j \<noteq> ?p" using notin sub by (metis imageI subsetD)
    qed
    have ps: "drained_panes m g (pane_at start h ` set (served_offsets start r ks h)) =
        drained_panes m h (insert ?p (pane_at start h ` set (served_offsets start r ks h)))" for r
      using notin sub [of r] slot dx
      by (auto simp: fun_eq_iff drained_panes_def g_def put_publication_def drained_slot_def)
    have IH: "fair_loop m start ?n (room - 1) ks g =
      (map (drain_of m h) (map (pane_at start h) (served_offsets start (room - 1) ks h)),
       g\<lparr>hub_panes := drained_panes m h (insert ?p (pane_at start h ` set (served_offsets start (room - 1) ks h))),
         fair_drain_cursor := (if served_offsets start (room - 1) ks h = [] then fair_drain_cursor g
          else Suc ((start + last (served_offsets start (room - 1) ks h)) mod ?n) mod ?n)\<rparr>)"
      using Cons.IH [of g "room - 1"] Cons.prems unfolding o at so dr ps by simp
    have step: "fair_loop m start ?n room (k # ks) h =
        (case fair_loop m start ?n (room - 1) ks g of (ds, h1) \<Rightarrow> ((slot_token slot, d) # ds, h1))"
      using False slot dx by (simp add: pane_at_def [symmetric] Let_def g_def)
    show ?thesis
      unfolding step IH prod.case using False slot dx
      by (simp add: served_offsets_Cons drain_of_def g_def put_publication_def)
  qed
qed

section \<open>Fair drain\<close>

lemma pane_at_distinct:
  assumes "distinct (pane_order h)"
  shows "distinct (map (pane_at start h) [0 ..< length (pane_order h)])"
proof -
  let ?n = "length (pane_order h)"
  have "inj_on (pane_at start h) {0 ..< ?n}"
  proof (rule inj_onI)
    fix j k
    assume jk: "j \<in> {0 ..< ?n}" "k \<in> {0 ..< ?n}" and "pane_at start h j = pane_at start h k"
    moreover have "0 < ?n" using jk by auto
    ultimately have "(start + j) mod ?n = (start + k) mod ?n"
      using assms by (simp add: pane_at_def nth_eq_iff_index_eq)
    then have eq: "(start mod ?n + j) mod ?n = (start mod ?n + k) mod ?n" by (simp add: mod_add_left_eq)
    have "ring_distance ?n (start mod ?n) ((start mod ?n + k) mod ?n) = l"
      if "l \<in> {j, k}" for l
      by (rule ring_distance_unique) (use that jk eq \<open>0 < ?n\<close> in auto)
    then show "j = k" by (metis insertCI)
  qed
  then show ?thesis by (simp add: distinct_map)
qed

definition fair_picks :: "nat \<Rightarrow> 't hub \<Rightarrow> nat list" where
  "fair_picks room h = turn_offsets (length (pane_order h)) (fair_drain_cursor h) room
     (\<lambda>i. ready_pane h (pane_order h ! i))"

lemma drain_ready_fair_spec:
  assumes "hub_ok h"
  shows "drain_ready_fair room m h =
    (map (drain_of m h) (map (pane_at (fair_drain_cursor h) h) (fair_picks room h)),
     h\<lparr>hub_panes := drained_panes m h (pane_at (fair_drain_cursor h) h ` set (fair_picks room h)),
       fair_drain_cursor :=
         (if fair_picks room h = [] then fair_drain_cursor h
          else Suc ((fair_drain_cursor h + last (fair_picks room h)) mod length (pane_order h)) mod length (pane_order h))\<rparr>)"
proof (cases "room = 0 \<or> pane_order h = []")
  case True
  then show ?thesis by (auto simp: drain_ready_fair_def fair_picks_def turn_offsets_def drained_panes_def)
next
  case False
  then have c: "fair_drain_cursor h mod length (pane_order h) = fair_drain_cursor h"
    using assms by (simp add: hub_ok_def cursor_ok_def)
  have p: "fair_picks room h = served_offsets (fair_drain_cursor h) room [0 ..< length (pane_order h)] h"
    by (simp add: fair_picks_def turn_offsets_def served_offsets_def)
  have "distinct (pane_order h)" using assms by (simp add: hub_ok_def)
  note fair_loop_spec [OF pane_at_distinct [OF this], of m "fair_drain_cursor h" room]
  then show ?thesis using False unfolding p by (simp add: drain_ready_fair_def c Let_def)
qed

interpretation drain_ready_op: hub_operation "\<lambda>h. snd (drain_ready_fair room m h)" for room m
proof (unfold_locales, unfold hub_evolves_def, intro impI conjI)
  fix h :: "'t hub"
  assume ok: "hub_ok h"
  define g where "g = h\<lparr>hub_panes := drained_panes m h (pane_at (fair_drain_cursor h) h ` set (fair_picks room h))\<rparr>"
  have "hub_evolves h g"
    by (rule evolves_cong) (auto simp: g_def slot_tokens_def map_le_def drained_panes_def drained_slot_def dom_def)
  then have g: "hub_ok g" "generations_advance h g" using ok by (simp_all add: hub_evolves_def)
  obtain c where c: "snd (drain_ready_fair room m h) = g\<lparr>fair_drain_cursor := c\<rparr>"
    "pane_order h \<noteq> [] \<longrightarrow> c < length (pane_order h)" "pane_order h = [] \<longrightarrow> c = fair_drain_cursor h"
  proof
    show "snd (drain_ready_fair room m h) = g\<lparr>fair_drain_cursor := (if fair_picks room h = [] then fair_drain_cursor h
      else Suc ((fair_drain_cursor h + last (fair_picks room h)) mod length (pane_order h)) mod length (pane_order h))\<rparr>"
      by (simp add: drain_ready_fair_spec [OF ok] g_def)
  qed (use ok in \<open>auto simp: hub_ok_def cursor_ok_def fair_picks_def turn_offsets_def\<close>)
  have "pane_order g = pane_order h" "fair_drain_cursor g = fair_drain_cursor h" by (simp_all add: g_def)
  with c g(1) show "hub_ok (snd (drain_ready_fair room m h))" by (auto simp: hub_ok_defs)
  from c(1) g(2) show "generations_advance h (snd (drain_ready_fair room m h))"
    by (simp add: generations_advance_def is_current_def)
qed

text \<open>The panes a fair drain has served, by the tokens it returns.\<close>

definition drained_keys :: "(pane_token \<times> 't pane_drain) list \<Rightarrow> pane_key list" where
  "drained_keys ds = map (\<lambda>(t, d). token_pane t) ds"

lemma drained_keys_eq:
  assumes "hub_ok h"
  shows "drained_keys (fst (drain_ready_fair room m h)) = map (pane_at (fair_drain_cursor h) h) (fair_picks room h)"
proof -
  have "token_pane (fst (drain_of m h (pane_at (fair_drain_cursor h) h k))) = pane_at (fair_drain_cursor h) h k"
    if "k \<in> set (fair_picks room h)" for k
  proof -
    have "ready_pane h (pane_at (fair_drain_cursor h) h k)"
      using that by (auto simp: fair_picks_def turn_offsets_def pane_at_def dest: in_set_takeD)
    then show ?thesis
      using assms by (auto simp: ready_pane_def drain_of_def hub_ok_def slots_ok_def split: option.splits)
  qed
  then show ?thesis by (simp add: drain_ready_fair_spec [OF assms] drained_keys_def case_prod_beta)
qed

interpretation fair: round_robin hub_ok "\<lambda>h. length (pane_order h)" fair_drain_cursor
  "\<lambda>h i. ready_pane h (pane_order h ! i)"
  "\<lambda>room h i. pane_order h ! i \<in> set (drained_keys (fst (drain_ready_fair room m h)))"
  "\<lambda>room h. snd (drain_ready_fair room m h)" for m
proof (unfold_locales, goal_cases)
  case (1 h room)
  then show ?case by (rule drain_ready_op.keeps)
next
  case (3 h)
  then show ?case by (auto simp: hub_ok_def cursor_ok_def)
next
  case (4 h i room)
  have "(fair_drain_cursor h + k) mod length (pane_order h) < length (pane_order h)" for k
    using 4(2) by (intro mod_less_divisor) linarith
  then have "(pane_at (fair_drain_cursor h) h k = pane_order h ! i) =
      ((fair_drain_cursor h + k) mod length (pane_order h) = i)" for k
    using 4 by (simp add: pane_at_def hub_ok_def nth_eq_iff_index_eq)
  then show ?case
    by (simp add: drained_keys_eq [OF 4(1)] fair_picks_def image_iff eq_commute [of "pane_order h ! i"])
qed (simp_all add: drain_ready_fair_spec fair_picks_def Let_def)

end
