(* ===== verification/Hub_Properties.thy ===== *)
theory Hub_Properties
  imports Hub_Drain Publication_Properties
begin

text \<open>
  The hub as a state machine, with its workers and its host, and what its clients rely on: the
  invariant, that a generation is never revived, when a close is announced, what a restart gives,
  and how long a pane can wait for its drain.
\<close>

section \<open>State machine\<close>

text \<open>Every call of the host, and what the threads of a pane do to the state the hub shares with them:
  its publication, its inbox and the notice mailbox take any value.\<close>

inductive hub_step :: "'t hub \<Rightarrow> 't hub \<Rightarrow> bool" where
  Open: "hub_step h (snd (open_pane pane config spawned h))"
| Restart: "hub_step h (snd (restart_pane iter finished close_now reap_now pane config spawned h))"
| Begin_Close: "hub_step h (snd (begin_close token grace now h))"
| Reap_Expired: "hub_step h (snd (reap_expired iter finished now h))"
| Notice: "hub_step h (snd (try_recv_notice titer finished h))"
| Drain_Pane: "hub_step h (snd (drain_pane token m h))"
| Drain_Ready: "hub_step h (snd (drain_ready_fair room m h))"
| Shutdown: "hub_step h (hub_shutdown iter h)"
| Worker: "hub_panes h p = Some slot \<Longrightarrow>
    hub_step h (h\<lparr>hub_panes := (hub_panes h)(p \<mapsto> slot\<lparr>slot_publication := q, slot_handle := c\<rparr>)\<rparr>)"
| Worker_Notice: "hub_step h (h\<lparr>hub_notices := s\<rparr>)"

inductive hub_steps :: "'t hub \<Rightarrow> 't hub \<Rightarrow> bool" where
  Refl: "hub_steps h h"
| Step: "hub_steps h h1 \<Longrightarrow> hub_step h1 h2 \<Longrightarrow> hub_steps h h2"

lemmas hub_operation_evolves =
  open_op.evolves restart_op.evolves begin_close_op.evolves reap_expired_op.evolves try_recv_notice_op.evolves
  drain_pane_op.evolves drain_ready_op.evolves shutdown_op.evolves evolves_notices

lemma hub_step_evolves: "hub_step h h' \<Longrightarrow> hub_evolves h h'"
proof (induction rule: hub_step.induct)
  case (Worker h p slot q c)
  then show ?case by (intro evolves_cong) (auto simp: slot_tokens_def map_le_def)
qed (rule hub_operation_evolves)+

lemma hub_steps_evolves: "hub_steps h h' \<Longrightarrow> hub_evolves h h'"
  by (induction rule: hub_steps.induct) (auto intro: hub_step_evolves evolves_trans)

lemma hub_reachable_ok: "hub_steps (hub_new c) h \<Longrightarrow> c \<le> u64_max \<Longrightarrow> hub_ok h"
  using hub_steps_evolves hub_ok_new unfolding hub_evolves_def by blast

text \<open>
  C31: whatever the host calls and the workers do, the hub keeps its invariant: the order names every
  live pane once, the cursor of the fair drain stays inside it, every slot stands under the pane of
  its own token, and no slot has a generation that can still be issued.
\<close>

theorem hub_invariant:
  assumes "c \<le> u64_max" and "hub_steps (hub_new c) h"
  shows "distinct (pane_order h) \<and> dom (hub_panes h) \<subseteq> set (pane_order h) \<and>
    (pane_order h \<noteq> [] \<longrightarrow> fair_drain_cursor h < length (pane_order h)) \<and>
    (\<forall>p slot. hub_panes h p = Some slot \<longrightarrow> token_pane (slot_token slot) = p \<and>
       (hub_counter h = 0 \<or> token_generation (slot_token slot) < hub_counter h))"
  using hub_reachable_ok [OF assms(2,1)] by (auto simp: hub_ok_defs)

text \<open>
  C32: a generation that is no longer current is never current again, so a handle or a token of a
  closed or restarted pane never reaches the pane that took its place.
\<close>

theorem generation_never_revived:
  assumes "c \<le> u64_max" and "hub_steps (hub_new c) h" and "is_current h token"
    and "hub_steps h h1" and "\<not> is_current h1 token" and "hub_steps h1 h2"
  shows "\<not> is_current h2 token \<and> fst (drain_pane token m h2) = None \<and> \<not> fst (begin_close token grace now h2)"
proof -
  have ok: "hub_ok h" using assms(2,1) by (rule hub_reachable_ok)
  then have adv: "generations_advance h h1" and ok1: "hub_ok h1"
    using hub_steps_evolves [OF assms(4)] by (simp_all add: hub_evolves_def)
  have "retired token h1"
    using current_issued [OF ok assms(3)] adv assms(5) unfolding retired_def generations_advance_def by force
  moreover have "generations_advance h1 h2"
    using hub_steps_evolves [OF assms(6)] ok1 by (simp add: hub_evolves_def)
  ultimately have "retired token h2" by (metis retired_advance)
  then show ?thesis
    by (auto simp: retired_def is_current_def drain_pane_def begin_close_def split: option.splits)
qed

section \<open>Fair drain\<close>

lemma rotate_pane_at:
  assumes "hub_ok h"
  shows "map (pane_at (fair_drain_cursor h) h) [0 ..< length (pane_order h)] = rotate (fair_drain_cursor h) (pane_order h)"
proof (rule nth_equalityI)
  fix k
  assume "k < length (map (pane_at (fair_drain_cursor h) h) [0 ..< length (pane_order h)])"
  then show "map (pane_at (fair_drain_cursor h) h) [0 ..< length (pane_order h)] ! k = rotate (fair_drain_cursor h) (pane_order h) ! k"
    by (simp add: pane_at_def nth_rotate)
qed simp

text \<open>
  C33: a fair drain serves exactly the first panes with work in the ring that starts at the cursor,
  at most as many as asked for, and returns for each its token and the drain of its publication.
\<close>

theorem fair_drain_exact:
  assumes "c \<le> u64_max" and "hub_steps (hub_new c) h"
  shows "fst (drain_ready_fair room m h) =
    map (drain_of m h) (take room (filter (ready_pane h) (rotate (fair_drain_cursor h) (pane_order h))))"
proof -
  have ok: "hub_ok h" using assms(2,1) by (rule hub_reachable_ok)
  have "map (pane_at (fair_drain_cursor h) h) (fair_picks room h) =
      take room (filter (ready_pane h) (map (pane_at (fair_drain_cursor h) h) [0 ..< length (pane_order h)]))"
    by (simp add: fair_picks_def turn_offsets_def take_map filter_map comp_def pane_at_def)
  then show ?thesis by (simp add: drain_ready_fair_spec [OF ok] rotate_pane_at [OF ok])
qed

text \<open>
  C34: no pane starves. Let the host drain \<open>room\<close> panes a turn while in between, in any way,
  publications, inboxes and notices change but no pane is opened or closed. A pane that keeps having
  work is drained before the turns times \<open>room\<close> exceed its distance from the cursor: within one round
  of the ring, however much the other panes publish.
\<close>

theorem fair_drain_no_starvation:
  assumes "\<And>k. hub_ok (run k)" and "\<And>k. pane_order (run (Suc k)) = pane_order (run k)"
    and "\<And>k. fair_drain_cursor (run (Suc k)) = fair_drain_cursor (snd (drain_ready_fair room m (run k)))"
    and "i < length (pane_order (run 0))" and "0 < room"
    and "\<And>k. k < length (pane_order (run 0)) \<Longrightarrow> ready_pane (run k) (pane_order (run 0) ! i)"
  shows "\<exists>k. k * room < length (pane_order (run 0)) \<and>
    pane_order (run 0) ! i \<in> set (drained_keys (fst (drain_ready_fair room m (run k))))"
proof -
  have o: "pane_order (run k) = pane_order (run 0)" for k using assms(2) by (induction k) auto
  have "\<exists>k. k * room \<le> ring_distance (length (pane_order (run 0))) (fair_drain_cursor (run 0)) i \<and>
      pane_order (run k) ! i \<in> set (drained_keys (fst (drain_ready_fair room m (run k))))"
  proof (rule fair.served_within [where run = run])
    fix k
    assume "k < length (pane_order (run 0))"
    then show "ready_pane (run k) (pane_order (run k) ! i)" unfolding o [of k] by (rule assms(6))
  qed (use assms(4,5) in \<open>auto simp: assms(1-3)\<close>)
  moreover have "ring_distance (length (pane_order (run 0))) (fair_drain_cursor (run 0)) i < length (pane_order (run 0))"
    using assms(4) by (intro ring_distance_less) linarith
  ultimately show ?thesis using o by (metis le_less_trans)
qed

section \<open>Notices\<close>

lemma finish_closed_gone:
  assumes "hub_ok h" and "is_closed_notice n"
  shows "hub_panes (finish_closed_slot finished n h) (token_pane (notice_pane n)) = None"
  using assms by (auto simp: finish_closed_slot_def Let_def reap_finished_def split: option.splits)

lemma recv_loop_Ok:
  "recv_loop finished h = (Ok n, h') \<Longrightarrow> is_current h (notice_pane n) \<and>
     (is_closed_notice n \<longrightarrow> \<not> notice_has_work h n \<and> (\<exists>s. h' = finish_closed_slot finished n (h\<lparr>hub_notices := s\<rparr>)))"
proof (induction finished h arbitrary: n h' rule: recv_loop.induct)
  case (1 finished h)
  obtain r s ns where t: "try_recv (hub_notices h) = (r, s, ns)" by (cases "try_recv (hub_notices h)") auto
  let ?h1 = "h\<lparr>hub_notices := s\<rparr>"
  have panes: "is_current ?h1 = is_current h" "notice_has_work ?h1 = notice_has_work h"
    by (simp_all add: fun_eq_iff is_current_def notice_has_work_def)
  show ?case
  proof (cases r)
    case (Ok notice)
    show ?thesis
    proof (cases "is_current h (notice_pane notice)")
      case True
      with "1.prems" t Ok panes show ?thesis
        by (subst (asm) recv_loop.simps) (auto simp: Let_def split: if_splits)
    next
      case False
      then have "recv_loop finished ?h1 = (Ok n, h')"
        using "1.prems" t Ok panes by (subst (asm) recv_loop.simps) (simp add: Let_def)
      then show ?thesis
        using "1.IH" [OF t [symmetric] Ok refl refl] False panes by fastforce
    qed
  qed (use "1.prems" t in \<open>subst (asm) recv_loop.simps, simp\<close>)+
qed

text \<open>
  C35: a close is announced to the host only when the publication of the generation that closed has
  neither a frame nor an effect left, and then the pane is gone; every other notice is of a
  generation that is current.
\<close>

theorem close_announced_after_drain:
  assumes "c \<le> u64_max" and "hub_steps (hub_new c) h"
    and "try_recv_notice titer finished h = (Ok notice, h')"
  shows "if is_closed_notice notice
    then \<not> notice_has_work h notice \<and> hub_panes h' (token_pane (notice_pane notice)) = None
    else is_current h (notice_pane notice)"
proof -
  have ok: "hub_ok h" using assms(2,1) by (rule hub_reachable_ok)
  show ?thesis
  proof (cases "\<exists>n h1. take_drained_close titer finished h = (Some n, h1)")
    case True
    then obtain n h1 where td: "take_drained_close titer finished h = (Some n, h1)" by blast
    then have nh: "n = notice" "h1 = h'" using assms(3) by (simp_all add: try_recv_notice_def)
    from td obtain t where t: "List.find (drained_token h) (titer (dom (pending_closed h))) = Some t"
      and p: "pending_closed h t = Some n"
      and h1: "h1 = finish_closed_slot finished n (h\<lparr>pending_closed := (pending_closed h)(t := None)\<rparr>)"
      by (auto simp: take_drained_close_def split: option.splits)
    have closed: "notice_pane n = t" "is_closed_notice n" using ok p by (auto simp: hub_ok_def pending_ok_def)
    have "drained_token h t" using t by (auto simp: find_Some_iff)
    then have "\<not> notice_has_work h n" by (auto simp: closed notice_has_work_def drained_token_def split: option.splits)
    moreover have "hub_ok (h\<lparr>pending_closed := (pending_closed h)(t := None)\<rparr>)"
      using ok by (auto simp: hub_ok_defs)
    ultimately show ?thesis
      using finish_closed_gone [OF _ closed(2)] nh h1 closed by metis
  next
    case False
    then have "recv_loop finished h = (Ok notice, h')"
      using assms(3) by (auto simp: try_recv_notice_def take_drained_close_def split: option.splits)
    from recv_loop_Ok [OF this] show ?thesis
      using finish_closed_gone ok hub_evolves_def evolves_notices by metis
  qed
qed

section \<open>Restart\<close>

lemma reap_pane_panes: "hub_panes (reap_pane q h) = (hub_panes h)(q := None)"
  by (auto simp: reap_pane_def split: option.splits)

lemma fold_reap_panes: "hub_panes (fold reap_pane qs h) p = (if p \<in> set qs then None else hub_panes h p)"
  by (induction qs arbitrary: h) (auto simp: reap_pane_panes)

lemma fold_reap_counter: "hub_counter (fold reap_pane qs h) = hub_counter h"
  by (induction qs arbitrary: h) (auto simp: reap_pane_def split: option.splits)

lemma restart_clears:
  assumes "hub_ok h" and "key_order iter" and "close_now \<le> reap_now" and slot: "hub_panes h pane = Some slot"
    and g: "g = snd (reap_expired iter finished reap_now (snd (begin_close (slot_token slot) 0 close_now h)))"
  shows "hub_panes g pane = None" and "hub_counter g = hub_counter h"
proof -
  have tp: "token_pane (slot_token slot) = pane" using assms(1) slot by (auto simp: hub_ok_def slots_ok_def)
  define h1 where "h1 = snd (begin_close (slot_token slot) 0 close_now h)"
  have h1: "hub_panes h1 pane = Some (slot\<lparr>slot_handle := request_close (slot_handle slot), close_deadline := Some close_now\<rparr>)"
    "hub_counter h1 = hub_counter h"
    using slot tp by (auto simp: h1_def begin_close_def checked_add_instant_def)
  have ok1: "hub_ok h1" unfolding h1_def using assms(1) by (rule begin_close_op.keeps)
  have "pane \<in> set (iter (dom (hub_panes h1)))"
    using key_order.iter_keys [OF assms(2) hub_ok_finite [OF ok1]] h1 by auto
  moreover have "expired_pane reap_now h1 pane" using h1 assms(3) by (simp add: expired_pane_def)
  ultimately show "hub_panes g pane = None"
    by (simp add: g h1_def [symmetric] reap_expired_def Let_def reap_finished_def fold_reap_panes)
  show "hub_counter g = hub_counter h"
    by (simp add: g h1_def [symmetric] reap_expired_def Let_def reap_finished_def fold_reap_counter h1)
qed

lemma open_pane_Ok:
  assumes "hub_panes h pane = None" and "hub_counter h \<noteq> 0" and "hub_counter h \<le> u64_max"
  shows "\<exists>handle h'. open_pane pane config True h = (Ok handle, h') \<and>
    handle_token handle = \<lparr>token_pane = pane, token_generation = hub_counter h\<rparr> \<and> is_current h' (handle_token handle)"
proof -
  obtain r c where t: "issue_token pane (hub_counter h) = (r, c)" by fastforce
  from issue_token_cases [OF t assms(3)] assms(2) obtain token
    where "r = Ok token" "token_pane token = pane" "token_generation token = hub_counter h" by auto
  moreover from this have "token = \<lparr>token_pane = pane, token_generation = hub_counter h\<rparr>" by simp
  ultimately show ?thesis using assms(1) t by (simp add: open_pane_def is_current_def Let_def)
qed

lemma restart_Ok:
  assumes ok: "hub_ok h" and "key_order iter" and "close_now \<le> reap_now" and "hub_counter h \<noteq> 0"
  obtains handle h' where "restart_pane iter finished close_now reap_now pane config True h = (Ok handle, h')"
    and "handle_token handle = \<lparr>token_pane = pane, token_generation = hub_counter h\<rparr>"
    and "is_current h' (handle_token handle)"
proof -
  define g where "g = (case hub_panes h pane of None \<Rightarrow> h
    | Some slot \<Rightarrow> snd (reap_expired iter finished reap_now (snd (begin_close (slot_token slot) 0 close_now h))))"
  have g: "hub_panes g pane = None \<and> hub_counter g = hub_counter h"
  proof (cases "hub_panes h pane")
    case (Some slot)
    then have "g = snd (reap_expired iter finished reap_now (snd (begin_close (slot_token slot) 0 close_now h)))"
      by (simp add: g_def)
    from restart_clears [OF ok assms(2,3) Some this] show ?thesis by simp
  qed (simp add: g_def)
  then obtain handle h2 where o: "open_pane pane config True g = (Ok handle, h2)"
    and tok: "handle_token handle = \<lparr>token_pane = pane, token_generation = hub_counter h\<rparr>"
    and cur: "is_current h2 (handle_token handle)"
    using open_pane_Ok [of g pane config] assms(4) ok by (auto simp: hub_ok_def)
  obtain h' where r: "restart_pane iter finished close_now reap_now pane config True h = (Ok handle, h')"
    and panes: "hub_panes h' = hub_panes h2"
    unfolding restart_pane_def g_def [symmetric] Let_def o by (auto split: option.splits)
  moreover have "is_current h' (handle_token handle)" using cur by (simp add: is_current_def panes)
  ultimately show thesis using that tok by blast
qed

text \<open>
  when the clock does not run backwards and generations are left, a restart whose threads can be
  spawned succeeds: the new handle has a generation that was never issued and is the current one of
  the pane, and no generation that was current before still reaches the pane.
\<close>

theorem restart_gives_fresh_generation:
  assumes "c \<le> u64_max" and "hub_steps (hub_new c) h" and "key_order iter" and "close_now \<le> reap_now"
    and "hub_counter h \<noteq> 0"
  shows "\<exists>handle h'. restart_pane iter finished close_now reap_now pane config True h = (Ok handle, h') \<and>
    is_current h' (handle_token handle) \<and> token_pane (handle_token handle) = pane \<and>
    (\<forall>t. is_current h t \<longrightarrow> token_generation t < token_generation (handle_token handle)) \<and>
    (\<forall>t. is_current h t \<and> token_pane t = pane \<longrightarrow> \<not> is_current h' t)"
proof -
  have ok: "hub_ok h" using assms(2,1) by (rule hub_reachable_ok)
  obtain handle h' where r: "restart_pane iter finished close_now reap_now pane config True h = (Ok handle, h')"
    and tok: "handle_token handle = \<lparr>token_pane = pane, token_generation = hub_counter h\<rparr>"
    and cur: "is_current h' (handle_token handle)"
    using restart_Ok [OF ok assms(3-5)] by blast
  have less: "token_generation t < token_generation (handle_token handle)" if "is_current h t" for t
    using current_issued [OF ok that] assms(5) by (simp add: tok)
  moreover have "\<not> is_current h' t" if "is_current h t" "token_pane t = pane" for t
    using less [OF that(1)] cur that(2) tok
    by (metis less_irrefl option.inject pane_token.select_convs(1) slot_tokens_current)
  ultimately show ?thesis using r cur tok by auto
qed

section \<open>A close kept for a generation that was restarted\<close>

lemma remove_order_pending [simp]: "pending_closed (reap_pane q h) = pending_closed h"
  by (simp add: reap_pane_def split: option.splits)

lemma fold_reap_pending: "pending_closed (fold reap_pane qs h) = pending_closed h"
  by (induction qs arbitrary: h) simp_all

lemma open_pending: "pending_closed (snd (open_pane pane config spawned h)) = pending_closed h"
  by (auto simp: open_pane_def Let_def split: prod.splits outcome.splits)

lemma restart_pending:
  "pending_closed (snd (restart_pane iter finished close_now reap_now pane config spawned h)) = pending_closed h"
proof -
  have "pending_closed (snd (begin_close t d now h)) = pending_closed h" for t d now
    by (simp add: begin_close_def split: option.splits)
  then have p: "pending_closed (snd (reap_expired iter finished reap_now (snd (begin_close t d now h)))) = pending_closed h" for t d now
    by (simp add: reap_expired_def Let_def reap_finished_def fold_reap_pending)
  show ?thesis
  proof (cases "hub_panes h pane")
    case None
    then show ?thesis
      using open_pending [of pane config spawned h]
      by (auto simp: restart_pane_def Let_def split: option.splits prod.splits outcome.splits)
  next
    case (Some slot)
    let ?g = "snd (reap_expired iter finished reap_now (snd (begin_close (slot_token slot) 0 close_now h)))"
    have "pending_closed ?g = pending_closed h" by (rule p)
    with Some show ?thesis
      using open_pending [of pane config spawned ?g]
      by (auto simp: restart_pane_def Let_def split: option.splits prod.splits outcome.splits)
  qed
qed

lemma stale_close:
  assumes "hub_ok h" and "dom (pending_closed h) = {t}" and "is_current h t'" and "t' \<noteq> t" and "token_pane t' = token_pane t"
  obtains n h' where "try_recv_notice token_keys finished h = (Ok n, h')" and "is_closed_notice n"
    and "notice_pane n = t" and "\<not> is_current h' t'"
proof -
  obtain n where n: "pending_closed h t = Some n" using assms(2) by auto
  then have c: "is_closed_notice n" "notice_pane n = t" using assms(1) by (auto simp: hub_ok_def pending_ok_def)
  have "drained_token h t" using assms(3-5) by (auto simp: drained_token_def is_current_def split: option.splits)
  then have f: "List.find (drained_token h) (token_keys (dom (pending_closed h))) = Some t"
    by (simp add: assms(2) token_keys_def)
  let ?g = "h\<lparr>pending_closed := (pending_closed h)(t := None)\<rparr>"
  have "try_recv_notice token_keys finished h = (Ok n, finish_closed_slot finished n ?g)"
    unfolding try_recv_notice_def take_drained_close_def f by (simp add: n)
  moreover have "hub_ok ?g" using assms(1) by (auto simp: hub_ok_defs)
  then have "\<not> is_current (finish_closed_slot finished n ?g) t'"
    using finish_closed_gone [of ?g n finished] c assms(5) by (simp add: is_current_def)
  ultimately show thesis using that c by blast
qed

definition demo_limits :: mailbox_limits where
  "demo_limits = \<lparr>max_items = 4, max_bytes = 1000\<rparr>"

definition demo_config :: pane_worker_config where
  "demo_config = \<lparr>cfg_size = \<lparr>size_columns = 80, size_rows = 24\<rparr>, inbox_limits = demo_limits, effect_limits = demo_limits,
     cfg_batch_policy = \<lparr>policy_bytes = 65536, policy_items = 64, policy_latency = 1000\<rparr>,
     capture_host_stream = False, capture_visible_output = False\<rparr>"

text \<open>A pane is opened, its worker publishes a frame and exits, and the host reads the close.\<close>

definition demo_opened :: "unit hub" where
  "demo_opened = snd (open_pane 1 demo_config True (hub_new 1))"

definition demo_published :: "unit hub" where
  "demo_published = demo_opened\<lparr>hub_panes := (hub_panes demo_opened)(1 \<mapsto>
     (the (hub_panes demo_opened 1))\<lparr>slot_publication := (slot_publication (the (hub_panes demo_opened 1)))
       \<lparr>pub_latest := slot_new\<lparr>latest := Some demo_frame, wake_pending := True\<rparr>\<rparr>,
       slot_handle := slot_handle (the (hub_panes demo_opened 1))\<rparr>)\<rparr>"

definition demo_exited :: "unit hub" where
  "demo_exited = demo_published\<lparr>hub_notices := bounded_mailbox\<lparr>queue :=
     [\<lparr>entry_value = Notice_Closed demo_token None, reserved_bytes = 0\<rparr>]\<rparr>\<rparr>"

definition demo_pending :: "unit hub" where
  "demo_pending = snd (try_recv_notice token_keys (\<lambda>_. False) demo_exited)"

lemma demo_opened_eq:
  "hub_panes demo_opened = [1 \<mapsto> \<lparr>slot_token = demo_token,
     slot_handle = \<lparr>handle_token = demo_token, handle_limits = demo_limits, handle_accepting = True, handle_inbox = bounded_mailbox\<rparr>,
     slot_publication = publication_new demo_limits, slot_join = True, close_deadline = None\<rparr>]"
  "pending_closed demo_opened = Map.empty" "hub_counter demo_opened = 2"
  by (simp_all add: demo_opened_def open_pane_def hub_new_def issue_token_def issue_pane_generation_def
      next_generation_def checked_add_u64_def int_bounds demo_config_def demo_token_def Let_def)

lemma demo_pending_eq:
  "pending_closed demo_pending = [demo_token \<mapsto> Notice_Closed demo_token None]" "hub_counter demo_pending = 2"
  "is_current demo_pending demo_token"
  by (simp_all add: demo_pending_def demo_exited_def demo_published_def demo_opened_eq try_recv_notice_def
      take_drained_close_def token_keys_def recv_loop.simps try_recv_simps is_current_def notice_has_work_def
      has_work_def has_value_def demo_token_def Let_def)

lemma demo_steps: "hub_steps (hub_new 1) demo_opened" "hub_steps (hub_new 1) demo_pending"
proof -
  show o: "hub_steps (hub_new 1) demo_opened"
    unfolding demo_opened_def by (rule hub_steps.Step [OF hub_steps.Refl hub_step.Open])
  have "hub_step demo_opened demo_published"
    unfolding demo_published_def by (rule hub_step.Worker) (simp add: demo_opened_eq)
  with o have "hub_steps (hub_new 1) demo_published" by (rule hub_steps.Step)
  moreover have "hub_step demo_published demo_exited" unfolding demo_exited_def by (rule hub_step.Worker_Notice)
  ultimately have "hub_steps (hub_new 1) demo_exited" by (rule hub_steps.Step)
  then show "hub_steps (hub_new 1) demo_pending"
    unfolding demo_pending_def by (rule hub_steps.Step) (rule hub_step.Notice)
qed

text \<open>
  C36: a close that was kept while its pane still had work is not dropped when the pane is restarted:
  the next notice the host reads is the close of the old generation, and reading it removes the slot
  of the new one, whose handle has just been given out.
\<close>

theorem stale_close_removes_restarted_pane:
  "\<exists>(h :: unit hub) handle h1 notice h2. hub_steps (hub_new 1) h \<and>
     restart_pane sorted_list_of_set (\<lambda>_. False) 0 0 1 demo_config True h = (Ok handle, h1) \<and>
     is_current h1 (handle_token handle) \<and>
     try_recv_notice token_keys (\<lambda>_. False) h1 = (Ok notice, h2) \<and>
     is_closed_notice notice \<and> notice_pane notice \<noteq> handle_token handle \<and> \<not> is_current h2 (handle_token handle)"
proof -
  have ok: "hub_ok demo_pending" using demo_steps(2) by (rule hub_reachable_ok) (simp add: int_bounds)
  obtain handle h1 where r: "restart_pane sorted_list_of_set (\<lambda>_. False) 0 0 1 demo_config True demo_pending = (Ok handle, h1)"
    and tok: "handle_token handle = \<lparr>token_pane = 1, token_generation = 2\<rparr>" and cur: "is_current h1 (handle_token handle)"
    by (rule restart_Ok [OF ok sorted_keys.key_order_axioms, of 0 0 "\<lambda>_. False" 1 demo_config]) (simp_all add: demo_pending_eq)
  have ok1: "hub_ok h1" using restart_op.keeps [OF ok] r by (metis snd_conv)
  have d: "dom (pending_closed h1) = {demo_token}"
    using restart_pending [of sorted_list_of_set "\<lambda>_. False" 0 0 1 demo_config True demo_pending] r by (simp add: demo_pending_eq)
  have ne: "handle_token handle \<noteq> demo_token" by (simp add: tok demo_token_def)
  obtain n h2 where "try_recv_notice token_keys (\<lambda>_. False) h1 = (Ok n, h2)" "is_closed_notice n"
    "notice_pane n = demo_token" "\<not> is_current h2 (handle_token handle)"
    using stale_close [OF ok1 d cur ne] by (auto simp: tok demo_token_def)
  then show ?thesis using demo_steps(2) r cur ne by metis
qed

section \<open>Witnesses\<close>

lemma demo_published_eq:
  "pane_order demo_published = [1]" "fair_drain_cursor demo_published = 0" "hub_counter demo_published = 2"
  "ready_pane demo_published 1" "hub_panes demo_published 1 = Some \<lparr>slot_token = demo_token,
     slot_handle = \<lparr>handle_token = demo_token, handle_limits = demo_limits, handle_accepting = True, handle_inbox = bounded_mailbox\<rparr>,
     slot_publication = (publication_new demo_limits)\<lparr>pub_latest := slot_new\<lparr>latest := Some demo_frame, wake_pending := True\<rparr>\<rparr>,
     slot_join = True, close_deadline = None\<rparr>"
proof -
  have "pane_order demo_opened = [1]" "fair_drain_cursor demo_opened = 0"
    by (simp_all add: demo_opened_def open_pane_def hub_new_def issue_token_def issue_pane_generation_def
      next_generation_def checked_add_u64_def int_bounds demo_config_def Let_def)
  then show "pane_order demo_published = [1]" "fair_drain_cursor demo_published = 0"
    by (simp_all add: demo_published_def)
qed (simp_all add: demo_published_def demo_opened_eq ready_pane_def has_work_def has_value_def)

lemmas demo_published_simps = demo_published_eq demo_published_eq [unfolded One_nat_def]

lemma demo_published_steps: "hub_steps (hub_new 1) demo_published"
  unfolding demo_published_def
  by (rule hub_steps.Step [OF demo_steps(1)], rule hub_step.Worker) (simp add: demo_opened_eq)

lemma hub_invariant_witness: "fair_drain_cursor demo_published < length (pane_order demo_published)"
  using hub_invariant [OF _ demo_published_steps] by (simp add: int_bounds demo_published_simps)

lemma generation_never_revived_witness:
  "\<not> is_current (hub_shutdown sorted_list_of_set demo_published) demo_token \<and>
   fst (drain_pane demo_token 3 (hub_shutdown sorted_list_of_set demo_published)) = None"
proof -
  have c: "is_current demo_published demo_token" by (simp add: is_current_def demo_token_def demo_published_simps)
  have n: "\<not> is_current (hub_shutdown sorted_list_of_set demo_published) demo_token"
    by (simp add: is_current_def hub_shutdown_def)
  have s: "hub_steps demo_published (hub_shutdown sorted_list_of_set demo_published)"
    by (rule hub_steps.Step [OF hub_steps.Refl hub_step.Shutdown])
  show ?thesis
    using generation_never_revived [OF _ demo_published_steps c s n hub_steps.Refl, of 3 0 0] by (simp add: int_bounds)
qed

lemma fair_drain_exact_witness:
  "map fst (fst (drain_ready_fair 2 5 demo_published)) = [demo_token]"
  using fair_drain_exact [OF _ demo_published_steps, of 2 5]
  by (simp add: int_bounds demo_published_simps drain_of_def)

lemma fair_drain_no_starvation_witness:
  "\<exists>k. k * 1 < (1 :: nat) \<and> 1 \<in> set (drained_keys (fst (drain_ready_fair 1 5 demo_published)))"
proof -
  have ok: "hub_ok demo_published" using demo_published_steps by (rule hub_reachable_ok) (simp add: int_bounds)
  have c: "fair_drain_cursor demo_published = fair_drain_cursor (snd (drain_ready_fair 1 5 demo_published))"
    by (simp add: drain_ready_fair_spec [OF ok] demo_published_simps)
  show ?thesis
    using fair_drain_no_starvation [of "\<lambda>_. demo_published" 1 5 0, OF ok refl c]
    by (simp add: demo_published_simps)
qed

definition demo_closing :: "unit hub" where
  "demo_closing = demo_opened\<lparr>hub_notices := bounded_mailbox\<lparr>queue :=
     [\<lparr>entry_value = Notice_Closed demo_token None, reserved_bytes = 0\<rparr>]\<rparr>\<rparr>"

lemma close_announced_after_drain_witness:
  "fst (try_recv_notice token_keys (\<lambda>_. True) demo_closing) = Ok (Notice_Closed demo_token None) \<and>
   hub_panes (snd (try_recv_notice token_keys (\<lambda>_. True) demo_closing)) 1 = None"
proof -
  have s: "hub_steps (hub_new 1) demo_closing"
    unfolding demo_closing_def by (rule hub_steps.Step [OF demo_steps(1) hub_step.Worker_Notice])
  have r: "fst (try_recv_notice token_keys (\<lambda>_. True) demo_closing) = Ok (Notice_Closed demo_token None)"
    by (simp add: demo_closing_def demo_opened_eq try_recv_notice_def take_drained_close_def token_keys_def
        recv_loop.simps try_recv_simps is_current_def notice_has_work_def has_work_def has_value_def demo_token_def
        Let_def publication_new_def slot_new_def mailbox_metrics_of_def bounded_mailbox_def)
  then have "try_recv_notice token_keys (\<lambda>_. True) demo_closing =
      (Ok (Notice_Closed demo_token None), snd (try_recv_notice token_keys (\<lambda>_. True) demo_closing))"
    by (metis prod.collapse)
  from close_announced_after_drain [OF _ s this] r show ?thesis by (simp add: int_bounds demo_token_def)
qed

lemma restart_gives_fresh_generation_witness:
  "\<exists>handle h'. restart_pane sorted_list_of_set (\<lambda>_. True) 5 5 1 demo_config True demo_published = (Ok handle, h') \<and>
     is_current h' (handle_token handle) \<and> \<not> is_current h' demo_token"
proof -
  have c: "is_current demo_published demo_token \<and> token_pane demo_token = 1"
    by (simp add: is_current_def demo_token_def demo_published_simps)
  obtain handle h' where "restart_pane sorted_list_of_set (\<lambda>_. True) 5 5 1 demo_config True demo_published = (Ok handle, h')"
    "is_current h' (handle_token handle)"
    "\<forall>t. is_current demo_published t \<and> token_pane t = 1 \<longrightarrow> \<not> is_current h' t"
    using restart_gives_fresh_generation [OF _ demo_published_steps sorted_keys.key_order_axioms, of 5 5 "\<lambda>_. True" 1 demo_config]
    by (auto simp: int_bounds demo_published_simps)
  then show ?thesis using c by blast
qed

end
