(* ===== verification/Visible_Output.thy ===== *)
theory Visible_Output
  imports Utf8 "HOL-Library.Word"
begin

text \<open>
  The filter that keeps the visible bytes of a terminal stream and drops its controls,
  \<open>rssh-runtime/src/visible_output.rs\<close>: a state machine over bytes. A function of one byte gives the
  next state and the bytes it appends.
\<close>

unbundle bit_operations_syntax

datatype visible_output_state =
    Ground
  | Utf8C1Lead
  | Utf8Text u8
  | Escape
  | Csi
  | Osc
  | OscEscape
  | OscUtf8C1
  | StString
  | StStringEscape
  | StStringUtf8C1

definition is_utf8_continuation :: "u8 \<Rightarrow> bool" where
  "is_utf8_continuation b \<longleftrightarrow> b AND 0xC0 = 0x80"

definition process_ground_byte :: "u8 \<Rightarrow> visible_output_state \<times> u8 list" where
  "process_ground_byte b =
     (if b \<in> {0x07, 0x00, 0x18, 0x1A} then (Ground, [])
      else if b = 0x1B then (Escape, [])
      else if b = 0xC2 then (Utf8C1Lead, [])
      else if 0xC3 \<le> b \<and> b \<le> 0xDF then (Utf8Text 1, [b])
      else if 0xE0 \<le> b \<and> b \<le> 0xEF then (Utf8Text 2, [b])
      else if 0xF0 \<le> b \<and> b \<le> 0xF4 then (Utf8Text 3, [b])
      else if b \<in> {0x90, 0x98, 0x9E, 0x9F} then (StString, [])
      else if b = 0x9B then (Csi, [])
      else if b = 0x9D then (Osc, [])
      else (Ground, [b]))"

definition process_c1_control :: "u8 \<Rightarrow> visible_output_state" where
  "process_c1_control b =
     (if b \<in> {0x90, 0x98, 0x9E, 0x9F} then StString else if b = 0x9B then Csi else if b = 0x9D then Osc else Ground)"

definition process_utf8_c1_byte :: "u8 \<Rightarrow> visible_output_state \<times> u8 list" where
  "process_utf8_c1_byte b =
     (if 0x80 \<le> b \<and> b \<le> 0x9F then (process_c1_control b, [])
      else case process_ground_byte b of (s, out) \<Rightarrow> (s, 0xC2 # out))"

definition process_utf8_text_byte :: "u8 \<Rightarrow> u8 \<Rightarrow> visible_output_state \<times> u8 list" where
  "process_utf8_text_byte remaining b =
     (if is_utf8_continuation b then (if 1 < remaining then Utf8Text (remaining - 1) else Ground, [b])
      else process_ground_byte b)"

definition process_escape_byte :: "u8 \<Rightarrow> visible_output_state" where
  "process_escape_byte b =
     (if b = 0x5B then Csi else if b = 0x5D then Osc else if b \<in> {0x50, 0x58, 0x5E, 0x5F} then StString else Ground)"

definition process_csi_byte :: "u8 \<Rightarrow> visible_output_state" where
  "process_csi_byte b = (if b = 0x18 \<or> b = 0x1A \<or> 0x40 \<le> b \<and> b \<le> 0x7E then Ground else Csi)"

definition process_osc_byte :: "u8 \<Rightarrow> visible_output_state" where
  "process_osc_byte b =
     (if b \<in> {0x07, 0x9C, 0x18, 0x1A} then Ground else if b = 0x1B then OscEscape else if b = 0xC2 then OscUtf8C1 else Osc)"

definition process_osc_escape_byte :: "u8 \<Rightarrow> visible_output_state" where
  "process_osc_escape_byte b = (if b = 0x5C then Ground else process_osc_byte b)"

definition process_osc_utf8_c1_byte :: "u8 \<Rightarrow> visible_output_state" where
  "process_osc_utf8_c1_byte b = (if b = 0x9C then Ground else process_osc_byte b)"

definition process_st_string_byte :: "u8 \<Rightarrow> visible_output_state" where
  "process_st_string_byte b =
     (if b \<in> {0x9C, 0x18, 0x1A} then Ground else if b = 0x1B then StStringEscape else if b = 0xC2 then StStringUtf8C1
      else StString)"

definition process_st_string_escape_byte :: "u8 \<Rightarrow> visible_output_state" where
  "process_st_string_escape_byte b = (if b = 0x5C then Ground else process_st_string_byte b)"

definition process_st_string_utf8_c1_byte :: "u8 \<Rightarrow> visible_output_state" where
  "process_st_string_utf8_c1_byte b = (if b = 0x9C then Ground else process_st_string_byte b)"

fun process_byte :: "visible_output_state \<Rightarrow> u8 \<Rightarrow> visible_output_state \<times> u8 list" where
  "process_byte Ground b = process_ground_byte b"
| "process_byte Utf8C1Lead b = process_utf8_c1_byte b"
| "process_byte (Utf8Text remaining) b = process_utf8_text_byte remaining b"
| "process_byte Escape b = (process_escape_byte b, [])"
| "process_byte Csi b = (process_csi_byte b, [])"
| "process_byte Osc b = (process_osc_byte b, [])"
| "process_byte OscEscape b = (process_osc_escape_byte b, [])"
| "process_byte OscUtf8C1 b = (process_osc_utf8_c1_byte b, [])"
| "process_byte StString b = (process_st_string_byte b, [])"
| "process_byte StStringEscape b = (process_st_string_escape_byte b, [])"
| "process_byte StStringUtf8C1 b = (process_st_string_utf8_c1_byte b, [])"

fun process_bytes :: "visible_output_state \<Rightarrow> u8 list \<Rightarrow> visible_output_state \<times> u8 list" where
  "process_bytes s [] = (s, [])"
| "process_bytes s (b # bs) =
     (case process_byte s b of (s1, out) \<Rightarrow> case process_bytes s1 bs of (s2, outs) \<Rightarrow> (s2, out @ outs))"

definition byte_requires_visible_state_machine :: "u8 \<Rightarrow> bool" where
  "byte_requires_visible_state_machine b \<longleftrightarrow>
     b \<in> {0x00, 0x07, 0x18, 0x1A, 0x1B, 0x90, 0x98, 0x9B, 0x9D, 0x9E, 0x9F} \<or> 0xC2 \<le> b \<and> b \<le> 0xF4"

text \<open>\<open>process_into\<close>, with the bytes appended to the caller's buffer as result.\<close>

definition process_into :: "visible_output_state \<Rightarrow> u8 list \<Rightarrow> visible_output_state \<times> u8 list" where
  "process_into s bs =
     (if s = Ground \<and> \<not> list_ex byte_requires_visible_state_machine bs then (s, bs) else process_bytes s bs)"

section \<open>Streaming\<close>

text \<open>
  A transducer that is run chunk by chunk: what it appends and where it ends does not depend on how
  the stream is cut.
\<close>

locale stream_filter =
  fixes run :: "'s \<Rightarrow> 'b list \<Rightarrow> 's \<times> 'c list"
  assumes run_Nil: "run s [] = (s, [])"
    and run_append: "run s (a @ b) = (case run s a of (s1, x) \<Rightarrow> case run s1 b of (s2, y) \<Rightarrow> (s2, x @ y))"
begin

fun run_chunks :: "'s \<Rightarrow> 'b list list \<Rightarrow> 's \<times> 'c list" where
  "run_chunks s [] = (s, [])"
| "run_chunks s (c # cs) = (case run s c of (s1, x) \<Rightarrow> case run_chunks s1 cs of (s2, y) \<Rightarrow> (s2, x @ y))"

lemma run_chunks_concat: "run_chunks s cs = run s (concat cs)"
  by (induction cs arbitrary: s) (simp_all add: run_Nil run_append)

lemma same_stream: "concat cs = concat ds \<Longrightarrow> run_chunks s cs = run_chunks s ds"
  by (simp add: run_chunks_concat)

end

lemma process_bytes_append:
  "process_bytes s (a @ b) = (case process_bytes s a of (s1, x) \<Rightarrow> case process_bytes s1 b of (s2, y) \<Rightarrow> (s2, x @ y))"
  by (induction a arbitrary: s) (simp_all split: prod.splits)

interpretation bytewise: stream_filter process_bytes
  by unfold_locales (simp_all add: process_bytes_append)

lemma plain_byte: "\<not> byte_requires_visible_state_machine b \<Longrightarrow> process_ground_byte b = (Ground, [b])"
  by (auto simp: byte_requires_visible_state_machine_def process_ground_byte_def)

lemma plain_bytes: "\<not> list_ex byte_requires_visible_state_machine bs \<Longrightarrow> process_bytes Ground bs = (Ground, bs)"
  by (induction bs) (auto simp: plain_byte)

lemma process_into_eq: "process_into s bs = process_bytes s bs"
  by (simp add: process_into_def plain_bytes)

interpretation visible: stream_filter process_into
  by unfold_locales (simp_all add: process_into_eq process_bytes_append)

text \<open>One call of \<open>process_into\<close> on the filter and the buffer it appends to.\<close>

definition visible_feed :: "u8 list \<Rightarrow> visible_output_state \<times> u8 list \<Rightarrow> visible_output_state \<times> u8 list" where
  "visible_feed chunk f = (case f of (s, out) \<Rightarrow> case process_into s chunk of (s1, x) \<Rightarrow> (s1, out @ x))"

lemma visible_feed_all:
  "fold visible_feed cs (s, out) = (case process_into s (concat cs) of (s1, x) \<Rightarrow> (s1, out @ x))"
proof (induction cs arbitrary: s out)
  case Nil
  then show ?case by (simp add: visible.run_Nil)
next
  case (Cons c cs)
  then show ?case by (simp add: visible_feed_def visible.run_append split: prod.splits)
qed

text \<open>
  C38: feeding a stream in chunks, each on the path the filter chooses for it, gives the state and the
  visible bytes of the state machine run byte by byte over the whole stream: neither the cuts nor
  the shortcut for plain chunks can be observed.
\<close>

theorem visible_output_chunk_independent: "fold visible_feed cs (s, []) = process_bytes s (concat cs)"
  by (simp add: visible_feed_all process_into_eq)

section \<open>Visible text and hidden controls\<close>

lemma and_push_bit: "b AND push_bit n k = push_bit n (drop_bit n b AND (k :: nat))"
  by (auto simp: bit_eq_iff bit_simps)

lemma and_192: "b AND (192 :: nat) = 64 * (b div 64 mod 4)"
proof -
  have "b AND (192 :: nat) = b AND push_bit 6 3" by (simp add: push_bit_eq_mult)
  also have "\<dots> = push_bit 6 (drop_bit 6 b AND 3)" by (rule and_push_bit)
  also have "drop_bit 6 b AND (3 :: nat) = take_bit 2 (drop_bit 6 b)"
    by (simp add: take_bit_eq_mask mask_eq_exp_minus_1)
  finally show ?thesis by (simp add: push_bit_eq_mult drop_bit_eq_div take_bit_eq_mod)
qed

lemma continuation_128 [simp]: "is_utf8_continuation (128 + n mod 64)"
  by (simp add: is_utf8_continuation_def and_192 div_add1_eq)

text \<open>A character of visible text: neither one of the five controls the filter drops nor a C1 control.\<close>

definition printable :: "nat \<Rightarrow> bool" where
  "printable c \<longleftrightarrow> is_scalar c \<and> c \<notin> {0x00, 0x07, 0x18, 0x1A, 0x1B} \<and> \<not> (0x80 \<le> c \<and> c \<le> 0x9F)"

lemma printable_char:
  assumes "printable c"
  shows "process_bytes Ground (encode_char c) = (Ground, encode_char c)"
proof -
  consider "c < 0x80" | "0x80 \<le> c" "c < 0xC0" | "0xC0 \<le> c" "c < 0x800" | "0x800 \<le> c" "c < 0x10000"
    | "0x10000 \<le> c" "c < 0x110000"
    using assms unfolding printable_def is_scalar_def by linarith
  then show ?thesis
  proof cases
    case 1
    with assms show ?thesis by (auto simp: encode_char_def printable_def process_ground_byte_def)
  next
    case 2
    then have "c div 64 = 2" "0xA0 \<le> c" using assms by (auto simp: printable_def)
    moreover from this have "128 + c mod 64 = c" using div_mult_mod_eq [of c 64] by linarith
    ultimately show ?thesis using 2
      by (auto simp: encode_char_def process_ground_byte_def process_utf8_c1_byte_def)
  next
    case 3
    then have "3 \<le> c div 64" "c div 64 \<le> 31" by auto
    with 3 show ?thesis by (auto simp: encode_char_def process_ground_byte_def process_utf8_text_byte_def)
  next
    case 4
    then have "c div 4096 \<le> 15" by auto
    with 4 show ?thesis by (auto simp: encode_char_def process_ground_byte_def process_utf8_text_byte_def)
  next
    case 5
    then have "c div 262144 \<le> 4" by auto
    with 5 show ?thesis by (auto simp: encode_char_def process_ground_byte_def process_utf8_text_byte_def)
  qed
qed

lemma printable_text: "list_all printable s \<Longrightarrow> process_bytes Ground (as_bytes s) = (Ground, as_bytes s)"
  by (induction s) (simp_all add: process_bytes_append printable_char)

text \<open>
  The controls the filter is meant to drop, by their grammar: escapes of two bytes, control
  sequences, and control strings closed by one of their terminators.
\<close>

definition csi_intros :: "u8 list list" where "csi_intros = [[0x1B, 0x5B], [0x9B], [0xC2, 0x9B]]"

definition osc_intros :: "u8 list list" where "osc_intros = [[0x1B, 0x5D], [0x9D], [0xC2, 0x9D]]"

definition st_intros :: "u8 list list" where
  "st_intros = [[0x1B, 0x50], [0x1B, 0x58], [0x1B, 0x5E], [0x1B, 0x5F], [0x90], [0x98], [0x9E], [0x9F],
     [0xC2, 0x90], [0xC2, 0x98], [0xC2, 0x9E], [0xC2, 0x9F]]"

definition st_ends :: "u8 list list" where
  "st_ends = [[0x1B, 0x5C], [0x9C], [0xC2, 0x9C], [0x18], [0x1A]]"

inductive control :: "u8 list \<Rightarrow> bool" where
  Esc: "b \<notin> {0x5B, 0x5D, 0x50, 0x58, 0x5E, 0x5F} \<Longrightarrow> control [0x1B, b]"
| Csi: "i \<in> set csi_intros \<Longrightarrow> list_all (\<lambda>b. 0x20 \<le> b \<and> b \<le> 0x3F) ps \<Longrightarrow> 0x40 \<le> f \<Longrightarrow> f \<le> 0x7E
    \<Longrightarrow> control (i @ ps @ [f])"
| Osc: "i \<in> set osc_intros \<Longrightarrow> list_all (\<lambda>b. b \<notin> {0x07, 0x18, 0x1A, 0x1B, 0x9C, 0xC2}) ps \<Longrightarrow>
    e \<in> set ([0x07] # st_ends) \<Longrightarrow> control (i @ ps @ e)"
| St: "i \<in> set st_intros \<Longrightarrow> list_all (\<lambda>b. b \<notin> {0x18, 0x1A, 0x1B, 0x9C, 0xC2}) ps \<Longrightarrow>
    e \<in> set st_ends \<Longrightarrow> control (i @ ps @ e)"

lemma csi_params: "list_all (\<lambda>b. 0x20 \<le> b \<and> b \<le> 0x3F) ps \<Longrightarrow> process_bytes Csi ps = (Csi, [])"
  by (induction ps) (auto simp: process_csi_byte_def)

lemma osc_payload: "list_all (\<lambda>b. b \<notin> {0x07, 0x18, 0x1A, 0x1B, 0x9C, 0xC2}) ps \<Longrightarrow> process_bytes Osc ps = (Osc, [])"
  by (induction ps) (auto simp: process_osc_byte_def)

lemma st_payload: "list_all (\<lambda>b. b \<notin> {0x18, 0x1A, 0x1B, 0x9C, 0xC2}) ps \<Longrightarrow> process_bytes StString ps = (StString, [])"
  by (induction ps) (auto simp: process_st_string_byte_def)

lemmas byte_defs = process_ground_byte_def process_c1_control_def process_utf8_c1_byte_def process_escape_byte_def
  process_csi_byte_def process_osc_byte_def process_osc_escape_byte_def process_osc_utf8_c1_byte_def
  process_st_string_byte_def process_st_string_escape_byte_def process_st_string_utf8_c1_byte_def

lemma intro_states:
  "i \<in> set csi_intros \<Longrightarrow> process_bytes Ground i = (Csi, [])"
  "i \<in> set osc_intros \<Longrightarrow> process_bytes Ground i = (Osc, [])"
  "i \<in> set st_intros \<Longrightarrow> process_bytes Ground i = (StString, [])"
  by (auto simp: csi_intros_def osc_intros_def st_intros_def byte_defs)

lemma end_states:
  "e \<in> set ([0x07] # st_ends) \<Longrightarrow> process_bytes Osc e = (Ground, [])"
  "e \<in> set st_ends \<Longrightarrow> process_bytes StString e = (Ground, [])"
  by (auto simp: st_ends_def byte_defs)

lemma control_hidden: "control bs \<Longrightarrow> process_bytes Ground bs = (Ground, [])"
proof (induction rule: control.induct)
  case (Esc b)
  then show ?case by (simp add: process_ground_byte_def process_escape_byte_def)
next
  case (Csi i ps f)
  then show ?case by (simp add: process_bytes_append intro_states csi_params process_csi_byte_def)
next
  case (Osc i ps e)
  then show ?case by (simp only: process_bytes_append intro_states osc_payload end_states prod.case append.simps)
next
  case (St i ps e)
  then show ?case by (simp only: process_bytes_append intro_states st_payload end_states prod.case append.simps)
qed

text \<open>A stream of visible text (\<open>Inl\<close>) and controls (\<open>Inr\<close>).\<close>

fun segment_bytes :: "str + u8 list \<Rightarrow> u8 list" where
  "segment_bytes (Inl s) = as_bytes s"
| "segment_bytes (Inr c) = c"

fun segment_text :: "str + u8 list \<Rightarrow> str" where
  "segment_text (Inl s) = s"
| "segment_text (Inr c) = []"

fun segment_ok :: "str + u8 list \<Rightarrow> bool" where
  "segment_ok (Inl s) = list_all printable s"
| "segment_ok (Inr c) = control c"

lemma segment_shown: "segment_ok g \<Longrightarrow> process_bytes Ground (segment_bytes g) = (Ground, as_bytes (segment_text g))"
  by (cases g) (simp_all add: printable_text control_hidden)

text \<open>
  of a stream of visible text and controls the filter shows exactly the text, in order and with
  its UTF-8 intact.
\<close>

theorem visible_output_shows_text:
  assumes "\<forall>g \<in> set gs. segment_ok g"
  shows "process_into Ground (concat (map segment_bytes gs)) = (Ground, as_bytes (concat (map segment_text gs)))"
  using assms by (induction gs) (simp_all add: process_into_eq process_bytes_append segment_shown)

lemma visible_output_shows_text_witness:
  "process_into Ground ([0x68, 0xC3, 0xA9] @ [0x1B, 0x5B, 0x33, 0x31, 0x6D] @ [0x69]) = (Ground, [0x68, 0xC3, 0xA9, 0x69])"
proof -
  have "control ([0x1B, 0x5B] @ [0x33, 0x31] @ [0x6D])" by (rule control.Csi) (simp_all add: csi_intros_def)
  then show ?thesis
    using visible_output_shows_text [of "[Inl [0x68, 0xE9], Inr [0x1B, 0x5B, 0x33, 0x31, 0x6D], Inl [0x69]]"]
    by (simp add: printable_def is_scalar_def encode_char_def)
qed

text \<open>
  C39: inside a control string the filter takes the byte \<open>9C\<close> for its terminator even where it is the
  middle of a character: a window title with a check mark ends early and its rest becomes visible.
\<close>

theorem visible_output_leaks_title:
  "process_into Ground ([0x1B, 0x5D, 0x30, 0x3B] @ as_bytes [0x2713, 0x20, 0x6F, 0x6B] @ [0x07]) =
     (Ground, [0x93, 0x20, 0x6F, 0x6B])"
  by (simp add: process_into_eq encode_char_def byte_defs)

end
