(* ===== verification/Mode_Scan.thy ===== *)
theory Mode_Scan
  imports Visible_Output Runtime_Api
begin

text \<open>
  The byte searches of \<open>rssh-runtime/src/modes.rs\<close>: subslices that are not inside a UTF-8 character,
  control strings and their terminators, and the part of the input that may still become a
  sequence. A slice \<open>bytes[i..]\<close> is \<open>drop i\<close>; that its index is inside the input is proved below.
\<close>

section \<open>Subslices\<close>

definition utf8_sequence_len :: "u8 \<Rightarrow> nat option" where
  "utf8_sequence_len b =
     (if b \<le> 0x7F then Some 1 else if 0xC2 \<le> b \<and> b \<le> 0xDF then Some 2
      else if 0xE0 \<le> b \<and> b \<le> 0xEF then Some 3 else if 0xF0 \<le> b \<and> b \<le> 0xF4 then Some 4 else None)"

fun continuation_start :: "u8 list \<Rightarrow> nat \<Rightarrow> nat" where
  "continuation_start bytes 0 = 0"
| "continuation_start bytes (Suc i) =
     (if is_utf8_continuation (bytes ! Suc i) then continuation_start bytes i else Suc i)"

definition is_utf8_continuation_in_potential_sequence :: "u8 list \<Rightarrow> nat \<Rightarrow> bool" where
  "is_utf8_continuation_in_potential_sequence bytes index =
     (if index = 0 \<or> length bytes \<le> index \<or> \<not> is_utf8_continuation (bytes ! index) then False
      else let start = continuation_start bytes index in
        if start = index then False
        else case utf8_sequence_len (bytes ! start) of
          None \<Rightarrow> False
        | Some expected_len \<Rightarrow>
            index < start + expected_len \<and>
            list_all is_utf8_continuation (drop (start + 1) (take (index + 1) bytes)))"

definition is_raw_c1_control_byte :: "u8 \<Rightarrow> bool" where
  "is_raw_c1_control_byte b \<longleftrightarrow> 0x80 \<le> b \<and> b \<le> 0x9F"

definition raw_c1_prefix_is_utf8_continuation :: "u8 list \<Rightarrow> nat \<Rightarrow> u8 list \<Rightarrow> bool" where
  "raw_c1_prefix_is_utf8_continuation bytes index prefix \<longleftrightarrow>
     (case prefix of [] \<Rightarrow> False | b # _ \<Rightarrow> is_raw_c1_control_byte b) \<and>
     is_utf8_continuation_in_potential_sequence bytes index"

definition find_subslice :: "u8 list \<Rightarrow> u8 list \<Rightarrow> nat option" where
  "find_subslice haystack needle =
     (if needle = [] then Some 0
      else List.find (\<lambda>i. take (length needle) (drop i haystack) = needle \<and>
             \<not> raw_c1_prefix_is_utf8_continuation haystack i needle)
           [0 ..< Suc (length haystack) - length needle])"

text \<open>\<open>Iterator::min_by_key\<close>: the first of the least elements.\<close>

fun min_by_key :: "('a \<Rightarrow> nat) \<Rightarrow> 'a list \<Rightarrow> 'a option" where
  "min_by_key key [] = None"
| "min_by_key key (x # xs) =
     (case min_by_key key xs of None \<Rightarrow> Some x | Some y \<Rightarrow> if key x \<le> key y then Some x else Some y)"

lemma min_by_key_mem: "min_by_key key xs = Some x \<Longrightarrow> x \<in> set xs"
  by (induction xs arbitrary: x) (auto split: option.splits if_splits)

lemma min_by_key_None: "min_by_key key xs = None \<longleftrightarrow> xs = []"
  by (cases xs) (auto split: option.splits if_splits)

lemma min_by_key_least: "min_by_key key xs = Some x \<Longrightarrow> y \<in> set xs \<Longrightarrow> key x \<le> key y"
  by (induction xs arbitrary: x) (fastforce split: option.splits if_splits simp: min_by_key_None)+

lemma find_subslice_Some:
  assumes "find_subslice haystack needle = Some i" and "needle \<noteq> []"
  shows "i + length needle \<le> length haystack" and "take (length needle) (drop i haystack) = needle"
  using assms by (auto simp: find_subslice_def find_Some_iff)

section \<open>Control strings\<close>

datatype control_string_kind = Kind_Osc | Kind_St

record control_string_start =
  cs_index :: nat
  cs_prefix_len :: nat
  cs_kind :: control_string_kind

record control_string_span =
  span_start :: nat
  span_end :: "nat option"

record control_string_terminator =
  term_index :: nat
  term_length :: nat

definition find_prefixes :: "u8 list \<Rightarrow> (u8 list \<times> 'k) list \<Rightarrow> (nat \<times> 'k) option" where
  "find_prefixes bytes prefixes =
     min_by_key fst (List.map_filter (\<lambda>(p, k). map_option (\<lambda>i. (i, k)) (find_subslice bytes p)) prefixes)"

definition osc_prefixes :: "(u8 list \<times> nat) list" where
  "osc_prefixes = [([0x1B, 0x5D], 2), ([0xC2, 0x9D], 2), ([0x9D], 1)]"

definition st_prefixes :: "(u8 list \<times> nat) list" where
  "st_prefixes = [([0x1B, 0x50], 2), ([0x1B, 0x58], 2), ([0x1B, 0x5E], 2), ([0x1B, 0x5F], 2),
     ([0xC2, 0x90], 2), ([0xC2, 0x98], 2), ([0xC2, 0x9E], 2), ([0xC2, 0x9F], 2),
     ([0x90], 1), ([0x98], 1), ([0x9E], 1), ([0x9F], 1)]"

definition find_next_osc_start :: "u8 list \<Rightarrow> (nat \<times> nat) option" where
  "find_next_osc_start bytes = find_prefixes bytes osc_prefixes"

definition find_next_st_control_string_start :: "u8 list \<Rightarrow> (nat \<times> nat) option" where
  "find_next_st_control_string_start bytes = find_prefixes bytes st_prefixes"

definition find_next_control_string_start :: "u8 list \<Rightarrow> control_string_start option" where
  "find_next_control_string_start bytes =
     (let osc = map_option (\<lambda>(i, n). \<lparr>cs_index = i, cs_prefix_len = n, cs_kind = Kind_Osc\<rparr>) (find_next_osc_start bytes);
          st = map_option (\<lambda>(i, n). \<lparr>cs_index = i, cs_prefix_len = n, cs_kind = Kind_St\<rparr>)
                 (find_next_st_control_string_start bytes)
      in min_by_key cs_index (List.map_filter id [osc, st]))"

function terminator_from :: "u8 list \<Rightarrow> control_string_kind \<Rightarrow> nat \<Rightarrow> control_string_terminator option" where
  "terminator_from bytes kind index =
     (if length bytes \<le> index then None
      else let b = bytes ! index; next = (if Suc index < length bytes then Some (bytes ! Suc index) else None) in
        if b = 0x18 \<or> b = 0x1A then Some \<lparr>term_index = index, term_length = 1\<rparr>
        else if b = 0x07 \<and> kind = Kind_Osc then Some \<lparr>term_index = index, term_length = 1\<rparr>
        else if b = 0x9C \<and> \<not> is_utf8_continuation_in_potential_sequence bytes index
        then Some \<lparr>term_index = index, term_length = 1\<rparr>
        else if b = 0xC2 \<and> next = Some 0x9C then Some \<lparr>term_index = index, term_length = 2\<rparr>
        else if b = 0x1B then
          (case next of
             Some c \<Rightarrow> if c = 0x5C then Some \<lparr>term_index = index, term_length = 2\<rparr>
               else terminator_from bytes kind (index + 1)
           | None \<Rightarrow> None)
        else terminator_from bytes kind (index + 1))"
  by pat_completeness auto
termination by (relation "measure (\<lambda>(bytes, kind, index). length bytes - index)") auto

declare terminator_from.simps [simp del]

definition find_control_string_terminator :: "u8 list \<Rightarrow> control_string_kind \<Rightarrow> control_string_terminator option" where
  "find_control_string_terminator bytes kind = terminator_from bytes kind 0"

lemma terminator_bounds:
  "terminator_from bytes kind i = Some t \<Longrightarrow> i \<le> term_index t \<and> 0 < term_length t \<and> term_index t + term_length t \<le> length bytes"
proof (induction "length bytes - i" arbitrary: i rule: less_induct)
  case less
  show ?case
  proof (cases "length bytes \<le> i")
    case True
    with less.prems show ?thesis by (subst (asm) terminator_from.simps) simp
  next
    case False
    have "terminator_from bytes kind (i + 1) = Some t \<Longrightarrow>
        i \<le> term_index t \<and> 0 < term_length t \<and> term_index t + term_length t \<le> length bytes"
      using less.hyps [of "i + 1"] False by (simp add: diff_less_mono2 Suc_le_eq)
    then show ?thesis
      using less.prems False by (subst (asm) terminator_from.simps) (auto simp: Let_def split: if_splits)
  qed
qed

lemma find_prefixes_Some:
  assumes "find_prefixes bytes ps = Some (i, k)" and "\<forall>p \<in> set (map fst ps). p \<noteq> []"
  obtains p where "(p, k) \<in> set ps" and "find_subslice bytes p = Some i" and "i + length p \<le> length bytes"
proof -
  from assms(1) have "(i, k) \<in> set (List.map_filter (\<lambda>(p, k). map_option (\<lambda>i. (i, k)) (find_subslice bytes p)) ps)"
    unfolding find_prefixes_def by (rule min_by_key_mem)
  then obtain p where p: "(p, k) \<in> set ps" "find_subslice bytes p = Some i"
    by (auto simp: List.map_filter_def)
  moreover have "p \<noteq> []" using p(1) assms(2) by force
  ultimately show thesis using find_subslice_Some(1) that by blast
qed

lemma control_start_prefix:
  assumes "find_next_control_string_start bytes = Some s"
  shows "find_prefixes bytes osc_prefixes = Some (cs_index s, cs_prefix_len s) \<and> cs_kind s = Kind_Osc \<or>
    find_prefixes bytes st_prefixes = Some (cs_index s, cs_prefix_len s) \<and> cs_kind s = Kind_St"
proof -
  from assms have "s \<in> set (List.map_filter id
      [map_option (\<lambda>(i, n). \<lparr>cs_index = i, cs_prefix_len = n, cs_kind = Kind_Osc\<rparr>) (find_next_osc_start bytes),
       map_option (\<lambda>(i, n). \<lparr>cs_index = i, cs_prefix_len = n, cs_kind = Kind_St\<rparr>) (find_next_st_control_string_start bytes)])"
    unfolding find_next_control_string_start_def Let_def by (rule min_by_key_mem)
  then show ?thesis
    unfolding find_next_osc_start_def find_next_st_control_string_start_def
    by (auto simp: List.map_filter_simps split: option.splits)
qed

lemma control_start_bounds:
  assumes "find_next_control_string_start bytes = Some s"
  shows "0 < cs_prefix_len s" and "cs_index s + cs_prefix_len s \<le> length bytes"
proof -
  obtain ps where ps: "ps = osc_prefixes \<or> ps = st_prefixes" "find_prefixes bytes ps = Some (cs_index s, cs_prefix_len s)"
    using control_start_prefix [OF assms] by blast
  have "\<forall>p \<in> set (map fst ps). p \<noteq> []" using ps(1) by (auto simp: osc_prefixes_def st_prefixes_def)
  then obtain p where "(p, cs_prefix_len s) \<in> set ps" "cs_index s + length p \<le> length bytes"
    by (rule find_prefixes_Some [OF ps(2)])
  then have "length p = cs_prefix_len s \<and> p \<noteq> []" "cs_index s + length p \<le> length bytes"
    using ps(1) by (auto simp: osc_prefixes_def st_prefixes_def)
  then show "0 < cs_prefix_len s" "cs_index s + cs_prefix_len s \<le> length bytes"
    by (metis length_greater_0_conv, simp)
qed

function containing_from :: "u8 list \<Rightarrow> nat \<Rightarrow> nat \<Rightarrow> control_string_span option" where
  "containing_from bytes index offset =
     (if length bytes \<le> offset then None
      else case find_next_control_string_start (drop offset bytes) of
        None \<Rightarrow> None
      | Some start \<Rightarrow>
          (let absolute_start = offset + cs_index start in
           if index < absolute_start then None
           else let content_start = absolute_start + cs_prefix_len start in
             case find_control_string_terminator (drop content_start bytes) (cs_kind start) of
               None \<Rightarrow> Some \<lparr>span_start = absolute_start, span_end = None\<rparr>
             | Some t \<Rightarrow>
                 (let e = content_start + term_index t + term_length t in
                  if index < e then Some \<lparr>span_start = absolute_start, span_end = Some e\<rparr>
                  else containing_from bytes index e)))"
  by pat_completeness auto
termination
  by (relation "measure (\<lambda>(bytes, index, offset). length bytes - offset)") (auto dest: control_start_bounds(1))

declare containing_from.simps [simp del]

definition control_string_containing :: "u8 list \<Rightarrow> nat \<Rightarrow> control_string_span option" where
  "control_string_containing bytes index = containing_from bytes index 0"

function incomplete_from :: "u8 list \<Rightarrow> control_string_kind \<Rightarrow> nat \<Rightarrow> nat" where
  "incomplete_from bytes expected_kind offset =
     (if length bytes \<le> offset then 0
      else case find_next_control_string_start (drop offset bytes) of
        None \<Rightarrow> 0
      | Some start \<Rightarrow>
          (let absolute_start = offset + cs_index start; content_start = absolute_start + cs_prefix_len start in
           case find_control_string_terminator (drop content_start bytes) (cs_kind start) of
             None \<Rightarrow> if expected_kind = cs_kind start then length bytes - absolute_start else 0
           | Some t \<Rightarrow> incomplete_from bytes expected_kind (content_start + term_index t + term_length t)))"
  by pat_completeness auto
termination
  by (relation "measure (\<lambda>(bytes, kind, offset). length bytes - offset)") (auto dest: control_start_bounds(1))

declare incomplete_from.simps [simp del]

definition incomplete_control_string_suffix_len :: "u8 list \<Rightarrow> control_string_kind \<Rightarrow> nat" where
  "incomplete_control_string_suffix_len bytes kind = incomplete_from bytes kind 0"

section \<open>Input that may continue\<close>

definition suffix_len_matching_prefix :: "u8 list \<Rightarrow> u8 list \<Rightarrow> nat" where
  "suffix_len_matching_prefix haystack needle =
     (let m = min (length haystack) (length needle - 1) in
      case List.find (\<lambda>n. let suffix_start = length haystack - n in
             drop suffix_start haystack = take n needle \<and>
             \<not> raw_c1_prefix_is_utf8_continuation haystack suffix_start (take n needle)) (rev [1 ..< Suc m]) of
        None \<Rightarrow> 0
      | Some n \<Rightarrow> n)"

definition incomplete_osc_control_sequence_suffix_len :: "u8 list \<Rightarrow> nat" where
  "incomplete_osc_control_sequence_suffix_len bytes =
     max (incomplete_control_string_suffix_len bytes Kind_Osc) (suffix_len_matching_prefix bytes [0x1B, 0x5D])"

definition incomplete_st_control_sequence_suffix_len :: "u8 list \<Rightarrow> nat" where
  "incomplete_st_control_sequence_suffix_len bytes =
     max (max (max (max (incomplete_control_string_suffix_len bytes Kind_St)
       (suffix_len_matching_prefix bytes [0x1B, 0x50])) (suffix_len_matching_prefix bytes [0x1B, 0x58]))
       (suffix_len_matching_prefix bytes [0x1B, 0x5E])) (suffix_len_matching_prefix bytes [0x1B, 0x5F])"

lemma containing_bounds:
  "containing_from bytes index offset = Some span \<Longrightarrow> offset \<le> span_start span \<and> span_start span \<le> index \<and>
     (case span_end span of None \<Rightarrow> True | Some e \<Rightarrow> index < e \<and> span_start span < e \<and> e \<le> length bytes)"
proof (induction bytes index offset rule: containing_from.induct)
  case (1 bytes index offset)
  show ?case
  proof (cases "length bytes \<le> offset")
    case True
    with "1.prems" show ?thesis by (subst (asm) containing_from.simps) simp
  next
    case False
    with "1.prems" obtain start where s: "find_next_control_string_start (drop offset bytes) = Some start"
      by (subst (asm) containing_from.simps) (simp split: option.splits)
    note b = control_start_bounds [OF s]
    let ?a = "offset + cs_index start"
    let ?c = "?a + cs_prefix_len start"
    have a: "?a \<le> index" using "1.prems" False s
      by (subst (asm) containing_from.simps) (auto simp: Let_def split: if_splits)
    show ?thesis
    proof (cases "find_control_string_terminator (drop ?c bytes) (cs_kind start)")
      case None
      then show ?thesis using "1.prems" False s a by (subst (asm) containing_from.simps) (auto simp: Let_def)
    next
      case (Some t)
      then have t: "term_index t + term_length t \<le> length (drop ?c bytes)" "0 < term_length t"
        unfolding find_control_string_terminator_def by (auto dest: terminator_bounds)
      show ?thesis
      proof (cases "index < ?c + term_index t + term_length t")
        case True
        then show ?thesis using "1.prems" False s a Some t b
          by (subst (asm) containing_from.simps) (auto simp: Let_def)
      next
        case w: False
        then have "containing_from bytes index (?c + term_index t + term_length t) = Some span"
          using "1.prems" False s a Some by (subst (asm) containing_from.simps) (simp add: Let_def)
        from "1.IH" [OF False s refl _ refl Some refl w this] a show ?thesis by auto
      qed
    qed
  qed
qed

end
