(* ===== verification/Mode_Tracker.thy ===== *)
theory Mode_Tracker
  imports Mode_Scan
begin

text \<open>
  The terminal modes of a pane, \<open>rssh-runtime/src/modes.rs\<close>: mouse modes and tracked modes as bit
  sets, the stack of keyboard flags, and the tracker that follows the mode sequences of a byte
  stream. A function returns the changes it emits with the tracker it leaves. The counters that
  exist only for tests are left out.
\<close>

section \<open>Mouse modes\<close>

primrec protocol_bits :: "mouse_protocol_mode \<Rightarrow> 8 word" where
  "protocol_bits Mouse_X10 = 0"
| "protocol_bits Mouse_Utf8 = 1"
| "protocol_bits Mouse_Sgr = 2"
| "protocol_bits Mouse_Urxvt = 3"
| "protocol_bits Mouse_SgrPixels = 4"

definition protocol_from_bits :: "8 word \<Rightarrow> mouse_protocol_mode" where
  "protocol_from_bits b =
     (if b = 1 then Mouse_Utf8 else if b = 2 then Mouse_Sgr else if b = 3 then Mouse_Urxvt
      else if b = 4 then Mouse_SgrPixels else Mouse_X10)"

primrec reporting_bits :: "mouse_reporting_mode \<Rightarrow> 8 word" where
  "reporting_bits Reporting_None = 0"
| "reporting_bits Reporting_Normal = 1"
| "reporting_bits Reporting_ButtonEvent = 2"
| "reporting_bits Reporting_AnyEvent = 3"

definition reporting_from_bits :: "8 word \<Rightarrow> mouse_reporting_mode" where
  "reporting_from_bits b =
     (if b = 1 then Reporting_Normal else if b = 2 then Reporting_ButtonEvent
      else if b = 3 then Reporting_AnyEvent else Reporting_None)"

definition mouse_bits :: "mouse_input_mode \<Rightarrow> 8 word" where
  "mouse_bits m = reporting_bits (reporting m) OR push_bit 2 (protocol_bits (protocol m))"

definition mouse_from_bits :: "8 word \<Rightarrow> mouse_input_mode" where
  "mouse_from_bits b =
     \<lparr>reporting = reporting_from_bits (b AND 3), protocol = protocol_from_bits (drop_bit 2 b AND 7)\<rparr>"

definition reporting_enabled :: "mouse_input_mode \<Rightarrow> bool" where
  "reporting_enabled m \<longleftrightarrow> reporting m \<noteq> Reporting_None"

definition mouse_default :: mouse_input_mode where
  "mouse_default = \<lparr>reporting = Reporting_None, protocol = Mouse_X10\<rparr>"

type_synonym mouse_modes = "8 word"

definition mouse_mask :: "u16 \<Rightarrow> mouse_modes option" where
  "mouse_mask mode =
     (if mode = 1000 then Some 1 else if mode = 1002 then Some 2 else if mode = 1003 then Some 4
      else if mode = 1005 then Some 8 else if mode = 1006 then Some 16 else if mode = 1015 then Some 32
      else if mode = 1016 then Some 64 else None)"

definition is_protocol_mode :: "u16 \<Rightarrow> bool" where
  "is_protocol_mode mode \<longleftrightarrow> mode \<in> {1005, 1006, 1015, 1016}"

definition protocol_mask :: mouse_modes where
  "protocol_mask = 8 OR 16 OR 32 OR 64"

definition mouse_set :: "u16 \<Rightarrow> bool \<Rightarrow> mouse_modes \<Rightarrow> bool \<times> mouse_modes" where
  "mouse_set mode enabled s =
     (case mouse_mask mode of
        None \<Rightarrow> (False, s)
      | Some mk \<Rightarrow>
          (True,
           if is_protocol_mode mode
           then (if enabled then (s AND NOT protocol_mask) OR mk else s AND NOT protocol_mask)
           else if enabled then s OR mk else s AND NOT mk))"

definition mouse_input_mode_of :: "mouse_modes \<Rightarrow> mouse_input_mode" where
  "mouse_input_mode_of s =
     \<lparr>reporting =
        (if s AND 4 \<noteq> 0 then Reporting_AnyEvent else if s AND 2 \<noteq> 0 then Reporting_ButtonEvent
         else if s AND 1 \<noteq> 0 then Reporting_Normal else Reporting_None),
      protocol =
        (if s AND 64 \<noteq> 0 then Mouse_SgrPixels else if s AND 16 \<noteq> 0 then Mouse_Sgr
         else if s AND 32 \<noteq> 0 then Mouse_Urxvt else if s AND 8 \<noteq> 0 then Mouse_Utf8 else Mouse_X10)\<rparr>"

primrec reporting_mode_number :: "mouse_reporting_mode \<Rightarrow> u16 option" where
  "reporting_mode_number Reporting_None = None"
| "reporting_mode_number Reporting_Normal = Some 1000"
| "reporting_mode_number Reporting_ButtonEvent = Some 1002"
| "reporting_mode_number Reporting_AnyEvent = Some 1003"

primrec protocol_mode_number :: "mouse_protocol_mode \<Rightarrow> u16 option" where
  "protocol_mode_number Mouse_X10 = None"
| "protocol_mode_number Mouse_Utf8 = Some 1005"
| "protocol_mode_number Mouse_Sgr = Some 1006"
| "protocol_mode_number Mouse_Urxvt = Some 1015"
| "protocol_mode_number Mouse_SgrPixels = Some 1016"

definition mouse_set_opt :: "u16 option \<Rightarrow> mouse_modes \<Rightarrow> mouse_modes" where
  "mouse_set_opt mode s = (case mode of None \<Rightarrow> s | Some m \<Rightarrow> snd (mouse_set m True s))"

definition mouse_install :: "mouse_input_mode \<Rightarrow> mouse_modes" where
  "mouse_install m = mouse_set_opt (protocol_mode_number (protocol m)) (mouse_set_opt (reporting_mode_number (reporting m)) 0)"

definition mode_report_value :: "bool \<Rightarrow> u8" where
  "mode_report_value enabled = (if enabled then 1 else 2)"

definition mouse_report_value :: "u16 \<Rightarrow> mouse_modes \<Rightarrow> u8 option" where
  "mouse_report_value mode s = map_option (\<lambda>mk. mode_report_value (s AND mk \<noteq> 0)) (mouse_mask mode)"

section \<open>Keyboard flags\<close>

datatype kitty_keyboard_operation = Op_Push | Op_Pop | Op_Apply

datatype kitty_keyboard_apply_mode = Apply_Replace | Apply_Set | Apply_Reset

record kitty_keyboard_mode =
  kitty_operation :: kitty_keyboard_operation
  kitty_value :: u16
  kitty_apply_mode :: kitty_keyboard_apply_mode

record key_modifier_options =
  kmo_resource :: "u16 option"
  kmo_value :: "u16 option"

record private_mode_sequence =
  pms_modes :: "u16 list"
  pms_enabled :: bool

record kitty_keyboard_modes =
  kitty_flags :: u16
  kitty_stack :: "u16 list"

definition kitty_default :: kitty_keyboard_modes where
  "kitty_default = \<lparr>kitty_flags = 0, kitty_stack = []\<rparr>"

text \<open>The top of the stack is the end of the vector.\<close>

definition kitty_push :: "u16 \<Rightarrow> kitty_keyboard_modes \<Rightarrow> kitty_keyboard_modes" where
  "kitty_push flags k =
     (let stack = (if length (kitty_stack k) = 32 then tl (kitty_stack k) else kitty_stack k)
      in \<lparr>kitty_flags = flags, kitty_stack = stack @ [kitty_flags k]\<rparr>)"

primrec kitty_pops :: "nat \<Rightarrow> kitty_keyboard_modes \<Rightarrow> kitty_keyboard_modes" where
  "kitty_pops 0 k = k"
| "kitty_pops (Suc n) k =
     (if kitty_stack k = [] then k\<lparr>kitty_flags := 0\<rparr>
      else kitty_pops n \<lparr>kitty_flags = last (kitty_stack k), kitty_stack = butlast (kitty_stack k)\<rparr>)"

definition kitty_pop :: "u16 \<Rightarrow> kitty_keyboard_modes \<Rightarrow> kitty_keyboard_modes" where
  "kitty_pop n = kitty_pops (if n = 0 then 1 else n)"

text \<open>\<open>!flags\<close> of a 16-bit value is \<open>u16_max - flags\<close>.\<close>

definition kitty_apply :: "u16 \<Rightarrow> kitty_keyboard_apply_mode \<Rightarrow> kitty_keyboard_modes \<Rightarrow> kitty_keyboard_modes" where
  "kitty_apply flags mode k = k\<lparr>kitty_flags :=
     (case mode of
        Apply_Replace \<Rightarrow> flags
      | Apply_Set \<Rightarrow> kitty_flags k OR flags
      | Apply_Reset \<Rightarrow> kitty_flags k AND (65535 - flags))\<rparr>"

section \<open>Tracked modes\<close>

type_synonym tracked_modes = "32 word"

definition application_cursor_keys_bit :: tracked_modes where "application_cursor_keys_bit = 1"
definition application_keypad_bit :: tracked_modes where "application_keypad_bit = 2"
definition bracketed_paste_bit :: tracked_modes where "bracketed_paste_bit = 4"
definition focus_bit :: tracked_modes where "focus_bit = 8"
definition synchronized_output_bit :: tracked_modes where "synchronized_output_bit = 16"
definition origin_mode_bit :: tracked_modes where "origin_mode_bit = 0x20"
definition auto_wrap_bit :: tracked_modes where "auto_wrap_bit = 0x40"
definition cursor_visible_bit :: tracked_modes where "cursor_visible_bit = 0x80"
definition cursor_blinking_bit :: tracked_modes where "cursor_blinking_bit = 0x100"
definition insert_mode_bit :: tracked_modes where "insert_mode_bit = 0x2000"
definition left_right_margin_mode_bit :: tracked_modes where "left_right_margin_mode_bit = 0x8000"
definition reverse_wrap_bit :: tracked_modes where "reverse_wrap_bit = 0x40000"
definition screen_reverse_bit :: tracked_modes where "screen_reverse_bit = 0x80000"
definition win32_input_mode_bit :: tracked_modes where "win32_input_mode_bit = 0x100000"
definition automatic_newline_bit :: tracked_modes where "automatic_newline_bit = 0x200000"
definition bidirectional_support_bit :: tracked_modes where "bidirectional_support_bit = 0x400000"

definition private_mode_bit :: "u16 \<Rightarrow> tracked_modes option" where
  "private_mode_bit mode =
     (if mode = 2 then Some 0x1000000 else if mode = 5 then Some screen_reverse_bit
      else if mode = 6 then Some origin_mode_bit else if mode = 7 then Some auto_wrap_bit
      else if mode = 12 then Some cursor_blinking_bit else if mode = 25 then Some cursor_visible_bit
      else if mode = 45 then Some reverse_wrap_bit else if mode = 47 then Some 0x200
      else if mode = 69 then Some left_right_margin_mode_bit else if mode = 80 then Some 0x10000
      else if mode = 1034 then Some 0x4000 else if mode = 1047 then Some 0x400
      else if mode = 1048 then Some 0x1000 else if mode = 1049 then Some 0x800
      else if mode = 1070 then Some 0x800000 else if mode = 8452 then Some 0x20000 else None)"

definition tracked_set :: "tracked_modes \<Rightarrow> bool \<Rightarrow> tracked_modes \<Rightarrow> bool \<times> tracked_modes" where
  "tracked_set mk enabled s =
     (let after = (if enabled then s OR mk else s AND NOT mk) in (after \<noteq> s, after))"

definition tracked_enabled :: "tracked_modes \<Rightarrow> tracked_modes \<Rightarrow> bool" where
  "tracked_enabled mk s \<longleftrightarrow> s AND mk \<noteq> 0"

definition tracked_default :: tracked_modes where
  "tracked_default = auto_wrap_bit OR cursor_visible_bit"

section \<open>The tracker\<close>

record mode_tracker =
  pending :: "u8 list"
  mouse_modes_of :: mouse_modes
  kitty_modes :: kitty_keyboard_modes
  modify_other_keys :: u8
  allow_win32_input_mode :: bool
  tracked :: tracked_modes

definition tracker_default :: mode_tracker where
  "tracker_default = \<lparr>pending = [], mouse_modes_of = 0, kitty_modes = kitty_default, modify_other_keys = 0,
     allow_win32_input_mode = True, tracked = tracked_default\<rparr>"

definition set_tracked :: "tracked_modes \<Rightarrow> bool \<Rightarrow> mode_tracker \<Rightarrow> mode_tracker" where
  "set_tracked mk enabled t = t\<lparr>tracked := snd (tracked_set mk enabled (tracked t))\<rparr>"

text \<open>\<open>if self.tracked_modes.set(mk, enabled) { emit(change) }\<close>\<close>

definition set_emit :: "tracked_modes \<Rightarrow> (bool \<Rightarrow> terminal_mode_change) \<Rightarrow> bool \<Rightarrow> mode_tracker
    \<Rightarrow> terminal_mode_change list \<times> mode_tracker" where
  "set_emit mk change enabled t =
     (if fst (tracked_set mk enabled (tracked t)) then [change enabled] else [], set_tracked mk enabled t)"

fun install_change :: "terminal_mode_change \<Rightarrow> mode_tracker \<Rightarrow> mode_tracker" where
  "install_change (ApplicationCursorKeys e) t = set_tracked application_cursor_keys_bit e t"
| "install_change (ApplicationKeypad e) t = set_tracked application_keypad_bit e t"
| "install_change (BracketedPaste e) t = set_tracked bracketed_paste_bit e t"
| "install_change (Mouse m) t = t\<lparr>mouse_modes_of := mouse_install m\<rparr>"
| "install_change (Focus e) t = set_tracked focus_bit e t"
| "install_change (SynchronizedOutput e) t = set_tracked synchronized_output_bit e t"
| "install_change (KittyKeyboardFlags f) t = t\<lparr>kitty_modes := \<lparr>kitty_flags = f, kitty_stack = []\<rparr>\<rparr>"
| "install_change (ModifyOtherKeys v) t = t\<lparr>modify_other_keys := v\<rparr>"
| "install_change (Win32InputMode e) t = set_tracked win32_input_mode_bit e t"

definition tracker_mouse :: "mode_tracker \<Rightarrow> mouse_input_mode" where
  "tracker_mouse t = mouse_input_mode_of (mouse_modes_of t)"

definition apply_mode :: "u16 \<Rightarrow> bool \<Rightarrow> mode_tracker \<Rightarrow> terminal_mode_change list \<times> mode_tracker" where
  "apply_mode mode enabled t =
     (case private_mode_bit mode of
        Some b \<Rightarrow> ([], set_tracked b enabled t)
      | None \<Rightarrow>
          if mode = 1 then set_emit application_cursor_keys_bit ApplicationCursorKeys enabled t
          else if mode = 1004 then set_emit focus_bit Focus enabled t
          else if mode = 2004 then set_emit bracketed_paste_bit BracketedPaste enabled t
          else if mode = 2026 then set_emit synchronized_output_bit SynchronizedOutput enabled t
          else if mode = 9001 then
            (if allow_win32_input_mode t then set_emit win32_input_mode_bit Win32InputMode enabled t else ([], t))
          else ([], t))"

definition apply_ansi_mode :: "u16 \<Rightarrow> bool \<Rightarrow> mode_tracker \<Rightarrow> mode_tracker" where
  "apply_ansi_mode mode enabled t =
     (if mode = 4 then set_tracked insert_mode_bit enabled t
      else if mode = 8 then set_tracked bidirectional_support_bit enabled t
      else if mode = 20 then set_tracked automatic_newline_bit enabled t else t)"

definition emit_mouse_change :: "mouse_input_mode \<Rightarrow> mode_tracker \<Rightarrow> terminal_mode_change list" where
  "emit_mouse_change before t =
     (let after = tracker_mouse t in
      if before \<noteq> after \<and> (reporting_enabled before \<or> reporting_enabled after) then [Mouse after] else [])"

text \<open>The loop over the modes of one sequence; the flag says whether a mouse mode was among them.\<close>

fun apply_modes :: "bool \<Rightarrow> u16 list \<Rightarrow> bool \<Rightarrow> mode_tracker \<Rightarrow> terminal_mode_change list \<times> bool \<times> mode_tracker" where
  "apply_modes enabled [] saw t = ([], saw, t)"
| "apply_modes enabled (m # ms) saw t =
     (case mouse_set m enabled (mouse_modes_of t) of
        (True, s) \<Rightarrow> apply_modes enabled ms True (t\<lparr>mouse_modes_of := s\<rparr>)
      | (False, s) \<Rightarrow>
          (case apply_mode m enabled t of (cs, t1) \<Rightarrow>
             case apply_modes enabled ms saw t1 of (ds, saw1, t2) \<Rightarrow> (cs @ ds, saw1, t2)))"

definition apply_private_mode_sequence :: "private_mode_sequence \<Rightarrow> mode_tracker
    \<Rightarrow> terminal_mode_change list \<times> mode_tracker" where
  "apply_private_mode_sequence q t =
     (case apply_modes (pms_enabled q) (pms_modes q) False t of (cs, saw, t1) \<Rightarrow>
        (cs @ (if saw then emit_mouse_change (tracker_mouse t) t1 else []), t1))"

definition apply_kitty_keyboard_sequence :: "kitty_keyboard_mode \<Rightarrow> mode_tracker
    \<Rightarrow> terminal_mode_change list \<times> mode_tracker" where
  "apply_kitty_keyboard_sequence q t =
     (let k = kitty_modes t;
          k1 = (case kitty_operation q of
                  Op_Push \<Rightarrow> kitty_push (kitty_value q) k
                | Op_Pop \<Rightarrow> kitty_pop (kitty_value q) k
                | Op_Apply \<Rightarrow> kitty_apply (kitty_value q) (kitty_apply_mode q) k)
      in (if kitty_flags k \<noteq> kitty_flags k1 then [KittyKeyboardFlags (kitty_flags k1)] else [], t\<lparr>kitty_modes := k1\<rparr>))"

definition apply_key_modifier_options_sequence :: "key_modifier_options \<Rightarrow> mode_tracker
    \<Rightarrow> terminal_mode_change list \<times> mode_tracker" where
  "apply_key_modifier_options_sequence q t =
     (if kmo_resource q = None \<or> kmo_resource q = Some 4 then
        let next = (case kmo_value q of Some v \<Rightarrow> if v \<le> 2 then v else 0 | None \<Rightarrow> 0) in
        if modify_other_keys t \<noteq> next then ([ModifyOtherKeys next], t\<lparr>modify_other_keys := next\<rparr>) else ([], t)
      else ([], t))"

definition clear_kitty_keyboard_flags :: "mode_tracker \<Rightarrow> mode_tracker" where
  "clear_kitty_keyboard_flags t = t\<lparr>kitty_modes := kitty_default\<rparr>"

definition tracker_finish :: "mode_tracker \<Rightarrow> terminal_mode_change list \<times> mode_tracker" where
  "tracker_finish t = set_emit synchronized_output_bit SynchronizedOutput False (t\<lparr>pending := []\<rparr>)"

definition set_allow_win32_input_mode :: "bool \<Rightarrow> mode_tracker \<Rightarrow> mode_tracker" where
  "set_allow_win32_input_mode allowed t =
     (let t1 = t\<lparr>allow_win32_input_mode := allowed\<rparr>
      in if allowed then t1 else set_tracked win32_input_mode_bit False t1)"

definition emits :: "bool \<Rightarrow> terminal_mode_change \<Rightarrow> terminal_mode_change list" where
  "emits b c = (if b then [c] else [])"

definition soft_reset :: "mode_tracker \<Rightarrow> terminal_mode_change list \<times> mode_tracker" where
  "soft_reset t =
     (case set_emit application_cursor_keys_bit ApplicationCursorKeys False t of (cs, t1) \<Rightarrow>
        let ds = emits (modify_other_keys t1 \<noteq> 0) (ModifyOtherKeys 0); t2 = t1\<lparr>modify_other_keys := 0\<rparr> in
        case set_emit application_keypad_bit ApplicationKeypad False t2 of (es, t3) \<Rightarrow>
          (cs @ ds @ es,
           set_tracked screen_reverse_bit False (set_tracked reverse_wrap_bit False
             (set_tracked bidirectional_support_bit False (set_tracked left_right_margin_mode_bit False
               (set_tracked insert_mode_bit False (set_tracked cursor_visible_bit True
                 (set_tracked auto_wrap_bit True (set_tracked origin_mode_bit False t3)))))))))"

definition tracker_reset :: "mode_tracker \<Rightarrow> terminal_mode_change list \<times> mode_tracker" where
  "tracker_reset t =
     (emits (tracked_enabled application_cursor_keys_bit (tracked t)) (ApplicationCursorKeys False) @
      emits (tracked_enabled application_keypad_bit (tracked t)) (ApplicationKeypad False) @
      emits (tracked_enabled bracketed_paste_bit (tracked t)) (BracketedPaste False) @
      emits (tracker_mouse t \<noteq> mouse_default) (Mouse mouse_default) @
      emits (tracked_enabled focus_bit (tracked t)) (Focus False) @
      emits (tracked_enabled synchronized_output_bit (tracked t)) (SynchronizedOutput False) @
      emits (kitty_flags (kitty_modes t) \<noteq> 0) (KittyKeyboardFlags 0) @
      emits (modify_other_keys t \<noteq> 0) (ModifyOtherKeys 0) @
      emits (tracked_enabled win32_input_mode_bit (tracked t)) (Win32InputMode False),
      t\<lparr>mouse_modes_of := 0, kitty_modes := kitty_default, modify_other_keys := 0, tracked := tracked_default\<rparr>)"

section \<open>Mode sequences in the stream\<close>

datatype mode_sequence =
    CsiPrivateMode nat
  | CsiMode nat
  | Seq_ApplicationKeypad bool
  | Seq_Reset
  | SoftReset nat

definition private_prefixes :: "(u8 list \<times> mode_sequence) list" where
  "private_prefixes = [([0x1B, 0x5B, 0x3F], CsiPrivateMode 3), ([0x9B, 0x3F], CsiPrivateMode 2),
     ([0xC2, 0x9B, 0x3F], CsiPrivateMode 3)]"

definition soft_reset_prefixes :: "(u8 list \<times> mode_sequence) list" where
  "soft_reset_prefixes = [([0x1B, 0x5B, 0x21, 0x70], SoftReset 4), ([0x9B, 0x21, 0x70], SoftReset 3),
     ([0xC2, 0x9B, 0x21, 0x70], SoftReset 4)]"

definition csi_prefixes :: "(u8 list \<times> mode_sequence) list" where
  "csi_prefixes = [([0x1B, 0x5B], CsiMode 2), ([0x9B], CsiMode 1), ([0xC2, 0x9B], CsiMode 2)]"

definition simple_prefixes :: "(u8 list \<times> mode_sequence) list" where
  "simple_prefixes = [([0x1B, 0x3D], Seq_ApplicationKeypad True), ([0x1B, 0x3E], Seq_ApplicationKeypad False),
     ([0x1B, 0x63], Seq_Reset)]"

definition find_next_mode_start :: "u8 list \<Rightarrow> (nat \<times> mode_sequence) option" where
  "find_next_mode_start bytes =
     min_by_key fst (List.map_filter id
       [find_prefixes bytes private_prefixes, find_prefixes bytes soft_reset_prefixes,
        find_prefixes bytes csi_prefixes, find_prefixes bytes simple_prefixes])"

datatype mode_parse = Parse_Complete "u16 list" bool nat | Parse_Incomplete | Parse_Invalid

text \<open>The inner loop over digits, with \<open>saturating_mul\<close> and \<open>saturating_add\<close> on 16 bits.\<close>

fun parse_digits :: "u8 list \<Rightarrow> u16 \<Rightarrow> nat \<Rightarrow> u16 \<times> nat \<times> u8 list" where
  "parse_digits [] mode cursor = (mode, cursor, [])"
| "parse_digits (b # bs) mode cursor =
     (if is_ascii_digit b then parse_digits bs (min 65535 (min 65535 (mode * 10) + (b - 0x30))) (cursor + 1)
      else (mode, cursor, b # bs))"

lemma parse_digits_length: "parse_digits bs m c = (m', c', rest) \<Longrightarrow> length rest \<le> length bs \<and> c' = c + (length bs - length rest)"
  by (induction bs arbitrary: m c) (fastforce split: if_splits)+

text \<open>\<open>parse_mode_sequence\<close> from \<open>cursor\<close>, over the bytes that remain.\<close>

function parse_modes :: "u8 list \<Rightarrow> nat \<Rightarrow> u16 list \<Rightarrow> mode_parse" where
  "parse_modes bs cursor modes =
     (if bs = [] then Parse_Incomplete
      else case parse_digits bs 0 cursor of (mode, cursor1, rest) \<Rightarrow>
        if cursor1 = cursor then Parse_Invalid
        else case rest of
          [] \<Rightarrow> Parse_Incomplete
        | b # bs1 \<Rightarrow>
            if b = 0x3B then parse_modes bs1 (cursor1 + 1) (modes @ [mode])
            else if b = 0x68 \<or> b = 0x6C then Parse_Complete (modes @ [mode]) (b = 0x68) (cursor1 + 1)
            else Parse_Invalid)"
  by pat_completeness auto
termination
  by (relation "measure (\<lambda>(bs, cursor, modes). length bs)") (auto dest!: parse_digits_length [OF sym])

declare parse_modes.simps [simp del]

definition parse_mode_sequence :: "u8 list \<Rightarrow> nat \<Rightarrow> mode_parse" where
  "parse_mode_sequence bytes prefix_len = parse_modes (drop prefix_len bytes) prefix_len []"

definition is_mode_candidate_start :: "u8 \<Rightarrow> bool" where
  "is_mode_candidate_start b \<longleftrightarrow> b \<in> {0x1B, 0x90, 0x98, 0x9B, 0x9D, 0x9E, 0x9F, 0xC2}"

definition retained_prefixes :: "u8 list list" where
  "retained_prefixes = [[0x1B, 0x5B], [0x1B, 0x5B, 0x3F], [0x9B], [0x9B, 0x3F], [0xC2, 0x9B], [0xC2, 0x9B, 0x3F],
     [0x1B, 0x3D], [0x1B, 0x3E], [0x1B, 0x63], [0x1B, 0x5B, 0x21, 0x70], [0x9B, 0x21, 0x70], [0xC2, 0x9B, 0x21, 0x70]]"

definition retain_possible_prefix :: "u8 list \<Rightarrow> u8 list" where
  "retain_possible_prefix bytes =
     (let retained = fold max (map (suffix_len_matching_prefix bytes) retained_prefixes) 0;
          retained = max (max retained (incomplete_osc_control_sequence_suffix_len bytes))
                       (incomplete_st_control_sequence_suffix_len bytes)
      in drop (length bytes - retained) bytes)"

text \<open>What the loop does with the sequence at the front of the pending bytes; \<open>None\<close> waits for more.\<close>

fun apply_sequence :: "mode_sequence \<Rightarrow> mode_tracker \<Rightarrow> (terminal_mode_change list \<times> mode_tracker \<times> nat) option" where
  "apply_sequence (Seq_ApplicationKeypad e) t =
     (case set_emit application_keypad_bit ApplicationKeypad e t of (cs, t1) \<Rightarrow> Some (cs, t1, 2))"
| "apply_sequence Seq_Reset t = (case tracker_reset t of (cs, t1) \<Rightarrow> Some (cs, t1, 2))"
| "apply_sequence (SoftReset n) t = (case soft_reset t of (cs, t1) \<Rightarrow> Some (cs, t1, n))"
| "apply_sequence (CsiMode n) t =
     (case parse_mode_sequence (pending t) n of
        Parse_Complete modes enabled consumed \<Rightarrow>
          Some ([], fold (\<lambda>m. apply_ansi_mode m enabled) modes t, consumed)
      | Parse_Incomplete \<Rightarrow> None
      | Parse_Invalid \<Rightarrow> Some ([], t, 1))"
| "apply_sequence (CsiPrivateMode n) t =
     (case parse_mode_sequence (pending t) n of
        Parse_Complete modes enabled consumed \<Rightarrow>
          (case apply_private_mode_sequence \<lparr>pms_modes = modes, pms_enabled = enabled\<rparr> t of (cs, t1) \<Rightarrow>
             Some (cs, t1, consumed))
      | Parse_Incomplete \<Rightarrow> None
      | Parse_Invalid \<Rightarrow> Some ([], t, 1))"

lemma set_tracked_pending [simp]: "pending (set_tracked mk e t) = pending t"
  by (simp add: set_tracked_def)

lemma set_emit_pending [simp]: "pending (snd (set_emit mk c e t)) = pending t"
  by (simp add: set_emit_def)

lemma apply_mode_pending [simp]: "pending (snd (apply_mode m e t)) = pending t"
  by (simp add: apply_mode_def split: option.splits)

lemma apply_modes_pending: "apply_modes e ms saw t = (cs, saw1, t1) \<Longrightarrow> pending t1 = pending t"
proof (induction ms arbitrary: saw t cs)
  case (Cons m ms)
  obtain b s where b: "mouse_set m e (mouse_modes_of t) = (b, s)" by fastforce
  obtain ds t2 where a: "apply_mode m e t = (ds, t2)" by fastforce
  then have "pending t2 = pending t" by (metis apply_mode_pending snd_conv)
  with Cons b a show ?case by (cases b) (fastforce split: prod.splits)+
qed simp

lemma fold_ansi_pending [simp]: "pending (fold (\<lambda>m. apply_ansi_mode m e) ms t) = pending t"
  by (induction ms arbitrary: t) (simp_all add: apply_ansi_mode_def)

lemma private_pending [simp]: "pending (snd (apply_private_mode_sequence q t)) = pending t"
  by (auto simp: apply_private_mode_sequence_def split: prod.splits dest: apply_modes_pending)

lemma soft_reset_pending [simp]: "pending (snd (soft_reset t)) = pending t"
  by (simp add: soft_reset_def set_emit_def Let_def)

lemma reset_pending [simp]: "pending (snd (tracker_reset t)) = pending t"
  by (simp add: tracker_reset_def)

lemma parse_modes_consumed: "parse_modes bs c ms = Parse_Complete ms' e n \<Longrightarrow> c < n \<and> n \<le> c + length bs"
proof (induction bs c ms rule: parse_modes.induct)
  case (1 bs cursor modes)
  obtain mode cursor1 rest where d: "parse_digits bs 0 cursor = (mode, cursor1, rest)" by (cases "parse_digits bs 0 cursor") auto
  note l = parse_digits_length [OF d]
  show ?case
  proof (cases rest)
    case Nil
    with "1.prems" d show ?thesis by (subst (asm) parse_modes.simps) (auto split: if_splits)
  next
    case (Cons b bs1)
    show ?thesis
    proof (cases "b = 0x3B \<and> bs \<noteq> [] \<and> cursor1 \<noteq> cursor")
      case True
      then have "parse_modes bs1 (cursor1 + 1) (modes @ [mode]) = Parse_Complete ms' e n"
        using "1.prems" d Cons by (subst (asm) parse_modes.simps) simp
      from "1.IH" [OF _ d [symmetric] refl _ Cons _ this] True l Cons show ?thesis by auto
    next
      case False
      with "1.prems" d Cons l show ?thesis by (subst (asm) parse_modes.simps) (auto split: if_splits)
    qed
  qed
qed

text \<open>The sequences the search can return are those of the prefix tables.\<close>

definition mode_prefixes :: "(u8 list \<times> mode_sequence) list" where
  "mode_prefixes = private_prefixes @ soft_reset_prefixes @ csi_prefixes @ simple_prefixes"

lemmas prefix_defs = private_prefixes_def soft_reset_prefixes_def csi_prefixes_def simple_prefixes_def

lemma find_next_mode_start_Some:
  assumes "find_next_mode_start bytes = Some (i, q)"
  obtains p where "(p, q) \<in> set mode_prefixes" and "find_subslice bytes p = Some i" and "i + length p \<le> length bytes"
proof -
  from assms have "(i, q) \<in> set (List.map_filter id
       [find_prefixes bytes private_prefixes, find_prefixes bytes soft_reset_prefixes,
        find_prefixes bytes csi_prefixes, find_prefixes bytes simple_prefixes])"
    unfolding find_next_mode_start_def by (rule min_by_key_mem)
  then obtain ps where ps: "ps \<in> {private_prefixes, soft_reset_prefixes, csi_prefixes, simple_prefixes}"
    "find_prefixes bytes ps = Some (i, q)"
    by (auto simp: List.map_filter_simps split: option.splits)
  have "\<forall>p \<in> set (map fst ps). p \<noteq> []" using ps(1) by (auto simp: prefix_defs)
  then obtain p where "(p, q) \<in> set ps" "find_subslice bytes p = Some i" "i + length p \<le> length bytes"
    by (rule find_prefixes_Some [OF ps(2)])
  moreover have "set ps \<subseteq> set mode_prefixes" using ps(1) by (auto simp: mode_prefixes_def)
  ultimately show thesis using that by blast
qed

lemma mode_start_inside: "find_next_mode_start bytes = Some (i, q) \<Longrightarrow> i < length bytes"
  by (erule find_next_mode_start_Some) (auto simp: mode_prefixes_def prefix_defs)

lemma apply_sequence_consumes:
  assumes "apply_sequence q t = Some (cs, t1, n)" and "q \<in> set (map snd mode_prefixes)"
  shows "pending t1 = pending t" and "0 < n"
proof -
  have "pending t1 = pending t \<and> 0 < n"
  proof (cases q)
    case (CsiPrivateMode k)
    then show ?thesis using assms(1)
      by (auto simp: parse_mode_sequence_def dest!: parse_modes_consumed split: mode_parse.splits prod.splits)
        (metis private_pending snd_conv)
  next
    case (CsiMode k)
    then show ?thesis using assms(1)
      by (auto simp: parse_mode_sequence_def dest!: parse_modes_consumed split: mode_parse.splits)
  next
    case (SoftReset k)
    then show ?thesis using assms
      by (auto simp: mode_prefixes_def prefix_defs split: prod.splits) (metis soft_reset_pending snd_conv)+
  next
    case Seq_Reset
    then show ?thesis using assms(1) by (auto split: prod.splits) (metis reset_pending snd_conv)
  next
    case (Seq_ApplicationKeypad e)
    then show ?thesis using assms(1) by (auto split: prod.splits) (metis set_emit_pending snd_conv)
  qed
  then show "pending t1 = pending t" and "0 < n" by auto
qed

function process_loop :: "mode_tracker \<Rightarrow> terminal_mode_change list \<times> mode_tracker" where
  "process_loop t =
     (case find_next_mode_start (pending t) of
        None \<Rightarrow> ([], t\<lparr>pending := retain_possible_prefix (pending t)\<rparr>)
      | Some (index, sequence) \<Rightarrow>
          (case control_string_containing (pending t) index of
             Some span \<Rightarrow>
               (case span_end span of
                  Some e \<Rightarrow> process_loop (t\<lparr>pending := drop e (pending t)\<rparr>)
                | None \<Rightarrow> ([], t\<lparr>pending := drop (span_start span) (pending t)\<rparr>))
           | None \<Rightarrow>
               (let t1 = t\<lparr>pending := drop index (pending t)\<rparr> in
                case apply_sequence sequence t1 of
                  None \<Rightarrow> ([], t1)
                | Some (cs, t2, n) \<Rightarrow>
                    (case process_loop (t2\<lparr>pending := drop n (pending t2)\<rparr>) of (ds, t3) \<Rightarrow> (cs @ ds, t3)))))"
  by pat_completeness auto
termination
proof (relation "measure (\<lambda>t. length (pending t))", goal_cases)
  case 1
  then show ?case by simp
next
  case (2 t x index sequence t1 y cs z t2 n)
  then have f: "find_next_mode_start (pending t) = Some (index, sequence)" and a: "apply_sequence sequence t1 = Some (cs, t2, n)"
    by auto
  have "sequence \<in> set (map snd mode_prefixes)"
    by (rule find_next_mode_start_Some [OF f]) force
  note c = apply_sequence_consumes [OF a this]
  show ?case using mode_start_inside [OF f] c 2(4) by auto
next
  case (3 t x index sequence span e)
  then have f: "find_next_mode_start (pending t) = Some (index, sequence)" by simp
  have "0 < e" using 3 by (auto simp: control_string_containing_def dest!: containing_bounds)
  then show ?case using mode_start_inside [OF f] by auto
qed

declare process_loop.simps [simp del]

definition mode_process :: "u8 list \<Rightarrow> mode_tracker \<Rightarrow> terminal_mode_change list \<times> mode_tracker" where
  "mode_process bytes t =
     (if pending t = [] \<and> \<not> list_ex is_mode_candidate_start bytes then ([], t)
      else process_loop (t\<lparr>pending := pending t @ bytes\<rparr>))"

section \<open>Reports\<close>

definition private_mode_report_value :: "u16 \<Rightarrow> mode_tracker \<Rightarrow> u8" where
  "private_mode_report_value mode t =
     (let report = (\<lambda>b. mode_report_value (tracked_enabled b (tracked t))) in
      if mode = 1 then report application_cursor_keys_bit
      else if mode = 2 then report 0x1000000
      else if mode = 3 then mode_report_value False
      else if mode = 5 then report screen_reverse_bit
      else if mode = 6 then report origin_mode_bit
      else if mode = 7 then report auto_wrap_bit
      else if mode = 12 then report cursor_blinking_bit
      else if mode = 25 then report cursor_visible_bit
      else if mode = 45 then report reverse_wrap_bit
      else if mode = 69 then report left_right_margin_mode_bit
      else if mode = 80 then report 0x10000
      else if mode = 8452 then report 0x20000
      else if mode \<in> {1000, 1002, 1003, 1005, 1006, 1015, 1016}
      then (case mouse_report_value mode (mouse_modes_of t) of Some v \<Rightarrow> v | None \<Rightarrow> 0)
      else if mode = 1004 then report focus_bit
      else if mode = 1034 then report 0x4000
      else if mode = 1070 then report 0x800000
      else if mode = 9001 then report win32_input_mode_bit
      else if mode = 2004 then report bracketed_paste_bit
      else if mode = 2026 then report synchronized_output_bit
      else if mode = 2027 then 3 else 0)"

definition ansi_mode_report_value :: "u16 \<Rightarrow> mode_tracker \<Rightarrow> u8" where
  "ansi_mode_report_value mode t =
     (let report = (\<lambda>b. mode_report_value (tracked_enabled b (tracked t))) in
      if mode = 4 then report insert_mode_bit else if mode = 8 then report bidirectional_support_bit
      else if mode = 20 then report automatic_newline_bit else 0)"

text \<open>\<open>strip_prefix\<close>\<close>

definition strip_prefix :: "u8 list \<Rightarrow> u8 list \<Rightarrow> u8 list option" where
  "strip_prefix prefix bytes = (if take (length prefix) bytes = prefix then Some (drop (length prefix) bytes) else None)"

definition framed_control_may_change_modes :: "u8 list \<Rightarrow> bool" where
  "framed_control_may_change_modes bytes \<longleftrightarrow>
     bytes \<in> {[0x1B, 0x3D], [0x1B, 0x3E], [0x1B, 0x63]} \<or>
     (let body = (case strip_prefix [0x1B, 0x5B] bytes of
                    Some b \<Rightarrow> Some b
                  | None \<Rightarrow> (case strip_prefix [0x9B] bytes of
                      Some b \<Rightarrow> Some b | None \<Rightarrow> strip_prefix [0xC2, 0x9B] bytes))
      in case body of
           None \<Rightarrow> False
         | Some b \<Rightarrow> b = [0x21, 0x70] \<or> b \<noteq> [] \<and> (last b = 0x68 \<or> last b = 0x6C))"

end
