(* ===== verification/Mode_Laws.thy ===== *)
theory Mode_Laws
  imports Mode_Tracker
begin

text \<open>
  What a mirror that installs the emitted changes knows of a tracker, the contract of an operation
  that reports its changes, and its interpretation for every operation of the tracker.
\<close>

section \<open>Bits\<close>

lemma bit_tracked_set: "bit (snd (tracked_set mk e s)) n \<longleftrightarrow> (if bit mk n then e else bit s n)"
  by (auto simp: tracked_set_def Let_def bit_simps dest: bit_imp_le_length)

lemma tracked_set_same: "\<not> fst (tracked_set mk e s) \<Longrightarrow> snd (tracked_set mk e s) = s"
  by (simp add: tracked_set_def Let_def)

lemma tracked_enabled_bit: "i < 32 \<Longrightarrow> tracked_enabled (push_bit i 1) s \<longleftrightarrow> bit s i"
  by (simp add: tracked_enabled_def push_bit_of_1 and_exp_eq_0_iff_not_bit)

lemma tracked_unchanged: "\<not> fst (tracked_set mk e s) \<Longrightarrow> bit mk i \<Longrightarrow> bit s i = e"
  by (metis bit_tracked_set tracked_set_same)

definition observed_bits :: "nat list" where
  "observed_bits = [0, 1, 2, 3, 4, 20]"

lemma observed_enabled:
  "tracked_enabled application_cursor_keys_bit s = bit s 0" "tracked_enabled application_keypad_bit s = bit s 1"
  "tracked_enabled bracketed_paste_bit s = bit s 2" "tracked_enabled focus_bit s = bit s 3"
  "tracked_enabled synchronized_output_bit s = bit s 4" "tracked_enabled win32_input_mode_bit s = bit s 20"
  using tracked_enabled_bit [of 0 s] tracked_enabled_bit [of 1 s] tracked_enabled_bit [of 2 s] tracked_enabled_bit [of 3 s]
    tracked_enabled_bit [of 4 s] tracked_enabled_bit [of 20 s]
  by (simp_all add: application_cursor_keys_bit_def application_keypad_bit_def bracketed_paste_bit_def focus_bit_def
      synchronized_output_bit_def win32_input_mode_bit_def)

lemma private_mode_unobserved: "private_mode_bit mode = Some b \<Longrightarrow> i \<in> set observed_bits \<Longrightarrow> \<not> bit b i"
  by (auto simp: private_mode_bit_def observed_bits_def screen_reverse_bit_def origin_mode_bit_def auto_wrap_bit_def
      cursor_blinking_bit_def cursor_visible_bit_def reverse_wrap_bit_def left_right_margin_mode_bit_def
      split: if_splits)

section \<open>Mouse modes\<close>

lemma mouse_install_input: "mouse_input_mode_of (mouse_install m) = m"
proof -
  obtain r p where m: "m = \<lparr>reporting = r, protocol = p\<rparr>" by (cases m)
  show ?thesis
    by (cases r; cases p) (simp_all add: m mouse_install_def mouse_set_opt_def mouse_set_def mouse_mask_def
        is_protocol_mode_def protocol_mask_def mouse_input_mode_of_def)
qed

lemma mouse_bits_roundtrip: "mouse_from_bits (mouse_bits m) = m"
proof -
  obtain r p where m: "m = \<lparr>reporting = r, protocol = p\<rparr>" by (cases m)
  show ?thesis
    by (cases r; cases p) (simp_all add: m mouse_from_bits_def mouse_bits_def reporting_from_bits_def protocol_from_bits_def)
qed

section \<open>The mirror\<close>

text \<open>Everything but the mouse; a mouse mode is followed while reporting is enabled.\<close>

definition keys_mirror :: "mode_tracker \<Rightarrow> mode_tracker \<Rightarrow> bool" where
  "keys_mirror t m \<longleftrightarrow>
     tracked_enabled application_cursor_keys_bit (tracked t) = tracked_enabled application_cursor_keys_bit (tracked m) \<and>
     tracked_enabled application_keypad_bit (tracked t) = tracked_enabled application_keypad_bit (tracked m) \<and>
     tracked_enabled bracketed_paste_bit (tracked t) = tracked_enabled bracketed_paste_bit (tracked m) \<and>
     tracked_enabled focus_bit (tracked t) = tracked_enabled focus_bit (tracked m) \<and>
     tracked_enabled synchronized_output_bit (tracked t) = tracked_enabled synchronized_output_bit (tracked m) \<and>
     tracked_enabled win32_input_mode_bit (tracked t) = tracked_enabled win32_input_mode_bit (tracked m) \<and>
     kitty_flags (kitty_modes t) = kitty_flags (kitty_modes m) \<and> modify_other_keys t = modify_other_keys m"

definition mouse_mirror :: "mode_tracker \<Rightarrow> mode_tracker \<Rightarrow> bool" where
  "mouse_mirror t m \<longleftrightarrow>
     tracker_mouse t = tracker_mouse m \<or> \<not> reporting_enabled (tracker_mouse t) \<and> \<not> reporting_enabled (tracker_mouse m)"

definition mirrors :: "mode_tracker \<Rightarrow> mode_tracker \<Rightarrow> bool" where
  "mirrors t m \<longleftrightarrow> keys_mirror t m \<and> mouse_mirror t m"

lemma keys_mirror_bits:
  "keys_mirror t m \<longleftrightarrow> (\<forall>i \<in> set observed_bits. bit (tracked t) i = bit (tracked m) i) \<and>
     kitty_flags (kitty_modes t) = kitty_flags (kitty_modes m) \<and> modify_other_keys t = modify_other_keys m"
  by (auto simp: keys_mirror_def observed_enabled observed_bits_def)

lemma keys_mirror_cong:
  "keys_mirror t m \<Longrightarrow> tracked t' = tracked t \<Longrightarrow> kitty_modes t' = kitty_modes t \<Longrightarrow>
     modify_other_keys t' = modify_other_keys t \<Longrightarrow> keys_mirror t' m"
  by (simp add: keys_mirror_def)

lemma mirrors_pending [simp]: "mirrors (t\<lparr>pending := bs\<rparr>) m = mirrors t m"
  by (simp add: mirrors_def keys_mirror_def mouse_mirror_def tracker_mouse_def)

lemma mirrors_refl [simp]: "mirrors t t"
  by (simp add: mirrors_def keys_mirror_def mouse_mirror_def)

lemma set_tracked_simps [simp]:
  "tracked (set_tracked mk e t) = snd (tracked_set mk e (tracked t))"
  "mouse_modes_of (set_tracked mk e t) = mouse_modes_of t" "kitty_modes (set_tracked mk e t) = kitty_modes t"
  "modify_other_keys (set_tracked mk e t) = modify_other_keys t"
  by (simp_all add: set_tracked_def)

text \<open>A silent change of a bit the mirror does not follow.\<close>

lemma keys_mirror_unobserved:
  "keys_mirror t m \<Longrightarrow> \<forall>i \<in> set observed_bits. \<not> bit mk i \<Longrightarrow> keys_mirror (set_tracked mk e t) m"
  by (simp add: keys_mirror_bits bit_tracked_set)

text \<open>A change that is reported when it is one: \<open>c\<close> notifies of the bit \<open>mk\<close>.\<close>

definition reports :: "tracked_modes \<Rightarrow> (bool \<Rightarrow> terminal_mode_change) \<Rightarrow> bool" where
  "reports mk c \<longleftrightarrow> (\<forall>e t. install_change (c e) t = set_tracked mk e t)"

lemma reports_modes [simp]:
  "reports application_cursor_keys_bit ApplicationCursorKeys" "reports application_keypad_bit ApplicationKeypad"
  "reports bracketed_paste_bit BracketedPaste" "reports focus_bit Focus"
  "reports synchronized_output_bit SynchronizedOutput" "reports win32_input_mode_bit Win32InputMode"
  by (simp_all add: reports_def)

text \<open>An operation that keeps the mouse modes and is followed in everything else.\<close>

definition keys_followed :: "mode_tracker \<Rightarrow> terminal_mode_change list \<times> mode_tracker \<Rightarrow> bool" where
  "keys_followed t r \<longleftrightarrow> mouse_modes_of (snd r) = mouse_modes_of t \<and>
     (\<forall>m. keys_mirror t m \<longrightarrow> keys_mirror (snd r) (fold install_change (fst r) m) \<and>
        mouse_modes_of (fold install_change (fst r) m) = mouse_modes_of m)"

lemma followed_silent:
  "mouse_modes_of t1 = mouse_modes_of t \<Longrightarrow> (\<And>m. keys_mirror t m \<Longrightarrow> keys_mirror t1 m) \<Longrightarrow> keys_followed t ([], t1)"
  by (simp add: keys_followed_def)

lemma followed_unobserved: "\<forall>i \<in> set observed_bits. \<not> bit mk i \<Longrightarrow> keys_followed t ([], set_tracked mk e t)"
  by (rule followed_silent) (simp_all add: keys_mirror_unobserved)

lemma followed_set_emit: "reports mk c \<Longrightarrow> keys_followed t (set_emit mk c e t)"
  by (auto simp: keys_followed_def reports_def set_emit_def keys_mirror_bits bit_tracked_set tracked_unchanged)

lemma followed_append:
  assumes "keys_followed t (cs, t1)" and "keys_followed t1 (ds, t2)"
  shows "keys_followed t (cs @ ds, t2)"
  using assms by (simp add: keys_followed_def)

lemma followed_apply_mode: "keys_followed t (apply_mode mode e t)"
proof (cases "private_mode_bit mode")
  case (Some b)
  then show ?thesis
    using private_mode_unobserved [OF Some] by (auto simp: apply_mode_def intro!: followed_unobserved)
next
  case None
  then show ?thesis by (simp add: apply_mode_def followed_set_emit followed_silent)
qed

lemma followed_ansi: "keys_followed t ([], fold (\<lambda>m. apply_ansi_mode m e) ms t)"
proof (induction ms arbitrary: t)
  case Nil
  then show ?case by (simp add: followed_silent)
next
  case (Cons m ms)
  have "keys_followed t ([], apply_ansi_mode m e t)"
    by (auto simp: apply_ansi_mode_def observed_bits_def insert_mode_bit_def bidirectional_support_bit_def
        automatic_newline_bit_def followed_silent intro!: followed_unobserved)
  from followed_append [OF this Cons.IH] show ?case by simp
qed

lemma followed_modes:
  "apply_modes e ms saw t = (cs, saw1, t1) \<Longrightarrow> keys_mirror t m \<Longrightarrow>
     keys_mirror t1 (fold install_change cs m) \<and> mouse_modes_of (fold install_change cs m) = mouse_modes_of m \<and>
     (saw1 \<or> \<not> saw \<and> mouse_modes_of t1 = mouse_modes_of t)"
proof (induction ms arbitrary: saw t cs m)
  case Nil
  then show ?case by auto
next
  case (Cons mode ms)
  obtain b s where b: "mouse_set mode e (mouse_modes_of t) = (b, s)" by fastforce
  show ?case
  proof (cases b)
    case True
    have "keys_mirror (t\<lparr>mouse_modes_of := s\<rparr>) m" using Cons.prems(2) by (rule keys_mirror_cong) simp_all
    moreover have "apply_modes e ms True (t\<lparr>mouse_modes_of := s\<rparr>) = (cs, saw1, t1)"
      using Cons.prems(1) b True by simp
    ultimately show ?thesis using Cons.IH by blast
  next
    case False
    obtain ds t2 where a: "apply_mode mode e t = (ds, t2)" by fastforce
    obtain es where c: "apply_modes e ms saw t2 = (es, saw1, t1)" and cs: "cs = ds @ es"
      using Cons.prems(1) b False a by (auto split: prod.splits)
    have "keys_mirror t2 (fold install_change ds m)" "mouse_modes_of (fold install_change ds m) = mouse_modes_of m"
      "mouse_modes_of t2 = mouse_modes_of t"
      using followed_apply_mode [of t mode e] Cons.prems(2) a by (simp_all add: keys_followed_def)
    with Cons.IH [OF c, of "fold install_change ds m"] cs show ?thesis by simp
  qed
qed

section \<open>Operations that report their changes\<close>

locale mirrored_operation =
  fixes f :: "mode_tracker \<Rightarrow> terminal_mode_change list \<times> mode_tracker"
  assumes mirrored: "mirrors t m \<Longrightarrow> mirrors (snd (f t)) (fold install_change (fst (f t)) m)"

lemma followed_mirrored: "(\<And>t. keys_followed t (f t)) \<Longrightarrow> mirrored_operation f"
  by unfold_locales (auto simp: keys_followed_def mirrors_def mouse_mirror_def tracker_mouse_def)

interpretation keypad_op: mirrored_operation "set_emit application_keypad_bit ApplicationKeypad e" for e
  by (rule followed_mirrored) (simp add: followed_set_emit)

interpretation ansi_op: mirrored_operation "\<lambda>t. ([], fold (\<lambda>m. apply_ansi_mode m e) ms t)" for e ms
  by (rule followed_mirrored) (rule followed_ansi)

interpretation finish_op: mirrored_operation tracker_finish
proof
  fix t m
  assume "mirrors t m"
  then have "mirrors (t\<lparr>pending := []\<rparr>) m" by simp
  moreover have "mirrored_operation (set_emit synchronized_output_bit SynchronizedOutput False)"
    by (rule followed_mirrored) (simp add: followed_set_emit)
  ultimately show "mirrors (snd (tracker_finish t)) (fold install_change (fst (tracker_finish t)) m)"
    unfolding tracker_finish_def by (metis mirrored_operation.mirrored)
qed

interpretation kitty_op: mirrored_operation "apply_kitty_keyboard_sequence q" for q
  by unfold_locales
    (auto simp: apply_kitty_keyboard_sequence_def Let_def mirrors_def keys_mirror_def mouse_mirror_def tracker_mouse_def)

interpretation modifier_op: mirrored_operation "apply_key_modifier_options_sequence q" for q
  by unfold_locales
    (auto simp: apply_key_modifier_options_sequence_def Let_def mirrors_def keys_mirror_def mouse_mirror_def tracker_mouse_def)

interpretation private_op: mirrored_operation "apply_private_mode_sequence q" for q
proof
  fix t m
  assume mir: "mirrors t m"
  obtain cs saw t1 where a: "apply_modes (pms_enabled q) (pms_modes q) False t = (cs, saw, t1)"
    by (cases "apply_modes (pms_enabled q) (pms_modes q) False t") auto
  let ?m = "fold install_change cs m"
  have f: "keys_mirror t1 ?m" "mouse_modes_of ?m = mouse_modes_of m" "saw \<or> mouse_modes_of t1 = mouse_modes_of t"
    using followed_modes [OF a, of m] mir by (auto simp: mirrors_def)
  let ?es = "if saw then emit_mouse_change (tracker_mouse t) t1 else []"
  have "keys_mirror t1 (fold install_change ?es ?m)"
    using f(1) by (auto simp: emit_mouse_change_def Let_def keys_mirror_def)
  moreover have "mouse_mirror t1 (fold install_change ?es ?m)"
  proof (cases "?es = []")
    case True
    then have "tracker_mouse t = tracker_mouse t1 \<or>
        \<not> reporting_enabled (tracker_mouse t) \<and> \<not> reporting_enabled (tracker_mouse t1)"
      using f(3) by (auto simp: emit_mouse_change_def Let_def tracker_mouse_def split: if_splits)
    moreover have "tracker_mouse ?m = tracker_mouse m" using f(2) by (simp add: tracker_mouse_def)
    moreover have "mouse_mirror t m" using mir by (simp add: mirrors_def)
    ultimately have "mouse_mirror t1 ?m" unfolding mouse_mirror_def by metis
    then show ?thesis unfolding True by simp
  next
    case False
    then have "?es = [Mouse (tracker_mouse t1)]" by (auto simp: emit_mouse_change_def Let_def split: if_splits)
    then show ?thesis by (simp add: mouse_mirror_def tracker_mouse_def mouse_install_input)
  qed
  ultimately show "mirrors (snd (apply_private_mode_sequence q t)) (fold install_change (fst (apply_private_mode_sequence q t)) m)"
    by (simp add: apply_private_mode_sequence_def a mirrors_def)
qed

lemma mirrors_step:
  "mirrored_operation f \<Longrightarrow> f t = (cs, t1) \<Longrightarrow> mirrors t m \<Longrightarrow> mirrors t1 (fold install_change cs m)"
  by (metis fst_conv mirrored_operation.mirrored snd_conv)

lemma followed_then_unobserved:
  "keys_followed t (cs, u) \<Longrightarrow> \<forall>i \<in> set observed_bits. \<not> bit mk i \<Longrightarrow> keys_followed t (cs, set_tracked mk e u)"
  using followed_append [OF _ followed_unobserved, of t cs u mk e] by simp

lemma reset_bits_unobserved:
  "i \<in> set observed_bits \<Longrightarrow> \<not> bit screen_reverse_bit i" "i \<in> set observed_bits \<Longrightarrow> \<not> bit reverse_wrap_bit i"
  "i \<in> set observed_bits \<Longrightarrow> \<not> bit bidirectional_support_bit i" "i \<in> set observed_bits \<Longrightarrow> \<not> bit left_right_margin_mode_bit i"
  "i \<in> set observed_bits \<Longrightarrow> \<not> bit insert_mode_bit i" "i \<in> set observed_bits \<Longrightarrow> \<not> bit cursor_visible_bit i"
  "i \<in> set observed_bits \<Longrightarrow> \<not> bit auto_wrap_bit i" "i \<in> set observed_bits \<Longrightarrow> \<not> bit origin_mode_bit i"
  by (auto simp: observed_bits_def screen_reverse_bit_def reverse_wrap_bit_def bidirectional_support_bit_def
      left_right_margin_mode_bit_def insert_mode_bit_def cursor_visible_bit_def auto_wrap_bit_def origin_mode_bit_def)

interpretation soft_reset_op: mirrored_operation soft_reset
proof
  fix t m
  assume mir: "mirrors t m"
  obtain cs t1 where a: "set_emit application_cursor_keys_bit ApplicationCursorKeys False t = (cs, t1)" by fastforce
  let ?ds = "emits (modify_other_keys t1 \<noteq> 0) (ModifyOtherKeys 0)" and ?t2 = "t1\<lparr>modify_other_keys := 0\<rparr>"
  obtain es t3 where c: "set_emit application_keypad_bit ApplicationKeypad False ?t2 = (es, t3)" by fastforce
  have "keys_followed t (cs, t1)" using followed_set_emit a reports_modes(1) by metis
  moreover have "keys_followed t1 (?ds, ?t2)" by (auto simp: keys_followed_def emits_def keys_mirror_def)
  moreover have "keys_followed ?t2 (es, t3)" using followed_set_emit c reports_modes(2) by metis
  ultimately have "keys_followed t (cs @ ?ds @ es, t3)" by (intro followed_append)
  then have "keys_followed t (soft_reset t)"
    by (simp add: soft_reset_def a c Let_def followed_then_unobserved reset_bits_unobserved)
  then show "mirrors (snd (soft_reset t)) (fold install_change (fst (soft_reset t)) m)"
    using mir by (auto simp: keys_followed_def mirrors_def mouse_mirror_def tracker_mouse_def)
qed

lemma observed_mask_powers:
  "application_cursor_keys_bit = 2 ^ 0" "application_keypad_bit = 2 ^ 1" "bracketed_paste_bit = 2 ^ 2"
  "focus_bit = 2 ^ 3" "synchronized_output_bit = 2 ^ 4" "win32_input_mode_bit = 2 ^ 20"
  by (simp_all add: application_cursor_keys_bit_def application_keypad_bit_def bracketed_paste_bit_def
      focus_bit_def synchronized_output_bit_def win32_input_mode_bit_def)

lemma bit_power_word: "k < 32 \<Longrightarrow> bit (2 ^ k :: 32 word) i \<longleftrightarrow> i = k"
  by (auto simp: bit_exp_iff)

lemma observed_mask_bits:
  "bit application_cursor_keys_bit i \<longleftrightarrow> i = 0" "bit application_keypad_bit i \<longleftrightarrow> i = 1" "bit bracketed_paste_bit i \<longleftrightarrow> i = 2"
  "bit focus_bit i \<longleftrightarrow> i = 3" "bit synchronized_output_bit i \<longleftrightarrow> i = 4" "bit win32_input_mode_bit i \<longleftrightarrow> i = 20"
  unfolding observed_mask_powers by (rule bit_power_word, simp)+

text \<open>What the notifications of a reset do to the mirror, field by field.\<close>

lemma emits_install: "fold install_change (emits b c) m = (if b then install_change c m else m)"
  by (simp add: emits_def)

interpretation reset_op: mirrored_operation tracker_reset
proof
  fix t m
  assume mir: "mirrors t m"
  define m' where "m' = fold install_change (fst (tracker_reset t)) m"
  have d: "\<not> bit tracked_default i" if "i \<in> set observed_bits" for i
    using that by (auto simp: observed_bits_def tracked_default_def auto_wrap_bit_def cursor_visible_bit_def)
  have "bit (tracked m') i \<longleftrightarrow> bit (tracked m) i \<and> \<not> (i \<in> set observed_bits \<and> bit (tracked t) i)" for i
    by (auto simp: m'_def tracker_reset_def emits_install observed_enabled bit_tracked_set observed_mask_bits
        observed_bits_def)
  moreover have "kitty_flags (kitty_modes m') = (if kitty_flags (kitty_modes t) \<noteq> 0 then 0 else kitty_flags (kitty_modes m))"
    by (simp add: m'_def tracker_reset_def emits_install)
  moreover have "modify_other_keys m' = (if modify_other_keys t \<noteq> 0 then 0 else modify_other_keys m)"
    by (simp add: m'_def tracker_reset_def emits_install)
  ultimately have "keys_mirror (snd (tracker_reset t)) m'"
    using mir d by (simp add: mirrors_def keys_mirror_bits tracker_reset_def kitty_default_def)
  moreover have "mouse_modes_of m' = (if tracker_mouse t \<noteq> mouse_default then mouse_install mouse_default else mouse_modes_of m)"
    by (simp add: m'_def tracker_reset_def emits_install)
  then have "tracker_mouse m' = mouse_default \<or> \<not> reporting_enabled (tracker_mouse m')"
    using mir by (auto simp: tracker_mouse_def mouse_install_input mirrors_def mouse_mirror_def)
  moreover have "tracker_mouse (snd (tracker_reset t)) = mouse_default"
    by (simp add: tracker_reset_def tracker_mouse_def mouse_input_mode_of_def mouse_default_def)
  ultimately show "mirrors (snd (tracker_reset t)) (fold install_change (fst (tracker_reset t)) m)"
    unfolding m'_def [symmetric] by (auto simp: mirrors_def mouse_mirror_def reporting_enabled_def mouse_default_def)
qed

lemma mirrors_sequence:
  assumes "apply_sequence q t = Some (cs, t1, n)" and mir: "mirrors t m"
  shows "mirrors t1 (fold install_change cs m)"
proof (cases q)
  case (CsiPrivateMode k)
  then obtain modes e where "apply_private_mode_sequence \<lparr>pms_modes = modes, pms_enabled = e\<rparr> t = (cs, t1) \<or> cs = [] \<and> t1 = t"
    using assms(1) by (auto split: mode_parse.splits prod.splits)
  then show ?thesis using mir mirrors_step [OF private_op.mirrored_operation_axioms] by auto
next
  case (CsiMode k)
  then obtain ms e where "([], fold (\<lambda>m. apply_ansi_mode m e) ms t) = (cs, t1) \<or> cs = [] \<and> t1 = t"
    using assms(1) by (auto split: mode_parse.splits)
  then show ?thesis
    using mir mirrors_step [OF ansi_op.mirrored_operation_axioms] by auto
next
  case (Seq_ApplicationKeypad e)
  then have "set_emit application_keypad_bit ApplicationKeypad e t = (cs, t1)"
    using assms(1) by (auto split: prod.splits)
  then show ?thesis using mir by (rule mirrors_step [OF keypad_op.mirrored_operation_axioms])
next
  case Seq_Reset
  then have "tracker_reset t = (cs, t1)" using assms(1) by (auto split: prod.splits)
  then show ?thesis using mir by (rule mirrors_step [OF reset_op.mirrored_operation_axioms])
next
  case (SoftReset k)
  then have "soft_reset t = (cs, t1)" using assms(1) by (auto split: prod.splits)
  then show ?thesis using mir by (rule mirrors_step [OF soft_reset_op.mirrored_operation_axioms])
qed

interpretation process_loop_op: mirrored_operation process_loop
proof
  fix t m
  show "mirrors t m \<Longrightarrow> mirrors (snd (process_loop t)) (fold install_change (fst (process_loop t)) m)"
  proof (induction t arbitrary: m rule: process_loop.induct)
    case (1 t)
    show ?case
    proof (cases "find_next_mode_start (pending t)")
      case None
      then show ?thesis using "1.prems" by (subst (1 2) process_loop.simps) simp
    next
      case (Some x)
      obtain index q where x: "x = (index, q)" by fastforce
      show ?thesis
      proof (cases "control_string_containing (pending t) index")
        case (Some span)
        then show ?thesis
          using "1.prems" "1.IH"(2) [OF \<open>find_next_mode_start (pending t) = Some x\<close> x [symmetric] Some]
            \<open>find_next_mode_start (pending t) = Some x\<close> x
          by (subst (1 2) process_loop.simps) (auto split: option.splits)
      next
        case None
        let ?t1 = "t\<lparr>pending := drop index (pending t)\<rparr>"
        show ?thesis
        proof (cases "apply_sequence q ?t1")
          case n: None
          then show ?thesis
            using "1.prems" None \<open>find_next_mode_start (pending t) = Some x\<close> x
            by (subst (1 2) process_loop.simps) simp
        next
          case s: (Some y)
          obtain cs t2 n where y: "y = (cs, t2, n)" by (cases y) auto
          have "mirrors t2 (fold install_change cs m)"
            using mirrors_sequence [of q ?t1 cs t2 n m] s y "1.prems" by simp
          then have "mirrors (t2\<lparr>pending := drop n (pending t2)\<rparr>) (fold install_change cs m)" by simp
          from "1.IH"(1) [OF \<open>find_next_mode_start (pending t) = Some x\<close> x [symmetric] None refl s y [symmetric] refl this]
          show ?thesis
            using None s y \<open>find_next_mode_start (pending t) = Some x\<close> x
            by (subst (1 2) process_loop.simps) (auto simp: Let_def split: prod.splits)
        qed
      qed
    qed
  qed
qed

interpretation process_op: mirrored_operation "mode_process bytes" for bytes
  by unfold_locales (simp add: mode_process_def process_loop_op.mirrored)

end
