(* ===== verification/Mode_Properties.thy ===== *)
theory Mode_Properties
  imports Mode_Laws
begin

text \<open>
  What the tracker promises: a mirror fed with its notifications agrees with it, a printed mode
  sequence has the effect of the sequence, and nothing inside a control string changes a mode.
\<close>

section \<open>The mirror over a run\<close>

datatype tracker_event =
    Feed "u8 list"
  | Private_Modes private_mode_sequence
  | Kitty_Keyboard kitty_keyboard_mode
  | Key_Modifiers key_modifier_options
  | Finish
  | Clear_Kitty_Flags
  | Allow_Win32 bool

fun tracker_step :: "tracker_event \<Rightarrow> mode_tracker \<Rightarrow> terminal_mode_change list \<times> mode_tracker" where
  "tracker_step (Feed bytes) t = mode_process bytes t"
| "tracker_step (Private_Modes q) t = apply_private_mode_sequence q t"
| "tracker_step (Kitty_Keyboard q) t = apply_kitty_keyboard_sequence q t"
| "tracker_step (Key_Modifiers q) t = apply_key_modifier_options_sequence q t"
| "tracker_step Finish t = tracker_finish t"
| "tracker_step Clear_Kitty_Flags t = ([], clear_kitty_keyboard_flags t)"
| "tracker_step (Allow_Win32 allowed) t = ([], set_allow_win32_input_mode allowed t)"

text \<open>
  The presentation installs the changes that are emitted. The two settings emit nothing, so that it has to be given them
  as well: \<open>set_enable_kitty_keyboard\<close> and \<open>set_allow_win32_input_mode\<close> are called on the runtime of either side.
\<close>

fun mirror_step :: "tracker_event \<Rightarrow> terminal_mode_change list \<Rightarrow> mode_tracker \<Rightarrow> mode_tracker" where
  "mirror_step Clear_Kitty_Flags cs m = clear_kitty_keyboard_flags m"
| "mirror_step (Allow_Win32 allowed) cs m = set_allow_win32_input_mode allowed m"
| "mirror_step e cs m = fold install_change cs m"

fun tracker_run :: "tracker_event list \<Rightarrow> mode_tracker \<times> mode_tracker \<Rightarrow> mode_tracker \<times> mode_tracker" where
  "tracker_run [] (t, m) = (t, m)"
| "tracker_run (e # es) (t, m) =
     (case tracker_step e t of (cs, t1) \<Rightarrow> tracker_run es (t1, mirror_step e cs m))"

lemma mirrors_settings:
  "mirrors t m \<Longrightarrow> mirrors (clear_kitty_keyboard_flags t) (clear_kitty_keyboard_flags m)"
  "mirrors t m \<Longrightarrow> mirrors (set_allow_win32_input_mode a t) (set_allow_win32_input_mode a m)"
  by (auto simp: mirrors_def keys_mirror_bits mouse_mirror_def tracker_mouse_def clear_kitty_keyboard_flags_def
      set_allow_win32_input_mode_def bit_tracked_set Let_def)

lemmas mirrored_operations = process_op.mirrored_operation_axioms private_op.mirrored_operation_axioms
  kitty_op.mirrored_operation_axioms modifier_op.mirrored_operation_axioms finish_op.mirrored_operation_axioms

lemma mirror_step_mirrored: "mirrors t m \<Longrightarrow> tracker_step e t = (cs, t1) \<Longrightarrow> mirrors t1 (mirror_step e cs m)"
  by (cases e) (auto simp: mirrors_settings intro: mirrored_operations [THEN mirrors_step])

lemma tracker_run_mirrored: "mirrors t m \<Longrightarrow> tracker_run es (t, m) = (t', m') \<Longrightarrow> mirrors t' m'"
  by (induction es arbitrary: t m) (auto dest: mirror_step_mirrored split: prod.splits)

text \<open>
  C37: a presentation that starts like the tracker, installs every change the tracker emits, in
  whatever chunks the stream arrives, and is given the two settings that emit nothing as they are given to the
  tracker, agrees with it after every such run on cursor keys, keypad, bracketed paste, focus,
  synchronized output, win32 input, keyboard flags and modifier reporting, and on the mouse mode whenever one of
  the two reports the mouse.
\<close>

theorem mode_mirror_faithful:
  "case tracker_run es (tracker_default, tracker_default) of (t, m) \<Rightarrow> keys_mirror t m \<and> mouse_mirror t m"
  using tracker_run_mirrored [of tracker_default tracker_default es] by (auto simp: mirrors_def split: prod.split)

text \<open>
  the byte that carries a mouse mode between threads gives the mode back, and a mouse mode that
  is installed is the one the mouse modes then describe.
\<close>

theorem mouse_mode_roundtrip: "mouse_from_bits (mouse_bits m) = m \<and> mouse_input_mode_of (mouse_install m) = m"
  by (simp add: mouse_bits_roundtrip mouse_install_input)

section \<open>Printed sequences\<close>

fun print_modes :: "u16 list \<Rightarrow> bool \<Rightarrow> u8 list" where
  "print_modes [] e = []"
| "print_modes [m] e = decimal m @ [if e then 0x68 else 0x6C]"
| "print_modes (m # ms) e = decimal m @ 0x3B # print_modes ms e"

definition digit_step :: "u16 \<Rightarrow> u8 \<Rightarrow> u16" where
  "digit_step m b = min 65535 (min 65535 (m * 10) + (b - 0x30))"

lemma parse_digits_all:
  "list_all is_ascii_digit ds \<Longrightarrow> (rest = [] \<or> \<not> is_ascii_digit (hd rest)) \<Longrightarrow>
     parse_digits (ds @ rest) m c = (foldl digit_step m ds, c + length ds, rest)"
proof (induction ds arbitrary: m c)
  case Nil
  then show ?case by (cases rest) auto
qed (simp add: digit_step_def)

lemma foldl_decimal: "n \<le> 65535 \<Longrightarrow> foldl digit_step 0 (decimal n) = n"
proof (induction n rule: decimal.induct)
  case (1 n)
  show ?case
  proof (cases "n < 10")
    case False
    then have "foldl digit_step 0 (decimal (n div 10)) = n div 10" using 1 by simp
    moreover have "n div 10 * 10 + n mod 10 = n" by simp
    ultimately show ?thesis using False "1.prems" by (subst decimal.simps) (simp add: digit_step_def)
  qed (subst decimal.simps, simp add: digit_step_def)
qed

lemma parse_decimal:
  assumes "n \<le> 65535" and "\<not> is_ascii_digit (hd rest)" and "rest \<noteq> []"
  shows "parse_digits (decimal n @ rest) 0 c = (n, c + length (decimal n), rest)"
  using parse_digits_all [OF decimal_digits, of rest n 0 c] foldl_decimal [OF assms(1)] assms by simp

lemma parse_print:
  assumes "ms \<noteq> []" and "\<forall>m \<in> set ms. m \<le> 65535"
  shows "parse_modes (print_modes ms e) c acc = Parse_Complete (acc @ ms) e (c + length (print_modes ms e))"
  using assms
proof (induction ms e arbitrary: c acc rule: print_modes.induct)
  case (2 m e)
  let ?f = "[if e then 0x68 else 0x6C] :: u8 list"
  have "parse_digits (decimal m @ ?f) 0 c = (m, c + length (decimal m), ?f)"
    using 2 by (intro parse_decimal) (auto simp: is_ascii_digit_def)
  then show ?case by (subst parse_modes.simps) (simp add: decimal_nonempty)
next
  case (3 m k ks e)
  let ?r = "0x3B # print_modes (k # ks) e"
  have "parse_digits (decimal m @ ?r) 0 c = (m, c + length (decimal m), ?r)"
    using 3 by (intro parse_decimal) (auto simp: is_ascii_digit_def)
  then show ?case using 3 by (subst parse_modes.simps) (simp add: decimal_nonempty del: print_modes.simps(2,3) add: print_modes.simps(3))
qed simp

section \<open>Finding the sequence\<close>

lemma find_subslice_front:
  assumes "take (length p) bytes = p" and "p \<noteq> []"
  shows "find_subslice bytes p = Some 0"
proof -
  have "length p \<le> length bytes" using arg_cong [OF assms(1), of length] by simp
  then have "[0 ..< Suc (length bytes) - length p] = 0 # [1 ..< Suc (length bytes) - length p]"
    by (simp add: upt_conv_Cons)
  then show ?thesis
    using assms by (simp add: find_subslice_def raw_c1_prefix_is_utf8_continuation_def
        is_utf8_continuation_in_potential_sequence_def)
qed

lemma find_subslice_not_front: "take (length p) bytes \<noteq> p \<Longrightarrow> p \<noteq> [] \<Longrightarrow> find_subslice bytes p \<noteq> Some 0"
  using find_subslice_Some(2) [of bytes p 0] by auto

text \<open>The first element whose key is 0 is the least.\<close>

lemma min_by_key_zero:
  "(\<forall>y \<in> set ys. key y \<noteq> 0) \<Longrightarrow> key x = 0 \<Longrightarrow> min_by_key key (ys @ x # zs) = Some x"
proof (induction ys)
  case Nil
  then show ?case by (auto split: option.splits)
qed (auto split: option.splits)

definition starts_at_front :: "u8 list \<Rightarrow> u8 list \<times> 'k \<Rightarrow> bool" where
  "starts_at_front bytes e \<longleftrightarrow> take (length (fst e)) bytes = fst e"

lemma map_filter_append: "List.map_filter f (xs @ ys) = List.map_filter f xs @ List.map_filter f ys"
  by (simp add: List.map_filter_def)

lemma find_prefixes_front:
  assumes "ps = qs @ (p, k) # rs" and "\<forall>e \<in> set qs. \<not> starts_at_front bytes e" and "take (length p) bytes = p"
    and "\<forall>e \<in> set ps. fst e \<noteq> []"
  shows "find_prefixes bytes ps = Some (0, k)"
proof -
  let ?f = "\<lambda>(p, k). map_option (\<lambda>i. (i, k)) (find_subslice bytes p)"
  have "find_subslice bytes p = Some 0" using assms by (intro find_subslice_front) auto
  then have "List.map_filter ?f ps = List.map_filter ?f qs @ (0, k) # List.map_filter ?f rs"
    by (simp add: assms(1) map_filter_append List.map_filter_simps)
  moreover have "\<forall>y \<in> set (List.map_filter ?f qs). fst y \<noteq> 0"
  proof
    fix y
    assume "y \<in> set (List.map_filter ?f qs)"
    then obtain q j where q: "(q, j) \<in> set qs" "find_subslice bytes q = Some (fst y)"
      by (auto simp: List.map_filter_def)
    then have "find_subslice bytes q \<noteq> Some 0"
      using assms(1,2,4) by (intro find_subslice_not_front) (auto simp: starts_at_front_def)
    then show "fst y \<noteq> 0" using q by auto
  qed
  ultimately show ?thesis unfolding find_prefixes_def by (simp add: min_by_key_zero)
qed

lemma find_prefixes_not_front:
  assumes "\<forall>e \<in> set ps. \<not> starts_at_front bytes e \<and> fst e \<noteq> []"
  shows "find_prefixes bytes ps \<noteq> Some (0, k)"
proof
  assume f: "find_prefixes bytes ps = Some (0, k)"
  have "\<forall>p \<in> set (map fst ps). p \<noteq> []" using assms by auto
  then obtain p where p: "(p, k) \<in> set ps" "find_subslice bytes p = Some 0" "0 + length p \<le> length bytes"
    by (rule find_prefixes_Some [OF f])
  moreover have "p \<noteq> []" using assms p(1) by force
  ultimately show False using find_subslice_Some(2) [OF p(2)] assms by (auto simp: starts_at_front_def)
qed

lemma mode_start_private:
  assumes "p \<in> {[0x1B, 0x5B, 0x3F], [0x9B, 0x3F], [0xC2, 0x9B, 0x3F]}"
  shows "find_next_mode_start (p @ bs) = Some (0, CsiPrivateMode (length p))"
proof -
  have "find_prefixes (p @ bs) private_prefixes = Some (0, CsiPrivateMode (length p))"
    using assms
  proof (elim insertE emptyE)
    assume "p = [0x1B, 0x5B, 0x3F]"
    then show ?thesis by (intro find_prefixes_front [where qs = "[]"]) (auto simp: private_prefixes_def)
  next
    assume "p = [0x9B, 0x3F]"
    then show ?thesis by (intro find_prefixes_front [where qs = "[([0x1B, 0x5B, 0x3F], CsiPrivateMode 3)]"])
        (auto simp: private_prefixes_def starts_at_front_def)
  next
    assume "p = [0xC2, 0x9B, 0x3F]"
    then show ?thesis by (intro find_prefixes_front [where qs = "[([0x1B, 0x5B, 0x3F], CsiPrivateMode 3), ([0x9B, 0x3F], CsiPrivateMode 2)]"])
        (auto simp: private_prefixes_def starts_at_front_def)
  qed
  then show ?thesis
    unfolding find_next_mode_start_def
    using min_by_key_zero [where ys = "[]" and key = fst and x = "(0, CsiPrivateMode (length p))"]
    by (simp add: List.map_filter_simps)
qed

lemma control_start_not_front:
  assumes "\<forall>e \<in> set (osc_prefixes @ st_prefixes). \<not> starts_at_front bytes e"
    and "find_next_control_string_start bytes = Some s"
  shows "0 < cs_index s"
proof (rule ccontr)
  assume "\<not> 0 < cs_index s"
  then have z: "cs_index s = 0" by simp
  from control_start_prefix [OF assms(2)] show False
    using z find_prefixes_not_front [of osc_prefixes bytes] find_prefixes_not_front [of st_prefixes bytes] assms(1)
    by (auto simp: osc_prefixes_def st_prefixes_def)
qed

lemma not_in_control_string:
  assumes "\<forall>e \<in> set (osc_prefixes @ st_prefixes). \<not> starts_at_front bytes e"
  shows "control_string_containing bytes 0 = None"
  unfolding control_string_containing_def
  by (subst containing_from.simps) (auto simp: Let_def dest: control_start_not_front [OF assms] split: option.splits)

text \<open>The operations do not look at the pending bytes.\<close>

lemma set_tracked_with_pending [simp]: "set_tracked mk e (t\<lparr>pending := b\<rparr>) = (set_tracked mk e t)\<lparr>pending := b\<rparr>"
  by (simp add: set_tracked_def)

lemma apply_mode_with_pending: "apply_mode m e (t\<lparr>pending := b\<rparr>) = map_prod id (\<lambda>u. u\<lparr>pending := b\<rparr>) (apply_mode m e t)"
  by (auto simp: apply_mode_def set_emit_def split: option.splits)

lemma apply_modes_with_pending:
  "apply_modes e ms saw (t\<lparr>pending := b\<rparr>) = (case apply_modes e ms saw t of (cs, saw1, t1) \<Rightarrow> (cs, saw1, t1\<lparr>pending := b\<rparr>))"
proof (induction ms arbitrary: saw t)
  case (Cons m ms)
  obtain f s where f: "mouse_set m e (mouse_modes_of t) = (f, s)" by fastforce
  obtain cs t1 where a: "apply_mode m e t = (cs, t1)" by fastforce
  have u: "t\<lparr>pending := b, mouse_modes_of := s\<rparr> = t\<lparr>mouse_modes_of := s\<rparr>\<lparr>pending := b\<rparr>" by simp
  show ?case
  proof (cases f)
    case True
    then show ?thesis using f Cons.IH [of True "t\<lparr>mouse_modes_of := s\<rparr>"] by (simp add: u)
  next
    case False
    then show ?thesis using f a Cons.IH [of saw t1] by (simp add: apply_mode_with_pending split: prod.splits)
  qed
qed simp

lemma private_with_pending:
  "apply_private_mode_sequence q (t\<lparr>pending := b\<rparr>) = map_prod id (\<lambda>u. u\<lparr>pending := b\<rparr>) (apply_private_mode_sequence q t)"
  by (auto simp: apply_private_mode_sequence_def apply_modes_with_pending emit_mouse_change_def tracker_mouse_def
      split: prod.splits)

lemma process_loop_empty: "pending t = [] \<Longrightarrow> process_loop t = ([], t)"
proof -
  assume "pending t = []"
  moreover have "find_subslice [] p = None" if "p \<noteq> []" for p using that by (cases p) (simp_all add: find_subslice_def)
  then have "find_next_mode_start [] = None"
    by (simp add: find_next_mode_start_def find_prefixes_def prefix_defs List.map_filter_simps)
  moreover have "retain_possible_prefix [] = []" by (simp add: retain_possible_prefix_def)
  ultimately show ?thesis by (subst process_loop.simps) simp
qed

text \<open>
  on a tracker with no bytes pending, a private mode sequence printed with any of its three
  introducers is parsed back: it has exactly the effect and emits exactly the changes of the
  sequence, and leaves nothing pending.
\<close>

theorem printed_private_modes:
  assumes "p \<in> {[0x1B, 0x5B, 0x3F], [0x9B, 0x3F], [0xC2, 0x9B, 0x3F]}" and "ms \<noteq> []" and "\<forall>m \<in> set ms. m \<le> 65535"
    and "pending t = []"
  shows "mode_process (p @ print_modes ms e) t = apply_private_mode_sequence \<lparr>pms_modes = ms, pms_enabled = e\<rparr> t"
proof -
  let ?b = "p @ print_modes ms e" and ?q = "\<lparr>pms_modes = ms, pms_enabled = e\<rparr>"
  obtain cs t1 where q: "apply_private_mode_sequence ?q t = (cs, t1)" by fastforce
  have t1: "pending t1 = []" using private_pending [of ?q t] q assms(4) by simp
  have "list_ex is_mode_candidate_start ?b" using assms(1) by (auto simp: is_mode_candidate_start_def)
  then have start: "mode_process ?b t = process_loop (t\<lparr>pending := ?b\<rparr>)" using assms(4) by (simp add: mode_process_def)
  have "\<forall>x \<in> set (osc_prefixes @ st_prefixes). \<not> starts_at_front ?b x"
    using assms(1) by (auto simp: osc_prefixes_def st_prefixes_def starts_at_front_def)
  then have c: "control_string_containing ?b 0 = None" by (rule not_in_control_string)
  have "parse_mode_sequence ?b (length p) = Parse_Complete ms e (length ?b)"
    using parse_print [OF assms(2,3), of e "length p" "[]"] by (simp add: parse_mode_sequence_def)
  then have a: "apply_sequence (CsiPrivateMode (length p)) (t\<lparr>pending := ?b\<rparr>) = Some (cs, t1\<lparr>pending := ?b\<rparr>, length ?b)"
    by (simp add: private_with_pending q)
  have "process_loop (t\<lparr>pending := ?b\<rparr>) = (case process_loop (t1\<lparr>pending := []\<rparr>) of (ds, t3) \<Rightarrow> (cs @ ds, t3))"
    by (subst process_loop.simps) (simp add: mode_start_private [OF assms(1)] c a Let_def del: apply_sequence.simps)
  also have "t1\<lparr>pending := []\<rparr> = t1" using t1 by simp
  finally show ?thesis using start q process_loop_empty [OF t1] by simp
qed

lemma printed_private_modes_witness:
  "fst (mode_process [0x1B, 0x5B, 0x3F, 0x31, 0x3B, 0x32, 0x30, 0x30, 0x34, 0x68] tracker_default) =
     [ApplicationCursorKeys True, BracketedPaste True]"
proof -
  have d: "print_modes [1, 2004] True = [0x31, 0x3B, 0x32, 0x30, 0x30, 0x34, 0x68]"
    by (simp add: decimal.simps)
  show ?thesis
    using printed_private_modes [of "[0x1B, 0x5B, 0x3F]" "[1, 2004]" tracker_default True] unfolding d
    by (simp add: tracker_default_def apply_private_mode_sequence_def mouse_set_def mouse_mask_def apply_mode_def
        private_mode_bit_def set_emit_def set_tracked_def tracked_set_def tracked_default_def auto_wrap_bit_def
        cursor_visible_bit_def application_cursor_keys_bit_def bracketed_paste_bit_def Let_def)
qed

section \<open>Control strings\<close>

lemma suffix_len_zero:
  assumes "last bytes \<notin> set (butlast needle)" and "bytes \<noteq> []"
  shows "suffix_len_matching_prefix bytes needle = 0"
proof -
  have "drop (length bytes - n) bytes \<noteq> take n needle" if "1 \<le> n" "n \<le> length bytes" "n \<le> length needle - 1" for n
  proof
    assume eq: "drop (length bytes - n) bytes = take n needle"
    then have "last bytes = last (take n needle)" using that assms(2) by (metis diff_less last_drop length_greater_0_conv less_le_trans zero_less_one)
    also have "\<dots> = take n needle ! (length (take n needle) - 1)"
      using that by (intro last_conv_nth) auto
    also have "\<dots> = needle ! (n - 1)" using that by (simp add: min_absorb2)
    also have "\<dots> = butlast needle ! (n - 1)" using that by (simp add: nth_butlast)
    finally show False using assms(1) that by (metis diff_less length_butlast less_le_trans nth_mem zero_less_one)
  qed
  then have "List.find (\<lambda>n. let suffix_start = length bytes - n in
             drop suffix_start bytes = take n needle \<and>
             \<not> raw_c1_prefix_is_utf8_continuation bytes suffix_start (take n needle))
       (rev [1 ..< Suc (min (length bytes) (length needle - 1))]) = None"
    by (auto simp: find_None_iff Let_def)
  then show ?thesis by (simp add: suffix_len_matching_prefix_def Let_def)
qed

lemma terminator_last:
  "terminator_from bytes kind i = Some t \<Longrightarrow> term_index t + term_length t = length bytes \<Longrightarrow>
     last bytes \<in> {0x07, 0x18, 0x1A, 0x5C, 0x9C}"
proof (induction "length bytes - i" arbitrary: i rule: less_induct)
  case less
  have l1: "last bytes = bytes ! i" if "Suc i = length bytes"
    using that by (metis diff_Suc_1 last_conv_nth length_0_conv nat.distinct(1))
  have l2: "last bytes = bytes ! Suc i" if "Suc (Suc i) = length bytes"
    using that by (metis diff_Suc_1 last_conv_nth length_0_conv nat.distinct(1))
  show ?case
  proof (cases "length bytes \<le> i")
    case True
    with less.prems show ?thesis by (subst (asm) terminator_from.simps) simp
  next
    case False
    have "terminator_from bytes kind (i + 1) = Some t \<Longrightarrow> ?thesis"
      using less.hyps [of "i + 1"] False less.prems(2) by simp
    then show ?thesis
      using less.prems False l1 l2
      by (subst (asm) terminator_from.simps) (auto simp: Let_def split: if_splits option.splits)
  qed
qed

lemma find_prefixes_only_front:
  assumes "(p, k) \<in> set ps" and "take (length p) bytes = p" and "\<forall>e \<in> set ps. fst e \<noteq> []"
    and "\<forall>e \<in> set ps. starts_at_front bytes e \<longrightarrow> snd e = k"
  shows "find_prefixes bytes ps = Some (0, k)"
proof -
  let ?xs = "List.map_filter (\<lambda>(p, k). map_option (\<lambda>i. (i, k)) (find_subslice bytes p)) ps"
  have "find_subslice bytes p = Some 0" using assms by (intro find_subslice_front) force+
  then have mem: "(0, k) \<in> set ?xs" using assms(1) by (force simp: List.map_filter_def)
  then obtain j h where x: "find_prefixes bytes ps = Some (j, h)"
    unfolding find_prefixes_def by (cases "min_by_key fst ?xs") (auto simp: min_by_key_None)
  then have j: "j = 0" using min_by_key_least [OF _ mem, of fst "(j, h)"] by (simp add: find_prefixes_def)
  obtain q where q: "(q, h) \<in> set ps" "find_subslice bytes q = Some 0"
    by (rule find_prefixes_Some [OF x]) (use assms(3) j in auto)
  then have "starts_at_front bytes (q, h)"
    using find_subslice_Some(2) [OF q(2)] assms(3) by (force simp: starts_at_front_def)
  then show ?thesis using x j q(1) assms(4) by force
qed

text \<open>The introducers of control strings and the kind each of them opens.\<close>

fun control_prefixes :: "control_string_kind \<Rightarrow> (u8 list \<times> nat) list" where
  "control_prefixes Kind_Osc = osc_prefixes"
| "control_prefixes Kind_St = st_prefixes"

lemma control_start_front:
  assumes "(p, n) \<in> set (control_prefixes kind)"
  shows "find_next_control_string_start (p @ bs) = Some \<lparr>cs_index = 0, cs_prefix_len = n, cs_kind = kind\<rparr>"
proof (cases kind)
  case Kind_Osc
  have "find_prefixes (p @ bs) osc_prefixes = Some (0, n)"
    using assms Kind_Osc
    by (intro find_prefixes_only_front [of p]) (auto simp: osc_prefixes_def starts_at_front_def)
  then show ?thesis
    using Kind_Osc
    by (auto simp: find_next_control_string_start_def find_next_osc_start_def List.map_filter_simps Let_def
        find_next_st_control_string_start_def split: option.splits)
next
  case Kind_St
  have "find_prefixes (p @ bs) st_prefixes = Some (0, n)"
    using assms Kind_St
    by (intro find_prefixes_only_front [of p]) (auto simp: st_prefixes_def starts_at_front_def)
  moreover have "find_prefixes (p @ bs) osc_prefixes \<noteq> Some (0, m)" for m
    using assms Kind_St
    by (intro find_prefixes_not_front) (auto simp: st_prefixes_def osc_prefixes_def starts_at_front_def)
  ultimately show ?thesis
    using Kind_St
    by (auto simp: find_next_control_string_start_def find_next_osc_start_def List.map_filter_simps Let_def
        find_next_st_control_string_start_def split: option.splits)
qed

lemma control_prefix_length: "(p, n) \<in> set (control_prefixes kind) \<Longrightarrow> n = length p \<and> p \<noteq> []"
  by (cases kind) (auto simp: osc_prefixes_def st_prefixes_def)

lemma control_prefix_candidate: "(p, n) \<in> set (control_prefixes kind) \<Longrightarrow> is_mode_candidate_start (hd p)"
  by (cases kind) (auto simp: osc_prefixes_def st_prefixes_def is_mode_candidate_start_def)

lemma retain_nothing:
  assumes "last bytes \<in> {0x07, 0x18, 0x1A, 0x5C, 0x9C}" and "bytes \<noteq> []"
    and "\<forall>kind. incomplete_from bytes kind 0 = 0"
  shows "retain_possible_prefix bytes = []"
proof -
  have "suffix_len_matching_prefix bytes p = 0"
    if "p \<in> set retained_prefixes \<union> {[0x1B, 0x5D], [0x1B, 0x50], [0x1B, 0x58], [0x1B, 0x5E], [0x1B, 0x5F]}" for p
    using that assms(1,2) by (intro suffix_len_zero) (auto simp: retained_prefixes_def)
  then show ?thesis
    using assms(3)
    by (simp add: retain_possible_prefix_def incomplete_osc_control_sequence_suffix_len_def
        incomplete_st_control_sequence_suffix_len_def incomplete_control_string_suffix_len_def retained_prefixes_def)
qed

text \<open>
  a complete control string changes no mode whatever its payload holds, even a whole mode
  sequence: nothing is emitted and the tracker is left as it was, with nothing pending.
\<close>

theorem control_string_opaque:
  assumes "(p, n) \<in> set (control_prefixes kind)" and "pending t = []"
    and "find_control_string_terminator (payload @ e) kind = Some \<lparr>term_index = length payload, term_length = length e\<rparr>"
  shows "mode_process (p @ payload @ e) t = ([], t)"
proof -
  let ?b = "p @ payload @ e"
  note start = control_start_front [OF assms(1)] and len = control_prefix_length [OF assms(1)]
  have "list_ex is_mode_candidate_start ?b"
    using control_prefix_candidate [OF assms(1)] len by (cases p) auto
  then have run: "mode_process ?b t = process_loop (t\<lparr>pending := ?b\<rparr>)" using assms(2) by (simp add: mode_process_def)
  have z: "t\<lparr>pending := []\<rparr> = t" using assms(2) by simp
  show ?thesis
  proof (cases "find_next_mode_start ?b")
    case None
    have "incomplete_from ?b k 0 = 0" for k
      using len assms(3)
      by (subst incomplete_from.simps) (simp add: start Let_def, simp add: incomplete_from.simps)
    moreover have "last (payload @ e) \<in> {0x07, 0x18, 0x1A, 0x5C, 0x9C}"
      using assms(3) unfolding find_control_string_terminator_def by (rule terminator_last) simp
    moreover have "payload @ e \<noteq> []"
      using assms(3) by (auto simp: find_control_string_terminator_def terminator_from.simps)
    ultimately have "retain_possible_prefix ?b = []" by (intro retain_nothing) auto
    then show ?thesis using run None z by (subst (asm) process_loop.simps) simp
  next
    case (Some r)
    obtain i q where r: "r = (i, q)" by fastforce
    have "i < length ?b" using Some unfolding r by (rule mode_start_inside)
    then have "control_string_containing ?b i = Some \<lparr>span_start = 0, span_end = Some (length ?b)\<rparr>"
      unfolding control_string_containing_def using len assms(3)
      by (subst containing_from.simps) (simp add: start Let_def)
    then have "process_loop (t\<lparr>pending := ?b\<rparr>) = process_loop (t\<lparr>pending := []\<rparr>)"
      using Some r by (subst process_loop.simps) simp
    then show ?thesis using run z process_loop_empty [OF assms(2)] by simp
  qed
qed

lemma control_string_opaque_witness:
  "mode_process ([0x1B, 0x5D] @ [0x1B, 0x5B, 0x3F, 0x31, 0x68] @ [0x07]) tracker_default = ([], tracker_default)"
proof (rule control_string_opaque [where n = 2 and kind = Kind_Osc])
  show "find_control_string_terminator ([0x1B, 0x5B, 0x3F, 0x31, 0x68] @ [0x07]) Kind_Osc =
      Some \<lparr>term_index = length [0x1B, 0x5B, 0x3F, 0x31, 0x68::u8], term_length = length [0x07::u8]\<rparr>"
    by (simp add: find_control_string_terminator_def terminator_from.simps)
qed (simp_all add: osc_prefixes_def tracker_default_def)

end
