(* ===== verification/Term_Cell.thy ===== *)
theory Term_Cell
  imports Term_Types
begin

text \<open>
  Cells and the attributes they carry, \<open>rssh-terminal/src/cell.rs\<close> and the enumerations of
  \<open>rssh-terminal/src/lib.rs\<close>. A character is its code point. A wide character is a leader cell with its
  number of columns, followed by continuation cells that say how far back the leader is.
\<close>

section \<open>Attributes\<close>

datatype color = Color_Default | Color_Indexed u8 | Color_Rgb u8 u8 u8 | Color_Rgba u8 u8 u8 u8

datatype cursor_shape = Shape_Block | Shape_Underline | Shape_Bar

datatype cursor_style =
    SteadyBlock | BlinkingBlock | SteadyUnderline | BlinkingUnderline | SteadyBar | BlinkingBar

primrec style_shape :: "cursor_style \<Rightarrow> cursor_shape" where
  "style_shape SteadyBlock = Shape_Block"
| "style_shape BlinkingBlock = Shape_Block"
| "style_shape SteadyUnderline = Shape_Underline"
| "style_shape BlinkingUnderline = Shape_Underline"
| "style_shape SteadyBar = Shape_Bar"
| "style_shape BlinkingBar = Shape_Bar"

definition style_blinking :: "cursor_style \<Rightarrow> bool" where
  "style_blinking s \<longleftrightarrow> s \<in> {BlinkingBlock, BlinkingUnderline, BlinkingBar}"

datatype underline_style =
    Underline_None | Underline_Single | Underline_Double | Underline_Curly | Underline_Dotted | Underline_Dashed

datatype vertical_align = Align_Baseline | Align_Superscript | Align_Subscript

datatype semantic_type = Semantic_Output | Semantic_Prompt | Semantic_Input

section \<open>Cells\<close>

datatype cell_content =
    Blank
  | Text str u8
  | Continuation u8

record cell =
  cell_content :: cell_content
  foreground :: color
  background :: color
  underline_color :: color
  underline_style :: underline_style
  bold :: bool
  faint :: bool
  italic :: bool
  blink :: bool
  rapid_blink :: bool
  underlined :: bool
  double_underline :: bool
  conceal :: bool
  strikethrough :: bool
  overline :: bool
  vertical_align :: vertical_align
  inverse_video :: bool
  protected :: bool
  hyperlink :: "str option"
  cell_semantic :: semantic_type

definition cell_default :: cell where
  "cell_default = \<lparr>cell_content = Blank, foreground = Color_Default, background = Color_Default,
     underline_color = Color_Default, underline_style = Underline_None, bold = False, faint = False,
     italic = False, blink = False, rapid_blink = False, underlined = False, double_underline = False,
     conceal = False, strikethrough = False, overline = False, vertical_align = Align_Baseline,
     inverse_video = False, protected = False, hyperlink = None, cell_semantic = Semantic_Output\<rparr>"

definition set_blank :: "cell \<Rightarrow> cell" where
  "set_blank c = c\<lparr>cell_content := Blank\<rparr>"

definition set_text :: "str \<Rightarrow> u8 \<Rightarrow> cell \<Rightarrow> cell" where
  "set_text grapheme cols c = c\<lparr>cell_content := Text grapheme cols\<rparr>"

definition set_continuation :: "u8 \<Rightarrow> cell \<Rightarrow> cell" where
  "set_continuation leader_delta c = c\<lparr>cell_content := Continuation leader_delta\<rparr>"

definition with_char :: "nat \<Rightarrow> cell" where
  "with_char ch = set_text [ch] 1 cell_default"

definition cell_text :: "cell \<Rightarrow> str" where
  "cell_text c = (case cell_content c of Blank \<Rightarrow> [0x20] | Text g _ \<Rightarrow> g | Continuation _ \<Rightarrow> [])"

definition primary_char :: "cell \<Rightarrow> nat" where
  "primary_char c = (case cell_text c of [] \<Rightarrow> 0x20 | ch # _ \<Rightarrow> ch)"

definition cell_columns :: "cell \<Rightarrow> u8" where
  "cell_columns c = (case cell_content c of Blank \<Rightarrow> 1 | Text _ n \<Rightarrow> n | Continuation _ \<Rightarrow> 0)"

definition is_continuation :: "cell \<Rightarrow> bool" where
  "is_continuation c = (case cell_content c of Continuation _ \<Rightarrow> True | _ \<Rightarrow> False)"

definition is_blank :: "cell \<Rightarrow> bool" where
  "is_blank c = (cell_content c = Blank)"

lemma set_blank_content [simp]: "cell_content (set_blank c) = Blank"
  by (simp add: set_blank_def)

lemma blank_cell_columns [simp]: "cell_columns (set_blank c) = 1"
  by (simp add: cell_columns_def)

lemma blank_not_continuation [simp]: "\<not> is_continuation (set_blank c)"
  by (simp add: is_continuation_def)

lemma cell_default_blank [simp]: "cell_content cell_default = Blank"
  by (simp add: cell_default_def)

end
