(* ===== verification/Term_Params.thy ===== *)
theory Term_Params
  imports Term_Cell
begin

text \<open>
  The parameters of control sequences, \<open>rssh-terminal/src/parser.rs\<close>: numbers of a CSI sequence, the
  graphic rendition (SGR) and how it changes the active style, character sets and tab stops.
\<close>

section \<open>Numbers\<close>

text \<open>
  \<open>str::parse::<u16>\<close> takes an optional plus sign and at least one digit, and refuses values beyond
  16 bits.
\<close>

definition parse_u16 :: "str \<Rightarrow> u16 option" where
  "parse_u16 s =
     (let ds = (case s of [] \<Rightarrow> [] | c # cs \<Rightarrow> if c = 0x2B then cs else s) in
      if ds = [] \<or> \<not> list_all is_ascii_digit ds then None
      else let v = foldl (\<lambda>v d. v * 10 + (d - 0x30)) 0 ds in if v \<le> u16_max then Some v else None)"

definition parse_sgr_numeric_part :: "str \<Rightarrow> u16" where
  "parse_sgr_numeric_part part = (if part = [] then 0 else case parse_u16 part of Some v \<Rightarrow> v | None \<Rightarrow> 0)"

definition parse_csi_params :: "str \<Rightarrow> u16 list" where
  "parse_csi_params params =
     map (\<lambda>part. if part = [] then 0 else case parse_u16 part of Some v \<Rightarrow> v | None \<Rightarrow> 0) (split_on 0x3B params)"

definition parse_private_csi_params :: "str \<Rightarrow> u16 list option" where
  "parse_private_csi_params params =
     (case params of [] \<Rightarrow> None | c # rest \<Rightarrow> if c = 0x3F then Some (parse_csi_params rest) else None)"

definition param_or_one :: "u16 option \<Rightarrow> u16" where
  "param_or_one v = (case v of None \<Rightarrow> 1 | Some n \<Rightarrow> if n = 0 then 1 else n)"

definition csi_count :: "str \<Rightarrow> u16" where
  "csi_count params = param_or_one (nth_opt (parse_csi_params params) 0)"

definition csi_mode :: "str \<Rightarrow> u16" where
  "csi_mode params = (case nth_opt (parse_csi_params params) 0 of Some n \<Rightarrow> n | None \<Rightarrow> 0)"

definition csi_or_private_mode :: "str \<Rightarrow> u16" where
  "csi_or_private_mode params =
     (let vs = (case parse_private_csi_params params of Some vs \<Rightarrow> vs | None \<Rightarrow> parse_csi_params params)
      in case nth_opt vs 0 of Some n \<Rightarrow> n | None \<Rightarrow> 0)"

definition csi_is_private :: "str \<Rightarrow> bool" where
  "csi_is_private params = (case params of [] \<Rightarrow> False | c # _ \<Rightarrow> c = 0x3F)"

definition saturating_u8 :: "u16 \<Rightarrow> u8" where
  "saturating_u8 v = (if v \<le> 255 then v else 255)"

section \<open>Graphic rendition\<close>

datatype sgr_parameter = Sgr_Code u16 | Sgr_Underline underline_style

definition underline_style_from_sgr :: "u16 \<Rightarrow> underline_style" where
  "underline_style_from_sgr n =
     (if n = 0 then Underline_None else if n = 2 then Underline_Double else if n = 3 then Underline_Curly
      else if n = 4 then Underline_Dotted else if n = 5 then Underline_Dashed else Underline_Single)"

definition parse_sgr_group :: "str \<Rightarrow> sgr_parameter list" where
  "parse_sgr_group grp =
     (if grp = [] then [Sgr_Code 0]
      else let vals = map parse_sgr_numeric_part (split_on 0x3A grp) in
        if 0x3A \<in> set grp \<and> nth_opt vals 0 = Some 4
        then [Sgr_Underline (case nth_opt vals 1 of None \<Rightarrow> Underline_None | Some v \<Rightarrow> underline_style_from_sgr v)]
        else map Sgr_Code vals)"

definition parse_sgr_params :: "str \<Rightarrow> sgr_parameter list" where
  "parse_sgr_params params =
     (if params = [] then [Sgr_Code 0] else concat (map parse_sgr_group (split_on 0x3B params)))"

definition rgb_of :: "u16 \<Rightarrow> u16 \<Rightarrow> u16 \<Rightarrow> color" where
  "rgb_of r g b = Color_Rgb (saturating_u8 r) (saturating_u8 g) (saturating_u8 b)"

definition rgba_of :: "u16 \<Rightarrow> u16 \<Rightarrow> u16 \<Rightarrow> u16 \<Rightarrow> color" where
  "rgba_of r g b a = Color_Rgba (saturating_u8 r) (saturating_u8 g) (saturating_u8 b) (saturating_u8 a)"

text \<open>The colour after code 38, 48 or 58 and how many parameters it takes; the arms are tried in order.\<close>

definition parse_extended_color :: "sgr_parameter list \<Rightarrow> (color \<times> nat) option" where
  "parse_extended_color vs =
     (case vs of
        Sgr_Code k # Sgr_Code a # rest \<Rightarrow>
          if k = 5 then Some (Color_Indexed (saturating_u8 a), 2)
          else if k = 2 then
            (case rest of
               Sgr_Code b # Sgr_Code c # Sgr_Code d # _ \<Rightarrow>
                 if a = 0 then Some (rgb_of b c d, 5) else Some (rgb_of a b c, 4)
             | Sgr_Code b # Sgr_Code c # _ \<Rightarrow> Some (rgb_of a b c, 4)
             | _ \<Rightarrow> None)
          else if k = 6 then
            (case rest of
               Sgr_Code b # Sgr_Code c # Sgr_Code d # Sgr_Code e # _ \<Rightarrow>
                 if a = 0 then Some (rgba_of b c d e, 6) else Some (rgba_of a b c d, 5)
             | Sgr_Code b # Sgr_Code c # Sgr_Code d # _ \<Rightarrow> Some (rgba_of a b c d, 5)
             | _ \<Rightarrow> None)
          else None
      | _ \<Rightarrow> None)"

definition apply_underline_style :: "underline_style \<Rightarrow> cell \<Rightarrow> cell" where
  "apply_underline_style u c =
     c\<lparr>underline_style := u,
       underlined := (u \<in> {Underline_Single, Underline_Curly, Underline_Dotted, Underline_Dashed}),
       double_underline := (u = Underline_Double)\<rparr>"

definition reset_style :: "cell \<Rightarrow> cell" where
  "reset_style c = cell_default\<lparr>hyperlink := hyperlink c, cell_semantic := cell_semantic c\<rparr>"

text \<open>The codes that stand alone; the three colour introducers are handled by the loop.\<close>

definition sgr_code :: "u16 \<Rightarrow> cell \<Rightarrow> cell" where
  "sgr_code n c =
     (if n = 0 then reset_style c
      else if n = 1 then c\<lparr>bold := True\<rparr>
      else if n = 2 then c\<lparr>faint := True\<rparr>
      else if n = 3 then c\<lparr>italic := True\<rparr>
      else if n = 4 then apply_underline_style Underline_Single c
      else if n = 5 then c\<lparr>blink := True, rapid_blink := False\<rparr>
      else if n = 6 then c\<lparr>blink := True, rapid_blink := True\<rparr>
      else if n = 7 then c\<lparr>inverse_video := True\<rparr>
      else if n = 8 then c\<lparr>conceal := True\<rparr>
      else if n = 9 then c\<lparr>strikethrough := True\<rparr>
      else if n = 22 then c\<lparr>bold := False, faint := False\<rparr>
      else if n = 21 then apply_underline_style Underline_Double c
      else if n = 23 then c\<lparr>italic := False\<rparr>
      else if n = 24 then apply_underline_style Underline_None c
      else if n = 25 then c\<lparr>blink := False, rapid_blink := False\<rparr>
      else if n = 27 then c\<lparr>inverse_video := False\<rparr>
      else if n = 28 then c\<lparr>conceal := False\<rparr>
      else if n = 29 then c\<lparr>strikethrough := False\<rparr>
      else if 30 \<le> n \<and> n \<le> 37 then c\<lparr>foreground := Color_Indexed (saturating_u8 (n - 30))\<rparr>
      else if n = 39 then c\<lparr>foreground := Color_Default\<rparr>
      else if 40 \<le> n \<and> n \<le> 47 then c\<lparr>background := Color_Indexed (saturating_u8 (n - 40))\<rparr>
      else if n = 49 then c\<lparr>background := Color_Default\<rparr>
      else if n = 53 then c\<lparr>overline := True\<rparr>
      else if n = 55 then c\<lparr>overline := False\<rparr>
      else if n = 73 then c\<lparr>vertical_align := Align_Superscript\<rparr>
      else if n = 74 then c\<lparr>vertical_align := Align_Subscript\<rparr>
      else if n = 75 then c\<lparr>vertical_align := Align_Baseline\<rparr>
      else if n = 59 then c\<lparr>underline_color := Color_Default\<rparr>
      else if 90 \<le> n \<and> n \<le> 97 then c\<lparr>foreground := Color_Indexed (saturating_u8 (n - 90 + 8))\<rparr>
      else if 100 \<le> n \<and> n \<le> 107 then c\<lparr>background := Color_Indexed (saturating_u8 (n - 100 + 8))\<rparr>
      else c)"

definition sgr_color :: "u16 \<Rightarrow> color \<Rightarrow> cell \<Rightarrow> cell" where
  "sgr_color n col c =
     (if n = 38 then c\<lparr>foreground := col\<rparr> else if n = 48 then c\<lparr>background := col\<rparr>
      else if n = 58 then c\<lparr>underline_color := col\<rparr> else c)"

function sgr_loop :: "sgr_parameter list \<Rightarrow> cell \<Rightarrow> cell" where
  "sgr_loop [] c = c"
| "sgr_loop (Sgr_Underline u # vs) c = sgr_loop vs (apply_underline_style u c)"
| "sgr_loop (Sgr_Code n # vs) c =
     (if n \<in> {38, 48, 58} then
        (case parse_extended_color vs of
           Some (col, consumed) \<Rightarrow> sgr_loop (drop consumed vs) (sgr_color n col c)
         | None \<Rightarrow> sgr_loop vs c)
      else sgr_loop vs (sgr_code n c))"
  by pat_completeness auto
termination by (relation "measure (\<lambda>(vs, c). length vs)") auto

definition apply_sgr :: "str \<Rightarrow> cell \<Rightarrow> cell" where
  "apply_sgr params style = sgr_loop (parse_sgr_params params) style"

section \<open>Character sets\<close>

datatype character_set = Charset_Ascii | DecSpecialGraphics

definition parse_g0_character_set :: "nat \<Rightarrow> character_set option" where
  "parse_g0_character_set ch =
     (if ch = 0x42 then Some Charset_Ascii else if ch = 0x30 then Some DecSpecialGraphics else None)"

definition dec_special_graphics :: "(nat \<times> nat) list" where
  "dec_special_graphics =
     [(0x60, 0x25C6), (0x61, 0x2592), (0x6A, 0x2518), (0x6B, 0x2510), (0x6C, 0x250C), (0x6D, 0x2514),
      (0x6E, 0x253C), (0x6F, 0x23BA), (0x70, 0x23BB), (0x71, 0x2500), (0x72, 0x23BC), (0x73, 0x23BD),
      (0x74, 0x251C), (0x75, 0x2524), (0x76, 0x2534), (0x77, 0x252C), (0x78, 0x2502), (0x7E, 0x00B7)]"

definition map_dec_special_graphics :: "nat \<Rightarrow> nat" where
  "map_dec_special_graphics ch = (case map_of dec_special_graphics ch of Some g \<Rightarrow> g | None \<Rightarrow> ch)"

section \<open>Tab stops\<close>

text \<open>The stops are an ascending list of columns.\<close>

type_synonym tab_stops = "u16 list"

function default_stops_from :: "u16 \<Rightarrow> u16 \<Rightarrow> tab_stops" where
  "default_stops_from column cols =
     (if column < cols \<and> cols \<le> u16_max then column # default_stops_from (sat_add_u16 column 8) cols else [])"
  by pat_completeness auto
termination
  by (relation "measure (\<lambda>(column, cols). cols - column)") (auto simp: sat_add_u16_def)

declare default_stops_from.simps [simp del]

definition default_tab_stops :: "terminal_size \<Rightarrow> tab_stops" where
  "default_tab_stops sz = default_stops_from 8 (size_columns sz)"

definition tab_stops_resize :: "terminal_size \<Rightarrow> tab_stops \<Rightarrow> tab_stops" where
  "tab_stops_resize sz = filter (\<lambda>column. column < size_columns sz)"

text \<open>
  \<open>binary_search\<close> finds a column of an ascending list exactly when it is there, and
  \<open>partition_point\<close> is the number of stops before it.
\<close>

definition tab_stops_set :: "u16 \<Rightarrow> terminal_size \<Rightarrow> tab_stops \<Rightarrow> tab_stops" where
  "tab_stops_set column sz stops =
     (if column \<ge> size_columns sz \<or> column \<in> set stops then stops
      else insert_nth (length (takeWhile (\<lambda>stop. stop < column) stops)) column stops)"

definition tab_stops_clear :: "u16 \<Rightarrow> tab_stops \<Rightarrow> tab_stops" where
  "tab_stops_clear column = filter (\<lambda>stop. stop \<noteq> column)"

definition tab_stops_clear_all :: "tab_stops \<Rightarrow> tab_stops" where
  "tab_stops_clear_all stops = []"

definition next_after :: "u16 \<Rightarrow> u16 \<Rightarrow> tab_stops \<Rightarrow> u16" where
  "next_after column fallback stops = (case List.find (\<lambda>stop. stop > column) stops of Some s \<Rightarrow> s | None \<Rightarrow> fallback)"

definition previous_before :: "u16 \<Rightarrow> tab_stops \<Rightarrow> u16" where
  "previous_before column stops = (case List.find (\<lambda>stop. stop < column) (rev stops) of Some s \<Rightarrow> s | None \<Rightarrow> 0)"

end
