(* ===== verification/Term_Graphics.thy ===== *)
theory Term_Graphics
  imports Term_Params "HOL-Library.AList"
begin

text \<open>
  Inline images and their cells, \<open>rssh-terminal/src/parser.rs\<close> with the types of \<open>lib.rs\<close>: placements with
  the identities of their parents, the attachments that tie an image to cells, the placeholder cells
  of virtual placements and the store of uploaded images. Rows count from the oldest row of the
  history. A hash map is an association list with distinct keys, whose order is that of its iteration.
  The numbers of identities and rows are unbounded: the code stops with a panic when they leave 64 bits.
\<close>

section \<open>Data\<close>

datatype inline_image_format = Format_Encoded | Format_Rgb | Format_Rgba

record inline_image =
  im_row :: usize
  im_column :: u16
  im_name :: "str option"
  im_kitty_image_id :: "u32 option"
  im_kitty_placement_id :: "u32 option"
  im_kitty_z_index :: "i32 option"
  im_size :: "usize option"
  im_width :: "str option"
  im_height :: "str option"
  im_preserve_aspect_ratio :: "bool option"
  im_format :: inline_image_format
  im_pixel_width :: "u32 option"
  im_pixel_height :: "u32 option"
  im_source_x :: "u32 option"
  im_source_y :: "u32 option"
  im_source_width :: "u32 option"
  im_source_height :: "u32 option"
  im_target_x :: "u32 option"
  im_target_y :: "u32 option"
  im_data :: "u8 list"

record cell_attachment =
  at_parent :: u64
  at_source_row :: u16
  at_source_column :: u16
  at_row :: usize
  at_column :: u16

type_synonym kitty_placement_key = "u32 \<times> u32"

record kitty_source_rect =
  rect_x :: "u32 option"
  rect_y :: "u32 option"
  rect_width :: "u32 option"
  rect_height :: "u32 option"

record kitty_virtual_placement =
  vp_image_id :: u32
  vp_placement_id :: "u32 option"
  vp_z_index :: "i32 option"
  vp_display_columns :: "u16 option"
  vp_display_rows :: "u16 option"
  vp_source_rect :: kitty_source_rect
  vp_target_x :: "u32 option"
  vp_target_y :: "u32 option"

record stored_kitty_image =
  st_format :: inline_image_format
  st_pixel_width :: "u32 option"
  st_pixel_height :: "u32 option"
  st_display_columns :: "u16 option"
  st_display_rows :: "u16 option"
  st_data :: "u8 list"

record last_kitty_placeholder =
  lp_row :: usize
  lp_column :: u16
  lp_foreground :: color
  lp_underline_color :: color
  lp_image_id_high_byte :: u32
  lp_placeholder_row :: u32
  lp_placeholder_column :: u32

record pending_kitty_placeholder =
  pp_row :: usize
  pp_column :: u16
  pp_foreground :: color
  pp_underline_color :: color
  pp_image_id :: "u32 option"
  pp_placement_id :: "u32 option"
  pp_diacritics :: "u32 list"
  pp_rendered_row :: "usize option"
  pp_rendered_column :: "u16 option"
  pp_rendered_image_id :: "u32 option"
  pp_rendered_placement_id :: "u32 option"

datatype kitty_transmission_medium = Medium_Direct | Medium_File | Medium_TempFile

datatype kitty_upload_action = Upload_Display | Upload_Store | Upload_Query

record pending_kitty_graphics =
  pk_format :: inline_image_format
  pk_medium :: kitty_transmission_medium
  pk_compression :: "nat option"
  pk_action :: kitty_upload_action
  pk_image_id :: "u32 option"
  pk_image_number :: "u32 option"
  pk_placement_id :: "u32 option"
  pk_z_index :: "i32 option"
  pk_pixel_width :: "u32 option"
  pk_pixel_height :: "u32 option"
  pk_display_columns :: "u16 option"
  pk_display_rows :: "u16 option"
  pk_no_cursor_movement :: bool
  pk_source_x :: "u32 option"
  pk_source_y :: "u32 option"
  pk_source_width :: "u32 option"
  pk_source_height :: "u32 option"
  pk_target_x :: "u32 option"
  pk_target_y :: "u32 option"
  pk_file_offset :: "u64 option"
  pk_file_size :: "u64 option"
  pk_quiet :: "u8 option"
  pk_virtual_placement :: bool
  pk_encoded_data :: str

text \<open>
  The fields of \<open>Terminal\<close> that concern images. The first six are also saved with the main screen while
  the alternate screen is active. \<open>removed_files\<close> is not a field of the code: it lists the files the
  terminal has asked the system to remove, the newest first.
\<close>

record screen_graphics =
  inline_images :: "inline_image list"
  inline_image_parent_ids :: "u64 list"
  inline_image_attachments :: "cell_attachment list"
  kitty_character_edited_placements :: "kitty_placement_key set"
  last_placeholder :: "last_kitty_placeholder option"
  kitty_placeholder_cells :: "((usize \<times> u16) \<times> last_kitty_placeholder) list"

record graphics = screen_graphics +
  next_inline_image_parent_identity :: u64
  kitty_images :: "(u32 \<times> stored_kitty_image) list"
  kitty_image_numbers :: "(u32 \<times> u32) list"
  kitty_relative_parents :: "(kitty_placement_key \<times> kitty_placement_key) list"
  kitty_virtual_placements :: "(kitty_placement_key \<times> kitty_virtual_placement) list"
  pending_placeholder :: "pending_kitty_placeholder option"
  next_kitty_image_id :: u32
  pending_upload :: "pending_kitty_graphics option"
  kitty_graphics_responses :: "u8 list list"
  enable_kitty_graphics :: bool
  removed_files :: "str list"

section \<open>Geometry of an image\<close>

definition parse_u32 :: "str \<Rightarrow> u32 option" where
  "parse_u32 s =
     (let ds = (case s of [] \<Rightarrow> [] | c # cs \<Rightarrow> if c = 0x2B then cs else s) in
      if ds = [] \<or> \<not> list_all is_ascii_digit ds then None
      else let v = foldl (\<lambda>v d. v * 10 + (d - 0x30)) 0 ds in if v \<le> u32_max then Some v else None)"

definition positive :: "nat option \<Rightarrow> nat option" where
  "positive v = (case v of Some n \<Rightarrow> if n > 0 then Some n else None | None \<Rightarrow> None)"

definition parse_positive_u32 :: "str \<Rightarrow> u32 option" where
  "parse_positive_u32 s = positive (parse_u32 s)"

definition parse_positive_u16 :: "str \<Rightarrow> u16 option" where
  "parse_positive_u16 s = positive (parse_u16 s)"

definition strip_px :: "str \<Rightarrow> str option" where
  "strip_px s = (if length s \<ge> 2 \<and> drop (length s - 2) s = [0x70, 0x78] then Some (take (length s - 2) s) else None)"

definition inline_image_axis_cells :: "str option \<Rightarrow> u16 \<Rightarrow> u16" where
  "inline_image_axis_cells v cell_pixels =
     (case v of
        None \<Rightarrow> 1
      | Some s \<Rightarrow>
          (case Option.bind (strip_px s) parse_positive_u32 of
             Some pixels \<Rightarrow>
               (let cell_pixels = max 1 cell_pixels; cells = min u32_max (pixels + (cell_pixels - 1)) div cell_pixels
                in max 1 (if cells \<le> u16_max then cells else u16_max))
           | None \<Rightarrow> (case parse_positive_u16 s of Some n \<Rightarrow> n | None \<Rightarrow> 1)))"

definition inline_image_width_cells :: "str option \<Rightarrow> u16" where
  "inline_image_width_cells v = inline_image_axis_cells v 8"

definition inline_image_height_cells :: "str option \<Rightarrow> u16" where
  "inline_image_height_cells v = inline_image_axis_cells v 16"

definition kitty_image_column_range :: "inline_image \<Rightarrow> u16 \<times> u16" where
  "kitty_image_column_range im =
     (let w = max 1 (inline_image_width_cells (im_width im))
      in (im_column im, max (sat_add_u16 (im_column im) w) (sat_add_u16 (im_column im) 1)))"

definition kitty_image_row_range :: "inline_image \<Rightarrow> usize \<times> usize" where
  "kitty_image_row_range im =
     (let h = max 1 (inline_image_height_cells (im_height im)) in (im_row im, max (im_row im + h) (im_row im + 1)))"

definition inline_image_intersects_region :: "inline_image \<Rightarrow> usize \<Rightarrow> usize \<Rightarrow> u16 \<Rightarrow> u16 \<Rightarrow> bool" where
  "inline_image_intersects_region im first_row last_row first_column last_column \<longleftrightarrow>
     (case kitty_image_column_range im of (left, right) \<Rightarrow> case kitty_image_row_range im of (upper, lower) \<Rightarrow>
        upper < last_row \<and> lower > first_row \<and> left < last_column \<and> right > first_column)"

definition cell_attachment_dimensions :: "inline_image \<Rightarrow> (u16 \<times> u16) option" where
  "cell_attachment_dimensions im =
     (let in_pixels = (\<lambda>v. case v of None \<Rightarrow> False | Some s \<Rightarrow> strip_px s \<noteq> None) in
      if in_pixels (im_width im) \<or> in_pixels (im_height im) then None
      else let cols = (case Option.bind (im_width im) parse_positive_u16 of Some n \<Rightarrow> n | None \<Rightarrow> 1);
               rows = (case Option.bind (im_height im) parse_positive_u16 of Some n \<Rightarrow> n | None \<Rightarrow> 1)
        in if cols * rows > 0 \<and> cols * rows \<le> 1000000 then Some (cols, rows) else None)"

definition cell_attachments_for_image :: "u64 \<Rightarrow> inline_image \<Rightarrow> cell_attachment list" where
  "cell_attachments_for_image parent_identity im =
     (case cell_attachment_dimensions im of
        None \<Rightarrow> []
      | Some (cols, rows) \<Rightarrow>
          if im_column im + (cols - 1) > u16_max then []
          else concat (map (\<lambda>r. map (\<lambda>c. \<lparr>at_parent = parent_identity, at_source_row = r, at_source_column = c,
                 at_row = im_row im + r, at_column = im_column im + c\<rparr>) [0 ..< cols]) [0 ..< rows]))"

section \<open>Placements\<close>

definition placement_key_of :: "u32 option \<Rightarrow> u32 option \<Rightarrow> kitty_placement_key option" where
  "placement_key_of image_id placement_id =
     Option.bind image_id (\<lambda>i. map_option (\<lambda>p. (i, p)) placement_id)"

definition kitty_image_placement_key :: "inline_image \<Rightarrow> kitty_placement_key option" where
  "kitty_image_placement_key im = placement_key_of (im_kitty_image_id im) (im_kitty_placement_id im)"

definition retain_edited ::
  "inline_image list \<Rightarrow> u64 list \<Rightarrow> cell_attachment list \<Rightarrow> (kitty_placement_key \<times> kitty_virtual_placement) list
    \<Rightarrow> kitty_placement_key set \<Rightarrow> kitty_placement_key set" where
  "retain_edited images parents attachments virtuals edited =
     (let virtual_parent_ids = rev (List.map_filter (\<lambda>(im, pid).
            (case kitty_image_placement_key im of
               Some key \<Rightarrow> if map_of virtuals key \<noteq> None then Some (key, pid) else None
             | None \<Rightarrow> None)) (zip images parents));
          live = set (map at_parent attachments)
      in Set.filter (\<lambda>key. case map_of virtual_parent_ids key of Some pid \<Rightarrow> pid \<in> live | None \<Rightarrow> False) edited)"

definition retain_kitty_character_edited_placements :: "graphics \<Rightarrow> graphics" where
  "retain_kitty_character_edited_placements g =
     g\<lparr>kitty_character_edited_placements := retain_edited (inline_images g) (inline_image_parent_ids g)
         (inline_image_attachments g) (kitty_virtual_placements g) (kitty_character_edited_placements g)\<rparr>"

definition clear_inline_images :: "graphics \<Rightarrow> graphics" where
  "clear_inline_images g = g\<lparr>inline_images := [], inline_image_parent_ids := [], inline_image_attachments := [],
     kitty_character_edited_placements := {}\<rparr>"

definition push_inline_image :: "inline_image \<Rightarrow> graphics \<Rightarrow> graphics" where
  "push_inline_image im g =
     (let pid = next_inline_image_parent_identity g in
      g\<lparr>next_inline_image_parent_identity := pid + 1,
        inline_image_attachments := inline_image_attachments g @ cell_attachments_for_image pid im,
        inline_images := inline_images g @ [im],
        inline_image_parent_ids := inline_image_parent_ids g @ [pid]\<rparr>)"

definition ensure_inline_image_parent_ids :: "graphics \<Rightarrow> graphics" where
  "ensure_inline_image_parent_ids g =
     (let missing = length (inline_images g) - length (inline_image_parent_ids g);
          next = next_inline_image_parent_identity g
      in g\<lparr>next_inline_image_parent_identity := next + missing,
           inline_image_parent_ids := take (length (inline_images g))
             (inline_image_parent_ids g @ [next ..< next + missing])\<rparr>)"

definition retain_inline_images :: "(inline_image \<Rightarrow> bool) \<Rightarrow> graphics \<Rightarrow> graphics" where
  "retain_inline_images keep g =
     (let g = ensure_inline_image_parent_ids g;
          kept = filter (\<lambda>(im, pid). keep im) (zip (inline_images g) (inline_image_parent_ids g));
          ids = map snd kept
      in retain_kitty_character_edited_placements (g\<lparr>
           inline_image_attachments := filter (\<lambda>a. at_parent a \<in> set ids) (inline_image_attachments g),
           inline_images := map fst kept, inline_image_parent_ids := ids\<rparr>))"

definition remove_unreferenced_kitty_images :: "u32 list \<Rightarrow> graphics \<Rightarrow> graphics" where
  "remove_unreferenced_kitty_images ids g = fold (\<lambda>i g.
     if list_ex (\<lambda>im. im_kitty_image_id im = Some i) (inline_images g) \<or>
        list_ex (\<lambda>(k, p). vp_image_id p = i) (kitty_virtual_placements g) then g
     else g\<lparr>kitty_images := filter (\<lambda>(k, _). k \<noteq> i) (kitty_images g),
            kitty_image_numbers := filter (\<lambda>(_, i2). i2 \<noteq> i) (kitty_image_numbers g)\<rparr>) ids g"

text \<open>
  The loop removes a key in every turn that does not end it: a turn is one iteration and the number
  of keys bounds how many there are.
\<close>

definition live_placements :: "graphics \<Rightarrow> kitty_placement_key list" where
  "live_placements g = List.map_filter kitty_image_placement_key (inline_images g)"

definition orphan_keys :: "graphics \<Rightarrow> kitty_placement_key list" where
  "orphan_keys g = map fst (filter (\<lambda>(child, parent).
     parent \<notin> set (live_placements g) \<or> child \<notin> set (live_placements g)) (kitty_relative_parents g))"

definition orphan_turn :: "bool \<Rightarrow> graphics \<Rightarrow> graphics" where
  "orphan_turn remove_stored g =
     (let orphans = orphan_keys g;
          is_orphan = (\<lambda>im. case kitty_image_placement_key im of Some k \<Rightarrow> k \<in> set orphans | None \<Rightarrow> False);
          removed = List.map_filter (\<lambda>im. if is_orphan im then im_kitty_image_id im else None) (inline_images g);
          g = g\<lparr>kitty_relative_parents := filter (\<lambda>(child, _). child \<notin> set orphans) (kitty_relative_parents g)\<rparr>;
          g = retain_inline_images (\<lambda>im. \<not> is_orphan im) g
      in if remove_stored then remove_unreferenced_kitty_images removed g else g)"

lemma ensure_relative_parents [simp]: "kitty_relative_parents (ensure_inline_image_parent_ids g) = kitty_relative_parents g"
  by (simp add: ensure_inline_image_parent_ids_def Let_def)

lemma retain_relative_parents [simp]: "kitty_relative_parents (retain_inline_images keep g) = kitty_relative_parents g"
  by (simp add: retain_inline_images_def retain_kitty_character_edited_placements_def Let_def)

lemma remove_unreferenced_relative_parents [simp]:
  "kitty_relative_parents (remove_unreferenced_kitty_images ids g) = kitty_relative_parents g"
  unfolding remove_unreferenced_kitty_images_def by (induction ids arbitrary: g) auto

lemma orphan_turn_relative_parents:
  "kitty_relative_parents (orphan_turn b g) = filter (\<lambda>(child, _). child \<notin> set (orphan_keys g)) (kitty_relative_parents g)"
  by (simp add: orphan_turn_def Let_def)

function remove_orphan_kitty_relative_children :: "bool \<Rightarrow> graphics \<Rightarrow> graphics" where
  "remove_orphan_kitty_relative_children remove_stored g =
     (if orphan_keys g = []
      then g\<lparr>kitty_relative_parents := filter (\<lambda>(child, parent).
             child \<in> set (live_placements g) \<and> parent \<in> set (live_placements g)) (kitty_relative_parents g)\<rparr>
      else remove_orphan_kitty_relative_children remove_stored (orphan_turn remove_stored g))"
  by pat_completeness auto
termination
proof (relation "measure (\<lambda>(b, g). length (kitty_relative_parents g))", goal_cases)
  case (2 b g)
  then obtain k where k: "k \<in> set (orphan_keys g)" by (cases "orphan_keys g") auto
  then obtain p where "(k, p) \<in> set (kitty_relative_parents g)" by (auto simp: orphan_keys_def)
  then have "length (filter (\<lambda>(child, _). child \<notin> set (orphan_keys g)) (kitty_relative_parents g)) <
      length (kitty_relative_parents g)"
    using k by (intro length_filter_less) auto
  then show ?case by (simp add: orphan_turn_relative_parents)
qed simp

declare remove_orphan_kitty_relative_children.simps [simp del]

definition delete_orphan_kitty_relative_children :: "graphics \<Rightarrow> graphics" where
  "delete_orphan_kitty_relative_children = remove_orphan_kitty_relative_children True"

definition retire_orphan_kitty_relative_children :: "graphics \<Rightarrow> graphics" where
  "retire_orphan_kitty_relative_children = remove_orphan_kitty_relative_children False"

definition clear_kitty_graphics :: "graphics \<Rightarrow> graphics" where
  "clear_kitty_graphics g =
     (retain_inline_images (\<lambda>im. im_kitty_image_id im = None) g)\<lparr>kitty_images := [], kitty_image_numbers := [],
       kitty_relative_parents := [], kitty_virtual_placements := [], kitty_character_edited_placements := {},
       pending_placeholder := None, last_placeholder := None, kitty_placeholder_cells := [],
       pending_upload := None\<rparr>"

end
