(* ===== verification/Term_Placement.thy ===== *)
theory Term_Placement
  imports Term_Graphics "HOL-Library.Multiset"
begin

text \<open>
  How images follow the cells of the screen, \<open>rssh-terminal/src/parser.rs\<close>: the transforms of bounded
  edits, the scrolling of whole rows, the rebasing of history rows and the placeholder cells. The
  number of history rows, which the code reads as \<open>self.scrollback.len()\<close>, is the argument \<open>base\<close>.
\<close>

section \<open>Cell transforms\<close>

datatype cell_transform =
    ScrollUp usize usize usize u16 u16
  | ScrollDown usize usize usize u16 u16
  | InsertCharacters usize u16 u16 u16
  | DeleteCharacters usize u16 u16 u16

fun is_character_edit :: "cell_transform \<Rightarrow> bool" where
  "is_character_edit (InsertCharacters _ _ _ _) = True"
| "is_character_edit (DeleteCharacters _ _ _ _) = True"
| "is_character_edit _ = False"

definition checked_sub :: "nat \<Rightarrow> nat \<Rightarrow> nat option" where
  "checked_sub a b = (if b \<le> a then Some (a - b) else None)"

definition checked_add_u16 :: "u16 \<Rightarrow> u16 \<Rightarrow> u16 option" where
  "checked_add_u16 a b = (if a + b \<le> u16_max then Some (a + b) else None)"

fun transform_area :: "cell_transform \<Rightarrow> usize \<times> usize \<times> u16 \<times> u16" where
  "transform_area (ScrollUp u l n a b) = (u, l, a, b)"
| "transform_area (ScrollDown u l n a b) = (u, l, a, b)"
| "transform_area (InsertCharacters r c n b) = (r, r, c, b)"
| "transform_area (DeleteCharacters r c n b) = (r, r, c, b)"

fun move_coordinate :: "cell_transform \<Rightarrow> usize \<Rightarrow> u16 \<Rightarrow> (usize \<times> u16) option" where
  "move_coordinate (ScrollUp u l n a b) row column =
     (case checked_sub row n of None \<Rightarrow> None | Some r \<Rightarrow> if r \<ge> u then Some (r, column) else None)"
| "move_coordinate (ScrollDown u l n a b) row column =
     (case checked_sub (l + 1) n of
        None \<Rightarrow> None
      | Some blank_start \<Rightarrow> if row \<ge> blank_start then None else Some (row + n, column))"
| "move_coordinate (InsertCharacters r c n b) row column =
     (case checked_add_u16 b 1 of
        None \<Rightarrow> None
      | Some e \<Rightarrow>
          (case checked_sub e n of
             None \<Rightarrow> None
           | Some shift_end \<Rightarrow>
               if column \<ge> shift_end then None else map_option (\<lambda>c. (row, c)) (checked_add_u16 column n)))"
| "move_coordinate (DeleteCharacters r c n b) row column =
     (case checked_add_u16 c n of
        None \<Rightarrow> None
      | Some first_source \<Rightarrow>
          if column < first_source then None else map_option (\<lambda>c. (row, c)) (checked_sub column n))"

definition apply_coordinate :: "cell_transform \<Rightarrow> usize \<Rightarrow> u16 \<Rightarrow> (usize \<times> u16) option" where
  "apply_coordinate tr row column =
     (case transform_area tr of (u, l, a, b) \<Rightarrow>
        if row < u \<or> row > l \<or> column < a \<or> column > b then Some (row, column) else move_coordinate tr row column)"

definition apply_attachment :: "cell_transform \<Rightarrow> cell_attachment \<Rightarrow> cell_attachment option" where
  "apply_attachment tr a =
     map_option (\<lambda>(r, c). a\<lparr>at_row := r, at_column := c\<rparr>) (apply_coordinate tr (at_row a) (at_column a))"

text \<open>The least coordinate of the attachments of a parent, in the order of rows and then columns.\<close>

definition coordinate_min :: "usize \<times> u16 \<Rightarrow> usize \<times> u16 \<Rightarrow> usize \<times> u16" where
  "coordinate_min a b = (if fst a < fst b \<or> fst a = fst b \<and> snd a \<le> snd b then a else b)"

definition attachment_origin :: "cell_attachment list \<Rightarrow> u64 \<Rightarrow> (usize \<times> u16) option" where
  "attachment_origin attachments pid =
     fold (\<lambda>a best. if at_parent a = pid
         then Some (case best of None \<Rightarrow> (at_row a, at_column a) | Some m \<Rightarrow> coordinate_min m (at_row a, at_column a))
         else best) attachments None"

definition synchronize_kitty_image_origins_with_attachments :: "graphics \<Rightarrow> graphics" where
  "synchronize_kitty_image_origins_with_attachments g =
     (let origin = attachment_origin (inline_image_attachments g);
          synced = map (\<lambda>(im, pid). if im_kitty_image_id im = None then im
            else case origin pid of None \<Rightarrow> im | Some (r, c) \<Rightarrow> im\<lparr>im_row := r, im_column := c\<rparr>)
            (zip (inline_images g) (inline_image_parent_ids g))
      in g\<lparr>inline_images := synced @ drop (length synced) (inline_images g)\<rparr>)"

definition offset_parents :: "graphics \<Rightarrow> u64 list" where
  "offset_parents g = List.map_filter (\<lambda>(im, pid).
     if im_target_x im \<notin> {None, Some 0} \<or> im_target_y im \<notin> {None, Some 0} then Some pid else None)
     (zip (inline_images g) (inline_image_parent_ids g))"

definition virtual_keys_by_parent :: "graphics \<Rightarrow> (u64 \<times> kitty_placement_key) list" where
  "virtual_keys_by_parent g = rev (List.map_filter (\<lambda>(im, pid).
     (case kitty_image_placement_key im of
        Some key \<Rightarrow> if map_of (kitty_virtual_placements g) key \<noteq> None then Some (pid, key) else None
      | None \<Rightarrow> None)) (zip (inline_images g) (inline_image_parent_ids g)))"

definition apply_cell_transform :: "cell_transform \<Rightarrow> graphics \<Rightarrow> bool \<times> graphics" where
  "apply_cell_transform tr g =
     (let g = ensure_inline_image_parent_ids g;
          moved = filter (\<lambda>a. apply_attachment tr a \<noteq> Some a) (inline_image_attachments g);
          overflow_changed = list_ex (\<lambda>a. at_parent a \<in> set (offset_parents g)) moved;
          edited = (if is_character_edit tr
            then set (List.map_filter (\<lambda>a. map_of (virtual_keys_by_parent g) (at_parent a)) moved) else {});
          g = g\<lparr>inline_image_attachments := List.map_filter (apply_attachment tr) (inline_image_attachments g)\<rparr>;
          g = (if is_character_edit tr then synchronize_kitty_image_origins_with_attachments g else g);
          g = g\<lparr>kitty_character_edited_placements := kitty_character_edited_placements g \<union> edited\<rparr>
      in (overflow_changed, retain_kitty_character_edited_placements g))"

section \<open>Placeholder cells\<close>

definition kitty_placeholder_color_value :: "color \<Rightarrow> u32 option" where
  "kitty_placeholder_color_value c =
     (case c of Color_Default \<Rightarrow> None | Color_Indexed v \<Rightarrow> Some v
      | Color_Rgb r g b \<Rightarrow> Some (r * 65536 + g * 256 + b) | Color_Rgba r g b _ \<Rightarrow> Some (r * 65536 + g * 256 + b))"

definition kitty_placeholder_image_id :: "color \<Rightarrow> u32 option" where
  "kitty_placeholder_image_id c = positive (kitty_placeholder_color_value c)"

definition kitty_placeholder_placement_id :: "color \<Rightarrow> u32 option" where
  "kitty_placeholder_placement_id c = positive (kitty_placeholder_color_value c)"

text \<open>The low 24 bits and the high byte, shifted in 32 bits, share no bit.\<close>

definition placeholder_full_id :: "u32 \<Rightarrow> u32 \<Rightarrow> u32" where
  "placeholder_full_id low high = low mod 0x1000000 + high * 0x1000000 mod 0x100000000"

definition kitty_placeholder_origin_from_cell :: "usize \<Rightarrow> u16 \<Rightarrow> u32 \<Rightarrow> u32 \<Rightarrow> (usize \<times> u16) option" where
  "kitty_placeholder_origin_from_cell row column prow pcolumn =
     (if pcolumn > u16_max then None
      else case checked_sub row prow of
        None \<Rightarrow> None
      | Some r \<Rightarrow> map_option (\<lambda>c. (r, c)) (checked_sub column pcolumn))"

text \<open>
  A placeholder without a placement takes the virtual placement of its image under the key 0, or else any of the image: the code takes
  the first that \<open>HashMap::values\<close> yields, in an order the language leaves open, the model the first of its list. The lemma
  \<open>placeholder_choice\<close> says when the order makes no difference.
\<close>

definition kitty_virtual_placement_for_placeholder :: "u32 \<Rightarrow> u32 option \<Rightarrow> graphics \<Rightarrow> kitty_virtual_placement option" where
  "kitty_virtual_placement_for_placeholder image_id placement_id g =
     (case placement_id of
        Some p \<Rightarrow> map_of (kitty_virtual_placements g) (image_id, p)
      | None \<Rightarrow>
          (case map_of (kitty_virtual_placements g) (image_id, 0) of
             Some vp \<Rightarrow> Some vp
           | None \<Rightarrow> map_option snd (List.find (\<lambda>(k, vp). vp_image_id vp = image_id) (kitty_virtual_placements g))))"

lemma find_unique:
  assumes "mset ys = mset xs" and "\<forall>x \<in> set xs. \<forall>y \<in> set xs. P x \<and> P y \<longrightarrow> x = y"
  shows "List.find P ys = List.find P xs"
proof -
  have same: "set ys = set xs" using assms(1) by (rule mset_eq_setD)
  show ?thesis
  proof (cases "List.find P xs")
    case None
    then have "List.find P ys = None" using same by (simp add: find_None_iff)
    with None show ?thesis by simp
  next
    case (Some x)
    then have x: "x \<in> set xs" "P x" by (auto simp: find_Some_iff)
    then obtain y where y: "List.find P ys = Some y" using same by (metis find_None_iff not_None_eq)
    then have "y \<in> set xs" "P y" using same by (auto simp: find_Some_iff)
    with x y Some assms(2) show ?thesis by simp
  qed
qed

lemma placeholder_choice:
  assumes "mset (kitty_virtual_placements g') = mset (kitty_virtual_placements g)" and "distinct (map fst (kitty_virtual_placements g))"
    and "\<forall>x \<in> set (kitty_virtual_placements g). \<forall>y \<in> set (kitty_virtual_placements g).
      vp_image_id (snd x) = image_id \<and> vp_image_id (snd y) = image_id \<longrightarrow> x = y"
  shows "kitty_virtual_placement_for_placeholder image_id placement_id g' = kitty_virtual_placement_for_placeholder image_id placement_id g"
proof -
  have "distinct (map fst (kitty_virtual_placements g'))" using assms(1,2) by (metis mset_eq_imp_distinct_iff mset_map)
  then have "map_of (kitty_virtual_placements g') = map_of (kitty_virtual_placements g)"
    using map_of_inject_set [OF _ assms(2)] mset_eq_setD [OF assms(1)] by blast
  moreover have "List.find (\<lambda>(k, vp). vp_image_id vp = image_id) (kitty_virtual_placements g') =
      List.find (\<lambda>(k, vp). vp_image_id vp = image_id) (kitty_virtual_placements g)"
    by (rule find_unique [OF assms(1)]) (use assms(3) in \<open>auto simp: case_prod_beta\<close>)
  ultimately show ?thesis by (simp only: kitty_virtual_placement_for_placeholder_def)
qed

definition kitty_placeholder_render_key :: "usize \<Rightarrow> u16 \<Rightarrow> last_kitty_placeholder \<Rightarrow> graphics
    \<Rightarrow> (usize \<times> u16 \<times> u32 \<times> u32 option) option" where
  "kitty_placeholder_render_key row column lp g =
     (case kitty_placeholder_image_id (lp_foreground lp) of
        None \<Rightarrow> None
      | Some low \<Rightarrow>
          (case kitty_placeholder_origin_from_cell row column (lp_placeholder_row lp) (lp_placeholder_column lp) of
             None \<Rightarrow> None
           | Some (orow, ocolumn) \<Rightarrow>
               map_option (\<lambda>vp. (orow, ocolumn, vp_image_id vp, vp_placement_id vp))
                 (kitty_virtual_placement_for_placeholder (placeholder_full_id low (lp_image_id_high_byte lp))
                   (kitty_placeholder_placement_id (lp_underline_color lp)) g)))"

definition remove_kitty_placeholder_render :: "usize \<Rightarrow> u16 \<Rightarrow> u32 \<Rightarrow> u32 option \<Rightarrow> graphics \<Rightarrow> graphics" where
  "remove_kitty_placeholder_render row column image_id placement_id =
     retain_inline_images (\<lambda>im. im_row im \<noteq> row \<or> im_column im \<noteq> column \<or> im_kitty_image_id im \<noteq> Some image_id \<or>
       im_kitty_placement_id im \<noteq> placement_id)"

definition clear_placeholder_cell :: "usize \<Rightarrow> u16 \<Rightarrow> graphics \<Rightarrow> graphics" where
  "clear_placeholder_cell row column g =
     (case map_of (kitty_placeholder_cells g) (row, column) of
        None \<Rightarrow> g
      | Some lp \<Rightarrow>
          (let g = g\<lparr>kitty_placeholder_cells := filter (\<lambda>(k, _). k \<noteq> (row, column)) (kitty_placeholder_cells g)\<rparr>
           in case kitty_placeholder_render_key row column lp g of
                None \<Rightarrow> g
              | Some (r, c, i, p) \<Rightarrow> remove_kitty_placeholder_render r c i p g))"

definition clear_kitty_placeholder_cells :: "usize \<Rightarrow> u16 \<Rightarrow> u16 \<Rightarrow> graphics \<Rightarrow> graphics" where
  "clear_kitty_placeholder_cells row column width g =
     (let g = fold (\<lambda>i. clear_placeholder_cell row (sat_add_u16 column i)) [0 ..< width] g in
      case last_placeholder g of
        None \<Rightarrow> g
      | Some lp \<Rightarrow>
          if lp_row lp = row \<and> lp_column lp \<ge> column \<and> lp_column lp < sat_add_u16 column width
          then g\<lparr>last_placeholder := None\<rparr> else g)"

definition kitty_placeholder_references_live_placement :: "last_kitty_placeholder \<Rightarrow> (u32 \<times> u32 option) list \<Rightarrow> bool" where
  "kitty_placeholder_references_live_placement lp live =
     (case kitty_placeholder_image_id (lp_foreground lp) of
        None \<Rightarrow> True
      | Some low \<Rightarrow>
          (let image_id = placeholder_full_id low (lp_image_id_high_byte lp mod 256);
               placement_id = kitty_placeholder_placement_id (lp_underline_color lp)
           in list_ex (\<lambda>(i, p). i = image_id \<and> (placement_id = None \<or> p = placement_id)) live))"

definition retire_stale_kitty_placeholder_caches :: "graphics \<Rightarrow> bool \<times> graphics" where
  "retire_stale_kitty_placeholder_caches g =
     (let live = List.map_filter (\<lambda>im. map_option (\<lambda>i. (i, im_kitty_placement_id im)) (im_kitty_image_id im)) (inline_images g);
          cells = filter (\<lambda>(k, lp). kitty_placeholder_references_live_placement lp live) (kitty_placeholder_cells g);
          last_retired = (case last_placeholder g of None \<Rightarrow> False
            | Some lp \<Rightarrow> \<not> kitty_placeholder_references_live_placement lp live)
      in (length cells \<noteq> length (kitty_placeholder_cells g) \<or> last_retired,
          g\<lparr>kitty_placeholder_cells := cells,
            last_placeholder := (if last_retired then None else last_placeholder g)\<rparr>))"

text \<open>Moving the coordinates of a placeholder; \<open>None\<close> drops it.\<close>

definition move_placeholder_cells :: "(usize \<Rightarrow> u16 \<Rightarrow> (usize \<times> u16) option) \<Rightarrow> bool
    \<Rightarrow> ((usize \<times> u16) \<times> last_kitty_placeholder) list \<Rightarrow> ((usize \<times> u16) \<times> last_kitty_placeholder) list" where
  "move_placeholder_cells f columns_too cells =
     List.map_filter (\<lambda>((row, column), lp). map_option (\<lambda>(r, c).
       ((r, c), if columns_too then lp\<lparr>lp_row := r, lp_column := c\<rparr> else lp\<lparr>lp_row := r\<rparr>)) (f row column)) cells"

fun transform_pending :: "cell_transform \<Rightarrow> pending_kitty_placeholder \<Rightarrow> pending_kitty_placeholder option" where
  "transform_pending tr p =
     (case apply_coordinate tr (pp_row p) (pp_column p) of
        None \<Rightarrow> None
      | Some (r, c) \<Rightarrow>
          (let p = p\<lparr>pp_row := r, pp_column := c\<rparr>;
               rendered = (case (pp_rendered_row p, pp_rendered_column p) of
                 (Some rr, Some rc) \<Rightarrow> apply_coordinate tr rr rc | _ \<Rightarrow> None)
           in case rendered of
                Some (rr, rc) \<Rightarrow> Some (p\<lparr>pp_rendered_row := Some rr, pp_rendered_column := Some rc\<rparr>)
              | None \<Rightarrow> Some (p\<lparr>pp_rendered_row := None, pp_rendered_column := None, pp_rendered_image_id := None,
                  pp_rendered_placement_id := None\<rparr>)))"

definition transform_kitty_placeholder_state_for_character_edit :: "cell_transform \<Rightarrow> graphics \<Rightarrow> graphics" where
  "transform_kitty_placeholder_state_for_character_edit tr g =
     g\<lparr>kitty_placeholder_cells := move_placeholder_cells (apply_coordinate tr) True (kitty_placeholder_cells g),
       last_placeholder := Option.bind (last_placeholder g) (\<lambda>lp.
         map_option (\<lambda>(r, c). lp\<lparr>lp_row := r, lp_column := c\<rparr>) (apply_coordinate tr (lp_row lp) (lp_column lp))),
       pending_placeholder := Option.bind (pending_placeholder g) (transform_pending tr)\<rparr>"

section \<open>Images in a region\<close>

definition placeholder_in_region :: "usize \<Rightarrow> usize \<Rightarrow> u16 \<Rightarrow> u16 \<Rightarrow> usize \<times> u16 \<Rightarrow> bool" where
  "placeholder_in_region first_row last_row left right k \<longleftrightarrow>
     fst k \<ge> first_row \<and> fst k < last_row \<and> snd k \<ge> left \<and> snd k \<le> right"

definition last_placeholder_in_region :: "usize \<Rightarrow> usize \<Rightarrow> u16 \<Rightarrow> u16 \<Rightarrow> graphics \<Rightarrow> bool" where
  "last_placeholder_in_region first_row last_row left right g =
     (case last_placeholder g of None \<Rightarrow> False
      | Some lp \<Rightarrow> placeholder_in_region first_row last_row left right (lp_row lp, lp_column lp))"

definition drop_placeholders_in_region :: "usize \<Rightarrow> usize \<Rightarrow> u16 \<Rightarrow> u16 \<Rightarrow> graphics \<Rightarrow> graphics" where
  "drop_placeholders_in_region first_row last_row left right g =
     g\<lparr>kitty_placeholder_cells :=
         filter (\<lambda>(k, _). \<not> placeholder_in_region first_row last_row left right k) (kitty_placeholder_cells g),
       last_placeholder := (if last_placeholder_in_region first_row last_row left right g then None else last_placeholder g)\<rparr>"

definition retire_graphics_in_bounded_scroll_region :: "usize \<Rightarrow> u16 \<Rightarrow> u16 \<Rightarrow> u16 \<Rightarrow> u16 \<Rightarrow> graphics \<Rightarrow> bool \<times> graphics" where
  "retire_graphics_in_bounded_scroll_region base upper lower left right g =
     (let first_row = base + upper; last_row = base + lower + 1; last_column = sat_add_u16 right 1;
          g1 = retain_inline_images (\<lambda>im. \<not> inline_image_intersects_region im first_row last_row left last_column) g;
          last_retired = last_placeholder_in_region first_row last_row left right g1;
          g2 = retire_orphan_kitty_relative_children (drop_placeholders_in_region first_row last_row left right g1)
      in case retire_stale_kitty_placeholder_caches g2 of (stale, g3) \<Rightarrow>
           (length (inline_images g3) \<noteq> length (inline_images g) \<or>
            length (kitty_placeholder_cells g3) \<noteq> length (kitty_placeholder_cells g) \<or> last_retired \<or> stale, g3))"

definition retire_malformed_graphics_in_bounded_scroll_region :: "usize \<Rightarrow> u16 \<Rightarrow> u16 \<Rightarrow> u16 \<Rightarrow> u16 \<Rightarrow> graphics \<Rightarrow> bool \<times> graphics" where
  "retire_malformed_graphics_in_bounded_scroll_region base upper lower left right g =
     (let first_row = base + upper; last_row = base + lower + 1; last_column = sat_add_u16 right 1;
          g1 = retain_inline_images (\<lambda>im. cell_attachment_dimensions im \<noteq> None \<or>
                 \<not> inline_image_intersects_region im first_row last_row left last_column) g
      in if length (inline_images g1) = length (inline_images g) then (False, g1)
         else (True, snd (retire_stale_kitty_placeholder_caches (retire_orphan_kitty_relative_children
                (drop_placeholders_in_region first_row last_row left right g1)))))"

section \<open>Scrolled rows\<close>

text \<open>
  What becomes of an image when the rows of a region move: it stays, it is dropped, or it moves with
  them. \<open>moved\<close> gives the new row of an image inside the region, if it has one.
\<close>

definition scroll_image :: "usize \<Rightarrow> usize \<Rightarrow> (usize \<Rightarrow> usize option) \<Rightarrow> inline_image \<Rightarrow> (inline_image \<times> bool) option" where
  "scroll_image first_row last_row moved im =
     (case kitty_image_row_range im of (upper, lower) \<Rightarrow>
        if lower \<le> first_row \<or> upper \<ge> last_row then Some (im, False)
        else if upper < first_row \<or> lower > last_row then None
        else case moved (im_row im) of
          None \<Rightarrow> None
        | Some new_row \<Rightarrow>
            if new_row < first_row \<or> new_row + (lower - upper) > last_row then None
            else Some (im\<lparr>im_row := new_row\<rparr>, True))"

definition scroll_inline_images :: "usize \<Rightarrow> usize \<Rightarrow> (usize \<Rightarrow> usize option) \<Rightarrow> graphics \<Rightarrow> graphics" where
  "scroll_inline_images first_row last_row moved g =
     (let g = ensure_inline_image_parent_ids g;
          shifted = List.map_filter (\<lambda>(im, pid). map_option (\<lambda>(im, m). (im, pid, m)) (scroll_image first_row last_row moved im))
            (zip (inline_images g) (inline_image_parent_ids g));
          live = map (fst \<circ> snd) shifted;
          moved_ids = map (fst \<circ> snd) (filter (snd \<circ> snd) shifted);
          attachments = List.map_filter (\<lambda>a. if at_parent a \<notin> set live then None
            else if at_parent a \<in> set moved_ids then map_option (\<lambda>r. a\<lparr>at_row := r\<rparr>) (moved (at_row a)) else Some a)
            (inline_image_attachments g)
      in delete_orphan_kitty_relative_children (g\<lparr>inline_images := map fst shifted, inline_image_parent_ids := live,
           inline_image_attachments := attachments\<rparr>))"

definition scroll_inline_images_down_region :: "usize \<Rightarrow> u16 \<Rightarrow> u16 \<Rightarrow> u16 \<Rightarrow> graphics \<Rightarrow> graphics" where
  "scroll_inline_images_down_region base upper lower n g =
     (if n = 0 \<or> upper > lower then g
      else scroll_inline_images (base + upper) (base + lower + 1) (\<lambda>row. Some (row + n)) g)"

definition scroll_inline_images_up_region :: "usize \<Rightarrow> u16 \<Rightarrow> u16 \<Rightarrow> u16 \<Rightarrow> graphics \<Rightarrow> graphics" where
  "scroll_inline_images_up_region base upper lower n g =
     (if n = 0 \<or> upper > lower then g
      else scroll_inline_images (base + upper) (base + lower + 1) (\<lambda>row. checked_sub row n) g)"

definition scroll_kitty_placeholder_cells_down_region :: "usize \<Rightarrow> u16 \<Rightarrow> u16 \<Rightarrow> u16 \<Rightarrow> graphics \<Rightarrow> graphics" where
  "scroll_kitty_placeholder_cells_down_region base upper lower n g =
     (if n = 0 \<or> upper > lower then g
      else let first_row = base + upper; last_row = base + lower + 1 in
        g\<lparr>kitty_placeholder_cells := List.map_filter (\<lambda>((row, column), lp).
            if row < first_row \<or> row \<ge> last_row then Some ((row, column), lp)
            else if row + n \<ge> last_row then None else Some ((row + n, column), lp\<lparr>lp_row := row + n\<rparr>))
            (kitty_placeholder_cells g),
          last_placeholder := None\<rparr>)"

definition scroll_kitty_placeholder_cells_up_region :: "usize \<Rightarrow> u16 \<Rightarrow> u16 \<Rightarrow> u16 \<Rightarrow> graphics \<Rightarrow> graphics" where
  "scroll_kitty_placeholder_cells_up_region base upper lower n g =
     (if n = 0 \<or> upper > lower then g
      else let first_row = base + upper; last_row = base + lower + 1 in
        g\<lparr>kitty_placeholder_cells := List.map_filter (\<lambda>((row, column), lp).
            if row < first_row \<or> row \<ge> last_row then Some ((row, column), lp)
            else case checked_sub row n of
              None \<Rightarrow> None
            | Some r \<Rightarrow> if r < first_row then None else Some ((r, column), lp\<lparr>lp_row := r\<rparr>))
            (kitty_placeholder_cells g),
          last_placeholder := None\<rparr>)"

definition drop_inline_images_crossing_history_boundary :: "usize \<Rightarrow> graphics \<Rightarrow> graphics" where
  "drop_inline_images_crossing_history_boundary boundary g =
     delete_orphan_kitty_relative_children (retain_inline_images (\<lambda>im.
       case kitty_image_row_range im of (upper, lower) \<Rightarrow> \<not> (upper < boundary \<and> lower > boundary)) g)"

definition shift_image_and_placeholder_suffix_metadata :: "usize \<Rightarrow> nat \<Rightarrow> graphics \<Rightarrow> graphics" where
  "shift_image_and_placeholder_suffix_metadata suffix_start rows g =
     (let shift = (\<lambda>row. if row \<ge> suffix_start then row + rows else row) in
      g\<lparr>inline_images := map (\<lambda>im. im\<lparr>im_row := shift (im_row im)\<rparr>) (inline_images g),
        inline_image_attachments := map (\<lambda>a. a\<lparr>at_row := shift (at_row a)\<rparr>) (inline_image_attachments g),
        kitty_placeholder_cells := map (\<lambda>((row, column), lp). ((shift row, column), lp\<lparr>lp_row := shift row\<rparr>))
          (kitty_placeholder_cells g),
        last_placeholder := map_option (\<lambda>lp. lp\<lparr>lp_row := shift (lp_row lp)\<rparr>) (last_placeholder g)\<rparr>)"

text \<open>The rebasing of a screen, of the visible one or of the main screen saved aside.\<close>

definition rebase_image_and_placeholder_metadata :: "nat \<Rightarrow> 'a screen_graphics_scheme \<Rightarrow> 'a screen_graphics_scheme" where
  "rebase_image_and_placeholder_metadata removed_rows g =
     (let ids = inline_image_parent_ids g @
            map (\<lambda>i. u64_max - i) [length (inline_image_parent_ids g) ..< length (inline_images g)];
          rebased = List.map_filter (\<lambda>(im, pid). map_option (\<lambda>r. (im\<lparr>im_row := r\<rparr>, pid)) (checked_sub (im_row im) removed_rows))
            (zip (inline_images g) ids);
          live = set (map snd rebased)
      in g\<lparr>inline_images := map fst rebased, inline_image_parent_ids := map snd rebased,
           inline_image_attachments := List.map_filter (\<lambda>a. case checked_sub (at_row a) removed_rows of
               None \<Rightarrow> None
             | Some r \<Rightarrow> if at_parent a \<in> live then Some (a\<lparr>at_row := r\<rparr>) else None) (inline_image_attachments g),
           kitty_placeholder_cells :=
             move_placeholder_cells (\<lambda>row column. map_option (\<lambda>r. (r, column)) (checked_sub row removed_rows)) False
               (kitty_placeholder_cells g),
           last_placeholder := Option.bind (last_placeholder g) (\<lambda>lp.
             map_option (\<lambda>r. lp\<lparr>lp_row := r\<rparr>) (checked_sub (lp_row lp) removed_rows))\<rparr>)"

definition delete_visible_inline_images :: "usize \<Rightarrow> terminal_size \<Rightarrow> graphics \<Rightarrow> graphics" where
  "delete_visible_inline_images base sz g =
     delete_orphan_kitty_relative_children (retain_inline_images (\<lambda>im.
       \<not> inline_image_intersects_region im base (base + size_rows sz) 0 (size_columns sz)) g)"

end
