(* ===== verification/Term_Grid.thy ===== *)
theory Term_Grid
  imports Term_Cell
begin

text \<open>
  The visible rows of a terminal, \<open>rssh-terminal/src/grid.rs\<close>, and its bounded history,
  \<open>rssh-terminal/src/history.rs\<close> with the scrolled-out line of \<open>lib.rs\<close>. The deque of the history is the
  list of its rows, oldest first. Rows are addressed by number; out of range, reads give \<open>None\<close> and
  writes leave the grid as it is.
\<close>

section \<open>Rows\<close>

record grid_row =
  row_cells :: "cell list"
  reflow_overflow :: "cell list"
  row_wrapped :: bool
  last_change_seqno :: usize

definition blank_row :: "u16 \<Rightarrow> cell \<Rightarrow> usize \<Rightarrow> grid_row" where
  "blank_row cols c seqno =
     \<lparr>row_cells = replicate cols c, reflow_overflow = [], row_wrapped = False, last_change_seqno = seqno\<rparr>"

text \<open>\<open>Vec::resize\<close>\<close>

definition vec_resize :: "nat \<Rightarrow> 'a \<Rightarrow> 'a list \<Rightarrow> 'a list" where
  "vec_resize n x xs = take n xs @ replicate (n - length xs) x"

definition resize_columns :: "u16 \<Rightarrow> bool \<Rightarrow> usize \<Rightarrow> grid_row \<Rightarrow> grid_row" where
  "resize_columns cols preserve_row_metadata seqno r =
     (let r1 = r\<lparr>row_cells := vec_resize cols cell_default (row_cells r)\<rparr> in
      if \<not> preserve_row_metadata then r1\<lparr>reflow_overflow := [], last_change_seqno := seqno\<rparr> else r1)"

section \<open>The grid\<close>

record terminal_grid =
  grid_size :: terminal_size
  grid_rows :: "grid_row list"

definition grid_new_with_seqno :: "terminal_size \<Rightarrow> usize \<Rightarrow> terminal_grid" where
  "grid_new_with_seqno sz seqno =
     \<lparr>grid_size = sz, grid_rows = map (\<lambda>_. blank_row (size_columns sz) cell_default seqno) [0 ..< size_rows sz]\<rparr>"

definition grid_new :: "terminal_size \<Rightarrow> terminal_grid" where
  "grid_new sz = grid_new_with_seqno sz 1"

definition grid_get :: "u16 \<Rightarrow> u16 \<Rightarrow> terminal_grid \<Rightarrow> cell option" where
  "grid_get row column g = Option.bind (nth_opt (grid_rows g) row) (\<lambda>r. nth_opt (row_cells r) column)"

definition upd_row :: "u16 \<Rightarrow> (grid_row \<Rightarrow> grid_row) \<Rightarrow> terminal_grid \<Rightarrow> terminal_grid" where
  "upd_row row f g =
     (if row < length (grid_rows g) then g\<lparr>grid_rows := (grid_rows g)[row := f (grid_rows g ! row)]\<rparr> else g)"

definition grid_set :: "u16 \<Rightarrow> u16 \<Rightarrow> cell \<Rightarrow> terminal_grid \<Rightarrow> bool \<times> terminal_grid" where
  "grid_set row column c g =
     (case nth_opt (grid_rows g) row of
        None \<Rightarrow> (False, g)
      | Some r \<Rightarrow>
          if column < length (row_cells r)
          then (True, upd_row row (\<lambda>r. r\<lparr>row_cells := (row_cells r)[column := c], reflow_overflow := []\<rparr>) g)
          else (False, g))"

definition grid_row_wrapped :: "u16 \<Rightarrow> terminal_grid \<Rightarrow> bool" where
  "grid_row_wrapped row g = (case nth_opt (grid_rows g) row of None \<Rightarrow> False | Some r \<Rightarrow> row_wrapped r)"

definition grid_set_row_wrapped :: "u16 \<Rightarrow> bool \<Rightarrow> terminal_grid \<Rightarrow> terminal_grid" where
  "grid_set_row_wrapped row wrapped = upd_row row (\<lambda>r. r\<lparr>row_wrapped := wrapped\<rparr>)"

definition row_last_change_seqno :: "u16 \<Rightarrow> terminal_grid \<Rightarrow> usize option" where
  "row_last_change_seqno row g = map_option last_change_seqno (nth_opt (grid_rows g) row)"

definition set_row_last_change_seqno :: "u16 \<Rightarrow> usize \<Rightarrow> terminal_grid \<Rightarrow> terminal_grid" where
  "set_row_last_change_seqno row seqno = upd_row row (\<lambda>r. r\<lparr>last_change_seqno := seqno\<rparr>)"

definition cells_with_reflow_overflow :: "u16 \<Rightarrow> terminal_grid \<Rightarrow> cell list" where
  "cells_with_reflow_overflow row g =
     (case nth_opt (grid_rows g) row of None \<Rightarrow> [] | Some r \<Rightarrow> row_cells r @ reflow_overflow r)"

definition set_reflow_overflow :: "u16 \<Rightarrow> cell list \<Rightarrow> terminal_grid \<Rightarrow> terminal_grid" where
  "set_reflow_overflow row overflow = upd_row row (\<lambda>r. r\<lparr>reflow_overflow := overflow\<rparr>)"

definition grid_resize_with_seqno :: "terminal_size \<Rightarrow> usize \<Rightarrow> terminal_grid \<Rightarrow> terminal_grid" where
  "grid_resize_with_seqno sz new_row_seqno g =
     (let preserve_row_metadata = (size_columns (grid_size g) = size_columns sz) in
      \<lparr>grid_size = sz,
       grid_rows = map (\<lambda>i. case nth_opt (grid_rows g) i of
           Some r \<Rightarrow> resize_columns (size_columns sz) preserve_row_metadata new_row_seqno r
         | None \<Rightarrow> blank_row (size_columns sz) cell_default new_row_seqno) [0 ..< size_rows sz]\<rparr>)"

definition grid_resize :: "terminal_size \<Rightarrow> terminal_grid \<Rightarrow> terminal_grid" where
  "grid_resize sz g =
     grid_resize_with_seqno sz (if grid_rows g = [] then 1 else Max (set (map last_change_seqno (grid_rows g)))) g"

text \<open>
  \<open>row_region_mut\<close> gives the rows from \<open>top\<close> to \<open>bottom\<close>; a scroll rotates them and blanks the rows that
  enter. The first component of \<open>rotate_up_rows\<close> lists the rows that leave.
\<close>

definition row_region :: "u16 \<Rightarrow> u16 \<Rightarrow> terminal_grid \<Rightarrow> grid_row list option" where
  "row_region upper lower g =
     (if upper > lower \<or> lower \<ge> size_rows (grid_size g) \<or> length (grid_rows g) \<le> lower then None
      else Some (drop upper (take (lower + 1) (grid_rows g))))"

definition put_region :: "u16 \<Rightarrow> u16 \<Rightarrow> grid_row list \<Rightarrow> terminal_grid \<Rightarrow> terminal_grid" where
  "put_region upper lower rows g =
     g\<lparr>grid_rows := take upper (grid_rows g) @ rows @ drop (lower + 1) (grid_rows g)\<rparr>"

definition rotate_left :: "nat \<Rightarrow> 'a list \<Rightarrow> 'a list" where
  "rotate_left n xs = drop n xs @ take n xs"

definition rotate_right :: "nat \<Rightarrow> 'a list \<Rightarrow> 'a list" where
  "rotate_right n xs = drop (length xs - n) xs @ take (length xs - n) xs"

definition rotate_up_rows :: "u16 \<Rightarrow> u16 \<Rightarrow> u16 \<Rightarrow> cell \<Rightarrow> usize \<Rightarrow> terminal_grid \<Rightarrow> grid_row list \<times> terminal_grid" where
  "rotate_up_rows upper lower n blank seqno g =
     (case row_region upper lower g of
        None \<Rightarrow> ([], g)
      | Some rows \<Rightarrow>
          (let n = min n (length rows) in
           if n = 0 then ([], g)
           else let rows = rotate_left n rows; first_exiting = length rows - n in
             (drop first_exiting rows,
              put_region upper lower
                (take first_exiting rows @ replicate n (blank_row (size_columns (grid_size g)) blank seqno)) g)))"

definition scroll_up_rows :: "u16 \<Rightarrow> u16 \<Rightarrow> u16 \<Rightarrow> cell \<Rightarrow> usize \<Rightarrow> terminal_grid \<Rightarrow> grid_row list \<times> terminal_grid" where
  "scroll_up_rows = rotate_up_rows"

definition scroll_up_rows_discarding :: "u16 \<Rightarrow> u16 \<Rightarrow> u16 \<Rightarrow> cell \<Rightarrow> usize \<Rightarrow> terminal_grid \<Rightarrow> terminal_grid" where
  "scroll_up_rows_discarding upper lower n blank seqno g = snd (rotate_up_rows upper lower n blank seqno g)"

definition scroll_down_rows :: "u16 \<Rightarrow> u16 \<Rightarrow> u16 \<Rightarrow> cell \<Rightarrow> usize \<Rightarrow> terminal_grid \<Rightarrow> terminal_grid" where
  "scroll_down_rows upper lower n blank seqno g =
     (case row_region upper lower g of
        None \<Rightarrow> g
      | Some rows \<Rightarrow>
          (let n = min n (length rows) in
           if n = 0 then g
           else let rows = rotate_right n rows in
             put_region upper lower
               (replicate n (blank_row (size_columns (grid_size g)) blank seqno) @ drop n rows) g))"

section \<open>History\<close>

record scrollback_line =
  line_cells :: "cell list"
  line_overflow :: "cell list"
  line_wrapped :: bool
  line_sequence :: usize

definition from_grid_row :: "grid_row \<Rightarrow> scrollback_line" where
  "from_grid_row r = \<lparr>line_cells = row_cells r, line_overflow = reflow_overflow r, line_wrapped = row_wrapped r,
     line_sequence = last_change_seqno r\<rparr>"

type_synonym 'a history_buffer = "'a list"

definition history_append :: "'a \<Rightarrow> 'a history_buffer \<Rightarrow> 'a history_buffer" where
  "history_append row h = h @ [row]"

definition evict_front :: "nat \<Rightarrow> 'a history_buffer \<Rightarrow> nat \<times> 'a history_buffer" where
  "evict_front n h =
     (let n = min n (length h) in if n = length h then (n, []) else (n, drop n h))"

end
