(* ===== verification/Term_Grid_Laws.thy ===== *)
theory Term_Grid_Laws
  imports Term_Grid
begin

text \<open>
  The shape of a grid and the contract of an operation that keeps it, the effect of reads, writes and
  scrolls, and the rows that leave a scrolled region.
\<close>

definition grid_ok :: "terminal_grid \<Rightarrow> bool" where
  "grid_ok g \<longleftrightarrow> length (grid_rows g) = size_rows (grid_size g) \<and>
     (\<forall>r \<in> set (grid_rows g). length (row_cells r) = size_columns (grid_size g))"

lemma blank_row_length [simp]: "length (row_cells (blank_row n c s)) = n"
  by (simp add: blank_row_def)

lemma vec_resize_length [simp]: "length (vec_resize n x xs) = n"
  by (simp add: vec_resize_def)

lemma resize_columns_length [simp]: "length (row_cells (resize_columns n p s r)) = n"
  by (simp add: resize_columns_def Let_def)

lemma grid_new_ok [simp]: "grid_ok (grid_new_with_seqno sz s)"
  by (simp add: grid_ok_def grid_new_with_seqno_def)

lemma grid_new_size [simp]: "grid_size (grid_new_with_seqno sz s) = sz"
  by (simp add: grid_new_with_seqno_def)

lemma grid_resize_ok [simp]: "grid_ok (grid_resize_with_seqno sz s g)"
  by (auto simp: grid_ok_def grid_resize_with_seqno_def Let_def split: option.splits)

lemma grid_resize_size [simp]: "grid_size (grid_resize_with_seqno sz s g) = sz"
  by (simp add: grid_resize_with_seqno_def Let_def)

section \<open>Operations on a grid\<close>

locale grid_operation =
  fixes run :: "terminal_grid \<Rightarrow> terminal_grid"
  assumes keeps_ok: "grid_ok g \<Longrightarrow> grid_ok (run g)"
    and keeps_size: "grid_size (run g) = grid_size g"
begin

lemma keeps_row_count: "grid_ok g \<Longrightarrow> length (grid_rows (run g)) = length (grid_rows g)"
  using keeps_ok [of g] keeps_size [of g] by (simp add: grid_ok_def)

lemma iterated: "grid_ok g \<Longrightarrow> grid_ok ((run ^^ n) g) \<and> grid_size ((run ^^ n) g) = grid_size g"
  by (induction n) (simp_all add: keeps_ok keeps_size)

end

lemma grid_operation_comp: "grid_operation f \<Longrightarrow> grid_operation h \<Longrightarrow> grid_operation (\<lambda>g. f (h g))"
  by (simp add: grid_operation_def)

lemma grid_operation_id: "grid_operation (\<lambda>g. g)"
  by (simp add: grid_operation_def)

lemma grid_operation_fold: "(\<And>x. grid_operation (f x)) \<Longrightarrow> grid_operation (fold f xs)"
  by (induction xs) (simp_all add: grid_operation_def id_def)

lemma upd_row_operation:
  assumes "\<And>r. length (row_cells (f r)) = length (row_cells r)"
  shows "grid_operation (upd_row row f)"
  using assms by unfold_locales (auto simp: upd_row_def grid_ok_def dest!: set_update_subset_insert [THEN subsetD])

lemma put_region_ok:
  assumes "grid_ok g" and "upper \<le> lower" and "lower < size_rows (grid_size g)" and "length rows = lower + 1 - upper"
    and "\<forall>r \<in> set rows. length (row_cells r) = size_columns (grid_size g)"
  shows "grid_ok (put_region upper lower rows g)"
  using assms by (auto simp: grid_ok_def put_region_def dest: in_set_takeD in_set_dropD)

lemma row_region_Some:
  "grid_ok g \<Longrightarrow> row_region upper lower g = Some rows \<longleftrightarrow>
     upper \<le> lower \<and> lower < size_rows (grid_size g) \<and> rows = drop upper (take (lower + 1) (grid_rows g))"
  by (auto simp: row_region_def grid_ok_def)

lemma row_region_None:
  "grid_ok g \<Longrightarrow> row_region upper lower g = None \<longleftrightarrow> lower < upper \<or> size_rows (grid_size g) \<le> lower"
  by (auto simp: row_region_def grid_ok_def)

lemma put_region_same:
  assumes "upper \<le> lower"
  shows "put_region upper lower (drop upper (take (lower + 1) (grid_rows g))) g = g"
proof -
  have "take upper (grid_rows g) @ drop upper (take (lower + 1) (grid_rows g)) = take (lower + 1) (grid_rows g)"
    using assms by (metis append_take_drop_id le_SucI min.absorb1 take_take Suc_eq_plus1)
  then have "take upper (grid_rows g) @ drop upper (take (lower + 1) (grid_rows g)) @ drop (lower + 1) (grid_rows g) = grid_rows g"
    by (metis append.assoc append_take_drop_id)
  then show ?thesis by (simp add: put_region_def)
qed

lemma rotate_right_keeps: "n \<le> length xs \<Longrightarrow> drop n (rotate_right n xs) = take (length xs - n) xs"
  by (simp add: rotate_right_def)

lemma rotate_left_keeps:
  "n \<le> length xs \<Longrightarrow> take (length xs - n) (rotate_left n xs) = drop n xs \<and> drop (length xs - n) (rotate_left n xs) = take n xs"
  by (simp add: rotate_left_def)

text \<open>The scrolls of a region, without the rotation.\<close>

lemma rotate_up_rows_exact:
  assumes "grid_ok g" and "upper \<le> lower" and "lower < size_rows (grid_size g)"
  shows "rotate_up_rows upper lower n blank s g =
    (let rows = drop upper (take (lower + 1) (grid_rows g)); k = min n (lower + 1 - upper) in
     (take k rows, put_region upper lower (drop k rows @ replicate k (blank_row (size_columns (grid_size g)) blank s)) g))"
proof -
  let ?rows = "drop upper (take (lower + 1) (grid_rows g))"
  have l: "length ?rows = lower + 1 - upper" using assms by (simp add: grid_ok_def)
  have r: "row_region upper lower g = Some ?rows" using row_region_Some [OF assms(1)] assms(2,3) by blast
  have k: "length (rotate_left m ?rows) = length ?rows" for m by (simp add: rotate_left_def)
  show ?thesis
    unfolding rotate_up_rows_def r option.case Let_def k l
    using rotate_left_keeps [of "min n (lower + 1 - upper)" ?rows] put_region_same [OF assms(2)] unfolding l by simp
qed

lemma scroll_down_rows_exact:
  assumes "grid_ok g" and "upper \<le> lower" and "lower < size_rows (grid_size g)"
  shows "scroll_down_rows upper lower n blank s g =
    (let rows = drop upper (take (lower + 1) (grid_rows g)); k = min n (lower + 1 - upper) in
     put_region upper lower (replicate k (blank_row (size_columns (grid_size g)) blank s) @ take (lower + 1 - upper - k) rows) g)"
proof -
  let ?rows = "drop upper (take (lower + 1) (grid_rows g))"
  have l: "length ?rows = lower + 1 - upper" using assms by (simp add: grid_ok_def)
  have r: "row_region upper lower g = Some ?rows" using row_region_Some [OF assms(1)] assms(2,3) by blast
  show ?thesis
    unfolding scroll_down_rows_def r option.case Let_def l
    using rotate_right_keeps [of "min n (lower + 1 - upper)" ?rows] put_region_same [OF assms(2), of g] l
    unfolding l by (auto simp del: One_nat_def)
qed

lemma row_region_shape:
  assumes "grid_ok g" and "r \<in> set (drop upper (take m (grid_rows g)))"
  shows "length (row_cells r) = size_columns (grid_size g)"
  using assms by (auto simp: grid_ok_def dest!: in_set_dropD in_set_takeD)

lemma rotate_up_operation: "grid_operation (\<lambda>g. snd (rotate_up_rows upper lower n blank s g))"
proof
  fix g
  show "grid_size (snd (rotate_up_rows upper lower n blank s g)) = grid_size g"
    by (auto simp: rotate_up_rows_def put_region_def Let_def split: option.splits)
  assume ok: "grid_ok g"
  show "grid_ok (snd (rotate_up_rows upper lower n blank s g))"
  proof (cases "upper \<le> lower \<and> lower < size_rows (grid_size g)")
    case True
    then have "length (grid_rows g) \<ge> lower + 1" using ok by (simp add: grid_ok_def)
    then show ?thesis
      using True ok
      by (auto simp: rotate_up_rows_exact Let_def intro!: put_region_ok dest: row_region_shape)
  next
    case False
    then have "row_region upper lower g = None" using row_region_None [OF ok] by auto
    then show ?thesis using ok by (simp add: rotate_up_rows_def)
  qed
qed

lemma scroll_down_operation: "grid_operation (scroll_down_rows upper lower n blank s)"
proof
  fix g
  show "grid_size (scroll_down_rows upper lower n blank s g) = grid_size g"
    by (auto simp: scroll_down_rows_def put_region_def Let_def split: option.splits)
  assume ok: "grid_ok g"
  show "grid_ok (scroll_down_rows upper lower n blank s g)"
  proof (cases "upper \<le> lower \<and> lower < size_rows (grid_size g)")
    case True
    then have "length (grid_rows g) \<ge> lower + 1" using ok by (simp add: grid_ok_def)
    then show ?thesis
      using True ok
      by (auto simp: scroll_down_rows_exact Let_def intro!: put_region_ok dest!: in_set_takeD [of _ _ "drop _ _"]
          dest: row_region_shape)
  next
    case False
    then have "row_region upper lower g = None" using row_region_None [OF ok] by auto
    then show ?thesis using ok by (simp add: scroll_down_rows_def)
  qed
qed

interpretation set_op: grid_operation "\<lambda>g. snd (grid_set row column c g)"
proof -
  have upd: "grid_operation (upd_row row (\<lambda>r. r\<lparr>row_cells := (row_cells r)[column := c], reflow_overflow := []\<rparr>))"
    by (rule upd_row_operation) simp
  show "grid_operation (\<lambda>g. snd (grid_set row column c g))"
    using grid_operation.keeps_ok [OF upd] grid_operation.keeps_size [OF upd] by unfold_locales (auto simp: grid_set_def split: option.splits)
qed

interpretation wrapped_op: grid_operation "grid_set_row_wrapped row w"
  unfolding grid_set_row_wrapped_def by (rule upd_row_operation) simp

interpretation seqno_op: grid_operation "set_row_last_change_seqno row s"
  unfolding set_row_last_change_seqno_def by (rule upd_row_operation) simp

interpretation overflow_op: grid_operation "set_reflow_overflow row cs"
  unfolding set_reflow_overflow_def by (rule upd_row_operation) simp

interpretation up_op: grid_operation "scroll_up_rows_discarding upper lower n blank s"
  unfolding scroll_up_rows_discarding_def by (rule rotate_up_operation)

interpretation down_op: grid_operation "scroll_down_rows upper lower n blank s"
  by (rule scroll_down_operation)

end
