(* ===== verification/Term_State.thy ===== *)
theory Term_State
  imports Term_Placement Term_Grid_Laws
begin

text \<open>
  The state of a terminal, \<open>rssh-terminal/src/parser.rs\<close>, and the operations that only read it or move
  its cursor. \<open>screen\<close> has the fields \<open>Terminal\<close> and \<open>ScreenState\<close> share; both extend it. The fields of
  the input that is not yet complete and of metadata are those of \<open>parser\<close> in \<open>Term_Osc\<close>, and those of
  storage reuse and of work counters are left out. Sums with the
  number of history rows are exact, and the change numbers are unbounded: the code stops with a panic
  when they leave 64 bits.
\<close>

section \<open>State\<close>

datatype character_write_mode = Write_Replace | Write_Insert

record terminal_modes =
  mode_cursor_visible :: bool
  mode_cursor_blinking :: bool
  mode_cursor_shape :: cursor_shape
  mode_screen_reverse :: bool
  mode_auto_wrap :: bool
  mode_reverse_wrap :: bool
  mode_sixel_display :: bool
  mode_sixel_scrolls_right :: bool
  mode_origin :: bool
  mode_left_right_margin :: bool
  mode_write :: character_write_mode

definition modes_default :: terminal_modes where
  "modes_default = \<lparr>mode_cursor_visible = True, mode_cursor_blinking = False, mode_cursor_shape = Shape_Block,
     mode_screen_reverse = False, mode_auto_wrap = True, mode_reverse_wrap = False, mode_sixel_display = False,
     mode_sixel_scrolls_right = False, mode_origin = False, mode_left_right_margin = False, mode_write = Write_Replace\<rparr>"

definition with_cursor_style :: "cursor_style \<Rightarrow> terminal_modes" where
  "with_cursor_style s = modes_default\<lparr>mode_cursor_shape := style_shape s, mode_cursor_blinking := style_blinking s\<rparr>"

record saved_cursor =
  saved_row :: u16
  saved_column :: u16
  saved_pending_wrap :: bool
  saved_clear_semantic :: bool
  saved_origin_mode :: bool
  saved_character_set :: character_set
  saved_style :: cell

record screen =
  grid :: terminal_grid
  cursor_row :: u16
  cursor_column :: u16
  pending_wrap :: bool
  clear_semantic_type_on_movement :: bool
  last_printable :: "str option"
  nfc_last_printable_cell :: "(u16 \<times> u16) option"
  saved_cursor_of :: "saved_cursor option"
  modes :: terminal_modes
  scroll_top :: u16
  scroll_bottom :: u16
  left_margin :: u16
  right_margin :: u16
  character_set_of :: character_set
  style :: cell

record screen_state = screen +
  saved_graphics :: screen_graphics

record semantic_command_exit =
  exit_row :: usize
  exit_code :: "i32 option"
  exit_aid :: "str option"

record cell_width_override =
  override_first :: u32
  override_last :: u32
  override_width :: u16

record terminal = screen +
  scrollback :: "scrollback_line history_buffer"
  scrollback_limit :: usize
  seqno :: usize
  screen_identity_generation :: usize
  main_stable_row_offset :: int
  title :: "str option"
  icon_title :: "str option"
  window_title :: "str option"
  title_stack :: "str option list"
  title_changed :: bool
  images :: graphics
  semantic_prompt_rows :: "usize list"
  semantic_command_exits :: "semantic_command_exit list"
  main_screen :: "screen_state option"
  default_cursor_style :: cursor_style
  tab_stops_of :: tab_stops
  damage :: "damage_region list"
  bell_count :: u64
  unknown_escape_sequences :: "str list"
  ambiguous_width_as_wide :: bool
  cell_width_overrides :: "cell_width_override list"
  unicode_version :: u32

abbreviation columns_of :: "'a screen_scheme \<Rightarrow> u16" where
  "columns_of t \<equiv> size_columns (grid_size (grid t))"

abbreviation rows_of :: "'a screen_scheme \<Rightarrow> u16" where
  "rows_of t \<equiv> size_rows (grid_size (grid t))"

definition graphics_new :: graphics where
  "graphics_new = \<lparr>inline_images = [], inline_image_parent_ids = [], inline_image_attachments = [],
     kitty_character_edited_placements = {}, last_placeholder = None, kitty_placeholder_cells = [],
     next_inline_image_parent_identity = 1, kitty_images = [], kitty_image_numbers = [], kitty_relative_parents = [],
     kitty_virtual_placements = [], pending_placeholder = None, next_kitty_image_id = 1,
     pending_upload = None, kitty_graphics_responses = [], enable_kitty_graphics = True, removed_files = []\<rparr>"

definition new_with_default_cursor_style :: "terminal_size \<Rightarrow> cursor_style \<Rightarrow> terminal" where
  "new_with_default_cursor_style sz cs = \<lparr>
     grid = grid_new_with_seqno sz 1, cursor_row = 0, cursor_column = 0, pending_wrap = False,
     clear_semantic_type_on_movement = False, last_printable = None, nfc_last_printable_cell = None,
     saved_cursor_of = None, modes = with_cursor_style cs, scroll_top = 0, scroll_bottom = size_rows sz - 1,
     left_margin = 0, right_margin = size_columns sz - 1, character_set_of = Charset_Ascii, style = cell_default,
     scrollback = [], scrollback_limit = 3500, seqno = 1, screen_identity_generation = 0,
     main_stable_row_offset = 0, title = None, icon_title = None, window_title = None, title_stack = [],
     title_changed = False, images = graphics_new, semantic_prompt_rows = [], semantic_command_exits = [],
     main_screen = None, default_cursor_style = cs, tab_stops_of = default_tab_stops sz, damage = [], bell_count = 0,
     unknown_escape_sequences = [], ambiguous_width_as_wide = False, cell_width_overrides = [], unicode_version = 9\<rparr>"

section \<open>Reading the state\<close>

definition cursor_within_horizontal_margins :: "terminal \<Rightarrow> bool" where
  "cursor_within_horizontal_margins t \<longleftrightarrow> \<not> mode_left_right_margin (modes t) \<or>
     (cursor_column t \<ge> left_margin t \<and> cursor_column t \<le> right_margin t)"

definition cursor_within_vertical_margins :: "terminal \<Rightarrow> bool" where
  "cursor_within_vertical_margins t \<longleftrightarrow> cursor_row t \<ge> scroll_top t \<and> cursor_row t \<le> scroll_bottom t"

definition character_right_boundary :: "terminal \<Rightarrow> u16" where
  "character_right_boundary t =
     (let physical_right = columns_of t - 1 in
      if mode_left_right_margin (modes t) \<and> cursor_within_horizontal_margins t
      then min (right_margin t) physical_right else physical_right)"

definition active_scroll_range :: "terminal \<Rightarrow> (u16 \<times> u16) option" where
  "active_scroll_range t =
     (if rows_of t = 0 \<or> columns_of t = 0 then None
      else let upper = min (scroll_top t) (rows_of t - 1); lower = min (scroll_bottom t) (rows_of t - 1)
        in if upper > lower then None else Some (upper, lower))"

definition active_scroll_range_from_cursor :: "terminal \<Rightarrow> (u16 \<times> u16) option" where
  "active_scroll_range_from_cursor t =
     (if rows_of t = 0 \<or> columns_of t = 0 then None
      else let upper = min (scroll_top t) (rows_of t - 1); lower = min (scroll_bottom t) (rows_of t - 1)
        in if cursor_row t < upper \<or> cursor_row t > lower then None else Some (cursor_row t, lower))"

definition bounded_horizontal_scroll_columns :: "terminal \<Rightarrow> (u16 \<times> u16) option" where
  "bounded_horizontal_scroll_columns t =
     (let cols = columns_of t in
      if \<not> mode_left_right_margin (modes t) \<or> cols = 0 then None
      else let left = min (left_margin t) (cols - 1); right = min (right_margin t) (cols - 1)
        in if left < right \<and> (left \<noteq> 0 \<or> right \<noteq> cols - 1) then Some (left, right) else None)"

definition should_record_scrollback_for_scroll :: "u16 \<Rightarrow> u16 \<Rightarrow> terminal \<Rightarrow> bool" where
  "should_record_scrollback_for_scroll upper lower t \<longleftrightarrow>
     main_screen t = None \<and> upper = 0 \<and> lower < rows_of t \<and> left_margin t = 0 \<and>
     right_margin t = columns_of t - 1 \<and> columns_of t > 0"

definition current_history_row :: "terminal \<Rightarrow> usize" where
  "current_history_row t = length (scrollback t) + cursor_row t"

definition blank_cell :: "terminal \<Rightarrow> cell" where
  "blank_cell t = set_blank (style t)"

definition map_graphic_character :: "nat \<Rightarrow> terminal \<Rightarrow> nat" where
  "map_graphic_character ch t =
     (case character_set_of t of Charset_Ascii \<Rightarrow> ch | DecSpecialGraphics \<Rightarrow> map_dec_special_graphics ch)"

section \<open>Small changes\<close>

definition record_damage :: "damage_region \<Rightarrow> terminal \<Rightarrow> terminal" where
  "record_damage d t =
     (if damage_is_empty d then t
      else if damage t \<noteq> [] \<and> damage_y (last (damage t)) = damage_y d \<and> damage_height (last (damage t)) = damage_height d \<and>
        damage_right (last (damage t)) = damage_x d
      then t\<lparr>damage := butlast (damage t) @ [(last (damage t))\<lparr>damage_width :=
             sat_add_u16 (damage_width (last (damage t))) (damage_width d)\<rparr>]\<rparr>
      else t\<lparr>damage := damage t @ [d]\<rparr>)"

definition damage_rect :: "u16 \<Rightarrow> u16 \<Rightarrow> u16 \<Rightarrow> u16 \<Rightarrow> damage_region" where
  "damage_rect x y w h = \<lparr>damage_x = x, damage_y = y, damage_width = w, damage_height = h\<rparr>"

definition damage_all :: "terminal \<Rightarrow> terminal" where
  "damage_all t = record_damage (damage_rect 0 0 (columns_of t) (rows_of t)) t"

definition set_grid_cell :: "u16 \<Rightarrow> u16 \<Rightarrow> cell \<Rightarrow> terminal \<Rightarrow> bool \<times> terminal" where
  "set_grid_cell row column c t =
     (case grid_set row column c (grid t) of
        (False, _) \<Rightarrow> (False, t)
      | (True, g) \<Rightarrow> (True, t\<lparr>grid := set_row_last_change_seqno row (seqno t) g\<rparr>))"

definition put_cell :: "u16 \<Rightarrow> u16 \<Rightarrow> cell \<Rightarrow> terminal \<Rightarrow> terminal" where
  "put_cell row column c t = snd (set_grid_cell row column c t)"

definition set_grid_row_wrapped :: "u16 \<Rightarrow> bool \<Rightarrow> terminal \<Rightarrow> terminal" where
  "set_grid_row_wrapped row wrapped t =
     (if grid_row_wrapped row (grid t) = wrapped then t
      else t\<lparr>grid := set_row_last_change_seqno row (seqno t) (grid_set_row_wrapped row wrapped (grid t))\<rparr>)"

definition clear_semantic_type_due_to_movement :: "terminal \<Rightarrow> terminal" where
  "clear_semantic_type_due_to_movement t =
     (if clear_semantic_type_on_movement t
      then t\<lparr>clear_semantic_type_on_movement := False, style := (style t)\<lparr>cell_semantic := Semantic_Output\<rparr>\<rparr> else t)"

definition bump_screen_identity_generation :: "terminal \<Rightarrow> terminal" where
  "bump_screen_identity_generation t = t\<lparr>screen_identity_generation := screen_identity_generation t + 1\<rparr>"

definition record_unknown_escape_sequence :: "str \<Rightarrow> terminal \<Rightarrow> terminal" where
  "record_unknown_escape_sequence s t = t\<lparr>unknown_escape_sequences := unknown_escape_sequences t @ [s]\<rparr>"

section \<open>The cursor\<close>

definition carriage_return :: "terminal \<Rightarrow> terminal" where
  "carriage_return t = t\<lparr>cursor_column :=
     (if mode_left_right_margin (modes t) \<and> cursor_column t \<ge> left_margin t then left_margin t else 0),
     pending_wrap := False\<rparr>"

definition backspace :: "terminal \<Rightarrow> terminal" where
  "backspace t =
     (let t = t\<lparr>pending_wrap := False\<rparr> in
      if columns_of t = 0 \<or> rows_of t = 0 then t
      else let left_boundary = (if mode_left_right_margin (modes t) \<and> cursor_column t \<ge> left_margin t \<and>
             cursor_column t \<le> right_margin t then left_margin t else 0) in
        if cursor_column t > left_boundary then t\<lparr>cursor_column := cursor_column t - 1\<rparr>
        else if mode_reverse_wrap (modes t) \<and> mode_auto_wrap (modes t) then
          t\<lparr>cursor_row := (if cursor_row t = 0 then rows_of t - 1 else cursor_row t - 1),
            cursor_column := (if mode_left_right_margin (modes t) then min (right_margin t) (columns_of t - 1)
              else columns_of t - 1)\<rparr>
        else t)"

definition set_horizontal_tab_stop :: "terminal \<Rightarrow> terminal" where
  "set_horizontal_tab_stop t = t\<lparr>tab_stops_of := tab_stops_set (cursor_column t) (grid_size (grid t)) (tab_stops_of t)\<rparr>"

definition clear_tab_stop :: "u16 \<Rightarrow> terminal \<Rightarrow> terminal" where
  "clear_tab_stop mode t =
     (if mode = 0 then t\<lparr>tab_stops_of := tab_stops_clear (cursor_column t) (tab_stops_of t)\<rparr>
      else if mode = 3 then t\<lparr>tab_stops_of := tab_stops_clear_all (tab_stops_of t)\<rparr> else t)"

text \<open>The loops over tab stops end when the cursor stays where it is.\<close>

primrec forward_tabs :: "nat \<Rightarrow> u16 \<Rightarrow> tab_stops \<Rightarrow> u16 \<Rightarrow> u16" where
  "forward_tabs 0 fallback stops column = column"
| "forward_tabs (Suc n) fallback stops column =
     (let next = next_after column fallback stops in
      if next = column then column else forward_tabs n fallback stops next)"

definition move_forward_tabs :: "u16 \<Rightarrow> terminal \<Rightarrow> terminal" where
  "move_forward_tabs n t =
     (let t = t\<lparr>pending_wrap := False\<rparr> in
      if columns_of t = 0 then t
      else t\<lparr>cursor_column := forward_tabs n (columns_of t - 1) (tab_stops_of t) (cursor_column t)\<rparr>)"

definition horizontal_tab :: "terminal \<Rightarrow> terminal" where
  "horizontal_tab = move_forward_tabs 1"

primrec backward_tabs :: "nat \<Rightarrow> tab_stops \<Rightarrow> u16 \<Rightarrow> u16" where
  "backward_tabs 0 stops column = column"
| "backward_tabs (Suc n) stops column =
     (let previous = previous_before column stops in
      if previous = column then column else backward_tabs n stops previous)"

definition move_backward_tabs :: "u16 \<Rightarrow> terminal \<Rightarrow> terminal" where
  "move_backward_tabs n t =
     (let t = t\<lparr>pending_wrap := False\<rparr> in
      if columns_of t = 0 then t
      else t\<lparr>cursor_column := backward_tabs n (tab_stops_of t) (cursor_column t)\<rparr>)"

definition moved_row :: "u16 \<Rightarrow> terminal \<Rightarrow> terminal" where
  "moved_row previous_row t = (if cursor_row t \<noteq> previous_row then clear_semantic_type_due_to_movement t else t)"

definition move_cursor_up :: "u16 \<Rightarrow> terminal \<Rightarrow> terminal" where
  "move_cursor_up n t = moved_row (cursor_row t) (t\<lparr>pending_wrap := False, cursor_row := cursor_row t - n\<rparr>)"

definition move_cursor_down :: "u16 \<Rightarrow> terminal \<Rightarrow> terminal" where
  "move_cursor_down n t =
     (let t = t\<lparr>pending_wrap := False\<rparr> in
      if rows_of t = 0 then t
      else moved_row (cursor_row t) (t\<lparr>cursor_row := min (sat_add_u16 (cursor_row t) n) (rows_of t - 1)\<rparr>))"

definition move_cursor_forward :: "u16 \<Rightarrow> terminal \<Rightarrow> terminal" where
  "move_cursor_forward n t =
     (let t = t\<lparr>pending_wrap := False\<rparr> in
      if columns_of t = 0 then t
      else t\<lparr>cursor_column := min (sat_add_u16 (cursor_column t) n) (columns_of t - 1)\<rparr>)"

definition move_cursor_back :: "u16 \<Rightarrow> terminal \<Rightarrow> terminal" where
  "move_cursor_back n t = t\<lparr>pending_wrap := False, cursor_column := cursor_column t - n\<rparr>"

definition move_cursor_next_line :: "u16 \<Rightarrow> terminal \<Rightarrow> terminal" where
  "move_cursor_next_line n t = (move_cursor_down n t)\<lparr>cursor_column := 0\<rparr>"

definition move_cursor_previous_line :: "u16 \<Rightarrow> terminal \<Rightarrow> terminal" where
  "move_cursor_previous_line n t = (move_cursor_up n t)\<lparr>cursor_column := 0\<rparr>"

definition cursor_row_from_position_param :: "u16 \<Rightarrow> terminal \<Rightarrow> u16" where
  "cursor_row_from_position_param param t =
     (let row = param - 1; rows = rows_of t in
      if rows = 0 then 0
      else if mode_origin (modes t)
      then min (sat_add_u16 (min (scroll_top t) (rows - 1)) row) (min (scroll_bottom t) (rows - 1))
      else min row (rows - 1))"

definition cursor_column_from_position_param :: "u16 \<Rightarrow> terminal \<Rightarrow> u16" where
  "cursor_column_from_position_param param t =
     (let column = param - 1; cols = columns_of t in
      if cols = 0 then 0
      else if mode_origin (modes t) \<and> mode_left_right_margin (modes t)
      then min (sat_add_u16 (left_margin t) column) (right_margin t)
      else min column (cols - 1))"

definition position_cursor :: "str \<Rightarrow> terminal \<Rightarrow> terminal" where
  "position_cursor params t =
     (let t = t\<lparr>pending_wrap := False\<rparr>; vals = parse_csi_params params in
      if rows_of t = 0 \<or> columns_of t = 0 then t
      else moved_row (cursor_row t)
        (t\<lparr>cursor_row := cursor_row_from_position_param (param_or_one (nth_opt vals 0)) t,
           cursor_column := cursor_column_from_position_param (param_or_one (nth_opt vals 1)) t\<rparr>))"

definition position_cursor_column :: "str \<Rightarrow> terminal \<Rightarrow> terminal" where
  "position_cursor_column params t =
     (let t = t\<lparr>pending_wrap := False\<rparr> in
      if columns_of t = 0 then t else t\<lparr>cursor_column := min (csi_count params - 1) (columns_of t - 1)\<rparr>)"

definition position_cursor_row :: "str \<Rightarrow> terminal \<Rightarrow> terminal" where
  "position_cursor_row params t =
     (let t = t\<lparr>pending_wrap := False\<rparr> in
      if rows_of t = 0 then t
      else moved_row (cursor_row t) (t\<lparr>cursor_row := min (csi_count params - 1) (rows_of t - 1)\<rparr>))"

definition cursor_home :: "terminal \<Rightarrow> terminal" where
  "cursor_home t = clear_semantic_type_due_to_movement (t\<lparr>pending_wrap := False,
     cursor_column := (if mode_origin (modes t) \<and> mode_left_right_margin (modes t) then left_margin t else 0),
     cursor_row := (if mode_origin (modes t) then min (scroll_top t) (rows_of t - 1) else 0)\<rparr>)"

definition advance_cursor :: "u16 \<Rightarrow> terminal \<Rightarrow> terminal" where
  "advance_cursor width t =
     (let next_column = sat_add_u16 (cursor_column t) width; right_boundary = character_right_boundary t in
      if next_column > right_boundary
      then t\<lparr>cursor_column := right_boundary, pending_wrap := mode_auto_wrap (modes t)\<rparr>
      else t\<lparr>cursor_column := next_column, pending_wrap := False\<rparr>)"

definition save_cursor :: "terminal \<Rightarrow> terminal" where
  "save_cursor t = t\<lparr>saved_cursor_of := Some \<lparr>saved_row = cursor_row t, saved_column = cursor_column t,
     saved_pending_wrap = pending_wrap t, saved_clear_semantic = clear_semantic_type_on_movement t,
     saved_origin_mode = mode_origin (modes t), saved_character_set = character_set_of t, saved_style = style t\<rparr>\<rparr>"

definition restore_cursor :: "terminal \<Rightarrow> terminal" where
  "restore_cursor t =
     (case saved_cursor_of t of
        None \<Rightarrow> t
      | Some s \<Rightarrow>
          (let t = t\<lparr>modes := (modes t)\<lparr>mode_origin := saved_origin_mode s\<rparr>,
                 character_set_of := saved_character_set s, style := saved_style s\<rparr> in
           if rows_of t = 0 \<or> columns_of t = 0 then t\<lparr>cursor_row := 0, cursor_column := 0, pending_wrap := False\<rparr>
           else t\<lparr>cursor_row := min (saved_row s) (rows_of t - 1), cursor_column := min (saved_column s) (columns_of t - 1),
             pending_wrap := saved_pending_wrap s, clear_semantic_type_on_movement := saved_clear_semantic s\<rparr>))"

section \<open>Margins\<close>

definition set_left_right_margin_mode :: "bool \<Rightarrow> terminal \<Rightarrow> terminal" where
  "set_left_right_margin_mode enabled t =
     (let t = t\<lparr>modes := (modes t)\<lparr>mode_left_right_margin := enabled\<rparr>\<rparr> in
      if enabled then t else t\<lparr>left_margin := 0, right_margin := columns_of t - 1\<rparr>)"

text \<open>The second parameter of a region: absent or zero means the last row or column.\<close>

definition region_end :: "u16 list \<Rightarrow> u16 \<Rightarrow> u16" where
  "region_end vals limit =
     min ((case nth_opt vals 1 of Some v \<Rightarrow> if v \<noteq> 0 then v else limit | None \<Rightarrow> limit) - 1) (limit - 1)"

definition set_scroll_region :: "str \<Rightarrow> terminal \<Rightarrow> terminal" where
  "set_scroll_region params t =
     (if rows_of t = 0 then t
      else let vals = parse_csi_params params; upper = param_or_one (nth_opt vals 0) - 1; lower = region_end vals (rows_of t)
        in if upper \<ge> lower then t else cursor_home (t\<lparr>scroll_top := upper, scroll_bottom := lower\<rparr>))"

definition set_left_right_margins :: "str \<Rightarrow> terminal \<Rightarrow> terminal" where
  "set_left_right_margins params t =
     (if columns_of t = 0 then t
      else let vals = parse_csi_params params; left = param_or_one (nth_opt vals 0) - 1; right = region_end vals (columns_of t)
        in if left \<ge> right then t else cursor_home (t\<lparr>left_margin := left, right_margin := right\<rparr>))"

definition clamp_axis :: "u16 \<Rightarrow> u16 \<Rightarrow> u16" where
  "clamp_axis v limit = min v (limit - 1)"

definition clamp_to_size :: "terminal \<Rightarrow> terminal" where
  "clamp_to_size t =
     (let t = t\<lparr>cursor_row := clamp_axis (cursor_row t) (rows_of t), cursor_column := clamp_axis (cursor_column t) (columns_of t),
            scroll_top := clamp_axis (scroll_top t) (rows_of t), scroll_bottom := clamp_axis (scroll_bottom t) (rows_of t),
            left_margin := clamp_axis (left_margin t) (columns_of t), right_margin := clamp_axis (right_margin t) (columns_of t)\<rparr>;
          t = (if scroll_top t \<ge> scroll_bottom t then t\<lparr>scroll_top := 0, scroll_bottom := rows_of t - 1\<rparr> else t);
          t = (if left_margin t \<ge> right_margin t then t\<lparr>left_margin := 0, right_margin := columns_of t - 1\<rparr> else t)
      in if columns_of t = 0 \<or> rows_of t = 0 then t\<lparr>pending_wrap := False\<rparr> else t)"

end
