(* ===== verification/Term_Screen.thy ===== *)
theory Term_Screen
  imports Term_State
begin

text \<open>
  Scrolling, line feeds and the edits of lines and characters, \<open>rssh-terminal/src/parser.rs\<close>. A loop over
  rows or columns is a fold over its range.
\<close>

definition upd_images :: "(graphics \<Rightarrow> graphics) \<Rightarrow> terminal \<Rightarrow> terminal" where
  "upd_images f t = t\<lparr>images := f (images t)\<rparr>"

definition upd_images_flag :: "(graphics \<Rightarrow> bool \<times> graphics) \<Rightarrow> terminal \<Rightarrow> bool \<times> terminal" where
  "upd_images_flag f t = (case f (images t) of (b, g) \<Rightarrow> (b, t\<lparr>images := g\<rparr>))"

definition touch_rows :: "nat \<Rightarrow> nat \<Rightarrow> terminal \<Rightarrow> terminal" where
  "touch_rows first beyond t = t\<lparr>grid := fold (\<lambda>row. set_row_last_change_seqno row (seqno t)) [first ..< beyond] (grid t)\<rparr>"

section \<open>The history\<close>

definition rebase_inline_images_after_history_prune :: "nat \<Rightarrow> terminal \<Rightarrow> terminal" where
  "rebase_inline_images_after_history_prune removed_rows t =
     (if removed_rows = 0 then t
      else let virtuals = kitty_virtual_placements (images t);
             t1 = t\<lparr>main_screen := map_option (\<lambda>s.
               let sg = rebase_image_and_placeholder_metadata removed_rows (saved_graphics s) in
               s\<lparr>saved_graphics := sg\<lparr>kitty_character_edited_placements := retain_edited (inline_images sg)
                  (inline_image_parent_ids sg) (inline_image_attachments sg) virtuals (kitty_character_edited_placements sg)\<rparr>\<rparr>)
               (main_screen t)\<rparr>;
             t2 = upd_images (\<lambda>g. retain_kitty_character_edited_placements (rebase_image_and_placeholder_metadata removed_rows g)) t1
        in if main_screen t = None then upd_images delete_orphan_kitty_relative_children t2 else t2)"

definition prune_scrollback_rows :: "nat \<Rightarrow> terminal \<Rightarrow> terminal" where
  "prune_scrollback_rows n t =
     (case evict_front n (scrollback t) of (rows, h) \<Rightarrow>
        let t = t\<lparr>scrollback := h\<rparr> in
        if rows = 0 then t
        else rebase_inline_images_after_history_prune rows (t\<lparr>
          main_stable_row_offset := main_stable_row_offset t + int rows,
          semantic_prompt_rows := List.map_filter (\<lambda>row. checked_sub row rows) (semantic_prompt_rows t),
          semantic_command_exits := List.map_filter (\<lambda>c. map_option (\<lambda>r. c\<lparr>exit_row := r\<rparr>) (checked_sub (exit_row c) rows))
            (semantic_command_exits t)\<rparr>))"

definition trim_scrollback_to_limit :: "terminal \<Rightarrow> terminal" where
  "trim_scrollback_to_limit t =
     (if length (scrollback t) > scrollback_limit t
      then prune_scrollback_rows (length (scrollback t) - scrollback_limit t) t else t)"

definition set_scrollback_limit :: "usize \<Rightarrow> terminal \<Rightarrow> terminal" where
  "set_scrollback_limit limit t = trim_scrollback_to_limit (t\<lparr>scrollback_limit := limit\<rparr>)"

definition shift_suffix_metadata_for_recorded_rows :: "usize \<Rightarrow> nat \<Rightarrow> terminal \<Rightarrow> terminal" where
  "shift_suffix_metadata_for_recorded_rows suffix_start rows t =
     (if rows = 0 then t
      else let shift = (\<lambda>row. if row \<ge> suffix_start then row + rows else row) in
        upd_images (shift_image_and_placeholder_suffix_metadata suffix_start rows) (t\<lparr>
          semantic_prompt_rows := map shift (semantic_prompt_rows t),
          semantic_command_exits := map (\<lambda>c. c\<lparr>exit_row := shift (exit_row c)\<rparr>) (semantic_command_exits t)\<rparr>))"

section \<open>Scrolling\<close>

definition scroll_down_region :: "u16 \<Rightarrow> u16 \<Rightarrow> u16 \<Rightarrow> terminal \<Rightarrow> terminal" where
  "scroll_down_region upper lower n t =
     (if rows_of t = 0 \<or> columns_of t = 0 \<or> upper > lower \<or> n = 0 then t
      else let height = lower - upper + 1; n = min n height; base = length (scrollback t);
             t1 = upd_images (\<lambda>g. scroll_kitty_placeholder_cells_down_region base upper lower n
                    (scroll_inline_images_down_region base upper lower n g)) t;
             t2 = t1\<lparr>grid := scroll_down_rows upper lower n (blank_cell t1) (seqno t1) (grid t1)\<rparr>
        in record_damage (damage_rect 0 upper (columns_of t) height) (touch_rows upper (lower + 1) t2))"

definition scroll_up_region_by :: "u16 \<Rightarrow> u16 \<Rightarrow> u16 \<Rightarrow> terminal \<Rightarrow> terminal" where
  "scroll_up_region_by upper lower n t =
     (if rows_of t = 0 \<or> columns_of t = 0 \<or> upper > lower \<or> n = 0 then t
      else let height = lower - upper + 1; n = min n height; base = length (scrollback t);
             records_scrollback = should_record_scrollback_for_scroll upper lower t in
        if records_scrollback then
          (let suffix_start = base + lower + 1;
               t1 = (if sat_add_u16 lower 1 < rows_of t
                     then upd_images (drop_inline_images_crossing_history_boundary suffix_start) t else t);
               t2 = shift_suffix_metadata_for_recorded_rows suffix_start n t1 in
           case scroll_up_rows upper lower n (blank_cell t2) (seqno t2) (grid t2) of (exiting_rows, g) \<Rightarrow>
             let t3 = trim_scrollback_to_limit (t2\<lparr>grid := g,
                   scrollback := fold (\<lambda>r. history_append (from_grid_row r)) exiting_rows (scrollback t2)\<rparr>)
             in record_damage (damage_rect 0 upper (columns_of t) height) (touch_rows (sat_add_u16 lower 1) (rows_of t) t3))
        else
          (let t1 = upd_images (\<lambda>g. scroll_kitty_placeholder_cells_up_region base upper lower n
                    (scroll_inline_images_up_region base upper lower n g)) t;
               t2 = t1\<lparr>grid := scroll_up_rows_discarding upper lower n (blank_cell t1) (seqno t1) (grid t1)\<rparr>
           in record_damage (damage_rect 0 upper (columns_of t) height) (touch_rows upper (lower + 1) t2)))"

text \<open>
  Inside left and right margins the cells are copied one by one; \<open>grid_set\<close> is used directly, and the
  changed rows are marked afterwards.
\<close>

definition cell_or_default :: "u16 \<Rightarrow> u16 \<Rightarrow> terminal_grid \<Rightarrow> cell" where
  "cell_or_default row column g = (case grid_get row column g of Some c \<Rightarrow> c | None \<Rightarrow> cell_default)"

definition copy_row_cells :: "u16 \<Rightarrow> u16 \<Rightarrow> u16 \<Rightarrow> u16 \<Rightarrow> terminal_grid \<Rightarrow> terminal_grid" where
  "copy_row_cells source target left right g =
     fold (\<lambda>column g. snd (grid_set target column (cell_or_default source column g) g)) [left ..< right + 1] g"

definition blank_row_cells :: "cell \<Rightarrow> u16 \<Rightarrow> u16 \<Rightarrow> u16 \<Rightarrow> terminal_grid \<Rightarrow> terminal_grid" where
  "blank_row_cells blank left right row g =
     fold (\<lambda>column g. snd (grid_set row column blank g)) [left ..< right + 1] g"

definition scroll_down_bounded_cells :: "u16 \<Rightarrow> u16 \<Rightarrow> u16 \<Rightarrow> u16 \<Rightarrow> u16 \<Rightarrow> terminal \<Rightarrow> terminal" where
  "scroll_down_bounded_cells upper lower n left right t =
     (let height = lower - upper + 1;
          g = (if n < height
               then fold (\<lambda>row. copy_row_cells row (row + n) left right) (rev [upper ..< lower - n + 1]) (grid t)
               else grid t)
      in t\<lparr>grid := fold (blank_row_cells (blank_cell t) left right) [upper ..< upper + n] g\<rparr>)"

definition scroll_up_bounded_cells :: "u16 \<Rightarrow> u16 \<Rightarrow> u16 \<Rightarrow> u16 \<Rightarrow> u16 \<Rightarrow> terminal \<Rightarrow> terminal" where
  "scroll_up_bounded_cells upper lower n left right t =
     (let height = lower - upper + 1;
          g = (if n < height
               then fold (\<lambda>row. copy_row_cells (row + n) row left right) [upper ..< lower - n + 1] (grid t)
               else grid t);
          blank_start = (if n = height then upper else lower - n + 1)
      in t\<lparr>grid := fold (blank_row_cells (blank_cell t) left right) [blank_start ..< lower + 1] g\<rparr>)"

definition damage_all_if :: "bool \<Rightarrow> terminal_size \<Rightarrow> terminal \<Rightarrow> terminal" where
  "damage_all_if b sz t = (if b then record_damage (damage_rect 0 0 (size_columns sz) (size_rows sz)) t else t)"

definition scroll_down_with_horizontal_margins :: "u16 \<Rightarrow> u16 \<Rightarrow> u16 \<Rightarrow> terminal \<Rightarrow> terminal" where
  "scroll_down_with_horizontal_margins upper lower n t =
     (if rows_of t = 0 \<or> columns_of t = 0 \<or> upper > lower \<or> n = 0 then t
      else let height = lower - upper + 1; n = min n height; base = length (scrollback t) in
        case bounded_horizontal_scroll_columns t of
          None \<Rightarrow> scroll_down_region upper lower n t
        | Some (left, right) \<Rightarrow>
            (case upd_images_flag (retire_malformed_graphics_in_bounded_scroll_region base upper lower left right) t of
               (retired, t1) \<Rightarrow>
             case upd_images_flag (apply_cell_transform (ScrollDown (base + upper) (base + lower) n left right)) t1 of
               (overflow_changed, t2) \<Rightarrow>
             damage_all_if (retired \<or> overflow_changed) (grid_size (grid t))
               (record_damage (damage_rect left upper (right - left + 1) height)
                 (touch_rows upper (lower + 1) (scroll_down_bounded_cells upper lower n left right t2)))))"

definition scroll_up_with_horizontal_margins :: "u16 \<Rightarrow> u16 \<Rightarrow> u16 \<Rightarrow> terminal \<Rightarrow> terminal" where
  "scroll_up_with_horizontal_margins upper lower n t =
     (if rows_of t = 0 \<or> columns_of t = 0 \<or> upper > lower \<or> n = 0 then t
      else let height = lower - upper + 1; n = min n height; base = length (scrollback t) in
        case bounded_horizontal_scroll_columns t of
          None \<Rightarrow> scroll_up_region_by upper lower n t
        | Some (left, right) \<Rightarrow>
            (case upd_images_flag (retire_malformed_graphics_in_bounded_scroll_region base upper lower left right) t of
               (retired, t1) \<Rightarrow>
             case upd_images_flag (apply_cell_transform (ScrollUp (base + upper) (base + lower) n left right)) t1 of
               (overflow_changed, t2) \<Rightarrow>
             damage_all_if (retired \<or> overflow_changed) (grid_size (grid t))
               (record_damage (damage_rect left upper (right - left + 1) height)
                 (touch_rows upper (lower + 1) (scroll_up_bounded_cells upper lower n left right t2)))))"

section \<open>Lines\<close>

definition index_down :: "bool \<Rightarrow> terminal \<Rightarrow> terminal" where
  "index_down wrapped t =
     (let t = t\<lparr>pending_wrap := False\<rparr> in
      if rows_of t = 0 then t
      else let lower = min (scroll_bottom t) (rows_of t - 1);
             t1 = (if cursor_row t = lower
                   then (scroll_up_with_horizontal_margins (scroll_top t) lower 1 t)\<lparr>cursor_row := lower\<rparr>
                   else if cursor_row t + 1 < rows_of t then t\<lparr>cursor_row := cursor_row t + 1\<rparr> else t)
        in clear_semantic_type_due_to_movement (set_grid_row_wrapped (cursor_row t1) wrapped t1))"

definition index_down_outside_horizontal_margins :: "bool \<Rightarrow> terminal \<Rightarrow> terminal" where
  "index_down_outside_horizontal_margins wrapped t =
     (let t = t\<lparr>pending_wrap := False\<rparr> in
      if rows_of t = 0 then t
      else let lower = min (scroll_bottom t) (rows_of t - 1);
             t1 = (if cursor_row t \<noteq> lower \<and> cursor_row t + 1 < rows_of t then t\<lparr>cursor_row := cursor_row t + 1\<rparr> else t)
        in clear_semantic_type_due_to_movement (set_grid_row_wrapped (cursor_row t1) wrapped t1))"

definition index_down_control :: "bool \<Rightarrow> terminal \<Rightarrow> terminal" where
  "index_down_control wrapped t = (if cursor_within_horizontal_margins t then index_down wrapped t else t)"

definition newline :: "terminal \<Rightarrow> terminal" where
  "newline t = index_down False (carriage_return t)"

definition line_feed :: "terminal \<Rightarrow> terminal" where
  "line_feed t = (if cursor_within_horizontal_margins t then index_down False t
     else index_down_outside_horizontal_margins False t)"

definition wrapped_newline :: "terminal \<Rightarrow> terminal" where
  "wrapped_newline t =
     (if mode_left_right_margin (modes t) \<and> \<not> cursor_within_horizontal_margins t
      then index_down_outside_horizontal_margins True (t\<lparr>cursor_column := 0, pending_wrap := False\<rparr>)
      else index_down True (carriage_return t))"

definition next_line :: "terminal \<Rightarrow> terminal" where
  "next_line t =
     (let inside = cursor_within_horizontal_margins t;
          t1 = (if mode_left_right_margin (modes t) \<and> \<not> inside
                then t\<lparr>cursor_column := (if cursor_column t < left_margin t then cursor_column t else left_margin t),
                       pending_wrap := False\<rparr>
                else carriage_return t)
      in if inside then index_down False t1 else index_down_outside_horizontal_margins False t1)"

definition reverse_index :: "terminal \<Rightarrow> terminal" where
  "reverse_index t =
     (if \<not> cursor_within_horizontal_margins t then t
      else let t = t\<lparr>pending_wrap := False\<rparr> in
        if rows_of t = 0 then t
        else let upper = min (scroll_top t) (rows_of t - 1); lower = min (scroll_bottom t) (rows_of t - 1)
          in clear_semantic_type_due_to_movement
               (if cursor_row t = upper
                then (scroll_down_with_horizontal_margins upper lower 1 t)\<lparr>cursor_row := upper\<rparr>
                else t\<lparr>cursor_row := cursor_row t - 1\<rparr>))"

definition insert_lines :: "u16 \<Rightarrow> terminal \<Rightarrow> terminal" where
  "insert_lines n t =
     (let t = t\<lparr>pending_wrap := False\<rparr> in
      if \<not> cursor_within_horizontal_margins t then t
      else case active_scroll_range_from_cursor t of
        None \<Rightarrow> t | Some (upper, lower) \<Rightarrow> scroll_down_with_horizontal_margins upper lower n t)"

definition delete_lines :: "u16 \<Rightarrow> terminal \<Rightarrow> terminal" where
  "delete_lines n t =
     (let t = t\<lparr>pending_wrap := False\<rparr> in
      if \<not> cursor_within_horizontal_margins t then t
      else case active_scroll_range_from_cursor t of
        None \<Rightarrow> t | Some (upper, lower) \<Rightarrow> scroll_up_with_horizontal_margins upper lower n t)"

definition scroll_up :: "u16 \<Rightarrow> terminal \<Rightarrow> terminal" where
  "scroll_up n t =
     (let t = t\<lparr>pending_wrap := False\<rparr> in
      case active_scroll_range t of
        None \<Rightarrow> t | Some (upper, lower) \<Rightarrow> scroll_up_with_horizontal_margins upper lower n t)"

definition scroll_down :: "u16 \<Rightarrow> terminal \<Rightarrow> terminal" where
  "scroll_down n t =
     (let t = t\<lparr>pending_wrap := False\<rparr> in
      case active_scroll_range t of
        None \<Rightarrow> t | Some (upper, lower) \<Rightarrow> scroll_down_with_horizontal_margins upper lower n t)"

end
