(* ===== verification/Term_Edit.thy ===== *)
theory Term_Edit
  imports Term_Screen
begin

text \<open>
  Edits inside a row, \<open>rssh-terminal/src/parser.rs\<close>: repairing the spans of wide characters, clearing cells,
  inserting, deleting and erasing characters. Deleting first aligns its range to whole characters with
  a loop that need not end; \<open>None\<close> stands for not returning.
\<close>

section \<open>Spans of wide characters\<close>

definition leader_column :: "u16 \<Rightarrow> cell option \<Rightarrow> u16" where
  "leader_column column c =
     (case c of None \<Rightarrow> column
      | Some c \<Rightarrow> (case cell_content c of Continuation leader_delta \<Rightarrow> column - leader_delta | _ \<Rightarrow> column))"

definition grapheme_leader_column :: "u16 \<Rightarrow> terminal \<Rightarrow> u16" where
  "grapheme_leader_column column t = leader_column column (grid_get (cursor_row t) column (grid t))"

definition clear_grapheme_span_at :: "u16 \<Rightarrow> u16 \<Rightarrow> terminal \<Rightarrow> terminal" where
  "clear_grapheme_span_at row column t =
     (case grid_get row column (grid t) of
        None \<Rightarrow> t
      | Some c \<Rightarrow>
          (let leader = leader_column column (Some c);
               width = (case grid_get row leader (grid t) of None \<Rightarrow> 1 | Some c \<Rightarrow> max 1 (cell_columns c))
           in fold (\<lambda>i t. let target = sat_add_u16 leader i in
                if target < columns_of t then put_cell row target (blank_cell t) t else t) [0 ..< width] t))"

definition span_complete :: "u16 \<Rightarrow> u16 \<Rightarrow> u16 \<Rightarrow> terminal_grid \<Rightarrow> bool" where
  "span_complete row column width g \<longleftrightarrow>
     list_all (\<lambda>i. case grid_get row (column + i) g of
        Some c \<Rightarrow> cell_content c = Continuation i | None \<Rightarrow> False) [1 ..< width]"

function sanitize_from :: "u16 \<Rightarrow> u16 \<Rightarrow> u16 \<Rightarrow> terminal \<Rightarrow> terminal" where
  "sanitize_from cols row column t =
     (if column < cols then
        (case grid_get row column (grid t) of
           None \<Rightarrow> t
         | Some c \<Rightarrow>
             if is_continuation c then sanitize_from cols row (column + 1) (put_cell row column (blank_cell t) t)
             else let width = max 1 (cell_columns c) in
               if width = 1 \<or> sat_add_u16 column width \<le> cols \<and> span_complete row column width (grid t)
               then sanitize_from cols row (column + width) t
               else sanitize_from cols row (column + 1) (clear_grapheme_span_at row column t))
      else t)"
  by pat_completeness auto
termination by (relation "measure (\<lambda>(cols, row, column, t). cols - column)") auto

declare sanitize_from.simps [simp del]

definition sanitize_grapheme_spans :: "u16 \<Rightarrow> terminal \<Rightarrow> terminal" where
  "sanitize_grapheme_spans row t = sanitize_from (columns_of t) row 0 t"

section \<open>Erasing\<close>

definition clear_one_cell :: "u16 \<Rightarrow> bool \<Rightarrow> usize \<Rightarrow> u16 \<Rightarrow> terminal \<Rightarrow> terminal" where
  "clear_one_cell row selective source_row column t =
     (if selective \<and> (case grid_get row column (grid t) of Some c \<Rightarrow> protected c | None \<Rightarrow> False) then t
      else let t = (if selective then upd_images (clear_kitty_placeholder_cells source_row column 1) t else t)
        in put_cell row column (blank_cell t) t)"

definition clear_cells :: "u16 \<Rightarrow> u16 \<Rightarrow> u16 \<Rightarrow> bool \<Rightarrow> terminal \<Rightarrow> terminal" where
  "clear_cells row start_column end_column selective t =
     (let cols = columns_of t; e = min end_column cols in
      if row \<ge> rows_of t \<or> start_column \<ge> cols then t
      else if start_column \<ge> e then t
      else let source_row = length (scrollback t) + row;
             t1 = (if \<not> selective then upd_images (clear_kitty_placeholder_cells source_row start_column (e - start_column)) t else t);
             t2 = sanitize_grapheme_spans row (fold (clear_one_cell row selective source_row) [start_column ..< e] t1);
             t3 = (if start_column = 0 \<and> e \<ge> cols then set_grid_row_wrapped row False t2 else t2)
        in record_damage (damage_rect start_column row (e - start_column) 1) t3)"

definition erase_display :: "u16 \<Rightarrow> bool \<Rightarrow> terminal \<Rightarrow> terminal" where
  "erase_display mode selective t =
     (if mode = 3 then prune_scrollback_rows (length (scrollback t)) t
      else let cols = columns_of t; rows = rows_of t in
        if rows = 0 \<or> cols = 0 then t
        else if mode = 0 then
          fold (\<lambda>row. clear_cells row 0 cols selective) [sat_add_u16 (cursor_row t) 1 ..< rows]
            (clear_cells (cursor_row t) (cursor_column t) cols selective t)
        else if mode = 1 then
          clear_cells (cursor_row t) 0 (min (sat_add_u16 (cursor_column t) 1) cols) selective
            (fold (\<lambda>row. clear_cells row 0 cols selective) [0 ..< cursor_row t] t)
        else if mode = 2 then
          (let t1 = (if \<not> selective then bump_screen_identity_generation t else t);
               t2 = fold (\<lambda>row. clear_cells row 0 cols selective) [0 ..< rows] t1
           in if \<not> selective then upd_images (delete_visible_inline_images (length (scrollback t2)) (grid_size (grid t2))) t2 else t2)
        else t)"

definition erase_line :: "u16 \<Rightarrow> bool \<Rightarrow> terminal \<Rightarrow> terminal" where
  "erase_line mode selective t =
     (let cols = columns_of t in
      if cursor_row t \<ge> rows_of t \<or> cols = 0 then t
      else if mode = 0 then clear_cells (cursor_row t) (cursor_column t) cols selective t
      else if mode = 1 then clear_cells (cursor_row t) 0 (min (sat_add_u16 (cursor_column t) 1) cols) selective t
      else if mode = 2 then clear_cells (cursor_row t) 0 cols selective t
      else t)"

definition erase_characters :: "u16 \<Rightarrow> terminal \<Rightarrow> terminal" where
  "erase_characters n t =
     (let t = t\<lparr>pending_wrap := False\<rparr> in
      if cursor_row t \<ge> rows_of t \<or> cursor_column t \<ge> columns_of t \<or> n = 0 then t
      else let n = min n (columns_of t - cursor_column t);
             t1 = fold (\<lambda>column t. put_cell (cursor_row t) column (blank_cell t) t) [cursor_column t ..< cursor_column t + n] t
        in record_damage (damage_rect (cursor_column t) (cursor_row t) n 1) (sanitize_grapheme_spans (cursor_row t) t1))"

section \<open>Inserting and deleting characters\<close>

definition bounded_character_edit_retires_graphics :: "u16 \<Rightarrow> terminal \<Rightarrow> bool \<times> terminal" where
  "bounded_character_edit_retires_graphics right t =
     (case bounded_horizontal_scroll_columns t of
        None \<Rightarrow> (False, t)
      | Some _ \<Rightarrow> upd_images_flag (retire_graphics_in_bounded_scroll_region (length (scrollback t))
                   (cursor_row t) (cursor_row t) (cursor_column t) right) t)"

definition prepare_bounded_character_edit_attachments :: "u16 \<Rightarrow> cell_transform option \<Rightarrow> terminal \<Rightarrow> bool \<times> bool \<times> terminal" where
  "prepare_bounded_character_edit_attachments right transform t =
     (case (transform, bounded_horizontal_scroll_columns t) of
        (Some tr, Some _) \<Rightarrow>
          (let t1 = upd_images (transform_kitty_placeholder_state_for_character_edit tr) t in
           case upd_images_flag (retire_malformed_graphics_in_bounded_scroll_region (length (scrollback t1))
                  (cursor_row t1) (cursor_row t1) (cursor_column t1) right) t1 of
             (retired, t2) \<Rightarrow>
           case upd_images_flag (apply_cell_transform tr) t2 of (overflow_changed, t3) \<Rightarrow> (retired, overflow_changed, t3))
      | _ \<Rightarrow> (case bounded_character_edit_retires_graphics right t of (retired, t1) \<Rightarrow> (retired, False, t1)))"

definition insert_blank_characters_with_right_boundary :: "u16 \<Rightarrow> u16 \<Rightarrow> bool \<Rightarrow> terminal \<Rightarrow> terminal" where
  "insert_blank_characters_with_right_boundary n right transform_attachments t =
     (if cursor_row t \<ge> rows_of t \<or> cursor_column t \<ge> columns_of t \<or> cursor_column t > right \<or> n = 0 then t
      else let row = cursor_row t; column = cursor_column t; n = min n (right - column + 1) in
        case prepare_bounded_character_edit_attachments right
               (if transform_attachments then Some (InsertCharacters (length (scrollback t) + row) column n right) else None) t of
          (retired, overflow_changed, t1) \<Rightarrow>
            (let shift_end = right + 1 - n;
                 t2 = fold (\<lambda>c t. put_cell row (c + n) (cell_or_default row c (grid t)) t) (rev [column ..< shift_end]) t1;
                 t3 = fold (\<lambda>c t. put_cell row c (blank_cell t) t) [column ..< column + n] t2;
                 t4 = record_damage (damage_rect column row (right - column + 1) 1) (sanitize_grapheme_spans row t3)
             in damage_all_if (retired \<or> overflow_changed) (grid_size (grid t)) t4))"

definition insert_blank_characters :: "u16 \<Rightarrow> terminal \<Rightarrow> terminal" where
  "insert_blank_characters n t =
     (let t = t\<lparr>pending_wrap := False\<rparr> in
      if \<not> cursor_within_horizontal_margins t \<or> \<not> cursor_within_vertical_margins t then t
      else let right = character_right_boundary t
        in insert_blank_characters_with_right_boundary n right True
             (t\<lparr>cursor_column := grapheme_leader_column (cursor_column t) t\<rparr>))"

definition insert_blank_characters_for_write :: "u16 \<Rightarrow> terminal \<Rightarrow> terminal" where
  "insert_blank_characters_for_write n t =
     (let right = character_right_boundary t
      in insert_blank_characters_with_right_boundary n right False
           (t\<lparr>cursor_column := grapheme_leader_column (cursor_column t) t\<rparr>))"

partial_function (option) delete_range_loop :: "terminal_grid \<Rightarrow> u16 \<Rightarrow> u16 \<Rightarrow> u16 \<Rightarrow> u16 \<Rightarrow> u16 option" where
  "delete_range_loop g row right column e =
     (if column < e \<and> column \<le> right then
        (case grid_get row column g of
           None \<Rightarrow> Some e
         | Some c \<Rightarrow>
             (case cell_content c of
                Continuation leader_delta \<Rightarrow> delete_range_loop g row right (column - leader_delta) e
              | _ \<Rightarrow>
                  (let next = sat_add_u16 column (max 1 (cell_columns c))
                   in delete_range_loop g row right next (max e (min next (sat_add_u16 right 1))))))
      else Some e)"

declare delete_range_loop.simps [code]

definition grapheme_aligned_delete_range :: "u16 \<Rightarrow> u16 \<Rightarrow> terminal \<Rightarrow> (u16 \<times> u16) option" where
  "grapheme_aligned_delete_range n right t =
     (let requested_start = cursor_column t;
          requested_end = min (sat_add_u16 requested_start n) (sat_add_u16 right 1);
          start = leader_column requested_start (grid_get (cursor_row t) requested_start (grid t))
      in map_option (\<lambda>e. (start, e - start))
           (delete_range_loop (grid t) (cursor_row t) right start (max requested_end start)))"

definition delete_characters_with_right_boundary :: "u16 \<Rightarrow> u16 \<Rightarrow> terminal \<Rightarrow> terminal" where
  "delete_characters_with_right_boundary n right t =
     (if cursor_row t \<ge> rows_of t \<or> cursor_column t \<ge> columns_of t \<or> cursor_column t > right \<or> n = 0 then t
      else let row = cursor_row t; column = cursor_column t; n = min n (right - column + 1) in
        case prepare_bounded_character_edit_attachments right
               (Some (DeleteCharacters (length (scrollback t) + row) column n right)) t of
          (retired, overflow_changed, t1) \<Rightarrow>
            (let shift_end = right + 1 - n;
                 t2 = fold (\<lambda>c t. put_cell row c (cell_or_default row (c + n) (grid t)) t) [column ..< shift_end] t1;
                 t3 = fold (\<lambda>c t. put_cell row c (blank_cell t) t) [shift_end ..< right + 1] t2;
                 t4 = record_damage (damage_rect column row (right - column + 1) 1) (sanitize_grapheme_spans row t3)
             in damage_all_if (retired \<or> overflow_changed) (grid_size (grid t)) t4))"

definition delete_characters :: "u16 \<Rightarrow> terminal \<Rightarrow> terminal option" where
  "delete_characters n t =
     (let t = t\<lparr>pending_wrap := False\<rparr> in
      if \<not> cursor_within_horizontal_margins t then Some t
      else let right = character_right_boundary t in
        case grapheme_aligned_delete_range n right t of
          None \<Rightarrow> None
        | Some (start, n) \<Rightarrow> Some (delete_characters_with_right_boundary n right (t\<lparr>cursor_column := start\<rparr>)))"

end
