(* ===== verification/Term_Write.thy ===== *)
theory Term_Write
  imports Term_Edit
begin

text \<open>
  Writing characters, \<open>rssh-terminal/src/parser.rs\<close>: the width of characters, extending the character
  before the cursor, wrapping, insertion and the placeholder characters of virtual image placements.
  The Unicode data the code takes from its libraries (widths and grapheme boundaries) is the
  argument \<open>uc\<close>.
\<close>

section \<open>Widths\<close>

record unicode_data =
  char_width :: "nat \<Rightarrow> nat option"
  char_width_cjk :: "nat \<Rightarrow> nat option"
  str_width :: "str \<Rightarrow> nat"
  str_width_cjk :: "str \<Rightarrow> nat"
  grapheme_count :: "str \<Rightarrow> nat"

definition widened_in_unicode9 :: "(u32 \<times> u32) list" where
  "widened_in_unicode9 =
     [(0x0231A, 0x0231B), (0x023E9, 0x023EC), (0x023F0, 0x023F0), (0x023F3, 0x023F3),
      (0x025FD, 0x025FE), (0x02614, 0x02615), (0x02648, 0x02653), (0x0267F, 0x0267F),
      (0x02693, 0x02693), (0x026A1, 0x026A1), (0x026AA, 0x026AB), (0x026BD, 0x026BE),
      (0x026C4, 0x026C5), (0x026CE, 0x026CE), (0x026D4, 0x026D4), (0x026EA, 0x026EA),
      (0x026F2, 0x026F3), (0x026F5, 0x026F5), (0x026FA, 0x026FA), (0x026FD, 0x026FD),
      (0x02705, 0x02705), (0x0270A, 0x0270B), (0x02728, 0x02728), (0x0274C, 0x0274C),
      (0x0274E, 0x0274E), (0x02753, 0x02755), (0x02757, 0x02757), (0x02795, 0x02797),
      (0x027B0, 0x027B0), (0x027BF, 0x027BF), (0x02B1B, 0x02B1C), (0x02B50, 0x02B50),
      (0x02B55, 0x02B55), (0x1F004, 0x1F004), (0x1F0CF, 0x1F0CF), (0x1F18E, 0x1F18E),
      (0x1F191, 0x1F19A), (0x1F201, 0x1F201), (0x1F21A, 0x1F21A), (0x1F22F, 0x1F22F),
      (0x1F232, 0x1F236), (0x1F238, 0x1F23A), (0x1F250, 0x1F251), (0x1F300, 0x1F320),
      (0x1F32D, 0x1F335), (0x1F337, 0x1F37C), (0x1F37E, 0x1F393), (0x1F3A0, 0x1F3CA),
      (0x1F3CF, 0x1F3D3), (0x1F3E0, 0x1F3F0), (0x1F3F4, 0x1F3F4), (0x1F3F8, 0x1F43E),
      (0x1F440, 0x1F440), (0x1F442, 0x1F4FC), (0x1F4FF, 0x1F53D), (0x1F54B, 0x1F54E),
      (0x1F550, 0x1F567), (0x1F595, 0x1F596), (0x1F5FB, 0x1F64F), (0x1F680, 0x1F6C5),
      (0x1F6CC, 0x1F6CC), (0x1F6D0, 0x1F6D0), (0x1F6EB, 0x1F6EC), (0x1F910, 0x1F918),
      (0x1F980, 0x1F984), (0x1F9C0, 0x1F9C0)]"

text \<open>The table is ascending, so the binary search succeeds exactly when a range holds the character.\<close>

definition is_widened_in_unicode9 :: "nat \<Rightarrow> bool" where
  "is_widened_in_unicode9 ch = list_ex (\<lambda>(first, last). first \<le> ch \<and> ch \<le> last) widened_in_unicode9"

definition override_contains :: "nat \<Rightarrow> cell_width_override \<Rightarrow> bool" where
  "override_contains ch o1 \<longleftrightarrow> override_first o1 \<le> ch \<and> ch \<le> override_last o1"

definition u16_display_width :: "nat \<Rightarrow> u16" where
  "u16_display_width width = (if width > u16_max then u16_max else width)"

definition display_width :: "unicode_data \<Rightarrow> nat \<Rightarrow> u32 \<Rightarrow> bool \<Rightarrow> cell_width_override list \<Rightarrow> u16" where
  "display_width uc ch version ambiguous_wide overrides =
     (case List.find (override_contains ch) overrides of
        Some o1 \<Rightarrow> override_width o1
      | None \<Rightarrow>
          if version \<le> 8 \<and> is_widened_in_unicode9 ch then 1
          else case (if ambiguous_wide then char_width_cjk uc ch else char_width uc ch) of
            Some width \<Rightarrow> if width = 0 then 0 else u16_display_width width
          | None \<Rightarrow> 1)"

definition grapheme_display_width :: "unicode_data \<Rightarrow> str \<Rightarrow> u32 \<Rightarrow> bool \<Rightarrow> cell_width_override list \<Rightarrow> u16" where
  "grapheme_display_width uc grapheme version ambiguous_wide overrides =
     (case grapheme of
        [] \<Rightarrow> 0
      | ch # _ \<Rightarrow>
          (case List.find (override_contains ch) overrides of
             Some o1 \<Rightarrow> override_width o1
           | None \<Rightarrow>
               if version \<le> 8 \<and> is_widened_in_unicode9 ch then 1
               else u16_display_width (if ambiguous_wide then str_width_cjk uc grapheme else str_width uc grapheme)))"

definition is_unicode_presentation_selector :: "nat \<Rightarrow> bool" where
  "is_unicode_presentation_selector ch \<longleftrightarrow> ch = 0xFE0E \<or> ch = 0xFE0F"

definition may_extend_previous_grapheme :: "str \<Rightarrow> nat \<Rightarrow> bool" where
  "may_extend_previous_grapheme previous_text ch \<longleftrightarrow> \<not> (list_all (\<lambda>c. c < 0x80) previous_text \<and> ch < 0x80)"

definition kitty_unicode_placeholder :: nat where "kitty_unicode_placeholder = 0x10EEEE"

section \<open>Placing images\<close>

record kitty_placement_options =
  po_display_columns :: "u16 option"
  po_display_rows :: "u16 option"
  po_image_id :: "u32 option"
  po_placement_id :: "u32 option"
  po_z_index :: "i32 option"
  po_parent_placement :: "kitty_placement_key option"
  po_row :: "usize option"
  po_column :: "u16 option"
  po_move_cursor :: bool
  po_source_rect :: kitty_source_rect
  po_target_x :: "u32 option"
  po_target_y :: "u32 option"

definition or_option :: "'a option \<Rightarrow> 'a option \<Rightarrow> 'a option" where
  "or_option a b = (case a of Some x \<Rightarrow> Some x | None \<Rightarrow> b)"

definition opt_or :: "'a \<Rightarrow> 'a option \<Rightarrow> 'a" where
  "opt_or d a = (case a of Some x \<Rightarrow> x | None \<Rightarrow> d)"

definition kitty_source_aspect_pixels :: "stored_kitty_image \<Rightarrow> kitty_source_rect \<Rightarrow> (u32 \<times> u32) option" where
  "kitty_source_aspect_pixels im rect =
     (case (st_pixel_width im, st_pixel_height im) of
        (Some pw, Some ph) \<Rightarrow>
          (let sx = opt_or 0 (rect_x rect); sy = opt_or 0 (rect_y rect) in
           if sx \<ge> pw \<or> sy \<ge> ph then None
           else let w = min (opt_or (pw - sx) (rect_width rect)) (pw - sx);
                    h = min (opt_or (ph - sy) (rect_height rect)) (ph - sy)
             in if w > 0 \<and> h > 0 then Some (w, h) else None)
      | _ \<Rightarrow> None)"

definition derive_kitty_display_axis :: "u16 \<Rightarrow> u32 \<Rightarrow> u32 \<Rightarrow> u16 option" where
  "derive_kitty_display_axis known_cells numerator_pixels denominator_pixels =
     (if denominator_pixels = 0 then None
      else let derived = min u64_max (known_cells * numerator_pixels + (denominator_pixels - 1)) div denominator_pixels
        in Some (min u16_max (max 1 derived)))"

definition kitty_display_dimensions :: "stored_kitty_image \<Rightarrow> kitty_placement_options \<Rightarrow> str option \<times> str option" where
  "kitty_display_dimensions im opts =
     (let cols = or_option (po_display_columns opts) (st_display_columns im);
          rows = or_option (po_display_rows opts) (st_display_rows im);
          aspect = kitty_source_aspect_pixels im (po_source_rect opts);
          derived_rows = (case (cols, rows, aspect) of
            (Some c, None, Some (w, h)) \<Rightarrow> derive_kitty_display_axis c h w | _ \<Rightarrow> None);
          derived_columns = (case (cols, rows, aspect) of
            (None, Some r, Some (w, h)) \<Rightarrow> derive_kitty_display_axis r w h | _ \<Rightarrow> None);
          in_pixels = map_option (\<lambda>p. decimal p @ [0x70, 0x78])
      in (or_option (map_option decimal (or_option cols derived_columns)) (in_pixels (st_pixel_width im)),
          or_option (map_option decimal (or_option rows derived_rows)) (in_pixels (st_pixel_height im))))"

definition record_inline_image_damage_at :: "usize \<Rightarrow> u16 \<Rightarrow> str option \<Rightarrow> str option \<Rightarrow> terminal \<Rightarrow> terminal" where
  "record_inline_image_damage_at row column w h t =
     (case checked_sub row (length (scrollback t)) of
        None \<Rightarrow> t
      | Some visible_row \<Rightarrow>
          if visible_row > u16_max \<or> visible_row \<ge> rows_of t \<or> column \<ge> columns_of t then t
          else record_damage (damage_rect column visible_row
            (max 1 (min (inline_image_width_cells w) (columns_of t - column)))
            (max 1 (min (inline_image_height_cells h) (rows_of t - visible_row)))) t)"

definition move_kitty_history_row :: "usize \<Rightarrow> usize \<Rightarrow> usize \<Rightarrow> usize" where
  "move_kitty_history_row row old_origin new_origin =
     (if new_origin \<ge> old_origin then row + (new_origin - old_origin) else row - (old_origin - new_origin))"

definition move_kitty_column :: "u16 \<Rightarrow> u16 \<Rightarrow> u16 \<Rightarrow> u16" where
  "move_kitty_column column old_origin new_origin =
     (if new_origin \<ge> old_origin then sat_add_u16 column (new_origin - old_origin) else column - (old_origin - new_origin))"

definition move_child :: "usize \<Rightarrow> u16 \<Rightarrow> usize \<Rightarrow> u16 \<Rightarrow> kitty_placement_key \<Rightarrow> graphics \<Rightarrow> graphics" where
  "move_child old_row old_column new_row new_column child g =
     (case position (\<lambda>im. kitty_image_placement_key im = Some child) (inline_images g) of
        None \<Rightarrow> g
      | Some i \<Rightarrow>
          (let pid = inline_image_parent_ids g ! i in
           g\<lparr>inline_images := (inline_images g)[i := (inline_images g ! i)\<lparr>
                im_row := move_kitty_history_row (im_row (inline_images g ! i)) old_row new_row,
                im_column := move_kitty_column (im_column (inline_images g ! i)) old_column new_column\<rparr>],
             inline_image_attachments := map (\<lambda>a. if at_parent a = pid
               then a\<lparr>at_row := move_kitty_history_row (at_row a) old_row new_row,
                      at_column := move_kitty_column (at_column a) old_column new_column\<rparr> else a)
               (inline_image_attachments g)\<rparr>))"

text \<open>The worklist has its top in front; a key is handled once.\<close>

function move_descendants :: "(kitty_placement_key \<times> kitty_placement_key) list \<Rightarrow> (kitty_placement_key \<Rightarrow> graphics \<Rightarrow> graphics)
    \<Rightarrow> kitty_placement_key list \<Rightarrow> kitty_placement_key list \<Rightarrow> graphics \<Rightarrow> graphics" where
  "move_descendants rel move [] seen g = g"
| "move_descendants rel move (p # stack) seen g =
     (if p \<in> set seen then move_descendants rel move stack seen g
      else let children = map fst (filter (\<lambda>(child, parent). parent = p) rel) in
        move_descendants rel move (rev children @ stack) (p # seen) (fold move children g))"
  by pat_completeness auto
termination
proof (relation "measures [\<lambda>(rel, move, stack, seen, g). card ((set stack \<union> set (map fst rel)) - set seen),
    \<lambda>(rel, move, stack, seen, g). length stack]", goal_cases)
  case (2 rel move p stack seen g)
  have "(set stack \<union> set (map fst rel)) - set seen \<subseteq> (set (p # stack) \<union> set (map fst rel)) - set seen" by auto
  then have "card ((set stack \<union> set (map fst rel)) - set seen) \<le> card ((set (p # stack) \<union> set (map fst rel)) - set seen)"
    by (intro card_mono) auto
  then show ?case by auto
next
  case (3 rel move p stack seen g children)
  let ?new = "(set (rev children @ stack) \<union> set (map fst rel)) - set (p # seen)"
  let ?old = "(set (p # stack) \<union> set (map fst rel)) - set seen"
  have "?new \<subseteq> ?old" "p \<in> ?old" "p \<notin> ?new" using 3 by auto
  then have "card ?new < card ?old" by (intro psubset_card_mono) auto
  then show ?case by simp
qed simp

definition move_relative_kitty_descendants :: "kitty_placement_key \<Rightarrow> usize \<Rightarrow> u16 \<Rightarrow> usize \<Rightarrow> u16 \<Rightarrow> graphics \<Rightarrow> graphics" where
  "move_relative_kitty_descendants key old_row old_column new_row new_column g =
     (if old_row = new_row \<and> old_column = new_column then g
      else let g = ensure_inline_image_parent_ids g
        in move_descendants (kitty_relative_parents g) (move_child old_row old_column new_row new_column) [key] [] g)"

definition move_kitty_cursor_after_placement :: "u16 \<Rightarrow> u16 \<Rightarrow> terminal \<Rightarrow> terminal" where
  "move_kitty_cursor_after_placement cols rows t = move_cursor_down rows (move_cursor_forward cols t)"

definition place_kitty_image :: "stored_kitty_image \<Rightarrow> kitty_placement_options \<Rightarrow> terminal \<Rightarrow> terminal" where
  "place_kitty_image im opts t =
     (case kitty_display_dimensions im opts of (w, h) \<Rightarrow>
        let row = opt_or (current_history_row t) (po_row opts); column = opt_or (cursor_column t) (po_column opts);
            key = placement_key_of (po_image_id opts) (po_placement_id opts);
            previous_origin = (case key of None \<Rightarrow> None
              | Some k \<Rightarrow> map_option (\<lambda>i. (im_row i, im_column i))
                  (List.find (\<lambda>i. kitty_image_placement_key i = Some k) (inline_images (images t))));
            t1 = (case key of None \<Rightarrow> t
              | Some k \<Rightarrow>
                  (let t1 = upd_images (retain_inline_images (\<lambda>i. im_kitty_image_id i \<noteq> Some (fst k) \<or>
                         im_kitty_placement_id i \<noteq> Some (snd k))) t;
                       t2 = damage_all_if (length (inline_images (images t1)) \<noteq> length (inline_images (images t)))
                         (grid_size (grid t1)) t1
                   in upd_images (\<lambda>g. g\<lparr>kitty_relative_parents := filter (\<lambda>(c, _). c \<noteq> k) (kitty_relative_parents g)\<rparr>) t2));
            t2 = upd_images (push_inline_image \<lparr>im_row = row, im_column = column, im_name = None,
                   im_kitty_image_id = po_image_id opts, im_kitty_placement_id = po_placement_id opts,
                   im_kitty_z_index = po_z_index opts, im_size = Some (length (st_data im)), im_width = w, im_height = h,
                   im_preserve_aspect_ratio = None, im_format = st_format im, im_pixel_width = st_pixel_width im,
                   im_pixel_height = st_pixel_height im, im_source_x = rect_x (po_source_rect opts),
                   im_source_y = rect_y (po_source_rect opts), im_source_width = rect_width (po_source_rect opts),
                   im_source_height = rect_height (po_source_rect opts), im_target_x = po_target_x opts,
                   im_target_y = po_target_y opts, im_data = st_data im\<rparr>)
                 (record_inline_image_damage_at row column w h t1);
            t3 = (case key of None \<Rightarrow> t2
              | Some k \<Rightarrow> upd_images (\<lambda>g.
                  let g = (case po_parent_placement opts of None \<Rightarrow> g
                        | Some p \<Rightarrow> g\<lparr>kitty_relative_parents := AList.update k p (kitty_relative_parents g)\<rparr>)
                  in case previous_origin of None \<Rightarrow> g
                     | Some (old_row, old_column) \<Rightarrow> move_relative_kitty_descendants k old_row old_column row column g) t2)
        in if po_move_cursor opts
           then move_kitty_cursor_after_placement (max 1 (inline_image_width_cells w)) (max 1 (inline_image_height_cells h)) t3
           else t3)"

section \<open>Placeholder characters\<close>

definition kitty_placeholder_diacritics :: "nat list" where
  "kitty_placeholder_diacritics =
     [0x0305, 0x030D, 0x030E, 0x0310, 0x0312, 0x033D, 0x033E, 0x033F, 0x0346, 0x034A, 0x034B,
      0x034C, 0x0350, 0x0351, 0x0352, 0x0357, 0x035B, 0x0363, 0x0364, 0x0365, 0x0366, 0x0367,
      0x0368, 0x0369, 0x036A, 0x036B, 0x036C, 0x036D, 0x036E, 0x036F, 0x0483, 0x0484, 0x0485,
      0x0486, 0x0487, 0x0592, 0x0593, 0x0594, 0x0595, 0x0597, 0x0598, 0x0599, 0x059C, 0x059D,
      0x059E, 0x059F, 0x05A0, 0x05A1, 0x05A8, 0x05A9, 0x05AB, 0x05AC, 0x05AF, 0x05C4, 0x0610,
      0x0611, 0x0612, 0x0613, 0x0614, 0x0615, 0x0616, 0x0617, 0x0657, 0x0658, 0x0659, 0x065A,
      0x065B, 0x065D, 0x065E, 0x06D6, 0x06D7, 0x06D8, 0x06D9, 0x06DA, 0x06DB, 0x06DC, 0x06DF,
      0x06E0, 0x06E1, 0x06E2, 0x06E4, 0x06E7, 0x06E8, 0x06EB, 0x06EC, 0x0730, 0x0732, 0x0733,
      0x0735, 0x0736, 0x073A, 0x073D, 0x073F, 0x0740, 0x0741, 0x0743, 0x0745, 0x0747, 0x0749,
      0x074A, 0x07EB, 0x07EC, 0x07ED, 0x07EE, 0x07EF, 0x07F0, 0x07F1, 0x07F3, 0x0816, 0x0817,
      0x0818, 0x0819, 0x081B, 0x081C, 0x081D, 0x081E, 0x081F, 0x0820, 0x0821, 0x0822, 0x0823,
      0x0825, 0x0826, 0x0827, 0x0829, 0x082A, 0x082B, 0x082C, 0x082D, 0x0951, 0x0953, 0x0954,
      0x0F82, 0x0F83, 0x0F86, 0x0F87, 0x135D, 0x135E, 0x135F, 0x17DD, 0x193A, 0x1A17, 0x1A75,
      0x1A76, 0x1A77, 0x1A78, 0x1A79, 0x1A7A, 0x1A7B, 0x1A7C, 0x1B6B, 0x1B6D, 0x1B6E, 0x1B6F,
      0x1B70, 0x1B71, 0x1B72, 0x1B73, 0x1CD0, 0x1CD1, 0x1CD2, 0x1CDA, 0x1CDB, 0x1CE0, 0x1DC0,
      0x1DC1, 0x1DC3, 0x1DC4, 0x1DC5, 0x1DC6, 0x1DC7, 0x1DC8, 0x1DC9, 0x1DCB, 0x1DCC, 0x1DD1,
      0x1DD2, 0x1DD3, 0x1DD4, 0x1DD5, 0x1DD6, 0x1DD7, 0x1DD8, 0x1DD9, 0x1DDA, 0x1DDB, 0x1DDC,
      0x1DDD, 0x1DDE, 0x1DDF, 0x1DE0, 0x1DE1, 0x1DE2, 0x1DE3, 0x1DE4, 0x1DE5, 0x1DE6, 0x1DFE,
      0x20D0, 0x20D1, 0x20D4, 0x20D5, 0x20D6, 0x20D7, 0x20DB, 0x20DC, 0x20E1, 0x20E7, 0x20E9,
      0x20F0, 0x2CEF, 0x2CF0, 0x2CF1, 0x2DE0, 0x2DE1, 0x2DE2, 0x2DE3, 0x2DE4, 0x2DE5, 0x2DE6,
      0x2DE7, 0x2DE8, 0x2DE9, 0x2DEA, 0x2DEB, 0x2DEC, 0x2DED, 0x2DEE, 0x2DEF, 0x2DF0, 0x2DF1,
      0x2DF2, 0x2DF3, 0x2DF4, 0x2DF5, 0x2DF6, 0x2DF7, 0x2DF8, 0x2DF9, 0x2DFA, 0x2DFB, 0x2DFC,
      0x2DFD, 0x2DFE, 0x2DFF, 0xA66F, 0xA67C, 0xA67D, 0xA6F0, 0xA6F1, 0xA8E0, 0xA8E1, 0xA8E2,
      0xA8E3, 0xA8E4, 0xA8E5]"

definition kitty_placeholder_diacritic_value :: "nat \<Rightarrow> u32 option" where
  "kitty_placeholder_diacritic_value ch = position (\<lambda>d. d = ch) kitty_placeholder_diacritics"

record resolved_kitty_placeholder =
  rp_image_id :: u32
  rp_image_id_high_byte :: u32
  rp_row :: u32
  rp_column :: u32

definition left_kitty_placeholder_for :: "pending_kitty_placeholder \<Rightarrow> graphics \<Rightarrow> last_kitty_placeholder option" where
  "left_kitty_placeholder_for p g =
     (case checked_sub (pp_column p) 1 of
        None \<Rightarrow> None
      | Some left_column \<Rightarrow>
          (case or_option (map_of (kitty_placeholder_cells g) (pp_row p, left_column)) (last_placeholder g) of
             None \<Rightarrow> None
           | Some left \<Rightarrow>
               if lp_foreground left = pp_foreground p \<and> lp_underline_color left = pp_underline_color p \<and>
                 lp_row left = pp_row p \<and> checked_add_u16 (lp_column left) 1 = Some (pp_column p)
               then Some left else None))"

definition next_placeholder_column :: "last_kitty_placeholder \<Rightarrow> u32 option" where
  "next_placeholder_column left =
     (if lp_placeholder_column left + 1 \<le> u32_max then Some (lp_placeholder_column left + 1) else None)"

definition resolve_kitty_placeholder :: "pending_kitty_placeholder \<Rightarrow> graphics \<Rightarrow> resolved_kitty_placeholder option" where
  "resolve_kitty_placeholder p g =
     (case pp_image_id p of
        None \<Rightarrow> None
      | Some low \<Rightarrow>
          (let left = left_kitty_placeholder_for p g;
               found = (case pp_diacritics p of
                   [] \<Rightarrow> (case left of None \<Rightarrow> None
                     | Some l \<Rightarrow> map_option (\<lambda>c. (lp_placeholder_row l, c, lp_image_id_high_byte l)) (next_placeholder_column l))
                 | [v] \<Rightarrow> (case left of
                       Some l \<Rightarrow> if next_placeholder_column l = Some v
                         then Some (lp_placeholder_row l, v, lp_image_id_high_byte l) else Some (v, 0, 0)
                     | None \<Rightarrow> Some (v, 0, 0))
                 | [row, column] \<Rightarrow> Some (row, column,
                     case left of
                       Some l \<Rightarrow> if lp_placeholder_row l = row \<and> next_placeholder_column l = Some column
                         then lp_image_id_high_byte l else 0
                     | None \<Rightarrow> 0)
                 | row # column # high # _ \<Rightarrow> Some (row, column, high))
           in map_option (\<lambda>(row, column, high). \<lparr>rp_image_id = placeholder_full_id low high, rp_image_id_high_byte = high,
                rp_row = row, rp_column = column\<rparr>) found))"

definition forget_last_placeholder :: "terminal \<Rightarrow> terminal" where
  "forget_last_placeholder = upd_images (\<lambda>g. g\<lparr>last_placeholder := None\<rparr>)"

text \<open>\<open>place_kitty_virtual_placeholder\<close> also updates the pending placeholder it is given.\<close>

definition place_kitty_virtual_placeholder :: "pending_kitty_placeholder \<Rightarrow> terminal \<Rightarrow> pending_kitty_placeholder \<times> terminal" where
  "place_kitty_virtual_placeholder p t =
     (case resolve_kitty_placeholder p (images t) of
        None \<Rightarrow> (p, t)
      | Some r \<Rightarrow>
          (case kitty_placeholder_origin_from_cell (pp_row p) (pp_column p) (rp_row r) (rp_column r) of
             None \<Rightarrow> (p, forget_last_placeholder t)
           | Some (origin_row, origin_column) \<Rightarrow>
               (case kitty_virtual_placement_for_placeholder (rp_image_id r) (pp_placement_id p) (images t) of
                  None \<Rightarrow> (p, forget_last_placeholder t)
                | Some vp \<Rightarrow>
                    (case map_of (kitty_images (images t)) (vp_image_id vp) of
                       None \<Rightarrow> (p, forget_last_placeholder t)
                     | Some im \<Rightarrow>
                         (let t1 = (case (pp_rendered_row p, pp_rendered_column p, pp_rendered_image_id p) of
                                (Some rr, Some rc, Some ri) \<Rightarrow>
                                  upd_images (remove_kitty_placeholder_render rr rc ri (pp_rendered_placement_id p)) t
                              | _ \<Rightarrow> t);
                              t2 = upd_images (remove_kitty_placeholder_render origin_row origin_column (vp_image_id vp)
                                     (vp_placement_id vp)) t1;
                              t3 = place_kitty_image im \<lparr>po_display_columns = vp_display_columns vp,
                                     po_display_rows = vp_display_rows vp, po_image_id = Some (vp_image_id vp),
                                     po_placement_id = vp_placement_id vp, po_z_index = vp_z_index vp,
                                     po_parent_placement = None, po_row = Some origin_row, po_column = Some origin_column,
                                     po_move_cursor = False, po_source_rect = vp_source_rect vp,
                                     po_target_x = vp_target_x vp, po_target_y = vp_target_y vp\<rparr> t2;
                              lp = \<lparr>lp_row = pp_row p, lp_column = pp_column p, lp_foreground = pp_foreground p,
                                     lp_underline_color = pp_underline_color p,
                                     lp_image_id_high_byte = rp_image_id_high_byte r, lp_placeholder_row = rp_row r,
                                     lp_placeholder_column = rp_column r\<rparr>
                          in (p\<lparr>pp_rendered_row := Some origin_row, pp_rendered_column := Some origin_column,
                               pp_rendered_image_id := Some (vp_image_id vp), pp_rendered_placement_id := vp_placement_id vp\<rparr>,
                             upd_images (\<lambda>g. g\<lparr>kitty_placeholder_cells :=
                                 AList.update (pp_row p, pp_column p) lp (kitty_placeholder_cells g),
                               last_placeholder := Some lp\<rparr>) t3))))))"

definition apply_kitty_placeholder_diacritic :: "nat \<Rightarrow> terminal \<Rightarrow> bool \<times> terminal" where
  "apply_kitty_placeholder_diacritic ch t =
     (case kitty_placeholder_diacritic_value ch of
        None \<Rightarrow> (False, t)
      | Some v \<Rightarrow>
          (case pending_placeholder (images t) of
             None \<Rightarrow> (False, t)
           | Some p \<Rightarrow>
               (case place_kitty_virtual_placeholder (p\<lparr>pp_diacritics := pp_diacritics p @ [v]\<rparr>)
                       (upd_images (\<lambda>g. g\<lparr>pending_placeholder := None\<rparr>) t) of
                  (p1, t1) \<Rightarrow> (True, upd_images (\<lambda>g. g\<lparr>pending_placeholder := Some p1\<rparr>) t1))))"

definition finish_pending_kitty_placeholder :: "terminal \<Rightarrow> terminal" where
  "finish_pending_kitty_placeholder t =
     (case pending_placeholder (images t) of
        None \<Rightarrow> t
      | Some p \<Rightarrow> snd (place_kitty_virtual_placeholder p (upd_images (\<lambda>g. g\<lparr>pending_placeholder := None\<rparr>) t)))"

section \<open>Writing a character\<close>

definition continuation_cells :: "cell \<Rightarrow> u16 \<Rightarrow> u16 \<Rightarrow> cell list" where
  "continuation_cells c first beyond = map (\<lambda>i. set_continuation (saturating_u8 i) c) [first ..< beyond]"

definition put_continuations :: "u16 \<Rightarrow> u16 \<Rightarrow> cell \<Rightarrow> u16 \<Rightarrow> u16 \<Rightarrow> terminal \<Rightarrow> terminal" where
  "put_continuations row column c first beyond =
     fold (\<lambda>i. put_cell row (column + i) (set_continuation (saturating_u8 i) c)) [first ..< beyond]"

definition set_overflow :: "u16 \<Rightarrow> cell list \<Rightarrow> terminal \<Rightarrow> terminal" where
  "set_overflow row cells t = t\<lparr>grid := set_reflow_overflow row cells (grid t)\<rparr>"

text \<open>The cells \<open>extend_previous_grapheme\<close> writes before it moves the cursor.\<close>

definition extend_cells :: "u16 \<Rightarrow> u16 \<Rightarrow> str \<Rightarrow> u16 \<Rightarrow> cell \<Rightarrow> u16 \<Rightarrow> u16 \<Rightarrow> terminal \<Rightarrow> terminal" where
  "extend_cells row column grapheme sequence_width previous visible_width available_width t =
     (let previous_width = cell_columns previous;
          t1 = put_cell row column (set_text grapheme (saturating_u8 sequence_width) previous) t;
          t2 = (if visible_width > previous_width
                then put_continuations row column previous previous_width visible_width t1
                else fold (\<lambda>i t. put_cell row (column + i) (blank_cell t) t) [visible_width ..< previous_width] t1);
          t3 = set_overflow row (if visible_width < sequence_width
                then continuation_cells previous visible_width sequence_width else []) t2
      in record_damage (damage_rect column row (max (min previous_width available_width) visible_width) 1) t3)"

definition extend_previous_grapheme :: "unicode_data \<Rightarrow> nat \<Rightarrow> terminal \<Rightarrow> bool \<times> terminal" where
  "extend_previous_grapheme uc ch t =
     (case nfc_last_printable_cell t of
        None \<Rightarrow> (False, t)
      | Some (row, column) \<Rightarrow>
          (case grid_get row column (grid t) of
             None \<Rightarrow> (False, t)
           | Some previous \<Rightarrow>
               if primary_char previous = kitty_unicode_placeholder \<or> is_continuation previous \<or> is_blank previous \<or>
                 \<not> may_extend_previous_grapheme (cell_text previous) ch then (False, t)
               else let grapheme = cell_text previous @ [ch] in
                 if grapheme_count uc grapheme \<noteq> 1 then (False, t)
                 else let previous_width = cell_columns previous;
                        sequence_width = grapheme_display_width uc grapheme (unicode_version t) (ambiguous_width_as_wide t)
                          (cell_width_overrides t) in
                   if previous_width = 0 \<or> sequence_width = 0 then (True, t)
                   else let expected_cursor = min (sat_add_u16 column previous_width) (character_right_boundary t) in
                     if cursor_row t \<noteq> row \<or> cursor_column t \<noteq> expected_cursor then (True, t)
                     else let available_width = sat_add_u16 (character_right_boundary t) 1 - column;
                            visible_width = max 1 (min sequence_width available_width);
                            t4 = extend_cells row column grapheme sequence_width previous visible_width available_width t;
                            t5 = advance_cursor visible_width (t4\<lparr>cursor_column := column, pending_wrap := False\<rparr>)
                       in (True, t5\<lparr>last_printable := Some grapheme\<rparr>)))"

text \<open>The part of \<open>write_char\<close> after wrapping: the character is put at the cursor.\<close>

definition pending_placeholder_at :: "usize \<Rightarrow> u16 \<Rightarrow> cell \<Rightarrow> pending_kitty_placeholder" where
  "pending_placeholder_at history_row column st = \<lparr>pp_row = history_row, pp_column = column,
     pp_foreground = foreground st, pp_underline_color = underline_color st,
     pp_image_id = kitty_placeholder_image_id (foreground st),
     pp_placement_id = kitty_placeholder_placement_id (underline_color st), pp_diacritics = [],
     pp_rendered_row = None, pp_rendered_column = None, pp_rendered_image_id = None, pp_rendered_placement_id = None\<rparr>"

definition after_write :: "nat \<Rightarrow> u16 \<Rightarrow> u16 \<Rightarrow> u16 \<Rightarrow> u16 \<Rightarrow> usize \<Rightarrow> terminal \<Rightarrow> terminal" where
  "after_write ch width write_width row column history_row t3 =
     (let t4 = upd_images (clear_kitty_placeholder_cells history_row column write_width) t3;
          t5 = (if write_width > 1 then put_continuations row column (style t4) 1 write_width t4 else t4);
          t6 = (if write_width < width then set_overflow row (continuation_cells (style t5) write_width width) t5 else t5);
          t7 = advance_cursor write_width (record_damage (damage_rect column row write_width 1) t6);
          t8 = t7\<lparr>last_printable := Some [ch], nfc_last_printable_cell := Some (row, column)\<rparr>
      in if ch = kitty_unicode_placeholder
         then upd_images (\<lambda>g. g\<lparr>pending_placeholder := Some (pending_placeholder_at history_row column (style t8))\<rparr>) t8
         else forget_last_placeholder t8)"

definition open_cells :: "u16 \<Rightarrow> terminal \<Rightarrow> terminal" where
  "open_cells write_width t =
     (let t1 = (if mode_write (modes t) = Write_Insert then insert_blank_characters_for_write write_width t else t)
      in fold (clear_grapheme_span_at (cursor_row t1)) [cursor_column t1 ..< sat_add_u16 (cursor_column t1) write_width] t1)"

definition write_at_cursor :: "nat \<Rightarrow> u16 \<Rightarrow> terminal \<Rightarrow> terminal" where
  "write_at_cursor ch width t =
     (if cursor_row t \<ge> rows_of t \<or> cursor_column t \<ge> columns_of t \<or> columns_of t = 0 then t
      else let available_width = columns_of t - cursor_column t; write_width = min width available_width;
             t2 = open_cells write_width t; column = cursor_column t2; row = cursor_row t2;
             history_row = length (scrollback t2) + row in
        case set_grid_cell row column (set_text [ch] (saturating_u8 width) (style t2)) t2 of
          (False, t3) \<Rightarrow> t3
        | (True, t3) \<Rightarrow> after_write ch width write_width row column history_row t3)"

definition write_char :: "unicode_data \<Rightarrow> nat \<Rightarrow> terminal \<Rightarrow> terminal" where
  "write_char uc ch0 t =
     (let ch = map_graphic_character ch0 t in
      if is_unicode_presentation_selector ch \<and> unicode_version t < 14 then t
      else case apply_kitty_placeholder_diacritic ch t of
        (True, t1) \<Rightarrow> t1
      | (False, t1) \<Rightarrow>
          (case extend_previous_grapheme uc ch t1 of
             (True, t2) \<Rightarrow> t2
           | (False, t2) \<Rightarrow>
               (let t3 = finish_pending_kitty_placeholder t2;
                    width = min (display_width uc ch (unicode_version t3) (ambiguous_width_as_wide t3) (cell_width_overrides t3)) 255 in
                if width = 0 then t3
                else let t4 = (if pending_wrap t3 \<and> mode_auto_wrap (modes t3) then wrapped_newline t3
                         else if pending_wrap t3 then t3\<lparr>pending_wrap := False\<rparr> else t3);
                       t5 = (if sat_add_u16 (cursor_column t4) width > columns_of t4 \<and> mode_auto_wrap (modes t4)
                             then wrapped_newline t4 else t4)
                  in write_at_cursor ch width t5)))"

definition repeat_previous_character :: "unicode_data \<Rightarrow> u16 \<Rightarrow> terminal \<Rightarrow> terminal" where
  "repeat_previous_character uc n t =
     (case last_printable t of
        None \<Rightarrow> t
      | Some grapheme \<Rightarrow>
          ((\<lambda>t. fold (write_char uc) grapheme (t\<lparr>nfc_last_printable_cell := None\<rparr>)) ^^ n) t)"

end
