(* ===== verification/Term_Csi.thy ===== *)
theory Term_Csi
  imports Term_Write
begin

text \<open>
  Modes, screens, resets and the dispatch of control sequences, \<open>rssh-terminal/src/parser.rs\<close>.
\<close>

section \<open>The two screens\<close>

definition screen_state_of :: "terminal \<Rightarrow> screen_state" where
  "screen_state_of t = \<lparr>grid = grid t, cursor_row = cursor_row t, cursor_column = cursor_column t,
     pending_wrap = pending_wrap t, clear_semantic_type_on_movement = clear_semantic_type_on_movement t,
     last_printable = last_printable t, nfc_last_printable_cell = nfc_last_printable_cell t,
     saved_cursor_of = saved_cursor_of t, modes = modes t, scroll_top = scroll_top t, scroll_bottom = scroll_bottom t,
     left_margin = left_margin t, right_margin = right_margin t, character_set_of = character_set_of t, style = style t,
     saved_graphics = screen_graphics.truncate (images t)\<rparr>"

definition restore_graphics :: "screen_graphics \<Rightarrow> graphics \<Rightarrow> graphics" where
  "restore_graphics sg g = g\<lparr>inline_images := inline_images sg, inline_image_parent_ids := inline_image_parent_ids sg,
     inline_image_attachments := inline_image_attachments sg,
     kitty_character_edited_placements := kitty_character_edited_placements sg,
     last_placeholder := last_placeholder sg, kitty_placeholder_cells := kitty_placeholder_cells sg\<rparr>"

definition restore_screen_state :: "screen_state \<Rightarrow> terminal \<Rightarrow> terminal" where
  "restore_screen_state s t = clamp_to_size (t\<lparr>grid := grid s, images := restore_graphics (saved_graphics s) (images t),
     cursor_row := cursor_row s, cursor_column := cursor_column s, pending_wrap := pending_wrap s,
     clear_semantic_type_on_movement := clear_semantic_type_on_movement s, last_printable := last_printable s,
     nfc_last_printable_cell := nfc_last_printable_cell s, saved_cursor_of := saved_cursor_of s, modes := modes s,
     scroll_top := scroll_top s, scroll_bottom := scroll_bottom s, left_margin := left_margin s,
     right_margin := right_margin s, character_set_of := character_set_of s, style := style s\<rparr>)"

definition set_alternate_screen :: "bool \<Rightarrow> terminal \<Rightarrow> terminal" where
  "set_alternate_screen enabled t =
     (if enabled then
        (if main_screen t \<noteq> None then t
         else let t = bump_screen_identity_generation t; sz = grid_size (grid t);
                t = t\<lparr>main_screen := Some (screen_state_of t)\<rparr>;
                t = t\<lparr>grid := grid_new_with_seqno sz (seqno t),
                      images := (clear_inline_images (images t))\<lparr>last_placeholder := None, kitty_placeholder_cells := []\<rparr>,
                      cursor_row := 0, cursor_column := 0, pending_wrap := False, last_printable := None,
                      nfc_last_printable_cell := None, saved_cursor_of := None,
                      modes := (modes t)\<lparr>mode_cursor_visible := True, mode_origin := False, mode_left_right_margin := False\<rparr>,
                      scroll_top := 0, scroll_bottom := size_rows sz - 1, left_margin := 0, right_margin := size_columns sz - 1\<rparr>
           in record_damage (damage_rect 0 0 (size_columns sz) (size_rows sz)) t)
      else case main_screen t of
        None \<Rightarrow> t
      | Some s \<Rightarrow>
          damage_all (upd_images delete_orphan_kitty_relative_children
            (restore_screen_state s (bump_screen_identity_generation (t\<lparr>main_screen := None\<rparr>)))))"

section \<open>Resets\<close>

definition clear_all_graphics :: "graphics \<Rightarrow> graphics" where
  "clear_all_graphics g = (clear_inline_images g)\<lparr>kitty_images := [], kitty_image_numbers := [],
     kitty_relative_parents := [], kitty_virtual_placements := [], pending_placeholder := None,
     last_placeholder := None, kitty_placeholder_cells := [], next_kitty_image_id := 1, pending_upload := None\<rparr>"

definition reset_terminal :: "terminal \<Rightarrow> terminal" where
  "reset_terminal t =
     (let t = bump_screen_identity_generation t; sz = grid_size (grid t);
          t = prune_scrollback_rows (length (scrollback t)) t;
          t = t\<lparr>grid := grid_new_with_seqno sz (seqno t), images := clear_all_graphics (images t),
                semantic_prompt_rows := [], semantic_command_exits := [],
                cursor_row := 0, cursor_column := 0, pending_wrap := False, clear_semantic_type_on_movement := False,
                last_printable := None, nfc_last_printable_cell := None, saved_cursor_of := None, main_screen := None,
                modes := with_cursor_style (default_cursor_style t), scroll_top := 0, scroll_bottom := size_rows sz - 1,
                left_margin := 0, right_margin := size_columns sz - 1, character_set_of := Charset_Ascii,
                tab_stops_of := default_tab_stops sz, style := cell_default\<rparr>
      in record_damage (damage_rect 0 0 (size_columns sz) (size_rows sz)) t)"

definition soft_reset_terminal :: "terminal \<Rightarrow> terminal" where
  "soft_reset_terminal t =
     (let t = set_alternate_screen False t; sz = grid_size (grid t);
          t = t\<lparr>modes := (modes t)\<lparr>mode_write := Write_Replace, mode_origin := False, mode_auto_wrap := True,
                  mode_left_right_margin := False, mode_reverse_wrap := False, mode_screen_reverse := False,
                  mode_cursor_visible := True\<rparr>,
                style := cell_default, images := clear_kitty_graphics (images t), scroll_top := 0,
                scroll_bottom := size_rows sz - 1, left_margin := 0, right_margin := size_columns sz - 1,
                character_set_of := Charset_Ascii, saved_cursor_of := None, pending_wrap := False,
                clear_semantic_type_on_movement := False, last_printable := None, nfc_last_printable_cell := None\<rparr>
      in record_damage (damage_rect 0 0 (size_columns sz) (size_rows sz)) t)"

definition fill_row_with :: "cell \<Rightarrow> u16 \<Rightarrow> terminal \<Rightarrow> terminal" where
  "fill_row_with c row t = set_grid_row_wrapped row False (fold (\<lambda>column. put_cell row column c) [0 ..< columns_of t] t)"

definition screen_alignment_test :: "terminal \<Rightarrow> terminal" where
  "screen_alignment_test t =
     (let sz = grid_size (grid t);
          t = t\<lparr>modes := (modes t)\<lparr>mode_origin := False\<rparr>, scroll_top := 0, scroll_bottom := size_rows sz - 1,
                left_margin := 0, right_margin := size_columns sz - 1, cursor_row := 0, cursor_column := 0,
                pending_wrap := False, clear_semantic_type_on_movement := False\<rparr>
      in if size_rows sz = 0 \<or> size_columns sz = 0 then t
         else record_damage (damage_rect 0 0 (size_columns sz) (size_rows sz))
           (fold (fill_row_with (with_char 0x45)) [0 ..< size_rows sz] t))"

section \<open>Modes\<close>

definition set_insert_mode :: "bool \<Rightarrow> terminal \<Rightarrow> terminal" where
  "set_insert_mode enabled t = t\<lparr>modes := (modes t)\<lparr>mode_write := (if enabled then Write_Insert else Write_Replace)\<rparr>\<rparr>"

definition set_screen_reverse_video :: "bool \<Rightarrow> terminal \<Rightarrow> terminal" where
  "set_screen_reverse_video enabled t =
     (if mode_screen_reverse (modes t) = enabled then t
      else damage_all (t\<lparr>modes := (modes t)\<lparr>mode_screen_reverse := enabled\<rparr>\<rparr>))"

definition set_origin_mode :: "bool \<Rightarrow> terminal \<Rightarrow> terminal" where
  "set_origin_mode enabled t = cursor_home (t\<lparr>modes := (modes t)\<lparr>mode_origin := enabled\<rparr>\<rparr>)"

definition set_auto_wrap :: "bool \<Rightarrow> terminal \<Rightarrow> terminal" where
  "set_auto_wrap enabled t =
     (let t = t\<lparr>modes := (modes t)\<lparr>mode_auto_wrap := enabled\<rparr>\<rparr> in if enabled then t else t\<lparr>pending_wrap := False\<rparr>)"

definition set_private_mode_value :: "bool \<Rightarrow> u16 \<Rightarrow> terminal \<Rightarrow> terminal" where
  "set_private_mode_value enabled v t =
     (if v = 5 then set_screen_reverse_video enabled t
      else if v = 6 then set_origin_mode enabled t
      else if v = 7 then set_auto_wrap enabled t
      else if v = 12 then t\<lparr>modes := (modes t)\<lparr>mode_cursor_blinking := enabled\<rparr>\<rparr>
      else if v = 25 then t\<lparr>modes := (modes t)\<lparr>mode_cursor_visible := enabled\<rparr>\<rparr>
      else if v = 45 then t\<lparr>modes := (modes t)\<lparr>mode_reverse_wrap := enabled\<rparr>\<rparr>
      else if v = 69 then set_left_right_margin_mode enabled t
      else if v = 80 then t\<lparr>modes := (modes t)\<lparr>mode_sixel_display := enabled\<rparr>\<rparr>
      else if v = 8452 then t\<lparr>modes := (modes t)\<lparr>mode_sixel_scrolls_right := enabled\<rparr>\<rparr>
      else if v = 47 \<or> v = 1047 \<or> v = 1049 then set_alternate_screen enabled t
      else if v = 1048 then (if enabled then save_cursor t else restore_cursor t)
      else t)"

definition set_private_mode :: "str \<Rightarrow> bool \<Rightarrow> terminal \<Rightarrow> terminal" where
  "set_private_mode params enabled t =
     (case parse_private_csi_params params of None \<Rightarrow> t | Some vals \<Rightarrow> fold (set_private_mode_value enabled) vals t)"

definition set_standard_mode :: "str \<Rightarrow> bool \<Rightarrow> terminal \<Rightarrow> terminal" where
  "set_standard_mode params enabled t =
     fold (\<lambda>v t. if v = 4 then set_insert_mode enabled t else t) (parse_csi_params params) t"

definition set_mode :: "str \<Rightarrow> bool \<Rightarrow> terminal \<Rightarrow> terminal" where
  "set_mode params enabled t =
     (if nth_opt params 0 = Some 0x3F then set_private_mode params enabled t else set_standard_mode params enabled t)"

definition apply_default_cursor_style :: "terminal \<Rightarrow> terminal" where
  "apply_default_cursor_style t = t\<lparr>modes := (modes t)\<lparr>mode_cursor_shape := style_shape (default_cursor_style t),
     mode_cursor_blinking := style_blinking (default_cursor_style t)\<rparr>\<rparr>"

definition strip_last :: "nat \<Rightarrow> str \<Rightarrow> str option" where
  "strip_last c s = (if s \<noteq> [] \<and> last s = c then Some (butlast s) else None)"

definition set_cursor_shape :: "str \<Rightarrow> terminal \<Rightarrow> terminal" where
  "set_cursor_shape params t =
     (case strip_last 0x20 params of
        None \<Rightarrow> t
      | Some params \<Rightarrow>
          (let v = (case nth_opt (parse_csi_params params) 0 of Some v \<Rightarrow> v | None \<Rightarrow> 0) in
           if v = 0 then apply_default_cursor_style t
           else t\<lparr>modes := (modes t)\<lparr>
             mode_cursor_shape := (if v = 1 \<or> v = 2 then Shape_Block else if v = 3 \<or> v = 4 then Shape_Underline
               else if v = 5 \<or> v = 6 then Shape_Bar else mode_cursor_shape (modes t)),
             mode_cursor_blinking := (if v = 1 \<or> v = 3 \<or> v = 5 then True else if v = 2 \<or> v = 4 \<or> v = 6 then False
               else mode_cursor_blinking (modes t))\<rparr>\<rparr>))"

definition set_character_protection :: "str \<Rightarrow> terminal \<Rightarrow> terminal" where
  "set_character_protection params t =
     (case strip_last 0x22 params of
        None \<Rightarrow> t
      | Some params \<Rightarrow>
          t\<lparr>style := (style t)\<lparr>protected := (nth_opt (parse_csi_params params) 0 = Some 1)\<rparr>\<rparr>)"

definition apply_window_manipulation :: "str \<Rightarrow> terminal \<Rightarrow> terminal" where
  "apply_window_manipulation params t =
     (let vals = parse_csi_params params in
      case nth_opt vals 0 of
        None \<Rightarrow> t
      | Some action \<Rightarrow>
          if (case nth_opt vals 1 of Some v \<Rightarrow> v | None \<Rightarrow> 0) > 2 then t
          else if action = 22 then t\<lparr>title_stack := title_stack t @ [title t]\<rparr>
          else if action = 23 then
            (if title_stack t = [] then t
             else let ti = last (title_stack t) in
               t\<lparr>title_stack := butlast (title_stack t), title_changed := (title_changed t \<or> title t \<noteq> ti), title := ti\<rparr>)
          else t)"

section \<open>Control sequences\<close>

definition apply_csi :: "unicode_data \<Rightarrow> nat \<Rightarrow> str \<Rightarrow> terminal \<Rightarrow> terminal option" where
  "apply_csi uc command params t =
     (let n = csi_count params in
      if command = 0x40 then Some (insert_blank_characters n t)
      else if command = 0x41 then Some (move_cursor_up n t)
      else if command = 0x42 \<or> command = 0x65 then Some (move_cursor_down n t)
      else if command = 0x43 \<or> command = 0x61 then Some (move_cursor_forward n t)
      else if command = 0x44 then Some (move_cursor_back n t)
      else if command = 0x45 then Some (move_cursor_next_line n t)
      else if command = 0x46 then Some (move_cursor_previous_line n t)
      else if command = 0x47 \<or> command = 0x60 then Some (position_cursor_column params t)
      else if command = 0x48 \<or> command = 0x66 then Some (position_cursor params t)
      else if command = 0x49 then Some (move_forward_tabs n t)
      else if command = 0x4A then Some (erase_display (csi_or_private_mode params) (csi_is_private params) t)
      else if command = 0x4B then Some (erase_line (csi_or_private_mode params) (csi_is_private params) t)
      else if command = 0x4C then Some (insert_lines n t)
      else if command = 0x4D then Some (delete_lines n t)
      else if command = 0x50 then delete_characters n t
      else if command = 0x53 then Some (scroll_up n t)
      else if command = 0x54 then Some (scroll_down n t)
      else if command = 0x58 then Some (erase_characters n t)
      else if command = 0x5A then Some (move_backward_tabs n t)
      else if command = 0x62 then Some (repeat_previous_character uc n t)
      else if command = 0x64 then Some (position_cursor_row params t)
      else if command = 0x67 then Some (clear_tab_stop (csi_mode params) t)
      else if command = 0x6D then Some (t\<lparr>style := apply_sgr params (style t)\<rparr>)
      else if command = 0x71 \<and> params \<noteq> [] \<and> last params = 0x22 then Some (set_character_protection params t)
      else if command = 0x71 then Some (set_cursor_shape params t)
      else if command = 0x70 \<and> params = [0x21] then Some (soft_reset_terminal t)
      else if command = 0x72 then Some (set_scroll_region params t)
      else if command = 0x74 then Some (apply_window_manipulation params t)
      else if command = 0x68 then Some (set_mode params True t)
      else if command = 0x6C then Some (set_mode params False t)
      else if command = 0x73 \<and> mode_left_right_margin (modes t) then Some (set_left_right_margins params t)
      else if command = 0x73 then Some (save_cursor t)
      else if command = 0x75 then Some (restore_cursor t)
      else Some (record_unknown_escape_sequence (str_of ''CSI '' @ params @ [command]) t))"

end
