(* ===== verification/Term_Laws.thy ===== *)
theory Term_Laws
  imports Term_Csi
begin

text \<open>
  The shape of a terminal and the contracts of the operations that keep it: those that only write cells,
  and those that may also scroll rows into the history.
\<close>

section \<open>The shape of a terminal\<close>

definition stops_ok :: "u16 \<Rightarrow> tab_stops \<Rightarrow> bool" where
  "stops_ok cols stops \<longleftrightarrow> sorted_wrt (<) stops \<and> (\<forall>s \<in> set stops. s < cols)"

definition term_ok :: "terminal \<Rightarrow> bool" where
  "term_ok t \<longleftrightarrow> grid_ok (grid t) \<and> columns_of t \<le> u16_max \<and> rows_of t \<le> u16_max \<and>
     cursor_row t \<le> rows_of t - 1 \<and> cursor_column t \<le> columns_of t - 1 \<and>
     scroll_top t \<le> scroll_bottom t \<and> scroll_bottom t \<le> rows_of t - 1 \<and>
     left_margin t \<le> right_margin t \<and> right_margin t \<le> columns_of t - 1 \<and>
     stops_ok (columns_of t) (tab_stops_of t) \<and> length (scrollback t) \<le> scrollback_limit t \<and>
     (\<forall>s. main_screen t = Some s \<longrightarrow> grid_ok (grid s) \<and> grid_size (grid s) = grid_size (grid t))"

text \<open>What the writing of cells leaves alone.\<close>

definition frame :: "terminal \<Rightarrow> _" where
  "frame t = (grid_size (grid t), cursor_row t, cursor_column t, scroll_top t, scroll_bottom t, left_margin t,
     right_margin t, tab_stops_of t, scrollback_limit t, modes t, seqno t, map_option grid (main_screen t))"

lemma frame_eqD:
  assumes "frame t = frame u"
  shows "grid_size (grid t) = grid_size (grid u)" "cursor_row t = cursor_row u" "cursor_column t = cursor_column u"
    "scroll_top t = scroll_top u" "scroll_bottom t = scroll_bottom u" "left_margin t = left_margin u"
    "right_margin t = right_margin u" "tab_stops_of t = tab_stops_of u" "scrollback_limit t = scrollback_limit u"
    "modes t = modes u" "seqno t = seqno u" "map_option grid (main_screen t) = map_option grid (main_screen u)"
  using assms by (simp_all add: frame_def)

lemma term_ok_frame:
  assumes "frame t = frame u" and "term_ok u" and "grid_ok (grid t)" and "length (scrollback t) \<le> scrollback_limit t"
  shows "term_ok t"
  using assms frame_eqD(12) [OF assms(1)]
  by (auto simp: term_ok_def frame_eqD [OF assms(1)] map_option_case split: option.splits)

lemma term_ok_grid_ok: "term_ok t \<Longrightarrow> grid_ok (grid t)"
  by (simp add: term_ok_def)

section \<open>Contracts\<close>

locale screen_operation =
  fixes run :: "terminal \<Rightarrow> terminal"
  assumes keeps_frame: "frame (run t) = frame t"
    and keeps_ok: "term_ok t \<Longrightarrow> term_ok (run t)"

locale cell_operation =
  fixes run :: "terminal \<Rightarrow> terminal"
  assumes cell_frame: "frame (run t) = frame t"
    and cell_grid: "grid_ok (grid t) \<Longrightarrow> grid_ok (grid (run t))"
    and cell_history: "scrollback (run t) = scrollback t"
begin

lemma screen_law: "term_ok t \<Longrightarrow> term_ok (run t)"
  by (rule term_ok_frame [OF cell_frame]) (simp_all add: cell_grid cell_history term_ok_def frame_eqD [OF cell_frame])

end

sublocale cell_operation \<subseteq> screen_operation
  by unfold_locales (rule cell_frame, rule screen_law)

named_theorems cell_ops \<open>operations that only write cells\<close>

lemma cell_operation_id [cell_ops]: "cell_operation (\<lambda>t. t)"
  by unfold_locales simp_all

lemma cell_operation_comp: "cell_operation f \<Longrightarrow> cell_operation h \<Longrightarrow> cell_operation (\<lambda>t. f (h t))"
  by (simp add: cell_operation_def)

text \<open>The operation may be chosen by the state it runs on.\<close>

lemma cell_operation_dep: "(\<And>u. cell_operation (f u)) \<Longrightarrow> cell_operation (\<lambda>t. f t t)"
  by (simp add: cell_operation_def)

lemma cell_operation_if [cell_ops]: "cell_operation f \<Longrightarrow> cell_operation h \<Longrightarrow> cell_operation (\<lambda>t. if P t then f t else h t)"
  by (simp add: cell_operation_def)

lemma cell_operation_fold [cell_ops]: "(\<And>x. cell_operation (f x)) \<Longrightarrow> cell_operation (fold f xs)"
  by (induction xs) (simp_all add: cell_operation_def id_def)

lemma cell_operation_fold_on: "(\<And>x. cell_operation (f x)) \<Longrightarrow> cell_operation (\<lambda>t. fold f (xs t) t)"
  by (rule cell_operation_dep) (rule cell_operation_fold)

lemma cell_operation_grid:
  assumes "\<And>t. grid_operation (f t)"
  shows "cell_operation (\<lambda>t. t\<lparr>grid := f t (grid t)\<rparr>)"
  using assms by unfold_locales (simp_all add: frame_def grid_operation_def)

lemma record_damage_op [cell_ops]: "cell_operation (record_damage d)"
  by unfold_locales (simp_all add: record_damage_def frame_def)

lemma upd_images_op [cell_ops]: "cell_operation (upd_images f)"
  by unfold_locales (simp_all add: upd_images_def frame_def)

lemma damage_all_if_op [cell_ops]: "cell_operation (damage_all_if b sz)"
  unfolding damage_all_if_def [abs_def] by (intro cell_ops)

lemma clear_semantic_op [cell_ops]: "cell_operation clear_semantic_type_due_to_movement"
  by unfold_locales (simp_all add: clear_semantic_type_due_to_movement_def frame_def)

lemma touch_rows_op [cell_ops]: "cell_operation (touch_rows a b)"
proof -
  have "grid_operation (fold (\<lambda>row. set_row_last_change_seqno row s) [a ..< b])" for s
    by (rule grid_operation_fold) (rule seqno_op.grid_operation_axioms)
  then show ?thesis unfolding touch_rows_def [abs_def] by (intro cell_operation_grid)
qed

lemma put_cell_alt:
  "put_cell row column c t = (if fst (grid_set row column c (grid t))
     then t\<lparr>grid := set_row_last_change_seqno row (seqno t) (snd (grid_set row column c (grid t)))\<rparr> else t)"
  by (simp add: put_cell_def set_grid_cell_def split: prod.splits bool.splits)

lemma put_cell_op [cell_ops]: "cell_operation (put_cell row column c)"
proof -
  have "grid_operation (\<lambda>g. set_row_last_change_seqno row s (snd (grid_set row column c g)))" for s
    by (rule grid_operation_comp [OF seqno_op.grid_operation_axioms set_op.grid_operation_axioms])
  then have "cell_operation (\<lambda>t. t\<lparr>grid := set_row_last_change_seqno row (seqno t) (snd (grid_set row column c (grid t)))\<rparr>)"
    by (rule cell_operation_grid)
  then show ?thesis unfolding put_cell_alt [abs_def] by (intro cell_ops)
qed

lemma set_grid_row_wrapped_op [cell_ops]: "cell_operation (set_grid_row_wrapped row w)"
proof -
  have "grid_operation (\<lambda>g. set_row_last_change_seqno row s (grid_set_row_wrapped row w g))" for s
    by (rule grid_operation_comp [OF seqno_op.grid_operation_axioms wrapped_op.grid_operation_axioms])
  then have "cell_operation (\<lambda>t. t\<lparr>grid := set_row_last_change_seqno row (seqno t) (grid_set_row_wrapped row w (grid t))\<rparr>)"
    by (rule cell_operation_grid)
  then show ?thesis unfolding set_grid_row_wrapped_def [abs_def] by (intro cell_ops)
qed

lemma set_overflow_op [cell_ops]: "cell_operation (set_overflow row cs)"
  unfolding set_overflow_def [abs_def] by (rule cell_operation_grid) (rule overflow_op.grid_operation_axioms)

section \<open>Operations that only write cells\<close>

lemma put_blank_op [cell_ops]: "cell_operation (\<lambda>t. put_cell row column (blank_cell t) t)"
  by (rule cell_operation_dep) (rule put_cell_op)

lemma clear_grapheme_span_op [cell_ops]: "cell_operation (clear_grapheme_span_at row column)"
proof -
  have body: "cell_operation (\<lambda>t. let target = sat_add_u16 leader i in
      if target < columns_of t then put_cell row target (blank_cell t) t else t)" for leader i
    unfolding Let_def by (intro cell_ops)
  have "cell_operation (\<lambda>t. fold (\<lambda>i t. let target = sat_add_u16 leader i in
      if target < columns_of t then put_cell row target (blank_cell t) t else t) [0 ..< width] t)" for leader width
    by (rule cell_operation_fold) (rule body)
  then show ?thesis
    unfolding clear_grapheme_span_at_def [abs_def] Let_def
    by unfold_locales (auto simp: cell_operation_def Let_def split: option.splits)
qed

lemma sanitize_from_law: "frame (sanitize_from cols row column t) = frame t \<and> scrollback (sanitize_from cols row column t) = scrollback t \<and>
    (grid_ok (grid t) \<longrightarrow> grid_ok (grid (sanitize_from cols row column t)))"
proof (induction cols row column t rule: sanitize_from.induct)
  case (1 cols row column t)
  note ops = put_blank_op [of row column] clear_grapheme_span_op [of row column]
  show ?case
    using 1 ops by (subst (1 2 3) sanitize_from.simps) (auto simp: Let_def cell_operation_def split: option.splits)
qed

lemma sanitize_op [cell_ops]: "cell_operation (sanitize_grapheme_spans row)"
  unfolding sanitize_grapheme_spans_def [abs_def] by unfold_locales (simp_all add: sanitize_from_law)

lemma clear_one_cell_op [cell_ops]: "cell_operation (clear_one_cell row selective source_row column)"
proof -
  have "cell_operation (\<lambda>t. let t = (if selective then upd_images (clear_kitty_placeholder_cells source_row column 1) t else t)
        in put_cell row column (blank_cell t) t)"
    unfolding Let_def by (rule cell_operation_comp [where f = "\<lambda>t. put_cell row column (blank_cell t) t"]) (intro cell_ops)+
  then show ?thesis unfolding clear_one_cell_def [abs_def] by (intro cell_ops)
qed

text \<open>The three laws of these operations as rewrite rules, also under a loop.\<close>

lemmas basic_cell_ops = record_damage_op upd_images_op damage_all_if_op clear_semantic_op touch_rows_op put_cell_op
  set_grid_row_wrapped_op set_overflow_op clear_grapheme_span_op sanitize_op clear_one_cell_op

lemmas cell_frames [simp] = basic_cell_ops [THEN cell_operation.cell_frame]

lemmas cell_histories [simp] = basic_cell_ops [THEN cell_operation.cell_history]

lemmas cell_grids [simp] = basic_cell_ops [THEN cell_operation.cell_grid]

lemma fold_frame [simp]: "(\<And>x t. frame (f x t) = frame t) \<Longrightarrow> frame (fold f xs t) = frame t"
  by (induction xs arbitrary: t) simp_all

lemma fold_history [simp]: "(\<And>x t. scrollback (f x t) = scrollback t) \<Longrightarrow> scrollback (fold f xs t) = scrollback t"
  by (induction xs arbitrary: t) simp_all

lemma fold_grid_ok [simp]:
  "(\<And>x t. grid_ok (grid t) \<Longrightarrow> grid_ok (grid (f x t))) \<Longrightarrow> grid_ok (grid t) \<Longrightarrow> grid_ok (grid (fold f xs t))"
  by (induction xs arbitrary: t) simp_all

lemma clear_cells_op [cell_ops]: "cell_operation (clear_cells row a b selective)"
  by unfold_locales (simp_all add: clear_cells_def Let_def)

end
