(* ===== verification/Term_Shape.thy ===== *)
theory Term_Shape
  imports Term_Laws
begin

text \<open>Every operation of the terminal keeps its shape.\<close>

section \<open>Fields the shape does not mention\<close>

lemma term_ok_fields [simp]:
  "term_ok (t\<lparr>pending_wrap := b\<rparr>) = term_ok t"
  "term_ok (t\<lparr>clear_semantic_type_on_movement := b\<rparr>) = term_ok t"
  "term_ok (t\<lparr>last_printable := p\<rparr>) = term_ok t"
  "term_ok (t\<lparr>nfc_last_printable_cell := n\<rparr>) = term_ok t"
  "term_ok (t\<lparr>saved_cursor_of := sc\<rparr>) = term_ok t"
  "term_ok (t\<lparr>modes := m\<rparr>) = term_ok t"
  "term_ok (t\<lparr>character_set_of := cset\<rparr>) = term_ok t"
  "term_ok (t\<lparr>style := st\<rparr>) = term_ok t"
  "term_ok (t\<lparr>images := im\<rparr>) = term_ok t"
  "term_ok (t\<lparr>title := ti\<rparr>) = term_ok t"
  "term_ok (t\<lparr>title_stack := ts\<rparr>) = term_ok t"
  "term_ok (t\<lparr>title_changed := b\<rparr>) = term_ok t"
  "term_ok (t\<lparr>unknown_escape_sequences := us\<rparr>) = term_ok t"
  "term_ok (t\<lparr>screen_identity_generation := g\<rparr>) = term_ok t"
  "term_ok (t\<lparr>main_stable_row_offset := o1\<rparr>) = term_ok t"
  "term_ok (t\<lparr>semantic_prompt_rows := rs\<rparr>) = term_ok t"
  "term_ok (t\<lparr>semantic_command_exits := es\<rparr>) = term_ok t"
  by (simp_all add: term_ok_def)

lemma frame_fields [simp]:
  "frame (t\<lparr>pending_wrap := b\<rparr>) = frame t"
  "frame (t\<lparr>images := im\<rparr>) = frame t"
  "frame (t\<lparr>semantic_prompt_rows := rs\<rparr>) = frame t"
  "frame (t\<lparr>semantic_command_exits := es\<rparr>) = frame t"
  "frame (t\<lparr>main_stable_row_offset := o1\<rparr>) = frame t"
  "frame (t\<lparr>scrollback := h\<rparr>) = frame t"
  "frame (t\<lparr>last_printable := p\<rparr>) = frame t"
  by (simp_all add: frame_def)

lemma term_ok_row [simp]: "term_ok t \<Longrightarrow> r \<le> rows_of t - 1 \<Longrightarrow> term_ok (t\<lparr>cursor_row := r\<rparr>)"
  by (simp add: term_ok_def)

lemma term_ok_column [simp]: "term_ok t \<Longrightarrow> c \<le> columns_of t - 1 \<Longrightarrow> term_ok (t\<lparr>cursor_column := c\<rparr>)"
  by (simp add: term_ok_def)

lemma term_ok_region: "term_ok t \<Longrightarrow> a \<le> b \<Longrightarrow> b \<le> rows_of t - 1 \<Longrightarrow> term_ok (t\<lparr>scroll_top := a, scroll_bottom := b\<rparr>)"
  by (simp add: term_ok_def)

lemma term_ok_margins: "term_ok t \<Longrightarrow> a \<le> b \<Longrightarrow> b \<le> columns_of t - 1 \<Longrightarrow> term_ok (t\<lparr>left_margin := a, right_margin := b\<rparr>)"
  by (simp add: term_ok_def)

lemma term_okD:
  assumes "term_ok t"
  shows "grid_ok (grid t)" "cursor_row t \<le> rows_of t - 1" "cursor_column t \<le> columns_of t - 1" "scroll_top t \<le> scroll_bottom t"
    "scroll_bottom t \<le> rows_of t - 1" "left_margin t \<le> right_margin t" "right_margin t \<le> columns_of t - 1"
    "left_margin t \<le> columns_of t - 1" "scroll_top t \<le> rows_of t - 1" "length (scrollback t) \<le> scrollback_limit t"
    "columns_of t \<le> u16_max" "rows_of t \<le> u16_max"
  using assms by (auto simp: term_ok_def)

lemma cell_operation_ok: "cell_operation f \<Longrightarrow> term_ok t \<Longrightarrow> term_ok (f t)"
  by (rule cell_operation.screen_law)

lemmas cell_oks [simp] = basic_cell_ops [THEN cell_operation_ok] clear_cells_op [THEN cell_operation_ok]

lemma fold_ok [simp]: "(\<And>x t. term_ok t \<Longrightarrow> term_ok (f x t)) \<Longrightarrow> term_ok t \<Longrightarrow> term_ok (fold f xs t)"
  by (induction xs arbitrary: t) simp_all

section \<open>The cursor and the margins\<close>

lemma moved_row_ok [simp]: "term_ok (moved_row r t) = term_ok t"
proof -
  have "term_ok (clear_semantic_type_due_to_movement t) = term_ok t"
    by (simp add: clear_semantic_type_due_to_movement_def)
  then show ?thesis by (simp add: moved_row_def)
qed

lemma carriage_return_ok [simp]: "term_ok t \<Longrightarrow> term_ok (carriage_return t)"
  by (auto simp: carriage_return_def term_ok_def)

lemma backspace_ok [simp]: "term_ok t \<Longrightarrow> term_ok (backspace t)"
  by (auto simp: backspace_def term_ok_def Let_def)

lemma move_cursor_ok [simp]:
  "term_ok t \<Longrightarrow> term_ok (move_cursor_up n t)" "term_ok t \<Longrightarrow> term_ok (move_cursor_down n t)"
  "term_ok t \<Longrightarrow> term_ok (move_cursor_forward n t)" "term_ok t \<Longrightarrow> term_ok (move_cursor_back n t)"
  using term_okD(2,3) [of t]
  by (auto simp: move_cursor_up_def move_cursor_down_def move_cursor_forward_def move_cursor_back_def Let_def
      intro!: term_ok_row term_ok_column)

lemma move_cursor_line_ok [simp]:
  "term_ok t \<Longrightarrow> term_ok (move_cursor_next_line n t)" "term_ok t \<Longrightarrow> term_ok (move_cursor_previous_line n t)"
  by (simp_all add: move_cursor_next_line_def move_cursor_previous_line_def)

lemma position_params_bound:
  assumes "term_ok t"
  shows "cursor_row_from_position_param n t \<le> rows_of t - 1" "cursor_column_from_position_param n t \<le> columns_of t - 1"
  using term_okD(5,7) [OF assms]
  by (auto simp: cursor_row_from_position_param_def cursor_column_from_position_param_def Let_def min_le_iff_disj)

lemma position_params_pending_wrap [simp]:
  "cursor_row_from_position_param n (t\<lparr>pending_wrap := b\<rparr>) = cursor_row_from_position_param n t"
  "cursor_column_from_position_param n (t\<lparr>pending_wrap := b\<rparr>) = cursor_column_from_position_param n t"
  by (simp_all add: cursor_row_from_position_param_def cursor_column_from_position_param_def Let_def)

lemma position_cursor_ok [simp]: "term_ok t \<Longrightarrow> term_ok (position_cursor ps t)"
  unfolding position_cursor_def Let_def
  by (simp add: term_ok_row term_ok_column position_params_bound del: One_nat_def)

lemma position_cursor_axis_ok [simp]:
  "term_ok t \<Longrightarrow> term_ok (position_cursor_column ps t)" "term_ok t \<Longrightarrow> term_ok (position_cursor_row ps t)"
  by (simp_all add: position_cursor_column_def position_cursor_row_def Let_def)

lemma cursor_home_ok [simp]: "term_ok t \<Longrightarrow> term_ok (cursor_home t)"
  by (auto simp: cursor_home_def dest: term_okD intro!: cell_operation_ok [OF clear_semantic_op] term_ok_row term_ok_column)

lemma region_end_le: "region_end vs limit \<le> limit - 1"
  by (simp add: region_end_def)

lemma set_scroll_region_ok [simp]: "term_ok t \<Longrightarrow> term_ok (set_scroll_region ps t)"
  using region_end_le [of "parse_csi_params ps" "rows_of t"]
  by (auto simp: set_scroll_region_def Let_def intro!: cursor_home_ok term_ok_region)

lemma set_left_right_margins_ok [simp]: "term_ok t \<Longrightarrow> term_ok (set_left_right_margins ps t)"
  using region_end_le [of "parse_csi_params ps" "columns_of t"]
  by (auto simp: set_left_right_margins_def Let_def intro!: cursor_home_ok term_ok_margins)

lemma set_left_right_margin_mode_ok [simp]: "term_ok t \<Longrightarrow> term_ok (set_left_right_margin_mode e t)"
  by (auto simp: set_left_right_margin_mode_def Let_def term_ok_def)

lemma advance_cursor_ok [simp]: "term_ok t \<Longrightarrow> term_ok (advance_cursor w t)"
  by (auto simp: advance_cursor_def character_right_boundary_def term_ok_def Let_def)

lemma save_cursor_ok [simp]: "term_ok (save_cursor t) = term_ok t"
  by (simp add: save_cursor_def)

lemma restore_cursor_ok [simp]: "term_ok t \<Longrightarrow> term_ok (restore_cursor t)"
  by (auto simp: restore_cursor_def term_ok_def Let_def split: option.splits)

section \<open>Tab stops\<close>

lemma default_stops_ok:
  "sorted_wrt (<) (default_stops_from column cols) \<and> (\<forall>s \<in> set (default_stops_from column cols). column \<le> s \<and> s < cols)"
proof (induction column cols rule: default_stops_from.induct)
  case (1 column cols)
  show ?case
  proof (cases "column < cols \<and> cols \<le> u16_max")
    case True
    let ?rest = "default_stops_from (sat_add_u16 column 8) cols"
    have e: "default_stops_from column cols = column # ?rest" using True by (subst default_stops_from.simps) simp
    have "column < sat_add_u16 column 8" using True by (simp add: sat_add_u16_def)
    moreover have "sorted_wrt (<) ?rest \<and> (\<forall>s \<in> set ?rest. sat_add_u16 column 8 \<le> s \<and> s < cols)" using 1 True by simp
    ultimately show ?thesis unfolding e using True by fastforce
  next
    case False
    then have "default_stops_from column cols = []" by (subst default_stops_from.simps) auto
    then show ?thesis by simp
  qed
qed

lemma default_tab_stops_ok: "stops_ok (size_columns sz) (default_tab_stops sz)"
  using default_stops_ok [of 8 "size_columns sz"] by (simp add: stops_ok_def default_tab_stops_def)

lemma sorted_insert_nth:
  fixes xs :: "nat list"
  assumes "sorted_wrt (<) xs" and "x \<notin> set xs"
  shows "sorted_wrt (<) (insert_nth (length (takeWhile (\<lambda>y. y < x) xs)) x xs)"
  using assms
proof (induction xs)
  case (Cons y ys)
  have "set (insert_nth k x ys) = insert x (set ys)" for k by simp
  then show ?case using Cons by (auto simp: insert_nth_def)
qed (simp add: insert_nth_def)

lemma tab_stops_ok:
  "stops_ok (size_columns sz) stops \<Longrightarrow> stops_ok (size_columns sz) (tab_stops_set column sz stops)"
  "stops_ok cols stops \<Longrightarrow> stops_ok cols (tab_stops_clear column stops)"
  "stops_ok cols (tab_stops_clear_all stops)"
  by (auto simp: stops_ok_def tab_stops_set_def tab_stops_clear_def tab_stops_clear_all_def sorted_insert_nth sorted_wrt_filter)

lemma tab_stop_ops_ok [simp]:
  "term_ok t \<Longrightarrow> term_ok (set_horizontal_tab_stop t)" "term_ok t \<Longrightarrow> term_ok (clear_tab_stop m t)"
  by (auto simp: set_horizontal_tab_stop_def clear_tab_stop_def term_ok_def tab_stops_ok)

lemma next_after_bound: "\<forall>s \<in> set stops. s < cols \<Longrightarrow> next_after column (cols - 1) stops \<le> cols - 1"
proof (cases "List.find (\<lambda>stop. stop > column) stops")
  case (Some s)
  moreover assume "\<forall>s \<in> set stops. s < cols"
  ultimately have "s < cols" by (auto simp: find_Some_iff)
  with Some show ?thesis by (simp add: next_after_def)
qed (simp add: next_after_def)

lemma forward_tabs_bound:
  "\<forall>s \<in> set stops. s < cols \<Longrightarrow> column \<le> cols - 1 \<Longrightarrow> forward_tabs n (cols - 1) stops column \<le> cols - 1"
  by (induction n arbitrary: column) (simp_all add: Let_def next_after_bound [unfolded One_nat_def])

lemma backward_tabs_bound: "backward_tabs n stops column \<le> column"
proof (induction n arbitrary: column)
  case (Suc n)
  have "s < column" if "List.find (\<lambda>stop. stop < column) (rev stops) = Some s" for s
    using that by (auto simp: find_Some_iff)
  then have "previous_before column stops \<le> column"
    unfolding previous_before_def by (cases "List.find (\<lambda>stop. stop < column) (rev stops)") (auto simp: less_imp_le)
  with Suc [of "previous_before column stops"] show ?case by (simp add: Let_def)
qed simp

lemma tab_moves_ok [simp]:
  assumes "term_ok t"
  shows "term_ok (move_forward_tabs n t)" "term_ok (move_backward_tabs n t)" "term_ok (horizontal_tab t)"
proof -
  have s: "\<forall>s \<in> set (tab_stops_of t). s < columns_of t" using assms by (simp add: term_ok_def stops_ok_def)
  have f: "term_ok (move_forward_tabs m t)" for m
    using assms forward_tabs_bound [OF s] by (auto simp: move_forward_tabs_def Let_def term_ok_def)
  show "term_ok (move_forward_tabs n t)" "term_ok (horizontal_tab t)" using f by (simp_all add: horizontal_tab_def)
  show "term_ok (move_backward_tabs n t)"
    using assms backward_tabs_bound [of n "tab_stops_of t" "cursor_column t"]
    by (auto simp: move_backward_tabs_def Let_def term_ok_def)
qed

section \<open>Scrolling\<close>

lemma cell_grid_change:
  assumes "\<And>t. grid_operation (f t)"
  shows "frame (t\<lparr>grid := f t (grid t)\<rparr>) = frame t" "grid_ok (grid t) \<Longrightarrow> grid_ok (f t (grid t))"
  using assms by (auto simp: frame_def grid_operation_def)

lemma copy_row_cells_op: "grid_operation (copy_row_cells source target left right)"
  unfolding copy_row_cells_def [abs_def]
  by (rule grid_operation_fold) (use set_op.keeps_ok set_op.keeps_size in \<open>simp add: grid_operation_def\<close>)

lemma blank_row_cells_op: "grid_operation (blank_row_cells blank left right row)"
  unfolding blank_row_cells_def [abs_def] by (rule grid_operation_fold) (rule set_op.grid_operation_axioms)

lemma bounded_cells_op:
  "cell_operation (scroll_down_bounded_cells upper lower n left right)"
  "cell_operation (scroll_up_bounded_cells upper lower n left right)"
proof -
  have g: "grid_operation (\<lambda>g. fold (blank_row_cells b left right) xs
      (if P then fold (\<lambda>row. copy_row_cells (src row) (tgt row) left right) ys g else g))" for b xs ys src tgt and P :: bool
  proof -
    have f: "grid_operation (fold (blank_row_cells b left right) xs)"
      by (rule grid_operation_fold) (rule blank_row_cells_op)
    have c: "grid_operation (fold (\<lambda>row. copy_row_cells (src row) (tgt row) left right) ys)"
      by (rule grid_operation_fold) (rule copy_row_cells_op)
    show ?thesis using f grid_operation_comp [OF f c] by (cases P) simp_all
  qed
  show "cell_operation (scroll_down_bounded_cells upper lower n left right)"
    unfolding scroll_down_bounded_cells_def [abs_def] Let_def by (rule cell_operation_grid) (rule g)
  show "cell_operation (scroll_up_bounded_cells upper lower n left right)"
    unfolding scroll_up_bounded_cells_def [abs_def] Let_def by (rule cell_operation_grid) (rule g)
qed

lemma upd_images_flag_op: "upd_images_flag f t = (b, u) \<Longrightarrow> \<exists>im. u = t\<lparr>images := im\<rparr>"
  by (auto simp: upd_images_flag_def split: prod.splits)

lemma scroll_down_region_op: "cell_operation (scroll_down_region upper lower n)"
proof -
  have "cell_operation (\<lambda>t. t\<lparr>grid := scroll_down_rows upper lower m (blank_cell t) (seqno t) (grid t)\<rparr>)" for m
    by (rule cell_operation_grid) (rule down_op.grid_operation_axioms)
  from this [THEN cell_operation.cell_frame] this [THEN cell_operation.cell_grid] this [THEN cell_operation.cell_history]
  show ?thesis by unfold_locales (simp_all add: scroll_down_region_def Let_def)
qed

lemma scroll_down_margins_op: "cell_operation (scroll_down_with_horizontal_margins upper lower n)"
  using scroll_down_region_op [THEN cell_operation.cell_frame] scroll_down_region_op [THEN cell_operation.cell_grid]
    scroll_down_region_op [THEN cell_operation.cell_history] bounded_cells_op(1) [THEN cell_operation.cell_frame]
    bounded_cells_op(1) [THEN cell_operation.cell_grid] bounded_cells_op(1) [THEN cell_operation.cell_history]
  by unfold_locales (auto simp: scroll_down_with_horizontal_margins_def Let_def dest!: upd_images_flag_op
      split: option.splits prod.splits)

text \<open>The history.\<close>

lemma rebase_prune_law [simp]:
  "frame (rebase_inline_images_after_history_prune n t) = frame t"
  "scrollback (rebase_inline_images_after_history_prune n t) = scrollback t"
  "grid (rebase_inline_images_after_history_prune n t) = grid t"
  by (simp_all add: rebase_inline_images_after_history_prune_def upd_images_def frame_def Let_def option.map_comp o_def
      split: option.splits)

lemma evict_front_length: "evict_front n h = (k, h') \<Longrightarrow> h' = drop (min n (length h)) h \<and> k = min n (length h)"
  by (auto simp: evict_front_def Let_def split: if_splits)

lemma prune_law [simp]:
  "frame (prune_scrollback_rows n t) = frame t"
  "scrollback (prune_scrollback_rows n t) = drop (min n (length (scrollback t))) (scrollback t)"
  "grid (prune_scrollback_rows n t) = grid t"
  by (auto simp: prune_scrollback_rows_def Let_def split: prod.splits dest!: evict_front_length)

lemma trim_law [simp]:
  "frame (trim_scrollback_to_limit t) = frame t"
  "grid (trim_scrollback_to_limit t) = grid t"
  "length (scrollback (trim_scrollback_to_limit t)) \<le> scrollback_limit t"
  by (auto simp: trim_scrollback_to_limit_def)

lemma screen_operation_ok: "screen_operation f \<Longrightarrow> term_ok t \<Longrightarrow> term_ok (f t)"
  by (rule screen_operation.keeps_ok)

lemma prune_op: "screen_operation (prune_scrollback_rows n)"
proof
  fix t
  show f: "frame (prune_scrollback_rows n t) = frame t" by simp
  assume ok: "term_ok t"
  show "term_ok (prune_scrollback_rows n t)"
    by (rule term_ok_frame [OF f ok]) (use ok term_okD(10) [OF ok] in \<open>auto simp: term_ok_def frame_eqD [OF f]\<close>)
qed

lemma fold_history_append: "fold (\<lambda>r. history_append (f r)) rows h = h @ map f rows"
  by (induction rows arbitrary: h) (simp_all add: history_append_def)

lemma shift_suffix_law [simp]:
  "frame (shift_suffix_metadata_for_recorded_rows a n t) = frame t"
  "scrollback (shift_suffix_metadata_for_recorded_rows a n t) = scrollback t"
  "grid (shift_suffix_metadata_for_recorded_rows a n t) = grid t"
  by (simp_all add: shift_suffix_metadata_for_recorded_rows_def upd_images_def frame_def Let_def)

lemma upd_images_keep [simp]: "grid (upd_images f t) = grid t" "scrollback (upd_images f t) = scrollback t"
  by (simp_all add: upd_images_def)

lemma put_grid_law:
  "grid_size g = grid_size (grid t) \<Longrightarrow> frame (t\<lparr>grid := g, scrollback := h\<rparr>) = frame t"
  by (simp add: frame_def)

lemma rotate_up_ok:
  assumes "rotate_up_rows upper lower n b s g = (rows, g')"
  shows "grid_ok g \<Longrightarrow> grid_ok g'" "grid_size g' = grid_size g"
  using grid_operation.keeps_ok [OF rotate_up_operation] grid_operation.keeps_size [OF rotate_up_operation] assms
  by (metis snd_conv)+

text \<open>The state after the exiting rows were appended to the history and it was trimmed.\<close>

lemma recorded_scroll_law:
  fixes t u :: terminal
  assumes "frame u = frame t" and "grid u = grid t" and "scroll_up_rows upper lower n b s (grid u) = (rows, g)"
  shows "frame (trim_scrollback_to_limit (u\<lparr>grid := g, scrollback := h\<rparr>)) = frame t"
    and "grid_ok (grid t) \<Longrightarrow> grid_ok (grid (trim_scrollback_to_limit (u\<lparr>grid := g, scrollback := h\<rparr>)))"
    and "length (scrollback (trim_scrollback_to_limit (u\<lparr>grid := g, scrollback := h\<rparr>))) \<le> scrollback_limit t"
proof -
  have g: "grid_ok (grid t) \<Longrightarrow> grid_ok g" "grid_size g = grid_size (grid u)"
    using rotate_up_ok [OF assms(3) [unfolded scroll_up_rows_def]] assms(2) by simp_all
  show "frame (trim_scrollback_to_limit (u\<lparr>grid := g, scrollback := h\<rparr>)) = frame t"
    using assms(1) put_grid_law [OF g(2)] by simp
  show "grid_ok (grid t) \<Longrightarrow> grid_ok (grid (trim_scrollback_to_limit (u\<lparr>grid := g, scrollback := h\<rparr>)))" using g by simp
  show "length (scrollback (trim_scrollback_to_limit (u\<lparr>grid := g, scrollback := h\<rparr>))) \<le> scrollback_limit t"
    using trim_law(3) [of "u\<lparr>grid := g, scrollback := h\<rparr>"] frame_eqD(9) [OF assms(1)] by simp
qed

lemma scroll_up_recorded:
  fixes t :: terminal
  assumes "\<not> (rows_of t = 0 \<or> columns_of t = 0 \<or> upper > lower \<or> n = 0)" and "should_record_scrollback_for_scroll upper lower t"
  obtains u d rows g h where "frame u = frame t" "grid u = grid t"
    "scroll_up_rows upper lower (min n (lower - upper + 1)) (blank_cell u) (seqno u) (grid u) = (rows, g)"
    "scroll_up_region_by upper lower n t = record_damage d (touch_rows (sat_add_u16 lower 1) (rows_of t)
       (trim_scrollback_to_limit (u\<lparr>grid := g, scrollback := h\<rparr>)))"
    "h = scrollback t @ map from_grid_row rows" "main_stable_row_offset u = main_stable_row_offset t"
proof -
  let ?start = "length (scrollback t) + lower + 1"
  let ?t1 = "if sat_add_u16 lower 1 < rows_of t then upd_images (drop_inline_images_crossing_history_boundary ?start) t else t"
  let ?n = "min n (lower - upper + 1)"
  let ?u = "shift_suffix_metadata_for_recorded_rows ?start ?n ?t1"
  obtain rows g where g: "scroll_up_rows upper lower ?n (blank_cell ?u) (seqno ?u) (grid ?u) = (rows, g)" by fastforce
  have "frame ?u = frame t" "grid ?u = grid t" "scrollback ?u = scrollback t" by simp_all
  moreover have "main_stable_row_offset ?u = main_stable_row_offset t"
    by (simp add: shift_suffix_metadata_for_recorded_rows_def upd_images_def Let_def)
  moreover have "scroll_up_region_by upper lower n t = record_damage (damage_rect 0 upper (columns_of t) (lower - upper + 1))
      (touch_rows (sat_add_u16 lower 1) (rows_of t) (trim_scrollback_to_limit
        (?u\<lparr>grid := g, scrollback := scrollback t @ map from_grid_row rows\<rparr>)))"
    using assms g unfolding scroll_up_region_by_def Let_def by (simp add: fold_history_append del: One_nat_def)
  ultimately show thesis using that g by blast
qed

lemma frame_grid: "grid_size g = grid_size (grid t) \<Longrightarrow> frame (t\<lparr>grid := g\<rparr>) = frame t"
  by (simp add: frame_def)

lemma scroll_up_region_law:
  "frame (scroll_up_region_by upper lower n t) = frame t"
  "grid_ok (grid t) \<Longrightarrow> grid_ok (grid (scroll_up_region_by upper lower n t))"
  "length (scrollback t) \<le> scrollback_limit t \<Longrightarrow> length (scrollback (scroll_up_region_by upper lower n t)) \<le> scrollback_limit t"
proof -
  let ?P = "\<lambda>u. frame u = frame t \<and> (grid_ok (grid t) \<longrightarrow> grid_ok (grid u)) \<and>
    (length (scrollback t) \<le> scrollback_limit t \<longrightarrow> length (scrollback u) \<le> scrollback_limit t)"
  have "?P (scroll_up_region_by upper lower n t)"
  proof (cases "rows_of t = 0 \<or> columns_of t = 0 \<or> upper > lower \<or> n = 0")
    case True
    then show ?thesis by (simp add: scroll_up_region_by_def)
  next
    case False
    show ?thesis
    proof (cases "should_record_scrollback_for_scroll upper lower t")
      case True
      obtain u d rows g h where u: "frame u = frame t" "grid u = grid t"
        "scroll_up_rows upper lower (min n (lower - upper + 1)) (blank_cell u) (seqno u) (grid u) = (rows, g)"
        "scroll_up_region_by upper lower n t = record_damage d (touch_rows (sat_add_u16 lower 1) (rows_of t)
          (trim_scrollback_to_limit (u\<lparr>grid := g, scrollback := h\<rparr>)))"
        by (rule scroll_up_recorded [OF False True])
      show ?thesis unfolding u(4) using recorded_scroll_law [OF u(1-3)] by simp
    next
      case rec: False
      then show ?thesis
        using False unfolding scroll_up_region_by_def Let_def by (simp add: frame_grid up_op.keeps_size up_op.keeps_ok del: One_nat_def)
    qed
  qed
  then show "frame (scroll_up_region_by upper lower n t) = frame t"
    "grid_ok (grid t) \<Longrightarrow> grid_ok (grid (scroll_up_region_by upper lower n t))"
    "length (scrollback t) \<le> scrollback_limit t \<Longrightarrow> length (scrollback (scroll_up_region_by upper lower n t)) \<le> scrollback_limit t"
    by auto
qed

lemma scroll_up_margins_op: "screen_operation (scroll_up_with_horizontal_margins upper lower n)"
proof
  fix t
  let ?u = "scroll_up_with_horizontal_margins upper lower n t"
  note b = bounded_cells_op(2) [THEN cell_operation.cell_frame] bounded_cells_op(2) [THEN cell_operation.cell_grid]
    bounded_cells_op(2) [THEN cell_operation.cell_history]
  have l: "frame ?u = frame t \<and> (grid_ok (grid t) \<longrightarrow> grid_ok (grid ?u)) \<and>
    (length (scrollback t) \<le> scrollback_limit t \<longrightarrow> length (scrollback ?u) \<le> scrollback_limit t)"
    using b by (auto simp: scroll_up_with_horizontal_margins_def Let_def scroll_up_region_law dest!: upd_images_flag_op
        split: option.splits prod.splits)
  then show "frame ?u = frame t" by simp
  assume ok: "term_ok t"
  show "term_ok ?u"
    by (rule term_ok_frame [of _ t]) (use l ok term_okD [OF ok] in \<open>auto dest: frame_eqD(9)\<close>)
qed

lemmas scroll_oks [simp] = scroll_up_margins_op [THEN screen_operation_ok] scroll_down_margins_op [THEN cell_operation_ok]
  prune_op [THEN screen_operation_ok]

lemmas scroll_frames [simp] = scroll_up_margins_op [THEN screen_operation.keeps_frame]
  scroll_down_margins_op [THEN cell_operation.cell_frame]

section \<open>Lines\<close>

lemma scrolled_rows [simp]:
  "rows_of (scroll_up_with_horizontal_margins a b n t) = rows_of t"
  "rows_of (scroll_down_with_horizontal_margins a b n t) = rows_of t"
  by (simp_all add: frame_eqD(1) [OF scroll_frames(1)] frame_eqD(1) [OF scroll_frames(2)])

lemma index_down_ok [simp]: "term_ok t \<Longrightarrow> term_ok (index_down w t)"
  by (auto simp: index_down_def Let_def dest: term_okD intro!: cell_operation_ok [OF clear_semantic_op]
      cell_operation_ok [OF set_grid_row_wrapped_op] term_ok_row)

lemma index_down_outside_ok [simp]: "term_ok t \<Longrightarrow> term_ok (index_down_outside_horizontal_margins w t)"
  by (auto simp: index_down_outside_horizontal_margins_def Let_def dest: term_okD intro!: cell_operation_ok [OF clear_semantic_op]
      cell_operation_ok [OF set_grid_row_wrapped_op] term_ok_row)

lemma line_ops_ok [simp]:
  assumes "term_ok t"
  shows "term_ok (index_down_control w t)" "term_ok (newline t)" "term_ok (line_feed t)" "term_ok (wrapped_newline t)"
  using assms by (simp_all add: index_down_control_def newline_def line_feed_def wrapped_newline_def)

lemma next_line_ok [simp]: "term_ok t \<Longrightarrow> term_ok (next_line t)"
  using term_okD(3,8) [of t] by (auto simp: next_line_def Let_def)

lemma reverse_index_ok [simp]: "term_ok t \<Longrightarrow> term_ok (reverse_index t)"
  by (auto simp: reverse_index_def Let_def dest: term_okD intro!: cell_operation_ok [OF clear_semantic_op] term_ok_row)

lemma scroll_ops_ok [simp]:
  assumes "term_ok t"
  shows "term_ok (insert_lines n t)" "term_ok (delete_lines n t)" "term_ok (scroll_up n t)" "term_ok (scroll_down n t)"
  using assms by (simp_all add: insert_lines_def delete_lines_def scroll_up_def scroll_down_def Let_def split: option.splits)

section \<open>Characters\<close>

lemma erase_ops_ok [simp]:
  assumes "term_ok t"
  shows "term_ok (erase_display m sel t)" "term_ok (erase_line m sel t)" "term_ok (erase_characters n t)"
  using assms
  by (simp_all add: erase_display_def erase_line_def erase_characters_def bump_screen_identity_generation_def Let_def)

lemma images_same: "\<exists>im. t = t\<lparr>images := im\<rparr>"
  by (rule exI [of _ "images t"]) simp

lemma retires_images: "bounded_character_edit_retires_graphics right t = (b, u) \<Longrightarrow> \<exists>im. u = t\<lparr>images := im\<rparr>"
  by (auto simp: bounded_character_edit_retires_graphics_def images_same dest!: upd_images_flag_op split: option.splits)

lemma prepare_edit_images:
  assumes "prepare_bounded_character_edit_attachments right tr t = (a, b, u)"
  shows "\<exists>im. u = t\<lparr>images := im\<rparr>"
proof (cases "tr \<noteq> None \<and> bounded_horizontal_scroll_columns t \<noteq> None")
  case True
  then show ?thesis
    using assms by (auto simp: prepare_bounded_character_edit_attachments_def upd_images_def Let_def
        dest!: upd_images_flag_op split: prod.splits)
next
  case False
  then have "prepare_bounded_character_edit_attachments right tr t =
      (case bounded_character_edit_retires_graphics right t of (retired, t1) \<Rightarrow> (retired, False, t1))"
    by (auto simp: prepare_bounded_character_edit_attachments_def split: option.splits)
  then show ?thesis using assms by (auto split: prod.splits dest: retires_images)
qed

lemma insert_boundary_op: "cell_operation (insert_blank_characters_with_right_boundary n right b)"
  by unfold_locales (auto simp: insert_blank_characters_with_right_boundary_def Let_def dest!: prepare_edit_images
      split: prod.splits)

lemma delete_boundary_op: "cell_operation (delete_characters_with_right_boundary n right)"
  by unfold_locales (auto simp: delete_characters_with_right_boundary_def Let_def dest!: prepare_edit_images
      split: prod.splits)

lemmas boundary_oks [simp] = insert_boundary_op [THEN cell_operation_ok] delete_boundary_op [THEN cell_operation_ok]

lemma leader_column_le: "leader_column column c \<le> column"
  by (simp add: leader_column_def split: option.splits cell_content.splits)

lemma grapheme_leader_ok: "term_ok t \<Longrightarrow> term_ok (t\<lparr>cursor_column := grapheme_leader_column (cursor_column t) t\<rparr>)"
  using term_okD(3) [of t] le_trans [OF leader_column_le]
  by (intro term_ok_column) (auto simp: grapheme_leader_column_def)

lemma insert_ops_ok [simp]:
  assumes "term_ok t"
  shows "term_ok (insert_blank_characters n t)" "term_ok (insert_blank_characters_for_write n t)"
  using grapheme_leader_ok [OF assms] grapheme_leader_ok [of "t\<lparr>pending_wrap := False\<rparr>"] assms
  by (simp_all add: insert_blank_characters_def insert_blank_characters_for_write_def Let_def)

lemma delete_characters_ok:
  assumes "delete_characters n t = Some u" and "term_ok t"
  shows "term_ok u"
proof -
  let ?t = "t\<lparr>pending_wrap := False\<rparr>"
  have "term_ok (?t\<lparr>cursor_column := start\<rparr>)" if "grapheme_aligned_delete_range n right ?t = Some (start, m)" for right start m
  proof -
    have "start \<le> cursor_column t"
      using that leader_column_le by (auto simp: grapheme_aligned_delete_range_def Let_def)
    then show ?thesis using assms(2) term_okD(3) [OF assms(2)] by (auto intro!: term_ok_column)
  qed
  then show ?thesis
    using assms by (auto simp: delete_characters_def Let_def split: if_splits option.splits)
qed

section \<open>Writing\<close>

lemma put_continuations_op [cell_ops]: "cell_operation (put_continuations row column c a b)"
  unfolding put_continuations_def by (rule cell_operation_fold) (rule put_cell_op)

lemma record_inline_image_damage_op [cell_ops]: "cell_operation (record_inline_image_damage_at row column w h)"
  by unfold_locales (auto simp: record_inline_image_damage_at_def split: option.splits)

lemma forget_last_placeholder_op [cell_ops]: "cell_operation forget_last_placeholder"
  unfolding forget_last_placeholder_def by (rule upd_images_op)

lemmas more_cell_ops = put_continuations_op record_inline_image_damage_op forget_last_placeholder_op

lemmas more_frames [simp] = more_cell_ops [THEN cell_operation.cell_frame]

lemmas more_histories [simp] = more_cell_ops [THEN cell_operation.cell_history]

lemmas more_grids [simp] = more_cell_ops [THEN cell_operation.cell_grid]

lemmas more_oks [simp] = more_cell_ops [THEN cell_operation_ok]

lemma place_kitty_image_ok [simp]: "term_ok t \<Longrightarrow> term_ok (place_kitty_image im opts t)"
  by (simp add: place_kitty_image_def move_kitty_cursor_after_placement_def Let_def split: prod.splits option.splits)

lemma place_virtual_ok: "term_ok t \<Longrightarrow> term_ok (snd (place_kitty_virtual_placeholder p t))"
  by (simp add: place_kitty_virtual_placeholder_def Let_def split: prod.splits option.splits)

lemma placeholder_ops_ok [simp]:
  assumes "term_ok t"
  shows "term_ok (finish_pending_kitty_placeholder t)" "term_ok (snd (apply_kitty_placeholder_diacritic ch t))"
  using assms place_virtual_ok
  by (auto simp: finish_pending_kitty_placeholder_def apply_kitty_placeholder_diacritic_def split: option.splits prod.splits)
    (metis snd_conv cell_operation_ok upd_images_op)

lemma put_cell_at_cursor:
  "set_grid_cell row column c t = (b, u) \<Longrightarrow> u = put_cell row column c t"
  by (simp add: put_cell_def)

lemma grid_get_column:
  assumes "grid_get row column (grid t) = Some c" and "term_ok t"
  shows "column \<le> columns_of t - 1"
  using assms term_okD(1) [OF assms(2)]
  by (fastforce simp: grid_get_def grid_ok_def nth_opt_def split: if_splits option.splits Option.bind_splits dest: nth_mem)

lemma cell_then_column:
  assumes "cell_operation f" and "term_ok t" and "column \<le> columns_of t - 1"
  shows "term_ok ((f t)\<lparr>cursor_column := column\<rparr>)"
  using assms frame_eqD(1) [OF cell_operation.cell_frame [OF assms(1)], of t]
  by (intro term_ok_column) (simp_all add: cell_operation_ok)

lemma extend_cells_op: "cell_operation (extend_cells row column grapheme sw previous vw aw)"
  unfolding extend_cells_def Let_def
  by (cases "vw > cell_columns previous") (auto intro!: cell_operation_comp [OF record_damage_op] cell_operation_comp [OF set_overflow_op]
      cell_operation_comp [OF put_continuations_op] cell_operation_comp [OF cell_operation_fold] put_blank_op put_cell_op)

lemma extend_ok [simp]:
  assumes "term_ok t"
  shows "term_ok (snd (extend_previous_grapheme uc ch t))"
proof (cases "nfc_last_printable_cell t")
  case (Some p)
  obtain row column where p: "p = (row, column)" by fastforce
  show ?thesis
  proof (cases "grid_get row column (grid t)")
    case (Some previous)
    from cell_then_column [OF extend_cells_op assms grid_get_column [OF Some assms]]
    show ?thesis using assms Some \<open>nfc_last_printable_cell t = Some p\<close> p
      by (simp add: extend_previous_grapheme_def Let_def)
  next
    case None
    then show ?thesis using assms \<open>nfc_last_printable_cell t = Some p\<close> p by (simp add: extend_previous_grapheme_def)
  qed
next
  case None
  then show ?thesis using assms by (simp add: extend_previous_grapheme_def)
qed

lemma set_grid_cell_ok:
  assumes "set_grid_cell row column c t = (b, u)" and "term_ok t"
  shows "term_ok u"
  using assms put_cell_at_cursor [OF assms(1)] by simp

lemma after_write_ok [simp]: "term_ok t \<Longrightarrow> term_ok (after_write ch width w row column h t)"
  by (simp add: after_write_def Let_def)

lemma open_cells_ok [simp]: "term_ok t \<Longrightarrow> term_ok (open_cells w t)"
  by (simp add: open_cells_def Let_def)

lemma write_at_cursor_ok [simp]: "term_ok t \<Longrightarrow> term_ok (write_at_cursor ch width t)"
  by (auto simp: write_at_cursor_def Let_def split: prod.splits bool.splits intro!: after_write_ok dest!: set_grid_cell_ok)

lemma write_char_ok [simp]:
  assumes "term_ok t"
  shows "term_ok (write_char uc ch t)"
proof -
  obtain b t1 where diacritic: "apply_kitty_placeholder_diacritic (map_graphic_character ch t) t = (b, t1)" by fastforce
  obtain b2 t2 where extend: "extend_previous_grapheme uc (map_graphic_character ch t) t1 = (b2, t2)" by fastforce
  have "term_ok t1" using placeholder_ops_ok(2) [OF assms, of "map_graphic_character ch t"] diacritic by simp
  moreover from this have "term_ok t2" using extend_ok [of t1 uc "map_graphic_character ch t"] extend by simp
  ultimately show ?thesis
    using assms diacritic extend by (simp add: write_char_def Let_def split: bool.splits)
qed

lemma funpow_ok: "(\<And>t. term_ok t \<Longrightarrow> term_ok (f t)) \<Longrightarrow> term_ok t \<Longrightarrow> term_ok ((f ^^ n) t)"
  by (induction n) simp_all

lemma repeat_previous_ok [simp]: "term_ok t \<Longrightarrow> term_ok (repeat_previous_character uc n t)"
  by (auto simp: repeat_previous_character_def intro!: funpow_ok split: option.splits)

section \<open>Screens and resets\<close>

lemma clamp_to_size_ok:
  assumes "grid_ok (grid t)" and "columns_of t \<le> u16_max" and "rows_of t \<le> u16_max" and
    "stops_ok (columns_of t) (tab_stops_of t)" and "length (scrollback t) \<le> scrollback_limit t" and "main_screen t = None"
  shows "term_ok (clamp_to_size t)"
proof -
  define u where "u = t\<lparr>cursor_row := clamp_axis (cursor_row t) (rows_of t), cursor_column := clamp_axis (cursor_column t) (columns_of t),
    scroll_top := clamp_axis (scroll_top t) (rows_of t), scroll_bottom := clamp_axis (scroll_bottom t) (rows_of t),
    left_margin := clamp_axis (left_margin t) (columns_of t), right_margin := clamp_axis (right_margin t) (columns_of t)\<rparr>"
  have u: "grid_ok (grid u)" "columns_of u \<le> u16_max" "rows_of u \<le> u16_max" "stops_ok (columns_of u) (tab_stops_of u)"
    "length (scrollback u) \<le> scrollback_limit u" "main_screen u = None" "cursor_row u \<le> rows_of u - 1"
    "cursor_column u \<le> columns_of u - 1" "scroll_bottom u \<le> rows_of u - 1" "right_margin u \<le> columns_of u - 1"
    using assms by (simp_all add: u_def clamp_axis_def)
  show ?thesis
    unfolding clamp_to_size_def Let_def u_def [symmetric]
    by (cases "scroll_top u \<ge> scroll_bottom u"; cases "left_margin u \<ge> right_margin u"; insert u;
        simp add: term_ok_def; auto)
qed

lemma bump_ok [simp]: "term_ok (bump_screen_identity_generation t) = term_ok t"
  by (simp add: bump_screen_identity_generation_def)

lemma damage_all_ok [simp]: "term_ok t \<Longrightarrow> term_ok (damage_all t)"
  by (simp add: damage_all_def)

lemma restore_screen_ok:
  assumes "term_ok t" and "main_screen t = Some s"
  shows "term_ok (restore_screen_state s (bump_screen_identity_generation (t\<lparr>main_screen := None\<rparr>)))"
  unfolding restore_screen_state_def
  using assms by (intro clamp_to_size_ok) (simp_all add: term_ok_def bump_screen_identity_generation_def)

lemma set_alternate_screen_ok [simp]:
  assumes "term_ok t"
  shows "term_ok (set_alternate_screen enabled t)"
proof (cases enabled)
  case True
  then show ?thesis using assms
    by (auto simp: set_alternate_screen_def Let_def screen_state_of_def bump_screen_identity_generation_def
        intro!: cell_operation_ok [OF record_damage_op]) (simp add: term_ok_def)
next
  case False
  then show ?thesis using assms by (auto simp: set_alternate_screen_def restore_screen_ok split: option.splits)
qed

lemma prune_ok [simp]: "term_ok t \<Longrightarrow> term_ok (prune_scrollback_rows n t)"
  by (rule screen_operation_ok [OF prune_op])

lemma prune_tabs [simp]: "grid_size (grid (prune_scrollback_rows n t)) = grid_size (grid t)"
  using frame_eqD(1) [OF screen_operation.keeps_frame [OF prune_op]] .

lemma reset_terminal_ok [simp]:
  assumes "term_ok t"
  shows "term_ok (reset_terminal t)"
proof -
  define v where "v = bump_screen_identity_generation t"
  obtain u where u: "prune_scrollback_rows (length (scrollback v)) v = u" "term_ok u" "grid_size (grid v) = grid_size (grid u)"
    using assms by (auto simp: v_def)
  have "term_ok (u\<lparr>grid := grid_new_with_seqno (grid_size (grid u)) s, images := im, semantic_prompt_rows := [], semantic_command_exits := [],
      cursor_row := 0, cursor_column := 0, pending_wrap := False, clear_semantic_type_on_movement := False,
      last_printable := None, nfc_last_printable_cell := None, saved_cursor_of := None, main_screen := None,
      modes := m, scroll_top := 0, scroll_bottom := rows_of u - 1, left_margin := 0, right_margin := columns_of u - 1,
      character_set_of := cs, tab_stops_of := default_tab_stops (grid_size (grid u)), style := c\<rparr>)" for s im m cs c
    using u(2) default_tab_stops_ok by (simp add: term_ok_def)
  then show ?thesis by (simp add: reset_terminal_def v_def [symmetric] u(1,3) Let_def)
qed

lemma soft_reset_ok [simp]:
  assumes "term_ok t"
  shows "term_ok (soft_reset_terminal t)"
proof -
  obtain u where u: "set_alternate_screen False t = u" and "term_ok u" using set_alternate_screen_ok [OF assms] by simp
  then have "term_ok (u\<lparr>modes := m, style := c, images := im, scroll_top := 0, scroll_bottom := rows_of u - 1,
      left_margin := 0, right_margin := columns_of u - 1, character_set_of := cs, saved_cursor_of := None,
      pending_wrap := False, clear_semantic_type_on_movement := False, last_printable := None,
      nfc_last_printable_cell := None\<rparr>)" for m c im cs
    by (simp add: term_ok_def)
  then show ?thesis by (simp add: soft_reset_terminal_def u Let_def)
qed

lemma fill_row_op: "cell_operation (fill_row_with c row)"
  unfolding fill_row_with_def
  by (rule cell_operation_comp [OF set_grid_row_wrapped_op]) (rule cell_operation_fold_on, rule put_cell_op)

lemma screen_alignment_ok [simp]:
  assumes "term_ok t"
  shows "term_ok (screen_alignment_test t)"
proof -
  have "term_ok (t\<lparr>modes := m, scroll_top := 0, scroll_bottom := rows_of t - 1, left_margin := 0,
      right_margin := columns_of t - 1, cursor_row := 0, cursor_column := 0, pending_wrap := False,
      clear_semantic_type_on_movement := False\<rparr>)" for m
    using assms by (simp add: term_ok_def)
  then show ?thesis
    by (simp add: screen_alignment_test_def Let_def fold_ok [OF cell_operation_ok [OF fill_row_op]])
qed

section \<open>Modes and control sequences\<close>

lemma mode_ops_ok [simp]:
  assumes "term_ok t"
  shows "term_ok (set_insert_mode e t)" "term_ok (set_screen_reverse_video e t)" "term_ok (set_origin_mode e t)"
    "term_ok (set_auto_wrap e t)"
  using assms by (simp_all add: set_insert_mode_def set_screen_reverse_video_def set_origin_mode_def set_auto_wrap_def Let_def)

lemma set_private_mode_value_ok [simp]: "term_ok t \<Longrightarrow> term_ok (set_private_mode_value e v t)"
  by (simp add: set_private_mode_value_def)

lemma set_mode_ok [simp]: "term_ok t \<Longrightarrow> term_ok (set_mode ps e t)"
  by (simp add: set_mode_def set_private_mode_def set_standard_mode_def split: option.splits)

lemma style_ops_ok [simp]:
  assumes "term_ok t"
  shows "term_ok (set_cursor_shape ps t)" "term_ok (set_character_protection ps t)" "term_ok (apply_window_manipulation ps t)"
  using assms by (simp_all add: set_cursor_shape_def set_character_protection_def apply_window_manipulation_def
      apply_default_cursor_style_def Let_def split: option.splits)

lemma unknown_ok [simp]: "term_ok (record_unknown_escape_sequence s t) = term_ok t"
  by (simp add: record_unknown_escape_sequence_def)

lemma apply_csi_ok:
  assumes "apply_csi uc command params t = Some u" and "term_ok t"
  shows "term_ok u"
  using assms unfolding apply_csi_def Let_def
  by (auto simp del: One_nat_def dest: delete_characters_ok split: if_splits)

lemma new_terminal_ok:
  assumes "size_columns sz \<le> u16_max" and "size_rows sz \<le> u16_max"
  shows "term_ok (new_with_default_cursor_style sz cs)"
  using assms default_tab_stops_ok [of sz] by (simp add: term_ok_def new_with_default_cursor_style_def)

end
