(* ===== verification/Term_Spans.thy ===== *)
theory Term_Spans
  imports Term_Shape
begin

text \<open>
  The spans of wide characters: a leader cell of width \<open>n\<close> is followed by the continuation cells
  \<open>1\<close> to \<open>n - 1\<close>. The repair of a row establishes this form and changes nothing when it is there, and
  the deletion of characters returns on every row that has it; on a row with a continuation cell and no
  leader the deletion need not return.
\<close>

section \<open>Rows as lists of contents\<close>

definition row_contents :: "u16 \<Rightarrow> terminal_grid \<Rightarrow> cell_content list" where
  "row_contents row g = (case nth_opt (grid_rows g) row of None \<Rightarrow> [] | Some r \<Rightarrow> map cell_content (row_cells r))"

definition content_width :: "cell_content \<Rightarrow> nat" where
  "content_width c = (case c of Text _ n \<Rightarrow> max 1 n | _ \<Rightarrow> 1)"

fun spans_ok :: "bool \<Rightarrow> cell_content list \<Rightarrow> bool" where
  "spans_ok clipped [] = True"
| "spans_ok clipped (c # cs) =
     (let w = content_width c in
      (case c of Continuation _ \<Rightarrow> False | _ \<Rightarrow> True) \<and>
      take (w - 1) cs = map Continuation [1 ..< (if clipped then min w (length cs + 1) else w)] \<and>
      spans_ok clipped (drop (w - 1) cs))"

lemma content_width_pos: "1 \<le> content_width c"
  by (simp add: content_width_def split: cell_content.splits)

lemma spans_ok_clipped: "spans_ok False cs \<Longrightarrow> spans_ok True cs"
proof (induction "False" cs rule: spans_ok.induct)
  case (2 c cs)
  from 2(2) have "take (content_width c - 1) cs = map Continuation [1 ..< content_width c]" by (simp add: Let_def)
  then have "length (take (content_width c - 1) cs) = content_width c - 1" by (simp del: length_take)
  then have "content_width c - 1 \<le> length cs" by (simp add: min_def split: if_splits)
  then have "min (content_width c) (length cs + 1) = content_width c" by simp
  with 2 show ?case by (simp add: Let_def)
qed simp

lemma row_contents_get: "grid_get row column g = Some c \<Longrightarrow> column < length (row_contents row g) \<and> row_contents row g ! column = cell_content c"
  by (auto simp: grid_get_def row_contents_def split: option.splits bind_splits)

lemma row_contents_beyond: "grid_get row column g = None \<Longrightarrow> length (row_contents row g) \<le> column"
  by (auto simp: grid_get_def row_contents_def split: option.splits bind_splits)

lemma row_contents_length:
  "grid_ok g \<Longrightarrow> row < size_rows (grid_size g) \<Longrightarrow> length (row_contents row g) = size_columns (grid_size g)"
  by (auto simp: row_contents_def grid_ok_def nth_opt_def)

lemma row_contents_put [simp]:
  "row_contents row (grid (put_cell row column c t)) = (row_contents row (grid t))[column := cell_content c]"
  by (auto simp: put_cell_alt grid_set_def row_contents_def set_row_last_change_seqno_def upd_row_def map_update nth_opt_def list_update_beyond
      split: option.splits)

section \<open>Repairing a row\<close>

lemma blank_cell_content [simp]: "cell_content (blank_cell t) = Blank"
  by (simp add: blank_cell_def)

lemma update_with_same: "xs ! j = x \<Longrightarrow> j < length xs \<Longrightarrow> xs[i := x] ! j = x"
  by (cases "i = j") simp_all

lemma fold_blank_keeps:
  fixes target :: "nat \<Rightarrow> nat" and row :: nat
  defines "f \<equiv> \<lambda>i t. if target i < columns_of t then put_cell row (target i) (blank_cell t) t else t"
  assumes "\<forall>i \<in> set is. column \<le> target i"
  shows "take column (row_contents row (grid (fold f is t))) = take column (row_contents row (grid t))"
    "length (row_contents row (grid (fold f is t))) = length (row_contents row (grid t))"
    "column < length (row_contents row (grid t)) \<Longrightarrow> row_contents row (grid t) ! column = Blank
      \<Longrightarrow> row_contents row (grid (fold f is t)) ! column = Blank"
  using assms(2) unfolding f_def
  by (induction "is" arbitrary: t) (auto simp: update_with_same)

lemma clear_span_row:
  assumes "grid_get row column (grid t) = Some c" and "\<not> is_continuation c" and "column < columns_of t"
    and "columns_of t \<le> u16_max"
  defines "u \<equiv> clear_grapheme_span_at row column t"
  shows "take column (row_contents row (grid u)) = take column (row_contents row (grid t))"
    and "row_contents row (grid u) ! column = Blank"
proof -
  have zero: "sat_add_u16 column 0 = column" and mono: "column \<le> sat_add_u16 column i" for i
    using assms(3,4) by (simp_all add: sat_add_u16_def)
  define f where "f = (\<lambda>i t. if sat_add_u16 column i < columns_of t then put_cell row (sat_add_u16 column i) (blank_cell t) t else t)"
  define w where "w = max 1 (cell_columns c)"
  have leader: "leader_column column (Some c) = column"
    using assms(2) by (simp add: leader_column_def is_continuation_def split: cell_content.splits)
  have "u = fold f [0 ..< w] t"
    using assms(1) by (simp add: u_def clear_grapheme_span_at_def leader w_def f_def Let_def)
  moreover have "[0 ..< w] = 0 # [1 ..< w]" by (simp add: w_def upt_conv_Cons)
  ultimately have u: "u = fold f [1 ..< w] (put_cell row column (blank_cell t) t)"
    using assms(3) by (simp add: f_def zero)
  have column: "column < length (row_contents row (grid t))" using row_contents_get [OF assms(1)] by simp
  note keep = fold_blank_keeps [of "[1 ..< w]" column "sat_add_u16 column" row "put_cell row column (blank_cell t) t",
      folded f_def u]
  show "take column (row_contents row (grid u)) = take column (row_contents row (grid t))"
    using keep(1) mono by simp
  show "row_contents row (grid u) ! column = Blank" using keep(3) mono column by simp
qed

lemma take_Suc_keep: "take (Suc n) xs = take (Suc n) ys \<Longrightarrow> n < length xs \<Longrightarrow> n < length ys \<Longrightarrow> take n xs = take n ys \<and> xs ! n = ys ! n"
  by (metis lessI less_Suc_eq_le nat_less_le nth_take take_take min.absorb1)

lemma span_complete_contents:
  "span_complete row column w g \<longleftrightarrow> take (w - 1) (drop (Suc column) (row_contents row g)) = map Continuation [1 ..< w]"
proof -
  let ?xs = "drop (Suc column) (row_contents row g)"
  have cell: "(case grid_get row (column + i) g of Some c \<Rightarrow> cell_content c = Continuation i | None \<Rightarrow> False) \<longleftrightarrow>
      i - 1 < length ?xs \<and> ?xs ! (i - 1) = Continuation i" if "1 \<le> i" for i
    using row_contents_get [of row "column + i" g] row_contents_beyond [of row "column + i" g] that
    by (cases "grid_get row (column + i) g") auto
  have upto: "[1 ..< w] = map Suc [0 ..< w - 1]" by (cases w) (simp_all add: map_Suc_upt)
  have "span_complete row column w g \<longleftrightarrow> (\<forall>j < w - 1. j < length ?xs \<and> ?xs ! j = Continuation (Suc j))"
    unfolding span_complete_def list_all_iff upto using cell [of "Suc _"]
    by (auto simp del: map_Suc_upt image_Suc_atLeastLessThan)
  also have "\<dots> \<longleftrightarrow> take (w - 1) ?xs = map Continuation [1 ..< w]"
  proof
    assume all: "\<forall>j < w - 1. j < length ?xs \<and> ?xs ! j = Continuation (Suc j)"
    then have "w - 1 \<le> length ?xs" by (cases "w - 1") (auto simp del: length_drop)
    then show "take (w - 1) ?xs = map Continuation [1 ..< w]"
      using all by (intro nth_equalityI) (auto simp del: length_drop)
  next
    assume eq: "take (w - 1) ?xs = map Continuation [1 ..< w]"
    then have "length (take (w - 1) ?xs) = w - 1" by (simp del: length_take)
    then have len: "w - 1 \<le> length ?xs" by simp
    have "?xs ! j = Continuation (Suc j)" if "j < w - 1" for j
      using arg_cong [OF eq, of "\<lambda>xs. xs ! j"] that by simp
    with len show "\<forall>j < w - 1. j < length ?xs \<and> ?xs ! j = Continuation (Suc j)" by auto
  qed
  finally show ?thesis .
qed

lemma drop_span: "1 \<le> w \<Longrightarrow> drop (w - 1) (drop (Suc column) xs) = drop (column + w) xs"
  by (simp add: add.commute)

lemma spans_ok_drop:
  assumes "column < length xs" and "\<And>d. xs ! column \<noteq> Continuation d"
    and "take (content_width (xs ! column) - 1) (drop (Suc column) xs) = map Continuation [1 ..< content_width (xs ! column)]"
    and "spans_ok False (drop (column + content_width (xs ! column)) xs)"
  shows "spans_ok False (drop column xs)"
proof -
  have "drop column xs = xs ! column # drop (Suc column) xs" using assms(1) by (simp add: Cons_nth_drop_Suc)
  moreover have "drop (content_width (xs ! column) - 1) (drop (Suc column) xs) = drop (column + content_width (xs ! column)) xs"
    by (rule drop_span [OF content_width_pos])
  ultimately show ?thesis using assms(2-4) by (simp add: Let_def split: cell_content.split)
qed

lemma sanitize_from_keeps_shape:
  "grid_size (grid (sanitize_from cols row column t)) = grid_size (grid t)"
  using sanitize_from_law frame_eqD(1) by blast

lemma take_keep:
  assumes "take n xs = take n ys" and "m \<le> n"
  shows "take m xs = take m ys"
  using arg_cong [OF assms(1), of "take m"] assms(2) by (simp add: min_def)

lemma nth_keep:
  assumes "take n xs = take n ys" and "m < n"
  shows "m < length xs \<Longrightarrow> m < length ys \<Longrightarrow> xs ! m = ys ! m"
  using arg_cong [OF assms(1), of "\<lambda>l. l ! m"] assms(2) by simp

lemma take_drop_keep:
  assumes "take n xs = take n ys" and "i + k \<le> n"
  shows "take k (drop i xs) = take k (drop i ys)"
  using arg_cong [OF assms(1), of "\<lambda>l. take k (drop i l)"] assms(2) by (simp add: drop_take min.absorb1 le_diff_conv2)

lemma not_continuation_content: "\<not> is_continuation c \<Longrightarrow> cell_content c \<noteq> Continuation d"
  by (auto simp: is_continuation_def)

lemma leader_width: "\<not> is_continuation c \<Longrightarrow> max 1 (cell_columns c) = content_width (cell_content c)"
  by (simp add: is_continuation_def content_width_def cell_columns_def split: cell_content.splits)

definition repaired :: "u16 \<Rightarrow> u16 \<Rightarrow> terminal \<Rightarrow> terminal \<Rightarrow> bool" where
  "repaired row column t u \<longleftrightarrow> take column (row_contents row (grid u)) = take column (row_contents row (grid t)) \<and>
     length (row_contents row (grid u)) = length (row_contents row (grid t)) \<and>
     spans_ok False (drop column (row_contents row (grid u)))"

lemma repaired_step:
  assumes "repaired row (Suc column) t1 u" and "row_contents row (grid t1) ! column = Blank"
    and "take column (row_contents row (grid t1)) = take column (row_contents row (grid t))"
    and "length (row_contents row (grid t1)) = length (row_contents row (grid t))" and "column < length (row_contents row (grid t))"
  shows "repaired row column t u"
proof -
  let ?u = "row_contents row (grid u)" and ?t = "row_contents row (grid t1)"
  have keep: "take (Suc column) ?u = take (Suc column) ?t" and len: "length ?u = length ?t"
    and rest: "spans_ok False (drop (Suc column) ?u)" using assms(1) by (auto simp: repaired_def)
  have "?u ! column = Blank" using nth_keep [OF keep, of column] len assms(2,4,5) by simp
  then have "spans_ok False (drop column ?u)"
    using rest len assms(4,5) by - (rule spans_ok_drop; simp add: content_width_def)
  then show ?thesis
    using take_keep [OF keep, of column] len assms(3,4) by (simp add: repaired_def)
qed

lemma repaired_span:
  fixes row column t
  defines "xs \<equiv> row_contents row (grid t)"
  defines "w \<equiv> content_width (xs ! column)"
  assumes "repaired row (column + w) t u" and "column < length xs" and "\<And>d. xs ! column \<noteq> Continuation d"
    and span: "take (w - 1) (drop (Suc column) xs) = map Continuation [1 ..< w]"
  shows "repaired row column t u"
proof -
  let ?ys = "row_contents row (grid u)"
  have keep: "take (column + w) ?ys = take (column + w) xs" and len: "length ?ys = length xs"
    and rest: "spans_ok False (drop (column + w) ?ys)" using assms(3) by (auto simp: repaired_def xs_def)
  have "0 < w" using content_width_pos [of "xs ! column"] by (simp add: w_def)
  then have same: "?ys ! column = xs ! column" using nth_keep [OF keep, of column] len assms(4) by simp
  have "take (w - 1) (drop (Suc column) ?ys) = take (w - 1) (drop (Suc column) xs)"
    by (rule take_drop_keep [OF keep]) (use \<open>0 < w\<close> in simp)
  then have "spans_ok False (drop column ?ys)"
    using rest len assms(4,5) span by - (rule spans_ok_drop; simp add: same w_def [symmetric])
  then show ?thesis
    using take_keep [OF keep, of column] len by (simp add: repaired_def xs_def)
qed

lemma row_contents_same_length:
  assumes "cell_operation f" and "grid_ok (grid t)" and "row < rows_of t"
  shows "length (row_contents row (grid (f t))) = length (row_contents row (grid t))"
  using row_contents_length [of "grid t" row] row_contents_length [of "grid (f t)" row] assms(2,3)
    cell_operation.cell_grid [OF assms(1,2)] frame_eqD(1) [OF cell_operation.cell_frame [OF assms(1), of t]] by simp

lemma sanitize_from_repairs:
  assumes "grid_ok (grid t)" and "row < rows_of t" and "cols = columns_of t" and "cols \<le> u16_max" and "column \<le> cols"
  shows "repaired row column t (sanitize_from cols row column t)"
  using assms
proof (induction cols row column t rule: sanitize_from.induct)
  case (1 cols row column t)
  let ?xs = "row_contents row (grid t)"
  have len: "length ?xs = cols" using 1(4-6) row_contents_length by simp
  show ?case
  proof (cases "column < cols")
    case True
    then obtain c where c: "grid_get row column (grid t) = Some c"
      using row_contents_beyond [of row column "grid t"] len by fastforce
    have at: "?xs ! column = cell_content c" using row_contents_get [OF c] by simp
    consider (cont) "is_continuation c" | (broken) "\<not> is_continuation c" "max 1 (cell_columns c) \<noteq> 1"
        "\<not> (sat_add_u16 column (max 1 (cell_columns c)) \<le> cols \<and> span_complete row column (max 1 (cell_columns c)) (grid t))"
      | (whole) "\<not> is_continuation c" "max 1 (cell_columns c) = 1 \<or>
          sat_add_u16 column (max 1 (cell_columns c)) \<le> cols \<and> span_complete row column (max 1 (cell_columns c)) (grid t)" by blast
    then show ?thesis
    proof cases
      case cont
      let ?t = "put_cell row column (blank_cell t) t"
      note op = put_cell_op [of row column "blank_cell t"]
      have "repaired row (column + 1) ?t (sanitize_from cols row (column + 1) ?t)"
        using 1(1) [OF True c cont] 1(4-7) True cell_operation.cell_grid [OF op] frame_eqD(1) [OF cell_operation.cell_frame [OF op, of t]]
        by simp
      then have "repaired row column t (sanitize_from cols row (column + 1) ?t)"
        using len True by (intro repaired_step [of row column ?t]) simp_all
      then show ?thesis using True c cont by (subst sanitize_from.simps) simp
    next
      case broken
      let ?t = "clear_grapheme_span_at row column t"
      note op = clear_grapheme_span_op [of row column]
      have "repaired row (column + 1) ?t (sanitize_from cols row (column + 1) ?t)"
        using 1(3) [OF True c broken(1) refl] broken(2,3) 1(4-7) True cell_operation.cell_grid [OF op]
          frame_eqD(1) [OF cell_operation.cell_frame [OF op, of t]]
        by simp
      then have "repaired row column t (sanitize_from cols row (column + 1) ?t)"
        using len True clear_span_row [OF c broken(1)] 1(6,7) row_contents_same_length [OF op 1(4,5)]
        by (intro repaired_step [of row column ?t]) simp_all
      then show ?thesis using True c broken by (subst sanitize_from.simps) (auto simp: Let_def)
    next
      case whole
      define w where "w = max 1 (cell_columns c)"
      have width: "content_width (?xs ! column) = w" using leader_width [OF whole(1)] by (simp add: at w_def)
      have span: "take (w - 1) (drop (Suc column) ?xs) = map Continuation [1 ..< w]"
        using whole(2) [folded w_def] span_complete_contents [of row column w "grid t"] by auto
      have "w - 1 \<le> length (drop (Suc column) ?xs)"
        using arg_cong [OF span, of length] by simp
      then have fits: "column + w \<le> cols" using len True by (simp add: w_def)
      have "repaired row (column + w) t (sanitize_from cols row (column + w) t)"
        using 1(2) [OF True c whole(1) w_def whole(2) [folded w_def]] fits 1(4-7) by simp
      then have "repaired row column t (sanitize_from cols row (column + w) t)"
        using repaired_span [of row column t, unfolded width, OF _ _ _ span] not_continuation_content [OF whole(1)] len True
        by (simp add: at)
      then show ?thesis using True c whole by (subst sanitize_from.simps) (simp add: Let_def w_def)
    qed
  next
    case False
    then show ?thesis using len 1(8) by (simp add: repaired_def sanitize_from.simps)
  qed
qed

lemma sanitize_repairs:
  assumes "grid_ok (grid t)" and "row < rows_of t" and "columns_of t \<le> u16_max"
  shows "spans_ok False (row_contents row (grid (sanitize_grapheme_spans row t)))"
  using sanitize_from_repairs [OF assms(1,2) refl assms(3), of 0] by (simp add: repaired_def sanitize_grapheme_spans_def)

lemma sanitize_from_same:
  assumes "spans_ok False (drop column (row_contents row (grid t)))" and "length (row_contents row (grid t)) = cols"
    and "cols \<le> u16_max"
  shows "sanitize_from cols row column t = t"
  using assms
proof (induction cols row column t rule: sanitize_from.induct)
  case (1 cols row column t)
  let ?xs = "row_contents row (grid t)"
  show ?case
  proof (cases "column < cols")
    case True
    then obtain c where c: "grid_get row column (grid t) = Some c"
      using row_contents_beyond [of row column "grid t"] 1(5) by fastforce
    have "drop column ?xs = cell_content c # drop (Suc column) ?xs"
      using row_contents_get [OF c] by (simp add: Cons_nth_drop_Suc [symmetric])
    then have head: "spans_ok False (cell_content c # drop (Suc column) ?xs)" using 1(4) by simp
    then have lead: "\<not> is_continuation c" by (auto simp: is_continuation_def Let_def split: cell_content.splits)
    define w where "w = max 1 (cell_columns c)"
    have span: "take (w - 1) (drop (Suc column) ?xs) = map Continuation [1 ..< w]"
      and rest: "spans_ok False (drop (w - 1) (drop (Suc column) ?xs))"
      using head leader_width [OF lead] by (simp_all add: Let_def w_def)
    have "w - 1 \<le> length (drop (Suc column) ?xs)" using arg_cong [OF span, of length] by simp
    then have "sat_add_u16 column w \<le> cols" using 1(5) True by (simp add: sat_add_u16_def w_def)
    moreover have "span_complete row column w (grid t)" using span span_complete_contents by simp
    moreover have "spans_ok False (drop (column + w) ?xs)"
      using rest drop_span [of w column ?xs] by (simp add: w_def)
    ultimately show ?thesis
      using 1(2) [OF True c lead w_def] 1(5,6) True c lead by (subst sanitize_from.simps) (simp add: Let_def w_def)
  qed (simp add: sanitize_from.simps)
qed

lemma sanitize_same:
  assumes "spans_ok False (row_contents row (grid t))" and "grid_ok (grid t)" and "row < rows_of t" and "columns_of t \<le> u16_max"
  shows "sanitize_grapheme_spans row t = t"
  using assms sanitize_from_same [of 0 row t] by (simp add: sanitize_grapheme_spans_def row_contents_length)

section \<open>Deleting characters returns\<close>

lemma delete_loop_returns:
  assumes "spans_ok True (drop column (row_contents row g))" and "length (row_contents row g) \<le> u16_max" and "column \<le> u16_max"
  shows "\<exists>r. delete_range_loop g row right column e = Some r"
  using assms
proof (induction "length (row_contents row g) - column" arbitrary: column e rule: less_induct)
  case less
  show ?case
  proof (cases "column < e \<and> column \<le> right")
    case True
    show ?thesis
    proof (cases "grid_get row column g")
      case None
      then show ?thesis using True by (subst delete_range_loop.simps) simp
    next
      case (Some c)
      let ?xs = "row_contents row g"
      have in_row: "column < length ?xs" and "drop column ?xs = cell_content c # drop (Suc column) ?xs"
        using row_contents_get [OF Some] by (simp_all add: Cons_nth_drop_Suc [symmetric])
      then have head: "spans_ok True (cell_content c # drop (Suc column) ?xs)" using less(2) by simp
      then have lead: "\<not> is_continuation c" by (auto simp: is_continuation_def Let_def split: cell_content.splits)
      let ?next = "sat_add_u16 column (max 1 (cell_columns c))"
      have rest: "spans_ok True (drop (column + max 1 (cell_columns c)) ?xs)"
        using head drop_span [OF content_width_pos, of "cell_content c" column ?xs] leader_width [OF lead] by (simp add: Let_def)
      have "spans_ok True (drop ?next ?xs)"
        using rest less(3) by (cases "column + max 1 (cell_columns c) \<le> u16_max") (simp_all add: sat_add_u16_def min_def)
      moreover have "column < ?next" "?next \<le> u16_max" using in_row less(3) by (simp_all add: sat_add_u16_def min_def max_def)
      ultimately have "\<exists>r. delete_range_loop g row right ?next (max e (min ?next (sat_add_u16 right 1))) = Some r"
        using less(1) [of ?next] less(3) in_row by simp
      then show ?thesis
        using True Some lead by (subst delete_range_loop.simps) (auto simp: is_continuation_def Let_def split: cell_content.splits)
    qed
  next
    case False
    then show ?thesis by (subst delete_range_loop.simps) auto
  qed
qed

definition content_delta :: "cell_content \<Rightarrow> nat" where
  "content_delta c = (case c of Continuation d \<Rightarrow> d | _ \<Rightarrow> 0)"

lemma leader_spans:
  assumes "spans_ok True cs" and "i < length cs"
  shows "content_delta (cs ! i) \<le> i \<and> spans_ok True (drop (i - content_delta (cs ! i)) cs)"
  using assms
proof (induction True cs arbitrary: i rule: spans_ok.induct)
  case (2 c cs)
  let ?w = "content_width c"
  have lead: "content_delta c = 0" and span: "take (?w - 1) cs = map Continuation [1 ..< min ?w (length cs + 1)]"
    and rest: "spans_ok True (drop (?w - 1) cs)"
    using 2(2) by (auto simp: Let_def content_delta_def split: cell_content.splits)
  consider "i = 0" | "0 < i" "i < ?w" | "?w \<le> i" by linarith
  then show ?case
  proof cases
    case 1
    then show ?thesis using 2(2) lead by simp
  next
    case 2
    then have "cs ! (i - 1) = take (?w - 1) cs ! (i - 1)" by simp
    also have "\<dots> = Continuation i" unfolding span using 2 \<open>i < length (c # cs)\<close> by simp
    finally show ?thesis using 2 \<open>spans_ok True (c # cs)\<close> by (simp add: content_delta_def nth_Cons')
  next
    case 3
    let ?j = "i - ?w"
    have pos: "1 \<le> ?w" by (rule content_width_pos)
    then have at: "drop (?w - 1) cs ! ?j = (c # cs) ! i" and len: "?j < length (drop (?w - 1) cs)"
      using 3 2(3) by (auto simp: nth_Cons')
    from 2(1) [OF refl rest len, unfolded at] have "content_delta ((c # cs) ! i) \<le> ?j"
      and "spans_ok True (drop (?j - content_delta ((c # cs) ! i)) (drop (?w - 1) cs))" by blast+
    moreover have "drop (i - content_delta ((c # cs) ! i)) (c # cs) = drop (?j - content_delta ((c # cs) ! i)) (drop (?w - 1) cs)"
      using calculation(1) 3 pos by (auto simp: drop_Cons' intro!: arg_cong [of _ _ "\<lambda>n. drop n cs"])
    ultimately show ?thesis by simp
  qed
qed simp

lemma leader_column_delta: "grid_get row column g = Some c \<Longrightarrow> leader_column column (Some c) = column - content_delta (row_contents row g ! column)"
  by (auto simp: leader_column_def content_delta_def dest: row_contents_get split: cell_content.splits)

lemma delete_range_returns:
  assumes "spans_ok True (row_contents (cursor_row t) (grid t))" and "term_ok t"
  shows "grapheme_aligned_delete_range n right t \<noteq> None"
proof -
  let ?xs = "row_contents (cursor_row t) (grid t)"
  define start where "start = leader_column (cursor_column t) (grid_get (cursor_row t) (cursor_column t) (grid t))"
  have "length ?xs \<le> u16_max"
    using term_okD(1,11) [OF assms(2)] row_contents_length [of "grid t" "cursor_row t"]
    by (cases "cursor_row t < rows_of t") (auto simp: row_contents_def grid_ok_def nth_opt_def)
  moreover have "spans_ok True (drop start ?xs)"
  proof (cases "grid_get (cursor_row t) (cursor_column t) (grid t)")
    case None
    then show ?thesis using row_contents_beyond [OF None] by (simp add: start_def leader_column_def)
  next
    case (Some c)
    then show ?thesis
      using leader_spans [OF assms(1), of "cursor_column t"] row_contents_get [OF Some] leader_column_delta [OF Some]
      by (simp add: start_def)
  qed
  moreover have "start \<le> u16_max"
    using leader_column_le term_okD(3,11) [OF assms(2)] le_trans unfolding start_def by (meson diff_le_self)
  ultimately have "\<exists>r. delete_range_loop (grid t) (cursor_row t) right start e = Some r" for e
    by (blast intro: delete_loop_returns)
  then show ?thesis by (simp add: grapheme_aligned_delete_range_def Let_def start_def)
qed

lemma delete_characters_returns:
  assumes "spans_ok True (row_contents (cursor_row t) (grid t))" and "term_ok t"
  shows "\<exists>u. delete_characters n t = Some u"
proof -
  let ?t = "t\<lparr>pending_wrap := False\<rparr>"
  have "grapheme_aligned_delete_range n (character_right_boundary ?t) ?t \<noteq> None"
    by (rule delete_range_returns) (use assms in simp_all)
  then show ?thesis by (auto simp: delete_characters_def Let_def split: option.split)
qed

section \<open>Deleting characters on a stray continuation cell\<close>

text \<open>
  A stray continuation cell of distance 1, with a cell of width one on its left: the loop goes back and forth
  between the two columns.
\<close>

definition stray :: "terminal_grid \<Rightarrow> u16 \<Rightarrow> u16 \<Rightarrow> bool" where
  "stray g row column \<longleftrightarrow> 0 < column \<and> column \<le> u16_max \<and>
     (case (grid_get row column g, grid_get row (column - 1) g) of
        (Some c, Some b) \<Rightarrow> cell_content c = Continuation 1 \<and> \<not> is_continuation b \<and> cell_columns b \<le> 1
      | _ \<Rightarrow> False)"

lemma stray_cells:
  assumes "stray g row column"
  obtains c b where "grid_get row column g = Some c" "grid_get row (column - 1) g = Some b" "cell_content c = Continuation 1"
    "\<not> is_continuation b" "cell_columns b \<le> 1" "0 < column" "column \<le> u16_max"
  using assms by (auto simp: stray_def split: option.splits)

lemma delete_loop_diverges:
  assumes "delete_range_loop g row right k e = Some r" and "stray g row column" and "column \<le> right" and "column < e"
    and "k = column \<or> k = column - 1"
  shows False
proof -
  have "stray g row column \<and> column \<le> right \<and> column < e \<and> (k = column \<or> k = column - 1) \<longrightarrow> False"
  proof (rule delete_range_loop.raw_induct [OF _ assms(1)], rule impI)
    fix loop and g :: terminal_grid and row right k e r :: nat
    assume again: "\<And>g row right k e r. loop g row right k e = Some r \<Longrightarrow>
        stray g row column \<and> column \<le> right \<and> column < e \<and> (k = column \<or> k = column - 1) \<longrightarrow> False"
      and body: "(if k < e \<and> k \<le> right then
        (case grid_get row k g of None \<Rightarrow> Some e
         | Some c \<Rightarrow> (case cell_content c of Continuation leader_delta \<Rightarrow> loop g row right (k - leader_delta) e
              | _ \<Rightarrow> (let next = sat_add_u16 k (max 1 (cell_columns c))
                   in loop g row right next (max e (min next (sat_add_u16 right 1))))))
      else Some e) = Some r"
      and st: "stray g row column \<and> column \<le> right \<and> column < e \<and> (k = column \<or> k = column - 1)"
    from st obtain c b where cells: "grid_get row column g = Some c" "grid_get row (column - 1) g = Some b"
        "cell_content c = Continuation 1" "\<not> is_continuation b" "cell_columns b \<le> 1" "0 < column" "column \<le> u16_max"
      using stray_cells by blast
    have forth: "sat_add_u16 (column - 1) (max 1 (cell_columns b)) = column"
      using cells by (simp add: sat_add_u16_def max_def)
    have inside: "k < e" "k \<le> right" using st by auto
    from st consider "k = column" | "k = column - 1" by blast
    then show False
    proof cases
      case 1
      then show ?thesis using body st cells again [of g row right "column - 1" e r] by simp
    next
      case 2
      then have "loop g row right column (max e (min column (sat_add_u16 right 1))) = Some r"
        using body inside cells(2,4) forth by (cases "cell_content b") (simp_all add: is_continuation_def Let_def)
      then show ?thesis using again st by fastforce
    qed
  qed
  then show ?thesis using assms by blast
qed

lemma delete_characters_diverges:
  assumes "stray (grid t) (cursor_row t) (cursor_column t)" and "\<not> mode_left_right_margin (modes t)"
    and "cursor_column t \<le> columns_of t - 1" and "0 < n" and "columns_of t \<le> u16_max"
  shows "delete_characters n t = None"
proof -
  let ?t = "t\<lparr>pending_wrap := False\<rparr>"
  have right: "character_right_boundary ?t = columns_of t - 1" "cursor_within_horizontal_margins ?t"
    using assms(2) by (simp_all add: character_right_boundary_def cursor_within_horizontal_margins_def)
  obtain c b where cells: "grid_get (cursor_row t) (cursor_column t) (grid t) = Some c" "cell_content c = Continuation 1"
      "0 < cursor_column t"
    using stray_cells [OF assms(1)] by blast
  let ?e = "max (min (sat_add_u16 (cursor_column t) n) (sat_add_u16 (columns_of t - 1) 1)) (cursor_column t - 1)"
  have "cursor_column t < ?e"
    using assms(3-5) cells(3) by (auto simp: sat_add_u16_def max_def)
  then have "delete_range_loop (grid t) (cursor_row t) (columns_of t - 1) (cursor_column t - 1) ?e = None"
    using delete_loop_diverges [OF _ assms(1,3)] by (cases "delete_range_loop (grid t) (cursor_row t) (columns_of t - 1) (cursor_column t - 1) ?e") auto
  then show ?thesis
    using right cells by (simp add: delete_characters_def grapheme_aligned_delete_range_def leader_column_def Let_def)
qed

end
