(* ===== verification/Term_Moves.thy ===== *)
theory Term_Moves
  imports Term_Spans
begin

text \<open>
  What a scroll inside left and right margins does to the cells, as one equation for every cell, and that the
  attachments of inline images are moved by the same map.
\<close>

section \<open>Reading a cell\<close>

lemma grid_get_None: "grid_ok g \<Longrightarrow> grid_get row column g = None \<longleftrightarrow> \<not> (row < size_rows (grid_size g) \<and> column < size_columns (grid_size g))"
  by (auto simp: grid_get_def grid_ok_def bind_eq_None_conv nth_opt_def)

lemma grid_get_set:
  "grid_get r c (snd (grid_set row column x g)) = (if r = row \<and> c = column \<and> grid_get r c g \<noteq> None then Some x else grid_get r c g)"
  by (auto simp: grid_set_def grid_get_def upd_row_def nth_opt_def nth_list_update split: option.splits)

lemma grid_get_seqno [simp]: "grid_get r c (set_row_last_change_seqno row s g) = grid_get r c g"
  by (auto simp: set_row_last_change_seqno_def grid_get_def upd_row_def nth_opt_def nth_list_update)

lemma grid_get_touch [simp]: "grid_get r c (grid (touch_rows a b t)) = grid_get r c (grid t)"
proof -
  have "grid_get r c (fold (\<lambda>row. set_row_last_change_seqno row s) xs g) = grid_get r c g" for xs s g
    by (induction xs arbitrary: g) simp_all
  then show ?thesis by (simp add: touch_rows_def)
qed

lemma record_damage_grid [simp]: "grid (record_damage d t) = grid t" "grid (damage_all_if b sz t) = grid t"
  by (simp_all add: record_damage_def damage_all_if_def)

section \<open>Copying cells\<close>

definition move_cell :: "bool \<Rightarrow> cell \<Rightarrow> cell option \<Rightarrow> cell option" where
  "move_cell inside x old = (if inside \<and> old \<noteq> None then Some x else old)"

lemma move_cell_None [simp]: "move_cell inside x old = None \<longleftrightarrow> old = None"
  by (auto simp: move_cell_def)


lemma grid_get_copy:
  assumes "source \<noteq> target"
  shows "grid_get r c (fold (\<lambda>column g. snd (grid_set target column (cell_or_default source column g) g)) cs g) =
    move_cell (r = target \<and> c \<in> set cs) (cell_or_default source c g) (grid_get r c g)"
  using assms by (induction cs arbitrary: g) (auto simp: grid_get_set cell_or_default_def move_cell_def)

lemma grid_get_copy_row:
  "source \<noteq> target \<Longrightarrow> grid_get r c (copy_row_cells source target left right g) =
    move_cell (r = target \<and> left \<le> c \<and> c \<le> right) (cell_or_default source c g) (grid_get r c g)"
  unfolding copy_row_cells_def by (subst grid_get_copy) (auto simp: move_cell_def)

lemma grid_get_blank_row:
  "grid_get r c (blank_row_cells blank left right row g) = move_cell (r = row \<and> left \<le> c \<and> c \<le> right) blank (grid_get r c g)"
proof -
  have "grid_get r c (fold (\<lambda>column g. snd (grid_set row column blank g)) cs g) = move_cell (r = row \<and> c \<in> set cs) blank (grid_get r c g)" for cs
    by (induction cs arbitrary: g) (auto simp: grid_get_set move_cell_def)
  then show ?thesis by (auto simp: blank_row_cells_def move_cell_def)
qed

lemma grid_get_blank_rows:
  "grid_get r c (fold (blank_row_cells blank left right) rows g) = move_cell (r \<in> set rows \<and> left \<le> c \<and> c \<le> right) blank (grid_get r c g)"
  by (induction rows arbitrary: g) (auto simp: grid_get_blank_row move_cell_def)

lemma grid_get_copy_up:
  assumes "0 < n"
  shows "grid_get r c (fold (\<lambda>row. copy_row_cells (row + n) row left right) [a ..< b] g) =
    move_cell (a \<le> r \<and> r < b \<and> left \<le> c \<and> c \<le> right) (cell_or_default (r + n) c g) (grid_get r c g)"
proof (induction b arbitrary: r c)
  case (Suc b)
  then show ?case using assms
    by (cases "a \<le> b") (auto simp: grid_get_copy_row cell_or_default_def move_cell_def less_Suc_eq)
qed (auto simp: move_cell_def)

lemma grid_get_copy_down:
  assumes "0 < n"
  shows "grid_get r c (fold (\<lambda>row. copy_row_cells row (row + n) left right) (rev [a ..< b]) g) =
    move_cell (a + n \<le> r \<and> r < b + n \<and> left \<le> c \<and> c \<le> right) (cell_or_default (r - n) c g) (grid_get r c g)"
proof (induction b arbitrary: g)
  case (Suc b)
  then show ?case using assms
    by (cases "a \<le> b") (auto simp: grid_get_copy_row cell_or_default_def move_cell_def less_Suc_eq)
qed (auto simp: move_cell_def)

section \<open>Scrolling inside margins\<close>

text \<open>The reference: every cell of the region shows the cell \<open>n\<close> rows below or above it, or a blank.\<close>

definition scrolled_up_cell :: "u16 \<Rightarrow> u16 \<Rightarrow> u16 \<Rightarrow> u16 \<Rightarrow> u16 \<Rightarrow> cell \<Rightarrow> terminal_grid \<Rightarrow> u16 \<Rightarrow> u16 \<Rightarrow> cell option" where
  "scrolled_up_cell upper lower n left right blank g row column =
     (if upper \<le> row \<and> row \<le> lower \<and> left \<le> column \<and> column \<le> right
      then if row + n \<le> lower then grid_get (row + n) column g else Some blank
      else grid_get row column g)"

definition scrolled_down_cell :: "u16 \<Rightarrow> u16 \<Rightarrow> u16 \<Rightarrow> u16 \<Rightarrow> u16 \<Rightarrow> cell \<Rightarrow> terminal_grid \<Rightarrow> u16 \<Rightarrow> u16 \<Rightarrow> cell option" where
  "scrolled_down_cell upper lower n left right blank g row column =
     (if upper \<le> row \<and> row \<le> lower \<and> left \<le> column \<and> column \<le> right
      then if upper + n \<le> row then grid_get (row - n) column g else Some blank
      else grid_get row column g)"

lemma cell_or_default_get: "grid_get row column g \<noteq> None \<Longrightarrow> Some (cell_or_default row column g) = grid_get row column g"
  by (auto simp: cell_or_default_def)

lemma bounded_up_cells:
  assumes "0 < n"
  shows "grid_get r c (grid (scroll_up_bounded_cells upper lower n left right t)) =
    move_cell ((if n = lower - upper + 1 then upper else lower - n + 1) \<le> r \<and> r < lower + 1 \<and> left \<le> c \<and> c \<le> right) (blank_cell t)
      (move_cell (n < lower - upper + 1 \<and> upper \<le> r \<and> r < lower - n + 1 \<and> left \<le> c \<and> c \<le> right)
        (cell_or_default (r + n) c (grid t)) (grid_get r c (grid t)))"
  unfolding scroll_up_bounded_cells_def Let_def
  using grid_get_copy_up [OF assms] grid_get_blank_rows [of r c "blank_cell t" left right]
  by (cases "n < lower - upper + 1") (simp_all add: move_cell_def del: upt_Suc)

lemma bounded_down_cells:
  assumes "0 < n"
  shows "grid_get r c (grid (scroll_down_bounded_cells upper lower n left right t)) =
    move_cell (upper \<le> r \<and> r < upper + n \<and> left \<le> c \<and> c \<le> right) (blank_cell t)
      (move_cell (n < lower - upper + 1 \<and> upper + n \<le> r \<and> r < lower - n + 1 + n \<and> left \<le> c \<and> c \<le> right)
        (cell_or_default (r - n) c (grid t)) (grid_get r c (grid t)))"
  unfolding scroll_down_bounded_cells_def Let_def
  using grid_get_copy_down [OF assms] grid_get_blank_rows [of r c "blank_cell t" left right]
  by (cases "n < lower - upper + 1") (simp_all add: move_cell_def del: upt_Suc)

lemma cell_there:
  assumes "grid_ok g" and "row < size_rows (grid_size g)" and "column < size_columns (grid_size g)"
  obtains c where "grid_get row column g = Some c"
  using assms grid_get_None [OF assms(1), of row column] by (cases "grid_get row column g") auto

lemma scroll_up_bounded_get:
  assumes "grid_ok (grid t)" and "lower < rows_of t" and "right < columns_of t" and "0 < n" and "n \<le> lower - upper + 1" and "upper \<le> lower"
  shows "grid_get row column (grid (scroll_up_bounded_cells upper lower n left right t)) =
    scrolled_up_cell upper lower n left right (blank_cell t) (grid t) row column"
proof (cases "upper \<le> row \<and> row \<le> lower \<and> left \<le> column \<and> column \<le> right")
  case True
  obtain c where "grid_get row column (grid t) = Some c" using assms(1-3) True by (auto intro: cell_there [of "grid t" row column])
  moreover obtain d where "grid_get (row + n) column (grid t) = Some d" if "row + n \<le> lower"
    using assms(1-3) True cell_there [of "grid t" "row + n" column] by fastforce
  ultimately show ?thesis using True assms(5,6)
    unfolding bounded_up_cells [OF assms(4)] scrolled_up_cell_def by (auto simp: move_cell_def cell_or_default_def)
next
  case False
  then show ?thesis using assms(5,6)
    unfolding bounded_up_cells [OF assms(4)] scrolled_up_cell_def by (auto simp: move_cell_def)
qed

lemma scroll_down_bounded_get:
  assumes "grid_ok (grid t)" and "lower < rows_of t" and "right < columns_of t" and "0 < n" and "n \<le> lower - upper + 1" and "upper \<le> lower"
  shows "grid_get row column (grid (scroll_down_bounded_cells upper lower n left right t)) =
    scrolled_down_cell upper lower n left right (blank_cell t) (grid t) row column"
proof (cases "upper \<le> row \<and> row \<le> lower \<and> left \<le> column \<and> column \<le> right")
  case True
  obtain c where "grid_get row column (grid t) = Some c" using assms(1-3) True by (auto intro: cell_there [of "grid t" row column])
  moreover obtain d where "grid_get (row - n) column (grid t) = Some d" if "upper + n \<le> row"
    using assms(1-3) True cell_there [of "grid t" "row - n" column] by fastforce
  ultimately show ?thesis using True assms(5,6)
    unfolding bounded_down_cells [OF assms(4)] scrolled_down_cell_def by (auto simp: move_cell_def cell_or_default_def)
next
  case False
  then show ?thesis using assms(5,6)
    unfolding bounded_down_cells [OF assms(4)] scrolled_down_cell_def by (auto simp: move_cell_def)
qed

lemma upd_flag_fields:
  assumes "upd_images_flag f t = (b, u)"
  shows "grid u = grid t" "blank_cell u = blank_cell t" "modes u = modes t"
  using assms by (auto simp: upd_images_flag_def blank_cell_def split: prod.splits)

lemma bounded_columns_bound:
  assumes "bounded_horizontal_scroll_columns t = Some (left, right)"
  shows "left < right" "right < columns_of t" "mode_left_right_margin (modes t)"
  using assms by (auto simp: bounded_horizontal_scroll_columns_def Let_def split: if_splits)

lemma scroll_up_margins_get:
  assumes "term_ok t" and columns: "bounded_horizontal_scroll_columns t = Some (left, right)"
    and region: "upper \<le> lower" "lower < rows_of t" "0 < n"
  shows "grid_get row column (grid (scroll_up_with_horizontal_margins upper lower n t)) =
    scrolled_up_cell upper lower (min n (lower - upper + 1)) left right (blank_cell t) (grid t) row column"
proof -
  let ?n = "min n (lower - upper + 1)" and ?base = "length (scrollback t)"
  obtain b1 t1 where t1: "upd_images_flag (retire_malformed_graphics_in_bounded_scroll_region ?base upper lower left right) t = (b1, t1)"
    by fastforce
  obtain b2 t2 where t2: "upd_images_flag (apply_cell_transform (ScrollUp (?base + upper) (?base + lower) ?n left right)) t1 = (b2, t2)"
    by fastforce
  note same = upd_flag_fields [OF t1] upd_flag_fields [OF t2]
  have "grid_get row column (grid (scroll_up_with_horizontal_margins upper lower n t)) =
      grid_get row column (grid (scroll_up_bounded_cells upper lower ?n left right t2))"
    using region columns bounded_columns_bound(2) [OF columns] t1 t2
    by (simp add: scroll_up_with_horizontal_margins_def Let_def)
  also have "\<dots> = scrolled_up_cell upper lower ?n left right (blank_cell t) (grid t) row column"
    using scroll_up_bounded_get [of t2 lower right ?n upper row column left] region bounded_columns_bound(2) [OF columns]
      term_okD(1) [OF assms(1)] by (simp add: same)
  finally show ?thesis .
qed

lemma scroll_down_margins_get:
  assumes "term_ok t" and columns: "bounded_horizontal_scroll_columns t = Some (left, right)"
    and region: "upper \<le> lower" "lower < rows_of t" "0 < n"
  shows "grid_get row column (grid (scroll_down_with_horizontal_margins upper lower n t)) =
    scrolled_down_cell upper lower (min n (lower - upper + 1)) left right (blank_cell t) (grid t) row column"
proof -
  let ?n = "min n (lower - upper + 1)" and ?base = "length (scrollback t)"
  obtain b1 t1 where t1: "upd_images_flag (retire_malformed_graphics_in_bounded_scroll_region ?base upper lower left right) t = (b1, t1)"
    by fastforce
  obtain b2 t2 where t2: "upd_images_flag (apply_cell_transform (ScrollDown (?base + upper) (?base + lower) ?n left right)) t1 = (b2, t2)"
    by fastforce
  note same = upd_flag_fields [OF t1] upd_flag_fields [OF t2]
  have "grid_get row column (grid (scroll_down_with_horizontal_margins upper lower n t)) =
      grid_get row column (grid (scroll_down_bounded_cells upper lower ?n left right t2))"
    using region columns bounded_columns_bound(2) [OF columns] t1 t2
    by (simp add: scroll_down_with_horizontal_margins_def Let_def)
  also have "\<dots> = scrolled_down_cell upper lower ?n left right (blank_cell t) (grid t) row column"
    using scroll_down_bounded_get [of t2 lower right ?n upper row column left] region bounded_columns_bound(2) [OF columns]
      term_okD(1) [OF assms(1)] by (simp add: same)
  finally show ?thesis .
qed

section \<open>The transform of attachments\<close>

lemma transform_up_exact:
  assumes "upper \<le> lower" and "n \<le> lower - upper + 1"
    and "apply_coordinate (ScrollUp (base + upper) (base + lower) n left right) (base + row) column = Some (row', column')"
  shows "base \<le> row' \<and> scrolled_up_cell upper lower n left right blank g (row' - base) column' = grid_get row column g"
  using assms
  by (auto simp: apply_coordinate_def scrolled_up_cell_def checked_sub_def split: if_splits)

lemma transform_down_exact:
  assumes "upper \<le> lower" and "n \<le> lower - upper + 1"
    and "apply_coordinate (ScrollDown (base + upper) (base + lower) n left right) (base + row) column = Some (row', column')"
  shows "base \<le> row' \<and> scrolled_down_cell upper lower n left right blank g (row' - base) column' = grid_get row column g"
  using assms
  by (auto simp: apply_coordinate_def scrolled_down_cell_def checked_sub_def split: if_splits)

lemma transform_drops:
  assumes "upper \<le> lower" and "n \<le> lower - upper + 1" and "left \<le> column" "column \<le> right"
  shows "apply_coordinate (ScrollUp (base + upper) (base + lower) n left right) (base + row) column = None \<longleftrightarrow>
      upper \<le> row \<and> row < upper + n"
    "apply_coordinate (ScrollDown (base + upper) (base + lower) n left right) (base + row) column = None \<longleftrightarrow>
      row \<le> lower \<and> lower < row + n"
  using assms by (auto simp: apply_coordinate_def checked_sub_def)

text \<open>
  Where an attachment goes when the cells of a region move up \<open>n\<close> rows: one in the first \<open>n\<close> rows of the region is lost, one further
  down moves up with its cell, and one outside stays.
\<close>

definition follow_up :: "nat \<Rightarrow> nat \<Rightarrow> nat \<Rightarrow> nat \<Rightarrow> nat \<Rightarrow> cell_attachment \<Rightarrow> cell_attachment option" where
  "follow_up upper lower n left right a =
     (if upper \<le> at_row a \<and> at_row a \<le> lower \<and> left \<le> at_column a \<and> at_column a \<le> right
      then if at_row a < upper + n then None else Some (a\<lparr>at_row := at_row a - n\<rparr>)
      else Some a)"

lemma follow_up_attachment: "apply_attachment (ScrollUp upper lower n left right) = follow_up upper lower n left right"
  by (rule ext) (auto simp: apply_attachment_def apply_coordinate_def follow_up_def checked_sub_def)

lemma retain_all_images:
  assumes "\<forall>im \<in> set (inline_images g). keep im" and "length (inline_image_parent_ids g) = length (inline_images g)"
  shows "inline_images (retain_inline_images keep g) = inline_images g"
    "inline_image_parent_ids (retain_inline_images keep g) = inline_image_parent_ids g"
    "inline_image_attachments (retain_inline_images keep g) =
       filter (\<lambda>a. at_parent a \<in> set (inline_image_parent_ids g)) (inline_image_attachments g)"
proof -
  have "filter (\<lambda>(im, pid). keep im) (zip (inline_images g) (inline_image_parent_ids g)) = zip (inline_images g) (inline_image_parent_ids g)"
    using assms(1) by (auto simp: filter_id_conv dest: set_zip_leftD)
  then show "inline_images (retain_inline_images keep g) = inline_images g"
    "inline_image_parent_ids (retain_inline_images keep g) = inline_image_parent_ids g"
    "inline_image_attachments (retain_inline_images keep g) =
       filter (\<lambda>a. at_parent a \<in> set (inline_image_parent_ids g)) (inline_image_attachments g)"
    using assms(2) by (simp_all add: retain_inline_images_def retain_kitty_character_edited_placements_def
        ensure_inline_image_parent_ids_def Let_def del: set_map)
qed

lemma transform_up_images:
  fixes upper lower n left right :: nat
  assumes "length (inline_image_parent_ids g) = length (inline_images g)"
  defines "g' \<equiv> snd (apply_cell_transform (ScrollUp upper lower n left right) g)"
  shows "inline_images g' = inline_images g" "inline_image_parent_ids g' = inline_image_parent_ids g"
    "inline_image_attachments g' = List.map_filter (follow_up upper lower n left right) (inline_image_attachments g)"
  using assms(1) by (simp_all add: g'_def apply_cell_transform_def retain_kitty_character_edited_placements_def
      ensure_inline_image_parent_ids_def Let_def follow_up_attachment)

lemma scroll_up_margins_images:
  fixes t :: terminal and upper lower n :: nat
  assumes columns: "bounded_horizontal_scroll_columns t = Some (left, right)"
    and region: "upper \<le> lower" "lower < rows_of t" "0 < n"
    and whole: "\<forall>im \<in> set (inline_images (images t)). cell_attachment_dimensions im \<noteq> None"
    and ids: "length (inline_image_parent_ids (images t)) = length (inline_images (images t))"
  defines "u \<equiv> scroll_up_with_horizontal_margins upper lower n t" and "base \<equiv> length (scrollback t)"
  shows "inline_images (images u) = inline_images (images t)" "inline_image_parent_ids (images u) = inline_image_parent_ids (images t)"
    "inline_image_attachments (images u) = List.map_filter (follow_up (base + upper) (base + lower) (min n (lower - upper + 1)) left right)
       (filter (\<lambda>a. at_parent a \<in> set (inline_image_parent_ids (images t))) (inline_image_attachments (images t)))"
proof -
  let ?n = "min n (lower - upper + 1)"
  let ?tr = "ScrollUp (base + upper) (base + lower) ?n left right"
  let ?g = "snd (retire_malformed_graphics_in_bounded_scroll_region base upper lower left right (images t))"
  have same: "images (record_damage d v) = images v" "images (damage_all_if b sz v) = images v" "images (touch_rows a k v) = images v"
    "images (scroll_up_bounded_cells upper lower m left right v) = images v" for d v b sz a k m
    by (simp_all add: record_damage_def damage_all_if_def touch_rows_def scroll_up_bounded_cells_def Let_def)
  have "images u = snd (apply_cell_transform ?tr ?g)"
    using columns region bounded_columns_bound(2) [OF columns]
    by (simp add: u_def base_def scroll_up_with_horizontal_margins_def upd_images_flag_def Let_def same split: prod.split)
  moreover have "?g = retain_inline_images (\<lambda>im. cell_attachment_dimensions im \<noteq> None \<or>
      \<not> inline_image_intersects_region im (base + upper) (base + lower + 1) left (sat_add_u16 right 1)) (images t)" (is "_ = retain_inline_images ?keep _")
    using retain_all_images(1) [OF _ ids, of ?keep] whole
    by (simp add: retire_malformed_graphics_in_bounded_scroll_region_def Let_def)
  moreover have "\<forall>im \<in> set (inline_images (images t)). ?keep im" using whole by simp
  note kept = retain_all_images [OF this ids]
  ultimately show "inline_images (images u) = inline_images (images t)" "inline_image_parent_ids (images u) = inline_image_parent_ids (images t)"
    "inline_image_attachments (images u) = List.map_filter (follow_up (base + upper) (base + lower) ?n left right)
       (filter (\<lambda>a. at_parent a \<in> set (inline_image_parent_ids (images t))) (inline_image_attachments (images t)))"
    using ids by (simp_all add: transform_up_images kept)
qed

lemma follow_up_cell:
  assumes "upper \<le> lower" and "n \<le> lower - upper + 1" and "base \<le> at_row a"
    and "follow_up (base + upper) (base + lower) n left right a = Some b"
  shows "base \<le> at_row b \<and> scrolled_up_cell upper lower n left right blank g (at_row b - base) (at_column b) =
    grid_get (at_row a - base) (at_column a) g"
  using assms by (auto simp: follow_up_def scrolled_up_cell_def split: if_splits)

section \<open>A scroll that cuts a wide character\<close>

lemma margin_mode_off:
  "grid (set_left_right_margin_mode False t) = grid t" "\<not> mode_left_right_margin (modes (set_left_right_margin_mode False t))"
  by (simp_all add: set_left_right_margin_mode_def)

lemma range_pending [simp]: "active_scroll_range (t\<lparr>pending_wrap := b\<rparr>) = active_scroll_range t"
  by (simp add: active_scroll_range_def Let_def)

lemma columns_pending [simp]: "bounded_horizontal_scroll_columns (t\<lparr>pending_wrap := b\<rparr>) = bounded_horizontal_scroll_columns t"
  by (simp add: bounded_horizontal_scroll_columns_def Let_def)

lemma columns_images [simp]: "bounded_horizontal_scroll_columns (t\<lparr>images := g\<rparr>) = bounded_horizontal_scroll_columns t"
  by (simp add: bounded_horizontal_scroll_columns_def Let_def)

lemma scroll_up_margins:
  assumes "active_scroll_range t = Some (upper, lower)"
  shows "scroll_up n t = scroll_up_with_horizontal_margins upper lower n (t\<lparr>pending_wrap := False\<rparr>)"
  using assms by (simp add: scroll_up_def)

lemma scroll_up_cut:
  assumes "term_ok t" and columns: "bounded_horizontal_scroll_columns t = Some (left, right)"
    and region: "active_scroll_range t = Some (upper, lower)" "upper \<le> row" "row \<le> lower" "lower < row + n"
    and cut: "grid_get row (right + 1) (grid t) = Some c" "cell_content c = Continuation 1"
  shows "stray (grid (scroll_up n t)) row (right + 1)"
proof -
  let ?t = "t\<lparr>pending_wrap := False\<rparr>"
  have size: "right + 1 < columns_of t" "lower < rows_of t" "columns_of t \<le> u16_max"
    using grid_get_None [OF term_okD(1) [OF assms(1)], of row "right + 1"] cut(1) region(1) term_okD(11) [OF assms(1)]
    by (auto simp: active_scroll_range_def Let_def split: if_splits)
  have ok: "term_ok ?t" and columns': "bounded_horizontal_scroll_columns ?t = Some (left, right)"
    using assms(1) columns by simp_all
  have get: "grid_get r k (grid (scroll_up n t)) =
      scrolled_up_cell upper lower (min n (lower - upper + 1)) left right (blank_cell t) (grid t) r k" for r k
    using scroll_up_margins_get [OF ok columns', of upper lower n r k] scroll_up_margins [of t upper lower n] columns region size
    by (simp add: blank_cell_def)
  have "grid_get row (right + 1) (grid (scroll_up n t)) = Some c"
    using cut by (simp add: get scrolled_up_cell_def)
  moreover have "grid_get row right (grid (scroll_up n t)) = Some (blank_cell t)"
    using region bounded_columns_bound(1) [OF columns] by (auto simp: get scrolled_up_cell_def)
  ultimately show ?thesis
    using cut(2) size by (simp add: stray_def blank_cell_def)
qed

lemma scroll_up_cut_delete:
  assumes "term_ok t" and columns: "bounded_horizontal_scroll_columns t = Some (left, right)"
    and region: "active_scroll_range t = Some (upper, lower)" "upper \<le> row" "row \<le> lower" "lower < row + n"
    and cut: "grid_get row (right + 1) (grid t) = Some c" "cell_content c = Continuation 1" and "0 < m"
  shows "delete_characters m ((set_left_right_margin_mode False (scroll_up n t))\<lparr>cursor_row := row, cursor_column := right + 1\<rparr>) = None"
proof -
  have ok: "term_ok (scroll_up n t)" using assms(1) by simp
  have stray: "stray (grid (scroll_up n t)) row (right + 1)" by (rule scroll_up_cut [OF assms(1-8)])
  then obtain d where "grid_get row (right + 1) (grid (scroll_up n t)) = Some d" by (rule stray_cells)
  then have "right + 1 < columns_of (scroll_up n t)"
    using grid_get_None [OF term_okD(1) [OF ok], of row "right + 1"] by simp
  then show ?thesis
    using stray assms(9) term_okD(11) [OF ok] by (intro delete_characters_diverges) (simp_all add: margin_mode_off)
qed

end
