(* ===== verification/Term_History.thy ===== *)
theory Term_History
  imports Term_Moves
begin

text \<open>
  The lines of the main screen, history first, as one document whose lines are numbered from
  \<open>main_stable_row_offset\<close>: a full scroll appends blank lines, and what it drops at the front it adds to
  the offset, so that a line keeps its number.
\<close>

definition document :: "terminal \<Rightarrow> scrollback_line list" where
  "document t = scrollback t @ map from_grid_row (grid_rows (grid t))"

definition stable_line :: "terminal \<Rightarrow> int \<Rightarrow> scrollback_line option" where
  "stable_line t i = (if i < main_stable_row_offset t then None else nth_opt (document t) (nat (i - main_stable_row_offset t)))"

lemma rebase_offset [simp]: "main_stable_row_offset (rebase_inline_images_after_history_prune n t) = main_stable_row_offset t"
  by (simp add: rebase_inline_images_after_history_prune_def upd_images_def Let_def)

lemma prune_offset [simp]:
  "main_stable_row_offset (prune_scrollback_rows n t) = main_stable_row_offset t + int (min n (length (scrollback t)))"
  by (auto simp: prune_scrollback_rows_def Let_def split: prod.splits dest!: evict_front_length)

lemma prune_document:
  "document (prune_scrollback_rows n t) = drop (min n (length (scrollback t))) (document t)"
  by (simp add: document_def)

lemma trim_document:
  fixes t :: terminal
  defines "k \<equiv> length (scrollback t) - scrollback_limit t"
  shows "document (trim_scrollback_to_limit t) = drop k (document t)"
    "main_stable_row_offset (trim_scrollback_to_limit t) = main_stable_row_offset t + int k"
  by (simp_all add: trim_scrollback_to_limit_def k_def prune_document min_def)

lemma stable_line_shift:
  assumes "document u = drop k (document t @ ext)" and "main_stable_row_offset u = main_stable_row_offset t + int k"
    and "main_stable_row_offset u \<le> i" and "i < main_stable_row_offset t + int (length (document t))"
  shows "stable_line u i = stable_line t i"
proof -
  define m where "m = nat (i - main_stable_row_offset u)"
  have "nat (i - main_stable_row_offset t) = k + m" "k + m < length (document t)"
    using assms(2-4) by (simp_all add: m_def)
  moreover have "\<not> i < main_stable_row_offset u" "\<not> i < main_stable_row_offset t" using assms(2,3) by simp_all
  ultimately show ?thesis
    by (auto simp: stable_line_def m_def [symmetric] nth_opt_def nth_append assms(1))
qed

lemma document_append_scroll:
  assumes "grid_ok (grid t)" and "0 < rows_of t" and "n \<le> rows_of t" and "0 < n"
    and "scroll_up_rows 0 (rows_of t - 1) n b s (grid t) = (rows, g)"
  shows "map from_grid_row rows @ map from_grid_row (grid_rows g) =
    map from_grid_row (grid_rows (grid t)) @ replicate n (from_grid_row (blank_row (columns_of t) b s))"
    and "length rows = n"
proof -
  have len: "length (grid_rows (grid t)) = rows_of t" using assms(1) by (simp add: grid_ok_def)
  have region: "row_region 0 (rows_of t - 1) (grid t) = Some (grid_rows (grid t))"
    using assms(2) len by (simp add: row_region_def)
  have "rows = take n (grid_rows (grid t))" and "grid_rows g = drop n (grid_rows (grid t)) @ replicate n (blank_row (columns_of t) b s)"
    using assms(2-5) len region
    by (auto simp: scroll_up_rows_def rotate_up_rows_def rotate_left_def put_region_def Let_def min_def split: if_splits)
  then show "length rows = n" and "map from_grid_row rows @ map from_grid_row (grid_rows g) =
      map from_grid_row (grid_rows (grid t)) @ replicate n (from_grid_row (blank_row (columns_of t) b s))"
    using assms(3) len by (simp_all flip: map_append append_assoc) simp
qed

lemma full_scroll:
  fixes t :: terminal
  assumes "term_ok t" and "should_record_scrollback_for_scroll 0 (rows_of t - 1) t" and "0 < n" and "0 < rows_of t"
  defines "m \<equiv> min n (rows_of t)"
  defines "k \<equiv> length (scrollback t) + m - scrollback_limit t"
  defines "u \<equiv> scroll_up_region_by 0 (rows_of t - 1) n t"
  shows "\<exists>blank. document u = drop k (document t @ replicate m blank)"
    and "main_stable_row_offset u = main_stable_row_offset t + int k"
proof -
  let ?lower = "rows_of t - 1"
  have cond: "\<not> (rows_of t = 0 \<or> columns_of t = 0 \<or> 0 > ?lower \<or> n = 0)"
    using assms(2-4) by (simp add: should_record_scrollback_for_scroll_def)
  have height: "?lower - 0 + 1 = rows_of t" using assms(4) by simp
  obtain v d rows g h where v: "frame v = frame t" "grid v = grid t"
    "scroll_up_rows 0 ?lower (min n (?lower - 0 + 1)) (blank_cell v) (seqno v) (grid v) = (rows, g)"
    "u = record_damage d (touch_rows (sat_add_u16 ?lower 1) (rows_of t) (trim_scrollback_to_limit (v\<lparr>grid := g, scrollback := h\<rparr>)))"
    "h = scrollback t @ map from_grid_row rows" "main_stable_row_offset v = main_stable_row_offset t"
    unfolding u_def by (rule scroll_up_recorded [OF cond assms(2)])
  let ?w = "v\<lparr>grid := g, scrollback := h\<rparr>"
  have scroll: "scroll_up_rows 0 (rows_of t - 1) m (blank_cell v) (seqno v) (grid t) = (rows, g)"
    using v(2,3) unfolding height m_def by simp
  note appended = document_append_scroll [OF term_okD(1) [OF assms(1)] assms(4) _ _ scroll]
  have m: "m \<le> rows_of t" "0 < m" using assms(3,4) by (simp_all add: m_def)
  have doc: "document ?w = document t @ replicate m (from_grid_row (blank_row (columns_of t) (blank_cell v) (seqno v)))"
    using appended(1) [OF m] by (simp add: document_def v(5))
  have k: "length (scrollback ?w) - scrollback_limit ?w = k"
    using appended(2) [OF m] frame_eqD(9) [OF v(1)] by (simp add: v(5) k_def)
  have "touch_rows (sat_add_u16 ?lower 1) (rows_of t) x = x" for x
    using assms(4) term_okD(12) [OF assms(1)] by (simp add: touch_rows_def sat_add_u16_def)
  then have u: "document u = document (trim_scrollback_to_limit ?w)"
    "main_stable_row_offset u = main_stable_row_offset (trim_scrollback_to_limit ?w)"
    by (simp_all add: v(4) document_def record_damage_def)
  show "\<exists>blank. document u = drop k (document t @ replicate m blank)"
    unfolding u(1) trim_document(1) k doc by blast
  show "main_stable_row_offset u = main_stable_row_offset t + int k"
    unfolding u(2) trim_document(2) k using v(6) by simp
qed

lemma full_scroll_stable:
  fixes t :: terminal
  assumes "term_ok t" and "should_record_scrollback_for_scroll 0 (rows_of t - 1) t" and "0 < n" and "0 < rows_of t"
  defines "u \<equiv> scroll_up_region_by 0 (rows_of t - 1) n t"
  assumes "main_stable_row_offset u \<le> i" and "i < main_stable_row_offset t + int (length (document t))"
  shows "stable_line u i = stable_line t i"
proof -
  obtain blank where "document u = drop (length (scrollback t) + min n (rows_of t) - scrollback_limit t)
      (document t @ replicate (min n (rows_of t)) blank)"
    using full_scroll(1) [OF assms(1-4)] unfolding u_def by blast
  then show ?thesis
    using stable_line_shift full_scroll(2) [OF assms(1-4), folded u_def] assms(6,7) by blast
qed

end
