(* ===== verification/Term_Properties.thy ===== *)
theory Term_Properties
  imports Term_History
begin

text \<open>The properties of the terminal, with the witnesses that apply them.\<close>

section \<open>Facts the properties share\<close>

definition region_set :: "u16 \<Rightarrow> u16 \<Rightarrow> u16 \<Rightarrow> bool" where
  "region_set first final limit \<longleftrightarrow> first < final \<or> first = 0 \<and> final = limit - 1"

lemma same_fields:
  "t\<lparr>cursor_row := cursor_row t\<rparr> = t" "t\<lparr>cursor_column := cursor_column t\<rparr> = t" "t\<lparr>scroll_top := scroll_top t\<rparr> = t"
  "t\<lparr>scroll_bottom := scroll_bottom t\<rparr> = t" "t\<lparr>left_margin := left_margin t\<rparr> = t" "t\<lparr>right_margin := right_margin t\<rparr> = t"
  by (cases t; simp)+

lemma clamp_axis_id: "v \<le> limit - 1 \<Longrightarrow> clamp_axis v limit = v"
  by (simp add: clamp_axis_def)

lemma clamp_keeps:
  assumes "term_ok t" and region: "region_set (scroll_top t) (scroll_bottom t) (rows_of t)"
    and margins: "region_set (left_margin t) (right_margin t) (columns_of t)" and "0 < rows_of t" and "0 < columns_of t"
  shows "clamp_to_size t = t"
proof -
  have rows: "(if scroll_bottom t \<le> scroll_top t then t\<lparr>scroll_top := 0, scroll_bottom := rows_of t - 1\<rparr> else t) = t"
    using region same_fields(3,4) [of t] unfolding region_set_def by (metis not_less)
  have columns: "(if right_margin t \<le> left_margin t then t\<lparr>left_margin := 0, right_margin := columns_of t - 1\<rparr> else t) = t"
    using margins same_fields(5,6) [of t] unfolding region_set_def by (metis not_less)
  show ?thesis
    unfolding clamp_to_size_def Let_def term_okD(2,3,5,7,8,9) [OF assms(1), THEN clamp_axis_id] same_fields rows columns
    using assms(4,5) by simp
qed

lemma damage_screen [simp]: "screen.truncate (record_damage d t) = screen.truncate t" "screen.truncate (upd_images f t) = screen.truncate t"
  by (simp_all add: record_damage_def upd_images_def screen.truncate_def)

lemma entered_main_screen:
  "main_screen t = None \<Longrightarrow> main_screen (set_alternate_screen True t) = Some (screen_state_of (bump_screen_identity_generation t))"
  by (simp add: set_alternate_screen_def record_damage_def Let_def)

lemma restored_screen:
  fixes t u :: terminal
  assumes "term_ok t" and "term_ok u" and "main_screen u = Some (screen_state_of (bump_screen_identity_generation t))"
    and "region_set (scroll_top t) (scroll_bottom t) (rows_of t)" and "region_set (left_margin t) (right_margin t) (columns_of t)"
    and "0 < rows_of t" and "0 < columns_of t"
  shows "screen.truncate (restore_screen_state (screen_state_of (bump_screen_identity_generation t))
    (bump_screen_identity_generation (u\<lparr>main_screen := None\<rparr>))) = screen.truncate t"
proof -
  let ?s = "screen_state_of (bump_screen_identity_generation t)" and ?u = "bump_screen_identity_generation (u\<lparr>main_screen := None\<rparr>)"
  define w where "w = ?u\<lparr>grid := grid ?s, images := restore_graphics (saved_graphics ?s) (images ?u),
     cursor_row := cursor_row ?s, cursor_column := cursor_column ?s, pending_wrap := pending_wrap ?s,
     clear_semantic_type_on_movement := clear_semantic_type_on_movement ?s, last_printable := last_printable ?s,
     nfc_last_printable_cell := nfc_last_printable_cell ?s, saved_cursor_of := saved_cursor_of ?s, modes := modes ?s,
     scroll_top := scroll_top ?s, scroll_bottom := scroll_bottom ?s, left_margin := left_margin ?s,
     right_margin := right_margin ?s, character_set_of := character_set_of ?s, style := style ?s\<rparr>"
  have screen: "screen.truncate w = screen.truncate t"
    by (simp add: w_def screen.truncate_def screen_state_of_def bump_screen_identity_generation_def)
  have "term_ok w"
    using assms(1-3) by (simp add: w_def term_ok_def screen_state_of_def bump_screen_identity_generation_def)
  then have "clamp_to_size w = w"
    by (rule clamp_keeps) (use assms(4-7) in \<open>simp_all add: w_def screen_state_of_def bump_screen_identity_generation_def\<close>)
  then show ?thesis using screen by (simp add: restore_screen_state_def w_def)
qed

section \<open>Properties\<close>

text \<open>
  Leaving the alternate screen brings back the main screen as it was when it was left (grid, cursor, pending wrap, saved cursor, modes,
  scroll region, margins, character set and style), provided that the saved screen was not rewritten in between, as a resize or the
  erasing of the history do, and that the scroll region and the margins were non-empty ranges inside the screen.
\<close>

theorem alternate_screen_restores:
  fixes t u :: terminal
  assumes "term_ok t" and "main_screen t = None" and "term_ok u"
    and "main_screen u = main_screen (set_alternate_screen True t)"
    and "region_set (scroll_top t) (scroll_bottom t) (rows_of t)" and "region_set (left_margin t) (right_margin t) (columns_of t)"
    and "0 < rows_of t" and "0 < columns_of t"
  shows "screen.truncate (set_alternate_screen False u) = screen.truncate t"
  using restored_screen [OF assms(1,3) _ assms(5-8)] assms(2,4)
  by (simp add: set_alternate_screen_def [of False] entered_main_screen damage_all_def)

definition demo :: terminal where
  "demo = new_with_default_cursor_style \<lparr>size_columns = 4, size_rows = 2\<rparr> SteadyBlock"

lemma demo_facts [simp]:
  "term_ok demo" "main_screen demo = None" "grid_size (grid demo) = \<lparr>size_columns = 4, size_rows = 2\<rparr>" "scroll_top demo = 0"
  "scroll_bottom demo = 1" "left_margin demo = 0" "right_margin demo = 3" "scrollback demo = []" "cursor_row demo = 0"
  "main_stable_row_offset demo = 0"
proof -
  show "term_ok demo" unfolding demo_def by (rule new_terminal_ok) (simp_all add: u16_max_def)
qed (simp_all add: demo_def new_with_default_cursor_style_def)

theorem alternate_screen_restores_witness:
  "screen.truncate (set_alternate_screen False (put_cell 1 2 (with_char 0x78) (set_alternate_screen True demo))) = screen.truncate demo"
proof -
  have "main_screen (put_cell 1 2 (with_char 0x78) (set_alternate_screen True demo)) = main_screen (set_alternate_screen True demo)"
    by (simp add: put_cell_alt)
  then show ?thesis by (intro alternate_screen_restores) (simp_all add: region_set_def)
qed

text \<open>
  C24: deleting characters returns whenever the spans of wide characters in the cursor's row are whole, where a
  character may be cut by the right edge of the screen.
\<close>

theorem delete_characters_terminates:
  assumes "spans_ok True (row_contents (cursor_row t) (grid t))" and "term_ok t"
  shows "\<exists>u. delete_characters n t = Some u \<and> term_ok u"
  using delete_characters_returns [OF assms] delete_characters_ok [OF _ assms(2)] by blast

lemma demo_row [simp]: "row < 2 \<Longrightarrow> row_contents row (grid demo) = replicate 4 Blank"
  by (auto simp: demo_def new_with_default_cursor_style_def row_contents_def grid_new_with_seqno_def blank_row_def nth_opt_def
      less_Suc_eq numeral_2_eq_2)

lemma demo_wide_row:
  "row_contents 0 (grid (put_cell 0 2 (set_continuation 1 cell_default) (put_cell 0 1 (set_text [0x754C] 2 cell_default) demo))) =
    [Blank, Text [0x754C] 2, Continuation 1, Blank]"
proof -
  have "replicate 4 Blank = [Blank, Blank, Blank, Blank]" by (simp add: numeral_eq_Suc)
  then show ?thesis by (simp add: set_continuation_def set_text_def numeral_2_eq_2)
qed

theorem delete_characters_terminates_witness:
  "\<exists>u. delete_characters 2 (put_cell 0 2 (set_continuation 1 cell_default) (put_cell 0 1 (set_text [0x754C] 2 cell_default) demo)) = Some u
    \<and> term_ok u"
proof -
  let ?t = "put_cell 0 2 (set_continuation 1 cell_default) (put_cell 0 1 (set_text [0x754C] 2 cell_default) demo)"
  have "cursor_row ?t = 0" using frame_eqD(2) [of ?t demo] by simp
  moreover have "spans_ok True (row_contents 0 (grid ?t))" unfolding demo_wide_row by (simp add: content_width_def)
  ultimately have "spans_ok True (row_contents (cursor_row ?t) (grid ?t))" by (simp only:)
  then show ?thesis by (rule delete_characters_terminates) simp
qed

text \<open>
  C25: a scroll inside left and right margins that cut a wide character leaves its continuation cell behind; once the
  margins are switched off, deleting a character there never returns.
\<close>

theorem cut_character_never_deleted:
  assumes "term_ok t" and "bounded_horizontal_scroll_columns t = Some (left, right)"
    and "active_scroll_range t = Some (upper, lower)" and "upper \<le> row" and "row \<le> lower" and "lower < row + n"
    and "grid_get row (right + 1) (grid t) = Some c" and "cell_content c = Continuation 1" and "0 < m"
  shows "delete_characters m ((set_left_right_margin_mode False (scroll_up n t))\<lparr>cursor_row := row, cursor_column := right + 1\<rparr>) = None"
  by (rule scroll_up_cut_delete [OF assms])

definition demo_cut :: terminal where
  "demo_cut = (put_cell 0 2 (set_continuation 1 cell_default) (put_cell 0 1 (set_text [0x754C] 2 cell_default)
     (demo\<lparr>left_margin := 0, right_margin := 1\<rparr>)))\<lparr>modes := modes_default\<lparr>mode_left_right_margin := True\<rparr>\<rparr>"

lemma grid_get_put:
  "grid_get r k (grid (put_cell row column c t)) = (if r = row \<and> k = column \<and> grid_get r k (grid t) \<noteq> None then Some c else grid_get r k (grid t))"
  using grid_get_set [of r k row column c "grid t"] by (auto simp: put_cell_alt grid_set_def split: option.splits)

lemma demo_cut_facts:
  "term_ok demo_cut" "bounded_horizontal_scroll_columns demo_cut = Some (0, 1)" "active_scroll_range demo_cut = Some (0, 1)"
  "grid_get 0 2 (grid demo_cut) = Some (set_continuation 1 cell_default)"
  "grid_size (grid demo_cut) = \<lparr>size_columns = 4, size_rows = 2\<rparr>"
proof -
  let ?d = "demo\<lparr>left_margin := 0, right_margin := 1\<rparr>"
  have d: "term_ok ?d" by (rule term_ok_margins) simp_all
  then show "term_ok demo_cut" by (simp add: demo_cut_def)
  have f: "frame (put_cell 0 2 c (put_cell 0 1 b ?d)) = frame ?d" for b c by simp
  show "bounded_horizontal_scroll_columns demo_cut = Some (0, 1)" "active_scroll_range demo_cut = Some (0, 1)"
    "grid_size (grid demo_cut) = \<lparr>size_columns = 4, size_rows = 2\<rparr>"
    using frame_eqD [OF f] by (simp_all add: demo_cut_def bounded_horizontal_scroll_columns_def active_scroll_range_def)
  have "grid_get 0 2 (grid demo) \<noteq> None"
    using grid_get_None [OF term_okD(1) [OF demo_facts(1)], of 0 2] by simp
  then show "grid_get 0 2 (grid demo_cut) = Some (set_continuation 1 cell_default)"
    by (simp add: demo_cut_def grid_get_put)
qed

theorem cut_character_never_deleted_witness:
  "delete_characters 1 ((set_left_right_margin_mode False (scroll_up 2 demo_cut))\<lparr>cursor_row := 0, cursor_column := 2\<rparr>) = None"
  using cut_character_never_deleted [OF demo_cut_facts(1-3), of 0 2 "set_continuation 1 cell_default" 1] demo_cut_facts(4)
  by (simp add: set_continuation_def numeral_2_eq_2)

text \<open>
  repairing a row makes the spans of its wide characters whole, and changes nothing at all when they already are.
\<close>

theorem sanitize_establishes_spans:
  assumes "term_ok t" and "row < rows_of t"
  shows "spans_ok False (row_contents row (grid (sanitize_grapheme_spans row t))) \<and>
    (spans_ok False (row_contents row (grid t)) \<longrightarrow> sanitize_grapheme_spans row t = t)"
  using sanitize_repairs [OF term_okD(1) [OF assms(1)] assms(2) term_okD(11) [OF assms(1)]]
    sanitize_same [OF _ term_okD(1) [OF assms(1)] assms(2) term_okD(11) [OF assms(1)]] by blast

theorem sanitize_establishes_spans_witness:
  "spans_ok False (row_contents 0 (grid (sanitize_grapheme_spans 0 (put_cell 0 1 (set_continuation 1 cell_default) demo))))"
  using sanitize_establishes_spans [of "put_cell 0 1 (set_continuation 1 cell_default) demo" 0]
    frame_eqD(1) [of "put_cell 0 1 (set_continuation 1 cell_default) demo" demo] by simp

text \<open>
  C22: a scroll inside left and right margins moves the cells exactly as the reference says (every cell of the region
  shows the one \<open>n\<close> rows away, or a blank; no other cell changes), and the terminal's inline images go with them: the images are the
  same, the attachments it has afterwards are those it had, each moved by the reference for attachments, on to the cell that has the
  content its old cell had, and an attachment is lost exactly when its cell scrolls out of the region. The images are taken to have
  a size in cells (the others are retired) and one identity each.
\<close>

theorem bounded_scroll_moves_images_with_cells:
  assumes "term_ok t" and "bounded_horizontal_scroll_columns t = Some (left, right)" and "upper \<le> lower" and "lower < rows_of t"
    and "0 < n" and "\<forall>im \<in> set (inline_images (images t)). cell_attachment_dimensions im \<noteq> None"
    and "length (inline_image_parent_ids (images t)) = length (inline_images (images t))"
    and "\<forall>a \<in> set (inline_image_attachments (images t)). at_parent a \<in> set (inline_image_parent_ids (images t))"
    and "u = scroll_up_with_horizontal_margins upper lower n t" and "base = length (scrollback t)" and "m = min n (lower - upper + 1)"
  shows "grid_get row column (grid u) = scrolled_up_cell upper lower m left right (blank_cell t) (grid t) row column \<and>
    inline_images (images u) = inline_images (images t) \<and>
    inline_image_attachments (images u) =
      List.map_filter (follow_up (base + upper) (base + lower) m left right) (inline_image_attachments (images t)) \<and>
    (\<forall>a b. base \<le> at_row a \<and> follow_up (base + upper) (base + lower) m left right a = Some b \<longrightarrow>
       base \<le> at_row b \<and> grid_get (at_row b - base) (at_column b) (grid u) = grid_get (at_row a - base) (at_column a) (grid t)) \<and>
    (\<forall>a. follow_up (base + upper) (base + lower) m left right a = None \<longleftrightarrow>
       base + upper \<le> at_row a \<and> at_row a < base + upper + m \<and> left \<le> at_column a \<and> at_column a \<le> right)"
proof (intro conjI)
  note cells = scroll_up_margins_get [OF assms(1-5), folded assms(9,11)]
  have m: "m \<le> lower - upper + 1" using assms(11) by simp
  show "grid_get row column (grid u) = scrolled_up_cell upper lower m left right (blank_cell t) (grid t) row column" by (rule cells)
  show "\<forall>a b. base \<le> at_row a \<and> follow_up (base + upper) (base + lower) m left right a = Some b \<longrightarrow>
     base \<le> at_row b \<and> grid_get (at_row b - base) (at_column b) (grid u) = grid_get (at_row a - base) (at_column a) (grid t)"
    unfolding cells using follow_up_cell [OF assms(3) m] by blast
  show "\<forall>a. follow_up (base + upper) (base + lower) m left right a = None \<longleftrightarrow>
     base + upper \<le> at_row a \<and> at_row a < base + upper + m \<and> left \<le> at_column a \<and> at_column a \<le> right"
    using m assms(3) by (auto simp: follow_up_def)
qed (use scroll_up_margins_images [OF assms(2-7)] assms(8-11) in simp_all)

text \<open>An image of one cell in the second row of the region moves to the first.\<close>

definition demo_image :: inline_image where
  "demo_image = \<lparr>im_row = 1, im_column = 1, im_name = None, im_kitty_image_id = None, im_kitty_placement_id = None,
     im_kitty_z_index = None, im_size = None, im_width = None, im_height = None, im_preserve_aspect_ratio = None,
     im_format = Format_Rgba, im_pixel_width = None, im_pixel_height = None, im_source_x = None, im_source_y = None,
     im_source_width = None, im_source_height = None, im_target_x = None, im_target_y = None, im_data = []\<rparr>"

definition demo_cut_image :: terminal where
  "demo_cut_image = demo_cut\<lparr>images := push_inline_image demo_image (images demo)\<rparr>"

lemma demo_image_attachments:
  "inline_images (images demo_cut_image) = [demo_image]" "inline_image_parent_ids (images demo_cut_image) = [1]"
  "inline_image_attachments (images demo_cut_image) =
     [\<lparr>at_parent = 1, at_source_row = 0, at_source_column = 0, at_row = 1, at_column = 1\<rparr>]"
  "cell_attachment_dimensions demo_image = Some (1, 1)"
proof -
  show dims: "cell_attachment_dimensions demo_image = Some (1, 1)"
    by (simp add: cell_attachment_dimensions_def demo_image_def)
  show "inline_images (images demo_cut_image) = [demo_image]" "inline_image_parent_ids (images demo_cut_image) = [1]"
    "inline_image_attachments (images demo_cut_image) =
     [\<lparr>at_parent = 1, at_source_row = 0, at_source_column = 0, at_row = 1, at_column = 1\<rparr>]"
    using dims by (simp_all add: demo_cut_image_def push_inline_image_def demo_def new_with_default_cursor_style_def
        cell_attachments_for_image_def demo_image_def u16_max_def graphics_new_def Let_def)
qed

theorem bounded_scroll_moves_images_with_cells_witness:
  "grid_get 0 1 (grid (scroll_up_with_horizontal_margins 0 1 1 demo_cut_image)) = grid_get 1 1 (grid demo_cut) \<and>
   inline_image_attachments (images (scroll_up_with_horizontal_margins 0 1 1 demo_cut_image)) =
     [\<lparr>at_parent = 1, at_source_row = 0, at_source_column = 0, at_row = 0, at_column = 1\<rparr>]"
proof -
  have "term_ok demo_cut_image" using demo_cut_facts(1) by (simp add: demo_cut_image_def)
  moreover have "bounded_horizontal_scroll_columns demo_cut_image = Some (0, 1)"
    using demo_cut_facts(2) by (simp add: demo_cut_image_def)
  moreover have "length (scrollback demo_cut_image) = 0" "grid demo_cut_image = grid demo_cut"
    by (simp_all add: demo_cut_image_def demo_cut_def put_cell_alt)
  ultimately show ?thesis
    using bounded_scroll_moves_images_with_cells [OF _ _ _ _ _ _ _ _ refl refl refl, of demo_cut_image 0 1 0 1 1 0 1]
      demo_cut_facts(5) demo_image_attachments
    by (simp add: scrolled_up_cell_def follow_up_def List.map_filter_def)
qed

text \<open>
  C21: a scroll of the full main screen loses nothing but what the history limit drops: the lines, history first, keep
  their order and gain blank lines at the end, and every line that is still there keeps its stable row number.
\<close>

theorem full_scroll_keeps_stable_lines:
  fixes t :: terminal
  assumes "term_ok t" and "should_record_scrollback_for_scroll 0 (rows_of t - 1) t" and "0 < n" and "0 < rows_of t"
  defines "u \<equiv> scroll_up_region_by 0 (rows_of t - 1) n t"
  assumes "main_stable_row_offset u \<le> i" and "i < main_stable_row_offset t + int (length (document t))"
  shows "stable_line u i = stable_line t i \<and>
    main_stable_row_offset u = main_stable_row_offset t + int (length (scrollback t) + min n (rows_of t) - scrollback_limit t) \<and>
    length (document u) = length (scrollback t) + min n (rows_of t) + rows_of t -
      (length (scrollback t) + min n (rows_of t) - scrollback_limit t)"
proof -
  have "length (document t) = length (scrollback t) + rows_of t"
    using term_okD(1) [OF assms(1)] by (simp add: document_def grid_ok_def)
  moreover obtain blank where "document u = drop (length (scrollback t) + min n (rows_of t) - scrollback_limit t)
      (document t @ replicate (min n (rows_of t)) blank)"
    using full_scroll(1) [OF assms(1-4)] unfolding u_def by blast
  ultimately show ?thesis
    using full_scroll(2) [OF assms(1-4)] full_scroll_stable [OF assms(1-4)] assms(6,7) by (simp add: u_def add.commute add.left_commute)
qed

theorem full_scroll_keeps_stable_lines_witness:
  "stable_line (scroll_up_region_by 0 1 1 demo) 1 = stable_line demo 1"
proof -
  have "length (document demo) = 2" using term_okD(1) [OF demo_facts(1)] by (simp add: document_def grid_ok_def)
  moreover have "scrollback_limit demo = 3500" by (simp add: demo_def new_with_default_cursor_style_def)
  moreover have "should_record_scrollback_for_scroll 0 1 demo" by (simp add: should_record_scrollback_for_scroll_def)
  moreover from this have "main_stable_row_offset (scroll_up_region_by 0 1 1 demo) = 0"
    using full_scroll(2) [OF demo_facts(1), of 1] \<open>scrollback_limit demo = 3500\<close> by simp
  ultimately show ?thesis
    using full_scroll_keeps_stable_lines [OF demo_facts(1), of 1 1] by simp
qed

end
