(* ===== verification/Term_Sixel.thy ===== *)
theory Term_Sixel
  imports Term_Csi Complex_Main
begin

text \<open>
  Sixel images, \<open>rssh-terminal/src/parser.rs\<close>: the canvas a device control string draws on, the loop over
  its characters and the bytes of the image. 32-bit products that the code does not check wrap
  around, as they do in a release build; the single-precision numbers of the HLS colours are exact rationals rounded
  after every operation.
\<close>

section \<open>Colours\<close>

type_synonym rgba = "u8 list"

text \<open>
  Rounding to single precision, to nearest and ties to even, for magnitudes below \<open>2^24\<close>: the scale makes the
  significand 24 bits long, or is that of the smallest numbers.
\<close>

definition round_ties_even :: "rat \<Rightarrow> int" where
  "round_ties_even x =
     (let f = \<lfloor>x\<rfloor>; d = x - of_int f in
      if d < 1 / 2 then f else if d > 1 / 2 then f + 1 else if even f then f else f + 1)"

definition f32_scale :: "rat \<Rightarrow> nat" where
  "f32_scale x = (case List.find (\<lambda>k. \<bar>x\<bar> * 2 ^ k \<ge> 2 ^ 23) [0 ..< 150] of Some k \<Rightarrow> k | None \<Rightarrow> 149)"

definition f32 :: "rat \<Rightarrow> rat" where
  "f32 x = of_int (round_ties_even (x * 2 ^ f32_scale x)) / 2 ^ f32_scale x"

definition hue_to_rgb :: "rat \<Rightarrow> rat \<Rightarrow> rat \<Rightarrow> rat" where
  "hue_to_rgb p q hue =
     (let hue = (if hue < 0 then f32 (hue + 1) else hue);
          hue = (if hue > 1 then f32 (hue - 1) else hue) in
      if hue < f32 (1 / 6) then f32 (p + f32 (f32 (f32 (q - p) * 6) * hue))
      else if hue < f32 (1 / 2) then q
      else if hue < f32 (2 / 3) then f32 (p + f32 (f32 (f32 (q - p) * f32 (f32 (2 / 3) - hue)) * 6))
      else p)"

definition unit_float_to_u8 :: "rat \<Rightarrow> u8" where
  "unit_float_to_u8 v = nat \<lfloor>f32 (max 0 (min 1 v) * 255) + 1 / 2\<rfloor>"

definition sixel_hls_to_rgba :: "u16 \<Rightarrow> u16 \<Rightarrow> u16 \<Rightarrow> rgba" where
  "sixel_hls_to_rgba hue lightness saturation =
     (let hue = f32 (of_nat ((hue + 240) mod 360) / 360);
          l = f32 (of_nat (min 100 lightness) / 100);
          s = f32 (of_nat (min 100 saturation) / 100);
          q = (if l < 1 / 2 then f32 (l * f32 (1 + s)) else f32 (f32 (l + s) - f32 (l * s)));
          p = f32 (f32 (2 * l) - q)
      in map unit_float_to_u8 (if s = 0 then [l, l, l]
           else [hue_to_rgb p q (f32 (hue + f32 (1 / 3))), hue_to_rgb p q hue, hue_to_rgb p q (f32 (hue - f32 (1 / 3)))]) @ [255])"

definition sixel_percent_to_u8 :: "u16 \<Rightarrow> u8" where
  "sixel_percent_to_u8 v = (min 100 v * 255 + 50) div 100"

definition vt340_default_sixel_palette :: "rgba list" where
  "vt340_default_sixel_palette =
     [[0, 0, 0, 255], [51, 51, 204, 255], [204, 33, 33, 255], [51, 204, 51, 255], [204, 51, 204, 255],
      [51, 204, 204, 255], [204, 204, 51, 255], [135, 135, 135, 255], [66, 66, 66, 255], [84, 84, 153, 255],
      [153, 66, 66, 255], [84, 153, 84, 255], [153, 84, 153, 255], [84, 153, 153, 255], [153, 153, 84, 255],
      [204, 204, 204, 255]]"

section \<open>The canvas\<close>

datatype sixel_background = Background_Opaque | Background_Transparent

record sixel_options =
  so_background :: sixel_background
  so_pixel_height_scale :: u32

record sixel_canvas =
  sx_pixels :: "((u32 \<times> u32) \<times> rgba) list"
  sx_palette :: "(u16 \<times> rgba) list"
  sx_color :: rgba
  sx_background :: sixel_background
  sx_x :: u32
  sx_y :: u32
  sx_max_x :: u32
  sx_max_y :: u32
  sx_declared_width :: "u32 option"
  sx_declared_height :: "u32 option"
  sx_scale :: u32

definition canvas_new :: "sixel_options \<Rightarrow> sixel_canvas" where
  "canvas_new opts = \<lparr>sx_pixels = [], sx_palette = zip [0 ..< 16] vt340_default_sixel_palette,
     sx_color = [0, 0, 0, 255], sx_background = so_background opts, sx_x = 0, sx_y = 0, sx_max_x = 0, sx_max_y = 0,
     sx_declared_width = None, sx_declared_height = None, sx_scale = so_pixel_height_scale opts\<rparr>"

definition sat_add_u32 :: "u32 \<Rightarrow> u32 \<Rightarrow> u32" where
  "sat_add_u32 a b = min u32_max (a + b)"

definition write_bit :: "u8 \<Rightarrow> nat \<Rightarrow> sixel_canvas \<Rightarrow> sixel_canvas" where
  "write_bit bits b c =
     (if bits div 2 ^ b mod 2 = 1
      then let y = sat_add_u32 (sx_y c) b in
        c\<lparr>sx_pixels := AList.update (sx_x c, y) (sx_color c) (sx_pixels c),
          sx_max_x := max (sx_max_x c) (sx_x c), sx_max_y := max (sx_max_y c) y\<rparr>
      else c)"

definition write_column :: "u8 \<Rightarrow> sixel_canvas \<Rightarrow> sixel_canvas" where
  "write_column bits c = (let c = fold (write_bit bits) [0 ..< 6] c in c\<lparr>sx_x := sat_add_u32 (sx_x c) 1\<rparr>)"

definition write_bits :: "u8 \<Rightarrow> u32 \<Rightarrow> sixel_canvas \<Rightarrow> sixel_canvas" where
  "write_bits bits repeat c = (write_column bits ^^ max 1 repeat) c"

definition canvas_carriage_return :: "sixel_canvas \<Rightarrow> sixel_canvas" where
  "canvas_carriage_return c = c\<lparr>sx_x := 0\<rparr>"

definition canvas_newline :: "sixel_canvas \<Rightarrow> sixel_canvas" where
  "canvas_newline c = c\<lparr>sx_x := 0, sx_y := sat_add_u32 (sx_y c) 6\<rparr>"

definition select_color :: "u16 \<Rightarrow> sixel_canvas \<Rightarrow> sixel_canvas" where
  "select_color index c = (case map_of (sx_palette c) index of None \<Rightarrow> c | Some col \<Rightarrow> c\<lparr>sx_color := col\<rparr>)"

definition define_color :: "u16 \<Rightarrow> rgba \<Rightarrow> sixel_canvas \<Rightarrow> sixel_canvas" where
  "define_color index col c = c\<lparr>sx_palette := AList.update index col (sx_palette c), sx_color := col\<rparr>"

definition define_rgb_color :: "u16 \<Rightarrow> u16 \<Rightarrow> u16 \<Rightarrow> u16 \<Rightarrow> sixel_canvas \<Rightarrow> sixel_canvas" where
  "define_rgb_color index red green blue =
     define_color index [sixel_percent_to_u8 red, sixel_percent_to_u8 green, sixel_percent_to_u8 blue, 255]"

definition define_hls_color :: "u16 \<Rightarrow> u16 \<Rightarrow> u16 \<Rightarrow> u16 \<Rightarrow> sixel_canvas \<Rightarrow> sixel_canvas" where
  "define_hls_color index hue lightness saturation = define_color index (sixel_hls_to_rgba hue lightness saturation)"

definition sixel_pixel_height_scale :: "u32 \<Rightarrow> u32 \<Rightarrow> u32" where
  "sixel_pixel_height_scale numerator denominator =
     (if numerator = 0 \<or> denominator = 0 then 1 else max 1 ((numerator + denominator div 2) div denominator))"

definition set_raster_attributes :: "u32 \<Rightarrow> u32 \<Rightarrow> u32 \<Rightarrow> u32 \<Rightarrow> sixel_canvas \<Rightarrow> sixel_canvas" where
  "set_raster_attributes numerator denominator width height c =
     c\<lparr>sx_scale := sixel_pixel_height_scale numerator denominator,
       sx_declared_width := (if width > 0 then Some width else sx_declared_width c),
       sx_declared_height := (if height > 0 then Some height else sx_declared_height c)\<rparr>"

section \<open>The image\<close>

record sixel_image =
  si_width :: u32
  si_height :: u32
  si_data :: "u8 list"

definition checked_u32 :: "nat \<Rightarrow> u32 option" where
  "checked_u32 n = (if n \<le> u32_max then Some n else None)"

text \<open>The offset of a pixel is computed in 32 bits, and not checked.\<close>

definition wrap_u32 :: "nat \<Rightarrow> u32" where
  "wrap_u32 n = n mod 2 ^ 32"

definition pixel_offset :: "u32 \<Rightarrow> u32 \<Rightarrow> u32 \<Rightarrow> usize" where
  "pixel_offset row width x = wrap_u32 (wrap_u32 (wrap_u32 (row * width) + x) * 4)"

definition put_pixel :: "usize \<Rightarrow> rgba \<Rightarrow> u8 list \<Rightarrow> u8 list option" where
  "put_pixel i col data = (if i + 4 \<le> length data then Some (take i data @ col @ drop (i + 4) data) else None)"

definition paint_row :: "u32 \<Rightarrow> u32 \<Rightarrow> u32 \<Rightarrow> u32 \<Rightarrow> rgba \<Rightarrow> nat \<Rightarrow> u8 list \<Rightarrow> u8 list option" where
  "paint_row width height physical_y x col row_offset data =
     (case checked_u32 (physical_y + row_offset) of
        None \<Rightarrow> None
      | Some row \<Rightarrow> if row \<ge> height then Some data else put_pixel (pixel_offset row width x) col data)"

definition fold_option :: "('a \<Rightarrow> 'b \<Rightarrow> 'b option) \<Rightarrow> 'a list \<Rightarrow> 'b \<Rightarrow> 'b option" where
  "fold_option f xs b = fold (\<lambda>x r. Option.bind r (f x)) xs (Some b)"

definition paint_pixel :: "u32 \<Rightarrow> u32 \<Rightarrow> u32 \<Rightarrow> u32 \<Rightarrow> (u32 \<times> u32) \<times> rgba \<Rightarrow> u8 list \<Rightarrow> u8 list option" where
  "paint_pixel width logical_height height scale px data =
     (case px of ((x, y), col) \<Rightarrow>
        if x \<ge> width \<or> y \<ge> logical_height then Some data
        else case checked_u32 (y * scale) of
          None \<Rightarrow> None
        | Some physical_y \<Rightarrow> fold_option (paint_row width height physical_y x col) [0 ..< scale] data)"

definition background_color :: "sixel_canvas \<Rightarrow> rgba" where
  "background_color c =
     (case sx_background c of
        Background_Opaque \<Rightarrow> (case map_of (sx_palette c) 0 of Some col \<Rightarrow> col | None \<Rightarrow> [0, 0, 0, 255])
      | Background_Transparent \<Rightarrow> [0, 0, 0, 0])"

definition image_size :: "sixel_canvas \<Rightarrow> (u32 \<times> u32) option" where
  "image_size c =
     (case (if sx_pixels c = [] then Some (0, 0)
         else case (checked_u32 (sx_max_x c + 1), checked_u32 (sx_max_y c + 1)) of (Some w, Some h) \<Rightarrow> Some (w, h) | _ \<Rightarrow> None) of
        None \<Rightarrow> None
      | Some (w, h) \<Rightarrow> Some (case sx_declared_width c of None \<Rightarrow> w | Some d \<Rightarrow> max d w,
          case sx_declared_height c of None \<Rightarrow> h | Some d \<Rightarrow> max d h))"

definition into_image :: "sixel_canvas \<Rightarrow> sixel_image option" where
  "into_image c =
     (if sx_pixels c = [] \<and> sx_background c = Background_Transparent then None
      else case image_size c of
        None \<Rightarrow> None
      | Some (width, logical_height) \<Rightarrow>
          (case checked_u32 (logical_height * sx_scale c) of
             None \<Rightarrow> None
           | Some height \<Rightarrow>
               if width = 0 \<or> logical_height = 0 \<or> height = 0 \<or> width * height > usize_max \<or> width * height * 4 > usize_max
               then None
               else map_option (\<lambda>data. \<lparr>si_width = width, si_height = height, si_data = data\<rparr>)
                 (fold_option (paint_pixel width logical_height height (sx_scale c)) (sx_pixels c)
                   (concat (replicate (width * height) (background_color c))))))"

section \<open>The device control string\<close>

definition parse_sixel_numeric_params :: "str \<Rightarrow> u16 list" where
  "parse_sixel_numeric_params raw =
     map (\<lambda>v. if v = [] then 0 else case parse_u16 v of Some n \<Rightarrow> n | None \<Rightarrow> 0) (split_on 0x3B raw)"

definition sixel_dcs_macro_pixel_height_scale :: "u16 option \<Rightarrow> u32" where
  "sixel_dcs_macro_pixel_height_scale v =
     (let n = opt_or 0 v in if n = 2 then 5 else if n = 3 \<or> n = 4 then 3 else if 7 \<le> n \<and> n \<le> 9 then 1 else 2)"

definition parse_sixel_dcs_options :: "str \<Rightarrow> sixel_options" where
  "parse_sixel_dcs_options params =
     (let ps = parse_sixel_numeric_params params in
      \<lparr>so_background = (if nth_opt ps 1 = Some 1 then Background_Transparent else Background_Opaque),
       so_pixel_height_scale = sixel_dcs_macro_pixel_height_scale (nth_opt ps 0)\<rparr>)"

definition is_sixel_parameter :: "nat \<Rightarrow> bool" where
  "is_sixel_parameter ch \<longleftrightarrow> is_ascii_digit ch \<or> ch = 0x3B"

definition sixel_dcs_marker_index :: "str \<Rightarrow> nat option" where
  "sixel_dcs_marker_index content =
     (case position (\<lambda>c. c = 0x71) content of
        None \<Rightarrow> None
      | Some marker \<Rightarrow>
          (let params = take marker content in
           if \<not> list_all is_sixel_parameter params then None
           else if nth_opt (parse_sixel_numeric_params params) 0 = Some 1000 then None else Some marker))"

definition sixel_bits :: "nat \<Rightarrow> u8 option" where
  "sixel_bits ch = (if 0x3F \<le> ch \<and> ch \<le> 0x7E then Some (ch - 0x3F) else None)"

definition write_sixel :: "nat \<Rightarrow> u32 \<Rightarrow> sixel_canvas \<Rightarrow> sixel_canvas" where
  "write_sixel ch repeat c = (case sixel_bits ch of None \<Rightarrow> c | Some bits \<Rightarrow> write_bits bits repeat c)"

definition color_introducer :: "u16 list \<Rightarrow> sixel_canvas \<Rightarrow> sixel_canvas" where
  "color_introducer ps c =
     (case nth_opt ps 0 of
        None \<Rightarrow> c
      | Some index \<Rightarrow>
          if nth_opt ps 1 = Some 1 \<and> length ps \<ge> 5 then define_hls_color index (ps ! 2) (ps ! 3) (ps ! 4) c
          else if nth_opt ps 1 = Some 2 \<and> length ps \<ge> 5 then define_rgb_color index (ps ! 2) (ps ! 3) (ps ! 4) c
          else select_color index c)"

definition raster_attributes :: "u16 list \<Rightarrow> sixel_canvas \<Rightarrow> sixel_canvas" where
  "raster_attributes ps c =
     (if length ps \<ge> 4 then set_raster_attributes (ps ! 0) (ps ! 1) (ps ! 2) (ps ! 3) c else c)"

function draw_sixels :: "str \<Rightarrow> sixel_canvas \<Rightarrow> sixel_canvas" where
  "draw_sixels [] c = c"
| "draw_sixels (ch # cs) c =
     (if ch = 0x24 then draw_sixels cs (canvas_carriage_return c)
      else if ch = 0x2D then draw_sixels cs (canvas_newline c)
      else if ch = 0x21 then
        (let repeat = opt_or 1 (parse_u32 (takeWhile is_ascii_digit cs)) in
         case dropWhile is_ascii_digit cs of
           [] \<Rightarrow> c
         | d # ds \<Rightarrow> draw_sixels ds (write_sixel d repeat c))
      else if ch = 0x23 then
        draw_sixels (dropWhile is_sixel_parameter cs)
          (color_introducer (parse_sixel_numeric_params (takeWhile is_sixel_parameter cs)) c)
      else if ch = 0x22 then
        draw_sixels (dropWhile is_sixel_parameter cs)
          (raster_attributes (parse_sixel_numeric_params (takeWhile is_sixel_parameter cs)) c)
      else draw_sixels cs (write_sixel ch 1 c))"
  by pat_completeness auto
termination
proof (relation "measure (\<lambda>(cs, c). length cs)", goal_cases)
  case (4 ch cs c repeat d ds)
  then show ?case using length_dropWhile_le [of is_ascii_digit cs] by simp
qed (auto simp: length_dropWhile_le le_imp_less_Suc)

definition parse_sixel_image :: "sixel_options \<Rightarrow> str \<Rightarrow> sixel_image option" where
  "parse_sixel_image opts content = into_image (draw_sixels content (canvas_new opts))"

definition sixel_inline_image :: "usize \<Rightarrow> u16 \<Rightarrow> str \<Rightarrow> str \<Rightarrow> sixel_image \<Rightarrow> inline_image" where
  "sixel_inline_image row column width height im = \<lparr>im_row = row, im_column = column, im_name = None,
     im_kitty_image_id = None, im_kitty_placement_id = None, im_kitty_z_index = None,
     im_size = Some (length (si_data im)), im_width = Some width, im_height = Some height,
     im_preserve_aspect_ratio = None, im_format = Format_Rgba, im_pixel_width = Some (si_width im),
     im_pixel_height = Some (si_height im), im_source_x = None, im_source_y = None, im_source_width = None,
     im_source_height = None, im_target_x = None, im_target_y = None, im_data = si_data im\<rparr>"

definition apply_sixel_content :: "sixel_options \<Rightarrow> str \<Rightarrow> terminal \<Rightarrow> terminal" where
  "apply_sixel_content opts content t =
     (case parse_sixel_image opts content of
        None \<Rightarrow> t
      | Some im \<Rightarrow>
          (let width = decimal (si_width im) @ [0x70, 0x78]; height = decimal (si_height im) @ [0x70, 0x78];
               display = mode_sixel_display (modes t);
               row = (if display then length (scrollback t) else current_history_row t);
               column = (if display then 0 else cursor_column t);
               t1 = upd_images (push_inline_image (sixel_inline_image row column width height im))
                 (record_inline_image_damage_at row column (Some width) (Some height) t)
           in if display then t1
              else let t2 = index_down False t1 in
                if mode_sixel_scrolls_right (modes t2) then move_cursor_forward (inline_image_width_cells (Some width)) t2 else t2))"

definition apply_dcs_content :: "str \<Rightarrow> terminal \<Rightarrow> terminal" where
  "apply_dcs_content content t =
     (case sixel_dcs_marker_index content of
        None \<Rightarrow> t
      | Some i \<Rightarrow> apply_sixel_content (parse_sixel_dcs_options (take i content)) (drop (i + 1) content) t)"

end
