(* ===== verification/Term_Sixel_Laws.thy ===== *)
theory Term_Sixel_Laws
  imports Term_Sixel
begin

text \<open>
  What the bytes of a sixel image show. The canvas keeps one colour of four bytes for every pixel drawn;
  an image of at most \<open>2^32\<close> bytes has, at every cell, the colour drawn there or the background, each pixel stretched to
  the height of the scale. Offsets of larger images wrap around.
\<close>

section \<open>Bytes and pixels\<close>

definition pixel_at :: "u8 list \<Rightarrow> nat \<Rightarrow> rgba" where
  "pixel_at data n = take 4 (drop (4 * n) data)"

lemma fold_option_simps [simp]:
  "fold_option f [] b = Some b" "fold_option f (x # xs) b = Option.bind (f x b) (fold_option f xs)"
proof -
  have none: "fold (\<lambda>x r. Option.bind r (f x)) xs None = None" for xs by (induction xs) auto
  show "fold_option f [] b = Some b" by (simp add: fold_option_def)
  show "fold_option f (x # xs) b = Option.bind (f x b) (fold_option f xs)"
    by (cases "f x b") (simp_all add: fold_option_def none)
qed

lemma fold_option_append: "fold_option f (xs @ ys) b = Option.bind (fold_option f xs b) (fold_option f ys)"
  by (induction xs arbitrary: b) (auto split: Option.bind_splits)

lemma put_pixel_spec:
  assumes "n < N" and "length data = 4 * N" and "length col = 4"
  shows "\<exists>data'. put_pixel (4 * n) col data = Some data' \<and> length data' = 4 * N \<and>
    (\<forall>m < N. pixel_at data' m = (if m = n then col else pixel_at data m))"
proof (intro exI conjI allI impI)
  let ?d = "take (4 * n) data @ col @ drop (4 * n + 4) data"
  show "put_pixel (4 * n) col data = Some ?d" using assms by (simp add: put_pixel_def)
  show "length ?d = 4 * N" using assms by simp
  fix m assume m: "m < N"
  consider "m = n" | "m < n" | "n < m" by linarith
  then show "pixel_at ?d m = (if m = n then col else pixel_at data m)"
  proof cases
    case 1
    then show ?thesis using assms by (simp add: pixel_at_def)
  next
    case 2
    then have "4 \<le> 4 * n - 4 * m" by simp
    then show ?thesis using assms 2 by (simp add: pixel_at_def drop_take min_def)
  next
    case 3
    then have "4 * m = 4 * n + 4 + (4 * m - 4 * n - 4)" by simp
    then show ?thesis using assms 3 by (simp add: pixel_at_def add.commute)
  qed
qed

lemma pixel_index_eq:
  assumes "(x :: nat) < w" "x' < w"
  shows "r * w + x = r' * w + x' \<longleftrightarrow> r = r' \<and> x = x'"
proof -
  have "(r * w + x) div w = r" "(r' * w + x') div w = r'" using assms by auto
  then show ?thesis by auto
qed

lemma pixel_index_less: "(x :: nat) < w \<Longrightarrow> r < h \<Longrightarrow> r * w + x < w * h"
proof -
  assume "x < w" "r < h"
  then have "r * w + x < Suc r * w" by simp
  also have "\<dots> \<le> h * w" using \<open>r < h\<close> by (intro mult_le_mono1) simp
  finally show ?thesis by (simp add: mult.commute)
qed

lemma pixel_offset_exact: "4 * (r * w + x) < 2 ^ 32 \<Longrightarrow> pixel_offset r w x = 4 * (r * w + x)"
  by (simp add: pixel_offset_def wrap_u32_def)

section \<open>Painting\<close>

text \<open>The colours of an image of a size, and what painting one pixel does to them.\<close>

definition shows_pixels :: "nat \<Rightarrow> nat \<Rightarrow> (nat \<Rightarrow> nat \<Rightarrow> rgba) \<Rightarrow> u8 list \<Rightarrow> bool" where
  "shows_pixels w h f data \<longleftrightarrow> length data = 4 * (w * h) \<and> (\<forall>x < w. \<forall>r < h. pixel_at data (r * w + x) = f x r)"

lemma paint_row_shows:
  assumes "shows_pixels w h f data" and "x < w" and "py + k < h" and "h \<le> u32_max" and "4 * (w * h) \<le> 2 ^ 32" and "length col = 4"
  shows "\<exists>data'. paint_row w h py x col k data = Some data' \<and>
    shows_pixels w h (\<lambda>x' r. if x' = x \<and> r = py + k then col else f x' r) data'"
proof -
  have n: "(py + k) * w + x < w * h" using assms(2,3) by (rule pixel_index_less)
  then have "pixel_offset (py + k) w x = 4 * ((py + k) * w + x)" using assms(5)
    by (intro pixel_offset_exact) (metis less_le_trans mult_less_mono2 zero_less_numeral)
  then have "paint_row w h py x col k data = put_pixel (4 * ((py + k) * w + x)) col data"
    using assms(3,4) by (simp add: paint_row_def checked_u32_def)
  moreover obtain data' where d: "put_pixel (4 * ((py + k) * w + x)) col data = Some data'" "length data' = 4 * (w * h)"
    "\<forall>m < w * h. pixel_at data' m = (if m = (py + k) * w + x then col else pixel_at data m)"
    using put_pixel_spec [OF n _ assms(6), of data] assms(1) by (auto simp only: shows_pixels_def)
  moreover have "shows_pixels w h (\<lambda>x' r. if x' = x \<and> r = py + k then col else f x' r) data'"
    unfolding shows_pixels_def
  proof (intro conjI allI impI)
    fix x' r assume "x' < w" "r < h"
    then show "pixel_at data' (r * w + x') = (if x' = x \<and> r = py + k then col else f x' r)"
      using d(3) pixel_index_less [of x' w r h] pixel_index_eq [of x' w x r "py + k"] assms(1,2)
      by (auto simp: shows_pixels_def)
  qed (use d in simp)
  ultimately show ?thesis by simp
qed

lemma paint_rows_show:
  assumes "shows_pixels w h f data" and "x < w" and "py + n \<le> h" and "h \<le> u32_max" and "4 * (w * h) \<le> 2 ^ 32" and "length col = 4"
  shows "\<exists>data'. fold_option (paint_row w h py x col) [0 ..< n] data = Some data' \<and>
    shows_pixels w h (\<lambda>x' r. if x' = x \<and> py \<le> r \<and> r < py + n then col else f x' r) data'"
  using assms(3)
proof (induction n)
  case 0
  have "(\<lambda>x' r. if x' = x \<and> py \<le> r \<and> r < py then col else f x' r) = f" by (auto simp: fun_eq_iff)
  then show ?case using assms(1) by simp
next
  case (Suc n)
  then obtain d where d: "fold_option (paint_row w h py x col) [0 ..< n] data = Some d"
    "shows_pixels w h (\<lambda>x' r. if x' = x \<and> py \<le> r \<and> r < py + n then col else f x' r) d" by auto
  obtain e where e: "paint_row w h py x col n d = Some e"
    "shows_pixels w h (\<lambda>x' r. if x' = x \<and> r = py + n then col else if x' = x \<and> py \<le> r \<and> r < py + n then col else f x' r) e"
    using paint_row_shows [OF d(2) assms(2) _ assms(4-6), of py n] Suc(2) by auto
  have "(\<lambda>x' r. if x' = x \<and> r = py + n then col else if x' = x \<and> py \<le> r \<and> r < py + n then col else f x' r) =
      (\<lambda>x' r. if x' = x \<and> py \<le> r \<and> r < py + Suc n then col else f x' r)"
    by (auto simp: fun_eq_iff)
  with d(1) e show ?case by (simp add: fold_option_append)
qed

lemma paint_pixels_show:
  assumes "shows_pixels w h f data" and "distinct (map fst ps)" and "\<forall>p \<in> set ps. fst (fst p) < w \<and> snd (fst p) < lh \<and> length (snd p) = 4"
    and "h = lh * s" and "h \<le> u32_max" and "4 * (w * h) \<le> 2 ^ 32" and "0 < s"
  shows "\<exists>data'. fold_option (paint_pixel w lh h s) ps data = Some data' \<and>
    shows_pixels w h (\<lambda>x r. case map_of ps (x, r div s) of Some col \<Rightarrow> col | None \<Rightarrow> f x r) data'"
  using assms(1-3)
proof (induction ps arbitrary: f data)
  case (Cons p ps)
  obtain x y col where p: "p = ((x, y), col)" by (metis prod.exhaust)
  have b: "x < w" "y < lh" "length col = 4" using Cons(4) p by auto
  have ys: "y * s + s \<le> h"
  proof -
    have "Suc y * s \<le> lh * s" using b(2) by (intro mult_le_mono1) simp
    then show ?thesis using assms(4) by simp
  qed
  have rows: "(y * s \<le> r \<and> r < y * s + s) = (r div s = y)" for r
  proof
    show "y * s \<le> r \<and> r < y * s + s \<Longrightarrow> r div s = y" by (intro div_nat_eqI) (simp_all add: mult.commute)
    show "r div s = y \<Longrightarrow> y * s \<le> r \<and> r < y * s + s"
      using assms(7) dividend_less_div_times [of s r] by (auto simp: add.commute)
  qed
  obtain d where d: "fold_option (paint_row w h (y * s) x col) [0 ..< s] data = Some d"
    "shows_pixels w h (\<lambda>x' r. if x' = x \<and> r div s = y then col else f x' r) d"
    using paint_rows_show [OF Cons(2) b(1) ys assms(5,6) b(3)] by (auto simp: rows)
  have paint: "paint_pixel w lh h s p data = Some d"
    using d(1) b ys assms(5) by (simp add: paint_pixel_def p checked_u32_def)
  have eqf: "(\<lambda>x' r. case map_of ps (x', r div s) of Some c \<Rightarrow> c | None \<Rightarrow> if x' = x \<and> r div s = y then col else f x' r) =
      (\<lambda>x' r. case map_of (p # ps) (x', r div s) of Some c \<Rightarrow> c | None \<Rightarrow> f x' r)"
    using Cons(3) by (auto simp: fun_eq_iff p split: option.splits dest!: map_of_SomeD intro: rev_image_eqI)
  show ?case using Cons(1) [OF d(2)] Cons(3,4) paint by (simp only: fold_option_simps eqf [symmetric]) simp
qed simp

section \<open>The canvas\<close>

definition canvas_ok :: "sixel_canvas \<Rightarrow> bool" where
  "canvas_ok c \<longleftrightarrow> distinct (map fst (sx_pixels c)) \<and>
     (\<forall>p \<in> set (sx_pixels c). fst (fst p) \<le> sx_max_x c \<and> snd (fst p) \<le> sx_max_y c \<and> length (snd p) = 4) \<and>
     length (sx_color c) = 4 \<and> (\<forall>p \<in> set (sx_palette c). length (snd p) = 4)"

lemma set_update: "p \<in> set (AList.update k v al) \<Longrightarrow> p = (k, v) \<or> p \<in> set al"
  by (induction al) (auto split: if_splits)

lemma canvas_new_ok: "canvas_ok (canvas_new opts)"
  by (auto simp: canvas_ok_def canvas_new_def vt340_default_sixel_palette_def dest!: set_zip_rightD)

lemma write_bit_ok: "canvas_ok c \<Longrightarrow> canvas_ok (write_bit bits b c)"
  by (auto simp: canvas_ok_def write_bit_def Let_def distinct_update dest!: set_update intro: le_max_iff_disj [THEN iffD2])

lemma write_column_ok: "canvas_ok c \<Longrightarrow> canvas_ok (write_column bits c)"
proof -
  assume "canvas_ok c"
  then have "canvas_ok (fold (write_bit bits) xs c)" for xs by (induction xs arbitrary: c) (simp_all add: write_bit_ok)
  from this [of "[0 ..< 6]"] show ?thesis by (simp add: write_column_def Let_def canvas_ok_def)
qed

lemma write_sixel_ok: "canvas_ok c \<Longrightarrow> canvas_ok (write_sixel ch n c)"
proof -
  assume c: "canvas_ok c"
  have "canvas_ok ((write_column bits ^^ k) c)" for bits k by (induction k) (simp_all add: c write_column_ok)
  with c show ?thesis by (simp add: write_sixel_def write_bits_def split: option.split)
qed

lemma define_color_ok: "canvas_ok c \<Longrightarrow> length col = 4 \<Longrightarrow> canvas_ok (define_color i col c)"
  by (auto simp: canvas_ok_def define_color_def dest!: set_update)

lemma color_introducer_ok: "canvas_ok c \<Longrightarrow> canvas_ok (color_introducer ps c)"
proof -
  assume c: "canvas_ok c"
  have "canvas_ok (select_color i c)" for i
    using c by (auto simp: canvas_ok_def select_color_def split: option.splits dest!: map_of_SomeD)
  moreover have "canvas_ok (define_hls_color i a b d c)" "canvas_ok (define_rgb_color i a b d c)" for i a b d
    by (simp_all add: define_hls_color_def define_rgb_color_def define_color_ok c sixel_hls_to_rgba_def Let_def)
  ultimately show ?thesis using c by (simp add: color_introducer_def split: option.split)
qed

lemma cursor_canvas_ok:
  "canvas_ok c \<Longrightarrow> canvas_ok (canvas_carriage_return c)" "canvas_ok c \<Longrightarrow> canvas_ok (canvas_newline c)"
  "canvas_ok c \<Longrightarrow> canvas_ok (raster_attributes ps c)"
  by (simp_all add: canvas_ok_def canvas_carriage_return_def canvas_newline_def raster_attributes_def set_raster_attributes_def)

lemma draw_sixels_ok: "canvas_ok c \<Longrightarrow> canvas_ok (draw_sixels s c)"
proof (induction s c rule: draw_sixels.induct)
  case (2 ch cs c)
  note ok = 2(7) write_sixel_ok [OF 2(7)] color_introducer_ok [OF 2(7)] cursor_canvas_ok [OF 2(7)]
  consider "ch = 0x24" | "ch = 0x2D" | "ch = 0x21" | "ch = 0x23" | "ch = 0x22" | "ch \<notin> {0x24, 0x2D, 0x21, 0x23, 0x22}" by blast
  then show ?case
  proof cases
    case 1 then show ?thesis using 2(1) ok by simp
  next
    case 2 then show ?thesis using "2.IH"(2) ok by simp
  next
    case 3 then show ?thesis using "2.IH"(3) ok by (simp add: Let_def split: list.split)
  next
    case 4 then show ?thesis using "2.IH"(4) ok by simp
  next
    case 5 then show ?thesis using "2.IH"(5) ok by simp
  next
    case 6 then show ?thesis using "2.IH"(6) ok by simp
  qed
qed simp

section \<open>The image\<close>

lemma background_length: "canvas_ok c \<Longrightarrow> length (background_color c) = 4"
  by (auto simp: canvas_ok_def background_color_def split: sixel_background.split option.split dest!: map_of_SomeD)

lemma background_shows:
  assumes "length col = 4" shows "shows_pixels w h (\<lambda>x r. col) (concat (replicate (w * h) col))"
proof -
  have "length (concat (replicate n col)) = 4 * n" for n using assms by (induction n) auto
  moreover have "pixel_at (concat (replicate n col)) m = col" if "m < n" for n m
    using that
  proof (induction n arbitrary: m)
    case (Suc n)
    then show ?case using assms by (cases m) (auto simp: pixel_at_def)
  qed simp
  ultimately show ?thesis by (auto simp: shows_pixels_def pixel_index_less)
qed

lemma into_image_shows:
  assumes c: "canvas_ok c" and drawn: "sx_pixels c \<noteq> [] \<or> sx_background c = Background_Opaque"
    and size: "image_size c = Some (w, lh)" and pos: "0 < w" "0 < lh" "0 < sx_scale c"
    and h: "h = lh * sx_scale c" "h \<le> u32_max" and small: "4 * (w * h) \<le> 2 ^ 32"
  shows "\<exists>data. into_image c = Some \<lparr>si_width = w, si_height = h, si_data = data\<rparr> \<and>
    shows_pixels w h (\<lambda>x r. case map_of (sx_pixels c) (x, r div sx_scale c) of Some col \<Rightarrow> col | None \<Rightarrow> background_color c) data"
proof -
  have inside: "\<forall>p \<in> set (sx_pixels c). fst (fst p) < w \<and> snd (fst p) < lh \<and> length (snd p) = 4"
  proof (cases "sx_pixels c = []")
    case False
    then have "sx_max_x c < w \<and> sx_max_y c < lh"
      using size by (auto simp: image_size_def checked_u32_def less_max_iff_disj split: if_splits option.splits)
    with c show ?thesis by (auto simp: canvas_ok_def)
  qed simp
  have "distinct (map fst (sx_pixels c))" using c by (simp add: canvas_ok_def)
  from paint_pixels_show [OF background_shows [OF background_length [OF c]] this inside h small pos(3)]
  obtain data where d: "fold_option (paint_pixel w lh h (sx_scale c)) (sx_pixels c)
      (concat (replicate (w * h) (background_color c))) = Some data"
    "shows_pixels w h (\<lambda>x r. case map_of (sx_pixels c) (x, r div sx_scale c) of Some col \<Rightarrow> col | None \<Rightarrow> background_color c) data"
    by blast
  have "w * h * 4 \<le> usize_max" "w * h \<le> usize_max" using small by (simp_all add: usize_max_def mult.commute [of w h])
  moreover have "checked_u32 (lh * sx_scale c) = Some h" using h by (simp add: checked_u32_def)
  moreover have "\<not> (sx_pixels c = [] \<and> sx_background c = Background_Transparent)" using drawn by auto
  moreover have "0 < h" using h(1) pos by simp
  ultimately have "into_image c = Some \<lparr>si_width = w, si_height = h, si_data = data\<rparr>"
    using size pos d(1) by (simp add: into_image_def)
  with d(2) show ?thesis by blast
qed

end
