(* ===== verification/Term_Sixel_Reference.thy ===== *)
theory Term_Sixel_Reference
  imports Term_Sixel_Laws
begin

text \<open>
  A reference for drawing sixels: a control string is a list of commands, and a list of commands is the dots that a pen makes, in order. What
  the canvas holds after a control string is, at every place, the colour of the last dot made there.
\<close>

section \<open>Commands\<close>

datatype sixel_command = Sx_return | Sx_newline | Sx_draw u8 u32 | Sx_color "u16 list" | Sx_raster "u16 list"

definition draw_command :: "nat \<Rightarrow> u32 \<Rightarrow> sixel_command list" where
  "draw_command ch n = (if 0x3F \<le> ch \<and> ch \<le> 0x7E then [Sx_draw (ch - 0x3F) n] else [])"

function sixel_commands :: "str \<Rightarrow> sixel_command list" where
  "sixel_commands [] = []"
| "sixel_commands (ch # cs) =
     (if ch = 0x24 then Sx_return # sixel_commands cs
      else if ch = 0x2D then Sx_newline # sixel_commands cs
      else if ch = 0x21 then
        (case dropWhile is_ascii_digit cs of
           [] \<Rightarrow> []
         | d # ds \<Rightarrow> draw_command d (opt_or 1 (parse_u32 (takeWhile is_ascii_digit cs))) @ sixel_commands ds)
      else if ch = 0x23 then Sx_color (parse_sixel_numeric_params (takeWhile is_sixel_parameter cs)) # sixel_commands (dropWhile is_sixel_parameter cs)
      else if ch = 0x22 then Sx_raster (parse_sixel_numeric_params (takeWhile is_sixel_parameter cs)) # sixel_commands (dropWhile is_sixel_parameter cs)
      else draw_command ch 1 @ sixel_commands cs)"
  by pat_completeness auto
termination
proof (relation "measure length", goal_cases)
  case (4 ch cs d ds)
  then have "length (d # ds) \<le> length cs" by (metis length_dropWhile_le)
  then show ?case by simp
qed (simp_all add: le_imp_less_Suc length_dropWhile_le)

section \<open>The pen\<close>

record pen =
  pen_x :: nat
  pen_y :: nat
  pen_color :: rgba
  pen_palette :: "u16 \<rightharpoonup> rgba"

definition pen_new :: pen where
  "pen_new = \<lparr>pen_x = 0, pen_y = 0, pen_color = [0, 0, 0, 255],
     pen_palette = (\<lambda>i. if i < 16 then Some (vt340_default_sixel_palette ! i) else None)\<rparr>"

text \<open>A colour that is defined is chosen as well; one that is only named is chosen if the palette has it.\<close>

definition dip :: "u16 list \<Rightarrow> pen \<Rightarrow> pen" where
  "dip ps p =
     (let taken = (\<lambda>i. case pen_palette p i of None \<Rightarrow> p | Some col \<Rightarrow> p\<lparr>pen_color := col\<rparr>);
          put = (\<lambda>i col. p\<lparr>pen_color := col, pen_palette := (pen_palette p)(i \<mapsto> col)\<rparr>)
      in case ps of
           i # kind # a # b # d # _ \<Rightarrow>
             if kind = 1 then put i (sixel_hls_to_rgba a b d)
             else if kind = 2 then put i (map sixel_percent_to_u8 [a, b, d] @ [255])
             else taken i
         | i # _ \<Rightarrow> taken i
         | [] \<Rightarrow> p)"

fun move_pen :: "sixel_command \<Rightarrow> pen \<Rightarrow> pen" where
  "move_pen Sx_return p = p\<lparr>pen_x := 0\<rparr>"
| "move_pen Sx_newline p = p\<lparr>pen_x := 0, pen_y := min u32_max (pen_y p + 6)\<rparr>"
| "move_pen (Sx_draw bits n) p = p\<lparr>pen_x := min u32_max (pen_x p + max 1 n)\<rparr>"
| "move_pen (Sx_color ps) p = dip ps p"
| "move_pen (Sx_raster ps) p = p"

type_synonym dot = "(nat \<times> nat) \<times> rgba"

definition column_dots :: "u8 \<Rightarrow> pen \<Rightarrow> dot list" where
  "column_dots bits p = [((pen_x p, min u32_max (pen_y p + b)), pen_color p). b \<leftarrow> [0 ..< 6], odd (bits div 2 ^ b)]"

fun dots :: "sixel_command \<Rightarrow> pen \<Rightarrow> dot list" where
  "dots (Sx_draw bits n) p = concat (map (\<lambda>k. column_dots bits (p\<lparr>pen_x := min u32_max (pen_x p + k)\<rparr>)) [0 ..< max 1 n])"
| "dots _ p = []"

fun plotted :: "sixel_command list \<Rightarrow> pen \<Rightarrow> dot list" where
  "plotted [] p = []"
| "plotted (c # cs) p = dots c p @ plotted cs (move_pen c p)"

text \<open>The size: what the raster attributes declare last, and how far the dots reach.\<close>

fun declared :: "nat \<Rightarrow> sixel_command list \<Rightarrow> nat \<Rightarrow> nat" where
  "declared i [] d = d"
| "declared i (Sx_raster ps # cs) d = declared i cs (if 4 \<le> length ps \<and> 0 < ps ! i then ps ! i else d)"
| "declared i (_ # cs) d = declared i cs d"

fun stretch :: "sixel_command list \<Rightarrow> nat \<Rightarrow> nat" where
  "stretch [] s = s"
| "stretch (Sx_raster ps # cs) s = stretch cs (if 4 \<le> length ps then sixel_pixel_height_scale (ps ! 0) (ps ! 1) else s)"
| "stretch (_ # cs) s = stretch cs s"

definition reach :: "(nat \<times> nat \<Rightarrow> nat) \<Rightarrow> dot list \<Rightarrow> nat" where
  "reach f ds = (if ds = [] then 0 else Max (f ` fst ` set ds) + 1)"

section \<open>The canvas follows the pen\<close>

fun run_command :: "sixel_command \<Rightarrow> sixel_canvas \<Rightarrow> sixel_canvas" where
  "run_command Sx_return = canvas_carriage_return"
| "run_command Sx_newline = canvas_newline"
| "run_command (Sx_draw bits n) = write_bits bits n"
| "run_command (Sx_color ps) = color_introducer ps"
| "run_command (Sx_raster ps) = raster_attributes ps"

lemma run_draw: "fold run_command (draw_command ch n) c = write_sixel ch n c"
  by (simp add: draw_command_def write_sixel_def sixel_bits_def)

lemma draw_sixels_commands: "draw_sixels s c = fold run_command (sixel_commands s) c"
proof (induction s c rule: draw_sixels.induct)
  case (2 ch cs c)
  consider "ch = 0x24" | "ch = 0x2D" | "ch = 0x21" | "ch = 0x23" | "ch = 0x22" | "ch \<notin> {0x24, 0x2D, 0x21, 0x23, 0x22}" by blast
  then show ?case
  proof cases
    case 1 then show ?thesis using "2.IH"(1) by simp
  next
    case 2 then show ?thesis using "2.IH"(2) by simp
  next
    case 3
    show ?thesis
    proof (cases "dropWhile is_ascii_digit cs")
      case (Cons d ds)
      then show ?thesis using "2.IH"(3) [OF _ _ 3 refl Cons] 3 by (simp add: Let_def run_draw)
    next
      case Nil
      then show ?thesis using 3 by (simp add: Let_def del: dropWhile_eq_Nil_conv)
    qed
  next
    case 4 then show ?thesis using "2.IH"(4) by simp
  next
    case 5 then show ?thesis using "2.IH"(5) by simp
  next
    case 6 then show ?thesis using "2.IH"(6) by (simp add: run_draw)
  qed
qed simp

text \<open>A canvas, the pen, and the dots made so far.\<close>

definition drawn :: "sixel_canvas \<Rightarrow> pen \<Rightarrow> dot list \<Rightarrow> bool" where
  "drawn c p ds \<longleftrightarrow> sx_x c = pen_x p \<and> sx_y c = pen_y p \<and> sx_color c = pen_color p \<and> map_of (sx_palette c) = pen_palette p \<and>
     map_of (sx_pixels c) = map_of (rev ds) \<and> (sx_pixels c = [] \<longleftrightarrow> ds = []) \<and>
     (ds \<noteq> [] \<longrightarrow> sx_max_x c = Max (fst ` fst ` set ds) \<and> sx_max_y c = Max (snd ` fst ` set ds)) \<and>
     (ds = [] \<longrightarrow> sx_max_x c = 0 \<and> sx_max_y c = 0) \<and> pen_x p \<le> u32_max"

lemma default_palette: "map_of (zip [0 ..< 16] vt340_default_sixel_palette) = (\<lambda>i. if i < 16 then Some (vt340_default_sixel_palette ! i) else None)"
proof
  fix i :: nat
  have len: "length [0 ..< 16 :: nat] = length vt340_default_sixel_palette" by (simp add: vt340_default_sixel_palette_def)
  show "map_of (zip [0 ..< 16] vt340_default_sixel_palette) i = (if i < 16 then Some (vt340_default_sixel_palette ! i) else None)"
  proof (cases "i < 16")
    case True
    then show ?thesis using map_of_zip_nth [OF len distinct_upt, of i] len by (simp del: upt_conv_Cons)
  next
    case False
    then have "map_of (zip [0 ..< 16] vt340_default_sixel_palette) i = None"
      unfolding map_of_eq_None_iff by (auto dest!: set_zip_leftD simp del: upt_conv_Cons)
    then show ?thesis using False by simp
  qed
qed

lemma drawn_new: "drawn (canvas_new opts) pen_new []"
  by (simp add: drawn_def canvas_new_def pen_new_def u32_max_def default_palette)

lemma Max_snoc:
  fixes f :: "'a \<Rightarrow> nat"
  shows "Max (f ` fst ` set (ds @ [(q, col)])) = (if ds = [] then f q else max (Max (f ` fst ` set ds)) (f q))"
  by (simp add: max.commute)

lemma drawn_dot:
  assumes "drawn c p ds" and "y = min u32_max (pen_y p + b)"
  shows "drawn (c\<lparr>sx_pixels := AList.update (sx_x c, y) (sx_color c) (sx_pixels c),
      sx_max_x := max (sx_max_x c) (sx_x c), sx_max_y := max (sx_max_y c) y\<rparr>) p (ds @ [((pen_x p, y), pen_color p)])"
proof -
  have "AList.update k v al \<noteq> []" for k v and al :: "('k \<times> 'v) list" by (cases al) auto
  then show ?thesis using assms by (cases "ds = []") (auto simp: drawn_def update_conv' Max_snoc simp del: set_append)
qed

lemma drawn_bit:
  "drawn c p ds \<Longrightarrow> drawn (write_bit bits b c) p (ds @ (if odd (bits div 2 ^ b) then [((pen_x p, min u32_max (pen_y p + b)), pen_color p)] else []))"
  using drawn_dot [of c p ds _ b] by (simp add: write_bit_def Let_def sat_add_u32_def drawn_def odd_iff_mod_2_eq_one)

lemma drawn_bits:
  "drawn c p ds \<Longrightarrow> drawn (fold (write_bit bits) bs c) p
     (ds @ concat (map (\<lambda>b. if odd (bits div 2 ^ b) then [((pen_x p, min u32_max (pen_y p + b)), pen_color p)] else []) bs))"
proof (induction bs arbitrary: c ds)
  case (Cons b bs)
  from Cons(1) [OF drawn_bit [OF Cons(2), of bits b]] show ?case by simp
qed simp

lemma drawn_column:
  "drawn c p ds \<Longrightarrow> drawn (write_column bits c) (p\<lparr>pen_x := min u32_max (pen_x p + 1)\<rparr>) (ds @ column_dots bits p)"
  using drawn_bits [of c p ds bits "[0 ..< 6]"]
  by (simp add: write_column_def column_dots_def drawn_def sat_add_u32_def Let_def)

lemma drawn_columns:
  "drawn c p ds \<Longrightarrow> drawn ((write_column bits ^^ n) c) (p\<lparr>pen_x := min u32_max (pen_x p + n)\<rparr>)
     (ds @ concat (map (\<lambda>k. column_dots bits (p\<lparr>pen_x := min u32_max (pen_x p + k)\<rparr>)) [0 ..< n]))"
proof (induction n)
  case 0
  then show ?case by (cases p) (simp add: drawn_def)
next
  case (Suc n)
  have "min u32_max (min u32_max (pen_x p + n) + 1) = min u32_max (pen_x p + Suc n)" by simp
  with drawn_column [OF Suc(1) [OF Suc(2)], of bits] show ?case by simp
qed

lemma drawn_select:
  "drawn c p ds \<Longrightarrow> drawn (select_color i c) (case pen_palette p i of None \<Rightarrow> p | Some col \<Rightarrow> p\<lparr>pen_color := col\<rparr>) ds"
  by (auto simp: drawn_def select_color_def split: option.split)

lemma drawn_define:
  "drawn c p ds \<Longrightarrow> drawn (define_color i col c) (p\<lparr>pen_color := col, pen_palette := (pen_palette p)(i \<mapsto> col)\<rparr>) ds"
  by (simp add: drawn_def define_color_def update_conv')

lemma five_cases:
  obtains "ps = []" | i rest where "ps = i # rest" "length rest < 4"
  | i k a b d rest where "ps = i # k # a # b # d # rest"
proof (cases "5 \<le> length ps")
  case True
  then obtain i k a b d rest where "ps = i # k # a # b # d # rest" by (auto simp: numeral_eq_Suc Suc_le_length_iff)
  then show ?thesis by (rule that(3))
next
  case False
  then show ?thesis using that(1,2) by (cases ps) auto
qed

lemma drawn_color: "drawn c p ds \<Longrightarrow> drawn (color_introducer ps c) (dip ps p) ds"
proof (cases ps rule: five_cases)
  case 1
  then show "drawn c p ds \<Longrightarrow> ?thesis" by (simp add: color_introducer_def dip_def nth_opt_def)
next
  case (2 i rest)
  moreover have "dip (i # rest) p = (case pen_palette p i of None \<Rightarrow> p | Some col \<Rightarrow> p\<lparr>pen_color := col\<rparr>)"
    using 2(2) by (simp add: dip_def split: list.split) (auto split: option.split)
  ultimately show "drawn c p ds \<Longrightarrow> ?thesis" by (simp add: color_introducer_def nth_opt_def drawn_select)
next
  case (3 i k a b d rest)
  then show "drawn c p ds \<Longrightarrow> ?thesis"
    by (simp add: color_introducer_def dip_def nth_opt_def drawn_select drawn_define define_hls_color_def define_rgb_color_def)
qed

lemma drawn_command: "drawn c p ds \<Longrightarrow> drawn (run_command cmd c) (move_pen cmd p) (ds @ dots cmd p)"
proof (cases cmd)
  case (Sx_draw bits n)
  then show "drawn c p ds \<Longrightarrow> ?thesis" using drawn_columns [where n = "max 1 n" and bits = bits] by (simp add: write_bits_def)
qed (simp_all add: drawn_color, simp_all add: drawn_def canvas_carriage_return_def canvas_newline_def sat_add_u32_def
      raster_attributes_def set_raster_attributes_def)

lemma drawn_commands:
  "drawn c p ds \<Longrightarrow> drawn (fold run_command cmds c) (fold move_pen cmds p) (ds @ plotted cmds p)"
proof (induction cmds arbitrary: c p ds)
  case (Cons cmd cmds)
  from Cons(1) [OF drawn_command [OF Cons(2)]] show ?case by simp
qed simp

section \<open>Size and background\<close>

definition keeps_form :: "sixel_canvas \<Rightarrow> sixel_canvas \<Rightarrow> bool" where
  "keeps_form c c' \<longleftrightarrow> sx_background c' = sx_background c \<and> sx_declared_width c' = sx_declared_width c \<and>
     sx_declared_height c' = sx_declared_height c \<and> sx_scale c' = sx_scale c"

lemma write_bits_form: "keeps_form c (write_bits bits n c)"
proof -
  have "keeps_form c (fold (write_bit bits) bs c)" for bs c
    by (induction bs arbitrary: c) (simp_all add: keeps_form_def write_bit_def Let_def)
  then have "keeps_form c (write_column bits c)" for c by (simp add: keeps_form_def write_column_def Let_def)
  then have "keeps_form c ((write_column bits ^^ k) c)" for k by (induction k) (simp_all add: keeps_form_def)
  then show ?thesis by (simp add: write_bits_def)
qed

lemma color_introducer_form: "keeps_form c (color_introducer ps c)"
  by (simp add: keeps_form_def color_introducer_def define_hls_color_def define_rgb_color_def define_color_def select_color_def
      split: option.split)

lemma commands_form:
  "sx_background (fold run_command cmds c) = sx_background c \<and> sx_scale (fold run_command cmds c) = stretch cmds (sx_scale c) \<and>
   opt_or 0 (sx_declared_width (fold run_command cmds c)) = declared 2 cmds (opt_or 0 (sx_declared_width c)) \<and>
   opt_or 0 (sx_declared_height (fold run_command cmds c)) = declared 3 cmds (opt_or 0 (sx_declared_height c))"
proof (induction cmds arbitrary: c)
  case (Cons cmd cmds)
  have keep: "sx_background c' = sx_background c \<and> sx_scale c' = sx_scale c \<and> sx_declared_width c' = sx_declared_width c \<and>
    sx_declared_height c' = sx_declared_height c" if "keeps_form c c'" for c' using that by (simp add: keeps_form_def)
  show ?case
  proof (cases cmd)
    case (Sx_draw bits n)
    then show ?thesis using Cons [of "write_bits bits n c"] keep [OF write_bits_form] by simp
  next
    case (Sx_color ps)
    then show ?thesis using Cons [of "color_introducer ps c"] keep [OF color_introducer_form] by simp
  next
    case (Sx_raster ps)
    then show ?thesis using Cons [of "raster_attributes ps c"]
      by (simp add: raster_attributes_def set_raster_attributes_def opt_or_def)
  qed (use Cons in \<open>simp_all add: canvas_carriage_return_def canvas_newline_def\<close>)
qed simp

lemma reach_size:
  assumes "drawn c p ds" and "max (opt_or 0 (sx_declared_width c)) (reach fst ds) \<le> u32_max"
    and "max (opt_or 0 (sx_declared_height c)) (reach snd ds) \<le> u32_max"
  shows "image_size c = Some (max (opt_or 0 (sx_declared_width c)) (reach fst ds), max (opt_or 0 (sx_declared_height c)) (reach snd ds))"
  using assms by (cases "ds = []") (auto simp: drawn_def reach_def image_size_def checked_u32_def opt_or_def split: option.split)

text \<open>The background of an opaque image is what the palette has at 0 in the end.\<close>

definition paper :: "sixel_options \<Rightarrow> pen \<Rightarrow> rgba" where
  "paper opts p =
     (case so_background opts of
        Background_Opaque \<Rightarrow> (case pen_palette p 0 of Some col \<Rightarrow> col | None \<Rightarrow> [0, 0, 0, 255])
      | Background_Transparent \<Rightarrow> [0, 0, 0, 0])"

lemma draws_the_dots:
  fixes opts content
  defines "c \<equiv> draw_sixels content (canvas_new opts)" and "cmds \<equiv> sixel_commands content"
  shows "drawn c (fold move_pen cmds pen_new) (plotted cmds pen_new)"
    and "sx_scale c = stretch cmds (so_pixel_height_scale opts)" and "sx_background c = so_background opts"
    and "opt_or 0 (sx_declared_width c) = declared 2 cmds 0" and "opt_or 0 (sx_declared_height c) = declared 3 cmds 0"
  using drawn_commands [OF drawn_new [of opts], of cmds] commands_form [of cmds "canvas_new opts"]
  by (simp_all add: c_def cmds_def draw_sixels_commands canvas_new_def opt_or_def)

end
