(* ===== verification/Term_Kitty.thy ===== *)
theory Term_Kitty
  imports Term_Csi Utf8
begin

text \<open>
  The graphics protocol, \<open>rssh-terminal/src/parser.rs\<close>: the parameters of a command, uploads in one or
  several chunks, placements, placements relative to others, deletion and the responses. The decoders
  of base64 and zlib and the file system are parameters. A search for a free image number that never
  ends is \<open>None\<close>.
\<close>

section \<open>Text\<close>

text \<open>\<open>split_once\<close>, \<open>strip_prefix\<close> and the \<open>parse\<close> of numbers.\<close>

definition split_once :: "nat \<Rightarrow> str \<Rightarrow> (str \<times> str) option" where
  "split_once d s = map_option (\<lambda>i. (take i s, drop (i + 1) s)) (position (\<lambda>c. c = d) s)"

definition strip_start :: "str \<Rightarrow> str \<Rightarrow> str option" where
  "strip_start p s = (if take (length p) s = p then Some (drop (length p) s) else None)"

definition parse_digits_upto :: "nat \<Rightarrow> str \<Rightarrow> nat option" where
  "parse_digits_upto limit ds =
     (if ds = [] \<or> \<not> list_all is_ascii_digit ds then None
      else let v = foldl (\<lambda>v d. v * 10 + (d - 0x30)) 0 ds in if v \<le> limit then Some v else None)"

definition parse_unsigned :: "nat \<Rightarrow> str \<Rightarrow> nat option" where
  "parse_unsigned limit s = parse_digits_upto limit (case s of [] \<Rightarrow> [] | c # cs \<Rightarrow> if c = 0x2B then cs else s)"

definition parse_i32 :: "str \<Rightarrow> i32 option" where
  "parse_i32 s =
     (case s of
        [] \<Rightarrow> None
      | c # cs \<Rightarrow>
          if c = 0x2D then map_option (\<lambda>v. - int v) (parse_digits_upto (2 ^ 31) cs)
          else map_option int (parse_unsigned (2 ^ 31 - 1) s))"

definition parse_single_char :: "str \<Rightarrow> nat option" where
  "parse_single_char s = (case s of [c] \<Rightarrow> Some c | _ \<Rightarrow> None)"

section \<open>Parameters\<close>

record kitty_graphics_params =
  kp_action :: "nat option"
  kp_format :: "u32 option"
  kp_medium :: "nat option"
  kp_compression :: "nat option"
  kp_image_id :: "u32 option"
  kp_image_number :: "u32 option"
  kp_placement_id :: "u32 option"
  kp_parent_image_id :: "u32 option"
  kp_parent_placement_id :: "u32 option"
  kp_parent_offset_columns :: "i32 option"
  kp_parent_offset_rows :: "i32 option"
  kp_z_index :: "i32 option"
  kp_delete_target :: "nat option"
  kp_cell_x :: "u16 option"
  kp_cell_y :: "u16 option"
  kp_more_chunks :: "u8 option"
  kp_pixel_width :: "u32 option"
  kp_pixel_height :: "u32 option"
  kp_display_columns :: "u16 option"
  kp_display_rows :: "u16 option"
  kp_no_cursor_movement :: bool
  kp_virtual_placement :: bool
  kp_source_x :: "u32 option"
  kp_source_y :: "u32 option"
  kp_source_width :: "u32 option"
  kp_source_height :: "u32 option"
  kp_target_x :: "u32 option"
  kp_target_y :: "u32 option"
  kp_file_offset :: "u64 option"
  kp_file_size :: "u64 option"
  kp_quiet :: "u8 option"

definition params_default :: kitty_graphics_params where
  "params_default = \<lparr>kp_action = None, kp_format = None, kp_medium = None, kp_compression = None, kp_image_id = None,
     kp_image_number = None, kp_placement_id = None, kp_parent_image_id = None, kp_parent_placement_id = None,
     kp_parent_offset_columns = None, kp_parent_offset_rows = None, kp_z_index = None, kp_delete_target = None,
     kp_cell_x = None, kp_cell_y = None, kp_more_chunks = None, kp_pixel_width = None, kp_pixel_height = None,
     kp_display_columns = None, kp_display_rows = None, kp_no_cursor_movement = False, kp_virtual_placement = False,
     kp_source_x = None, kp_source_y = None, kp_source_width = None, kp_source_height = None, kp_target_x = None,
     kp_target_y = None, kp_file_offset = None, kp_file_size = None, kp_quiet = None\<rparr>"

definition params_source_rect :: "kitty_graphics_params \<Rightarrow> kitty_source_rect" where
  "params_source_rect p = \<lparr>rect_x = kp_source_x p, rect_y = kp_source_y p, rect_width = kp_source_width p,
     rect_height = kp_source_height p\<rparr>"

definition upload_source_rect :: "pending_kitty_graphics \<Rightarrow> kitty_source_rect" where
  "upload_source_rect u = \<lparr>rect_x = pk_source_x u, rect_y = pk_source_y u, rect_width = pk_source_width u,
     rect_height = pk_source_height u\<rparr>"

definition set_kitty_param :: "nat \<Rightarrow> str \<Rightarrow> kitty_graphics_params \<Rightarrow> kitty_graphics_params" where
  "set_kitty_param k v p =
     (if k = 0x61 then p\<lparr>kp_action := parse_single_char v\<rparr>
      else if k = 0x64 then p\<lparr>kp_delete_target := parse_single_char v\<rparr>
      else if k = 0x66 then p\<lparr>kp_format := parse_u32 v\<rparr>
      else if k = 0x69 then p\<lparr>kp_image_id := parse_positive_u32 v\<rparr>
      else if k = 0x49 then p\<lparr>kp_image_number := parse_positive_u32 v\<rparr>
      else if k = 0x70 then p\<lparr>kp_placement_id := parse_positive_u32 v\<rparr>
      else if k = 0x50 then p\<lparr>kp_parent_image_id := parse_positive_u32 v\<rparr>
      else if k = 0x51 then p\<lparr>kp_parent_placement_id := parse_positive_u32 v\<rparr>
      else if k = 0x74 then p\<lparr>kp_medium := parse_single_char v\<rparr>
      else if k = 0x6F then p\<lparr>kp_compression := parse_single_char v\<rparr>
      else if k = 0x6D then p\<lparr>kp_more_chunks := parse_unsigned 255 v\<rparr>
      else if k = 0x73 then p\<lparr>kp_pixel_width := parse_positive_u32 v\<rparr>
      else if k = 0x76 then p\<lparr>kp_pixel_height := parse_positive_u32 v\<rparr>
      else if k = 0x63 then p\<lparr>kp_display_columns := parse_positive_u16 v\<rparr>
      else if k = 0x72 then p\<lparr>kp_display_rows := parse_positive_u16 v\<rparr>
      else if k = 0x43 then p\<lparr>kp_no_cursor_movement := (v = [0x31])\<rparr>
      else if k = 0x55 then p\<lparr>kp_virtual_placement := (v = [0x31])\<rparr>
      else if k = 0x77 then p\<lparr>kp_source_width := parse_positive_u32 v\<rparr>
      else if k = 0x68 then p\<lparr>kp_source_height := parse_positive_u32 v\<rparr>
      else if k = 0x58 then p\<lparr>kp_target_x := parse_u32 v\<rparr>
      else if k = 0x59 then p\<lparr>kp_target_y := parse_u32 v\<rparr>
      else if k = 0x48 then p\<lparr>kp_parent_offset_columns := parse_i32 v\<rparr>
      else if k = 0x56 then p\<lparr>kp_parent_offset_rows := parse_i32 v\<rparr>
      else if k = 0x78 then p\<lparr>kp_cell_x := parse_positive_u16 v, kp_source_x := parse_u32 v\<rparr>
      else if k = 0x79 then p\<lparr>kp_cell_y := parse_positive_u16 v, kp_source_y := parse_u32 v\<rparr>
      else if k = 0x7A then p\<lparr>kp_z_index := parse_i32 v\<rparr>
      else if k = 0x4F then p\<lparr>kp_file_offset := parse_unsigned u64_max v\<rparr>
      else if k = 0x53 then p\<lparr>kp_file_size := parse_unsigned u64_max v\<rparr>
      else if k = 0x71 then p\<lparr>kp_quiet := parse_unsigned 255 v\<rparr>
      else p)"

definition parse_kitty_graphics_params :: "str \<Rightarrow> kitty_graphics_params" where
  "parse_kitty_graphics_params control =
     fold (\<lambda>part p. case split_once 0x3D part of
         Some ([k], v) \<Rightarrow> set_kitty_param k v p
       | _ \<Rightarrow> p) (filter (\<lambda>part. part \<noteq> []) (split_on 0x2C control)) params_default"

section \<open>Uploads\<close>

datatype kitty_start_error = Start_Action | Start_Medium | Start_Compression | Start_Format

fun start_error_message :: "kitty_start_error \<Rightarrow> str" where
  "start_error_message Start_Action = str_of ''Unsupported action''"
| "start_error_message Start_Medium = str_of ''Unsupported transmission medium''"
| "start_error_message Start_Compression = str_of ''Unsupported compression''"
| "start_error_message Start_Format = str_of ''Unsupported image format''"

definition upload_action_of :: "nat option \<Rightarrow> kitty_upload_action option" where
  "upload_action_of a =
     (case a of
        None \<Rightarrow> Some Upload_Store
      | Some c \<Rightarrow> if c = 0x54 then Some Upload_Display else if c = 0x74 then Some Upload_Store
          else if c = 0x71 then Some Upload_Query else None)"

definition start_kitty_graphics_upload :: "kitty_graphics_params \<Rightarrow> str \<Rightarrow> kitty_start_error + pending_kitty_graphics" where
  "start_kitty_graphics_upload p encoded_data =
     (case upload_action_of (kp_action p) of
        None \<Rightarrow> Inl Start_Action
      | Some action \<Rightarrow>
          let m = opt_or 0x64 (kp_medium p); f = opt_or 32 (kp_format p) in
          if m \<noteq> 0x64 \<and> m \<noteq> 0x66 \<and> m \<noteq> 0x74 then Inl Start_Medium
          else if kp_compression p \<noteq> None \<and> kp_compression p \<noteq> Some 0x7A then Inl Start_Compression
          else if f \<noteq> 24 \<and> f \<noteq> 32 \<and> f \<noteq> 100 then Inl Start_Format
          else Inr \<lparr>pk_format = (if f = 24 then Format_Rgb else if f = 32 then Format_Rgba else Format_Encoded),
            pk_medium = (if m = 0x64 then Medium_Direct else if m = 0x66 then Medium_File else Medium_TempFile),
            pk_compression = kp_compression p, pk_action = action, pk_image_id = kp_image_id p,
            pk_image_number = kp_image_number p, pk_placement_id = kp_placement_id p, pk_z_index = kp_z_index p,
            pk_pixel_width = kp_pixel_width p, pk_pixel_height = kp_pixel_height p,
            pk_display_columns = kp_display_columns p, pk_display_rows = kp_display_rows p,
            pk_no_cursor_movement = kp_no_cursor_movement p, pk_source_x = kp_source_x p, pk_source_y = kp_source_y p,
            pk_source_width = kp_source_width p, pk_source_height = kp_source_height p, pk_target_x = kp_target_x p,
            pk_target_y = kp_target_y p, pk_file_offset = kp_file_offset p, pk_file_size = kp_file_size p,
            pk_quiet = kp_quiet p, pk_virtual_placement = kp_virtual_placement p, pk_encoded_data = encoded_data\<rparr>)"

text \<open>
  The code outside the repository and the system: the tables of character widths, the composition to
  NFC and the classes of combining marks, \<open>STANDARD.decode\<close> of base64, the inflating of zlib, the
  canonical path of a path, the temporary directory, and the bytes read from a regular file from an
  offset on, at most so many. What the file system answers may depend on the files removed so far.
\<close>

record host =
  host_unicode :: unicode_data
  host_nfc :: "str \<Rightarrow> str"
  host_combining_class :: "nat \<Rightarrow> nat"
  host_base64 :: "str \<Rightarrow> u8 list option"
  host_inflate :: "u8 list \<Rightarrow> u8 list option"
  host_canonicalize :: "str list \<Rightarrow> str \<Rightarrow> str option"
  host_temp_dir :: str
  host_read :: "str list \<Rightarrow> str \<Rightarrow> u64 option \<Rightarrow> u64 option \<Rightarrow> u8 list option"

datatype kitty_data_error = InvalidBase64 | InvalidFile | UnsupportedCompression

fun data_error_message :: "kitty_data_error \<Rightarrow> str" where
  "data_error_message InvalidBase64 = str_of ''Invalid base64 payload''"
| "data_error_message InvalidFile = str_of ''Invalid file payload''"
| "data_error_message UnsupportedCompression = str_of ''Unsupported compression''"

text \<open>\<open>str::contains\<close>, and \<open>Path::starts_with\<close> on the components of canonical paths.\<close>

definition str_contains :: "str \<Rightarrow> str \<Rightarrow> bool" where
  "str_contains needle s \<longleftrightarrow> list_ex (\<lambda>i. take (length needle) (drop i s) = needle) [0 ..< Suc (length s)]"

definition path_components :: "str \<Rightarrow> str list" where
  "path_components p = filter (\<lambda>c. c \<noteq> []) (split_on 0x2F p)"

definition path_starts_with :: "str \<Rightarrow> str \<Rightarrow> bool" where
  "path_starts_with p d \<longleftrightarrow> take (length (path_components d)) (path_components p) = path_components d"

definition kitty_temp_directories :: "host \<Rightarrow> str list" where
  "kitty_temp_directories h = [host_temp_dir h, str_of ''/tmp'', str_of ''/var/tmp'', str_of ''/dev/shm'']"

definition kitty_temp_file_can_be_deleted :: "host \<Rightarrow> str list \<Rightarrow> str \<Rightarrow> bool" where
  "kitty_temp_file_can_be_deleted h removed path =
     (case host_canonicalize h removed path of
        None \<Rightarrow> False
      | Some p \<Rightarrow> str_contains (str_of ''tty-graphics-protocol'') p \<and>
          list_ex (\<lambda>d. case host_canonicalize h removed d of None \<Rightarrow> False | Some d \<Rightarrow> path_starts_with p d)
            (kitty_temp_directories h))"

definition read_kitty_graphics_file_payload ::
  "host \<Rightarrow> str list \<Rightarrow> str \<Rightarrow> u64 option \<Rightarrow> u64 option \<Rightarrow> bool \<Rightarrow> (kitty_data_error + u8 list) \<times> str list" where
  "read_kitty_graphics_file_payload h removed encoded_path offset limit delete_after_read =
     (case host_base64 h encoded_path of
        None \<Rightarrow> (Inl InvalidBase64, removed)
      | Some bytes \<Rightarrow>
          (case from_utf8 bytes of
             None \<Rightarrow> (Inl InvalidFile, removed)
           | Some path \<Rightarrow>
               (case host_read h removed path offset limit of
                  None \<Rightarrow> (Inl InvalidFile, removed)
                | Some data \<Rightarrow> (Inr data,
                    if delete_after_read \<and> kitty_temp_file_can_be_deleted h removed path then path # removed else removed))))"

definition decode_kitty_graphics_payload :: "host \<Rightarrow> nat option \<Rightarrow> u8 list \<Rightarrow> u8 list option" where
  "decode_kitty_graphics_payload h compression data =
     (case compression of None \<Rightarrow> Some data | Some c \<Rightarrow> if c = 0x7A then host_inflate h data else None)"

definition load_kitty_graphics_payload ::
  "host \<Rightarrow> pending_kitty_graphics \<Rightarrow> str list \<Rightarrow> (kitty_data_error + u8 list) \<times> str list" where
  "load_kitty_graphics_payload h u removed =
     (let file = read_kitty_graphics_file_payload h removed (pk_encoded_data u) (pk_file_offset u) (pk_file_size u) in
      case (case pk_medium u of
          Medium_Direct \<Rightarrow> (case host_base64 h (pk_encoded_data u) of None \<Rightarrow> Inl InvalidBase64 | Some d \<Rightarrow> Inr d, removed)
        | Medium_File \<Rightarrow> file False
        | Medium_TempFile \<Rightarrow> file True) of
        (Inl e, removed) \<Rightarrow> (Inl e, removed)
      | (Inr data, removed) \<Rightarrow>
          (case decode_kitty_graphics_payload h (pk_compression u) data of
             None \<Rightarrow> (Inl UnsupportedCompression, removed) | Some d \<Rightarrow> (Inr d, removed)))"

definition kitty_graphics_payload_is_supported :: "inline_image_format \<Rightarrow> u32 option \<Rightarrow> u32 option \<Rightarrow> usize \<Rightarrow> bool" where
  "kitty_graphics_payload_is_supported fmt pw ph payload_len =
     (case fmt of
        Format_Encoded \<Rightarrow> True
      | _ \<Rightarrow>
          (case (pw, ph) of
             (Some w, Some h) \<Rightarrow>
               (let n = w * h * (if fmt = Format_Rgb then 3 else 4) in
                w * h \<le> usize_max \<and> n \<le> usize_max \<and> payload_len = n)
           | _ \<Rightarrow> False))"

section \<open>Responses\<close>

definition kitty_graphics_response_is_suppressed :: "kitty_graphics_params \<Rightarrow> str \<Rightarrow> bool" where
  "kitty_graphics_response_is_suppressed p status =
     (if kp_quiet p = Some 1 then status = str_of ''OK'' else if kp_quiet p = Some 2 then status \<noteq> str_of ''OK'' else False)"

definition append_kitty_graphics_response_param :: "nat \<Rightarrow> u32 option \<Rightarrow> u8 list \<times> bool \<Rightarrow> u8 list \<times> bool" where
  "append_kitty_graphics_response_param name v r =
     (case v of None \<Rightarrow> r
      | Some n \<Rightarrow> (fst r @ (if snd r then [0x2C] else []) @ [name, 0x3D] @ decimal n, True))"

definition kitty_response :: "kitty_graphics_params \<Rightarrow> str \<Rightarrow> u8 list" where
  "kitty_response p status =
     fst (append_kitty_graphics_response_param 0x70 (kp_placement_id p)
       (append_kitty_graphics_response_param 0x49 (kp_image_number p)
         (append_kitty_graphics_response_param 0x69 (kp_image_id p) ([0x1B, 0x5F, 0x47], False)))) @
     [0x3B] @ filter (\<lambda>b. \<not> (b \<le> 0x1F \<or> b = 0x7F)) (as_bytes status) @ [0x1B, 0x5C]"

definition push_kitty_graphics_response :: "kitty_graphics_params \<Rightarrow> str \<Rightarrow> graphics \<Rightarrow> graphics" where
  "push_kitty_graphics_response p status g =
     (if kitty_graphics_response_is_suppressed p status then g
      else g\<lparr>kitty_graphics_responses := kitty_graphics_responses g @ [kitty_response p status]\<rparr>)"

definition push_kitty_graphics_ok_response :: "kitty_graphics_params \<Rightarrow> graphics \<Rightarrow> graphics" where
  "push_kitty_graphics_ok_response p = push_kitty_graphics_response p (str_of ''OK'')"

definition push_kitty_graphics_error_response :: "kitty_graphics_params \<Rightarrow> str \<Rightarrow> str \<Rightarrow> graphics \<Rightarrow> graphics" where
  "push_kitty_graphics_error_response p code message = push_kitty_graphics_response p (code @ [0x3A] @ message)"

definition kitty_response_params_with_image_id :: "kitty_graphics_params \<Rightarrow> u32 \<Rightarrow> kitty_graphics_params" where
  "kitty_response_params_with_image_id p image_id = p\<lparr>kp_image_id := Some image_id\<rparr>"

definition kitty_response_params_from_upload :: "pending_kitty_graphics \<Rightarrow> kitty_graphics_params" where
  "kitty_response_params_from_upload u = params_default\<lparr>kp_image_id := pk_image_id u, kp_image_number := pk_image_number u,
     kp_placement_id := pk_placement_id u, kp_quiet := pk_quiet u\<rparr>"

definition kitty_params_should_respond :: "kitty_graphics_params \<Rightarrow> bool" where
  "kitty_params_should_respond p \<longleftrightarrow> kp_action p = Some 0x71 \<or> kp_image_id p \<noteq> None \<or> kp_image_number p \<noteq> None"

definition kitty_upload_should_respond :: "pending_kitty_graphics \<Rightarrow> bool" where
  "kitty_upload_should_respond u \<longleftrightarrow> pk_action u = Upload_Query \<or>
     kitty_params_should_respond (kitty_response_params_from_upload u)"

definition push_kitty_graphics_upload_ok_response :: "pending_kitty_graphics \<Rightarrow> u32 \<Rightarrow> graphics \<Rightarrow> graphics" where
  "push_kitty_graphics_upload_ok_response u image_id =
     push_kitty_graphics_ok_response ((kitty_response_params_from_upload u)\<lparr>kp_image_id := Some image_id\<rparr>)"

definition push_kitty_graphics_upload_error_response :: "pending_kitty_graphics \<Rightarrow> kitty_data_error \<Rightarrow> graphics \<Rightarrow> graphics" where
  "push_kitty_graphics_upload_error_response u e =
     push_kitty_graphics_error_response (kitty_response_params_from_upload u) (str_of ''EINVAL'') (data_error_message e)"

definition push_kitty_graphics_upload_start_error :: "kitty_graphics_params \<Rightarrow> kitty_start_error \<Rightarrow> graphics \<Rightarrow> graphics" where
  "push_kitty_graphics_upload_start_error p e g =
     (if kitty_params_should_respond p
      then push_kitty_graphics_error_response p (str_of ''EINVAL'') (start_error_message e) g else g)"

definition no_image_with_number :: "u32 \<Rightarrow> str" where
  "no_image_with_number n = str_of ''No image with number '' @ decimal n"

definition push_no_image :: "kitty_graphics_params \<Rightarrow> u32 \<Rightarrow> graphics \<Rightarrow> graphics" where
  "push_no_image p image_id =
     push_kitty_graphics_error_response (kitty_response_params_with_image_id p image_id) (str_of ''ENOENT'')
       (case kp_image_number p of Some n \<Rightarrow> no_image_with_number n | None \<Rightarrow> str_of ''No image with id '' @ decimal image_id)"

definition kitty_image_id_from_params :: "kitty_graphics_params \<Rightarrow> graphics \<Rightarrow> u32 option" where
  "kitty_image_id_from_params p g =
     (case kp_image_id p of Some i \<Rightarrow> Some i | None \<Rightarrow> Option.bind (kp_image_number p) (map_of (kitty_image_numbers g)))"

end
