(* ===== verification/Term_Kitty_Place.thy ===== *)
theory Term_Kitty_Place
  imports Term_Kitty
begin

text \<open>
  The commands of the graphics protocol, \<open>rssh-terminal/src/parser.rs\<close>: queries, uploads, placements,
  placements relative to another one, and deletions.
\<close>

section \<open>Deleting placements\<close>

text \<open>
  Removing the placements whose parents are removed, in turns until a turn removes nothing. The state
  of the loop: the images, the identities removed, those removed by this loop, and the removed keys.
\<close>

type_synonym child_removal = "graphics \<times> u32 list \<times> u32 list \<times> kitty_placement_key list"

definition removed_child :: "graphics \<Rightarrow> kitty_placement_key list \<Rightarrow> inline_image \<Rightarrow> bool" where
  "removed_child g keys im =
     (case kitty_image_placement_key im of
        None \<Rightarrow> False
      | Some k \<Rightarrow> (case map_of (kitty_relative_parents g) k of None \<Rightarrow> False | Some p \<Rightarrow> p \<in> set keys))"

lemma ensure_images [simp]: "inline_images (ensure_inline_image_parent_ids g) = inline_images g"
  by (simp add: ensure_inline_image_parent_ids_def Let_def)

lemma ensure_ids_length [simp]: "length (inline_image_parent_ids (ensure_inline_image_parent_ids g)) = length (inline_images g)"
  by (simp add: ensure_inline_image_parent_ids_def Let_def)

lemma retain_images [simp]: "inline_images (retain_inline_images keep g) = filter keep (inline_images g)"
proof -
  have "map fst (filter (\<lambda>(im, pid). keep im) (zip xs ys)) = filter keep xs" if "length xs = length ys"
    for xs and ys :: "u64 list"
    using that by (induction rule: list_induct2) auto
  then show ?thesis
    by (simp add: retain_inline_images_def retain_kitty_character_edited_placements_def Let_def)
qed

function delete_relative_kitty_children :: "child_removal \<Rightarrow> child_removal" where
  "delete_relative_kitty_children (g, removed, relative, keys) =
     (let gone = filter (removed_child g keys) (inline_images g);
          ids = List.map_filter im_kitty_image_id gone;
          g = retain_inline_images (\<lambda>im. \<not> removed_child g keys im) g
      in if gone = [] then (g, removed, relative, keys)
         else delete_relative_kitty_children (g, removed @ ids, relative @ ids,
           keys @ List.map_filter kitty_image_placement_key gone))"
  by pat_completeness auto
termination
proof (relation "measure (\<lambda>(g, _). length (inline_images g))", goal_cases)
  case (2 g removed relative keys gone ids g')
  then obtain im where "im \<in> set (inline_images g)" "removed_child g keys im"
    by (auto simp: filter_empty_conv)
  then have "length (filter (\<lambda>im. \<not> removed_child g keys im) (inline_images g)) < length (inline_images g)"
    by (intro length_filter_less) auto
  with 2 show ?case by simp
qed simp

declare delete_relative_kitty_children.simps [simp del]

definition delete_placements :: "bool \<Rightarrow> (inline_image \<Rightarrow> bool) \<Rightarrow> graphics \<Rightarrow> bool \<times> graphics" where
  "delete_placements remove_unreferenced_data matches g =
     (let gone = filter matches (inline_images g) in
      case delete_relative_kitty_children (retain_inline_images (\<lambda>im. \<not> matches im) g,
          List.map_filter im_kitty_image_id gone, [], List.map_filter kitty_image_placement_key gone) of
        (g1, removed, relative, keys) \<Rightarrow>
          (let changed = length (inline_images g1) \<noteq> length (inline_images g);
               g2 = (if changed then remove_unreferenced_kitty_images relative
                   (if remove_unreferenced_data then remove_unreferenced_kitty_images removed g1 else g1) else g1)
           in (changed, delete_orphan_kitty_relative_children g2)))"

definition delete_kitty_placements :: "bool \<Rightarrow> (inline_image \<Rightarrow> bool) \<Rightarrow> terminal \<Rightarrow> terminal" where
  "delete_kitty_placements remove_unreferenced_data matches t =
     (case upd_images_flag (delete_placements remove_unreferenced_data matches) t of
        (changed, t) \<Rightarrow> damage_all_if changed (grid_size (grid t)) t)"

definition kitty_placeholder_render_keys :: "graphics \<Rightarrow> (usize \<times> u16 \<times> u32 \<times> u32 option) list" where
  "kitty_placeholder_render_keys g =
     List.map_filter (\<lambda>((row, column), lp). kitty_placeholder_render_key row column lp g) (kitty_placeholder_cells g)"

definition kitty_image_matches_placeholder_render :: "inline_image \<Rightarrow> (usize \<times> u16 \<times> u32 \<times> u32 option) list \<Rightarrow> bool" where
  "kitty_image_matches_placeholder_render im keys =
     (case im_kitty_image_id im of None \<Rightarrow> False
      | Some i \<Rightarrow> (im_row im, im_column im, i, im_kitty_placement_id im) \<in> set keys)"

definition delete_kitty_physical_placements :: "bool \<Rightarrow> (inline_image \<Rightarrow> bool) \<Rightarrow> terminal \<Rightarrow> terminal" where
  "delete_kitty_physical_placements remove_unreferenced_data matches t =
     (let keys = kitty_placeholder_render_keys (images t) in
      delete_kitty_placements remove_unreferenced_data
        (\<lambda>im. \<not> kitty_image_matches_placeholder_render im keys \<and> matches im) t)"

definition discard_kitty_character_edited_placements :: "kitty_placement_key list \<Rightarrow> terminal \<Rightarrow> terminal" where
  "discard_kitty_character_edited_placements keys t =
     (let keep = Set.filter (\<lambda>k. k \<notin> set keys);
          t = upd_images (\<lambda>g. g\<lparr>kitty_character_edited_placements := keep (kitty_character_edited_placements g)\<rparr>) t
      in t\<lparr>main_screen := map_option (\<lambda>s. s\<lparr>saved_graphics := (saved_graphics s)\<lparr>kitty_character_edited_placements :=
           keep (kitty_character_edited_placements (saved_graphics s))\<rparr>\<rparr>) (main_screen t)\<rparr>)"

text \<open>Dropping the virtual placements that satisfy a test.\<close>

definition drop_virtual_placements :: "(kitty_virtual_placement \<Rightarrow> bool) \<Rightarrow> terminal \<Rightarrow> terminal" where
  "drop_virtual_placements gone t =
     (let keys = map fst (filter (\<lambda>(k, vp). gone vp) (kitty_virtual_placements (images t)));
          t = upd_images (\<lambda>g. g\<lparr>kitty_virtual_placements := filter (\<lambda>(k, vp). \<not> gone vp) (kitty_virtual_placements g)\<rparr>) t
      in upd_images retain_kitty_character_edited_placements (discard_kitty_character_edited_placements keys t))"

definition delete_kitty_virtual_placements_by_image_id :: "u32 \<Rightarrow> u32 option \<Rightarrow> terminal \<Rightarrow> terminal" where
  "delete_kitty_virtual_placements_by_image_id image_id placement_id =
     drop_virtual_placements (\<lambda>vp. vp_image_id vp = image_id \<and>
       (placement_id = None \<or> vp_placement_id vp = placement_id))"

definition delete_kitty_placements_by_image_id :: "u32 \<Rightarrow> u32 option \<Rightarrow> bool \<Rightarrow> terminal \<Rightarrow> terminal" where
  "delete_kitty_placements_by_image_id image_id placement_id remove_unreferenced_data t =
     (let t = delete_kitty_virtual_placements_by_image_id image_id placement_id t;
          t = (case placement_id of
              Some p \<Rightarrow> delete_kitty_placements False
                (\<lambda>im. im_kitty_image_id im = Some image_id \<and> im_kitty_placement_id im = Some p) t
            | None \<Rightarrow> delete_kitty_placements False (\<lambda>im. im_kitty_image_id im = Some image_id) t)
      in if remove_unreferenced_data then upd_images (remove_unreferenced_kitty_images [image_id]) t else t)"

definition delete_kitty_placements_by_image_id_range :: "u32 \<Rightarrow> u32 \<Rightarrow> bool \<Rightarrow> terminal \<Rightarrow> terminal" where
  "delete_kitty_placements_by_image_id_range first_id last_id remove_unreferenced_data t =
     (if first_id > last_id then t
      else let removed = filter (\<lambda>i. first_id \<le> i \<and> i \<le> last_id) (map fst (kitty_images (images t)));
               t = drop_virtual_placements (\<lambda>vp. first_id \<le> vp_image_id vp \<and> vp_image_id vp \<le> last_id) t;
               t = delete_kitty_placements False (\<lambda>im. case im_kitty_image_id im of None \<Rightarrow> False
                 | Some i \<Rightarrow> first_id \<le> i \<and> i \<le> last_id) t
        in if remove_unreferenced_data then upd_images (remove_unreferenced_kitty_images removed) t else t)"

section \<open>Where a deletion points\<close>

definition zero_based_axis :: "u16 \<Rightarrow> u16 option" where
  "zero_based_axis v = checked_sub v 1"

definition visible_history_row :: "u16 \<Rightarrow> terminal \<Rightarrow> usize option" where
  "visible_history_row one_based t =
     (case zero_based_axis one_based of None \<Rightarrow> None
      | Some row \<Rightarrow> if row < rows_of t then Some (length (scrollback t) + row) else None)"

definition visible_history_rows :: "terminal \<Rightarrow> usize \<times> usize" where
  "visible_history_rows t = (length (scrollback t), length (scrollback t) + rows_of t)"

definition kitty_delete_cell :: "kitty_graphics_params \<Rightarrow> terminal \<Rightarrow> (usize \<times> u16) option" where
  "kitty_delete_cell p t =
     (case Option.bind (kp_cell_y p) (\<lambda>y. visible_history_row y t) of
        None \<Rightarrow> None
      | Some row \<Rightarrow> map_option (\<lambda>column. (row, column)) (Option.bind (kp_cell_x p) zero_based_axis))"

definition kitty_image_intersects_cell :: "inline_image \<Rightarrow> usize \<Rightarrow> u16 \<Rightarrow> bool" where
  "kitty_image_intersects_cell im row column \<longleftrightarrow> im_kitty_image_id im \<noteq> None \<and>
     (case kitty_image_column_range im of (left, right) \<Rightarrow> case kitty_image_row_range im of (upper, lower) \<Rightarrow>
        row \<ge> upper \<and> row < lower \<and> column \<ge> left \<and> column < right)"

definition kitty_image_intersects_column :: "inline_image \<Rightarrow> usize \<Rightarrow> usize \<Rightarrow> u16 \<Rightarrow> bool" where
  "kitty_image_intersects_column im first_row last_row column \<longleftrightarrow> im_kitty_image_id im \<noteq> None \<and>
     (case kitty_image_column_range im of (left, right) \<Rightarrow> case kitty_image_row_range im of (upper, lower) \<Rightarrow>
        column \<ge> left \<and> column < right \<and> upper < last_row \<and> lower > first_row)"

definition kitty_image_intersects_row :: "inline_image \<Rightarrow> usize \<Rightarrow> bool" where
  "kitty_image_intersects_row im row \<longleftrightarrow> im_kitty_image_id im \<noteq> None \<and>
     (case kitty_image_row_range im of (upper, lower) \<Rightarrow> row \<ge> upper \<and> row < lower)"

definition apply_kitty_graphics_delete :: "kitty_graphics_params \<Rightarrow> terminal \<Rightarrow> terminal" where
  "apply_kitty_graphics_delete p t =
     (let t = upd_images (\<lambda>g. g\<lparr>pending_upload := None\<rparr>) t;
          d = opt_or 0x61 (kp_delete_target p); free = (\<lambda>c. kp_delete_target p = Some c) in
      if d = 0x61 \<or> d = 0x41 then
        (case visible_history_rows t of (first_row, last_row) \<Rightarrow>
           delete_kitty_physical_placements (free 0x41) (\<lambda>im. im_kitty_image_id im \<noteq> None \<and>
             inline_image_intersects_region im first_row last_row 0 (columns_of t)) t)
      else if d = 0x69 \<or> d = 0x49 then
        (case kp_image_id p of None \<Rightarrow> t
         | Some i \<Rightarrow> delete_kitty_placements_by_image_id i (kp_placement_id p) (free 0x49) t)
      else if d = 0x6E \<or> d = 0x4E then
        (case Option.bind (kp_image_number p) (map_of (kitty_image_numbers (images t))) of None \<Rightarrow> t
         | Some i \<Rightarrow> delete_kitty_placements_by_image_id i (kp_placement_id p) (free 0x4E) t)
      else if d = 0x72 \<or> d = 0x52 then
        (case (kp_cell_x p, kp_cell_y p) of
           (Some a, Some b) \<Rightarrow> delete_kitty_placements_by_image_id_range a b (free 0x52) t
         | _ \<Rightarrow> t)
      else if d = 0x63 \<or> d = 0x43 then
        (let row = current_history_row t; column = cursor_column t in
         delete_kitty_physical_placements (free 0x43) (\<lambda>im. kitty_image_intersects_cell im row column) t)
      else if d = 0x70 \<or> d = 0x50 then
        (case kitty_delete_cell p t of None \<Rightarrow> t
         | Some (row, column) \<Rightarrow>
             delete_kitty_physical_placements (free 0x50) (\<lambda>im. kitty_image_intersects_cell im row column) t)
      else if d = 0x78 \<or> d = 0x58 then
        (case Option.bind (kp_cell_x p) zero_based_axis of None \<Rightarrow> t
         | Some column \<Rightarrow> (case visible_history_rows t of (first_row, last_row) \<Rightarrow>
             delete_kitty_physical_placements (free 0x58)
               (\<lambda>im. kitty_image_intersects_column im first_row last_row column) t))
      else if d = 0x79 \<or> d = 0x59 then
        (case Option.bind (kp_cell_y p) (\<lambda>y. visible_history_row y t) of None \<Rightarrow> t
         | Some row \<Rightarrow> delete_kitty_physical_placements (free 0x59) (\<lambda>im. kitty_image_intersects_row im row) t)
      else if d = 0x7A \<or> d = 0x5A then
        (case kp_z_index p of None \<Rightarrow> t
         | Some z \<Rightarrow> delete_kitty_physical_placements (free 0x5A)
             (\<lambda>im. im_kitty_image_id im \<noteq> None \<and> im_kitty_z_index im = Some z) t)
      else if d = 0x71 \<or> d = 0x51 then
        (case kp_z_index p of None \<Rightarrow> t
         | Some z \<Rightarrow> (case kitty_delete_cell p t of None \<Rightarrow> t
             | Some (row, column) \<Rightarrow> delete_kitty_physical_placements (free 0x51)
                 (\<lambda>im. im_kitty_z_index im = Some z \<and> kitty_image_intersects_cell im row column) t))
      else t)"

section \<open>Placements\<close>

definition kitty_virtual_placement_key :: "u32 \<Rightarrow> u32 option \<Rightarrow> kitty_placement_key" where
  "kitty_virtual_placement_key image_id placement_id = (image_id, opt_or 0 placement_id)"

definition placement_options :: "kitty_graphics_params \<Rightarrow> u32 \<Rightarrow> kitty_placement_options" where
  "placement_options p image_id = \<lparr>po_display_columns = kp_display_columns p, po_display_rows = kp_display_rows p,
     po_image_id = Some image_id, po_placement_id = kp_placement_id p, po_z_index = Some (opt_or 0 (kp_z_index p)),
     po_parent_placement = None, po_row = None, po_column = None, po_move_cursor = (\<not> kp_no_cursor_movement p),
     po_source_rect = params_source_rect p, po_target_x = kp_target_x p, po_target_y = kp_target_y p\<rparr>"

definition store_kitty_virtual_placement :: "kitty_graphics_params \<Rightarrow> u32 \<Rightarrow> bool \<Rightarrow> graphics \<Rightarrow> graphics" where
  "store_kitty_virtual_placement p image_id respond g =
     (let g = g\<lparr>kitty_virtual_placements := AList.update (kitty_virtual_placement_key image_id (kp_placement_id p))
            \<lparr>vp_image_id = image_id, vp_placement_id = kp_placement_id p, vp_z_index = Some (opt_or 0 (kp_z_index p)),
             vp_display_columns = kp_display_columns p, vp_display_rows = kp_display_rows p,
             vp_source_rect = params_source_rect p, vp_target_x = kp_target_x p, vp_target_y = kp_target_y p\<rparr>
            (kitty_virtual_placements g)\<rparr>
      in if respond then push_kitty_graphics_ok_response (kitty_response_params_with_image_id p image_id) g else g)"

definition apply_kitty_virtual_placement :: "kitty_graphics_params \<Rightarrow> u32 \<Rightarrow> graphics \<Rightarrow> graphics" where
  "apply_kitty_virtual_placement p image_id g =
     (if map_of (kitty_images g) image_id = None then push_no_image p image_id g
      else store_kitty_virtual_placement p image_id True g)"

definition kitty_attachment_parent_origin :: "u32 \<Rightarrow> u32 \<Rightarrow> graphics \<Rightarrow> (usize \<times> u16) option" where
  "kitty_attachment_parent_origin image_id placement_id g =
     (case List.find (\<lambda>(im, pid). im_kitty_image_id im = Some image_id \<and> im_kitty_placement_id im = Some placement_id)
         (zip (inline_images g) (inline_image_parent_ids g)) of
        None \<Rightarrow> None
      | Some (im, pid) \<Rightarrow> attachment_origin (inline_image_attachments g) pid)"

definition kitty_virtual_parent_origin :: "u32 \<Rightarrow> u32 \<Rightarrow> graphics \<Rightarrow> (usize \<times> u16) option" where
  "kitty_virtual_parent_origin image_id placement_id g =
     fold (\<lambda>(r, c, i, p) best. if i = image_id \<and> p = Some placement_id
         then (case best of None \<Rightarrow> Some (r, c) | Some (r2, c2) \<Rightarrow> Some (min r2 r, min c2 c)) else best)
       (kitty_placeholder_render_keys g) None"

definition kitty_relative_parent_origin :: "u32 \<Rightarrow> u32 \<Rightarrow> graphics \<Rightarrow> (usize \<times> u16) option" where
  "kitty_relative_parent_origin image_id placement_id g =
     (let key = (image_id, placement_id);
          attached = kitty_attachment_parent_origin image_id placement_id g;
          cached = kitty_virtual_parent_origin image_id placement_id g in
      if map_of (kitty_virtual_placements g) key \<noteq> None
      then (if key \<in> kitty_character_edited_placements g then or_option attached cached else or_option cached attached)
      else or_option attached (map_option (\<lambda>im. (im_row im, im_column im))
        (List.find (\<lambda>im. im_kitty_image_id im = Some image_id \<and> im_kitty_placement_id im = Some placement_id)
          (inline_images g))))"

lemma unseen_shrinks:
  assumes "map_of rel p = Some q" and "p \<notin> set seen"
  shows "card (set (map fst rel) - set (p # seen)) < card (set (map fst rel) - set seen)"
proof (rule psubset_card_mono)
  show "set (map fst rel) - set (p # seen) \<subset> set (map fst rel) - set seen"
    using assms map_of_SomeD [OF assms(1)] by force
qed simp

text \<open>The walk from a placement to its parents; a placement is visited once.\<close>

function parent_chain_reaches :: "(kitty_placement_key \<times> kitty_placement_key) list \<Rightarrow> kitty_placement_key
    \<Rightarrow> kitty_placement_key list \<Rightarrow> kitty_placement_key \<Rightarrow> bool" where
  "parent_chain_reaches rel child seen p =
     (if p = child then True
      else if p \<in> set seen then False
      else case map_of rel p of None \<Rightarrow> False | Some q \<Rightarrow> parent_chain_reaches rel child (p # seen) q)"
  by pat_completeness auto
termination
proof (relation "measure (\<lambda>(rel, child, seen, p). card (set (map fst rel) - set seen))", goal_cases)
  case (2 rel child seen p q)
  then show ?case using unseen_shrinks [of rel p q seen] by simp
qed simp

function parent_chain_depth :: "(kitty_placement_key \<times> kitty_placement_key) list
    \<Rightarrow> kitty_placement_key list \<Rightarrow> kitty_placement_key \<Rightarrow> nat" where
  "parent_chain_depth rel seen p =
     (if p \<in> set seen then 0
      else case map_of rel p of None \<Rightarrow> 0 | Some q \<Rightarrow> Suc (parent_chain_depth rel (p # seen) q))"
  by pat_completeness auto
termination
proof (relation "measure (\<lambda>(rel, seen, p). card (set (map fst rel) - set seen))", goal_cases)
  case (2 rel seen p q)
  then show ?case using unseen_shrinks [of rel p q seen] by simp
qed simp

declare parent_chain_reaches.simps [simp del] parent_chain_depth.simps [simp del]

definition kitty_relative_placement_would_cycle :: "kitty_placement_key \<Rightarrow> kitty_placement_key \<Rightarrow> graphics \<Rightarrow> bool" where
  "kitty_relative_placement_would_cycle child parent g = parent_chain_reaches (kitty_relative_parents g) child [] parent"

definition kitty_relative_parent_depth :: "kitty_placement_key \<Rightarrow> graphics \<Rightarrow> nat" where
  "kitty_relative_parent_depth parent g = parent_chain_depth (kitty_relative_parents g) [] parent"

definition offset_kitty_history_row :: "usize \<Rightarrow> i32 \<Rightarrow> usize" where
  "offset_kitty_history_row row offset = (if offset \<ge> 0 then row + nat offset else row - nat (- offset))"

definition offset_kitty_column :: "u16 \<Rightarrow> i32 \<Rightarrow> u16" where
  "offset_kitty_column column offset = min u16_max (offset_kitty_history_row column offset)"

definition max_kitty_relative_chain_depth :: nat where "max_kitty_relative_chain_depth = 8"

definition apply_relative_kitty_graphics_placement :: "kitty_graphics_params \<Rightarrow> u32 \<Rightarrow> terminal \<Rightarrow> terminal" where
  "apply_relative_kitty_graphics_placement p image_id t =
     (let fail = (\<lambda>code message. upd_images (push_kitty_graphics_error_response
            (kitty_response_params_with_image_id p image_id) (str_of code) message) t) in
      if kp_virtual_placement p then fail ''EINVAL'' (str_of ''Virtual placements cannot be relative'')
      else case kp_parent_image_id p of
        None \<Rightarrow> t
      | Some pi \<Rightarrow>
          (case kp_parent_placement_id p of
             None \<Rightarrow> fail ''ENOPARENT'' (str_of ''No parent placement with id '' @ decimal pi)
           | Some pp \<Rightarrow>
               (case kitty_relative_parent_origin pi pp (images t) of
                  None \<Rightarrow> fail ''ENOPARENT'' (str_of ''No parent placement with id '' @ decimal pi @ str_of '',p='' @ decimal pp)
                | Some (parent_row, parent_column) \<Rightarrow>
                    if (case placement_key_of (Some image_id) (kp_placement_id p) of None \<Rightarrow> False
                        | Some child \<Rightarrow> kitty_relative_placement_would_cycle child (pi, pp) (images t))
                    then fail ''ECYCLE'' (str_of ''Relative placement cycle'')
                    else if kitty_relative_parent_depth (pi, pp) (images t) \<ge> max_kitty_relative_chain_depth
                    then fail ''ETOODEEP'' (str_of ''Relative placement chain too deep'')
                    else case map_of (kitty_images (images t)) image_id of
                      None \<Rightarrow> upd_images (push_no_image p image_id) t
                    | Some im \<Rightarrow>
                        upd_images (push_kitty_graphics_ok_response (kitty_response_params_with_image_id p image_id))
                          (place_kitty_image im ((placement_options p image_id)\<lparr>po_parent_placement := Some (pi, pp),
                             po_row := Some (offset_kitty_history_row parent_row (opt_or 0 (kp_parent_offset_rows p))),
                             po_column := Some (offset_kitty_column parent_column (opt_or 0 (kp_parent_offset_columns p))),
                             po_move_cursor := False\<rparr>) t))))"

definition apply_kitty_graphics_placement :: "kitty_graphics_params \<Rightarrow> terminal \<Rightarrow> terminal" where
  "apply_kitty_graphics_placement p t =
     (case kitty_image_id_from_params p (images t) of
        None \<Rightarrow> (case kp_image_number p of None \<Rightarrow> t
          | Some n \<Rightarrow> upd_images (push_kitty_graphics_error_response p (str_of ''ENOENT'') (no_image_with_number n)) t)
      | Some image_id \<Rightarrow>
          if kp_parent_image_id p \<noteq> None then apply_relative_kitty_graphics_placement p image_id t
          else if kp_virtual_placement p then upd_images (apply_kitty_virtual_placement p image_id) t
          else case map_of (kitty_images (images t)) image_id of
            None \<Rightarrow> upd_images (push_no_image p image_id) t
          | Some im \<Rightarrow> upd_images (push_kitty_graphics_ok_response (kitty_response_params_with_image_id p image_id))
              (place_kitty_image im (placement_options p image_id) t))"

section \<open>Uploads\<close>

text \<open>
  The first number from \<open>image_id\<close> on that is neither zero nor taken. At the greatest number the addition
  saturates: where that number is taken, the search does not end.
\<close>

function first_free_image_id :: "(u32 \<times> stored_kitty_image) list \<Rightarrow> u32 \<Rightarrow> u32 option" where
  "first_free_image_id stored image_id =
     (if image_id \<noteq> 0 \<and> map_of stored image_id = None then Some image_id
      else if image_id \<ge> u32_max then None
      else first_free_image_id stored (image_id + 1))"
  by pat_completeness auto
termination
  by (relation "measure (\<lambda>(stored, image_id). u32_max - image_id)") auto

declare first_free_image_id.simps [simp del]

definition take_next_kitty_image_id :: "graphics \<Rightarrow> (u32 \<times> graphics) option" where
  "take_next_kitty_image_id g =
     map_option (\<lambda>i. (i, g\<lparr>next_kitty_image_id := max 1 (min u32_max (i + 1))\<rparr>))
       (first_free_image_id (kitty_images g) (max 1 (next_kitty_image_id g)))"

definition upload_image :: "pending_kitty_graphics \<Rightarrow> u8 list \<Rightarrow> stored_kitty_image" where
  "upload_image u data = \<lparr>st_format = pk_format u, st_pixel_width = pk_pixel_width u, st_pixel_height = pk_pixel_height u,
     st_display_columns = pk_display_columns u, st_display_rows = pk_display_rows u, st_data = data\<rparr>"

definition virtual_params_of_upload :: "pending_kitty_graphics \<Rightarrow> u32 \<Rightarrow> kitty_graphics_params" where
  "virtual_params_of_upload u image_id = params_default\<lparr>kp_image_id := Some image_id, kp_image_number := pk_image_number u,
     kp_placement_id := pk_placement_id u, kp_z_index := pk_z_index u, kp_display_columns := pk_display_columns u,
     kp_display_rows := pk_display_rows u, kp_source_x := pk_source_x u, kp_source_y := pk_source_y u,
     kp_source_width := pk_source_width u, kp_source_height := pk_source_height u, kp_target_x := pk_target_x u,
     kp_target_y := pk_target_y u, kp_quiet := pk_quiet u, kp_virtual_placement := True\<rparr>"

definition upload_options :: "pending_kitty_graphics \<Rightarrow> u32 option \<Rightarrow> kitty_placement_options" where
  "upload_options u image_id = \<lparr>po_display_columns = pk_display_columns u, po_display_rows = pk_display_rows u,
     po_image_id = Some (opt_or 0 image_id), po_placement_id = (if image_id = None then None else pk_placement_id u),
     po_z_index = Some (opt_or 0 (pk_z_index u)), po_parent_placement = None, po_row = None, po_column = None,
     po_move_cursor = (\<not> pk_no_cursor_movement u), po_source_rect = upload_source_rect u,
     po_target_x = pk_target_x u, po_target_y = pk_target_y u\<rparr>"

definition show_upload :: "pending_kitty_graphics \<Rightarrow> stored_kitty_image \<Rightarrow> u32 option \<Rightarrow> terminal \<Rightarrow> terminal" where
  "show_upload u im image_id t =
     (if pk_action u \<noteq> Upload_Display then t
      else if pk_virtual_placement u
      then (case image_id of None \<Rightarrow> t
        | Some i \<Rightarrow> upd_images (store_kitty_virtual_placement (virtual_params_of_upload u i) i False) t)
      else place_kitty_image im (upload_options u image_id) t)"

definition store_upload :: "pending_kitty_graphics \<Rightarrow> stored_kitty_image \<Rightarrow> u32 \<Rightarrow> graphics \<Rightarrow> graphics" where
  "store_upload u im image_id g =
     (let g = g\<lparr>kitty_images := AList.update image_id im (kitty_images g)\<rparr>;
          g = (case pk_image_number u of None \<Rightarrow> g
            | Some n \<Rightarrow> g\<lparr>kitty_image_numbers := AList.update n image_id (kitty_image_numbers g)\<rparr>)
      in push_kitty_graphics_upload_ok_response u image_id g)"

definition finish_kitty_graphics_upload :: "host \<Rightarrow> pending_kitty_graphics \<Rightarrow> terminal \<Rightarrow> terminal option" where
  "finish_kitty_graphics_upload h u t =
     (case load_kitty_graphics_payload h u (removed_files (images t)) of (res, removed) \<Rightarrow>
        let t = upd_images (\<lambda>g. g\<lparr>removed_files := removed\<rparr>) t in
        case res of
          Inl e \<Rightarrow> Some (if kitty_upload_should_respond u
            then upd_images (push_kitty_graphics_upload_error_response u e) t else t)
        | Inr data \<Rightarrow>
            if \<not> kitty_graphics_payload_is_supported (pk_format u) (pk_pixel_width u) (pk_pixel_height u) (length data)
            then Some (if kitty_upload_should_respond u
              then upd_images (push_kitty_graphics_error_response (kitty_response_params_from_upload u) (str_of ''EINVAL'')
                (str_of ''Unsupported image data'')) t else t)
            else if pk_action u = Upload_Query
            then Some (upd_images (push_kitty_graphics_ok_response (kitty_response_params_from_upload u)) t)
            else let im = upload_image u data in
              case (pk_image_id u, pk_image_number u) of
                (Some i, _) \<Rightarrow>
                  Some (show_upload u im (Some i) (upd_images (store_upload u im i)
                    (delete_kitty_placements False (\<lambda>x. im_kitty_image_id x = Some i) t)))
              | (None, Some _) \<Rightarrow>
                  map_option (\<lambda>(i, g). show_upload u im (Some i) (upd_images (store_upload u im i) (t\<lparr>images := g\<rparr>)))
                    (take_next_kitty_image_id (images t))
              | (None, None) \<Rightarrow> Some (show_upload u im None t))"

section \<open>Commands\<close>

definition apply_kitty_graphics_stored_image_query :: "kitty_graphics_params \<Rightarrow> graphics \<Rightarrow> (bool \<times> graphics)" where
  "apply_kitty_graphics_stored_image_query p g =
     (if kp_image_id p = None \<and> kp_image_number p = None then (False, g)
      else case kitty_image_id_from_params p g of
        None \<Rightarrow> (True, case kp_image_number p of None \<Rightarrow> g
          | Some n \<Rightarrow> push_kitty_graphics_error_response p (str_of ''ENOENT'') (no_image_with_number n) g)
      | Some i \<Rightarrow> (True, if map_of (kitty_images g) i \<noteq> None
          then push_kitty_graphics_ok_response (kitty_response_params_with_image_id p i) g
          else push_no_image p i g))"

definition query_upload :: "host \<Rightarrow> kitty_graphics_params \<Rightarrow> pending_kitty_graphics \<Rightarrow> graphics \<Rightarrow> graphics" where
  "query_upload h p u g =
     (case load_kitty_graphics_payload h u (removed_files g) of (res, removed) \<Rightarrow>
        let g = g\<lparr>removed_files := removed\<rparr> in
        case res of
          Inl e \<Rightarrow> push_kitty_graphics_error_response p (str_of ''EINVAL'') (data_error_message e) g
        | Inr data \<Rightarrow>
            if kitty_graphics_payload_is_supported (pk_format u) (pk_pixel_width u) (pk_pixel_height u) (length data)
            then push_kitty_graphics_ok_response p g
            else push_kitty_graphics_error_response p (str_of ''EINVAL'') (str_of ''Unsupported image data'') g)"

definition apply_kitty_graphics_query :: "host \<Rightarrow> kitty_graphics_params \<Rightarrow> str \<Rightarrow> graphics \<Rightarrow> graphics" where
  "apply_kitty_graphics_query h p encoded_data g =
     (case (if encoded_data = [] then apply_kitty_graphics_stored_image_query p g else (False, g)) of
        (True, g) \<Rightarrow> g
      | (False, g) \<Rightarrow>
          (case start_kitty_graphics_upload p encoded_data of
             Inl e \<Rightarrow> push_kitty_graphics_upload_start_error p e g
           | Inr u \<Rightarrow> query_upload h p u g))"

definition begin_upload :: "host \<Rightarrow> kitty_graphics_params \<Rightarrow> str \<Rightarrow> bool \<Rightarrow> terminal \<Rightarrow> terminal option" where
  "begin_upload h p encoded_data chunked t =
     (case start_kitty_graphics_upload p encoded_data of
        Inl e \<Rightarrow> Some (upd_images (push_kitty_graphics_upload_start_error p e) t)
      | Inr u \<Rightarrow> if chunked then Some (upd_images (\<lambda>g. g\<lparr>pending_upload := Some u\<rparr>) t)
          else finish_kitty_graphics_upload h u t)"

definition apply_kitty_graphics :: "host \<Rightarrow> str \<Rightarrow> terminal \<Rightarrow> terminal option" where
  "apply_kitty_graphics h gr t =
     (if \<not> enable_kitty_graphics (images t) then Some (upd_images (\<lambda>g. g\<lparr>pending_upload := None\<rparr>) t)
      else case opt_or (gr, []) (split_once 0x3B gr) of (control, encoded_data) \<Rightarrow>
        let p = parse_kitty_graphics_params control in
        if kp_image_id p \<noteq> None \<and> kp_image_number p \<noteq> None
        then Some (upd_images (push_kitty_graphics_error_response p (str_of ''EINVAL'')
          (str_of ''Image id and image number are mutually exclusive'')) t)
        else if kp_action p = Some 0x71 \<and> kp_more_chunks p = None
        then Some (upd_images (apply_kitty_graphics_query h p encoded_data) t)
        else if kp_action p = Some 0x70 then Some (apply_kitty_graphics_placement p t)
        else if kp_action p = Some 0x64 then Some (apply_kitty_graphics_delete p t)
        else let t1 = upd_images (\<lambda>g. g\<lparr>pending_upload := None\<rparr>) t in
          case pending_upload (images t) of
            Some u \<Rightarrow>
              (let u = u\<lparr>pk_encoded_data := pk_encoded_data u @ encoded_data\<rparr> in
               if kp_more_chunks p = Some 0 then finish_kitty_graphics_upload h u t1
               else if kp_more_chunks p = Some 1 then Some (upd_images (\<lambda>g. g\<lparr>pending_upload := Some u\<rparr>) t1)
               else Some t1)
          | None \<Rightarrow>
              if kp_more_chunks p = Some 1 then begin_upload h p encoded_data True t1
              else if kp_more_chunks p = Some 0 \<or> kp_more_chunks p = None then begin_upload h p encoded_data False t1
              else Some t1)"

end
