(* ===== verification/Term_Osc.thy ===== *)
theory Term_Osc
  imports Term_Kitty_Place Term_Sixel
begin

text \<open>
  The contents of operating system commands, \<open>rssh-terminal/src/parser.rs\<close>: titles, the working directory,
  hyperlinks, semantic prompts and the commands of iTerm. \<open>parser\<close> has, beside the terminal, the fields of
  \<open>Terminal\<close> that only the input and these commands use.
\<close>

section \<open>State\<close>

record terminal_metadata =
  current_working_dir :: "str option"
  badge_format :: "str option"
  user_vars :: "(str \<times> str) list"
  working_dir_changed :: bool
  badge_changed :: bool
  changed_user_vars :: "str list"

record unicode_version_stack_entry =
  ve_version :: u32
  ve_label :: "str option"

record parser =
  core :: terminal
  metadata :: terminal_metadata
  unicode_version_stack :: "unicode_version_stack_entry list"
  normalize_output_to_unicode_nfc :: bool
  pending_utf8 :: "u8 list"
  pending_control :: str

definition metadata_new :: terminal_metadata where
  "metadata_new = \<lparr>current_working_dir = None, badge_format = None, user_vars = [], working_dir_changed = False,
     badge_changed = False, changed_user_vars = []\<rparr>"

definition parser_new :: "terminal_size \<Rightarrow> cursor_style \<Rightarrow> parser" where
  "parser_new sz cs = \<lparr>core = new_with_default_cursor_style sz cs, metadata = metadata_new, unicode_version_stack = [],
     normalize_output_to_unicode_nfc = False, pending_utf8 = [], pending_control = []\<rparr>"

definition upd_core :: "(terminal \<Rightarrow> terminal) \<Rightarrow> parser \<Rightarrow> parser" where
  "upd_core f p = p\<lparr>core := f (core p)\<rparr>"

definition set_unicode_version :: "u32 \<Rightarrow> parser \<Rightarrow> parser" where
  "set_unicode_version v p = (upd_core (\<lambda>t. t\<lparr>unicode_version := v\<rparr>) p)\<lparr>unicode_version_stack := []\<rparr>"

definition set_normalize_output_to_unicode_nfc :: "bool \<Rightarrow> parser \<Rightarrow> parser" where
  "set_normalize_output_to_unicode_nfc enabled p = p\<lparr>normalize_output_to_unicode_nfc := enabled\<rparr>"

definition set_enable_kitty_graphics :: "bool \<Rightarrow> parser \<Rightarrow> parser" where
  "set_enable_kitty_graphics enabled = upd_core (upd_images (\<lambda>g. g\<lparr>enable_kitty_graphics := enabled,
     pending_upload := (if enabled then pending_upload g else None)\<rparr>))"

definition take_kitty_graphics_responses :: "parser \<Rightarrow> u8 list list \<times> parser" where
  "take_kitty_graphics_responses p = (kitty_graphics_responses (images (core p)),
     upd_core (upd_images (\<lambda>g. g\<lparr>kitty_graphics_responses := []\<rparr>)) p)"

definition clear_pending_metadata_changes :: "parser \<Rightarrow> parser" where
  "clear_pending_metadata_changes p = (upd_core (\<lambda>t. t\<lparr>title_changed := False\<rparr>) p)\<lparr>metadata := (metadata p)\<lparr>
     working_dir_changed := False, badge_changed := False, changed_user_vars := []\<rparr>\<rparr>"

section \<open>Titles and the working directory\<close>

definition set_title :: "str \<Rightarrow> terminal \<Rightarrow> terminal" where
  "set_title ti t = t\<lparr>title_changed := (title_changed t \<or> title t \<noteq> Some ti), title := Some ti\<rparr>"

definition set_icon_and_window_title :: "str \<Rightarrow> terminal \<Rightarrow> terminal" where
  "set_icon_and_window_title ti t = (set_title ti t)\<lparr>icon_title := Some ti, window_title := Some ti\<rparr>"

definition set_icon_title :: "str \<Rightarrow> terminal \<Rightarrow> terminal" where
  "set_icon_title ti t = (set_title ti t)\<lparr>icon_title := Some ti\<rparr>"

definition set_window_title :: "str \<Rightarrow> terminal \<Rightarrow> terminal" where
  "set_window_title ti t = (set_title ti t)\<lparr>window_title := Some ti\<rparr>"

definition set_current_working_dir :: "str \<Rightarrow> parser \<Rightarrow> parser" where
  "set_current_working_dir d p =
     (if current_working_dir (metadata p) = Some d then p
      else p\<lparr>metadata := (metadata p)\<lparr>current_working_dir := Some d, working_dir_changed := True\<rparr>\<rparr>)"

section \<open>Hyperlinks and semantic prompts\<close>

definition apply_osc8_hyperlink :: "str \<Rightarrow> terminal \<Rightarrow> terminal" where
  "apply_osc8_hyperlink content t =
     (case split_once 0x3B content of
        None \<Rightarrow> t
      | Some (_, uri) \<Rightarrow> t\<lparr>style := (style t)\<lparr>hyperlink := (if uri = [] then None else Some uri)\<rparr>\<rparr>)"

definition fresh_line :: "terminal \<Rightarrow> terminal" where
  "fresh_line t = (if cursor_column t \<noteq> 0 then newline t else t)"

text \<open>The rows are in ascending order, where \<open>binary_search\<close> finds a row or the place for it.\<close>

definition record_semantic_prompt_row :: "terminal \<Rightarrow> terminal" where
  "record_semantic_prompt_row t =
     (let row = current_history_row t; rows = semantic_prompt_rows t in
      if row \<in> set rows then t
      else t\<lparr>semantic_prompt_rows := insert_nth (length (takeWhile (\<lambda>r. r < row) rows)) row rows\<rparr>)"

definition exit_fields :: "str \<Rightarrow> i32 option \<times> str option" where
  "exit_fields params =
     fold (\<lambda>(i, part) (code, aid). case strip_start (str_of ''aid='') part of
         Some v \<Rightarrow> (code, Some v)
       | None \<Rightarrow> if i = 0 then (parse_i32 part, aid) else (code, aid))
       (zip [0 ..< length (split_on 0x3B params)] (filter (\<lambda>part. part \<noteq> []) (split_on 0x3B params))) (None, None)"

definition record_semantic_command_exit :: "str \<Rightarrow> terminal \<Rightarrow> terminal" where
  "record_semantic_command_exit params t =
     t\<lparr>semantic_command_exits := semantic_command_exits t @ [\<lparr>exit_row = current_history_row t,
       exit_code = fst (exit_fields params), exit_aid = snd (exit_fields params)\<rparr>]\<rparr>"

definition set_semantic :: "semantic_type \<Rightarrow> bool \<Rightarrow> terminal \<Rightarrow> terminal" where
  "set_semantic ty clears t = t\<lparr>style := (style t)\<lparr>cell_semantic := ty\<rparr>, clear_semantic_type_on_movement := clears\<rparr>"

definition apply_osc133_semantic_prompt :: "str \<Rightarrow> terminal \<Rightarrow> terminal" where
  "apply_osc133_semantic_prompt content t =
     (case opt_or (content, []) (split_once 0x3B content) of (marker, params) \<Rightarrow>
        if marker = [0x41] \<or> marker = [0x4E] then record_semantic_prompt_row (set_semantic Semantic_Prompt False (fresh_line t))
        else if marker = [0x50] then record_semantic_prompt_row (set_semantic Semantic_Prompt False t)
        else if marker = [0x42] then set_semantic Semantic_Input False t
        else if marker = [0x49] then set_semantic Semantic_Input True t
        else if marker = [0x43] then set_semantic Semantic_Output False t
        else if marker = [0x44] then record_semantic_command_exit params t
        else t)"

section \<open>iTerm\<close>

definition non_empty_unicode_version_label :: "str \<Rightarrow> str option" where
  "non_empty_unicode_version_label label = (if trim label = [] then None else Some (trim label))"

definition pop_labeled_unicode_version :: "str \<Rightarrow> parser \<Rightarrow> parser" where
  "pop_labeled_unicode_version label p =
     (let stack = unicode_version_stack p in
      case position (\<lambda>e. ve_label e = Some label) (rev stack) of
        None \<Rightarrow> p
      | Some j \<Rightarrow>
          (let i = length stack - 1 - j in
           (upd_core (\<lambda>t. t\<lparr>unicode_version := ve_version (stack ! i)\<rparr>) p)\<lparr>unicode_version_stack := take i stack\<rparr>))"

definition apply_osc1337_unicode_version :: "str \<Rightarrow> parser \<Rightarrow> parser" where
  "apply_osc1337_unicode_version v p =
     (let trimmed = trim v; stack = unicode_version_stack p in
      case strip_start (str_of ''push'') trimmed of
        Some label \<Rightarrow> p\<lparr>unicode_version_stack := stack @ [\<lparr>ve_version = unicode_version (core p),
          ve_label = non_empty_unicode_version_label label\<rparr>]\<rparr>
      | None \<Rightarrow>
          (case strip_start (str_of ''pop'') trimmed of
             Some label \<Rightarrow>
               (case non_empty_unicode_version_label label of
                  Some label \<Rightarrow> pop_labeled_unicode_version label p
                | None \<Rightarrow> if stack = [] then p
                    else (upd_core (\<lambda>t. t\<lparr>unicode_version := ve_version (last stack)\<rparr>) p)\<lparr>unicode_version_stack := butlast stack\<rparr>)
           | None \<Rightarrow> (case parse_u32 trimmed of None \<Rightarrow> p | Some n \<Rightarrow> upd_core (\<lambda>t. t\<lparr>unicode_version := n\<rparr>) p)))"

definition decode_base64_utf8 :: "host \<Rightarrow> str \<Rightarrow> str option" where
  "decode_base64_utf8 h v = Option.bind (host_base64 h v) from_utf8"

definition apply_osc1337_set_user_var :: "host \<Rightarrow> str \<Rightarrow> parser \<Rightarrow> parser" where
  "apply_osc1337_set_user_var h user_var p =
     (case split_once 0x3D user_var of
        None \<Rightarrow> p
      | Some (name, encoded) \<Rightarrow>
          (case decode_base64_utf8 h encoded of
             None \<Rightarrow> p
           | Some v \<Rightarrow>
               (let m = metadata p in
                if map_of (user_vars m) name = Some v then p
                else p\<lparr>metadata := m\<lparr>user_vars := AList.update name v (user_vars m),
                  changed_user_vars := (if name \<in> set (changed_user_vars m) then changed_user_vars m
                    else changed_user_vars m @ [name])\<rparr>\<rparr>)))"

definition apply_osc1337_set_badge_format :: "host \<Rightarrow> str \<Rightarrow> parser \<Rightarrow> parser" where
  "apply_osc1337_set_badge_format h encoded p =
     (case decode_base64_utf8 h encoded of
        None \<Rightarrow> p
      | Some v \<Rightarrow> if badge_format (metadata p) = Some v then p
          else p\<lparr>metadata := (metadata p)\<lparr>badge_format := Some v, badge_changed := True\<rparr>\<rparr>)"

record file_params =
  fp_inline :: bool
  fp_name :: "str option"
  fp_size :: "usize option"
  fp_width :: "str option"
  fp_height :: "str option"
  fp_preserve :: "bool option"

definition set_file_param :: "host \<Rightarrow> str \<Rightarrow> file_params \<Rightarrow> file_params" where
  "set_file_param h param f =
     (case split_once 0x3D param of
        None \<Rightarrow> f
      | Some (key, v) \<Rightarrow>
          if key = str_of ''inline'' then f\<lparr>fp_inline := (v = [0x31])\<rparr>
          else if key = str_of ''name'' then f\<lparr>fp_name := decode_base64_utf8 h v\<rparr>
          else if key = str_of ''size'' then f\<lparr>fp_size := parse_unsigned usize_max v\<rparr>
          else if key = str_of ''width'' then f\<lparr>fp_width := Some v\<rparr>
          else if key = str_of ''height'' then f\<lparr>fp_height := Some v\<rparr>
          else if key = str_of ''preserveAspectRatio''
            then f\<lparr>fp_preserve := (if v = [0x30] then Some False else if v = [0x31] then Some True else None)\<rparr>
          else f)"

definition file_inline_image :: "usize \<Rightarrow> u16 \<Rightarrow> file_params \<Rightarrow> u8 list \<Rightarrow> inline_image" where
  "file_inline_image row column f data = \<lparr>im_row = row, im_column = column, im_name = fp_name f,
     im_kitty_image_id = None, im_kitty_placement_id = None, im_kitty_z_index = None, im_size = fp_size f,
     im_width = fp_width f, im_height = fp_height f, im_preserve_aspect_ratio = fp_preserve f, im_format = Format_Encoded,
     im_pixel_width = None, im_pixel_height = None, im_source_x = None, im_source_y = None, im_source_width = None,
     im_source_height = None, im_target_x = None, im_target_y = None, im_data = data\<rparr>"

definition apply_osc1337_file :: "host \<Rightarrow> str \<Rightarrow> terminal \<Rightarrow> terminal" where
  "apply_osc1337_file h file t =
     (case split_once 0x3A file of
        None \<Rightarrow> t
      | Some (params, encoded) \<Rightarrow>
          (let f = fold (set_file_param h) (filter (\<lambda>x. x \<noteq> []) (split_on 0x3B params))
                 \<lparr>fp_inline = False, fp_name = None, fp_size = None, fp_width = None, fp_height = None, fp_preserve = None\<rparr> in
           if \<not> fp_inline f then t
           else case host_base64 h encoded of
             None \<Rightarrow> t
           | Some data \<Rightarrow> upd_images (push_inline_image (file_inline_image (current_history_row t) (cursor_column t) f data))
               (record_inline_image_damage_at (current_history_row t) (cursor_column t) (fp_width f) (fp_height f) t)))"

definition apply_osc1337_iterm_metadata :: "host \<Rightarrow> str \<Rightarrow> parser \<Rightarrow> parser" where
  "apply_osc1337_iterm_metadata h content p =
     (case strip_start (str_of ''CurrentDir='') content of
        Some d \<Rightarrow> set_current_working_dir d p
      | None \<Rightarrow> (case strip_start (str_of ''SetUserVar='') content of
        Some v \<Rightarrow> apply_osc1337_set_user_var h v p
      | None \<Rightarrow> (case strip_start (str_of ''SetBadgeFormat='') content of
        Some b \<Rightarrow> apply_osc1337_set_badge_format h b p
      | None \<Rightarrow> (case strip_start (str_of ''File='') content of
        Some f \<Rightarrow> upd_core (apply_osc1337_file h f) p
      | None \<Rightarrow> (case strip_start (str_of ''UnicodeVersion='') content of
        Some v \<Rightarrow> apply_osc1337_unicode_version v p
      | None \<Rightarrow> p)))))"

section \<open>Dispatch\<close>

definition apply_osc_command :: "host \<Rightarrow> str \<Rightarrow> str \<Rightarrow> parser \<Rightarrow> parser" where
  "apply_osc_command h command rest p =
     (if command = str_of ''0'' then upd_core (set_icon_and_window_title rest) p
      else if command = str_of ''1'' then upd_core (set_icon_title rest) p
      else if command = str_of ''2'' then upd_core (set_window_title rest) p
      else if command = str_of ''7'' then set_current_working_dir rest p
      else if command = str_of ''8'' then upd_core (apply_osc8_hyperlink rest) p
      else if command = str_of ''133'' then upd_core (apply_osc133_semantic_prompt rest) p
      else if command = str_of ''1337'' then apply_osc1337_iterm_metadata h rest p
      else p)"

definition apply_osc_content :: "host \<Rightarrow> str \<Rightarrow> parser \<Rightarrow> parser" where
  "apply_osc_content h content p =
     (case content of
        [] \<Rightarrow> p
      | c # ti \<Rightarrow>
          if c = 0x4C then upd_core (set_icon_title ti) p
          else if c = 0x6C then upd_core (set_window_title ti) p
          else case split_once 0x3B content of
            None \<Rightarrow> p
          | Some (command, rest) \<Rightarrow> apply_osc_command h command rest p)"

definition apply_apc_content :: "host \<Rightarrow> str \<Rightarrow> terminal \<Rightarrow> terminal option" where
  "apply_apc_content h content t =
     (case content of
        [] \<Rightarrow> Some t
      | c # gr \<Rightarrow> if c = 0x47 then apply_kitty_graphics h gr t else Some t)"

end
