(* ===== verification/Term_Decode.thy ===== *)
theory Term_Decode
  imports Utf8 Visible_Output
begin

text \<open>
  From bytes to characters and from characters to control sequences, \<open>rssh-terminal/src/parser.rs\<close>: the
  decoding of output that mixes UTF-8 and single-byte C1 controls, the bytes kept for the next
  chunk, and the ends of control sequences.
\<close>

section \<open>Decoding\<close>

text \<open>
  What \<open>std::str::from_utf8\<close> finds at the start of its input: a character and its length, or the
  \<open>error_len\<close> of the error, which is \<open>None\<close> where the input ends too early.
\<close>

datatype utf8_scan = Utf8_Char nat nat | Utf8_Error "nat option"

definition utf8_third :: "u8 list \<Rightarrow> (u8 \<Rightarrow> u8 \<Rightarrow> u8 list \<Rightarrow> utf8_scan) \<Rightarrow> u8 \<Rightarrow> utf8_scan" where
  "utf8_third bs k b =
     (case bs of
        [] \<Rightarrow> Utf8_Error None
      | b1 # r \<Rightarrow>
          if \<not> second_byte_ok b b1 then Utf8_Error (Some 1)
          else case r of
            [] \<Rightarrow> Utf8_Error None
          | b2 # r \<Rightarrow> if \<not> continuation b2 then Utf8_Error (Some 2) else k b1 b2 r)"

fun utf8_head :: "u8 list \<Rightarrow> utf8_scan" where
  "utf8_head [] = Utf8_Error None"
| "utf8_head (b # bs) =
     (if b < 0x80 then Utf8_Char b 1
      else if 0xC2 \<le> b \<and> b < 0xE0 then
        (case bs of
           [] \<Rightarrow> Utf8_Error None
         | b1 # _ \<Rightarrow> if continuation b1 then Utf8_Char ((b - 0xC0) * 64 + (b1 - 0x80)) 2 else Utf8_Error (Some 1))
      else if 0xE0 \<le> b \<and> b < 0xF0 then
        utf8_third bs (\<lambda>b1 b2 r. Utf8_Char ((b - 0xE0) * 4096 + (b1 - 0x80) * 64 + (b2 - 0x80)) 3) b
      else if 0xF0 \<le> b \<and> b < 0xF5 then
        utf8_third bs (\<lambda>b1 b2 r. case r of
            [] \<Rightarrow> Utf8_Error None
          | b3 # _ \<Rightarrow> if continuation b3
              then Utf8_Char ((b - 0xF0) * 262144 + (b1 - 0x80) * 4096 + (b2 - 0x80) * 64 + (b3 - 0x80)) 4
              else Utf8_Error (Some 3)) b
      else Utf8_Error (Some 1))"

declare utf8_head.simps [simp del]

lemma utf8_head_bounds:
  shows "utf8_head bs = Utf8_Char c n \<Longrightarrow> 0 < n \<and> n \<le> length bs"
    and "utf8_head bs = Utf8_Error (Some n) \<Longrightarrow> 0 < n \<and> n \<le> length bs"
  by (induction bs rule: utf8_head.induct)
    (auto simp: utf8_head.simps utf8_third_def split: if_splits list.splits)

lemma utf8_head_append: "utf8_head bs \<noteq> Utf8_Error None \<Longrightarrow> utf8_head (bs @ zs) = utf8_head bs"
  by (induction bs rule: utf8_head.induct)
    (auto simp: utf8_head.simps utf8_third_def split: if_splits list.splits)

text \<open>The characters of the valid part, where it ends, and the error there, if there is one.\<close>

function from_utf8_lossy :: "u8 list \<Rightarrow> str \<times> nat \<times> nat option option" where
  "from_utf8_lossy bs =
     (if bs = [] then ([], 0, None)
      else case utf8_head bs of
        Utf8_Error e \<Rightarrow> ([], 0, Some e)
      | Utf8_Char c n \<Rightarrow> (case from_utf8_lossy (drop n bs) of (cs, valid_up_to, e) \<Rightarrow> (c # cs, n + valid_up_to, e)))"
  by pat_completeness auto
termination
  by (relation "measure length") (auto dest: utf8_head_bounds)

declare from_utf8_lossy.simps [simp del]

definition raw_c1_control :: "u8 \<Rightarrow> nat option" where
  "raw_c1_control b = (if 0x80 \<le> b \<and> b \<le> 0x9F then Some b else None)"

lemma lossy_simps:
  "from_utf8_lossy [] = ([], 0, None)"
  "bs \<noteq> [] \<Longrightarrow> utf8_head bs = Utf8_Error x \<Longrightarrow> from_utf8_lossy bs = ([], 0, Some x)"
  "bs \<noteq> [] \<Longrightarrow> utf8_head bs = Utf8_Char c k \<Longrightarrow> from_utf8_lossy bs =
     (case from_utf8_lossy (drop k bs) of (cs, v, e) \<Rightarrow> (c # cs, k + v, e))"
  by (subst from_utf8_lossy.simps, simp)+

lemma lossy_error_head: "bs \<noteq> [] \<Longrightarrow> from_utf8_lossy bs = (cs, 0, Some x) \<Longrightarrow> utf8_head bs = Utf8_Error x"
  using utf8_head_bounds(1) [of bs] by (cases "utf8_head bs") (auto simp: lossy_simps split: prod.splits)

function decode_terminal_chars :: "u8 list \<Rightarrow> str" where
  "decode_terminal_chars bytes =
     (case bytes of
        [] \<Rightarrow> []
      | b # rest \<Rightarrow>
          (case raw_c1_control b of
             Some ch \<Rightarrow> ch # decode_terminal_chars rest
           | None \<Rightarrow>
               (case from_utf8_lossy bytes of (text, valid_up_to, err) \<Rightarrow>
                  (case err of
                     None \<Rightarrow> text
                   | Some error_len \<Rightarrow>
                       if valid_up_to > 0 then text @ decode_terminal_chars (drop valid_up_to bytes)
                       else 0xFFFD # decode_terminal_chars (drop (case error_len of Some n \<Rightarrow> n | None \<Rightarrow> 1) bytes)))))"
  by pat_completeness auto
termination
proof (relation "measure length", goal_cases)
  case (3 bytes b rest s y valid_up_to err error_len)
  then have "from_utf8_lossy bytes = (s, 0, Some error_len)" by (metis neq0_conv)
  then have "utf8_head bytes = Utf8_Error error_len" using 3 by (intro lossy_error_head) simp
  with 3 utf8_head_bounds(2) [of bytes] show ?case by (auto split: option.splits)
qed auto

declare decode_terminal_chars.simps [simp del]

text \<open>The number of bytes whose characters are complete; the rest waits for the next chunk.\<close>

fun back_to_start :: "u8 list \<Rightarrow> nat \<Rightarrow> nat" where
  "back_to_start bytes 0 = 0"
| "back_to_start bytes (Suc i) = (if is_utf8_continuation (bytes ! Suc i) then back_to_start bytes i else Suc i)"

definition terminal_utf8_sequence_len :: "u8 \<Rightarrow> nat option" where
  "terminal_utf8_sequence_len b =
     (if b \<le> 0x7F then Some 1 else if 0xC2 \<le> b \<and> b \<le> 0xDF then Some 2
      else if 0xE0 \<le> b \<and> b \<le> 0xEF then Some 3 else if 0xF0 \<le> b \<and> b \<le> 0xF4 then Some 4 else None)"

definition complete_utf8_prefix_len :: "u8 list \<Rightarrow> nat" where
  "complete_utf8_prefix_len bytes =
     (if bytes = [] then 0
      else let start = back_to_start bytes (length bytes - 1) in
        case terminal_utf8_sequence_len (bytes ! start) of
          None \<Rightarrow> length bytes
        | Some expected_len \<Rightarrow>
            if length bytes - start \<ge> expected_len then length bytes
            else if list_all is_utf8_continuation (drop (start + 1) bytes) then start else length bytes)"

section \<open>Ends of sequences\<close>

datatype 'a sequence_parse = Complete 'a | Cancelled nat | Pending

definition is_cancel_control :: "nat \<Rightarrow> bool" where
  "is_cancel_control ch \<longleftrightarrow> ch = 0x18 \<or> ch = 0x1A"

text \<open>The parsers run on the characters from \<open>content_start\<close> on; their results count from there.\<close>

fun shift_parse :: "(nat \<Rightarrow> 'a \<Rightarrow> 'a) \<Rightarrow> 'a sequence_parse \<Rightarrow> 'a sequence_parse" where
  "shift_parse f (Complete a) = Complete (f 1 a)"
| "shift_parse f (Cancelled i) = Cancelled (i + 1)"
| "shift_parse f Pending = Pending"

fun parse_csi :: "str \<Rightarrow> (nat \<times> nat) sequence_parse" where
  "parse_csi [] = Pending"
| "parse_csi (ch # cs) =
     (if is_cancel_control ch then Cancelled 0
      else if 0x40 \<le> ch \<and> ch \<le> 0x7E then Complete (ch, 0)
      else shift_parse (\<lambda>k (c, i). (c, i + k)) (parse_csi cs))"

fun parse_osc :: "str \<Rightarrow> nat sequence_parse" where
  "parse_osc [] = Pending"
| "parse_osc (ch # cs) =
     (if ch = 0x07 \<or> ch = 0x9C then Complete 0
      else if ch = 0x1B \<and> nth_opt cs 0 = Some 0x5C then Complete 1
      else if is_cancel_control ch then Cancelled 0
      else shift_parse (+) (parse_osc cs))"

fun parse_st_terminated_control_string :: "str \<Rightarrow> nat sequence_parse" where
  "parse_st_terminated_control_string [] = Pending"
| "parse_st_terminated_control_string (ch # cs) =
     (if ch = 0x9C then Complete 0
      else if ch = 0x1B \<and> nth_opt cs 0 = Some 0x5C then Complete 1
      else if is_cancel_control ch then Cancelled 0
      else shift_parse (+) (parse_st_terminated_control_string cs))"

definition st_content_end :: "str \<Rightarrow> nat \<Rightarrow> nat" where
  "st_content_end cs sequence_end =
     (if sequence_end > 0 \<and> nth_opt cs sequence_end = Some 0x5C \<and> nth_opt cs (sequence_end - 1) = Some 0x1B
      then sequence_end - 1 else sequence_end)"

definition is_c1_st_control_string :: "nat \<Rightarrow> bool" where
  "is_c1_st_control_string ch \<longleftrightarrow> ch = 0x90 \<or> ch = 0x98 \<or> ch = 0x9E \<or> ch = 0x9F"

definition is_escape_or_c1_sequence_start :: "nat \<Rightarrow> bool" where
  "is_escape_or_c1_sequence_start ch \<longleftrightarrow>
     ch = 0x1B \<or> ch = 0x84 \<or> ch = 0x85 \<or> ch = 0x88 \<or> ch = 0x8D \<or> ch = 0x90 \<or> ch = 0x9B \<or> ch = 0x9C \<or> ch = 0x9D \<or>
     is_c1_st_control_string ch"

definition is_ascii_control :: "nat \<Rightarrow> bool" where
  "is_ascii_control ch \<longleftrightarrow> ch \<le> 0x1F \<or> ch = 0x7F"

end
