(* ===== verification/Term_Reflow.thy ===== *)
theory Term_Reflow
  imports Term_Csi
begin

text \<open>
  Resizing a terminal, \<open>rssh-terminal/src/parser.rs\<close>: the lines of history and screen are joined to logical
  lines and wrapped again at the new width, with the cursor kept on its cell.
\<close>

section \<open>One logical line\<close>

record reflow_row =
  rr_cells :: "cell list"
  rr_overflow :: "cell list"

record logical_line_cells =
  ll_cells :: "cell list"
  ll_cursor_offset :: "usize option"

definition trim_reflow_padding :: "cell list \<Rightarrow> cell list" where
  "trim_reflow_padding cells =
     (let padding = length (takeWhile (\<lambda>c. c = cell_default) (rev cells)) in
      if padding = 0 then cells
      else let content_end = length cells - padding;
               continuation_cells = min padding (case nth_opt cells (content_end - 1) of None \<Rightarrow> 0 | Some c \<Rightarrow> cell_columns c - 1)
        in take (content_end + continuation_cells) cells)"

text \<open>
  The cells of the glyph at an index: those there are, and continuation cells for those that are missing.
\<close>

definition glyph_width :: "cell list \<Rightarrow> usize \<Rightarrow> nat" where
  "glyph_width cells index = max 1 (cell_columns (cells ! index))"

definition source_width :: "cell list \<Rightarrow> usize \<Rightarrow> nat" where
  "source_width cells index = min (glyph_width cells index) (length cells - index)"

definition glyph_cells :: "cell list \<Rightarrow> usize \<Rightarrow> cell list" where
  "glyph_cells cells index = take (source_width cells index) (drop index cells) @
     map (\<lambda>k. set_continuation (saturating_u8 (min u16_max k)) (cells ! index)) [source_width cells index ..< glyph_width cells index]"

text \<open>The rows that are complete, the row under way with its overflow, and the cursor.\<close>

record reflow_state =
  rs_rows :: "reflow_row list"
  rs_row :: "cell list"
  rs_overflow :: "cell list"
  rs_cursor :: "(usize \<times> usize) option"

definition flush_row :: "reflow_state \<Rightarrow> reflow_state" where
  "flush_row s = s\<lparr>rs_rows := rs_rows s @ [\<lparr>rr_cells = rs_row s, rr_overflow = rs_overflow s\<rparr>], rs_row := [], rs_overflow := []\<rparr>"

definition place_cursor :: "bool \<Rightarrow> nat \<Rightarrow> reflow_state \<Rightarrow> reflow_state" where
  "place_cursor here column s = (if here then s\<lparr>rs_cursor := Some (length (rs_rows s), column)\<rparr> else s)"

definition reflow_turn :: "cell list \<Rightarrow> u16 \<Rightarrow> usize option \<Rightarrow> usize \<Rightarrow> reflow_state \<Rightarrow> reflow_state" where
  "reflow_turn cells columns cursor_offset index s =
     (let src = source_width cells index; output_width = min (glyph_width cells index) columns;
          inside = (case cursor_offset of None \<Rightarrow> False | Some c \<Rightarrow> index < c \<and> c < index + src);
          s = place_cursor (cursor_offset = Some index) (length (rs_row s)) s;
          s = (if rs_row s \<noteq> [] \<and> length (rs_row s) + output_width > columns then flush_row s else s);
          s = place_cursor inside (length (rs_row s) + min (the cursor_offset - index) output_width) s;
          s = s\<lparr>rs_row := rs_row s @ take output_width (glyph_cells cells index),
                rs_overflow := rs_overflow s @ drop output_width (glyph_cells cells index)\<rparr>;
          s = place_cursor (cursor_offset = Some (index + src)) (length (rs_row s)) s
      in if length (rs_row s) = columns \<and> index + src < length cells then flush_row s else s)"

lemma source_width_pos: "index < length cells \<Longrightarrow> 0 < source_width cells index"
  by (simp add: source_width_def glyph_width_def)

function reflow_loop :: "cell list \<Rightarrow> u16 \<Rightarrow> usize option \<Rightarrow> usize \<Rightarrow> reflow_state \<Rightarrow> reflow_state" where
  "reflow_loop cells columns cursor_offset index s =
     (if index < length cells
      then reflow_loop cells columns cursor_offset (index + source_width cells index)
        (reflow_turn cells columns cursor_offset index s)
      else s)"
  by pat_completeness auto
termination
proof (relation "measure (\<lambda>(cells, _, _, index, _). length cells - index)", goal_cases)
  case (2 cells columns cursor_offset index s)
  then show ?case using source_width_pos [of index cells] by simp
qed simp

declare reflow_loop.simps [simp del]

definition reflow_state_new :: reflow_state where
  "reflow_state_new = \<lparr>rs_rows = [], rs_row = [], rs_overflow = [], rs_cursor = None\<rparr>"

definition reflow_logical_line :: "cell list \<Rightarrow> u16 \<Rightarrow> usize option \<Rightarrow> reflow_row list \<times> (usize \<times> usize) option" where
  "reflow_logical_line cells columns cursor_offset =
     (if columns = 0 \<or> cells = []
      then ([\<lparr>rr_cells = [], rr_overflow = []\<rparr>], map_option (\<lambda>_. (0, 0)) cursor_offset)
      else let s = reflow_loop cells columns cursor_offset 0 reflow_state_new
        in (rs_rows (flush_row s), or_option (rs_cursor s) (map_option (\<lambda>_. (0, 0)) cursor_offset)))"

section \<open>Logical lines\<close>

text \<open>The lines that are complete, the line under way with the offset of the cursor in it, and whether there is one.\<close>

record line_collector =
  lc_lines :: "logical_line_cells list"
  lc_line :: "cell list"
  lc_cursor :: "usize option"
  lc_has_line :: bool

definition collector_new :: line_collector where
  "collector_new = \<lparr>lc_lines = [], lc_line = [], lc_cursor = None, lc_has_line = False\<rparr>"

definition finish_line :: "line_collector \<Rightarrow> line_collector" where
  "finish_line s = s\<lparr>lc_lines := lc_lines s @ [\<lparr>ll_cells = lc_line s, ll_cursor_offset = lc_cursor s\<rparr>], lc_line := [], lc_cursor := None\<rparr>"

definition start_line :: "bool \<Rightarrow> line_collector \<Rightarrow> line_collector" where
  "start_line wrapped s =
     (if \<not> wrapped \<or> \<not> lc_has_line s
      then (if lc_has_line s then finish_line s else s)\<lparr>lc_has_line := True\<rparr> else s)"

definition collect_history_line :: "scrollback_line \<Rightarrow> line_collector \<Rightarrow> line_collector" where
  "collect_history_line l s =
     (let s = start_line (line_wrapped l) s
      in s\<lparr>lc_line := lc_line s @ trim_reflow_padding (line_cells l @ line_overflow l)\<rparr>)"

definition collect_grid_row :: "terminal_grid \<Rightarrow> u16 \<Rightarrow> u16 \<Rightarrow> u16 \<Rightarrow> line_collector \<Rightarrow> line_collector" where
  "collect_grid_row g crow ccolumn row s =
     (let physical_cells = cells_with_reflow_overflow row g; cells = trim_reflow_padding physical_cells;
          s = start_line (grid_row_wrapped row g) s
      in if row = crow
         then let cursor_cells = take (ccolumn + 1) physical_cells;
                  cells = (if length cells < length cursor_cells then cells @ drop (length cells) cursor_cells else cells)
           in s\<lparr>lc_cursor := Some (length (lc_line s) + ccolumn), lc_line := lc_line s @ cells\<rparr>
         else s\<lparr>lc_line := lc_line s @ cells\<rparr>)"

definition relevant_grid_rows :: "terminal_grid \<Rightarrow> u16 \<Rightarrow> nat" where
  "relevant_grid_rows g crow =
     (let content = filter (\<lambda>row. trim_reflow_padding (cells_with_reflow_overflow row g) \<noteq> []) [0 ..< size_rows (grid_size g)];
          last_content = (if content = [] then 0 else last content + 1)
      in min (max last_content (crow + 1)) (size_rows (grid_size g)))"

definition logical_lines :: "scrollback_line list \<Rightarrow> terminal_grid \<Rightarrow> u16 \<Rightarrow> u16 \<Rightarrow> logical_line_cells list" where
  "logical_lines history g crow ccolumn =
     (let s = fold collect_history_line history collector_new;
          s = fold (collect_grid_row g crow ccolumn) [0 ..< relevant_grid_rows g crow] s
      in lc_lines (if lc_has_line s then finish_line s else s))"

section \<open>The whole screen\<close>

text \<open>The rows with whether each continues the one before, and the cursor.\<close>

definition wrap_line :: "u16 \<Rightarrow> logical_line_cells \<Rightarrow> (reflow_row \<times> bool) list \<times> (usize \<times> usize) option
    \<Rightarrow> (reflow_row \<times> bool) list \<times> (usize \<times> usize) option" where
  "wrap_line columns l s =
     (case s of (rows, cursor) \<Rightarrow>
        case reflow_logical_line (ll_cells l) columns (ll_cursor_offset l) of (reflowed, c) \<Rightarrow>
          (rows @ map (\<lambda>(i, r). (r, i \<noteq> 0)) (enumerate 0 reflowed),
           case c of None \<Rightarrow> cursor | Some (row, column) \<Rightarrow> Some (length rows + row, column)))"

definition wrap_lines :: "u16 \<Rightarrow> logical_line_cells list \<Rightarrow> (reflow_row \<times> bool) list \<times> (usize \<times> usize) option" where
  "wrap_lines columns ls = fold (wrap_line columns) ls ([], None)"

definition reflowed_history_line :: "u16 \<Rightarrow> usize \<Rightarrow> reflow_row \<times> bool \<Rightarrow> scrollback_line" where
  "reflowed_history_line columns sq rw =
     \<lparr>line_cells = vec_resize columns cell_default (rr_cells (fst rw)), line_overflow = rr_overflow (fst rw),
      line_wrapped = snd rw, line_sequence = sq\<rparr>"

definition put_reflowed_row :: "u16 \<Rightarrow> usize \<Rightarrow> nat \<times> reflow_row \<times> bool \<Rightarrow> terminal_grid \<Rightarrow> terminal_grid" where
  "put_reflowed_row columns sq rw g =
     (case rw of (row, r, wrapped) \<Rightarrow>
        set_row_last_change_seqno row sq (grid_set_row_wrapped row wrapped (set_reflow_overflow row (rr_overflow r)
          (fold (\<lambda>(column, c) g. snd (grid_set row column c g))
            (enumerate 0 (vec_resize columns cell_default (rr_cells r))) g))))"

record main_buffers =
  mb_history :: "scrollback_line list"
  mb_grid :: terminal_grid
  mb_cursor_row :: u16
  mb_cursor_column :: u16

definition reflow_main_screen :: "terminal_size \<Rightarrow> usize \<Rightarrow> main_buffers \<Rightarrow> main_buffers" where
  "reflow_main_screen sz sq b =
     (case wrap_lines (size_columns sz) (logical_lines (mb_history b) (mb_grid b) (mb_cursor_row b) (mb_cursor_column b)) of
        (rows, cursor) \<Rightarrow>
          (let scrollback_rows = length rows - size_rows sz;
               b = b\<lparr>mb_history := map (reflowed_history_line (size_columns sz) sq) (take scrollback_rows rows),
                     mb_grid := fold (put_reflowed_row (size_columns sz) sq) (enumerate 0 (drop scrollback_rows rows))
                       (grid_new_with_seqno sz sq)\<rparr>
           in case cursor of None \<Rightarrow> b
              | Some (row, column) \<Rightarrow> b\<lparr>mb_cursor_row := min (min u16_max (row - scrollback_rows)) (size_rows sz - 1),
                  mb_cursor_column := min (min u16_max column) (size_columns sz - 1)\<rparr>))"

section \<open>Resizing\<close>

definition retire_reflow_coordinate_state :: "screen_state \<Rightarrow> screen_state" where
  "retire_reflow_coordinate_state s = s\<lparr>saved_graphics := (saved_graphics s)\<lparr>inline_images := [], inline_image_parent_ids := [],
       inline_image_attachments := [], kitty_character_edited_placements := {}, kitty_placeholder_cells := [],
       last_placeholder := None\<rparr>,
     nfc_last_printable_cell := None, saved_cursor_of := None\<rparr>"

definition apply_main_reflow_outcome :: "nat \<Rightarrow> terminal \<Rightarrow> terminal" where
  "apply_main_reflow_outcome previous_history_rows t =
     (let t = t\<lparr>main_stable_row_offset := main_stable_row_offset t + int previous_history_rows,
                semantic_prompt_rows := [], semantic_command_exits := []\<rparr>
      in case main_screen t of
           Some s \<Rightarrow> t\<lparr>main_screen := Some (retire_reflow_coordinate_state s)\<rparr>
         | None \<Rightarrow> (upd_images (\<lambda>g. (clear_inline_images g)\<lparr>kitty_placeholder_cells := [], last_placeholder := None,
             pending_placeholder := None, kitty_relative_parents := [], kitty_virtual_placements := []\<rparr>) t)
             \<lparr>nfc_last_printable_cell := None, saved_cursor_of := None\<rparr>)"

definition clamp_screen_state :: "terminal_size \<Rightarrow> screen_state \<Rightarrow> screen_state" where
  "clamp_screen_state sz s =
     (let s = s\<lparr>cursor_row := clamp_axis (cursor_row s) (size_rows sz), cursor_column := clamp_axis (cursor_column s) (size_columns sz),
                scroll_top := clamp_axis (scroll_top s) (size_rows sz), scroll_bottom := clamp_axis (scroll_bottom s) (size_rows sz)\<rparr>;
          s = (if scroll_top s \<ge> scroll_bottom s then s\<lparr>scroll_top := 0, scroll_bottom := size_rows sz - 1\<rparr> else s)
      in if size_columns sz = 0 \<or> size_rows sz = 0 then s\<lparr>pending_wrap := False\<rparr> else s)"

datatype terminal_resize_outcome = Resize_Unchanged | MainScreenReflowed | AlternateScreenResized | PhysicalResize

definition reflow_terminal :: "terminal_size \<Rightarrow> terminal \<Rightarrow> terminal" where
  "reflow_terminal sz t =
     (let previous = length (scrollback t) + rows_of t;
          t = (case main_screen t of
              Some s \<Rightarrow>
                (let b = reflow_main_screen sz (seqno t) \<lparr>mb_history = scrollback t, mb_grid = grid s,
                       mb_cursor_row = cursor_row s, mb_cursor_column = cursor_column s\<rparr>
                 in t\<lparr>grid := grid_resize_with_seqno sz (seqno t) (grid t), scrollback := mb_history b,
                      main_screen := Some (s\<lparr>grid := mb_grid b, cursor_row := mb_cursor_row b,
                        cursor_column := mb_cursor_column b, pending_wrap := False\<rparr>)\<rparr>)
            | None \<Rightarrow>
                (let b = reflow_main_screen sz (seqno t) \<lparr>mb_history = scrollback t, mb_grid = grid t,
                       mb_cursor_row = cursor_row t, mb_cursor_column = cursor_column t\<rparr>
                 in t\<lparr>scrollback := mb_history b, grid := mb_grid b, cursor_row := mb_cursor_row b,
                      cursor_column := mb_cursor_column b, pending_wrap := False\<rparr>))
      in trim_scrollback_to_limit (apply_main_reflow_outcome previous t))"

definition resize_same_width :: "terminal_size \<Rightarrow> terminal \<Rightarrow> terminal" where
  "resize_same_width sz t = t\<lparr>grid := grid_resize_with_seqno sz (seqno t) (grid t),
     main_screen := map_option (\<lambda>s. clamp_screen_state sz (s\<lparr>grid := grid_resize_with_seqno sz (seqno t) (grid s)\<rparr>)) (main_screen t)\<rparr>"

definition resize_outcome :: "terminal_size \<Rightarrow> terminal_size \<Rightarrow> bool \<Rightarrow> terminal_resize_outcome" where
  "resize_outcome old_size sz active_main_screen =
     (if old_size = sz then Resize_Unchanged
      else if size_columns old_size \<noteq> size_columns sz
      then (if active_main_screen then MainScreenReflowed else AlternateScreenResized)
      else PhysicalResize)"

definition advance_seqno :: "terminal \<Rightarrow> terminal" where
  "advance_seqno t = t\<lparr>seqno := seqno t + 1\<rparr>"

definition retain_saved_edits :: "terminal \<Rightarrow> terminal" where
  "retain_saved_edits t = t\<lparr>main_screen := map_option (\<lambda>s. let sg = saved_graphics s in
     s\<lparr>saved_graphics := sg\<lparr>kitty_character_edited_placements := retain_edited (inline_images sg)
       (inline_image_parent_ids sg) (inline_image_attachments sg) (kitty_virtual_placements (images t))
       (kitty_character_edited_placements sg)\<rparr>\<rparr>) (main_screen t)\<rparr>"

definition resize :: "terminal_size \<Rightarrow> terminal \<Rightarrow> terminal_resize_outcome \<times> terminal" where
  "resize requested t =
     (let sz = requested\<lparr>size_columns := max 1 (size_columns requested)\<rparr>; old_size = grid_size (grid t);
          active_main_screen = (main_screen t = None); t = advance_seqno t;
          t = (if size_columns old_size \<noteq> size_columns sz then reflow_terminal sz t else resize_same_width sz t);
          t = upd_images retain_kitty_character_edited_placements (retain_saved_edits t);
          t = clamp_to_size (t\<lparr>tab_stops_of := tab_stops_resize sz (tab_stops_of t)\<rparr>);
          t = t\<lparr>scroll_top := 0, scroll_bottom := size_rows sz - 1, left_margin := 0, right_margin := size_columns sz - 1\<rparr>
      in (resize_outcome old_size sz active_main_screen,
          record_damage (damage_rect 0 0 (size_columns sz) (size_rows sz)) t))"

section \<open>Erasing everything\<close>

definition erase_scrollback_and_viewport :: "terminal \<Rightarrow> terminal" where
  "erase_scrollback_and_viewport t =
     (let t = advance_seqno t; sz = grid_size (grid t);
          t = prune_scrollback_rows (length (scrollback t)) t;
          t = t\<lparr>title_stack := [], images := clear_all_graphics (images t), semantic_prompt_rows := [], semantic_command_exits := []\<rparr>
      in if size_rows sz = 0 \<or> size_columns sz = 0
         then t\<lparr>cursor_row := 0, cursor_column := 0, pending_wrap := False, clear_semantic_type_on_movement := False\<rparr>
         else let row = min (cursor_row t) (size_rows sz - 1);
                  cursor_line = map (\<lambda>column. opt_or cell_default (grid_get row column (grid t))) [0 ..< size_columns sz];
                  blank = blank_cell t;
                  g = fold (\<lambda>row g. set_row_last_change_seqno row (seqno t) (grid_set_row_wrapped row False
                    (fold (\<lambda>column g. snd (grid_set row column blank g)) [0 ..< size_columns sz] g))) [0 ..< size_rows sz] (grid t);
                  g = fold (\<lambda>(column, c) g. snd (grid_set 0 column c g)) (enumerate 0 cursor_line) g
           in record_damage (damage_rect 0 0 (size_columns sz) (size_rows sz))
             (t\<lparr>grid := g, cursor_row := 0, pending_wrap := False, clear_semantic_type_on_movement := False\<rparr>))"

end
