(* ===== verification/Term_Feed.thy ===== *)
theory Term_Feed
  imports Term_Osc Term_Decode Term_Reflow
begin

text \<open>
  The input of a terminal, \<open>rssh-terminal/src/parser.rs\<close>: bytes are decoded, characters are written or start
  control sequences, and what is not complete waits for the next call. The functions take the
  characters from \<open>index\<close> on, and an advance counts from there. \<open>None\<close> as a whole result stands for a command
  that never returns.
\<close>

section \<open>Controls\<close>

definition leave_text :: "terminal \<Rightarrow> terminal" where
  "leave_text t = (finish_pending_kitty_placeholder t)\<lparr>nfc_last_printable_cell := None\<rparr>"

definition consume_ascii_control :: "u8 \<Rightarrow> terminal \<Rightarrow> bool \<times> terminal" where
  "consume_ascii_control b t =
     (if b \<le> 0x06 \<or> 0x0E \<le> b \<and> b \<le> 0x1A \<or> 0x1C \<le> b \<and> b \<le> 0x1F then (True, leave_text t)
      else if b = 0x07 then (True, (leave_text t)\<lparr>bell_count := min u64_max (bell_count (leave_text t) + 1)\<rparr>)
      else if b = 0x08 then (True, backspace (leave_text t))
      else if b = 0x09 then (True, horizontal_tab (leave_text t))
      else if 0x0A \<le> b \<and> b \<le> 0x0C then (True, line_feed (leave_text t))
      else if b = 0x0D then (True, carriage_return (leave_text t))
      else (False, t))"

section \<open>Control sequences\<close>

datatype feed_advance = Next nat | Feed_Pending

type_synonym consumed = "(feed_advance \<times> parser) option"

text \<open>
  A sequence whose content starts at \<open>offset\<close>, by the result of its parser. Where it is pending, the
  characters from \<open>index\<close> on become \<open>pending_control\<close>: the loop below does that.
\<close>

definition apply_csi_sequence :: "host \<Rightarrow> str \<Rightarrow> nat \<Rightarrow> parser \<Rightarrow> consumed" where
  "apply_csi_sequence h cs offset p =
     (let content = drop offset cs in
      case parse_csi content of
        Complete (command, i) \<Rightarrow>
          map_option (\<lambda>t. (Next (offset + i + 1), p\<lparr>core := t\<rparr>)) (apply_csi (host_unicode h) command (take i content) (core p))
      | Cancelled i \<Rightarrow> Some (Next (offset + i + 1), p)
      | Pending \<Rightarrow> Some (Feed_Pending, p))"

definition control_string :: "(str \<Rightarrow> nat sequence_parse) \<Rightarrow> (str \<Rightarrow> parser \<Rightarrow> parser option) \<Rightarrow> str \<Rightarrow> nat \<Rightarrow> parser \<Rightarrow> consumed" where
  "control_string parse app cs offset p =
     (let content = drop offset cs in
      case parse content of
        Complete i \<Rightarrow> map_option (\<lambda>p. (Next (offset + i + 1), p)) (app (take (st_content_end content i) content) p)
      | Cancelled i \<Rightarrow> Some (Next (offset + i + 1), p)
      | Pending \<Rightarrow> Some (Feed_Pending, p))"

definition apply_osc_sequence :: "host \<Rightarrow> str \<Rightarrow> nat \<Rightarrow> parser \<Rightarrow> consumed" where
  "apply_osc_sequence h = control_string parse_osc (\<lambda>content p. Some (apply_osc_content h content p))"

definition apply_apc_sequence :: "host \<Rightarrow> str \<Rightarrow> nat \<Rightarrow> parser \<Rightarrow> consumed" where
  "apply_apc_sequence h = control_string parse_st_terminated_control_string
     (\<lambda>content p. map_option (\<lambda>t. p\<lparr>core := t\<rparr>) (apply_apc_content h content (core p)))"

definition apply_dcs_sequence :: "str \<Rightarrow> nat \<Rightarrow> parser \<Rightarrow> consumed" where
  "apply_dcs_sequence = control_string parse_st_terminated_control_string
     (\<lambda>content p. Some (upd_core (apply_dcs_content content) p))"

definition skip_control_string :: "str \<Rightarrow> nat \<Rightarrow> parser \<Rightarrow> consumed" where
  "skip_control_string = control_string parse_st_terminated_control_string (\<lambda>content p. Some p)"

definition consume_hash_escape_sequence :: "str \<Rightarrow> parser \<Rightarrow> consumed" where
  "consume_hash_escape_sequence cs p =
     (case nth_opt cs 2 of
        None \<Rightarrow> Some (Feed_Pending, p)
      | Some c \<Rightarrow> Some (Next 3, if c = 0x38 then upd_core screen_alignment_test p else p))"

definition consume_g0_character_set_selection :: "str \<Rightarrow> parser \<Rightarrow> consumed" where
  "consume_g0_character_set_selection cs p =
     (case nth_opt cs 2 of
        None \<Rightarrow> Some (Feed_Pending, p)
      | Some selector \<Rightarrow> Some (Next 3, case parse_g0_character_set selector of None \<Rightarrow> p
          | Some s \<Rightarrow> upd_core (\<lambda>t. t\<lparr>character_set_of := s\<rparr>) p))"

definition consume_escape_sequence :: "host \<Rightarrow> str \<Rightarrow> parser \<Rightarrow> consumed" where
  "consume_escape_sequence h cs p =
     (case nth_opt cs 1 of
        None \<Rightarrow> Some (Feed_Pending, p)
      | Some c \<Rightarrow>
          if c = 0x5B then apply_csi_sequence h cs 2 p
          else if c = 0x5D then apply_osc_sequence h cs 2 p
          else if c = 0x5F then apply_apc_sequence h cs 2 p
          else if c = 0x50 then apply_dcs_sequence cs 2 p
          else if c = 0x5C \<or> c = 0x3D \<or> c = 0x3E then Some (Next 2, p)
          else if c = 0x58 \<or> c = 0x5E then skip_control_string cs 2 p
          else if c = 0x28 then consume_g0_character_set_selection cs p
          else if c = 0x23 then consume_hash_escape_sequence cs p
          else Some (Next 2, upd_core (
            if c = 0x37 then save_cursor
            else if c = 0x38 then restore_cursor
            else if c = 0x48 then set_horizontal_tab_stop
            else if c = 0x63 then reset_terminal
            else if c = 0x44 then index_down_control False
            else if c = 0x45 then next_line
            else if c = 0x4D then reverse_index
            else record_unknown_escape_sequence (str_of ''ESC '' @ [c])) p))"

text \<open>The first character starts a sequence; for others the code returns \<open>None\<close> and writes text.\<close>

definition consume_escape_or_c1_sequence :: "host \<Rightarrow> str \<Rightarrow> parser \<Rightarrow> consumed" where
  "consume_escape_or_c1_sequence h cs p =
     (let p = upd_core leave_text p; c = hd cs in
      if c = 0x1B then consume_escape_sequence h cs p
      else if c = 0x9B then apply_csi_sequence h cs 1 p
      else if c = 0x9C then Some (Next 1, p)
      else if c = 0x90 then apply_dcs_sequence cs 1 p
      else if c = 0x9D then apply_osc_sequence h cs 1 p
      else if is_c1_st_control_string c then skip_control_string cs 1 p
      else Some (Next 1, upd_core (
        if c = 0x84 then index_down_control False
        else if c = 0x85 then next_line
        else if c = 0x88 then set_horizontal_tab_stop
        else reverse_index) p))"

section \<open>Text\<close>

definition leading_combining_marks_end :: "host \<Rightarrow> str \<Rightarrow> nat" where
  "leading_combining_marks_end h s = length (takeWhile (\<lambda>c. host_combining_class h c \<noteq> 0) s)"

definition normalize_leading_combining_marks :: "host \<Rightarrow> str \<Rightarrow> terminal \<Rightarrow> nat \<times> terminal" where
  "normalize_leading_combining_marks h s t =
     (let leading_end = leading_combining_marks_end h s in
      if leading_end = 0 then (0, t)
      else case nfc_last_printable_cell t of
        None \<Rightarrow> (0, t)
      | Some (row, column) \<Rightarrow>
          (case grid_get row column (grid t) of
             None \<Rightarrow> (0, t)
           | Some previous \<Rightarrow>
               if primary_char previous = kitty_unicode_placeholder then (0, t)
               else let normalized = host_nfc h (cell_text previous @ take leading_end s);
                        width = (\<lambda>x. grapheme_display_width (host_unicode h) x (unicode_version t) (ambiguous_width_as_wide t)
                          (cell_width_overrides t))
                 in if normalized = cell_text previous \<or> width (cell_text previous) = 0 \<or>
                      width (cell_text previous) \<noteq> width normalized then (0, t)
                    else case set_grid_cell row column (set_text normalized (saturating_u8 (width normalized)) previous) t of
                      (False, t) \<Rightarrow> (0, t)
                    | (True, t) \<Rightarrow> (leading_end, (record_damage (damage_rect column row (width (cell_text previous)) 1) t)
                        \<lparr>last_printable := Some normalized\<rparr>)))"

definition write_str :: "host \<Rightarrow> str \<Rightarrow> terminal \<Rightarrow> terminal" where
  "write_str h = fold (write_char (host_unicode h))"

definition consume_text_run_or_ascii_control :: "host \<Rightarrow> str \<Rightarrow> parser \<Rightarrow> nat \<times> parser" where
  "consume_text_run_or_ascii_control h cs p =
     (let ch = hd cs in
      case (if ch \<le> 0x7F then consume_ascii_control ch (core p) else (False, core p)) of
        (True, t) \<Rightarrow> (1, p\<lparr>core := t\<rparr>)
      | (False, t) \<Rightarrow>
          if \<not> normalize_output_to_unicode_nfc p then (1, p\<lparr>core := write_char (host_unicode h) ch t\<rparr>)
          else let run = ch # takeWhile (\<lambda>c. \<not> is_escape_or_c1_sequence_start c \<and> \<not> is_ascii_control c) (tl cs)
            in (length run, p\<lparr>core :=
                 if kitty_unicode_placeholder \<in> set run then write_str h run t
                 else case normalize_leading_combining_marks h run t of
                   (k, t) \<Rightarrow> write_str h (host_nfc h (drop k run)) t\<rparr>))"

section \<open>The loop\<close>

definition consume :: "host \<Rightarrow> str \<Rightarrow> parser \<Rightarrow> consumed" where
  "consume h cs p =
     (if is_escape_or_c1_sequence_start (hd cs) then consume_escape_or_c1_sequence h cs p
      else case consume_text_run_or_ascii_control h cs p of (n, p) \<Rightarrow> Some (Next n, p))"

lemma csi_sequence_pos: "apply_csi_sequence h cs offset p = Some (Next n, q) \<Longrightarrow> 0 < n"
  by (auto simp: apply_csi_sequence_def Let_def split: sequence_parse.splits)

lemma control_string_pos: "control_string parse app cs offset p = Some (Next n, q) \<Longrightarrow> 0 < n"
  by (auto simp: control_string_def Let_def split: sequence_parse.splits)

lemma escape_pos: "consume_escape_sequence h cs p = Some (Next n, q) \<Longrightarrow> 0 < n"
  by (auto simp: consume_escape_sequence_def consume_hash_escape_sequence_def consume_g0_character_set_selection_def
      apply_osc_sequence_def apply_apc_sequence_def apply_dcs_sequence_def skip_control_string_def
      split: option.splits if_splits dest: csi_sequence_pos control_string_pos)

lemma consume_pos: "consume h cs p = Some (Next n, q) \<Longrightarrow> 0 < n"
  by (auto simp: consume_def consume_escape_or_c1_sequence_def consume_text_run_or_ascii_control_def Let_def
      apply_osc_sequence_def apply_dcs_sequence_def skip_control_string_def
      split: if_splits prod.splits bool.splits dest: csi_sequence_pos control_string_pos escape_pos)

function feed_loop :: "host \<Rightarrow> str \<Rightarrow> parser \<Rightarrow> parser option" where
  "feed_loop h cs p =
     (if cs = [] then Some p
      else case consume h cs p of
        None \<Rightarrow> None
      | Some (adv, q) \<Rightarrow>
          (case adv of
             Next n \<Rightarrow> feed_loop h (drop n cs) q
           | Feed_Pending \<Rightarrow> Some (q\<lparr>pending_control := cs\<rparr>)))"
  by pat_completeness auto
termination
  by (relation "measure (\<lambda>(h, cs, p). length cs)") (auto dest: consume_pos)

declare feed_loop.simps [simp del]

section \<open>Feeding bytes\<close>

definition feed_decoded :: "host \<Rightarrow> u8 list \<Rightarrow> parser \<Rightarrow> parser option" where
  "feed_decoded h bytes p =
     (let input = pending_utf8 p @ bytes; n = complete_utf8_prefix_len input in
      feed_loop h (pending_control p @ decode_terminal_chars (take n input))
        (p\<lparr>pending_utf8 := drop n input, pending_control := []\<rparr>))"

definition feed_ascii_byte :: "host \<Rightarrow> u8 \<Rightarrow> terminal \<Rightarrow> terminal" where
  "feed_ascii_byte h b t =
     (case consume_ascii_control b t of (True, t) \<Rightarrow> t | (False, t) \<Rightarrow> write_char (host_unicode h) b t)"

definition try_feed_direct_ascii :: "host \<Rightarrow> u8 list \<Rightarrow> parser \<Rightarrow> parser option" where
  "try_feed_direct_ascii h bytes p =
     (if normalize_output_to_unicode_nfc p \<or> pending_utf8 p \<noteq> [] \<or> pending_control p \<noteq> [] \<or>
        \<not> list_all (\<lambda>b. b \<le> 0x7F) bytes \<or> 0x1B \<in> set bytes then None
      else Some (upd_core (fold (feed_ascii_byte h) bytes) p))"

definition feed_at_current_seqno :: "host \<Rightarrow> u8 list \<Rightarrow> parser \<Rightarrow> parser option" where
  "feed_at_current_seqno h bytes p =
     (case try_feed_direct_ascii h bytes p of Some q \<Rightarrow> Some q | None \<Rightarrow> feed_decoded h bytes p)"

definition feed :: "host \<Rightarrow> u8 list \<Rightarrow> parser \<Rightarrow> parser option" where
  "feed h bytes p = feed_at_current_seqno h bytes (upd_core advance_seqno p)"

definition mark_all_lines_changed_at_current_seqno :: "terminal \<Rightarrow> terminal" where
  "mark_all_lines_changed_at_current_seqno t =
     (let t = (if main_screen t = None
        then t\<lparr>scrollback := map (\<lambda>l. l\<lparr>line_sequence := seqno t\<rparr>) (scrollback t)\<rparr> else t)
      in touch_rows 0 (rows_of t) t)"

definition mark_all_lines_changed :: "terminal \<Rightarrow> terminal" where
  "mark_all_lines_changed t = mark_all_lines_changed_at_current_seqno (advance_seqno t)"

definition feed_with_all_lines_changed :: "host \<Rightarrow> u8 list \<Rightarrow> parser \<Rightarrow> parser option" where
  "feed_with_all_lines_changed h bytes p =
     map_option (upd_core mark_all_lines_changed_at_current_seqno) (feed h bytes p)"

section \<open>Settings and what the owner takes\<close>

definition set_treat_east_asian_ambiguous_width_as_wide :: "bool \<Rightarrow> terminal \<Rightarrow> terminal" where
  "set_treat_east_asian_ambiguous_width_as_wide enabled t = t\<lparr>ambiguous_width_as_wide := enabled\<rparr>"

definition set_cell_width_overrides :: "cell_width_override list \<Rightarrow> terminal \<Rightarrow> terminal" where
  "set_cell_width_overrides overrides t = t\<lparr>cell_width_overrides := overrides\<rparr>"

definition set_default_cursor_style :: "cursor_style \<Rightarrow> terminal \<Rightarrow> terminal" where
  "set_default_cursor_style s t = apply_default_cursor_style (t\<lparr>default_cursor_style := s\<rparr>)"

definition take_bell_count :: "terminal \<Rightarrow> u64 \<times> terminal" where
  "take_bell_count t = (bell_count t, t\<lparr>bell_count := 0\<rparr>)"

definition take_unknown_escape_sequences :: "terminal \<Rightarrow> str list \<times> terminal" where
  "take_unknown_escape_sequences t = (unknown_escape_sequences t, t\<lparr>unknown_escape_sequences := []\<rparr>)"

definition take_damage :: "terminal \<Rightarrow> damage_region list \<times> terminal" where
  "take_damage t = (damage t, t\<lparr>damage := []\<rparr>)"

definition drain_damage_into :: "damage_region list \<Rightarrow> terminal \<Rightarrow> damage_region list \<times> terminal" where
  "drain_damage_into target t = (target @ damage t, t\<lparr>damage := []\<rparr>)"

end
