(* ===== verification/Term_Feed_Shape.thy ===== *)
theory Term_Feed_Shape
  imports Term_Feed Term_Shape
begin

text \<open>
  The shape of a terminal is kept by everything the input can do: controls, control strings with
  images and metadata, and text with or without normalization.
\<close>

section \<open>Images\<close>

lemma upd_images_flag_ok [simp]: "term_ok (snd (upd_images_flag f t)) = term_ok t"
  by (simp add: upd_images_flag_def split: prod.splits)

lemma set_images_ok [simp]: "term_ok (t\<lparr>images := g\<rparr>) = term_ok t"
  by (simp add: term_ok_def)

lemma delete_kitty_placements_ok [simp]: "term_ok t \<Longrightarrow> term_ok (delete_kitty_placements b f t)"
  using upd_images_flag_ok [of "delete_placements b f" t]
  by (cases "upd_images_flag (delete_placements b f) t") (simp add: delete_kitty_placements_def)

lemma delete_physical_ok [simp]: "term_ok t \<Longrightarrow> term_ok (delete_kitty_physical_placements b f t)"
  by (simp add: delete_kitty_physical_placements_def Let_def)

lemma discard_ok [simp]: "term_ok t \<Longrightarrow> term_ok (discard_kitty_character_edited_placements ks t)"
  by (auto simp: discard_kitty_character_edited_placements_def Let_def upd_images_def term_ok_def)

lemma drop_virtual_ok [simp]: "term_ok t \<Longrightarrow> term_ok (drop_virtual_placements f t)"
  by (simp add: drop_virtual_placements_def Let_def)

lemma delete_by_id_ok [simp]:
  "term_ok t \<Longrightarrow> term_ok (delete_kitty_placements_by_image_id i p b t)"
  "term_ok t \<Longrightarrow> term_ok (delete_kitty_placements_by_image_id_range i j b t)"
  by (simp_all add: delete_kitty_placements_by_image_id_def delete_kitty_placements_by_image_id_range_def
      delete_kitty_virtual_placements_by_image_id_def Let_def split: option.splits)

lemma kitty_delete_ok [simp]: "term_ok t \<Longrightarrow> term_ok (apply_kitty_graphics_delete p t)"
  unfolding apply_kitty_graphics_delete_def Let_def by (simp split: option.splits prod.splits)

lemma kitty_placement_ok [simp]:
  "term_ok t \<Longrightarrow> term_ok (apply_relative_kitty_graphics_placement p i t)"
  "term_ok t \<Longrightarrow> term_ok (apply_kitty_graphics_placement p t)"
proof -
  show r: "term_ok t \<Longrightarrow> term_ok (apply_relative_kitty_graphics_placement p i t)" for i
    unfolding apply_relative_kitty_graphics_placement_def Let_def by (simp split: option.splits prod.splits)
  then show "term_ok t \<Longrightarrow> term_ok (apply_kitty_graphics_placement p t)"
    unfolding apply_kitty_graphics_placement_def by (simp split: option.splits)
qed

lemma show_upload_ok [simp]: "term_ok t \<Longrightarrow> term_ok (show_upload u im i t)"
  by (simp add: show_upload_def split: option.splits)

lemma finish_upload_ok: "term_ok t \<Longrightarrow> finish_kitty_graphics_upload h u t = Some t1 \<Longrightarrow> term_ok t1"
  unfolding finish_kitty_graphics_upload_def Let_def
  by (auto split: prod.splits sum.splits if_splits option.splits)

lemma begin_upload_ok: "term_ok t \<Longrightarrow> begin_upload h p d c t = Some t1 \<Longrightarrow> term_ok t1"
  unfolding begin_upload_def by (auto split: sum.splits if_splits dest: finish_upload_ok [rotated])

lemma kitty_graphics_ok: "term_ok t \<Longrightarrow> apply_kitty_graphics h gr t = Some t1 \<Longrightarrow> term_ok t1"
  unfolding apply_kitty_graphics_def Let_def
  by (auto split: prod.splits if_splits option.splits dest: finish_upload_ok [rotated] begin_upload_ok [rotated])

lemma apc_ok: "term_ok t \<Longrightarrow> apply_apc_content h c t = Some t1 \<Longrightarrow> term_ok t1"
  unfolding apply_apc_content_def by (auto split: list.splits if_splits dest: kitty_graphics_ok)

lemma dcs_ok [simp]: "term_ok t \<Longrightarrow> term_ok (apply_dcs_content c t)"
  by (simp add: apply_dcs_content_def apply_sixel_content_def Let_def split: option.splits)

section \<open>Operating system commands\<close>

lemma title_ok [simp]: "term_ok (set_title s t) = term_ok t"
  by (simp add: set_title_def)

lemma osc_ops_ok [simp]:
  "term_ok (apply_osc8_hyperlink c t) = term_ok t"
  "term_ok (set_semantic ty b t) = term_ok t"
  "term_ok (record_semantic_prompt_row t) = term_ok t"
  "term_ok (record_semantic_command_exit c t) = term_ok t"
  by (simp_all add: apply_osc8_hyperlink_def set_semantic_def record_semantic_prompt_row_def Let_def
      record_semantic_command_exit_def split: option.splits)

lemma fresh_line_ok [simp]: "term_ok t \<Longrightarrow> term_ok (fresh_line t)"
  by (simp add: fresh_line_def)

lemma semantic_prompt_ok [simp]: "term_ok t \<Longrightarrow> term_ok (apply_osc133_semantic_prompt c t)"
  unfolding apply_osc133_semantic_prompt_def by (simp split: prod.splits)

lemma file_ok [simp]: "term_ok t \<Longrightarrow> term_ok (apply_osc1337_file h f t)"
  unfolding apply_osc1337_file_def Let_def by (simp split: option.splits prod.splits)

lemma core_upd [simp]: "core (upd_core f p) = f (core p)"
  by (simp add: upd_core_def)

lemma working_dir_core [simp]: "core (set_current_working_dir d p) = core p"
  by (simp add: set_current_working_dir_def)

lemma user_var_core [simp]:
  "core (apply_osc1337_set_user_var h v p) = core p" "core (apply_osc1337_set_badge_format h v p) = core p"
  by (simp_all add: apply_osc1337_set_user_var_def apply_osc1337_set_badge_format_def Let_def split: option.splits prod.splits)

lemma set_fields_ok [simp]:
  "term_ok (t\<lparr>unicode_version := v\<rparr>) = term_ok t" "term_ok (t\<lparr>bell_count := n\<rparr>) = term_ok t"
  "term_ok (t\<lparr>icon_title := ti\<rparr>) = term_ok t" "term_ok (t\<lparr>window_title := ti\<rparr>) = term_ok t"
  "term_ok (t\<lparr>character_set_of := s\<rparr>) = term_ok t" "term_ok (t\<lparr>seqno := n\<rparr>) = term_ok t"
  by (simp_all add: term_ok_def)

lemma unicode_version_ok [simp]: "term_ok (core p) \<Longrightarrow> term_ok (core (apply_osc1337_unicode_version v p))"
  by (simp add: apply_osc1337_unicode_version_def pop_labeled_unicode_version_def Let_def split: option.splits)

lemma iterm_ok [simp]: "term_ok (core p) \<Longrightarrow> term_ok (core (apply_osc1337_iterm_metadata h c p))"
  unfolding apply_osc1337_iterm_metadata_def by (simp split: option.splits)

lemma osc_ok [simp]: "term_ok (core p) \<Longrightarrow> term_ok (core (apply_osc_content h c p))"
  unfolding apply_osc_content_def apply_osc_command_def
  by (simp add: set_icon_and_window_title_def set_icon_title_def set_window_title_def split: list.splits option.splits)

section \<open>The input\<close>

lemma leave_text_ok [simp]: "term_ok t \<Longrightarrow> term_ok (leave_text t)"
  by (simp add: leave_text_def)

lemma ascii_control_ok: "term_ok t \<Longrightarrow> term_ok (snd (consume_ascii_control b t))"
  by (simp add: consume_ascii_control_def)

lemma write_str_ok [simp]: "term_ok t \<Longrightarrow> term_ok (write_str h s t)"
  unfolding write_str_def by (rule fold_ok) simp_all

lemma normalize_marks_ok: "term_ok t \<Longrightarrow> term_ok (snd (normalize_leading_combining_marks h s t))"
  unfolding normalize_leading_combining_marks_def Let_def
  by (auto split: option.splits prod.splits bool.splits dest: set_grid_cell_ok)

lemma text_run_ok:
  assumes "term_ok (core p)" shows "term_ok (core (snd (consume_text_run_or_ascii_control h cs p)))"
proof -
  obtain b t where bt: "(if hd cs \<le> 0x7F then consume_ascii_control (hd cs) (core p) else (False, core p)) = (b, t)"
    by fastforce
  then have "term_ok t" using assms ascii_control_ok [OF assms, of "hd cs"] by (auto split: if_splits)
  moreover from this have "term_ok (case normalize_leading_combining_marks h s t of (k, u) \<Rightarrow> write_str h (x k) u)" for s x
    using normalize_marks_ok [of t h s] by (cases "normalize_leading_combining_marks h s t") simp
  ultimately show ?thesis unfolding consume_text_run_or_ascii_control_def Let_def bt
    by (cases b) simp_all
qed

lemma csi_sequence_ok:
  "term_ok (core p) \<Longrightarrow> apply_csi_sequence h cs n p = Some (adv, q) \<Longrightarrow> term_ok (core q)"
  by (auto simp: apply_csi_sequence_def Let_def split: sequence_parse.splits dest: apply_csi_ok [rotated])

lemma control_string_ok:
  assumes "\<And>c q. app c p = Some q \<Longrightarrow> term_ok (core q)" and "term_ok (core p)"
    and "control_string parse app cs n p = Some (adv, q)"
  shows "term_ok (core q)"
  using assms by (auto simp: control_string_def Let_def split: sequence_parse.splits)

lemma sequences_ok:
  assumes "term_ok (core p)"
  shows "apply_osc_sequence h cs n p = Some (adv, q) \<Longrightarrow> term_ok (core q)"
    "apply_apc_sequence h cs n p = Some (adv, q) \<Longrightarrow> term_ok (core q)"
    "apply_dcs_sequence cs n p = Some (adv, q) \<Longrightarrow> term_ok (core q)"
    "skip_control_string cs n p = Some (adv, q) \<Longrightarrow> term_ok (core q)"
  unfolding apply_osc_sequence_def apply_apc_sequence_def apply_dcs_sequence_def skip_control_string_def
  using assms by (auto elim!: control_string_ok [rotated 2] dest: apc_ok [rotated])

lemma escape_ok:
  assumes "term_ok (core p)" and "consume_escape_sequence h cs p = Some (adv, q)"
  shows "term_ok (core q)"
  using assms csi_sequence_ok [OF assms(1)] sequences_ok [OF assms(1)]
  by (auto simp: consume_escape_sequence_def consume_hash_escape_sequence_def consume_g0_character_set_selection_def
      split: option.splits if_splits)

lemma consume_ok:
  assumes "term_ok (core p)" and "consume h cs p = Some (adv, q)"
  shows "term_ok (core q)"
proof -
  have l: "term_ok (core (upd_core leave_text p))" using assms(1) by simp
  show ?thesis
    using assms(2) csi_sequence_ok [OF l] sequences_ok [OF l] escape_ok [OF l] text_run_ok [OF assms(1), of h cs] l
    unfolding consume_def consume_escape_or_c1_sequence_def Let_def
    by (auto split: if_splits prod.splits)
qed

lemma feed_loop_ok: "term_ok (core p) \<Longrightarrow> feed_loop h cs p = Some q \<Longrightarrow> term_ok (core q)"
proof (induction h cs p rule: feed_loop.induct)
  case (1 h cs p)
  show ?case
  proof (cases "cs = []")
    case False
    then obtain adv r where c: "consume h cs p = Some (adv, r)" using 1(3) by (auto simp: feed_loop.simps [of h cs] split: option.splits)
    have r: "term_ok (core r)" by (rule consume_ok [OF 1(2) c])
    show ?thesis using 1(1) [OF False c _ _ r] 1(3) False c r
      by (cases adv) (auto simp: feed_loop.simps [of h cs])
  qed (use 1 in \<open>simp add: feed_loop.simps\<close>)
qed

lemma ascii_byte_ok: "term_ok t \<Longrightarrow> term_ok (feed_ascii_byte h b t)"
  using ascii_control_ok [of t b] by (auto simp: feed_ascii_byte_def split: prod.splits bool.splits)

lemma feed_ok:
  assumes "term_ok (core p)" and "feed h bytes p = Some q"
  shows "term_ok (core q)"
proof -
  let ?p = "upd_core advance_seqno p"
  have p: "term_ok (core ?p)" using assms(1) by (simp add: advance_seqno_def)
  show ?thesis
  proof (cases "try_feed_direct_ascii h bytes ?p")
    case None
    with assms(2) show ?thesis
      using p by (auto simp: feed_def feed_at_current_seqno_def feed_decoded_def Let_def dest!: feed_loop_ok [rotated])
  next
    case (Some r)
    with assms(2) show ?thesis
      using fold_ok [of "feed_ascii_byte h", OF ascii_byte_ok p]
      by (auto simp: feed_def feed_at_current_seqno_def try_feed_direct_ascii_def split: if_splits)
  qed
qed

end
