(* ===== verification/Term_Decode_Laws.thy ===== *)
theory Term_Decode_Laws
  imports Term_Decode
begin

text \<open>
  Decoding one character at a time, and what it means for chunks: where the bytes are UTF-8 and
  single-byte controls, the cut between the bytes decoded now and the bytes kept is the end of a
  character, so that decoding does not depend on how the bytes are split.
\<close>

section \<open>One character at a time\<close>

text \<open>The head of the input decides the next character and how many bytes it takes.\<close>

definition head_char :: "u8 list \<Rightarrow> nat \<times> nat" where
  "head_char bs =
     (case raw_c1_control (hd bs) of
        Some ch \<Rightarrow> (ch, 1)
      | None \<Rightarrow> (case utf8_head bs of Utf8_Char c n \<Rightarrow> (c, n)
          | Utf8_Error e \<Rightarrow> (0xFFFD, case e of Some n \<Rightarrow> n | None \<Rightarrow> 1)))"

lemma head_char_pos:
  assumes "bs \<noteq> []" shows "0 < snd (head_char bs) \<and> snd (head_char bs) \<le> length bs"
proof -
  have "1 \<le> length bs" using assms by (cases bs) auto
  then show ?thesis using utf8_head_bounds [of bs] by (auto simp: head_char_def split: option.splits utf8_scan.splits)
qed

lemma char_is_not_c1: "utf8_head bs = Utf8_Char c n \<Longrightarrow> raw_c1_control (hd bs) = None"
  by (induction bs rule: utf8_head.induct) (auto simp: utf8_head.simps raw_c1_control_def split: if_splits)

lemma decode_Nil [simp]: "decode_terminal_chars [] = []"
  by (simp add: decode_terminal_chars.simps)

lemma decode_lossy:
  "decode_terminal_chars bs = (case from_utf8_lossy bs of (cs, v, e) \<Rightarrow> cs @
     (if e = None then [] else decode_terminal_chars (drop v bs)))"
proof (cases "bs = [] \<or> (\<exists>x. utf8_head bs = Utf8_Error x)")
  case True
  then show ?thesis by (cases "bs = []") (auto simp: lossy_simps)
next
  case False
  then obtain c k where h: "bs \<noteq> []" "utf8_head bs = Utf8_Char c k" by (cases "utf8_head bs") auto
  obtain cs v e where l: "from_utf8_lossy (drop k bs) = (cs, v, e)" by (metis prod_cases3)
  have "raw_c1_control (hd bs) = None" and "0 < k" using char_is_not_c1 utf8_head_bounds(1) h by blast+
  then show ?thesis using h l
    by (subst decode_terminal_chars.simps) (auto simp: lossy_simps split: list.splits option.splits)
qed

lemma decode_step:
  assumes "bs \<noteq> []"
  shows "decode_terminal_chars bs = fst (head_char bs) # decode_terminal_chars (drop (snd (head_char bs)) bs)"
proof (cases "raw_c1_control (hd bs)")
  case (Some ch)
  with assms show ?thesis
    by (subst decode_terminal_chars.simps) (auto simp: head_char_def split: list.splits)
next
  case None
  show ?thesis
  proof (cases "utf8_head bs")
    case (Utf8_Char c n)
    then show ?thesis
      using None assms decode_lossy [of "drop n bs"]
      by (subst decode_lossy) (auto simp: head_char_def lossy_simps add.commute split: prod.splits)
  next
    case (Utf8_Error e)
    with None assms show ?thesis
      by (subst decode_terminal_chars.simps) (auto simp: head_char_def lossy_simps split: list.splits)
  qed
qed

lemma decode_induct [case_names Nil step]:
  assumes "P []" and "\<And>bs. bs \<noteq> [] \<Longrightarrow> P (drop (snd (head_char bs)) bs) \<Longrightarrow> P bs"
  shows "P bs"
proof (induction bs rule: measure_induct_rule [where f = length])
  case (less bs)
  show ?case
  proof (cases "bs = []")
    case False
    then have "length (drop (snd (head_char bs)) bs) < length bs" using head_char_pos [OF False] by simp
    then show ?thesis by (rule assms(2) [OF False less])
  qed (simp add: assms(1))
qed

section \<open>Well-coded output\<close>

text \<open>
  \<open>head_complete\<close> holds of an input whose first character is there with all its bytes; \<open>well_coded\<close> of
  bytes that are characters and single-byte controls up to a last character that may be cut.
\<close>

definition head_complete :: "u8 list \<Rightarrow> bool" where
  "head_complete bs \<longleftrightarrow> raw_c1_control (hd bs) \<noteq> None \<or> (\<exists>c n. utf8_head bs = Utf8_Char c n)"

function well_coded :: "u8 list \<Rightarrow> bool" where
  "well_coded bs = (if bs = [] \<or> utf8_head bs = Utf8_Error None then True
     else if head_complete bs then well_coded (drop (snd (head_char bs)) bs) else False)"
  by pat_completeness auto
termination
proof (relation "measure length", goal_cases)
  case (2 bs)
  then have "bs \<noteq> []" by simp
  with head_char_pos [of bs] show ?case by simp
qed simp

declare well_coded.simps [simp del]

function char_cut :: "u8 list \<Rightarrow> nat" where
  "char_cut bs = (if bs = [] \<or> \<not> head_complete bs then 0
     else snd (head_char bs) + char_cut (drop (snd (head_char bs)) bs))"
  by pat_completeness auto
termination
proof (relation "measure length", goal_cases)
  case (2 bs)
  then have "bs \<noteq> []" by simp
  with head_char_pos [of bs] show ?case by simp
qed simp

declare char_cut.simps [simp del]

lemma head_complete_append:
  assumes "bs \<noteq> []" and "head_complete bs"
  shows "head_complete (bs @ zs)" "head_char (bs @ zs) = head_char bs"
  using assms utf8_head_append [of bs zs] by (auto simp: head_complete_def head_char_def split: option.splits)

lemma complete_not_short: "bs \<noteq> [] \<Longrightarrow> head_complete bs \<Longrightarrow> utf8_head bs \<noteq> Utf8_Error None"
  by (cases bs) (auto simp: head_complete_def raw_c1_control_def utf8_head.simps split: if_splits)

lemma utf8_head_take: "utf8_head bs = Utf8_Char c n \<Longrightarrow> utf8_head (take n bs) = Utf8_Char c n"
  by (induction bs rule: utf8_head.induct)
    (auto simp: utf8_head.simps utf8_third_def take_Cons' split: if_splits list.splits)

lemma head_complete_take:
  assumes "bs \<noteq> []" and "head_complete bs"
  shows "head_complete (take (snd (head_char bs)) bs)" "head_char (take (snd (head_char bs)) bs) = head_char bs"
  using assms utf8_head_take [of bs] utf8_head_bounds(1) [of bs]
  by (auto simp: head_complete_def head_char_def split: option.splits)

lemma char_cut_Nil [simp]: "char_cut [] = 0"
  by (simp add: char_cut.simps)

lemma char_cut_incomplete: "\<not> head_complete bs \<Longrightarrow> char_cut bs = 0"
  by (simp add: char_cut.simps)

lemma char_cut_complete: "bs \<noteq> [] \<Longrightarrow> head_complete bs \<Longrightarrow> char_cut bs = snd (head_char bs) + char_cut (drop (snd (head_char bs)) bs)"
  by (subst char_cut.simps) simp

lemma char_cut_le: "char_cut bs \<le> length bs"
proof (induction bs rule: decode_induct)
  case (step bs)
  with head_char_pos [of bs] show ?case
    by (cases "head_complete bs") (auto simp: char_cut_complete char_cut_incomplete)
qed simp

text \<open>Decoding, the cut and the coding of a longer input, by the input cut off.\<close>

lemma decode_take:
  "decode_terminal_chars (take (char_cut bs) bs @ zs) = decode_terminal_chars (take (char_cut bs) bs) @ decode_terminal_chars zs"
proof (induction bs rule: decode_induct)
  case (step bs)
  let ?k = "snd (head_char bs)"
  show ?case
  proof (cases "head_complete bs")
    case True
    have k: "0 < ?k" "?k \<le> length bs" using head_char_pos [OF step(1)] by auto
    have t: "take (char_cut bs) bs = take ?k bs @ take (char_cut (drop ?k bs)) (drop ?k bs)"
      by (simp add: char_cut_complete [OF step(1) True] take_add)
    have ne: "take ?k bs \<noteq> []" using k by (cases bs) auto
    have "decode_terminal_chars (take ?k bs @ xs) = fst (head_char bs) # decode_terminal_chars xs" for xs
      using head_complete_append(2) [OF ne head_complete_take(1) [OF step(1) True], of xs]
        head_complete_take(2) [OF step(1) True] ne k
      by (subst decode_step) simp_all
    with step(2) show ?thesis unfolding t append_assoc by simp
  next
    case False
    then show ?thesis by (simp add: char_cut_incomplete)
  qed
qed simp

lemma char_cut_append: "char_cut (bs @ zs) = char_cut bs + char_cut (drop (char_cut bs) bs @ zs)"
proof (induction bs rule: decode_induct)
  case (step bs)
  show ?case
  proof (cases "head_complete bs")
    case True
    note a = head_complete_append [OF step(1) True, of zs]
    have "snd (head_char bs) \<le> length bs" using head_char_pos [OF step(1)] by simp
    with step char_cut_complete [OF _ a(1)] char_cut_complete [OF step(1) True] show ?thesis
      by (simp add: a(2) add.commute)
  qed (simp add: char_cut_incomplete)
qed simp

lemma well_coded_cut: "well_coded (bs @ zs) \<Longrightarrow> well_coded (drop (char_cut bs) bs @ zs)"
proof (induction bs rule: decode_induct)
  case (step bs)
  show ?case
  proof (cases "head_complete bs")
    case True
    note a = head_complete_append [OF step(1) True, of zs]
    have "snd (head_char bs) \<le> length bs" using head_char_pos [OF step(1)] by simp
    moreover have "utf8_head (bs @ zs) \<noteq> Utf8_Error None" using step(1) by (intro complete_not_short a) simp
    ultimately have "well_coded (drop (snd (head_char bs)) bs @ zs)"
      using step(1,3) a by (subst (asm) well_coded.simps) simp
    with step show ?thesis by (simp add: char_cut_complete [OF step(1) True] add.commute)
  qed (use step in \<open>simp add: char_cut_incomplete\<close>)
qed simp

section \<open>The bytes kept for the next chunk\<close>

lemma continuation_iff: "b < 256 \<Longrightarrow> is_utf8_continuation b \<longleftrightarrow> continuation b"
proof -
  assume "b < 256"
  then have "b div 64 mod 4 = b div 64" by simp
  moreover have "b div 64 = 2 \<longleftrightarrow> 128 \<le> b \<and> b < 192"
    using div_mult_mod_eq [of b 64] mod_less_divisor [of 64 b] by (intro iffI conjI; linarith)
  ultimately show ?thesis by (auto simp: is_utf8_continuation_def continuation_def and_192)
qed

lemma back_to_start_spec:
  "back_to_start bs i \<le> i"
  "back_to_start bs i = 0 \<or> \<not> is_utf8_continuation (bs ! back_to_start bs i)"
  "back_to_start bs i < j \<Longrightarrow> j \<le> i \<Longrightarrow> is_utf8_continuation (bs ! j)"
  by (induction i) (auto simp: le_Suc_eq split: if_splits)

lemma back_to_start_at:
  assumes "n \<le> i" and "n = 0 \<or> \<not> is_utf8_continuation (bs ! n)" and "\<And>j. n < j \<Longrightarrow> j \<le> i \<Longrightarrow> is_utf8_continuation (bs ! j)"
  shows "back_to_start bs i = n"
  using assms by (induction i) (auto simp: le_Suc_eq)

text \<open>The bytes of a character: its first byte gives the length, the others are continuation bytes.\<close>

lemma char_bytes:
  assumes "utf8_head bs = Utf8_Char c n"
  shows "terminal_utf8_sequence_len (hd bs) = Some n" "0 < i \<Longrightarrow> i < n \<Longrightarrow> continuation (bs ! i)"
    "\<not> continuation (hd bs)"
  using assms
  by (induction bs rule: utf8_head.induct)
    (auto simp: utf8_head.simps utf8_third_def terminal_utf8_sequence_len_def second_byte_ok_def continuation_def less_Suc_eq
      numeral_2_eq_2 numeral_3_eq_3 nth_Cons'
      split: if_splits list.splits)

lemma short_bytes:
  assumes "utf8_head bs = Utf8_Error None" and "bs \<noteq> []"
  shows "\<exists>n. terminal_utf8_sequence_len (hd bs) = Some n \<and> length bs < n" "\<not> continuation (hd bs)"
    "0 < i \<Longrightarrow> i < length bs \<Longrightarrow> continuation (bs ! i)"
  using assms
  by (induction bs rule: utf8_head.induct)
    (auto simp: utf8_head.simps utf8_third_def terminal_utf8_sequence_len_def second_byte_ok_def continuation_def less_Suc_eq
      split: if_splits list.splits)

lemma complete_bytes:
  assumes "bs \<noteq> []" and "head_complete bs" and "i < snd (head_char bs)"
  shows "bs ! i < 256" "0 < i \<Longrightarrow> continuation (bs ! i)"
proof -
  show c: "continuation (bs ! i)" if "0 < i"
    using assms that char_bytes(2) [of bs] by (auto simp: head_complete_def head_char_def split: option.splits)
  have "hd bs < 256"
    using assms(2) char_bytes(1) [of bs]
    by (auto simp: head_complete_def raw_c1_control_def terminal_utf8_sequence_len_def split: if_splits)
  with c assms(1) show "bs ! i < 256" by (cases "i = 0") (auto simp: continuation_def hd_conv_nth)
qed

lemma short_byte:
  assumes "utf8_head bs = Utf8_Error None" and "i < length bs" shows "bs ! i < 256"
proof -
  have ne: "bs \<noteq> []" using assms(2) by auto
  have "hd bs < 256" using short_bytes(1) [OF assms(1) ne] by (auto simp: terminal_utf8_sequence_len_def split: if_splits)
  with short_bytes(3) [OF assms(1) ne, of i] assms(2) ne show ?thesis
    by (cases "i = 0") (simp_all add: continuation_def hd_conv_nth)
qed

lemma well_coded_prefix: "well_coded (bs @ zs) \<Longrightarrow> well_coded bs"
proof (induction bs rule: decode_induct)
  case (step bs)
  show ?case
  proof (cases "utf8_head bs = Utf8_Error None")
    case False
    have short: "utf8_head (bs @ zs) \<noteq> Utf8_Error None" using utf8_head_append [OF False] False by simp
    have "head_complete bs"
      using step(1,3) short utf8_head_append [OF False, of zs]
      by (auto simp: well_coded.simps [of "bs @ zs"] head_complete_def split: if_splits)
    note c = head_complete_append [OF step(1) this, of zs]
    have "snd (head_char bs) \<le> length bs" using head_char_pos [OF step(1)] by simp
    then have "well_coded (drop (snd (head_char bs)) bs @ zs)"
      using step(1,3) short c by (simp add: well_coded.simps [of "bs @ zs"])
    with step(2) \<open>head_complete bs\<close> show ?thesis by (simp add: well_coded.simps [of bs])
  qed (simp add: well_coded.simps [of bs])
qed (simp add: well_coded.simps)

lemma well_coded_bytes: "well_coded bs \<Longrightarrow> i < length bs \<Longrightarrow> bs ! i < 256"
proof (induction bs arbitrary: i rule: decode_induct)
  case (step bs)
  show ?case
  proof (cases "utf8_head bs = Utf8_Error None")
    case False
    with step have h: "head_complete bs" "well_coded (drop (snd (head_char bs)) bs)"
      by (simp_all add: well_coded.simps [of bs] split: if_splits)
    show ?thesis
    proof (cases "i < snd (head_char bs)")
      case False
      then show ?thesis using step(2) [OF h(2), of "i - snd (head_char bs)"] step(4) by simp
    qed (use complete_bytes(1) step(1) h in blast)
  qed (use short_byte step(4) in blast)
qed simp

lemma char_starts:
  assumes "char_cut bs = length bs" and "i < length bs" and "\<not> continuation (bs ! i)"
  shows "\<exists>c n. utf8_head (drop i bs) = Utf8_Char c n"
  using assms
proof (induction bs arbitrary: i rule: decode_induct)
  case (step bs)
  let ?k = "snd (head_char bs)"
  have h: "head_complete bs" using step(1,3) by (cases "head_complete bs") (simp_all add: char_cut_incomplete)
  have k: "0 < ?k" "?k \<le> length bs" using head_char_pos [OF step(1)] by auto
  consider "i = 0" | "0 < i" "i < ?k" | "?k \<le> i" by linarith
  then show ?case
  proof cases
    case 1
    with step(1,5) h show ?thesis
      by (auto simp: head_complete_def raw_c1_control_def continuation_def hd_conv_nth split: if_splits)
  next
    case 2
    with complete_bytes(2) [OF step(1) h] step(5) show ?thesis by blast
  next
    case 3
    have "char_cut (drop ?k bs) = length (drop ?k bs)" using char_cut_complete [OF step(1) h] step(3) by simp
    with step(2) [of "i - ?k"] step(4,5) 3 show ?thesis by simp
  qed
qed simp

lemma well_coded_rest:
  assumes "well_coded bs"
  shows "drop (char_cut bs) bs = [] \<or> utf8_head (drop (char_cut bs) bs) = Utf8_Error None"
proof -
  let ?r = "drop (char_cut bs) bs"
  have "char_cut ?r = 0" using char_cut_append [of bs "[]"] by simp
  then have "?r = [] \<or> \<not> head_complete ?r" using char_cut_complete [of ?r] head_char_pos [of ?r] by auto
  moreover have "well_coded ?r" using well_coded_cut [of bs "[]"] assms by simp
  ultimately show ?thesis by (simp add: well_coded.simps [of ?r] split: if_splits)
qed

lemma complete_utf8_prefix_cut:
  assumes w: "well_coded bs"
  shows "complete_utf8_prefix_len bs = char_cut bs"
proof (cases "bs = []")
  case ne: False
  let ?n = "char_cut bs" and ?i = "length bs - 1"
  have cont: "is_utf8_continuation (bs ! j) \<longleftrightarrow> continuation (bs ! j)" if "j < length bs" for j
    using continuation_iff well_coded_bytes [OF w that] by blast
  show ?thesis
  proof (cases "drop ?n bs = []")
    case False
    then have n: "?n < length bs" and short: "utf8_head (drop ?n bs) = Utf8_Error None"
      using well_coded_rest [OF w] by auto
    note sb = short_bytes [OF short False]
    have later: "continuation (bs ! j)" if "?n < j" "j < length bs" for j
      using sb(3) [of "j - ?n"] that by simp
    have "back_to_start bs ?i = ?n"
      using sb(2) later cont n by (intro back_to_start_at) (auto simp: hd_drop_conv_nth)
    moreover have "list_all is_utf8_continuation (drop (?n + 1) bs)"
      using later cont by (auto simp: list_all_length)
    ultimately show ?thesis
      using sb(1) ne n by (auto simp: complete_utf8_prefix_len_def Let_def hd_drop_conv_nth)
  next
    case True
    then have all: "?n = length bs" using char_cut_le [of bs] by simp
    let ?s = "back_to_start bs ?i"
    have s: "?s < length bs" using back_to_start_spec(1) [of bs ?i] ne by (cases bs) auto
    have "length bs - ?s \<ge> e" if "terminal_utf8_sequence_len (bs ! ?s) = Some e" for e
    proof -
      have "\<not> continuation (bs ! ?s)" using that by (auto simp: terminal_utf8_sequence_len_def continuation_def split: if_splits)
      then obtain c n where c: "utf8_head (drop ?s bs) = Utf8_Char c n" using char_starts [OF all s] by blast
      then have "n = e" using char_bytes(1) [OF c] that s by (simp add: hd_drop_conv_nth)
      with utf8_head_bounds(1) [OF c] show ?thesis by simp
    qed
    then show ?thesis using all ne by (simp add: complete_utf8_prefix_len_def Let_def split: option.splits)
  qed
qed (simp add: complete_utf8_prefix_len_def)

end
