(* ===== verification/Term_Feed_Laws.thy ===== *)
theory Term_Feed_Laws
  imports Term_Feed Term_Decode_Laws
begin

text \<open>
  Input in chunks. A scanner whose steps depend only on the characters they consume, and which can
  take up a sequence it has left, gives the same result however its input is split; the input loop of the
  terminal is one, as long as text is not normalized in runs.
\<close>

section \<open>Scanners\<close>

locale chunked_scanner =
  fixes step :: "'c list \<Rightarrow> 's \<Rightarrow> (feed_advance \<times> 's) option"
    and run :: "'c list \<Rightarrow> 's \<Rightarrow> 's option"
    and ready :: "'s \<Rightarrow> bool"
    and park :: "'c list \<Rightarrow> 's \<Rightarrow> 's"
    and parked :: "'s \<Rightarrow> 'c list"
  assumes run_Nil: "run [] s = Some s"
    and run_step: "cs \<noteq> [] \<Longrightarrow> run cs s = (case step cs s of None \<Rightarrow> None
      | Some (Next n, q) \<Rightarrow> run (drop n cs) q | Some (Feed_Pending, q) \<Rightarrow> Some (park cs q))"
    and progress: "ready s \<Longrightarrow> cs \<noteq> [] \<Longrightarrow> step cs s = Some (Next n, q) \<Longrightarrow> 0 < n \<and> n \<le> length cs \<and> ready q"
    and stable: "ready s \<Longrightarrow> cs \<noteq> [] \<Longrightarrow> (\<And>q. step cs s \<noteq> Some (Feed_Pending, q)) \<Longrightarrow> step (cs @ ds) s = step cs s"
    and resume: "ready s \<Longrightarrow> cs \<noteq> [] \<Longrightarrow> step cs s = Some (Feed_Pending, q) \<Longrightarrow> ready q \<and> step (cs @ ds) q = step (cs @ ds) s"
    and ready_parked: "ready s \<Longrightarrow> parked s = []"
    and park_laws: "parked (park cs s) = cs" "ready s \<Longrightarrow> park [] (park cs s) = s" "ready s \<Longrightarrow> park [] s = s"
begin

lemma run_append:
  assumes "ready s"
  shows "run (cs @ ds) s = Option.bind (run cs s) (\<lambda>q. run (parked q @ ds) (park [] q))"
  using assms
proof (induction cs arbitrary: s rule: measure_induct_rule [where f = length])
  case (less cs)
  show ?case
  proof (cases "cs = []")
    case True
    then show ?thesis by (simp add: run_Nil ready_parked [OF less(2)] park_laws(3) [OF less(2)])
  next
    case False
    show ?thesis
    proof (cases "\<exists>q. step cs s = Some (Feed_Pending, q)")
      case True
      then obtain q where q: "step cs s = Some (Feed_Pending, q)" by blast
      note r = resume [OF less(2) False q]
      have "run (cs @ ds) q = run (cs @ ds) s" using r [of ds] False by (simp add: run_step)
      with q r [of ds] show ?thesis by (simp add: run_step [OF False] park_laws)
    next
      case nopend: False
      then have st: "step (cs @ ds) s = step cs s" by (intro stable [OF less(2) False]) blast
      show ?thesis
      proof (cases "step cs s")
        case None
        with st False show ?thesis by (simp add: run_step)
      next
        case (Some r)
        then obtain n q where q: "step cs s = Some (Next n, q)" using nopend
          by (metis feed_advance.exhaust surj_pair)
        then show ?thesis
          using progress [OF less(2) False q] less(1) [of "drop n cs" q] st False by (simp add: run_step)
      qed
    qed
  qed
qed

end

section \<open>Ends of sequences\<close>

lemma shift_parse_Pending [simp]: "shift_parse f r = Pending \<longleftrightarrow> r = Pending"
  by (cases r) auto

lemma parse_csi_bound: "parse_csi cs = Complete (c, i) \<Longrightarrow> i < length cs" "parse_csi cs = Cancelled i \<Longrightarrow> i < length cs"
  by (induction cs arbitrary: i) (auto split: if_splits elim!: shift_parse.elims)

lemma parse_csi_append: "parse_csi cs \<noteq> Pending \<Longrightarrow> parse_csi (cs @ ds) = parse_csi cs"
  by (induction cs) (auto split: if_splits)

lemma parse_osc_bound: "parse_osc cs = Complete i \<Longrightarrow> i < length cs" "parse_osc cs = Cancelled i \<Longrightarrow> i < length cs"
  by (induction cs arbitrary: i) (auto simp: nth_opt_def split: if_splits elim!: shift_parse.elims)

lemma parse_osc_append: "parse_osc cs \<noteq> Pending \<Longrightarrow> parse_osc (cs @ ds) = parse_osc cs"
  by (induction cs) (auto simp: nth_opt_def nth_append is_cancel_control_def split: if_splits)

lemma parse_st_bound:
  "parse_st_terminated_control_string cs = Complete i \<Longrightarrow> i < length cs"
  "parse_st_terminated_control_string cs = Cancelled i \<Longrightarrow> i < length cs"
  by (induction cs arbitrary: i) (auto simp: nth_opt_def split: if_splits elim!: shift_parse.elims)

lemma parse_st_append:
  "parse_st_terminated_control_string cs \<noteq> Pending \<Longrightarrow>
    parse_st_terminated_control_string (cs @ ds) = parse_st_terminated_control_string cs"
  by (induction cs) (auto simp: nth_opt_def nth_append is_cancel_control_def split: if_splits)

lemma nth_opt_append: "i < length cs \<Longrightarrow> nth_opt (cs @ ds) i = nth_opt cs i"
  by (simp add: nth_opt_def nth_append)

lemma nth_opt_SomeD: "nth_opt cs i = Some c \<Longrightarrow> i < length cs"
  by (simp add: nth_opt_def split: if_splits)

section \<open>Steps\<close>

text \<open>What a step leaves alone: the pending input and how text is treated.\<close>

definition input_state :: "parser \<Rightarrow> bool \<times> u8 list \<times> str" where
  "input_state p = (normalize_output_to_unicode_nfc p, pending_utf8 p, pending_control p)"

definition with_input :: "u8 list \<Rightarrow> parser \<Rightarrow> parser" where
  "with_input bytes p = p\<lparr>pending_utf8 := bytes\<rparr>"

lemma input_state_core [simp]: "input_state (upd_core f p) = input_state p" "input_state (p\<lparr>core := t\<rparr>) = input_state p"
  by (simp_all add: input_state_def upd_core_def)

lemma input_state_metadata [simp]:
  "input_state (p\<lparr>metadata := m\<rparr>) = input_state p" "input_state (p\<lparr>unicode_version_stack := s\<rparr>) = input_state p"
  by (simp_all add: input_state_def)

lemma input_state_working_dir [simp]: "input_state (set_current_working_dir d p) = input_state p"
  by (simp add: set_current_working_dir_def)

lemma input_state_vars [simp]:
  "input_state (apply_osc1337_set_user_var h v p) = input_state p"
  "input_state (apply_osc1337_set_badge_format h v p) = input_state p"
  by (simp_all add: apply_osc1337_set_user_var_def apply_osc1337_set_badge_format_def Let_def split: option.splits prod.splits)

lemma input_state_version [simp]: "input_state (apply_osc1337_unicode_version v p) = input_state p"
  by (simp add: apply_osc1337_unicode_version_def pop_labeled_unicode_version_def Let_def split: option.splits)

lemma input_state_osc [simp]: "input_state (apply_osc_content h c p) = input_state p"
  unfolding apply_osc_content_def apply_osc_command_def apply_osc1337_iterm_metadata_def
  by (simp split: list.splits option.splits)

text \<open>Conversely, nothing a step does depends on the bytes that wait.\<close>

lemma with_input_core [simp]:
  "core (with_input v p) = core p" "upd_core f (with_input v p) = with_input v (upd_core f p)"
  "(with_input v p)\<lparr>core := t\<rparr> = with_input v (p\<lparr>core := t\<rparr>)" "metadata (with_input v p) = metadata p"
  "(with_input v p)\<lparr>metadata := m\<rparr> = with_input v (p\<lparr>metadata := m\<rparr>)"
  "unicode_version_stack (with_input v p) = unicode_version_stack p"
  "(with_input v p)\<lparr>unicode_version_stack := st\<rparr> = with_input v (p\<lparr>unicode_version_stack := st\<rparr>)"
  "normalize_output_to_unicode_nfc (with_input v p) = normalize_output_to_unicode_nfc p"
  "pending_control (with_input v p) = pending_control p" "pending_utf8 (with_input v p) = v"
  "(with_input v p)\<lparr>pending_control := cs\<rparr> = with_input v (p\<lparr>pending_control := cs\<rparr>)"
  "with_input w (with_input v p) = with_input w p"
  by (simp_all add: with_input_def upd_core_def)

lemma with_input_working_dir [simp]: "set_current_working_dir d (with_input v p) = with_input v (set_current_working_dir d p)"
  by (simp add: set_current_working_dir_def)

lemma with_input_vars [simp]:
  "apply_osc1337_set_user_var h c (with_input v p) = with_input v (apply_osc1337_set_user_var h c p)"
  "apply_osc1337_set_badge_format h c (with_input v p) = with_input v (apply_osc1337_set_badge_format h c p)"
  by (simp_all add: apply_osc1337_set_user_var_def apply_osc1337_set_badge_format_def Let_def split: option.splits prod.splits)

lemma with_input_version [simp]:
  "apply_osc1337_unicode_version c (with_input v p) = with_input v (apply_osc1337_unicode_version c p)"
  by (simp add: apply_osc1337_unicode_version_def pop_labeled_unicode_version_def Let_def split: option.splits)

lemma with_input_iterm [simp]:
  "apply_osc1337_iterm_metadata h c (with_input v p) = with_input v (apply_osc1337_iterm_metadata h c p)"
  unfolding apply_osc1337_iterm_metadata_def by (simp add: option.case_distrib [of "with_input v"] cong: option.case_cong)

lemma with_input_osc [simp]: "apply_osc_content h c (with_input v p) = with_input v (apply_osc_content h c p)"
proof -
  have "apply_osc_command h x y (with_input v p) = with_input v (apply_osc_command h x y p)" for x y
    by (simp add: apply_osc_command_def)
  then show ?thesis by (simp add: apply_osc_content_def split: list.split option.split)
qed

text \<open>The laws of a step, for the functions the loop calls: its bound, its frame, its dependence on the input.\<close>

definition step_laws :: "(str \<Rightarrow> parser \<Rightarrow> consumed) \<Rightarrow> str \<Rightarrow> bool" where
  "step_laws f cs \<longleftrightarrow> (\<forall>p.
     (\<forall>n q. f cs p = Some (Next n, q) \<longrightarrow> n \<le> length cs) \<and>
     (\<forall>q. f cs p = Some (Feed_Pending, q) \<longrightarrow> q = p) \<and>
     (\<forall>a q. f cs p = Some (a, q) \<longrightarrow> input_state q = input_state p) \<and>
     (\<forall>v. f cs (with_input v p) = map_option (apsnd (with_input v)) (f cs p)) \<and>
     (\<forall>ds. (\<forall>q. f cs p \<noteq> Some (Feed_Pending, q)) \<longrightarrow> f (cs @ ds) p = f cs p))"

lemma csi_sequence_laws: "offset \<le> length cs \<Longrightarrow> step_laws (\<lambda>cs. apply_csi_sequence h cs offset) cs"
  using parse_csi_bound [of "drop offset cs"] parse_csi_append [of "drop offset cs"]
  by (auto simp: step_laws_def apply_csi_sequence_def Let_def option.map_comp comp_def split: sequence_parse.splits prod.splits)

lemma st_content_append:
  "i < length cs \<Longrightarrow> st_content_end (cs @ ds) i = st_content_end cs i" "st_content_end cs i \<le> i"
  by (auto simp: st_content_end_def nth_opt_append)

lemma control_string_laws:
  assumes offset: "offset \<le> length cs"
    and bound: "\<And>xs i. parse xs = Complete i \<Longrightarrow> i < length xs" "\<And>xs i. parse xs = Cancelled i \<Longrightarrow> i < length xs"
    and append: "\<And>xs ys. parse xs \<noteq> Pending \<Longrightarrow> parse (xs @ ys) = parse xs"
    and frame: "\<And>c p q. app c p = Some q \<Longrightarrow> input_state q = input_state p"
    and input: "\<And>c v p. app c (with_input v p) = map_option (with_input v) (app c p)"
  shows "step_laws (\<lambda>cs. control_string parse app cs offset) cs"
proof (cases "parse (drop offset cs)")
  case (Complete i)
  note b = bound(1) [OF Complete]
  have "take (st_content_end (drop offset cs @ ds) i) (drop offset cs @ ds) = take (st_content_end (drop offset cs) i) (drop offset cs)" for ds
    using st_content_append(1) [OF b] st_content_append(2) [of "drop offset cs" i] b by simp
  then show ?thesis
    using Complete b offset append [of "drop offset cs"] frame
    by (auto simp: step_laws_def control_string_def Let_def input option.map_comp comp_def simp del: take_append)
next
  case (Cancelled i)
  with bound(2) [OF Cancelled] offset append [of "drop offset cs"] show ?thesis
    by (auto simp: step_laws_def control_string_def Let_def)
next
  case Pending
  then show ?thesis by (simp add: step_laws_def control_string_def Let_def)
qed

lemma sequences_laws:
  assumes "offset \<le> length cs"
  shows "step_laws (\<lambda>cs. apply_osc_sequence h cs offset) cs" "step_laws (\<lambda>cs. apply_apc_sequence h cs offset) cs"
    "step_laws (\<lambda>cs. apply_dcs_sequence cs offset) cs" "step_laws (\<lambda>cs. skip_control_string cs offset) cs"
  unfolding apply_osc_sequence_def apply_apc_sequence_def apply_dcs_sequence_def skip_control_string_def
  by (rule control_string_laws; use assms parse_osc_bound parse_osc_append parse_st_bound parse_st_append
      in \<open>auto simp: option.map_comp comp_def\<close>)+

lemma step_laws_cong: "(\<And>ds p. f (cs @ ds) p = g (cs @ ds) p) \<Longrightarrow> step_laws g cs \<Longrightarrow> step_laws f cs"
proof -
  assume fg: "\<And>ds p. f (cs @ ds) p = g (cs @ ds) p" and g: "step_laws g cs"
  have "f cs = g cs" using fg [of "[]"] by auto
  with fg g show "step_laws f cs" by (simp add: step_laws_def)
qed

lemma step_laws_next: "n \<le> length cs \<Longrightarrow> step_laws (\<lambda>cs p. Some (Next n, upd_core f p)) cs"
  by (simp add: step_laws_def)

lemma step_laws_third:
  assumes "\<And>c v p. f c (with_input v p) = with_input v (f c p)" "\<And>c p. input_state (f c p) = input_state p"
  shows "step_laws (\<lambda>cs p. case nth_opt cs 2 of None \<Rightarrow> Some (Feed_Pending, p) | Some c \<Rightarrow> Some (Next 3, f c p)) cs"
proof (cases "nth_opt cs 2")
  case (Some c)
  have three: "3 \<le> length cs" using nth_opt_SomeD [OF Some] by simp
  then have e: "nth_opt (cs @ ds) 2 = Some c" for ds using Some by (simp only: nth_opt_append)
  have "step_laws (\<lambda>cs p. Some (Next 3, f c p)) cs" using three assms by (simp add: step_laws_def)
  then show ?thesis by (rule step_laws_cong [rotated]) (simp only: e option.case)
next
  case None
  show ?thesis unfolding step_laws_def None by simp
qed

lemma hash_laws: "step_laws consume_hash_escape_sequence cs"
  unfolding consume_hash_escape_sequence_def [abs_def] by (rule step_laws_third) simp_all

lemma g0_laws: "step_laws consume_g0_character_set_selection cs"
  unfolding consume_g0_character_set_selection_def [abs_def] by (rule step_laws_third) (simp_all split: option.splits)

lemma escape_laws: "step_laws (consume_escape_sequence h) cs"
proof (cases "nth_opt cs 1")
  case None
  show ?thesis unfolding step_laws_def consume_escape_sequence_def None by simp
next
  case (Some c)
  then have two: "2 \<le> length cs" by (auto dest!: nth_opt_SomeD)
  have app: "nth_opt (cs @ ds) (Suc 0) = Some c" for ds using two Some by (simp add: nth_opt_append)
  note laws = csi_sequence_laws [OF two, of h] sequences_laws [OF two] hash_laws g0_laws step_laws_next [OF two]
  have id: "upd_core (\<lambda>t. t) p = p" for p by (simp add: upd_core_def)
  note unfold = consume_escape_sequence_def app id
  consider "c = 0x5B" | "c = 0x5D" | "c = 0x5F" | "c = 0x50" | "c = 0x5C \<or> c = 0x3D \<or> c = 0x3E" | "c = 0x58 \<or> c = 0x5E"
    | "c = 0x28" | "c = 0x23" | "c \<notin> {0x5B, 0x5D, 0x5F, 0x50, 0x5C, 0x3D, 0x3E, 0x58, 0x5E, 0x28, 0x23}" by blast
  then show ?thesis
  proof cases
    case 1 then show ?thesis by (intro step_laws_cong [OF _ laws(1)]) (simp add: unfold)
  next
    case 2 then show ?thesis by (intro step_laws_cong [OF _ laws(2)]) (simp add: unfold)
  next
    case 3 then show ?thesis by (intro step_laws_cong [OF _ laws(3)]) (simp add: unfold)
  next
    case 4 then show ?thesis by (intro step_laws_cong [OF _ laws(4)]) (simp add: unfold)
  next
    case 5 then show ?thesis by (intro step_laws_cong [OF _ laws(8) [of "\<lambda>t. t"]]) (auto simp: unfold)
  next
    case 6 then show ?thesis by (intro step_laws_cong [OF _ laws(5)]) (auto simp: unfold)
  next
    case 7 then show ?thesis by (intro step_laws_cong [OF _ laws(7)]) (simp add: unfold)
  next
    case 8 then show ?thesis by (intro step_laws_cong [OF _ laws(6)]) (simp add: unfold)
  next
    case 9 then show ?thesis by (intro step_laws_cong [OF _ laws(8)]) (simp add: unfold)
  qed
qed

section \<open>Leaving text\<close>

lemma ensure_pending [simp]: "pending_placeholder (ensure_inline_image_parent_ids g) = pending_placeholder g"
  by (simp add: ensure_inline_image_parent_ids_def Let_def)

lemma image_ops_pending [simp]:
  "pending_placeholder (retain_inline_images f g) = pending_placeholder g"
  "pending_placeholder (push_inline_image im g) = pending_placeholder g"
  "pending_placeholder (move_child a b c d k g) = pending_placeholder g"
  by (simp_all add: retain_inline_images_def retain_kitty_character_edited_placements_def push_inline_image_def
      move_child_def Let_def split: option.splits)

lemma move_descendants_pending:
  assumes "\<And>k g. pending_placeholder (move k g) = pending_placeholder g"
  shows "pending_placeholder (move_descendants rel move stack seen g) = pending_placeholder g"
  using assms
proof (induction rel move stack seen g rule: move_descendants.induct)
  case (2 rel move p stack seen g)
  have "pending_placeholder (fold move ks g) = pending_placeholder g" for ks
    by (induction ks arbitrary: g) (simp_all add: 2(3))
  with 2(1) [OF _ 2(3)] 2(2) [OF _ refl 2(3)] show ?case by (subst move_descendants.simps) (simp add: Let_def)
qed simp

lemma move_relative_pending [simp]: "pending_placeholder (move_relative_kitty_descendants k a b c d g) = pending_placeholder g"
  by (simp add: move_relative_kitty_descendants_def Let_def move_descendants_pending del: move_descendants.simps)

lemma record_damage_images [simp]: "images (record_damage d t) = images t"
  by (simp add: record_damage_def)

lemma damage_images [simp]: "images (damage_all_if b sz t) = images t" "images (record_inline_image_damage_at r c w h t) = images t"
  by (simp_all add: damage_all_if_def record_inline_image_damage_at_def split: option.split)

lemma images_upd [simp]: "images (upd_images f t) = f (images t)"
  by (simp add: upd_images_def)

lemma move_cursor_images [simp]: "images (move_cursor_forward n t) = images t" "images (move_cursor_down n t) = images t"
  by (simp_all add: move_cursor_forward_def move_cursor_down_def moved_row_def clear_semantic_type_due_to_movement_def Let_def)

lemma place_image_pending [simp]: "pending_placeholder (images (place_kitty_image im opts t)) = pending_placeholder (images t)"
  unfolding place_kitty_image_def move_kitty_cursor_after_placement_def Let_def
  by (simp split: prod.splits option.splits)

lemma finish_pending_None: "pending_placeholder (images (finish_pending_kitty_placeholder t)) = None"
  by (simp add: finish_pending_kitty_placeholder_def place_kitty_virtual_placeholder_def forget_last_placeholder_def remove_kitty_placeholder_render_def Let_def split: option.splits prod.splits)

lemma leave_text_idem: "leave_text (leave_text t) = leave_text t"
proof -
  have "pending_placeholder (images (leave_text t)) = None" using finish_pending_None [of t] by (simp add: leave_text_def)
  then show ?thesis by (simp add: leave_text_def finish_pending_kitty_placeholder_def)
qed

section \<open>The loop of the terminal\<close>

lemma sequence_laws:
  assumes "cs \<noteq> []"
  shows "\<exists>f. step_laws f cs \<and> (\<forall>ds p. consume_escape_or_c1_sequence h (cs @ ds) p = f (cs @ ds) (upd_core leave_text p))"
proof -
  have one: "1 \<le> length cs" using assms by (cases cs) auto
  obtain c where c: "\<And>ds. hd (cs @ ds) = c" using assms by simp
  note laws = csi_sequence_laws [OF one, of h] sequences_laws [OF one] escape_laws [of h] step_laws_next [OF one]
  have id: "upd_core (\<lambda>t. t) p = p" for p by (simp add: upd_core_def)
  note unfold = consume_escape_or_c1_sequence_def Let_def c id
  have ex: ?thesis if "step_laws f cs" "\<And>ds p. consume_escape_or_c1_sequence h (cs @ ds) p = f (cs @ ds) (upd_core leave_text p)" for f
    using that by blast
  consider "c = 0x1B" | "c = 0x9B" | "c = 0x9C" | "c = 0x90" | "c = 0x9D" | "is_c1_st_control_string c" "c \<noteq> 0x90"
    | "c \<notin> {0x1B, 0x9B, 0x9C, 0x90, 0x9D}" "\<not> is_c1_st_control_string c" by blast
  then show ?thesis
  proof cases
    case 1 then show ?thesis by (intro ex [OF laws(6)]) (simp add: unfold)
  next
    case 2 then show ?thesis by (intro ex [OF laws(1)]) (simp add: unfold)
  next
    case 3 then show ?thesis by (intro ex [OF laws(7) [of "\<lambda>t. t"]]) (simp add: unfold)
  next
    case 4 then show ?thesis by (intro ex [OF laws(4)]) (simp add: unfold)
  next
    case 5 then show ?thesis by (intro ex [OF laws(2)]) (simp add: unfold)
  next
    case 6
    then have "c \<notin> {0x1B, 0x9B, 0x9C, 0x90, 0x9D}" by (auto simp: is_c1_st_control_string_def)
    with 6 show ?thesis by (intro ex [OF laws(5)]) (simp add: unfold)
  next
    case 7 then show ?thesis by (intro ex [OF laws(7)]) (simp add: unfold)
  qed
qed

text \<open>Text without normalization: one character at a time, by itself alone.\<close>

definition plain_char :: "host \<Rightarrow> nat \<Rightarrow> terminal \<Rightarrow> terminal" where
  "plain_char h ch t =
     (case (if ch \<le> 0x7F then consume_ascii_control ch t else (False, t)) of
        (True, t) \<Rightarrow> t | (False, t) \<Rightarrow> write_char (host_unicode h) ch t)"

lemma text_plain:
  "\<not> normalize_output_to_unicode_nfc p \<Longrightarrow>
    consume_text_run_or_ascii_control h cs p = (1, upd_core (plain_char h (hd cs)) p)"
  by (simp add: consume_text_run_or_ascii_control_def plain_char_def upd_core_def Let_def split: prod.split bool.split)

definition ready :: "parser \<Rightarrow> bool" where
  "ready p \<longleftrightarrow> \<not> normalize_output_to_unicode_nfc p \<and> pending_control p = []"

lemma ready_input: "input_state q = input_state p \<Longrightarrow> ready q = ready p"
  by (simp add: ready_def input_state_def)

interpretation terminal_input: chunked_scanner "consume h" "feed_loop h" ready
  "\<lambda>cs p. p\<lparr>pending_control := cs\<rparr>" pending_control
proof (unfold_locales, goal_cases)
  case (1 p)
  show ?case by (simp add: feed_loop.simps)
next
  case (2 cs p)
  then show ?case by (simp add: feed_loop.simps [of h cs] split: option.splits prod.splits feed_advance.splits)
next
  case (3 p cs n q)
  show ?case
  proof (cases "is_escape_or_c1_sequence_start (hd cs)")
    case True
    obtain f where f: "step_laws f cs" "consume_escape_or_c1_sequence h cs p = f cs (upd_core leave_text p)"
      using sequence_laws [OF 3(2), of h] by (metis append_Nil2)
    then have "n \<le> length cs" "input_state q = input_state p"
      using 3(3) True f(1) [unfolded step_laws_def] by (force simp: consume_def)+
    then show ?thesis using consume_pos [OF 3(3)] ready_input 3(1) by blast
  next
    case False
    with 3 show ?thesis by (cases cs) (auto simp: consume_def text_plain ready_def upd_core_def)
  qed
next
  case (4 p cs ds)
  show ?case
  proof (cases "is_escape_or_c1_sequence_start (hd cs)")
    case True
    obtain f where f: "step_laws f cs"
      "\<And>ds p. consume_escape_or_c1_sequence h (cs @ ds) p = f (cs @ ds) (upd_core leave_text p)"
      using sequence_laws [OF 4(2), of h] by blast
    have "consume h (cs @ es) p = f (cs @ es) (upd_core leave_text p)" for es
      using True 4(2) f(2) by (simp add: consume_def)
    from this [of ds] this [of "[]"] f(1) 4(3) show ?thesis by (simp add: step_laws_def)
  next
    case False
    with 4 show ?thesis by (cases cs) (simp_all add: consume_def text_plain ready_def)
  qed
next
  case (5 p cs q ds)
  have start: "is_escape_or_c1_sequence_start (hd cs)"
    using 5(3) by (auto simp: consume_def split: if_splits prod.splits)
  obtain f where f: "step_laws f cs"
    "\<And>ds p. consume_escape_or_c1_sequence h (cs @ ds) p = f (cs @ ds) (upd_core leave_text p)"
    using sequence_laws [OF 5(2), of h] by blast
  have c: "consume h (cs @ es) r = f (cs @ es) (upd_core leave_text r)" for es r
    using start 5(2) f(2) by (simp add: consume_def)
  have q: "q = upd_core leave_text p" using 5(3) f(1) c [of "[]" p] by (simp add: step_laws_def)
  then have "upd_core leave_text q = q" by (simp add: upd_core_def leave_text_idem)
  then show ?case using q c 5(1) ready_input [of q p] by simp
next
  case (9 p)
  then show ?case by (simp add: ready_def)
qed (simp_all add: ready_def)

section \<open>Bytes\<close>

lemma consume_with_input:
  assumes "cs \<noteq> []" and "\<not> normalize_output_to_unicode_nfc p"
  shows "consume h cs (with_input v p) = map_option (apsnd (with_input v)) (consume h cs p)"
proof (cases "is_escape_or_c1_sequence_start (hd cs)")
  case True
  obtain f where "step_laws f cs" "\<And>p. consume_escape_or_c1_sequence h cs p = f cs (upd_core leave_text p)"
    using sequence_laws [OF assms(1), of h] by (metis append_Nil2)
  then show ?thesis using True by (simp add: consume_def step_laws_def)
next
  case False
  then show ?thesis using assms by (simp add: consume_def text_plain)
qed

lemma feed_loop_with_input:
  "ready p \<Longrightarrow> feed_loop h cs (with_input v p) = map_option (with_input v) (feed_loop h cs p)"
proof (induction h cs p rule: feed_loop.induct)
  case (1 h cs p)
  show ?case
  proof (cases "cs = []")
    case False
    have c: "consume h cs (with_input v p) = map_option (apsnd (with_input v)) (consume h cs p)"
      using consume_with_input [OF False] 1(2) by (simp add: ready_def)
    show ?thesis
    proof (cases "consume h cs p")
      case None
      with c False show ?thesis by (simp add: feed_loop.simps [of h cs])
    next
      case (Some r)
      obtain a q where r: "r = (a, q)" by fastforce
      show ?thesis
      proof (cases a)
        case (Next n)
        have "ready q" using terminal_input.progress [OF 1(2) False] Some r Next by blast
        with 1(1) [OF False Some r [symmetric] Next] c Some r Next False show ?thesis by (simp add: feed_loop.simps [of h cs])
      next
        case Feed_Pending
        with c Some r False show ?thesis by (simp add: feed_loop.simps [of h cs])
      qed
    qed
  qed (simp add: feed_loop.simps)
qed

text \<open>The bytes that wait are not touched by the loop.\<close>

lemma feed_loop_input: "ready p \<Longrightarrow> feed_loop h cs p = Some q \<Longrightarrow> pending_utf8 q = pending_utf8 p"
proof -
  assume p: "ready p" and q: "feed_loop h cs p = Some q"
  have "with_input (pending_utf8 p) p = p" by (simp add: with_input_def)
  then have "with_input (pending_utf8 p) q = q" using feed_loop_with_input [OF p, of h cs "pending_utf8 p"] q
    by (metis option.inject option.map(2))
  then show ?thesis by (metis with_input_core(10))
qed

lemma feed_loop_ready: "ready p \<Longrightarrow> feed_loop h cs p = Some q \<Longrightarrow> \<not> normalize_output_to_unicode_nfc q"
proof (induction h cs p rule: feed_loop.induct)
  case (1 h cs p)
  show ?case
  proof (cases "cs = []")
    case False
    then obtain a r where c: "consume h cs p = Some (a, r)" using 1(3) by (auto simp: feed_loop.simps [of h cs] split: option.splits)
    show ?thesis
    proof (cases a)
      case (Next n)
      have "ready r" using terminal_input.progress [OF 1(2) False] c Next by blast
      with 1(1) [OF False c refl Next] 1(3) c Next False show ?thesis by (simp add: feed_loop.simps [of h cs])
    next
      case Feed_Pending
      then have "ready r" using terminal_input.resume [OF 1(2) False] c by blast
      with 1(3) c Feed_Pending False show ?thesis by (auto simp: feed_loop.simps [of h cs] ready_def)
    qed
  qed (use 1 in \<open>simp add: feed_loop.simps ready_def\<close>)
qed

lemma pending_fields: "p\<lparr>pending_utf8 := v, pending_control := cs\<rparr> = with_input v (p\<lparr>pending_control := cs\<rparr>)"
  by (cases p) (simp add: with_input_def)

lemma chunk_cut:
  assumes w: "well_coded (x @ b)" and y: "y = drop (char_cut x) x @ b"
  shows "complete_utf8_prefix_len x = char_cut x" "complete_utf8_prefix_len y = char_cut y"
    "take (complete_utf8_prefix_len (x @ b)) (x @ b) = take (char_cut x) x @ take (char_cut y) y"
    "drop (complete_utf8_prefix_len (x @ b)) (x @ b) = drop (char_cut y) y"
proof -
  let ?u = "take (char_cut x) x"
  show "complete_utf8_prefix_len x = char_cut x" using complete_utf8_prefix_cut well_coded_prefix w by blast
  show "complete_utf8_prefix_len y = char_cut y" using complete_utf8_prefix_cut well_coded_cut w y by blast
  have n: "complete_utf8_prefix_len (x @ b) = length ?u + char_cut y"
    using complete_utf8_prefix_cut [OF w] char_cut_append [of x b] char_cut_le [of x] y by simp
  have xy: "x @ b = ?u @ y" using y by (metis append.assoc append_take_drop_id)
  show "take (complete_utf8_prefix_len (x @ b)) (x @ b) = ?u @ take (char_cut y) y"
    unfolding n unfolding xy using char_cut_le [of x] by (simp add: min_def)
  show "drop (complete_utf8_prefix_len (x @ b)) (x @ b) = drop (char_cut y) y" unfolding n unfolding xy by simp
qed

lemma feed_decoded_append:
  assumes "\<not> normalize_output_to_unicode_nfc p" and w: "well_coded (pending_utf8 p @ a @ b)"
  shows "feed_decoded h (a @ b) p = Option.bind (feed_decoded h a p) (feed_decoded h b)"
proof -
  define x y where "x = pending_utf8 p @ a" and y: "y = drop (char_cut x) x @ b"
  let ?p = "p\<lparr>pending_control := []\<rparr>"
  let ?cs = "pending_control p @ decode_terminal_chars (take (char_cut x) x)" and ?ds = "decode_terminal_chars (take (char_cut y) y)"
  have xb: "pending_utf8 p @ a @ b = x @ b" "pending_utf8 p @ a = x" by (simp_all add: x_def)
  note cut = chunk_cut [OF w [unfolded xb] y]
  have p: "ready ?p" using assms(1) by (simp add: ready_def)
  have whole: "feed_decoded h (a @ b) p = map_option (with_input (drop (char_cut y) y)) (feed_loop h (?cs @ ?ds) ?p)"
    unfolding feed_decoded_def Let_def xb cut decode_take pending_fields feed_loop_with_input [OF p] by simp
  have first: "feed_decoded h a p = map_option (with_input (drop (char_cut x) x)) (feed_loop h ?cs ?p)"
    by (simp add: feed_decoded_def Let_def xb cut pending_fields feed_loop_with_input [OF p] del: with_input_core(11))
  show ?thesis
  proof (cases "feed_loop h ?cs ?p")
    case None
    then show ?thesis unfolding whole first terminal_input.run_append [OF p, of h ?cs ?ds] by (simp del: append_assoc)
  next
    case (Some q)
    have q: "ready (q\<lparr>pending_control := []\<rparr>)" using feed_loop_ready [OF p Some] by (simp add: ready_def)
    have "feed_decoded h b (with_input (drop (char_cut x) x) q) = map_option (with_input (drop (char_cut y) y))
        (feed_loop h (pending_control q @ ?ds) (q\<lparr>pending_control := []\<rparr>))"
      by (simp add: feed_decoded_def Let_def y [symmetric] cut pending_fields feed_loop_with_input [OF q])
    then show ?thesis
      unfolding whole first terminal_input.run_append [OF p, of h ?cs ?ds] Some by (simp del: append_assoc)
  qed
qed

section \<open>The direct path\<close>

lemma ascii_head: "b \<le> 0x7F \<Longrightarrow> head_complete (b # bs) \<and> head_char (b # bs) = (b, 1)"
  by (simp add: head_complete_def head_char_def raw_c1_control_def utf8_head.simps)

lemma ascii_well_coded: "list_all (\<lambda>b. b \<le> 0x7F) bs \<Longrightarrow> well_coded bs \<and> char_cut bs = length bs \<and> decode_terminal_chars bs = bs"
proof (induction bs)
  case (Cons b bs)
  then have h: "head_complete (b # bs)" "head_char (b # bs) = (b, 1)" using ascii_head by simp_all
  have "utf8_head (b # bs) \<noteq> Utf8_Error None" using complete_not_short [OF _ h(1)] by simp
  with Cons h show ?case
    by (simp add: well_coded.simps [of "b # bs"] char_cut_complete decode_step)
qed (simp add: well_coded.simps)

lemma feed_loop_ascii:
  assumes "ready p" and "list_all (\<lambda>b. b \<le> 0x7F) bs" and "0x1B \<notin> set bs"
  shows "feed_loop h bs p = Some (upd_core (fold (feed_ascii_byte h) bs) p)"
  using assms
proof (induction bs arbitrary: p)
  case Nil
  then show ?case by (simp add: feed_loop.simps upd_core_def)
next
  case (Cons b bs)
  let ?q = "upd_core (feed_ascii_byte h b) p"
  have "plain_char h b = feed_ascii_byte h b" using Cons(3) by (simp add: fun_eq_iff plain_char_def feed_ascii_byte_def)
  moreover have "\<not> is_escape_or_c1_sequence_start b"
    using Cons(3,4) by (auto simp: is_escape_or_c1_sequence_start_def is_c1_st_control_string_def)
  ultimately have "consume h (b # bs) p = Some (Next 1, ?q)" using Cons(2) by (simp add: consume_def text_plain ready_def)
  moreover have "ready ?q" using Cons(2) ready_input [of ?q p] by simp
  ultimately show ?case using Cons by (simp add: feed_loop.simps [of h "b # bs"]) (simp add: upd_core_def)
qed

lemma direct_path:
  assumes "try_feed_direct_ascii h bytes p = Some q"
  shows "feed_decoded h bytes p = Some q"
proof -
  have c: "ready p" "pending_utf8 p = []" "pending_control p = []" "list_all (\<lambda>b. b \<le> 0x7F) bytes" "0x1B \<notin> set bytes"
    and q: "q = upd_core (fold (feed_ascii_byte h) bytes) p"
    using assms by (auto simp: try_feed_direct_ascii_def ready_def split: if_splits)
  have p: "p\<lparr>pending_utf8 := [], pending_control := []\<rparr> = p" using c(2,3) by (cases p) simp
  have "feed_decoded h bytes p = feed_loop h bytes (p\<lparr>pending_utf8 := [], pending_control := []\<rparr>)"
    using c by (simp add: feed_decoded_def Let_def complete_utf8_prefix_cut ascii_well_coded)
  then show ?thesis unfolding p q by (simp add: feed_loop_ascii [OF c(1,4,5)])
qed

lemma feed_at_decoded: "feed_at_current_seqno h bytes p = feed_decoded h bytes p"
  by (simp add: feed_at_current_seqno_def direct_path split: option.split)

end
