(* ===== verification/Term_Kitty_Laws.thy ===== *)
theory Term_Kitty_Laws
  imports Term_Kitty_Place
begin

text \<open>
  The parents of relative placements. Their links form no cycle, every command keeps it so, and the walk
  that guards a placement decides reachability; the store of uploaded images gives out numbers that are
  free.
\<close>

section \<open>Links\<close>

type_synonym link_list = "(kitty_placement_key \<times> kitty_placement_key) list"

definition links_ok :: "link_list \<Rightarrow> bool" where
  "links_ok rel \<longleftrightarrow> distinct (map fst rel) \<and> acyclic (set rel)"

lemma links_ok_filter: "links_ok rel \<Longrightarrow> links_ok (filter P rel)"
  by (auto simp: links_ok_def distinct_map_filter intro: acyclic_subset)

lemma link_unique: "distinct (map fst rel) \<Longrightarrow> (p, q) \<in> set rel \<longleftrightarrow> map_of rel p = Some q"
  by (simp add: map_of_eq_Some_iff)

text \<open>On links without cycles the walk never meets a placement twice, and it finds every ancestor.\<close>

lemma chain_reaches:
  assumes "links_ok rel" and "\<forall>s \<in> set seen. (s, p) \<in> (set rel)\<^sup>+"
  shows "parent_chain_reaches rel child seen p \<longleftrightarrow> (p, child) \<in> (set rel)\<^sup>*"
  using assms
proof (induction rel child seen p rule: parent_chain_reaches.induct)
  case (1 rel child seen p)
  have fresh: "p \<notin> set seen" using 1(2,3) unfolding links_ok_def acyclic_def by blast
  show ?case
  proof (cases "p = child")
    case True
    then show ?thesis by (simp add: parent_chain_reaches.simps)
  next
    case False
    show ?thesis
    proof (cases "map_of rel p")
      case None
      then have "(p, q) \<notin> set rel" for q using link_unique 1(2) by (auto simp: links_ok_def)
      then have "(p, child) \<notin> (set rel)\<^sup>*" using False by (auto elim: converse_rtranclE)
      then show ?thesis using None False fresh by (simp add: parent_chain_reaches.simps)
    next
      case (Some q)
      then have pq: "(p, q) \<in> set rel" using link_unique 1(2) by (auto simp: links_ok_def)
      have "parent_chain_reaches rel child (p # seen) q \<longleftrightarrow> (q, child) \<in> (set rel)\<^sup>*"
        using 1(3) pq by (intro 1(1) [OF False fresh Some 1(2)]) (auto intro: trancl_into_trancl)
      moreover have "(p, child) \<in> (set rel)\<^sup>* \<longleftrightarrow> (q, child) \<in> (set rel)\<^sup>*"
      proof
        assume "(p, child) \<in> (set rel)\<^sup>*"
        then obtain r where "(p, r) \<in> set rel" "(r, child) \<in> (set rel)\<^sup>*"
          using False by (auto elim: converse_rtranclE)
        then show "(q, child) \<in> (set rel)\<^sup>*" using Some link_unique 1(2) by (auto simp: links_ok_def)
      qed (rule converse_rtrancl_into_rtrancl [OF pq])
      ultimately show ?thesis using Some False fresh by (simp add: parent_chain_reaches.simps [of rel child seen p])
    qed
  qed
qed

lemma relink_ok:
  assumes "links_ok rel" and "\<not> parent_chain_reaches rel child [] parent"
  shows "links_ok (AList.update child parent (filter (\<lambda>(c, _). c \<noteq> child) rel))"
proof -
  let ?r = "filter (\<lambda>(c, _). c \<noteq> child) rel"
  have r: "links_ok ?r" by (rule links_ok_filter [OF assms(1)])
  have "child \<notin> fst ` set ?r" by auto
  then have upd: "AList.update child parent ?r = ?r @ [(child, parent)]" by (induction rel) auto
  have "(parent, child) \<notin> (set rel)\<^sup>*" using chain_reaches [OF assms(1), of "[]" parent child] assms(2) by simp
  then have "(parent, child) \<notin> (set ?r)\<^sup>*" using rtrancl_mono [of "set ?r" "set rel"] by auto
  then have "acyclic (set (?r @ [(child, parent)]))" using r by (simp add: links_ok_def acyclic_insert)
  with r \<open>child \<notin> fst ` set ?r\<close> show ?thesis by (auto simp: upd links_ok_def image_image)
qed

section \<open>Which commands touch the links\<close>

definition links :: "terminal \<Rightarrow> link_list" where
  "links t = kitty_relative_parents (images t)"

lemma links_upd [simp]: "links (upd_images f t) = kitty_relative_parents (f (images t))"
  by (simp add: links_def upd_images_def)

lemma links_damage [simp]:
  "links (record_damage d t) = links t" "links (damage_all_if b sz t) = links t"
  "links (record_inline_image_damage_at row column w h t) = links t"
  by (simp_all add: links_def record_damage_def damage_all_if_def record_inline_image_damage_at_def split: option.splits)

lemma links_cursor [simp]: "links (move_kitty_cursor_after_placement cols rows t) = links t"
  by (simp add: links_def move_kitty_cursor_after_placement_def move_cursor_down_def move_cursor_forward_def moved_row_def
      clear_semantic_type_due_to_movement_def Let_def)

lemma responses_links [simp]:
  "kitty_relative_parents (push_kitty_graphics_response p status g) = kitty_relative_parents g"
  "kitty_relative_parents (push_kitty_graphics_ok_response p g) = kitty_relative_parents g"
  "kitty_relative_parents (push_kitty_graphics_error_response p code message g) = kitty_relative_parents g"
  "kitty_relative_parents (push_no_image p image_id g) = kitty_relative_parents g"
  "kitty_relative_parents (push_kitty_graphics_upload_ok_response u image_id g) = kitty_relative_parents g"
  "kitty_relative_parents (push_kitty_graphics_upload_error_response u e g) = kitty_relative_parents g"
  "kitty_relative_parents (push_kitty_graphics_upload_start_error p se g) = kitty_relative_parents g"
  by (simp_all add: push_kitty_graphics_response_def push_kitty_graphics_ok_response_def
      push_kitty_graphics_error_response_def push_no_image_def push_kitty_graphics_upload_ok_response_def
      push_kitty_graphics_upload_error_response_def push_kitty_graphics_upload_start_error_def)

lemma store_links [simp]:
  "kitty_relative_parents (store_kitty_virtual_placement p image_id respond g) = kitty_relative_parents g"
  "kitty_relative_parents (apply_kitty_virtual_placement p image_id g) = kitty_relative_parents g"
  "kitty_relative_parents (store_upload u im image_id g) = kitty_relative_parents g"
  "kitty_relative_parents (retain_kitty_character_edited_placements g) = kitty_relative_parents g"
  "kitty_relative_parents (push_inline_image i g) = kitty_relative_parents g"
  by (simp_all add: store_kitty_virtual_placement_def apply_kitty_virtual_placement_def store_upload_def
      retain_kitty_character_edited_placements_def push_inline_image_def Let_def split: option.splits)

lemma query_links [simp]: "kitty_relative_parents (apply_kitty_graphics_query h p e g) = kitty_relative_parents g"
  unfolding apply_kitty_graphics_query_def apply_kitty_graphics_stored_image_query_def query_upload_def
  by (simp add: Let_def split: prod.splits bool.splits option.splits sum.splits)

lemma move_child_links [simp]: "kitty_relative_parents (move_child a b c d k g) = kitty_relative_parents g"
  by (simp add: move_child_def Let_def split: option.splits)

lemma fold_links:
  "(\<And>k g. kitty_relative_parents (move k g) = kitty_relative_parents g)
    \<Longrightarrow> kitty_relative_parents (fold move ks g) = kitty_relative_parents g"
  by (induction ks arbitrary: g) simp_all

lemma move_descendants_links:
  "(\<And>k g. kitty_relative_parents (move k g) = kitty_relative_parents g)
    \<Longrightarrow> kitty_relative_parents (move_descendants rel move stack seen g) = kitty_relative_parents g"
  by (induction rel move stack seen g rule: move_descendants.induct) (simp_all add: Let_def fold_links)

lemma move_relative_links [simp]:
  "kitty_relative_parents (move_relative_kitty_descendants k a b c d g) = kitty_relative_parents g"
  by (simp add: move_relative_kitty_descendants_def Let_def move_descendants_links fold_links)

section \<open>Removals only drop links\<close>

lemma orphans_links:
  "links_ok (kitty_relative_parents g) \<Longrightarrow> links_ok (kitty_relative_parents (remove_orphan_kitty_relative_children b g))"
proof (induction b g rule: remove_orphan_kitty_relative_children.induct)
  case (1 b g)
  show ?case
  proof (cases "orphan_keys g = []")
    case True
    with 1(2) show ?thesis by (simp add: remove_orphan_kitty_relative_children.simps [of b g] links_ok_filter)
  next
    case False
    with 1 show ?thesis
      by (simp add: remove_orphan_kitty_relative_children.simps [of b g] orphan_turn_relative_parents links_ok_filter)
  qed
qed

lemma orphan_children_links [simp]:
  "links_ok (kitty_relative_parents g) \<Longrightarrow> links_ok (kitty_relative_parents (delete_orphan_kitty_relative_children g))"
  by (simp add: delete_orphan_kitty_relative_children_def orphans_links)

lemma children_links:
  "kitty_relative_parents (fst (delete_relative_kitty_children s)) = kitty_relative_parents (fst s)"
proof (induction s rule: delete_relative_kitty_children.induct)
  case (1 g removed relative keys)
  then show ?case by (simp add: delete_relative_kitty_children.simps [of g] Let_def)
qed

lemma delete_links [simp]:
  assumes "links_ok (kitty_relative_parents g)"
  shows "links_ok (kitty_relative_parents (snd (delete_placements b m g)))"
proof -
  let ?s = "(retain_inline_images (\<lambda>im. \<not> m im) g, List.map_filter im_kitty_image_id (filter m (inline_images g)), [],
      List.map_filter kitty_image_placement_key (filter m (inline_images g)))"
  have "kitty_relative_parents (fst (delete_relative_kitty_children ?s)) = kitty_relative_parents g"
    by (simp add: children_links)
  with assms show ?thesis
    by (cases "delete_relative_kitty_children ?s") (simp add: delete_placements_def Let_def)
qed

lemma delete_kitty_links [simp]: "links_ok (links t) \<Longrightarrow> links_ok (links (delete_kitty_placements b m t))"
  using delete_links [of "images t" b m]
  by (cases "delete_placements b m (images t)") (simp add: delete_kitty_placements_def upd_images_flag_def, simp add: links_def)

lemma physical_links [simp]: "links_ok (links t) \<Longrightarrow> links_ok (links (delete_kitty_physical_placements b m t))"
  by (simp add: delete_kitty_physical_placements_def Let_def)

lemma virtual_links [simp]: "links (drop_virtual_placements gone t) = links t"
  by (simp add: drop_virtual_placements_def discard_kitty_character_edited_placements_def Let_def)
    (simp add: links_def upd_images_def)

lemma by_id_links [simp]:
  assumes "links_ok (links t)"
  shows "links_ok (links (delete_kitty_placements_by_image_id i j b t))"
    "links_ok (links (delete_kitty_placements_by_image_id_range k l b t))"
  using assms unfolding delete_kitty_placements_by_image_id_def delete_kitty_placements_by_image_id_range_def
    delete_kitty_virtual_placements_by_image_id_def Let_def
  by (simp_all add: links_def [symmetric] split: option.splits)

lemma delete_command_links: "links_ok (links t) \<Longrightarrow> links_ok (links (apply_kitty_graphics_delete p t))"
  unfolding apply_kitty_graphics_delete_def Let_def
  by (simp add: links_def [symmetric] split: option.splits prod.splits)

section \<open>Placements\<close>

text \<open>A placement forgets the parent of its key, and a relative one records the new parent.\<close>

lemma place_links:
  "links (place_kitty_image im opts t) =
     (case placement_key_of (po_image_id opts) (po_placement_id opts) of
        None \<Rightarrow> links t
      | Some k \<Rightarrow> (let rel = filter (\<lambda>(c, _). c \<noteq> k) (links t) in
          case po_parent_placement opts of None \<Rightarrow> rel | Some p \<Rightarrow> AList.update k p rel))"
  unfolding place_kitty_image_def Let_def by (simp add: links_def [symmetric] split: option.splits prod.splits)

lemma place_plain_links:
  assumes "links_ok (links t)" and "po_parent_placement opts = None"
  shows "links_ok (links (place_kitty_image im opts t))"
  using assms by (simp add: place_links Let_def links_ok_filter split: option.splits)

lemma options_key [simp]:
  "placement_key_of (po_image_id (placement_options p i)) (po_placement_id (placement_options p i)) =
     placement_key_of (Some i) (kp_placement_id p)"
  "po_parent_placement (placement_options p i) = None" "po_parent_placement (upload_options u j) = None"
  by (simp_all add: placement_options_def upload_options_def)

lemma place_relative_links:
  assumes "links_ok (links t)" and "po_parent_placement opts = Some parent"
    and "\<And>child. placement_key_of (po_image_id opts) (po_placement_id opts) = Some child
      \<Longrightarrow> \<not> kitty_relative_placement_would_cycle child parent (images t)"
  shows "links_ok (links (place_kitty_image im opts t))"
proof (cases "placement_key_of (po_image_id opts) (po_placement_id opts)")
  case (Some child)
  with assms show ?thesis
    by (simp add: place_links Let_def relink_ok kitty_relative_placement_would_cycle_def links_def [symmetric])
qed (use assms in \<open>simp add: place_links\<close>)

lemma relative_placement_links:
  assumes "links_ok (links t)"
  shows "links_ok (links (apply_relative_kitty_graphics_placement p i t))"
  unfolding apply_relative_kitty_graphics_placement_def Let_def
  using assms
  by (auto simp: links_def [symmetric] intro!: place_relative_links split: option.splits)

lemma placement_links: "links_ok (links t) \<Longrightarrow> links_ok (links (apply_kitty_graphics_placement p t))"
  unfolding apply_kitty_graphics_placement_def
  by (simp add: links_def [symmetric] relative_placement_links place_plain_links split: option.splits)

lemma show_upload_links: "links_ok (links t) \<Longrightarrow> links_ok (links (show_upload u im i t))"
  by (simp add: show_upload_def links_def [symmetric] place_plain_links split: option.splits)

lemma take_id_links: "take_next_kitty_image_id g = Some (i, g') \<Longrightarrow> kitty_relative_parents g' = kitty_relative_parents g"
  by (auto simp: take_next_kitty_image_id_def)

lemma finish_upload_links:
  assumes "links_ok (links t)" and "finish_kitty_graphics_upload h u t = Some t1"
  shows "links_ok (links t1)"
proof -
  have "links_ok (links (show_upload u im (Some i) (upd_images (store_upload u im i) (t2\<lparr>images := g\<rparr>))))"
    if "take_next_kitty_image_id (images t2) = Some (i, g)" "links t2 = links t" for im i g t2
    using that assms(1) take_id_links [OF that(1)] by (intro show_upload_links) (simp add: links_def upd_images_def)
  moreover have "links_ok (links (show_upload u im (Some i) (upd_images (store_upload u im i) (delete_kitty_placements b m t2))))"
    if "links t2 = links t" for im i b m t2
    using that assms(1) by (intro show_upload_links) (simp add: links_def [symmetric])
  moreover have "links_ok (links (show_upload u im None t2))" if "links t2 = links t" for im t2
    using that assms(1) by (intro show_upload_links) simp
  moreover have "links (upd_images (\<lambda>g. g\<lparr>removed_files := r\<rparr>) t) = links t" for r by (simp add: links_def upd_images_def)
  ultimately show ?thesis
    using assms unfolding finish_kitty_graphics_upload_def Let_def
    by (auto simp: links_def [symmetric] split: prod.splits sum.splits if_splits option.splits)
qed

lemma begin_upload_links:
  "links_ok (links t) \<Longrightarrow> begin_upload h p e c t = Some t1 \<Longrightarrow> links_ok (links t1)"
  unfolding begin_upload_def
  by (auto simp: links_def [symmetric] split: sum.splits if_splits dest: finish_upload_links [rotated])

lemma kitty_command_links:
  assumes "links_ok (links t)" and "apply_kitty_graphics h gr t = Some t1"
  shows "links_ok (links t1)"
proof -
  have "links (upd_images (\<lambda>g. g\<lparr>pending_upload := u\<rparr>) t) = links t" for u by (simp add: links_def upd_images_def)
  then show ?thesis
    using assms finish_upload_links [of "upd_images (\<lambda>g. g\<lparr>pending_upload := None\<rparr>) t" h _ t1]
      begin_upload_links [of "upd_images (\<lambda>g. g\<lparr>pending_upload := None\<rparr>) t" h _ _ _ t1]
      placement_links delete_command_links
    unfolding apply_kitty_graphics_def Let_def
    by (auto simp: links_def [symmetric] split: prod.splits if_splits option.splits)
qed

section \<open>Uploads in chunks\<close>

fun kitty_commands :: "host \<Rightarrow> str list \<Rightarrow> terminal \<Rightarrow> terminal option" where
  "kitty_commands h [] t = Some t"
| "kitty_commands h (gr # grs) t = Option.bind (apply_kitty_graphics h gr t) (kitty_commands h grs)"

definition command :: "str \<Rightarrow> str \<Rightarrow> str" where
  "command control payload = control @ 0x3B # payload"

definition next_chunk :: "str \<Rightarrow> str" where
  "next_chunk = command (str_of ''m=1'')"

definition final_chunk :: "str \<Rightarrow> str" where
  "final_chunk = command (str_of ''m=0'')"

lemma split_once_append: "d \<notin> set a \<Longrightarrow> split_once d (a @ d # b) = Some (a, b)"
proof -
  assume "d \<notin> set a"
  then have "position (\<lambda>c. c = d) (a @ d # b) = Some (length a)" by (induction a) auto
  then show ?thesis by (simp add: split_once_def)
qed

lemma split_command [simp]: "0x3B \<notin> set c \<Longrightarrow> split_once 0x3B (command c d) = Some (c, d)"
  by (simp add: command_def split_once_append)

lemma chunk_params:
  "parse_kitty_graphics_params (str_of ''m=1'') = params_default\<lparr>kp_more_chunks := Some 1\<rparr>"
  "parse_kitty_graphics_params (str_of ''m=0'') = params_default\<lparr>kp_more_chunks := Some 0\<rparr>"
  by code_simp+

lemma chunk_controls: "0x3B \<notin> set (str_of ''m=1'')" "0x3B \<notin> set (str_of ''m=0'')"
  by code_simp+

lemma upd_images_twice: "upd_images f (upd_images g t) = upd_images (\<lambda>x. f (g x)) t"
  by (simp add: upd_images_def)

abbreviation pending :: "pending_kitty_graphics option \<Rightarrow> terminal \<Rightarrow> terminal" where
  "pending u \<equiv> upd_images (\<lambda>g. g\<lparr>pending_upload := u\<rparr>)"

lemma pending_simps [simp]:
  "pending u (pending v t) = pending u t" "enable_kitty_graphics (images (pending u t)) = enable_kitty_graphics (images t)"
  "pending_upload (images (pending u t)) = u"
  by (simp_all add: upd_images_def)

lemma chunk_steps:
  assumes "enable_kitty_graphics (images t)"
  shows "apply_kitty_graphics h (next_chunk d) (pending (Some u) t) =
      Some (pending (Some (u\<lparr>pk_encoded_data := pk_encoded_data u @ d\<rparr>)) t)"
    "apply_kitty_graphics h (final_chunk d) (pending (Some u) t) =
      finish_kitty_graphics_upload h (u\<lparr>pk_encoded_data := pk_encoded_data u @ d\<rparr>) (pending None t)"
  using assms by (simp_all add: apply_kitty_graphics_def next_chunk_def final_chunk_def chunk_controls chunk_params
      opt_or_def Let_def) (simp_all add: params_default_def)

lemma chunks_append:
  assumes "enable_kitty_graphics (images t)"
  shows "kitty_commands h (map next_chunk ds @ [final_chunk d]) (pending (Some u) t) =
    finish_kitty_graphics_upload h (u\<lparr>pk_encoded_data := pk_encoded_data u @ concat ds @ d\<rparr>) (pending None t)"
proof (induction ds arbitrary: u)
  case Nil
  then show ?case by (cases "finish_kitty_graphics_upload h (u\<lparr>pk_encoded_data := pk_encoded_data u @ d\<rparr>) (pending None t)")
    (simp_all add: chunk_steps [OF assms])
qed (simp add: chunk_steps [OF assms])

lemma start_data:
  "start_kitty_graphics_upload p d = Inr u
    \<Longrightarrow> start_kitty_graphics_upload (p\<lparr>kp_more_chunks := m\<rparr>) e = Inr (u\<lparr>pk_encoded_data := e\<rparr>)"
  by (auto simp: start_kitty_graphics_upload_def Let_def split: option.splits if_splits)

lemma start_action: "start_kitty_graphics_upload p d = Inr u \<Longrightarrow> kp_action p \<noteq> Some 0x70 \<and> kp_action p \<noteq> Some 0x64"
  by (auto simp: start_kitty_graphics_upload_def upload_action_of_def split: option.splits if_splits)

lemma start_encoded: "start_kitty_graphics_upload p d = Inr u \<Longrightarrow> pk_encoded_data u = d"
  by (auto simp: start_kitty_graphics_upload_def Let_def split: option.splits if_splits)

lemma first_chunk:
  assumes "enable_kitty_graphics (images t)" "pending_upload (images t) = None" "0x3B \<notin> set c"
    and p: "p = parse_kitty_graphics_params c" "kp_image_id p = None \<or> kp_image_number p = None"
    and "start_kitty_graphics_upload p d = Inr u"
  shows "kp_more_chunks p = Some 1 \<Longrightarrow> apply_kitty_graphics h (command c d) t = Some (pending (Some u) t)"
    "kp_more_chunks p = None \<Longrightarrow> kp_action p \<noteq> Some 0x71
      \<Longrightarrow> apply_kitty_graphics h (command c d) t = finish_kitty_graphics_upload h u (pending None t)"
  using assms start_action [OF assms(6)]
  by (auto simp: apply_kitty_graphics_def opt_or_def Let_def begin_upload_def)

lemma upload_in_chunks:
  assumes "enable_kitty_graphics (images t)" "pending_upload (images t) = None" "0x3B \<notin> set c" "0x3B \<notin> set c1"
    and p: "p = parse_kitty_graphics_params c" "parse_kitty_graphics_params c1 = p\<lparr>kp_more_chunks := None\<rparr>"
      "kp_more_chunks p = Some 1" "kp_image_id p = None \<or> kp_image_number p = None" "kp_action p \<noteq> Some 0x71"
    and u: "start_kitty_graphics_upload p d = Inr u"
  shows "kitty_commands h (command c d # map next_chunk ds @ [final_chunk e]) t =
    apply_kitty_graphics h (command c1 (d @ concat ds @ e)) t"
proof -
  have "apply_kitty_graphics h (command c1 (d @ concat ds @ e)) t =
      finish_kitty_graphics_upload h (u\<lparr>pk_encoded_data := d @ concat ds @ e\<rparr>) (pending None t)"
    using first_chunk(2) [OF assms(1,2,4) refl, of "d @ concat ds @ e" _ h] start_data [OF u] p by simp
  moreover have "apply_kitty_graphics h (command c d) t = Some (pending (Some u) t)"
    using first_chunk(1) [OF assms(1-3) p(1,4) u p(3)] .
  ultimately show ?thesis using chunks_append [OF assms(1), of h ds e u] start_encoded [OF u] by simp
qed

end
