(* ===== verification/Term_Reflow_Laws.thy ===== *)
theory Term_Reflow_Laws
  imports Term_Reflow Term_Shape
begin

text \<open>
  Wrapping a logical line keeps its cells in order, no row is longer than the screen is wide, and the cursor
  keeps its offset. Resizing keeps the shape of a terminal.
\<close>

section \<open>The cells of the rows\<close>

text \<open>Every glyph that starts in the list also ends in it.\<close>

function whole_from :: "cell list \<Rightarrow> nat \<Rightarrow> bool" where
  "whole_from cells index =
     (if index \<ge> length cells then True
      else if index + glyph_width cells index > length cells then False
      else whole_from cells (index + glyph_width cells index))"
  by pat_completeness auto
termination
proof (relation "measure (\<lambda>(cells, index). length cells - index)", goal_cases)
  case (2 cells index)
  moreover have "0 < glyph_width cells index" by (simp add: glyph_width_def)
  ultimately show ?case by simp
qed simp

declare whole_from.simps [simp del]

definition row_all :: "reflow_row \<Rightarrow> cell list" where
  "row_all r = rr_cells r @ rr_overflow r"

definition flat :: "reflow_row list \<Rightarrow> cell list" where
  "flat rows = concat (map row_all rows)"

lemma flat_simps [simp]: "flat [] = []" "flat (rows @ [r]) = flat rows @ row_all r"
  by (simp_all add: flat_def)

definition state_ok :: "nat \<Rightarrow> reflow_state \<Rightarrow> bool" where
  "state_ok columns s \<longleftrightarrow> length (rs_row s) \<le> columns \<and> (rs_overflow s \<noteq> [] \<longrightarrow> length (rs_row s) = columns) \<and>
     (\<forall>r \<in> set (rs_rows s). rr_cells r \<noteq> [] \<and> length (rr_cells r) \<le> columns)"

definition state_cells :: "reflow_state \<Rightarrow> cell list" where
  "state_cells s = flat (rs_rows s) @ rs_row s @ rs_overflow s"

lemma flush_row_cells [simp]: "state_cells (flush_row s) = state_cells s" "rs_row (flush_row s) = []" "rs_overflow (flush_row s) = []"
  by (simp_all add: state_cells_def flush_row_def row_all_def)

lemma place_cursor_simps [simp]:
  "rs_rows (place_cursor b n s) = rs_rows s" "rs_row (place_cursor b n s) = rs_row s"
  "rs_overflow (place_cursor b n s) = rs_overflow s" "state_cells (place_cursor b n s) = state_cells s"
  "state_ok w (place_cursor b n s) = state_ok w s"
  by (simp_all add: place_cursor_def state_cells_def state_ok_def)

lemma flush_ok: "state_ok w s \<Longrightarrow> rs_row s \<noteq> [] \<Longrightarrow> state_ok w (flush_row s)"
  by (auto simp: state_ok_def flush_row_def)

text \<open>Adding a glyph to a row that has room for it, or is empty.\<close>

definition add_glyph :: "nat \<Rightarrow> cell list \<Rightarrow> reflow_state \<Rightarrow> reflow_state" where
  "add_glyph ow g s = s\<lparr>rs_row := rs_row s @ take ow g, rs_overflow := rs_overflow s @ drop ow g\<rparr>"

lemma add_glyph_ok:
  assumes "state_ok w s" and "rs_overflow s = []" and "length (rs_row s) + min (length g) w \<le> w"
  shows "state_ok w (add_glyph (min (length g) w) g s)" "state_cells (add_glyph (min (length g) w) g s) = state_cells s @ g"
proof -
  have "length g > w \<Longrightarrow> rs_row s = []" using assms(3) by (simp add: min_def split: if_splits)
  then show "state_ok w (add_glyph (min (length g) w) g s)"
    using assms by (auto simp: state_ok_def add_glyph_def min_def)
qed (use assms(2) in \<open>simp add: state_cells_def add_glyph_def\<close>)

lemma make_room:
  assumes "state_ok w s" and "0 < w" and "0 < ow" and "ow \<le> w"
    and "s' = (if rs_row s \<noteq> [] \<and> length (rs_row s) + ow > w then flush_row s else s)"
  shows "state_ok w s'" "state_cells s' = state_cells s" "rs_overflow s' = []" "length (rs_row s') + ow \<le> w"
proof -
  show "state_ok w s'" using assms flush_ok by simp
  show "state_cells s' = state_cells s" using assms(5) by simp
  show "rs_overflow s' = []"
  proof (cases "rs_overflow s = []")
    case False
    then have "length (rs_row s) = w" using assms(1) by (simp add: state_ok_def)
    then have "rs_row s \<noteq> [] \<and> length (rs_row s) + ow > w" using assms(2,3) by auto
    then show ?thesis using assms(5) by simp
  qed (use assms(5) in simp)
  show "length (rs_row s') + ow \<le> w" using assms(4,5) by auto
qed

lemma glyph_length: "index < length cells \<Longrightarrow> length (glyph_cells cells index) = glyph_width cells index"
  by (simp add: glyph_cells_def source_width_def)

lemma turn_ok:
  assumes "state_ok w s" and "0 < w" and "index < length cells"
  shows "state_ok w (reflow_turn cells w co index s)"
    "state_cells (reflow_turn cells w co index s) = state_cells s @ glyph_cells cells index"
proof -
  let ?ow = "min (length (glyph_cells cells index)) w"
  let ?s1 = "place_cursor (co = Some index) (length (rs_row s)) s"
  define s2 where "s2 = (if rs_row ?s1 \<noteq> [] \<and> length (rs_row ?s1) + ?ow > w then flush_row ?s1 else ?s1)"
  have "0 < ?ow" using assms(2,3) by (simp add: glyph_length glyph_width_def)
  then have s2: "state_ok w s2" "state_cells s2 = state_cells s" "rs_overflow s2 = []" "length (rs_row s2) + ?ow \<le> w"
    using make_room [of w ?s1 ?ow s2] assms(1,2) s2_def by auto
  define s3 where "s3 = (\<lambda>b n. add_glyph ?ow (glyph_cells cells index) (place_cursor b n s2))"
  have s3: "state_ok w (s3 b n)" "state_cells (s3 b n) = state_cells s @ glyph_cells cells index" "rs_row (s3 b n) \<noteq> []" for b n
    using add_glyph_ok [of w "place_cursor b n s2" "glyph_cells cells index"] s2 \<open>0 < ?ow\<close>
    by (auto simp: s3_def add_glyph_def)
  have turn: "\<exists>b n b' n' c. reflow_turn cells w co index s =
      (if c then flush_row (place_cursor b' n' (s3 b n)) else place_cursor b' n' (s3 b n))"
    unfolding reflow_turn_def Let_def s3_def s2_def add_glyph_def glyph_length [OF assms(3)] by blast
  then show "state_ok w (reflow_turn cells w co index s)"
    "state_cells (reflow_turn cells w co index s) = state_cells s @ glyph_cells cells index"
    using s3 by (auto intro!: flush_ok)
qed

lemma whole_glyph:
  assumes "whole_from cells index" and "index < length cells"
  shows "source_width cells index = glyph_width cells index" "glyph_cells cells index = take (glyph_width cells index) (drop index cells)"
    "whole_from cells (index + glyph_width cells index)"
  using assms by (auto simp: whole_from.simps [of cells index] source_width_def glyph_cells_def split: if_splits)

lemma loop_cells:
  assumes "state_ok w s" and "0 < w" and "whole_from cells index"
  shows "state_ok w (reflow_loop cells w co index s) \<and>
    state_cells (reflow_loop cells w co index s) = state_cells s @ drop index cells"
  using assms
proof (induction cells w co index s rule: reflow_loop.induct)
  case (1 cells w co index s)
  show ?case
  proof (cases "index < length cells")
    case True
    note g = whole_glyph [OF 1(4) True] and t = turn_ok [OF 1(2,3) True, of co]
    have "take (glyph_width cells index) (drop index cells) @ drop (index + glyph_width cells index) cells = drop index cells"
      by (metis add.commute append_take_drop_id drop_drop)
    with 1(1) [OF True t(1) 1(3)] g t(2) True show ?thesis by (simp add: reflow_loop.simps [of cells w co index])
  next
    case False
    with 1(2) show ?thesis by (simp add: reflow_loop.simps [of cells w co index])
  qed
qed

lemma state_new_ok [simp]: "state_ok w reflow_state_new" "state_cells reflow_state_new = []"
  by (simp_all add: reflow_state_new_def state_ok_def state_cells_def)

lemma reflow_line_cells:
  assumes "0 < w" and "whole_from cells 0" and "cells \<noteq> []"
  shows "flat (fst (reflow_logical_line cells w co)) = cells" "\<forall>r \<in> set (fst (reflow_logical_line cells w co)). length (rr_cells r) \<le> w"
proof -
  let ?s = "reflow_loop cells w co 0 reflow_state_new"
  have s: "state_ok w ?s" "state_cells ?s = cells" using loop_cells [OF state_new_ok(1) assms(1,2), of co] by simp_all
  have f: "fst (reflow_logical_line cells w co) = rs_rows (flush_row ?s)" using assms by (simp add: reflow_logical_line_def Let_def)
  show "flat (fst (reflow_logical_line cells w co)) = cells" using s(2) by (simp add: f flush_row_def state_cells_def row_all_def)
  show "\<forall>r \<in> set (fst (reflow_logical_line cells w co)). length (rr_cells r) \<le> w" using s(1) by (auto simp: f flush_row_def state_ok_def)
qed

section \<open>The cursor\<close>

definition cursor_ok :: "nat \<Rightarrow> nat \<Rightarrow> reflow_state \<Rightarrow> bool" where
  "cursor_ok k index s \<longleftrightarrow> (k < index \<longrightarrow> rs_cursor s \<noteq> None) \<and>
     (\<forall>r c. rs_cursor s = Some (r, c) \<longrightarrow> r \<le> length (rs_rows s) \<and> length (flat (take r (rs_rows s))) + c = k)"

lemma place_cursor_ok:
  assumes "cursor_ok k index s" and "here \<Longrightarrow> length (flat (rs_rows s)) + column = k" and "k < index' \<Longrightarrow> k < index \<or> here"
  shows "cursor_ok k index' (place_cursor here column s)"
  using assms by (auto simp: cursor_ok_def place_cursor_def)

lemma flush_cursor [simp]: "cursor_ok k index s \<Longrightarrow> cursor_ok k index (flush_row s)"
  by (auto simp: cursor_ok_def flush_row_def)

lemma add_glyph_cursor [simp]: "cursor_ok k index (add_glyph ow g s) = cursor_ok k index s"
  by (simp add: cursor_ok_def add_glyph_def)

lemma turn_cursor:
  assumes s: "cursor_ok k index s" "rs_overflow s = []" "length (state_cells s) = index"
    and g: "index < length cells" "glyph_width cells index \<le> w" "source_width cells index = glyph_width cells index"
  shows "cursor_ok k (index + glyph_width cells index) (reflow_turn cells w (Some k) index s)"
    "rs_overflow (reflow_turn cells w (Some k) index s) = []"
proof -
  let ?n = "glyph_width cells index" and ?g = "glyph_cells cells index"
  have glen: "length ?g = ?n" by (rule glyph_length [OF g(1)])
  define s1 where "s1 = place_cursor (k = index) (length (rs_row s)) s"
  define s2 where "s2 = (if rs_row s1 \<noteq> [] \<and> length (rs_row s1) + ?n > w then flush_row s1 else s1)"
  define s3 where "s3 = place_cursor (index < k \<and> k < index + ?n) (length (rs_row s2) + min (k - index) ?n) s2"
  define s4 where "s4 = add_glyph ?n ?g s3"
  define s5 where "s5 = place_cursor (k = index + ?n) (length (rs_row s4)) s4"
  have pos: "length (flat (rs_rows s)) + length (rs_row s) = index" using s(2,3) by (simp add: state_cells_def)
  have s1: "cursor_ok k (index + 1) s1" unfolding s1_def by (rule place_cursor_ok [OF s(1)]) (use pos in auto)
  have s2: "cursor_ok k (index + 1) s2" "rs_overflow s2 = []" "length (flat (rs_rows s2)) + length (rs_row s2) = index"
    using s1 s(2) pos by (simp_all add: s2_def) (auto simp: s1_def flush_row_def row_all_def)
  have s3: "cursor_ok k (index + ?n) s3" unfolding s3_def by (rule place_cursor_ok [OF s2(1)]) (use s2(3) in auto)
  have s4: "cursor_ok k (index + ?n) s4" "rs_overflow s4 = []" "length (flat (rs_rows s4)) + length (rs_row s4) = index + ?n"
    using s3 s2 glen by (simp_all add: s4_def s3_def) (simp_all add: add_glyph_def)
  have s5: "cursor_ok k (index + ?n) s5" "rs_overflow s5 = []"
    unfolding s5_def by (rule place_cursor_ok [OF s4(1)]) (use s4 in auto)
  have "reflow_turn cells w (Some k) index s = (if length (rs_row s5) = w \<and> index + ?n < length cells then flush_row s5 else s5)"
    unfolding s5_def s4_def s3_def s2_def s1_def add_glyph_def reflow_turn_def Let_def g(3) min_absorb1 [OF g(2)]
      option.case option.sel option.inject by (rule refl)
  then show "cursor_ok k (index + ?n) (reflow_turn cells w (Some k) index s)" "rs_overflow (reflow_turn cells w (Some k) index s) = []"
    using s5 by simp_all
qed

definition fits :: "nat \<Rightarrow> cell list \<Rightarrow> bool" where
  "fits w cells \<longleftrightarrow> (\<forall>c \<in> set cells. cell_columns c \<le> w)"

lemma fits_glyph: "fits w cells \<Longrightarrow> 0 < w \<Longrightarrow> index < length cells \<Longrightarrow> glyph_width cells index \<le> w"
  by (auto simp: fits_def glyph_width_def)

lemma loop_cursor:
  assumes "state_ok w s" and "0 < w" and "whole_from cells index" and "fits w cells"
    and "cursor_ok k index s" and "rs_overflow s = []" and "length (state_cells s) = index"
  shows "\<exists>index'. length cells \<le> index' \<and> cursor_ok k index' (reflow_loop cells w (Some k) index s)"
  using assms
proof (induction cells w "Some k" index s rule: reflow_loop.induct)
  case (1 cells w index s)
  show ?case
  proof (cases "index < length cells")
    case True
    note g = whole_glyph [OF 1(4) True] and t = turn_ok [OF 1(2,3) True, of "Some k"]
    note c = turn_cursor [OF 1(6-8) True fits_glyph [OF 1(5,3) True] g(1)]
    have "length (glyph_cells cells index) = glyph_width cells index" by (rule glyph_length [OF True])
    with 1(1) [OF True t(1) 1(3) _ 1(5) _ c(2)] g c(1) t(2) 1(8) True show ?thesis
      by (simp add: reflow_loop.simps [of cells w "Some k" index])
  next
    case False
    with 1(6) show ?thesis by (intro exI [of _ index]) (simp add: reflow_loop.simps [of cells w "Some k" index])
  qed
qed

lemma reflow_line_cursor:
  assumes "0 < w" and "whole_from cells 0" and "fits w cells" and "k < length cells"
  shows "\<exists>r c. snd (reflow_logical_line cells w (Some k)) = Some (r, c) \<and> r < length (fst (reflow_logical_line cells w (Some k))) \<and>
    length (flat (take r (fst (reflow_logical_line cells w (Some k))))) + c = k"
proof -
  let ?s = "reflow_loop cells w (Some k) 0 reflow_state_new"
  have "cursor_ok k 0 reflow_state_new" "rs_overflow reflow_state_new = []"
    by (simp_all add: cursor_ok_def reflow_state_new_def)
  then obtain i where i: "length cells \<le> i" "cursor_ok k i ?s"
    using loop_cursor [OF state_new_ok(1) assms(1-3)] by auto
  with assms(4) obtain r c where rc: "rs_cursor ?s = Some (r, c)" "r \<le> length (rs_rows ?s)"
    "length (flat (take r (rs_rows ?s))) + c = k" by (fastforce simp: cursor_ok_def)
  moreover have "cells \<noteq> []" using assms(4) by auto
  ultimately show ?thesis using assms(1) by (simp add: reflow_logical_line_def Let_def flush_row_def or_option_def)
qed

section \<open>The shape of a resized terminal\<close>

lemma grid_set_operation: "grid_operation (\<lambda>g. snd (grid_set row column c g))"
  by unfold_locales (auto simp: grid_set_def upd_row_def grid_ok_def split: option.splits dest!: set_update_subset_insert [THEN subsetD])

lemma row_operations:
  "grid_operation (set_row_last_change_seqno row sq)" "grid_operation (grid_set_row_wrapped row wr)"
  "grid_operation (set_reflow_overflow row cs)"
  unfolding set_row_last_change_seqno_def grid_set_row_wrapped_def set_reflow_overflow_def by (simp_all add: upd_row_operation)

lemma put_reflowed_operation: "grid_operation (put_reflowed_row w sq rw)"
proof -
  obtain row r wr where rw: "rw = (row, r, wr)" by (metis prod.exhaust)
  have "grid_operation (fold (\<lambda>(column, c) g. snd (grid_set row column c g)) xs)" for xs
    by (rule grid_operation_fold) (simp add: grid_set_operation split: prod.split)
  then show ?thesis using row_operations by (simp add: grid_operation_def put_reflowed_row_def rw)
qed

lemma reflowed_grid [simp]:
  "grid_ok (mb_grid (reflow_main_screen sz sq b))" "grid_size (mb_grid (reflow_main_screen sz sq b)) = sz"
proof -
  have "grid_operation (fold (put_reflowed_row w sq) rws)" for w rws by (rule grid_operation_fold [OF put_reflowed_operation])
  then have "grid_ok (fold (put_reflowed_row w sq) rws (grid_new_with_seqno sz sq))"
    "grid_size (fold (put_reflowed_row w sq) rws (grid_new_with_seqno sz sq)) = sz" for w rws
    by (simp_all add: grid_operation_def)
  then show "grid_ok (mb_grid (reflow_main_screen sz sq b))" "grid_size (mb_grid (reflow_main_screen sz sq b)) = sz"
    by (simp_all add: reflow_main_screen_def Let_def split: prod.splits option.splits)
qed

definition body_ok :: "terminal_size \<Rightarrow> terminal \<Rightarrow> bool" where
  "body_ok sz t \<longleftrightarrow> grid_ok (grid t) \<and> grid_size (grid t) = sz \<and> length (scrollback t) \<le> scrollback_limit t \<and>
     (\<forall>s. main_screen t = Some s \<longrightarrow> grid_ok (grid s) \<and> grid_size (grid s) = sz)"

lemma body_ok_frame: "frame u = frame t \<Longrightarrow> grid_ok (grid u) \<Longrightarrow> length (scrollback u) \<le> scrollback_limit u
    \<Longrightarrow> grid_size (grid t) = sz \<Longrightarrow> \<forall>s. main_screen t = Some s \<longrightarrow> grid_ok (grid s) \<and> grid_size (grid s) = sz \<Longrightarrow> body_ok sz u"
  by (auto simp: body_ok_def frame_def map_option_case split: option.splits)

lemma reflow_outcome_fields [simp]:
  "grid (apply_main_reflow_outcome n t) = grid t" "scrollback (apply_main_reflow_outcome n t) = scrollback t"
  "scrollback_limit (apply_main_reflow_outcome n t) = scrollback_limit t"
  "tab_stops_of (apply_main_reflow_outcome n t) = tab_stops_of t"
  "map_option grid (main_screen (apply_main_reflow_outcome n t)) = map_option grid (main_screen t)"
  by (simp_all add: apply_main_reflow_outcome_def Let_def upd_images_def retire_reflow_coordinate_state_def split: option.splits)

lemma main_grids: "map_option grid (main_screen u) = map_option grid (main_screen t)
    \<Longrightarrow> \<forall>s. main_screen t = Some s \<longrightarrow> P (grid s) \<Longrightarrow> \<forall>s. main_screen u = Some s \<longrightarrow> P (grid s)"
  by (auto simp: map_option_case split: option.splits)

lemma trimmed_body:
  assumes "grid_ok (grid t)" "grid_size (grid t) = sz" "\<forall>s. main_screen t = Some s \<longrightarrow> grid_ok (grid s) \<and> grid_size (grid s) = sz"
  shows "body_ok sz (trim_scrollback_to_limit (apply_main_reflow_outcome n t))"
    "tab_stops_of (trim_scrollback_to_limit (apply_main_reflow_outcome n t)) = tab_stops_of t"
proof -
  let ?u = "apply_main_reflow_outcome n t"
  have f: "frame (trim_scrollback_to_limit ?u) = frame ?u" by simp
  have m: "\<forall>s. main_screen ?u = Some s \<longrightarrow> grid_ok (grid s) \<and> grid_size (grid s) = sz"
    by (rule main_grids [OF _ assms(3)]) simp
  show "body_ok sz (trim_scrollback_to_limit ?u)"
    using assms m trim_law(3) [of ?u] by (intro body_ok_frame [OF f]) (simp_all add: frame_eqD [OF f])
  show "tab_stops_of (trim_scrollback_to_limit ?u) = tab_stops_of t" using f by (simp add: frame_def)
qed

lemma reflow_terminal_body: "body_ok sz (reflow_terminal sz t)" "tab_stops_of (reflow_terminal sz t) = tab_stops_of t"
  unfolding reflow_terminal_def Let_def
  by (cases "main_screen t"; simp; subst trimmed_body; simp)+

lemma clamped_screen_grid [simp]: "grid (clamp_screen_state sz s) = grid s"
  by (simp add: clamp_screen_state_def Let_def)

lemma same_width_body:
  assumes "term_ok t"
  shows "body_ok sz (resize_same_width sz t)" "tab_stops_of (resize_same_width sz t) = tab_stops_of t"
  using assms by (simp_all add: resize_same_width_def body_ok_def term_ok_def) auto

lemma terminal_if:
  fixes x y :: terminal
  shows "grid (if b then x else y) = (if b then grid x else grid y)"
    "scrollback (if b then x else y) = (if b then scrollback x else scrollback y)"
    "main_screen (if b then x else y) = (if b then main_screen x else main_screen y)"
    "scrollback_limit (if b then x else y) = (if b then scrollback_limit x else scrollback_limit y)"
    "tab_stops_of (if b then x else y) = (if b then tab_stops_of x else tab_stops_of y)"
    "cursor_row (if b then x else y) = (if b then cursor_row x else cursor_row y)"
    "cursor_column (if b then x else y) = (if b then cursor_column x else cursor_column y)"
  by simp_all

lemma clamped_fields [simp]:
  "grid (clamp_to_size t) = grid t" "scrollback (clamp_to_size t) = scrollback t" "main_screen (clamp_to_size t) = main_screen t"
  "scrollback_limit (clamp_to_size t) = scrollback_limit t" "tab_stops_of (clamp_to_size t) = tab_stops_of t"
  "cursor_row (clamp_to_size t) = clamp_axis (cursor_row t) (rows_of t)"
  "cursor_column (clamp_to_size t) = clamp_axis (cursor_column t) (columns_of t)"
  by (simp_all add: clamp_to_size_def Let_def terminal_if cong: if_cong split del: if_split)

lemma framed_ok:
  assumes "body_ok sz t" and "size_columns sz \<le> u16_max" and "size_rows sz \<le> u16_max" and "sorted_wrt (<) (tab_stops_of t)"
  shows "term_ok ((clamp_to_size (t\<lparr>tab_stops_of := tab_stops_resize sz (tab_stops_of t)\<rparr>))
    \<lparr>scroll_top := 0, scroll_bottom := size_rows sz - 1, left_margin := 0, right_margin := size_columns sz - 1\<rparr>)"
  using assms by (simp add: term_ok_def body_ok_def stops_ok_def tab_stops_resize_def clamp_axis_def sorted_wrt_filter)

lemma retained_body [simp]:
  "body_ok sz (upd_images f (retain_saved_edits t)) = body_ok sz t"
  "tab_stops_of (upd_images f (retain_saved_edits t)) = tab_stops_of t"
  by (auto simp: body_ok_def upd_images_def retain_saved_edits_def Let_def map_option_case split: option.splits)

lemma resize_ok:
  assumes "term_ok t" and "size_columns sz \<le> u16_max" and "size_rows sz \<le> u16_max"
  shows "term_ok (snd (resize sz t))"
proof -
  define z where "z = sz\<lparr>size_columns := max 1 (size_columns sz)\<rparr>"
  define u where "u = (if columns_of t \<noteq> size_columns z then reflow_terminal z (advance_seqno t) else resize_same_width z (advance_seqno t))"
  define v where "v = upd_images retain_kitty_character_edited_placements (retain_saved_edits u)"
  define w where "w = (clamp_to_size (v\<lparr>tab_stops_of := tab_stops_resize z (tab_stops_of v)\<rparr>))
    \<lparr>scroll_top := 0, scroll_bottom := size_rows z - 1, left_margin := 0, right_margin := size_columns z - 1\<rparr>"
  have t: "term_ok (advance_seqno t)" "sorted_wrt (<) (tab_stops_of (advance_seqno t))"
    using assms(1) by (simp_all add: advance_seqno_def term_ok_def stops_ok_def)
  have "body_ok z v" "sorted_wrt (<) (tab_stops_of v)"
    using reflow_terminal_body [of z "advance_seqno t"] same_width_body [OF t(1), of z] t(2) by (simp_all add: u_def v_def)
  moreover have "size_columns z \<le> u16_max" "size_rows z \<le> u16_max" using assms(2,3) by (simp_all add: z_def u16_max_def)
  ultimately have "term_ok w" unfolding w_def by (intro framed_ok)
  moreover have "snd (resize sz t) = record_damage (damage_rect 0 0 (size_columns z) (size_rows z)) w"
    unfolding resize_def Let_def z_def [symmetric] u_def [symmetric] v_def [symmetric] w_def [symmetric] by simp
  ultimately show ?thesis by simp
qed

lemma row_sets: "grid_operation (fold (\<lambda>column g. snd (grid_set row column c g)) xs)"
  by (rule grid_operation_fold [OF grid_set_operation])

lemma erased_rows: "grid_operation (fold (\<lambda>row g. set_row_last_change_seqno row sq (grid_set_row_wrapped row False
    (fold (\<lambda>column g. snd (grid_set row column c g)) xs g))) ys)"
  by (rule grid_operation_fold) (use row_operations row_sets in \<open>simp add: grid_operation_def\<close>)

lemma first_row: "grid_operation (fold (\<lambda>(column, c) g. snd (grid_set 0 column c g)) xs)"
  by (rule grid_operation_fold) (simp add: grid_set_operation split: prod.split)

lemma erased_ok:
  assumes "term_ok u" and "grid_ok g" and "grid_size g = grid_size (grid u)" and "c \<le> cursor_column u"
  shows "term_ok (u\<lparr>title_stack := [], images := im, semantic_prompt_rows := [], semantic_command_exits := [], grid := g, cursor_row := 0,
    cursor_column := c, pending_wrap := False, clear_semantic_type_on_movement := False\<rparr>)"
  using assms by (auto simp: term_ok_def)

lemma erase_ok:
  assumes "term_ok t" shows "term_ok (erase_scrollback_and_viewport t)"
proof -
  define u where "u = prune_scrollback_rows (length (scrollback (advance_seqno t))) (advance_seqno t)"
  define v where "v = u\<lparr>title_stack := [], images := clear_all_graphics (images u), semantic_prompt_rows := [], semantic_command_exits := []\<rparr>"
  have "term_ok (advance_seqno t)" using assms by (simp add: advance_seqno_def term_ok_def)
  then have u: "term_ok u" "grid_ok (grid u)" by (simp_all add: u_def term_ok_grid_ok)
  have sz: "grid_size (grid (advance_seqno t)) = grid_size (grid u)" by (simp add: u_def)
  have small: "term_ok (v\<lparr>cursor_row := 0, cursor_column := 0, pending_wrap := False, clear_semantic_type_on_movement := False\<rparr>)"
    using erased_ok [OF u refl, of 0 "clear_all_graphics (images u)"] by (simp add: v_def)
  have big: "term_ok (v\<lparr>grid := g, cursor_row := 0, pending_wrap := False, clear_semantic_type_on_movement := False\<rparr>)"
    if "grid_ok g" "grid_size g = grid_size (grid u)" for g
    using erased_ok [OF u(1) that, of "cursor_column u" "clear_all_graphics (images u)"] by (simp add: v_def)
  note op = grid_operation.keeps_ok grid_operation.keeps_size
  show ?thesis
    unfolding erase_scrollback_and_viewport_def Let_def u_def [symmetric] sz v_def [symmetric]
  proof (cases "rows_of u = 0 \<or> columns_of u = 0", goal_cases)
    case 1
    then show ?case using small by simp
  next
    case 2
    have g: "grid v = grid u" by (simp add: v_def)
    show ?case using 2 unfolding if_not_P [OF 2] g
      by (intro cell_operation_ok [OF record_damage_op] big)
        (simp_all only: op [OF first_row] op [OF erased_rows] u(2))
  qed
qed

end
