(* ===== verification/Term_Feed_Properties.thy ===== *)
theory Term_Feed_Properties
  imports Term_Sixel_Reference Term_Feed_Shape Term_Feed_Laws Term_Sixel_Laws Term_Kitty_Laws Term_Reflow_Laws
begin

text \<open>
  What the input of the terminal promises: the shape of every state a stream of bytes leads to, the
  independence from how the stream is cut, the images that sixels draw, and the commands of the graphics
  protocol.
\<close>

section \<open>A run of the terminal\<close>

text \<open>Every operation of \<open>Terminal\<close> that changes it.\<close>

inductive parser_step :: "host \<Rightarrow> parser \<Rightarrow> parser \<Rightarrow> bool" for h where
  Feed: "feed h bytes p = Some q \<Longrightarrow> parser_step h p q"
| Feed_All: "feed_with_all_lines_changed h bytes p = Some q \<Longrightarrow> parser_step h p q"
| Mark_All: "parser_step h p (upd_core mark_all_lines_changed p)"
| Unicode_Version: "parser_step h p (set_unicode_version v p)"
| Normalize: "parser_step h p (set_normalize_output_to_unicode_nfc b p)"
| Kitty_Graphics: "parser_step h p (set_enable_kitty_graphics b p)"
| Responses: "parser_step h p (snd (take_kitty_graphics_responses p))"
| Metadata: "parser_step h p (clear_pending_metadata_changes p)"
| Scrollback_Limit: "parser_step h p (upd_core (set_scrollback_limit limit) p)"
| Ambiguous_Width: "parser_step h p (upd_core (set_treat_east_asian_ambiguous_width_as_wide b) p)"
| Width_Overrides: "parser_step h p (upd_core (set_cell_width_overrides overrides) p)"
| Cursor_Style: "parser_step h p (upd_core (set_default_cursor_style cs) p)"
| Bells: "parser_step h p (upd_core (\<lambda>t. snd (take_bell_count t)) p)"
| Unknown: "parser_step h p (upd_core (\<lambda>t. snd (take_unknown_escape_sequences t)) p)"
| Damage: "parser_step h p (upd_core (\<lambda>t. snd (take_damage t)) p)"
| Damage_Into: "parser_step h p (upd_core (\<lambda>t. snd (drain_damage_into target t)) p)"
| Erase: "parser_step h p (upd_core erase_scrollback_and_viewport p)"
| Resize: "size_columns sz \<le> u16_max \<Longrightarrow> size_rows sz \<le> u16_max \<Longrightarrow>
    parser_step h p (upd_core (\<lambda>t. snd (resize sz t)) p)"

lemma mark_all_ok: "term_ok t \<Longrightarrow> term_ok (mark_all_lines_changed_at_current_seqno t)"
proof -
  assume "term_ok t"
  then have "term_ok (t\<lparr>scrollback := map f (scrollback t)\<rparr>)" for f by (simp add: term_ok_def)
  with \<open>term_ok t\<close> show ?thesis by (simp add: mark_all_lines_changed_at_current_seqno_def Let_def)
qed

lemma set_scrollback_limit_ok:
  assumes ok: "term_ok t"
  shows "term_ok (set_scrollback_limit limit t)"
proof -
  let ?t = "t\<lparr>scrollback_limit := limit\<rparr>"
  define u where "u = trim_scrollback_to_limit ?t"
  have f: "frame u = frame ?t" "grid u = grid t" and l: "length (scrollback u) \<le> limit"
    using trim_law [of ?t] by (simp_all add: u_def)
  have "map_option grid (main_screen u) = map_option grid (main_screen t)" using f(1) by (simp add: frame_def)
  then have "\<forall>s. main_screen u = Some s \<longrightarrow> grid_ok (grid s) \<and> grid_size (grid s) = grid_size (grid t)"
    by (rule main_grids) (use ok in \<open>simp add: term_ok_def\<close>)
  then have "term_ok u" using ok f l by (simp add: term_ok_def frame_def)
  then show ?thesis by (simp add: set_scrollback_limit_def u_def)
qed

lemma parser_step_ok: "parser_step h p q \<Longrightarrow> term_ok (core p) \<Longrightarrow> term_ok (core q)"
proof (induction rule: parser_step.induct)
  case (Feed bytes p q)
  then show ?case using feed_ok by blast
next
  case (Feed_All bytes p q)
  then obtain r where "feed h bytes p = Some r" "q = upd_core mark_all_lines_changed_at_current_seqno r"
    by (auto simp: feed_with_all_lines_changed_def)
  then show ?case using mark_all_ok feed_ok Feed_All(2) by simp
next
  case (Mark_All p)
  then show ?case by (simp add: mark_all_lines_changed_def advance_seqno_def mark_all_ok)
next
  case (Scrollback_Limit p limit)
  then show ?case by (simp add: set_scrollback_limit_ok)
next
  case (Erase p)
  then show ?case by (simp add: erase_ok)
next
  case (Resize sz p)
  then show ?case by (simp add: resize_ok)
qed (simp_all add: set_treat_east_asian_ambiguous_width_as_wide_def set_cell_width_overrides_def set_default_cursor_style_def
  apply_default_cursor_style_def take_bell_count_def take_unknown_escape_sequences_def take_damage_def drain_damage_into_def set_unicode_version_def set_normalize_output_to_unicode_nfc_def set_enable_kitty_graphics_def
  take_kitty_graphics_responses_def clear_pending_metadata_changes_def term_ok_def upd_images_def)

text \<open>
  C14: From a new terminal, whatever bytes are fed and whatever public operations that change the terminal are called between (setters
  with the history limit among them, taking damage, bells and responses, erasing everything, resizing to any size), the terminal keeps
  its shape: the rows of the grid have their length, the cursor lies on the screen, margins are in order and inside it, tab stops and
  history have their sizes, and the saved screen has the size of the active one.
\<close>

theorem fed_terminal_well_formed:
  assumes "size_columns sz \<le> u16_max" and "size_rows sz \<le> u16_max"
    and "(parser_step h)\<^sup>*\<^sup>* (parser_new sz cs) p"
  shows "term_ok (core p)"
  using assms(3)
proof (induction rule: rtranclp_induct)
  case base
  then show ?case using new_terminal_ok [OF assms(1,2)] by (simp add: parser_new_def)
next
  case (step p q)
  then show ?case using parser_step_ok by blast
qed

definition demo_host :: host where
  "demo_host = \<lparr>host_unicode = \<lparr>char_width = (\<lambda>c. if c < 0x20 then None else Some 1),
       char_width_cjk = (\<lambda>c. if c < 0x20 then None else Some 1), str_width = length, str_width_cjk = length,
       grapheme_count = length\<rparr>, host_nfc = (\<lambda>s. s), host_combining_class = (\<lambda>_. 0), host_base64 = Some,
     host_inflate = Some, host_canonicalize = (\<lambda>_ s. Some s), host_temp_dir = [0x2F], host_read = (\<lambda>_ _ _ _. None)\<rparr>"

definition demo_parser :: parser where
  "demo_parser = parser_new \<lparr>size_columns = 4, size_rows = 2\<rparr> SteadyBlock"

lemma demo_parser_input [simp]:
  "\<not> normalize_output_to_unicode_nfc demo_parser" "pending_utf8 demo_parser = []" "pending_control demo_parser = []"
  by (simp_all add: demo_parser_def parser_new_def)

theorem fed_terminal_well_formed_witness:
  "term_ok (core (upd_core (fold (feed_ascii_byte demo_host) [0x48, 0x69, 0x0A]) (upd_core advance_seqno demo_parser)))"
proof -
  let ?q = "upd_core (fold (feed_ascii_byte demo_host) [0x48, 0x69, 0x0A]) (upd_core advance_seqno demo_parser)"
  have "feed demo_host [0x48, 0x69, 0x0A] demo_parser = Some ?q"
    by (simp add: feed_def feed_at_current_seqno_def try_feed_direct_ascii_def) (simp add: upd_core_def)
  then have "(parser_step demo_host)\<^sup>*\<^sup>* demo_parser ?q" by (intro r_into_rtranclp Feed)
  then show ?thesis
    using fed_terminal_well_formed [of "\<lparr>size_columns = 4, size_rows = 2\<rparr>" demo_host SteadyBlock ?q]
    by (simp add: demo_parser_def [symmetric] u16_max_def)
qed

section \<open>Chunks\<close>

fun feed_chunks :: "host \<Rightarrow> u8 list list \<Rightarrow> parser \<Rightarrow> parser option" where
  "feed_chunks h [] p = Some p"
| "feed_chunks h (c # cs) p = Option.bind (feed_at_current_seqno h c p) (feed_chunks h cs)"

lemma feed_decoded_state:
  assumes "\<not> normalize_output_to_unicode_nfc p" and "well_coded (pending_utf8 p @ a @ b)" and "feed_decoded h a p = Some q"
  shows "\<not> normalize_output_to_unicode_nfc q" "well_coded (pending_utf8 q @ b)"
proof -
  let ?x = "pending_utf8 p @ a"
  let ?p = "p\<lparr>pending_utf8 := drop (char_cut ?x) ?x, pending_control := []\<rparr>"
  have w: "well_coded (?x @ b)" using assms(2) by simp
  have n: "complete_utf8_prefix_len ?x = char_cut ?x" by (rule complete_utf8_prefix_cut [OF well_coded_prefix [OF w]])
  have p: "ready ?p" using assms(1) by (simp add: ready_def)
  have q: "feed_loop h (pending_control p @ decode_terminal_chars (take (char_cut ?x) ?x)) ?p = Some q"
    using assms(3) by (simp add: feed_decoded_def Let_def n)
  show "\<not> normalize_output_to_unicode_nfc q" by (rule feed_loop_ready [OF p q])
  show "well_coded (pending_utf8 q @ b)" using feed_loop_input [OF p q] well_coded_cut [OF w] by simp
qed

text \<open>
  C15: While normalization to NFC is off, a stream of well-coded text may be cut into chunks anywhere, inside characters and inside
  control sequences too: feeding the chunks in turn gives the terminal that one run over the whole stream
  gives, including whether the run returns. The run over the whole stream here is the general one, so the
  shortcut for plain ASCII chunks is covered. (Each call of \<open>feed\<close> also advances the sequence number, once. With normalization on,
  characters on the two sides of a cut are not composed: U+1100 and U+1161 become one syllable only in one chunk.)
\<close>

theorem feed_chunk_independent:
  assumes "\<not> normalize_output_to_unicode_nfc p" and "well_coded (pending_utf8 p @ concat cs)" and "cs \<noteq> []"
  shows "feed_chunks h cs p = feed_decoded h (concat cs) p"
  using assms
proof (induction cs arbitrary: p)
  case (Cons c cs)
  show ?case
  proof (cases "cs = []")
    case True
    then show ?thesis by (cases "feed_decoded h c p") (simp_all add: feed_at_decoded)
  next
    case False
    have w: "well_coded (pending_utf8 p @ c @ concat cs)" using Cons(3) by simp
    have "feed_chunks h cs q = feed_decoded h (concat cs) q" if "feed_decoded h c p = Some q" for q
      using Cons(1) [OF feed_decoded_state [OF Cons(2) w that] False] .
    then show ?thesis using feed_decoded_append [OF Cons(2) w, of h]
      by (cases "feed_decoded h c p") (simp_all add: feed_at_decoded)
  qed
qed simp

theorem feed_chunk_independent_witness:
  "feed_chunks demo_host [[0x61, 0xC3], [0xA9, 0x1B], [0x5B, 0x33], [0x31, 0x6D]] demo_parser =
     feed_decoded demo_host [0x61, 0xC3, 0xA9, 0x1B, 0x5B, 0x33, 0x31, 0x6D] demo_parser"
proof -
  have "well_coded [0x61, 0xC3, 0xA9, 0x1B, 0x5B, 0x33, 0x31, 0x6D]"
    by (simp add: well_coded.simps head_complete_def head_char_def raw_c1_control_def utf8_head.simps continuation_def)
  then show ?thesis
    using feed_chunk_independent [of demo_parser "[[0x61, 0xC3], [0xA9, 0x1B], [0x5B, 0x33], [0x31, 0x6D]]" demo_host] by simp
qed

text \<open>
  C20: Of malformed bytes the decoding does depend on the cuts. The bytes E2 9B F0 9F 98 80 decode as one
  replacement character and one emoji; cut after the fourth, the second byte is decoded on its own, as the
  introducer 9B of a control sequence, which swallows what follows.
\<close>

theorem malformed_decoding_depends_on_cuts:
  "decode_terminal_chars [0xE2, 0x9B, 0xF0, 0x9F, 0x98, 0x80] = [0xFFFD, 0x1F600] \<and>
   complete_utf8_prefix_len [0xE2, 0x9B, 0xF0, 0x9F] = 2 \<and>
   decode_terminal_chars [0xE2, 0x9B] = [0xFFFD, 0x9B] \<and>
   complete_utf8_prefix_len [0xF0, 0x9F, 0x98, 0x80] = 4 \<and>
   decode_terminal_chars [0xF0, 0x9F, 0x98, 0x80] = [0x1F600] \<and> is_escape_or_c1_sequence_start 0x9B"
proof (intro conjI)
  note decode = decode_step head_char_def raw_c1_control_def utf8_head.simps utf8_third_def second_byte_ok_def
    continuation_def
  show "decode_terminal_chars [0xE2, 0x9B, 0xF0, 0x9F, 0x98, 0x80] = [0xFFFD, 0x1F600]" by (simp add: decode)
  show "decode_terminal_chars [0xE2, 0x9B] = [0xFFFD, 0x9B]" by (simp add: decode)
  show "decode_terminal_chars [0xF0, 0x9F, 0x98, 0x80] = [0x1F600]" by (simp add: decode)
qed code_simp+

section \<open>Sixels\<close>

text \<open>
  C18: The commands of a sixel control string move a pen and make dots. As long as the image has at most \<open>2 ^ 32\<close> bytes, it is as wide
  and as high as the dots reach, or as the raster attributes declare if that is more; every pixel has the colour of the last
  dot made there, the colour the pen had then, or the background colour where no dot was made; a dot is as high as the aspect ratio
  says.
\<close>

theorem sixels_drawn_faithfully:
  assumes "cmds = sixel_commands content" and "ds = plotted cmds pen_new" and "s = stretch cmds (so_pixel_height_scale opts)"
    and "w = max (declared 2 cmds 0) (reach fst ds)" and "lh = max (declared 3 cmds 0) (reach snd ds)" and "h = lh * s"
    and "ds \<noteq> [] \<or> so_background opts = Background_Opaque"
    and "0 < w" and "0 < lh" and "0 < s" and "h \<le> u32_max" and "4 * (w * h) \<le> 2 ^ 32"
  shows "\<exists>data. parse_sixel_image opts content = Some \<lparr>si_width = w, si_height = h, si_data = data\<rparr> \<and>
    length data = 4 * (w * h) \<and> (\<forall>x < w. \<forall>r < h. take 4 (drop (4 * (r * w + x)) data) =
      (case map_of (rev ds) (x, r div s) of Some col \<Rightarrow> col | None \<Rightarrow> paper opts (fold move_pen cmds pen_new)))"
proof -
  let ?c = "draw_sixels content (canvas_new opts)"
  note facts = draws_the_dots [of content opts, folded assms(1), folded assms(2,3)]
  have "1 \<le> h" "lh \<le> h" using assms(6,9,10) by simp_all
  have "w * 1 \<le> w * h" using \<open>1 \<le> h\<close> by (intro mult_le_mono2)
  also have "\<dots> \<le> 2 ^ 30" using assms(12) by (simp add: mult.commute)
  finally have "w \<le> u32_max" "lh \<le> u32_max" using \<open>lh \<le> h\<close> assms(11) by (simp_all add: u32_max_def)
  then have "image_size ?c = Some (w, lh)" using reach_size [OF facts(1)] facts(4,5) assms(4,5) by simp
  moreover have "sx_pixels ?c \<noteq> [] \<or> sx_background ?c = Background_Opaque" using assms(7) facts(1,3) by (simp add: drawn_def)
  moreover have "canvas_ok ?c" by (rule draw_sixels_ok [OF canvas_new_ok])
  ultimately obtain data where data: "into_image ?c = Some \<lparr>si_width = w, si_height = h, si_data = data\<rparr>"
    "shows_pixels w h (\<lambda>x r. case map_of (sx_pixels ?c) (x, r div s) of Some col \<Rightarrow> col | None \<Rightarrow> background_color ?c) data"
    using into_image_shows [of ?c w lh h] assms(6,8-12) facts(2) by metis
  have "map_of (sx_pixels ?c) = map_of (rev ds)" "background_color ?c = paper opts (fold move_pen cmds pen_new)"
    using facts(1,3) by (simp_all add: drawn_def background_color_def paper_def split: sixel_background.split)
  with data(2) have "shows_pixels w h
      (\<lambda>x r. case map_of (rev ds) (x, r div s) of Some col \<Rightarrow> col | None \<Rightarrow> paper opts (fold move_pen cmds pen_new)) data"
    by (simp only:)
  with data(1) show ?thesis by (auto simp: parse_sixel_image_def shows_pixels_def pixel_at_def)
qed

lemma six: "[0 ..< 6] = [0, 1, 2, 3, 4, 5 :: nat]"
  by (simp add: upt_rec)

text \<open>A sixel with one bit set draws one pixel.\<close>

lemma draw_bit:
  assumes "sx_y c + 6 \<le> u32_max" and "sx_x c + 1 \<le> u32_max"
  shows "draw_sixels [0x40] c = c\<lparr>sx_pixels := AList.update (sx_x c, sx_y c) (sx_color c) (sx_pixels c),
      sx_max_x := max (sx_max_x c) (sx_x c), sx_max_y := max (sx_max_y c) (sx_y c), sx_x := sx_x c + 1\<rparr>"
    "draw_sixels [0x5F] c = c\<lparr>sx_pixels := AList.update (sx_x c, sx_y c + 5) (sx_color c) (sx_pixels c),
      sx_max_x := max (sx_max_x c) (sx_x c), sx_max_y := max (sx_max_y c) (sx_y c + 5), sx_x := sx_x c + 1\<rparr>"
  using assms by (simp_all add: write_sixel_def sixel_bits_def write_bits_def write_column_def write_bit_def Let_def six
      sat_add_u32_def)

definition demo_options :: sixel_options where
  "demo_options = \<lparr>so_background = Background_Transparent, so_pixel_height_scale = 2\<rparr>"

text \<open>Two dots in the same place: the colour is that of the second.\<close>

definition demo_sixels :: str where
  "demo_sixels = [0x40, 0x24, 0x23, 0x31, 0x40]"

theorem sixels_drawn_faithfully_witness:
  "\<exists>data. parse_sixel_image demo_options demo_sixels = Some \<lparr>si_width = 1, si_height = 2, si_data = data\<rparr> \<and>
     length data = 8 \<and> take 4 (drop 4 data) = [51, 51, 204, 255]"
proof -
  have cmds: "sixel_commands demo_sixels = [Sx_draw 1 1, Sx_return, Sx_color [1], Sx_draw 1 1]"
    by (simp add: demo_sixels_def draw_command_def is_sixel_parameter_def is_ascii_digit_def parse_sixel_numeric_params_def
        parse_u16_def u16_max_def)
  have ds: "plotted (sixel_commands demo_sixels) pen_new = [((0, 0), [0, 0, 0, 255]), ((0, 0), [51, 51, 204, 255])]"
    by (simp add: cmds pen_new_def column_dots_def dip_def six u32_max_def vt340_default_sixel_palette_def)
  have "2 = stretch (sixel_commands demo_sixels) (so_pixel_height_scale demo_options)"
    "1 = max (declared 2 (sixel_commands demo_sixels) 0) (reach fst (plotted (sixel_commands demo_sixels) pen_new))"
    "1 = max (declared 3 (sixel_commands demo_sixels) 0) (reach snd (plotted (sixel_commands demo_sixels) pen_new))"
    "2 = 1 * (2 :: nat)" by (simp_all only: ds) (simp_all add: cmds demo_options_def reach_def)
  note image = sixels_drawn_faithfully [OF refl refl this]
  obtain data where "parse_sixel_image demo_options demo_sixels = Some \<lparr>si_width = 1, si_height = 2, si_data = data\<rparr>"
    "length data = 4 * (1 * 2)" and pixels: "\<forall>x < 1. \<forall>r < 2. take 4 (drop (4 * (r * 1 + x)) data) =
      (case map_of (rev (plotted (sixel_commands demo_sixels) pen_new)) (x, r div 2) of Some col \<Rightarrow> col
       | None \<Rightarrow> paper demo_options (fold move_pen (sixel_commands demo_sixels) pen_new))"
    using image by (auto simp: ds u32_max_def)
  then show ?thesis using pixels [rule_format, of 0 1] by (simp add: ds)
qed

lemma draw_newlines: "draw_sixels (replicate n 0x2D @ s) c = draw_sixels s ((canvas_newline ^^ n) c)"
  by (induction n arbitrary: c) (simp_all add: funpow_swap1)

lemma newlines: "sx_x c = 0 \<Longrightarrow> sx_y c + 6 * n \<le> u32_max \<Longrightarrow> (canvas_newline ^^ n) c = c\<lparr>sx_y := sx_y c + 6 * n\<rparr>"
  by (induction n) (simp_all add: canvas_newline_def sat_add_u32_def)

text \<open>Raster attributes for 65535 columns and 16386 rows, some new lines, and a sixel with its lowest bit set.\<close>

definition tall_header :: str where
  "tall_header = [0x22, 0x31, 0x3B, 0x31, 0x3B, 0x36, 0x35, 0x35, 0x33, 0x35, 0x3B, 0x31, 0x36, 0x33, 0x38, 0x36]"

definition tall_sixels :: "nat \<Rightarrow> str" where
  "tall_sixels n = tall_header @ replicate n 0x2D @ [0x5F]"

lemma tall_start:
  "draw_sixels (tall_sixels n) c = draw_sixels (replicate n 0x2D @ [0x5F]) (set_raster_attributes 1 1 65535 16386 c)"
proof -
  have "takeWhile is_sixel_parameter (replicate n 0x2D @ [0x5F]) = []"
    "dropWhile is_sixel_parameter (replicate n 0x2D @ [0x5F]) = replicate n 0x2D @ [0x5F]"
    by (cases n; simp add: is_sixel_parameter_def is_ascii_digit_def)+
  moreover have "raster_attributes (parse_sixel_numeric_params (tl tall_header)) c = set_raster_attributes 1 1 65535 16386 c"
    by (simp add: tall_header_def parse_sixel_numeric_params_def parse_u16_def u16_max_def raster_attributes_def
        is_ascii_digit_def)
  ultimately show ?thesis
    by (simp add: tall_sixels_def tall_header_def is_sixel_parameter_def is_ascii_digit_def)
qed

lemma tall_canvas:
  assumes "6 * n + 6 \<le> u32_max" and "c = draw_sixels (tall_sixels n) (canvas_new demo_options)"
  shows "sx_pixels c = [((0, 6 * n + 5), [0, 0, 0, 255])]" "sx_scale c = 1" "background_color c = [0, 0, 0, 0]"
    "sx_max_x c = 0" "sx_max_y c = 6 * n + 5" "sx_declared_width c = Some 65535" "sx_declared_height c = Some 16386"
proof -
  let ?c = "set_raster_attributes 1 1 65535 16386 (canvas_new demo_options)"
  have "c = draw_sixels [0x5F] (?c\<lparr>sx_y := 6 * n\<rparr>)"
    using assms newlines [of ?c n]
    by (simp add: tall_start draw_newlines set_raster_attributes_def canvas_new_def del: draw_sixels.simps)
  also have "\<dots> = ?c\<lparr>sx_y := 6 * n, sx_pixels := [((0, 6 * n + 5), [0, 0, 0, 255])], sx_max_y := 6 * n + 5, sx_x := 1\<rparr>"
    using assms(1) draw_bit(2) [of "?c\<lparr>sx_y := 6 * n\<rparr>"]
    by (simp add: set_raster_attributes_def canvas_new_def u32_max_def del: draw_sixels.simps)
  finally show "sx_pixels c = [((0, 6 * n + 5), [0, 0, 0, 255])]" "sx_scale c = 1" "background_color c = [0, 0, 0, 0]"
    "sx_max_x c = 0" "sx_max_y c = 6 * n + 5" "sx_declared_width c = Some 65535" "sx_declared_height c = Some 16386"
    by (simp_all add: set_raster_attributes_def canvas_new_def background_color_def demo_options_def sixel_pixel_height_scale_def)
qed

lemma tall_offset: "pixel_offset 16385 65535 0 = 4 * 49151"
  by (simp add: pixel_offset_def wrap_u32_def)

text \<open>
  C19: The offset of a pixel is computed in 32 bits. In an image of 65535 columns and 16386 rows, a size raster
  attributes may ask for, the pixel drawn in column 0 of the last row is stored in column 49151 of the
  first row, and its own place keeps the background. (A build that checks overflow stops there.)
\<close>

theorem tall_sixel_misplaced:
  "\<exists>data. parse_sixel_image demo_options (tall_sixels 2730) = Some \<lparr>si_width = 65535, si_height = 16386, si_data = data\<rparr> \<and>
     map_of (sx_pixels (draw_sixels (tall_sixels 2730) (canvas_new demo_options))) (0, 16385) = Some [0, 0, 0, 255] \<and>
     pixel_at data (16385 * 65535 + 0) = [0, 0, 0, 0] \<and> pixel_at data (0 * 65535 + 49151) = [0, 0, 0, 255]"
proof -
  define c where "c = draw_sixels (tall_sixels 2730) (canvas_new demo_options)"
  have six: "6 * 2730 + 6 \<le> u32_max" by (simp add: u32_max_def)
  note t = tall_canvas [OF six c_def, simplified]
  define N :: nat where "N = 65535 * 16386"
  define bg where "bg = concat (replicate N [0, 0, 0, 0 :: nat])"
  have size: "image_size c = Some (65535, 16386)" by (simp add: image_size_def t checked_u32_def u32_max_def)
  have bg: "shows_pixels 65535 16386 (\<lambda>x r. [0, 0, 0, 0]) bg"
    using background_shows [of "[0, 0, 0, 0]" 65535 16386] by (simp only: bg_def N_def) simp
  then have "length bg = 4 * N" by (simp only: shows_pixels_def N_def)
  moreover have n: "49151 < N" "16385 * 65535 < N" "16385 * 65535 \<noteq> (49151 :: nat)" by (simp_all add: N_def)
  ultimately obtain data where d: "put_pixel (4 * 49151) [0, 0, 0, 255] bg = Some data"
    "\<forall>m < N. pixel_at data m = (if m = 49151 then [0, 0, 0, 255] else pixel_at bg m)"
    using put_pixel_spec [of 49151 N bg "[0, 0, 0, 255]"] by auto
  have whole: "concat (replicate 1073856510 [0, 0, 0, 0]) = bg" by (simp add: bg_def N_def)
  have image: "into_image c = Some \<lparr>si_width = 65535, si_height = 16386, si_data = data\<rparr>"
    using d(1) unfolding into_image_def size option.case prod.case
    by (simp add: t checked_u32_def u32_max_def usize_max_def paint_pixel_def paint_row_def tall_offset
        whole)
  have bgs: "\<forall>x < 65535. \<forall>r < 16386. pixel_at bg (r * 65535 + x) = [0, 0, 0, 0]" using bg by (simp add: shows_pixels_def)
  have "pixel_at bg (16385 * 65535) = [0, 0, 0, 0]" using bgs [rule_format, of 0 16385] by simp
  then have "pixel_at data (16385 * 65535) = [0, 0, 0, 0]" using d(2) n by simp
  moreover have "pixel_at data 49151 = [0, 0, 0, 255]" using d(2) n by simp
  ultimately show ?thesis using image by (simp add: parse_sixel_image_def c_def [symmetric] t)
qed

section \<open>The graphics protocol\<close>

text \<open>
  C16: Whatever commands of the graphics protocol are run, a placement has at most one parent and following the
  parents of relative placements never leads back: the check for cycles is exact and deletions, uploads
  and placements keep it so.
\<close>

theorem relative_placements_acyclic:
  assumes "kitty_commands h grs t = Some u"
    and "distinct (map fst (kitty_relative_parents (images t)))" and "acyclic (set (kitty_relative_parents (images t)))"
  shows "distinct (map fst (kitty_relative_parents (images u))) \<and> acyclic (set (kitty_relative_parents (images u))) \<and>
    (\<forall>child parent. kitty_relative_placement_would_cycle child parent (images u) \<longleftrightarrow>
      (parent, child) \<in> (set (kitty_relative_parents (images u)))\<^sup>*)"
proof -
  have "links_ok (links u)" using assms
  proof (induction grs arbitrary: t)
    case Nil
    then show ?case by (simp add: links_ok_def links_def)
  next
    case (Cons gr grs)
    then obtain v where v: "apply_kitty_graphics h gr t = Some v" "kitty_commands h grs v = Some u"
      by (auto simp: bind_eq_Some_conv)
    then have "links_ok (links v)" using kitty_command_links [of t h gr v] Cons by (simp add: links_ok_def links_def)
    with Cons(1) [OF v(2)] show ?case by (simp add: links_ok_def links_def)
  qed
  then show ?thesis
    using chain_reaches [of "links u" "[]"] by (simp add: links_ok_def links_def kitty_relative_placement_would_cycle_def)
qed

lemma kitty_params_simps:
  "parse_kitty_graphics_params (str_of ''a=d'') = params_default\<lparr>kp_action := Some 0x64\<rparr>"
  "parse_kitty_graphics_params (str_of ''a=p,P=1'') = params_default\<lparr>kp_action := Some 0x70, kp_parent_image_id := Some 1\<rparr>"
  "parse_kitty_graphics_params (str_of ''a=t,m=1'') = params_default\<lparr>kp_action := Some 0x74, kp_more_chunks := Some 1\<rparr>"
  "parse_kitty_graphics_params (str_of ''a=t'') = params_default\<lparr>kp_action := Some 0x74\<rparr>"
  by (simp_all add: parse_kitty_graphics_params_def str_of_def split_once_def set_kitty_param_def params_default_def
      parse_single_char_def parse_positive_u32_def Term_Graphics.positive_def parse_u32_def is_ascii_digit_def parse_unsigned_def
      parse_digits_upto_def u32_max_def)

definition demo_linked :: terminal where
  "demo_linked = upd_images (\<lambda>g. g\<lparr>enable_kitty_graphics := True, kitty_relative_parents := [((1, 1), (1, 2))]\<rparr>) (core demo_parser)"

theorem relative_placements_acyclic_witness:
  "\<exists>u. kitty_commands demo_host [str_of ''a=p,P=1'', str_of ''a=d''] demo_linked = Some u \<and>
     acyclic (set (kitty_relative_parents (images u)))"
proof -
  have no_data: "split_once 0x3B (str_of ''a=p,P=1'') = None" "split_once 0x3B (str_of ''a=d'') = None"
    by (simp_all add: split_once_def str_of_def)
  let ?t = "apply_kitty_graphics_placement (params_default\<lparr>kp_action := Some 0x70, kp_parent_image_id := Some 1\<rparr>) demo_linked"
  have "?t = demo_linked"
    by (simp add: apply_kitty_graphics_placement_def kitty_image_id_from_params_def params_default_def)
  then have "kitty_commands demo_host [str_of ''a=p,P=1'', str_of ''a=d''] demo_linked =
      Some (apply_kitty_graphics_delete (params_default\<lparr>kp_action := Some 0x64\<rparr>) demo_linked)"
    by (simp add: apply_kitty_graphics_def no_data opt_or_def kitty_params_simps Let_def)
      (simp add: params_default_def demo_linked_def upd_images_def)
  moreover have "kitty_relative_parents (images demo_linked) = [((1, 1), (1, 2))]"
    by (simp add: demo_linked_def upd_images_def)
  then have "acyclic (set (kitty_relative_parents (images (apply_kitty_graphics_delete (params_default\<lparr>kp_action := Some 0x64\<rparr>) demo_linked))))"
    using relative_placements_acyclic [OF \<open>kitty_commands _ _ _ = _\<close>] by (simp add: acyclic_insert wf_acyclic)
  ultimately show ?thesis by blast
qed

text \<open>
  C17: An upload sent in chunks, the first with the parameters and \<open>m=1\<close>, the next with \<open>m=1\<close> and the last
  with \<open>m=0\<close>, does exactly what the same upload in one command does, wherever its data is cut.
\<close>

theorem chunked_upload_equivalent:
  assumes "enable_kitty_graphics (images t)" and "pending_upload (images t) = None" and "0x3B \<notin> set c" and "0x3B \<notin> set c1"
    and "p = parse_kitty_graphics_params c" and "parse_kitty_graphics_params c1 = p\<lparr>kp_more_chunks := None\<rparr>"
    and "kp_more_chunks p = Some 1" and "kp_image_id p = None \<or> kp_image_number p = None" and "kp_action p \<noteq> Some 0x71"
    and "start_kitty_graphics_upload p d = Inr u"
  shows "kitty_commands h ((c @ 0x3B # d) # map (\<lambda>d. str_of ''m=1;'' @ d) ds @ [str_of ''m=0;'' @ e]) t =
    apply_kitty_graphics h (c1 @ 0x3B # d @ concat ds @ e) t"
proof -
  have "str_of ''m=1;'' @ x = next_chunk x" "str_of ''m=0;'' @ x = final_chunk x" for x
    by (simp_all add: next_chunk_def final_chunk_def command_def str_of_def)
  then show ?thesis using upload_in_chunks [OF assms, of h ds e] by (simp add: command_def)
qed

theorem chunked_upload_equivalent_witness:
  "kitty_commands demo_host [str_of ''a=t,m=1'' @ [0x3B, 1], str_of ''m=1;'' @ [2, 3], str_of ''m=0;'' @ [4]] demo_linked =
     apply_kitty_graphics demo_host (str_of ''a=t'' @ [0x3B, 1, 2, 3, 4]) demo_linked"
proof -
  let ?p = "parse_kitty_graphics_params (str_of ''a=t,m=1'')"
  obtain u where u: "start_kitty_graphics_upload ?p [1] = Inr u"
    by (simp add: kitty_params_simps start_kitty_graphics_upload_def upload_action_of_def opt_or_def params_default_def)
  have pending: "enable_kitty_graphics (images demo_linked)" "pending_upload (images demo_linked) = None"
    by (simp_all add: demo_linked_def upd_images_def demo_parser_def parser_new_def new_with_default_cursor_style_def
        graphics_new_def)
  have "0x3B \<notin> set (str_of ''a=t,m=1'')" "0x3B \<notin> set (str_of ''a=t'')" by (simp_all add: str_of_def)
  from chunked_upload_equivalent [OF pending this refl _ _ _ _ u, of demo_host "[[2, 3]]" "[4]"]
  show ?thesis by (simp add: kitty_params_simps params_default_def)
qed

end
