(* ===== verification/Term_Reflow_Text.thy ===== *)
theory Term_Reflow_Text
  imports Term_Reflow_Laws
begin

text \<open>
  Reflow keeps the text of a screen. The abstraction of history and screen is the list of logical lines
  without the blank cells at their ends; it is what the code collects before it wraps the lines again.
\<close>

section \<open>Blank ends\<close>

definition strip :: "cell list \<Rightarrow> cell list" where
  "strip xs = rev (dropWhile (\<lambda>c. c = cell_default) (rev xs))"

abbreviation blanks :: "nat \<Rightarrow> cell list" where
  "blanks n \<equiv> replicate n cell_default"

abbreviation narrow :: "cell list \<Rightarrow> bool" where
  "narrow xs \<equiv> \<forall>c \<in> set xs. cell_columns c \<le> 1"

lemma strip_append_default [simp]: "strip (xs @ blanks n) = strip xs"
  unfolding strip_def rev_append rev_replicate by (induction n) simp_all

lemma strip_blanks [simp]: "strip (blanks n) = []"
  using strip_append_default [of "[]" n] by (simp add: strip_def)

lemma strip_id: "cell_default \<notin> set xs \<Longrightarrow> strip xs = xs"
  by (cases xs rule: rev_cases) (auto simp: strip_def)

lemma strip_snoc: "c \<noteq> cell_default \<Longrightarrow> strip (xs @ [c]) = xs @ [c]"
  by (simp add: strip_def)

lemma strip_decomp: "xs = strip xs @ blanks (length xs - length (strip xs))"
proof (induction xs rule: rev_induct)
  case (snoc x xs)
  show ?case
  proof (cases "x = cell_default")
    case True
    then have s: "strip (xs @ [x]) = strip xs" using strip_append_default [of xs 1] by simp
    have "length (strip xs) \<le> length xs" using length_dropWhile_le [of _ "rev xs"] by (simp add: strip_def)
    then show ?thesis using snoc True unfolding s
      by (metis Suc_diff_le append_assoc length_append_singleton replicate_Suc replicate_append_same)
  qed (simp add: strip_snoc)
qed (simp add: strip_def)

lemma strip_core: "cell_default \<notin> set cs \<Longrightarrow> strip (cs @ blanks n) = cs"
  by (simp add: strip_id)

lemma default_columns [simp]: "cell_columns cell_default = 1"
  by (simp add: cell_columns_def)

lemma trim_narrow: "narrow xs \<Longrightarrow> trim_reflow_padding xs = strip xs"
proof -
  assume n: "narrow xs"
  let ?p = "length (takeWhile (\<lambda>c. c = cell_default) (rev xs))"
  have l: "length xs = length (dropWhile (\<lambda>c. c = cell_default) (rev xs)) + ?p"
    by (metis add.commute length_append length_rev takeWhile_dropWhile_id)
  have s: "take (length xs - ?p) xs = strip xs"
    unfolding strip_def using l by (metis add_diff_cancel_right' dropWhile_eq_drop rev_drop rev_rev_ident length_rev)
  have "(case nth_opt xs i of None \<Rightarrow> 0 | Some c \<Rightarrow> cell_columns c - 1) = 0" for i
    using n by (auto simp: nth_opt_def)
  then show ?thesis using s by (cases "?p = 0") (simp_all add: trim_reflow_padding_def Let_def)
qed

section \<open>Rows of a line\<close>

text \<open>
  A row as it is collected: its cells without the blank end, perhaps followed by blanks up to the cursor. Rows of
  which all but the last are full give back their line.
\<close>

definition taken_row :: "nat \<Rightarrow> cell list \<Rightarrow> cell list \<Rightarrow> bool" where
  "taken_row w r t \<longleftrightarrow> (\<exists>e. t = strip r @ blanks e \<and> (length r = w \<longrightarrow> cell_default \<notin> set r \<longrightarrow> e = 0))"

lemma taken_rows:
  assumes "concat rows = cs @ blanks d" and "cell_default \<notin> set cs" and "list_all2 (taken_row w) rows ts"
    and "\<forall>r \<in> set (butlast rows). length r = w"
  shows "\<exists>m. concat ts = cs @ blanks m"
  using assms
proof (induction rows arbitrary: cs d ts)
  case Nil
  then show ?case by (auto intro: exI [of _ 0])
next
  case (Cons r rows)
  then obtain t ts' where ts: "ts = t # ts'" "taken_row w r t" "list_all2 (taken_row w) rows ts'" by (auto simp: list_all2_Cons1)
  then obtain e where e: "t = strip r @ blanks e" "length r = w \<Longrightarrow> cell_default \<notin> set r \<Longrightarrow> e = 0" by (auto simp: taken_row_def)
  have later: "\<forall>r \<in> set (butlast rows). length r = w" using Cons(5) by (cases rows) auto
  show ?case
  proof (cases "length r \<le> length cs")
    case True
    then obtain cs' where cs: "cs = r @ cs'" and rest: "concat rows = cs' @ blanks d"
      using Cons(2) by (auto simp: append_eq_append_conv_if append_eq_conv_conj) (metis append_take_drop_id)
    obtain m where m: "concat ts' = cs' @ blanks m" using Cons(1) [OF rest _ ts(3) later] Cons(3) cs by auto
    have r: "strip r = r" "cell_default \<notin> set r" using Cons(3) cs by (auto intro: strip_id)
    show ?thesis
    proof (cases "rows = []")
      case True
      then show ?thesis using ts e r cs rest by (auto intro: exI [of _ e])
    next
      case False
      then have "e = 0" using e(2) r(2) Cons(5) by simp
      then show ?thesis using m cs ts e r by simp
    qed
  next
    case False
    then have "r @ concat rows = cs @ blanks d" using Cons(2) by simp
    then obtain us where r: "r = cs @ us" and us: "us @ concat rows = blanks d"
      using False by (auto simp: append_eq_append_conv2)
    then obtain k where k: "us = blanks k" "concat rows = blanks (d - k)"
      by (metis append_eq_conv_conj drop_replicate length_replicate take_replicate min_def)
    have "\<exists>m. concat ts' = [] @ blanks m" by (rule Cons(1) [OF _ _ ts(3) later]) (use k in auto)
    then obtain m where m: "concat ts' = blanks m" by auto
    have "strip r = cs" using r k Cons(3) by (simp add: strip_id)
    then show ?thesis using m ts e by (auto simp: replicate_add [symmetric])
  qed
qed

text \<open>A line of narrow cells is cut into full rows and a last one.\<close>

definition cut_rows :: "nat \<Rightarrow> cell list list \<Rightarrow> bool" where
  "cut_rows w rows \<longleftrightarrow> rows \<noteq> [] \<and> (\<forall>r \<in> set (butlast rows). length r = w) \<and> (\<forall>r \<in> set rows. length r \<le> w)"

definition full_rows :: "nat \<Rightarrow> reflow_state \<Rightarrow> bool" where
  "full_rows w s \<longleftrightarrow> rs_overflow s = [] \<and> (\<forall>r \<in> set (rs_rows s). length (rr_cells r) = w \<and> rr_overflow r = [])"

lemma place_cursor_full [simp]: "full_rows w (place_cursor b n s) = full_rows w s"
  by (simp add: full_rows_def place_cursor_def)

lemma flush_full: "full_rows w s \<Longrightarrow> length (rs_row s) = w \<Longrightarrow> full_rows w (flush_row s)"
  by (auto simp: full_rows_def flush_row_def)

lemma narrow_glyph:
  assumes "narrow cells" and "index < length cells"
  shows "glyph_width cells index = 1" "source_width cells index = 1" "glyph_cells cells index = [cells ! index]"
proof -
  have "cell_columns (cells ! index) \<le> 1" using assms by simp
  then show g: "glyph_width cells index = 1" by (simp add: glyph_width_def)
  show s: "source_width cells index = 1" using assms by (simp add: source_width_def g)
  show "glyph_cells cells index = [cells ! index]" using assms by (simp add: glyph_cells_def g s take_Suc_conv_app_nth)
qed

lemma narrow_whole: "narrow cells \<Longrightarrow> whole_from cells index"
proof (induction cells index rule: whole_from.induct)
  case (1 cells index)
  then show ?case using narrow_glyph(1) [of cells index] by (simp add: whole_from.simps [of cells index])
qed

lemma turn_full:
  assumes "full_rows w s" "state_ok w s" "0 < w" "narrow cells" "index < length cells"
  shows "full_rows w (reflow_turn cells w co index s)"
proof -
  note g = narrow_glyph [OF assms(4,5)]
  define s1 where "s1 = place_cursor (co = Some index) (length (rs_row s)) s"
  define s2 where "s2 = (if rs_row s1 \<noteq> [] \<and> length (rs_row s1) + 1 > w then flush_row s1 else s1)"
  have "length (rs_row s1) \<le> w" using assms(2) by (simp add: s1_def state_ok_def)
  then have s2: "full_rows w s2" using assms(1) by (auto simp: s2_def s1_def intro!: flush_full)
  have o: "min 1 w = 1" using assms(3) by simp
  define s3 where "s3 = place_cursor (case co of None \<Rightarrow> False | Some c \<Rightarrow> index < c \<and> c < index + 1)
    (length (rs_row s2) + min (the co - index) 1) s2"
  define s4 where "s4 = s3\<lparr>rs_row := rs_row s3 @ take 1 [cells ! index], rs_overflow := rs_overflow s3 @ drop 1 [cells ! index]\<rparr>"
  define s5 where "s5 = place_cursor (co = Some (index + 1)) (length (rs_row s4)) s4"
  have t: "reflow_turn cells w co index s = (if length (rs_row s5) = w \<and> index + 1 < length cells then flush_row s5 else s5)"
    unfolding s5_def s4_def s3_def s2_def s1_def reflow_turn_def Let_def g o by (rule refl)
  have "full_rows w s4" using s2 by (simp add: full_rows_def s4_def s3_def)
  then have "full_rows w s5" by (simp add: s5_def)
  then show ?thesis unfolding t by (auto intro!: flush_full)
qed

lemma row_eta: "rr_overflow r = [] \<Longrightarrow> \<lparr>rr_cells = rr_cells r, rr_overflow = []\<rparr> = r"
  by (cases r) simp

lemma rows_eta: "\<forall>r \<in> set rows. rr_overflow r = [] \<Longrightarrow> map (\<lambda>r. \<lparr>rr_cells = r, rr_overflow = []\<rparr>) (map rr_cells rows) = rows"
  by (induction rows) (auto simp: row_eta)

lemma loop_full:
  assumes "full_rows w s" "state_ok w s" "0 < w" "narrow cells"
  shows "full_rows w (reflow_loop cells w co index s)"
  using assms
proof (induction cells w co index s rule: reflow_loop.induct)
  case (1 cells w co index s)
  then show ?case using turn_full [of w s cells index co] turn_ok(1) [of w s index cells co]
    by (cases "index < length cells") (simp_all add: reflow_loop.simps [of cells w co index])
qed

lemma reflow_rows:
  assumes "0 < w" and "narrow cells"
  shows "\<exists>rows. fst (reflow_logical_line cells w co) = map (\<lambda>r. \<lparr>rr_cells = r, rr_overflow = []\<rparr>) rows \<and>
    cut_rows w rows \<and> concat rows = cells"
proof (cases "cells = []")
  case True
  then show ?thesis by (intro exI [of _ "[[]]"]) (simp add: reflow_logical_line_def cut_rows_def)
next
  case False
  let ?s = "reflow_loop cells w co 0 reflow_state_new" and ?cut = "map rr_cells"
  have full: "full_rows w ?s"
    by (rule loop_full [OF _ state_new_ok(1) assms]) (simp add: full_rows_def reflow_state_new_def)
  have ok: "state_ok w ?s" using loop_cells [OF state_new_ok(1) assms(1) narrow_whole [OF assms(2)], of co] by blast
  let ?rows = "rs_rows ?s @ [\<lparr>rr_cells = rs_row ?s, rr_overflow = rs_overflow ?s\<rparr>]"
  have f: "fst (reflow_logical_line cells w co) = ?rows"
    using assms(1) False by (simp add: reflow_logical_line_def Let_def flush_row_def)
  have no_overflow: "\<forall>r \<in> set ?rows. rr_overflow r = []" using full by (auto simp: full_rows_def)
  note eta = rows_eta [OF no_overflow]
  have "cut_rows w (?cut ?rows)" using full ok by (auto simp: cut_rows_def full_rows_def state_ok_def)
  moreover have "flat ?rows = concat (?cut ?rows)" using no_overflow by (auto simp: flat_def row_all_def intro!: arg_cong [where f = concat])
  then have "concat (?cut ?rows) = cells"
    using reflow_line_cells(1) [OF assms(1) narrow_whole [OF assms(2)] False, of co] f by simp
  ultimately show ?thesis unfolding f using eta by metis
qed

section \<open>Joining rows to lines\<close>

type_synonym text_row = "cell list \<times> bool"
type_synonym groups = "cell list list \<times> cell list \<times> bool"

fun group_row :: "text_row \<Rightarrow> groups \<Rightarrow> groups" where
  "group_row (cells, wr) (ls, l, has) = (if has \<and> \<not> wr then (ls @ [l], cells, True) else (ls, l @ cells, True))"

fun groups_end :: "groups \<Rightarrow> cell list list" where
  "groups_end (ls, l, has) = (if has then ls @ [l] else ls)"

definition joined :: "text_row list \<Rightarrow> cell list list" where
  "joined rows = groups_end (fold group_row rows ([], [], False))"

definition flags :: "'a list \<Rightarrow> ('a \<times> bool) list" where
  "flags rs = map (\<lambda>(i, r). (r, i \<noteq> 0)) (enumerate 0 rs)"

lemma flags_Cons: "flags (r # rs) = (r, False) # map (\<lambda>r. (r, True)) rs"
proof -
  have "map (\<lambda>(i, r). (r, i \<noteq> 0)) (enumerate (Suc n) rs) = map (\<lambda>r. (r, True)) rs" for n
    by (induction rs arbitrary: n) simp_all
  then show ?thesis by (simp add: flags_def)
qed

lemma flags_Nil [simp]: "flags [] = []"
  by (simp add: flags_def)

lemma flags_length [simp]: "length (flags rs) = length rs"
  by (simp add: flags_def)

lemma flags_fst [simp]: "map fst (flags rs) = rs"
  by (cases rs) (simp_all add: flags_Cons o_def)

lemma flags_map: "map (\<lambda>(r, b). (h r, b)) (flags rs) = flags (map h rs)"
  by (cases rs) (simp_all add: flags_Cons o_def)

lemma flags_take: "take k (flags rs) = flags (take k rs)"
  by (cases rs; cases k) (simp_all add: flags_Cons take_map)

lemma fold_wrapped: "fold group_row (map (\<lambda>r. (r, True)) rs) (ls, l, True) = (ls, l @ concat rs, True)"
  by (induction rs arbitrary: l) simp_all

lemma fold_flags:
  "rs \<noteq> [] \<Longrightarrow> has \<or> l = [] \<Longrightarrow> fold group_row (flags rs) (ls, l, has) = ((if has then ls @ [l] else ls), concat rs, True)"
  by (cases rs) (auto simp: flags_Cons fold_wrapped)

lemma fold_lines:
  assumes "\<forall>rs \<in> set rss. rs \<noteq> []" and "has \<or> l = []"
  shows "groups_end (fold group_row (concat (map flags rss)) (ls, l, has)) = (if has then ls @ [l] else ls) @ map concat rss"
  using assms
proof (induction rss arbitrary: ls l has)
  case (Cons rs rss)
  then show ?case by (simp add: fold_flags)
qed simp

lemma joined_lines: "\<forall>rs \<in> set rss. rs \<noteq> [] \<Longrightarrow> joined (concat (map flags rss)) = map concat rss"
  using fold_lines [of rss False "[]" "[]"] by (simp add: joined_def)

text \<open>What the code collects, without the cursor.\<close>

definition collected :: "line_collector \<Rightarrow> groups" where
  "collected s = (map ll_cells (lc_lines s), lc_line s, lc_has_line s)"

definition history_text :: "scrollback_line \<Rightarrow> text_row" where
  "history_text l = (trim_reflow_padding (line_cells l @ line_overflow l), line_wrapped l)"

definition grid_text :: "terminal_grid \<Rightarrow> nat \<Rightarrow> nat \<Rightarrow> nat \<Rightarrow> cell list" where
  "grid_text g crow ccolumn row =
     (let p = cells_with_reflow_overflow row g; c = trim_reflow_padding p; u = take (ccolumn + 1) p in
      if row = crow \<and> length c < length u then c @ drop (length c) u else c)"

lemma collected_history: "collected (collect_history_line l s) = group_row (history_text l) (collected s)"
  by (simp add: collected_def collect_history_line_def history_text_def start_line_def finish_line_def Let_def)

lemma collected_grid:
  "collected (collect_grid_row g crow ccolumn row s) = group_row (grid_text g crow ccolumn row, grid_row_wrapped row g) (collected s)"
  by (cases "row = crow") (simp_all add: collected_def collect_grid_row_def grid_text_def start_line_def finish_line_def Let_def)

lemma collected_fold:
  "(\<And>x s. collected (f x s) = group_row (h x) (collected s)) \<Longrightarrow> collected (fold f xs s) = fold group_row (map h xs) (collected s)"
  by (induction xs arbitrary: s) simp_all

definition text_rows :: "scrollback_line list \<Rightarrow> terminal_grid \<Rightarrow> nat \<Rightarrow> nat \<Rightarrow> text_row list" where
  "text_rows history g crow ccolumn = map history_text history @
     map (\<lambda>row. (grid_text g crow ccolumn row, grid_row_wrapped row g)) [0 ..< relevant_grid_rows g crow]"

lemma logical_cells: "map ll_cells (logical_lines history g crow ccolumn) = joined (text_rows history g crow ccolumn)"
proof -
  let ?s = "fold (collect_grid_row g crow ccolumn) [0 ..< relevant_grid_rows g crow] (fold collect_history_line history collector_new)"
  have "collected ?s = fold group_row (text_rows history g crow ccolumn) ([], [], False)"
    by (simp add: collected_fold [OF collected_grid] collected_fold [OF collected_history] text_rows_def)
      (simp add: collected_def collector_new_def)
  moreover have "map ll_cells (lc_lines (if lc_has_line ?s then finish_line ?s else ?s)) = groups_end (collected ?s)"
    by (simp add: collected_def finish_line_def)
  ultimately show ?thesis by (simp add: logical_lines_def Let_def joined_def)
qed

section \<open>The rebuilt screen\<close>

definition rebuilt_row :: "nat \<Rightarrow> usize \<Rightarrow> reflow_row \<times> bool \<Rightarrow> grid_row" where
  "rebuilt_row w sq rw = \<lparr>row_cells = vec_resize w cell_default (rr_cells (fst rw)), reflow_overflow = rr_overflow (fst rw),
     row_wrapped = snd rw, last_change_seqno = sq\<rparr>"

lemma put_cells:
  assumes "row < length (grid_rows g)" and "n + length cs = length (row_cells (grid_rows g ! row))"
  shows "fold (\<lambda>(column, c) g. snd (grid_set row column c g)) (enumerate n cs) g =
    (if cs = [] then g else g\<lparr>grid_rows := (grid_rows g)[row := (grid_rows g ! row)
      \<lparr>row_cells := take n (row_cells (grid_rows g ! row)) @ cs, reflow_overflow := []\<rparr>]\<rparr>)"
  using assms
proof (induction cs arbitrary: n g)
  case (Cons c cs)
  let ?r = "grid_rows g ! row"
  let ?g = "g\<lparr>grid_rows := (grid_rows g)[row := ?r\<lparr>row_cells := (row_cells ?r)[n := c], reflow_overflow := []\<rparr>]\<rparr>"
  have g: "snd (grid_set row n c g) = ?g" using Cons(2,3) by (simp add: grid_set_def upd_row_def nth_opt_def)
  have "take (Suc n) ((row_cells ?r)[n := c]) = take n (row_cells ?r) @ [c]"
    using Cons(3) by (simp add: take_Suc_conv_app_nth)
  moreover have "cs = [] \<Longrightarrow> (row_cells ?r)[n := c] = take n (row_cells ?r) @ [c]"
    using Cons(3) by (simp add: upd_conv_take_nth_drop)
  ultimately show ?case using Cons(1) [of ?g "Suc n"] Cons(2,3) by (simp add: g)
qed simp

lemma put_row:
  assumes "row < length (grid_rows g)" and "length (row_cells (grid_rows g ! row)) = w"
  shows "put_reflowed_row w sq (row, rw) g = g\<lparr>grid_rows := (grid_rows g)[row := rebuilt_row w sq rw]\<rparr>"
proof -
  obtain r wr where rw: "rw = (r, wr)" by fastforce
  let ?cs = "vec_resize w cell_default (rr_cells r)"
  have "?cs = [] \<Longrightarrow> row_cells (grid_rows g ! row) = []" using assms(2) by (metis length_0_conv vec_resize_length)
  then show ?thesis using put_cells [OF assms(1), of 0 ?cs] assms
    by (cases "?cs = []"; cases "grid_rows g ! row") (simp_all add: rw put_reflowed_row_def set_row_last_change_seqno_def grid_set_row_wrapped_def
        set_reflow_overflow_def upd_row_def rebuilt_row_def)
qed

lemma put_rows:
  assumes "n + length rows \<le> length (grid_rows g)" and "\<forall>r \<in> set (grid_rows g). length (row_cells r) = w"
  shows "grid_rows (fold (put_reflowed_row w sq) (enumerate n rows) g) =
    take n (grid_rows g) @ map (rebuilt_row w sq) rows @ drop (n + length rows) (grid_rows g)"
  using assms
proof (induction rows arbitrary: n g)
  case (Cons rw rows)
  let ?g = "g\<lparr>grid_rows := (grid_rows g)[n := rebuilt_row w sq rw]\<rparr>"
  have n: "n < length (grid_rows g)" using Cons(2) by simp
  have g: "put_reflowed_row w sq (n, rw) g = ?g" using Cons(3) n by (intro put_row) auto
  have "\<forall>r \<in> set (grid_rows ?g). length (row_cells r) = w"
    using Cons(3) by (auto simp: rebuilt_row_def dest!: set_update_subset_insert [THEN subsetD])
  then show ?case using Cons(1) [of "Suc n" ?g] Cons(2) n by (simp add: g take_Suc_conv_app_nth)
qed simp

section \<open>The wrapped lines\<close>

definition row_text :: "reflow_row \<times> bool \<Rightarrow> text_row" where
  "row_text rw = (rr_cells (fst rw), snd rw)"

lemma wrap_lines_snoc: "wrap_lines w (ls @ [l]) = wrap_line w l (wrap_lines w ls)" "wrap_lines w [] = ([], None)"
  by (simp_all add: wrap_lines_def)

lemma wrap_line_rows: "fst (wrap_line w l s) = fst s @ flags (fst (reflow_logical_line (ll_cells l) w (ll_cursor_offset l)))"
  by (simp add: wrap_line_def flags_def split: prod.split)

lemma line_rows:
  assumes "0 < w" and "narrow (ll_cells l)"
  shows "\<exists>rows. map row_text (flags (fst (reflow_logical_line (ll_cells l) w (ll_cursor_offset l)))) = flags rows \<and>
    (\<forall>rw \<in> set (flags (fst (reflow_logical_line (ll_cells l) w (ll_cursor_offset l)))). rr_overflow (fst rw) = []) \<and>
    cut_rows w rows \<and> concat rows = ll_cells l"
proof -
  let ?row = "\<lambda>r. \<lparr>rr_cells = r, rr_overflow = []\<rparr>"
  obtain rows where rows: "fst (reflow_logical_line (ll_cells l) w (ll_cursor_offset l)) = map ?row rows"
    "cut_rows w rows" "concat rows = ll_cells l"
    using reflow_rows [OF assms] by fastforce
  have "map row_text (flags (map ?row rows)) = flags rows"
    by (simp add: flags_map [symmetric] row_text_def o_def split_def)
  moreover have "rw \<in> set (flags (map ?row rows)) \<Longrightarrow> rr_overflow (fst rw) = []" for rw
    by (auto simp: flags_map [symmetric])
  ultimately show ?thesis using rows by auto
qed

definition cut_line :: "nat \<Rightarrow> cell list list \<Rightarrow> logical_line_cells \<Rightarrow> bool" where
  "cut_line w rows l \<longleftrightarrow> cut_rows w rows \<and> concat rows = ll_cells l"

lemma wrapped_rows:
  assumes "0 < w" and "\<forall>l \<in> set ls. narrow (ll_cells l)"
  shows "\<exists>rss. map row_text (fst (wrap_lines w ls)) = concat (map flags rss) \<and>
    (\<forall>rw \<in> set (fst (wrap_lines w ls)). rr_overflow (fst rw) = []) \<and> list_all2 (cut_line w) rss ls"
  using assms(2)
proof (induction ls rule: rev_induct)
  case (snoc l ls)
  then obtain rss where rss: "map row_text (fst (wrap_lines w ls)) = concat (map flags rss)"
    "\<forall>rw \<in> set (fst (wrap_lines w ls)). rr_overflow (fst rw) = []" "list_all2 (cut_line w) rss ls" by auto
  obtain rows where "map row_text (flags (fst (reflow_logical_line (ll_cells l) w (ll_cursor_offset l)))) = flags rows"
    "\<forall>rw \<in> set (flags (fst (reflow_logical_line (ll_cells l) w (ll_cursor_offset l)))). rr_overflow (fst rw) = []" "cut_line w rows l"
    using line_rows [OF assms(1), of l] snoc(2) by (auto simp: cut_line_def)
  then show ?case using rss
    by (intro exI [of _ "rss @ [rows]"]) (auto simp: wrap_lines_snoc wrap_line_rows list_all2_appendI)
qed (simp add: wrap_lines_snoc)

text \<open>The cursor is on a row that the lines have.\<close>

definition cursor_within :: "reflow_state \<Rightarrow> bool" where
  "cursor_within s \<longleftrightarrow> (\<forall>r c. rs_cursor s = Some (r, c) \<longrightarrow> r \<le> length (rs_rows s))"

lemma cursor_within_simps [simp]:
  "cursor_within s \<Longrightarrow> cursor_within (place_cursor b n s)" "cursor_within s \<Longrightarrow> cursor_within (flush_row s)"
  "cursor_within (s\<lparr>rs_row := x, rs_overflow := y\<rparr>) = cursor_within s"
  by (auto simp: cursor_within_def place_cursor_def flush_row_def)

lemma turn_within: "cursor_within s \<Longrightarrow> cursor_within (reflow_turn cells w co index s)"
  unfolding reflow_turn_def Let_def by simp

lemma loop_within: "cursor_within s \<Longrightarrow> cursor_within (reflow_loop cells w co index s)"
proof (induction cells w co index s rule: reflow_loop.induct)
  case (1 cells w co index s)
  then show ?case using turn_within [of s cells w co index]
    by (cases "index < length cells") (simp_all add: reflow_loop.simps [of cells w co index])
qed

lemma line_cursor:
  "co \<noteq> None \<Longrightarrow> snd (reflow_logical_line cells w co) \<noteq> None"
  "snd (reflow_logical_line cells w co) = Some (r, c) \<Longrightarrow> r < length (fst (reflow_logical_line cells w co))"
proof -
  show "co \<noteq> None \<Longrightarrow> snd (reflow_logical_line cells w co) \<noteq> None"
    by (auto simp: reflow_logical_line_def Let_def or_option_def split: option.splits)
  have "cursor_within (reflow_loop cells w co 0 reflow_state_new)"
    by (rule loop_within) (simp add: cursor_within_def reflow_state_new_def)
  then show "snd (reflow_logical_line cells w co) = Some (r, c) \<Longrightarrow> r < length (fst (reflow_logical_line cells w co))"
    by (auto simp: reflow_logical_line_def Let_def or_option_def cursor_within_def flush_row_def split: option.splits if_splits)
qed

lemma wrap_line_cursor:
  "snd (wrap_line w l s) = (case snd (reflow_logical_line (ll_cells l) w (ll_cursor_offset l)) of None \<Rightarrow> snd s
     | Some (row, column) \<Rightarrow> Some (length (fst s) + row, column))"
  by (simp add: wrap_line_def split: prod.split option.split)

lemma wrapped_cursor:
  "snd (wrap_lines w ls) = Some (row, column) \<Longrightarrow> row < length (fst (wrap_lines w ls))"
proof (induction ls arbitrary: row column rule: rev_induct)
  case (snoc l ls)
  then show ?case using line_cursor(2) [of "ll_cells l" w "ll_cursor_offset l"]
    by (fastforce simp: wrap_lines_snoc wrap_line_cursor wrap_line_rows split: option.splits)
qed (simp add: wrap_lines_snoc)

lemma wrapped_has_cursor: "l \<in> set ls \<Longrightarrow> ll_cursor_offset l \<noteq> None \<Longrightarrow> snd (wrap_lines w ls) \<noteq> None"
proof (induction ls rule: rev_induct)
  case (snoc k ls)
  then show ?case using line_cursor(1) [of "ll_cursor_offset k" "ll_cells k" w]
    by (auto simp: wrap_lines_snoc wrap_line_cursor split: option.splits)
qed simp

lemma wrapped_last_cursor:
  assumes "snd (wrap_lines w (ls @ [l])) = Some (row, column)" and "ll_cursor_offset l \<noteq> None"
  shows "length (fst (wrap_lines w ls)) \<le> row"
  using assms line_cursor(1) [of "ll_cursor_offset l" "ll_cells l" w]
  by (auto simp: wrap_lines_snoc wrap_line_cursor split: option.splits)

section \<open>Relevant rows\<close>

lemma strip_Nil: "strip xs = [] \<longleftrightarrow> (\<forall>c \<in> set xs. c = cell_default)"
  by (simp add: strip_def dropWhile_eq_Nil_conv)

lemma trim_prefix: "\<exists>ys. trim_reflow_padding xs = strip xs @ ys"
proof -
  let ?p = "length (takeWhile (\<lambda>c. c = cell_default) (rev xs))"
  have l: "length xs = length (dropWhile (\<lambda>c. c = cell_default) (rev xs)) + ?p"
    by (metis add.commute length_append length_rev takeWhile_dropWhile_id)
  have s: "take (length xs - ?p) xs = strip xs"
    unfolding strip_def using l by (metis add_diff_cancel_right' dropWhile_eq_drop rev_drop rev_rev_ident length_rev)
  have "\<exists>k. trim_reflow_padding xs = take (length xs - ?p + k) xs"
    by (cases "?p = 0") (auto simp: trim_reflow_padding_def Let_def)
  then show ?thesis unfolding take_add s by blast
qed

lemma trim_content: "trim_reflow_padding xs \<noteq> [] \<Longrightarrow> strip (trim_reflow_padding xs) \<noteq> []"
proof -
  assume a: "trim_reflow_padding xs \<noteq> []"
  have "strip xs \<noteq> []"
  proof
    assume n: "strip xs = []"
    then have "narrow xs" by (auto simp: strip_Nil)
    then show False using a n by (simp add: trim_narrow)
  qed
  then have "\<exists>c \<in> set xs. c \<noteq> cell_default" by (simp add: strip_Nil)
  then have "\<exists>c \<in> set (strip xs). c \<noteq> cell_default" by (subst (asm) strip_decomp [of xs]) auto
  then show ?thesis using trim_prefix [of xs] by (auto simp: strip_Nil)
qed

lemma filter_upt_last: "x < n \<Longrightarrow> P x \<Longrightarrow> filter P [0 ..< n] \<noteq> [] \<and> x \<le> last (filter P [0 ..< n])"
  by (induction n) (auto simp: less_Suc_eq)

lemma filter_last: "filter P xs \<noteq> [] \<Longrightarrow> P (last (filter P xs)) \<and> last (filter P xs) \<in> set xs"
  using last_in_set [of "filter P xs"] by auto

abbreviation content_row :: "terminal_grid \<Rightarrow> nat \<Rightarrow> bool" where
  "content_row g row \<equiv> trim_reflow_padding (cells_with_reflow_overflow row g) \<noteq> []"

lemma relevant_content: "row < size_rows (grid_size g) \<Longrightarrow> content_row g row \<Longrightarrow> row < relevant_grid_rows g crow"
  using filter_upt_last [of row "size_rows (grid_size g)" "content_row g"] by (auto simp: relevant_grid_rows_def Let_def)

lemma relevant_cursor: "crow < size_rows (grid_size g) \<Longrightarrow> crow < relevant_grid_rows g crow"
  by (simp add: relevant_grid_rows_def Let_def)

lemma relevant_bound:
  assumes "\<And>row. row < size_rows (grid_size g) \<Longrightarrow> content_row g row \<Longrightarrow> row < k" and "crow < k"
  shows "relevant_grid_rows g crow \<le> k"
  using assms filter_last [of "content_row g" "[0 ..< size_rows (grid_size g)]"]
  by (auto simp: relevant_grid_rows_def Let_def Suc_le_eq min_le_iff_disj)

lemma relevant_last:
  assumes "crow < size_rows (grid_size g)"
  shows "\<exists>row. relevant_grid_rows g crow = Suc row \<and> (row = crow \<or> content_row g row)"
  using assms filter_last [of "content_row g" "[0 ..< size_rows (grid_size g)]"]
  by (auto simp: relevant_grid_rows_def Let_def max_def)

section \<open>The cursor and the last line\<close>

definition has_cursor :: "line_collector \<Rightarrow> bool" where
  "has_cursor s \<longleftrightarrow> lc_cursor s \<noteq> None \<or> (\<exists>l \<in> set (lc_lines s). ll_cursor_offset l \<noteq> None)"

lemma start_cursor: "has_cursor s \<Longrightarrow> has_cursor (start_line b s)"
  by (auto simp: has_cursor_def start_line_def finish_line_def)

lemma grid_row_cursor:
  "has_cursor s \<or> row = crow \<Longrightarrow> has_cursor (collect_grid_row g crow ccolumn row s)"
  using start_cursor [of s "grid_row_wrapped row g"]
  by (auto simp: collect_grid_row_def Let_def has_cursor_def)

lemma grid_rows_cursor:
  "has_cursor s \<or> crow \<in> set rows \<Longrightarrow> has_cursor (fold (collect_grid_row g crow ccolumn) rows s)"
  by (induction rows arbitrary: s) (auto intro: grid_row_cursor)

lemma grid_row_last:
  "lc_has_line (collect_grid_row g crow ccolumn row s)"
  "row = crow \<Longrightarrow> lc_cursor (collect_grid_row g crow ccolumn row s) \<noteq> None"
  "\<exists>xs ys. lc_line (collect_grid_row g crow ccolumn row s) = xs @ trim_reflow_padding (cells_with_reflow_overflow row g) @ ys"
proof -
  show "lc_has_line (collect_grid_row g crow ccolumn row s)"
    by (auto simp: collect_grid_row_def Let_def start_line_def finish_line_def)
  show "row = crow \<Longrightarrow> lc_cursor (collect_grid_row g crow ccolumn row s) \<noteq> None"
    by (simp add: collect_grid_row_def Let_def)
  have "\<exists>ys. lc_line (collect_grid_row g crow ccolumn row s) =
      lc_line (start_line (grid_row_wrapped row g) s) @ trim_reflow_padding (cells_with_reflow_overflow row g) @ ys"
    by (cases "row = crow") (simp_all add: collect_grid_row_def Let_def)
  then show "\<exists>xs ys. lc_line (collect_grid_row g crow ccolumn row s) = xs @ trim_reflow_padding (cells_with_reflow_overflow row g) @ ys"
    by blast
qed

lemma logical_lines_last:
  assumes "crow < size_rows (grid_size g)"
  shows "\<exists>ls l. logical_lines history g crow ccolumn = ls @ [l] \<and> (strip (ll_cells l) \<noteq> [] \<or> ll_cursor_offset l \<noteq> None) \<and>
    (\<exists>k \<in> set (ls @ [l]). ll_cursor_offset k \<noteq> None)"
proof -
  let ?s = "fold (collect_grid_row g crow ccolumn) [0 ..< relevant_grid_rows g crow] (fold collect_history_line history collector_new)"
  obtain row where row: "relevant_grid_rows g crow = Suc row" "row = crow \<or> content_row g row" using relevant_last [OF assms] by blast
  then obtain s where s: "?s = collect_grid_row g crow ccolumn row s" by simp
  note l = grid_row_last [where g = g and crow = crow and ccolumn = ccolumn and row = row and s = s, folded s]
  have "has_cursor ?s" by (rule grid_rows_cursor) (use relevant_cursor [OF assms] in simp)
  moreover have "strip (lc_line ?s) \<noteq> [] \<or> lc_cursor ?s \<noteq> None"
    using row(2) l(2,3) trim_content [of "cells_with_reflow_overflow row g"] by (auto simp: strip_Nil)
  ultimately show ?thesis using l(1) by (auto simp: logical_lines_def Let_def finish_line_def has_cursor_def)
qed

section \<open>Reading the rebuilt screen\<close>

definition plain_row :: "nat \<Rightarrow> reflow_row \<times> bool \<Rightarrow> bool" where
  "plain_row w rw \<longleftrightarrow> rr_overflow (fst rw) = [] \<and> length (rr_cells (fst rw)) \<le> w \<and> narrow (rr_cells (fst rw))"

lemma plain_cells:
  "plain_row w rw \<Longrightarrow> vec_resize w cell_default (rr_cells (fst rw)) @ rr_overflow (fst rw) =
    rr_cells (fst rw) @ blanks (w - length (rr_cells (fst rw)))"
  by (simp add: plain_row_def vec_resize_def)

lemma plain_trim:
  assumes "plain_row w rw"
  shows "trim_reflow_padding (rr_cells (fst rw) @ blanks n) = strip (rr_cells (fst rw))"
  using assms by (subst trim_narrow) (auto simp: plain_row_def)

abbreviation rebuilt_grid :: "terminal_size \<Rightarrow> usize \<Rightarrow> (reflow_row \<times> bool) list \<Rightarrow> terminal_grid" where
  "rebuilt_grid sz sq ys \<equiv> fold (put_reflowed_row (size_columns sz) sq) (enumerate 0 ys) (grid_new_with_seqno sz sq)"

lemma rebuilt_grid_size [simp]: "grid_size (rebuilt_grid sz sq ys) = sz"
  using grid_operation_fold [OF put_reflowed_operation, of "\<lambda>_. size_columns sz" "\<lambda>_. sq" "\<lambda>rw. rw" "enumerate 0 ys"]
  by (simp add: grid_operation_def)

lemma rebuilt_grid_rows:
  assumes "length ys \<le> size_rows sz"
  shows "grid_rows (rebuilt_grid sz sq ys) =
    map (rebuilt_row (size_columns sz) sq) ys @ replicate (size_rows sz - length ys) (blank_row (size_columns sz) cell_default sq)"
proof -
  have "grid_rows (grid_new_with_seqno sz sq) = replicate (size_rows sz) (blank_row (size_columns sz) cell_default sq)"
    by (simp add: grid_new_with_seqno_def map_replicate_const)
  then show ?thesis using assms by (subst put_rows) auto
qed

lemma rebuilt_read:
  assumes "length ys \<le> size_rows sz" and "i < length ys" and "plain_row (size_columns sz) (ys ! i)"
  shows "cells_with_reflow_overflow i (rebuilt_grid sz sq ys) =
      rr_cells (fst (ys ! i)) @ blanks (size_columns sz - length (rr_cells (fst (ys ! i))))"
    "grid_row_wrapped i (rebuilt_grid sz sq ys) = snd (ys ! i)"
  using assms(2) plain_cells [OF assms(3)]
  by (simp_all add: cells_with_reflow_overflow_def grid_row_wrapped_def rebuilt_grid_rows [OF assms(1)] nth_opt_def nth_append
      rebuilt_row_def)

lemma rebuilt_blank:
  assumes "length ys \<le> size_rows sz" and "length ys \<le> i" and "i < size_rows sz"
  shows "cells_with_reflow_overflow i (rebuilt_grid sz sq ys) = blanks (size_columns sz)"
  using assms by (simp add: cells_with_reflow_overflow_def rebuilt_grid_rows nth_opt_def nth_append blank_row_def)

lemma rebuilt_content:
  assumes "length ys \<le> size_rows sz" and "\<forall>rw \<in> set ys. plain_row (size_columns sz) rw" and "i < size_rows sz"
  shows "content_row (rebuilt_grid sz sq ys) i \<longleftrightarrow> i < length ys \<and> strip (rr_cells (fst (ys ! i))) \<noteq> []"
proof (cases "i < length ys")
  case True
  then have p: "plain_row (size_columns sz) (ys ! i)" using assms(2) by simp
  show ?thesis using True by (simp add: rebuilt_read [OF assms(1) True p] plain_trim [OF p])
next
  case False
  then show ?thesis using trim_narrow [of "blanks (size_columns sz)"] by (simp add: rebuilt_blank [OF assms(1) _ assms(3)])
qed

lemma taken_grid_row:
  assumes "length ys \<le> size_rows sz" and "i < length ys" and p: "plain_row (size_columns sz) (ys ! i)"
  shows "taken_row (size_columns sz) (rr_cells (fst (ys ! i))) (grid_text (rebuilt_grid sz sq ys) crow ccolumn i)"
proof -
  let ?w = "size_columns sz" and ?c = "rr_cells (fst (ys ! i))"
  let ?p = "?c @ blanks (?w - length ?c)"
  have pad: "?p = strip ?c @ blanks (length ?p - length (strip ?c))" using strip_decomp [of ?p] by simp
  then have "drop (length (strip ?c)) (take n ?p) = blanks (min (n - length (strip ?c)) (length ?p - length (strip ?c)))" for n
    by (metis (no_types) append_eq_conv_conj drop_take take_replicate)
  moreover have "length ?c = ?w \<Longrightarrow> cell_default \<notin> set ?c \<Longrightarrow> \<not> length (strip ?c) < length (take n ?p)" for n
    by (simp add: strip_id)
  ultimately show ?thesis
    unfolding taken_row_def grid_text_def rebuilt_read(1) [OF assms] plain_trim [OF p] Let_def
    by (metis append_Nil2 replicate_0)
qed

section \<open>The text is kept\<close>

definition taken_text :: "nat \<Rightarrow> text_row \<Rightarrow> text_row \<Rightarrow> bool" where
  "taken_text w rw t \<longleftrightarrow> snd t = snd rw \<and> taken_row w (fst rw) (fst t)"

lemma strip_taken: "taken_row w r (strip r)"
  by (auto simp: taken_row_def intro: exI [of _ 0])

lemma history_row_text:
  assumes "plain_row w rw"
  shows "taken_text w (row_text rw) (history_text (reflowed_history_line w sq rw))"
  using plain_cells [OF assms] plain_trim [OF assms]
  by (simp add: taken_text_def row_text_def history_text_def reflowed_history_line_def strip_taken)

lemma taken_history:
  "\<forall>rw \<in> set hs. plain_row w rw \<Longrightarrow>
    list_all2 (taken_text w) (map row_text hs) (map history_text (map (reflowed_history_line w sq) hs))"
  by (simp add: list_all2_conv_all_nth history_row_text)

lemma taken_grid:
  assumes "length ys \<le> size_rows sz" and "\<forall>rw \<in> set ys. plain_row (size_columns sz) rw" and "n \<le> length ys"
  shows "list_all2 (taken_text (size_columns sz)) (map row_text (take n ys))
    (map (\<lambda>row. (grid_text (rebuilt_grid sz sq ys) crow ccolumn row, grid_row_wrapped row (rebuilt_grid sz sq ys))) [0 ..< n])"
  using assms(2,3) taken_grid_row [OF assms(1)] rebuilt_read(2) [OF assms(1)]
  by (auto simp: list_all2_conv_all_nth taken_text_def row_text_def)

lemma taken_wrapped:
  "list_all2 (taken_text w) (map (\<lambda>r. (r, True)) rs) T \<Longrightarrow> \<exists>ts. T = map (\<lambda>r. (r, True)) ts \<and> list_all2 (taken_row w) rs ts"
proof (induction rs arbitrary: T)
  case (Cons r rs)
  then obtain u T' where u: "T = u # T'" "taken_text w (r, True) u" "list_all2 (taken_text w) (map (\<lambda>r. (r, True)) rs) T'"
    by (auto simp: list_all2_Cons1)
  then obtain t where T: "T = (t, True) # T'" "taken_row w r t" "list_all2 (taken_text w) (map (\<lambda>r. (r, True)) rs) T'"
    by (cases u) (simp add: taken_text_def)
  then obtain ts where "T' = map (\<lambda>r. (r, True)) ts" "list_all2 (taken_row w) rs ts" using Cons(1) by blast
  then show ?case using T by (intro exI [of _ "t # ts"]) simp
qed simp

lemma taken_flags:
  "list_all2 (taken_text w) (flags rs) T \<Longrightarrow> \<exists>ts. T = flags ts \<and> list_all2 (taken_row w) rs ts"
proof (cases rs)
  case (Cons r rs')
  assume "list_all2 (taken_text w) (flags rs) T"
  then obtain u T' where u: "T = u # T'" "taken_text w (r, False) u" "list_all2 (taken_text w) (map (\<lambda>r. (r, True)) rs') T'"
    using Cons by (auto simp: flags_Cons list_all2_Cons1)
  then obtain t where T: "T = (t, False) # T'" "taken_row w r t" "list_all2 (taken_text w) (map (\<lambda>r. (r, True)) rs') T'"
    by (cases u) (simp add: taken_text_def)
  then obtain ts where "T' = map (\<lambda>r. (r, True)) ts" "list_all2 (taken_row w) rs' ts" using taken_wrapped by blast
  then show ?thesis using T Cons by (intro exI [of _ "t # ts"]) (simp add: flags_Cons)
qed simp

lemma taken_lines:
  "list_all2 (taken_text w) (concat (map flags rss)) T \<Longrightarrow>
    \<exists>tss. T = concat (map flags tss) \<and> list_all2 (list_all2 (taken_row w)) rss tss"
proof (induction rss arbitrary: T)
  case (Cons rs rss)
  then obtain T1 T2 where T: "T = T1 @ T2" "list_all2 (taken_text w) (flags rs) T1" "list_all2 (taken_text w) (concat (map flags rss)) T2"
    by (auto simp: list_all2_append1)
  then obtain ts tss where "T1 = flags ts" "list_all2 (taken_row w) rs ts" "T2 = concat (map flags tss)"
    "list_all2 (list_all2 (taken_row w)) rss tss" using Cons(1) taken_flags by meson
  then show ?case using T by (intro exI [of _ "ts # tss"]) simp
qed simp

lemma taken_text_lines:
  assumes "list_all2 (taken_text w) (concat (map flags rss)) T" and "list_all2 (cut_line w) rss ls"
    and "\<forall>l \<in> set ls. cell_default \<notin> set (strip (ll_cells l))"
  shows "map strip (joined T) = map (\<lambda>l. strip (ll_cells l)) ls"
proof -
  obtain tss where tss: "T = concat (map flags tss)" "list_all2 (list_all2 (taken_row w)) rss tss"
    using taken_lines [OF assms(1)] by blast
  have len: "length tss = length rss" "length rss = length ls" using list_all2_lengthD [OF tss(2)] list_all2_lengthD [OF assms(2)] by simp_all
  have each: "tss ! i \<noteq> [] \<and> strip (concat (tss ! i)) = strip (ll_cells (ls ! i))" if i: "i < length ls" for i
  proof -
    have c: "cut_rows w (rss ! i)" "concat (rss ! i) = ll_cells (ls ! i)"
      using list_all2_nthD2 [OF assms(2) i] by (simp_all add: cut_line_def)
    have t: "list_all2 (taken_row w) (rss ! i) (tss ! i)" using list_all2_nthD [OF tss(2)] i len by simp
    have d: "cell_default \<notin> set (strip (ll_cells (ls ! i)))" using assms(3) i by simp
    obtain m where "concat (tss ! i) = strip (ll_cells (ls ! i)) @ blanks m"
      using taken_rows [OF strip_decomp [of "concat (rss ! i)"], of w "tss ! i"] t d c by (auto simp: cut_rows_def)
    moreover have "tss ! i \<noteq> []" using t c(1) by (auto simp: cut_rows_def)
    ultimately show ?thesis using d by (simp add: strip_id)
  qed
  then have "joined T = map concat tss" unfolding tss(1) using len by (intro joined_lines) (auto simp: in_set_conv_nth)
  then show ?thesis using each len by (auto intro: nth_equalityI)
qed

text \<open>Rows that are not collected again are blank ends of the last line.\<close>

lemma group_row_has: "\<exists>ls l. group_row x s = (ls, l, True)"
  by (cases x; cases s) simp

lemma joined_blank: "xs \<noteq> [] \<Longrightarrow> joined (xs @ replicate k ([], True)) = joined xs"
proof -
  assume "xs \<noteq> []"
  then obtain ls l where f: "fold group_row xs ([], [], False) = (ls, l, True)"
    using group_row_has by (cases xs rule: rev_cases) fastforce+
  have "fold group_row (replicate k ([], True)) (ls, l, True) = (ls, l, True)" by (induction k) simp_all
  then show ?thesis by (simp add: joined_def f)
qed

lemma flags_later: "0 < i \<Longrightarrow> i < length rs \<Longrightarrow> snd (flags rs ! i) = True"
  by (cases rs; cases i) (simp_all add: flags_Cons)

lemma first_row_content:
  assumes "cut_line w (r # rs) l" and "0 < w" and "strip (ll_cells l) \<noteq> []" and "cell_default \<notin> set (strip (ll_cells l))"
  shows "strip r \<noteq> []"
proof -
  have l: "ll_cells l = r @ concat rs" and c: "cut_rows w (r # rs)" using assms(1) by (simp_all add: cut_line_def)
  have "r \<noteq> []"
  proof
    assume r: "r = []"
    then have "rs = []" using c assms(2) by (cases rs) (auto simp: cut_rows_def)
    then show False using l r assms(3) by (simp add: strip_def)
  qed
  moreover have "hd (ll_cells l) = hd (strip (ll_cells l))"
    using strip_decomp [of "ll_cells l"] assms(3) by (metis hd_append2)
  ultimately have "hd r = hd (strip (ll_cells l))" "hd r \<in> set r" using l hd_in_set [of r] by auto
  moreover have "hd (strip (ll_cells l)) \<in> set (strip (ll_cells l))" using assms(3) by simp
  ultimately have "hd r \<noteq> cell_default" using assms(4) by metis
  then show ?thesis using \<open>hd r \<in> set r\<close> by (auto simp: strip_Nil)
qed

definition screen_text :: "main_buffers \<Rightarrow> cell list list" where
  "screen_text b = map strip (map ll_cells (logical_lines (mb_history b) (mb_grid b) (mb_cursor_row b) (mb_cursor_column b)))"

text \<open>The text of the rebuilt screen: all rows there are were collected, or were blank ends.\<close>

lemma rebuilt_text:
  fixes hs ys and sz :: terminal_size
  defines "w \<equiv> size_columns sz"
  assumes plain: "\<forall>rw \<in> set (hs @ ys). plain_row w rw" and fits: "length ys \<le> size_rows sz" and crow: "crow < length ys"
    and rows: "map row_text (hs @ ys) = concat (map flags rss) @ flags rl"
    and start: "length (concat rss) < length hs + relevant_grid_rows (rebuilt_grid sz sq ys) crow"
  shows "\<exists>T. list_all2 (taken_text w) (map row_text (hs @ ys)) T \<and>
    joined (text_rows (map (reflowed_history_line w sq) hs) (rebuilt_grid sz sq ys) crow ccolumn) = joined T"
proof -
  let ?g = "rebuilt_grid sz sq ys" and ?n = "relevant_grid_rows (rebuilt_grid sz sq ys) crow"
  let ?t = "text_rows (map (reflowed_history_line w sq) hs) ?g crow ccolumn"
  have content: "i < size_rows sz \<Longrightarrow> content_row ?g i \<longleftrightarrow> i < length ys \<and> strip (rr_cells (fst (ys ! i))) \<noteq> []" for i
    using rebuilt_content [OF fits] plain by (simp add: w_def)
  have n: "?n \<le> length ys" by (rule relevant_bound) (use content crow in auto)
  have "0 < ?n" using relevant_cursor [of crow ?g] crow fits by simp
  then have t: "?t \<noteq> []" by (simp add: text_rows_def)
  have "list_all2 (taken_text w) (map row_text hs @ map row_text (take ?n ys)) ?t"
    unfolding text_rows_def w_def
    by (rule list_all2_appendI [OF taken_history taken_grid]) (use plain fits n in \<open>auto simp: w_def\<close>)
  moreover have "list_all2 (taken_text w) (map row_text (drop ?n ys)) (replicate (length ys - ?n) ([], True))"
    unfolding list_all2_conv_all_nth
  proof (intro conjI allI impI)
    fix i assume "i < length (map row_text (drop ?n ys))"
    then have i: "?n + i < length ys" by simp
    then have "\<not> content_row ?g (?n + i)" using relevant_content [of "?n + i" ?g crow] fits by auto
    then have "strip (rr_cells (fst (ys ! (?n + i)))) = []" using content [of "?n + i"] i fits by simp
    moreover let ?j = "length hs + (?n + i)"
    have "snd (map row_text (hs @ ys) ! ?j)"
      unfolding rows using start i arg_cong [OF rows, of length]
      by (simp add: nth_append length_concat o_def flags_later)
    then have "snd (ys ! (?n + i))" using i by (simp add: row_text_def nth_append)
    ultimately show "taken_text w (map row_text (drop ?n ys) ! i) (replicate (length ys - ?n) ([], True) ! i)"
      using i strip_taken [of w "rr_cells (fst (ys ! (?n + i)))"] by (simp add: taken_text_def row_text_def)
  qed simp
  ultimately have "list_all2 (taken_text w) (map row_text (hs @ ys)) (?t @ replicate (length ys - ?n) ([], True))"
    using list_all2_appendI by (fastforce simp: map_append [symmetric] simp del: map_append)
  then show ?thesis using joined_blank [OF t] by metis
qed

lemma last_line_started:
  fixes sz :: terminal_size
  defines "w \<equiv> size_columns sz"
  assumes l: "cut_line w rl l" "0 < w" "cell_default \<notin> set (strip (ll_cells l))" "strip (ll_cells l) \<noteq> [] \<or> length (concat rss) \<le> row"
    and rows: "map row_text (hs @ ys) = concat (map flags rss) @ flags rl" and fits: "length ys \<le> size_rows sz"
    and plain: "\<forall>rw \<in> set ys. plain_row w rw" and crow: "row - length hs < length ys"
  shows "length (concat rss) < length hs + relevant_grid_rows (rebuilt_grid sz sq ys) (row - length hs)"
proof -
  let ?g = "rebuilt_grid sz sq ys" and ?m = "length (concat rss)"
  let ?n = "relevant_grid_rows ?g (row - length hs)"
  have cursor: "row - length hs < ?n" using relevant_cursor [of "row - length hs" ?g] crow fits by simp
  show ?thesis
  proof (cases "?m \<le> row \<or> ?m < length hs")
    case False
    then have content: "strip (ll_cells l) \<noteq> []" and m: "length hs \<le> ?m" using l(4) by auto
    obtain r rs where rl: "rl = r # rs" using l(1) by (cases rl) (auto simp: cut_line_def cut_rows_def)
    have r: "strip r \<noteq> []" using first_row_content [OF l(1) [unfolded rl] l(2) content l(3)] .
    have len: "length hs + length ys = ?m + length rl" using arg_cong [OF rows, of length] by (simp add: length_concat o_def)
    then have i: "?m - length hs < length ys" using m rl by simp
    have "map row_text (hs @ ys) ! ?m = (r, False)" unfolding rows by (simp add: nth_append length_concat o_def rl flags_Cons)
    moreover have "map row_text (hs @ ys) ! ?m = row_text (ys ! (?m - length hs))" using m i by (simp add: nth_append)
    ultimately have "rr_cells (fst (ys ! (?m - length hs))) = r" by (simp add: row_text_def)
    then have "content_row ?g (?m - length hs)" using rebuilt_content [OF fits, of "?m - length hs"] plain i r fits by (simp add: w_def)
    then have "?m - length hs < ?n" using relevant_content [of "?m - length hs" ?g] i fits by simp
    then show ?thesis using m by simp
  qed (use cursor in auto)
qed

lemma reflow_buffers:
  assumes "wrap_lines (size_columns sz) (logical_lines (mb_history b) (mb_grid b) (mb_cursor_row b) (mb_cursor_column b)) =
      (hs @ ys, Some (row, column))" and "length hs = length (hs @ ys) - size_rows sz"
    and "row - length hs < length ys" and "length ys \<le> size_rows sz" and "size_rows sz \<le> u16_max"
  shows "mb_history (reflow_main_screen sz sq b) = map (reflowed_history_line (size_columns sz) sq) hs"
    "mb_grid (reflow_main_screen sz sq b) = rebuilt_grid sz sq ys"
    "mb_cursor_row (reflow_main_screen sz sq b) = row - length hs"
proof -
  have h: "length (hs @ ys) - size_rows sz = length hs" using assms(2) by simp
  have "min (min u16_max (row - length hs)) (size_rows sz - 1) = row - length hs" using assms(3-5) by simp
  then show "mb_history (reflow_main_screen sz sq b) = map (reflowed_history_line (size_columns sz) sq) hs"
    "mb_grid (reflow_main_screen sz sq b) = rebuilt_grid sz sq ys"
    "mb_cursor_row (reflow_main_screen sz sq b) = row - length hs"
    unfolding reflow_main_screen_def assms(1) prod.case Let_def h by simp_all
qed

lemma wrapped_plain:
  assumes "map row_text rows = concat (map flags rss)" and "\<forall>rw \<in> set rows. rr_overflow (fst rw) = []"
    and "list_all2 (cut_line w) rss ls" and "\<forall>l \<in> set ls. narrow (ll_cells l)" and "rw \<in> set rows"
  shows "plain_row w rw"
proof -
  have "row_text rw \<in> set (concat (map flags rss))" using assms(1,5) by (metis image_eqI set_map)
  then obtain rs where rs: "rs \<in> set rss" "row_text rw \<in> set (flags rs)" by auto
  then have r: "rr_cells (fst rw) \<in> set rs" by (metis flags_fst fst_conv image_eqI row_text_def set_map)
  obtain l where l: "l \<in> set ls" "cut_line w rs l" using assms(3) rs(1) by (metis list_all2_conv_all_nth in_set_conv_nth)
  have "set (rr_cells (fst rw)) \<subseteq> set (ll_cells l)" using l(2) r by (fastforce simp: cut_line_def dest: arg_cong [where f = set])
  then have "narrow (rr_cells (fst rw))" using assms(4) l(1) by blast
  then show ?thesis using assms(2,5) l(2) r by (auto simp: plain_row_def cut_line_def cut_rows_def)
qed

lemma reflow_keeps_text:
  assumes size: "0 < size_columns sz" "0 < size_rows sz" "size_rows sz \<le> u16_max"
    and crow: "mb_cursor_row b < size_rows (grid_size (mb_grid b))"
    and lines: "\<forall>l \<in> set (logical_lines (mb_history b) (mb_grid b) (mb_cursor_row b) (mb_cursor_column b)).
      narrow (ll_cells l) \<and> cell_default \<notin> set (strip (ll_cells l))"
  shows "screen_text (reflow_main_screen sz sq b) = screen_text b"
proof -
  let ?w = "size_columns sz" and ?lines = "logical_lines (mb_history b) (mb_grid b) (mb_cursor_row b) (mb_cursor_column b)"
  obtain ls l where l: "?lines = ls @ [l]" "strip (ll_cells l) \<noteq> [] \<or> ll_cursor_offset l \<noteq> None"
      "\<exists>k \<in> set (ls @ [l]). ll_cursor_offset k \<noteq> None"
    using logical_lines_last [OF crow] by metis
  obtain rss where rss: "map row_text (fst (wrap_lines ?w ls)) = concat (map flags rss)"
      "\<forall>rw \<in> set (fst (wrap_lines ?w ls)). rr_overflow (fst rw) = []" "list_all2 (cut_line ?w) rss ls"
    using wrapped_rows [OF size(1), of ls] lines l(1) by auto
  obtain rl where rl: "map row_text (flags (fst (reflow_logical_line (ll_cells l) ?w (ll_cursor_offset l)))) = flags rl"
      "\<forall>rw \<in> set (flags (fst (reflow_logical_line (ll_cells l) ?w (ll_cursor_offset l)))). rr_overflow (fst rw) = []" "cut_line ?w rl l"
    using line_rows [OF size(1), of l] lines l(1) by (auto simp: cut_line_def)
  define rows where "rows = fst (wrap_lines ?w ?lines)"
  obtain row column where cursor: "snd (wrap_lines ?w ?lines) = Some (row, column)"
    using wrapped_has_cursor [of _ ?lines ?w] l(1,3) by (metis not_None_eq surj_pair)
  have row: "row < length rows" using wrapped_cursor [OF cursor] by (simp add: rows_def)
  define hs ys where "hs = take (length rows - size_rows sz) rows" and "ys = drop (length rows - size_rows sz) rows"
  have split: "rows = hs @ ys" "length hs = length rows - size_rows sz" "length ys \<le> size_rows sz" "row - length hs < length ys"
    using row size(2) by (auto simp: hs_def ys_def)
  have w: "wrap_lines ?w ?lines = (hs @ ys, Some (row, column))" using cursor split(1) by (simp add: rows_def prod_eq_iff)
  note b = reflow_buffers [OF w _ split(4,3) size(3), folded split(1), OF split(2), of sq]
  have texts: "map row_text rows = concat (map flags rss) @ flags rl" "map row_text rows = concat (map flags (rss @ [rl]))"
    using rss(1) rl(1) by (simp_all add: rows_def l(1) wrap_lines_snoc wrap_line_rows)
  have cut: "list_all2 (cut_line ?w) (rss @ [rl]) ?lines" using rss(3) rl(3) by (simp add: l(1) list_all2_appendI)
  have "\<forall>rw \<in> set rows. rr_overflow (fst rw) = []"
    using rss(2) rl(2) by (auto simp: rows_def l(1) wrap_lines_snoc wrap_line_rows)
  then have plain: "\<forall>rw \<in> set rows. plain_row ?w rw" using wrapped_plain [OF texts(2) _ cut] lines by blast
  have "length (concat rss) = length (fst (wrap_lines ?w ls))"
    using arg_cong [OF rss(1), of length] by (simp add: length_concat o_def)
  then have started: "strip (ll_cells l) \<noteq> [] \<or> length (concat rss) \<le> row"
    using l(1,2) wrapped_last_cursor [of ?w ls l row column] cursor by auto
  have start: "length (concat rss) < length hs + relevant_grid_rows (rebuilt_grid sz sq ys) (row - length hs)"
    using last_line_started [where hs = hs and ys = ys, OF rl(3) size(1) _ _ _ split(3) _ split(4)] started texts(1) split(1) plain lines l(1)
    by simp
  obtain T where T: "list_all2 (taken_text ?w) (map row_text rows) T"
      "joined (text_rows (map (reflowed_history_line ?w sq) hs) (rebuilt_grid sz sq ys) (row - length hs) (mb_cursor_column (reflow_main_screen sz sq b))) = joined T"
    using rebuilt_text [where hs = hs and ys = ys, OF _ split(3,4) _ start] plain texts(1) split(1) by metis
  have "map strip (joined T) = map (\<lambda>l. strip (ll_cells l)) ?lines"
    by (rule taken_text_lines [OF _ cut]) (use T(1) texts(2) lines in auto)
  then have "map strip (joined T) = screen_text b" by (simp add: screen_text_def o_def)
  then show ?thesis unfolding screen_text_def b logical_cells T(2) [symmetric] by simp
qed

end
