(* ===== verification/Term_Reflow_Properties.thy ===== *)
theory Term_Reflow_Properties
  imports Term_Reflow_Text
begin

text \<open>
  What a change of the width promises: the lines of history and screen keep their cells and the cursor its
  cell, and the text of a terminal stays the same.
\<close>

section \<open>The buffers of a terminal\<close>

definition buffers_of :: "terminal \<Rightarrow> main_buffers" where
  "buffers_of t = \<lparr>mb_history = scrollback t, mb_grid = grid t, mb_cursor_row = cursor_row t, mb_cursor_column = cursor_column t\<rparr>"

lemma reflowed_cursor:
  assumes "mb_cursor_row b < size_rows (grid_size (mb_grid b))" and "0 < size_columns sz" and "0 < size_rows sz"
  shows "mb_cursor_row (reflow_main_screen sz sq b) < size_rows sz" "mb_cursor_column (reflow_main_screen sz sq b) < size_columns sz"
proof -
  let ?ls = "logical_lines (mb_history b) (mb_grid b) (mb_cursor_row b) (mb_cursor_column b)"
  obtain l where "l \<in> set ?ls" "ll_cursor_offset l \<noteq> None" using logical_lines_last [OF assms(1)] by metis
  then have "snd (wrap_lines (size_columns sz) ?ls) \<noteq> None" by (rule wrapped_has_cursor)
  then obtain rows row column where "wrap_lines (size_columns sz) ?ls = (rows, Some (row, column))"
    by (cases "wrap_lines (size_columns sz) ?ls") auto
  then show "mb_cursor_row (reflow_main_screen sz sq b) < size_rows sz" "mb_cursor_column (reflow_main_screen sz sq b) < size_columns sz"
    using assms(2,3) by (simp_all add: reflow_main_screen_def Let_def)
qed

lemma reflow_outcome_cursor [simp]:
  "cursor_row (apply_main_reflow_outcome n t) = cursor_row t" "cursor_column (apply_main_reflow_outcome n t) = cursor_column t"
  by (simp_all add: apply_main_reflow_outcome_def Let_def upd_images_def split: option.splits)

lemma reflowed_buffers:
  assumes "main_screen t = None" and "length (mb_history (reflow_main_screen sz (seqno t) (buffers_of t))) \<le> scrollback_limit t"
  shows "buffers_of (reflow_terminal sz t) = reflow_main_screen sz (seqno t) (buffers_of t)"
  using assms by (simp add: reflow_terminal_def trim_scrollback_to_limit_def buffers_of_def Let_def)

lemma damaged_cursor: "cursor_row (record_damage d t) = cursor_row t" "cursor_column (record_damage d t) = cursor_column t"
  "grid (record_damage d t) = grid t"
  by (simp_all add: record_damage_def)

lemma resized_buffers:
  assumes "main_screen t = None" and "size_columns (grid_size (grid t)) \<noteq> size_columns sz"
    and "0 < size_columns sz" and "0 < size_rows sz" and "cursor_row t < size_rows (grid_size (grid t))"
    and "length (mb_history (reflow_main_screen sz (seqno t + 1) (buffers_of t))) \<le> scrollback_limit t"
  shows "buffers_of (snd (resize sz t)) = reflow_main_screen sz (seqno t + 1) (buffers_of t)"
proof -
  let ?b = "reflow_main_screen sz (seqno t + 1) (buffers_of t)"
  define u where "u = reflow_terminal sz (advance_seqno t)"
  have sz: "sz\<lparr>size_columns := max 1 (size_columns sz)\<rparr> = sz" using assms(3) by simp
  have u: "buffers_of u = ?b"
    using reflowed_buffers [of "advance_seqno t" sz] assms(1,6) by (simp add: u_def buffers_of_def advance_seqno_def)
  have f: "scrollback u = mb_history ?b" "grid u = mb_grid ?b" "cursor_row u = mb_cursor_row ?b" "cursor_column u = mb_cursor_column ?b"
    unfolding u [symmetric] by (simp_all add: buffers_of_def)
  have g: "grid_size (grid u) = sz" by (simp add: f)
  have c: "cursor_row u < size_rows sz" "cursor_column u < size_columns sz"
    using reflowed_cursor [of "buffers_of t" sz] assms(3-5) by (simp_all add: f) (simp_all add: buffers_of_def)
  have "buffers_of (snd (resize sz t)) = buffers_of u"
    unfolding resize_def Let_def sz using assms(2) c
    by (simp add: u_def [symmetric] buffers_of_def upd_images_def retain_saved_edits_def clamp_axis_def g damaged_cursor)
  then show ?thesis by (simp add: u)
qed

section \<open>What is shown\<close>

text \<open>
  A reading of history and screen that does not use the code's: the cells of every row, joined where a row continues the one
  before; of a line the cells that were written, without the empty lines at the end.
\<close>

definition written :: "cell list \<Rightarrow> cell list" where
  "written cells = filter (\<lambda>c. c \<noteq> cell_default) cells"

definition all_rows :: "main_buffers \<Rightarrow> text_row list" where
  "all_rows b = map (\<lambda>l. (line_cells l @ line_overflow l, line_wrapped l)) (mb_history b) @
     map (\<lambda>row. (cells_with_reflow_overflow row (mb_grid b), grid_row_wrapped row (mb_grid b))) [0 ..< size_rows (grid_size (mb_grid b))]"

definition without_empty_end :: "cell list list \<Rightarrow> cell list list" where
  "without_empty_end ls = rev (dropWhile (\<lambda>l. l = []) (rev ls))"

definition shown_lines :: "main_buffers \<Rightarrow> cell list list" where
  "shown_lines b = without_empty_end (map written (joined (all_rows b)))"

lemma written_simps [simp]: "written [] = []" "written (xs @ ys) = written xs @ written ys" "written (blanks n) = []"
  by (simp_all add: written_def)

lemma written_strip [simp]: "written (strip xs) = written xs"
  by (metis append_Nil2 strip_decomp written_simps(2,3))

lemma trim_take: "\<exists>n. trim_reflow_padding xs = take n xs \<and> length (strip xs) \<le> n"
proof -
  have l: "length (strip xs) = length xs - length (takeWhile (\<lambda>c. c = cell_default) (rev xs))"
    by (simp add: strip_def dropWhile_eq_drop)
  show ?thesis
  proof (cases "length (takeWhile (\<lambda>c. c = cell_default) (rev xs)) = 0")
    case True
    then show ?thesis using l by (intro exI [of _ "length xs"]) (simp add: trim_reflow_padding_def)
  next
    case False
    then show ?thesis by (auto simp: trim_reflow_padding_def Let_def l)
  qed
qed

lemma written_rest: "length (strip xs) \<le> n \<Longrightarrow> written (drop n xs) = []"
  by (subst strip_decomp) (simp add: written_def)

lemma written_trim [simp]: "written (trim_reflow_padding xs) = written xs"
proof -
  obtain n where n: "trim_reflow_padding xs = take n xs" "length (strip xs) \<le> n" using trim_take by blast
  have "written xs = written (take n xs) @ written (drop n xs)" by (metis append_take_drop_id written_simps(2))
  then show ?thesis using written_rest [OF n(2)] n(1) by simp
qed

lemma written_grid_text [simp]: "written (grid_text g crow ccolumn row) = written (cells_with_reflow_overflow row g)"
proof -
  let ?p = "cells_with_reflow_overflow row g" and ?c = "trim_reflow_padding (cells_with_reflow_overflow row g)"
  obtain n where n: "?c = take n ?p" "length (strip ?p) \<le> n" using trim_take by blast
  have "length (strip ?p) \<le> length ?c" using n strip_decomp [of ?p] by (metis length_append le_add1 length_take min.boundedI)
  then have "set (drop (length ?c) ?p) \<subseteq> {cell_default}" using written_rest [of ?p "length ?c"] by (auto simp: written_def filter_empty_conv)
  moreover have "set (drop (length ?c) (take m ?p)) \<subseteq> set (drop (length ?c) ?p)" for m by (simp add: drop_take set_take_subset)
  ultimately have "written (drop (length ?c) (take m ?p)) = []" for m by (auto simp: written_def filter_empty_conv)
  then show ?thesis by (auto simp: grid_text_def Let_def)
qed

section \<open>The two readings\<close>

lemma joined_written: "map written (joined rows) = joined (map (\<lambda>(c, b). (written c, b)) rows)"
proof -
  have "fold group_row (map (\<lambda>(c, b). (written c, b)) rows) (map written ls, written l, has) =
      (case fold group_row rows (ls, l, has) of (ls', l', has') \<Rightarrow> (map written ls', written l', has'))" for ls l has
  proof (induction rows arbitrary: ls l has)
    case (Cons r rows)
    obtain c b where r: "r = (c, b)" by fastforce
    show ?case using Cons [of "ls @ [l]" c True] Cons [of ls "l @ c" True] by (simp add: r)
  qed simp
  from this [of "[]" "[]" False] show ?thesis
    by (simp add: joined_def) (cases "fold group_row rows ([], [], False)"; simp)
qed

lemma joined_snoc:
  "joined (xs @ [([], b)]) = joined xs \<or> joined (xs @ [([], b)]) = joined xs @ [[]]"
proof -
  obtain ls l has where f: "fold group_row xs ([], [], False) = (ls, l, has)" by (metis prod_cases3)
  have "has \<or> l = []"
  proof (cases xs rule: rev_cases)
    case (snoc ys y)
    then show ?thesis using f group_row_has [of y "fold group_row ys ([], [], False)"] by auto
  qed (use f in simp)
  then show ?thesis by (auto simp: joined_def f)
qed

lemma empty_end: "without_empty_end (joined (xs @ map (\<lambda>b. ([], b)) bs)) = without_empty_end (joined xs)"
proof (induction bs rule: rev_induct)
  case (snoc b bs)
  have "without_empty_end (ls @ [[]]) = without_empty_end ls" for ls by (simp add: without_empty_end_def)
  then show ?case using joined_snoc [of "xs @ map (\<lambda>b. ([], b)) bs" b] snoc by auto
qed simp

lemma relevant_le: "relevant_grid_rows g crow \<le> size_rows (grid_size g)"
  by (simp add: relevant_grid_rows_def Let_def)

lemma screen_text_shown: "shown_lines b = without_empty_end (map written (screen_text b))"
proof -
  let ?g = "mb_grid b" and ?n = "relevant_grid_rows (mb_grid b) (mb_cursor_row b)"
  let ?row = "\<lambda>row. (written (cells_with_reflow_overflow row ?g), grid_row_wrapped row ?g)"
  let ?w = "\<lambda>(c, b). (written c, b)"
  let ?front = "map (\<lambda>l. (written (line_cells l @ line_overflow l), line_wrapped l)) (mb_history b) @ map ?row [0 ..< ?n]"
  have "map written (screen_text b) = map written (joined (text_rows (mb_history b) ?g (mb_cursor_row b) (mb_cursor_column b)))"
    by (simp add: screen_text_def flip: logical_cells)
  also have "\<dots> = joined ?front"
    by (simp add: joined_written text_rows_def history_text_def o_def)
  finally have front: "map written (screen_text b) = joined ?front" .
  have "written (cells_with_reflow_overflow row ?g) = []" if "row \<in> set [?n ..< size_rows (grid_size ?g)]" for row
  proof -
    have "\<not> content_row ?g row" using relevant_content [of row ?g "mb_cursor_row b"] that by auto
    then show ?thesis using written_trim [of "cells_with_reflow_overflow row ?g"] by simp
  qed
  then have below: "map ?row [?n ..< size_rows (grid_size ?g)] =
      map (\<lambda>b. ([], b)) (map (\<lambda>row. grid_row_wrapped row ?g) [?n ..< size_rows (grid_size ?g)])" by simp
  have "[0 ..< size_rows (grid_size ?g)] = [0 ..< ?n] @ [?n ..< size_rows (grid_size ?g)]"
    using relevant_le [of ?g "mb_cursor_row b"] by (metis le_add_diff_inverse upt_add_eq_append zero_le)
  then have "map ?w (all_rows b) = ?front @ map (\<lambda>b. ([], b)) (map (\<lambda>row. grid_row_wrapped row ?g) [?n ..< size_rows (grid_size ?g)])"
    unfolding below [symmetric] by (simp add: all_rows_def o_def)
  then show ?thesis by (simp only: shown_lines_def joined_written front empty_end)
qed

section \<open>The text of a terminal\<close>

text \<open>
  C23: A change of the width keeps the text of the main screen and its history. What the lines show, every line's written cells in order,
  is the same before and after, and so are the logical lines without blank ends, cell by cell. The lines are taken to have
  single-width cells and no cell inside that was never written, the history to have room for the rows, and the main screen to be shown.
\<close>

theorem resize_keeps_text:
  assumes "main_screen t = None" and "size_columns (grid_size (grid t)) \<noteq> size_columns sz"
    and "0 < size_columns sz" and "0 < size_rows sz" and "size_rows sz \<le> u16_max" and "cursor_row t < size_rows (grid_size (grid t))"
    and "\<forall>l \<in> set (logical_lines (scrollback t) (grid t) (cursor_row t) (cursor_column t)).
      (\<forall>c \<in> set (ll_cells l). cell_columns c \<le> 1) \<and> cell_default \<notin> set (strip (ll_cells l))"
    and "length (mb_history (reflow_main_screen sz (seqno t + 1) (buffers_of t))) \<le> scrollback_limit t"
  shows "shown_lines (buffers_of (snd (resize sz t))) = shown_lines (buffers_of t) \<and>
    screen_text (buffers_of (snd (resize sz t))) = screen_text (buffers_of t)"
proof -
  have "screen_text (buffers_of (snd (resize sz t))) = screen_text (buffers_of t)"
    using resized_buffers [OF assms(1-4,6,8)] reflow_keeps_text [OF assms(3-5), of "buffers_of t"] assms(6,7)
    by (simp add: buffers_of_def)
  then show ?thesis by (simp add: screen_text_shown)
qed

definition demo_row :: "str \<Rightarrow> bool \<Rightarrow> grid_row" where
  "demo_row s wr = \<lparr>row_cells = vec_resize 4 cell_default (map with_char s), reflow_overflow = [], row_wrapped = wr, last_change_seqno = 1\<rparr>"

definition demo_screen :: terminal where
  "demo_screen = (new_with_default_cursor_style \<lparr>size_columns = 4, size_rows = 2\<rparr> SteadyBlock)
     \<lparr>grid := \<lparr>grid_size = \<lparr>size_columns = 4, size_rows = 2\<rparr>,
        grid_rows = [demo_row [0x61, 0x62, 0x63, 0x64] False, demo_row [0x65] True]\<rparr>, cursor_row := 1, cursor_column := 1\<rparr>"

lemma demo_screen_simps [simp]:
  "main_screen demo_screen = None" "grid_size (grid demo_screen) = \<lparr>size_columns = 4, size_rows = 2\<rparr>"
  "cursor_row demo_screen = 1" "cursor_column demo_screen = 1" "scrollback demo_screen = []" "scrollback_limit demo_screen = 3500"
  "seqno demo_screen = 1"
  by (simp_all add: demo_screen_def new_with_default_cursor_style_def)

lemma with_char_simps [simp]: "with_char c \<noteq> cell_default" "cell_default \<noteq> with_char c" "cell_columns (with_char c) = 1"
  by (simp_all add: with_char_def set_text_def cell_default_def cell_columns_def)

lemma demo_cells:
  "cells_with_reflow_overflow 0 (grid demo_screen) = map with_char [0x61, 0x62, 0x63, 0x64]"
  "cells_with_reflow_overflow 1 (grid demo_screen) = [with_char 0x65, cell_default, cell_default, cell_default]"
  "grid_row_wrapped 0 (grid demo_screen) = False" "grid_row_wrapped 1 (grid demo_screen) = True"
  by (simp_all add: demo_screen_def demo_row_def cells_with_reflow_overflow_def grid_row_wrapped_def nth_opt_def vec_resize_def numeral_3_eq_3)

lemma demo_trimmed:
  "trim_reflow_padding (map with_char [0x61, 0x62, 0x63, 0x64]) = map with_char [0x61, 0x62, 0x63, 0x64]"
  "trim_reflow_padding [with_char 0x65, cell_default, cell_default, cell_default] = [with_char 0x65]"
  by (simp_all add: trim_reflow_padding_def Let_def nth_opt_def)

lemma demo_lines:
  "logical_lines [] (grid demo_screen) 1 1 =
    [\<lparr>ll_cells = map with_char [0x61, 0x62, 0x63, 0x64, 0x65] @ [cell_default], ll_cursor_offset = Some 5\<rparr>]"
proof -
  have r: "[0 ..< 2] = [0, 1::nat]" by (simp add: upt_rec)
  have "relevant_grid_rows (grid demo_screen) 1 = 2"
    by (simp add: relevant_grid_rows_def r demo_cells [unfolded One_nat_def] demo_cells demo_trimmed Let_def del: list.map)
  then show ?thesis
    by (simp add: logical_lines_def Let_def r collect_grid_row_def demo_cells [unfolded One_nat_def] demo_cells demo_trimmed demo_trimmed [simplified]
      start_line_def finish_line_def collector_new_def)
qed

lemma demo_wrapped:
  "wrap_lines 3 (logical_lines [] (grid demo_screen) 1 1) =
    ([(\<lparr>rr_cells = map with_char [0x61, 0x62, 0x63], rr_overflow = []\<rparr>, False),
      (\<lparr>rr_cells = map with_char [0x64, 0x65] @ [cell_default], rr_overflow = []\<rparr>, True)], Some (1, 2))"
  unfolding demo_lines
  by (simp add: wrap_lines_def wrap_line_def reflow_logical_line_def reflow_loop.simps reflow_turn_def glyph_cells_def glyph_width_def
      source_width_def place_cursor_def flush_row_def reflow_state_new_def or_option_def Let_def)

theorem resize_keeps_text_witness:
  "shown_lines (buffers_of (snd (resize \<lparr>size_columns = 3, size_rows = 2\<rparr> demo_screen))) = [map with_char [0x61, 0x62, 0x63, 0x64, 0x65]]"
proof -
  let ?b = "buffers_of demo_screen"
  have b: "?b = \<lparr>mb_history = [], mb_grid = grid demo_screen, mb_cursor_row = 1, mb_cursor_column = 1\<rparr>" by (simp add: buffers_of_def)
  have "mb_history (reflow_main_screen \<lparr>size_columns = 3, size_rows = 2\<rparr> (seqno demo_screen + 1) ?b) = []"
    unfolding reflow_main_screen_def b main_buffers.simps terminal_size.simps demo_wrapped prod.case by simp
  moreover have "cell_default \<notin> set (map with_char cs)" for cs by auto
  then have s: "strip (map with_char cs @ [cell_default]) = map with_char cs" for cs
    using strip_core [of "map with_char cs" 1] by simp
  ultimately have "shown_lines (buffers_of (snd (resize \<lparr>size_columns = 3, size_rows = 2\<rparr> demo_screen))) = shown_lines ?b \<and>
      screen_text (buffers_of (snd (resize \<lparr>size_columns = 3, size_rows = 2\<rparr> demo_screen))) = screen_text ?b"
    by (intro resize_keeps_text) (auto simp: demo_lines [unfolded One_nat_def] s s [of "[_, _, _, _, _]", simplified] u16_max_def)
  moreover have "screen_text ?b = [map with_char [0x61, 0x62, 0x63, 0x64, 0x65]]"
    unfolding screen_text_def b main_buffers.simps demo_lines using s [of "[0x61, 0x62, 0x63, 0x64, 0x65]"] by simp
  ultimately show ?thesis by (simp add: screen_text_shown written_def without_empty_end_def)
qed

text \<open>
  A change of the height alone does not reflow: rows that no longer fit are cut off at the bottom, whatever they hold, and are not
  moved to the history.
\<close>

theorem lower_height_discards_rows:
  assumes "term_ok t" and "main_screen t = None" and "size_columns sz = size_columns (grid_size (grid t))"
    and "0 < size_columns sz" and "size_rows sz \<le> size_rows (grid_size (grid t))"
  shows "grid_rows (grid (snd (resize sz t))) = take (size_rows sz) (grid_rows (grid t)) \<and> scrollback (snd (resize sz t)) = scrollback t"
proof -
  have sz: "sz\<lparr>size_columns := max 1 (size_columns sz)\<rparr> = sz" using assms(4) by simp
  have ok: "length (grid_rows (grid t)) = size_rows (grid_size (grid t))" "\<forall>r \<in> set (grid_rows (grid t)). length (row_cells r) = size_columns sz"
    using assms(1,3) by (simp_all add: term_ok_def grid_ok_def)
  then have "map (\<lambda>i. case nth_opt (grid_rows (grid t)) i of
           Some r \<Rightarrow> resize_columns (size_columns sz) True (seqno t + 1) r
         | None \<Rightarrow> blank_row (size_columns sz) cell_default (seqno t + 1)) [0 ..< size_rows sz] = take (size_rows sz) (grid_rows (grid t))"
    using assms(5) by (intro nth_equalityI) (simp_all add: nth_opt_def resize_columns_def vec_resize_def)
  then have g: "grid_rows (grid_resize_with_seqno sz (seqno t + 1) (grid t)) = take (size_rows sz) (grid_rows (grid t))"
    using assms(3) by (simp add: grid_resize_with_seqno_def del: add_Suc_right One_nat_def)
  have "grid (snd (resize sz t)) = grid_resize_with_seqno sz (seqno t + 1) (grid t)" "scrollback (snd (resize sz t)) = scrollback t"
    unfolding resize_def Let_def sz using assms(2,3)
    by (simp_all add: damaged_cursor resize_same_width_def advance_seqno_def upd_images_def retain_saved_edits_def)
  then show ?thesis using g by simp
qed

theorem lower_height_discards_rows_witness:
  "grid_rows (grid (snd (resize \<lparr>size_columns = 4, size_rows = 1\<rparr> demo_screen))) = [demo_row [0x61, 0x62, 0x63, 0x64] False] \<and>
    scrollback (snd (resize \<lparr>size_columns = 4, size_rows = 1\<rparr> demo_screen)) = []"
proof -
  have "term_ok (new_with_default_cursor_style \<lparr>size_columns = 4, size_rows = 2\<rparr> SteadyBlock)"
    by (rule new_terminal_ok) (simp_all add: u16_max_def)
  then have "term_ok demo_screen"
    by (simp add: demo_screen_def term_ok_def grid_ok_def demo_row_def new_with_default_cursor_style_def)
  moreover have "grid_rows (grid demo_screen) = [demo_row [0x61, 0x62, 0x63, 0x64] False, demo_row [0x65] True]"
    by (simp add: demo_screen_def)
  ultimately show ?thesis using lower_height_discards_rows [of demo_screen "\<lparr>size_columns = 4, size_rows = 1\<rparr>"] by simp
qed

section \<open>One line\<close>

text \<open>
  Wrapping a line at a width keeps its cells in order, across rows that have at most that many and the overflow
  of glyphs that are wider than a row. Where there are none of those, the cursor stays on its cell: the cells of the rows before it and its column
  add up to its offset in the line.
\<close>

theorem wrapped_line_faithful:
  assumes "0 < w" and "whole_from cells 0" and "k < length cells"
  shows "flat (fst (reflow_logical_line cells w (Some k))) = cells \<and>
    (\<forall>r \<in> set (fst (reflow_logical_line cells w (Some k))). length (rr_cells r) \<le> w) \<and>
    (fits w cells \<longrightarrow> (\<exists>r c. snd (reflow_logical_line cells w (Some k)) = Some (r, c) \<and> r < length (fst (reflow_logical_line cells w (Some k))) \<and>
      length (flat (take r (fst (reflow_logical_line cells w (Some k))))) + c = k))"
proof -
  have "cells \<noteq> []" using assms(3) by auto
  then show ?thesis using reflow_line_cells [OF assms(1,2), of "Some k"] reflow_line_cursor [OF assms(1,2) _ assms(3)] by blast
qed

theorem wrapped_line_faithful_witness:
  "flat (fst (reflow_logical_line (map with_char [0x61, 0x62, 0x63, 0x64, 0x65]) 3 (Some 4))) = map with_char [0x61, 0x62, 0x63, 0x64, 0x65] \<and>
    snd (reflow_logical_line (map with_char [0x61, 0x62, 0x63, 0x64, 0x65]) 3 (Some 4)) = Some (1, 1)"
proof -
  let ?cells = "map with_char [0x61, 0x62, 0x63, 0x64, 0x65]"
  have "whole_from ?cells 0" "fits 3 ?cells" by (auto intro!: narrow_whole simp: fits_def)
  then have "flat (fst (reflow_logical_line ?cells 3 (Some 4))) = ?cells" using wrapped_line_faithful [of 3 ?cells 4] by simp
  moreover have "snd (reflow_logical_line ?cells 3 (Some 4)) = Some (1, 1)"
    by (simp add: reflow_logical_line_def reflow_loop.simps reflow_turn_def glyph_cells_def glyph_width_def
      source_width_def place_cursor_def flush_row_def reflow_state_new_def or_option_def Let_def)
  ultimately show ?thesis by simp
qed

section \<open>Cells that were never written\<close>

text \<open>A row with a gap, as a tabulator leaves it, is cut in the gap and wrapped again.\<close>

definition demo_gap :: main_buffers where
  "demo_gap = \<lparr>mb_history = [], mb_grid = \<lparr>grid_size = \<lparr>size_columns = 4, size_rows = 2\<rparr>,
     grid_rows = [\<lparr>row_cells = [with_char 0x61, cell_default, cell_default, with_char 0x62], reflow_overflow = [],
         row_wrapped = False, last_change_seqno = 1\<rparr>, blank_row 4 cell_default 1]\<rparr>,
     mb_cursor_row = 0, mb_cursor_column = 3\<rparr>"

lemmas wrap_defs = wrap_lines_def wrap_line_def reflow_logical_line_def reflow_loop.simps reflow_turn_def glyph_cells_def glyph_width_def
  source_width_def place_cursor_def flush_row_def reflow_state_new_def or_option_def Let_def

lemmas collect_defs = logical_lines_def relevant_grid_rows_def collect_grid_row_def cells_with_reflow_overflow_def grid_row_wrapped_def nth_opt_def
  trim_reflow_padding_def start_line_def finish_line_def collector_new_def blank_row_def

lemma upto_two: "[0 ..< 2] = [0, 1::nat]"
  by (simp add: upt_rec)

lemma rebuilt_grid_eq:
  "length ys \<le> size_rows sz \<Longrightarrow> rebuilt_grid sz sq ys = \<lparr>grid_size = sz, grid_rows = map (rebuilt_row (size_columns sz) sq) ys @
     replicate (size_rows sz - length ys) (blank_row (size_columns sz) cell_default sq)\<rparr>"
  by (rule terminal_grid.equality) (simp_all add: rebuilt_grid_rows)

lemma demo_gap_narrow:
  "reflow_main_screen \<lparr>size_columns = 2, size_rows = 2\<rparr> 2 demo_gap =
    \<lparr>mb_history = [], mb_grid = \<lparr>grid_size = \<lparr>size_columns = 2, size_rows = 2\<rparr>,
       grid_rows = [\<lparr>row_cells = [with_char 0x61, cell_default], reflow_overflow = [], row_wrapped = False, last_change_seqno = 2\<rparr>,
         \<lparr>row_cells = [cell_default, with_char 0x62], reflow_overflow = [], row_wrapped = True, last_change_seqno = 2\<rparr>]\<rparr>,
     mb_cursor_row = 1, mb_cursor_column = 1\<rparr>"
proof -
  have "logical_lines [] (mb_grid demo_gap) 0 3 =
      [\<lparr>ll_cells = [with_char 0x61, cell_default, cell_default, with_char 0x62], ll_cursor_offset = Some 3\<rparr>]"
    by (simp add: collect_defs demo_gap_def upto_two Let_def numeral_eq_Suc)
  then have "wrap_lines 2 (logical_lines [] (mb_grid demo_gap) 0 3) =
      ([(\<lparr>rr_cells = [with_char 0x61, cell_default], rr_overflow = []\<rparr>, False),
        (\<lparr>rr_cells = [cell_default, with_char 0x62], rr_overflow = []\<rparr>, True)], Some (1, 1))"
    by (simp add: wrap_defs)
  moreover have "rebuilt_grid \<lparr>size_columns = 2, size_rows = 2\<rparr> 2 [(\<lparr>rr_cells = [with_char 0x61, cell_default], rr_overflow = []\<rparr>, False),
        (\<lparr>rr_cells = [cell_default, with_char 0x62], rr_overflow = []\<rparr>, True)] =
      \<lparr>grid_size = \<lparr>size_columns = 2, size_rows = 2\<rparr>,
       grid_rows = [\<lparr>row_cells = [with_char 0x61, cell_default], reflow_overflow = [], row_wrapped = False, last_change_seqno = 2\<rparr>,
         \<lparr>row_cells = [cell_default, with_char 0x62], reflow_overflow = [], row_wrapped = True, last_change_seqno = 2\<rparr>]\<rparr>"
    by (subst rebuilt_grid_eq) (simp_all add: rebuilt_row_def vec_resize_def)
  ultimately show ?thesis by (simp add: reflow_main_screen_def demo_gap_def u16_max_def Let_def)
qed

text \<open>
  Cells that were never written are lost where they come to stand at the end of a row: the line \<open>a__b\<close> of a screen of four columns,
  resized to two columns and back to four, is \<open>a_b\<close>.
\<close>

theorem reflow_loses_gaps:
  "screen_text demo_gap = [[with_char 0x61, cell_default, cell_default, with_char 0x62]] \<and>
   screen_text (reflow_main_screen \<lparr>size_columns = 4, size_rows = 2\<rparr> 3 (reflow_main_screen \<lparr>size_columns = 2, size_rows = 2\<rparr> 2 demo_gap)) =
     [[with_char 0x61, cell_default, with_char 0x62]]"
proof
  show "screen_text demo_gap = [[with_char 0x61, cell_default, cell_default, with_char 0x62]]"
    by (simp add: screen_text_def collect_defs demo_gap_def upto_two Let_def numeral_eq_Suc strip_def)
  let ?b = "reflow_main_screen \<lparr>size_columns = 2, size_rows = 2\<rparr> 2 demo_gap"
  have "logical_lines [] (mb_grid ?b) 1 1 = [\<lparr>ll_cells = [with_char 0x61, cell_default, with_char 0x62], ll_cursor_offset = Some 2\<rparr>]"
    by (simp add: collect_defs demo_gap_narrow upto_two Let_def)
  then have "wrap_lines 4 (logical_lines [] (mb_grid ?b) 1 1) =
      ([(\<lparr>rr_cells = [with_char 0x61, cell_default, with_char 0x62], rr_overflow = []\<rparr>, False)], Some (0, 2))"
    by (simp add: wrap_defs)
  moreover have "rebuilt_grid \<lparr>size_columns = 4, size_rows = 2\<rparr> 3 [(\<lparr>rr_cells = [with_char 0x61, cell_default, with_char 0x62], rr_overflow = []\<rparr>, False)] =
      \<lparr>grid_size = \<lparr>size_columns = 4, size_rows = 2\<rparr>,
       grid_rows = [\<lparr>row_cells = [with_char 0x61, cell_default, with_char 0x62, cell_default], reflow_overflow = [], row_wrapped = False, last_change_seqno = 3\<rparr>,
         blank_row 4 cell_default 3]\<rparr>"
    by (subst rebuilt_grid_eq) (simp_all add: rebuilt_row_def vec_resize_def)
  ultimately have "reflow_main_screen \<lparr>size_columns = 4, size_rows = 2\<rparr> 3 ?b = \<lparr>mb_history = [], mb_grid = \<lparr>grid_size = \<lparr>size_columns = 4, size_rows = 2\<rparr>,
       grid_rows = [\<lparr>row_cells = [with_char 0x61, cell_default, with_char 0x62, cell_default], reflow_overflow = [], row_wrapped = False, last_change_seqno = 3\<rparr>,
         blank_row 4 cell_default 3]\<rparr>, mb_cursor_row = 0, mb_cursor_column = 2\<rparr>"
    unfolding demo_gap_narrow by (simp add: reflow_main_screen_def u16_max_def Let_def)
  then show "screen_text (reflow_main_screen \<lparr>size_columns = 4, size_rows = 2\<rparr> 3 ?b) = [[with_char 0x61, cell_default, with_char 0x62]]"
    by (simp add: screen_text_def collect_defs upto_two Let_def numeral_eq_Suc strip_def)
qed

end
