(* ===== verification/Spec2Isabelle.thy ===== *)
theory Spec2Isabelle
  imports Tab_Properties Shell_Windows Reconnect_Laws Mailbox_Properties Publication_Properties Worker_Properties Hub_Properties
    Mode_Properties Term_Properties Term_Feed_Properties Term_Reflow_Properties
begin

text \<open>
  R-Term is a terminal emulator written in Rust. This development models the parts that carry
  its logic and states what makes them correct. Paths are relative to \<open>src/crates\<close>.

  \<^bold>\<open>The program.\<close> The application shell (\<open>rssh-domain/src/app_shell.rs\<close>) owns workspaces, tabs
  and panes and applies the actions of the user to them. Every pane has a runtime
  (\<open>rssh-runtime/src\<close>): a reader thread and the user put messages into a bounded mailbox
  (\<open>mailbox.rs\<close>), a worker thread batches the output, advances the terminal and publishes a
  frame and lossless effects (\<open>batch.rs\<close>, \<open>latest.rs\<close>, \<open>api.rs\<close>), and the host drains them.

  \<^bold>\<open>Conventions.\<close> Fallible functions return an \<open>outcome\<close>: \<open>Ok\<close>, \<open>Err\<close>, \<open>Panic\<close> for a failed
  \<open>expect\<close>, \<open>unwrap\<close> or index, \<open>Diverge\<close> for a loop that does not end. Stateful methods return
  the state they leave on every path. Unsigned integers are numbers with their bound written
  out where the code saturates or checks. Strings are lists of Unicode scalar values. Clocks,
  process identity and the order of an unstable sort are parameters.

  \<^bold>\<open>Shell.\<close> \<open>Launch\<close>, \<open>Panes\<close>, \<open>Split_Geometry\<close>, \<open>Tabs\<close>, \<open>Workspaces\<close>, \<open>App_Shell\<close> and \<open>Reconnect\<close>
  hold the data and every operation, in the order of the source. \<open>Tab_Laws\<close>, \<open>Tab_Ops\<close>,
  \<open>Workspace_Laws\<close>, \<open>Shell_Laws\<close>, \<open>Shell_Actions\<close>, \<open>Shell_Workspaces\<close> and \<open>Shell_Dispatch\<close> state the
  invariants as locales (an operation keeps the invariant of a tab, a workspace, the shell;
  a layout operation also keeps split references) and interpret them for every operation; \<open>Shell_Windows\<close> counts the identities of waiting windows too;
  \<open>Tab_Properties\<close> and this theory state the properties. The loop that searches for a random
  workspace name has fuel: one attempt more than there are workspaces is enough as long as the
  counter of attempts stays below its 128-bit bound.

  \<^bold>\<open>Mailbox.\<close> \<open>Mailbox\<close> has one function per critical section, with the condition variables it
  notifies after releasing the lock. \<open>Mailbox_Laws\<close> gives the invariant, the queue contract
  (\<open>fifo_queue\<close>) and its interpretations; \<open>Mailbox_Machine\<close> interleaves producers, consumer and
  undelivered notifications as a step relation and proves that no wake-up is lost;
  \<open>Mailbox_Properties\<close> states the promises.

  \<^bold>\<open>Publication.\<close> \<open>Runtime_Api\<close> has tokens, sequences, metadata and effects, \<open>Latest_Slot\<close> the
  replaceable slot with its wake token, \<open>Publication\<close> batch windows, coalescing of frames,
  \<open>publish\<close> and \<open>drain\<close> split at their locks. \<open>Publication_Machine\<close> interleaves worker and host;
  \<open>Publication_Properties\<close> states what holds (a wake for every frame, only one as long as the host drains on
  wakes, effects in order) and exhibits the schedule that strands an effect.

  \<^bold>\<open>Worker and hub.\<close> \<open>Utf8\<close> has the encoding of strings. \<open>Delta\<close> holds the arenas in which a
  feed records its effects (\<open>delta.rs\<close>), and \<open>Delta_Laws\<close> the contract of a sink of effects
  (\<open>effect_sink\<close>), interpreted for every push. \<open>Pane_Worker\<close> has the handle, the reader, the
  collection of a batch and the numbering of effects (\<open>pane.rs\<close>); \<open>Worker_Properties\<close> states what they
  keep. \<open>Hub\<close> has every operation of \<open>hub.rs\<close>. \<open>Hub_Laws\<close> gives its invariant and the contract of an
  operation (\<open>hub_operation\<close>: the invariant is kept and generations only advance), \<open>Hub_Drain\<close>
  the contract of a round robin (\<open>round_robin\<close>) and its interpretation on the fair drain;
  \<open>Hub_Properties\<close> makes the hub and its workers a step relation and states the promises.

  \<^bold>\<open>Output and modes.\<close> \<open>Visible_Output\<close> is the filter that keeps the visible bytes of a stream
  (\<open>visible_output.rs\<close>), with the contract of a filter that may be fed in chunks (\<open>stream_filter\<close>).
  \<open>Mode_Scan\<close> has the searches for sequences and control strings and \<open>Mode_Tracker\<close> the mouse,
  keyboard and tracked modes and the tracker (\<open>modes.rs\<close>). \<open>Mode_Laws\<close> gives the contract of an
  operation that a mirror can follow by its notifications (\<open>mirrored_operation\<close>), and
  \<open>Mode_Properties\<close> states that the mirror is faithful, that printed sequences are parsed back and
  that control strings are opaque.

  \<^bold>\<open>Terminal.\<close> \<open>Term_Types\<close> and \<open>Term_Cell\<close> have sizes, damage and cells, \<open>Term_Grid\<close> the grid and the
  history (\<open>grid.rs\<close>, \<open>history.rs\<close>), \<open>Term_Grid_Laws\<close> the contract of an operation that keeps the shape
  of a grid (\<open>grid_operation\<close>). \<open>Term_Params\<close> parses the parameters of control sequences,
  \<open>Term_Graphics\<close> and \<open>Term_Placement\<close> keep inline images and move them with the text, \<open>Term_State\<close> is the
  state with cursor, margins and tabs, \<open>Term_Screen\<close> scrolls, \<open>Term_Edit\<close> edits rows, \<open>Term_Write\<close> writes
  characters and \<open>Term_Csi\<close> has screens, modes, resets and the dispatch of CSI sequences, all of
  \<open>rssh-terminal/src/parser.rs\<close>. The widths of characters, the segmentation into graphemes and the
  normalization come from crates and are the parameter \<open>unicode_data\<close>. The loop that aligns a deletion to
  whole characters is a partial function: \<open>None\<close> stands for not returning. \<open>Term_Laws\<close> has the shape of a
  terminal and the contracts of operations that write cells (\<open>cell_operation\<close>) or may scroll
  (\<open>screen_operation\<close>); \<open>Term_Shape\<close> shows that every operation keeps the shape. \<open>Term_Spans\<close> treats the spans
  of wide characters and the two sides of the deletion loop, \<open>Term_Moves\<close> the cells a scroll inside
  margins moves, \<open>Term_History\<close> the numbering of lines across scrolls; \<open>Term_Properties\<close> states the results.

  \<^bold>\<open>Terminal input.\<close> \<open>Term_Decode\<close> decodes bytes and finds the ends of control sequences, \<open>Term_Feed\<close> is the loop
  that consumes them with \<open>feed\<close> and its shortcut for ASCII, \<open>Term_Osc\<close> has operating system commands, \<open>Term_Kitty\<close>
  and \<open>Term_Kitty_Place\<close> the graphics protocol and \<open>Term_Sixel\<close> sixel images, whose colours are computed with
  single-precision rounding on rationals. The record \<open>parser\<close> has the fields of \<open>Terminal\<close> that only the input uses
  around the terminal; \<open>host\<close> has what comes from other crates and the system (character tables,
  normal forms, base64, zlib, files). A search for a free image number that does not end is \<open>None\<close>.
  \<open>Term_Feed_Shape\<close> shows that the input keeps the shape of the terminal. \<open>Term_Decode_Laws\<close> treats decoding
  one character at a time; \<open>Term_Feed_Laws\<close> has the contract of a scanner that may be fed in chunks
  (\<open>chunked_scanner\<close>), interpreted on the loop, and the equality of the two paths. \<open>Term_Sixel_Laws\<close> relates the bytes
  of an image to the pixels drawn, \<open>Term_Sixel_Reference\<close> the pixels to the dots a pen makes, and \<open>Term_Kitty_Laws\<close> treats the links of relative placements and
  uploads in chunks; \<open>Term_Feed_Properties\<close> states the results.

  \<^bold>\<open>Resizing.\<close> \<open>Term_Reflow\<close> joins the rows of history and screen to logical lines, wraps them at the new width and rebuilds both,
  with the cursor (\<open>reflow_main_screen\<close>, \<open>resize\<close>), and has the operation that erases everything. \<open>Term_Reflow_Laws\<close> shows that the shape
  is kept and that wrapping keeps cells and cursor, \<open>Term_Reflow_Text\<close> that the rebuilt screen has the logical lines of the old one;
  \<open>Term_Reflow_Properties\<close> states that the text is kept, by a reading of the rows that does not use the code's, which rows a lower height
  discards, and that gaps inside a line may shrink.

  \<^bold>\<open>Not modelled.\<close> The window and its input handling (\<open>rssh-app/src\<close>), renderers and fonts, the
  native, web and Tauri front ends, the SSH and PTY transports, configuration loading,
  diagnostics: they are platform glue, input and output. Of the terminal (\<open>rssh-terminal\<close>) the
  read-only views (stable dimensions, semantic zones, the text of selections) are left out. Text formatting of errors is left out everywhere.
\<close>

section \<open>A concrete shell for the witnesses\<close>

definition demo_env :: shell_env where
  "demo_env = \<lparr>env_now = \<lambda>_. 0, env_process_id = 0, env_sort_by_name = sort_key w_name\<rparr>"

definition demo_shell :: app_shell where
  "demo_shell = \<lparr>s_workspaces = [workspace_new 1 (str_of ''default'') [\<lparr>t_id = 1, t_panes = [pane_new 1 demo_pane_launch],
       t_active_pane_id = 1, t_pane_activation_order = [1], t_zoomed_pane_id = None, t_title = None\<rparr>] 1],
     s_active_workspace_id = 1, s_pending_windows = [], s_next_window_id = 2, s_next_workspace_id = 2,
     s_next_tab_id = 2, s_next_pane_id = 2, s_default_launch = demo_pane_launch\<rparr>"

lemma demo_env_sort: "workspace_sort (env_sort_by_name demo_env)"
  by (simp add: demo_env_def name_sort.workspace_sort_axioms)

lemma demo_shell_new: "app_shell_new demo_pane_launch = Ok demo_shell"
  by (simp add: app_shell_new_def app_shell_new_with_workspace_name_def tab_new_Cons demo_shell_def)

lemma demo_shell_good:
  "shell_ok demo_shell" "ids_fresh demo_shell" "shell_splits_ok demo_shell" "length (s_workspaces demo_shell) = 1"
proof -
  show "shell_ok demo_shell" by (simp add: demo_shell_def shell_ok_def ws_ok_def workspace_new_def tab_ok_def u64_max_def)
  show "ids_fresh demo_shell"
    by (simp add: demo_shell_def ids_fresh_def pane_ids_def owned_pane_ids_def owned_tab_ids_def pending_tab_ids_def
        ws_pane_ids_def workspace_new_def)
  show "shell_splits_ok demo_shell"
    by (simp add: demo_shell_def shell_splits_ok_def ws_splits_ok_def workspace_new_def splits_ok_def refs_ok_def split_source_def)
  show "length (s_workspaces demo_shell) = 1" by (simp add: demo_shell_def)
qed

lemmas shell_eval = apply_action.simps finish_action_def clear_active_pane_unseen_output_def active_pane_id_def
  active_workspace_def workspace_position_def active_tab_def tab_position_def nth_opt_def on_owner_tab_def tab_with_pane_def
  pane_position_def update_pane_def on_active_workspace_def on_active_tab_def set_active_pane_def
  record_pane_activation_def Let_def resolve_launch_def tab_active_pane_def sat_add_u64_def u64_max_def pane_op_defs
  set_pane_has_unseen_output_def workspace_new_def next_pane_id_def next_tab_id_def

text \<open>The shell after splitting its only pane, and after closing the pane that was split.\<close>

definition demo_split_shell :: app_shell where
  "demo_split_shell = snd (apply_action demo_env (SplitPane 1 SplitRight (Some demo_pane_launch)) demo_shell)"

definition demo_closed_shell :: app_shell where
  "demo_closed_shell = snd (apply_action demo_env (ClosePane 1) demo_split_shell)"

lemma demo_split_result:
  "apply_action demo_env (SplitPane 1 SplitRight (Some demo_pane_launch)) demo_shell =
   (Ok (), demo_shell\<lparr>s_workspaces := [workspace_new 1 (str_of ''default'') [\<lparr>t_id = 1, t_panes = [pane_new 1 demo_pane_launch,
       with_split (pane_new 2 demo_pane_launch) (Some \<lparr>sp_source_pane = 1, sp_direction = SplitRight, sp_source_size_delta = 0\<rparr>)],
       t_active_pane_id = 2, t_pane_activation_order = [1, 2], t_zoomed_pane_id = None, t_title = None\<rparr>] 1], s_next_pane_id := 3\<rparr>)"
  by (simp add: shell_eval demo_shell_def apply_split_pane_def apply_split_pane_with_size_def split_resolved_def split_pane_def)

lemma demo_split_unsaturated: "unsaturated demo_split_shell"
  unfolding demo_split_shell_def demo_split_result by (simp add: unsaturated_def demo_shell_def u64_max_def)

lemma demo_closed_result:
  "apply_action demo_env (ClosePane 1) demo_split_shell =
   (Ok (), demo_shell\<lparr>s_workspaces := [workspace_new 1 (str_of ''default'') [\<lparr>t_id = 1, t_panes = [
       with_split (pane_new 2 demo_pane_launch) (Some \<lparr>sp_source_pane = 1, sp_direction = SplitRight, sp_source_size_delta = 0\<rparr>)],
       t_active_pane_id = 2, t_pane_activation_order = [2], t_zoomed_pane_id = None, t_title = None\<rparr>] 1], s_next_pane_id := 3\<rparr>)"
  unfolding demo_split_shell_def demo_split_result snd_conv
  by (simp add: shell_eval demo_shell_def apply_close_pane_def workspace_close_pane_def close_pane_def remove_pane_at_def remove_nth_def)

section \<open>The shell\<close>

text \<open>
  C1: on a shell that satisfies its invariant, every action, including arbitrarily nested
  \<open>Multiple\<close> actions, returns (no panic, no endless loop) and leaves a shell that satisfies
  the invariant, whether it succeeds or fails.
\<close>

theorem apply_action_safe:
  assumes "workspace_sort (env_sort_by_name env)" and "shell_ok s"
    and "length (s_workspaces s) + action_count a \<le> 2 ^ 128"
  shows "returns (fst (apply_action env a s)) \<and> shell_ok (snd (apply_action env a s))"
  using apply_action_good [OF assms] by (simp add: good_step_def)

theorem apply_action_safe_witness:
  "returns (fst (apply_action demo_env (Multiple [NewTab None, SwitchToWorkspace None None, CloseTab 1 True]) demo_shell)) \<and>
   shell_ok (snd (apply_action demo_env (Multiple [NewTab None, SwitchToWorkspace None None, CloseTab 1 True]) demo_shell))"
  by (rule apply_action_safe [OF demo_env_sort demo_shell_good(1)]) (simp add: demo_shell_good)

text \<open>
  C2: identities stay unique: as long as no identity counter reaches the largest 64-bit number, after every action the
  workspaces have pairwise different identities, as have the tabs and the panes that workspaces own, and all identities, those of
  windows that wait to be opened included, are below the counters. Unless the action moves the final tab of a workspace to a new
  window, which leaves a copy behind, the panes and the tabs of workspaces and waiting windows together stay pairwise different.
\<close>

theorem apply_action_ids_unique:
  assumes "workspace_sort (env_sort_by_name env)" and "shell_ok s"
    and "length (s_workspaces s) + action_count a \<le> 2 ^ 128"
    and "ids_fresh s" and "unsaturated (snd (apply_action env a s))"
  shows "ids_fresh (snd (apply_action env a s)) \<and>
    (distinct (pane_ids s) \<and> distinct (all_tab_ids s) \<and> \<not> copies_tab env a s \<longrightarrow>
       distinct (pane_ids (snd (apply_action env a s))) \<and> distinct (all_tab_ids (snd (apply_action env a s))))"
proof (intro conjI impI)
  show "ids_fresh (snd (apply_action env a s))"
    using apply_action_good [OF assms(1-3)] assms(4,5) by (auto simp: good_step_def intro: ids_fresh_step)
  assume all: "distinct (pane_ids s) \<and> distinct (all_tab_ids s) \<and> \<not> copies_tab env a s"
  then have "window_growth s (snd (apply_action env a s))" using apply_action_whole [OF assms(1-3)] by blast
  with all show "distinct (pane_ids (snd (apply_action env a s)))" "distinct (all_tab_ids (snd (apply_action env a s)))"
    using whole_distinct [OF _ assms(5,4)] by blast+
qed

text \<open>A new window is opened beside the only tab.\<close>

definition demo_window_shell :: app_shell where
  "demo_window_shell = snd (apply_action demo_env (SpawnWindow (Some demo_pane_launch)) demo_shell)"

lemma demo_window_unsaturated: "unsaturated demo_window_shell"
  by (simp add: demo_window_shell_def shell_eval demo_shell_def apply_spawn_window_def next_window_id_def tab_new_Cons unsaturated_def)

theorem apply_action_ids_unique_witness:
  "ids_fresh demo_window_shell \<and> distinct (pane_ids demo_window_shell) \<and> distinct (all_tab_ids demo_window_shell)"
proof -
  have "distinct (pane_ids demo_shell) \<and> distinct (all_tab_ids demo_shell)"
    by (simp add: demo_shell_def pane_ids_def all_tab_ids_def owned_tab_ids_def pending_tab_ids_def ws_pane_ids_def workspace_new_def)
  moreover have "\<not> copies_tab demo_env (SpawnWindow (Some demo_pane_launch)) demo_shell" by (simp add: copies_tab.simps)
  ultimately show ?thesis unfolding demo_window_shell_def
    using apply_action_ids_unique [OF demo_env_sort demo_shell_good(1), of "SpawnWindow (Some demo_pane_launch)"] demo_shell_good(2,4)
      demo_window_unsaturated [unfolded demo_window_shell_def] by auto
qed

text \<open>
  C3: every action that closes no pane keeps the split trees of all tabs sound: each split refers
  to a pane that precedes it in its tab.
\<close>

theorem apply_action_keeps_splits:
  assumes "workspace_sort (env_sort_by_name env)" and "shell_ok s"
    and "length (s_workspaces s) + action_count a \<le> 2 ^ 128"
    and "ids_fresh s" and "shell_splits_ok s" and "\<not> closes_pane a" and "unsaturated (snd (apply_action env a s))"
  shows "shell_splits_ok (snd (apply_action env a s))"
  using assms by (rule apply_action_splits)

theorem apply_action_keeps_splits_witness: "shell_splits_ok demo_split_shell"
  using demo_split_unsaturated unfolding demo_split_shell_def
  by (intro apply_action_keeps_splits demo_env_sort demo_shell_good) (simp_all add: demo_shell_good)

text \<open>
  C40: closing the pane that was split leaves a split that refers to the closed pane; duplicating
  that tab then panics, although every action before succeeded.
\<close>

theorem close_pane_then_duplicate_panics:
  "fst (apply_action demo_env (SplitPane 1 SplitRight (Some demo_pane_launch)) demo_shell) = Ok () \<and>
   fst (apply_action demo_env (ClosePane 1) demo_split_shell) = Ok () \<and>
   fst (duplicate_tab 1 demo_closed_shell) = Panic"
proof (intro conjI)
  show "fst (apply_action demo_env (SplitPane 1 SplitRight (Some demo_pane_launch)) demo_shell) = Ok ()"
    unfolding demo_split_result by simp
  show "fst (apply_action demo_env (ClosePane 1) demo_split_shell) = Ok ()" unfolding demo_closed_result by simp
  show "fst (duplicate_tab 1 demo_closed_shell) = Panic"
    unfolding demo_closed_shell_def demo_closed_result snd_conv
    by (simp add: shell_eval demo_shell_def duplicate_tab_def shell_tab_reconnect_snapshot_def workspace_tab_def
        from_tab_Panic split_refs_in_def split_source_def)
qed

text \<open>
  the search for a random workspace name ends and finds a name that no workspace of the shell
  has, whatever the clock and the process id are.
\<close>

theorem random_workspace_name_unused:
  assumes "length (s_workspaces s) < 2 ^ 128"
  shows "\<exists>name. random_workspace_name env s = (Ok name :: str app_result) \<and> name \<notin> set (map w_name (s_workspaces s))"
  using assms by (rule random_workspace_name_Ok)

theorem random_workspace_name_unused_witness:
  "\<exists>name. random_workspace_name demo_env demo_shell = (Ok name :: str app_result) \<and>
     name \<notin> set (map w_name (s_workspaces demo_shell))"
  by (rule random_workspace_name_unused) (simp add: demo_shell_good)

text \<open>
  closing a tab of a workspace that has others removes exactly that tab; if it was active, the
  tab the selection asks for becomes active (the right neighbour, the previously active tab, or
  else the left neighbour), otherwise the active tab stays.
\<close>

theorem close_tab_selects:
  assumes "ws_ok w" and "tab_position w i = Some k" and "1 < length (w_tabs w)"
  shows "\<exists>w'. close_tab w i sel = (Ok (), w') \<and> ws_ok w' \<and> w_tabs w' = remove_nth k (w_tabs w) \<and>
    w_active_tab_id w' = (if w_active_tab_id w \<noteq> i then w_active_tab_id w
      else (let left = t_id (remove_nth k (w_tabs w) ! min (k - 1) (length (w_tabs w) - 2)) in
        case sel of
          Adjacent \<Rightarrow> (if Suc k < length (w_tabs w) then t_id (w_tabs w ! Suc k) else left)
        | LastActive \<Rightarrow> (case w_last_active_tab_id w of None \<Rightarrow> left | Some l \<Rightarrow> if l \<noteq> i then l else left)
        | LeftNeighbour \<Rightarrow> left))"
proof -
  note pos = tab_position_SomeD [OF assms(2)]
  from close_tab_cases [OF assms(1), of i sel] assms(2,3) obtain w' where
    w': "tab_removed k w w'" "close_tab w i sel = (Ok (), w')"
      "w_active_tab_id w' = (if w_active_tab_id w = i then next_active w k sel else w_active_tab_id w)" by auto
  with tab_removed_contract(1) [OF w'(1) assms(1)] pos show ?thesis
    by (auto simp: tab_removed_def next_active_def Let_def)
qed

definition demo_workspace :: workspace where
  "demo_workspace = \<lparr>w_id = 1, w_name = [], w_tabs = [demo_tab, demo_tab\<lparr>t_id := 2\<rparr>, demo_tab\<lparr>t_id := 3\<rparr>],
     w_active_tab_id = 2, w_last_active_tab_id = Some 3\<rparr>"

theorem close_tab_selects_witness:
  "\<exists>w'. close_tab demo_workspace 2 LastActive = (Ok (), w') \<and> w_active_tab_id w' = 3"
proof -
  have "ws_ok demo_workspace"
    using demo_tab_ok(1) by (auto simp: ws_ok_def demo_workspace_def tab_ok_def demo_tab_def)
  moreover have "tab_position demo_workspace 2 = Some 1" by (simp add: tab_position_def demo_workspace_def demo_tab_def)
  moreover have "1 < length (w_tabs demo_workspace)" by (simp add: demo_workspace_def)
  ultimately show ?thesis using close_tab_selects [of demo_workspace 2 1 LastActive]
    by (auto simp: demo_workspace_def)
qed

section \<open>Duplicating and moving tabs\<close>

text \<open>
  C5: a snapshot of a sound tab can be taken, restoring it under fresh identities succeeds, and the
  restored tab satisfies the invariant, carries exactly the new identities and has the same snapshot.
\<close>

theorem snapshot_restore_roundtrip:
  assumes "tab_ok t" and "distinct (tab_pane_ids t)" and "splits_ok (t_panes t)"
    and "distinct new" and "length new = length (t_panes t)"
  shows "\<exists>snap t'. from_tab t = (Ok snap :: tab_reconnect_snapshot app_result) \<and>
    from_reconnect_snapshot i snap new = Ok t' \<and> tab_ok t' \<and> t_id t' = i \<and> tab_pane_ids t' = new \<and>
    from_tab t' = (Ok snap :: tab_reconnect_snapshot app_result)"
proof -
  note refs = splits_refs_in [OF assms(3)]
  note ok = snap_of_ok [OF assms(1) refs]
  have len: "length new = length (ts_panes (snap_of t))" using assms(5) by (simp add: snap_of_def)
  show ?thesis
    by (intro exI [of _ "snap_of t"] exI [of _ "tab_of i (snap_of t) new"] conjI from_tab_Ok assms refs restore_Ok ok len
        tab_of_ok tab_of_ids snapshot_roundtrip) (simp add: tab_of_def)
qed

theorem snapshot_restore_roundtrip_witness:
  "\<exists>snap t'. from_tab demo_tab = (Ok snap :: tab_reconnect_snapshot app_result) \<and>
    from_reconnect_snapshot 9 snap [11, 12, 13] = Ok t' \<and> tab_ok t' \<and> t_id t' = 9 \<and> tab_pane_ids t' = [11, 12, 13] \<and>
    from_tab t' = (Ok snap :: tab_reconnect_snapshot app_result)"
  by (rule snapshot_restore_roundtrip [OF demo_tab_ok]) (simp_all add: demo_tab_def)

text \<open>
  C4: duplicating a tab of a shell with unique identities and sound splits succeeds: the copy is
  inserted right after the original, becomes active, has fresh identities and the same snapshot.
\<close>

theorem duplicate_tab_copies:
  assumes "shell_ok s" and "ids_fresh s" and "shell_splits_ok s" and "active_workspace s = (Ok w :: workspace app_result)"
    and "tab_position w tab = Some k" and "length (w_tabs w) \<le> usize_max"
    and "s_next_pane_id s + length (t_panes (w_tabs w ! k)) < u64_max"
  shows "\<exists>s' w' t'. duplicate_tab tab s = (Ok (s_next_tab_id s), s') \<and> shell_ok s' \<and>
    active_workspace s' = (Ok w' :: workspace app_result) \<and> w_active_tab_id w' = s_next_tab_id s \<and>
    w_tabs w' = insert_nth (k + 1) t' (w_tabs w) \<and> t_id t' = s_next_tab_id s \<and>
    from_tab t' = (from_tab (w_tabs w ! k) :: tab_reconnect_snapshot app_result) \<and>
    tab_pane_ids t' = [s_next_pane_id s..<s_next_pane_id s + length (t_panes (w_tabs w ! k))]"
  by (rule duplicate_tab_Ok [OF assms]) blast

theorem duplicate_tab_copies_witness:
  "\<exists>s'. duplicate_tab 1 demo_split_shell = (Ok 2, s') \<and> shell_ok s'"
proof -
  let ?w = "workspace_new 1 (str_of ''default'') [\<lparr>t_id = 1, t_panes = [pane_new 1 demo_pane_launch,
       with_split (pane_new 2 demo_pane_launch) (Some \<lparr>sp_source_pane = 1, sp_direction = SplitRight, sp_source_size_delta = 0\<rparr>)],
       t_active_pane_id = 2, t_pane_activation_order = [1, 2], t_zoomed_pane_id = None, t_title = None\<rparr>] 1"
  note s = demo_split_shell_def demo_split_result snd_conv
  have ok: "shell_ok demo_split_shell" unfolding s
    by (auto simp: shell_ok_def demo_shell_def ws_ok_def workspace_new_def tab_ok_def u64_max_def)
  have fresh: "ids_fresh demo_split_shell" unfolding s
    by (simp add: demo_shell_def ids_fresh_def pane_ids_def owned_pane_ids_def owned_tab_ids_def pending_tab_ids_def
        ws_pane_ids_def workspace_new_def)
  have splits: "shell_splits_ok demo_split_shell" unfolding s
    by (auto simp: shell_splits_ok_def demo_shell_def ws_splits_ok_def workspace_new_def splits_ok_def refs_ok_def
        split_source_def less_Suc_eq)
  have w: "active_workspace demo_split_shell = (Ok ?w :: workspace app_result)" unfolding s
    by (simp add: active_workspace_def workspace_position_def demo_shell_def workspace_new_def nth_opt_def)
  have k: "tab_position ?w 1 = Some 0" by (simp add: tab_position_def workspace_new_def)
  have n: "s_next_tab_id demo_split_shell = 2" "s_next_pane_id demo_split_shell = 3" unfolding s by (simp_all add: demo_shell_def)
  have "length (w_tabs ?w) \<le> usize_max" by (simp add: workspace_new_def usize_max_def)
  moreover have "s_next_pane_id demo_split_shell + length (t_panes (w_tabs ?w ! 0)) < u64_max"
    unfolding n by (simp add: workspace_new_def u64_max_def)
  ultimately show ?thesis using duplicate_tab_copies [OF ok fresh splits w k] unfolding n by metis
qed

text \<open>
  C6: importing a detached tab into a shell renames it with fresh identities: the tab is inserted
  at the requested place and becomes active, the returned map sends the panes of the source, in
  order, to the identities drawn, every reference inside the tab is renamed along with them, and
  everything else about the panes is kept.
\<close>

theorem import_detached_tab_renames:
  assumes "shell_ok s" and "active_workspace s = (Ok w :: workspace app_result)" and "tab_ok t"
    and "distinct (tab_pane_ids t)" and "splits_ok (t_panes t)" and "s_next_pane_id s + length (t_panes t) < u64_max"
  shows "\<exists>s' m. import_detached_tab \<lparr>dt_tab = t, dt_source_index = j\<rparr> k s =
      (Ok \<lparr>it_tab_id = s_next_tab_id s, it_pane_id_map = m\<rparr>, s') \<and> shell_ok s' \<and>
    map m (tab_pane_ids t) = map Some [s_next_pane_id s..<s_next_pane_id s + length (t_panes t)] \<and>
    active_workspace s' = (Ok (insert_tab w (rename_tab (\<lambda>i. the (m i)) (s_next_tab_id s) t) k) :: workspace app_result) \<and>
    tab_ok (rename_tab (\<lambda>i. the (m i)) (s_next_tab_id s) t) \<and>
    splits_ok (t_panes (rename_tab (\<lambda>i. the (m i)) (s_next_tab_id s) t))"
proof -
  let ?new = "[s_next_pane_id s..<s_next_pane_id s + length (t_panes t)]"
  let ?m = "fresh_map (tab_pane_ids t) ?new"
  have m: "map ?m (tab_pane_ids t) = map Some ?new"
    by (rule nth_equalityI) (use fresh_map_nth [OF assms(4), of ?new] in auto)
  have "map (\<lambda>i. the (?m i)) (tab_pane_ids t) = map the (map ?m (tab_pane_ids t))" by (simp only: list.map_comp comp_def)
  also have "\<dots> = ?new" unfolding m by (simp add: comp_def)
  finally have "map (\<lambda>i. the (?m i)) (tab_pane_ids t) = ?new" .
  then have "inj_on (\<lambda>i. the (?m i)) (set (tab_pane_ids t))" by (metis assms(4) distinct_map distinct_upt)
  then have ok: "tab_ok (rename_tab (\<lambda>i. the (?m i)) (s_next_tab_id s) t)" by (rule rename_tab_ok [OF assms(3)])
  show ?thesis
    by (rule import_detached_tab_Ok [OF assms(1-4) splits_refs_in [OF assms(5)] assms(6), of j k])
      (use m ok rename_tab_splits [OF assms(5)] in blast)
qed

theorem import_detached_tab_renames_witness:
  "\<exists>s' m. import_detached_tab \<lparr>dt_tab = demo_tab, dt_source_index = 0\<rparr> 5 demo_shell =
      (Ok \<lparr>it_tab_id = 2, it_pane_id_map = m\<rparr>, s') \<and> shell_ok s' \<and> m 3 = Some 4"
proof -
  obtain w where w: "active_workspace demo_shell = (Ok w :: workspace app_result)"
    using active_workspace_Ok [OF demo_shell_good(1)] .
  have room: "s_next_pane_id demo_shell + length (t_panes demo_tab) < u64_max"
    by (simp add: demo_shell_def demo_tab_def u64_max_def)
  show ?thesis using import_detached_tab_renames [OF demo_shell_good(1) w demo_tab_ok room, of 0 5]
    by (auto simp: demo_shell_def demo_tab_def upt_rec)
qed

text \<open>
  the history of recently closed tabs holds the last entries pushed, at most its capacity of
  them, and gives back the latest first.
\<close>

theorem closed_tab_history_is_lifo:
  assumes "capacity < usize_max"
  shows "h_entries (foldl history_push (history_new capacity) es) = last_n capacity es \<and>
    length (h_entries (foldl history_push (history_new capacity) es)) \<le> capacity \<and>
    fst (history_pop (foldl history_push (history_new capacity) es)) =
      (if capacity = 0 \<or> es = [] then None else Some (last es))"
proof -
  have inv: "h_entries (foldl history_push (history_new capacity) es) = last_n capacity es \<and>
      history_ok (foldl history_push (history_new capacity) es) \<and>
      h_capacity (foldl history_push (history_new capacity) es) = capacity"
  proof (induction es rule: rev_induct)
    case Nil
    then show ?case using assms by (simp add: history_new_def history_ok_def last_n_def)
  next
    case (snoc e es)
    let ?h = "foldl history_push (history_new capacity) es"
    have h: "history_ok ?h" "h_capacity ?h = capacity" "h_entries ?h = last_n capacity es" using snoc.IH by auto
    with history_push_entries [OF h(1), of e] history_push_ok [OF h(1), of e] show ?case by (simp add: last_n_append)
  qed
  then have "length (h_entries (foldl history_push (history_new capacity) es)) \<le> capacity" unfolding history_ok_def by metis
  moreover have "last_n capacity es = [] \<longleftrightarrow> capacity = 0 \<or> es = []" by (cases es) (auto simp: last_n_def)
  moreover have "last_n capacity es \<noteq> [] \<Longrightarrow> last (last_n capacity es) = last es"
    unfolding last_n_def by (rule last_drop) (metis drop_all not_le)
  ultimately show ?thesis using inv by (auto simp: history_pop_def)
qed

definition demo_entry :: "nat \<Rightarrow> closed_tab_entry" where
  "demo_entry n = \<lparr>ce_snapshot = snap_of demo_tab, ce_origin_window_id = n, ce_origin_workspace_id = 1, ce_origin_index = 0\<rparr>"

theorem closed_tab_history_is_lifo_witness:
  "h_entries (foldl history_push (history_new 2) [demo_entry 1, demo_entry 2, demo_entry 3]) = [demo_entry 2, demo_entry 3]"
  using closed_tab_history_is_lifo [of 2 "[demo_entry 1, demo_entry 2, demo_entry 3]"]
  by (simp add: last_n_def usize_max_def)

end
